(* ===== verification/Reqx_Prelude.thy ===== *)
theory Reqx_Prelude
  imports Main "HOL-Library.Char_ord" "HOL-Library.List_Lexorder"
begin

text \<open>
  The parts of the Rust language and its standard library that the crate uses, and the
  lemmas the components share.

  \<^item> \<open>result\<close> is \<open>std::result::Result\<close>; every early return of the source is an \<open>Err\<close> branch.
  \<^item> \<open>usize\<close>, \<open>u64\<close>, \<open>u32\<close> and \<open>u128\<close> values are natural numbers, and every operation that
    can leave the width is written with its bound: \<open>sat_add\<close>, \<open>sat_mul\<close> saturate, natural
    subtraction is \<open>saturating_sub\<close>. \<open>usize\<close> is 64 bits wide.
  \<^item> a \<open>Duration\<close> is its number of nanoseconds, at most \<open>duration_max\<close>
    (\<open>u64::MAX\<close> seconds and 999999999 nanoseconds); an \<open>Instant\<close> is a number of nanoseconds
    on the monotonic clock, at most \<open>instant_max\<close> (\<open>i64::MAX\<close> seconds, the Unix
    representation), so that \<open>checked_add\<close> can fail.
  \<^item> a \<open>str\<close> is its bytes. \<open>trim\<close> removes the ASCII white space characters.
\<close>

subsection \<open>Collections of rewrite rules\<close>

named_theorems std_defs \<open>definitions of the standard library operations\<close>
named_theorems policy_defs \<open>the default configurations of the crate\<close>
named_theorems op_defs \<open>definitions of the operations of a component\<close>

subsection \<open>Results\<close>

datatype (dead 'a, dead 'e) result = Ok (ok_of: 'a) | Err (err_of: 'e)

type_synonym 'e unit_result = "(unit, 'e) result"

definition is_ok :: "('a, 'e) result \<Rightarrow> bool" where
  "is_ok r = (case r of Ok _ \<Rightarrow> True | Err _ \<Rightarrow> False)"

definition result_bind :: "('a, 'e) result \<Rightarrow> ('a \<Rightarrow> ('b, 'e) result) \<Rightarrow> ('b, 'e) result" where
  "result_bind r f = (case r of Ok v \<Rightarrow> f v | Err e \<Rightarrow> Err e)"

definition map_err :: "('e \<Rightarrow> 'f) \<Rightarrow> ('a, 'e) result \<Rightarrow> ('a, 'f) result" where
  "map_err f r = (case r of Ok v \<Rightarrow> Ok v | Err e \<Rightarrow> Err (f e))"

lemma is_ok_simps [simp]: "is_ok (Ok v)" "\<not> is_ok (Err e)"
  by (simp_all add: is_ok_def)

lemma is_ok_iff: "is_ok r \<longleftrightarrow> (\<exists>v. r = Ok v)"
  by (cases r) simp_all

lemma result_bind_simps [simp]:
  "result_bind (Ok v) f = f v" "result_bind (Err e) f = Err e"
  by (simp_all add: result_bind_def)

lemma result_bind_Ok_iff:
  "result_bind r f = Ok w \<longleftrightarrow> (\<exists>v. r = Ok v \<and> f v = Ok w)"
  by (cases r) simp_all

lemma map_err_simps [simp]: "map_err f (Ok v) = Ok v" "map_err f (Err e) = Err (f e)"
  by (simp_all add: map_err_def)

subsection \<open>Options\<close>

definition is_none_or :: "('a \<Rightarrow> bool) \<Rightarrow> 'a option \<Rightarrow> bool" where
  "is_none_or p v = (case v of None \<Rightarrow> True | Some x \<Rightarrow> p x)"

definition is_some_and :: "('a \<Rightarrow> bool) \<Rightarrow> 'a option \<Rightarrow> bool" where
  "is_some_and p v = (case v of None \<Rightarrow> False | Some x \<Rightarrow> p x)"

definition unwrap_or :: "'a \<Rightarrow> 'a option \<Rightarrow> 'a" where
  "unwrap_or d v = (case v of None \<Rightarrow> d | Some x \<Rightarrow> x)"

lemma option_fun_simps [simp]:
  "is_none_or p None" "is_none_or p (Some x) = p x"
  "\<not> is_some_and p None" "is_some_and p (Some x) = p x"
  "unwrap_or d None = d" "unwrap_or d (Some x) = x"
  by (simp_all add: is_none_or_def is_some_and_def unwrap_or_def)

subsection \<open>Machine integers\<close>

definition u32_max :: nat where "u32_max = 2 ^ 32 - 1"
definition u64_max :: nat where "u64_max = 2 ^ 64 - 1"
definition u128_max :: nat where "u128_max = 2 ^ 128 - 1"
definition usize_max :: nat where "usize_max = 2 ^ 64 - 1"
definition isize_max :: nat where "isize_max = 2 ^ 63 - 1"

definition sat_add :: "nat \<Rightarrow> nat \<Rightarrow> nat \<Rightarrow> nat" where
  "sat_add bound a b = min bound (a + b)"

definition sat_mul :: "nat \<Rightarrow> nat \<Rightarrow> nat \<Rightarrow> nat" where
  "sat_mul bound a b = min bound (a * b)"

abbreviation usize_add :: "nat \<Rightarrow> nat \<Rightarrow> nat" where
  "usize_add \<equiv> sat_add usize_max"

abbreviation u64_add :: "nat \<Rightarrow> nat \<Rightarrow> nat" where
  "u64_add \<equiv> sat_add u64_max"

lemma sat_add_le [simp]: "sat_add bound a b \<le> bound"
  by (simp add: sat_add_def)

lemma sat_add_le_sum: "sat_add bound a b \<le> a + b"
  by (simp add: sat_add_def)

lemma sat_add_exact: "a + b \<le> bound \<Longrightarrow> sat_add bound a b = a + b"
  by (simp add: sat_add_def)

lemma sat_add_mono: "a \<le> bound \<Longrightarrow> a \<le> sat_add bound a b"
  by (simp add: sat_add_def)

lemma sat_add_pos: "0 < bound \<Longrightarrow> 0 < b \<Longrightarrow> 0 < sat_add bound a b"
  by (simp add: sat_add_def)

lemma sat_mul_le [simp]: "sat_mul bound a b \<le> bound"
  by (simp add: sat_mul_def)

lemma max_values:
  "u32_max = 4294967295" "u64_max = 18446744073709551615"
  "usize_max = 18446744073709551615" "isize_max = 9223372036854775807"
  "u128_max = 340282366920938463463374607431768211455"
  by (simp_all add: u32_max_def u64_max_def usize_max_def isize_max_def u128_max_def)

subsection \<open>Durations and instants\<close>

type_synonym duration = nat
type_synonym instant = nat
type_synonym system_time = nat

definition nanos_per_sec :: nat where "nanos_per_sec = 1000000000"
definition duration_max :: duration where
  "duration_max = u64_max * nanos_per_sec + 999999999"
definition instant_max :: instant where
  "instant_max = isize_max * nanos_per_sec + 999999999"

definition from_secs :: "nat \<Rightarrow> duration" where "from_secs s = s * nanos_per_sec"
definition from_millis :: "nat \<Rightarrow> duration" where "from_millis ms = ms * 1000000"
definition as_millis :: "duration \<Rightarrow> nat" where "as_millis d = d div 1000000"

definition checked_add :: "instant \<Rightarrow> duration \<Rightarrow> instant option" where
  "checked_add t d = (if t + d \<le> instant_max then Some (t + d) else None)"

definition saturating_duration_since :: "instant \<Rightarrow> instant \<Rightarrow> duration" where
  "saturating_duration_since t earlier = t - earlier"

lemmas duration_defs [std_defs] =
  nanos_per_sec_def duration_max_def instant_max_def from_secs_def from_millis_def
  as_millis_def checked_add_def saturating_duration_since_def

lemma duration_max_value: "duration_max = 18446744073709551615999999999"
  by (simp add: duration_max_def nanos_per_sec_def max_values)

lemma checked_add_Some: "checked_add t d = Some u \<Longrightarrow> u = t + d \<and> u \<le> instant_max"
  by (auto simp: checked_add_def split: if_splits)

subsection \<open>Strings\<close>

abbreviation byte_of :: "char \<Rightarrow> nat" where
  "byte_of \<equiv> of_char"

definition is_ascii_whitespace :: "char \<Rightarrow> bool" where
  "is_ascii_whitespace c = (byte_of c = 32 \<or> 9 \<le> byte_of c \<and> byte_of c \<le> 13)"

definition is_ascii_digit :: "char \<Rightarrow> bool" where
  "is_ascii_digit c = (48 \<le> byte_of c \<and> byte_of c \<le> 57)"

definition is_ascii_upper :: "char \<Rightarrow> bool" where
  "is_ascii_upper c = (65 \<le> byte_of c \<and> byte_of c \<le> 90)"

definition is_ascii_lower :: "char \<Rightarrow> bool" where
  "is_ascii_lower c = (97 \<le> byte_of c \<and> byte_of c \<le> 122)"

definition is_ascii_alphanumeric :: "char \<Rightarrow> bool" where
  "is_ascii_alphanumeric c = (is_ascii_digit c \<or> is_ascii_upper c \<or> is_ascii_lower c)"

definition ascii_lower :: "char \<Rightarrow> char" where
  "ascii_lower c = (if is_ascii_upper c then char_of (byte_of c + 32) else c)"

definition to_ascii_lowercase :: "string \<Rightarrow> string" where
  "to_ascii_lowercase s = map ascii_lower s"

definition eq_ignore_ascii_case :: "string \<Rightarrow> string \<Rightarrow> bool" where
  "eq_ignore_ascii_case s t = (to_ascii_lowercase s = to_ascii_lowercase t)"

definition trim_start_matches :: "(char \<Rightarrow> bool) \<Rightarrow> string \<Rightarrow> string" where
  "trim_start_matches p s = dropWhile p s"

definition trim_end_matches :: "(char \<Rightarrow> bool) \<Rightarrow> string \<Rightarrow> string" where
  "trim_end_matches p s = rev (dropWhile p (rev s))"

definition trim :: "string \<Rightarrow> string" where
  "trim s = trim_end_matches is_ascii_whitespace (trim_start_matches is_ascii_whitespace s)"

fun split_on :: "(char \<Rightarrow> bool) \<Rightarrow> string \<Rightarrow> string list" where
  "split_on p [] = [[]]"
| "split_on p (c # cs) =
     (if p c then [] # split_on p cs
      else case split_on p cs of [] \<Rightarrow> [[c]] | t # ts \<Rightarrow> (c # t) # ts)"

definition digit_value :: "char \<Rightarrow> nat" where
  "digit_value c = byte_of c - 48"

fun parse_digits :: "nat \<Rightarrow> string \<Rightarrow> nat" where
  "parse_digits n [] = n"
| "parse_digits n (c # cs) = parse_digits (10 * n + digit_value c) cs"

text \<open>
  \<open>str::parse\<close> at an unsigned integer type: an optional sign \<open>+\<close>, then one or more decimal
  digits, and the value within the width.
\<close>

definition parse_unsigned :: "nat \<Rightarrow> string \<Rightarrow> nat option" where
  "parse_unsigned bound s =
     (let ds = (case s of c # cs \<Rightarrow> if c = CHR ''+'' then cs else s | [] \<Rightarrow> s)
      in if ds \<noteq> [] \<and> list_all is_ascii_digit ds \<and> parse_digits 0 ds \<le> bound
         then Some (parse_digits 0 ds) else None)"

lemmas ascii_defs [std_defs] =
  is_ascii_whitespace_def is_ascii_digit_def is_ascii_upper_def is_ascii_lower_def
  is_ascii_alphanumeric_def ascii_lower_def

lemmas string_defs [std_defs] =
  to_ascii_lowercase_def eq_ignore_ascii_case_def trim_start_matches_def trim_end_matches_def
  trim_def digit_value_def parse_unsigned_def

lemma split_on_not_Nil [simp]: "split_on p s \<noteq> []"
  by (induction s) (auto split: list.splits)

lemma trim_end_matches_append: "\<exists>ws. s = trim_end_matches p s @ ws \<and> list_all p ws"
proof -
  have "rev s = takeWhile p (rev s) @ dropWhile p (rev s)" by simp
  then have "rev (rev s) = rev (dropWhile p (rev s)) @ rev (takeWhile p (rev s))"
    by (metis rev_append)
  then have "s = trim_end_matches p s @ rev (takeWhile p (rev s))"
    by (simp add: trim_end_matches_def)
  moreover have "list_all p (rev (takeWhile p (rev s)))"
    by (auto simp: list_all_iff dest: set_takeWhileD)
  ultimately show ?thesis by blast
qed

lemma trim_end_matches_last:
  "trim_end_matches p s \<noteq> [] \<Longrightarrow> \<not> p (last (trim_end_matches p s))"
  by (metis hd_dropWhile last_rev rev_is_Nil_conv trim_end_matches_def)

lemma trim_end_matches_idem [simp]:
  "trim_end_matches p (trim_end_matches p s) = trim_end_matches p s"
  by (simp add: trim_end_matches_def)

lemma ascii_lower_idem [simp]: "ascii_lower (ascii_lower c) = ascii_lower c"
  by (auto simp: ascii_defs)

lemma to_ascii_lowercase_idem [simp]:
  "to_ascii_lowercase (to_ascii_lowercase s) = to_ascii_lowercase s"
  by (simp add: to_ascii_lowercase_def)

lemma length_to_ascii_lowercase [simp]: "length (to_ascii_lowercase s) = length s"
  by (simp add: to_ascii_lowercase_def)

lemma to_ascii_lowercase_Nil_iff [simp]: "to_ascii_lowercase s = [] \<longleftrightarrow> s = []"
  by (simp add: to_ascii_lowercase_def)

lemma parse_unsigned_bound: "parse_unsigned bound s = Some n \<Longrightarrow> n \<le> bound"
  by (auto simp: parse_unsigned_def Let_def split: if_splits)

end
