(* ===== verification/Reqx_F64.thy ===== *)
theory Reqx_F64
  imports Complex_Main Reqx_Prelude
begin

text \<open>
  The \<open>f64\<close> values of Rust (IEEE 754 binary64) as the crate uses them. A finite value is the
  real number it stands for; the sign of zero is not kept, since no operation of the crate
  observes it. Every arithmetic operation is the exact result rounded by \<open>fl\<close>: round to the
  nearest multiple of the unit in the last place, ties to even, overflow to an infinity.

  The locale \<open>rounding\<close> states what the clients rely on (monotone, exact on 0 and on integers
  up to \<open>2 ^ 53\<close>); it is interpreted on \<open>rnd\<close>, the rounding function of the model.
\<close>

subsection \<open>Rounding to binary64\<close>

definition round_half_even :: "real \<Rightarrow> int" where
  "round_half_even y =
     (let f = \<lfloor>y\<rfloor>; d = y - of_int f
      in if d < 1 / 2 then f else if d > 1 / 2 then f + 1 else if even f then f else f + 1)"

definition ulp_exp :: "real \<Rightarrow> int" where
  "ulp_exp x = max (\<lfloor>log 2 \<bar>x\<bar>\<rfloor> - 52) (-1074)"

definition rnd :: "real \<Rightarrow> real" where
  "rnd x = (if x = 0 then 0
            else of_int (round_half_even (x / 2 powi ulp_exp x)) * 2 powi ulp_exp x)"

datatype f64 = Fin real | Inf | NegInf | NaN

definition fl :: "real \<Rightarrow> f64" where
  "fl x = (let r = rnd x in if r \<ge> 2 ^ 1024 then Inf else if r \<le> - (2 ^ 1024) then NegInf else Fin r)"

lemma round_half_even_int [simp]: "round_half_even (of_int n) = n"
  by (simp add: round_half_even_def)

lemma round_half_even_cases:
  "round_half_even y = \<lfloor>y\<rfloor> \<and> y \<le> of_int \<lfloor>y\<rfloor> + 1 / 2 \<or>
   round_half_even y = \<lfloor>y\<rfloor> + 1 \<and> y \<ge> of_int \<lfloor>y\<rfloor> + 1 / 2"
  by (auto simp: round_half_even_def Let_def)

lemma round_half_even_mono: "x \<le> y \<Longrightarrow> round_half_even x \<le> round_half_even y"
proof -
  assume le: "x \<le> y"
  then have fl: "\<lfloor>x\<rfloor> \<le> \<lfloor>y\<rfloor>" by (rule floor_mono)
  show ?thesis
  proof (cases "\<lfloor>x\<rfloor> = \<lfloor>y\<rfloor>")
    case True
    with le show ?thesis by (auto simp: round_half_even_def Let_def)
  next
    case False
    with fl have "\<lfloor>x\<rfloor> + 1 \<le> \<lfloor>y\<rfloor>" by simp
    with round_half_even_cases [of x] round_half_even_cases [of y] show ?thesis by linarith
  qed
qed

lemma round_half_even_neg: "round_half_even (- y) = - round_half_even y"
proof (cases "y = of_int \<lfloor>y\<rfloor>")
  case True
  then show ?thesis by (metis of_int_minus round_half_even_int)
next
  case False
  then have "\<lfloor>- y\<rfloor> = - \<lfloor>y\<rfloor> - 1" by linarith
  then show ?thesis by (auto simp: round_half_even_def Let_def)
qed

lemma rnd_0 [simp]: "rnd 0 = 0"
  by (simp add: rnd_def)

lemma rnd_neg: "rnd (- x) = - rnd x"
  by (simp add: rnd_def ulp_exp_def round_half_even_neg)

lemma powi_multiple:
  assumes "e \<le> (k::int)" shows "\<exists>n::int. (2::real) powi k / 2 powi e = of_int n"
proof -
  have "(2::real) powi k / 2 powi e = 2 powi (k - e)"
    by (simp add: power_int_diff)
  also have "\<dots> = of_int (2 ^ nat (k - e))"
    using assms by (simp add: power_int_def)
  finally show ?thesis by blast
qed

lemma rnd_le_bound:
  assumes "x \<noteq> 0" "x \<le> 2 powi k" "ulp_exp x \<le> k"
  shows "rnd x \<le> 2 powi k"
proof -
  let ?u = "(2::real) powi ulp_exp x"
  obtain n where n: "2 powi k / ?u = of_int n" using powi_multiple [OF assms(3)] by blast
  have "x / ?u \<le> of_int n" using assms(2) n by (metis divide_right_mono zero_le_numeral zero_le_power_int)
  then have "round_half_even (x / ?u) \<le> n" by (metis round_half_even_int round_half_even_mono)
  then have "of_int (round_half_even (x / ?u)) * ?u \<le> of_int n * ?u"
    by (simp add: mult_right_mono)
  also have "\<dots> = 2 powi k" using n by (simp add: field_simps)
  finally show ?thesis using assms(1) by (simp add: rnd_def)
qed

lemma rnd_ge_bound:
  assumes "x \<noteq> 0" "2 powi k \<le> x" "ulp_exp x \<le> k"
  shows "2 powi k \<le> rnd x"
proof -
  let ?u = "(2::real) powi ulp_exp x"
  obtain n where n: "2 powi k / ?u = of_int n" using powi_multiple [OF assms(3)] by blast
  have "of_int n \<le> x / ?u" using assms(2) n by (metis divide_right_mono zero_le_numeral zero_le_power_int)
  then have "n \<le> round_half_even (x / ?u)" by (metis round_half_even_int round_half_even_mono)
  then have "of_int n * ?u \<le> of_int (round_half_even (x / ?u)) * ?u"
    by (simp add: mult_right_mono)
  moreover have "of_int n * ?u = 2 powi k" using n by (simp add: field_simps)
  ultimately show ?thesis using assms(1) by (simp add: rnd_def)
qed

lemma ulp_exp_mono: "0 < x \<Longrightarrow> x \<le> y \<Longrightarrow> ulp_exp x \<le> ulp_exp y"
proof -
  assume "0 < x" "x \<le> y"
  then have "log 2 \<bar>x\<bar> \<le> log 2 \<bar>y\<bar>" by simp
  then have "\<lfloor>log 2 \<bar>x\<bar>\<rfloor> \<le> \<lfloor>log 2 \<bar>y\<bar>\<rfloor>" by (rule floor_mono)
  then show ?thesis by (simp add: ulp_exp_def)
qed

lemma powi_le_iff_log: "0 < x \<Longrightarrow> 2 powi k \<le> x \<longleftrightarrow> of_int k \<le> log 2 x"
  by (simp add: le_log_iff powr_real_of_int')

lemma rnd_mono_pos:
  assumes "0 < x" "x \<le> y" shows "rnd x \<le> rnd y"
proof (cases "ulp_exp x = ulp_exp y")
  case True
  have "x / 2 powi ulp_exp y \<le> y / 2 powi ulp_exp y"
    using assms by (simp add: divide_right_mono)
  from round_half_even_mono [OF this] show ?thesis
    using assms True by (simp add: rnd_def mult_right_mono)
next
  case False
  define k where "k = \<lfloor>log 2 y\<rfloor>"
  have lt: "ulp_exp x < ulp_exp y" using ulp_exp_mono [OF assms] False by simp
  then have ky: "ulp_exp y = k - 52" and kx: "\<lfloor>log 2 x\<rfloor> < k" and ux: "ulp_exp x \<le> k"
    using assms unfolding ulp_exp_def k_def by simp_all linarith+
  have "2 powi k \<le> y" using assms by (simp add: powi_le_iff_log k_def)
  then have "2 powi k \<le> rnd y" using assms ky by (intro rnd_ge_bound) auto
  moreover have "x \<le> 2 powi k"
    using assms kx powi_le_iff_log [of x k] by (simp add: le_floor_iff [symmetric])
  then have "rnd x \<le> 2 powi k" using assms ux by (intro rnd_le_bound) auto
  ultimately show ?thesis by simp
qed

lemma rnd_nonneg: "0 \<le> x \<Longrightarrow> 0 \<le> rnd x"
proof (cases "x = 0")
  case False
  assume "0 \<le> x"
  then have "0 \<le> x / 2 powi ulp_exp x" by simp
  then have "round_half_even (of_int 0) \<le> round_half_even (x / 2 powi ulp_exp x)"
    by (intro round_half_even_mono) simp
  then have "0 \<le> round_half_even (x / 2 powi ulp_exp x)" by (metis round_half_even_int)
  then show ?thesis by (simp add: rnd_def)
qed simp

lemma rnd_mono: "x \<le> y \<Longrightarrow> rnd x \<le> rnd y"
proof -
  assume le: "x \<le> y"
  consider "0 < x" | "x \<le> 0" "0 \<le> y" | "y < 0" by linarith
  then show ?thesis
  proof cases
    case 1
    with le show ?thesis by (rule rnd_mono_pos [rotated])
  next
    case 2
    have "rnd x = - rnd (- x)" using rnd_neg [of "- x"] by simp
    then show ?thesis using rnd_nonneg [of "- x"] rnd_nonneg [of y] 2 by simp
  next
    case 3
    have "rnd (- y) \<le> rnd (- x)" using 3 le by (intro rnd_mono_pos) auto
    then show ?thesis by (simp add: rnd_neg)
  qed
qed

lemma rnd_powi: "-1074 \<le> k \<Longrightarrow> rnd (2 powi k) = 2 powi k"
proof -
  assume "-1074 \<le> k"
  moreover have "\<lfloor>log 2 \<bar>(2::real) powi k\<bar>\<rfloor> = k"
    by (simp flip: powr_real_of_int')
  ultimately have "ulp_exp (2 powi k) \<le> k" by (simp add: ulp_exp_def)
  then show ?thesis using rnd_ge_bound [of "2 powi k" k] rnd_le_bound [of "2 powi k" k]
    by (simp add: order_antisym)
qed

lemma rnd_int:
  assumes "\<bar>n\<bar> \<le> 2 ^ 53" shows "rnd (of_int n) = of_int n"
proof -
  consider "n = 0" | "\<bar>n\<bar> = 2 ^ 53" | "n \<noteq> 0" "\<bar>n\<bar> < 2 ^ 53" using assms by linarith
  then show ?thesis
  proof cases
    case 2
    have p: "rnd (2 ^ 53) = 2 ^ 53" using rnd_powi [of 53] by simp
    then have "rnd (- (2 ^ 53)) = - (2 ^ 53)" by (simp only: rnd_neg)
    moreover from 2 have "n = 2 ^ 53 \<or> n = - (2 ^ 53)" by linarith
    ultimately show ?thesis using p by auto
  next
    case 3
    then have "real_of_int \<bar>n\<bar> < of_int (2 ^ 53)" by (simp only: of_int_less_iff)
    then have "log 2 \<bar>of_int n\<bar> < 53" using 3(1) by (simp add: log_less_iff)
    then have "\<lfloor>log 2 \<bar>real_of_int n\<bar>\<rfloor> \<le> 52" by linarith
    then have u: "ulp_exp (of_int n) \<le> 0" by (simp add: ulp_exp_def)
    obtain m where m: "(2::real) powi 0 / 2 powi ulp_exp (of_int n) = of_int m"
      using powi_multiple [OF u] by blast
    then have m': "1 / 2 powi ulp_exp (of_int n) = real_of_int m" by simp
    have "real_of_int n / 2 powi ulp_exp (of_int n) = of_int (n * m)"
      by (metis m' of_int_mult times_divide_eq_right mult.right_neutral)
    then have r: "round_half_even (of_int n / 2 powi ulp_exp (of_int n)) = n * m"
      by (metis round_half_even_int)
    have "real_of_int (n * m) * 2 powi ulp_exp (of_int n) = of_int n"
      by (simp flip: m')
    with 3 r show ?thesis by (simp add: rnd_def)
  qed simp
qed

subsection \<open>What the clients rely on\<close>

locale rounding =
  fixes r :: "real \<Rightarrow> real"
  assumes mono: "x \<le> y \<Longrightarrow> r x \<le> r y"
    and exact_int: "\<bar>n\<bar> \<le> 2 ^ 53 \<Longrightarrow> r (of_int n) = of_int n"
begin

lemma zero: "r 0 = 0"
  using exact_int [of 0] by simp

lemma one: "r 1 = 1"
  using exact_int [of 1] by simp

lemma nonneg: "0 \<le> x \<Longrightarrow> 0 \<le> r x"
  using mono [of 0 x] zero by simp

lemma exact_nat: "n \<le> 2 ^ 53 \<Longrightarrow> r (of_nat n) = of_nat n"
  using exact_int [of "int n"] by simp

lemma le_nat: "n \<le> 2 ^ 53 \<Longrightarrow> x \<le> of_nat n \<Longrightarrow> r x \<le> of_nat n"
  using mono [of x "of_nat n"] exact_nat [of n] by simp

lemma ge_nat: "n \<le> 2 ^ 53 \<Longrightarrow> of_nat n \<le> x \<Longrightarrow> of_nat n \<le> r x"
  using mono [of "of_nat n" x] exact_nat [of n] by simp

text \<open>Scaling a count by a ratio at most one never exceeds the rounded count.\<close>

lemma scale_le: "0 \<le> x \<Longrightarrow> q \<le> 1 \<Longrightarrow> r (x * q) \<le> r x"
  by (rule mono) (simp add: mult_left_le)

end

interpretation bin64: rounding rnd
  by unfold_locales (simp_all add: rnd_mono rnd_int)

subsection \<open>Operations on f64 values\<close>

fun is_finite :: "f64 \<Rightarrow> bool" where
  "is_finite (Fin x) = True"
| "is_finite _ = False"

fun f64_le :: "f64 \<Rightarrow> f64 \<Rightarrow> bool" where
  "f64_le NaN b = False"
| "f64_le a NaN = False"
| "f64_le NegInf b = True"
| "f64_le a Inf = True"
| "f64_le (Fin x) (Fin y) = (x \<le> y)"
| "f64_le _ _ = False"

definition f64_lt :: "f64 \<Rightarrow> f64 \<Rightarrow> bool" where
  "f64_lt a b = (f64_le a b \<and> a \<noteq> b)"

fun f64_add :: "f64 \<Rightarrow> f64 \<Rightarrow> f64" where
  "f64_add (Fin x) (Fin y) = fl (x + y)"
| "f64_add NaN b = NaN"
| "f64_add a NaN = NaN"
| "f64_add Inf NegInf = NaN"
| "f64_add NegInf Inf = NaN"
| "f64_add Inf b = Inf"
| "f64_add a Inf = Inf"
| "f64_add NegInf b = NegInf"
| "f64_add a NegInf = NegInf"

fun f64_neg :: "f64 \<Rightarrow> f64" where
  "f64_neg (Fin x) = Fin (- x)"
| "f64_neg Inf = NegInf"
| "f64_neg NegInf = Inf"
| "f64_neg NaN = NaN"

definition f64_sub :: "f64 \<Rightarrow> f64 \<Rightarrow> f64" where
  "f64_sub a b = f64_add a (f64_neg b)"

definition inf_of_sign :: "real \<Rightarrow> f64" where
  "inf_of_sign x = (if x = 0 then NaN else if 0 < x then Inf else NegInf)"

fun f64_mul :: "f64 \<Rightarrow> f64 \<Rightarrow> f64" where
  "f64_mul (Fin x) (Fin y) = fl (x * y)"
| "f64_mul NaN b = NaN"
| "f64_mul a NaN = NaN"
| "f64_mul (Fin x) Inf = inf_of_sign x"
| "f64_mul (Fin x) NegInf = inf_of_sign (- x)"
| "f64_mul Inf (Fin y) = inf_of_sign y"
| "f64_mul NegInf (Fin y) = inf_of_sign (- y)"
| "f64_mul Inf Inf = Inf"
| "f64_mul NegInf NegInf = Inf"
| "f64_mul _ _ = NegInf"

fun f64_div :: "f64 \<Rightarrow> f64 \<Rightarrow> f64" where
  "f64_div (Fin x) (Fin y) = (if y = 0 then inf_of_sign x else fl (x / y))"
| "f64_div NaN b = NaN"
| "f64_div a NaN = NaN"
| "f64_div (Fin x) b = Fin 0"
| "f64_div Inf (Fin y) = (if y < 0 then NegInf else Inf)"
| "f64_div NegInf (Fin y) = (if y < 0 then Inf else NegInf)"
| "f64_div _ _ = NaN"

definition f64_min :: "f64 \<Rightarrow> f64 \<Rightarrow> f64" where
  "f64_min a b = (if a = NaN then b else if b = NaN then a else if f64_le a b then a else b)"

definition f64_max :: "f64 \<Rightarrow> f64 \<Rightarrow> f64" where
  "f64_max a b = (if a = NaN then b else if b = NaN then a else if f64_le a b then b else a)"

fun f64_floor :: "f64 \<Rightarrow> f64" where
  "f64_floor (Fin x) = Fin (of_int \<lfloor>x\<rfloor>)"
| "f64_floor a = a"

text \<open>\<open>f64::round\<close> rounds half-way cases away from zero.\<close>

fun f64_round :: "f64 \<Rightarrow> f64" where
  "f64_round (Fin x) = Fin (if 0 \<le> x then of_int \<lfloor>x + 1 / 2\<rfloor> else - of_int \<lfloor>1 / 2 - x\<rfloor>)"
| "f64_round a = a"

definition f64_of_nat :: "nat \<Rightarrow> f64" where
  "f64_of_nat n = fl (of_nat n)"

text \<open>The saturating cast \<open>x as usize\<close> (or \<open>as u128\<close>), with \<open>NaN\<close> giving 0.\<close>

fun f64_as_uint :: "nat \<Rightarrow> f64 \<Rightarrow> nat" where
  "f64_as_uint bound (Fin x) = min bound (nat \<lfloor>x\<rfloor>)"
| "f64_as_uint bound Inf = bound"
| "f64_as_uint bound _ = 0"

definition f64_epsilon :: f64 where
  "f64_epsilon = Fin (1 / 2 ^ 52)"

definition as_secs_f64 :: "duration \<Rightarrow> f64" where
  "as_secs_f64 d =
     f64_add (f64_of_nat (d div nanos_per_sec))
       (f64_div (f64_of_nat (d mod nanos_per_sec)) (f64_of_nat nanos_per_sec))"

subsection \<open>Facts on the operations\<close>

lemma f64_le_refl_iff [simp]: "f64_le a a \<longleftrightarrow> a \<noteq> NaN"
  by (cases a) simp_all

lemma f64_le_trans: "f64_le a b \<Longrightarrow> f64_le b c \<Longrightarrow> f64_le a c"
  by (cases a; cases b; cases c) simp_all

lemma f64_le_linear: "a \<noteq> NaN \<Longrightarrow> b \<noteq> NaN \<Longrightarrow> f64_le a b \<or> f64_le b a"
  by (cases a; cases b) auto

lemma f64_le_not_NaN: "f64_le a b \<Longrightarrow> a \<noteq> NaN \<and> b \<noteq> NaN"
  by (cases a; cases b) simp_all

lemma f64_le_antisym: "f64_le a b \<Longrightarrow> f64_le b a \<Longrightarrow> a = b"
  by (cases a; cases b) simp_all

lemma f64_min_le:
  "a \<noteq> NaN \<Longrightarrow> b \<noteq> NaN \<Longrightarrow> f64_le (f64_min a b) a \<and> f64_le (f64_min a b) b"
  using f64_le_linear [of a b] by (auto simp: f64_min_def)

lemma f64_max_ge:
  "a \<noteq> NaN \<Longrightarrow> b \<noteq> NaN \<Longrightarrow> f64_le a (f64_max a b) \<and> f64_le b (f64_max a b)"
  using f64_le_linear [of a b] by (auto simp: f64_max_def)

lemma fl_not_NaN [simp]: "fl x \<noteq> NaN"
  by (simp add: fl_def Let_def)

lemma fl_mono: "x \<le> y \<Longrightarrow> f64_le (fl x) (fl y)"
  using bin64.mono [of x y] by (auto simp: fl_def Let_def)

lemma fl_0 [simp]: "fl 0 = Fin 0"
  by (simp add: fl_def)

lemma fl_nonneg: "0 \<le> x \<Longrightarrow> f64_le (Fin 0) (fl x)"
  using fl_mono [of 0 x] by simp

lemma pow53_lt_1024: "(2::real) ^ 53 < 2 ^ 1024"
  by (rule power_strict_increasing) simp_all

lemma fl_nat: "n \<le> 2 ^ 53 \<Longrightarrow> fl (of_nat n) = Fin (of_nat n)"
proof -
  assume n: "n \<le> 2 ^ 53"
  then have "real n \<le> 2 ^ 53" by (metis of_nat_le_iff of_nat_numeral of_nat_power)
  with pow53_lt_1024 have "real n < 2 ^ 1024" by linarith
  moreover have "- (2 ^ 1024) < (0::real)" by simp
  then have "- (2 ^ 1024) < real n" by (rule less_le_trans) simp
  ultimately show ?thesis by (simp add: fl_def Let_def bin64.exact_nat [OF n] not_le)
qed

lemma fl_1 [simp]: "fl 1 = Fin 1"
  using fl_nat [of 1] by simp

lemma f64_of_nat_small: "n \<le> 2 ^ 53 \<Longrightarrow> f64_of_nat n = Fin (of_nat n)"
  by (simp add: f64_of_nat_def fl_nat)

lemma f64_of_nat_not_NaN [simp]: "f64_of_nat n \<noteq> NaN"
  by (simp add: f64_of_nat_def)

lemma f64_of_nat_nonneg: "f64_le (Fin 0) (f64_of_nat n)"
  by (simp add: f64_of_nat_def fl_nonneg)

lemma f64_as_uint_le [simp]: "f64_as_uint bound a \<le> bound"
  by (cases a) simp_all

lemma f64_as_uint_mono: "f64_le a b \<Longrightarrow> f64_as_uint bound a \<le> f64_as_uint bound b"
  by (cases a; cases b) (auto simp: min_def elim!: order_trans intro!: nat_mono floor_mono)

lemma f64_floor_mono: "f64_le a b \<Longrightarrow> f64_le (f64_floor a) (f64_floor b)"
  by (cases a; cases b) (auto intro: floor_mono)

lemma f64_floor_le: "a \<noteq> NaN \<Longrightarrow> f64_le (f64_floor a) a"
  by (cases a) simp_all

lemma f64_mul_mono:
  "f64_le a b \<Longrightarrow> f64_le (Fin 0) a \<Longrightarrow> 0 \<le> q \<Longrightarrow> is_finite b \<Longrightarrow> f64_le (f64_mul a (Fin q)) (f64_mul b (Fin q))"
  by (cases a; cases b) (auto intro!: fl_mono mult_right_mono)

lemma f64_of_nat_mono: "m \<le> n \<Longrightarrow> f64_le (f64_of_nat m) (f64_of_nat n)"
  unfolding f64_of_nat_def by (rule fl_mono) simp

lemma f64_of_nat_finite: "n \<le> usize_max \<Longrightarrow> is_finite (f64_of_nat n)"
proof -
  assume "n \<le> usize_max"
  then have "n \<le> 2 ^ 64" by (simp add: max_values)
  then have n: "real n \<le> 2 ^ 64" by (metis of_nat_le_iff of_nat_numeral of_nat_power)
  have "rnd (real n) \<le> rnd (2 powi 64)" by (rule bin64.mono) (use n in simp)
  also have "\<dots> = 2 powi 64" by (rule rnd_powi) simp
  also have "\<dots> = 2 ^ 64" by simp
  also have "(2::real) ^ 64 < 2 ^ 1024" by (rule power_strict_increasing) simp_all
  finally have "rnd (real n) < 2 ^ 1024" .
  moreover have "0 \<le> rnd (real n)" by (rule bin64.nonneg) simp
  moreover have "- (2 ^ 1024) < (0::real)" by simp
  ultimately show ?thesis by (auto simp: f64_of_nat_def fl_def Let_def not_le)
qed

lemma f64_floor_scaled_le:
  assumes "n \<le> 2 ^ 53" "0 \<le> q" "q \<le> 1"
  shows "f64_as_uint bound (f64_floor (f64_mul (f64_of_nat n) (Fin q))) \<le> n"
proof -
  have "f64_le (fl (real n * q)) (fl (real n))"
    using assms by (intro fl_mono) (simp add: mult_left_le)
  then have "f64_le (f64_floor (fl (real n * q))) (Fin (real n))"
    using f64_floor_mono [of "fl (real n * q)" "fl (real n)"] by (simp add: fl_nat [OF assms(1)])
  then show ?thesis
    using f64_as_uint_mono [of "f64_floor (fl (real n * q))" "Fin (real n)" bound]
    by (simp add: f64_of_nat_small [OF assms(1)])
qed

end
