(* ===== verification/Reqx_Http.thy ===== *)
theory Reqx_Http
  imports Reqx_Prelude
begin

text \<open>
  The interface of the third-party crates \<open>http\<close> and \<open>url\<close>, whose code is not part of the
  repository. A \<open>Method\<close> is its token and a \<open>StatusCode\<close> its number; \<open>HeaderMap\<close>, \<open>HeaderValue\<close>,
  \<open>Uri\<close> and \<open>Url\<close> are type variables, and the operations the crate calls on them are records
  of functions that every definition using them takes as an argument. What the crate relies on
  is \<open>header_map_laws\<close>; \<open>alist_headers\<close> is a concrete instance, which the witnesses use.
\<close>

subsection \<open>Methods and status codes\<close>

type_synonym http_method = string
type_synonym status = nat

abbreviation method_GET :: http_method where "method_GET \<equiv> ''GET''"
abbreviation method_HEAD :: http_method where "method_HEAD \<equiv> ''HEAD''"
abbreviation method_POST :: http_method where "method_POST \<equiv> ''POST''"
abbreviation method_PUT :: http_method where "method_PUT \<equiv> ''PUT''"
abbreviation method_DELETE :: http_method where "method_DELETE \<equiv> ''DELETE''"
abbreviation method_OPTIONS :: http_method where "method_OPTIONS \<equiv> ''OPTIONS''"
abbreviation method_TRACE :: http_method where "method_TRACE \<equiv> ''TRACE''"

definition is_success :: "status \<Rightarrow> bool" where
  "is_success s = (200 \<le> s \<and> s < 300)"

subsection \<open>Header maps\<close>

record ('h, 'v) header_ops =
  hm_get :: "'h \<Rightarrow> string \<Rightarrow> 'v option"
  hm_get_all :: "'h \<Rightarrow> string \<Rightarrow> 'v list"
  hm_contains_key :: "'h \<Rightarrow> string \<Rightarrow> bool"
  hm_insert :: "string \<Rightarrow> 'v \<Rightarrow> 'h \<Rightarrow> 'h"
  hm_remove :: "string \<Rightarrow> 'h \<Rightarrow> 'h"
  hm_iter :: "'h \<Rightarrow> (string \<times> 'v) list"
  hm_extend :: "'h \<Rightarrow> 'h \<Rightarrow> 'h"
  hv_to_str :: "'v \<Rightarrow> string option"
  hv_from_static :: "string \<Rightarrow> 'v"
  hv_is_sensitive :: "'v \<Rightarrow> bool"
  hn_from_bytes :: "string \<Rightarrow> string option"

definition header_map_laws :: "('h, 'v) header_ops \<Rightarrow> bool" where
  "header_map_laws H \<longleftrightarrow>
     (\<forall>h k. hm_get H h k = (case hm_get_all H h k of [] \<Rightarrow> None | v # vs \<Rightarrow> Some v)) \<and>
     (\<forall>h k. hm_contains_key H h k = (hm_get_all H h k \<noteq> [])) \<and>
     (\<forall>h k v k'. hm_get_all H (hm_insert H k v h) k' =
        (if k' = k then [v] else hm_get_all H h k')) \<and>
     (\<forall>h k k'. hm_get_all H (hm_remove H k h) k' =
        (if k' = k then [] else hm_get_all H h k')) \<and>
     (\<forall>h k v. (k, v) \<in> set (hm_iter H h) \<longleftrightarrow> v \<in> set (hm_get_all H h k))"

lemma header_map_lawsD:
  assumes "header_map_laws H"
  shows hm_get_eq: "hm_get H h k = (case hm_get_all H h k of [] \<Rightarrow> None | v # vs \<Rightarrow> Some v)"
    and hm_contains_key_eq: "hm_contains_key H h k \<longleftrightarrow> hm_get_all H h k \<noteq> []"
    and hm_get_all_insert: "hm_get_all H (hm_insert H k v h) k' =
        (if k' = k then [v] else hm_get_all H h k')"
    and hm_get_all_remove: "hm_get_all H (hm_remove H k h) k' =
        (if k' = k then [] else hm_get_all H h k')"
    and hm_iter_iff: "(k, v) \<in> set (hm_iter H h) \<longleftrightarrow> v \<in> set (hm_get_all H h k)"
  using assms unfolding header_map_laws_def by blast+

lemma hm_get_None_iff:
  "header_map_laws H \<Longrightarrow> hm_get H h k = None \<longleftrightarrow> hm_get_all H h k = []"
  by (simp add: hm_get_eq split: list.splits)

lemma hm_get_all_fold_remove:
  assumes "header_map_laws H"
  shows "hm_get_all H (fold (hm_remove H) ks h) k =
    (if k \<in> set ks then [] else hm_get_all H h k)"
  by (induction ks arbitrary: h) (auto simp: hm_get_all_remove [OF assms])

subsection \<open>URIs\<close>

record 'u uri_ops =
  uri_parse :: "string \<Rightarrow> 'u option"
  uri_to_string :: "'u \<Rightarrow> string"
  uri_scheme_str :: "'u \<Rightarrow> string option"
  uri_authority :: "'u \<Rightarrow> string option"
  uri_host :: "'u \<Rightarrow> string option"
  uri_port_u16 :: "'u \<Rightarrow> nat option"
  uri_path_and_query :: "'u \<Rightarrow> (string \<times> string option) option"
  uri_path :: "'u \<Rightarrow> string"

record 'w url_ops =
  url_parse :: "string \<Rightarrow> 'w option"
  url_join :: "'w \<Rightarrow> string \<Rightarrow> 'w option"
  url_to_string :: "'w \<Rightarrow> string"
  url_scheme :: "'w \<Rightarrow> string"
  url_username :: "'w \<Rightarrow> string"
  url_password :: "'w \<Rightarrow> string option"
  url_host_str :: "'w \<Rightarrow> string option"
  url_query :: "'w \<Rightarrow> string option"
  url_fragment :: "'w \<Rightarrow> string option"
  url_path :: "'w \<Rightarrow> string"
  url_path_segments :: "'w \<Rightarrow> string list option"
  url_set_username :: "string \<Rightarrow> 'w \<Rightarrow> 'w"
  url_set_password :: "string option \<Rightarrow> 'w \<Rightarrow> 'w"
  url_set_query :: "string option \<Rightarrow> 'w \<Rightarrow> 'w"
  url_set_fragment :: "string option \<Rightarrow> 'w \<Rightarrow> 'w"
  url_set_path :: "string \<Rightarrow> 'w \<Rightarrow> 'w"

subsection \<open>A concrete instance of the header interface\<close>

text \<open>Header maps as lists of name and value, a value being its text and its sensitivity.\<close>

type_synonym alist_header_map = "(string \<times> (string \<times> bool)) list"

definition alist_get_all :: "alist_header_map \<Rightarrow> string \<Rightarrow> (string \<times> bool) list" where
  "alist_get_all h k = map snd (filter (\<lambda>e. fst e = k) h)"

definition alist_headers :: "(alist_header_map, string \<times> bool) header_ops" where
  "alist_headers = \<lparr>
     hm_get = (\<lambda>h k. case alist_get_all h k of [] \<Rightarrow> None | v # vs \<Rightarrow> Some v),
     hm_get_all = alist_get_all,
     hm_contains_key = (\<lambda>h k. alist_get_all h k \<noteq> []),
     hm_insert = (\<lambda>k v h. filter (\<lambda>e. fst e \<noteq> k) h @ [(k, v)]),
     hm_remove = (\<lambda>k h. filter (\<lambda>e. fst e \<noteq> k) h),
     hm_iter = (\<lambda>h. h),
     hm_extend = (\<lambda>h h'. filter (\<lambda>e. fst e \<notin> fst ` set h') h @ h'),
     hv_to_str = (\<lambda>v. Some (fst v)),
     hv_from_static = (\<lambda>s. (s, False)),
     hv_is_sensitive = snd,
     hn_from_bytes = (\<lambda>s. if s = [] then None else Some (to_ascii_lowercase s)) \<rparr>"

lemma alist_get_all_filter_other:
  "k' \<noteq> k \<Longrightarrow> alist_get_all (filter (\<lambda>e. fst e \<noteq> k) h) k' = alist_get_all h k'"
  by (induction h) (auto simp: alist_get_all_def)

lemma alist_get_all_filter_same: "alist_get_all (filter (\<lambda>e. fst e \<noteq> k) h) k = []"
  by (auto simp: alist_get_all_def filter_empty_conv)

lemma alist_get_all_append: "alist_get_all (h @ h') k = alist_get_all h k @ alist_get_all h' k"
  by (simp add: alist_get_all_def)

lemma alist_headers_laws [simp]: "header_map_laws alist_headers"
  unfolding header_map_laws_def alist_headers_def
  by (auto simp: alist_get_all_filter_other alist_get_all_filter_same alist_get_all_append)
     (auto simp: alist_get_all_def image_iff)

subsection \<open>Concrete instances of the URI interfaces\<close>

text \<open>
  Small instances for the witnesses: a URI is its scheme, host and path as a triple, printed as
  \<open>scheme://host/path\<close> and parsed back from the texts it prints (any text with no colon is a
  relative reference), and a \<open>Url\<close> parser that accepts nothing.
\<close>

type_synonym triple_uri = "string option \<times> string option \<times> string"

definition triple_uris :: "triple_uri uri_ops" where
  "triple_uris = \<lparr>
     uri_parse = (\<lambda>s. if CHR '':'' \<in> set s
        then (let scheme = takeWhile (\<lambda>c. c \<noteq> CHR '':'') s;
                  rest = drop 3 (dropWhile (\<lambda>c. c \<noteq> CHR '':'') s)
              in Some (Some scheme, Some (takeWhile (\<lambda>c. c \<noteq> CHR ''/'') rest),
                       dropWhile (\<lambda>c. c \<noteq> CHR ''/'') rest))
        else Some (None, None, s)),
     uri_to_string = (\<lambda>(scheme, host, path). case (scheme, host) of
          (Some sc, Some h) \<Rightarrow> sc @ ''://'' @ h @ path | _ \<Rightarrow> path),
     uri_scheme_str = fst,
     uri_authority = (\<lambda>u. fst (snd u)),
     uri_host = (\<lambda>u. fst (snd u)),
     uri_port_u16 = (\<lambda>u. None),
     uri_path_and_query = (\<lambda>u. Some (snd (snd u), None)),
     uri_path = (\<lambda>u. snd (snd u)) \<rparr>"

definition no_urls :: "unit url_ops" where
  "no_urls = \<lparr>
     url_parse = (\<lambda>s. None), url_join = (\<lambda>w s. None), url_to_string = (\<lambda>w. []),
     url_scheme = (\<lambda>w. []), url_username = (\<lambda>w. []), url_password = (\<lambda>w. None),
     url_host_str = (\<lambda>w. None), url_query = (\<lambda>w. None), url_fragment = (\<lambda>w. None),
     url_path = (\<lambda>w. []), url_path_segments = (\<lambda>w. None),
     url_set_username = (\<lambda>s w. w), url_set_password = (\<lambda>s w. w), url_set_query = (\<lambda>s w. w),
     url_set_fragment = (\<lambda>s w. w), url_set_path = (\<lambda>s w. w) \<rparr>"

end
