(* ===== verification/Reqx_Error.thy ===== *)
theory Reqx_Error
  imports Reqx_F64 Reqx_Http
begin

text \<open>
  The error type of the crate (\<open>src/src/core/error.rs\<close>): the transport error kinds, the timeout
  phases, the stable error codes with their text, the variants of \<open>Error\<close> and the accessors.
  A \<open>dyn std::error::Error\<close> is its message and its source; the errors of the serialisation
  and header crates are carried the same way. The headers of an \<open>HttpStatus\<close> error are of the
  type variable \<open>'h\<close>, the third-party \<open>HeaderMap\<close>.
\<close>

subsection \<open>Kinds, phases and codes\<close>

datatype transport_error_kind = Kind_Dns | Kind_Connect | Kind_Tls | Kind_Read | Kind_Other

primrec transport_error_kind_display :: "transport_error_kind \<Rightarrow> string" where
  "transport_error_kind_display Kind_Dns = ''dns''"
| "transport_error_kind_display Kind_Connect = ''connect''"
| "transport_error_kind_display Kind_Tls = ''tls''"
| "transport_error_kind_display Kind_Read = ''read''"
| "transport_error_kind_display Kind_Other = ''other''"

datatype timeout_phase = Phase_Transport | Phase_ResponseBody

primrec timeout_phase_display :: "timeout_phase \<Rightarrow> string" where
  "timeout_phase_display Phase_Transport = ''transport''"
| "timeout_phase_display Phase_ResponseBody = ''response_body''"

datatype (plugins only: code) error_code =
    Code_InvalidUri
  | Code_InvalidEndpointConfig
  | Code_InvalidNoProxyRule
  | Code_InvalidDnsOverrideConfig
  | Code_InvalidProxyConfig
  | Code_InvalidTimeoutConfig
  | Code_InvalidClientNameConfig
  | Code_InvalidConcurrencyLimitConfig
  | Code_InvalidRetryPolicy
  | Code_InvalidRetryBudgetPolicy
  | Code_InvalidAdaptiveConcurrencyPolicy
  | Code_InvalidCircuitBreakerPolicy
  | Code_InvalidRateLimitPolicy
  | Code_SerializeJson
  | Code_SerializeQuery
  | Code_SerializeForm
  | Code_RequestBuild
  | Code_Transport
  | Code_Timeout
  | Code_DeadlineExceeded
  | Code_ReadBody
  | Code_WriteBody
  | Code_ResponseBodyTooLarge
  | Code_HttpStatus
  | Code_DeserializeJson
  | Code_DecodeText
  | Code_InvalidHeaderName
  | Code_InvalidHeaderValue
  | Code_DecodeContentEncoding
  | Code_ConcurrencyLimitClosed
  | Code_TlsBackendUnavailable
  | Code_TlsBackendInit
  | Code_TlsConfig
  | Code_RetryBudgetExhausted
  | Code_CircuitOpen
  | Code_MissingRedirectLocation
  | Code_InvalidRedirectLocation
  | Code_RedirectLimitExceeded
  | Code_RedirectBodyNotReplayable
  | Code_FeatureUnavailable

primrec error_code_rank :: "error_code \<Rightarrow> nat" where
  "error_code_rank Code_InvalidUri = 0"
| "error_code_rank Code_InvalidEndpointConfig = 1"
| "error_code_rank Code_InvalidNoProxyRule = 2"
| "error_code_rank Code_InvalidDnsOverrideConfig = 3"
| "error_code_rank Code_InvalidProxyConfig = 4"
| "error_code_rank Code_InvalidTimeoutConfig = 5"
| "error_code_rank Code_InvalidClientNameConfig = 6"
| "error_code_rank Code_InvalidConcurrencyLimitConfig = 7"
| "error_code_rank Code_InvalidRetryPolicy = 8"
| "error_code_rank Code_InvalidRetryBudgetPolicy = 9"
| "error_code_rank Code_InvalidAdaptiveConcurrencyPolicy = 10"
| "error_code_rank Code_InvalidCircuitBreakerPolicy = 11"
| "error_code_rank Code_InvalidRateLimitPolicy = 12"
| "error_code_rank Code_SerializeJson = 13"
| "error_code_rank Code_SerializeQuery = 14"
| "error_code_rank Code_SerializeForm = 15"
| "error_code_rank Code_RequestBuild = 16"
| "error_code_rank Code_Transport = 17"
| "error_code_rank Code_Timeout = 18"
| "error_code_rank Code_DeadlineExceeded = 19"
| "error_code_rank Code_ReadBody = 20"
| "error_code_rank Code_WriteBody = 21"
| "error_code_rank Code_ResponseBodyTooLarge = 22"
| "error_code_rank Code_HttpStatus = 23"
| "error_code_rank Code_DeserializeJson = 24"
| "error_code_rank Code_DecodeText = 25"
| "error_code_rank Code_InvalidHeaderName = 26"
| "error_code_rank Code_InvalidHeaderValue = 27"
| "error_code_rank Code_DecodeContentEncoding = 28"
| "error_code_rank Code_ConcurrencyLimitClosed = 29"
| "error_code_rank Code_TlsBackendUnavailable = 30"
| "error_code_rank Code_TlsBackendInit = 31"
| "error_code_rank Code_TlsConfig = 32"
| "error_code_rank Code_RetryBudgetExhausted = 33"
| "error_code_rank Code_CircuitOpen = 34"
| "error_code_rank Code_MissingRedirectLocation = 35"
| "error_code_rank Code_InvalidRedirectLocation = 36"
| "error_code_rank Code_RedirectLimitExceeded = 37"
| "error_code_rank Code_RedirectBodyNotReplayable = 38"
| "error_code_rank Code_FeatureUnavailable = 39"

definition error_code_ALL :: "error_code list" where
  "error_code_ALL =
     [Code_InvalidUri,
      Code_InvalidEndpointConfig,
      Code_InvalidNoProxyRule,
      Code_InvalidDnsOverrideConfig,
      Code_InvalidProxyConfig,
      Code_InvalidTimeoutConfig,
      Code_InvalidClientNameConfig,
      Code_InvalidConcurrencyLimitConfig,
      Code_InvalidRetryPolicy,
      Code_InvalidRetryBudgetPolicy,
      Code_InvalidAdaptiveConcurrencyPolicy,
      Code_InvalidCircuitBreakerPolicy,
      Code_InvalidRateLimitPolicy,
      Code_SerializeJson,
      Code_SerializeQuery,
      Code_SerializeForm,
      Code_RequestBuild,
      Code_Transport,
      Code_Timeout,
      Code_DeadlineExceeded,
      Code_ReadBody,
      Code_WriteBody,
      Code_ResponseBodyTooLarge,
      Code_HttpStatus,
      Code_DeserializeJson,
      Code_DecodeText,
      Code_InvalidHeaderName,
      Code_InvalidHeaderValue,
      Code_DecodeContentEncoding,
      Code_ConcurrencyLimitClosed,
      Code_TlsBackendUnavailable,
      Code_TlsBackendInit,
      Code_TlsConfig,
      Code_RetryBudgetExhausted,
      Code_CircuitOpen,
      Code_MissingRedirectLocation,
      Code_InvalidRedirectLocation,
      Code_RedirectLimitExceeded,
      Code_RedirectBodyNotReplayable,
      Code_FeatureUnavailable]"

primrec error_code_as_str :: "error_code \<Rightarrow> string" where
  "error_code_as_str Code_InvalidUri = ''invalid_uri''"
| "error_code_as_str Code_InvalidEndpointConfig = ''invalid_endpoint_config''"
| "error_code_as_str Code_InvalidNoProxyRule = ''invalid_no_proxy_rule''"
| "error_code_as_str Code_InvalidDnsOverrideConfig = ''invalid_dns_override_config''"
| "error_code_as_str Code_InvalidProxyConfig = ''invalid_proxy_config''"
| "error_code_as_str Code_InvalidTimeoutConfig = ''invalid_timeout_config''"
| "error_code_as_str Code_InvalidClientNameConfig = ''invalid_client_name_config''"
| "error_code_as_str Code_InvalidConcurrencyLimitConfig = ''invalid_concurrency_limit_config''"
| "error_code_as_str Code_InvalidRetryPolicy = ''invalid_retry_policy''"
| "error_code_as_str Code_InvalidRetryBudgetPolicy = ''invalid_retry_budget_policy''"
| "error_code_as_str Code_InvalidAdaptiveConcurrencyPolicy = ''invalid_adaptive_concurrency_policy''"
| "error_code_as_str Code_InvalidCircuitBreakerPolicy = ''invalid_circuit_breaker_policy''"
| "error_code_as_str Code_InvalidRateLimitPolicy = ''invalid_rate_limit_policy''"
| "error_code_as_str Code_SerializeJson = ''serialize_json''"
| "error_code_as_str Code_SerializeQuery = ''serialize_query''"
| "error_code_as_str Code_SerializeForm = ''serialize_form''"
| "error_code_as_str Code_RequestBuild = ''request_build''"
| "error_code_as_str Code_Transport = ''transport''"
| "error_code_as_str Code_Timeout = ''timeout''"
| "error_code_as_str Code_DeadlineExceeded = ''deadline_exceeded''"
| "error_code_as_str Code_ReadBody = ''read_body''"
| "error_code_as_str Code_WriteBody = ''write_body''"
| "error_code_as_str Code_ResponseBodyTooLarge = ''response_body_too_large''"
| "error_code_as_str Code_HttpStatus = ''http_status''"
| "error_code_as_str Code_DeserializeJson = ''deserialize_json''"
| "error_code_as_str Code_DecodeText = ''decode_text''"
| "error_code_as_str Code_InvalidHeaderName = ''invalid_header_name''"
| "error_code_as_str Code_InvalidHeaderValue = ''invalid_header_value''"
| "error_code_as_str Code_DecodeContentEncoding = ''decode_content_encoding''"
| "error_code_as_str Code_ConcurrencyLimitClosed = ''concurrency_limit_closed''"
| "error_code_as_str Code_TlsBackendUnavailable = ''tls_backend_unavailable''"
| "error_code_as_str Code_TlsBackendInit = ''tls_backend_init''"
| "error_code_as_str Code_TlsConfig = ''tls_config''"
| "error_code_as_str Code_RetryBudgetExhausted = ''retry_budget_exhausted''"
| "error_code_as_str Code_CircuitOpen = ''circuit_open''"
| "error_code_as_str Code_MissingRedirectLocation = ''missing_redirect_location''"
| "error_code_as_str Code_InvalidRedirectLocation = ''invalid_redirect_location''"
| "error_code_as_str Code_RedirectLimitExceeded = ''redirect_limit_exceeded''"
| "error_code_as_str Code_RedirectBodyNotReplayable = ''redirect_body_not_replayable''"
| "error_code_as_str Code_FeatureUnavailable = ''feature_unavailable''"

subsection \<open>The error type\<close>

datatype box_error = BoxError (box_display: string) (box_source: "box_error option")

datatype (dead 'h) error =
    InvalidUri string
  | InvalidEndpointConfig string
  | InvalidNoProxyRule string
  | InvalidDnsOverrideConfig string
  | InvalidProxyConfig string string
  | ProxyAuthorizationRequiresHttpProxy
  | InvalidTimeoutConfig nat "nat option" "nat option" string
  | InvalidClientNameConfig nat string
  | InvalidConcurrencyLimitConfig "nat option" "nat option" string
  | InvalidRetryPolicy nat nat nat f64 string
  | InvalidRetryBudgetPolicy nat f64 nat string
  | InvalidAdaptiveConcurrencyPolicy nat nat nat string
  | InvalidCircuitBreakerPolicy nat nat nat nat string
  | InvalidRateLimitPolicy f64 nat string
  | SerializeJson box_error
  | SerializeQuery box_error
  | SerializeForm box_error
  | RequestBuild box_error
  | InvalidRequestFraming http_method string string
  | Transport transport_error_kind http_method string string box_error
  | Timeout timeout_phase nat http_method string
  | DeadlineExceeded nat http_method string
  | ReadBody box_error
  | WriteBody http_method string box_error
  | ResponseBodyTooLarge nat nat http_method string
  | HttpStatus status http_method string 'h string
  | DeserializeJson box_error string
  | DecodeText box_error string
  | InvalidHeaderName string box_error
  | InvalidHeaderValue string box_error
  | DecodeContentEncoding string http_method string string
  | ConcurrencyLimitClosed
  | FeatureUnavailable string string
  | TlsBackendUnavailable string
  | TlsBackendInit string string
  | TlsConfig string string
  | RetryBudgetExhausted http_method string
  | CircuitOpen http_method string nat
  | MissingRedirectLocation status http_method string
  | InvalidRedirectLocation string http_method string
  | RedirectLimitExceeded nat http_method string
  | RedirectBodyNotReplayable http_method string

subsection \<open>Accessors\<close>

definition error_code_of :: "'h error \<Rightarrow> error_code" where
  "error_code_of e = (case e of
       InvalidUri _ \<Rightarrow> Code_InvalidUri
     | InvalidEndpointConfig _ \<Rightarrow> Code_InvalidEndpointConfig
     | InvalidNoProxyRule _ \<Rightarrow> Code_InvalidNoProxyRule
     | InvalidDnsOverrideConfig _ \<Rightarrow> Code_InvalidDnsOverrideConfig
     | InvalidProxyConfig _ _ \<Rightarrow> Code_InvalidProxyConfig
     | ProxyAuthorizationRequiresHttpProxy \<Rightarrow> Code_InvalidProxyConfig
     | InvalidTimeoutConfig _ _ _ _ \<Rightarrow> Code_InvalidTimeoutConfig
     | InvalidClientNameConfig _ _ \<Rightarrow> Code_InvalidClientNameConfig
     | InvalidConcurrencyLimitConfig _ _ _ \<Rightarrow> Code_InvalidConcurrencyLimitConfig
     | InvalidRetryPolicy _ _ _ _ _ \<Rightarrow> Code_InvalidRetryPolicy
     | InvalidRetryBudgetPolicy _ _ _ _ \<Rightarrow> Code_InvalidRetryBudgetPolicy
     | InvalidAdaptiveConcurrencyPolicy _ _ _ _ \<Rightarrow> Code_InvalidAdaptiveConcurrencyPolicy
     | InvalidCircuitBreakerPolicy _ _ _ _ _ \<Rightarrow> Code_InvalidCircuitBreakerPolicy
     | InvalidRateLimitPolicy _ _ _ \<Rightarrow> Code_InvalidRateLimitPolicy
     | SerializeJson _ \<Rightarrow> Code_SerializeJson
     | SerializeQuery _ \<Rightarrow> Code_SerializeQuery
     | SerializeForm _ \<Rightarrow> Code_SerializeForm
     | RequestBuild _ \<Rightarrow> Code_RequestBuild
     | InvalidRequestFraming _ _ _ \<Rightarrow> Code_RequestBuild
     | Transport _ _ _ _ _ \<Rightarrow> Code_Transport
     | Timeout _ _ _ _ \<Rightarrow> Code_Timeout
     | DeadlineExceeded _ _ _ \<Rightarrow> Code_DeadlineExceeded
     | ReadBody _ \<Rightarrow> Code_ReadBody
     | WriteBody _ _ _ \<Rightarrow> Code_WriteBody
     | ResponseBodyTooLarge _ _ _ _ \<Rightarrow> Code_ResponseBodyTooLarge
     | HttpStatus _ _ _ _ _ \<Rightarrow> Code_HttpStatus
     | DeserializeJson _ _ \<Rightarrow> Code_DeserializeJson
     | DecodeText _ _ \<Rightarrow> Code_DecodeText
     | InvalidHeaderName _ _ \<Rightarrow> Code_InvalidHeaderName
     | InvalidHeaderValue _ _ \<Rightarrow> Code_InvalidHeaderValue
     | DecodeContentEncoding _ _ _ _ \<Rightarrow> Code_DecodeContentEncoding
     | ConcurrencyLimitClosed \<Rightarrow> Code_ConcurrencyLimitClosed
     | FeatureUnavailable _ _ \<Rightarrow> Code_FeatureUnavailable
     | TlsBackendUnavailable _ \<Rightarrow> Code_TlsBackendUnavailable
     | TlsBackendInit _ _ \<Rightarrow> Code_TlsBackendInit
     | TlsConfig _ _ \<Rightarrow> Code_TlsConfig
     | RetryBudgetExhausted _ _ \<Rightarrow> Code_RetryBudgetExhausted
     | CircuitOpen _ _ _ \<Rightarrow> Code_CircuitOpen
     | MissingRedirectLocation _ _ _ \<Rightarrow> Code_MissingRedirectLocation
     | InvalidRedirectLocation _ _ _ \<Rightarrow> Code_InvalidRedirectLocation
     | RedirectLimitExceeded _ _ _ \<Rightarrow> Code_RedirectLimitExceeded
     | RedirectBodyNotReplayable _ _ \<Rightarrow> Code_RedirectBodyNotReplayable)"

definition request_method :: "'h error \<Rightarrow> http_method option" where
  "request_method e = (case e of
       InvalidRequestFraming m _ _ \<Rightarrow> Some m
     | Transport _ m _ _ _ \<Rightarrow> Some m
     | Timeout _ _ m _ \<Rightarrow> Some m
     | DeadlineExceeded _ m _ \<Rightarrow> Some m
     | WriteBody m _ _ \<Rightarrow> Some m
     | ResponseBodyTooLarge _ _ m _ \<Rightarrow> Some m
     | HttpStatus _ m _ _ _ \<Rightarrow> Some m
     | DecodeContentEncoding _ m _ _ \<Rightarrow> Some m
     | RetryBudgetExhausted m _ \<Rightarrow> Some m
     | CircuitOpen m _ _ \<Rightarrow> Some m
     | MissingRedirectLocation _ m _ \<Rightarrow> Some m
     | InvalidRedirectLocation _ m _ \<Rightarrow> Some m
     | RedirectLimitExceeded _ m _ \<Rightarrow> Some m
     | RedirectBodyNotReplayable m _ \<Rightarrow> Some m
     | _ \<Rightarrow> None)"

definition request_uri_redacted :: "'h error \<Rightarrow> string option" where
  "request_uri_redacted e = (case e of
       InvalidUri u \<Rightarrow> Some u
     | InvalidProxyConfig u _ \<Rightarrow> Some u
     | InvalidRequestFraming _ u _ \<Rightarrow> Some u
     | Transport _ _ u _ _ \<Rightarrow> Some u
     | Timeout _ _ _ u \<Rightarrow> Some u
     | DeadlineExceeded _ _ u \<Rightarrow> Some u
     | WriteBody _ u _ \<Rightarrow> Some u
     | ResponseBodyTooLarge _ _ _ u \<Rightarrow> Some u
     | HttpStatus _ _ u _ _ \<Rightarrow> Some u
     | DecodeContentEncoding _ _ u _ \<Rightarrow> Some u
     | RetryBudgetExhausted _ u \<Rightarrow> Some u
     | CircuitOpen _ u _ \<Rightarrow> Some u
     | MissingRedirectLocation _ _ u \<Rightarrow> Some u
     | InvalidRedirectLocation _ _ u \<Rightarrow> Some u
     | RedirectLimitExceeded _ _ u \<Rightarrow> Some u
     | RedirectBodyNotReplayable _ u \<Rightarrow> Some u
     | _ \<Rightarrow> None)"

definition status_code :: "'h error \<Rightarrow> status option" where
  "status_code e = (case e of HttpStatus s _ _ _ _ \<Rightarrow> Some s | _ \<Rightarrow> None)"

definition response_headers :: "'h error \<Rightarrow> 'h option" where
  "response_headers e = (case e of HttpStatus _ _ _ h _ \<Rightarrow> Some h | _ \<Rightarrow> None)"

definition request_id :: "('h, 'v) header_ops \<Rightarrow> 'h error \<Rightarrow> string option" where
  "request_id H e =
     (case response_headers e of None \<Rightarrow> None
      | Some h \<Rightarrow>
          (case (case hm_get H h ''x-request-id'' of Some v \<Rightarrow> Some v
                 | None \<Rightarrow> (case hm_get H h ''x-amz-request-id'' of Some v \<Rightarrow> Some v
                           | None \<Rightarrow> hm_get H h ''x-amz-id-2'')) of
             None \<Rightarrow> None | Some v \<Rightarrow> hv_to_str H v))"

text \<open>\<open>str::split_once\<close> at a character, keeping the left part.\<close>

definition before_char :: "char \<Rightarrow> string \<Rightarrow> string" where
  "before_char c s = takeWhile (\<lambda>x. x \<noteq> c) s"

definition request_path :: "'u uri_ops \<Rightarrow> 'h error \<Rightarrow> string option" where
  "request_path U e =
     (case request_uri_redacted e of None \<Rightarrow> None
      | Some u \<Rightarrow>
          (case uri_parse U u of
             Some parsed \<Rightarrow>
               if uri_path U parsed \<noteq> [] then Some (uri_path U parsed)
               else (let p = before_char (CHR ''#'') (before_char (CHR ''?'') u)
                     in if p = [] then None else Some p)
           | None \<Rightarrow> (let p = before_char (CHR ''#'') (before_char (CHR ''?'') u)
                     in if p = [] then None else Some p)))"

text \<open>The chain of messages of an error, each redacted, without consecutive repetitions.\<close>

fun error_chain_messages :: "(string \<Rightarrow> string) \<Rightarrow> string list \<Rightarrow> box_error option \<Rightarrow> string list" where
  "error_chain_messages redact messages None = messages"
| "error_chain_messages redact messages (Some (BoxError d src)) =
     (let message = redact d
      in error_chain_messages redact
           (if messages \<noteq> [] \<and> last messages = message then messages else messages @ [message]) src)"

fun join_with :: "string \<Rightarrow> string list \<Rightarrow> string" where
  "join_with sep [] = []"
| "join_with sep [s] = s"
| "join_with sep (s # t # ss) = s @ sep @ join_with sep (t # ss)"

definition summarize_error_chain :: "(string \<Rightarrow> string) \<Rightarrow> box_error \<Rightarrow> string" where
  "summarize_error_chain redact e = join_with '': '' (error_chain_messages redact [] (Some e))"

definition transport_error ::
    "(string \<Rightarrow> string) \<Rightarrow> transport_error_kind \<Rightarrow> http_method \<Rightarrow> string \<Rightarrow> box_error \<Rightarrow> 'h error" where
  "transport_error redact kind m uri src =
     Transport kind m uri (summarize_error_chain redact src) src"

subsection \<open>The codes are a finite linear order\<close>

lemma error_code_ALL_nth: "error_code_ALL ! error_code_rank c = c"
  by (cases c) (simp_all add: error_code_ALL_def)

lemma error_code_rank_less: "error_code_rank c < length error_code_ALL"
  by (cases c) (simp_all add: error_code_ALL_def)

lemma inj_error_code_rank: "inj error_code_rank"
  by (metis error_code_ALL_nth injI)

lemma error_code_ALL_UNIV: "set error_code_ALL = UNIV"
  by (metis UNIV_eq_I error_code_ALL_nth error_code_rank_less nth_mem)

instantiation error_code :: linorder
begin

definition less_eq_error_code :: "error_code \<Rightarrow> error_code \<Rightarrow> bool" where
  "c \<le> d \<longleftrightarrow> error_code_rank c \<le> error_code_rank d"

definition less_error_code :: "error_code \<Rightarrow> error_code \<Rightarrow> bool" where
  "c < d \<longleftrightarrow> error_code_rank c < error_code_rank d"

instance
  by standard
    (auto simp: less_eq_error_code_def less_error_code_def dest: injD [OF inj_error_code_rank])

end

primrec transport_error_kind_rank :: "transport_error_kind \<Rightarrow> nat" where
  "transport_error_kind_rank Kind_Dns = 0"
| "transport_error_kind_rank Kind_Connect = 1"
| "transport_error_kind_rank Kind_Tls = 2"
| "transport_error_kind_rank Kind_Read = 3"
| "transport_error_kind_rank Kind_Other = 4"

lemma inj_transport_error_kind_rank: "inj transport_error_kind_rank"
  by (rule injI) (case_tac x; case_tac y; simp)

instantiation transport_error_kind :: linorder
begin

definition less_eq_transport_error_kind :: "transport_error_kind \<Rightarrow> transport_error_kind \<Rightarrow> bool" where
  "k \<le> l \<longleftrightarrow> transport_error_kind_rank k \<le> transport_error_kind_rank l"

definition less_transport_error_kind :: "transport_error_kind \<Rightarrow> transport_error_kind \<Rightarrow> bool" where
  "k < l \<longleftrightarrow> transport_error_kind_rank k < transport_error_kind_rank l"

instance
  by standard
    (auto simp: less_eq_transport_error_kind_def less_transport_error_kind_def
      dest: injD [OF inj_transport_error_kind_rank])

end

primrec timeout_phase_rank :: "timeout_phase \<Rightarrow> nat" where
  "timeout_phase_rank Phase_Transport = 0"
| "timeout_phase_rank Phase_ResponseBody = 1"

lemma inj_timeout_phase_rank: "inj timeout_phase_rank"
  by (rule injI) (case_tac x; case_tac y; simp)

instantiation timeout_phase :: linorder
begin

definition less_eq_timeout_phase :: "timeout_phase \<Rightarrow> timeout_phase \<Rightarrow> bool" where
  "k \<le> l \<longleftrightarrow> timeout_phase_rank k \<le> timeout_phase_rank l"

definition less_timeout_phase :: "timeout_phase \<Rightarrow> timeout_phase \<Rightarrow> bool" where
  "k < l \<longleftrightarrow> timeout_phase_rank k < timeout_phase_rank l"

instance
  by standard
    (auto simp: less_eq_timeout_phase_def less_timeout_phase_def
      dest: injD [OF inj_timeout_phase_rank])

end

lemma sorted_error_code_ALL: "sorted_wrt (<) error_code_ALL"
  by (simp add: error_code_ALL_def less_error_code_def)

lemma distinct_as_str_ALL: "distinct (map error_code_as_str error_code_ALL)"
  by (simp add: error_code_ALL_def)

text \<open>
  Every method-carrying error also carries the redacted URI of the request, so a log line
  that prints one can print the other.
\<close>

lemma request_method_imp_uri: "request_method e \<noteq> None \<Longrightarrow> request_uri_redacted e \<noteq> None"
  by (cases e) (simp_all add: request_method_def request_uri_redacted_def)

lemma error_chain_messages_redacted:
  "set messages \<subseteq> range redact \<Longrightarrow> set (error_chain_messages redact messages src) \<subseteq> range redact"
  by (induction redact messages src rule: error_chain_messages.induct) (simp_all add: Let_def)

end
