(* ===== verification/Reqx_Timing.thy ===== *)
theory Reqx_Timing
  imports Reqx_Error
begin

text \<open>
  Timeouts, delays and back-off (\<open>src/src/core/util/timing.rs\<close> and \<open>backoff.rs\<close>). A reading of
  \<open>Instant::elapsed\<close> is the argument \<open>now\<close>; the random generator of the jitter is the argument
  \<open>sample\<close>, of which \<open>sample_in_range\<close> is assumed; \<open>httpdate::parse_http_date\<close> is the argument
  \<open>parse_date\<close>.
\<close>

subsection \<open>Timeouts\<close>

definition phase_timeout :: "instant \<Rightarrow> duration \<Rightarrow> duration option \<Rightarrow> instant \<Rightarrow> duration option" where
  "phase_timeout now per_attempt_timeout total_timeout request_started_at =
     (case total_timeout of
        None \<Rightarrow> Some per_attempt_timeout
      | Some limit \<Rightarrow>
          (let elapsed = saturating_duration_since now request_started_at
           in if elapsed \<ge> limit then None
              else Some (min per_attempt_timeout (limit - elapsed))))"

definition duration_millis_u64_saturating :: "duration \<Rightarrow> nat" where
  "duration_millis_u64_saturating d = min (as_millis d) u64_max"

definition duration_millis_ceil :: "duration \<Rightarrow> nat" where
  "duration_millis_ceil d = (d + 999999) div 1000000"

definition duration_from_millis_saturating :: "nat \<Rightarrow> duration" where
  "duration_from_millis_saturating milliseconds =
     (let seconds = milliseconds div 1000
      in if seconds > u64_max then duration_max
         else seconds * nanos_per_sec + (milliseconds mod 1000) * 1000000)"

definition duration_from_nanos_saturating :: "nat \<Rightarrow> duration" where
  "duration_from_nanos_saturating nanoseconds =
     (let seconds = nanoseconds div 1000000000
      in if seconds > u64_max then duration_max
         else seconds * nanos_per_sec + nanoseconds mod 1000000000)"

definition saturating_u64_to_usize :: "nat \<Rightarrow> nat" where
  "saturating_u64_to_usize v = (if v > usize_max then usize_max else v)"

text \<open>\<open>Duration::from_secs_f64\<close> rounds to the nearest nanosecond, ties to even.\<close>

definition from_secs_f64 :: "real \<Rightarrow> duration" where
  "from_secs_f64 x = nat (round_half_even (x * 10 ^ 9))"

definition duration_from_secs_f64_saturating :: "f64 \<Rightarrow> duration" where
  "duration_from_secs_f64_saturating seconds =
     (if f64_le seconds (Fin 0) then 0
      else if \<not> is_finite seconds \<or> f64_le (as_secs_f64 duration_max) seconds then duration_max
      else case seconds of Fin x \<Rightarrow> from_secs_f64 x | _ \<Rightarrow> duration_max)"

definition total_timeout_expired :: "instant \<Rightarrow> duration option \<Rightarrow> instant \<Rightarrow> bool" where
  "total_timeout_expired now total_timeout request_started_at =
     is_some_and (\<lambda>timeout. saturating_duration_since now request_started_at \<ge> timeout) total_timeout"

definition total_timeout_deadline :: "duration option \<Rightarrow> instant \<Rightarrow> instant option" where
  "total_timeout_deadline total_timeout request_started_at =
     (case total_timeout of None \<Rightarrow> None | Some t \<Rightarrow> checked_add request_started_at t)"

definition bounded_retry_delay ::
    "instant \<Rightarrow> duration \<Rightarrow> duration option \<Rightarrow> instant \<Rightarrow> duration option" where
  "bounded_retry_delay now retry_delay total_timeout request_started_at =
     (case total_timeout of
        None \<Rightarrow> Some retry_delay
      | Some limit \<Rightarrow>
          (let elapsed = saturating_duration_since now request_started_at
           in if elapsed \<ge> limit then None
              else if retry_delay \<ge> limit - elapsed then None
              else Some retry_delay))"

definition deadline_exceeded_error :: "duration option \<Rightarrow> http_method \<Rightarrow> string \<Rightarrow> 'h error" where
  "deadline_exceeded_error total_timeout m uri =
     DeadlineExceeded (unwrap_or 0 (map_option duration_millis_ceil total_timeout)) m uri"

subsection \<open>The Retry-After header\<close>

definition parse_retry_after ::
    "('h, 'v) header_ops \<Rightarrow> (string \<Rightarrow> system_time option) \<Rightarrow> 'h \<Rightarrow> system_time \<Rightarrow> duration option" where
  "parse_retry_after H parse_date headers now =
     (case hm_get H headers ''retry-after'' of
        None \<Rightarrow> None
      | Some v \<Rightarrow>
          (case hv_to_str H v of
             None \<Rightarrow> None
           | Some raw \<Rightarrow>
               (case parse_unsigned u64_max (trim raw) of
                  Some seconds \<Rightarrow> Some (from_secs seconds)
                | None \<Rightarrow>
                    (case parse_date (trim raw) of
                       None \<Rightarrow> None
                     | Some date \<Rightarrow> if now \<le> date then Some (date - now) else Some 0))))"

definition parse_retry_after_capped ::
    "('h, 'v) header_ops \<Rightarrow> (string \<Rightarrow> system_time option) \<Rightarrow> 'h \<Rightarrow> system_time \<Rightarrow> duration \<Rightarrow> duration option" where
  "parse_retry_after_capped H parse_date headers now max_delay =
     map_option (\<lambda>delay. min delay max_delay) (parse_retry_after H parse_date headers now)"

definition error_retry_after ::
    "('h, 'v) header_ops \<Rightarrow> (string \<Rightarrow> system_time option) \<Rightarrow> 'h error \<Rightarrow> system_time \<Rightarrow> duration option" where
  "error_retry_after H parse_date e now =
     (case response_headers e of None \<Rightarrow> None
      | Some headers \<Rightarrow> parse_retry_after H parse_date headers now)"

subsection \<open>Back-off\<close>

definition f64_clamp :: "f64 \<Rightarrow> f64 \<Rightarrow> f64 \<Rightarrow> f64" where
  "f64_clamp lo hi x = (if f64_lt x lo then lo else if f64_lt hi x then hi else x)"

definition clamp_f64_or_fallback :: "f64 \<Rightarrow> f64 \<Rightarrow> f64 \<Rightarrow> f64 \<Rightarrow> f64" where
  "clamp_f64_or_fallback x lo hi nan_fallback =
     (if x = NaN then f64_clamp lo hi nan_fallback else f64_clamp lo hi x)"

definition apply_backoff_jitter ::
    "(nat \<Rightarrow> nat \<Rightarrow> nat) \<Rightarrow> duration \<Rightarrow> duration \<Rightarrow> f64 \<Rightarrow> duration" where
  "apply_backoff_jitter sample backoff max_backoff jitter =
     (let jitter_ratio = clamp_f64_or_fallback jitter (Fin 0) (Fin 1) (Fin 0)
      in if f64_le jitter_ratio f64_epsilon then backoff
         else if backoff \<le> 1 then backoff
         else let max_backoff_nanos = max max_backoff 1;
                  jitter_span = f64_as_uint u128_max
                    (f64_max (f64_round (f64_mul (f64_of_nat backoff) jitter_ratio)) (Fin 1));
                  low = backoff - jitter_span;
                  high = max (sat_add u128_max backoff jitter_span) low
              in duration_from_nanos_saturating (min (sample low high) max_backoff_nanos))"

definition exponential_backoff_with_jitter ::
    "(nat \<Rightarrow> nat \<Rightarrow> nat) \<Rightarrow> nat \<Rightarrow> duration \<Rightarrow> duration \<Rightarrow> f64 \<Rightarrow> duration" where
  "exponential_backoff_with_jitter sample retry_index base_backoff max_backoff jitter =
     (let capped_exponent = min (retry_index - 1) 31;
          multiplier = 2 ^ capped_exponent;
          base_nanos = max base_backoff 1;
          max_nanos = max max_backoff base_nanos;
          delay_nanos = min (sat_mul u128_max base_nanos multiplier) max_nanos
      in apply_backoff_jitter sample (duration_from_nanos_saturating delay_nanos)
           (duration_from_nanos_saturating max_nanos) jitter)"

definition sample_in_range :: "(nat \<Rightarrow> nat \<Rightarrow> nat) \<Rightarrow> bool" where
  "sample_in_range sample \<longleftrightarrow> (\<forall>low high. low \<le> high \<longrightarrow> low \<le> sample low high \<and> sample low high \<le> high)"

lemmas timing_defs [op_defs] =
  phase_timeout_def bounded_retry_delay_def total_timeout_expired_def saturating_duration_since_def

subsection \<open>Conversions\<close>

lemma duration_from_nanos_saturating_eq: "duration_from_nanos_saturating n = min n duration_max"
proof -
  have "n div 1000000000 * 1000000000 + n mod 1000000000 = n" by simp
  then show ?thesis
    by (auto simp: duration_from_nanos_saturating_def duration_max_def nanos_per_sec_def Let_def
        max_values)
qed

lemma duration_from_nanos_exact: "n \<le> duration_max \<Longrightarrow> duration_from_nanos_saturating n = n"
  by (simp add: duration_from_nanos_saturating_eq)

lemma duration_from_millis_saturating_eq:
  "duration_from_millis_saturating ms =
     (if ms div 1000 > u64_max then duration_max else ms * 1000000)"
proof -
  have "ms * 1000000 = (ms div 1000) * 1000000000 + (ms mod 1000) * 1000000"
    using div_mult_mod_eq [of ms 1000] by linarith
  then show ?thesis by (simp add: duration_from_millis_saturating_def nanos_per_sec_def Let_def)
qed

lemma duration_millis_ceil_ge: "d \<le> duration_millis_ceil d * 1000000"
  unfolding duration_millis_ceil_def by linarith

lemma duration_millis_ceil_less: "duration_millis_ceil d * 1000000 < d + 1000000"
  unfolding duration_millis_ceil_def by linarith

lemma duration_millis_ceil_0_iff [simp]: "duration_millis_ceil d = 0 \<longleftrightarrow> d = 0"
  unfolding duration_millis_ceil_def by linarith

lemma f64_clamp_range:
  "x \<noteq> NaN \<Longrightarrow> f64_le lo hi \<Longrightarrow> f64_le lo (f64_clamp lo hi x) \<and> f64_le (f64_clamp lo hi x) hi"
  by (cases lo; cases hi; cases x) (auto simp: f64_clamp_def f64_lt_def)

lemma clamp_fallback_range:
  "f64_le (Fin 0) (clamp_f64_or_fallback x (Fin 0) (Fin 1) (Fin 0)) \<and>
   f64_le (clamp_f64_or_fallback x (Fin 0) (Fin 1) (Fin 0)) (Fin 1)"
  by (simp add: clamp_f64_or_fallback_def f64_clamp_range)

lemma clamp_fallback_le_epsilon:
  "\<not> f64_lt f64_epsilon x \<Longrightarrow> f64_le (clamp_f64_or_fallback x (Fin 0) (Fin 1) (Fin 0)) f64_epsilon"
  by (cases x) (auto simp: clamp_f64_or_fallback_def f64_clamp_def f64_lt_def f64_epsilon_def)

subsection \<open>Jitter\<close>

lemma apply_backoff_jitter_le:
  assumes "backoff \<le> max_backoff" and "max_backoff \<le> duration_max"
  shows "apply_backoff_jitter sample backoff max_backoff jitter \<le> max_backoff"
  using assms
  by (cases "max_backoff \<le> 1")
    (auto simp: apply_backoff_jitter_def duration_from_nanos_saturating_eq Let_def)

lemma apply_backoff_jitter_ge:
  assumes "sample_in_range sample" and "backoff \<le> max_backoff" and "max_backoff \<le> duration_max"
  shows "backoff - f64_as_uint u128_max (f64_max (f64_round (f64_mul (f64_of_nat backoff)
      (clamp_f64_or_fallback jitter (Fin 0) (Fin 1) (Fin 0)))) (Fin 1))
    \<le> apply_backoff_jitter sample backoff max_backoff jitter"
proof -
  have "backoff - k \<le> min (min (sample (backoff - k) (max h (backoff - k))) (max max_backoff 1))
      duration_max" for k h
    using assms unfolding sample_in_range_def
    by (auto simp: le_max_iff_disj)
  then show ?thesis
    by (simp add: apply_backoff_jitter_def duration_from_nanos_saturating_eq Let_def)
qed

lemma apply_backoff_jitter_none:
  "\<not> f64_lt f64_epsilon jitter \<Longrightarrow> apply_backoff_jitter sample backoff max_backoff jitter = backoff"
  by (simp add: apply_backoff_jitter_def clamp_fallback_le_epsilon Let_def)

lemma backoff_args:
  assumes "base_backoff \<le> duration_max" "max_backoff \<le> duration_max"
  shows "exponential_backoff_with_jitter sample retry_index base_backoff max_backoff jitter =
    apply_backoff_jitter sample
      (min (max base_backoff 1 * 2 ^ min (retry_index - 1) 31) (max max_backoff (max base_backoff 1)))
      (max max_backoff (max base_backoff 1)) jitter"
proof -
  let ?max = "max max_backoff (max base_backoff 1)"
  have max: "?max \<le> duration_max"
    using assms by (auto simp: duration_max_value)
  have "min (sat_mul u128_max (max base_backoff 1) k) ?max = min (max base_backoff 1 * k) ?max" for k
    using max by (auto simp: sat_mul_def duration_max_value max_values min_def)
  moreover have "min x ?max \<le> duration_max" for x
    using max by (rule min.coboundedI2)
  ultimately show ?thesis
    using max by (simp only: exponential_backoff_with_jitter_def Let_def duration_from_nanos_exact)
qed

subsection \<open>Properties\<close>

text \<open>
  The delay before a retry. For any sample the random generator returns, the delay never
  exceeds the larger of \<open>max_backoff\<close> and \<open>base_backoff\<close> (at least one nanosecond); without
  jitter it is exactly \<open>base_backoff\<close> doubled once per earlier retry (at most 31 times), cut at
  that bound, and with a jitter it never falls below that value less the whole jitter span.
\<close>

theorem exponential_backoff_bounds:
  fixes sample :: "nat \<Rightarrow> nat \<Rightarrow> nat" and retry_index base_backoff max_backoff :: nat and jitter :: f64
  assumes "base_backoff \<le> duration_max" and "max_backoff \<le> duration_max"
    and "sample_in_range sample"
  defines "cap \<equiv> max max_backoff (max base_backoff 1)"
  defines "delay \<equiv> min (max base_backoff 1 * 2 ^ min (retry_index - 1) 31) cap"
  defines "d \<equiv> exponential_backoff_with_jitter sample retry_index base_backoff max_backoff jitter"
  shows "d \<le> cap \<and> (\<not> f64_lt f64_epsilon jitter \<longrightarrow> d = delay) \<and>
    delay - f64_as_uint u128_max (f64_max (f64_round (f64_mul (f64_of_nat delay)
      (clamp_f64_or_fallback jitter (Fin 0) (Fin 1) (Fin 0)))) (Fin 1)) \<le> d"
proof (intro conjI impI)
  have d: "d = apply_backoff_jitter sample delay cap jitter"
    unfolding d_def delay_def cap_def by (rule backoff_args [OF assms(1,2)])
  have cap: "cap \<le> duration_max" "delay \<le> cap"
    using assms(1,2) by (auto simp: cap_def delay_def duration_max_value)
  show "d \<le> cap" unfolding d using cap by (intro apply_backoff_jitter_le)
  show "d = delay" if "\<not> f64_lt f64_epsilon jitter"
    unfolding d by (rule apply_backoff_jitter_none [OF that])
  show "delay - f64_as_uint u128_max (f64_max (f64_round (f64_mul (f64_of_nat delay)
      (clamp_f64_or_fallback jitter (Fin 0) (Fin 1) (Fin 0)))) (Fin 1)) \<le> d"
    unfolding d using cap by (intro apply_backoff_jitter_ge assms(3))
qed

theorem exponential_backoff_bounds_witness:
  "exponential_backoff_with_jitter (\<lambda>low high. low) 3 (from_millis 100) (from_secs 2) (Fin 0)
     \<le> from_secs 2"
  using exponential_backoff_bounds [of "from_millis 100" "from_secs 2" "\<lambda>low high. low" 3 "Fin 0"]
  by (simp add: from_millis_def from_secs_def nanos_per_sec_def duration_max_value
      sample_in_range_def)

text \<open>
  The timeout of one phase of a request. It is absent exactly when the total timeout has
  expired; otherwise it is positive when the configured ones are, is at most the per-attempt
  timeout, and the phase ends no later than the deadline of the request.
\<close>

theorem phase_timeout_within_deadline:
  assumes "request_started_at \<le> now"
  shows "(phase_timeout now per_attempt total_timeout request_started_at = None \<longleftrightarrow>
          total_timeout_expired now total_timeout request_started_at) \<and>
    (\<forall>t. phase_timeout now per_attempt total_timeout request_started_at = Some t \<longrightarrow>
       t \<le> per_attempt \<and> (0 < per_attempt \<longrightarrow> 0 < t) \<and>
       is_none_or (\<lambda>limit. now + t \<le> request_started_at + limit) total_timeout)"
  using assms by (cases total_timeout) (auto simp: timing_defs Let_def)

theorem phase_timeout_within_deadline_witness:
  "phase_timeout 5 10 (Some 8) 2 = Some 5 \<and> (5::nat) + 5 \<le> 2 + 8"
  using phase_timeout_within_deadline [of 2 5 10 "Some 8"]
  by (simp add: timing_defs Let_def)

text \<open>
  A retry delay is accepted exactly when the retry would start strictly before the deadline
  of the request, and then it is unchanged; a request without a total timeout accepts all.
\<close>

theorem bounded_retry_delay_iff:
  assumes "request_started_at \<le> now"
  shows "bounded_retry_delay now delay total_timeout request_started_at = Some d \<longleftrightarrow>
    d = delay \<and> is_none_or (\<lambda>limit. now + delay < request_started_at + limit) total_timeout"
  using assms by (cases total_timeout) (auto simp: timing_defs Let_def)

theorem bounded_retry_delay_iff_witness:
  "bounded_retry_delay 5 2 (Some 5) 2 = None \<and> bounded_retry_delay 5 2 (Some 7) 2 = Some 2 \<and>
   is_none_or (\<lambda>limit. (5::nat) + 2 < 2 + limit) (Some 7)"
  using bounded_retry_delay_iff [of 2 5 2 "Some 7" 2]
  by (simp add: timing_defs Let_def)

end
