(* ===== verification/Reqx_CircuitBreaker.thy ===== *)
theory Reqx_CircuitBreaker
  imports Reqx_Timing "HOL-Library.Multiset"
begin

text \<open>
  The circuit breaker (\<open>src/src/resilience.rs\<close>, \<open>CircuitBreakerPolicy\<close>, \<open>CircuitBreaker\<close> and
  \<open>CircuitAttempt\<close>). The identity tokens \<open>Arc::new(())\<close> that mark a cycle of the breaker are
  natural numbers drawn from a supply, \<open>cb_next_generation\<close>: an attempt holds its token, so a
  token still in use is never handed out again. Every operation takes the locked state and a
  clock reading. \<open>circuit_step\<close> interleaves the operations of any number of outstanding
  attempts, each of which is completed exactly once.
\<close>

subsection \<open>Policy\<close>

record circuit_breaker_policy =
  cbp_failure_threshold :: nat
  cbp_open_timeout :: duration
  cbp_half_open_max_requests :: nat
  cbp_half_open_success_threshold :: nat

definition circuit_breaker_policy_standard :: circuit_breaker_policy where
  "circuit_breaker_policy_standard =
     \<lparr> cbp_failure_threshold = 5, cbp_open_timeout = from_secs 10,
       cbp_half_open_max_requests = 2, cbp_half_open_success_threshold = 2 \<rparr>"

definition circuit_breaker_invalid_policy :: "circuit_breaker_policy \<Rightarrow> string \<Rightarrow> 'h error" where
  "circuit_breaker_invalid_policy p message =
     InvalidCircuitBreakerPolicy (cbp_failure_threshold p) (duration_millis_ceil (cbp_open_timeout p))
       (cbp_half_open_max_requests p) (cbp_half_open_success_threshold p) message"

definition circuit_breaker_policy_validate :: "circuit_breaker_policy \<Rightarrow> (unit, 'h error) result" where
  "circuit_breaker_policy_validate p =
     (if cbp_failure_threshold p = 0
      then Err (circuit_breaker_invalid_policy p ''failure_threshold must be >= 1'')
      else if cbp_open_timeout p = 0
      then Err (circuit_breaker_invalid_policy p ''open_timeout must be greater than zero'')
      else if cbp_half_open_max_requests p = 0
      then Err (circuit_breaker_invalid_policy p ''half_open_max_requests must be >= 1'')
      else if cbp_half_open_success_threshold p = 0
      then Err (circuit_breaker_invalid_policy p ''half_open_success_threshold must be >= 1'')
      else Ok ())"

subsection \<open>State and operations\<close>

type_synonym generation = nat

datatype circuit_attempt_kind = AttemptClosed | AttemptHalfOpen

datatype circuit_state =
    Closed generation nat
  | Open instant
  | HalfOpen generation nat nat

definition belongs_to :: "circuit_state \<Rightarrow> generation \<Rightarrow> bool" where
  "belongs_to s attempt_generation =
     (case s of
        Closed g _ \<Rightarrow> g = attempt_generation
      | HalfOpen g _ _ \<Rightarrow> g = attempt_generation
      | Open _ \<Rightarrow> False)"

record circuit_breaker =
  cb_state :: circuit_state
  cb_next_generation :: generation

record circuit_attempt =
  ca_generation :: generation
  ca_kind :: circuit_attempt_kind
  ca_completed :: bool

definition circuit_breaker_new :: circuit_breaker where
  "circuit_breaker_new = \<lparr> cb_state = Closed 0 0, cb_next_generation = 1 \<rparr>"

definition circuit_begin ::
    "circuit_breaker_policy \<Rightarrow> instant \<Rightarrow> circuit_breaker \<Rightarrow>
     (circuit_attempt, duration) result \<times> circuit_breaker" where
  "circuit_begin p now c =
     (case cb_state c of
        Closed g _ \<Rightarrow>
          (Ok \<lparr> ca_generation = g, ca_kind = AttemptClosed, ca_completed = False \<rparr>, c)
      | Open opened_at \<Rightarrow>
          (let elapsed = saturating_duration_since now opened_at
           in if elapsed \<ge> cbp_open_timeout p
              then (let g = cb_next_generation c
                    in (Ok \<lparr> ca_generation = g, ca_kind = AttemptHalfOpen, ca_completed = False \<rparr>,
                        \<lparr> cb_state = HalfOpen g 1 0, cb_next_generation = Suc g \<rparr>))
              else (Err (cbp_open_timeout p - elapsed), c))
      | HalfOpen g active_requests successful_requests \<Rightarrow>
          (if active_requests \<ge> cbp_half_open_max_requests p \<or>
              successful_requests \<ge> cbp_half_open_success_threshold p
           then (Err (from_millis 0), c)
           else (Ok \<lparr> ca_generation = g, ca_kind = AttemptHalfOpen, ca_completed = False \<rparr>,
                 c\<lparr> cb_state := HalfOpen g (usize_add active_requests 1) successful_requests \<rparr>)))"

definition close_half_open_if_recovered :: "nat \<Rightarrow> circuit_breaker \<Rightarrow> circuit_breaker" where
  "close_half_open_if_recovered half_open_success_threshold c =
     (case cb_state c of
        HalfOpen _ active_requests successful_requests \<Rightarrow>
          if active_requests = 0 \<and> successful_requests \<ge> half_open_success_threshold
          then \<lparr> cb_state = Closed (cb_next_generation c) 0,
                 cb_next_generation = Suc (cb_next_generation c) \<rparr>
          else c
      | _ \<Rightarrow> c)"

definition circuit_record_success ::
    "circuit_breaker_policy \<Rightarrow> circuit_attempt_kind \<Rightarrow> generation \<Rightarrow> circuit_breaker \<Rightarrow> circuit_breaker" where
  "circuit_record_success p kind generation c =
     (if \<not> belongs_to (cb_state c) generation then c
      else case (cb_state c, kind) of
        (Closed g _, AttemptClosed) \<Rightarrow> c\<lparr> cb_state := Closed g 0 \<rparr>
      | (HalfOpen g active_requests successful_requests, AttemptHalfOpen) \<Rightarrow>
          close_half_open_if_recovered (cbp_half_open_success_threshold p)
            (c\<lparr> cb_state := HalfOpen g (active_requests - 1) (usize_add successful_requests 1) \<rparr>)
      | _ \<Rightarrow> c)"

definition circuit_record_failure ::
    "circuit_breaker_policy \<Rightarrow> instant \<Rightarrow> circuit_attempt_kind \<Rightarrow> generation \<Rightarrow> circuit_breaker \<Rightarrow>
     circuit_breaker" where
  "circuit_record_failure p now kind generation c =
     (if \<not> belongs_to (cb_state c) generation then c
      else case (cb_state c, kind) of
        (Closed g consecutive_failures, AttemptClosed) \<Rightarrow>
          (let failures = usize_add consecutive_failures 1
           in if failures \<ge> cbp_failure_threshold p
              then c\<lparr> cb_state := Open now \<rparr>
              else c\<lparr> cb_state := Closed g failures \<rparr>)
      | (HalfOpen _ _ _, AttemptHalfOpen) \<Rightarrow> c\<lparr> cb_state := Open now \<rparr>
      | _ \<Rightarrow> c)"

definition circuit_record_cancel ::
    "circuit_breaker_policy \<Rightarrow> circuit_attempt_kind \<Rightarrow> generation \<Rightarrow> circuit_breaker \<Rightarrow> circuit_breaker" where
  "circuit_record_cancel p kind generation c =
     (if \<not> belongs_to (cb_state c) generation then c
      else case (cb_state c, kind) of
        (HalfOpen g active_requests successful_requests, AttemptHalfOpen) \<Rightarrow>
          close_half_open_if_recovered (cbp_half_open_success_threshold p)
            (c\<lparr> cb_state := HalfOpen g (active_requests - 1) successful_requests \<rparr>)
      | _ \<Rightarrow> c)"

subsection \<open>Attempts\<close>

definition circuit_attempt_mark_success ::
    "circuit_breaker_policy \<Rightarrow> circuit_attempt \<Rightarrow> circuit_breaker \<Rightarrow> circuit_attempt \<times> circuit_breaker" where
  "circuit_attempt_mark_success p a c =
     (a\<lparr> ca_completed := True \<rparr>, circuit_record_success p (ca_kind a) (ca_generation a) c)"

definition circuit_attempt_mark_failure ::
    "circuit_breaker_policy \<Rightarrow> instant \<Rightarrow> circuit_attempt \<Rightarrow> circuit_breaker \<Rightarrow>
     circuit_attempt \<times> circuit_breaker" where
  "circuit_attempt_mark_failure p now a c =
     (a\<lparr> ca_completed := True \<rparr>, circuit_record_failure p now (ca_kind a) (ca_generation a) c)"

definition circuit_attempt_cancel ::
    "circuit_breaker_policy \<Rightarrow> circuit_attempt \<Rightarrow> circuit_breaker \<Rightarrow> circuit_attempt \<times> circuit_breaker" where
  "circuit_attempt_cancel p a c =
     (a\<lparr> ca_completed := True \<rparr>, circuit_record_cancel p (ca_kind a) (ca_generation a) c)"

definition circuit_attempt_drop ::
    "circuit_breaker_policy \<Rightarrow> circuit_attempt \<Rightarrow> circuit_breaker \<Rightarrow> circuit_attempt \<times> circuit_breaker" where
  "circuit_attempt_drop p a c =
     (if \<not> ca_completed a
      then (a\<lparr> ca_completed := True \<rparr>, circuit_record_cancel p (ca_kind a) (ca_generation a) c)
      else (a, c))"

datatype attempt_end = EndSuccess | EndFailure | EndCancel | EndDrop

text \<open>
  The end of an attempt: one of the consuming methods (or none), and then its destructor.
\<close>

definition circuit_finish ::
    "circuit_breaker_policy \<Rightarrow> instant \<Rightarrow> attempt_end \<Rightarrow> circuit_attempt \<Rightarrow> circuit_breaker \<Rightarrow> circuit_breaker" where
  "circuit_finish p now outcome a c =
     (let (a, c) = (case outcome of
            EndSuccess \<Rightarrow> circuit_attempt_mark_success p a c
          | EndFailure \<Rightarrow> circuit_attempt_mark_failure p now a c
          | EndCancel \<Rightarrow> circuit_attempt_cancel p a c
          | EndDrop \<Rightarrow> (a, c))
      in snd (circuit_attempt_drop p a c))"

lemmas circuit_op_defs [op_defs] =
  circuit_record_success_def circuit_record_failure_def circuit_record_cancel_def
  close_half_open_if_recovered_def belongs_to_def

lemma circuit_finish_simps [simp]:
  "circuit_finish p now EndSuccess a c = circuit_record_success p (ca_kind a) (ca_generation a) c"
  "circuit_finish p now EndFailure a c = circuit_record_failure p now (ca_kind a) (ca_generation a) c"
  "circuit_finish p now EndCancel a c = circuit_record_cancel p (ca_kind a) (ca_generation a) c"
  "\<not> ca_completed a \<Longrightarrow>
     circuit_finish p now EndDrop a c = circuit_record_cancel p (ca_kind a) (ca_generation a) c"
  by (simp_all add: circuit_finish_def circuit_attempt_mark_success_def circuit_attempt_drop_def
      circuit_attempt_mark_failure_def circuit_attempt_cancel_def)

subsection \<open>Interleaved executions\<close>

type_synonym circuit_config = "circuit_breaker \<times> circuit_attempt multiset"

inductive circuit_step ::
    "circuit_breaker_policy \<Rightarrow> instant \<Rightarrow> circuit_config \<Rightarrow> circuit_config \<Rightarrow> bool" for p where
  begin_ok: "circuit_begin p now c = (Ok a, c') \<Longrightarrow> circuit_step p now (c, A) (c', add_mset a A)"
| begin_err: "circuit_begin p now c = (Err d, c') \<Longrightarrow> circuit_step p now (c, A) (c', A)"
| finish: "a \<in># A \<Longrightarrow> circuit_step p now (c, A) (circuit_finish p now outcome a c, A - {#a#})"

inductive_cases circuit_step_cases: "circuit_step p now (c, A) (c', A')"

inductive circuit_reachable :: "circuit_breaker_policy \<Rightarrow> circuit_config \<Rightarrow> bool" for p where
  init: "circuit_reachable p (circuit_breaker_new, {#})"
| step: "circuit_reachable p x \<Longrightarrow> circuit_step p now x y \<Longrightarrow> circuit_reachable p y"

definition circuit_policy_wf :: "circuit_breaker_policy \<Rightarrow> bool" where
  "circuit_policy_wf p \<longleftrightarrow>
     is_ok (circuit_breaker_policy_validate p :: (unit, unit error) result) \<and>
     cbp_failure_threshold p \<le> usize_max \<and> cbp_half_open_max_requests p \<le> usize_max \<and>
     cbp_half_open_success_threshold p \<le> usize_max"

definition attempts_of :: "generation \<Rightarrow> circuit_attempt multiset \<Rightarrow> circuit_attempt multiset" where
  "attempts_of g A = filter_mset (\<lambda>a. ca_generation a = g) A"

definition circuit_inv :: "circuit_breaker_policy \<Rightarrow> circuit_config \<Rightarrow> bool" where
  "circuit_inv p x \<longleftrightarrow> (case x of (c, A) \<Rightarrow>
     (\<forall>a \<in># A. ca_generation a < cb_next_generation c \<and> \<not> ca_completed a) \<and>
     (case cb_state c of
        Closed g f \<Rightarrow> g < cb_next_generation c \<and> f < cbp_failure_threshold p \<and>
          (\<forall>a \<in># attempts_of g A. ca_kind a = AttemptClosed)
      | Open _ \<Rightarrow> True
      | HalfOpen g active succ \<Rightarrow> g < cb_next_generation c \<and>
          active = size (attempts_of g A) \<and> active \<le> cbp_half_open_max_requests p \<and>
          (active = 0 \<longrightarrow> succ < cbp_half_open_success_threshold p) \<and>
          (\<forall>a \<in># attempts_of g A. ca_kind a = AttemptHalfOpen)))"

subsection \<open>The invariant\<close>

lemma attempts_of_add [simp]:
  "attempts_of g (add_mset a A) =
     (if ca_generation a = g then add_mset a (attempts_of g A) else attempts_of g A)"
  by (simp add: attempts_of_def)

lemma attempts_of_empty [simp]: "attempts_of g {#} = {#}"
  by (simp add: attempts_of_def)

lemma in_attempts_of [simp]: "a \<in># attempts_of g A \<longleftrightarrow> a \<in># A \<and> ca_generation a = g"
  by (auto simp: attempts_of_def)

lemma attempts_of_fresh: "\<forall>a \<in># A. ca_generation a < g \<Longrightarrow> attempts_of g A = {#}"
  by (auto simp: attempts_of_def filter_mset_eq_conv)

lemma circuit_policy_wfD:
  assumes "circuit_policy_wf p"
  shows "0 < cbp_failure_threshold p" "0 < cbp_open_timeout p" "0 < cbp_half_open_max_requests p"
    "0 < cbp_half_open_success_threshold p" "cbp_half_open_max_requests p \<le> usize_max"
    "cbp_failure_threshold p \<le> usize_max" "cbp_half_open_success_threshold p \<le> usize_max"
  using assms
  by (auto simp: circuit_policy_wf_def circuit_breaker_policy_validate_def split: if_splits)

lemma circuit_begin_Err: "circuit_begin p now c = (Err d, c') \<Longrightarrow> c' = c"
  by (auto simp: circuit_begin_def Let_def split: circuit_state.splits if_splits)

lemma circuit_inv_begin:
  assumes "circuit_policy_wf p" "circuit_inv p (c, A)" "circuit_begin p now c = (Ok a, c')"
  shows "circuit_inv p (c', add_mset a A)"
proof (cases "cb_state c")
  case (Closed g f)
  with assms show ?thesis by (auto simp: circuit_begin_def circuit_inv_def)
next
  case (Open t)
  with assms have "a = \<lparr> ca_generation = cb_next_generation c, ca_kind = AttemptHalfOpen, ca_completed = False \<rparr>"
    "c' = \<lparr> cb_state = HalfOpen (cb_next_generation c) 1 0, cb_next_generation = Suc (cb_next_generation c) \<rparr>"
    by (auto simp: circuit_begin_def Let_def split: if_splits)
  moreover from assms(2) have "\<forall>b \<in># A. ca_generation b < cb_next_generation c"
    by (simp add: circuit_inv_def)
  ultimately show ?thesis
    using assms(1,2) circuit_policy_wfD [OF assms(1)]
    by (auto simp: circuit_inv_def attempts_of_fresh)
next
  case (HalfOpen g n s)
  with assms(3) have n: "n < cbp_half_open_max_requests p"
    and a: "a = \<lparr> ca_generation = g, ca_kind = AttemptHalfOpen, ca_completed = False \<rparr>"
    and c': "c' = c\<lparr> cb_state := HalfOpen g (usize_add n 1) s \<rparr>"
    by (auto simp: circuit_begin_def split: if_splits)
  have "usize_add n 1 = Suc n"
    using n circuit_policy_wfD(5) [OF assms(1)] by (simp add: sat_add_def)
  with assms(2) HalfOpen n show ?thesis by (auto simp: circuit_inv_def a c')
qed

lemma circuit_record_stale [simp]:
  assumes "\<not> belongs_to (cb_state c) g"
  shows "circuit_record_success p k g c = c" "circuit_record_failure p now k g c = c"
    "circuit_record_cancel p k g c = c"
  using assms
  by (simp_all add: circuit_record_success_def circuit_record_failure_def circuit_record_cancel_def)

lemma circuit_finish_stale:
  assumes "\<not> belongs_to (cb_state c) (ca_generation a)"
  shows "circuit_finish p now e a c = c"
proof (cases e)
  case EndDrop
  with assms show ?thesis by (simp add: circuit_finish_def circuit_attempt_drop_def)
qed (simp_all add: assms)

text \<open>
  What one finished attempt does to a breaker in its own cycle, by state.
\<close>

lemma circuit_finish_Closed:
  assumes "\<not> ca_completed a" "ca_kind a = AttemptClosed" "cb_state c = Closed (ca_generation a) f"
    and "f < cbp_failure_threshold p" "cbp_failure_threshold p \<le> usize_max"
  shows "circuit_finish p now e a c = c\<lparr> cb_state := (case e of
      EndSuccess \<Rightarrow> Closed (ca_generation a) 0
    | EndFailure \<Rightarrow> (if Suc f \<ge> cbp_failure_threshold p then Open now else Closed (ca_generation a) (Suc f))
    | _ \<Rightarrow> Closed (ca_generation a) f) \<rparr>"
proof -
  have "usize_add f 1 = Suc f" using assms(4,5) by (simp add: sat_add_def)
  moreover have "c = c\<lparr> cb_state := Closed (ca_generation a) f \<rparr>" using assms(3) by simp
  ultimately show ?thesis
    using assms by (cases e) (simp_all add: circuit_op_defs Let_def)
qed

lemma circuit_finish_HalfOpen:
  assumes "\<not> ca_completed a" "ca_kind a = AttemptHalfOpen" "cb_state c = HalfOpen (ca_generation a) n s"
  shows "circuit_finish p now e a c = (case e of
      EndSuccess \<Rightarrow> close_half_open_if_recovered (cbp_half_open_success_threshold p)
        (c\<lparr> cb_state := HalfOpen (ca_generation a) (n - 1) (usize_add s 1) \<rparr>)
    | EndFailure \<Rightarrow> c\<lparr> cb_state := Open now \<rparr>
    | _ \<Rightarrow> close_half_open_if_recovered (cbp_half_open_success_threshold p)
        (c\<lparr> cb_state := HalfOpen (ca_generation a) (n - 1) s \<rparr>))"
  using assms
  by (cases e) (simp_all add: circuit_record_success_def circuit_record_failure_def
      circuit_record_cancel_def belongs_to_def)

lemma circuit_inv_close:
  assumes "\<forall>a \<in># A. ca_generation a < cb_next_generation c \<and> \<not> ca_completed a"
    and "g < cb_next_generation c" "0 < cbp_failure_threshold p"
    and "n = size (attempts_of g A)" "n \<le> cbp_half_open_max_requests p"
    and "\<forall>a \<in># attempts_of g A. ca_kind a = AttemptHalfOpen"
  shows "circuit_inv p (close_half_open_if_recovered (cbp_half_open_success_threshold p)
    (c\<lparr> cb_state := HalfOpen g n s \<rparr>), A)"
proof (cases "n = 0 \<and> cbp_half_open_success_threshold p \<le> s")
  case True
  with assms show ?thesis
    by (auto simp: circuit_inv_def close_half_open_if_recovered_def attempts_of_fresh)
next
  case False
  with assms show ?thesis
    by (auto simp: circuit_inv_def close_half_open_if_recovered_def)
qed

lemma circuit_inv_finish:
  assumes "circuit_policy_wf p" "circuit_inv p (c, add_mset a A)"
  shows "circuit_inv p (circuit_finish p now e a c, A)"
proof (cases "belongs_to (cb_state c) (ca_generation a)")
  case False
  then show ?thesis using assms(2)
    by (auto simp: circuit_finish_stale circuit_inv_def belongs_to_def split: circuit_state.splits)
next
  case True
  from assms(2) have a: "\<not> ca_completed a" by (simp add: circuit_inv_def)
  note wf = circuit_policy_wfD [OF assms(1)]
  show ?thesis
  proof (cases "cb_state c")
    case (Closed g f)
    with True assms(2) have k: "ca_kind a = AttemptClosed" "g = ca_generation a"
      "f < cbp_failure_threshold p"
      by (auto simp: circuit_inv_def belongs_to_def)
    from Closed k assms(2) wf show ?thesis
      unfolding circuit_finish_Closed [OF a k(1) Closed [unfolded k(2)] k(3) wf(6)]
      by (auto simp: circuit_inv_def split: attempt_end.splits)
  next
    case (Open t)
    with True show ?thesis by (simp add: belongs_to_def)
  next
    case (HalfOpen g n s)
    with True assms(2) have k: "ca_kind a = AttemptHalfOpen" "g = ca_generation a"
      "n = Suc (size (attempts_of g A))"
      by (auto simp: circuit_inv_def belongs_to_def)
    have inv: "circuit_inv p (close_half_open_if_recovered (cbp_half_open_success_threshold p)
        (c\<lparr> cb_state := HalfOpen g (n - 1) s' \<rparr>), A)" for s'
      using assms(2) HalfOpen k wf by (intro circuit_inv_close) (auto simp: circuit_inv_def)
    have "circuit_inv p (c\<lparr> cb_state := Open now \<rparr>, A)"
      using assms(2) by (simp add: circuit_inv_def)
    then show ?thesis
      unfolding circuit_finish_HalfOpen [OF a k(1) HalfOpen [unfolded k(2)]]
      using k inv by (simp split: attempt_end.splits)
  qed
qed

lemma circuit_inv_new: "circuit_policy_wf p \<Longrightarrow> circuit_inv p (circuit_breaker_new, {#})"
  using circuit_policy_wfD(1) [of p] by (simp add: circuit_inv_def circuit_breaker_new_def)

lemma circuit_inv_step:
  assumes "circuit_policy_wf p" "circuit_inv p x" "circuit_step p now x y"
  shows "circuit_inv p y"
  using assms(3,2)
proof cases
  case (begin_ok c a c' A)
  with assms show ?thesis by (auto intro: circuit_inv_begin)
next
  case (begin_err c d c' A)
  with assms show ?thesis by (auto dest: circuit_begin_Err)
next
  case (finish a A c outcome)
  then have "add_mset a (A - {#a#}) = A" by simp
  with finish assms circuit_inv_finish [OF assms(1), of c a "A - {#a#}"] show ?thesis by simp
qed

lemma circuit_inv_reachable:
  assumes "circuit_policy_wf p" "circuit_reachable p x"
  shows "circuit_inv p x"
  using assms(2) by induction (auto intro: circuit_inv_new circuit_inv_step assms(1))

subsection \<open>Cycles and their tokens\<close>

definition circuit_any_step :: "circuit_breaker_policy \<Rightarrow> circuit_config \<Rightarrow> circuit_config \<Rightarrow> bool" where
  "circuit_any_step p x y \<longleftrightarrow> (\<exists>now. circuit_step p now x y)"

definition circuit_step_before ::
    "circuit_breaker_policy \<Rightarrow> instant \<Rightarrow> circuit_config \<Rightarrow> circuit_config \<Rightarrow> bool" where
  "circuit_step_before p t x y \<longleftrightarrow> (\<exists>now < t. circuit_step p now x y)"

lemma circuit_finish_generation:
  "(belongs_to (cb_state (circuit_finish p now e a c)) g \<longrightarrow>
      belongs_to (cb_state c) g \<or> g = cb_next_generation c) \<and>
   cb_next_generation c \<le> cb_next_generation (circuit_finish p now e a c)"
  by (cases e) (auto simp: circuit_finish_def circuit_attempt_drop_def circuit_attempt_mark_success_def
      circuit_attempt_mark_failure_def circuit_attempt_cancel_def circuit_op_defs Let_def
      split: circuit_state.splits circuit_attempt_kind.splits)

lemma circuit_begin_generation:
  assumes "circuit_begin p now c = (r, c')"
  shows "(belongs_to (cb_state c') g \<longrightarrow> belongs_to (cb_state c) g \<or> g = cb_next_generation c) \<and>
    cb_next_generation c \<le> cb_next_generation c'"
  using assms
  by (auto simp: circuit_begin_def Let_def belongs_to_def split: circuit_state.splits if_splits)

lemma circuit_step_generation:
  assumes "circuit_step p now (c, A) (c', A')"
  shows "(belongs_to (cb_state c') g \<longrightarrow> belongs_to (cb_state c) g \<or> g = cb_next_generation c) \<and>
    cb_next_generation c \<le> cb_next_generation c'"
  using assms
  by (rule circuit_step_cases) (auto dest: circuit_begin_generation simp: circuit_finish_generation)

lemma circuit_stale_step:
  assumes "circuit_step p now x y" "\<not> belongs_to (cb_state (fst x)) g" "g < cb_next_generation (fst x)"
  shows "\<not> belongs_to (cb_state (fst y)) g \<and> g < cb_next_generation (fst y)"
  using assms circuit_step_generation [of p now "fst x" "snd x" "fst y" "snd y" g]
  by (cases x; cases y) auto

lemma circuit_stale_steps:
  assumes "(circuit_any_step p)\<^sup>*\<^sup>* x y" "\<not> belongs_to (cb_state (fst x)) g" "g < cb_next_generation (fst x)"
  shows "\<not> belongs_to (cb_state (fst y)) g \<and> g < cb_next_generation (fst y)"
  using assms
  by (induction rule: rtranclp_induct) (auto simp: circuit_any_step_def dest: circuit_stale_step)

lemma circuit_open_step:
  assumes "circuit_step p now (c, A) (c', A')" "cb_state c = Open t0" "now < t0 + cbp_open_timeout p"
    and "0 < cbp_open_timeout p"
  shows "c' = c \<and> A' \<subseteq># A"
  using assms(1)
proof cases
  case (begin_ok a)
  with assms show ?thesis
    by (auto simp: circuit_begin_def saturating_duration_since_def Let_def split: if_splits)
next
  case (begin_err d)
  with circuit_begin_Err show ?thesis by blast
next
  case (finish a outcome)
  then show ?thesis using assms(2) by (simp add: circuit_finish_stale belongs_to_def)
qed

subsection \<open>Sequential failures and probes\<close>

lemma circuit_failures:
  assumes "\<not> ca_completed a" "ca_kind a = AttemptClosed" "cbp_failure_threshold p \<le> usize_max"
    and "cb_state c = Closed (ca_generation a) f" "f + length ts < cbp_failure_threshold p"
  shows "cb_state (fold (\<lambda>now. circuit_finish p now EndFailure a) ts c) =
    Closed (ca_generation a) (f + length ts)"
  using assms(4,5)
proof (induction ts arbitrary: c f)
  case (Cons t ts)
  have "cb_state (circuit_finish p t EndFailure a c) = Closed (ca_generation a) (Suc f)"
    using Cons.prems assms(1-3) circuit_finish_Closed [of a c f p t EndFailure] by simp
  from Cons.IH [OF this] Cons.prems(2) show ?case by simp
qed simp

definition circuit_probe ::
    "circuit_breaker_policy \<Rightarrow> attempt_end \<Rightarrow> instant \<Rightarrow> circuit_breaker \<Rightarrow> circuit_breaker" where
  "circuit_probe p e now c =
     (case circuit_begin p now c of
        (Ok a, c') \<Rightarrow> circuit_finish p now e a c'
      | (Err _, c') \<Rightarrow> c')"

lemma circuit_probe_HalfOpen:
  assumes "circuit_policy_wf p" "cb_state c = HalfOpen g 0 s" "s < cbp_half_open_success_threshold p"
  shows "cb_state (circuit_probe p EndSuccess now c) =
    (if Suc s = cbp_half_open_success_threshold p then Closed (cb_next_generation c) 0
     else HalfOpen g 0 (Suc s))"
proof -
  note wf = circuit_policy_wfD [OF assms(1)]
  have "usize_add s 1 = Suc s" "usize_add 0 1 = 1"
    using assms(3) wf(7) by (auto simp: sat_add_def max_values)
  then show ?thesis
    using assms(2,3) wf by (auto simp: circuit_probe_def circuit_begin_def circuit_op_defs)
qed

lemma circuit_probes_HalfOpen:
  assumes "circuit_policy_wf p" "cb_state c = HalfOpen g 0 s"
    and "s < cbp_half_open_success_threshold p" "s + length ts = cbp_half_open_success_threshold p"
  shows "\<exists>g'. cb_state (fold (circuit_probe p EndSuccess) ts c) = Closed g' 0"
  using assms(2-)
proof (induction ts arbitrary: c s)
  case (Cons t ts)
  note st = circuit_probe_HalfOpen [OF assms(1) Cons.prems(1,2), of t]
  show ?case
  proof (cases "Suc s = cbp_half_open_success_threshold p")
    case True
    with Cons.prems(3) have "ts = []" by (cases ts) auto
    with True st show ?thesis by simp
  next
    case False
    with Cons.prems(2,3) st show ?thesis
      using Cons.IH [of "circuit_probe p EndSuccess t c" "Suc s"] by simp
  qed
qed simp

lemma circuit_probe_Open:
  assumes "circuit_policy_wf p" "cb_state c = Open t0" "t0 + cbp_open_timeout p \<le> now"
  shows "cb_state (circuit_probe p EndSuccess now c) =
    (if cbp_half_open_success_threshold p = 1 then Closed (Suc (cb_next_generation c)) 0
     else HalfOpen (cb_next_generation c) 0 1)"
    and "cb_state (circuit_probe p EndFailure now c) = Open now"
  using assms circuit_policy_wfD [OF assms(1)]
  by (auto simp: circuit_probe_def circuit_begin_def circuit_op_defs saturating_duration_since_def
      sat_add_def max_values Let_def)

subsection \<open>Properties\<close>

text \<open>
  C29: In every reachable configuration, under any interleaving of beginnings and endings of
  attempts, a half-open breaker counts exactly its outstanding probes and never admits more
  than \<open>half_open_max_requests\<close> of them at a time; and if it refuses a new one, some probe is
  outstanding, so that the refusal is never permanent.
\<close>

theorem circuit_half_open_probes_bounded:
  assumes "circuit_policy_wf p" "circuit_reachable p (c, A)" "cb_state c = HalfOpen g n s"
  shows "n = size (attempts_of g A) \<and> n \<le> cbp_half_open_max_requests p \<and>
    (\<not> is_ok (fst (circuit_begin p now c)) \<longrightarrow> (\<exists>a \<in># A. belongs_to (cb_state c) (ca_generation a)))"
proof -
  note inv = circuit_inv_reachable [OF assms(1,2)]
  have "attempts_of g A \<noteq> {#}" if "\<not> is_ok (fst (circuit_begin p now c))"
  proof
    assume "attempts_of g A = {#}"
    with inv assms(3) have "n = 0" "s < cbp_half_open_success_threshold p"
      by (auto simp: circuit_inv_def)
    with that assms(3) circuit_policy_wfD(3) [OF assms(1)] show False
      by (simp add: circuit_begin_def)
  qed
  then have "\<exists>a \<in># A. ca_generation a = g" if "\<not> is_ok (fst (circuit_begin p now c))"
    using that by (metis in_attempts_of multiset_nonemptyE)
  with inv assms(3) show ?thesis by (auto simp: circuit_inv_def belongs_to_def)
qed

definition circuit_unit_policy :: circuit_breaker_policy where
  "circuit_unit_policy = \<lparr> cbp_failure_threshold = 1, cbp_open_timeout = 1,
     cbp_half_open_max_requests = 1, cbp_half_open_success_threshold = 1 \<rparr>"

abbreviation first_attempt :: circuit_attempt where
  "first_attempt \<equiv> \<lparr> ca_generation = 0, ca_kind = AttemptClosed, ca_completed = False \<rparr>"

abbreviation probe_attempt :: circuit_attempt where
  "probe_attempt \<equiv> \<lparr> ca_generation = 1, ca_kind = AttemptHalfOpen, ca_completed = False \<rparr>"

lemma circuit_unit_policy_wf [simp]: "circuit_policy_wf circuit_unit_policy"
  by (simp add: circuit_policy_wf_def circuit_unit_policy_def circuit_breaker_policy_validate_def
      max_values)

lemma circuit_unit_reachable_open:
  "circuit_reachable circuit_unit_policy (\<lparr> cb_state = Open 0, cb_next_generation = 1 \<rparr>, {#first_attempt#})"
proof -
  let ?p = circuit_unit_policy
  have "circuit_reachable ?p (circuit_breaker_new, {#first_attempt#})"
    by (rule circuit_reachable.step [OF circuit_reachable.init circuit_step.begin_ok [of ?p 0]])
      (simp add: circuit_begin_def circuit_breaker_new_def)
  then have "circuit_reachable ?p (circuit_breaker_new, {#first_attempt, first_attempt#})"
    by (rule circuit_reachable.step [OF _ circuit_step.begin_ok [of ?p 0]])
      (simp add: circuit_begin_def circuit_breaker_new_def)
  from circuit_reachable.step [OF this circuit_step.finish [of first_attempt _ ?p 0 _ EndFailure]]
  show ?thesis
    by (simp add: circuit_op_defs circuit_breaker_new_def circuit_unit_policy_def sat_add_def
        max_values Let_def)
qed

lemma circuit_unit_reachable_half_open:
  "circuit_reachable circuit_unit_policy
     (\<lparr> cb_state = HalfOpen 1 1 0, cb_next_generation = 2 \<rparr>, {#probe_attempt, first_attempt#})"
  by (rule circuit_reachable.step [OF circuit_unit_reachable_open
        circuit_step.begin_ok [of circuit_unit_policy 1]])
    (simp add: circuit_begin_def circuit_unit_policy_def saturating_duration_since_def Let_def)

theorem circuit_half_open_probes_bounded_witness:
  "\<not> is_ok (fst (circuit_begin circuit_unit_policy 1 \<lparr> cb_state = HalfOpen 1 1 0, cb_next_generation = 2 \<rparr>)) \<and>
   (\<exists>a \<in># {#probe_attempt, first_attempt#}. belongs_to (HalfOpen 1 1 0) (ca_generation a))"
  using circuit_half_open_probes_bounded [OF circuit_unit_policy_wf circuit_unit_reachable_half_open,
      of 1 1 0 1]
  by (simp add: circuit_begin_def circuit_unit_policy_def)

text \<open>
  While the open timeout has not elapsed, an open breaker admits no attempt and stays
  exactly as it is, whatever the outstanding attempts report.
\<close>

theorem circuit_open_rejects_until_timeout:
  assumes "circuit_policy_wf p" "cb_state c = Open t0"
    and "(circuit_step_before p (t0 + cbp_open_timeout p))\<^sup>*\<^sup>* (c, A) (c', A')"
  shows "c' = c \<and> A' \<subseteq># A"
proof -
  have "fst y = c \<and> snd y \<subseteq># A"
    if "(circuit_step_before p (t0 + cbp_open_timeout p))\<^sup>*\<^sup>* (c, A) y" for y
    using that
  proof (induction rule: rtranclp_induct)
    case (step y z)
    then obtain now where "now < t0 + cbp_open_timeout p" "circuit_step p now y z"
      by (auto simp: circuit_step_before_def)
    with step.IH assms(2) circuit_policy_wfD(2) [OF assms(1)]
      circuit_open_step [of p now "fst y" "snd y" "fst z" "snd z" t0]
    show ?case by (auto intro: subset_mset.order_trans)
  qed simp
  from this [OF assms(3)] show ?thesis by simp
qed

theorem circuit_open_rejects_until_timeout_witness:
  "circuit_step_before circuit_unit_policy 1
     (\<lparr> cb_state = Open 0, cb_next_generation = 1 \<rparr>, {#first_attempt#})
     (\<lparr> cb_state = Open 0, cb_next_generation = 1 \<rparr>, {#}) \<and>
   {#} \<subseteq># {#first_attempt#}"
proof -
  let ?c = "\<lparr> cb_state = Open 0, cb_next_generation = 1 \<rparr>"
  have "circuit_step circuit_unit_policy 0 (?c, {#first_attempt#})
      (circuit_finish circuit_unit_policy 0 EndSuccess first_attempt ?c, {#first_attempt#} - {#first_attempt#})"
    by (rule circuit_step.finish) simp
  then have step: "circuit_step_before circuit_unit_policy 1 (?c, {#first_attempt#}) (?c, {#})"
    by (auto simp: circuit_step_before_def belongs_to_def)
  with circuit_open_rejects_until_timeout [of circuit_unit_policy ?c 0 "{#first_attempt#}" ?c "{#}"]
  show ?thesis by (simp add: circuit_unit_policy_def)
qed

text \<open>
  An attempt that outlived its cycle never affects the breaker again: once an outstanding
  attempt does not belong to the current state, then in every later configuration ending it,
  in whatever way, leaves the breaker unchanged.
\<close>

theorem circuit_late_results_ignored:
  assumes "circuit_policy_wf p" "circuit_reachable p (c, A)" "a \<in># A"
    and "\<not> belongs_to (cb_state c) (ca_generation a)"
    and "(circuit_any_step p)\<^sup>*\<^sup>* (c, A) (c', A')"
  shows "circuit_finish p now e a c' = c'"
proof -
  have "ca_generation a < cb_next_generation c"
    using circuit_inv_reachable [OF assms(1,2)] assms(3) by (simp add: circuit_inv_def)
  with circuit_stale_steps [OF assms(5)] assms(4) show ?thesis
    by (intro circuit_finish_stale) simp
qed

theorem circuit_late_results_ignored_witness:
  "circuit_finish circuit_unit_policy 5 EndFailure first_attempt
     \<lparr> cb_state = HalfOpen 1 1 0, cb_next_generation = 2 \<rparr> =
   \<lparr> cb_state = HalfOpen 1 1 0, cb_next_generation = 2 \<rparr>"
proof -
  let ?c = "\<lparr> cb_state = Open 0, cb_next_generation = 1 \<rparr>"
  let ?c' = "\<lparr> cb_state = HalfOpen 1 1 0, cb_next_generation = 2 \<rparr>"
  have "circuit_any_step circuit_unit_policy (?c, {#first_attempt#}) (?c', {#probe_attempt, first_attempt#})"
    unfolding circuit_any_step_def
    by (rule exI [of _ 1], rule circuit_step.begin_ok)
      (simp add: circuit_begin_def circuit_unit_policy_def saturating_duration_since_def Let_def)
  with circuit_late_results_ignored [OF circuit_unit_policy_wf circuit_unit_reachable_open,
      of first_attempt ?c' "{#probe_attempt, first_attempt#}" 5 EndFailure]
  show ?thesis by (simp add: belongs_to_def)
qed

text \<open>
  C36: Consecutive failures trip the breaker exactly at the threshold: after fewer failures than
  \<open>failure_threshold\<close> a closed breaker is still closed and has counted them; the failure that
  reaches the threshold opens it at the time of that failure.
\<close>

theorem circuit_trips_exactly_at_threshold:
  assumes "circuit_policy_wf p" "\<not> ca_completed a" "ca_kind a = AttemptClosed"
    and "cb_state c = Closed (ca_generation a) 0"
  shows "(length ts < cbp_failure_threshold p \<longrightarrow>
       cb_state (fold (\<lambda>now. circuit_finish p now EndFailure a) ts c) =
         Closed (ca_generation a) (length ts)) \<and>
    (Suc (length ts) = cbp_failure_threshold p \<longrightarrow>
       cb_state (fold (\<lambda>now. circuit_finish p now EndFailure a) (ts @ [t]) c) = Open t)"
proof -
  note wf = circuit_policy_wfD [OF assms(1)]
  have *: "cb_state (fold (\<lambda>now. circuit_finish p now EndFailure a) ts c) =
      Closed (ca_generation a) (length ts)" if "length ts < cbp_failure_threshold p"
    using circuit_failures [OF assms(2,3) wf(6) assms(4), of ts] that by simp
  then show ?thesis
    using circuit_finish_Closed [OF assms(2,3) * _ wf(6), of t EndFailure] by auto
qed

theorem circuit_trips_exactly_at_threshold_witness:
  "cb_state (fold (\<lambda>now. circuit_finish circuit_unit_policy now EndFailure first_attempt) [7]
     circuit_breaker_new) = Open 7"
  using circuit_trips_exactly_at_threshold [OF circuit_unit_policy_wf,
      of first_attempt circuit_breaker_new "[]" 7]
  by (simp add: circuit_breaker_new_def circuit_unit_policy_def)

text \<open>
  C37: The breaker recovers: once the open timeout has elapsed, as many successive successful
  probes as the policy asks for close it again with a clean failure count, while a first
  probe that fails reopens it at once.
\<close>

theorem circuit_recovers:
  assumes "circuit_policy_wf p" "cb_state c = Open t0" "t0 + cbp_open_timeout p \<le> t"
    and "Suc (length ts) = cbp_half_open_success_threshold p"
  shows "(\<exists>g. cb_state (fold (circuit_probe p EndSuccess) (t # ts) c) = Closed g 0) \<and>
    cb_state (circuit_probe p EndFailure t c) = Open t"
proof (cases "ts = []")
  case True
  with circuit_probe_Open [OF assms(1-3)] assms(4) show ?thesis by simp
next
  case False
  with circuit_probe_Open [OF assms(1-3)] assms(4)
  have "cb_state (circuit_probe p EndSuccess t c) = HalfOpen (cb_next_generation c) 0 1" by auto
  from circuit_probes_HalfOpen [OF assms(1) this, of ts] False assms(4)
    circuit_probe_Open [OF assms(1-3)]
  show ?thesis by (cases ts) auto
qed

theorem circuit_recovers_witness:
  "\<exists>g. cb_state (fold (circuit_probe circuit_unit_policy EndSuccess) [3]
     \<lparr> cb_state = Open 2, cb_next_generation = 1 \<rparr>) = Closed g 0"
  using circuit_recovers [OF circuit_unit_policy_wf,
      of "\<lparr> cb_state = Open 2, cb_next_generation = 1 \<rparr>" 2 3 "[]"]
  by (simp add: circuit_unit_policy_def)

end
