(* ===== verification/Reqx_RetryBudget.thy ===== *)
theory Reqx_RetryBudget
  imports Reqx_Timing
begin

text \<open>
  The retry budget (\<open>src/src/resilience.rs\<close>, \<open>RetryBudgetPolicy\<close> and \<open>RetryBudget\<close>): how many
  retries may be spent in the current accounting window. The mutex makes every operation
  atomic, so an operation is a function from the locked state and the reading \<open>now\<close> of the
  monotonic clock to the new state; \<open>retry_budget_run\<close> is any interleaving of the operations.
\<close>

subsection \<open>Policy\<close>

record retry_budget_policy =
  rbp_window :: duration
  rbp_retry_ratio :: f64
  rbp_min_retries_per_window :: nat

definition retry_budget_policy_standard :: retry_budget_policy where
  "retry_budget_policy_standard =
     \<lparr> rbp_window = from_secs 10, rbp_retry_ratio = fl (2 / 10), rbp_min_retries_per_window = 3 \<rparr>"

definition retry_budget_invalid_policy :: "retry_budget_policy \<Rightarrow> string \<Rightarrow> 'h error" where
  "retry_budget_invalid_policy p message =
     InvalidRetryBudgetPolicy (duration_millis_ceil (rbp_window p)) (rbp_retry_ratio p)
       (rbp_min_retries_per_window p) message"

definition retry_budget_policy_validate :: "retry_budget_policy \<Rightarrow> (unit, 'h error) result" where
  "retry_budget_policy_validate p =
     (if rbp_window p = 0
      then Err (retry_budget_invalid_policy p ''window must be greater than zero'')
      else if \<not> is_finite (rbp_retry_ratio p) \<or>
              \<not> (f64_le (Fin 0) (rbp_retry_ratio p) \<and> f64_le (rbp_retry_ratio p) (Fin 1))
      then Err (retry_budget_invalid_policy p ''retry_ratio must be finite and between 0.0 and 1.0'')
      else Ok ())"

subsection \<open>State and operations\<close>

record retry_budget_state =
  rb_window_started_at :: instant
  rb_requests_succeeded :: nat
  rb_retries_consumed :: nat

definition retry_budget_new :: "instant \<Rightarrow> retry_budget_state" where
  "retry_budget_new now =
     \<lparr> rb_window_started_at = now, rb_requests_succeeded = 0, rb_retries_consumed = 0 \<rparr>"

definition refresh_retry_budget_window ::
    "retry_budget_policy \<Rightarrow> instant \<Rightarrow> retry_budget_state \<Rightarrow> retry_budget_state" where
  "refresh_retry_budget_window p now s =
     (if saturating_duration_since now (rb_window_started_at s) \<ge> rbp_window p
      then s\<lparr> rb_window_started_at := now, rb_requests_succeeded := 0, rb_retries_consumed := 0 \<rparr>
      else s)"

definition retry_budget_record_success ::
    "retry_budget_policy \<Rightarrow> instant \<Rightarrow> retry_budget_state \<Rightarrow> retry_budget_state" where
  "retry_budget_record_success p now s =
     (let s = refresh_retry_budget_window p now s
      in s\<lparr> rb_requests_succeeded := usize_add (rb_requests_succeeded s) 1 \<rparr>)"

definition retry_budget_allowance :: "retry_budget_policy \<Rightarrow> retry_budget_state \<Rightarrow> nat" where
  "retry_budget_allowance p s =
     (let dynamic_allowance = f64_as_uint usize_max
            (f64_floor (f64_mul (f64_of_nat (rb_requests_succeeded s)) (rbp_retry_ratio p)))
      in usize_add dynamic_allowance (rbp_min_retries_per_window p))"

definition retry_budget_try_consume_retry ::
    "retry_budget_policy \<Rightarrow> instant \<Rightarrow> retry_budget_state \<Rightarrow> bool \<times> retry_budget_state" where
  "retry_budget_try_consume_retry p now s =
     (let s = refresh_retry_budget_window p now s
      in if rb_retries_consumed s \<ge> retry_budget_allowance p s then (False, s)
         else (True, s\<lparr> rb_retries_consumed := usize_add (rb_retries_consumed s) 1 \<rparr>))"

lemmas retry_budget_defs [op_defs] =
  refresh_retry_budget_window_def retry_budget_record_success_def
  retry_budget_try_consume_retry_def Let_def

subsection \<open>Interleavings\<close>

text \<open>
  A step makes one call and reports it with what the caller was told, so that the trace of a run is what
  its callers have seen.
\<close>

datatype budget_op = RecordSuccess | TryConsumeRetry

datatype budget_event = Recorded instant | Granted instant | Refused instant

definition retry_budget_step ::
    "retry_budget_policy \<Rightarrow> budget_op \<times> instant \<Rightarrow> retry_budget_state \<Rightarrow> budget_event \<times> retry_budget_state" where
  "retry_budget_step p op s =
     (case op of
        (RecordSuccess, now) \<Rightarrow> (Recorded now, retry_budget_record_success p now s)
      | (TryConsumeRetry, now) \<Rightarrow>
          (case retry_budget_try_consume_retry p now s of
             (True, s) \<Rightarrow> (Granted now, s)
           | (False, s) \<Rightarrow> (Refused now, s)))"

fun retry_budget_run ::
    "retry_budget_policy \<Rightarrow> (budget_op \<times> instant) list \<Rightarrow> retry_budget_state \<Rightarrow>
     budget_event list \<times> retry_budget_state" where
  "retry_budget_run p [] s = ([], s)"
| "retry_budget_run p (op # ops) s =
     (let (e, s) = retry_budget_step p op s; (es, s) = retry_budget_run p ops s in (e # es, s))"

subsection \<open>Accounting by what callers were told\<close>

text \<open>
  The windows of a trace, the current one first, with the successes and the granted retries that fall into
  each. They are computed from the trace alone: a window ends with the first call that comes a window's
  length or more after its start.
\<close>

record budget_window =
  bw_started :: instant
  bw_successes :: nat
  bw_granted :: nat

definition window_at :: "retry_budget_policy \<Rightarrow> instant \<Rightarrow> budget_window list \<Rightarrow> budget_window list" where
  "window_at p now ws =
     (if rbp_window p \<le> now - bw_started (hd ws)
      then \<lparr> bw_started = now, bw_successes = 0, bw_granted = 0 \<rparr> # ws else ws)"

definition on_current :: "(budget_window \<Rightarrow> budget_window) \<Rightarrow> budget_window list \<Rightarrow> budget_window list" where
  "on_current f ws = f (hd ws) # tl ws"

primrec account :: "retry_budget_policy \<Rightarrow> budget_event \<Rightarrow> budget_window list \<Rightarrow> budget_window list" where
  "account p (Recorded now) ws = on_current (bw_successes_update Suc) (window_at p now ws)"
| "account p (Granted now) ws = on_current (bw_granted_update Suc) (window_at p now ws)"
| "account p (Refused now) ws = window_at p now ws"

definition windows :: "retry_budget_policy \<Rightarrow> instant \<Rightarrow> budget_event list \<Rightarrow> budget_window list" where
  "windows p t es = fold (account p) es [\<lparr> bw_started = t, bw_successes = 0, bw_granted = 0 \<rparr>]"

definition window_allowance :: "retry_budget_policy \<Rightarrow> budget_window \<Rightarrow> nat" where
  "window_allowance p w =
     retry_budget_allowance p \<lparr> rb_window_started_at = bw_started w,
       rb_requests_succeeded = min usize_max (bw_successes w), rb_retries_consumed = bw_granted w \<rparr>"

text \<open>An answer is right when it grants a retry exactly while the window has some of its allowance left.\<close>

primrec answer_right :: "retry_budget_policy \<Rightarrow> budget_window list \<Rightarrow> budget_event \<Rightarrow> bool" where
  "answer_right p ws (Recorded now) \<longleftrightarrow> True"
| "answer_right p ws (Granted now) \<longleftrightarrow>
     bw_granted (hd (window_at p now ws)) < window_allowance p (hd (window_at p now ws))"
| "answer_right p ws (Refused now) \<longleftrightarrow>
     window_allowance p (hd (window_at p now ws)) \<le> bw_granted (hd (window_at p now ws))"

fun answers_right :: "retry_budget_policy \<Rightarrow> budget_window list \<Rightarrow> budget_event list \<Rightarrow> bool" where
  "answers_right p ws [] \<longleftrightarrow> True"
| "answers_right p ws (e # es) \<longleftrightarrow> answer_right p ws e \<and> answers_right p (account p e ws) es"

subsection \<open>The allowance grows with the recorded successes\<close>

lemma retry_ratio_cases:
  assumes "retry_budget_policy_validate p = Ok ()"
  obtains q where "rbp_retry_ratio p = Fin q" "0 \<le> q" "q \<le> 1"
  using assms by (cases "rbp_retry_ratio p") (auto simp: retry_budget_policy_validate_def split: if_splits)

lemma retry_budget_allowance_mono:
  assumes "retry_budget_policy_validate p = Ok ()"
    and "rb_requests_succeeded s \<le> rb_requests_succeeded t" "rb_requests_succeeded t \<le> usize_max"
  shows "retry_budget_allowance p s \<le> retry_budget_allowance p t"
proof -
  obtain q where q: "rbp_retry_ratio p = Fin q" "0 \<le> q"
    using retry_ratio_cases [OF assms(1)] by blast
  have "f64_le (f64_mul (f64_of_nat (rb_requests_succeeded s)) (Fin q))
      (f64_mul (f64_of_nat (rb_requests_succeeded t)) (Fin q))"
    using assms q by (intro f64_mul_mono f64_of_nat_mono f64_of_nat_nonneg f64_of_nat_finite) auto
  then have "f64_as_uint usize_max (f64_floor (f64_mul (f64_of_nat (rb_requests_succeeded s)) (Fin q)))
      \<le> f64_as_uint usize_max (f64_floor (f64_mul (f64_of_nat (rb_requests_succeeded t)) (Fin q)))"
    by (intro f64_as_uint_mono f64_floor_mono)
  then show ?thesis by (simp add: retry_budget_allowance_def q(1) sat_add_def Let_def min_def)
qed

text \<open>The allowance is the ratio of the successes, rounded to a whole number, and the minimum.\<close>

lemma f64_floor_scaled_bounds:
  assumes "n \<le> 2 ^ 53" "n \<le> bound" "0 \<le> q" "q \<le> 1"
  shows "nat \<lfloor>real n * q\<rfloor> \<le> f64_as_uint bound (f64_floor (f64_mul (f64_of_nat n) (Fin q)))"
    and "f64_as_uint bound (f64_floor (f64_mul (f64_of_nat n) (Fin q))) \<le> nat \<lceil>real n * q\<rceil>"
proof -
  let ?x = "real n * q"
  have x: "0 \<le> ?x" "?x \<le> real n" using assms by (simp_all add: mult_left_le)
  have up: "nat \<lceil>?x\<rceil> \<le> n" using x by (simp add: nat_le_iff ceiling_le_iff)
  then have down: "nat \<lfloor>?x\<rfloor> \<le> n" using x by linarith
  have whole: "f64_as_uint bound (f64_floor (fl (real k))) = k" if "k \<le> n" for k
    using that assms(1,2) fl_nat [of k] by simp
  have mul: "f64_mul (f64_of_nat n) (Fin q) = fl ?x" by (simp add: f64_of_nat_small [OF assms(1)])
  have le: "f64_as_uint bound (f64_floor (fl a)) \<le> f64_as_uint bound (f64_floor (fl b))" if "a \<le> b" for a b
    using that by (intro f64_as_uint_mono f64_floor_mono fl_mono)
  show "nat \<lfloor>?x\<rfloor> \<le> f64_as_uint bound (f64_floor (f64_mul (f64_of_nat n) (Fin q)))"
    using le [of "real (nat \<lfloor>?x\<rfloor>)" ?x] x(1) unfolding mul whole [OF down] by simp
  show "f64_as_uint bound (f64_floor (f64_mul (f64_of_nat n) (Fin q))) \<le> nat \<lceil>?x\<rceil>"
    using le [of ?x "real (nat \<lceil>?x\<rceil>)"] x(1) unfolding mul whole [OF up] by simp
qed

lemma window_allowance_bounds:
  assumes "retry_budget_policy_validate p = Ok ()" "rbp_retry_ratio p = Fin q" "bw_successes w \<le> 2 ^ 53"
  shows "min usize_max (nat \<lfloor>real (bw_successes w) * q\<rfloor> + rbp_min_retries_per_window p) \<le> window_allowance p w"
    and "window_allowance p w \<le> nat \<lceil>real (bw_successes w) * q\<rceil> + rbp_min_retries_per_window p"
proof -
  have "bw_successes w \<le> usize_max" using assms(3) by (simp add: usize_max_def)
  moreover have "0 \<le> q" "q \<le> 1" using retry_ratio_cases [OF assms(1)] assms(2) by auto
  ultimately have "nat \<lfloor>real (bw_successes w) * q\<rfloor> \<le>
      f64_as_uint usize_max (f64_floor (f64_mul (f64_of_nat (bw_successes w)) (Fin q)))"
    "f64_as_uint usize_max (f64_floor (f64_mul (f64_of_nat (bw_successes w)) (Fin q))) \<le>
      nat \<lceil>real (bw_successes w) * q\<rceil>" "min usize_max (bw_successes w) = bw_successes w"
    using f64_floor_scaled_bounds [OF assms(3)] by simp_all
  then show "min usize_max (nat \<lfloor>real (bw_successes w) * q\<rfloor> + rbp_min_retries_per_window p) \<le> window_allowance p w"
      "window_allowance p w \<le> nat \<lceil>real (bw_successes w) * q\<rceil> + rbp_min_retries_per_window p"
    by (simp_all add: window_allowance_def retry_budget_allowance_def assms(2) sat_add_def Let_def)
qed

subsection \<open>The budget is never overdrawn\<close>

lemma retry_budget_try_consume_spec:
  "retry_budget_try_consume_retry p now s =
     (let w = refresh_retry_budget_window p now s;
          granted = (rb_retries_consumed w < retry_budget_allowance p w)
      in (granted, w\<lparr> rb_retries_consumed := rb_retries_consumed w + (if granted then 1 else 0) \<rparr>))"
proof -
  have "usize_add (rb_retries_consumed w) 1 = rb_retries_consumed w + 1"
    if "rb_retries_consumed w < retry_budget_allowance p w" for w
    using that by (auto simp: retry_budget_allowance_def sat_add_def Let_def)
  then show ?thesis by (auto simp: retry_budget_try_consume_retry_def Let_def not_le)
qed

text \<open>The state is the account of the current window.\<close>

definition in_account :: "retry_budget_policy \<Rightarrow> retry_budget_state \<Rightarrow> budget_window list \<Rightarrow> bool" where
  "in_account p s ws \<longleftrightarrow>
     ws \<noteq> [] \<and> rb_window_started_at s = bw_started (hd ws) \<and>
     rb_requests_succeeded s = min usize_max (bw_successes (hd ws)) \<and>
     rb_retries_consumed s = bw_granted (hd ws) \<and> list_all (\<lambda>w. bw_granted w \<le> window_allowance p w) ws"

lemma in_account_refresh:
  assumes "in_account p s ws"
  shows "in_account p (refresh_retry_budget_window p now s) (window_at p now ws)"
  using assms
  by (auto simp: in_account_def refresh_retry_budget_window_def window_at_def saturating_duration_since_def
      window_allowance_def)

lemma in_account_success:
  assumes "retry_budget_policy_validate p = Ok ()" "in_account p s ws"
  shows "in_account p (retry_budget_record_success p now s) (account p (Recorded now) ws)"
proof -
  let ?s = "refresh_retry_budget_window p now s" and ?ws = "window_at p now ws"
  have acc: "in_account p ?s ?ws" by (rule in_account_refresh [OF assms(2)])
  then obtain w rest where w: "?ws = w # rest" by (cases ?ws) (auto simp: in_account_def)
  have "window_allowance p w \<le> window_allowance p (bw_successes_update Suc w)"
    unfolding window_allowance_def by (intro retry_budget_allowance_mono [OF assms(1)]) auto
  then show ?thesis
    using acc by (auto simp: in_account_def on_current_def w retry_budget_record_success_def Let_def sat_add_def)
qed

lemma window_allowance_state:
  "in_account p s ws \<Longrightarrow> retry_budget_allowance p s = window_allowance p (hd ws)"
  by (simp add: in_account_def window_allowance_def retry_budget_allowance_def)

lemma window_allowance_granted [simp]: "window_allowance p (bw_granted_update f w) = window_allowance p w"
  by (simp add: window_allowance_def retry_budget_allowance_def)

lemma in_account_step:
  assumes "retry_budget_policy_validate p = Ok ()" "in_account p s ws" "retry_budget_step p op s = (e, s')"
  shows "answer_right p ws e \<and> in_account p s' (account p e ws)"
proof (cases "fst op")
  case RecordSuccess
  then show ?thesis
    using assms(3) in_account_success [OF assms(1,2)] by (cases op) (auto simp: retry_budget_step_def)
next
  case TryConsumeRetry
  then obtain now where op: "op = (TryConsumeRetry, now)" by (cases op) auto
  let ?s = "refresh_retry_budget_window p now s" and ?ws = "window_at p now ws"
  have acc: "in_account p ?s ?ws" by (rule in_account_refresh [OF assms(2)])
  then obtain w rest where w: "?ws = w # rest" by (cases ?ws) (auto simp: in_account_def)
  show ?thesis
    using assms(3) acc window_allowance_state [OF acc]
    by (auto simp: op retry_budget_step_def retry_budget_try_consume_spec Let_def in_account_def on_current_def w
          not_less split: if_splits)
qed

lemma in_account_run:
  assumes "retry_budget_policy_validate p = Ok ()"
  shows "in_account p s ws \<Longrightarrow> retry_budget_run p ops s = (es, s') \<Longrightarrow>
    answers_right p ws es \<and> in_account p s' (fold (account p) es ws)"
proof (induction ops arbitrary: s ws es)
  case (Cons op ops)
  obtain e s1 where step: "retry_budget_step p op s = (e, s1)" by fastforce
  obtain es1 where "es = e # es1" "retry_budget_run p ops s1 = (es1, s')"
    using Cons.prems(2) step by (auto split: prod.splits)
  then show ?case
    using in_account_step [OF assms Cons.prems(1) step] Cons.IH by auto
qed auto

subsection \<open>Properties\<close>

text \<open>
  C33: Whatever operations run in whatever order and at whatever clock readings, no window grants more
  retries than its allowance, and no retry is refused while some of it is left: with the successes and the
  granted retries of each window counted from what the callers were told, \<open>try_consume_retry\<close> returns
  \<open>true\<close> exactly when the window has granted fewer retries than its allowance. The allowance is the
  policy's minimum plus the ratio of the window's successes, rounded down to a whole number, where the
  rounding of the binary64 product may reach the next one.
\<close>

theorem retry_budget_never_overdrawn:
  fixes ops :: "(budget_op \<times> instant) list" and t :: instant
  assumes "retry_budget_policy_validate p = Ok ()" "retry_budget_run p ops (retry_budget_new t) = (es, s)"
  shows "answers_right p [\<lparr> bw_started = t, bw_successes = 0, bw_granted = 0 \<rparr>] es \<and>
    list_all (\<lambda>w. bw_granted w \<le> window_allowance p w \<and>
      (\<forall>q. rbp_retry_ratio p = Fin q \<and> bw_successes w \<le> 2 ^ 53 \<longrightarrow>
         min usize_max (nat \<lfloor>real (bw_successes w) * q\<rfloor> + rbp_min_retries_per_window p) \<le> window_allowance p w \<and>
         window_allowance p w \<le> nat \<lceil>real (bw_successes w) * q\<rceil> + rbp_min_retries_per_window p))
      (windows p t es) \<and>
    rb_retries_consumed s = bw_granted (hd (windows p t es))"
proof -
  have "in_account p (retry_budget_new t) [\<lparr> bw_started = t, bw_successes = 0, bw_granted = 0 \<rparr>]"
    by (simp add: in_account_def retry_budget_new_def)
  from in_account_run [OF assms(1) this assms(2)] show ?thesis
    using window_allowance_bounds [OF assms(1)] by (auto simp: in_account_def windows_def list_all_iff)
qed

definition example_budget :: retry_budget_policy where
  "example_budget = \<lparr> rbp_window = 10, rbp_retry_ratio = Fin 1, rbp_min_retries_per_window = 0 \<rparr>"

theorem retry_budget_never_overdrawn_witness:
  "\<exists>s. retry_budget_run example_budget [(RecordSuccess, 1), (TryConsumeRetry, 2), (TryConsumeRetry, 3)]
       (retry_budget_new 0) = ([Recorded 1, Granted 2, Refused 3], s) \<and>
     rb_retries_consumed s = 1 \<and>
     answers_right example_budget [\<lparr> bw_started = 0, bw_successes = 0, bw_granted = 0 \<rparr>]
       [Recorded 1, Granted 2, Refused 3]"
proof -
  obtain s where run: "retry_budget_run example_budget [(RecordSuccess, 1), (TryConsumeRetry, 2), (TryConsumeRetry, 3)]
      (retry_budget_new 0) = ([Recorded 1, Granted 2, Refused 3], s)"
    by (simp add: example_budget_def retry_budget_step_def retry_budget_defs retry_budget_new_def
        retry_budget_allowance_def saturating_duration_since_def sat_add_def max_values f64_of_nat_def)
  have "retry_budget_policy_validate example_budget = Ok ()"
    by (simp add: retry_budget_policy_validate_def example_budget_def)
  from retry_budget_never_overdrawn [OF this run] run show ?thesis
    by (auto simp: windows_def on_current_def window_at_def example_budget_def)
qed

end
