(* ===== verification/Reqx_Permits.thy ===== *)
theory Reqx_Permits
  imports Reqx_Prelude
begin

text \<open>
  The contract of a pool of permits, shared by the adaptive concurrency controller and the
  semaphores of the fixed concurrency limits: a permit is handed out only below the current
  capacity, and is given back by one of several release operations. The client lemma is proved
  once: under any interleaving the pool counts exactly the permits that are held, and there
  are never more of them than the capacity can become.
\<close>

datatype 'r pool_event = PoolAcquire | PoolRelease 'r

fun pool_step ::
    "('s \<Rightarrow> 's option) \<Rightarrow> ('r \<Rightarrow> 's \<Rightarrow> 's) \<Rightarrow> 'r pool_event \<Rightarrow> 's \<times> nat \<Rightarrow> 's \<times> nat" where
  "pool_step acquire release PoolAcquire (s, held) =
     (case acquire s of None \<Rightarrow> (s, held) | Some s' \<Rightarrow> (s', Suc held))"
| "pool_step acquire release (PoolRelease r) (s, held) =
     (if held = 0 then (s, held) else (release r s, held - 1))"

definition pool_run ::
    "('s \<Rightarrow> 's option) \<Rightarrow> ('r \<Rightarrow> 's \<Rightarrow> 's) \<Rightarrow> 'r pool_event list \<Rightarrow> 's \<Rightarrow> 's \<times> nat" where
  "pool_run acquire release evs s = fold (pool_step acquire release) evs (s, 0)"

locale permit_pool =
  fixes in_use :: "'s \<Rightarrow> nat"
    and capacity :: "'s \<Rightarrow> nat"
    and acquire :: "'s \<Rightarrow> 's option"
    and release :: "'r \<Rightarrow> 's \<Rightarrow> 's"
    and good :: "'s \<Rightarrow> bool"
    and bound :: nat
  assumes acquire_None: "good s \<Longrightarrow> acquire s = None \<longleftrightarrow> capacity s \<le> in_use s"
    and acquire_good: "good s \<Longrightarrow> acquire s = Some s' \<Longrightarrow> good s'"
    and acquire_counts: "good s \<Longrightarrow> acquire s = Some s' \<Longrightarrow> in_use s' = Suc (in_use s)"
    and release_good: "good s \<Longrightarrow> 0 < in_use s \<Longrightarrow> good (release r s)"
    and release_counts: "good s \<Longrightarrow> 0 < in_use s \<Longrightarrow> in_use (release r s) = in_use s - 1"
    and capacity_bound: "good s \<Longrightarrow> capacity s \<le> bound"
begin

definition pool_inv :: "'s \<times> nat \<Rightarrow> bool" where
  "pool_inv x \<longleftrightarrow> good (fst x) \<and> in_use (fst x) = snd x \<and> snd x \<le> bound"

lemma pool_inv_step: "pool_inv x \<Longrightarrow> pool_inv (pool_step acquire release ev x)"
proof (cases x; cases ev)
  fix s held
  assume inv: "pool_inv x" and x: "x = (s, held)" and ev: "ev = PoolAcquire"
  then show ?thesis
    using acquire_None [of s] acquire_good [of s] acquire_counts [of s] capacity_bound [of s]
    by (auto simp: pool_inv_def split: option.splits)
next
  fix s held r
  assume inv: "pool_inv x" and x: "x = (s, held)" and ev: "ev = PoolRelease r"
  then show ?thesis
    using release_good [of s r] release_counts [of s r] by (auto simp: pool_inv_def)
qed

lemma pool_inv_run:
  assumes "good s" "in_use s = 0"
  shows "pool_inv (pool_run acquire release evs s)"
proof -
  have "pool_inv (fold (pool_step acquire release) evs x)" if "pool_inv x" for x
    using that by (induction evs arbitrary: x) (simp_all add: pool_inv_step)
  moreover have "pool_inv (s, 0)" using assms by (simp add: pool_inv_def)
  ultimately show ?thesis by (simp add: pool_run_def)
qed

lemma pool_counts:
  assumes "good s" "in_use s = 0" "pool_run acquire release evs s = (s', held)"
  shows "good s' \<and> in_use s' = held \<and> held \<le> bound"
  using pool_inv_run [OF assms(1,2), of evs] assms(3) by (simp add: pool_inv_def)

lemma pool_admits_when_free:
  assumes "good s" "in_use s = 0" "pool_run acquire release evs s = (s', held)"
    and "held < capacity s'"
  shows "acquire s' \<noteq> None"
  using pool_counts [OF assms(1-3)] acquire_None [of s'] assms(4) by auto

end

end
