(* ===== verification/Reqx_Adaptive.thy ===== *)
theory Reqx_Adaptive
  imports Reqx_Timing Reqx_Permits
begin

text \<open>
  Adaptive concurrency (\<open>src/src/resilience.rs\<close>, \<open>AdaptiveConcurrencyPolicy\<close> and
  \<open>AdaptiveConcurrencyState\<close>): a limit on the requests in flight that grows by a step after a
  healthy response and shrinks by a ratio after a failure or when the smoothed latency is high.
  The arithmetic is on binary64 values. The state is an instance of \<open>permit_pool\<close>.
\<close>

subsection \<open>Policy\<close>

record adaptive_concurrency_policy =
  acp_min_limit :: nat
  acp_initial_limit :: nat
  acp_max_limit :: nat
  acp_increase_step :: nat
  acp_decrease_ratio :: f64
  acp_high_latency_threshold :: duration

definition adaptive_concurrency_policy_standard :: adaptive_concurrency_policy where
  "adaptive_concurrency_policy_standard =
     \<lparr> acp_min_limit = 1, acp_initial_limit = 8, acp_max_limit = 64, acp_increase_step = 1,
       acp_decrease_ratio = fl (8 / 10), acp_high_latency_threshold = from_millis 300 \<rparr>"

definition adaptive_invalid_policy :: "adaptive_concurrency_policy \<Rightarrow> string \<Rightarrow> 'h error" where
  "adaptive_invalid_policy p message =
     InvalidAdaptiveConcurrencyPolicy (acp_min_limit p) (acp_initial_limit p) (acp_max_limit p) message"

definition adaptive_concurrency_policy_validate ::
    "adaptive_concurrency_policy \<Rightarrow> (unit, 'h error) result" where
  "adaptive_concurrency_policy_validate p =
     (if acp_min_limit p = 0 then Err (adaptive_invalid_policy p ''min_limit must be >= 1'')
      else if acp_max_limit p = 0 then Err (adaptive_invalid_policy p ''max_limit must be >= 1'')
      else if acp_initial_limit p = 0 then Err (adaptive_invalid_policy p ''initial_limit must be >= 1'')
      else if acp_increase_step p = 0 then Err (adaptive_invalid_policy p ''increase_step must be >= 1'')
      else if acp_high_latency_threshold p = 0
      then Err (adaptive_invalid_policy p ''high_latency_threshold must be greater than zero'')
      else if \<not> is_finite (acp_decrease_ratio p) \<or>
              \<not> (f64_le (Fin 0) (acp_decrease_ratio p) \<and> f64_lt (acp_decrease_ratio p) (Fin 1))
      then Err (adaptive_invalid_policy p ''decrease_ratio must be finite and between 0.0 and 1.0'')
      else if acp_min_limit p > acp_max_limit p
      then Err (adaptive_invalid_policy p ''min_limit must be <= max_limit'')
      else if acp_initial_limit p < acp_min_limit p
      then Err (adaptive_invalid_policy p ''initial_limit must be >= min_limit'')
      else if acp_initial_limit p > acp_max_limit p
      then Err (adaptive_invalid_policy p ''initial_limit must be <= max_limit'')
      else Ok ())"

subsection \<open>State and operations\<close>

record adaptive_concurrency_state =
  ac_in_flight :: nat
  ac_current_limit :: nat
  ac_ewma_latency_ms :: f64

datatype adaptive_concurrency_outcome = AdaptiveSuccess | AdaptiveFailure

definition adaptive_new :: "adaptive_concurrency_policy \<Rightarrow> adaptive_concurrency_state" where
  "adaptive_new p =
     \<lparr> ac_in_flight = 0, ac_current_limit = acp_initial_limit p, ac_ewma_latency_ms = Fin 0 \<rparr>"

definition adaptive_try_acquire :: "adaptive_concurrency_state \<Rightarrow> bool \<times> adaptive_concurrency_state" where
  "adaptive_try_acquire s =
     (if ac_in_flight s \<ge> ac_current_limit s then (False, s)
      else (True, s\<lparr> ac_in_flight := usize_add (ac_in_flight s) 1 \<rparr>))"

definition adaptive_release_and_record ::
    "adaptive_concurrency_policy \<Rightarrow> adaptive_concurrency_outcome \<Rightarrow> duration \<Rightarrow>
     adaptive_concurrency_state \<Rightarrow> adaptive_concurrency_state" where
  "adaptive_release_and_record p outcome latency s =
     (let in_flight = ac_in_flight s - 1;
          latency_ms = f64_mul (as_secs_f64 latency) (Fin 1000);
          ewma = (if f64_le (ac_ewma_latency_ms s) f64_epsilon then latency_ms
                  else f64_add (f64_mul (ac_ewma_latency_ms s) (fl (8 / 10)))
                               (f64_mul latency_ms (fl (2 / 10))));
          threshold_ms = f64_mul (as_secs_f64 (acp_high_latency_threshold p)) (Fin 1000);
          should_decrease = (outcome = AdaptiveFailure \<or> f64_lt threshold_ms ewma)
      in \<lparr> ac_in_flight = in_flight,
           ac_current_limit =
             (if should_decrease
              then max (f64_as_uint usize_max
                     (f64_floor (f64_mul (f64_of_nat (ac_current_limit s)) (acp_decrease_ratio p))))
                     (acp_min_limit p)
              else min (usize_add (ac_current_limit s) (acp_increase_step p)) (acp_max_limit p)),
           ac_ewma_latency_ms = ewma \<rparr>)"

definition adaptive_release_without_record ::
    "adaptive_concurrency_state \<Rightarrow> adaptive_concurrency_state" where
  "adaptive_release_without_record s = s\<lparr> ac_in_flight := ac_in_flight s - 1 \<rparr>"

subsection \<open>The state as a pool of permits\<close>

definition adaptive_acquire :: "adaptive_concurrency_state \<Rightarrow> adaptive_concurrency_state option" where
  "adaptive_acquire s = (case adaptive_try_acquire s of (True, s') \<Rightarrow> Some s' | (False, _) \<Rightarrow> None)"

definition adaptive_release ::
    "adaptive_concurrency_policy \<Rightarrow> (adaptive_concurrency_outcome \<times> duration) option \<Rightarrow>
     adaptive_concurrency_state \<Rightarrow> adaptive_concurrency_state" where
  "adaptive_release p r s =
     (case r of
        None \<Rightarrow> adaptive_release_without_record s
      | Some (outcome, latency) \<Rightarrow> adaptive_release_and_record p outcome latency s)"

definition adaptive_policy_wf :: "adaptive_concurrency_policy \<Rightarrow> bool" where
  "adaptive_policy_wf p \<longleftrightarrow>
     is_ok (adaptive_concurrency_policy_validate p :: (unit, unit error) result) \<and>
     acp_max_limit p \<le> 2 ^ 53"

definition adaptive_good :: "adaptive_concurrency_policy \<Rightarrow> adaptive_concurrency_state \<Rightarrow> bool" where
  "adaptive_good p s \<longleftrightarrow>
     adaptive_policy_wf p \<and> acp_min_limit p \<le> ac_current_limit s \<and>
     ac_current_limit s \<le> acp_max_limit p"

lemma adaptive_policy_wfD:
  assumes "adaptive_policy_wf p"
  shows "0 < acp_min_limit p" "acp_min_limit p \<le> acp_initial_limit p"
    "acp_initial_limit p \<le> acp_max_limit p" "acp_max_limit p \<le> 2 ^ 53" "0 < acp_increase_step p"
    "\<exists>q. acp_decrease_ratio p = Fin q \<and> 0 \<le> q \<and> q < 1"
proof -
  show "0 < acp_min_limit p" "acp_min_limit p \<le> acp_initial_limit p"
    "acp_initial_limit p \<le> acp_max_limit p" "acp_max_limit p \<le> 2 ^ 53" "0 < acp_increase_step p"
    using assms
    by (auto simp: adaptive_policy_wf_def adaptive_concurrency_policy_validate_def split: if_splits)
  have "is_finite (acp_decrease_ratio p) \<and> f64_le (Fin 0) (acp_decrease_ratio p) \<and>
      f64_lt (acp_decrease_ratio p) (Fin 1)"
    using assms
    by (auto simp: adaptive_policy_wf_def adaptive_concurrency_policy_validate_def split: if_splits)
  then show "\<exists>q. acp_decrease_ratio p = Fin q \<and> 0 \<le> q \<and> q < 1"
    by (cases "acp_decrease_ratio p") (auto simp: f64_lt_def)
qed

lemma adaptive_decreased_le:
  assumes "adaptive_policy_wf p" "n \<le> acp_max_limit p"
  shows "f64_as_uint usize_max (f64_floor (f64_mul (f64_of_nat n) (acp_decrease_ratio p))) \<le> n"
proof -
  obtain q where "acp_decrease_ratio p = Fin q" "0 \<le> q" "q < 1"
    using adaptive_policy_wfD(6) [OF assms(1)] by blast
  then show ?thesis
    using f64_floor_scaled_le [of n q usize_max] assms(2) adaptive_policy_wfD(4) [OF assms(1)] by simp
qed

lemma adaptive_limit_after:
  assumes "adaptive_good p s"
  shows "acp_min_limit p \<le> ac_current_limit (adaptive_release_and_record p outcome latency s)"
    "ac_current_limit (adaptive_release_and_record p outcome latency s) \<le> acp_max_limit p"
proof -
  have wf: "adaptive_policy_wf p" and
    lim: "acp_min_limit p \<le> ac_current_limit s" "ac_current_limit s \<le> acp_max_limit p"
    using assms by (auto simp: adaptive_good_def)
  note le = adaptive_decreased_le [OF wf lim(2)]
  show "acp_min_limit p \<le> ac_current_limit (adaptive_release_and_record p outcome latency s)"
    using lim adaptive_policy_wfD(4) [OF wf]
    by (auto simp: adaptive_release_and_record_def sat_add_def max_values Let_def)
  show "ac_current_limit (adaptive_release_and_record p outcome latency s) \<le> acp_max_limit p"
    using lim le by (auto simp: adaptive_release_and_record_def Let_def)
qed

lemma adaptive_good_release:
  "adaptive_good p s \<Longrightarrow> adaptive_good p (adaptive_release p r s)"
  using adaptive_limit_after [of p s]
  by (auto simp: adaptive_good_def adaptive_release_def adaptive_release_without_record_def
      split: option.splits)

interpretation adaptive: permit_pool
  ac_in_flight ac_current_limit adaptive_acquire "adaptive_release p" "adaptive_good p"
  "acp_max_limit p"
proof unfold_locales
  fix s s' r
  assume good: "adaptive_good p s"
  then have "ac_current_limit s \<le> 2 ^ 53"
    using adaptive_policy_wfD(4) [of p] by (auto simp: adaptive_good_def)
  then have inc: "ac_in_flight s < ac_current_limit s \<Longrightarrow>
      usize_add (ac_in_flight s) 1 = Suc (ac_in_flight s)"
    by (simp add: sat_add_def max_values)
  show "adaptive_acquire s = None \<longleftrightarrow> ac_current_limit s \<le> ac_in_flight s"
    by (simp add: adaptive_acquire_def adaptive_try_acquire_def)
  show "adaptive_good p s'" if "adaptive_acquire s = Some s'"
    using good that
    by (auto simp: adaptive_acquire_def adaptive_try_acquire_def adaptive_good_def split: if_splits)
  show "ac_in_flight s' = Suc (ac_in_flight s)" if "adaptive_acquire s = Some s'"
    using that inc
    by (auto simp: adaptive_acquire_def adaptive_try_acquire_def split: if_splits)
  show "adaptive_good p (adaptive_release p r s)" using good by (rule adaptive_good_release)
  show "ac_in_flight (adaptive_release p r s) = ac_in_flight s - 1"
    by (auto simp: adaptive_release_def adaptive_release_without_record_def
        adaptive_release_and_record_def Let_def split: option.splits)
  show "ac_current_limit s \<le> acp_max_limit p" using good by (simp add: adaptive_good_def)
qed

lemma adaptive_good_new: "adaptive_policy_wf p \<Longrightarrow> adaptive_good p (adaptive_new p)"
  using adaptive_policy_wfD [of p] by (simp add: adaptive_good_def adaptive_new_def)

subsection \<open>Properties\<close>

text \<open>
  C34: Under any sequence of acquisitions and releases (with any outcomes and latencies, or
  without a record), the limit stays between the policy's minimum and maximum, the controller
  counts exactly the permits that are held, they never exceed the maximum, and a permit is
  available whenever fewer than the minimum are held.
\<close>

theorem adaptive_concurrency_bounded:
  assumes "adaptive_policy_wf p"
    and "pool_run adaptive_acquire (adaptive_release p) evs (adaptive_new p) = (s, held)"
  shows "acp_min_limit p \<le> ac_current_limit s \<and> ac_current_limit s \<le> acp_max_limit p \<and>
    ac_in_flight s = held \<and> held \<le> acp_max_limit p \<and>
    (held < acp_min_limit p \<longrightarrow> fst (adaptive_try_acquire s))"
proof -
  note new = adaptive_good_new [OF assms(1)]
  have zero: "ac_in_flight (adaptive_new p) = 0" by (simp add: adaptive_new_def)
  have "adaptive_good p s \<and> ac_in_flight s = held \<and> held \<le> acp_max_limit p"
    by (rule adaptive.pool_counts [OF new zero assms(2)])
  then show ?thesis by (auto simp: adaptive_good_def adaptive_try_acquire_def)
qed

definition small_adaptive_policy :: adaptive_concurrency_policy where
  "small_adaptive_policy =
     \<lparr> acp_min_limit = 1, acp_initial_limit = 2, acp_max_limit = 4, acp_increase_step = 1,
       acp_decrease_ratio = Fin 0, acp_high_latency_threshold = 5 \<rparr>"

lemma small_adaptive_policy_wf: "adaptive_policy_wf small_adaptive_policy"
  by (simp add: small_adaptive_policy_def adaptive_policy_wf_def
      adaptive_concurrency_policy_validate_def f64_lt_def)

theorem adaptive_concurrency_bounded_witness:
  "snd (pool_run adaptive_acquire (adaptive_release small_adaptive_policy)
     [PoolAcquire, PoolAcquire, PoolAcquire, PoolRelease (Some (AdaptiveFailure, 3)), PoolAcquire]
     (adaptive_new small_adaptive_policy)) = 1 \<and> 1 \<le> acp_max_limit small_adaptive_policy"
proof -
  let ?p = small_adaptive_policy
  let ?evs = "[PoolAcquire, PoolAcquire, PoolAcquire, PoolRelease (Some (AdaptiveFailure, 3)), PoolAcquire]"
  obtain s held where run: "pool_run adaptive_acquire (adaptive_release ?p) ?evs (adaptive_new ?p) = (s, held)"
    by force
  have "f64_mul (f64_of_nat 2) (Fin 0) = Fin 0"
    by (simp add: f64_of_nat_small)
  with run have "held = 1"
    by (simp add: pool_run_def adaptive_acquire_def adaptive_try_acquire_def adaptive_new_def
        adaptive_release_def adaptive_release_and_record_def sat_add_def max_values Let_def
        small_adaptive_policy_def)
  with adaptive_concurrency_bounded [OF small_adaptive_policy_wf run] run show ?thesis by simp
qed

text \<open>
  Feedback goes the right way: a failure, or a high smoothed latency, never raises the
  limit, and a healthy response never lowers it below where it was (it adds the increase step,
  up to the maximum).
\<close>

theorem adaptive_feedback_direction:
  fixes outcome :: adaptive_concurrency_outcome and latency :: duration
  assumes "adaptive_good p s"
  defines "s' \<equiv> adaptive_release_and_record p outcome latency s"
  shows "(outcome = AdaptiveFailure \<or>
       f64_lt (f64_mul (as_secs_f64 (acp_high_latency_threshold p)) (Fin 1000)) (ac_ewma_latency_ms s')
       \<longrightarrow> ac_current_limit s' \<le> ac_current_limit s) \<and>
    (\<not> (outcome = AdaptiveFailure \<or>
       f64_lt (f64_mul (as_secs_f64 (acp_high_latency_threshold p)) (Fin 1000)) (ac_ewma_latency_ms s'))
       \<longrightarrow> ac_current_limit s \<le> ac_current_limit s' \<and>
           (ac_current_limit s < acp_max_limit p \<longrightarrow> ac_current_limit s < ac_current_limit s'))"
proof -
  have wf: "adaptive_policy_wf p" and
    lim: "acp_min_limit p \<le> ac_current_limit s" "ac_current_limit s \<le> acp_max_limit p"
    using assms(1) by (auto simp: adaptive_good_def)
  show ?thesis
    unfolding s'_def
    using lim adaptive_decreased_le [OF wf lim(2)] adaptive_policy_wfD(4,5) [OF wf]
    by (auto simp: adaptive_release_and_record_def sat_add_def max_values Let_def)
qed

theorem adaptive_feedback_direction_witness:
  "ac_current_limit (adaptive_release_and_record small_adaptive_policy AdaptiveFailure 3
     (adaptive_new small_adaptive_policy)) \<le> 2"
  using adaptive_feedback_direction [OF adaptive_good_new [OF small_adaptive_policy_wf],
      of AdaptiveFailure 3]
  by (simp add: adaptive_new_def small_adaptive_policy_def)

end
