(* ===== verification/Reqx_BTreeMap.thy ===== *)
theory Reqx_BTreeMap
  imports Reqx_Prelude
begin

text \<open>
  \<open>std::collections::BTreeMap\<close> as its entries in key order. The crate relies on the order
  (\<open>range\<close>, and \<open>min_by_key\<close> over \<open>iter()\<close> picks the first minimum), on \<open>len\<close> and on
  \<open>retain\<close>, so the map is an association list with strictly increasing keys (\<open>bt_wf\<close>).

  The locale \<open>ordered_map\<close> is the interface the components use; it is interpreted on the
  list operations. \<open>evict_over_capacity\<close> is the loop with which both per-host tables (the
  concurrency limiters and the rate limiter) drop their least recently used idle entries.
\<close>

type_synonym ('k, 'v) btree = "('k \<times> 'v) list"

definition bt_wf :: "('k::linorder, 'v) btree \<Rightarrow> bool" where
  "bt_wf m = sorted_wrt (<) (map fst m)"

definition bt_get :: "('k, 'v) btree \<Rightarrow> 'k \<Rightarrow> 'v option" where
  "bt_get m k = map_of m k"

definition bt_contains :: "('k, 'v) btree \<Rightarrow> 'k \<Rightarrow> bool" where
  "bt_contains m k = (bt_get m k \<noteq> None)"

fun bt_insert :: "'k::linorder \<Rightarrow> 'v \<Rightarrow> ('k, 'v) btree \<Rightarrow> ('k, 'v) btree" where
  "bt_insert k v [] = [(k, v)]"
| "bt_insert k v ((k', v') # m) =
     (if k < k' then (k, v) # (k', v') # m
      else if k = k' then (k, v) # m
      else (k', v') # bt_insert k v m)"

definition bt_remove :: "'k \<Rightarrow> ('k, 'v) btree \<Rightarrow> ('k, 'v) btree" where
  "bt_remove k m = filter (\<lambda>e. fst e \<noteq> k) m"

text \<open>\<open>retain\<close> with a closure that first updates the entry and then decides.\<close>

definition bt_retain :: "('v \<Rightarrow> 'v) \<Rightarrow> ('v \<Rightarrow> bool) \<Rightarrow> ('k, 'v) btree \<Rightarrow> ('k, 'v) btree" where
  "bt_retain f p m = filter (\<lambda>e. p (snd e)) (map (\<lambda>e. (fst e, f (snd e))) m)"

text \<open>\<open>entry(k).or_insert(d)\<close> followed by an update of the entry.\<close>

definition bt_upsert :: "'k::linorder \<Rightarrow> 'v \<Rightarrow> ('v \<Rightarrow> 'v) \<Rightarrow> ('k, 'v) btree \<Rightarrow> ('k, 'v) btree" where
  "bt_upsert k d f m = bt_insert k (f (unwrap_or d (bt_get m k))) m"

fun first_min :: "('a \<Rightarrow> nat) \<Rightarrow> 'a list \<Rightarrow> 'a option" where
  "first_min f [] = None"
| "first_min f (x # xs) =
     (case first_min f xs of None \<Rightarrow> Some x | Some y \<Rightarrow> if f x \<le> f y then Some x else Some y)"

subsection \<open>Invariant and lookup\<close>

lemma bt_wf_Nil [simp]: "bt_wf []"
  by (simp add: bt_wf_def)

lemma bt_wf_distinct: "bt_wf m \<Longrightarrow> distinct (map fst m)"
  by (simp add: bt_wf_def strict_sorted_iff)

lemma fst_set_bt_insert: "fst ` set (bt_insert k v m) = insert k (fst ` set m)"
  by (induction k v m rule: bt_insert.induct) (simp_all add: insert_commute)

lemma bt_wf_insert [simp]: "bt_wf m \<Longrightarrow> bt_wf (bt_insert k v m)"
proof (induction m)
  case (Cons e m)
  obtain k' v' where e: "e = (k', v')" by (cases e)
  from Cons.prems have wf: "bt_wf m" and lt: "\<forall>x \<in> fst ` set m. k' < x"
    by (auto simp: bt_wf_def e)
  show ?case
  proof (cases "k' < k")
    case True
    then have "\<forall>x \<in> fst ` set (bt_insert k v m). k' < x"
      using lt by (auto simp only: fst_set_bt_insert)
    then show ?thesis using True Cons.IH [OF wf] by (auto simp: bt_wf_def e)
  next
    case False
    with Cons.prems lt show ?thesis by (auto simp: bt_wf_def e)
  qed
qed (simp add: bt_wf_def)

lemma bt_wf_filter: "bt_wf m \<Longrightarrow> bt_wf (filter p m)"
  by (induction m) (auto simp: bt_wf_def)

lemma bt_wf_remove [simp]: "bt_wf m \<Longrightarrow> bt_wf (bt_remove k m)"
  by (simp add: bt_remove_def bt_wf_filter)

lemma bt_wf_retain [simp]: "bt_wf m \<Longrightarrow> bt_wf (bt_retain f p m)"
  unfolding bt_retain_def by (rule bt_wf_filter) (simp add: bt_wf_def comp_def)

lemma bt_wf_upsert [simp]: "bt_wf m \<Longrightarrow> bt_wf (bt_upsert k d f m)"
  by (simp add: bt_upsert_def)

lemma bt_get_insert: "bt_wf m \<Longrightarrow> bt_get (bt_insert k v m) = (bt_get m)(k \<mapsto> v)"
proof (induction m)
  case (Cons e m)
  then have "bt_wf m" by (simp add: bt_wf_def)
  with Cons.IH show ?case by (cases e) (auto simp: bt_get_def fun_eq_iff)
qed (auto simp: bt_get_def)

lemma bt_get_remove: "bt_get (bt_remove k m) = (bt_get m)(k := None)"
  by (induction m) (auto simp: bt_get_def bt_remove_def fun_eq_iff)

lemma bt_get_Some_iff: "bt_wf m \<Longrightarrow> bt_get m k = Some v \<longleftrightarrow> (k, v) \<in> set m"
  by (simp add: bt_get_def bt_wf_distinct)

lemma bt_get_upsert:
  "bt_wf m \<Longrightarrow> bt_get (bt_upsert k d f m) = (bt_get m)(k \<mapsto> f (unwrap_or d (bt_get m k)))"
  by (simp add: bt_upsert_def bt_get_insert)

subsection \<open>The interface of a keyed store\<close>

locale ordered_map =
  fixes empty :: 'm
    and get :: "'m \<Rightarrow> 'k \<Rightarrow> 'v option"
    and ins :: "'k \<Rightarrow> 'v \<Rightarrow> 'm \<Rightarrow> 'm"
    and del :: "'k \<Rightarrow> 'm \<Rightarrow> 'm"
    and wf :: "'m \<Rightarrow> bool"
  assumes get_empty: "get empty = Map.empty"
    and get_ins: "wf m \<Longrightarrow> get (ins k v m) = (get m)(k \<mapsto> v)"
    and get_del: "wf m \<Longrightarrow> get (del k m) = (get m)(k := None)"
    and wf_empty: "wf empty"
    and wf_ins: "wf m \<Longrightarrow> wf (ins k v m)"
    and wf_del: "wf m \<Longrightarrow> wf (del k m)"
begin

lemma lookup_inserted: "wf m \<Longrightarrow> get (ins k v m) k = Some v"
  by (simp add: get_ins)

lemma lookup_other: "wf m \<Longrightarrow> k' \<noteq> k \<Longrightarrow> get (ins k v m) k' = get m k'"
  by (simp add: get_ins)

lemma fold_ins:
  "wf m \<Longrightarrow> wf (fold (\<lambda>(k, v). ins k v) kvs m) \<and>
     get (fold (\<lambda>(k, v). ins k v) kvs m) = (\<lambda>k. case map_of (rev kvs) k of
        None \<Rightarrow> get m k | Some v \<Rightarrow> Some v)"
proof (induction kvs arbitrary: m)
  case (Cons kv kvs)
  obtain k v where kv: "kv = (k, v)" by (cases kv)
  have "wf (ins k v m)" using Cons.prems by (rule wf_ins)
  from Cons.IH [OF this] show ?case
    by (auto simp: kv get_ins [OF Cons.prems] map_add_def fun_eq_iff split: option.splits)
qed simp

end

interpretation bt: ordered_map "[]" bt_get bt_insert bt_remove bt_wf
proof unfold_locales
  show "bt_get [] = (Map.empty :: 'a \<rightharpoonup> 'b)" by (simp add: bt_get_def fun_eq_iff)
qed (simp_all add: bt_get_insert bt_get_remove)

subsection \<open>Selection of the least recently used idle entry\<close>

lemma first_min_None_iff [simp]: "first_min f xs = None \<longleftrightarrow> xs = []"
  by (cases xs) (auto split: option.splits)

lemma first_min_in: "first_min f xs = Some x \<Longrightarrow> x \<in> set xs"
  by (induction xs arbitrary: x) (auto split: option.splits if_splits)

lemma first_min_least: "first_min f xs = Some x \<Longrightarrow> y \<in> set xs \<Longrightarrow> f x \<le> f y"
proof (induction xs arbitrary: x)
  case (Cons z xs)
  show ?case
  proof (cases "first_min f xs")
    case None
    with Cons.prems show ?thesis by simp
  next
    case (Some w)
    with Cons show ?thesis by (force split: if_splits)
  qed
qed simp

text \<open>
  The eviction loop of \<open>core/limiters.rs\<close> and \<open>rate_limit.rs\<close>: while the table is over its
  capacity, remove the idle entry with the least \<open>last_used_at\<close>; stop when none is idle.
\<close>

function evict_over_capacity ::
    "('v \<Rightarrow> bool) \<Rightarrow> ('v \<Rightarrow> instant) \<Rightarrow> nat \<Rightarrow> ('k, 'v) btree \<Rightarrow> ('k, 'v) btree" where
  "evict_over_capacity idle used cap m =
     (if length m > cap
      then case first_min (\<lambda>e. used (snd e)) (filter (\<lambda>e. idle (snd e)) m) of
             None \<Rightarrow> m
           | Some e \<Rightarrow> evict_over_capacity idle used cap (bt_remove (fst e) m)
      else m)"
  by pat_completeness auto
termination
  by (relation "measure (\<lambda>(idle, used, cap, m). length m)")
    (auto simp: bt_remove_def dest!: first_min_in intro!: length_filter_less)

declare evict_over_capacity.simps [simp del]

lemma evict_induct [case_names stop evict]:
  assumes "\<And>m. length m \<le> cap \<or> filter (\<lambda>e. idle (snd e)) m = [] \<Longrightarrow> P m m"
    and "\<And>m e r. length m > cap \<Longrightarrow>
      first_min (\<lambda>e. used (snd e)) (filter (\<lambda>e. idle (snd e)) m) = Some e \<Longrightarrow>
      P (bt_remove (fst e) m) r \<Longrightarrow> P m r"
  shows "P m (evict_over_capacity idle used cap m)"
proof (induction "length m" arbitrary: m rule: less_induct)
  case less
  show ?case
  proof (cases "length m > cap")
    case False
    then show ?thesis using assms(1) [of m] by (simp add: evict_over_capacity.simps [of idle used cap m])
  next
    case True
    show ?thesis
    proof (cases "first_min (\<lambda>e. used (snd e)) (filter (\<lambda>e. idle (snd e)) m)")
      case None
      then show ?thesis using True assms(1) [of m]
        by (simp add: evict_over_capacity.simps [of idle used cap m])
    next
      case (Some e)
      have "length (bt_remove (fst e) m) < length m"
        using first_min_in [OF Some] by (auto simp: bt_remove_def intro!: length_filter_less)
      from less [OF this] show ?thesis using True Some assms(2) [OF True Some]
        by (simp add: evict_over_capacity.simps [of idle used cap m])
    qed
  qed
qed

lemma evict_subset: "set (evict_over_capacity idle used cap m) \<subseteq> set m"
  by (induction rule: evict_induct) (auto simp: bt_remove_def)

lemma evict_wf: "bt_wf m \<Longrightarrow> bt_wf (evict_over_capacity idle used cap m)"
proof -
  have "bt_wf m \<longrightarrow> bt_wf (evict_over_capacity idle used cap m)"
    by (induction rule: evict_induct [where P = "\<lambda>m r. bt_wf m \<longrightarrow> bt_wf r"]) auto
  then show "bt_wf m \<Longrightarrow> ?thesis" by simp
qed

lemma evict_keeps_busy:
  assumes "bt_wf m" "e \<in> set m" "\<not> idle (snd e)"
  shows "e \<in> set (evict_over_capacity idle used cap m)"
proof -
  have "bt_wf m \<longrightarrow> e \<in> set m \<longrightarrow> e \<in> set (evict_over_capacity idle used cap m)"
  proof (induction rule: evict_induct [where P = "\<lambda>m r. bt_wf m \<longrightarrow> e \<in> set m \<longrightarrow> e \<in> set r"])
    case (evict m x r)
    have "e \<in> set (bt_remove (fst x) m)" if "bt_wf m" "e \<in> set m"
    proof -
      from first_min_in [OF evict(2)] have x: "x \<in> set m" "idle (snd x)" by auto
      with assms(3) have "x \<noteq> e" by auto
      with that x have "fst e \<noteq> fst x"
        using bt_wf_distinct [OF that(1)] by (metis eq_key_imp_eq_value prod.collapse)
      with that show ?thesis by (simp add: bt_remove_def)
    qed
    with evict show ?case by simp
  qed simp
  with assms show ?thesis by simp
qed

lemma evict_bound:
  "length (evict_over_capacity idle used cap m) \<le> cap \<or>
   (\<forall>e \<in> set (evict_over_capacity idle used cap m). \<not> idle (snd e))"
  by (induction rule: evict_induct) (auto simp: filter_empty_conv)

lemma evict_noop: "length m \<le> cap \<Longrightarrow> evict_over_capacity idle used cap m = m"
  by (simp add: evict_over_capacity.simps)

end
