(* ===== verification/Reqx_Uri.thy ===== *)
theory Reqx_Uri
  imports Reqx_Error
begin

text \<open>
  URIs and their redaction for logs (\<open>src/src/core/util/uri.rs\<close>, \<open>redaction.rs\<close> and the URI part
  of \<open>redirect.rs\<close>). \<open>http::Uri\<close> and \<open>url::Url\<close> are third-party: their operations are the
  records \<open>U\<close> and \<open>W\<close> of \<open>Reqx_Http\<close>. Texts are byte strings; every delimiter the code looks
  for is ASCII, so that searching bytes and searching characters agree.
\<close>

subsection \<open>Searching in strings\<close>

text \<open>\<open>str::find\<close> with a set of characters, and with a string.\<close>

definition find_pos :: "(char \<Rightarrow> bool) \<Rightarrow> string \<Rightarrow> nat option" where
  "find_pos p s = (if list_ex p s then Some (length (takeWhile (\<lambda>c. \<not> p c) s)) else None)"

fun find_str :: "string \<Rightarrow> string \<Rightarrow> nat option" where
  "find_str pat [] = (if pat = [] then Some 0 else None)"
| "find_str pat (c # cs) =
     (if take (length pat) (c # cs) = pat then Some 0 else map_option Suc (find_str pat cs))"

definition starts_with :: "string \<Rightarrow> string \<Rightarrow> bool" where
  "starts_with s pre = (take (length pre) s = pre)"

definition ends_with :: "string \<Rightarrow> string \<Rightarrow> bool" where
  "ends_with s suf = (drop (length s - length suf) s = suf)"

definition strip_prefix :: "string \<Rightarrow> string \<Rightarrow> string option" where
  "strip_prefix pre s = (if starts_with s pre then Some (drop (length pre) s) else None)"

definition split_once :: "char \<Rightarrow> string \<Rightarrow> (string \<times> string) option" where
  "split_once c s =
     (if c \<in> set s then Some (takeWhile (\<lambda>x. x \<noteq> c) s, tl (dropWhile (\<lambda>x. x \<noteq> c) s)) else None)"

definition rsplit_once :: "char \<Rightarrow> string \<Rightarrow> (string \<times> string) option" where
  "rsplit_once c s =
     (if c \<in> set s
      then Some (rev (tl (dropWhile (\<lambda>x. x \<noteq> c) (rev s))), rev (takeWhile (\<lambda>x. x \<noteq> c) (rev s)))
      else None)"

definition has_prefix_ignore_case :: "string \<Rightarrow> string \<Rightarrow> bool" where
  "has_prefix_ignore_case bytes pre =
     (length pre \<le> length bytes \<and> eq_ignore_ascii_case (take (length pre) bytes) pre)"

lemmas search_defs [std_defs] =
  find_pos_def starts_with_def ends_with_def strip_prefix_def split_once_def rsplit_once_def

subsection \<open>Hosts and authorities\<close>

definition uri_has_userinfo :: "'u uri_ops \<Rightarrow> 'u \<Rightarrow> bool" where
  "uri_has_userinfo U uri = is_some_and (\<lambda>a. CHR ''@'' \<in> set a) (uri_authority U uri)"

definition normalize_host_key :: "string \<Rightarrow> string option" where
  "normalize_host_key host =
     (let normalized = to_ascii_lowercase (trim_end_matches (\<lambda>c. c = CHR ''.'') (trim host))
      in if normalized = [] then None else Some normalized)"

definition normalized_uri_host :: "'u uri_ops \<Rightarrow> 'u \<Rightarrow> string option" where
  "normalized_uri_host U uri =
     (case uri_host U uri of None \<Rightarrow> None | Some h \<Rightarrow> normalize_host_key h)"

definition looks_like_malformed_http_absolute_uri :: "string \<Rightarrow> bool" where
  "looks_like_malformed_http_absolute_uri text =
     (has_prefix_ignore_case text ''http:'' \<or> has_prefix_ignore_case text ''https:'')"

definition is_port_text :: "string \<Rightarrow> bool" where
  "is_port_text port = (port \<noteq> [] \<and> list_all is_ascii_digit port)"

definition valid_host_port :: "string \<Rightarrow> bool" where
  "valid_host_port host_port =
     (if host_port = [] then False
      else case strip_prefix ''['' host_port of
        Some stripped \<Rightarrow>
          (case find_pos (\<lambda>c. c = CHR '']'') stripped of
             None \<Rightarrow> False
           | Some end_pos \<Rightarrow>
               if end_pos = 0 then False
               else (let suffix = drop (end_pos + 1) stripped
                     in suffix = [] \<or> is_some_and is_port_text (strip_prefix '':'' suffix)))
      | None \<Rightarrow>
          if starts_with host_port ''.'' then False
          else if length (filter (\<lambda>c. c = CHR '':'') host_port) > 1 then False
          else case rsplit_once (CHR '':'') host_port of
            Some (host, port) \<Rightarrow> host \<noteq> [] \<and> is_port_text port
          | None \<Rightarrow> True)"

definition has_valid_raw_http_authority_syntax :: "string \<Rightarrow> bool \<Rightarrow> bool" where
  "has_valid_raw_http_authority_syntax uri_text allow_network_path_reference =
     (case (if has_prefix_ignore_case uri_text ''http://'' then Some 7
            else if has_prefix_ignore_case uri_text ''https://'' then Some 8
            else if allow_network_path_reference \<and> starts_with uri_text ''//'' then Some 2
            else None) of
        None \<Rightarrow> False
      | Some prefix_len \<Rightarrow>
          (let remainder = drop prefix_len uri_text
           in if remainder = [] \<or> starts_with remainder ''/'' then False
              else (let authority_end = unwrap_or (length remainder)
                          (find_pos (\<lambda>c. c \<in> {CHR ''/'', CHR ''?'', CHR ''#''}) remainder);
                        authority = take authority_end remainder
                    in if authority = [] then False
                       else valid_host_port
                         (case rsplit_once (CHR ''@'') authority of
                            Some (_, host_port) \<Rightarrow> host_port | None \<Rightarrow> authority))))"

definition is_valid_http_network_path_reference :: "string \<Rightarrow> bool" where
  "is_valid_http_network_path_reference uri_text = has_valid_raw_http_authority_syntax uri_text True"

definition is_http_scheme :: "string \<Rightarrow> bool" where
  "is_http_scheme scheme = (scheme = ''http'' \<or> scheme = ''https'')"

definition is_valid_absolute_http_uri_text :: "'w url_ops \<Rightarrow> string \<Rightarrow> bool" where
  "is_valid_absolute_http_uri_text W uri_text =
     (if \<not> has_valid_raw_http_authority_syntax uri_text False then False
      else case url_parse W uri_text of
        None \<Rightarrow> False
      | Some parsed \<Rightarrow> is_http_scheme (url_scheme W parsed) \<and> url_host_str W parsed \<noteq> None)"

subsection \<open>Redaction\<close>

definition strip_query_and_fragment :: "string \<Rightarrow> string" where
  "strip_query_and_fragment uri_text =
     (let query_index = find_pos (\<lambda>c. c = CHR ''?'') uri_text;
          fragment_index = find_pos (\<lambda>c. c = CHR ''#'') uri_text;
          cutoff = (case (query_index, fragment_index) of
              (Some query, Some fragment) \<Rightarrow> min query fragment
            | (Some query, None) \<Rightarrow> query
            | (None, Some fragment) \<Rightarrow> fragment
            | (None, None) \<Rightarrow> length uri_text)
      in take cutoff uri_text)"

definition redact_with_prefix :: "string \<Rightarrow> string \<Rightarrow> string option" where
  "redact_with_prefix pre rest =
     (let authority_end = unwrap_or (length rest) (find_pos (\<lambda>c. c = CHR ''/'') rest);
          authority = take authority_end rest;
          suffix = drop authority_end rest
      in case rsplit_once (CHR ''@'') authority of
           None \<Rightarrow> None
         | Some (_, host_port) \<Rightarrow>
             if host_port = [] then Some (pre @ ''<redacted>@'' @ suffix)
             else Some (pre @ host_port @ suffix))"

definition redact_userinfo_in_authority :: "string \<Rightarrow> string" where
  "redact_userinfo_in_authority uri_text =
     (case find_str ''://'' uri_text of
        Some scheme_separator \<Rightarrow>
          (let prefix_end = scheme_separator + 3
           in unwrap_or uri_text
                (redact_with_prefix (take prefix_end uri_text) (drop prefix_end uri_text)))
      | None \<Rightarrow>
          (case strip_prefix ''//'' uri_text of
             Some rest \<Rightarrow> unwrap_or uri_text (redact_with_prefix ''//'' rest)
           | None \<Rightarrow> uri_text))"

definition redact_non_authority_credentials :: "string \<Rightarrow> string" where
  "redact_non_authority_credentials uri_text =
     (case split_once (CHR '':'') uri_text of
        None \<Rightarrow> uri_text
      | Some (scheme, remainder) \<Rightarrow>
          if to_ascii_lowercase scheme \<notin> {''mailto'', ''sip'', ''sips''} then uri_text
          else if starts_with remainder ''//'' then uri_text
          else (case rsplit_once (CHR ''@'') remainder of
             None \<Rightarrow> uri_text
           | Some (credential_like_prefix, suffix) \<Rightarrow>
               if credential_like_prefix = [] then uri_text
               else if CHR '':'' \<notin> set credential_like_prefix \<and>
                       find_str ''%3a'' (to_ascii_lowercase credential_like_prefix) = None
               then uri_text
               else scheme @ '':<redacted>@'' @ suffix))"

definition redact_uri_without_url_normalization :: "string \<Rightarrow> string" where
  "redact_uri_without_url_normalization uri_text =
     redact_non_authority_credentials
       (redact_userinfo_in_authority (strip_query_and_fragment uri_text))"

definition is_token_char :: "char \<Rightarrow> bool" where
  "is_token_char c = (is_ascii_alphanumeric c \<or> c \<in> set ''-_.~+='')"

definition is_token_like :: "string \<Rightarrow> bool" where
  "is_token_like segment = (segment \<noteq> [] \<and> list_all is_token_char segment)"

definition credential_separator :: "string \<Rightarrow> (nat \<times> nat) option" where
  "credential_separator segment =
     (let plain = map_option (\<lambda>i. (i, 1)) (find_pos (\<lambda>c. c = CHR '':'') segment);
          encoded = map_option (\<lambda>i. (i, 3)) (find_str ''%3a'' (to_ascii_lowercase segment))
      in case (plain, encoded) of
           (Some p, Some e) \<Rightarrow> Some (if fst p \<le> fst e then p else e)
         | (Some p, None) \<Rightarrow> Some p
         | (None, Some e) \<Rightarrow> Some e
         | (None, None) \<Rightarrow> None)"

definition split_credential_like_segment :: "string \<Rightarrow> (string \<times> string) option" where
  "split_credential_like_segment segment =
     (case credential_separator segment of
        None \<Rightarrow> None
      | Some (separator_index, separator_len) \<Rightarrow>
          (let left = take separator_index segment;
               right = drop (separator_index + separator_len) segment
           in if left = [] \<or> right = [] then None
              else if length left < 3 \<or> length right < 6 then None
              else if \<not> is_token_like left \<or> \<not> is_token_like right then None
              else Some (left, right)))"

definition redact_segment :: "string \<Rightarrow> string" where
  "redact_segment segment =
     (case split_credential_like_segment segment of
        Some (left, _) \<Rightarrow> left @ '':redacted'' | None \<Rightarrow> segment)"

definition redact_sensitive_path_segments :: "'w url_ops \<Rightarrow> 'w \<Rightarrow> 'w" where
  "redact_sensitive_path_segments W parsed =
     (case url_path_segments W parsed of
        None \<Rightarrow> parsed
      | Some path_segments \<Rightarrow>
          if path_segments = [] then parsed
          else if \<not> list_ex (\<lambda>s. split_credential_like_segment s \<noteq> None) path_segments then parsed
          else (let has_trailing_slash = ends_with (url_path W parsed) ''/'';
                    rebuilt_path = concat (map (\<lambda>s. ''/'' @ redact_segment s) path_segments);
                    rebuilt_path =
                      (if rebuilt_path = [] \<or> has_trailing_slash \<and> \<not> ends_with rebuilt_path ''/''
                       then rebuilt_path @ ''/'' else rebuilt_path)
                in url_set_path W rebuilt_path parsed))"

definition redact_uri_for_logs :: "'w url_ops \<Rightarrow> string \<Rightarrow> string" where
  "redact_uri_for_logs W uri_text =
     (let looks_like_http_absolute =
            (has_prefix_ignore_case uri_text ''http://'' \<or> has_prefix_ignore_case uri_text ''https://'')
      in if looks_like_http_absolute \<and> \<not> is_valid_absolute_http_uri_text W uri_text
         then redact_uri_without_url_normalization uri_text
         else case url_parse W uri_text of
           None \<Rightarrow> redact_uri_without_url_normalization uri_text
         | Some parsed \<Rightarrow>
             redact_non_authority_credentials (redact_userinfo_in_authority
               (url_to_string W (redact_sensitive_path_segments W
                 (url_set_fragment W None (url_set_query W None
                   (url_set_password W None (url_set_username W [] parsed))))))))"

subsection \<open>Redaction of free text\<close>

definition uri_like_patterns :: "string list" where
  "uri_like_patterns = [''https://'', ''http://'', ''mailto:'', ''sips:'', ''sip:'']"

fun min_by_index :: "(nat \<times> nat) list \<Rightarrow> (nat \<times> nat) option" where
  "min_by_index [] = None"
| "min_by_index (x # xs) =
     (case min_by_index xs of None \<Rightarrow> Some x | Some y \<Rightarrow> if fst x \<le> fst y then Some x else Some y)"

definition find_uri_like_start :: "string \<Rightarrow> nat \<Rightarrow> (nat \<times> nat) option" where
  "find_uri_like_start lower offset =
     min_by_index (List.map_filter (\<lambda>pattern.
       if offset > length lower then None
       else map_option (\<lambda>index. (offset + index, length pattern)) (find_str pattern (drop offset lower)))
       uri_like_patterns)"

text \<open>The position of the last character of a text that satisfies a predicate.\<close>

definition rfind_pos :: "(char \<Rightarrow> bool) \<Rightarrow> string \<Rightarrow> nat option" where
  "rfind_pos p s =
     (if list_ex p s then Some (length (dropWhile (\<lambda>c. \<not> p c) (rev s)) - 1) else None)"

definition uri_like_span_end :: "string \<Rightarrow> string \<Rightarrow> nat \<Rightarrow> nat \<Rightarrow> nat" where
  "uri_like_span_end core lower uri_start pattern_len =
     (case find_uri_like_start lower (uri_start + pattern_len) of
        None \<Rightarrow> length core
      | Some (next_uri_start, _) \<Rightarrow>
          (case rfind_pos (\<lambda>c. c \<in> set '',;|'') (take (next_uri_start - uri_start) (drop uri_start core)) of
             Some index \<Rightarrow> uri_start + index
           | None \<Rightarrow> next_uri_start))"

lemma find_str_Some:
  "find_str pat s = Some i \<Longrightarrow> i + length pat \<le> length s \<and> take (length pat) (drop i s) = pat"
proof (induction pat s arbitrary: i rule: find_str.induct)
  case (2 pat c cs)
  show ?case
  proof (cases "take (length pat) (c # cs) = pat")
    case True
    with 2 have "i = 0" by simp
    moreover have "length pat \<le> length (c # cs)" using True by (metis length_take min.cobounded1 min_def)
    ultimately show ?thesis using True by simp
  next
    case False
    with 2 obtain j where "find_str pat cs = Some j" "i = Suc j" by auto
    with 2(1) [OF False] show ?thesis by simp
  qed
qed (auto split: if_splits)

lemma min_by_index_in: "min_by_index xs = Some x \<Longrightarrow> x \<in> set xs"
  by (induction xs arbitrary: x) (auto split: option.splits if_splits)

lemma find_uri_like_start_Some:
  assumes "find_uri_like_start lower offset = Some (st, n)"
  obtains pattern where "pattern \<in> set uri_like_patterns" "n = length pattern" "offset \<le> st"
    "st + n \<le> length lower" "take n (drop st lower) = pattern"
proof -
  have "(st, n) \<in> set (List.map_filter (\<lambda>pattern.
       if offset > length lower then None
       else map_option (\<lambda>index. (offset + index, length pattern)) (find_str pattern (drop offset lower)))
       uri_like_patterns)"
    using assms unfolding find_uri_like_start_def by (rule min_by_index_in)
  then obtain pattern i where "pattern \<in> set uri_like_patterns" "offset \<le> length lower"
    "find_str pattern (drop offset lower) = Some i" "st = offset + i" "n = length pattern"
    by (auto simp: map_filter_def split: if_splits)
  with find_str_Some [of pattern "drop offset lower" i] show ?thesis
    by (intro that [of pattern]) (auto simp: add.commute)
qed

lemma uri_pattern_first:
  "pattern \<in> set uri_like_patterns \<Longrightarrow> pattern \<noteq> [] \<and> hd pattern \<in> set ''hms''"
  by (auto simp: uri_like_patterns_def)

lemma ascii_lower_separator: "c \<in> set '',;|'' \<Longrightarrow> ascii_lower c = c"
  by (auto simp: ascii_defs)

lemma rfind_pos_Some:
  assumes "rfind_pos p s = Some i"
  shows "i < length s \<and> p (s ! i)"
proof -
  let ?d = "dropWhile (\<lambda>c. \<not> p c) (rev s)"
  have ex: "\<exists>x \<in> set (rev s). p x" and i: "i = length ?d - 1"
    using assms by (auto simp: rfind_pos_def list_ex_iff split: if_splits)
  then have ne: "?d \<noteq> []" by (auto simp: dropWhile_eq_Nil_conv)
  have "rev s = takeWhile (\<lambda>c. \<not> p c) (rev s) @ ?d" by simp
  then have "rev (rev s) = rev ?d @ rev (takeWhile (\<lambda>c. \<not> p c) (rev s))" by (metis rev_append)
  then have s: "s = rev ?d @ rev (takeWhile (\<lambda>c. \<not> p c) (rev s))" by simp
  have "s ! i = rev ?d ! i" using ne i by (subst s) (simp add: nth_append)
  also have "\<dots> = hd ?d" using ne i by (simp add: rev_nth hd_conv_nth)
  finally have "s ! i = hd ?d" .
  moreover have "p (hd ?d)" using hd_dropWhile [OF ne] by simp
  moreover have "length ?d \<le> length s" by (metis length_dropWhile_le length_rev)
  moreover have "0 < length ?d" using ne by simp
  ultimately have "i < length s" using i by linarith
  with \<open>s ! i = hd ?d\<close> \<open>p (hd ?d)\<close> show ?thesis by simp
qed

lemma uri_like_span_end_progress:
  assumes "find_uri_like_start (to_ascii_lowercase core) offset = Some (st, n)"
  shows "offset \<le> st \<and> st < length core \<and>
    st < uri_like_span_end core (to_ascii_lowercase core) st n"
proof -
  obtain pattern where pat: "pattern \<in> set uri_like_patterns" "n = length pattern" "offset \<le> st"
    "st + n \<le> length core" "take n (drop st (to_ascii_lowercase core)) = pattern"
    using find_uri_like_start_Some [OF assms] by auto
  have n: "0 < n" using uri_pattern_first [OF pat(1)] pat(2) by auto
  then have lt: "st < length core" using pat(4) by simp
  have "ascii_lower (core ! st) = hd pattern"
    using pat n lt by (auto simp: to_ascii_lowercase_def hd_drop_conv_nth take_map drop_map hd_map
        dest!: arg_cong [of _ _ hd])
  then have nsep: "core ! st \<notin> set '',;|''"
    using uri_pattern_first [OF pat(1)] ascii_lower_separator [of "core ! st"] by auto
  show ?thesis
  proof (cases "find_uri_like_start (to_ascii_lowercase core) (st + n)")
    case None
    then show ?thesis using pat(3) lt by (simp add: uri_like_span_end_def)
  next
    case (Some next_start)
    obtain st' n' where next_start: "next_start = (st', n')" by (cases next_start)
    then have "st + n \<le> st'" using find_uri_like_start_Some Some by metis
    with n have st': "st < st'" by simp
    show ?thesis
    proof (cases "rfind_pos (\<lambda>c. c \<in> set '',;|'') (take (st' - st) (drop st core))")
      case None
      then show ?thesis using Some next_start st' lt pat(3) by (simp add: uri_like_span_end_def)
    next
      case (Some i)
      note sep = rfind_pos_Some [OF Some]
      have "i \<noteq> 0"
      proof
        assume "i = 0"
        with sep lt st' nsep show False by (simp add: nth_append)
      qed
      then show ?thesis
        using Some \<open>find_uri_like_start (to_ascii_lowercase core) (st + n) = Some next_start\<close>
          next_start lt pat(3)
        by (simp add: uri_like_span_end_def)
    qed
  qed
qed

function redact_core_loop :: "'w url_ops \<Rightarrow> string \<Rightarrow> nat \<Rightarrow> string" where
  "redact_core_loop W core from_pos =
     (case find_uri_like_start (to_ascii_lowercase core) from_pos of
        None \<Rightarrow> drop from_pos core
      | Some (uri_start, pattern_len) \<Rightarrow>
          (let uri_end = uri_like_span_end core (to_ascii_lowercase core) uri_start pattern_len
           in take (uri_start - from_pos) (drop from_pos core)
              @ redact_uri_for_logs W (take (uri_end - uri_start) (drop uri_start core))
              @ redact_core_loop W core uri_end))"
  by pat_completeness auto
termination
  by (relation "measure (\<lambda>(W, core, from_pos). length core - from_pos)")
    (auto dest!: uri_like_span_end_progress)

declare redact_core_loop.simps [simp del]

definition redact_uri_like_core_for_logs :: "'w url_ops \<Rightarrow> string \<Rightarrow> string" where
  "redact_uri_like_core_for_logs W core = redact_core_loop W core 0"

definition leading_punctuation :: "char list" where
  "leading_punctuation = map char_of [40, 91, 123, 60, 34, 39 :: nat]"

definition trailing_punctuation :: "char list" where
  "trailing_punctuation = map char_of [41, 93, 125, 62, 34, 39, 44, 59 :: nat]"

definition redact_uri_like_token_for_logs :: "'w url_ops \<Rightarrow> string \<Rightarrow> string" where
  "redact_uri_like_token_for_logs W token =
     (let leading = takeWhile (\<lambda>c. c \<in> set leading_punctuation) token;
          without_leading = dropWhile (\<lambda>c. c \<in> set leading_punctuation) token;
          core = trim_end_matches (\<lambda>c. c \<in> set trailing_punctuation) without_leading;
          trailing = drop (length core) without_leading
      in if find_uri_like_start (to_ascii_lowercase core) 0 = None then token
         else leading @ redact_uri_like_core_for_logs W core @ trailing)"

text \<open>\<open>str::split_inclusive\<close> at white space.\<close>

fun split_inclusive :: "(char \<Rightarrow> bool) \<Rightarrow> string \<Rightarrow> string list" where
  "split_inclusive p [] = []"
| "split_inclusive p (c # cs) =
     (if p c then [c] # split_inclusive p cs
      else case split_inclusive p cs of [] \<Rightarrow> [[c]] | t # ts \<Rightarrow> (c # t) # ts)"

definition redact_uri_like_text_for_logs :: "'w url_ops \<Rightarrow> string \<Rightarrow> string" where
  "redact_uri_like_text_for_logs W text =
     concat (map (\<lambda>token.
       let body = trim_end_matches is_ascii_whitespace token
       in redact_uri_like_token_for_logs W body @ drop (length body) token)
       (split_inclusive is_ascii_whitespace text))"

subsection \<open>Resolution against the base URL\<close>

definition join_base_path :: "string \<Rightarrow> string \<Rightarrow> string" where
  "join_base_path base_url path =
     (let base = trim_end_matches (\<lambda>c. c = CHR ''/'') base_url
      in case strip_prefix ''?'' path of
           Some suffix \<Rightarrow> if base = [] then ''?'' @ suffix else base @ ''?'' @ suffix
         | None \<Rightarrow>
             (case strip_prefix ''#'' path of
                Some suffix \<Rightarrow> if base = [] then ''#'' @ suffix else base @ ''#'' @ suffix
              | None \<Rightarrow>
                  (let relative = unwrap_or path (strip_prefix ''/'' path)
                   in if base = [] \<and> relative = [] then []
                      else if base = [] then relative
                      else if relative = [] then base
                      else base @ ''/'' @ relative)))"

definition append_query :: "string \<Rightarrow> string \<Rightarrow> string" where
  "append_query path query =
     (if query = [] then path
      else let fragment_index = find_pos (\<lambda>c. c = CHR ''#'') path;
               fragment = (case fragment_index of None \<Rightarrow> [] | Some i \<Rightarrow> drop i path);
               path = (case fragment_index of None \<Rightarrow> path | Some i \<Rightarrow> take i path);
               path = (case split_once (CHR ''?'') path of
                   None \<Rightarrow> path @ ''?''
                 | Some (_, q) \<Rightarrow> if q \<noteq> [] \<and> \<not> ends_with q ''&'' then path @ ''&'' else path)
           in path @ query @ fragment)"

definition resolve_uri ::
    "'u uri_ops \<Rightarrow> 'w url_ops \<Rightarrow> string \<Rightarrow> string \<Rightarrow> (string \<times> 'u, 'h error) result" where
  "resolve_uri U W base_url path =
     (let finish = (\<lambda>uri_text.
            case uri_parse U uri_text of
              None \<Rightarrow> Err (InvalidUri (redact_uri_for_logs W uri_text))
            | Some uri \<Rightarrow>
                if uri_has_userinfo U uri then Err (InvalidUri (redact_uri_for_logs W uri_text))
                else Ok (uri_text, uri))
      in case uri_parse U path of
           Some uri \<Rightarrow>
             if uri_host U uri \<noteq> None
             then (case uri_scheme_str U uri of
                None \<Rightarrow> Err (InvalidUri (redact_uri_without_url_normalization path))
              | Some scheme \<Rightarrow>
                  if uri_has_userinfo U uri then Err (InvalidUri (redact_uri_for_logs W path))
                  else if (eq_ignore_ascii_case scheme ''http'' \<or> eq_ignore_ascii_case scheme ''https'')
                          \<and> is_valid_absolute_http_uri_text W path
                  then finish path
                  else Err (InvalidUri (redact_uri_for_logs W path)))
             else if uri_scheme_str U uri \<noteq> None then Err (InvalidUri (redact_uri_for_logs W path))
             else finish (join_base_path base_url path)
         | None \<Rightarrow>
             if looks_like_malformed_http_absolute_uri path
             then Err (InvalidUri (redact_uri_without_url_normalization path))
             else finish (join_base_path base_url path))"

definition invalid_base_url_error :: "'w url_ops \<Rightarrow> string \<Rightarrow> 'h error" where
  "invalid_base_url_error W base_url = InvalidUri (redact_uri_for_logs W base_url)"

definition validate_base_url :: "'u uri_ops \<Rightarrow> 'w url_ops \<Rightarrow> string \<Rightarrow> (unit, 'h error) result" where
  "validate_base_url U W base_url =
     (let normalized = trim base_url;
          invalid = Err (invalid_base_url_error W base_url)
      in if length normalized \<noteq> length base_url then invalid
         else if normalized = [] then invalid
         else case url_parse W normalized of
           None \<Rightarrow> invalid
         | Some parsed \<Rightarrow>
             if \<not> is_http_scheme (url_scheme W parsed) then invalid
             else if url_host_str W parsed = None then invalid
             else if url_username W parsed \<noteq> [] \<or> url_password W parsed \<noteq> None then invalid
             else if url_query W parsed \<noteq> None \<or> url_fragment W parsed \<noteq> None then invalid
             else if \<not> is_valid_absolute_http_uri_text W normalized then invalid
             else case uri_parse U normalized of
               None \<Rightarrow> invalid
             | Some uri \<Rightarrow>
                 if uri_scheme_str U uri = None \<or> uri_host U uri = None then invalid else Ok ())"

definition invalid_proxy_uri_error :: "'u uri_ops \<Rightarrow> 'w url_ops \<Rightarrow> 'u \<Rightarrow> string \<Rightarrow> 'h error" where
  "invalid_proxy_uri_error U W proxy_uri message =
     InvalidProxyConfig (redact_uri_for_logs W (uri_to_string U proxy_uri)) message"

definition validate_http_proxy_uri :: "'u uri_ops \<Rightarrow> 'w url_ops \<Rightarrow> 'u \<Rightarrow> (unit, 'h error) result" where
  "validate_http_proxy_uri U W proxy_uri =
     (case uri_scheme_str U proxy_uri of
        None \<Rightarrow> Err (invalid_proxy_uri_error U W proxy_uri ''http_proxy URI must include an explicit scheme'')
      | Some scheme \<Rightarrow>
          if \<not> eq_ignore_ascii_case scheme ''http''
          then Err (invalid_proxy_uri_error U W proxy_uri ''http_proxy URI must use http scheme'')
          else if uri_host U proxy_uri = None
          then Err (invalid_proxy_uri_error U W proxy_uri ''http_proxy URI must include host'')
          else if is_some_and (\<lambda>(path, query). path \<noteq> [] \<and> path \<noteq> ''/'') (uri_path_and_query U proxy_uri)
          then Err (invalid_proxy_uri_error U W proxy_uri ''http_proxy URI must not include path segments'')
          else if is_some_and (\<lambda>(path, query). query \<noteq> None) (uri_path_and_query U proxy_uri)
          then Err (invalid_proxy_uri_error U W proxy_uri
            ''http_proxy URI must not include query parameters'')
          else if \<not> is_valid_absolute_http_uri_text W (uri_to_string U proxy_uri)
          then Err (invalid_proxy_uri_error U W proxy_uri
            ''http_proxy URI must include a valid authority and numeric port'')
          else Ok ())"

subsection \<open>Facts on the searches\<close>

lemma find_pos_unwrap:
  "unwrap_or (length s) (find_pos p s) = length (takeWhile (\<lambda>c. \<not> p c) s)"
proof (cases "list_ex p s")
  case False
  then have "takeWhile (\<lambda>c. \<not> p c) s = s" by (simp add: list_ex_iff)
  with False show ?thesis by (simp only: find_pos_def if_False option_fun_simps)
qed (simp add: find_pos_def)

lemma find_pos_take:
  "take (unwrap_or (length s) (find_pos p s)) s = takeWhile (\<lambda>c. \<not> p c) s"
  "drop (unwrap_or (length s) (find_pos p s)) s = dropWhile (\<lambda>c. \<not> p c) s"
  unfolding find_pos_unwrap by (metis takeWhile_eq_take, metis dropWhile_eq_drop)

lemma take_min_takeWhile:
  "take (min (length (takeWhile P s)) (length (takeWhile Q s))) s = takeWhile (\<lambda>c. P c \<and> Q c) s"
  by (induction s) simp_all

lemma strip_query_and_fragment_eq:
  "strip_query_and_fragment s = takeWhile (\<lambda>c. c \<noteq> CHR ''?'' \<and> c \<noteq> CHR ''#'') s"
proof -
  let ?q = "find_pos (\<lambda>c. c = CHR ''?'') s" and ?f = "find_pos (\<lambda>c. c = CHR ''#'') s"
  have le: "unwrap_or (length s) (find_pos p s) \<le> length s" for p
    by (simp add: find_pos_unwrap length_takeWhile_le)
  have "strip_query_and_fragment s = take (min (unwrap_or (length s) ?q) (unwrap_or (length s) ?f)) s"
    using le [of "\<lambda>c. c = CHR ''?''"] le [of "\<lambda>c. c = CHR ''#''"]
    by (cases ?q; cases ?f) (simp_all add: strip_query_and_fragment_def)
  then show ?thesis by (simp add: find_pos_unwrap take_min_takeWhile)
qed

lemma rsplit_once_Some:
  "rsplit_once c s = Some (a, b) \<Longrightarrow> s = a @ c # b \<and> c \<notin> set b"
proof -
  assume r: "rsplit_once c s = Some (a, b)"
  then have c: "c \<in> set (rev s)" and
    ab: "a = rev (tl (dropWhile (\<lambda>x. x \<noteq> c) (rev s)))" "b = rev (takeWhile (\<lambda>x. x \<noteq> c) (rev s))"
    by (auto simp: rsplit_once_def split: if_splits)
  have ne: "dropWhile (\<lambda>x. x \<noteq> c) (rev s) \<noteq> []" using c by (auto simp: dropWhile_eq_Nil_conv)
  then have "dropWhile (\<lambda>x. x \<noteq> c) (rev s) = c # rev a"
    using hd_dropWhile [OF ne] by (metis ab(1) list.collapse rev_rev_ident)
  then have "rev s = rev b @ c # rev a"
    using takeWhile_dropWhile_id [of "\<lambda>x. x \<noteq> c" "rev s"] by (simp add: ab(2))
  then have "rev (rev s) = rev (rev b @ c # rev a)" by (rule arg_cong)
  then have "s = a @ c # b" by simp
  moreover have "c \<notin> set b" by (auto simp: ab(2) dest: set_takeWhileD)
  ultimately show ?thesis by simp
qed

lemma rsplit_once_append:
  assumes "c \<notin> set b"
  shows "rsplit_once c (a @ c # b) = Some (a, b)"
proof -
  have "\<forall>x \<in> set (rev b). x \<noteq> c" using assms by auto
  then have "takeWhile (\<lambda>x. x \<noteq> c) (rev b @ c # rev a) = rev b"
    "dropWhile (\<lambda>x. x \<noteq> c) (rev b @ c # rev a) = c # rev a"
    by (simp_all add: takeWhile_append dropWhile_append)
  then show ?thesis by (simp add: rsplit_once_def)
qed

lemma find_str_prefix: "find_str pat (pat @ b) = Some 0"
proof (cases "pat @ b")
  case (Cons c cs)
  then have "take (length pat) (c # cs) = pat" by (metis append_eq_conv_conj)
  with Cons show ?thesis by simp
qed simp

lemma find_str_append: "find_str pat (a @ pat @ b) \<noteq> None"
proof (induction a)
  case (Cons c a)
  then show ?case by (cases "take (length pat) (c # a @ pat @ b) = pat") simp_all
qed (simp add: find_str_prefix)

lemma find_str_None_iff: "find_str pat s = None \<longleftrightarrow> (\<nexists>a b. s = a @ pat @ b)"
proof
  show "find_str pat s = None \<Longrightarrow> \<nexists>a b. s = a @ pat @ b" using find_str_append by metis
  assume none: "\<nexists>a b. s = a @ pat @ b"
  show "find_str pat s = None"
  proof (rule ccontr)
    assume "find_str pat s \<noteq> None"
    then obtain i where "find_str pat s = Some i" by auto
    from find_str_Some [OF this] have "s = take i s @ pat @ drop (i + length pat) s"
      by (metis append_take_drop_id drop_drop add.commute)
    with none show False by blast
  qed
qed

lemma find_str_scheme: "CHR '':'' \<notin> set scheme \<Longrightarrow> find_str ''://'' (scheme @ ''://'' @ rest) = Some (length scheme)"
proof (induction scheme)
  case (Cons c cs)
  then have "c \<noteq> CHR '':''" by auto
  with Cons show ?case by simp
qed (simp add: find_str_prefix [of "''://''", simplified])

lemma redact_with_prefix_eq:
  "redact_with_prefix pre rest =
     (case rsplit_once (CHR ''@'') (takeWhile (\<lambda>c. c \<noteq> CHR ''/'') rest) of
        None \<Rightarrow> None
      | Some (_, host_port) \<Rightarrow>
          if host_port = [] then Some (pre @ ''<redacted>@'' @ dropWhile (\<lambda>c. c \<noteq> CHR ''/'') rest)
          else Some (pre @ host_port @ dropWhile (\<lambda>c. c \<noteq> CHR ''/'') rest))"
  unfolding redact_with_prefix_def Let_def find_pos_take ..

lemma redact_with_prefix_userinfo:
  assumes "CHR ''/'' \<notin> set user" "CHR ''/'' \<notin> set host" "CHR ''@'' \<notin> set host" "host \<noteq> []"
    and "path = [] \<or> hd path = CHR ''/''"
  shows "redact_with_prefix pre (user @ ''@'' @ host @ path) = Some (pre @ host @ path)"
proof -
  let ?auth = "user @ CHR ''@'' # host"
  have all: "\<forall>c \<in> set ?auth. c \<noteq> CHR ''/''" using assms by auto
  have "takeWhile (\<lambda>c. c \<noteq> CHR ''/'') (?auth @ path) = ?auth"
    "dropWhile (\<lambda>c. c \<noteq> CHR ''/'') (?auth @ path) = path"
    using all assms(5) by (cases path; simp add: takeWhile_append dropWhile_append)+
  then show ?thesis
    using rsplit_once_append [OF assms(3), of user] assms(4) by (simp add: redact_with_prefix_eq)
qed

lemma redact_with_prefix_chars:
  assumes "redact_with_prefix pre rest = Some r"
  shows "set r \<subseteq> set pre \<union> set rest \<union> set ''<redacted>@''"
proof -
  let ?t = "takeWhile (\<lambda>c. c \<noteq> CHR ''/'') rest" and ?d = "dropWhile (\<lambda>c. c \<noteq> CHR ''/'') rest"
  obtain a b where ab: "rsplit_once (CHR ''@'') ?t = Some (a, b)"
    and r: "r = pre @ ''<redacted>@'' @ ?d \<or> r = pre @ b @ ?d"
    using assms by (auto simp: redact_with_prefix_eq split: option.splits if_splits)
  from rsplit_once_Some [OF ab] have "set b \<subseteq> set ?t" by auto
  then have "set b \<subseteq> set rest" "set ?d \<subseteq> set rest"
    by (auto dest: set_takeWhileD set_dropWhileD)
  with r show ?thesis by auto
qed

lemma redact_userinfo_chars:
  "set (redact_userinfo_in_authority s) \<subseteq> set s \<union> set ''<redacted>@''"
proof -
  have "set r \<subseteq> set s \<union> set ''<redacted>@''"
    if "redact_with_prefix (take n s) (drop n s) = Some r" for n r
    using redact_with_prefix_chars [OF that] set_take_subset [of n s] set_drop_subset [of n s]
    by blast
  moreover have "set r \<subseteq> set s \<union> set ''<redacted>@''"
    if "starts_with s ''//''" "redact_with_prefix ''//'' (drop (Suc (Suc 0)) s) = Some r" for r
  proof -
    have "set ''//'' \<subseteq> set s"
      using that(1) by (metis starts_with_def set_take_subset)
    then show ?thesis
      using redact_with_prefix_chars [OF that(2)] set_drop_subset [of "Suc (Suc 0)" s] by blast
  qed
  ultimately show ?thesis
    by (auto simp: redact_userinfo_in_authority_def strip_prefix_def Let_def unwrap_or_def
        split: option.splits if_splits)
qed

lemma redact_non_authority_chars:
  "set (redact_non_authority_credentials s) \<subseteq> set s \<union> set '':<redacted>@''"
proof -
  have "set scheme \<subseteq> set s \<and> set suffix \<subseteq> set s"
    if "split_once (CHR '':'') s = Some (scheme, rest)" "rsplit_once (CHR ''@'') rest = Some (q, suffix)"
    for scheme rest q suffix
  proof -
    have "set rest \<subseteq> set s"
      using that(1) by (auto simp: split_once_def split: if_splits dest!: set_dropWhileD list.set_sel(2) [rotated])
    moreover have "set suffix \<subseteq> set rest" using rsplit_once_Some [OF that(2)] by auto
    moreover have "set scheme \<subseteq> set s"
      using that(1) by (auto simp: split_once_def split: if_splits dest: set_takeWhileD)
    ultimately show ?thesis by blast
  qed
  then have "set (scheme @ '':<redacted>@'' @ suffix) \<subseteq> set s \<union> set '':<redacted>@''"
    if "split_once (CHR '':'') s = Some (scheme, rest)" "rsplit_once (CHR ''@'') rest = Some (q, suffix)"
    for scheme rest q suffix
    using that by (simp only: set_append) blast
  then show ?thesis
    unfolding redact_non_authority_credentials_def
    by (simp only: split: option.split prod.split if_split) blast
qed

lemma split_on_append:
  "p c \<Longrightarrow> split_on p (a @ c # b) = split_on p a @ split_on p b"
  by (induction a) (auto split: list.splits)

lemma concat_split_inclusive [simp]: "concat (split_inclusive p s) = s"
  by (induction s) (auto split: list.splits)

subsection \<open>Queries\<close>

definition path_part :: "string \<Rightarrow> string" where
  "path_part s = takeWhile (\<lambda>c. c \<noteq> CHR ''?'') s"

definition query_pairs :: "string \<Rightarrow> string list" where
  "query_pairs s = filter (\<lambda>t. t \<noteq> [])
     (split_on (\<lambda>c. c = CHR ''&'') (tl (dropWhile (\<lambda>c. c \<noteq> CHR ''?'') s)))"

lemma append_query_fragment:
  assumes "CHR ''#'' \<notin> set p" "fragment = [] \<or> hd fragment = CHR ''#''" "q \<noteq> []"
  shows "append_query (p @ fragment) q = append_query p q @ fragment"
proof -
  have p: "\<not> list_ex (\<lambda>c. c = CHR ''#'') p" using assms(1) by (auto simp: list_ex_iff)
  then have tw: "takeWhile (\<lambda>c. c \<noteq> CHR ''#'') (p @ fragment) = p"
    using assms(1,2) by (cases fragment) (auto simp: takeWhile_append list_ex_iff)
  show ?thesis
  proof (cases fragment)
    case (Cons c cs)
    with assms(2) have "find_pos (\<lambda>c. c = CHR ''#'') (p @ fragment) = Some (length p)"
      using tw by (simp add: find_pos_def)
    then show ?thesis
      using p assms(3) by (simp add: append_query_def find_pos_def)
  qed simp
qed

lemma append_query_plain:
  assumes "CHR ''#'' \<notin> set p" "q \<noteq> []"
  shows "append_query p q = p @ (case split_once (CHR ''?'') p of None \<Rightarrow> ''?''
     | Some (_, old) \<Rightarrow> if old \<noteq> [] \<and> \<not> ends_with old ''&'' then ''&'' else []) @ q"
  using assms by (auto simp: append_query_def find_pos_def list_ex_iff split: option.splits)

lemma ends_with_amp: "ends_with old ''&'' \<Longrightarrow> \<exists>o'. old = o' @ ''&''"
  unfolding ends_with_def by (metis append_take_drop_id)

lemma append_query_pairs:
  assumes "CHR ''#'' \<notin> set p" "q \<noteq> []"
  shows "query_pairs (append_query p q) =
    query_pairs p @ filter (\<lambda>t. t \<noteq> []) (split_on (\<lambda>c. c = CHR ''&'') q)"
    and "path_part (append_query p q) = path_part p"
proof -
  let ?amp = "\<lambda>c. c = CHR ''&''" and ?ne = "\<lambda>t :: string. t \<noteq> []"
  consider (none) "CHR ''?'' \<notin> set p"
    | (old) old where "p = path_part p @ CHR ''?'' # old" "CHR ''?'' \<in> set p"
        "split_once (CHR ''?'') p = Some (path_part p, old)"
  proof (cases "CHR ''?'' \<in> set p")
    case True
    then have ne: "dropWhile (\<lambda>c. c \<noteq> CHR ''?'') p \<noteq> []" by (auto simp: dropWhile_eq_Nil_conv)
    then have "dropWhile (\<lambda>c. c \<noteq> CHR ''?'') p = CHR ''?'' # tl (dropWhile (\<lambda>c. c \<noteq> CHR ''?'') p)"
      using hd_dropWhile [OF ne] by (metis list.collapse)
    then have "p = path_part p @ CHR ''?'' # tl (dropWhile (\<lambda>c. c \<noteq> CHR ''?'') p)"
      by (metis path_part_def takeWhile_dropWhile_id)
    with True show ?thesis by (intro old) (auto simp: split_once_def path_part_def)
  qed (rule none)
  then have "query_pairs (append_query p q) = query_pairs p @ filter ?ne (split_on ?amp q) \<and>
      path_part (append_query p q) = path_part p"
  proof cases
    case none
    then have all: "\<forall>c \<in> set p. c \<noteq> CHR ''?''" by auto
    then have tw: "takeWhile (\<lambda>c. c \<noteq> CHR ''?'') p = p" "dropWhile (\<lambda>c. c \<noteq> CHR ''?'') p = []"
      by (simp_all only: takeWhile_eq_all_conv dropWhile_eq_Nil_conv)
    from none all show ?thesis
      by (simp add: tw append_query_plain [OF assms] split_once_def query_pairs_def path_part_def
          takeWhile_append dropWhile_append)
  next
    case old
    let ?a = "path_part p"
    have nq: "\<forall>c \<in> set ?a. c \<noteq> CHR ''?''" by (auto simp: path_part_def dest: set_takeWhileD)
    have parts: "path_part (?a @ CHR ''?'' # r) = ?a" "query_pairs (?a @ CHR ''?'' # r) = filter ?ne (split_on ?amp r)" for r
      using nq by (simp_all add: query_pairs_def path_part_def takeWhile_append dropWhile_append)
    have "query_pairs p = filter ?ne (split_on ?amp old)" using parts(2) [of old] old(1) by metis
    moreover have "append_query p q = ?a @ CHR ''?'' # old @
        (if old \<noteq> [] \<and> \<not> ends_with old ''&'' then ''&'' else []) @ q"
      using append_query_plain [OF assms] old(1,3) by simp
    moreover have "filter ?ne (split_on ?amp (old @
        (if old \<noteq> [] \<and> \<not> ends_with old ''&'' then ''&'' else []) @ q)) =
        filter ?ne (split_on ?amp old) @ filter ?ne (split_on ?amp q)"
    proof (cases "ends_with old ''&''")
      case True
      then obtain o' where "old = o' @ ''&''" using ends_with_amp by blast
      then show ?thesis using True by (simp add: split_on_append)
    next
      case False
      then show ?thesis using split_on_append [of ?amp "CHR ''&''" old q] by simp
    qed
    ultimately show ?thesis using parts by simp
  qed
  then show "query_pairs (append_query p q) = query_pairs p @ filter ?ne (split_on ?amp q)"
    "path_part (append_query p q) = path_part p" by simp_all
qed

subsection \<open>Free text\<close>

lemma min_by_index_None [simp]: "min_by_index xs = None \<longleftrightarrow> xs = []"
  by (cases xs) (auto split: option.splits)

lemma find_uri_like_start_None:
  "find_uri_like_start s 0 = None \<longleftrightarrow> (\<forall>pattern \<in> set uri_like_patterns. find_str pattern s = None)"
  by (auto simp: find_uri_like_start_def map_filter_def filter_empty_conv uri_like_patterns_def)

lemma find_uri_like_start_infix:
  assumes "find_uri_like_start (to_ascii_lowercase (a @ core @ b)) 0 = None"
  shows "find_uri_like_start (to_ascii_lowercase core) 0 = None"
proof -
  have "find_str pattern (to_ascii_lowercase core) = None"
    if "find_str pattern (to_ascii_lowercase (a @ core @ b)) = None" for pattern
  proof -
    have "to_ascii_lowercase (a @ core @ b) =
        (to_ascii_lowercase a @ x) @ pattern @ (y @ to_ascii_lowercase b)"
      if "to_ascii_lowercase core = x @ pattern @ y" for x y
      using that by (simp add: to_ascii_lowercase_def)
    with that show ?thesis by (metis find_str_None_iff)
  qed
  with assms show ?thesis by (simp add: find_uri_like_start_None)
qed

lemma redact_token_unchanged:
  assumes "find_uri_like_start (to_ascii_lowercase (token @ ws)) 0 = None"
  shows "redact_uri_like_token_for_logs W token = token"
proof -
  let ?lead = "takeWhile (\<lambda>c. c \<in> set leading_punctuation) token"
  let ?rest = "dropWhile (\<lambda>c. c \<in> set leading_punctuation) token"
  obtain trail where "?rest = trim_end_matches (\<lambda>c. c \<in> set trailing_punctuation) ?rest @ trail"
    using trim_end_matches_append by blast
  then have "token @ ws = ?lead @ trim_end_matches (\<lambda>c. c \<in> set trailing_punctuation) ?rest @ trail @ ws"
    by (metis append_assoc takeWhile_dropWhile_id)
  with assms have "find_uri_like_start (to_ascii_lowercase
      (trim_end_matches (\<lambda>c. c \<in> set trailing_punctuation) ?rest)) 0 = None"
    by (metis find_uri_like_start_infix)
  then show ?thesis by (simp add: redact_uri_like_token_for_logs_def Let_def)
qed

subsection \<open>Properties\<close>

text \<open>
  C39: The redacted form of a URI that is not normalised has no query and no fragment, and of a
  URI with credentials in its authority it keeps exactly the scheme, the host with its port and
  the path: the user information and everything from the query on is gone.
\<close>

theorem redaction_removes_credentials:
  assumes "CHR '':'' \<notin> set scheme" "CHR ''/'' \<notin> set user" "CHR ''/'' \<notin> set host"
    and "CHR ''@'' \<notin> set host" "host \<noteq> []" "path = [] \<or> hd path = CHR ''/''"
    and "tail = [] \<or> hd tail \<in> {CHR ''?'', CHR ''#''}"
    and "\<forall>c \<in> set (scheme @ user @ host @ path). c \<noteq> CHR ''?'' \<and> c \<noteq> CHR ''#''"
  shows "redact_uri_without_url_normalization
      (scheme @ ''://'' @ user @ ''@'' @ host @ path @ tail) = scheme @ ''://'' @ host @ path \<and>
    CHR ''?'' \<notin> set (redact_uri_without_url_normalization text) \<and>
    CHR ''#'' \<notin> set (redact_uri_without_url_normalization text)"
proof -
  let ?uri = "scheme @ ''://'' @ user @ ''@'' @ host @ path"
  have all: "\<forall>c \<in> set ?uri. c \<noteq> CHR ''?'' \<and> c \<noteq> CHR ''#''" using assms(8) by auto
  have "strip_query_and_fragment (?uri @ tail) = ?uri"
  proof -
    have "takeWhile (\<lambda>c. c \<noteq> CHR ''?'' \<and> c \<noteq> CHR ''#'') (?uri @ tail) =
        ?uri @ takeWhile (\<lambda>c. c \<noteq> CHR ''?'' \<and> c \<noteq> CHR ''#'') tail"
      using all by (intro takeWhile_append2) blast
    also have "takeWhile (\<lambda>c. c \<noteq> CHR ''?'' \<and> c \<noteq> CHR ''#'') tail = []"
      using assms(7) by (cases tail) auto
    finally show ?thesis by (simp add: strip_query_and_fragment_eq)
  qed
  moreover have "redact_userinfo_in_authority ?uri = scheme @ ''://'' @ host @ path"
    using find_str_scheme [OF assms(1), of "user @ ''@'' @ host @ path"]
      redact_with_prefix_userinfo [OF assms(2-6), of "scheme @ ''://''"]
    by (simp add: redact_userinfo_in_authority_def)
  moreover have "redact_non_authority_credentials (scheme @ ''://'' @ host @ path) =
      scheme @ ''://'' @ host @ path"
  proof -
    have "takeWhile (\<lambda>c. c \<noteq> CHR '':'') (scheme @ r) = scheme @ takeWhile (\<lambda>c. c \<noteq> CHR '':'') r"
      "dropWhile (\<lambda>c. c \<noteq> CHR '':'') (scheme @ r) = dropWhile (\<lambda>c. c \<noteq> CHR '':'') r" for r
      using assms(1) by (auto intro!: takeWhile_append2 dropWhile_append2)
    then show ?thesis
      by (simp add: redact_non_authority_credentials_def split_once_def starts_with_def)
  qed
  moreover have "CHR ''?'' \<notin> set (strip_query_and_fragment text)"
    "CHR ''#'' \<notin> set (strip_query_and_fragment text)"
    by (auto simp: strip_query_and_fragment_eq dest: set_takeWhileD)
  then have "CHR ''?'' \<notin> set (redact_uri_without_url_normalization text)"
    "CHR ''#'' \<notin> set (redact_uri_without_url_normalization text)"
    using redact_userinfo_chars [of "strip_query_and_fragment text"]
      redact_non_authority_chars [of "redact_userinfo_in_authority (strip_query_and_fragment text)"]
    unfolding redact_uri_without_url_normalization_def by auto
  ultimately show ?thesis by (simp add: redact_uri_without_url_normalization_def)
qed

theorem redaction_removes_credentials_witness:
  "redact_uri_without_url_normalization ''https://user:pw@host:1/p?token=x'' = ''https://host:1/p''"
  using redaction_removes_credentials [of "''https''" "''user:pw''" "''host:1''" "''/p''" "''?token=x''"]
  by simp

text \<open>
  Appending a query keeps the path, the fragment and every existing query pair in order,
  and adds the pairs of the new query after them, whatever separator the old query ended with.
\<close>

theorem append_query_preserves_pairs:
  assumes "CHR ''#'' \<notin> set p" "fragment = [] \<or> hd fragment = CHR ''#''" "q \<noteq> []"
  shows "\<exists>r. append_query (p @ fragment) q = r @ fragment \<and> path_part r = path_part p \<and>
    query_pairs r = query_pairs p @ filter (\<lambda>t. t \<noteq> []) (split_on (\<lambda>c. c = CHR ''&'') q)"
  using append_query_fragment [OF assms] append_query_pairs [OF assms(1,3)] by auto

theorem append_query_preserves_pairs_witness:
  "append_query ''/a?x=1&#f'' ''y=2'' = ''/a?x=1&y=2#f'' \<and>
   (\<exists>r. append_query (''/a?x=1&'' @ ''#f'') ''y=2'' = r @ ''#f'' \<and>
     query_pairs r = query_pairs ''/a?x=1&'' @ [''y=2''])"
  using append_query_preserves_pairs [of "''/a?x=1&''" "''#f''" "''y=2''"]
  by (auto simp: append_query_def search_defs)

text \<open>
  A request URI that resolves carries no user information and is what its text parses to;
  and its text is either the given absolute \<open>http\<close> or \<open>https\<close> URI itself or the base URL
  joined with the given path, so that no other scheme is ever requested through an absolute path.
\<close>

theorem resolve_uri_sound:
  assumes "resolve_uri U W base_url path = Ok (uri_text, uri)"
  shows "\<not> uri_has_userinfo U uri \<and> uri_parse U uri_text = Some uri \<and>
    (uri_text = path \<and> is_valid_absolute_http_uri_text W path \<or>
     uri_text = join_base_path base_url path \<and>
       (\<forall>u. uri_parse U path = Some u \<longrightarrow> uri_host U u = None \<and> uri_scheme_str U u = None))"
  using assms
  by (auto simp: resolve_uri_def Let_def split: option.splits if_splits)

theorem resolve_uri_sound_witness:
  "resolve_uri triple_uris no_urls ''http://h/'' ''/v1'' =
     (Ok (''http://h/v1'', (Some ''http'', Some ''h'', ''/v1'')) :: (string \<times> triple_uri, unit error) result) \<and>
   \<not> uri_has_userinfo triple_uris (Some ''http'', Some ''h'', ''/v1'')"
proof -
  have eval: "resolve_uri triple_uris no_urls ''http://h/'' ''/v1'' =
     (Ok (''http://h/v1'', (Some ''http'', Some ''h'', ''/v1'')) :: (string \<times> triple_uri, unit error) result)"
    by (simp add: resolve_uri_def triple_uris_def join_base_path_def uri_has_userinfo_def
        strip_prefix_def starts_with_def trim_end_matches_def Let_def)
  from resolve_uri_sound [OF eval] eval show ?thesis by simp
qed

text \<open>
  Redaction of free text changes nothing but URI-like tokens: a text none of whose
  white-space separated tokens contains one of the URI patterns is returned as it is.
\<close>

theorem text_redaction_is_selective:
  assumes "\<forall>token \<in> set (split_inclusive is_ascii_whitespace text).
    find_uri_like_start (to_ascii_lowercase token) 0 = None"
  shows "redact_uri_like_text_for_logs W text = text"
proof -
  have "redact_uri_like_token_for_logs W (trim_end_matches is_ascii_whitespace token) @
      drop (length (trim_end_matches is_ascii_whitespace token)) token = token"
    if "token \<in> set (split_inclusive is_ascii_whitespace text)" for token
  proof -
    obtain ws where ws: "token = trim_end_matches is_ascii_whitespace token @ ws"
      using trim_end_matches_append by blast
    then have "redact_uri_like_token_for_logs W (trim_end_matches is_ascii_whitespace token) =
        trim_end_matches is_ascii_whitespace token"
      using assms that redact_token_unchanged [of "trim_end_matches is_ascii_whitespace token" ws W] by simp
    with ws show ?thesis by (metis append_eq_conv_conj)
  qed
  then have "map (\<lambda>token. let body = trim_end_matches is_ascii_whitespace token
       in redact_uri_like_token_for_logs W body @ drop (length body) token)
       (split_inclusive is_ascii_whitespace text) = split_inclusive is_ascii_whitespace text"
    by (intro map_idI) (simp add: Let_def)
  then show ?thesis by (simp add: redact_uri_like_text_for_logs_def)
qed

theorem text_redaction_is_selective_witness:
  "redact_uri_like_text_for_logs no_urls ''plain text'' = ''plain text''"
proof (rule text_redaction_is_selective)
  have tokens: "set (split_inclusive is_ascii_whitespace ''plain text'') = {''plain '', ''text''}"
    by (simp add: is_ascii_whitespace_def)
  show "\<forall>token \<in> set (split_inclusive is_ascii_whitespace ''plain text'').
      find_uri_like_start (to_ascii_lowercase token) 0 = None"
    unfolding tokens find_uri_like_start_None
    by (simp add: uri_like_patterns_def to_ascii_lowercase_def ascii_lower_def is_ascii_upper_def)
qed

end
