(* ===== verification/Reqx_RateLimit.thy ===== *)
theory Reqx_RateLimit
  imports Reqx_BTreeMap Reqx_Timing Reqx_Uri
begin

text \<open>
  The rate limiter (\<open>src/src/rate_limit.rs\<close>): a token bucket for the whole client, one for each
  host, and the throttling hints of servers. The tokens are binary64 values. Each operation
  holds the locks of the buckets it touches, so it is a function on the state and the clock
  reading \<open>now\<close>, which is taken before the locks: successive readings need not be ordered. The
  compare-and-exchange loop of the cleanup runs under the lock of the per-host table, where it
  always succeeds at once.
\<close>

subsection \<open>The scope of a server hint\<close>

datatype server_throttle_scope = Scope_Auto | Scope_Host | Scope_Global | Scope_Both

definition resolve_auto_server_throttle_scope ::
    "server_throttle_scope option \<Rightarrow> bool \<Rightarrow> bool \<Rightarrow> bool \<Rightarrow> server_throttle_scope" where
  "resolve_auto_server_throttle_scope hint has_host has_global has_per_host =
     (let host_available = (has_host \<and> has_per_host)
      in case hint of
           Some Scope_Both \<Rightarrow>
             (case (has_global, host_available) of
                (True, True) \<Rightarrow> Scope_Both
              | (True, False) \<Rightarrow> Scope_Global
              | (False, True) \<Rightarrow> Scope_Host
              | (False, False) \<Rightarrow> Scope_Both)
         | Some Scope_Global \<Rightarrow>
             if has_global then Scope_Global else if host_available then Scope_Host else Scope_Global
         | Some Scope_Host \<Rightarrow>
             if host_available then Scope_Host else if has_global then Scope_Global else Scope_Host
         | _ \<Rightarrow>
             if host_available then Scope_Host else if has_global then Scope_Global else Scope_Host)"

definition resolve_server_throttle_scope ::
    "server_throttle_scope \<Rightarrow> server_throttle_scope option \<Rightarrow> bool \<Rightarrow> bool \<Rightarrow> bool \<Rightarrow>
     server_throttle_scope" where
  "resolve_server_throttle_scope configured hint has_host has_global has_per_host =
     (case configured of
        Scope_Auto \<Rightarrow> resolve_auto_server_throttle_scope hint has_host has_global has_per_host
      | other \<Rightarrow> other)"

definition apply_host :: "server_throttle_scope \<Rightarrow> bool" where
  "apply_host s = (s = Scope_Host \<or> s = Scope_Both)"

definition apply_global :: "server_throttle_scope \<Rightarrow> bool" where
  "apply_global s = (s = Scope_Global \<or> s = Scope_Both)"

definition contains_scope_token :: "string \<Rightarrow> string list \<Rightarrow> bool" where
  "contains_scope_token text tokens =
     list_ex (\<lambda>token. token \<in> set tokens) (split_on (\<lambda>c. \<not> is_ascii_alphanumeric c) text)"

definition server_throttle_scope_from_header_value :: "string \<Rightarrow> server_throttle_scope option" where
  "server_throttle_scope_from_header_value text =
     (let normalized = to_ascii_lowercase (trim text)
      in if normalized = [] then None
         else let has_both = contains_scope_token normalized [''both'', ''all''];
                  has_global = contains_scope_token normalized [''global'', ''shared''];
                  has_host = contains_scope_token normalized
                    [''host'', ''resource'', ''bucket'', ''user'', ''local'']
              in if has_both \<or> has_global \<and> has_host then Some Scope_Both
                 else if has_global then Some Scope_Global
                 else if has_host then Some Scope_Host
                 else None)"

fun first_some :: "('a \<Rightarrow> 'b option) \<Rightarrow> 'a list \<Rightarrow> 'b option" where
  "first_some f [] = None"
| "first_some f (x # xs) = (case f x of Some y \<Rightarrow> Some y | None \<Rightarrow> first_some f xs)"

definition server_throttle_scope_from_headers ::
    "('h, 'v) header_ops \<Rightarrow> 'h \<Rightarrow> server_throttle_scope option" where
  "server_throttle_scope_from_headers H headers =
     first_some (\<lambda>header_name.
       first_some (\<lambda>v. case hv_to_str H v of
           None \<Rightarrow> None | Some text \<Rightarrow> server_throttle_scope_from_header_value text)
         (hm_get_all H headers header_name))
       [''x-ratelimit-scope'', ''ratelimit-scope'', ''x-rate-limit-scope'']"

subsection \<open>Policy\<close>

record rate_limit_policy =
  rlp_requests_per_second :: f64
  rlp_burst :: nat
  rlp_max_throttle_delay :: duration

definition rate_limit_policy_standard :: rate_limit_policy where
  "rate_limit_policy_standard =
     \<lparr> rlp_requests_per_second = Fin 50, rlp_burst = 50, rlp_max_throttle_delay = from_secs 30 \<rparr>"

definition rate_limit_policy_validate :: "rate_limit_policy \<Rightarrow> (unit, 'h error) result" where
  "rate_limit_policy_validate p =
     (if \<not> is_finite (rlp_requests_per_second p) \<or> f64_le (rlp_requests_per_second p) (Fin 0)
      then Err (InvalidRateLimitPolicy (rlp_requests_per_second p) (rlp_burst p)
        ''requests_per_second must be finite and > 0'')
      else if rlp_burst p = 0
      then Err (InvalidRateLimitPolicy (rlp_requests_per_second p) (rlp_burst p) ''burst must be >= 1'')
      else Ok ())"

subsection \<open>Token buckets\<close>

record token_bucket =
  tb_policy :: rate_limit_policy
  tb_tokens :: f64
  tb_last_refill_at :: instant
  tb_throttle_until :: "instant option"

definition token_bucket_new :: "rate_limit_policy \<Rightarrow> instant \<Rightarrow> token_bucket" where
  "token_bucket_new p now =
     \<lparr> tb_policy = p, tb_tokens = f64_of_nat (rlp_burst p), tb_last_refill_at = now,
       tb_throttle_until = None \<rparr>"

definition token_bucket_refill :: "instant \<Rightarrow> token_bucket \<Rightarrow> token_bucket" where
  "token_bucket_refill now b =
     (if now \<le> tb_last_refill_at b then b
      else let elapsed_secs = as_secs_f64 (now - tb_last_refill_at b);
               replenished = f64_mul elapsed_secs (rlp_requests_per_second (tb_policy b));
               tokens = f64_min (f64_add (tb_tokens b) replenished)
                          (f64_of_nat (rlp_burst (tb_policy b)));
               throttle_until = (case tb_throttle_until b of
                   Some until_at \<Rightarrow> if now \<ge> until_at then None else Some until_at
                 | None \<Rightarrow> None)
           in b\<lparr> tb_tokens := tokens, tb_last_refill_at := now, tb_throttle_until := throttle_until \<rparr>)"

definition token_bucket_wait_duration :: "instant \<Rightarrow> token_bucket \<Rightarrow> duration \<times> token_bucket" where
  "token_bucket_wait_duration now b =
     (let b = token_bucket_refill now b
      in case tb_throttle_until b of
           Some until_at \<Rightarrow>
             if now < until_at then (saturating_duration_since until_at now, b)
             else if f64_le (Fin 1) (tb_tokens b) then (0, b)
             else (max (duration_from_secs_f64_saturating
                     (f64_div (f64_max (f64_sub (Fin 1) (tb_tokens b)) (Fin 0))
                       (rlp_requests_per_second (tb_policy b)))) 1, b)
         | None \<Rightarrow>
             if f64_le (Fin 1) (tb_tokens b) then (0, b)
             else (max (duration_from_secs_f64_saturating
                     (f64_div (f64_max (f64_sub (Fin 1) (tb_tokens b)) (Fin 0))
                       (rlp_requests_per_second (tb_policy b)))) 1, b))"

definition token_bucket_can_consume_now :: "instant \<Rightarrow> token_bucket \<Rightarrow> bool \<times> token_bucket" where
  "token_bucket_can_consume_now now b =
     (let b = token_bucket_refill now b
      in if is_some_and (\<lambda>until_at. now < until_at) (tb_throttle_until b) then (False, b)
         else (f64_le (Fin 1) (tb_tokens b), b))"

definition token_bucket_consume_ready_token :: "token_bucket \<Rightarrow> token_bucket" where
  "token_bucket_consume_ready_token b =
     b\<lparr> tb_tokens := f64_max (f64_sub (tb_tokens b) (Fin 1)) (Fin 0) \<rparr>"

definition token_bucket_is_idle :: "instant \<Rightarrow> token_bucket \<Rightarrow> bool" where
  "token_bucket_is_idle now b =
     (f64_le (f64_of_nat (rlp_burst (tb_policy b))) (tb_tokens b) \<and>
      is_none_or (\<lambda>until_at. now \<ge> until_at) (tb_throttle_until b))"

definition token_bucket_apply_throttle :: "instant \<Rightarrow> duration \<Rightarrow> token_bucket \<Rightarrow> token_bucket" where
  "token_bucket_apply_throttle now delay b =
     (let capped_delay = min delay (rlp_max_throttle_delay (tb_policy b))
      in if capped_delay = 0 then b
         else case checked_add now capped_delay of
           None \<Rightarrow> b
         | Some throttle_until \<Rightarrow>
             b\<lparr> tb_throttle_until := Some (case tb_throttle_until b of
                  Some existing \<Rightarrow> max existing throttle_until
                | None \<Rightarrow> throttle_until) \<rparr>)"

subsection \<open>The limiter\<close>

record per_host_rate_limit_entry =
  re_bucket :: token_bucket
  re_last_used_at :: instant

record rate_limiter =
  rl_global :: "token_bucket option"
  rl_per_host_policy :: "rate_limit_policy option"
  rl_per_host :: "(string, per_host_rate_limit_entry) btree"
  rl_cleanup_origin :: instant
  rl_last_cleanup_ms :: nat

definition per_host_rate_limit_entry_ttl :: duration where
  "per_host_rate_limit_entry_ttl = from_secs 300"

definition per_host_rate_limit_max_entries :: nat where
  "per_host_rate_limit_max_entries = 1024"

definition per_host_rate_limit_cleanup_interval :: duration where
  "per_host_rate_limit_cleanup_interval = from_secs 5"

definition rate_limiter_new ::
    "rate_limit_policy option \<Rightarrow> rate_limit_policy option \<Rightarrow> instant \<Rightarrow> rate_limiter option" where
  "rate_limiter_new global_policy per_host_policy now =
     (if global_policy = None \<and> per_host_policy = None then None
      else Some \<lparr> rl_global = map_option (\<lambda>p. token_bucket_new p now) global_policy,
                  rl_per_host_policy = per_host_policy, rl_per_host = [],
                  rl_cleanup_origin = now, rl_last_cleanup_ms = 0 \<rparr>)"

definition cleanup_stale_per_host_rate_limits ::
    "instant \<Rightarrow> (string, per_host_rate_limit_entry) btree \<Rightarrow> (string, per_host_rate_limit_entry) btree" where
  "cleanup_stale_per_host_rate_limits now entries =
     (let retained = bt_retain (\<lambda>e. e\<lparr> re_bucket := token_bucket_refill now (re_bucket e) \<rparr>)
            (\<lambda>e. \<not> token_bucket_is_idle now (re_bucket e) \<or>
                 saturating_duration_since now (re_last_used_at e) \<le> per_host_rate_limit_entry_ttl)
            entries
      in evict_over_capacity (\<lambda>e. token_bucket_is_idle now (re_bucket e)) re_last_used_at
           per_host_rate_limit_max_entries retained)"

definition maybe_cleanup_stale_per_host_rate_limits :: "instant \<Rightarrow> rate_limiter \<Rightarrow> rate_limiter" where
  "maybe_cleanup_stale_per_host_rate_limits now r =
     (let now_ms = min (as_millis (saturating_duration_since now (rl_cleanup_origin r))) u64_max
      in if length (rl_per_host r) > per_host_rate_limit_max_entries
         then r\<lparr> rl_per_host := cleanup_stale_per_host_rate_limits now (rl_per_host r),
                 rl_last_cleanup_ms := now_ms \<rparr>
         else let cleanup_interval_ms = min (as_millis per_host_rate_limit_cleanup_interval) u64_max
              in if now_ms - rl_last_cleanup_ms r < cleanup_interval_ms then r
                 else r\<lparr> rl_per_host := cleanup_stale_per_host_rate_limits now (rl_per_host r),
                         rl_last_cleanup_ms := now_ms \<rparr>)"

text \<open>The entry of a host, created when it is missing, with its time of use updated.\<close>

definition touch_host_entry ::
    "rate_limit_policy \<Rightarrow> instant \<Rightarrow> string \<Rightarrow> rate_limiter \<Rightarrow> rate_limiter" where
  "touch_host_entry p now host r =
     r\<lparr> rl_per_host := bt_upsert host \<lparr> re_bucket = token_bucket_new p now, re_last_used_at = now \<rparr>
          (\<lambda>e. e\<lparr> re_last_used_at := now \<rparr>) (rl_per_host r) \<rparr>"

definition update_host_bucket :: "string \<Rightarrow> (token_bucket \<Rightarrow> token_bucket) \<Rightarrow> rate_limiter \<Rightarrow> rate_limiter" where
  "update_host_bucket host f r =
     (case bt_get (rl_per_host r) host of
        None \<Rightarrow> r
      | Some e \<Rightarrow> r\<lparr> rl_per_host := bt_insert host (e\<lparr> re_bucket := f (re_bucket e) \<rparr>) (rl_per_host r) \<rparr>)"

definition host_bucket :: "string option \<Rightarrow> rate_limiter \<Rightarrow> token_bucket option" where
  "host_bucket key r =
     (case key of None \<Rightarrow> None | Some host \<Rightarrow> map_option re_bucket (bt_get (rl_per_host r) host))"

definition update_buckets ::
    "(token_bucket \<Rightarrow> token_bucket) \<Rightarrow> string option \<Rightarrow> rate_limiter \<Rightarrow> rate_limiter" where
  "update_buckets f key r =
     (let r = r\<lparr> rl_global := map_option f (rl_global r) \<rparr>
      in case key of None \<Rightarrow> r | Some host \<Rightarrow> update_host_bucket host f r)"

text \<open>The buckets an acquisition works on: the cleanup, then the bucket of the host.\<close>

definition select_buckets :: "instant \<Rightarrow> string option \<Rightarrow> rate_limiter \<Rightarrow> string option \<times> rate_limiter" where
  "select_buckets now host r =
     (case rl_per_host_policy r of
        None \<Rightarrow> (None, r)
      | Some p \<Rightarrow>
          (let r = maybe_cleanup_stale_per_host_rate_limits now r
           in case (case host of None \<Rightarrow> None | Some h \<Rightarrow> normalize_host_key h) of
                None \<Rightarrow> (None, r)
              | Some key \<Rightarrow> (Some key, touch_host_entry p now key r)))"

definition rate_limiter_acquire_delay ::
    "instant \<Rightarrow> string option \<Rightarrow> rate_limiter \<Rightarrow> duration \<times> rate_limiter" where
  "rate_limiter_acquire_delay now host r =
     (let (key, r) = select_buckets now host r;
          global_ready = is_none_or (\<lambda>b. fst (token_bucket_can_consume_now now b)) (rl_global r);
          host_ready = is_none_or (\<lambda>b. fst (token_bucket_can_consume_now now b)) (host_bucket key r);
          r = update_buckets (\<lambda>b. snd (token_bucket_can_consume_now now b)) key r
      in if \<not> global_ready \<or> \<not> host_ready
         then (let global_wait = (case rl_global r of None \<Rightarrow> 0 | Some b \<Rightarrow> fst (token_bucket_wait_duration now b));
                   host_wait = (case host_bucket key r of None \<Rightarrow> 0 | Some b \<Rightarrow> fst (token_bucket_wait_duration now b))
               in (max global_wait host_wait,
                   update_buckets (\<lambda>b. snd (token_bucket_wait_duration now b)) key r))
         else (0, update_buckets token_bucket_consume_ready_token key r))"

definition rate_limiter_observe_server_throttle ::
    "instant \<Rightarrow> string option \<Rightarrow> duration \<Rightarrow> server_throttle_scope \<Rightarrow> server_throttle_scope option \<Rightarrow>
     rate_limiter \<Rightarrow> server_throttle_scope \<times> rate_limiter" where
  "rate_limiter_observe_server_throttle now host delay configured hint r =
     (let host_key = (case host of None \<Rightarrow> None | Some h \<Rightarrow> normalize_host_key h);
          scope = resolve_server_throttle_scope configured hint (host_key \<noteq> None)
                    (rl_global r \<noteq> None) (rl_per_host_policy r \<noteq> None)
      in if delay = 0 then (scope, r)
         else let r = (if apply_global scope
                       then r\<lparr> rl_global := map_option (token_bucket_apply_throttle now delay) (rl_global r) \<rparr>
                       else r)
              in (scope,
                  case (rl_per_host_policy r, host_key) of
                    (Some p, Some key) \<Rightarrow>
                      if apply_host scope
                      then update_host_bucket key (token_bucket_apply_throttle now delay)
                             (touch_host_entry p now key (maybe_cleanup_stale_per_host_rate_limits now r))
                      else r
                  | _ \<Rightarrow> r))"

subsection \<open>Buckets keep their tokens between zero and the burst\<close>

definition rate_limit_policy_wf :: "rate_limit_policy \<Rightarrow> bool" where
  "rate_limit_policy_wf p \<longleftrightarrow>
     is_ok (rate_limit_policy_validate p :: (unit, unit error) result) \<and> rlp_burst p \<le> 2 ^ 53"

definition token_bucket_wf :: "token_bucket \<Rightarrow> bool" where
  "token_bucket_wf b \<longleftrightarrow> rate_limit_policy_wf (tb_policy b) \<and>
     f64_le (Fin 0) (tb_tokens b) \<and> f64_le (tb_tokens b) (f64_of_nat (rlp_burst (tb_policy b)))"

lemma rate_limit_policy_wfD:
  assumes "rate_limit_policy_wf p"
  shows "\<exists>q. rlp_requests_per_second p = Fin q \<and> 0 < q" "0 < rlp_burst p" "rlp_burst p \<le> 2 ^ 53"
proof -
  show "0 < rlp_burst p" "rlp_burst p \<le> 2 ^ 53"
    using assms by (auto simp: rate_limit_policy_wf_def rate_limit_policy_validate_def split: if_splits)
  have "is_finite (rlp_requests_per_second p) \<and> \<not> f64_le (rlp_requests_per_second p) (Fin 0)"
    using assms by (auto simp: rate_limit_policy_wf_def rate_limit_policy_validate_def split: if_splits)
  then show "\<exists>q. rlp_requests_per_second p = Fin q \<and> 0 < q"
    by (cases "rlp_requests_per_second p") auto
qed

lemma burst_f64:
  "rate_limit_policy_wf p \<Longrightarrow> f64_of_nat (rlp_burst p) = Fin (of_nat (rlp_burst p))"
  by (rule f64_of_nat_small) (rule rate_limit_policy_wfD(3))

lemma f64_add_nonneg: "f64_le (Fin 0) a \<Longrightarrow> f64_le (Fin 0) b \<Longrightarrow> f64_le (Fin 0) (f64_add a b)"
  by (cases a; cases b) (auto intro: fl_nonneg)

lemma f64_add_ge: "n \<le> 2 ^ 53 \<Longrightarrow> f64_le (Fin 0) b \<Longrightarrow>
  f64_le (Fin (of_nat n)) (f64_add (Fin (of_nat n)) b)"
proof (cases b)
  case (Fin x)
  assume n: "n \<le> 2 ^ 53" and "f64_le (Fin 0) b"
  with Fin have "f64_le (fl (of_nat n)) (fl (of_nat n + x))" by (intro fl_mono) simp
  with Fin show ?thesis by (simp add: fl_nat [OF n])
qed simp_all

lemma f64_mul_nonneg: "f64_le (Fin 0) a \<Longrightarrow> 0 < q \<Longrightarrow> f64_le (Fin 0) (f64_mul a (Fin q))"
  by (cases a) (auto simp: inf_of_sign_def intro: fl_nonneg)

lemma as_secs_f64_nonneg: "f64_le (Fin 0) (as_secs_f64 d)"
proof -
  have "f64_of_nat nanos_per_sec = Fin (of_nat nanos_per_sec)"
    by (rule f64_of_nat_small) (simp add: nanos_per_sec_def)
  moreover have "f64_of_nat (d mod nanos_per_sec) = Fin (of_nat (d mod nanos_per_sec))"
    by (rule f64_of_nat_small)
      (rule order_trans [OF less_imp_le [OF mod_less_divisor]], simp_all add: nanos_per_sec_def)
  moreover have "f64_le (Fin 0) (f64_div (Fin (of_nat n)) (Fin (of_nat nanos_per_sec)))" for n
    by (simp add: nanos_per_sec_def fl_nonneg)
  ultimately show ?thesis
    unfolding as_secs_f64_def by (intro f64_add_nonneg f64_of_nat_nonneg) simp
qed

lemma replenished_nonneg:
  "rate_limit_policy_wf p \<Longrightarrow> f64_le (Fin 0) (f64_mul (as_secs_f64 d) (rlp_requests_per_second p))"
  using rate_limit_policy_wfD(1) [of p] f64_mul_nonneg [OF as_secs_f64_nonneg] by auto

lemma refill_policy [simp]: "tb_policy (token_bucket_refill now b) = tb_policy b"
  by (simp add: token_bucket_refill_def Let_def)

lemma token_bucket_wf_refill: "token_bucket_wf b \<Longrightarrow> token_bucket_wf (token_bucket_refill now b)"
proof -
  assume wf: "token_bucket_wf b"
  let ?r = "f64_mul (as_secs_f64 (now - tb_last_refill_at b)) (rlp_requests_per_second (tb_policy b))"
  have sum: "f64_le (Fin 0) (f64_add (tb_tokens b) ?r)"
    using wf by (intro f64_add_nonneg replenished_nonneg) (auto simp: token_bucket_wf_def)
  then have nn: "f64_add (tb_tokens b) ?r \<noteq> NaN" using f64_le_not_NaN by blast
  have "f64_le (f64_min (f64_add (tb_tokens b) ?r) (f64_of_nat (rlp_burst (tb_policy b))))
      (f64_of_nat (rlp_burst (tb_policy b)))"
    using f64_min_le [OF nn f64_of_nat_not_NaN] by blast
  moreover have "f64_le (Fin 0) (f64_min (f64_add (tb_tokens b) ?r) (f64_of_nat (rlp_burst (tb_policy b))))"
    using sum f64_of_nat_nonneg by (simp add: f64_min_def)
  ultimately show ?thesis using wf by (simp add: token_bucket_wf_def token_bucket_refill_def Let_def)
qed

lemma token_bucket_wf_new: "rate_limit_policy_wf p \<Longrightarrow> token_bucket_wf (token_bucket_new p now)"
  by (simp add: token_bucket_wf_def token_bucket_new_def f64_of_nat_nonneg)

lemma token_bucket_new_policy [simp]: "tb_policy (token_bucket_new p now) = p"
  by (simp add: token_bucket_new_def)

lemma token_bucket_wf_consume:
  assumes "token_bucket_wf b"
  shows "token_bucket_wf (token_bucket_consume_ready_token b)"
proof -
  obtain x where x: "tb_tokens b = Fin x" "0 \<le> x" "x \<le> of_nat (rlp_burst (tb_policy b))"
    using assms by (cases "tb_tokens b") (auto simp: token_bucket_wf_def burst_f64)
  have "f64_le (fl (x - 1)) (Fin (of_nat (rlp_burst (tb_policy b))))"
    using fl_mono [of "x - 1" "of_nat (rlp_burst (tb_policy b))"] x assms
    by (simp add: burst_f64 [unfolded f64_of_nat_def] token_bucket_wf_def)
  then have "f64_le (f64_max (fl (x - 1)) (Fin 0)) (Fin (of_nat (rlp_burst (tb_policy b))))"
    by (simp add: f64_max_def)
  moreover have "f64_le (Fin 0) (f64_max (fl (x - 1)) (Fin 0))"
    using f64_max_ge [of "fl (x - 1)" "Fin 0"] by simp
  ultimately show ?thesis
    using assms x by (simp add: token_bucket_wf_def token_bucket_consume_ready_token_def f64_sub_def burst_f64)
qed

lemma consume_policy [simp]: "tb_policy (token_bucket_consume_ready_token b) = tb_policy b"
  by (simp add: token_bucket_consume_ready_token_def)

lemma apply_throttle_frame:
  "tb_policy (token_bucket_apply_throttle now delay b) = tb_policy b"
  "tb_tokens (token_bucket_apply_throttle now delay b) = tb_tokens b"
  by (simp_all add: token_bucket_apply_throttle_def Let_def split: option.splits)

lemma token_bucket_wf_throttle:
  "token_bucket_wf b \<Longrightarrow> token_bucket_wf (token_bucket_apply_throttle now delay b)"
  by (simp add: token_bucket_wf_def apply_throttle_frame)

subsection \<open>Readiness and waiting agree\<close>

lemma refill_idem [simp]: "token_bucket_refill now (token_bucket_refill now b) = token_bucket_refill now b"
  by (simp add: token_bucket_refill_def Let_def)

lemma snd_can_consume [simp]: "snd (token_bucket_can_consume_now now b) = token_bucket_refill now b"
  by (simp add: token_bucket_can_consume_now_def Let_def)

lemma snd_wait [simp]: "snd (token_bucket_wait_duration now b) = token_bucket_refill now b"
  by (simp add: token_bucket_wait_duration_def Let_def split: option.splits)

lemma wait_refill [simp]:
  "fst (token_bucket_wait_duration now (token_bucket_refill now b)) = fst (token_bucket_wait_duration now b)"
  by (simp add: token_bucket_wait_duration_def)

lemma wait_zero_iff_ready:
  "fst (token_bucket_wait_duration now b) = 0 \<longleftrightarrow> fst (token_bucket_can_consume_now now b)"
  by (simp add: token_bucket_wait_duration_def token_bucket_can_consume_now_def Let_def
      saturating_duration_since_def less_max_iff_disj split: option.splits)

subsection \<open>The limiter invariant\<close>

definition rate_limiter_wf :: "rate_limiter \<Rightarrow> bool" where
  "rate_limiter_wf r \<longleftrightarrow>
     bt_wf (rl_per_host r) \<and>
     is_none_or token_bucket_wf (rl_global r) \<and>
     is_none_or rate_limit_policy_wf (rl_per_host_policy r) \<and>
     (\<forall>e \<in> snd ` set (rl_per_host r). token_bucket_wf (re_bucket e) \<and>
        rl_per_host_policy r = Some (tb_policy (re_bucket e)))"

lemma snd_set_bt_insert: "snd ` set (bt_insert k v m) \<subseteq> insert v (snd ` set m)"
  by (induction k v m rule: bt_insert.induct) auto

lemma rate_limiter_wf_insert:
  assumes "rate_limiter_wf r" "token_bucket_wf (re_bucket e)"
    and "rl_per_host_policy r = Some (tb_policy (re_bucket e))"
  shows "rate_limiter_wf (r\<lparr> rl_per_host := bt_insert k e (rl_per_host r) \<rparr>)"
proof -
  have "\<forall>e' \<in> insert e (snd ` set (rl_per_host r)). token_bucket_wf (re_bucket e') \<and>
      rl_per_host_policy r = Some (tb_policy (re_bucket e'))"
    using assms by (simp add: rate_limiter_wf_def)
  then have "\<forall>e' \<in> snd ` set (bt_insert k e (rl_per_host r)). token_bucket_wf (re_bucket e') \<and>
      rl_per_host_policy r = Some (tb_policy (re_bucket e'))"
    using snd_set_bt_insert [of k e "rl_per_host r"] by blast
  with assms(1) show ?thesis by (simp add: rate_limiter_wf_def)
qed

lemma bt_get_entry_wf:
  assumes "rate_limiter_wf r" "bt_get (rl_per_host r) k = Some e"
  shows "token_bucket_wf (re_bucket e) \<and> rl_per_host_policy r = Some (tb_policy (re_bucket e))"
proof -
  have "(k, e) \<in> set (rl_per_host r)"
    using assms by (simp add: rate_limiter_wf_def bt_get_Some_iff)
  then show ?thesis using assms(1) by (force simp: rate_limiter_wf_def)
qed

lemma cleanup_entries:
  assumes "e' \<in> snd ` set (cleanup_stale_per_host_rate_limits now m)"
  obtains e where "e \<in> snd ` set m" "e' = e\<lparr> re_bucket := token_bucket_refill now (re_bucket e) \<rparr>"
proof -
  have "e' \<in> snd ` set (bt_retain (\<lambda>e. e\<lparr> re_bucket := token_bucket_refill now (re_bucket e) \<rparr>)
      (\<lambda>e. \<not> token_bucket_is_idle now (re_bucket e) \<or>
        saturating_duration_since now (re_last_used_at e) \<le> per_host_rate_limit_entry_ttl) m)"
    using assms evict_subset unfolding cleanup_stale_per_host_rate_limits_def Let_def by fastforce
  then show ?thesis by (auto simp: bt_retain_def intro!: that)
qed

lemma bt_wf_cleanup: "bt_wf m \<Longrightarrow> bt_wf (cleanup_stale_per_host_rate_limits now m)"
  by (simp add: cleanup_stale_per_host_rate_limits_def evict_wf)

lemma rate_limiter_wf_cleanup:
  assumes "rate_limiter_wf r"
  shows "rate_limiter_wf (maybe_cleanup_stale_per_host_rate_limits now r)"
proof -
  have "token_bucket_wf (re_bucket e) \<and> rl_per_host_policy r = Some (tb_policy (re_bucket e))"
    if "e \<in> snd ` set (cleanup_stale_per_host_rate_limits now (rl_per_host r))" for e
    using cleanup_entries [OF that] assms
    by (metis (no_types, lifting) per_host_rate_limit_entry.select_convs(1)
        per_host_rate_limit_entry.surjective per_host_rate_limit_entry.update_convs(1)
        rate_limiter_wf_def refill_policy token_bucket_wf_refill)
  then show ?thesis
    using assms
    by (auto simp: maybe_cleanup_stale_per_host_rate_limits_def rate_limiter_wf_def Let_def
        intro: bt_wf_cleanup)
qed

lemma rate_limiter_wf_touch:
  assumes "rate_limiter_wf r" "rl_per_host_policy r = Some p"
  shows "rate_limiter_wf (touch_host_entry p now k r)"
proof -
  have "rate_limit_policy_wf p" using assms by (simp add: rate_limiter_wf_def)
  then show ?thesis
    unfolding touch_host_entry_def bt_upsert_def
    using assms bt_get_entry_wf [OF assms(1), of k]
    by (cases "bt_get (rl_per_host r) k")
      (auto intro!: rate_limiter_wf_insert token_bucket_wf_new)
qed

lemma rate_limiter_wf_update_host:
  assumes "rate_limiter_wf r"
    and "\<And>b. token_bucket_wf b \<Longrightarrow> token_bucket_wf (f b) \<and> tb_policy (f b) = tb_policy b"
  shows "rate_limiter_wf (update_host_bucket k f r)"
  using assms bt_get_entry_wf [OF assms(1), of k]
  by (auto simp: update_host_bucket_def intro!: rate_limiter_wf_insert split: option.splits)

lemma rate_limiter_wf_update:
  assumes "rate_limiter_wf r"
    and "\<And>b. token_bucket_wf b \<Longrightarrow> token_bucket_wf (f b) \<and> tb_policy (f b) = tb_policy b"
  shows "rate_limiter_wf (update_buckets f key r)"
proof -
  have "rate_limiter_wf (r\<lparr> rl_global := map_option f (rl_global r) \<rparr>)"
    using assms by (cases "rl_global r") (auto simp: rate_limiter_wf_def)
  with rate_limiter_wf_update_host [OF this assms(2)] show ?thesis
    by (auto simp: update_buckets_def Let_def split: option.splits)
qed

lemma maybe_cleanup_frame [simp]:
  "rl_global (maybe_cleanup_stale_per_host_rate_limits now r) = rl_global r"
  "rl_per_host_policy (maybe_cleanup_stale_per_host_rate_limits now r) = rl_per_host_policy r"
  by (simp_all add: maybe_cleanup_stale_per_host_rate_limits_def Let_def)

lemma rate_limiter_wf_select:
  "rate_limiter_wf r \<Longrightarrow> rate_limiter_wf (snd (select_buckets now host r))"
  by (auto simp: select_buckets_def Let_def intro!: rate_limiter_wf_touch rate_limiter_wf_cleanup
      split: option.splits)

lemma update_host_bucket_get:
  assumes "bt_wf (rl_per_host r)"
  shows "bt_get (rl_per_host (update_host_bucket k f r)) k' =
    (if k' = k then map_option (\<lambda>e. e\<lparr> re_bucket := f (re_bucket e) \<rparr>) (bt_get (rl_per_host r) k)
     else bt_get (rl_per_host r) k')"
  using bt_get_insert [OF assms] by (auto simp: update_host_bucket_def split: option.splits)

lemma update_buckets_proj:
  assumes "bt_wf (rl_per_host r)"
  shows "rl_global (update_buckets f key r) = map_option f (rl_global r)"
    "host_bucket key (update_buckets f key r) = map_option f (host_bucket key r)"
    "bt_wf (rl_per_host (update_buckets f key r))"
    "rl_per_host_policy (update_buckets f key r) = rl_per_host_policy r"
proof -
  show "rl_global (update_buckets f key r) = map_option f (rl_global r)"
    "rl_per_host_policy (update_buckets f key r) = rl_per_host_policy r"
    by (auto simp: update_buckets_def update_host_bucket_def Let_def split: option.splits)
  show "host_bucket key (update_buckets f key r) = map_option f (host_bucket key r)"
    using assms update_host_bucket_get [of "r\<lparr> rl_global := map_option f (rl_global r) \<rparr>"]
    by (auto simp: host_bucket_def update_buckets_def Let_def option.map_comp comp_def split: option.splits)
  show "bt_wf (rl_per_host (update_buckets f key r))"
    using assms by (auto simp: update_buckets_def update_host_bucket_def Let_def split: option.splits)
qed

definition buckets_ready :: "instant \<Rightarrow> string option \<Rightarrow> rate_limiter \<Rightarrow> bool" where
  "buckets_ready now key r \<longleftrightarrow>
     is_none_or (\<lambda>b. fst (token_bucket_can_consume_now now b)) (rl_global r) \<and>
     is_none_or (\<lambda>b. fst (token_bucket_can_consume_now now b)) (host_bucket key r)"

definition bucket_wait :: "instant \<Rightarrow> token_bucket option \<Rightarrow> duration" where
  "bucket_wait now b = (case b of None \<Rightarrow> 0 | Some b \<Rightarrow> fst (token_bucket_wait_duration now b))"

lemma bucket_wait_pos:
  "0 < bucket_wait now b \<longleftrightarrow> \<not> is_none_or (\<lambda>b. fst (token_bucket_can_consume_now now b)) b"
  by (cases b) (simp_all add: bucket_wait_def wait_zero_iff_ready [symmetric])

lemma bucket_wait_refill: "bucket_wait now (map_option (token_bucket_refill now) b) = bucket_wait now b"
  by (cases b) (simp_all add: bucket_wait_def)

lemma acquire_delay_eq:
  assumes "select_buckets now host r = (key, r1)" "bt_wf (rl_per_host r1)"
  shows "rate_limiter_acquire_delay now host r =
    (if buckets_ready now key r1
     then (0, update_buckets token_bucket_consume_ready_token key
                (update_buckets (token_bucket_refill now) key r1))
     else (max (bucket_wait now (rl_global r1)) (bucket_wait now (host_bucket key r1)),
           update_buckets (token_bucket_refill now) key
             (update_buckets (token_bucket_refill now) key r1)))"
  using assms
  by (auto simp: rate_limiter_acquire_delay_def buckets_ready_def Let_def update_buckets_proj
      bucket_wait_def comp_def split: option.splits)

subsection \<open>Sequences of operations\<close>

datatype rate_limit_op =
    OpAcquire instant "string option"
  | OpObserve instant "string option" duration server_throttle_scope "server_throttle_scope option"

fun rate_limit_op_time :: "rate_limit_op \<Rightarrow> instant" where
  "rate_limit_op_time (OpAcquire now _) = now"
| "rate_limit_op_time (OpObserve now _ _ _ _) = now"

fun rate_limit_op_step :: "rate_limit_op \<Rightarrow> rate_limiter \<Rightarrow> rate_limiter" where
  "rate_limit_op_step (OpAcquire now host) r = snd (rate_limiter_acquire_delay now host r)"
| "rate_limit_op_step (OpObserve now host delay configured hint) r =
     snd (rate_limiter_observe_server_throttle now host delay configured hint r)"

definition rate_limit_run :: "rate_limit_op list \<Rightarrow> rate_limiter \<Rightarrow> rate_limiter" where
  "rate_limit_run ops r = fold rate_limit_op_step ops r"

lemma select_buckets_frame:
  "select_buckets now host r = (key, r1) \<Longrightarrow>
     rl_global r1 = rl_global r \<and> rl_per_host_policy r1 = rl_per_host_policy r"
  by (auto simp: select_buckets_def touch_host_entry_def Let_def split: option.splits)

text \<open>
  An invariant of the limiter that every bucket operation keeps, and that creating and evicting
  entries keeps, is kept by both operations; \<open>f_ok\<close> is what a change to a bucket must satisfy.
\<close>

lemma acquire_preserves:
  assumes "rate_limiter_wf r"
    and touch: "P (snd (select_buckets now host r))"
    and upd: "\<And>f key r. rate_limiter_wf r \<Longrightarrow> P r \<Longrightarrow>
      f = token_bucket_refill now \<or> f = token_bucket_consume_ready_token \<Longrightarrow> P (update_buckets f key r)"
  shows "P (snd (rate_limiter_acquire_delay now host r))"
proof -
  obtain key r1 where sel: "select_buckets now host r = (key, r1)" by force
  then have wf1: "rate_limiter_wf r1" using rate_limiter_wf_select [OF assms(1), of now host] by simp
  have refill: "rate_limiter_wf (update_buckets (token_bucket_refill now) key r1)"
    using wf1 by (intro rate_limiter_wf_update) (simp_all add: token_bucket_wf_refill)
  have "P r1" using touch sel by simp
  then have "P (update_buckets (token_bucket_refill now) key r1)" using upd [OF wf1] by blast
  then show ?thesis
    using acquire_delay_eq [OF sel] upd [OF refill] wf1 by (auto simp: rate_limiter_wf_def)
qed

lemma rate_limiter_wf_acquire:
  "rate_limiter_wf r \<Longrightarrow> rate_limiter_wf (snd (rate_limiter_acquire_delay now host r))"
  by (rule acquire_preserves)
    (auto intro!: rate_limiter_wf_select rate_limiter_wf_update
      simp: token_bucket_wf_refill token_bucket_wf_consume)

lemma rate_limiter_wf_global_throttle:
  "rate_limiter_wf r \<Longrightarrow>
   rate_limiter_wf (r\<lparr> rl_global := map_option (token_bucket_apply_throttle now delay) (rl_global r) \<rparr>)"
  by (cases "rl_global r") (auto simp: rate_limiter_wf_def token_bucket_wf_throttle)

lemma rate_limiter_wf_observe:
  assumes "rate_limiter_wf r"
  shows "rate_limiter_wf (snd (rate_limiter_observe_server_throttle now host delay configured hint r))"
  using assms
  by (auto simp: rate_limiter_observe_server_throttle_def Let_def
      intro!: rate_limiter_wf_update_host rate_limiter_wf_touch rate_limiter_wf_cleanup
        rate_limiter_wf_global_throttle
      simp: token_bucket_wf_throttle apply_throttle_frame split: option.splits)

lemma rate_limiter_wf_step: "rate_limiter_wf r \<Longrightarrow> rate_limiter_wf (rate_limit_op_step op r)"
  by (cases op) (simp_all add: rate_limiter_wf_acquire rate_limiter_wf_observe)

lemma rate_limiter_wf_run: "rate_limiter_wf r \<Longrightarrow> rate_limiter_wf (rate_limit_run ops r)"
  unfolding rate_limit_run_def by (induction ops arbitrary: r) (simp_all add: rate_limiter_wf_step)

lemma rate_limiter_wf_new:
  assumes "rate_limiter_new g h now = Some r" "is_none_or rate_limit_policy_wf g"
    "is_none_or rate_limit_policy_wf h"
  shows "rate_limiter_wf r"
  using assms
  by (cases g) (auto simp: rate_limiter_new_def rate_limiter_wf_def token_bucket_wf_new split: if_splits)

subsection \<open>A throttled bucket stays throttled\<close>

definition throttled_until :: "instant \<Rightarrow> token_bucket \<Rightarrow> bool" where
  "throttled_until t b = is_some_and (\<lambda>u. t \<le> u) (tb_throttle_until b)"

lemma throttled_refill: "throttled_until t b \<Longrightarrow> now < t \<Longrightarrow> throttled_until t (token_bucket_refill now b)"
  by (cases "tb_throttle_until b") (auto simp: throttled_until_def token_bucket_refill_def Let_def)

lemma throttled_consume: "throttled_until t (token_bucket_consume_ready_token b) = throttled_until t b"
  by (simp add: throttled_until_def token_bucket_consume_ready_token_def)

lemma throttled_apply: "throttled_until t b \<Longrightarrow> throttled_until t (token_bucket_apply_throttle now delay b)"
  by (cases "tb_throttle_until b")
    (auto simp: throttled_until_def token_bucket_apply_throttle_def Let_def split: option.splits)

lemma throttled_not_idle: "throttled_until t b \<Longrightarrow> now < t \<Longrightarrow> \<not> token_bucket_is_idle now b"
  by (cases "tb_throttle_until b") (auto simp: throttled_until_def token_bucket_is_idle_def)

lemma throttled_not_ready:
  "throttled_until t b \<Longrightarrow> now < t \<Longrightarrow> \<not> fst (token_bucket_can_consume_now now b)"
  using throttled_refill [of t b now]
  by (cases "tb_throttle_until (token_bucket_refill now b)")
    (auto simp: throttled_until_def token_bucket_can_consume_now_def Let_def)

lemma apply_throttle_throttles:
  assumes "0 < delay" "0 < rlp_max_throttle_delay (tb_policy b)"
    and "t = now + min delay (rlp_max_throttle_delay (tb_policy b))" "t \<le> instant_max"
  shows "throttled_until t (token_bucket_apply_throttle now delay b)"
  using assms
  by (auto simp: throttled_until_def token_bucket_apply_throttle_def checked_add_def Let_def
      split: option.splits)

definition host_throttled :: "instant \<Rightarrow> string \<Rightarrow> rate_limiter \<Rightarrow> bool" where
  "host_throttled t k r = is_some_and (\<lambda>e. throttled_until t (re_bucket e)) (bt_get (rl_per_host r) k)"

lemma host_throttled_cleanup_entries:
  assumes "bt_wf m" "is_some_and (\<lambda>e. throttled_until t (re_bucket e)) (bt_get m k)" "now < t"
  shows "is_some_and (\<lambda>e. throttled_until t (re_bucket e))
    (bt_get (cleanup_stale_per_host_rate_limits now m) k)"
proof -
  obtain e where e: "bt_get m k = Some e" "throttled_until t (re_bucket e)"
    using assms(2) by (cases "bt_get m k") auto
  let ?e = "e\<lparr> re_bucket := token_bucket_refill now (re_bucket e) \<rparr>"
  have th: "throttled_until t (re_bucket ?e)" using throttled_refill [OF e(2) assms(3)] by simp
  then have busy: "\<not> token_bucket_is_idle now (re_bucket ?e)" using throttled_not_idle assms(3) by blast
  have "(k, e) \<in> set m" using assms(1) e(1) by (simp add: bt_get_Some_iff)
  then have "(k, ?e) \<in> set (bt_retain (\<lambda>e. e\<lparr> re_bucket := token_bucket_refill now (re_bucket e) \<rparr>)
      (\<lambda>e. \<not> token_bucket_is_idle now (re_bucket e) \<or>
        saturating_duration_since now (re_last_used_at e) \<le> per_host_rate_limit_entry_ttl) m)"
    using busy by (force simp: bt_retain_def)
  then have "(k, ?e) \<in> set (cleanup_stale_per_host_rate_limits now m)"
    unfolding cleanup_stale_per_host_rate_limits_def Let_def
    using busy assms(1) by (intro evict_keeps_busy) simp_all
  then have "bt_get (cleanup_stale_per_host_rate_limits now m) k = Some ?e"
    using bt_wf_cleanup [OF assms(1)] by (simp add: bt_get_Some_iff)
  with th show ?thesis by simp
qed

lemma host_throttled_cleanup:
  assumes "rate_limiter_wf r" "host_throttled t k r" "now < t"
  shows "host_throttled t k (maybe_cleanup_stale_per_host_rate_limits now r)"
  using assms host_throttled_cleanup_entries [of "rl_per_host r" t k now]
  by (simp add: maybe_cleanup_stale_per_host_rate_limits_def host_throttled_def rate_limiter_wf_def Let_def)

lemma host_throttled_touch:
  assumes "rate_limiter_wf r" "host_throttled t k r"
  shows "host_throttled t k (touch_host_entry p now k' r)"
proof -
  have "bt_wf (rl_per_host r)" using assms(1) by (simp add: rate_limiter_wf_def)
  then show ?thesis
    using assms(2)
    by (cases "bt_get (rl_per_host r) k")
      (auto simp: host_throttled_def touch_host_entry_def bt_get_upsert)
qed

lemma host_throttled_update:
  assumes "rate_limiter_wf r" "host_throttled t k r"
    and "\<And>b. throttled_until t b \<Longrightarrow> throttled_until t (f b)"
  shows "host_throttled t k (update_host_bucket k' f r)"
proof -
  have "bt_wf (rl_per_host r)" using assms(1) by (simp add: rate_limiter_wf_def)
  from update_host_bucket_get [OF this, of k' f k] assms(2,3) show ?thesis
    by (cases "bt_get (rl_per_host r) k") (auto simp: host_throttled_def)
qed

lemma host_throttled_update_buckets:
  assumes "rate_limiter_wf r" "host_throttled t k r"
    and "\<And>b. throttled_until t b \<Longrightarrow> throttled_until t (f b)"
    and "\<And>b. token_bucket_wf b \<Longrightarrow> token_bucket_wf (f b)"
  shows "host_throttled t k (update_buckets f key r)"
proof -
  let ?r = "r\<lparr> rl_global := map_option f (rl_global r) \<rparr>"
  have "rate_limiter_wf ?r" "host_throttled t k ?r"
    using assms by (cases "rl_global r"; simp add: rate_limiter_wf_def host_throttled_def)+
  from host_throttled_update [OF this assms(3)] \<open>host_throttled t k ?r\<close> show ?thesis
    by (cases key) (simp_all add: update_buckets_def)
qed

lemma host_throttled_step:
  assumes "rate_limiter_wf r" "host_throttled t k r" "rate_limit_op_time op < t"
  shows "host_throttled t k (rate_limit_op_step op r)"
proof (cases op)
  case (OpAcquire now host)
  have "host_throttled t k (snd (rate_limiter_acquire_delay now host r))"
  proof (rule acquire_preserves [OF assms(1)])
    show "host_throttled t k (snd (select_buckets now host r))"
      using assms OpAcquire
      by (auto simp: select_buckets_def Let_def
          intro!: host_throttled_touch host_throttled_cleanup rate_limiter_wf_cleanup split: option.splits)
  next
    fix f key r'
    assume "rate_limiter_wf r'" "host_throttled t k r'"
      "f = token_bucket_refill now \<or> f = token_bucket_consume_ready_token"
    then show "host_throttled t k (update_buckets f key r')"
      using assms(3) OpAcquire
      by (intro host_throttled_update_buckets)
        (auto simp: throttled_refill throttled_consume token_bucket_wf_refill token_bucket_wf_consume)
  qed
  with OpAcquire show ?thesis by simp
next
  case (OpObserve now host delay configured hint)
  let ?g = "r\<lparr> rl_global := map_option (token_bucket_apply_throttle now delay) (rl_global r) \<rparr>"
  have "rate_limiter_wf ?g" by (rule rate_limiter_wf_global_throttle [OF assms(1)])
  moreover have "host_throttled t k ?g" using assms(2) by (simp add: host_throttled_def)
  moreover have "now < t" using assms(3) OpObserve by simp
  ultimately show ?thesis
    using assms(1,2) OpObserve
    by (auto simp: rate_limiter_observe_server_throttle_def Let_def
        intro!: host_throttled_update host_throttled_touch host_throttled_cleanup
          rate_limiter_wf_touch rate_limiter_wf_cleanup
        simp: throttled_apply split: option.splits)
qed

lemma host_throttled_run:
  assumes "rate_limiter_wf r" "host_throttled t k r" "\<forall>op \<in> set ops. rate_limit_op_time op < t"
  shows "host_throttled t k (rate_limit_run ops r)"
  using assms unfolding rate_limit_run_def
  by (induction ops arbitrary: r) (simp_all add: host_throttled_step rate_limiter_wf_step)

lemma host_throttled_acquire:
  assumes "rate_limiter_wf r" "host_throttled t k r" "now < t"
    and "normalize_host_key host = Some k" "rl_per_host_policy r \<noteq> None"
  shows "0 < fst (rate_limiter_acquire_delay now (Some host) r)"
proof -
  obtain p where p: "rl_per_host_policy r = Some p" using assms(5) by auto
  let ?c = "maybe_cleanup_stale_per_host_rate_limits now r"
  have sel: "select_buckets now (Some host) r = (Some k, touch_host_entry p now k ?c)"
    by (simp add: select_buckets_def p assms(4))
  have "host_throttled t k (touch_host_entry p now k ?c)"
    using assms by (intro host_throttled_touch host_throttled_cleanup rate_limiter_wf_cleanup)
  then obtain b where b: "host_bucket (Some k) (touch_host_entry p now k ?c) = Some b" "throttled_until t b"
    by (cases "bt_get (rl_per_host (touch_host_entry p now k ?c)) k")
      (auto simp: host_throttled_def host_bucket_def)
  then have "\<not> fst (token_bucket_can_consume_now now b)" using throttled_not_ready assms(3) by blast
  with b have "\<not> buckets_ready now (Some k) (touch_host_entry p now k ?c)"
    "0 < bucket_wait now (host_bucket (Some k) (touch_host_entry p now k ?c))"
    by (simp_all add: buckets_ready_def bucket_wait_pos)
  moreover have "bt_wf (rl_per_host (touch_host_entry p now k ?c))"
    using rate_limiter_wf_select [OF assms(1), of now "Some host"] sel by (simp add: rate_limiter_wf_def)
  ultimately show ?thesis using acquire_delay_eq [OF sel] by simp
qed

lemma policy_frame [simp]:
  "rl_per_host_policy (update_host_bucket k f r) = rl_per_host_policy r"
  "rl_per_host_policy (update_buckets f key r) = rl_per_host_policy r"
  "rl_per_host_policy (touch_host_entry p now k r) = rl_per_host_policy r"
  "rl_per_host_policy (snd (select_buckets now host r)) = rl_per_host_policy r"
  by (auto simp: update_host_bucket_def update_buckets_def touch_host_entry_def select_buckets_def
      Let_def split: option.splits)

lemma step_policy [simp]: "rl_per_host_policy (rate_limit_op_step op r) = rl_per_host_policy r"
proof (cases op)
  case (OpAcquire now host)
  obtain key r1 where sel: "select_buckets now host r = (key, r1)" by force
  then have "rl_per_host_policy r1 = rl_per_host_policy r" using policy_frame(4) [of now host r] by simp
  with OpAcquire sel show ?thesis by (simp add: rate_limiter_acquire_delay_def Let_def)
next
  case (OpObserve now host delay configured hint)
  then show ?thesis
    by (auto simp: rate_limiter_observe_server_throttle_def Let_def split: option.splits)
qed

lemma run_policy [simp]: "rl_per_host_policy (rate_limit_run ops r) = rl_per_host_policy r"
  unfolding rate_limit_run_def by (induction ops arbitrary: r) simp_all

lemma observe_host_throttles:
  assumes "rate_limiter_wf r" "normalize_host_key host = Some k" "rl_per_host_policy r = Some p"
    and "0 < delay" "0 < rlp_max_throttle_delay p" "now + min delay (rlp_max_throttle_delay p) \<le> instant_max"
    and "apply_host (fst (rate_limiter_observe_server_throttle now (Some host) delay configured hint r))"
  shows "host_throttled (now + min delay (rlp_max_throttle_delay p)) k
    (snd (rate_limiter_observe_server_throttle now (Some host) delay configured hint r))"
proof -
  have *: "host_throttled (now + min delay (rlp_max_throttle_delay p)) k
      (update_host_bucket k (token_bucket_apply_throttle now delay)
        (touch_host_entry p now k (maybe_cleanup_stale_per_host_rate_limits now r')))"
    if "rate_limiter_wf r'" "rl_per_host_policy r' = Some p" for r'
  proof -
    let ?r = "touch_host_entry p now k (maybe_cleanup_stale_per_host_rate_limits now r')"
    have wf: "rate_limiter_wf ?r"
      using that by (intro rate_limiter_wf_touch rate_limiter_wf_cleanup) simp_all
    then have bt: "bt_wf (rl_per_host ?r)" by (simp add: rate_limiter_wf_def)
    have "bt_wf (rl_per_host (maybe_cleanup_stale_per_host_rate_limits now r'))"
      using rate_limiter_wf_cleanup [OF that(1)] by (simp add: rate_limiter_wf_def)
    then obtain e where e: "bt_get (rl_per_host ?r) k = Some e"
      by (simp add: touch_host_entry_def bt_get_upsert)
    then have "tb_policy (re_bucket e) = p" using bt_get_entry_wf [OF wf e] that(2) by simp
    with assms(4-6) have "throttled_until (now + min delay (rlp_max_throttle_delay p))
        (token_bucket_apply_throttle now delay (re_bucket e))"
      by (intro apply_throttle_throttles) simp_all
    with e update_host_bucket_get [OF bt, of k] show ?thesis by (simp add: host_throttled_def)
  qed
  from assms(4) have "delay \<noteq> 0" by simp
  then show ?thesis
    using assms(2,3,7) * [OF assms(1,3)] * [OF rate_limiter_wf_global_throttle [OF assms(1)]]
    by (auto simp: rate_limiter_observe_server_throttle_def Let_def)
qed

subsection \<open>A full bucket stays full\<close>

lemma refill_full:
  assumes "token_bucket_wf b" "tb_tokens b = f64_of_nat (rlp_burst (tb_policy b))"
  shows "tb_tokens (token_bucket_refill now b) = f64_of_nat (rlp_burst (tb_policy b))"
proof -
  have wf: "rate_limit_policy_wf (tb_policy b)" using assms(1) by (simp add: token_bucket_wf_def)
  let ?n = "rlp_burst (tb_policy b)"
  let ?x = "f64_mul (as_secs_f64 (now - tb_last_refill_at b)) (rlp_requests_per_second (tb_policy b))"
  have ge: "f64_le (Fin (of_nat ?n)) (f64_add (Fin (of_nat ?n)) ?x)"
    by (rule f64_add_ge [OF rate_limit_policy_wfD(3) [OF wf] replenished_nonneg [OF wf]])
  then have "f64_min (f64_add (Fin (of_nat ?n)) ?x) (Fin (of_nat ?n)) = Fin (of_nat ?n)"
    using f64_le_antisym f64_le_not_NaN unfolding f64_min_def by metis
  then show ?thesis
    using assms(2) by (simp add: token_bucket_refill_def Let_def burst_f64 [OF wf])
qed

lemma idle_is_full:
  assumes "token_bucket_wf b" "token_bucket_is_idle now b"
  shows "tb_tokens b = f64_of_nat (rlp_burst (tb_policy b))"
  using assms f64_le_antisym by (auto simp: token_bucket_wf_def token_bucket_is_idle_def)

lemma full_ready:
  assumes "token_bucket_wf b" "tb_tokens b = f64_of_nat (rlp_burst (tb_policy b))"
    and "is_none_or (\<lambda>u. u \<le> now) (tb_throttle_until b)"
  shows "fst (token_bucket_can_consume_now now b)"
proof -
  have wf: "rate_limit_policy_wf (tb_policy b)" using assms(1) by (simp add: token_bucket_wf_def)
  have "is_none_or (\<lambda>u. u \<le> now) (tb_throttle_until (token_bucket_refill now b))"
    using assms(3) by (cases "tb_throttle_until b") (auto simp: token_bucket_refill_def Let_def)
  then have "\<not> is_some_and (\<lambda>u. now < u) (tb_throttle_until (token_bucket_refill now b))"
    by (cases "tb_throttle_until (token_bucket_refill now b)") auto
  moreover have "f64_le (Fin 1) (tb_tokens (token_bucket_refill now b))"
    using refill_full [OF assms(1,2)] rate_limit_policy_wfD(2) [OF wf] by (simp add: burst_f64 [OF wf])
  ultimately show ?thesis by (simp add: token_bucket_can_consume_now_def Let_def)
qed

lemma cleanup_evicts_idle:
  assumes "bt_wf m" "bt_get m k = Some e" "bt_get (cleanup_stale_per_host_rate_limits now m) k = None"
  shows "token_bucket_is_idle now (token_bucket_refill now (re_bucket e))"
proof (rule ccontr)
  let ?e = "e\<lparr> re_bucket := token_bucket_refill now (re_bucket e) \<rparr>"
  assume busy: "\<not> token_bucket_is_idle now (token_bucket_refill now (re_bucket e))"
  have "(k, e) \<in> set m" using assms(1,2) by (simp add: bt_get_Some_iff)
  then have "(k, ?e) \<in> set (bt_retain (\<lambda>e. e\<lparr> re_bucket := token_bucket_refill now (re_bucket e) \<rparr>)
      (\<lambda>e. \<not> token_bucket_is_idle now (re_bucket e) \<or>
        saturating_duration_since now (re_last_used_at e) \<le> per_host_rate_limit_entry_ttl) m)"
    using busy by (force simp: bt_retain_def)
  then have "(k, ?e) \<in> set (cleanup_stale_per_host_rate_limits now m)"
    unfolding cleanup_stale_per_host_rate_limits_def Let_def
    using busy assms(1) by (intro evict_keeps_busy) simp_all
  then show False
    using assms(3) bt_get_Some_iff [OF bt_wf_cleanup [OF assms(1)], of now k ?e] by simp
qed

subsection \<open>Properties\<close>

definition unit_rate_policy :: rate_limit_policy where
  "unit_rate_policy = \<lparr> rlp_requests_per_second = Fin 1, rlp_burst = 1, rlp_max_throttle_delay = 10 \<rparr>"

lemma unit_rate_policy_burst [simp]: "rlp_burst unit_rate_policy = 1"
  by (simp add: unit_rate_policy_def)

lemma unit_rate_policy_wf [simp]: "rate_limit_policy_wf unit_rate_policy"
  by (simp add: unit_rate_policy_def rate_limit_policy_wf_def rate_limit_policy_validate_def)

definition unit_rate_limiter :: rate_limiter where
  "unit_rate_limiter = \<lparr> rl_global = Some (token_bucket_new unit_rate_policy 0),
     rl_per_host_policy = Some unit_rate_policy, rl_per_host = [], rl_cleanup_origin = 0,
     rl_last_cleanup_ms = 0 \<rparr>"

lemma unit_rate_limiter_wf [simp]: "rate_limiter_wf unit_rate_limiter"
  by (simp add: unit_rate_limiter_def rate_limiter_wf_def token_bucket_wf_new)



text \<open>
  Whatever operations run, at whatever clock readings, every bucket keeps its tokens between
  zero and its burst, and never holds a NaN.
\<close>

theorem rate_limiter_tokens_bounded:
  assumes "rate_limiter_new g h t = Some r" "is_none_or rate_limit_policy_wf g"
    "is_none_or rate_limit_policy_wf h"
    and "rl_global (rate_limit_run ops r) = Some b \<or> host_bucket (Some key) (rate_limit_run ops r) = Some b"
  shows "f64_le (Fin 0) (tb_tokens b) \<and> f64_le (tb_tokens b) (f64_of_nat (rlp_burst (tb_policy b)))"
proof -
  have wf: "rate_limiter_wf (rate_limit_run ops r)"
    by (rule rate_limiter_wf_run [OF rate_limiter_wf_new [OF assms(1-3)]])
  have "token_bucket_wf b"
  proof (cases "rl_global (rate_limit_run ops r) = Some b")
    case True
    with wf show ?thesis by (simp add: rate_limiter_wf_def)
  next
    case False
    with assms(4) obtain e where "bt_get (rl_per_host (rate_limit_run ops r)) key = Some e" "b = re_bucket e"
      by (auto simp: host_bucket_def)
    with bt_get_entry_wf [OF wf] show ?thesis by simp
  qed
  then show ?thesis by (simp add: token_bucket_wf_def)
qed

theorem rate_limiter_tokens_bounded_witness:
  "f64_le (Fin 0) (tb_tokens (token_bucket_new unit_rate_policy 0)) \<and>
   f64_le (tb_tokens (token_bucket_new unit_rate_policy 0)) (f64_of_nat 1)"
  using rate_limiter_tokens_bounded [of "Some unit_rate_policy" "Some unit_rate_policy" 0
      unit_rate_limiter "[]" "token_bucket_new unit_rate_policy 0" "[]"]
  by (simp add: rate_limiter_new_def rate_limit_run_def unit_rate_limiter_def)

text \<open>
  C32: A server hint is respected. When a response asks for a delay and the hint is applied to
  its host, no request to that host is admitted before the (capped) delay has passed, whatever
  other operations, cleanups and evictions happen in between.
\<close>

theorem rate_limiter_respects_server_throttle:
  assumes "rate_limiter_wf r" "normalize_host_key host = Some k" "rl_per_host_policy r = Some p"
    and "0 < delay" "0 < rlp_max_throttle_delay p"
    and "t = now + min delay (rlp_max_throttle_delay p)" "t \<le> instant_max"
    and "rate_limiter_observe_server_throttle now (Some host) delay configured hint r = (scope, r1)"
    and "apply_host scope"
    and "\<forall>op \<in> set ops. rate_limit_op_time op < t" "now' < t"
  shows "0 < fst (rate_limiter_acquire_delay now' (Some host) (rate_limit_run ops r1))"
proof -
  have wf1: "rate_limiter_wf r1"
    using rate_limiter_wf_observe [OF assms(1), of now "Some host" delay configured hint] assms(8) by simp
  have "host_throttled t k r1"
    using observe_host_throttles [OF assms(1-5), of now configured hint] assms(6-9) by simp
  moreover have "rl_per_host_policy r1 = Some p"
    using step_policy [of "OpObserve now (Some host) delay configured hint" r] assms(3,8) by simp
  ultimately show ?thesis
    using host_throttled_acquire [OF rate_limiter_wf_run [OF wf1] host_throttled_run [OF wf1]]
      assms(2,10,11) by simp
qed

theorem rate_limiter_respects_server_throttle_witness:
  "0 < fst (rate_limiter_acquire_delay 3 (Some ''h'')
     (snd (rate_limiter_observe_server_throttle 0 (Some ''h'') 5 Scope_Host None unit_rate_limiter)))"
proof -
  obtain scope r1 where o: "rate_limiter_observe_server_throttle 0 (Some ''h'') 5 Scope_Host None
      unit_rate_limiter = (scope, r1)" by force
  have key: "normalize_host_key ''h'' = Some ''h''"
    by (simp add: normalize_host_key_def trim_def trim_end_matches_def trim_start_matches_def
        to_ascii_lowercase_def ascii_defs)
  have scope: "apply_host scope"
    using o by (auto simp: rate_limiter_observe_server_throttle_def key resolve_server_throttle_scope_def
        apply_host_def Let_def)
  have "(5::nat) \<le> instant_max" by (simp add: instant_max_def max_values nanos_per_sec_def)
  then show ?thesis
    using rate_limiter_respects_server_throttle [OF unit_rate_limiter_wf key _ _ _ _ _ o scope,
        of unit_rate_policy 5 "[]" 3] o
    by (simp add: unit_rate_limiter_def unit_rate_policy_def rate_limit_run_def)
qed

text \<open>
  C38: Evicting the bucket of a host loses nothing. At the moment the cleanup drops an entry its
  bucket is full and unthrottled, so at any later time it behaves like the fresh bucket that the
  next request of that host creates: both are ready, with the same number of tokens.
\<close>

theorem eviction_preserves_limits:
  assumes "rate_limiter_wf r" "bt_get (rl_per_host r) k = Some e"
    and "bt_get (cleanup_stale_per_host_rate_limits now (rl_per_host r)) k = None" "now \<le> t"
  defines "old \<equiv> token_bucket_refill now (re_bucket e)"
    and "fresh \<equiv> token_bucket_new (tb_policy (re_bucket e)) now"
  shows "fst (token_bucket_can_consume_now t old) \<and> fst (token_bucket_can_consume_now t fresh) \<and>
    tb_tokens (token_bucket_refill t old) = tb_tokens (token_bucket_refill t fresh)"
proof -
  have "token_bucket_wf (re_bucket e)" using bt_get_entry_wf [OF assms(1,2)] by simp
  then have wf: "token_bucket_wf old" "rate_limit_policy_wf (tb_policy (re_bucket e))"
    unfolding old_def by (simp add: token_bucket_wf_refill, simp add: token_bucket_wf_def)
  have idle: "token_bucket_is_idle now old"
    using assms(1) cleanup_evicts_idle [OF _ assms(2,3)] by (simp add: old_def rate_limiter_wf_def)
  have full: "tb_tokens old = f64_of_nat (rlp_burst (tb_policy old))"
    by (rule idle_is_full [OF wf(1) idle])
  have until: "is_none_or (\<lambda>u. u \<le> t) (tb_throttle_until old)"
    using idle assms(4) by (cases "tb_throttle_until old") (auto simp: token_bucket_is_idle_def)
  have fresh: "token_bucket_wf fresh" "tb_tokens fresh = f64_of_nat (rlp_burst (tb_policy fresh))"
    "is_none_or (\<lambda>u. u \<le> t) (tb_throttle_until fresh)"
    using token_bucket_wf_new [OF wf(2)] by (simp_all add: fresh_def token_bucket_new_def)
  show ?thesis
    using full_ready [OF wf(1) full until] full_ready [OF fresh] refill_full [OF wf(1) full, of t]
      refill_full [OF fresh(1,2), of t]
    by (simp add: old_def fresh_def)
qed

theorem eviction_preserves_limits_witness:
  "let b = token_bucket_new unit_rate_policy 0; now = from_secs 301
   in fst (token_bucket_can_consume_now now (token_bucket_refill now b))"
proof -
  let ?b = "token_bucket_new unit_rate_policy 0" and ?now = "from_secs 301"
  let ?e = "\<lparr> re_bucket = ?b, re_last_used_at = 0 \<rparr>"
  let ?r = "unit_rate_limiter\<lparr> rl_per_host := [(''h'', ?e)] \<rparr>"
  have wf: "rate_limiter_wf ?r"
    by (simp add: unit_rate_limiter_def rate_limiter_wf_def token_bucket_wf_new bt_wf_def)
  have full: "tb_tokens (token_bucket_refill ?now ?b) = f64_of_nat (rlp_burst unit_rate_policy)"
    using refill_full [OF token_bucket_wf_new [OF unit_rate_policy_wf], of 0]
    by (simp add: token_bucket_new_def)
  have "tb_throttle_until (token_bucket_refill ?now ?b) = None"
    by (simp add: token_bucket_refill_def token_bucket_new_def Let_def)
  with full have "cleanup_stale_per_host_rate_limits ?now (rl_per_host ?r) = []"
    by (simp add: cleanup_stale_per_host_rate_limits_def bt_retain_def token_bucket_is_idle_def
        per_host_rate_limit_entry_ttl_def duration_defs evict_noop Let_def)
  then have "bt_get (cleanup_stale_per_host_rate_limits ?now (rl_per_host ?r)) ''h'' = None"
    by (simp add: bt_get_def)
  from eviction_preserves_limits [OF wf _ this, of ?e ?now] show ?thesis
    by (simp add: bt_get_def unit_rate_limiter_def)
qed

text \<open>
  With the automatic scope, a server hint always reaches a limiter that exists: if the
  client has a global limiter, or a per-host limiter and the request has a host, then the
  resolved scope applies to at least one available limiter and never only to a missing one.
\<close>

theorem auto_scope_reaches_available_limiter:
  assumes "has_global \<or> has_host \<and> has_per_host"
  shows "let scope = resolve_server_throttle_scope Scope_Auto hint has_host has_global has_per_host
    in apply_global scope \<and> has_global \<or> apply_host scope \<and> has_host \<and> has_per_host"
  using assms
  by (cases hint)
    (auto simp: resolve_server_throttle_scope_def resolve_auto_server_throttle_scope_def apply_global_def
      apply_host_def Let_def split: server_throttle_scope.splits bool.splits)

theorem auto_scope_reaches_available_limiter_witness:
  "apply_host (resolve_server_throttle_scope Scope_Auto (Some Scope_Global) True False True)"
  using auto_scope_reaches_available_limiter [of False True True "Some Scope_Global"] by simp

text \<open>
  A fresh bucket grants exactly its burst at one instant: after any number of granted
  requests below the burst the next is still granted, and once the burst is used up the next
  one has to wait for a positive time.
\<close>

theorem token_bucket_grants_exactly_burst:
  fixes now :: instant
  assumes "rate_limit_policy_wf p" "n \<le> rlp_burst p"
  defines "take_token \<equiv> \<lambda>b. token_bucket_consume_ready_token (snd (token_bucket_can_consume_now now b))"
  defines "b \<equiv> (take_token ^^ n) (token_bucket_new p now)"
  shows "(fst (token_bucket_can_consume_now now b) \<longleftrightarrow> n < rlp_burst p) \<and>
    (0 < fst (token_bucket_wait_duration now b) \<longleftrightarrow> n = rlp_burst p)"
proof -
  have "(take_token ^^ n) (token_bucket_new p now) =
      (token_bucket_new p now)\<lparr> tb_tokens := Fin (of_nat (rlp_burst p - n)) \<rparr>"
    using assms(2)
  proof (induction n)
    case 0
    then show ?case by (simp add: token_bucket_new_def burst_f64 [OF assms(1)])
  next
    case (Suc n)
    then obtain k where k: "rlp_burst p = Suc n + k" by (auto dest: le_Suc_ex)
    then have "k \<le> 2 ^ 53" using rate_limit_policy_wfD(3) [OF assms(1)] by simp
    then have "fl (real k) = Fin (real k)" by (rule fl_nat)
    with Suc k show ?case
      by (simp add: take_token_def token_bucket_refill_def token_bucket_new_def
          token_bucket_consume_ready_token_def f64_sub_def f64_max_def)
  qed
  then have b: "b = (token_bucket_new p now)\<lparr> tb_tokens := Fin (of_nat (rlp_burst p - n)) \<rparr>"
    by (simp add: b_def)
  have ready: "fst (token_bucket_can_consume_now now b) \<longleftrightarrow> n < rlp_burst p"
    using assms(2) unfolding b
    by (simp add: token_bucket_can_consume_now_def token_bucket_refill_def token_bucket_new_def Let_def)
      linarith
  then show ?thesis using wait_zero_iff_ready [of now b] assms(2) by auto
qed

theorem token_bucket_grants_exactly_burst_witness:
  "fst (token_bucket_can_consume_now 7 (token_bucket_new unit_rate_policy 7))"
  using token_bucket_grants_exactly_burst [OF unit_rate_policy_wf, of 0 7]
  by (simp add: unit_rate_policy_def)

end
