(* ===== verification/Reqx_Metrics.thy ===== *)
theory Reqx_Metrics
  imports Reqx_BTreeMap Reqx_Timing
begin

text \<open>
  Request accounting (\<open>src/src/core/metrics.rs\<close>) and the completion of response streams
  (\<open>src/src/core/execution/lifecycle.rs\<close>). The counters are atomics that saturate; a disabled
  collector is \<open>None\<close>. The telemetry spans of \<open>core/otel.rs\<close> are side effects outside the
  process and are left out. A \<open>PendingRequest\<close> and a \<open>StreamCompletion\<close> are handles: each
  consuming method is followed by the destructor, as in the source, and \<open>metrics_step\<close>
  interleaves the handles of any number of requests.
\<close>

subsection \<open>Counters\<close>

record client_metrics_inner =
  mx_requests_started :: nat
  mx_requests_succeeded :: nat
  mx_requests_failed :: nat
  mx_requests_canceled :: nat
  mx_retries :: nat
  mx_timeout_transport :: nat
  mx_timeout_response_body :: nat
  mx_deadline_exceeded :: nat
  mx_transport_errors :: nat
  mx_read_body_errors :: nat
  mx_write_body_errors :: nat
  mx_response_body_too_large :: nat
  mx_http_status_errors :: nat
  mx_in_flight :: nat
  mx_latency_total_ms :: nat
  mx_latency_samples :: nat
  mx_status_counts :: "(status, nat) btree"
  mx_error_code_counts :: "(error_code, nat) btree"
  mx_timeout_phase_counts :: "(timeout_phase, nat) btree"
  mx_transport_error_kind_counts :: "(transport_error_kind, nat) btree"
  mx_http_status_error_counts :: "(status, nat) btree"

definition client_metrics_inner_default :: client_metrics_inner where
  "client_metrics_inner_default = \<lparr>
     mx_requests_started = 0,
     mx_requests_succeeded = 0,
     mx_requests_failed = 0,
     mx_requests_canceled = 0,
     mx_retries = 0,
     mx_timeout_transport = 0,
     mx_timeout_response_body = 0,
     mx_deadline_exceeded = 0,
     mx_transport_errors = 0,
     mx_read_body_errors = 0,
     mx_write_body_errors = 0,
     mx_response_body_too_large = 0,
     mx_http_status_errors = 0,
     mx_in_flight = 0,
     mx_latency_total_ms = 0,
     mx_latency_samples = 0,
     mx_status_counts = [],
     mx_error_code_counts = [],
     mx_timeout_phase_counts = [],
     mx_transport_error_kind_counts = [],
     mx_http_status_error_counts = [] \<rparr>"

type_synonym client_metrics = "client_metrics_inner option"

definition client_metrics_with_options :: "bool \<Rightarrow> client_metrics" where
  "client_metrics_with_options metrics_enabled =
     (if metrics_enabled then Some client_metrics_inner_default else None)"

definition atomic_saturating_add :: "nat \<Rightarrow> nat \<Rightarrow> nat" where
  "atomic_saturating_add delta current = u64_add current delta"

definition atomic_saturating_sub :: "nat \<Rightarrow> nat \<Rightarrow> nat" where
  "atomic_saturating_sub delta current = current - delta"

definition atomic_saturating_increment :: "nat \<Rightarrow> nat" where
  "atomic_saturating_increment current = atomic_saturating_add 1 current"

definition add_count :: "'k::linorder \<Rightarrow> ('k, nat) btree \<Rightarrow> ('k, nat) btree" where
  "add_count k m = bt_upsert k 0 (\<lambda>count. u64_add count 1) m"

definition add_status_count :: "status \<Rightarrow> client_metrics \<Rightarrow> client_metrics" where
  "add_status_count s = map_option (mx_status_counts_update (add_count s))"

definition add_error_code_count :: "error_code \<Rightarrow> client_metrics \<Rightarrow> client_metrics" where
  "add_error_code_count c = map_option (mx_error_code_counts_update (add_count c))"

definition add_timeout_phase_count :: "timeout_phase \<Rightarrow> client_metrics \<Rightarrow> client_metrics" where
  "add_timeout_phase_count p = map_option (mx_timeout_phase_counts_update (add_count p))"

definition add_transport_error_kind_count ::
    "transport_error_kind \<Rightarrow> client_metrics \<Rightarrow> client_metrics" where
  "add_transport_error_kind_count k = map_option (mx_transport_error_kind_counts_update (add_count k))"

definition add_http_status_error_count :: "status \<Rightarrow> client_metrics \<Rightarrow> client_metrics" where
  "add_http_status_error_count s = map_option (mx_http_status_error_counts_update (add_count s))"

subsection \<open>Recording\<close>

definition record_request_started :: "client_metrics \<Rightarrow> client_metrics" where
  "record_request_started = map_option (mx_requests_started_update atomic_saturating_increment)"

text \<open>A guard holds the collector it has to decrement: it is whether there is one.\<close>

type_synonym in_flight_guard = bool

definition enter_in_flight :: "client_metrics \<Rightarrow> in_flight_guard \<times> client_metrics" where
  "enter_in_flight m =
     (m \<noteq> None, map_option (mx_in_flight_update atomic_saturating_increment) m)"

definition in_flight_guard_drop :: "in_flight_guard \<Rightarrow> client_metrics \<Rightarrow> client_metrics" where
  "in_flight_guard_drop g m =
     (if g then map_option (mx_in_flight_update (atomic_saturating_sub 1)) m else m)"

definition record_retry :: "client_metrics \<Rightarrow> client_metrics" where
  "record_retry = map_option (mx_retries_update atomic_saturating_increment)"

definition record_latency :: "duration \<Rightarrow> client_metrics \<Rightarrow> client_metrics" where
  "record_latency latency = map_option (\<lambda>inner.
     mx_latency_total_ms_update (atomic_saturating_add (min (as_millis latency) u64_max))
       (mx_latency_samples_update atomic_saturating_increment inner))"

definition record_error_category :: "'h error \<Rightarrow> client_metrics \<Rightarrow> client_metrics" where
  "record_error_category e m =
     (case e of
        Timeout phase _ _ _ \<Rightarrow>
          add_timeout_phase_count phase
            (case phase of
               Phase_Transport \<Rightarrow> map_option (mx_timeout_transport_update atomic_saturating_increment) m
             | Phase_ResponseBody \<Rightarrow>
                 map_option (mx_timeout_response_body_update atomic_saturating_increment) m)
      | DeadlineExceeded _ _ _ \<Rightarrow> map_option (mx_deadline_exceeded_update atomic_saturating_increment) m
      | Transport kind _ _ _ _ \<Rightarrow>
          add_transport_error_kind_count kind
            (map_option (mx_transport_errors_update atomic_saturating_increment) m)
      | ReadBody _ \<Rightarrow> map_option (mx_read_body_errors_update atomic_saturating_increment) m
      | WriteBody _ _ _ \<Rightarrow> map_option (mx_write_body_errors_update atomic_saturating_increment) m
      | ResponseBodyTooLarge _ _ _ _ \<Rightarrow>
          map_option (mx_response_body_too_large_update atomic_saturating_increment) m
      | HttpStatus s _ _ _ _ \<Rightarrow>
          add_http_status_error_count s (add_status_count s
            (map_option (mx_http_status_errors_update atomic_saturating_increment) m))
      | _ \<Rightarrow> m)"

definition record_request_completed_error ::
    "'h error \<Rightarrow> duration \<Rightarrow> client_metrics \<Rightarrow> client_metrics" where
  "record_request_completed_error e latency m =
     record_error_category e (add_error_code_count (error_code_of e)
       (record_latency latency (map_option (mx_requests_failed_update atomic_saturating_increment) m)))"

definition record_request_completed_canceled :: "duration \<Rightarrow> client_metrics \<Rightarrow> client_metrics" where
  "record_request_completed_canceled latency m =
     record_latency latency (map_option (mx_requests_canceled_update atomic_saturating_increment) m)"

definition record_request_completed_success ::
    "status \<Rightarrow> duration \<Rightarrow> client_metrics \<Rightarrow> client_metrics" where
  "record_request_completed_success s latency m =
     record_latency latency (add_status_count s
       (map_option (mx_requests_succeeded_update atomic_saturating_increment) m))"

subsection \<open>Pending requests and streams\<close>

record pending_request =
  pr_in_flight :: in_flight_guard
  pr_completed :: bool

record stream_completion =
  sc_status :: status
  sc_in_flight_guard :: "in_flight_guard option"

definition metrics_pending_request :: "client_metrics \<Rightarrow> pending_request \<times> client_metrics" where
  "metrics_pending_request m =
     (let (guard, m) = enter_in_flight (record_request_started m)
      in (\<lparr> pr_in_flight = guard, pr_completed = False \<rparr>, m))"

definition pending_request_drop :: "duration \<Rightarrow> pending_request \<Rightarrow> client_metrics \<Rightarrow> client_metrics" where
  "pending_request_drop elapsed p m =
     in_flight_guard_drop (pr_in_flight p)
       (if \<not> pr_completed p then record_request_completed_canceled elapsed m else m)"

definition pending_complete_success ::
    "status \<Rightarrow> duration \<Rightarrow> pending_request \<Rightarrow> client_metrics \<Rightarrow> client_metrics" where
  "pending_complete_success s elapsed p m =
     pending_request_drop elapsed (p\<lparr> pr_completed := True \<rparr>)
       (record_request_completed_success s elapsed m)"

definition pending_complete_error ::
    "'h error \<Rightarrow> duration \<Rightarrow> pending_request \<Rightarrow> client_metrics \<Rightarrow> client_metrics" where
  "pending_complete_error e elapsed p m =
     pending_request_drop elapsed (p\<lparr> pr_completed := True \<rparr>)
       (record_request_completed_error e elapsed m)"

definition pending_into_stream ::
    "status \<Rightarrow> duration \<Rightarrow> pending_request \<Rightarrow> client_metrics \<Rightarrow> stream_completion \<times> client_metrics" where
  "pending_into_stream s elapsed p m =
     (\<lparr> sc_status = s, sc_in_flight_guard = Some (pr_in_flight p) \<rparr>,
      pending_request_drop elapsed (p\<lparr> pr_completed := True, pr_in_flight := False \<rparr>) m)"

definition stream_complete_success ::
    "duration \<Rightarrow> stream_completion \<Rightarrow> client_metrics \<Rightarrow> stream_completion \<times> client_metrics" where
  "stream_complete_success elapsed s m =
     (case sc_in_flight_guard s of
        None \<Rightarrow> (s, m)
      | Some guard \<Rightarrow>
          (s\<lparr> sc_in_flight_guard := None \<rparr>,
           in_flight_guard_drop guard (record_request_completed_success (sc_status s) elapsed m)))"

definition stream_complete_error ::
    "'h error \<Rightarrow> duration \<Rightarrow> stream_completion \<Rightarrow> client_metrics \<Rightarrow> stream_completion \<times> client_metrics" where
  "stream_complete_error e elapsed s m =
     (case sc_in_flight_guard s of
        None \<Rightarrow> (s, m)
      | Some guard \<Rightarrow>
          (s\<lparr> sc_in_flight_guard := None \<rparr>,
           in_flight_guard_drop guard (record_request_completed_error e elapsed m)))"

definition stream_complete_canceled ::
    "duration \<Rightarrow> stream_completion \<Rightarrow> client_metrics \<Rightarrow> stream_completion \<times> client_metrics" where
  "stream_complete_canceled elapsed s m =
     (case sc_in_flight_guard s of
        None \<Rightarrow> (s, m)
      | Some guard \<Rightarrow>
          (s\<lparr> sc_in_flight_guard := None \<rparr>,
           in_flight_guard_drop guard (record_request_completed_canceled elapsed m)))"

definition stream_completion_drop :: "duration \<Rightarrow> stream_completion \<Rightarrow> client_metrics \<Rightarrow> client_metrics" where
  "stream_completion_drop elapsed s m = snd (stream_complete_canceled elapsed s m)"

subsection \<open>Snapshots\<close>

record request_metrics =
  rm_started :: nat
  rm_succeeded :: nat
  rm_failed :: nat
  rm_canceled :: nat
  rm_retries :: nat
  rm_in_flight :: nat

record response_metrics =
  pm_status_counts :: "(status, nat) btree"

record timeout_metrics =
  tm_transport :: nat
  tm_response_body :: nat
  tm_deadline_exceeded :: nat

record error_metrics =
  em_transport :: nat
  em_read_body :: nat
  em_write_body :: nat
  em_response_body_too_large :: nat
  em_http_status :: nat
  em_by_code :: "(error_code, nat) btree"
  em_by_timeout_phase :: "(timeout_phase, nat) btree"
  em_by_transport_kind :: "(transport_error_kind, nat) btree"
  em_by_http_status :: "(status, nat) btree"

record latency_metrics =
  lm_samples :: nat
  lm_total_ms :: nat
  lm_average_ms :: f64

record metrics_snapshot =
  ms_requests :: request_metrics
  ms_responses :: response_metrics
  ms_timeouts :: timeout_metrics
  ms_errors :: error_metrics
  ms_latency :: latency_metrics

definition metrics_snapshot_default :: metrics_snapshot where
  "metrics_snapshot_default = \<lparr>
     ms_requests = \<lparr> rm_started = 0, rm_succeeded = 0, rm_failed = 0, rm_canceled = 0,
                      rm_retries = 0, rm_in_flight = 0 \<rparr>,
     ms_responses = \<lparr> pm_status_counts = [] \<rparr>,
     ms_timeouts = \<lparr> tm_transport = 0, tm_response_body = 0, tm_deadline_exceeded = 0 \<rparr>,
     ms_errors = \<lparr> em_transport = 0, em_read_body = 0, em_write_body = 0,
                    em_response_body_too_large = 0, em_http_status = 0, em_by_code = [],
                    em_by_timeout_phase = [], em_by_transport_kind = [],
                    em_by_http_status = [] \<rparr>,
     ms_latency = \<lparr> lm_samples = 0, lm_total_ms = 0, lm_average_ms = Fin 0 \<rparr> \<rparr>"

definition metrics_snapshot_of :: "client_metrics \<Rightarrow> metrics_snapshot" where
  "metrics_snapshot_of m =
     (case m of
        None \<Rightarrow> metrics_snapshot_default
      | Some inner \<Rightarrow>
          (let latency_avg_ms =
                 (if mx_latency_samples inner = 0 then Fin 0
                  else f64_div (f64_of_nat (mx_latency_total_ms inner))
                         (f64_of_nat (mx_latency_samples inner)))
           in \<lparr>
             ms_requests = \<lparr>
               rm_started = mx_requests_started inner,
               rm_succeeded = mx_requests_succeeded inner,
               rm_failed = mx_requests_failed inner,
               rm_canceled = mx_requests_canceled inner,
               rm_retries = mx_retries inner,
               rm_in_flight = mx_in_flight inner \<rparr>,
             ms_responses = \<lparr> pm_status_counts = mx_status_counts inner \<rparr>,
             ms_timeouts = \<lparr>
               tm_transport = mx_timeout_transport inner,
               tm_response_body = mx_timeout_response_body inner,
               tm_deadline_exceeded = mx_deadline_exceeded inner \<rparr>,
             ms_errors = \<lparr>
               em_transport = mx_transport_errors inner,
               em_read_body = mx_read_body_errors inner,
               em_write_body = mx_write_body_errors inner,
               em_response_body_too_large = mx_response_body_too_large inner,
               em_http_status = mx_http_status_errors inner,
               em_by_code = mx_error_code_counts inner,
               em_by_timeout_phase = mx_timeout_phase_counts inner,
               em_by_transport_kind = mx_transport_error_kind_counts inner,
               em_by_http_status = mx_http_status_error_counts inner \<rparr>,
             ms_latency = \<lparr>
               lm_samples = mx_latency_samples inner,
               lm_total_ms = mx_latency_total_ms inner,
               lm_average_ms = latency_avg_ms \<rparr> \<rparr>))"

subsection \<open>Interleavings\<close>

datatype request_handle = PendingHandle pending_request | StreamHandle stream_completion

datatype (dead 'h) handle_end =
    EndSucceeded status duration
  | EndFailed "'h error" duration
  | EndDropped duration

datatype (dead 'h) metrics_event =
    EvStart
  | EvRetry
  | EvEnd nat "'h handle_end"
  | EvIntoStream nat status duration
  | EvStreamDone nat "'h handle_end"

fun handle_end_apply :: "'h handle_end \<Rightarrow> request_handle \<Rightarrow> client_metrics \<Rightarrow> client_metrics" where
  "handle_end_apply (EndSucceeded s d) (PendingHandle p) m = pending_complete_success s d p m"
| "handle_end_apply (EndFailed e d) (PendingHandle p) m = pending_complete_error e d p m"
| "handle_end_apply (EndDropped d) (PendingHandle p) m = pending_request_drop d p m"
| "handle_end_apply (EndSucceeded _ d) (StreamHandle s) m =
     (let (s, m) = stream_complete_success d s m in stream_completion_drop d s m)"
| "handle_end_apply (EndFailed e d) (StreamHandle s) m =
     (let (s, m) = stream_complete_error e d s m in stream_completion_drop d s m)"
| "handle_end_apply (EndDropped d) (StreamHandle s) m = stream_completion_drop d s m"

fun stream_done_apply ::
    "'h handle_end \<Rightarrow> stream_completion \<Rightarrow> client_metrics \<Rightarrow> stream_completion \<times> client_metrics" where
  "stream_done_apply (EndSucceeded _ d) s m = stream_complete_success d s m"
| "stream_done_apply (EndFailed e d) s m = stream_complete_error e d s m"
| "stream_done_apply (EndDropped d) s m = stream_complete_canceled d s m"

definition remove_nth :: "nat \<Rightarrow> 'a list \<Rightarrow> 'a list" where
  "remove_nth i xs = take i xs @ drop (Suc i) xs"

fun metrics_step ::
    "'h metrics_event \<Rightarrow> client_metrics \<times> request_handle list \<Rightarrow> client_metrics \<times> request_handle list" where
  "metrics_step EvStart (m, hs) =
     (let (p, m) = metrics_pending_request m in (m, PendingHandle p # hs))"
| "metrics_step EvRetry (m, hs) = (record_retry m, hs)"
| "metrics_step (EvEnd i e) (m, hs) =
     (if i < length hs then (handle_end_apply e (hs ! i) m, remove_nth i hs) else (m, hs))"
| "metrics_step (EvIntoStream i s d) (m, hs) =
     (if i < length hs
      then (case hs ! i of
              PendingHandle p \<Rightarrow>
                (let (st, m) = pending_into_stream s d p m in (m, hs[i := StreamHandle st]))
            | StreamHandle _ \<Rightarrow> (m, hs))
      else (m, hs))"
| "metrics_step (EvStreamDone i e) (m, hs) =
     (if i < length hs
      then (case hs ! i of
              PendingHandle _ \<Rightarrow> (m, hs)
            | StreamHandle st \<Rightarrow>
                (let (st, m) = stream_done_apply e st m in (m, hs[i := StreamHandle st])))
      else (m, hs))"

definition metrics_run ::
    "'h metrics_event list \<Rightarrow> client_metrics \<times> request_handle list \<Rightarrow> client_metrics \<times> request_handle list" where
  "metrics_run evs x = fold metrics_step evs x"

subsection \<open>The ledger of a collector\<close>

type_synonym ledger = "nat \<times> nat \<times> nat \<times> nat \<times> nat \<times> nat \<times> (error_code, nat) btree"

text \<open>
  The counters that account for requests: started, succeeded, failed, canceled, in flight,
  latency samples, and the counts by error code.
\<close>

definition ledger :: "client_metrics_inner \<Rightarrow> ledger" where
  "ledger inner = (mx_requests_started inner, mx_requests_succeeded inner, mx_requests_failed inner,
     mx_requests_canceled inner, mx_in_flight inner, mx_latency_samples inner, mx_error_code_counts inner)"

definition code_total :: "('k, nat) btree \<Rightarrow> nat" where
  "code_total m = sum_list (map snd m)"

lemma code_total_get: "bt_get m k = Some v \<Longrightarrow> v \<le> code_total m"
  by (induction m) (auto simp: bt_get_def code_total_def split: if_splits intro: trans_le_add2)

lemma code_total_insert:
  "bt_wf m \<Longrightarrow> code_total (bt_insert k v m) + unwrap_or 0 (bt_get m k) = code_total m + v"
proof (induction k v m rule: bt_insert.induct)
  case (2 k v k' v' m)
  then have wf: "bt_wf m" by (simp add: bt_wf_def)
  show ?case
  proof (cases "k < k'")
    case True
    then have "bt_get ((k', v') # m) k = None"
      using "2.prems" by (auto simp: bt_get_def bt_wf_def map_of_eq_None_iff)
    with True show ?thesis by (simp add: code_total_def)
  next
    case False
    with 2 wf show ?thesis by (auto simp: code_total_def bt_get_def)
  qed
qed (simp add: code_total_def bt_get_def)

lemma code_total_add_count:
  assumes "bt_wf m" "code_total m < u64_max"
  shows "code_total (add_count k m) = Suc (code_total m)"
proof -
  have "unwrap_or 0 (bt_get m k) \<le> code_total m"
    using code_total_get [of m k] by (cases "bt_get m k") simp_all
  then have "u64_add (unwrap_or 0 (bt_get m k)) 1 = Suc (unwrap_or 0 (bt_get m k))"
    using assms(2) by (simp add: sat_add_def)
  with code_total_insert [OF assms(1), of k "u64_add (unwrap_or 0 (bt_get m k)) 1"] show ?thesis
    by (simp add: add_count_def bt_upsert_def)
qed

lemma bt_wf_add_count [simp]: "bt_wf m \<Longrightarrow> bt_wf (add_count k m)"
  by (simp add: add_count_def)

lemma record_error_category_ledger:
  "\<exists>inner'. record_error_category e (Some inner) = Some inner' \<and> ledger inner' = ledger inner"
  by (cases e) (simp_all add: record_error_category_def add_timeout_phase_count_def ledger_def
      add_transport_error_kind_count_def add_http_status_error_count_def add_status_count_def
      split: timeout_phase.splits)

text \<open>What completing one request does to the ledger, when no counter is at its limit.\<close>

datatype request_outcome = Outcome_Success | Outcome_Failure error_code | Outcome_Cancel

fun settle :: "request_outcome \<Rightarrow> ledger \<Rightarrow> ledger" where
  "settle Outcome_Success (st, su, fa, ca, fi, sa, co) = (st, Suc su, fa, ca, fi - 1, Suc sa, co)"
| "settle (Outcome_Failure c) (st, su, fa, ca, fi, sa, co) =
     (st, su, Suc fa, ca, fi - 1, Suc sa, add_count c co)"
| "settle Outcome_Cancel (st, su, fa, ca, fi, sa, co) = (st, su, fa, Suc ca, fi - 1, Suc sa, co)"

definition settled :: "client_metrics_inner \<Rightarrow> client_metrics \<Rightarrow> bool" where
  "settled inner m \<longleftrightarrow> (\<exists>inner' out. m = Some inner' \<and> ledger inner' = settle out (ledger inner))"

lemma settledI: "m = Some inner' \<Longrightarrow> ledger inner' = settle out (ledger inner) \<Longrightarrow> settled inner m"
  by (auto simp: settled_def)

definition has_room :: "client_metrics_inner \<Rightarrow> bool" where
  "has_room inner \<longleftrightarrow> mx_requests_succeeded inner < u64_max \<and> mx_requests_failed inner < u64_max \<and>
     mx_requests_canceled inner < u64_max \<and> mx_latency_samples inner < u64_max"

lemmas counter_defs [op_defs] =
  atomic_saturating_increment_def atomic_saturating_add_def atomic_saturating_sub_def sat_add_def

lemma settle_success:
  assumes "has_room inner"
  shows "settled inner (in_flight_guard_drop True (record_request_completed_success s d (Some inner)))"
proof -
  have "\<exists>inner'. in_flight_guard_drop True (record_request_completed_success s d (Some inner)) = Some inner' \<and>
      ledger inner' = settle Outcome_Success (ledger inner)"
    using assms
    by (simp add: in_flight_guard_drop_def record_request_completed_success_def record_latency_def
        add_status_count_def ledger_def has_room_def counter_defs)
  then show ?thesis by (auto intro: settledI)
qed

lemma settle_canceled:
  assumes "has_room inner"
  shows "settled inner (in_flight_guard_drop True (record_request_completed_canceled d (Some inner)))"
proof -
  have "\<exists>inner'. in_flight_guard_drop True (record_request_completed_canceled d (Some inner)) = Some inner' \<and>
      ledger inner' = settle Outcome_Cancel (ledger inner)"
    using assms
    by (simp add: in_flight_guard_drop_def record_request_completed_canceled_def record_latency_def
        ledger_def has_room_def counter_defs)
  then show ?thesis by (auto intro: settledI)
qed

lemma settle_error:
  assumes "has_room inner"
  shows "settled inner (in_flight_guard_drop True (record_request_completed_error e d (Some inner)))"
proof -
  obtain i where i: "add_error_code_count (error_code_of e) (record_latency d
      (map_option (mx_requests_failed_update atomic_saturating_increment) (Some inner))) = Some i"
    "mx_requests_started i = mx_requests_started inner"
    "mx_requests_succeeded i = mx_requests_succeeded inner"
    "mx_requests_failed i = Suc (mx_requests_failed inner)"
    "mx_requests_canceled i = mx_requests_canceled inner" "mx_in_flight i = mx_in_flight inner"
    "mx_latency_samples i = Suc (mx_latency_samples inner)"
    "mx_error_code_counts i = add_count (error_code_of e) (mx_error_code_counts inner)"
    using assms by (simp add: add_error_code_count_def record_latency_def has_room_def counter_defs)
  obtain j where j: "record_error_category e (Some i) = Some j" "ledger j = ledger i"
    using record_error_category_ledger by blast
  have "\<exists>inner'. in_flight_guard_drop True (record_request_completed_error e d (Some inner)) = Some inner' \<and>
      ledger inner' = settle (Outcome_Failure (error_code_of e)) (ledger inner)"
    using i j by (simp add: in_flight_guard_drop_def record_request_completed_error_def ledger_def
        counter_defs)
  then show ?thesis by (auto intro: settledI)
qed

lemmas settle_rules = settle_success settle_canceled settle_error

subsection \<open>The accounting invariant\<close>

fun handle_open :: "request_handle \<Rightarrow> bool" where
  "handle_open (PendingHandle p) = True"
| "handle_open (StreamHandle s) = (sc_in_flight_guard s \<noteq> None)"

fun handle_ok :: "request_handle \<Rightarrow> bool" where
  "handle_ok (PendingHandle p) = (pr_in_flight p \<and> \<not> pr_completed p)"
| "handle_ok (StreamHandle s) = (sc_in_flight_guard s \<noteq> Some False)"

definition open_handles :: "request_handle list \<Rightarrow> nat" where
  "open_handles hs = length (filter handle_open hs)"

definition ledger_inv :: "nat \<Rightarrow> nat \<Rightarrow> ledger \<Rightarrow> bool" where
  "ledger_inv n opened = (\<lambda>(st, su, fa, ca, fi, sa, co).
     n \<le> u64_max \<and> st = n \<and> su + fa + ca + fi = n \<and> sa = su + fa + ca \<and> fi = opened \<and>
     bt_wf co \<and> code_total co = fa)"

definition metrics_inv :: "nat \<Rightarrow> client_metrics \<times> request_handle list \<Rightarrow> bool" where
  "metrics_inv n x \<longleftrightarrow> (\<exists>inner. fst x = Some inner \<and> ledger_inv n (open_handles (snd x)) (ledger inner)) \<and>
     (\<forall>h \<in> set (snd x). handle_ok h)"

lemma ledger_inv_settle:
  assumes "ledger_inv n (Suc k) l"
  shows "ledger_inv n k (settle e l)"
  using assms
  by (cases e; cases l) (auto simp: ledger_inv_def code_total_add_count)

lemma ledger_inv_room:
  assumes "ledger_inv n (Suc k) (ledger inner)"
  shows "has_room inner"
  using assms by (auto simp: ledger_inv_def ledger_def has_room_def)

text \<open>Ending an open handle settles its request; a stream that is already done changes nothing.\<close>

lemma handle_end_apply_open:
  assumes "handle_ok h" "handle_open h" "has_room inner"
  shows "settled inner (handle_end_apply e h (Some inner))"
proof (cases h)
  case (PendingHandle p)
  then show ?thesis
    using assms(1) settle_rules [OF assms(3)]
    by (cases e) (simp_all add: pending_complete_success_def pending_complete_error_def
        pending_request_drop_def)
next
  case (StreamHandle s)
  then have "sc_in_flight_guard s = Some True" using assms(1,2) by auto
  with StreamHandle show ?thesis
    using settle_rules [OF assms(3)]
    by (cases e) (simp_all add: stream_complete_success_def stream_complete_error_def
        stream_completion_drop_def stream_complete_canceled_def)
qed

lemma handle_end_apply_closed: "\<not> handle_open h \<Longrightarrow> handle_end_apply e h m = m"
  by (cases h; cases e) (simp_all add: stream_complete_success_def stream_complete_error_def
        stream_completion_drop_def stream_complete_canceled_def)

lemma stream_done_apply_open:
  assumes "sc_in_flight_guard s = Some True" "has_room inner"
  shows "fst (stream_done_apply e s (Some inner)) = s\<lparr> sc_in_flight_guard := None \<rparr> \<and>
    settled inner (snd (stream_done_apply e s (Some inner)))"
  using assms(1) settle_rules [OF assms(2)]
  by (cases e) (simp_all add: stream_complete_success_def stream_complete_error_def
        stream_complete_canceled_def)

lemma stream_done_apply_closed:
  "sc_in_flight_guard s = None \<Longrightarrow> stream_done_apply e s m = (s, m)"
  by (cases e) (simp_all add: stream_complete_success_def stream_complete_error_def
        stream_complete_canceled_def)

lemma open_handles_remove:
  "i < length hs \<Longrightarrow> open_handles hs = open_handles (remove_nth i hs) + (if handle_open (hs ! i) then 1 else 0)"
  by (subst id_take_nth_drop [of i hs]) (simp_all add: open_handles_def remove_nth_def)

lemma open_handles_update:
  "i < length hs \<Longrightarrow> open_handles (hs[i := h]) + (if handle_open (hs ! i) then 1 else 0) =
     open_handles hs + (if handle_open h then 1 else 0)"
  by (subst (2) id_take_nth_drop [of i hs], simp)
    (simp add: open_handles_def upd_conv_take_nth_drop)

lemma set_remove_nth: "set (remove_nth i hs) \<subseteq> set hs"
  using set_take_subset [of i hs] set_drop_subset [of "Suc i" hs] by (auto simp: remove_nth_def)

fun starts :: "'h metrics_event list \<Rightarrow> nat" where
  "starts [] = 0"
| "starts (EvStart # evs) = Suc (starts evs)"
| "starts (_ # evs) = starts evs"

lemma metrics_inv_settled:
  assumes "ledger_inv n (Suc k) (ledger inner)" "settled inner m"
  shows "\<exists>inner'. m = Some inner' \<and> ledger_inv n k (ledger inner')"
  using assms by (auto simp: settled_def ledger_inv_settle)

lemma metrics_inv_start:
  assumes "metrics_inv n (m, hs)" "n < u64_max"
  shows "metrics_inv (Suc n) (metrics_step (EvStart :: 'h metrics_event) (m, hs))"
proof -
  obtain inner where m: "m = Some inner" and l: "ledger_inv n (open_handles hs) (ledger inner)"
    using assms(1) by (auto simp: metrics_inv_def)
  let ?inner = "inner\<lparr> mx_requests_started := Suc (mx_requests_started inner),
    mx_in_flight := Suc (mx_in_flight inner) \<rparr>"
  have room: "mx_requests_started inner < u64_max" "mx_in_flight inner < u64_max"
    using l assms(2) by (auto simp: ledger_inv_def ledger_def)
  have eq: "metrics_step (EvStart :: 'h metrics_event) (m, hs) =
      (Some ?inner, PendingHandle \<lparr> pr_in_flight = True, pr_completed = False \<rparr> # hs)"
    using room by (simp add: m metrics_pending_request_def enter_in_flight_def
        record_request_started_def counter_defs)
  have l': "ledger_inv (Suc n) (Suc (open_handles hs)) (ledger ?inner)"
    using l assms(2) by (simp add: ledger_inv_def ledger_def split_def)
  have ok: "\<forall>h \<in> set hs. handle_ok h" using assms(1) by (simp add: metrics_inv_def)
  show ?thesis
    unfolding eq using l' ok by (simp add: metrics_inv_def open_handles_def)
qed

lemma metrics_inv_end:
  assumes inv: "metrics_inv n (m, hs)" and i: "i < length hs"
  shows "metrics_inv n (handle_end_apply e (hs ! i) m, remove_nth i hs)"
proof -
  obtain inner where m: "m = Some inner" and l: "ledger_inv n (open_handles hs) (ledger inner)"
    and ok: "\<forall>h \<in> set hs. handle_ok h"
    using inv by (auto simp: metrics_inv_def)
  have ok': "\<forall>h \<in> set (remove_nth i hs). handle_ok h" using ok set_remove_nth [of i hs] by auto
  show ?thesis
  proof (cases "handle_open (hs ! i)")
    case True
    then have l': "ledger_inv n (Suc (open_handles (remove_nth i hs))) (ledger inner)"
      using l open_handles_remove [OF i] by simp
    have "handle_ok (hs ! i)" using ok i by simp
    from metrics_inv_settled [OF l' handle_end_apply_open [OF this True ledger_inv_room [OF l'], of e]] ok'
    show ?thesis by (simp add: metrics_inv_def m)
  next
    case False
    then show ?thesis
      using l ok' open_handles_remove [OF i] by (simp add: metrics_inv_def m handle_end_apply_closed)
  qed
qed

lemma metrics_inv_stream_done:
  assumes inv: "metrics_inv n (m, hs)" and i: "i < length hs" "hs ! i = StreamHandle s"
  shows "metrics_inv n (snd (stream_done_apply e s m), hs[i := StreamHandle (fst (stream_done_apply e s m))])"
proof -
  obtain inner where m: "m = Some inner" and l: "ledger_inv n (open_handles hs) (ledger inner)"
    and ok: "\<forall>h \<in> set hs. handle_ok h"
    using inv by (auto simp: metrics_inv_def)
  have oks: "handle_ok (StreamHandle s)" using ok i by (metis nth_mem)
  show ?thesis
  proof (cases "sc_in_flight_guard s")
    case None
    then have "stream_done_apply e s m = (s, m)" by (rule stream_done_apply_closed)
    then show ?thesis using inv i by (metis fst_conv snd_conv list_update_id)
  next
    case (Some g)
    with oks have g: "sc_in_flight_guard s = Some True" by simp
    let ?s = "s\<lparr> sc_in_flight_guard := None \<rparr>"
    have "open_handles hs = Suc (open_handles (hs[i := StreamHandle ?s]))"
      using open_handles_update [OF i(1), of "StreamHandle ?s"] i(2) g by simp
    with l have l': "ledger_inv n (Suc (open_handles (hs[i := StreamHandle ?s]))) (ledger inner)" by simp
    note d = stream_done_apply_open [OF g ledger_inv_room [OF l'], of e]
    have "\<forall>h \<in> set (hs[i := StreamHandle ?s]). handle_ok h"
      using ok set_update_subset_insert [of hs i] by fastforce
    with metrics_inv_settled [OF l'] d show ?thesis by (simp add: metrics_inv_def m)
  qed
qed

lemma metrics_inv_into_stream:
  assumes inv: "metrics_inv n (m, hs)" and i: "i < length hs" "hs ! i = PendingHandle p"
  shows "metrics_inv n (snd (pending_into_stream s d p m), hs[i := StreamHandle (fst (pending_into_stream s d p m))])"
proof -
  have ok: "\<forall>h \<in> set hs. handle_ok h" using inv by (simp add: metrics_inv_def)
  then have p: "pr_in_flight p" "\<not> pr_completed p" using i by (metis handle_ok.simps(1) nth_mem)+
  let ?s = "\<lparr> sc_status = s, sc_in_flight_guard = Some True \<rparr>"
  have "open_handles (hs[i := StreamHandle ?s]) = open_handles hs"
    using open_handles_update [OF i(1), of "StreamHandle ?s"] i(2) by simp
  moreover have "\<forall>h \<in> set (hs[i := StreamHandle ?s]). handle_ok h"
    using ok set_update_subset_insert [of hs i] by fastforce
  moreover have "pending_into_stream s d p m = (?s, m)"
    using p by (simp add: pending_into_stream_def pending_request_drop_def in_flight_guard_drop_def)
  ultimately show ?thesis using inv by (simp add: metrics_inv_def)
qed

lemma metrics_inv_step:
  assumes "metrics_inv n x" "n + starts [ev] \<le> u64_max"
  shows "metrics_inv (n + starts [ev]) (metrics_step ev x)"
proof (cases x)
  case (Pair m hs)
  note inv = assms(1) [unfolded Pair]
  show ?thesis
  proof (cases ev)
    case EvStart
    then show ?thesis using metrics_inv_start [OF inv] assms(2) Pair by simp
  next
    case EvRetry
    then show ?thesis
      using inv Pair by (auto simp: metrics_inv_def record_retry_def ledger_def)
  next
    case (EvEnd i e)
    then show ?thesis using inv metrics_inv_end [OF inv, of i e] Pair by simp
  next
    case (EvIntoStream i s d)
    then show ?thesis
      using inv metrics_inv_into_stream [OF inv, of i _ s d] Pair
      by (auto split: request_handle.splits prod.splits)
  next
    case (EvStreamDone i e)
    then show ?thesis
      using inv metrics_inv_stream_done [OF inv, of i _ e] Pair
      by (auto split: request_handle.splits prod.splits)
  qed
qed

lemma starts_Cons: "starts (ev # evs) = starts [ev] + starts evs"
  by (cases ev) simp_all

lemma metrics_inv_run:
  assumes "metrics_inv n x" "n + starts evs \<le> u64_max"
  shows "metrics_inv (n + starts evs) (metrics_run evs x)"
  using assms unfolding metrics_run_def
proof (induction evs arbitrary: n x)
  case (Cons ev evs)
  have s: "starts (ev # evs) = starts [ev] + starts evs" by (rule starts_Cons)
  have "metrics_inv (n + starts [ev]) (metrics_step ev x)"
    using Cons.prems s by (intro metrics_inv_step) simp_all
  from Cons.IH [OF this] Cons.prems(2) s show ?case by (simp add: add.assoc)
qed simp

lemma metrics_inv_new: "metrics_inv 0 (client_metrics_with_options True, [])"
  by (simp add: metrics_inv_def client_metrics_with_options_def client_metrics_inner_default_def
      ledger_inv_def ledger_def open_handles_def code_total_def)

subsection \<open>Stream lifecycles\<close>

text \<open>
  \<open>StreamLifecycle\<close> with its hooks and its completion. The hooks are an interface: what the
  lifecycle does with them is the list of calls it makes.
\<close>

datatype (dead 'h) lifecycle_call =
    HookSuccess | HookError "'h error" | HookCanceled
  | CompletionSuccess | CompletionError "'h error" | CompletionCanceled

record stream_lifecycle =
  sl_has_completion :: bool
  sl_has_hooks :: bool
  sl_completed :: bool

definition stream_lifecycle_default :: stream_lifecycle where
  "stream_lifecycle_default = \<lparr> sl_has_completion = False, sl_has_hooks = False, sl_completed = False \<rparr>"

definition stream_lifecycle_new :: stream_lifecycle where
  "stream_lifecycle_new = \<lparr> sl_has_completion = False, sl_has_hooks = True, sl_completed = False \<rparr>"

definition attach_completion :: "stream_lifecycle \<Rightarrow> stream_lifecycle" where
  "attach_completion l = l\<lparr> sl_has_completion := True \<rparr>"

definition lifecycle_complete ::
    "'h lifecycle_call \<Rightarrow> 'h lifecycle_call \<Rightarrow> stream_lifecycle \<Rightarrow> 'h lifecycle_call list \<times> stream_lifecycle" where
  "lifecycle_complete hook completion l =
     (if sl_completed l then ([], l)
      else ((if sl_has_hooks l then [hook] else []) @ (if sl_has_completion l then [completion] else []),
            \<lparr> sl_has_completion = False, sl_has_hooks = False, sl_completed = True \<rparr>))"

datatype (dead 'h) lifecycle_end = LifecycleSuccess | LifecycleError "'h error" | LifecycleCanceled

fun lifecycle_end_step :: "'h lifecycle_end \<Rightarrow> stream_lifecycle \<Rightarrow> 'h lifecycle_call list \<times> stream_lifecycle" where
  "lifecycle_end_step LifecycleSuccess = lifecycle_complete HookSuccess CompletionSuccess"
| "lifecycle_end_step (LifecycleError e) = lifecycle_complete (HookError e) (CompletionError e)"
| "lifecycle_end_step LifecycleCanceled = lifecycle_complete HookCanceled CompletionCanceled"

text \<open>Any calls on a stream, and then its destructor.\<close>

fun lifecycle_run :: "'h lifecycle_end list \<Rightarrow> stream_lifecycle \<Rightarrow> 'h lifecycle_call list" where
  "lifecycle_run [] l = fst (lifecycle_end_step LifecycleCanceled l)"
| "lifecycle_run (e # es) l =
     (let (calls, l) = lifecycle_end_step e l in calls @ lifecycle_run es l)"

fun end_calls :: "'h lifecycle_end \<Rightarrow> 'h lifecycle_call list" where
  "end_calls LifecycleSuccess = [HookSuccess, CompletionSuccess]"
| "end_calls (LifecycleError e) = [HookError e, CompletionError e]"
| "end_calls LifecycleCanceled = [HookCanceled, CompletionCanceled]"

lemma lifecycle_run_completed: "sl_completed l \<Longrightarrow> lifecycle_run es l = []"
proof (induction es arbitrary: l)
  case (Cons e es)
  then show ?case by (cases e) (simp_all add: lifecycle_complete_def)
qed (simp add: lifecycle_complete_def)

subsection \<open>Properties\<close>

text \<open>
  C35: Every started request is accounted for exactly once. After any interleaving of requests
  that start, retry, succeed, fail, are dropped, turn into streams and whose streams are
  completed any number of times and dropped, the started requests are the succeeded, failed and
  canceled ones plus those in flight; the requests in flight are the handles still open; each
  completion has left one latency sample, and the counts by error code add up to the failures.
\<close>

theorem metrics_conservation:
  fixes evs :: "'h metrics_event list"
  assumes "starts evs \<le> u64_max"
    and "metrics_run evs (client_metrics_with_options True, []) = (m, hs)"
  shows "rm_started (ms_requests (metrics_snapshot_of m)) = starts evs \<and>
    starts evs = rm_succeeded (ms_requests (metrics_snapshot_of m)) +
      rm_failed (ms_requests (metrics_snapshot_of m)) +
      rm_canceled (ms_requests (metrics_snapshot_of m)) +
      rm_in_flight (ms_requests (metrics_snapshot_of m)) \<and>
    rm_in_flight (ms_requests (metrics_snapshot_of m)) = open_handles hs \<and>
    lm_samples (ms_latency (metrics_snapshot_of m)) = starts evs - open_handles hs \<and>
    code_total (em_by_code (ms_errors (metrics_snapshot_of m))) =
      rm_failed (ms_requests (metrics_snapshot_of m))"
proof -
  have "metrics_inv (starts evs) (m, hs)"
    using metrics_inv_run [OF metrics_inv_new, of evs] assms by simp
  then show ?thesis
    by (auto simp: metrics_inv_def ledger_inv_def ledger_def metrics_snapshot_of_def Let_def)
qed

theorem metrics_conservation_witness:
  "starts ([EvStart, EvStart, EvIntoStream 0 200 5, EvStreamDone 0 (EndSucceeded 200 7),
       EvEnd 0 (EndDropped 8), EvEnd 0 (EndFailed ConcurrencyLimitClosed 9)] :: unit metrics_event list)
       \<le> u64_max \<and>
   (let s = metrics_snapshot_of (fst (metrics_run
       ([EvStart, EvStart, EvIntoStream 0 200 5, EvStreamDone 0 (EndSucceeded 200 7),
       EvEnd 0 (EndDropped 8), EvEnd 0 (EndFailed ConcurrencyLimitClosed 9)] :: unit metrics_event list)
       (client_metrics_with_options True, [])))
    in rm_started (ms_requests s) = 2 \<and> rm_in_flight (ms_requests s) = 0 \<and>
       rm_succeeded (ms_requests s) + rm_failed (ms_requests s) + rm_canceled (ms_requests s) = 2)"
proof -
  let ?evs = "[EvStart, EvStart, EvIntoStream 0 200 5, EvStreamDone 0 (EndSucceeded 200 7),
       EvEnd 0 (EndDropped 8), EvEnd 0 (EndFailed ConcurrencyLimitClosed 9)] :: unit metrics_event list"
  obtain m hs where run: "metrics_run ?evs (client_metrics_with_options True, []) = (m, hs)" by force
  then have hs: "hs = []"
    by (simp add: metrics_run_def remove_nth_def Let_def split_def)
  have small: "starts ?evs \<le> u64_max" by (simp add: max_values)
  show ?thesis
    using metrics_conservation [OF small run] run small hs by (simp add: Let_def open_handles_def)
qed

text \<open>
  A response stream has exactly one outcome. Whatever sequence of completions is reported on
  it before it is dropped, its hooks and its completion are each called exactly once, with the
  first outcome reported, or with a cancellation when none was.
\<close>

theorem stream_outcome_exactly_once:
  fixes es :: "'h lifecycle_end list"
  shows "lifecycle_run es (attach_completion stream_lifecycle_new) =
    (case es of [] \<Rightarrow> end_calls LifecycleCanceled | e # _ \<Rightarrow> end_calls e)"
proof (cases es)
  case Nil
  then show ?thesis
    by (simp add: lifecycle_complete_def attach_completion_def stream_lifecycle_new_def)
next
  case (Cons e es')
  then show ?thesis
    by (cases e) (simp_all add: lifecycle_complete_def attach_completion_def stream_lifecycle_new_def
        lifecycle_run_completed)
qed

end
