(* ===== verification/Reqx_Headers.thy ===== *)
theory Reqx_Headers
  imports Reqx_Uri
begin

text \<open>
  Request headers (\<open>src/src/core/util/headers.rs\<close>): merging with the defaults, the automatic
  \<open>accept-encoding\<close>, sensitive values, the framing rules of a request body, and the excerpt of a
  response body that an error carries. A header name is its lower-case text. The parsers of
  \<open>HeaderName\<close> and \<open>HeaderValue\<close> and the mutable iterator of \<open>HeaderMap\<close> belong to the crate
  \<open>http\<close> and are the fields of \<open>header_parse_ops\<close>. \<open>String::from_utf8_lossy\<close> is modelled: a text
  is the list of its characters, each character its bytes.
\<close>

subsection \<open>Decimal texts and lossy decoding\<close>

fun decimal :: "nat \<Rightarrow> string" where
  "decimal n = (if n < 10 then [char_of (48 + n)]
                else decimal (n div 10) @ [char_of (48 + n mod 10)])"

declare decimal.simps [simp del]

definition is_continuation :: "char \<Rightarrow> bool" where
  "is_continuation c = (128 \<le> byte_of c \<and> byte_of c \<le> 191)"

definition second_byte_ok :: "char \<Rightarrow> char \<Rightarrow> bool" where
  "second_byte_ok b c =
     (let b = byte_of b :: nat; c = byte_of c :: nat
      in if 194 \<le> b \<and> b \<le> 223 then 128 \<le> c \<and> c \<le> 191
         else if b = 224 then 160 \<le> c \<and> c \<le> 191
         else if 225 \<le> b \<and> b \<le> 236 then 128 \<le> c \<and> c \<le> 191
         else if b = 237 then 128 \<le> c \<and> c \<le> 159
         else if 238 \<le> b \<and> b \<le> 239 then 128 \<le> c \<and> c \<le> 191
         else if b = 240 then 144 \<le> c \<and> c \<le> 191
         else if 241 \<le> b \<and> b \<le> 243 then 128 \<le> c \<and> c \<le> 191
         else if b = 244 then 128 \<le> c \<and> c \<le> 143
         else False)"

definition utf8_char_width :: "char \<Rightarrow> nat" where
  "utf8_char_width b =
     (let b = byte_of b :: nat
      in if b < 128 then 1 else if 194 \<le> b \<and> b \<le> 223 then 2
         else if 224 \<le> b \<and> b \<le> 239 then 3 else if 240 \<le> b \<and> b \<le> 244 then 4 else 0)"

text \<open>
  The bytes of the first character of a non-empty text, or the number of bytes that a
  replacement character stands for: the longest prefix that could still begin a character.
\<close>

definition utf8_valid_prefix :: "string \<Rightarrow> nat" where
  "utf8_valid_prefix s = (case s of
       [] \<Rightarrow> 0
     | b # cs \<Rightarrow>
         if utf8_char_width b \<le> 1 then 1
         else (case cs of
             [] \<Rightarrow> 1
           | c # ds \<Rightarrow>
               if second_byte_ok b c
               then 2 + length (takeWhile is_continuation (take (utf8_char_width b - 2) ds))
               else 1))"

definition utf8_head :: "string \<Rightarrow> string \<times> string" where
  "utf8_head s =
     (let n = utf8_valid_prefix s
      in (if n = utf8_char_width (hd s) then take n s else map char_of [239, 191, 189 :: nat],
          drop n s))"

lemma utf8_valid_prefix_pos: "s \<noteq> [] \<Longrightarrow> 1 \<le> utf8_valid_prefix s"
  by (auto simp: utf8_valid_prefix_def split: list.splits)

function lossy_chars :: "string \<Rightarrow> string list" where
  "lossy_chars s = (if s = [] then [] else fst (utf8_head s) # lossy_chars (snd (utf8_head s)))"
  by auto
termination
  by (relation "measure length")
     (auto simp: utf8_head_def Let_def intro!: diff_less dest: utf8_valid_prefix_pos)

declare lossy_chars.simps [simp del]

definition from_utf8_lossy :: "string \<Rightarrow> string list" where
  "from_utf8_lossy body = lossy_chars body"

subsection \<open>Merging and content negotiation\<close>

record 'v header_parse_ops =
  hn_parse :: "string \<Rightarrow> (string, box_error) result"
  hv_parse :: "string \<Rightarrow> ('v, box_error) result"
  hv_set_sensitive :: "bool \<Rightarrow> 'v \<Rightarrow> 'v"

definition merge_headers :: "('h, 'v) header_ops \<Rightarrow> 'h \<Rightarrow> 'h \<Rightarrow> 'h" where
  "merge_headers H default_headers request_headers = hm_extend H default_headers request_headers"

definition enabled_accept_encoding :: "bool \<Rightarrow> bool \<Rightarrow> bool \<Rightarrow> string option" where
  "enabled_accept_encoding gzip brotli zstd =
     (case (gzip, brotli, zstd) of
        (True, True, True) \<Rightarrow> Some ''gzip, br, deflate, zstd''
      | (True, True, False) \<Rightarrow> Some ''gzip, br, deflate''
      | (True, False, True) \<Rightarrow> Some ''gzip, deflate, zstd''
      | (True, False, False) \<Rightarrow> Some ''gzip, deflate''
      | (False, True, True) \<Rightarrow> Some ''br, zstd''
      | (False, True, False) \<Rightarrow> Some ''br''
      | (False, False, True) \<Rightarrow> Some ''zstd''
      | (False, False, False) \<Rightarrow> None)"

text \<open>The compile-time features are the argument \<open>enabled\<close>, a value of \<open>enabled_accept_encoding\<close>.\<close>

definition ensure_accept_encoding ::
    "('h, 'v) header_ops \<Rightarrow> string option \<Rightarrow> http_method \<Rightarrow> 'h \<Rightarrow> 'h" where
  "ensure_accept_encoding H enabled meth headers =
     (if meth = method_HEAD \<or> hm_contains_key H headers ''accept-encoding'' \<or>
         hm_contains_key H headers ''range''
      then headers
      else case enabled of
        None \<Rightarrow> headers
      | Some v \<Rightarrow> hm_insert H ''accept-encoding'' (hv_from_static H v) headers)"

subsection \<open>Names and values\<close>

definition parse_header_name :: "'v header_parse_ops \<Rightarrow> string \<Rightarrow> (string, 'h error) result" where
  "parse_header_name P name = map_err (\<lambda>source. InvalidHeaderName name source) (hn_parse P name)"

definition is_sensitive_header_name :: "string \<Rightarrow> bool" where
  "is_sensitive_header_name name =
     (name = ''authorization'' \<or> name = ''cookie'' \<or> name = ''proxy-authorization'' \<or>
      name = ''set-cookie'')"

definition is_sensitive_header_name_text :: "'v header_parse_ops \<Rightarrow> string \<Rightarrow> bool" where
  "is_sensitive_header_name_text P name =
     (case hn_parse P name of Err _ \<Rightarrow> False | Ok n \<Rightarrow> is_sensitive_header_name n)"

definition mark_sensitive_header_value :: "'v header_parse_ops \<Rightarrow> string \<Rightarrow> 'v \<Rightarrow> 'v" where
  "mark_sensitive_header_value P name v =
     (if is_sensitive_header_name name then hv_set_sensitive P True v else v)"

text \<open>\<open>iter_mut f h\<close> is the map after every value has been replaced by \<open>f name value\<close>.\<close>

definition mark_sensitive_headers ::
    "((string \<Rightarrow> 'v \<Rightarrow> 'v) \<Rightarrow> 'h \<Rightarrow> 'h) \<Rightarrow> 'v header_parse_ops \<Rightarrow> 'h \<Rightarrow> 'h" where
  "mark_sensitive_headers iter_mut P headers = iter_mut (mark_sensitive_header_value P) headers"

definition parse_header_value ::
    "'v header_parse_ops \<Rightarrow> string \<Rightarrow> string \<Rightarrow> ('v, 'h error) result" where
  "parse_header_value P name text_value =
     result_bind (map_err (\<lambda>source. InvalidHeaderValue name source) (hv_parse P text_value))
       (\<lambda>v. Ok (if is_sensitive_header_name_text P name then hv_set_sensitive P True v else v))"

subsection \<open>Framing\<close>

definition validate_request_framing_headers ::
    "('h, 'v) header_ops \<Rightarrow> 'h \<Rightarrow> nat option \<Rightarrow> http_method \<Rightarrow> string \<Rightarrow> 'h error unit_result" where
  "validate_request_framing_headers H headers expected_body_len meth redacted_uri =
     (let framing_error = (\<lambda>message. Err (InvalidRequestFraming meth redacted_uri message))
      in if hm_contains_key H headers ''content-length'' \<and>
            hm_contains_key H headers ''transfer-encoding''
         then framing_error ''content-length and transfer-encoding cannot be combined''
         else if hm_contains_key H headers ''transfer-encoding''
         then framing_error ''transfer-encoding is managed by the transport''
         else case hm_get_all H headers ''content-length'' of
           [] \<Rightarrow> Ok ()
         | content_length # others \<Rightarrow>
             if others \<noteq> [] then framing_error ''content-length must contain exactly one value''
             else
               (let digits = (case hv_to_str H content_length of
                      Some v \<Rightarrow> if v \<noteq> [] \<and> list_all is_ascii_digit v then Some v else None
                    | None \<Rightarrow> None)
                in case (case digits of Some v \<Rightarrow> parse_unsigned u64_max v | None \<Rightarrow> None) of
                     None \<Rightarrow> framing_error
                       ''content-length must be an unsigned decimal integer within the u64 range''
                   | Some n \<Rightarrow>
                       if is_some_and (\<lambda>expected. n \<noteq> expected) expected_body_len
                       then framing_error ''content-length does not match the buffered request body''
                       else Ok ()))"

subsection \<open>Body excerpts\<close>

definition max_error_body_len :: nat where
  "max_error_body_len = 2048"

definition truncate_body :: "string \<Rightarrow> string" where
  "truncate_body body =
     (let pre = take (min (length body) ((max_error_body_len + 1) * 4)) body;
          chars = from_utf8_lossy pre
      in if max_error_body_len < length chars
         then concat (take max_error_body_len chars) @ ''...(truncated)''
         else concat chars)"

subsection \<open>Lemmas\<close>

lemma byte_char_of: "n < 256 \<Longrightarrow> byte_of (char_of n :: char) = n"
  by simp

lemma parse_digits_append: "parse_digits n (xs @ ys) = parse_digits (parse_digits n xs) ys"
  by (induction n xs rule: parse_digits.induct) simp_all

lemma parse_digits_decimal [simp]: "parse_digits 0 (decimal n) = n"
proof (induction n rule: decimal.induct)
  case (1 n)
  have d: "digit_value (char_of (48 + k)) = k" if "k < 10" for k :: nat
    using that by (simp add: digit_value_def)
  show ?case
    using 1 by (subst decimal.simps) (simp add: d parse_digits_append)
qed

lemma decimal_inject [simp]: "decimal m = decimal n \<longleftrightarrow> m = n"
  by (metis parse_digits_decimal)

lemma decimal_digits: "list_all is_ascii_digit (decimal n)"
proof (induction n rule: decimal.induct)
  case (1 n)
  have d: "is_ascii_digit (char_of (48 + k))" if "k < 10" for k :: nat
    using that by (simp add: is_ascii_digit_def)
  show ?case
    using 1 by (subst decimal.simps) (simp add: d)
qed

lemma utf8_valid_prefix_le: "utf8_valid_prefix s \<le> 4"
proof -
  have "length (takeWhile is_continuation (take (utf8_char_width b - 2) ds)) \<le> 2" for b ds
    using length_takeWhile_le [of is_continuation "take (utf8_char_width b - 2) ds"]
    by (auto simp: utf8_char_width_def Let_def split: if_splits intro: le_trans)
  then show ?thesis
    by (auto simp: utf8_valid_prefix_def split: list.splits)
qed

lemma utf8_valid_prefix_take4: "utf8_valid_prefix (take 4 s) = utf8_valid_prefix s"
proof -
  have "utf8_char_width b - 2 \<le> 2" for b
    by (simp add: utf8_char_width_def Let_def)
  then have "take (utf8_char_width b - 2) (take 2 ds) = take (utf8_char_width b - 2) ds" for b and ds :: string
    by (simp add: min.absorb1)
  then show ?thesis
    by (auto simp: utf8_valid_prefix_def numeral_eq_Suc split: list.splits)
qed

lemma lossy_chars_Nil [simp]: "lossy_chars [] = []"
  by (simp add: lossy_chars.simps)

lemma lossy_chars_step:
  "s \<noteq> [] \<Longrightarrow> lossy_chars s = fst (utf8_head s) # lossy_chars (snd (utf8_head s))"
  by (subst lossy_chars.simps) simp

lemma utf8_head_take:
  assumes "4 \<le> m" and "s \<noteq> []"
  shows "fst (utf8_head (take m s)) = fst (utf8_head s)"
    and "snd (utf8_head (take m s)) = take (m - utf8_valid_prefix s) (snd (utf8_head s))"
proof -
  have n: "utf8_valid_prefix (take m s) = utf8_valid_prefix s"
    using utf8_valid_prefix_take4 [of "take m s"] utf8_valid_prefix_take4 [of s] assms(1)
    by (simp add: min.absorb2)
  have hd: "hd (take m s) = hd s" using assms by (cases m; cases s) auto
  have le: "utf8_valid_prefix s \<le> m" using utf8_valid_prefix_le [of s] assms(1) by simp
  show "fst (utf8_head (take m s)) = fst (utf8_head s)"
    using le by (simp add: utf8_head_def Let_def n hd min.absorb2)
  show "snd (utf8_head (take m s)) = take (m - utf8_valid_prefix s) (snd (utf8_head s))"
    by (simp add: utf8_head_def Let_def n drop_take)
qed

lemma take_lossy_chars: "take k (lossy_chars (take (4 * k) s)) = take k (lossy_chars s)"
proof (induction k arbitrary: s)
  case (Suc k)
  show ?case
  proof (cases "s = []")
    case False
    let ?t = "snd (utf8_head s)" and ?m = "4 * Suc k - utf8_valid_prefix s"
    have m: "4 * k \<le> ?m" using utf8_valid_prefix_le [of s] by simp
    have "take k (lossy_chars (take ?m ?t)) = take k (lossy_chars (take (4 * k) (take ?m ?t)))"
      using Suc.IH [of "take ?m ?t"] by simp
    also have "\<dots> = take k (lossy_chars ?t)"
      using Suc.IH [of ?t] m by (simp add: min.absorb1)
    finally show ?thesis
      using False utf8_head_take [of "4 * Suc k" s]
      by (simp add: lossy_chars_step [of s] lossy_chars_step [of "take (4 + 4 * k) s"])
  qed simp
qed simp

lemma alist_headers_sel:
  "hm_get alist_headers h k = (case alist_get_all h k of [] \<Rightarrow> None | v # vs \<Rightarrow> Some v)"
  "hm_get_all alist_headers = alist_get_all"
  "hm_contains_key alist_headers h k \<longleftrightarrow> alist_get_all h k \<noteq> []"
  "hm_insert alist_headers k v h = filter (\<lambda>e. fst e \<noteq> k) h @ [(k, v)]"
  "hm_remove alist_headers k h = filter (\<lambda>e. fst e \<noteq> k) h"
  "hm_iter alist_headers h = h"
  "hv_to_str alist_headers v = Some (fst v)"
  "hv_is_sensitive alist_headers v = snd v"
  "hn_from_bytes alist_headers s = (if s = [] then None else Some (to_ascii_lowercase s))"
  by (simp_all add: alist_headers_def)

lemma hm_insert_contains:
  assumes "header_map_laws H"
  shows "hm_contains_key H (hm_insert H k v h) k' \<longleftrightarrow> k' = k \<or> hm_contains_key H h k'"
  by (simp add: hm_contains_key_eq [OF assms] hm_get_all_insert [OF assms])

lemma parse_unsigned_digits:
  assumes "v \<noteq> []" and "list_all is_ascii_digit v"
  shows "parse_unsigned bound v = (if parse_digits 0 v \<le> bound then Some (parse_digits 0 v) else None)"
proof -
  obtain c cs where v: "v = c # cs" using assms(1) by (cases v) auto
  then have "c \<noteq> CHR ''+''" using assms(2) by (auto simp: is_ascii_digit_def)
  then show ?thesis using assms v by (simp add: parse_unsigned_def Let_def)
qed

lemma framing_none:
  assumes "header_map_laws H" and "hm_get_all H h ''transfer-encoding'' = []"
    and "hm_get_all H h ''content-length'' = []"
  shows "validate_request_framing_headers H h len m u = Ok ()"
  using assms(2,3) by (simp add: validate_request_framing_headers_def Let_def hm_contains_key_eq [OF assms(1)])

lemma framing_one:
  assumes "header_map_laws H" and "hm_get_all H h ''transfer-encoding'' = []"
    and "hm_get_all H h ''content-length'' = [v]"
  shows "is_ok (validate_request_framing_headers H h len m u) \<longleftrightarrow>
    (\<exists>t. hv_to_str H v = Some t \<and> is_port_text t \<and> parse_digits 0 t \<le> u64_max \<and>
         (len = None \<or> len = Some (parse_digits 0 t)))"
  using assms(2,3)
  by (cases len; cases "hv_to_str H v")
     (auto simp: validate_request_framing_headers_def Let_def hm_contains_key_eq [OF assms(1)]
        is_port_text_def parse_unsigned_digits)

lemma framing_rejects:
  assumes "header_map_laws H"
    and "hm_get_all H h ''transfer-encoding'' \<noteq> [] \<or> 2 \<le> length (hm_get_all H h ''content-length'')"
  shows "\<not> is_ok (validate_request_framing_headers H h len m u)"
  using assms(2)
  by (auto simp: validate_request_framing_headers_def Let_def hm_contains_key_eq [OF assms(1)]
      split: list.splits)

subsection \<open>Properties\<close>

text \<open>
  The framing check accepts exactly the unambiguous requests: no \<open>transfer-encoding\<close> at all,
  and either no \<open>content-length\<close> or a single one that is a plain decimal number of at most 64 bits
  and, when the body is buffered, is the length of the body.
\<close>

theorem request_framing_exact:
  assumes "header_map_laws H"
  shows "validate_request_framing_headers H h len m u = Ok () \<longleftrightarrow>
    hm_get_all H h ''transfer-encoding'' = [] \<and>
    (hm_get_all H h ''content-length'' = [] \<or>
     (\<exists>v t. hm_get_all H h ''content-length'' = [v] \<and> hv_to_str H v = Some t \<and> is_port_text t \<and>
        parse_digits 0 t \<le> u64_max \<and> (len = None \<or> len = Some (parse_digits 0 t))))"
proof -
  have ok: "r = Ok () \<longleftrightarrow> is_ok r" for r :: "'h error unit_result"
    by (cases r) simp_all
  consider (te) "hm_get_all H h ''transfer-encoding'' \<noteq> []"
    | (none) "hm_get_all H h ''transfer-encoding'' = []" "hm_get_all H h ''content-length'' = []"
    | (one) v where "hm_get_all H h ''transfer-encoding'' = []" "hm_get_all H h ''content-length'' = [v]"
    | (many) v w vs where "hm_get_all H h ''content-length'' = v # w # vs"
    by (cases "hm_get_all H h ''content-length''" rule: remdups_adj.cases) auto
  then show ?thesis
  proof cases
    case te then show ?thesis using framing_rejects [OF assms] by (auto simp: ok)
  next
    case none then show ?thesis using framing_none [OF assms] by simp
  next
    case one then show ?thesis using framing_one [OF assms one] by (simp add: ok)
  next
    case many then show ?thesis using framing_rejects [OF assms, of h len m u] by (auto simp: ok)
  qed
qed

theorem request_framing_exact_witness:
  "header_map_laws alist_headers \<and>
   validate_request_framing_headers alist_headers [(''content-length'', (''12'', False))] (Some 12)
     method_POST ''/'' = Ok ()"
proof -
  have "parse_digits 0 ''12'' = 12" by (simp add: digit_value_def)
  moreover have "is_port_text ''12''" by (simp add: is_port_text_def is_ascii_digit_def)
  ultimately show ?thesis
    using request_framing_exact [OF alist_headers_laws,
        of "[(''content-length'', (''12'', False))]" "Some 12" method_POST "''/''"]
    by (simp add: alist_headers_sel alist_get_all_def max_values)
qed

text \<open>
  The excerpt of a body in an error is computed from a bounded prefix of the bytes, and is the
  excerpt of the whole body all the same: the decoded body itself when it has at most 2048
  characters, and its first 2048 characters with a mark otherwise. In particular the cut never
  falls inside a character, and no replacement character is made up at the end of the prefix.
\<close>

theorem truncate_body_exact:
  "truncate_body body =
     (let chars = from_utf8_lossy body
      in if 2048 < length chars then concat (take 2048 chars) @ ''...(truncated)''
         else concat chars)"
proof -
  let ?k = "Suc max_error_body_len"
  let ?p = "take (min (length body) ((max_error_body_len + 1) * 4)) body"
  have p: "?p = take (4 * ?k) body"
    by (simp add: mult.commute min_def)
  have t: "take ?k (lossy_chars ?p) = take ?k (lossy_chars body)"
    unfolding p by (rule take_lossy_chars)
  have long: "max_error_body_len < length (lossy_chars ?p) \<longleftrightarrow>
      max_error_body_len < length (lossy_chars body)"
    using arg_cong [OF t, of length] by (auto simp: min_def split: if_splits)
  have cut: "take max_error_body_len (lossy_chars ?p) = take max_error_body_len (lossy_chars body)"
    using arg_cong [OF t, of "take max_error_body_len"] by (simp add: min.absorb1)
  have short: "lossy_chars ?p = lossy_chars body" if "\<not> max_error_body_len < length (lossy_chars body)"
    using t that long by simp
  show ?thesis
    using long cut short
    by (simp add: truncate_body_def from_utf8_lossy_def Let_def max_error_body_len_def)
qed

end
