(* ===== verification/Reqx_Redirect.thy ===== *)
theory Reqx_Redirect
  imports Reqx_Headers
begin

text \<open>
  Redirects (\<open>src/src/core/util/redirect.rs\<close>): which responses redirect and to which method, how
  a location is resolved, when two URIs have the same origin, the key of a per-host rate limit,
  and which headers survive a redirect.
\<close>

subsection \<open>Status and method\<close>

definition is_redirect_status :: "status \<Rightarrow> bool" where
  "is_redirect_status s = (s = 301 \<or> s = 302 \<or> s = 303 \<or> s = 307 \<or> s = 308)"

definition redirect_method :: "http_method \<Rightarrow> status \<Rightarrow> http_method" where
  "redirect_method meth s =
     (if s = 303 \<and> meth \<noteq> method_HEAD then method_GET
      else if (s = 301 \<or> s = 302) \<and> meth = method_POST then method_GET
      else meth)"

definition redirect_location :: "('h, 'v) header_ops \<Rightarrow> 'h \<Rightarrow> string option" where
  "redirect_location H headers =
     (case hm_get H headers ''location'' of None \<Rightarrow> None | Some v \<Rightarrow> hv_to_str H v)"

subsection \<open>Origins\<close>

definition default_port :: "'u uri_ops \<Rightarrow> 'u \<Rightarrow> nat option" where
  "default_port U uri =
     (case uri_port_u16 U uri of
        Some p \<Rightarrow> Some p
      | None \<Rightarrow>
          (case uri_scheme_str U uri of
             None \<Rightarrow> None
           | Some scheme \<Rightarrow>
               if eq_ignore_ascii_case scheme ''https'' then Some 443
               else if eq_ignore_ascii_case scheme ''http'' then Some 80
               else None))"

definition rate_limit_bucket_key :: "'u uri_ops \<Rightarrow> 'u \<Rightarrow> string option" where
  "rate_limit_bucket_key U uri =
     (case normalized_uri_host U uri of
        None \<Rightarrow> None
      | Some host \<Rightarrow>
          (case default_port U uri of
             None \<Rightarrow> Some host
           | Some port \<Rightarrow>
               if CHR '':'' \<in> set host \<and> \<not> starts_with host ''[''
               then Some (''['' @ host @ '']:'' @ decimal port)
               else Some (host @ '':'' @ decimal port)))"

definition same_origin :: "'u uri_ops \<Rightarrow> 'u \<Rightarrow> 'u \<Rightarrow> bool" where
  "same_origin U left right =
     (let left_scheme = unwrap_or [] (uri_scheme_str U left);
          right_scheme = unwrap_or [] (uri_scheme_str U right)
      in if \<not> eq_ignore_ascii_case left_scheme right_scheme then False
         else case normalized_uri_host U left of
           None \<Rightarrow> False
         | Some left_host \<Rightarrow>
             (case normalized_uri_host U right of
                None \<Rightarrow> False
              | Some right_host \<Rightarrow>
                  if left_host \<noteq> right_host then False
                  else default_port U left = default_port U right))"

subsection \<open>Locations\<close>

definition join_redirect_location ::
    "'u uri_ops \<Rightarrow> 'w url_ops \<Rightarrow> 'u \<Rightarrow> string \<Rightarrow> 'u option" where
  "join_redirect_location U W current_uri location =
     (if starts_with location ''//'' \<and> \<not> is_valid_http_network_path_reference location then None
      else case url_parse W (uri_to_string U current_uri) of
        None \<Rightarrow> None
      | Some base \<Rightarrow>
          (case url_join W base location of
             None \<Rightarrow> None
           | Some joined \<Rightarrow>
               if \<not> is_http_scheme (url_scheme W joined) then None
               else if url_username W joined \<noteq> [] \<or> url_password W joined \<noteq> None then None
               else case uri_parse U (url_to_string W joined) of
                 None \<Rightarrow> None
               | Some resolved \<Rightarrow> if uri_has_userinfo U resolved then None else Some resolved))"

definition resolve_redirect_uri ::
    "'u uri_ops \<Rightarrow> 'w url_ops \<Rightarrow> 'u \<Rightarrow> string \<Rightarrow> 'u option" where
  "resolve_redirect_uri U W current_uri location =
     (case uri_parse U location of
        Some uri \<Rightarrow>
          if uri_host U uri \<noteq> None
          then (case uri_scheme_str U uri of
                  Some scheme \<Rightarrow>
                    if \<not> (eq_ignore_ascii_case scheme ''http'' \<or> eq_ignore_ascii_case scheme ''https'')
                    then None
                    else if uri_has_userinfo U uri \<or> \<not> is_valid_absolute_http_uri_text W location
                    then None
                    else Some uri
                | None \<Rightarrow>
                    if \<not> starts_with location ''//'' then None
                    else join_redirect_location U W current_uri location)
          else if uri_scheme_str U uri \<noteq> None then None
          else join_redirect_location U W current_uri location
      | None \<Rightarrow>
          if looks_like_malformed_http_absolute_uri location then None
          else join_redirect_location U W current_uri location)"

subsection \<open>Headers\<close>

text \<open>The names listed by the \<open>connection\<close> headers.\<close>

definition connection_scoped_headers :: "('h, 'v) header_ops \<Rightarrow> 'h \<Rightarrow> string list" where
  "connection_scoped_headers H headers =
     (let texts = List.map_filter (hv_to_str H) (hm_get_all H headers ''connection'');
          tokens = concat (map (split_on (\<lambda>c. c = CHR '','')) texts)
      in List.map_filter
           (\<lambda>token. if trim token = [] then None else hn_from_bytes H (trim token)) tokens)"

definition remove_hop_by_hop_redirect_headers :: "('h, 'v) header_ops \<Rightarrow> 'h \<Rightarrow> 'h" where
  "remove_hop_by_hop_redirect_headers H headers =
     fold (hm_remove H)
       [''connection'', ''keep-alive'', ''proxy-connection'', ''te'', ''trailer'',
        ''transfer-encoding'', ''upgrade'']
       (fold (hm_remove H) (connection_scoped_headers H headers) headers)"

definition remove_body_headers :: "('h, 'v) header_ops \<Rightarrow> 'h \<Rightarrow> 'h" where
  "remove_body_headers H headers =
     fold (hm_remove H)
       [''content-encoding'', ''content-length'', ''content-type'', ''content-digest'',
        ''content-md5'', ''digest'', ''expect''] headers"

definition remove_credential_headers :: "('h, 'v) header_ops \<Rightarrow> 'h \<Rightarrow> 'h" where
  "remove_credential_headers H headers =
     (let headers = fold (hm_remove H) [''authorization'', ''cookie''] headers;
          sensitive_headers =
            map fst (filter (\<lambda>e. hv_is_sensitive H (snd e)) (hm_iter H headers))
      in fold (hm_remove H) sensitive_headers headers)"

definition sanitize_headers_for_redirect ::
    "('h, 'v) header_ops \<Rightarrow> bool \<Rightarrow> bool \<Rightarrow> 'h \<Rightarrow> 'h" where
  "sanitize_headers_for_redirect H drops_body same_origin_redirect headers =
     (let headers = remove_hop_by_hop_redirect_headers H headers;
          headers = hm_remove H ''host'' headers;
          headers = (if drops_body then remove_body_headers H headers else headers);
          headers = (if \<not> same_origin_redirect then remove_credential_headers H headers else headers)
      in hm_remove H ''proxy-authorization'' headers)"

subsection \<open>Lemmas\<close>

definition hop_by_hop_names :: "string set" where
  "hop_by_hop_names = {''connection'', ''keep-alive'', ''proxy-connection'', ''te'', ''trailer'',
     ''transfer-encoding'', ''upgrade''}"

definition body_names :: "string set" where
  "body_names = {''content-encoding'', ''content-length'', ''content-type'', ''content-digest'',
     ''content-md5'', ''digest'', ''expect''}"

lemma get_all_remove_hop_by_hop:
  assumes "header_map_laws H"
  shows "hm_get_all H (remove_hop_by_hop_redirect_headers H h) k =
    (if k \<in> hop_by_hop_names \<or> k \<in> set (connection_scoped_headers H h) then []
     else hm_get_all H h k)"
  unfolding remove_hop_by_hop_redirect_headers_def hm_get_all_fold_remove [OF assms] hop_by_hop_names_def
  by simp

lemma get_all_remove_body:
  assumes "header_map_laws H"
  shows "hm_get_all H (remove_body_headers H h) k = (if k \<in> body_names then [] else hm_get_all H h k)"
  unfolding remove_body_headers_def hm_get_all_fold_remove [OF assms] body_names_def by simp

lemma get_all_remove_credentials:
  assumes "header_map_laws H"
  shows "hm_get_all H (remove_credential_headers H h) k =
    (if k = ''authorization'' \<or> k = ''cookie'' \<or> (\<exists>v \<in> set (hm_get_all H h k). hv_is_sensitive H v)
     then [] else hm_get_all H h k)"
  unfolding remove_credential_headers_def Let_def hm_get_all_fold_remove [OF assms]
  by (auto simp: image_iff hm_iter_iff [OF assms] hm_get_all_remove [OF assms])

lemma same_origin_iff:
  "same_origin U l r \<longleftrightarrow>
     eq_ignore_ascii_case (unwrap_or [] (uri_scheme_str U l)) (unwrap_or [] (uri_scheme_str U r)) \<and>
     normalized_uri_host U l \<noteq> None \<and> normalized_uri_host U l = normalized_uri_host U r \<and>
     default_port U l = default_port U r"
  by (auto simp: same_origin_def Let_def split: option.splits)

lemma default_port_cong:
  assumes "uri_port_u16 U l = uri_port_u16 U r"
    and "map_option to_ascii_lowercase (uri_scheme_str U l) =
      map_option to_ascii_lowercase (uri_scheme_str U r)"
  shows "default_port U l = default_port U r"
  using assms by (auto simp: default_port_def eq_ignore_ascii_case_def split: option.splits)

lemma join_redirect_location_Some:
  assumes "join_redirect_location U W cur location = Some r"
  shows "\<not> uri_has_userinfo U r"
    and "\<exists>base joined. url_parse W (uri_to_string U cur) = Some base \<and>
      url_join W base location = Some joined \<and> is_http_scheme (url_scheme W joined) \<and>
      url_username W joined = [] \<and> url_password W joined = None \<and>
      uri_parse U (url_to_string W joined) = Some r"
  using assms by (auto simp: join_redirect_location_def split: if_splits option.splits)

lemma snoc_separator_eq:
  assumes "c \<notin> set b" and "c \<notin> set d" and "a @ c # b = a' @ c # d"
  shows "a = a' \<and> b = d"
proof -
  have "takeWhile (\<lambda>x. x \<noteq> c) (rev b @ c # rev a) = takeWhile (\<lambda>x. x \<noteq> c) (rev d @ c # rev a')"
    using arg_cong [OF assms(3), of rev] by simp
  moreover have "takeWhile (\<lambda>x. x \<noteq> c) (rev b @ c # rev a) = rev b"
    using assms(1) by (subst takeWhile_append2) auto
  moreover have "takeWhile (\<lambda>x. x \<noteq> c) (rev d @ c # rev a') = rev d"
    using assms(2) by (subst takeWhile_append2) auto
  ultimately show ?thesis using assms(3) by simp
qed

lemma colon_notin_decimal: "CHR '':'' \<notin> set (decimal n)"
  using decimal_digits [of n] by (auto simp: list_all_iff is_ascii_digit_def)

lemma host_port_inject:
  "h @ '':'' @ decimal p = h' @ '':'' @ decimal q \<longleftrightarrow> h = h' \<and> p = q"
  using snoc_separator_eq [OF colon_notin_decimal colon_notin_decimal, of h p h' q] by auto

definition bracketed_host :: "string \<Rightarrow> string" where
  "bracketed_host host =
     (if CHR '':'' \<in> set host \<and> \<not> starts_with host ''['' then ''['' @ host @ '']'' else host)"

lemma rate_limit_bucket_key_eq:
  assumes "default_port U uri = Some port"
  shows "rate_limit_bucket_key U uri =
    map_option (\<lambda>host. bracketed_host host @ '':'' @ decimal port) (normalized_uri_host U uri)"
  using assms by (auto simp: rate_limit_bucket_key_def bracketed_host_def split: option.splits)

subsection \<open>A concrete URL interface\<close>

text \<open>A \<open>Url\<close> as its text, joined by replacing everything after the authority.\<close>

definition url_origin :: "string \<Rightarrow> string" where
  "url_origin s =
     (let scheme = takeWhile (\<lambda>c. c \<noteq> CHR '':'') s;
          rest = drop (length scheme + 3) s
      in scheme @ ''://'' @ takeWhile (\<lambda>c. c \<noteq> CHR ''/'') rest)"

definition text_urls :: "string url_ops" where
  "text_urls = \<lparr>
     url_parse = (\<lambda>s. if CHR '':'' \<in> set s then Some s else None),
     url_join = (\<lambda>w s. Some (url_origin w @ s)), url_to_string = (\<lambda>w. w),
     url_scheme = takeWhile (\<lambda>c. c \<noteq> CHR '':''), url_username = (\<lambda>w. []), url_password = (\<lambda>w. None),
     url_host_str = (\<lambda>w. Some w), url_query = (\<lambda>w. None), url_fragment = (\<lambda>w. None),
     url_path = (\<lambda>w. drop (length (url_origin w)) w), url_path_segments = (\<lambda>w. None),
     url_set_username = (\<lambda>s w. w), url_set_password = (\<lambda>s w. w), url_set_query = (\<lambda>s w. w),
     url_set_fragment = (\<lambda>s w. w), url_set_path = (\<lambda>s w. url_origin w @ s) \<rparr>"

subsection \<open>Properties\<close>

text \<open>
  Exactly the headers that must not follow a redirect are removed. Always removed are the
  hop-by-hop headers, the headers that a \<open>connection\<close> header names, \<open>host\<close> and
  \<open>proxy-authorization\<close>; when the body is dropped, the headers that describe it; on a
  cross-origin redirect, \<open>authorization\<close>, \<open>cookie\<close> and every header with a value marked as
  sensitive. All values of every other header are kept, in order.
\<close>

theorem redirect_sanitization_exact:
  assumes "header_map_laws H"
  shows "hm_get_all H (sanitize_headers_for_redirect H drops_body same h) k =
    (if k \<in> hop_by_hop_names \<or> k \<in> set (connection_scoped_headers H h) \<or>
        k = ''host'' \<or> k = ''proxy-authorization'' \<or>
        drops_body \<and> k \<in> body_names \<or>
        \<not> same \<and> (k = ''authorization'' \<or> k = ''cookie'' \<or>
          (\<exists>v \<in> set (hm_get_all H h k). hv_is_sensitive H v))
     then [] else hm_get_all H h k)"
  by (auto simp: sanitize_headers_for_redirect_def Let_def hm_get_all_remove [OF assms]
      get_all_remove_hop_by_hop [OF assms] get_all_remove_body [OF assms]
      get_all_remove_credentials [OF assms])

theorem redirect_sanitization_exact_witness:
  "header_map_laws alist_headers \<and>
   hm_get_all alist_headers (sanitize_headers_for_redirect alist_headers False False
     [(''x-api-key'', (''secret'', True)), (''accept'', (''json'', False))]) ''x-api-key'' = []"
  using redirect_sanitization_exact [OF alist_headers_laws, of False False
      "[(''x-api-key'', (''secret'', True)), (''accept'', (''json'', False))]" "''x-api-key''"]
  by (auto simp: alist_headers_sel alist_get_all_def)

text \<open>
  A redirect target carries no user information, and it is either the location itself, an
  absolute URI with a host, the scheme \<open>http\<close> or \<open>https\<close> and a well-formed authority, or what
  the location joined to the current URI parses to, where the joined URL has one of those schemes
  and neither a user name nor a password.
\<close>

theorem resolve_redirect_uri_sound:
  assumes "resolve_redirect_uri U W current_uri location = Some uri"
  shows "\<not> uri_has_userinfo U uri \<and>
    (uri_parse U location = Some uri \<and> uri_host U uri \<noteq> None \<and>
       is_some_and (\<lambda>scheme. is_http_scheme (to_ascii_lowercase scheme)) (uri_scheme_str U uri) \<and>
       is_valid_absolute_http_uri_text W location \<or>
     (\<exists>base joined. url_parse W (uri_to_string U current_uri) = Some base \<and>
       url_join W base location = Some joined \<and> is_http_scheme (url_scheme W joined) \<and>
       url_username W joined = [] \<and> url_password W joined = None \<and>
       uri_parse U (url_to_string W joined) = Some uri))"
proof (cases "join_redirect_location U W current_uri location = Some uri")
  case True
  show ?thesis using join_redirect_location_Some [OF True] by simp
next
  case False
  have "to_ascii_lowercase ''http'' = ''http''" "to_ascii_lowercase ''https'' = ''https''"
    by (simp_all add: to_ascii_lowercase_def ascii_defs)
  with False assms show ?thesis
    by (auto simp: resolve_redirect_uri_def eq_ignore_ascii_case_def is_http_scheme_def
        split: option.splits if_splits)
qed

theorem resolve_redirect_uri_sound_witness:
  "resolve_redirect_uri triple_uris text_urls (Some ''https'', Some ''h'', ''/a'') ''/b'' =
     Some (Some ''https'', Some ''h'', ''/b'') \<and>
   \<not> uri_has_userinfo triple_uris (Some ''https'', Some ''h'', ''/b'')"
proof -
  have eval: "resolve_redirect_uri triple_uris text_urls (Some ''https'', Some ''h'', ''/a'') ''/b'' =
     Some (Some ''https'', Some ''h'', ''/b'')"
    by (simp add: resolve_redirect_uri_def join_redirect_location_def triple_uris_def text_urls_def
        url_origin_def Let_def starts_with_def is_http_scheme_def uri_has_userinfo_def
        is_valid_http_network_path_reference_def has_valid_raw_http_authority_syntax_def
        has_prefix_ignore_case_def)
  then show ?thesis using resolve_redirect_uri_sound [OF eval] by simp
qed

text \<open>
  Per-host rate limits never mix two origins: for URIs with a known port, two keys are the same
  exactly when the ports are the same and the normalised hosts are, up to the brackets of an
  address literal; and URIs of the same origin always share their key.
\<close>

theorem rate_limit_key_identifies_host:
  assumes "default_port U l = Some p" and "default_port U r = Some q"
    and "normalized_uri_host U l = Some hl" and "normalized_uri_host U r = Some hr"
  shows "(rate_limit_bucket_key U l = rate_limit_bucket_key U r \<longleftrightarrow>
      p = q \<and> bracketed_host hl = bracketed_host hr) \<and>
    (same_origin U l r \<longrightarrow> rate_limit_bucket_key U l = rate_limit_bucket_key U r)"
proof -
  have "rate_limit_bucket_key U l = rate_limit_bucket_key U r \<longleftrightarrow>
      p = q \<and> bracketed_host hl = bracketed_host hr"
    using assms host_port_inject
    by (auto simp: rate_limit_bucket_key_eq [of U l p] rate_limit_bucket_key_eq [of U r q])
  then show ?thesis using assms by (simp add: same_origin_iff)
qed

theorem rate_limit_key_identifies_host_witness:
  "rate_limit_bucket_key triple_uris (Some ''https'', Some ''h'', ''/a'') \<noteq>
   rate_limit_bucket_key triple_uris (Some ''http'', Some ''h'', ''/a'')"
proof -
  have "default_port triple_uris (Some ''https'', Some ''h'', ''/a'') = Some 443"
    "default_port triple_uris (Some ''http'', Some ''h'', ''/a'') = Some 80"
    by (simp_all add: default_port_def triple_uris_def string_defs ascii_defs)
  moreover have "normalized_uri_host triple_uris (sc, Some ''h'', ''/a'') = Some ''h''" for sc
    by (simp add: normalized_uri_host_def normalize_host_key_def triple_uris_def string_defs ascii_defs)
  ultimately show ?thesis
    using rate_limit_key_identifies_host [of triple_uris "(Some ''https'', Some ''h'', ''/a'')" 443
        "(Some ''http'', Some ''h'', ''/a'')" 80 "''h''" "''h''"] by simp
qed

end
