(* ===== verification/Reqx_Policy.thy ===== *)
theory Reqx_Policy
  imports Reqx_BTreeMap Reqx_Timing
begin

text \<open>
  The configuration of a request: retry policies and the classification of failures
  (\<open>src/src/core/retry.rs\<close>), redirect and status policies (\<open>src/src/core/policy.rs\<close>), client profiles
  and timeouts (\<open>src/src/core/config.rs\<close>), overrides for one request
  (\<open>src/src/core/request_builder.rs\<close>) and request bodies (\<open>src/src/core/request_body.rs\<close>). A
  \<open>BTreeSet\<close> is a set. The traits \<open>RetryClassifier\<close> and \<open>RetryEligibility\<close> are functions.
\<close>

subsection \<open>Retry decisions\<close>

datatype retry_reason =
    Reason_Status status
  | Reason_Transport transport_error_kind
  | Reason_Timeout timeout_phase
  | Reason_ResponseBodyRead

record retry_decision =
  rd_attempt :: nat
  rd_max_attempts :: nat
  rd_method :: http_method
  rd_uri :: string
  rd_reason :: retry_reason

definition retry_decision_new ::
    "nat \<Rightarrow> nat \<Rightarrow> http_method \<Rightarrow> string \<Rightarrow> retry_reason \<Rightarrow> retry_decision" where
  "retry_decision_new attempt max_attempts meth uri reason =
     \<lparr> rd_attempt = attempt, rd_max_attempts = max_attempts, rd_method = meth, rd_uri = uri,
       rd_reason = reason \<rparr>"

definition decision_status :: "retry_decision \<Rightarrow> status option" where
  "decision_status d = (case rd_reason d of Reason_Status s \<Rightarrow> Some s | _ \<Rightarrow> None)"

definition decision_transport_error_kind :: "retry_decision \<Rightarrow> transport_error_kind option" where
  "decision_transport_error_kind d = (case rd_reason d of Reason_Transport k \<Rightarrow> Some k | _ \<Rightarrow> None)"

definition decision_timeout_phase :: "retry_decision \<Rightarrow> timeout_phase option" where
  "decision_timeout_phase d = (case rd_reason d of Reason_Timeout p \<Rightarrow> Some p | _ \<Rightarrow> None)"

definition is_response_body_read_error :: "retry_decision \<Rightarrow> bool" where
  "is_response_body_read_error d = (rd_reason d = Reason_ResponseBodyRead)"

subsection \<open>Eligibility\<close>

type_synonym 'h retry_eligibility = "http_method \<Rightarrow> 'h \<Rightarrow> bool"

definition is_method_idempotent :: "http_method \<Rightarrow> bool" where
  "is_method_idempotent meth =
     (meth = method_GET \<or> meth = method_HEAD \<or> meth = method_PUT \<or> meth = method_DELETE \<or>
      meth = method_OPTIONS \<or> meth = method_TRACE)"

definition request_supports_retry :: "('h, 'v) header_ops \<Rightarrow> http_method \<Rightarrow> 'h \<Rightarrow> bool" where
  "request_supports_retry H meth headers =
     (is_method_idempotent meth \<or> hm_get H headers ''idempotency-key'' \<noteq> None)"

definition strict_retry_eligibility :: "('h, 'v) header_ops \<Rightarrow> 'h retry_eligibility" where
  "strict_retry_eligibility H meth headers = request_supports_retry H meth headers"

definition permissive_retry_eligibility :: "'h retry_eligibility" where
  "permissive_retry_eligibility meth headers = True"

subsection \<open>Retry policies\<close>

record retry_policy =
  rp_max_attempts :: nat
  rp_base_backoff :: duration
  rp_max_backoff :: duration
  rp_jitter_ratio :: f64
  rp_retryable_status_codes :: "nat set"
  rp_retryable_transport_error_kinds :: "transport_error_kind set"
  rp_retryable_timeout_phases :: "timeout_phase set"
  rp_retry_on_response_body_read_error :: bool
  rp_status_retry_windows :: "(nat, nat) btree"
  rp_transport_retry_windows :: "(transport_error_kind, nat) btree"
  rp_timeout_retry_windows :: "(timeout_phase, nat) btree"
  rp_response_body_read_retry_window :: "nat option"
  rp_retry_classifier :: "(retry_decision \<Rightarrow> bool) option"

definition default_retryable_status_codes :: "nat set" where
  "default_retryable_status_codes = set [429, 500, 502, 503, 504]"

definition is_valid_retryable_status_code :: "nat \<Rightarrow> bool" where
  "is_valid_retryable_status_code s = (100 \<le> s \<and> s < 1000 \<and> \<not> is_success s)"

definition default_retryable_transport_error_kinds :: "transport_error_kind set" where
  "default_retryable_transport_error_kinds = set [Kind_Dns, Kind_Connect, Kind_Read]"

definition default_retryable_timeout_phases :: "timeout_phase set" where
  "default_retryable_timeout_phases = set [Phase_Transport, Phase_ResponseBody]"

definition retry_policy_standard :: retry_policy where
  "retry_policy_standard = \<lparr>
     rp_max_attempts = 3,
     rp_base_backoff = from_millis 200,
     rp_max_backoff = from_secs 2,
     rp_jitter_ratio = fl (2 / 10),
     rp_retryable_status_codes = default_retryable_status_codes,
     rp_retryable_transport_error_kinds = default_retryable_transport_error_kinds,
     rp_retryable_timeout_phases = default_retryable_timeout_phases,
     rp_retry_on_response_body_read_error = True,
     rp_status_retry_windows = [],
     rp_transport_retry_windows = [],
     rp_timeout_retry_windows = [],
     rp_response_body_read_retry_window = None,
     rp_retry_classifier = None \<rparr>"

definition retry_policy_disabled :: retry_policy where
  "retry_policy_disabled = retry_policy_standard\<lparr> rp_max_attempts := 1, rp_jitter_ratio := Fin 0 \<rparr>"

definition status_retry_window :: "nat \<Rightarrow> nat \<Rightarrow> retry_policy \<Rightarrow> retry_policy" where
  "status_retry_window s max_attempts p =
     p\<lparr> rp_status_retry_windows := bt_insert s max_attempts (rp_status_retry_windows p) \<rparr>"

definition transport_retry_window :: "transport_error_kind \<Rightarrow> nat \<Rightarrow> retry_policy \<Rightarrow> retry_policy" where
  "transport_retry_window kind max_attempts p =
     p\<lparr> rp_transport_retry_windows := bt_insert kind max_attempts (rp_transport_retry_windows p) \<rparr>"

definition timeout_retry_window :: "timeout_phase \<Rightarrow> nat \<Rightarrow> retry_policy \<Rightarrow> retry_policy" where
  "timeout_retry_window phase max_attempts p =
     p\<lparr> rp_timeout_retry_windows := bt_insert phase max_attempts (rp_timeout_retry_windows p) \<rparr>"

definition response_body_read_retry_window :: "nat \<Rightarrow> retry_policy \<Rightarrow> retry_policy" where
  "response_body_read_retry_window max_attempts p =
     p\<lparr> rp_response_body_read_retry_window := Some max_attempts \<rparr>"

definition retry_invalid_policy :: "retry_policy \<Rightarrow> string \<Rightarrow> 'h error" where
  "retry_invalid_policy p message =
     InvalidRetryPolicy (rp_max_attempts p) (duration_millis_ceil (rp_base_backoff p))
       (duration_millis_ceil (rp_max_backoff p)) (rp_jitter_ratio p) message"

definition retry_policy_validate :: "retry_policy \<Rightarrow> 'h error unit_result" where
  "retry_policy_validate p =
     (if rp_max_attempts p = 0
      then Err (retry_invalid_policy p ''max_attempts must be greater than zero'')
      else if rp_base_backoff p = 0
      then Err (retry_invalid_policy p ''base_backoff must be greater than zero'')
      else if rp_max_backoff p = 0
      then Err (retry_invalid_policy p ''max_backoff must be greater than zero'')
      else if rp_max_backoff p < rp_base_backoff p
      then Err (retry_invalid_policy p ''max_backoff must be greater than or equal to base_backoff'')
      else if \<not> is_finite (rp_jitter_ratio p) \<or>
              \<not> (f64_le (Fin 0) (rp_jitter_ratio p) \<and> f64_le (rp_jitter_ratio p) (Fin 1))
      then Err (retry_invalid_policy p ''jitter_ratio must be finite and between 0.0 and 1.0'')
      else if \<exists>s \<in> rp_retryable_status_codes p. \<not> is_valid_retryable_status_code s
      then Err (retry_invalid_policy p ''retryable status codes must be valid non-success statuses'')
      else if \<exists>e \<in> set (rp_status_retry_windows p). \<not> is_valid_retryable_status_code (fst e)
      then Err (retry_invalid_policy p ''status retry windows must target valid non-success statuses'')
      else if \<exists>e \<in> set (rp_status_retry_windows p). snd e = 0
      then Err (retry_invalid_policy p ''status retry windows must be greater than zero'')
      else if \<exists>e \<in> set (rp_transport_retry_windows p). snd e = 0
      then Err (retry_invalid_policy p ''transport retry windows must be greater than zero'')
      else if \<exists>e \<in> set (rp_timeout_retry_windows p). snd e = 0
      then Err (retry_invalid_policy p ''timeout retry windows must be greater than zero'')
      else if rp_response_body_read_retry_window p = Some 0
      then Err (retry_invalid_policy p ''response body read retry window must be greater than zero'')
      else Ok ())"

definition is_retryable_status :: "retry_policy \<Rightarrow> status \<Rightarrow> bool" where
  "is_retryable_status p s = (s \<in> rp_retryable_status_codes p)"

definition is_within_retry_window :: "nat option \<Rightarrow> nat \<Rightarrow> bool" where
  "is_within_retry_window limit attempt = (case limit of Some l \<Rightarrow> attempt < l | None \<Rightarrow> True)"

definition should_retry_decision :: "retry_policy \<Rightarrow> retry_decision \<Rightarrow> bool" where
  "should_retry_decision p d =
     (case rp_retry_classifier p of
        Some should_retry \<Rightarrow> should_retry d
      | None \<Rightarrow>
          (case rd_reason d of
             Reason_Status s \<Rightarrow>
               is_retryable_status p s \<and>
               is_within_retry_window (bt_get (rp_status_retry_windows p) s) (rd_attempt d)
           | Reason_Transport kind \<Rightarrow>
               kind \<in> rp_retryable_transport_error_kinds p \<and>
               is_within_retry_window (bt_get (rp_transport_retry_windows p) kind) (rd_attempt d)
           | Reason_Timeout phase \<Rightarrow>
               phase \<in> rp_retryable_timeout_phases p \<and>
               is_within_retry_window (bt_get (rp_timeout_retry_windows p) phase) (rd_attempt d)
           | Reason_ResponseBodyRead \<Rightarrow>
               rp_retry_on_response_body_read_error p \<and>
               is_within_retry_window (rp_response_body_read_retry_window p) (rd_attempt d)))"

definition backoff_for_retry :: "(nat \<Rightarrow> nat \<Rightarrow> nat) \<Rightarrow> retry_policy \<Rightarrow> nat \<Rightarrow> duration" where
  "backoff_for_retry sample p retry_index =
     exponential_backoff_with_jitter sample retry_index (rp_base_backoff p) (rp_max_backoff p)
       (rp_jitter_ratio p)"

subsection \<open>Redirect and status policies, request context\<close>

record redirect_policy =
  redirect_max_redirects :: nat

definition redirect_policy_none :: redirect_policy where
  "redirect_policy_none = \<lparr> redirect_max_redirects = 0 \<rparr>"

definition redirect_policy_limited :: "nat \<Rightarrow> redirect_policy" where
  "redirect_policy_limited n = \<lparr> redirect_max_redirects = n \<rparr>"

definition redirect_policy_follow :: redirect_policy where
  "redirect_policy_follow = redirect_policy_limited 10"

definition redirect_enabled :: "redirect_policy \<Rightarrow> bool" where
  "redirect_enabled p = (redirect_max_redirects p > 0)"

datatype status_policy = StatusPolicy_Error | StatusPolicy_Response

definition status_policy_is_error :: "status_policy \<Rightarrow> bool" where
  "status_policy_is_error p = (case p of StatusPolicy_Error \<Rightarrow> True | StatusPolicy_Response \<Rightarrow> False)"

record request_context =
  rc_method :: http_method
  rc_uri :: string
  rc_attempt :: nat
  rc_max_attempts :: nat
  rc_redirect_count :: nat

definition request_context_new ::
    "http_method \<Rightarrow> string \<Rightarrow> nat \<Rightarrow> nat \<Rightarrow> nat \<Rightarrow> request_context" where
  "request_context_new meth uri attempt max_attempts redirect_count =
     \<lparr> rc_method = meth, rc_uri = uri, rc_attempt = attempt, rc_max_attempts = max_attempts,
       rc_redirect_count = redirect_count \<rparr>"

subsection \<open>Timeouts and profiles\<close>

definition invalid_timeout_config ::
    "duration \<Rightarrow> duration option \<Rightarrow> duration option \<Rightarrow> string \<Rightarrow> 'h error" where
  "invalid_timeout_config request_timeout total_timeout connect_timeout message =
     InvalidTimeoutConfig (duration_millis_ceil request_timeout)
       (map_option duration_millis_ceil total_timeout)
       (map_option duration_millis_ceil connect_timeout) message"

definition validate_timeout_config ::
    "duration \<Rightarrow> duration option \<Rightarrow> duration option \<Rightarrow> 'h error unit_result" where
  "validate_timeout_config request_timeout total_timeout connect_timeout =
     (let invalid = (\<lambda>message.
            Err (invalid_timeout_config request_timeout total_timeout connect_timeout message))
      in if request_timeout = 0 then invalid ''request_timeout must be greater than zero''
         else if is_some_and (\<lambda>t. t = 0) total_timeout
         then invalid ''total_timeout must be greater than zero''
         else if is_some_and (\<lambda>t. t = 0) connect_timeout
         then invalid ''connect_timeout must be greater than zero''
         else Ok ())"

text \<open>\<open>from_str\<close> is \<open>HeaderValue::from_str\<close>, \<open>None\<close> its failure.\<close>

definition default_headers_with_user_agent ::
    "('h, 'v) header_ops \<Rightarrow> (string \<Rightarrow> 'v option) \<Rightarrow> string \<Rightarrow> 'h \<Rightarrow> ('h, 'h error) result" where
  "default_headers_with_user_agent H from_str client_name default_headers =
     (let invalid_config = (\<lambda>message. Err (InvalidClientNameConfig (length client_name) message))
      in if trim client_name = [] then invalid_config ''client_name must not be empty''
         else case from_str client_name of
           None \<Rightarrow> invalid_config ''client_name must be a valid HTTP header value''
         | Some user_agent \<Rightarrow>
             Ok (if \<not> hm_contains_key H default_headers ''user-agent''
                 then hm_insert H ''user-agent'' user_agent default_headers
                 else default_headers))"

datatype client_profile = StandardSdk | LowLatency | HighThroughput

record profile_defaults =
  pd_request_timeout :: duration
  pd_total_timeout :: "duration option"
  pd_retry_policy :: retry_policy
  pd_max_response_body_bytes :: nat
  pd_redirect_policy :: redirect_policy
  pd_status_policy :: status_policy

primrec client_profile_defaults :: "client_profile \<Rightarrow> profile_defaults" where
  "client_profile_defaults StandardSdk = \<lparr>
     pd_request_timeout = from_secs 10,
     pd_total_timeout = None,
     pd_retry_policy = retry_policy_standard,
     pd_max_response_body_bytes = 8 * 1024 * 1024,
     pd_redirect_policy = redirect_policy_none,
     pd_status_policy = StatusPolicy_Error \<rparr>"
| "client_profile_defaults LowLatency = \<lparr>
     pd_request_timeout = from_secs 2,
     pd_total_timeout = Some (from_secs 5),
     pd_retry_policy = retry_policy_standard\<lparr> rp_max_attempts := 2,
       rp_base_backoff := from_millis 50, rp_max_backoff := from_millis 300 \<rparr>,
     pd_max_response_body_bytes = 2 * 1024 * 1024,
     pd_redirect_policy = redirect_policy_none,
     pd_status_policy = StatusPolicy_Error \<rparr>"
| "client_profile_defaults HighThroughput = \<lparr>
     pd_request_timeout = from_secs 20,
     pd_total_timeout = Some (from_secs 60),
     pd_retry_policy = retry_policy_standard\<lparr> rp_max_attempts := 4,
       rp_base_backoff := from_millis 150, rp_max_backoff := from_secs 3 \<rparr>,
     pd_max_response_body_bytes = 32 * 1024 * 1024,
     pd_redirect_policy = redirect_policy_none,
     pd_status_policy = StatusPolicy_Error \<rparr>"

subsection \<open>Overrides\<close>

record request_execution_overrides =
  ov_request_timeout :: "duration option"
  ov_total_timeout :: "duration option option"
  ov_retry_policy :: "retry_policy option"
  ov_max_response_body_bytes :: "nat option"
  ov_redirect_policy :: "redirect_policy option"
  ov_status_policy :: "status_policy option"
  ov_auto_accept_encoding :: "bool option"

record request_execution_options =
  op_request_timeout :: duration
  op_total_timeout :: "duration option"
  op_retry_policy :: retry_policy
  op_max_response_body_bytes :: nat
  op_redirect_policy :: redirect_policy
  op_status_policy :: status_policy

definition overrides_resolve ::
    "request_execution_overrides \<Rightarrow> request_execution_options \<Rightarrow>
     (request_execution_options, 'h error) result" where
  "overrides_resolve ov defaults =
     (let request_timeout = unwrap_or (op_request_timeout defaults) (ov_request_timeout ov);
          total_timeout = unwrap_or (op_total_timeout defaults) (ov_total_timeout ov)
      in result_bind
           (if ov_request_timeout ov \<noteq> None \<or> ov_total_timeout ov \<noteq> None
            then validate_timeout_config request_timeout total_timeout None
            else Ok ())
           (\<lambda>_. result_bind
              (case ov_retry_policy ov of
                 Some policy \<Rightarrow> result_bind (retry_policy_validate policy) (\<lambda>_. Ok policy)
               | None \<Rightarrow> Ok (op_retry_policy defaults))
              (\<lambda>retry_policy. Ok \<lparr>
                 op_request_timeout = request_timeout,
                 op_total_timeout = total_timeout,
                 op_retry_policy = retry_policy,
                 op_max_response_body_bytes =
                   unwrap_or (op_max_response_body_bytes defaults) (ov_max_response_body_bytes ov),
                 op_redirect_policy =
                   unwrap_or (op_redirect_policy defaults) (ov_redirect_policy ov),
                 op_status_policy =
                   unwrap_or (op_status_policy defaults) (ov_status_policy ov) \<rparr>)))"

subsection \<open>Request bodies\<close>

datatype (dead 's) request_body = Buffered string | Streaming 's

definition request_body_default :: "'s request_body" where
  "request_body_default = Buffered []"

definition is_replayable :: "'s request_body \<Rightarrow> bool" where
  "is_replayable b = (case b of Buffered _ \<Rightarrow> True | Streaming _ \<Rightarrow> False)"

definition known_length :: "'s request_body \<Rightarrow> nat option" where
  "known_length b = (case b of Buffered body \<Rightarrow> Some (length body) | Streaming _ \<Rightarrow> None)"

text \<open>The body for the attempt, and the body that is left.\<close>

definition take_for_attempt :: "'s request_body \<Rightarrow> 's request_body \<times> 's request_body" where
  "take_for_attempt b =
     (case b of Buffered body \<Rightarrow> (Buffered body, b) | Streaming s \<Rightarrow> (b, request_body_default))"

subsection \<open>Valid configurations\<close>

definition retry_windows_valid :: "retry_policy \<Rightarrow> bool" where
  "retry_windows_valid p \<longleftrightarrow>
     (\<forall>e \<in> set (rp_status_retry_windows p). is_valid_retryable_status_code (fst e) \<and> 0 < snd e) \<and>
     (\<forall>e \<in> set (rp_transport_retry_windows p). 0 < snd e) \<and>
     (\<forall>e \<in> set (rp_timeout_retry_windows p). 0 < snd e) \<and>
     rp_response_body_read_retry_window p \<noteq> Some 0"

definition retry_policy_valid :: "retry_policy \<Rightarrow> bool" where
  "retry_policy_valid p \<longleftrightarrow>
     1 \<le> rp_max_attempts p \<and> 0 < rp_base_backoff p \<and> rp_base_backoff p \<le> rp_max_backoff p \<and>
     (\<exists>r. rp_jitter_ratio p = Fin r \<and> 0 \<le> r \<and> r \<le> 1) \<and>
     (\<forall>s \<in> rp_retryable_status_codes p. is_valid_retryable_status_code s) \<and>
     retry_windows_valid p"

definition options_valid :: "request_execution_options \<Rightarrow> bool" where
  "options_valid ops \<longleftrightarrow>
     0 < op_request_timeout ops \<and> op_total_timeout ops \<noteq> Some 0 \<and>
     retry_policy_valid (op_retry_policy ops)"

lemma jitter_valid_iff:
  "is_finite j \<and> f64_le (Fin 0) j \<and> f64_le j (Fin 1) \<longleftrightarrow> (\<exists>r. j = Fin r \<and> 0 \<le> r \<and> r \<le> 1)"
  by (cases j) auto

lemma retry_windows_valid_iff:
  "retry_windows_valid p \<longleftrightarrow>
     \<not> (\<exists>e \<in> set (rp_status_retry_windows p). \<not> is_valid_retryable_status_code (fst e)) \<and>
     \<not> (\<exists>e \<in> set (rp_status_retry_windows p). snd e = 0) \<and>
     \<not> (\<exists>e \<in> set (rp_transport_retry_windows p). snd e = 0) \<and>
     \<not> (\<exists>e \<in> set (rp_timeout_retry_windows p). snd e = 0) \<and>
     rp_response_body_read_retry_window p \<noteq> Some 0"
  by (auto simp: retry_windows_valid_def)

lemma retry_policy_validate_iff:
  "retry_policy_validate p = (Ok () :: 'h error unit_result) \<longleftrightarrow> retry_policy_valid p"
  unfolding retry_policy_validate_def retry_policy_valid_def retry_windows_valid_iff
    jitter_valid_iff [symmetric]
  by (simp add: not_less Suc_le_eq) blast

lemma validate_timeout_config_iff:
  "validate_timeout_config r t c = (Ok () :: 'h error unit_result) \<longleftrightarrow>
     0 < r \<and> t \<noteq> Some 0 \<and> c \<noteq> Some 0"
  by (cases t; cases c) (auto simp: validate_timeout_config_def Let_def)

lemma fl_unit_interval:
  assumes "0 \<le> x" and "x \<le> 1"
  shows "\<exists>r. fl x = Fin r \<and> 0 \<le> r \<and> r \<le> 1"
proof -
  have "f64_le (Fin 0) (fl x)" "f64_le (fl x) (Fin 1)"
    using fl_mono [OF assms(1)] fl_mono [OF assms(2)] by simp_all
  then show ?thesis by (cases "fl x") auto
qed

lemma retry_policy_standard_valid: "retry_policy_valid retry_policy_standard"
  using fl_unit_interval [of "2 / 10"]
  by (simp add: retry_policy_valid_def retry_policy_standard_def retry_windows_valid_def
      default_retryable_status_codes_def is_valid_retryable_status_code_def is_success_def
      from_millis_def from_secs_def nanos_per_sec_def)

lemma retry_policy_valid_backoff:
  "retry_policy_valid p \<Longrightarrow> 1 \<le> n \<Longrightarrow> 0 < b \<Longrightarrow> b \<le> c \<Longrightarrow>
   retry_policy_valid (p\<lparr> rp_max_attempts := n, rp_base_backoff := b, rp_max_backoff := c \<rparr>)"
  by (simp add: retry_policy_valid_def retry_windows_valid_def)

lemma overrides_resolve_valid:
  assumes "options_valid defaults"
    and "overrides_resolve ov defaults = (Ok ops :: (request_execution_options, 'h error) result)"
  shows "options_valid ops"
proof -
  have "0 < unwrap_or (op_request_timeout defaults) (ov_request_timeout ov) \<and>
      unwrap_or (op_total_timeout defaults) (ov_total_timeout ov) \<noteq> Some 0"
  proof (cases "ov_request_timeout ov \<noteq> None \<or> ov_total_timeout ov \<noteq> None")
    case True
    then have "validate_timeout_config (unwrap_or (op_request_timeout defaults) (ov_request_timeout ov))
        (unwrap_or (op_total_timeout defaults) (ov_total_timeout ov)) None =
        (Ok () :: 'h error unit_result)"
      using assms(2) by (auto simp: overrides_resolve_def Let_def result_bind_Ok_iff)
    then show ?thesis by (simp add: validate_timeout_config_iff)
  next
    case False
    then show ?thesis using assms(1) by (simp add: options_valid_def)
  qed
  moreover have "retry_policy_valid (op_retry_policy ops)"
  proof (cases "ov_retry_policy ov")
    case None
    then show ?thesis
      using assms by (auto simp: overrides_resolve_def Let_def result_bind_Ok_iff options_valid_def)
  next
    case (Some q)
    then have "retry_policy_validate q = (Ok () :: 'h error unit_result)" "op_retry_policy ops = q"
      using assms(2) by (auto simp: overrides_resolve_def Let_def result_bind_Ok_iff)
    then show ?thesis by (simp add: retry_policy_validate_iff)
  qed
  ultimately show ?thesis
    using assms(2) by (auto simp: overrides_resolve_def Let_def result_bind_Ok_iff options_valid_def)
qed

subsection \<open>Properties\<close>

text \<open>
  The defaults of every client profile are accepted by the validation that user-defined
  settings go through, retry policy and timeouts alike, and no profile follows redirects.
\<close>

theorem profile_defaults_are_valid:
  "retry_policy_validate (pd_retry_policy (client_profile_defaults profile)) =
     (Ok () :: 'h error unit_result) \<and>
   validate_timeout_config (pd_request_timeout (client_profile_defaults profile))
     (pd_total_timeout (client_profile_defaults profile)) (Some (from_secs 5)) =
     (Ok () :: 'h error unit_result) \<and>
   \<not> redirect_enabled (pd_redirect_policy (client_profile_defaults profile))"
  by (cases profile)
     (simp_all add: retry_policy_validate_iff validate_timeout_config_iff retry_policy_standard_valid
        retry_policy_valid_backoff redirect_policy_none_def redirect_enabled_def
        from_millis_def from_secs_def nanos_per_sec_def)

text \<open>
  Overrides cannot smuggle in an invalid configuration. From valid client settings, a request
  resolves exactly when the timeouts it overrides are not zero and the retry policy it overrides
  is valid; the options it then runs with are valid, and each of them is the override, where one
  was given, and the client setting otherwise.
\<close>

theorem overrides_resolve_exact:
  fixes ov :: request_execution_overrides and defaults :: request_execution_options
  assumes "options_valid defaults"
  shows "(is_ok (overrides_resolve ov defaults :: (request_execution_options, 'h error) result) \<longleftrightarrow>
      ov_request_timeout ov \<noteq> Some 0 \<and> ov_total_timeout ov \<noteq> Some (Some 0) \<and>
      is_none_or retry_policy_valid (ov_retry_policy ov)) \<and>
    (\<forall>ops. overrides_resolve ov defaults = (Ok ops :: (request_execution_options, 'h error) result) \<longrightarrow>
      options_valid ops \<and>
      op_request_timeout ops = unwrap_or (op_request_timeout defaults) (ov_request_timeout ov) \<and>
      op_total_timeout ops = unwrap_or (op_total_timeout defaults) (ov_total_timeout ov) \<and>
      op_retry_policy ops = unwrap_or (op_retry_policy defaults) (ov_retry_policy ov))"
proof -
  let ?r = "unwrap_or (op_request_timeout defaults) (ov_request_timeout ov)"
  let ?t = "unwrap_or (op_total_timeout defaults) (ov_total_timeout ov)"
  have ok: "is_ok (v :: 'h error unit_result) \<longleftrightarrow> v = Ok ()" for v by (cases v) auto
  have bind: "is_ok (result_bind x f) \<longleftrightarrow> is_ok x \<and> is_ok (f (ok_of x))"
    for x :: "('x, 'e) result" and f :: "'x \<Rightarrow> ('y, 'e) result"
    by (cases x) simp_all
  have defs: "0 < op_request_timeout defaults" "op_total_timeout defaults \<noteq> Some 0"
    using assms by (auto simp: options_valid_def)
  have "is_ok (if ov_request_timeout ov \<noteq> None \<or> ov_total_timeout ov \<noteq> None
      then validate_timeout_config ?r ?t None else (Ok () :: 'h error unit_result)) \<longleftrightarrow>
      ov_request_timeout ov \<noteq> Some 0 \<and> ov_total_timeout ov \<noteq> Some (Some 0)"
    using defs by (cases "ov_request_timeout ov"; cases "ov_total_timeout ov")
      (simp_all add: ok validate_timeout_config_iff)
  then have exact: "is_ok (overrides_resolve ov defaults :: (request_execution_options, 'h error) result) \<longleftrightarrow>
      ov_request_timeout ov \<noteq> Some 0 \<and> ov_total_timeout ov \<noteq> Some (Some 0) \<and>
      is_none_or retry_policy_valid (ov_retry_policy ov)"
    by (cases "ov_retry_policy ov")
       (simp_all add: overrides_resolve_def Let_def bind ok retry_policy_validate_iff del: option_fun_simps(5,6))
  have "options_valid ops \<and>
      op_request_timeout ops = unwrap_or (op_request_timeout defaults) (ov_request_timeout ov) \<and>
      op_total_timeout ops = unwrap_or (op_total_timeout defaults) (ov_total_timeout ov) \<and>
      op_retry_policy ops = unwrap_or (op_retry_policy defaults) (ov_retry_policy ov)"
    if res: "overrides_resolve ov defaults = (Ok ops :: (request_execution_options, 'h error) result)" for ops
    using res overrides_resolve_valid [OF assms res]
    by (auto simp: overrides_resolve_def Let_def result_bind_Ok_iff split: option.splits)
  with exact show ?thesis by blast
qed

theorem overrides_resolve_exact_witness:
  "let defaults = \<lparr> op_request_timeout = 5, op_total_timeout = None,
         op_retry_policy = retry_policy_standard, op_max_response_body_bytes = 1,
         op_redirect_policy = redirect_policy_none, op_status_policy = StatusPolicy_Error \<rparr>;
       ov = \<lparr> ov_request_timeout = None, ov_total_timeout = Some (Some 0), ov_retry_policy = None,
         ov_max_response_body_bytes = None, ov_redirect_policy = None, ov_status_policy = None,
         ov_auto_accept_encoding = None \<rparr>
   in options_valid defaults \<and>
      \<not> is_ok (overrides_resolve ov defaults :: (request_execution_options, unit error) result)"
proof -
  have "options_valid \<lparr> op_request_timeout = 5, op_total_timeout = None,
         op_retry_policy = retry_policy_standard, op_max_response_body_bytes = 1,
         op_redirect_policy = redirect_policy_none, op_status_policy = StatusPolicy_Error \<rparr>"
    by (simp add: options_valid_def retry_policy_standard_valid)
  then show ?thesis
    by (simp add: Let_def overrides_resolve_exact)
qed

end
