(* ===== verification/Reqx_Execution.thy ===== *)
theory Reqx_Execution
  imports Reqx_Redirect Reqx_Policy Reqx_RetryBudget
begin

text \<open>
  The state of one logical request (\<open>src/src/core/execution.rs\<close>), shared by the asynchronous and
  the blocking client: its preparation, the attempts it may still make, retry plans and
  schedules, the classification of failures, redirects, and the guards of an attempt.

  \<^item> \<open>now\<close> and \<open>now_system\<close> are the readings of the monotonic and of the system clock.
  \<^item> The traits \<open>EndpointSelector\<close>, \<open>BackoffSource\<close> and \<open>RetryEligibility\<close> are functions, and
    \<open>sample\<close> is the random generator of the back-off.
  \<^item> \<open>AttemptOutcome\<close> is a record of functions on the shared state \<open>'s\<close> that the guards act on.
  \<^item> A mutable reference to the attempt counter is the counter, returned updated.
\<close>

subsection \<open>Preparation\<close>

type_synonym 'h endpoint_selector = "http_method \<Rightarrow> string \<Rightarrow> string \<Rightarrow> (string, 'h error) result"
type_synonym backoff_source = "retry_policy \<Rightarrow> nat \<Rightarrow> duration"

record ('h, 'u, 'b) retry_request_input =
  ri_method :: http_method
  ri_uri :: 'u
  ri_redacted_uri_text :: string
  ri_merged_headers :: 'h
  ri_body :: 'b
  ri_execution_options :: request_execution_options

record ('h, 'b) request_execution_preparation =
  prep_endpoint_selector :: "'h endpoint_selector option"
  prep_configured_base_url :: string
  prep_method :: http_method
  prep_path :: string
  prep_default_headers :: 'h
  prep_headers :: 'h
  prep_body :: "'b option"
  prep_execution_options :: request_execution_overrides
  prep_defaults :: request_execution_options
  prep_default_auto_accept_encoding :: bool

definition select_base_url ::
    "'u uri_ops \<Rightarrow> 'w url_ops \<Rightarrow> 'h endpoint_selector option \<Rightarrow> http_method \<Rightarrow> string \<Rightarrow> string \<Rightarrow>
     (string, 'h error) result" where
  "select_base_url U W endpoint_selector meth path configured_base_url =
     (case endpoint_selector of
        None \<Rightarrow> Ok configured_base_url
      | Some selector \<Rightarrow>
          result_bind (selector meth path configured_base_url) (\<lambda>selected.
          result_bind (validate_base_url U W selected) (\<lambda>_. Ok selected)))"

definition prepare_retry_request_input ::
    "('h, 'v) header_ops \<Rightarrow> 'u uri_ops \<Rightarrow> 'w url_ops \<Rightarrow> string option \<Rightarrow> 'b \<Rightarrow>
     ('h, 'b) request_execution_preparation \<Rightarrow> (('h, 'u, 'b) retry_request_input, 'h error) result" where
  "prepare_retry_request_input H U W enabled_encodings default_body input =
     result_bind (select_base_url U W (prep_endpoint_selector input) (prep_method input)
                    (prep_path input) (prep_configured_base_url input)) (\<lambda>base_url.
     result_bind (resolve_uri U W base_url (prep_path input)) (\<lambda>(uri_text, uri).
       let redacted_uri_text = redact_uri_for_logs W uri_text;
           auto_accept_encoding = unwrap_or (prep_default_auto_accept_encoding input)
             (ov_auto_accept_encoding (prep_execution_options input))
       in result_bind (overrides_resolve (prep_execution_options input) (prep_defaults input))
            (\<lambda>execution_options.
               let has_request_content_length =
                     hm_contains_key H (prep_headers input) ''content-length'';
                   merged_headers = merge_headers H (prep_default_headers input) (prep_headers input);
                   merged_headers = (if \<not> has_request_content_length
                     then hm_remove H ''content-length'' merged_headers else merged_headers);
                   merged_headers = (if auto_accept_encoding
                     then ensure_accept_encoding H enabled_encodings (prep_method input) merged_headers
                     else merged_headers)
               in Ok \<lparr> ri_method = prep_method input, ri_uri = uri,
                       ri_redacted_uri_text = redacted_uri_text, ri_merged_headers = merged_headers,
                       ri_body = unwrap_or default_body (prep_body input),
                       ri_execution_options = execution_options \<rparr>)))"

datatype response_mode = ResponseMode_Buffered | ResponseMode_Stream

definition is_buffered :: "response_mode \<Rightarrow> bool" where
  "is_buffered m = (case m of ResponseMode_Buffered \<Rightarrow> True | ResponseMode_Stream \<Rightarrow> False)"

definition is_stream :: "response_mode \<Rightarrow> bool" where
  "is_stream m = (case m of ResponseMode_Stream \<Rightarrow> True | ResponseMode_Buffered \<Rightarrow> False)"

subsection \<open>The state of a request\<close>

record ('h, 'u) request_execution_state =
  es_options :: request_execution_options
  es_request_started_at :: instant
  es_attempt :: nat
  es_max_attempts :: nat
  es_redirect_count :: nat
  es_current_method :: http_method
  es_current_uri :: 'u
  es_current_redacted_uri :: string
  es_current_headers :: 'h
  es_body_replayable :: bool

definition from_request ::
    "('h, 'u, 's request_body) retry_request_input \<Rightarrow> instant \<Rightarrow> 'h retry_eligibility \<Rightarrow>
     ('h, 'u) request_execution_state \<times> 's request_body" where
  "from_request input request_started_at supports_retry =
     (let body_replayable = is_replayable (ri_body input);
          max_attempts =
            (if supports_retry (ri_method input) (ri_merged_headers input) \<and> body_replayable
             then rp_max_attempts (op_retry_policy (ri_execution_options input))
             else 1)
      in (\<lparr> es_options = ri_execution_options input, es_request_started_at = request_started_at,
            es_attempt = 1, es_max_attempts = max_attempts, es_redirect_count = 0,
            es_current_method = ri_method input, es_current_uri = ri_uri input,
            es_current_redacted_uri = ri_redacted_uri_text input,
            es_current_headers = ri_merged_headers input,
            es_body_replayable = body_replayable \<rparr>,
          ri_body input))"

definition can_attempt :: "('h, 'u) request_execution_state \<Rightarrow> bool" where
  "can_attempt st = (es_attempt st \<le> es_max_attempts st)"

definition tighten_retry_eligibility ::
    "'h \<Rightarrow> 'h retry_eligibility \<Rightarrow> ('h, 'u) request_execution_state \<Rightarrow> ('h, 'u) request_execution_state" where
  "tighten_retry_eligibility attempt_headers supports_retry st =
     (if es_max_attempts st > es_attempt st \<and>
         (\<not> es_body_replayable st \<or> \<not> supports_retry (es_current_method st) attempt_headers)
      then st\<lparr> es_max_attempts := es_attempt st \<rparr> else st)"

definition es_context :: "('h, 'u) request_execution_state \<Rightarrow> request_context" where
  "es_context st =
     request_context_new (es_current_method st) (es_current_redacted_uri st) (es_attempt st)
       (es_max_attempts st) (es_redirect_count st)"

record stream_timing =
  st_total_timeout_ms :: "nat option"
  st_deadline_at :: "instant option"

definition stream_timing_of :: "duration option \<Rightarrow> instant \<Rightarrow> stream_timing" where
  "stream_timing_of total_timeout request_started_at =
     \<lparr> st_total_timeout_ms = map_option duration_millis_ceil total_timeout,
       st_deadline_at = total_timeout_deadline total_timeout request_started_at \<rparr>"

definition es_stream_timing :: "('h, 'u) request_execution_state \<Rightarrow> stream_timing" where
  "es_stream_timing st = stream_timing_of (op_total_timeout (es_options st)) (es_request_started_at st)"

definition rate_limit_host :: "'u uri_ops \<Rightarrow> ('h, 'u) request_execution_state \<Rightarrow> string option" where
  "rate_limit_host U st = rate_limit_bucket_key U (es_current_uri st)"

definition es_phase_timeout :: "instant \<Rightarrow> ('h, 'u) request_execution_state \<Rightarrow> duration option" where
  "es_phase_timeout now st =
     phase_timeout now (op_request_timeout (es_options st)) (op_total_timeout (es_options st))
       (es_request_started_at st)"

definition deadline_error :: "('h, 'u) request_execution_state \<Rightarrow> 'h error" where
  "deadline_error st =
     deadline_exceeded_error (op_total_timeout (es_options st)) (es_current_method st)
       (es_current_redacted_uri st)"

definition transport_timeout_error ::
    "instant \<Rightarrow> duration option \<Rightarrow> instant \<Rightarrow> nat \<Rightarrow> http_method \<Rightarrow> string \<Rightarrow> 'h error" where
  "transport_timeout_error now total_timeout request_started_at timeout_ms meth redacted_uri =
     (if total_timeout_expired now total_timeout request_started_at
      then deadline_exceeded_error total_timeout meth redacted_uri
      else Timeout Phase_Transport timeout_ms meth redacted_uri)"

definition es_transport_timeout_error ::
    "instant \<Rightarrow> ('h, 'u) request_execution_state \<Rightarrow> nat \<Rightarrow> 'h error" where
  "es_transport_timeout_error now st timeout_ms =
     transport_timeout_error now (op_total_timeout (es_options st)) (es_request_started_at st)
       timeout_ms (es_current_method st) (es_current_redacted_uri st)"

subsection \<open>Retry plans\<close>

definition retry_backoff ::
    "(nat \<Rightarrow> nat \<Rightarrow> nat) \<Rightarrow> retry_policy \<Rightarrow> backoff_source option \<Rightarrow> nat \<Rightarrow> duration" where
  "retry_backoff sample policy source attempt =
     (case source of Some f \<Rightarrow> f policy attempt | None \<Rightarrow> backoff_for_retry sample policy attempt)"

definition es_retry_backoff ::
    "(nat \<Rightarrow> nat \<Rightarrow> nat) \<Rightarrow> backoff_source option \<Rightarrow> ('h, 'u) request_execution_state \<Rightarrow> duration" where
  "es_retry_backoff sample source st =
     retry_backoff sample (op_retry_policy (es_options st)) source (es_attempt st)"

record retry_plan =
  plan_decision :: retry_decision
  plan_delay :: duration

datatype attempt_disposition = Disposition_Failure | Disposition_Cancel

datatype transport_failure_plan = Plan_Retry retry_plan | Plan_Terminal attempt_disposition

datatype request_completion = Completion_Success | Completion_Failure

record 'h terminal_non_success =
  tns_error :: "'h error"
  tns_completion :: request_completion

definition status_retry_decision ::
    "nat \<Rightarrow> nat \<Rightarrow> http_method \<Rightarrow> string \<Rightarrow> status \<Rightarrow> retry_decision" where
  "status_retry_decision attempt max_attempts meth redacted_uri s =
     retry_decision_new attempt max_attempts meth redacted_uri (Reason_Status s)"

definition transport_retry_decision ::
    "nat \<Rightarrow> nat \<Rightarrow> http_method \<Rightarrow> string \<Rightarrow> transport_error_kind \<Rightarrow> retry_decision" where
  "transport_retry_decision attempt max_attempts meth redacted_uri kind =
     retry_decision_new attempt max_attempts meth redacted_uri (Reason_Transport kind)"

definition timeout_retry_decision ::
    "nat \<Rightarrow> nat \<Rightarrow> http_method \<Rightarrow> string \<Rightarrow> timeout_phase \<Rightarrow> retry_decision" where
  "timeout_retry_decision attempt max_attempts meth redacted_uri phase =
     retry_decision_new attempt max_attempts meth redacted_uri (Reason_Timeout phase)"

definition response_body_read_retry_decision ::
    "nat \<Rightarrow> nat \<Rightarrow> http_method \<Rightarrow> string \<Rightarrow> retry_decision" where
  "response_body_read_retry_decision attempt max_attempts meth redacted_uri =
     retry_decision_new attempt max_attempts meth redacted_uri Reason_ResponseBodyRead"

definition transport_retry_decision_from_error ::
    "nat \<Rightarrow> nat \<Rightarrow> http_method \<Rightarrow> string \<Rightarrow> 'h error \<Rightarrow> retry_decision option" where
  "transport_retry_decision_from_error attempt max_attempts meth redacted_uri e =
     (case e of
        Transport kind _ _ _ _ \<Rightarrow>
          Some (transport_retry_decision attempt max_attempts meth redacted_uri kind)
      | Timeout phase _ _ _ \<Rightarrow>
          Some (timeout_retry_decision attempt max_attempts meth redacted_uri phase)
      | _ \<Rightarrow> None)"

definition es_transport_retry_decision_from_error ::
    "('h, 'u) request_execution_state \<Rightarrow> 'h error \<Rightarrow> retry_decision option" where
  "es_transport_retry_decision_from_error st e =
     transport_retry_decision_from_error (es_attempt st) (es_max_attempts st) (es_current_method st)
       (es_current_redacted_uri st) e"

definition is_deadline_exceeded :: "'h error \<Rightarrow> bool" where
  "is_deadline_exceeded e = (case e of DeadlineExceeded _ _ _ \<Rightarrow> True | _ \<Rightarrow> False)"

definition transport_failure_plan_of ::
    "(nat \<Rightarrow> nat \<Rightarrow> nat) \<Rightarrow> backoff_source option \<Rightarrow> ('h, 'u) request_execution_state \<Rightarrow> 'h error \<Rightarrow>
     transport_failure_plan" where
  "transport_failure_plan_of sample source st e =
     (case es_transport_retry_decision_from_error st e of
        Some decision \<Rightarrow>
          Plan_Retry \<lparr> plan_decision = decision, plan_delay = es_retry_backoff sample source st \<rparr>
      | None \<Rightarrow>
          Plan_Terminal (if is_deadline_exceeded e then Disposition_Failure else Disposition_Cancel))"

definition status_retry_delay ::
    "('h, 'v) header_ops \<Rightarrow> (string \<Rightarrow> system_time option) \<Rightarrow> system_time \<Rightarrow> 'h \<Rightarrow> duration \<Rightarrow> duration \<Rightarrow>
     duration" where
  "status_retry_delay H parse_date now_system headers fallback max_delay =
     (let retry_after_cap = (if max_delay = 0 then from_millis 1 else max_delay);
          fallback = min fallback retry_after_cap
      in unwrap_or fallback (parse_retry_after_capped H parse_date headers now_system retry_after_cap))"

definition server_throttle_delay ::
    "('h, 'v) header_ops \<Rightarrow> (string \<Rightarrow> system_time option) \<Rightarrow> system_time \<Rightarrow> 'h \<Rightarrow> duration \<Rightarrow> duration" where
  "server_throttle_delay H parse_date now_system headers fallback =
     unwrap_or fallback (parse_retry_after H parse_date headers now_system)"

definition status_retry_plan ::
    "('h, 'v) header_ops \<Rightarrow> (string \<Rightarrow> system_time option) \<Rightarrow> (nat \<Rightarrow> nat \<Rightarrow> nat) \<Rightarrow> system_time \<Rightarrow>
     backoff_source option \<Rightarrow> ('h, 'u) request_execution_state \<Rightarrow> status \<Rightarrow> 'h \<Rightarrow> retry_plan" where
  "status_retry_plan H parse_date sample now_system source st s headers =
     \<lparr> plan_decision = status_retry_decision (es_attempt st) (es_max_attempts st)
         (es_current_method st) (es_current_redacted_uri st) s,
       plan_delay = status_retry_delay H parse_date now_system headers
         (es_retry_backoff sample source st) (rp_max_backoff (op_retry_policy (es_options st))) \<rparr>"

definition http_status_error ::
    "status \<Rightarrow> http_method \<Rightarrow> string \<Rightarrow> 'h \<Rightarrow> string \<Rightarrow> 'h error" where
  "http_status_error s meth redacted_uri headers body = HttpStatus s meth redacted_uri headers body"

definition status_retry_error ::
    "status \<Rightarrow> http_method \<Rightarrow> string \<Rightarrow> 'h \<Rightarrow> 'h error" where
  "status_retry_error s meth redacted_uri headers = http_status_error s meth redacted_uri headers []"

definition es_status_retry_error ::
    "('h, 'u) request_execution_state \<Rightarrow> status \<Rightarrow> 'h \<Rightarrow> 'h error" where
  "es_status_retry_error st s headers =
     status_retry_error s (es_current_method st) (es_current_redacted_uri st) headers"

definition should_return_non_success_response :: "status_policy \<Rightarrow> bool" where
  "should_return_non_success_response p =
     (case p of StatusPolicy_Response \<Rightarrow> True | StatusPolicy_Error \<Rightarrow> False)"

definition from_response_status :: "retry_policy \<Rightarrow> status \<Rightarrow> request_completion" where
  "from_response_status p s =
     (if is_retryable_status p s then Completion_Failure else Completion_Success)"

definition terminal_non_success_of ::
    "status \<Rightarrow> http_method \<Rightarrow> string \<Rightarrow> 'h \<Rightarrow> string \<Rightarrow> retry_policy \<Rightarrow> 'h terminal_non_success" where
  "terminal_non_success_of s meth redacted_uri headers body p =
     \<lparr> tns_error = http_status_error s meth redacted_uri headers (truncate_body body),
       tns_completion = from_response_status p s \<rparr>"

definition es_terminal_non_success ::
    "('h, 'u) request_execution_state \<Rightarrow> status \<Rightarrow> 'h \<Rightarrow> string \<Rightarrow> 'h terminal_non_success" where
  "es_terminal_non_success st s headers body =
     terminal_non_success_of s (es_current_method st) (es_current_redacted_uri st) headers body
       (op_retry_policy (es_options st))"

definition non_success_completion ::
    "('h, 'u) request_execution_state \<Rightarrow> status \<Rightarrow> request_completion" where
  "non_success_completion st s = from_response_status (op_retry_policy (es_options st)) s"

definition es_should_return_non_success_response :: "('h, 'u) request_execution_state \<Rightarrow> bool" where
  "es_should_return_non_success_response st =
     should_return_non_success_response (op_status_policy (es_options st))"

subsection \<open>Retry schedules\<close>

datatype retry_schedule = NotScheduled | Scheduled duration

record retry_attempt_state =
  ra_retry_policy :: retry_policy
  ra_total_timeout :: "duration option"
  ra_request_started_at :: instant
  ra_method :: http_method
  ra_redacted_uri :: string
  ra_attempt :: nat
  ra_max_attempts :: nat

definition es_retry_attempt :: "('h, 'u) request_execution_state \<Rightarrow> retry_attempt_state" where
  "es_retry_attempt st = \<lparr>
     ra_retry_policy = op_retry_policy (es_options st),
     ra_total_timeout = op_total_timeout (es_options st),
     ra_request_started_at = es_request_started_at st,
     ra_method = es_current_method st,
     ra_redacted_uri = es_current_redacted_uri st,
     ra_attempt = es_attempt st,
     ra_max_attempts = es_max_attempts st \<rparr>"

text \<open>
  \<open>consume_retry_budget\<close> acts on a shared state, which is threaded through. The result is the
  schedule, the attempt counter afterwards and that state.
\<close>

definition prepare_retry_schedule ::
    "instant \<Rightarrow> retry_attempt_state \<Rightarrow> retry_decision \<Rightarrow> duration \<Rightarrow>
     (http_method \<Rightarrow> string \<Rightarrow> 's \<Rightarrow> 'h error unit_result \<times> 's) \<Rightarrow> 's \<Rightarrow>
     (retry_schedule, 'h error) result \<times> nat \<times> 's" where
  "prepare_retry_schedule now ra decision requested_delay consume_retry_budget s =
     (if ra_attempt ra \<ge> ra_max_attempts ra \<or> \<not> should_retry_decision (ra_retry_policy ra) decision
      then (Ok NotScheduled, ra_attempt ra, s)
      else case bounded_retry_delay now requested_delay (ra_total_timeout ra)
                  (ra_request_started_at ra) of
        None \<Rightarrow>
          (Err (deadline_exceeded_error (ra_total_timeout ra) (ra_method ra) (ra_redacted_uri ra)),
           ra_attempt ra, s)
      | Some delay \<Rightarrow>
          (case consume_retry_budget (ra_method ra) (ra_redacted_uri ra) s of
             (Err e, s) \<Rightarrow> (Err e, ra_attempt ra, s)
           | (Ok _, s) \<Rightarrow> (Ok (Scheduled delay), ra_attempt ra + 1, s)))"

subsection \<open>Reading a response body\<close>

record body_read_retry_context =
  br_context :: request_context
  br_max_response_body_bytes :: nat
  br_read_timeout :: duration
  br_total_timeout :: "duration option"
  br_request_started_at :: instant
  br_method :: http_method
  br_redacted_uri :: string
  br_retry_policy :: retry_policy
  br_max_attempts :: nat
  br_attempt :: nat

datatype (dead 'h) body_read_failure =
    BodyRead_Terminal "'h error"
  | BodyRead_Retryable "'h error" retry_plan

datatype body_read_outcome = BodyRead_Body string | BodyRead_Retry duration

definition es_body_read_retry_context ::
    "request_context \<Rightarrow> duration \<Rightarrow> ('h, 'u) request_execution_state \<Rightarrow> body_read_retry_context" where
  "es_body_read_retry_context context read_timeout st = \<lparr>
     br_context = context,
     br_max_response_body_bytes = op_max_response_body_bytes (es_options st),
     br_read_timeout = read_timeout,
     br_total_timeout = op_total_timeout (es_options st),
     br_request_started_at = es_request_started_at st,
     br_method = es_current_method st,
     br_redacted_uri = es_current_redacted_uri st,
     br_retry_policy = op_retry_policy (es_options st),
     br_max_attempts = es_max_attempts st,
     br_attempt = es_attempt st \<rparr>"

record body_read_deadline =
  bd_total_timeout :: "duration option"
  bd_request_started_at :: instant
  bd_method :: http_method
  bd_redacted_uri :: string

definition error_if_elapsed :: "instant \<Rightarrow> body_read_deadline \<Rightarrow> 'h error option" where
  "error_if_elapsed now d =
     (if total_timeout_expired now (bd_total_timeout d) (bd_request_started_at d)
      then Some (deadline_exceeded_error (bd_total_timeout d) (bd_method d) (bd_redacted_uri d))
      else None)"

definition br_deadline :: "body_read_retry_context \<Rightarrow> body_read_deadline" where
  "br_deadline b = \<lparr> bd_total_timeout = br_total_timeout b,
     bd_request_started_at = br_request_started_at b, bd_method = br_method b,
     bd_redacted_uri = br_redacted_uri b \<rparr>"

definition response_body_too_large_error :: "body_read_retry_context \<Rightarrow> nat \<Rightarrow> 'h error" where
  "response_body_too_large_error b actual_bytes =
     ResponseBodyTooLarge (br_max_response_body_bytes b) actual_bytes (br_method b) (br_redacted_uri b)"

definition response_body_read_retry_plan ::
    "(nat \<Rightarrow> nat \<Rightarrow> nat) \<Rightarrow> backoff_source option \<Rightarrow> body_read_retry_context \<Rightarrow> retry_plan" where
  "response_body_read_retry_plan sample source b =
     \<lparr> plan_decision = response_body_read_retry_decision (br_attempt b) (br_max_attempts b)
         (br_method b) (br_redacted_uri b),
       plan_delay = retry_backoff sample (br_retry_policy b) source (br_attempt b) \<rparr>"

definition response_body_timeout_retry_plan ::
    "(nat \<Rightarrow> nat \<Rightarrow> nat) \<Rightarrow> backoff_source option \<Rightarrow> body_read_retry_context \<Rightarrow> retry_plan" where
  "response_body_timeout_retry_plan sample source b =
     \<lparr> plan_decision = timeout_retry_decision (br_attempt b) (br_max_attempts b) (br_method b)
         (br_redacted_uri b) Phase_ResponseBody,
       plan_delay = retry_backoff sample (br_retry_policy b) source (br_attempt b) \<rparr>"

definition response_body_read_failure ::
    "(nat \<Rightarrow> nat \<Rightarrow> nat) \<Rightarrow> backoff_source option \<Rightarrow> body_read_retry_context \<Rightarrow> box_error \<Rightarrow>
     'h body_read_failure" where
  "response_body_read_failure sample source b cause =
     BodyRead_Retryable (ReadBody cause) (response_body_read_retry_plan sample source b)"

definition response_body_timeout_failure ::
    "instant \<Rightarrow> (nat \<Rightarrow> nat \<Rightarrow> nat) \<Rightarrow> backoff_source option \<Rightarrow> body_read_retry_context \<Rightarrow>
     'h body_read_failure" where
  "response_body_timeout_failure now sample source b =
     (let e = (if total_timeout_expired now (br_total_timeout b) (br_request_started_at b)
               then deadline_exceeded_error (br_total_timeout b) (br_method b) (br_redacted_uri b)
               else Timeout Phase_ResponseBody (duration_millis_ceil (br_read_timeout b))
                      (br_method b) (br_redacted_uri b))
      in if is_deadline_exceeded e then BodyRead_Terminal e
         else BodyRead_Retryable e (response_body_timeout_retry_plan sample source b))"

definition br_retry_attempt :: "body_read_retry_context \<Rightarrow> retry_attempt_state" where
  "br_retry_attempt b = \<lparr>
     ra_retry_policy = br_retry_policy b, ra_total_timeout = br_total_timeout b,
     ra_request_started_at = br_request_started_at b, ra_method = br_method b,
     ra_redacted_uri = br_redacted_uri b, ra_attempt = br_attempt b,
     ra_max_attempts = br_max_attempts b \<rparr>"

subsection \<open>Attempt guards\<close>

record ('g, 's) attempt_outcome =
  ao_mark_success :: "'g \<Rightarrow> 's \<Rightarrow> 's"
  ao_mark_failure :: "'g \<Rightarrow> 's \<Rightarrow> 's"
  ao_cancel :: "'g \<Rightarrow> 's \<Rightarrow> 's"

record ('c, 'a) attempt_guards =
  ag_circuit :: "'c option"
  ag_adaptive :: "'a option"

definition guards_is_empty :: "('c, 'a) attempt_guards \<Rightarrow> bool" where
  "guards_is_empty g = (ag_circuit g = None \<and> ag_adaptive g = None)"

definition set_adaptive :: "'a option \<Rightarrow> ('c, 'a) attempt_guards \<Rightarrow> ('c, 'a) attempt_guards" where
  "set_adaptive adaptive g = g\<lparr> ag_adaptive := adaptive \<rparr>"

definition guards_take :: "('c, 'a) attempt_guards \<Rightarrow> ('c, 'a) attempt_guards \<times> ('c, 'a) attempt_guards" where
  "guards_take g = (g, \<lparr> ag_circuit = None, ag_adaptive = None \<rparr>)"

text \<open>Applies an outcome to a guard that is taken out of its slot, when it is there.\<close>

definition take_and :: "('g \<Rightarrow> 's \<Rightarrow> 's) \<Rightarrow> 'g option \<Rightarrow> 's \<Rightarrow> 's" where
  "take_and f slot s = (case slot of Some g \<Rightarrow> f g s | None \<Rightarrow> s)"

definition guards_mark_success ::
    "('c, 's) attempt_outcome \<Rightarrow> ('a, 's) attempt_outcome \<Rightarrow> ('c, 'a) attempt_guards \<Rightarrow> 's \<Rightarrow>
     ('c, 'a) attempt_guards \<times> 's" where
  "guards_mark_success C A g s =
     (let s = take_and (ao_mark_success C) (ag_circuit g) s;
          s = take_and (ao_mark_success A) (ag_adaptive g) s
      in (\<lparr> ag_circuit = None, ag_adaptive = None \<rparr>, s))"

definition guards_mark_failure ::
    "('c, 's) attempt_outcome \<Rightarrow> ('a, 's) attempt_outcome \<Rightarrow> ('c, 'a) attempt_guards \<Rightarrow> 's \<Rightarrow>
     ('c, 'a) attempt_guards \<times> 's" where
  "guards_mark_failure C A g s =
     (let s = take_and (ao_mark_failure C) (ag_circuit g) s;
          s = take_and (ao_mark_failure A) (ag_adaptive g) s
      in (\<lparr> ag_circuit = None, ag_adaptive = None \<rparr>, s))"

definition guards_cancel ::
    "('c, 's) attempt_outcome \<Rightarrow> ('a, 's) attempt_outcome \<Rightarrow> ('c, 'a) attempt_guards \<Rightarrow> 's \<Rightarrow>
     ('c, 'a) attempt_guards \<times> 's" where
  "guards_cancel C A g s =
     (let s = take_and (ao_cancel C) (ag_circuit g) s;
          s = take_and (ao_cancel A) (ag_adaptive g) s
      in (\<lparr> ag_circuit = None, ag_adaptive = None \<rparr>, s))"

definition record_failure_for_retry_schedule ::
    "('c, 's) attempt_outcome \<Rightarrow> ('a, 's) attempt_outcome \<Rightarrow> (retry_schedule, 'h error) result \<Rightarrow>
     ('c, 'a) attempt_guards \<Rightarrow> 's \<Rightarrow>
     (retry_schedule, 'h error) result \<times> ('c, 'a) attempt_guards \<times> 's" where
  "record_failure_for_retry_schedule C A retry_schedule g s =
     (case retry_schedule of
        Ok (Scheduled delay) \<Rightarrow> (Ok (Scheduled delay), guards_mark_failure C A g s)
      | Ok NotScheduled \<Rightarrow> (Ok NotScheduled, g, s)
      | Err e \<Rightarrow> (Err e, guards_mark_failure C A g s))"

definition record_failure_on_error ::
    "('c, 's) attempt_outcome \<Rightarrow> ('a, 's) attempt_outcome \<Rightarrow> ('x, 'h error) result \<Rightarrow>
     ('c, 'a) attempt_guards \<Rightarrow> 's \<Rightarrow> ('x, 'h error) result \<times> ('c, 'a) attempt_guards \<times> 's" where
  "record_failure_on_error C A res g s =
     (case res of Ok v \<Rightarrow> (Ok v, g, s) | Err e \<Rightarrow> (Err e, guards_mark_failure C A g s))"

definition disposition_apply ::
    "('c, 's) attempt_outcome \<Rightarrow> ('a, 's) attempt_outcome \<Rightarrow> attempt_disposition \<Rightarrow>
     ('c, 'a) attempt_guards \<Rightarrow> 's \<Rightarrow> ('c, 'a) attempt_guards \<times> 's" where
  "disposition_apply C A d g s =
     (case d of Disposition_Failure \<Rightarrow> guards_mark_failure C A g s
      | Disposition_Cancel \<Rightarrow> guards_cancel C A g s)"

definition record_attempt ::
    "('c, 's) attempt_outcome \<Rightarrow> ('a, 's) attempt_outcome \<Rightarrow> request_completion \<Rightarrow>
     ('c, 'a) attempt_guards \<Rightarrow> 's \<Rightarrow> ('c, 'a) attempt_guards \<times> 's" where
  "record_attempt C A completion g s =
     (case completion of Completion_Success \<Rightarrow> guards_mark_success C A g s
      | Completion_Failure \<Rightarrow> guards_mark_failure C A g s)"

text \<open>
  \<open>record_budget_success\<close> is \<open>RetryBudget::record_success\<close> on the shared state, \<open>None\<close> when the
  client has no retry budget.
\<close>

definition record_completed ::
    "('c, 's) attempt_outcome \<Rightarrow> ('a, 's) attempt_outcome \<Rightarrow> ('s \<Rightarrow> 's) option \<Rightarrow> request_completion \<Rightarrow>
     ('c, 'a) attempt_guards \<Rightarrow> 's \<Rightarrow> ('c, 'a) attempt_guards \<times> 's" where
  "record_completed C A record_budget_success completion g s =
     (let (g, s) = record_attempt C A completion g s
      in (g, case (completion, record_budget_success) of
               (Completion_Success, Some f) \<Rightarrow> f s | _ \<Rightarrow> s))"

record ('c, 'a, 's) stream_resilience_hooks =
  sh_retry_budget :: "('s \<Rightarrow> 's) option"
  sh_attempts :: "('c, 'a) attempt_guards"

text \<open>The hooks a response stream is given, \<open>None\<close> for \<open>StreamLifecycle::default()\<close>.\<close>

definition into_stream_lifecycle ::
    "('c, 's) attempt_outcome \<Rightarrow> ('a, 's) attempt_outcome \<Rightarrow> ('s \<Rightarrow> 's) option \<Rightarrow> request_completion \<Rightarrow>
     ('c, 'a) attempt_guards \<Rightarrow> 's \<Rightarrow>
     ('c, 'a, 's) stream_resilience_hooks option \<times> ('c, 'a) attempt_guards \<times> 's" where
  "into_stream_lifecycle C A retry_budget completion g s =
     (case completion of
        Completion_Failure \<Rightarrow> (None, guards_mark_failure C A g s)
      | Completion_Success \<Rightarrow>
          if retry_budget = None \<and> guards_is_empty g then (None, g, s)
          else (let (taken, rest) = guards_take g
                in (Some \<lparr> sh_retry_budget = retry_budget, sh_attempts = taken \<rparr>, rest, s)))"

definition hooks_complete_success ::
    "('c, 's) attempt_outcome \<Rightarrow> ('a, 's) attempt_outcome \<Rightarrow> ('c, 'a, 's) stream_resilience_hooks \<Rightarrow> 's \<Rightarrow>
     ('c, 'a, 's) stream_resilience_hooks \<times> 's" where
  "hooks_complete_success C A h s =
     (let s = (case sh_retry_budget h of Some f \<Rightarrow> f s | None \<Rightarrow> s);
          (g, s) = guards_mark_success C A (sh_attempts h) s
      in (\<lparr> sh_retry_budget = None, sh_attempts = g \<rparr>, s))"

definition hooks_complete_error ::
    "('c, 's) attempt_outcome \<Rightarrow> ('a, 's) attempt_outcome \<Rightarrow> ('c, 'a, 's) stream_resilience_hooks \<Rightarrow> 's \<Rightarrow>
     ('c, 'a, 's) stream_resilience_hooks \<times> 's" where
  "hooks_complete_error C A h s =
     (let (g, s) = guards_mark_failure C A (sh_attempts h) s
      in (\<lparr> sh_retry_budget = None, sh_attempts = g \<rparr>, s))"

definition hooks_complete_canceled ::
    "('c, 's) attempt_outcome \<Rightarrow> ('a, 's) attempt_outcome \<Rightarrow> ('c, 'a, 's) stream_resilience_hooks \<Rightarrow> 's \<Rightarrow>
     ('c, 'a, 's) stream_resilience_hooks \<times> 's" where
  "hooks_complete_canceled C A h s =
     (let (g, s) = guards_cancel C A (sh_attempts h) s
      in (\<lparr> sh_retry_budget = None, sh_attempts = g \<rparr>, s))"

subsection \<open>Redirects\<close>

record 'u redirect_action =
  act_next_method :: http_method
  act_next_uri :: 'u
  act_next_redacted_uri :: string
  act_drops_body :: bool
  act_same_origin_redirect :: bool

record ('h, 'u) redirect_input =
  rin_redirect_policy :: redirect_policy
  rin_redirect_count :: nat
  rin_status :: status
  rin_current_method :: http_method
  rin_current_uri :: 'u
  rin_current_redacted_uri :: string
  rin_response_headers :: 'h
  rin_body_replayable :: bool

definition redirect_drops_body :: "http_method \<Rightarrow> status \<Rightarrow> bool" where
  "redirect_drops_body meth s = (s = 303 \<or> (s = 301 \<or> s = 302) \<and> meth = method_POST)"

definition next_redirect_action ::
    "('h, 'v) header_ops \<Rightarrow> 'u uri_ops \<Rightarrow> 'w url_ops \<Rightarrow> ('h, 'u) redirect_input \<Rightarrow>
     ('u redirect_action option, 'h error) result" where
  "next_redirect_action H U W r =
     (let s = rin_status r; meth = rin_current_method r; uri_text = rin_current_redacted_uri r
      in if \<not> redirect_enabled (rin_redirect_policy r) \<or> \<not> is_redirect_status s then Ok None
         else if rin_redirect_count r \<ge> redirect_max_redirects (rin_redirect_policy r)
         then Err (RedirectLimitExceeded (redirect_max_redirects (rin_redirect_policy r)) meth uri_text)
         else
           (let next_method = redirect_method meth s;
                drops_body = redirect_drops_body meth s
            in if \<not> rin_body_replayable r \<and> \<not> drops_body
               then Err (RedirectBodyNotReplayable meth uri_text)
               else case redirect_location H (rin_response_headers r) of
                 None \<Rightarrow> Err (MissingRedirectLocation s meth uri_text)
               | Some location \<Rightarrow>
                   (case resolve_redirect_uri U W (rin_current_uri r) location of
                      None \<Rightarrow>
                        Err (InvalidRedirectLocation (redact_uri_for_logs W location) meth uri_text)
                    | Some next_uri \<Rightarrow> Ok (Some \<lparr>
                        act_next_method = next_method,
                        act_next_uri = next_uri,
                        act_next_redacted_uri = redact_uri_for_logs W (uri_to_string U next_uri),
                        act_drops_body = drops_body,
                        act_same_origin_redirect = same_origin U (rin_current_uri r) next_uri \<rparr>))))"

definition es_next_redirect_action ::
    "('h, 'v) header_ops \<Rightarrow> 'u uri_ops \<Rightarrow> 'w url_ops \<Rightarrow> ('h, 'u) request_execution_state \<Rightarrow> status \<Rightarrow> 'h \<Rightarrow>
     ('u redirect_action option, 'h error) result" where
  "es_next_redirect_action H U W st s resp_headers =
     next_redirect_action H U W \<lparr>
       rin_redirect_policy = op_redirect_policy (es_options st),
       rin_redirect_count = es_redirect_count st,
       rin_status = s,
       rin_current_method = es_current_method st,
       rin_current_uri = es_current_uri st,
       rin_current_redacted_uri = es_current_redacted_uri st,
       rin_response_headers = resp_headers,
       rin_body_replayable = es_body_replayable st \<rparr>"

definition apply_redirect ::
    "('h, 'v) header_ops \<Rightarrow> 'u redirect_action \<Rightarrow> 'h retry_eligibility \<Rightarrow>
     ('h, 'u) request_execution_state \<Rightarrow> bool \<times> ('h, 'u) request_execution_state" where
  "apply_redirect H act supports_retry st =
     (let drops_body = act_drops_body act;
          st = st\<lparr>
            es_current_headers := sanitize_headers_for_redirect H drops_body
              (act_same_origin_redirect act) (es_current_headers st),
            es_current_method := act_next_method act,
            es_current_uri := act_next_uri act,
            es_current_redacted_uri := act_next_redacted_uri act,
            es_redirect_count := usize_add (es_redirect_count st) 1 \<rparr>;
          st = (if drops_body then st\<lparr> es_body_replayable := True \<rparr> else st);
          st = (if es_max_attempts st = 1 \<and> es_body_replayable st \<and>
                   supports_retry (es_current_method st) (es_current_headers st)
                then st\<lparr> es_max_attempts := rp_max_attempts (op_retry_policy (es_options st)) \<rparr>
                else st)
      in (drops_body, st))"

subsection \<open>The states a request goes through\<close>

text \<open>
  The operations that change the state of a request, in any order the clients may call them: the
  eligibility is tightened, a retry is scheduled while attempts are left, and a redirect action is
  applied to the state that produced it. The indices count the retries and the redirects so far.
\<close>

inductive execution_reachable ::
    "('h, 'v) header_ops \<Rightarrow> 'u uri_ops \<Rightarrow> 'w url_ops \<Rightarrow> 'h retry_eligibility \<Rightarrow>
     (http_method \<Rightarrow> string \<Rightarrow> 's \<Rightarrow> 'h error unit_result \<times> 's) \<Rightarrow>
     ('h, 'u, 'x request_body) retry_request_input \<Rightarrow> nat \<Rightarrow> nat \<Rightarrow>
     ('h, 'u) request_execution_state \<Rightarrow> bool"
  for H U W supports_retry consume input where
  init: "execution_reachable H U W supports_retry consume input 0 0 (fst (from_request input started supports_retry))"
| tighten: "execution_reachable H U W supports_retry consume input i j st \<Longrightarrow>
    execution_reachable H U W supports_retry consume input i j
      (tighten_retry_eligibility attempt_headers supports_retry st)"
| retry: "execution_reachable H U W supports_retry consume input i j st \<Longrightarrow>
    prepare_retry_schedule now (es_retry_attempt st) decision delay consume s =
      (Ok (Scheduled d), attempt, s') \<Longrightarrow>
    execution_reachable H U W supports_retry consume input (Suc i) j (st\<lparr> es_attempt := attempt \<rparr>)"
| redirect: "execution_reachable H U W supports_retry consume input i j st \<Longrightarrow>
    es_next_redirect_action H U W st code hdrs = Ok (Some act) \<Longrightarrow>
    execution_reachable H U W supports_retry consume input i (Suc j) (snd (apply_redirect H act supports_retry st))"

definition execution_inv ::
    "request_execution_options \<Rightarrow> nat \<Rightarrow> nat \<Rightarrow> ('h, 'u) request_execution_state \<Rightarrow> bool" where
  "execution_inv ops i j st \<longleftrightarrow>
     es_options st = ops \<and> es_attempt st = Suc i \<and> es_attempt st \<le> es_max_attempts st \<and>
     es_max_attempts st \<le> rp_max_attempts (op_retry_policy ops) \<and>
     es_redirect_count st = j \<and> j \<le> redirect_max_redirects (op_redirect_policy ops) \<and>
     (\<not> es_body_replayable st \<longrightarrow> es_max_attempts st = 1)"

lemma prepare_retry_schedule_Scheduled:
  assumes "prepare_retry_schedule now ra decision delay consume s = (Ok (Scheduled d), attempt, s')"
  shows "ra_attempt ra < ra_max_attempts ra" and "attempt = Suc (ra_attempt ra)"
    and "should_retry_decision (ra_retry_policy ra) decision"
    and "bounded_retry_delay now delay (ra_total_timeout ra) (ra_request_started_at ra) = Some d"
    and "consume (ra_method ra) (ra_redacted_uri ra) s = (Ok (), s')"
proof -
  have go: "\<not> (ra_attempt ra \<ge> ra_max_attempts ra \<or> \<not> should_retry_decision (ra_retry_policy ra) decision)"
    using assms by (simp add: prepare_retry_schedule_def split: if_splits)
  then obtain d' where d': "bounded_retry_delay now delay (ra_total_timeout ra) (ra_request_started_at ra) = Some d'"
    using assms
    by (cases "bounded_retry_delay now delay (ra_total_timeout ra) (ra_request_started_at ra)")
       (simp_all add: prepare_retry_schedule_def)
  have "consume (ra_method ra) (ra_redacted_uri ra) s = (Ok (), s') \<and> d' = d \<and> attempt = Suc (ra_attempt ra)"
    using assms go d'
    by (cases "fst (consume (ra_method ra) (ra_redacted_uri ra) s)";
        cases "consume (ra_method ra) (ra_redacted_uri ra) s")
       (simp_all add: prepare_retry_schedule_def)
  with go d' show "ra_attempt ra < ra_max_attempts ra" "attempt = Suc (ra_attempt ra)"
    "should_retry_decision (ra_retry_policy ra) decision"
    "bounded_retry_delay now delay (ra_total_timeout ra) (ra_request_started_at ra) = Some d"
    "consume (ra_method ra) (ra_redacted_uri ra) s = (Ok (), s')"
    by auto
qed

lemma next_redirect_action_cases:
  assumes "next_redirect_action H U W r = Ok (Some act)"
  shows "\<exists>location next_uri.
    redirect_location H (rin_response_headers r) = Some location \<and>
    resolve_redirect_uri U W (rin_current_uri r) location = Some next_uri \<and>
    is_redirect_status (rin_status r) \<and>
    rin_redirect_count r < redirect_max_redirects (rin_redirect_policy r) \<and>
    (rin_body_replayable r \<or> redirect_drops_body (rin_current_method r) (rin_status r)) \<and>
    act = \<lparr> act_next_method = redirect_method (rin_current_method r) (rin_status r),
            act_next_uri = next_uri,
            act_next_redacted_uri = redact_uri_for_logs W (uri_to_string U next_uri),
            act_drops_body = redirect_drops_body (rin_current_method r) (rin_status r),
            act_same_origin_redirect = same_origin U (rin_current_uri r) next_uri \<rparr>"
proof -
  let ?stop = "\<not> redirect_enabled (rin_redirect_policy r) \<or> \<not> is_redirect_status (rin_status r)"
  have stop: "\<not> ?stop"
  proof
    assume ?stop
    with assms show False by (simp add: next_redirect_action_def Let_def)
  qed
  have limit: "\<not> rin_redirect_count r \<ge> redirect_max_redirects (rin_redirect_policy r)"
  proof
    assume "rin_redirect_count r \<ge> redirect_max_redirects (rin_redirect_policy r)"
    with assms stop show False by (simp add: next_redirect_action_def Let_def)
  qed
  have body: "\<not> (\<not> rin_body_replayable r \<and> \<not> redirect_drops_body (rin_current_method r) (rin_status r))"
  proof
    assume "\<not> rin_body_replayable r \<and> \<not> redirect_drops_body (rin_current_method r) (rin_status r)"
    with assms stop limit show False by (simp add: next_redirect_action_def Let_def)
  qed
  from stop limit body show ?thesis
    using assms by (simp add: next_redirect_action_def Let_def split: option.splits if_splits)
qed

lemma next_redirect_action_Some:
  assumes "next_redirect_action H U W r = Ok (Some act)"
  shows "rin_redirect_count r < redirect_max_redirects (rin_redirect_policy r)"
    and "is_redirect_status (rin_status r)"
    and "act_next_method act = redirect_method (rin_current_method r) (rin_status r)"
    and "act_drops_body act = redirect_drops_body (rin_current_method r) (rin_status r)"
    and "rin_body_replayable r \<or> act_drops_body act"
    and "act_same_origin_redirect act = same_origin U (rin_current_uri r) (act_next_uri act)"
    and "\<exists>location. redirect_location H (rin_response_headers r) = Some location \<and>
      resolve_redirect_uri U W (rin_current_uri r) location = Some (act_next_uri act)"
  using next_redirect_action_cases [OF assms] by auto

lemma execution_inv_tighten:
  "execution_inv ops i j st \<Longrightarrow> execution_inv ops i j (tighten_retry_eligibility hs supports_retry st)"
  by (auto simp: execution_inv_def tighten_retry_eligibility_def)

lemma execution_inv_retry:
  assumes "execution_inv ops i j st"
    and "prepare_retry_schedule now (es_retry_attempt st) decision delay consume s =
      (Ok (Scheduled d), attempt, s')"
  shows "execution_inv ops (Suc i) j (st\<lparr> es_attempt := attempt \<rparr>)"
  using assms(1) prepare_retry_schedule_Scheduled(1,2) [OF assms(2)]
  by (auto simp: execution_inv_def es_retry_attempt_def)

lemma apply_redirect_sel:
  "es_options (snd (apply_redirect H act sr st)) = es_options st"
  "es_attempt (snd (apply_redirect H act sr st)) = es_attempt st"
  "es_redirect_count (snd (apply_redirect H act sr st)) = usize_add (es_redirect_count st) 1"
  "es_current_method (snd (apply_redirect H act sr st)) = act_next_method act"
  "es_current_uri (snd (apply_redirect H act sr st)) = act_next_uri act"
  "es_current_headers (snd (apply_redirect H act sr st)) =
     sanitize_headers_for_redirect H (act_drops_body act) (act_same_origin_redirect act)
       (es_current_headers st)"
  "es_body_replayable (snd (apply_redirect H act sr st)) \<longleftrightarrow> act_drops_body act \<or> es_body_replayable st"
  "fst (apply_redirect H act sr st) = act_drops_body act"
  by (simp_all add: apply_redirect_def Let_def)

lemma apply_redirect_max_attempts:
  "es_max_attempts (snd (apply_redirect H act sr st)) =
     (if es_max_attempts st = 1 \<and> (act_drops_body act \<or> es_body_replayable st) \<and>
         sr (act_next_method act) (es_current_headers (snd (apply_redirect H act sr st)))
      then rp_max_attempts (op_retry_policy (es_options st)) else es_max_attempts st)"
  by (simp add: apply_redirect_def Let_def) auto

lemma execution_inv_redirect:
  assumes inv: "execution_inv ops i j st" and valid: "1 \<le> rp_max_attempts (op_retry_policy ops)"
    and room: "redirect_max_redirects (op_redirect_policy ops) \<le> usize_max"
    and act: "es_next_redirect_action H U W st code hdrs = Ok (Some act)"
  shows "execution_inv ops i (Suc j) (snd (apply_redirect H act supports_retry st))"
proof -
  have "j < redirect_max_redirects (op_redirect_policy ops)"
    and "es_body_replayable st \<or> act_drops_body act"
    using next_redirect_action_Some(1,5) [OF act [unfolded es_next_redirect_action_def]] inv
    by (auto simp: execution_inv_def)
  then show ?thesis
    using inv valid room
    by (auto simp: execution_inv_def apply_redirect_sel apply_redirect_max_attempts sat_add_def)
qed

lemma execution_inv_reachable:
  assumes "execution_reachable H U W supports_retry consume input i j st"
    and "1 \<le> rp_max_attempts (op_retry_policy (ri_execution_options input))"
    and "redirect_max_redirects (op_redirect_policy (ri_execution_options input)) \<le> usize_max"
  shows "execution_inv (ri_execution_options input) i j st"
  using assms(1)
proof induction
  case (init started)
  then show ?case
    using assms(2) by (simp add: execution_inv_def from_request_def Let_def)
next
  case (tighten i j st hs)
  then show ?case by (simp add: execution_inv_tighten)
next
  case (retry i j st now decision delay s d attempt s')
  then show ?case by (blast intro: execution_inv_retry)
next
  case (redirect i j st code hdrs act)
  then show ?case using execution_inv_redirect [OF redirect.IH assms(2,3)] by blast
qed

lemma status_retry_delay_le:
  "status_retry_delay H parse_date now_system headers fallback max_delay
     \<le> (if max_delay = 0 then from_millis 1 else max_delay)"
  by (cases "parse_retry_after H parse_date headers now_system")
     (auto simp: status_retry_delay_def parse_retry_after_capped_def Let_def)

subsection \<open>Properties\<close>

text \<open>
  However its attempts end, a request stays within its configuration. After \<open>i\<close> retries and
  \<open>j\<close> redirects the attempt number is \<open>i + 1\<close> and within the attempts allowed, which never exceed
  the policy's; at most \<open>max_redirects\<close> redirects have been followed, so that no more than
  \<open>max_attempts + max_redirects\<close> requests are sent; and as long as the body cannot be replayed,
  the only attempt is the first one.
\<close>

theorem request_attempts_bounded:
  fixes st :: "('h, 'u) request_execution_state"
    and input :: "('h, 'u, 'x request_body) retry_request_input"
  assumes "execution_reachable H U W supports_retry consume input i j st"
    and "options_valid (ri_execution_options input)"
    and "redirect_max_redirects (op_redirect_policy (ri_execution_options input)) \<le> usize_max"
  shows "es_attempt st = i + 1 \<and> es_redirect_count st = j \<and> can_attempt st \<and>
    i < rp_max_attempts (op_retry_policy (ri_execution_options input)) \<and>
    j \<le> redirect_max_redirects (op_redirect_policy (ri_execution_options input)) \<and>
    (\<not> es_body_replayable st \<longrightarrow> i = 0)"
proof -
  have "1 \<le> rp_max_attempts (op_retry_policy (ri_execution_options input))"
    using assms(2) by (simp add: options_valid_def retry_policy_valid_def)
  from execution_inv_reachable [OF assms(1) this assms(3)] show ?thesis
    by (auto simp: execution_inv_def can_attempt_def)
qed

definition example_request :: "(alist_header_map, triple_uri, unit request_body) retry_request_input" where
  "example_request = \<lparr> ri_method = method_POST, ri_uri = (Some ''http'', Some ''h'', ''/a''),
     ri_redacted_uri_text = ''http://h/a'', ri_merged_headers = [], ri_body = Streaming (),
     ri_execution_options = \<lparr> op_request_timeout = 5, op_total_timeout = None,
       op_retry_policy = retry_policy_standard, op_max_response_body_bytes = 1,
       op_redirect_policy = redirect_policy_follow, op_status_policy = StatusPolicy_Error \<rparr> \<rparr>"

theorem request_attempts_bounded_witness:
  "options_valid (ri_execution_options example_request) \<and>
   can_attempt (fst (from_request example_request 0 (strict_retry_eligibility alist_headers)))"
proof -
  have valid: "options_valid (ri_execution_options example_request)"
    by (simp add: example_request_def options_valid_def retry_policy_standard_valid)
  have "redirect_max_redirects (op_redirect_policy (ri_execution_options example_request)) \<le> usize_max"
    by (simp add: example_request_def redirect_policy_follow_def redirect_policy_limited_def max_values)
  from request_attempts_bounded [OF execution_reachable.init [where consume = "\<lambda>m u (s::unit). (Ok (), s)"] valid this] valid show ?thesis
    by blast
qed

text \<open>
  C28: A redirect never leaks credentials or replays what it must not. When the response leads to
  another request, the limit is not yet reached, a body that cannot be replayed is dropped, and the
  target has no user information; the next request has no \<open>host\<close> and no \<open>proxy-authorization\<close>
  header, and no \<open>authorization\<close>, no \<open>cookie\<close> and no header with a sensitive value unless the origin
  stays the same; and a request that keeps its body keeps its method.
\<close>

theorem redirect_is_safe:
  fixes st :: "('h, 'u) request_execution_state"
  assumes "header_map_laws H"
    and "es_next_redirect_action H U W st code hdrs = Ok (Some act)"
    and "apply_redirect H act supports_retry st = (drops_body, st')"
  shows "es_redirect_count st < redirect_max_redirects (op_redirect_policy (es_options st)) \<and>
    (es_body_replayable st \<or> drops_body) \<and> \<not> uri_has_userinfo U (es_current_uri st') \<and>
    hm_get_all H (es_current_headers st') ''host'' = [] \<and>
    hm_get_all H (es_current_headers st') ''proxy-authorization'' = [] \<and>
    (\<not> same_origin U (es_current_uri st) (es_current_uri st') \<longrightarrow>
       hm_get_all H (es_current_headers st') ''authorization'' = [] \<and>
       hm_get_all H (es_current_headers st') ''cookie'' = [] \<and>
       (\<forall>k. \<forall>v \<in> set (hm_get_all H (es_current_headers st') k). \<not> hv_is_sensitive H v)) \<and>
    (\<not> drops_body \<longrightarrow> es_current_method st' = es_current_method st)"
proof -
  have st': "st' = snd (apply_redirect H act supports_retry st)" and d: "drops_body = act_drops_body act"
    using assms(3) apply_redirect_sel(8) [of H act supports_retry st] by simp_all
  note act = next_redirect_action_Some [OF assms(2) [unfolded es_next_redirect_action_def]]
  obtain location where "resolve_redirect_uri U W (es_current_uri st) location = Some (act_next_uri act)"
    using act(7) by auto
  then have "\<not> uri_has_userinfo U (act_next_uri act)"
    by (auto simp: resolve_redirect_uri_def split: option.splits if_splits
        dest: join_redirect_location_Some(1))
  moreover have "\<not> drops_body \<longrightarrow> act_next_method act = es_current_method st"
    using act(3,4) d by (auto simp: redirect_drops_body_def redirect_method_def)
  ultimately show ?thesis
    using act(1,5,6) unfolding st' d
    by (auto simp: apply_redirect_sel sanitize_headers_for_redirect_def Let_def
        hm_get_all_remove [OF assms(1)] get_all_remove_hop_by_hop [OF assms(1)]
        get_all_remove_body [OF assms(1)] get_all_remove_credentials [OF assms(1)] split: if_splits)
qed

definition example_state :: "(alist_header_map, triple_uri) request_execution_state" where
  "example_state = (fst (from_request example_request 0 (strict_retry_eligibility alist_headers)))
     \<lparr> es_current_headers := [(''authorization'', (''secret'', False))] \<rparr>"

theorem redirect_is_safe_witness:
  "\<exists>act. es_next_redirect_action alist_headers triple_uris text_urls example_state 302
       [(''location'', (''http://i/b'', False))] = Ok (Some act) \<and>
     hm_get_all alist_headers (es_current_headers (snd (apply_redirect alist_headers act
       (strict_retry_eligibility alist_headers) example_state))) ''authorization'' = []"
proof -
  have "\<exists>act. es_next_redirect_action alist_headers triple_uris text_urls example_state 302
      [(''location'', (''http://i/b'', False))] = Ok (Some act) \<and>
      act_next_uri act = (Some ''http'', Some ''i'', ''/b'')"
    by (simp add: es_next_redirect_action_def next_redirect_action_def from_request_def Let_def
        example_state_def example_request_def redirect_enabled_def redirect_policy_follow_def
        redirect_policy_limited_def is_redirect_status_def redirect_drops_body_def redirect_method_def
        redirect_location_def alist_headers_sel alist_get_all_def resolve_redirect_uri_def
        triple_uris_def text_urls_def eq_ignore_ascii_case_def to_ascii_lowercase_def ascii_defs
        uri_has_userinfo_def is_valid_absolute_http_uri_text_def has_prefix_ignore_case_def
        has_valid_raw_http_authority_syntax_def search_defs valid_host_port_def is_http_scheme_def)
  then obtain act where act: "es_next_redirect_action alist_headers triple_uris text_urls example_state 302
      [(''location'', (''http://i/b'', False))] = Ok (Some act)"
      "act_next_uri act = (Some ''http'', Some ''i'', ''/b'')"
    by blast
  obtain b st' where ap:
      "apply_redirect alist_headers act (strict_retry_eligibility alist_headers) example_state = (b, st')"
    by force
  then have st': "st' = snd (apply_redirect alist_headers act (strict_retry_eligibility alist_headers) example_state)"
    by simp
  have "\<not> same_origin triple_uris (es_current_uri example_state) (es_current_uri st')"
    by (simp add: st' apply_redirect_sel act from_request_def Let_def example_state_def
        example_request_def same_origin_iff normalized_uri_host_def normalize_host_key_def
        triple_uris_def string_defs ascii_defs)
  then show ?thesis
    using redirect_is_safe [OF alist_headers_laws act(1) ap] act(1) st' by auto
qed

text \<open>
  The delay before a retry on a status never exceeds the policy's maximal back-off (one
  millisecond when that is zero): a parsable \<open>retry-after\<close> is obeyed up to that limit, and without
  one the back-off is used up to the same limit, whatever a custom back-off source returns.
\<close>

theorem status_retry_delay_capped:
  fixes st :: "('h, 'u) request_execution_state"
  defines "cap \<equiv> (if rp_max_backoff (op_retry_policy (es_options st)) = 0 then from_millis 1
    else rp_max_backoff (op_retry_policy (es_options st)))"
  shows "plan_delay (status_retry_plan H parse_date sample now_system source st code headers) =
    min cap (case parse_retry_after H parse_date headers now_system of
        Some d \<Rightarrow> d | None \<Rightarrow> es_retry_backoff sample source st)"
  unfolding cap_def
  by (cases "parse_retry_after H parse_date headers now_system")
     (simp_all add: status_retry_plan_def status_retry_delay_def parse_retry_after_capped_def Let_def
        min.commute)

end
