(* ===== verification/Reqx_Limiters.thy ===== *)
theory Reqx_Limiters
  imports Reqx_BTreeMap Reqx_Permits Reqx_Uri
begin

text \<open>
  The fixed concurrency limits (\<open>src/src/core/limiters.rs\<close> and
  \<open>src/src/blocking_client/limiters.rs\<close>): one semaphore for the client and one for each host, in a
  table whose idle entries are evicted. An \<open>Arc<BlockingSemaphore>\<close> is an address in a heap of
  cells; a cell has the free permits and the strong claim_count. Waiting on the condition variable is
  split into its iterations: what one iteration of the loop does with the state it finds.
  \<open>limiter_step\<close> interleaves the threads.
\<close>

subsection \<open>The semaphore\<close>

definition semaphore_try_acquire :: "nat \<Rightarrow> nat option" where
  "semaphore_try_acquire permits = (if permits = 0 then None else Some (permits - 1))"

definition semaphore_release :: "nat \<Rightarrow> nat" where
  "semaphore_release permits = usize_add permits 1"

datatype acquire_iteration = Acquired nat | AcquireTimeout | WaitFor "duration option"

definition semaphore_acquire_iteration :: "instant option \<Rightarrow> instant \<Rightarrow> nat \<Rightarrow> acquire_iteration" where
  "semaphore_acquire_iteration deadline_at now permits =
     (if permits > 0 then Acquired (permits - 1)
      else case deadline_at of
        Some deadline \<Rightarrow> if now \<ge> deadline then AcquireTimeout else WaitFor (Some (deadline - now))
      | None \<Rightarrow> WaitFor None)"

text \<open>After a bounded wait: whether the acquisition gives up before the next iteration.\<close>

definition semaphore_gives_up_after_wait :: "instant \<Rightarrow> bool \<Rightarrow> instant \<Rightarrow> nat \<Rightarrow> bool" where
  "semaphore_gives_up_after_wait deadline timed_out now permits =
     (timed_out \<and> permits = 0 \<and> now \<ge> deadline)"

subsection \<open>The table of hosts\<close>

definition per_host_limiter_entry_ttl :: duration where
  "per_host_limiter_entry_ttl = from_secs 300"

definition per_host_limiter_max_entries :: nat where
  "per_host_limiter_max_entries = 1024"

definition cleanup_stale_per_host_limiters ::
    "('e \<Rightarrow> bool) \<Rightarrow> ('e \<Rightarrow> instant) \<Rightarrow> instant \<Rightarrow> duration \<Rightarrow> nat \<Rightarrow> (string, 'e) btree \<Rightarrow> (string, 'e) btree" where
  "cleanup_stale_per_host_limiters is_idle last_used_at now entry_ttl max_entries entries =
     evict_over_capacity is_idle last_used_at max_entries
       (bt_retain (\<lambda>e. e)
          (\<lambda>e. \<not> is_idle e \<or> saturating_duration_since now (last_used_at e) \<le> entry_ttl) entries)"

record semaphore_cell =
  sc_permits :: nat
  sc_strong_count :: nat

record per_host_limiter_entry =
  ple_semaphore :: nat
  ple_limit :: nat
  ple_last_used_at :: instant

record request_limiters =
  lim_global :: "nat option"
  lim_per_host_limit :: "nat option"
  lim_per_host :: "(string, per_host_limiter_entry) btree"
  lim_heap :: "nat \<Rightarrow> semaphore_cell"
  lim_next_address :: nat

definition request_limiters_new :: "nat option \<Rightarrow> nat option \<Rightarrow> request_limiters option" where
  "request_limiters_new max_in_flight per_host_limit =
     (if max_in_flight = None \<and> per_host_limit = None then None
      else Some \<lparr> lim_global = max_in_flight, lim_per_host_limit = per_host_limit, lim_per_host = [],
                  lim_heap = (\<lambda>_. \<lparr> sc_permits = 0, sc_strong_count = 0 \<rparr>), lim_next_address = 0 \<rparr>)"

definition entry_is_idle :: "(nat \<Rightarrow> semaphore_cell) \<Rightarrow> per_host_limiter_entry \<Rightarrow> bool" where
  "entry_is_idle heap e =
     (sc_strong_count (heap (ple_semaphore e)) = 1 \<and>
      sc_permits (heap (ple_semaphore e)) = ple_limit e)"

datatype host_claim = NoHostLimit | HostPermit string nat | HostWaiter string nat

definition update_cell :: "nat \<Rightarrow> (semaphore_cell \<Rightarrow> semaphore_cell) \<Rightarrow> request_limiters \<Rightarrow> request_limiters" where
  "update_cell a f l = l\<lparr> lim_heap := (lim_heap l)(a := f (lim_heap l a)) \<rparr>"

text \<open>
  The entry of a host, created when it is missing. An evicted entry was the only owner of its
  semaphore, whose address is never used again.
\<close>

definition claim_entry :: "nat \<Rightarrow> string \<Rightarrow> instant \<Rightarrow> request_limiters \<Rightarrow> nat \<times> request_limiters" where
  "claim_entry limit host now l =
     (case bt_get (lim_per_host l) host of
        Some e \<Rightarrow>
          (ple_semaphore e,
           l\<lparr> lim_per_host := bt_insert host (e\<lparr> ple_last_used_at := now \<rparr>) (lim_per_host l) \<rparr>)
      | None \<Rightarrow>
          (let a = lim_next_address l
           in (a, l\<lparr> lim_per_host := bt_insert host
                       \<lparr> ple_semaphore = a, ple_limit = limit, ple_last_used_at = now \<rparr> (lim_per_host l),
                     lim_heap := (lim_heap l)(a := \<lparr> sc_permits = limit, sc_strong_count = 1 \<rparr>),
                     lim_next_address := Suc a \<rparr>)))"

text \<open>
  \<open>acquire_host\<close> up to the wait: a permit at once, or a handle on the semaphore to wait for.
\<close>

definition acquire_host :: "string option \<Rightarrow> instant \<Rightarrow> request_limiters \<Rightarrow> host_claim \<times> request_limiters" where
  "acquire_host host now l =
     (let host = (if lim_per_host_limit l \<noteq> None
                  then (case host of None \<Rightarrow> None | Some h \<Rightarrow> normalize_host_key h) else None)
      in case (lim_per_host_limit l, host) of
        (Some limit, Some host) \<Rightarrow>
          (let l = l\<lparr> lim_per_host := cleanup_stale_per_host_limiters (entry_is_idle (lim_heap l))
                 ple_last_used_at now per_host_limiter_entry_ttl per_host_limiter_max_entries
                 (lim_per_host l) \<rparr>;
               (a, l) = claim_entry limit host now l
           in case semaphore_try_acquire (sc_permits (lim_heap l a)) of
                Some permits \<Rightarrow>
                  (HostPermit host a,
                   update_cell a (\<lambda>c. \<lparr> sc_permits = permits, sc_strong_count = sc_strong_count c + 1 \<rparr>) l)
              | None \<Rightarrow>
                  (HostWaiter host a,
                   update_cell a (\<lambda>c. c\<lparr> sc_strong_count := sc_strong_count c + 1 \<rparr>) l))
      | _ \<Rightarrow> (NoHostLimit, l))"

text \<open>
  A waiter that finds a free permit takes it and trades its handle for the permit's; a waiter
  that times out drops its handle; a dropped permit is released and its handle dropped.
\<close>

definition waiter_acquire :: "nat \<Rightarrow> request_limiters \<Rightarrow> request_limiters option" where
  "waiter_acquire a l =
     (case semaphore_acquire_iteration None 0 (sc_permits (lim_heap l a)) of
        Acquired permits \<Rightarrow> Some (update_cell a (\<lambda>c. c\<lparr> sc_permits := permits \<rparr>) l)
      | _ \<Rightarrow> None)"

definition waiter_timeout :: "nat \<Rightarrow> request_limiters \<Rightarrow> request_limiters" where
  "waiter_timeout a l = update_cell a (\<lambda>c. c\<lparr> sc_strong_count := sc_strong_count c - 1 \<rparr>) l"

definition permit_drop :: "nat \<Rightarrow> request_limiters \<Rightarrow> request_limiters" where
  "permit_drop a l =
     update_cell a (\<lambda>c. \<lparr> sc_permits = semaphore_release (sc_permits c),
       sc_strong_count = sc_strong_count c - 1 \<rparr>) l"

subsection \<open>Interleavings\<close>

datatype limiter_event =
    EvAcquireHost "string option" instant
  | EvWake nat
  | EvGiveUp nat
  | EvDropPermit nat

text \<open>The claims of all threads are a list, addressed by position.\<close>

fun limiter_step :: "limiter_event \<Rightarrow> request_limiters \<times> host_claim list \<Rightarrow> request_limiters \<times> host_claim list" where
  "limiter_step (EvAcquireHost host now) (l, cs) =
     (let (c, l) = acquire_host host now l in (l, c # cs))"
| "limiter_step (EvWake i) (l, cs) =
     (if i < length cs
      then (case cs ! i of
              HostWaiter h a \<Rightarrow>
                (case waiter_acquire a l of Some l' \<Rightarrow> (l', cs[i := HostPermit h a]) | None \<Rightarrow> (l, cs))
            | _ \<Rightarrow> (l, cs))
      else (l, cs))"
| "limiter_step (EvGiveUp i) (l, cs) =
     (if i < length cs
      then (case cs ! i of
              HostWaiter h a \<Rightarrow> (waiter_timeout a l, cs[i := NoHostLimit]) | _ \<Rightarrow> (l, cs))
      else (l, cs))"
| "limiter_step (EvDropPermit i) (l, cs) =
     (if i < length cs
      then (case cs ! i of
              HostPermit h a \<Rightarrow> (permit_drop a l, cs[i := NoHostLimit]) | _ \<Rightarrow> (l, cs))
      else (l, cs))"

definition limiter_run :: "limiter_event list \<Rightarrow> request_limiters \<Rightarrow> request_limiters \<times> host_claim list" where
  "limiter_run evs l = fold limiter_step evs (l, [])"

fun is_permit_at :: "nat \<Rightarrow> host_claim \<Rightarrow> bool" where
  "is_permit_at a (HostPermit _ b) = (b = a)"
| "is_permit_at a _ = False"

fun is_handle_at :: "nat \<Rightarrow> host_claim \<Rightarrow> bool" where
  "is_handle_at a (HostPermit _ b) = (b = a)"
| "is_handle_at a (HostWaiter _ b) = (b = a)"
| "is_handle_at a NoHostLimit = False"

fun is_permit_of_host :: "string \<Rightarrow> host_claim \<Rightarrow> bool" where
  "is_permit_of_host h (HostPermit h' _) = (h' = h)"
| "is_permit_of_host h _ = False"

definition claim_count :: "('c \<Rightarrow> bool) \<Rightarrow> 'c list \<Rightarrow> nat" where
  "claim_count p cs = length (filter p cs)"

definition claim_ok :: "(string, per_host_limiter_entry) btree \<Rightarrow> host_claim \<Rightarrow> bool" where
  "claim_ok m c = (case c of
       NoHostLimit \<Rightarrow> True
     | HostPermit h a \<Rightarrow> (\<exists>e. (h, e) \<in> set m \<and> ple_semaphore e = a)
     | HostWaiter h a \<Rightarrow> (\<exists>e. (h, e) \<in> set m \<and> ple_semaphore e = a))"

definition cell_ok :: "nat \<Rightarrow> host_claim list \<Rightarrow> (nat \<Rightarrow> semaphore_cell) \<Rightarrow> per_host_limiter_entry \<Rightarrow> bool" where
  "cell_ok limit cs heap e \<longleftrightarrow>
     ple_limit e = limit \<and>
     sc_permits (heap (ple_semaphore e)) + claim_count (is_permit_at (ple_semaphore e)) cs = limit \<and>
     sc_strong_count (heap (ple_semaphore e)) = 1 + claim_count (is_handle_at (ple_semaphore e)) cs"

definition limiter_inv :: "nat \<Rightarrow> request_limiters \<times> host_claim list \<Rightarrow> bool" where
  "limiter_inv limit x \<longleftrightarrow> (case x of (l, cs) \<Rightarrow>
     lim_per_host_limit l = Some limit \<and> limit \<le> usize_max \<and> bt_wf (lim_per_host l) \<and>
     (\<forall>h e. (h, e) \<in> set (lim_per_host l) \<longrightarrow>
        ple_semaphore e < lim_next_address l \<and> cell_ok limit cs (lim_heap l) e) \<and>
     inj_on (\<lambda>(h, e). ple_semaphore e) (set (lim_per_host l)) \<and>
     (\<forall>c \<in> set cs. claim_ok (lim_per_host l) c))"

subsection \<open>The invariant\<close>

lemma claim_count_simps [simp]:
  "claim_count p [] = 0" "claim_count p (c # cs) = (if p c then Suc (claim_count p cs) else claim_count p cs)"
  by (simp_all add: claim_count_def)

lemma claim_count_update:
  "i < length cs \<Longrightarrow>
   claim_count p (cs[i := c]) + (if p (cs ! i) then 1 else 0) = claim_count p cs + (if p c then 1 else 0)"
proof (induction cs arbitrary: i)
  case (Cons x xs)
  then show ?case by (cases i) auto
qed simp

lemma claim_count_mono: "(\<And>c. c \<in> set cs \<Longrightarrow> p c \<Longrightarrow> q c) \<Longrightarrow> claim_count p cs \<le> claim_count q cs"
  by (induction cs) auto

lemma claim_count_pos: "c \<in> set cs \<Longrightarrow> p c \<Longrightarrow> 0 < claim_count p cs"
  by (induction cs) auto

lemma claim_count_0: "(\<And>c. c \<in> set cs \<Longrightarrow> \<not> p c) \<Longrightarrow> claim_count p cs = 0"
  by (induction cs) auto

lemma set_bt_insert: "bt_wf m \<Longrightarrow> set (bt_insert k v m) = insert (k, v) {x \<in> set m. fst x \<noteq> k}"
  by (rule set_eqI) (auto simp: bt_get_Some_iff [symmetric] bt_get_insert split: if_splits)

lemma limiter_invD:
  assumes "limiter_inv limit (l, cs)"
  shows "lim_per_host_limit l = Some limit" "limit \<le> usize_max" "bt_wf (lim_per_host l)"
    "(h, e) \<in> set (lim_per_host l) \<Longrightarrow> ple_semaphore e < lim_next_address l"
    "(h, e) \<in> set (lim_per_host l) \<Longrightarrow> cell_ok limit cs (lim_heap l) e"
    "inj_on (\<lambda>(h, e). ple_semaphore e) (set (lim_per_host l))"
    "c \<in> set cs \<Longrightarrow> claim_ok (lim_per_host l) c"
  using assms by (auto simp: limiter_inv_def)

lemma limiter_inv_update:
  assumes inv: "limiter_inv limit (l, cs)" and e: "(h, e) \<in> set (lim_per_host l)" "ple_semaphore e = a"
    and ok: "cell_ok limit cs' ((lim_heap l)(a := f (lim_heap l a))) e"
    and other: "\<And>b. b \<noteq> a \<Longrightarrow> claim_count (is_permit_at b) cs' = claim_count (is_permit_at b) cs"
      "\<And>b. b \<noteq> a \<Longrightarrow> claim_count (is_handle_at b) cs' = claim_count (is_handle_at b) cs"
    and claims: "\<And>c. c \<in> set cs' \<Longrightarrow> claim_ok (lim_per_host l) c"
  shows "limiter_inv limit (update_cell a f l, cs')"
proof -
  have "cell_ok limit cs' ((lim_heap l)(a := f (lim_heap l a))) e'"
    if "(h', e') \<in> set (lim_per_host l)" for h' e'
  proof (cases "ple_semaphore e' = a")
    case True
    then have "(h', e') = (h, e)"
      using limiter_invD(6) [OF inv] e that by (auto simp: inj_on_def)
    then show ?thesis using ok by simp
  next
    case False
    then show ?thesis using limiter_invD(5) [OF inv that] other by (simp add: cell_ok_def)
  qed
  then show ?thesis
    using inv claims by (auto simp: limiter_inv_def update_cell_def)
qed

lemma handle_counted:
  assumes "limiter_inv limit (l, cs)" "c \<in> set cs" "is_handle_at a c"
  obtains h e where "(h, e) \<in> set (lim_per_host l)" "ple_semaphore e = a"
    "2 \<le> sc_strong_count (lim_heap l a)"
proof -
  obtain h e where he: "(h, e) \<in> set (lim_per_host l)" "ple_semaphore e = a"
    using limiter_invD(7) [OF assms(1,2)] assms(3) by (cases c) (auto simp: claim_ok_def)
  moreover have "0 < claim_count (is_handle_at a) cs"
    using assms(2,3) by (rule claim_count_pos)
  ultimately show ?thesis
    using limiter_invD(5) [OF assms(1) he(1)] that by (simp add: cell_ok_def)
qed

lemma claim_ok_keep:
  assumes "claim_ok m c"
    and "\<And>h e. (h, e) \<in> set m \<Longrightarrow> is_handle_at (ple_semaphore e) c \<Longrightarrow>
      \<exists>e'. (h, e') \<in> set m' \<and> ple_semaphore e' = ple_semaphore e"
  shows "claim_ok m' c"
proof (cases c)
  case (HostPermit h a)
  then obtain e where "(h, e) \<in> set m" "ple_semaphore e = a" using assms(1) by (auto simp: claim_ok_def)
  with assms(2) [of h e] HostPermit show ?thesis by (simp add: claim_ok_def)
next
  case (HostWaiter h a)
  then obtain e where "(h, e) \<in> set m" "ple_semaphore e = a" using assms(1) by (auto simp: claim_ok_def)
  with assms(2) [of h e] HostWaiter show ?thesis by (simp add: claim_ok_def)
qed (simp add: claim_ok_def)

lemma set_bt_retain_id: "set (bt_retain (\<lambda>e. e) p m) = {x \<in> set m. p (snd x)}"
  by (auto simp: bt_retain_def)

lemma limiter_inv_cleanup:
  assumes inv: "limiter_inv limit (l, cs)"
  shows "limiter_inv limit (l\<lparr> lim_per_host := cleanup_stale_per_host_limiters
    (entry_is_idle (lim_heap l)) ple_last_used_at now ttl cap (lim_per_host l) \<rparr>, cs)"
proof -
  let ?m = "lim_per_host l"
  let ?p = "\<lambda>e. \<not> entry_is_idle (lim_heap l) e \<or> saturating_duration_since now (ple_last_used_at e) \<le> ttl"
  let ?r = "bt_retain (\<lambda>e. e) ?p ?m"
  let ?m' = "cleanup_stale_per_host_limiters (entry_is_idle (lim_heap l)) ple_last_used_at now ttl cap ?m"
  have wf: "bt_wf ?r" using limiter_invD(3) [OF inv] by simp
  have sub: "set ?m' \<subseteq> set ?m"
    using evict_subset [of "entry_is_idle (lim_heap l)" ple_last_used_at cap ?r]
    unfolding cleanup_stale_per_host_limiters_def set_bt_retain_id by blast
  have busy: "(h, e) \<in> set ?m'" if "(h, e) \<in> set ?m" "\<not> entry_is_idle (lim_heap l) e" for h e
    using evict_keeps_busy [OF wf, of "(h, e)"] that
    by (simp add: cleanup_stale_per_host_limiters_def set_bt_retain_id)
  have "claim_ok ?m' c" if c: "c \<in> set cs" for c
  proof (rule claim_ok_keep [OF limiter_invD(7) [OF inv c]])
    fix h e assume he: "(h, e) \<in> set ?m" "is_handle_at (ple_semaphore e) c"
    then have "2 \<le> sc_strong_count (lim_heap l (ple_semaphore e))"
      using handle_counted [OF inv c] by metis
    then show "\<exists>e'. (h, e') \<in> set ?m' \<and> ple_semaphore e' = ple_semaphore e"
      using busy [OF he(1)] by (auto simp: entry_is_idle_def)
  qed
  moreover have "bt_wf ?m'" using wf by (simp add: cleanup_stale_per_host_limiters_def evict_wf)
  moreover have "inj_on (\<lambda>(h, e). ple_semaphore e) (set ?m')"
    using limiter_invD(6) [OF inv] sub by (rule inj_on_subset)
  ultimately show ?thesis
    using inv sub unfolding limiter_inv_def by auto
qed

lemma claim_entry_inv:
  assumes inv: "limiter_inv limit (l, cs)" and claim: "claim_entry limit host now l = (a, l')"
  shows "limiter_inv limit (l', cs) \<and> (\<exists>e. (host, e) \<in> set (lim_per_host l') \<and> ple_semaphore e = a)"
proof (cases "bt_get (lim_per_host l) host")
  case (Some e)
  let ?e = "e\<lparr> ple_last_used_at := now \<rparr>"
  have in_m: "(host, e) \<in> set (lim_per_host l)"
    using Some limiter_invD(3) [OF inv] by (simp add: bt_get_Some_iff)
  have m: "set (bt_insert host ?e (lim_per_host l)) =
      insert (host, ?e) {x \<in> set (lim_per_host l). fst x \<noteq> host}"
    using limiter_invD(3) [OF inv] by (rule set_bt_insert)
  have key: "e' = e" if "(host, e') \<in> set (lim_per_host l)" for e'
    using that Some limiter_invD(3) [OF inv] by (simp add: bt_get_Some_iff [symmetric])
  have "claim_ok (bt_insert host ?e (lim_per_host l)) c" if "c \<in> set cs" for c
  proof (rule claim_ok_keep [OF limiter_invD(7) [OF inv that]])
    fix h e' assume "(h, e') \<in> set (lim_per_host l)"
    then show "\<exists>e''. (h, e'') \<in> set (bt_insert host ?e (lim_per_host l)) \<and> ple_semaphore e'' = ple_semaphore e'"
      using key [of e'] unfolding m by (cases "h = host") auto
  qed
  moreover have "inj_on (\<lambda>(h, e). ple_semaphore e) (set (bt_insert host ?e (lim_per_host l)))"
    unfolding m inj_on_insert
  proof
    show "inj_on (\<lambda>(h, e). ple_semaphore e) {x \<in> set (lim_per_host l). fst x \<noteq> host}"
      using limiter_invD(6) [OF inv] by (rule inj_on_subset) auto
    show "(case (host, ?e) of (h, e) \<Rightarrow> ple_semaphore e) \<notin>
        (\<lambda>(h, e). ple_semaphore e) ` ({x \<in> set (lim_per_host l). fst x \<noteq> host} - {(host, ?e)})"
      using inj_onD [OF limiter_invD(6) [OF inv] _ in_m] by auto
  qed
  ultimately have "limiter_inv limit
      (l\<lparr> lim_per_host := bt_insert host ?e (lim_per_host l) \<rparr>, cs)"
    using inv in_m m limiter_invD(4,5) [OF inv in_m] by (auto simp: limiter_inv_def cell_ok_def)
  then show ?thesis using claim Some m by (auto simp: claim_entry_def)
next
  case None
  let ?a = "lim_next_address l"
  let ?e = "\<lparr> ple_semaphore = ?a, ple_limit = limit, ple_last_used_at = now \<rparr>"
  let ?heap = "(lim_heap l)(?a := \<lparr> sc_permits = limit, sc_strong_count = 1 \<rparr>)"
  have m: "set (bt_insert host ?e (lim_per_host l)) =
      insert (host, ?e) {x \<in> set (lim_per_host l). fst x \<noteq> host}"
    using limiter_invD(3) [OF inv] by (rule set_bt_insert)
  have absent: "(host, e') \<notin> set (lim_per_host l)" for e'
    using None limiter_invD(3) [OF inv] by (metis bt_get_Some_iff option.distinct(1))
  have fresh: "\<not> is_handle_at ?a c" if "c \<in> set cs" for c
    using handle_counted [OF inv that] limiter_invD(4) [OF inv] by (metis less_irrefl)
  have "\<not> is_permit_at ?a c" if "c \<in> set cs" for c
    using fresh [OF that] by (cases c) auto
  then have new: "cell_ok limit cs ?heap ?e"
    using claim_count_0 [of cs "is_handle_at ?a"] claim_count_0 [of cs "is_permit_at ?a"] fresh
    by (simp add: cell_ok_def)
  have old: "ple_semaphore e' < ?a \<and> cell_ok limit cs ?heap e'" if "(h', e') \<in> set (lim_per_host l)" for h' e'
    using limiter_invD(4,5) [OF inv that] by (auto simp: cell_ok_def)
  have "claim_ok (bt_insert host ?e (lim_per_host l)) c" if "c \<in> set cs" for c
  proof (rule claim_ok_keep [OF limiter_invD(7) [OF inv that]])
    fix h e' assume "(h, e') \<in> set (lim_per_host l)"
    then show "\<exists>e''. (h, e'') \<in> set (bt_insert host ?e (lim_per_host l)) \<and> ple_semaphore e'' = ple_semaphore e'"
      using absent [of e'] unfolding m by (cases "h = host") auto
  qed
  moreover have "inj_on (\<lambda>(h, e). ple_semaphore e) (set (bt_insert host ?e (lim_per_host l)))"
    unfolding m inj_on_insert
  proof
    show "inj_on (\<lambda>(h, e). ple_semaphore e) {x \<in> set (lim_per_host l). fst x \<noteq> host}"
      using limiter_invD(6) [OF inv] by (rule inj_on_subset) auto
    show "(case (host, ?e) of (h, e) \<Rightarrow> ple_semaphore e) \<notin>
        (\<lambda>(h, e). ple_semaphore e) ` ({x \<in> set (lim_per_host l). fst x \<noteq> host} - {(host, ?e)})"
      using old by fastforce
  qed
  ultimately have "limiter_inv limit (l\<lparr> lim_per_host := bt_insert host ?e (lim_per_host l),
      lim_heap := ?heap, lim_next_address := Suc ?a \<rparr>, cs)"
    using inv new old m by (auto simp: limiter_inv_def intro: less_SucI)
  then show ?thesis using claim None m by (auto simp: claim_entry_def Let_def)
qed

lemma limiter_inv_acquire:
  assumes inv: "limiter_inv limit (l, cs)" and acq: "acquire_host host now l = (c, l')"
  shows "limiter_inv limit (l', c # cs)"
proof (cases "case host of None \<Rightarrow> None | Some h \<Rightarrow> normalize_host_key h")
  case None
  then have "c = NoHostLimit" "l' = l"
    using acq limiter_invD(1) [OF inv] by (simp_all add: acquire_host_def Let_def)
  then show ?thesis using inv by (auto simp: limiter_inv_def cell_ok_def claim_ok_def)
next
  case (Some key)
  let ?l = "l\<lparr> lim_per_host := cleanup_stale_per_host_limiters (entry_is_idle (lim_heap l))
    ple_last_used_at now per_host_limiter_entry_ttl per_host_limiter_max_entries (lim_per_host l) \<rparr>"
  obtain a l1 where claim: "claim_entry limit key now ?l = (a, l1)" by force
  from claim_entry_inv [OF limiter_inv_cleanup [OF inv] claim]
  obtain e where inv1: "limiter_inv limit (l1, cs)" and e: "(key, e) \<in> set (lim_per_host l1)"
      "ple_semaphore e = a"
    by blast
  note cell = limiter_invD(5) [OF inv1 e(1), unfolded cell_ok_def e(2)]
  have claims: "claim_ok (lim_per_host l1) (HostPermit key a)" "claim_ok (lim_per_host l1) (HostWaiter key a)"
    "\<And>c'. c' \<in> set cs \<Longrightarrow> claim_ok (lim_per_host l1) c'"
    using e limiter_invD(7) [OF inv1] by (auto simp: claim_ok_def)
  show ?thesis
  proof (cases "sc_permits (lim_heap l1 a) = 0")
    case True
    then have res: "c = HostWaiter key a"
      "l' = update_cell a (\<lambda>c. c\<lparr> sc_strong_count := sc_strong_count c + 1 \<rparr>) l1"
      using acq Some claim limiter_invD(1) [OF inv]
      by (simp_all add: acquire_host_def Let_def semaphore_try_acquire_def)
    show ?thesis
      unfolding res by (rule limiter_inv_update [OF inv1 e]) (use cell claims in \<open>auto simp: cell_ok_def e(2)\<close>)
  next
    case False
    then have res: "c = HostPermit key a"
      "l' = update_cell a (\<lambda>c. \<lparr> sc_permits = sc_permits (lim_heap l1 a) - 1,
         sc_strong_count = sc_strong_count c + 1 \<rparr>) l1"
      using acq Some claim limiter_invD(1) [OF inv]
      by (simp_all add: acquire_host_def Let_def semaphore_try_acquire_def)
    show ?thesis
      unfolding res
      by (rule limiter_inv_update [OF inv1 e]) (use cell claims False in \<open>auto simp: cell_ok_def e(2)\<close>)
  qed
qed

lemma claim_entry_of:
  assumes inv: "limiter_inv limit (l, cs)" and i: "i < length cs" and "is_handle_at a (cs ! i)"
  obtains h e where "(h, e) \<in> set (lim_per_host l)" "ple_semaphore e = a"
    "sc_permits (lim_heap l a) + claim_count (is_permit_at a) cs = limit"
    "sc_strong_count (lim_heap l a) = 1 + claim_count (is_handle_at a) cs"
  using handle_counted [OF inv nth_mem [OF i] assms(3)] limiter_invD(5) [OF inv]
  by (metis cell_ok_def)

lemma claims_update:
  assumes "limiter_inv limit (l, cs)" "claim_ok (lim_per_host l) c" "c' \<in> set (cs[i := c])"
  shows "claim_ok (lim_per_host l) c'"
  using assms limiter_invD(7) [OF assms(1)] set_update_subset_insert [of cs i c] by blast

lemma limiter_inv_wake:
  assumes inv: "limiter_inv limit (l, cs)" and i: "i < length cs" and w: "cs ! i = HostWaiter h a"
    and acq: "waiter_acquire a l = Some l'"
  shows "limiter_inv limit (l', cs[i := HostPermit h a])"
proof -
  obtain h' e where e: "(h', e) \<in> set (lim_per_host l)" "ple_semaphore e = a"
      "sc_permits (lim_heap l a) + claim_count (is_permit_at a) cs = limit"
      "sc_strong_count (lim_heap l a) = 1 + claim_count (is_handle_at a) cs"
    using claim_entry_of [OF inv i, of a] w by auto
  have "0 < sc_permits (lim_heap l a)" and
    l': "l' = update_cell a (\<lambda>c. c\<lparr> sc_permits := sc_permits (lim_heap l a) - 1 \<rparr>) l"
    using acq by (auto simp: waiter_acquire_def semaphore_acquire_iteration_def split: if_splits)
  moreover have "claim_count (is_permit_at b) (cs[i := HostPermit h a]) =
      (if b = a then Suc (claim_count (is_permit_at b) cs) else claim_count (is_permit_at b) cs)"
    "claim_count (is_handle_at b) (cs[i := HostPermit h a]) = claim_count (is_handle_at b) cs" for b
    using claim_count_update [OF i, of "is_permit_at b" "HostPermit h a"]
      claim_count_update [OF i, of "is_handle_at b" "HostPermit h a"] w by (auto split: if_splits)
  moreover have "claim_ok (lim_per_host l) (HostPermit h a)"
    using limiter_invD(7) [OF inv nth_mem [OF i]] w by (simp add: claim_ok_def)
  ultimately show ?thesis
    unfolding l' using e(3,4) limiter_invD(5) [OF inv e(1)]
    by (intro limiter_inv_update [OF inv e(1,2)]) (auto simp: cell_ok_def e(2) dest: claims_update [OF inv, rotated])
qed

lemma limiter_inv_give_up:
  assumes inv: "limiter_inv limit (l, cs)" and i: "i < length cs" and w: "cs ! i = HostWaiter h a"
  shows "limiter_inv limit (waiter_timeout a l, cs[i := NoHostLimit])"
proof -
  obtain h' e where e: "(h', e) \<in> set (lim_per_host l)" "ple_semaphore e = a"
      "sc_permits (lim_heap l a) + claim_count (is_permit_at a) cs = limit"
      "sc_strong_count (lim_heap l a) = 1 + claim_count (is_handle_at a) cs"
    using claim_entry_of [OF inv i, of a] w by auto
  have counts: "claim_count (is_permit_at b) (cs[i := NoHostLimit]) = claim_count (is_permit_at b) cs"
    "Suc (claim_count (is_handle_at a) (cs[i := NoHostLimit])) = claim_count (is_handle_at a) cs"
    "b \<noteq> a \<Longrightarrow> claim_count (is_handle_at b) (cs[i := NoHostLimit]) = claim_count (is_handle_at b) cs" for b
    using claim_count_update [OF i, of "is_permit_at b" NoHostLimit]
      claim_count_update [OF i, of "is_handle_at b" NoHostLimit]
      claim_count_update [OF i, of "is_handle_at a" NoHostLimit] w by simp_all
  have "claim_ok (lim_per_host l) NoHostLimit" by (simp add: claim_ok_def)
  then show ?thesis
    unfolding waiter_timeout_def using e(3,4) limiter_invD(5) [OF inv e(1)] counts
    by (intro limiter_inv_update [OF inv e(1,2)]) (auto simp: cell_ok_def e(2) dest: claims_update [OF inv, rotated])
qed

lemma limiter_inv_drop:
  assumes inv: "limiter_inv limit (l, cs)" and i: "i < length cs" and w: "cs ! i = HostPermit h a"
  shows "limiter_inv limit (permit_drop a l, cs[i := NoHostLimit])"
proof -
  obtain h' e where e: "(h', e) \<in> set (lim_per_host l)" "ple_semaphore e = a"
      "sc_permits (lim_heap l a) + claim_count (is_permit_at a) cs = limit"
      "sc_strong_count (lim_heap l a) = 1 + claim_count (is_handle_at a) cs"
    using claim_entry_of [OF inv i, of a] w by auto
  have counts: "Suc (claim_count (is_permit_at a) (cs[i := NoHostLimit])) = claim_count (is_permit_at a) cs"
    "Suc (claim_count (is_handle_at a) (cs[i := NoHostLimit])) = claim_count (is_handle_at a) cs"
    "b \<noteq> a \<Longrightarrow> claim_count (is_permit_at b) (cs[i := NoHostLimit]) = claim_count (is_permit_at b) cs"
    "b \<noteq> a \<Longrightarrow> claim_count (is_handle_at b) (cs[i := NoHostLimit]) = claim_count (is_handle_at b) cs" for b
    using claim_count_update [OF i, of "is_permit_at b" NoHostLimit]
      claim_count_update [OF i, of "is_handle_at b" NoHostLimit]
      claim_count_update [OF i, of "is_permit_at a" NoHostLimit]
      claim_count_update [OF i, of "is_handle_at a" NoHostLimit] w by simp_all
  moreover have "usize_add (sc_permits (lim_heap l a)) 1 = Suc (sc_permits (lim_heap l a))"
    using e(3) counts(1) limiter_invD(2) [OF inv] by (simp add: sat_add_def)
  moreover have "claim_ok (lim_per_host l) NoHostLimit" by (simp add: claim_ok_def)
  ultimately show ?thesis
    unfolding permit_drop_def semaphore_release_def using e(3,4) limiter_invD(5) [OF inv e(1)]
    by (intro limiter_inv_update [OF inv e(1,2)]) (auto simp: cell_ok_def e(2) dest: claims_update [OF inv, rotated])
qed

lemma limiter_inv_step: "limiter_inv limit x \<Longrightarrow> limiter_inv limit (limiter_step ev x)"
proof (induction ev x rule: limiter_step.induct)
  case (1 host now l cs)
  then show ?case by (auto split: prod.splits intro: limiter_inv_acquire)
next
  case (2 i l cs)
  then show ?case by (auto split: host_claim.splits option.splits intro: limiter_inv_wake)
next
  case (3 i l cs)
  then show ?case by (auto split: host_claim.splits intro: limiter_inv_give_up)
next
  case (4 i l cs)
  then show ?case by (auto split: host_claim.splits intro: limiter_inv_drop)
qed

lemma limiter_inv_run:
  assumes "request_limiters_new max_in_flight (Some limit) = Some l" "limit \<le> usize_max"
  shows "limiter_inv limit (limiter_run evs l)"
proof -
  have "limiter_inv limit (fold limiter_step evs x)" if "limiter_inv limit x" for x
    using that by (induction evs arbitrary: x) (simp_all add: limiter_inv_step)
  moreover have "limiter_inv limit (l, [])"
    using assms by (auto simp: request_limiters_new_def limiter_inv_def)
  ultimately show ?thesis by (simp add: limiter_run_def)
qed

lemma permits_of_host_le:
  assumes inv: "limiter_inv limit (l, cs)"
  shows "claim_count (is_permit_of_host h) cs \<le> limit"
proof (cases "bt_get (lim_per_host l) h")
  case None
  have "\<not> is_permit_of_host h c" if "c \<in> set cs" for c
    using limiter_invD(7) [OF inv that] None limiter_invD(3) [OF inv]
    by (cases c) (auto simp: claim_ok_def bt_get_Some_iff [symmetric])
  then show ?thesis using claim_count_0 [of cs "is_permit_of_host h"] by simp
next
  case (Some e)
  have "is_permit_at (ple_semaphore e) c" if "c \<in> set cs" "is_permit_of_host h c" for c
    using limiter_invD(7) [OF inv that(1)] that(2) Some limiter_invD(3) [OF inv]
    by (cases c) (auto simp: claim_ok_def bt_get_Some_iff [symmetric])
  then have "claim_count (is_permit_of_host h) cs \<le> claim_count (is_permit_at (ple_semaphore e)) cs"
    by (rule claim_count_mono)
  also have "\<dots> \<le> limit"
    using limiter_invD(5) [OF inv, of h e] Some limiter_invD(3) [OF inv]
    by (simp add: bt_get_Some_iff cell_ok_def)
  finally show ?thesis .
qed

subsection \<open>The global semaphore as a pool of permits\<close>

interpretation global_limit: permit_pool
  "\<lambda>permits. limit - permits" "\<lambda>_. limit" semaphore_try_acquire "\<lambda>_::unit. semaphore_release"
  "\<lambda>permits. permits \<le> limit \<and> limit \<le> usize_max" limit
  for limit :: nat
  by unfold_locales
     (auto simp: semaphore_try_acquire_def semaphore_release_def sat_add_def split: if_splits)

subsection \<open>Properties\<close>

text \<open>
  C31: The limit of requests in flight per host is never exceeded, whatever the interleaving of
  threads that acquire, wait, give up and drop their permits, and although entries of the table are
  evicted and created again in between: no entry with a permit or a waiter is ever evicted. The
  limit is also usable in full: a waiter stays without a permit only while all of them are held.
\<close>

theorem host_limit_respected:
  assumes "request_limiters_new max_in_flight (Some limit) = Some start" and "limit \<le> usize_max"
    and "limiter_run evs start = (l, claims)"
  shows "claim_count (is_permit_of_host h) claims \<le> limit \<and>
    (\<forall>i h a. i < length claims \<and> claims ! i = HostWaiter h a \<and> waiter_acquire a l = None \<longrightarrow>
       claim_count (is_permit_at a) claims = limit)"
proof -
  have inv: "limiter_inv limit (l, claims)"
    using limiter_inv_run [OF assms(1,2), of evs] assms(3) by simp
  have "claim_count (is_permit_at a) claims = limit"
    if "i < length claims" "claims ! i = HostWaiter h a" "waiter_acquire a l = None" for i h a
    using claim_entry_of [OF inv that(1), of a] that(2,3)
    by (auto simp: waiter_acquire_def semaphore_acquire_iteration_def split: if_splits)
  with permits_of_host_le [OF inv] show ?thesis by blast
qed

theorem host_limit_respected_witness:
  "case limiter_run [EvAcquireHost (Some ''h'') 1, EvAcquireHost (Some ''h.'') 2]
     (the (request_limiters_new None (Some 1))) of
   (l, claims) \<Rightarrow> claims = [HostWaiter ''h'' 0, HostPermit ''h'' 0] \<and>
     claim_count (is_permit_of_host ''h'') claims \<le> 1"
proof -
  let ?l = "the (request_limiters_new None (Some 1))"
  let ?evs = "[EvAcquireHost (Some ''h'') 1, EvAcquireHost (Some ''h.'') 2]"
  have new: "request_limiters_new None (Some 1) = Some ?l" by (simp add: request_limiters_new_def)
  have key: "normalize_host_key ''h'' = Some ''h''" "normalize_host_key ''h.'' = Some ''h''"
    by (simp_all add: normalize_host_key_def string_defs ascii_defs)
  have "snd (limiter_run ?evs ?l) = [HostWaiter ''h'' 0, HostPermit ''h'' 0]"
    by (simp add: limiter_run_def acquire_host_def request_limiters_new_def key claim_entry_def bt_get_def
        cleanup_stale_per_host_limiters_def bt_retain_def evict_over_capacity.simps
        per_host_limiter_max_entries_def per_host_limiter_entry_ttl_def from_secs_def nanos_per_sec_def
        semaphore_try_acquire_def update_cell_def saturating_duration_since_def)
  moreover have "(1::nat) \<le> usize_max" by (simp add: max_values)
  ultimately show ?thesis
    using host_limit_respected [OF new, of ?evs "fst (limiter_run ?evs ?l)" "snd (limiter_run ?evs ?l)" "''h''"]
    by (simp add: split_def)
qed

text \<open>
  The limit of requests in flight of the whole client. For any sequence of acquisitions and
  releases on the global semaphore, the permits held and the free permits add up to the limit, and
  as long as fewer than the limit are held an acquisition succeeds.
\<close>

theorem global_limit_exact:
  assumes "0 < limit" and "limit \<le> usize_max"
    and "pool_run semaphore_try_acquire (\<lambda>_. semaphore_release) (evs :: unit pool_event list) limit = (permits, held)"
  shows "permits + held = limit \<and> (held < limit \<longrightarrow> semaphore_try_acquire permits \<noteq> None)"
  using global_limit.pool_counts [of limit limit evs permits held] assms
  by (auto simp: semaphore_try_acquire_def)

theorem global_limit_exact_witness:
  "pool_run semaphore_try_acquire (\<lambda>_. semaphore_release)
     ([PoolAcquire, PoolAcquire, PoolAcquire, PoolRelease ()] :: unit pool_event list) 2 = (1, 1) \<and>
   (1::nat) + 1 = 2 \<and> semaphore_try_acquire 1 \<noteq> None"
proof -
  have run: "pool_run semaphore_try_acquire (\<lambda>_. semaphore_release)
     ([PoolAcquire, PoolAcquire, PoolAcquire, PoolRelease ()] :: unit pool_event list) 2 = (1, 1)"
    by (simp add: pool_run_def semaphore_try_acquire_def semaphore_release_def sat_add_def max_values)
  show ?thesis
    using global_limit_exact [OF _ _ run] run by (simp add: max_values)
qed

end
