(* ===== verification/Reqx_ContentEncoding.thy ===== *)
theory Reqx_ContentEncoding
  imports Reqx_Error
begin

text \<open>
  Decoding of compressed response bodies (\<open>src/src/core/content_encoding.rs\<close>) and the retrying read of
  \<open>src/src/core/util/io.rs\<close>. The decompressors are third-party code: applied to a body, each is a
  reader, that is the finite list of the results of its \<open>read\<close> calls, after which \<open>read\<close> returns
  zero bytes (an error of the reader is a value of the type parameter, for a decompressor its text). The features compiled in are flags of \<open>codecs\<close>.
\<close>

subsection \<open>Readers\<close>

datatype 'e io_read = ReadChunk string | ReadInterrupted | ReadFailed 'e

type_synonym 'e reader = "'e io_read list"

fun read_retry_interrupted :: "'e reader \<Rightarrow> (string, 'e) result \<times> 'e reader" where
  "read_retry_interrupted [] = (Ok [], [])"
| "read_retry_interrupted (ReadChunk bytes # rest) = (Ok bytes, rest)"
| "read_retry_interrupted (ReadInterrupted # rest) = read_retry_interrupted rest"
| "read_retry_interrupted (ReadFailed message # rest) = (Err message, rest)"

datatype decode_content_encoding_error = DecodeError string string | DecodeTooLarge nat

definition into_error ::
    "decode_content_encoding_error \<Rightarrow> http_method \<Rightarrow> string \<Rightarrow> nat \<Rightarrow> 'h error" where
  "into_error e meth uri max_bytes =
     (case e of
        DecodeError encoding message \<Rightarrow> DecodeContentEncoding encoding meth uri message
      | DecodeTooLarge actual_bytes \<Rightarrow> ResponseBodyTooLarge max_bytes actual_bytes meth uri)"

lemma read_retry_interrupted_shorter:
  "read_retry_interrupted r = (Ok bytes, rest) \<Longrightarrow> bytes \<noteq> [] \<Longrightarrow> length rest < length r"
  by (induction r rule: read_retry_interrupted.induct) auto

function read_to_end_loop ::
    "string \<Rightarrow> nat \<Rightarrow> string \<Rightarrow> string reader \<Rightarrow> (string, decode_content_encoding_error) result" where
  "read_to_end_loop encoding max_bytes decoded r =
     (case read_retry_interrupted r of
        (Err message, _) \<Rightarrow> Err (DecodeError encoding message)
      | (Ok chunk, rest) \<Rightarrow>
          if chunk = [] then Ok decoded
          else let next_size = usize_add (length decoded) (length chunk)
               in if next_size > max_bytes then Err (DecodeTooLarge next_size)
                  else read_to_end_loop encoding max_bytes (decoded @ chunk) rest)"
  by pat_completeness auto
termination
  by (relation "measure (\<lambda>(encoding, max_bytes, decoded, r). length r)")
     (auto dest: read_retry_interrupted_shorter [OF sym])

declare read_to_end_loop.simps [simp del]

definition read_to_end_limited ::
    "string reader \<Rightarrow> string \<Rightarrow> nat \<Rightarrow> (string, decode_content_encoding_error) result" where
  "read_to_end_limited r encoding max_bytes = read_to_end_loop encoding max_bytes [] r"

subsection \<open>Decoding\<close>

record codecs =
  cd_gzip_enabled :: bool
  cd_brotli_enabled :: bool
  cd_zstd_enabled :: bool
  cd_gzip :: "string \<Rightarrow> string reader"
  cd_zlib :: "string \<Rightarrow> string reader"
  cd_raw_deflate :: "string \<Rightarrow> string reader"
  cd_brotli :: "string \<Rightarrow> string reader"
  cd_zstd :: "string \<Rightarrow> (string reader, string) result"
  cd_to_str_error :: string

definition decode_deflate_limited ::
    "codecs \<Rightarrow> string \<Rightarrow> string \<Rightarrow> nat \<Rightarrow> (string, decode_content_encoding_error) result" where
  "decode_deflate_limited C body encoding max_bytes =
     (case read_to_end_limited (cd_zlib C body) encoding max_bytes of
        Ok decoded \<Rightarrow> Ok decoded
      | Err (DecodeError _ _) \<Rightarrow> read_to_end_limited (cd_raw_deflate C body) encoding max_bytes
      | Err e \<Rightarrow> Err e)"

definition should_decode_content_encoded_body :: "http_method \<Rightarrow> status \<Rightarrow> nat \<Rightarrow> bool" where
  "should_decode_content_encoded_body meth s body_len =
     (if body_len = 0 then False
      else if meth = method_HEAD then False
      else if 100 \<le> s \<and> s < 200 \<or> s = 204 \<or> s = 304 then False
      else True)"

fun content_encodings ::
    "('h, 'v) header_ops \<Rightarrow> codecs \<Rightarrow> 'v list \<Rightarrow> (string list, decode_content_encoding_error) result" where
  "content_encodings H C [] = Ok []"
| "content_encodings H C (v # vs) =
     (case hv_to_str H v of
        None \<Rightarrow> Err (DecodeError ''content-encoding'' (cd_to_str_error C))
      | Some content_encoding \<Rightarrow>
          result_bind (content_encodings H C vs) (\<lambda>rest.
            Ok (filter (\<lambda>item. item \<noteq> [])
                  (map trim (split_on (\<lambda>c. c = CHR '','') content_encoding)) @ rest)))"

definition decode_one ::
    "codecs \<Rightarrow> nat \<Rightarrow> string \<Rightarrow> string \<Rightarrow> (string, decode_content_encoding_error) result" where
  "decode_one C max_bytes encoding body =
     (let name = to_ascii_lowercase encoding
      in if name = ''identity'' then Ok body
         else if cd_gzip_enabled C \<and> name = ''gzip''
         then read_to_end_limited (cd_gzip C body) encoding max_bytes
         else if cd_gzip_enabled C \<and> name = ''deflate''
         then decode_deflate_limited C body encoding max_bytes
         else if cd_brotli_enabled C \<and> name = ''br''
         then read_to_end_limited (cd_brotli C body) encoding max_bytes
         else if cd_zstd_enabled C \<and> name = ''zstd''
         then (case cd_zstd C body of
                 Err message \<Rightarrow> Err (DecodeError encoding message)
               | Ok r \<Rightarrow> read_to_end_limited r encoding max_bytes)
         else Err (DecodeError name ''unsupported content-encoding''))"

text \<open>The loop pops the encodings from the end, the last one applied first.\<close>

fun decode_all ::
    "codecs \<Rightarrow> nat \<Rightarrow> string list \<Rightarrow> string \<Rightarrow> (string, decode_content_encoding_error) result" where
  "decode_all C max_bytes [] body = Ok body"
| "decode_all C max_bytes (encoding # stack) body =
     result_bind (decode_one C max_bytes encoding body) (decode_all C max_bytes stack)"

definition decode_content_encoded_body_limited ::
    "('h, 'v) header_ops \<Rightarrow> codecs \<Rightarrow> string \<Rightarrow> 'h \<Rightarrow> nat \<Rightarrow>
     (string, decode_content_encoding_error) result" where
  "decode_content_encoded_body_limited H C body headers max_bytes =
     (if length body > max_bytes then Err (DecodeTooLarge (length body))
      else result_bind (content_encodings H C (hm_get_all H headers ''content-encoding''))
             (\<lambda>encodings. if encodings = [] then Ok body else decode_all C max_bytes (rev encodings) body))"

subsection \<open>Lemmas\<close>

lemma read_to_end_loop_bound:
  "read_to_end_loop encoding max_bytes decoded r = Ok bytes \<Longrightarrow> length decoded \<le> max_bytes \<Longrightarrow>
   max_bytes < usize_max \<Longrightarrow> length bytes \<le> max_bytes"
proof (induction encoding max_bytes decoded r rule: read_to_end_loop.induct)
  case (1 encoding max_bytes decoded r)
  show ?case
  proof (cases "read_retry_interrupted r")
    case (Pair res rest)
    show ?thesis
    proof (cases res)
      case (Ok chunk)
      show ?thesis
      proof (cases "chunk = []")
        case True
        then show ?thesis
          using 1(2,3) Pair Ok by (simp add: read_to_end_loop.simps [of _ _ decoded r])
      next
        case False
        let ?n = "usize_add (length decoded) (length chunk)"
        have fit: "\<not> max_bytes < ?n"
          and more: "read_to_end_loop encoding max_bytes (decoded @ chunk) rest = Ok bytes"
          using 1(2) Pair Ok False
          by (auto simp: read_to_end_loop.simps [of _ _ decoded r] Let_def split: if_splits)
        then have "length (decoded @ chunk) \<le> max_bytes"
          using 1(4) by (simp add: sat_add_def min_def split: if_splits)
        then show ?thesis
          using 1(1) [OF Pair [symmetric] Ok False refl fit more] 1(4) by blast
      qed
    next
      case (Err m)
      then show ?thesis using 1(2) Pair by (simp add: read_to_end_loop.simps [of _ _ decoded r])
    qed
  qed
qed

lemma read_to_end_limited_bound:
  "read_to_end_limited r encoding max_bytes = Ok bytes \<Longrightarrow> max_bytes < usize_max \<Longrightarrow>
   length bytes \<le> max_bytes"
  unfolding read_to_end_limited_def by (erule read_to_end_loop_bound) simp_all

lemma decode_one_bound:
  "decode_one C max_bytes encoding body = Ok bytes \<Longrightarrow> length body \<le> max_bytes \<Longrightarrow>
   max_bytes < usize_max \<Longrightarrow> length bytes \<le> max_bytes"
  by (auto simp: decode_one_def decode_deflate_limited_def Let_def dest: read_to_end_limited_bound
      split: if_splits result.splits decode_content_encoding_error.splits)

lemma decode_all_bound:
  "decode_all C max_bytes stack body = Ok bytes \<Longrightarrow> length body \<le> max_bytes \<Longrightarrow>
   max_bytes < usize_max \<Longrightarrow> length bytes \<le> max_bytes"
  by (induction stack arbitrary: body) (auto simp: result_bind_Ok_iff dest: decode_one_bound)

text \<open>The content a reader delivers, when it delivers it without a failure.\<close>

fun reader_content :: "'e reader \<Rightarrow> string option" where
  "reader_content [] = Some []"
| "reader_content (ReadChunk bytes # rest) =
     (if bytes = [] then None else map_option ((@) bytes) (reader_content rest))"
| "reader_content (ReadInterrupted # rest) = reader_content rest"
| "reader_content (ReadFailed message # rest) = None"

lemma read_to_end_loop_content:
  "reader_content r = Some bytes \<Longrightarrow> length decoded + length bytes \<le> max_bytes \<Longrightarrow>
   read_to_end_loop encoding max_bytes decoded r = Ok (decoded @ bytes)"
proof (induction r arbitrary: decoded bytes rule: reader_content.induct)
  case 1
  then show ?case by (simp add: read_to_end_loop.simps)
next
  case (2 chunk rest)
  then obtain more where more: "reader_content rest = Some more" "bytes = chunk @ more" "chunk \<noteq> []"
    by (auto split: if_splits)
  then have "usize_add (length decoded) (length chunk) \<le> max_bytes"
    using 2(3) by (simp add: sat_add_def)
  then show ?case
    using 2(1) [OF more(3,1), of "decoded @ chunk"] 2(3) more
    by (simp add: read_to_end_loop.simps [of _ _ decoded] Let_def)
next
  case (3 rest)
  then have "read_to_end_loop encoding max_bytes decoded rest = Ok (decoded @ bytes)" by simp
  then show ?case
    by (simp add: read_to_end_loop.simps [of _ _ decoded "ReadInterrupted # rest"]
        read_to_end_loop.simps [of _ _ decoded rest])
qed simp

lemma read_to_end_limited_content:
  "reader_content r = Some bytes \<Longrightarrow> length bytes \<le> max_bytes \<Longrightarrow>
   read_to_end_limited r encoding max_bytes = Ok bytes"
  using read_to_end_loop_content [of r bytes "[]"] by (simp add: read_to_end_limited_def)

text \<open>
  What a server does: an encoder for each supported encoding, of which the decoders are inverse.
\<close>

definition supported_encoding :: "codecs \<Rightarrow> string \<Rightarrow> bool" where
  "supported_encoding C name =
     (name = ''identity'' \<or> cd_gzip_enabled C \<and> (name = ''gzip'' \<or> name = ''deflate'') \<or>
      cd_brotli_enabled C \<and> name = ''br'' \<or> cd_zstd_enabled C \<and> name = ''zstd'')"

definition codec_laws :: "codecs \<Rightarrow> (string \<Rightarrow> string \<Rightarrow> string) \<Rightarrow> bool" where
  "codec_laws C enc \<longleftrightarrow>
     (\<forall>x. enc ''identity'' x = x \<and>
          reader_content (cd_gzip C (enc ''gzip'' x)) = Some x \<and>
          reader_content (cd_zlib C (enc ''deflate'' x)) = Some x \<and>
          reader_content (cd_brotli C (enc ''br'' x)) = Some x \<and>
          (\<exists>r. cd_zstd C (enc ''zstd'' x) = Ok r \<and> reader_content r = Some x))"

definition encode_all :: "(string \<Rightarrow> string \<Rightarrow> string) \<Rightarrow> string list \<Rightarrow> string \<Rightarrow> string" where
  "encode_all enc names x = fold (\<lambda>n. enc (to_ascii_lowercase n)) names x"

lemma decode_one_encoded:
  assumes "codec_laws C enc" "supported_encoding C (to_ascii_lowercase n)" "length x \<le> max_bytes"
  shows "decode_one C max_bytes n (enc (to_ascii_lowercase n) x) = Ok x"
proof -
  obtain r where "cd_zstd C (enc ''zstd'' x) = Ok r" "reader_content r = Some x"
    using assms(1) unfolding codec_laws_def by blast
  then show ?thesis
    using assms read_to_end_limited_content [OF _ assms(3)]
    by (auto simp: codec_laws_def supported_encoding_def decode_one_def decode_deflate_limited_def Let_def)
qed

lemma decode_all_encoded:
  assumes "codec_laws C enc" "\<And>n. n \<in> set names \<Longrightarrow> supported_encoding C (to_ascii_lowercase n)"
    and "\<And>i. i < length names \<Longrightarrow> length (encode_all enc (take i names) x) \<le> max_bytes"
  shows "decode_all C max_bytes (rev names) (encode_all enc names x) = Ok x"
  using assms(2,3)
proof (induction names rule: rev_induct)
  case (snoc n names)
  have "decode_one C max_bytes n (enc (to_ascii_lowercase n) (encode_all enc names x)) =
      Ok (encode_all enc names x)"
    using snoc.prems(1) [of n] snoc.prems(2) [of "length names"]
    by (intro decode_one_encoded [OF assms(1)]) simp_all
  moreover have "decode_all C max_bytes (rev names) (encode_all enc names x) = Ok x"
  proof (rule snoc.IH)
    show "supported_encoding C (to_ascii_lowercase m)" if "m \<in> set names" for m
      using snoc.prems(1) that by simp
    show "length (encode_all enc (take i names) x) \<le> max_bytes" if "i < length names" for i
      using snoc.prems(2) [of i] that by simp
  qed
  ultimately show ?case by (simp add: encode_all_def)
qed (simp add: encode_all_def)

text \<open>
  A partial response (206) is decoded like any other, although its bytes are a range of the encoded
  representation.
\<close>

lemma partial_content_is_decoded:
  "should_decode_content_encoded_body meth 206 n \<longleftrightarrow> n \<noteq> 0 \<and> meth \<noteq> method_HEAD"
  by (auto simp: should_decode_content_encoded_body_def)

lemma decode_content_encoded_body_bound:
  assumes "decode_content_encoded_body_limited H C body headers max_bytes = Ok decoded"
    and "max_bytes < usize_max"
  shows "length decoded \<le> max_bytes"
  using assms decode_all_bound [of C max_bytes _ body decoded]
  by (auto simp: decode_content_encoded_body_limited_def result_bind_Ok_iff split: if_splits)

subsection \<open>Properties\<close>

text \<open>
  No decompression bomb: a body that is decoded never has more than the allowed bytes, however
  many encodings are stacked and whatever the decompressors produce. (The bound is below the width
  of a \<open>usize\<close>, so that the running size cannot saturate at it.)
\<close>

theorem decoded_body_bounded:
  assumes "decode_content_encoded_body_limited H C body headers max_bytes = Ok decoded"
    and "max_bytes < usize_max"
  shows "length decoded \<le> max_bytes"
  using assms decode_all_bound [of C max_bytes _ body decoded]
  by (auto simp: decode_content_encoded_body_limited_def result_bind_Ok_iff split: if_splits)

definition example_codecs :: codecs where
  "example_codecs = \<lparr> cd_gzip_enabled = True, cd_brotli_enabled = False, cd_zstd_enabled = False,
     cd_gzip = (\<lambda>b. if tl b = [] then [] else [ReadInterrupted, ReadChunk (tl b)]),
     cd_zlib = (\<lambda>b. if b = [] then [] else [ReadChunk b]),
     cd_raw_deflate = (\<lambda>b. [ReadFailed ''corrupt'']),
     cd_brotli = (\<lambda>b. if b = [] then [] else [ReadChunk b]),
     cd_zstd = (\<lambda>b. Ok (if b = [] then [] else [ReadChunk b])), cd_to_str_error = ''not text'' \<rparr>"

definition example_encode :: "string \<Rightarrow> string \<Rightarrow> string" where
  "example_encode name x = (if name = ''gzip'' then CHR ''z'' # x else x)"

lemma example_codec_laws [simp]: "codec_laws example_codecs example_encode"
  by (simp add: codec_laws_def example_codecs_def example_encode_def)

lemma example_names:
  "to_ascii_lowercase ''GZIP'' = ''gzip''" "to_ascii_lowercase ''gzip'' = ''gzip''"
  "to_ascii_lowercase ''identity'' = ''identity''"
  by code_simp+

lemmas example_trim_defs = trim_def trim_start_matches_def trim_end_matches_def is_ascii_whitespace_def

lemma example_decoding:
  "decode_content_encoded_body_limited alist_headers example_codecs ''zab''
     [(''content-encoding'', (''GZIP'', False))] 5 = Ok ''ab''"
  by (simp add: decode_content_encoded_body_limited_def alist_headers_def alist_get_all_def
      example_trim_defs example_names decode_one_def read_to_end_limited_def read_to_end_loop.simps example_codecs_def Let_def
      sat_add_def max_values)

theorem decoded_body_bounded_witness:
  "decode_content_encoded_body_limited alist_headers example_codecs ''zab''
     [(''content-encoding'', (''GZIP'', False))] 5 = Ok ''ab'' \<and> length ''ab'' \<le> 5"
  using decoded_body_bounded [OF example_decoding] example_decoding by (simp add: max_values)

text \<open>
  C40: Stacked encodings are undone in the right order. If a server applies supported encodings one
  after the other and lists them in that order in \<open>content-encoding\<close>, in any case and over any number
  of header lines, the client gets back the original body, provided that neither it nor an
  intermediate result exceeds the limit.
\<close>

theorem content_encoding_roundtrip:
  assumes "codec_laws C enc"
    and "content_encodings H C (hm_get_all H headers ''content-encoding'') = Ok names"
    and "\<forall>n \<in> set names. supported_encoding C (to_ascii_lowercase n)"
    and "\<forall>i \<le> length names. length (encode_all enc (take i names) x) \<le> max_bytes"
  shows "decode_content_encoded_body_limited H C (encode_all enc names x) headers max_bytes = Ok x"
proof -
  have "length (encode_all enc names x) \<le> max_bytes"
    using assms(4) [rule_format, of "length names"] by simp
  moreover have "decode_all C max_bytes (rev names) (encode_all enc names x) = Ok x"
    using assms(3,4) by (intro decode_all_encoded [OF assms(1)]) auto
  ultimately show ?thesis
    using assms(2) by (auto simp: decode_content_encoded_body_limited_def encode_all_def)
qed

theorem content_encoding_roundtrip_witness:
  "codec_laws example_codecs example_encode \<and>
   decode_content_encoded_body_limited alist_headers example_codecs
     (encode_all example_encode [''gzip'', ''identity'', ''GZIP''] ''ab'')
     [(''content-encoding'', ('' gzip, identity'', False)), (''content-encoding'', (''GZIP'', False))] 8 =
     Ok ''ab''"
proof -
  have names: "content_encodings alist_headers example_codecs (hm_get_all alist_headers
      [(''content-encoding'', ('' gzip, identity'', False)), (''content-encoding'', (''GZIP'', False))]
      ''content-encoding'') = Ok [''gzip'', ''identity'', ''GZIP'']"
    by (simp add: alist_headers_def alist_get_all_def example_trim_defs example_names)
  have supported: "\<forall>n \<in> set [''gzip'', ''identity'', ''GZIP''].
      supported_encoding example_codecs (to_ascii_lowercase n)"
    by (simp add: supported_encoding_def example_codecs_def example_trim_defs example_names)
  have small: "\<forall>i \<le> length [''gzip'', ''identity'', ''GZIP''].
      length (encode_all example_encode (take i [''gzip'', ''identity'', ''GZIP'']) ''ab'') \<le> 8"
    by (auto simp: encode_all_def example_encode_def example_trim_defs example_names le_Suc_eq numeral_eq_Suc)
  show ?thesis
    using content_encoding_roundtrip [OF example_codec_laws names supported small] by simp
qed

end
