(* ===== verification/Reqx_Transport.thy ===== *)
theory Reqx_Transport
  imports Reqx_ContentEncoding Reqx_Policy Reqx_Uri
begin

text \<open>
  What both transports share and what the clients see of them: the classification of I/O, TLS,
  \<open>ureq\<close> and \<open>hyper\<close> errors (\<open>src/src/core/util/transport_error.rs\<close>,
  \<open>src/src/blocking_client/transport.rs\<close>, \<open>src/src/async_client/transport_error.rs\<close>) and the bounded
  reading of a response body. An error behind \<open>dyn Error\<close> is a \<open>cause\<close>: the concrete types that the code
  asks for with a downcast are its constructors.
\<close>

subsection \<open>Causes\<close>

datatype io_error_kind =
    Io_TimedOut | Io_WouldBlock | Io_NotFound | Io_ConnectionRefused | Io_ConnectionAborted
  | Io_NotConnected | Io_AddrNotAvailable | Io_HostUnreachable | Io_NetworkUnreachable | Io_NetworkDown
  | Io_ConnectionReset | Io_BrokenPipe | Io_UnexpectedEof | Io_Other

record hyper_flags =
  hy_timeout :: bool
  hy_incomplete_message :: bool
  hy_body_write_aborted :: bool
  hy_closed :: bool
  hy_shutdown :: bool

datatype cause =
    IoCause io_error_kind string "cause option"
  | TlsCause string "cause option"
  | HyperCause hyper_flags string "cause option"
  | UreqCause bool string
  | OtherCause string "cause option"

record io_error =
  ioe_kind :: io_error_kind
  ioe_display :: string
  ioe_inner :: "cause option"

definition io_error_cause :: "io_error \<Rightarrow> cause" where
  "io_error_cause e = IoCause (ioe_kind e) (ioe_display e) (ioe_inner e)"

primrec cause_display :: "cause \<Rightarrow> string" where
  "cause_display (IoCause _ d _) = d"
| "cause_display (TlsCause d _) = d"
| "cause_display (HyperCause _ d _) = d"
| "cause_display (UreqCause _ d) = d"
| "cause_display (OtherCause d _) = d"

text \<open>\<open>io::Error::source\<close> is the source of the wrapped error and skips that error itself.\<close>

fun cause_source :: "cause \<Rightarrow> cause option" where
  "cause_source (IoCause _ _ None) = None"
| "cause_source (IoCause _ _ (Some inner)) = cause_source inner"
| "cause_source (TlsCause _ src) = src"
| "cause_source (HyperCause _ _ src) = src"
| "cause_source (UreqCause _ _) = None"
| "cause_source (OtherCause _ src) = src"

lemma size_cause_source: "cause_source c = Some d \<Longrightarrow> size d < size c"
  by (induction c rule: cause_source.induct) auto

function cause_box :: "cause \<Rightarrow> box_error" where
  "cause_box c = BoxError (cause_display c)
     (case cause_source c of None \<Rightarrow> None | Some d \<Rightarrow> Some (cause_box d))"
  by pat_completeness auto
termination by (relation "measure size") (auto dest: size_cause_source)

declare cause_box.simps [simp del]

subsection \<open>Classification shared by both transports\<close>

definition classify_io_transport_error_kind :: "io_error_kind \<Rightarrow> bool \<Rightarrow> transport_error_kind option" where
  "classify_io_transport_error_kind kind is_connect_path =
     (if kind \<in> {Io_TimedOut, Io_WouldBlock}
      then Some (if is_connect_path then Kind_Connect else Kind_Read)
      else if kind = Io_NotFound then Some Kind_Dns
      else if kind \<in> {Io_ConnectionRefused, Io_ConnectionAborted, Io_NotConnected, Io_AddrNotAvailable,
                      Io_HostUnreachable, Io_NetworkUnreachable, Io_NetworkDown}
      then Some Kind_Connect
      else if kind \<in> {Io_ConnectionReset, Io_BrokenPipe, Io_UnexpectedEof} then Some Kind_Read
      else None)"

fun is_tls_error :: "cause \<Rightarrow> bool" where
  "is_tls_error (TlsCause _ _) = True"
| "is_tls_error (IoCause _ _ inner) = (case inner of None \<Rightarrow> False | Some c \<Rightarrow> is_tls_error c)"
| "is_tls_error (HyperCause _ _ src) = (case src of None \<Rightarrow> False | Some c \<Rightarrow> is_tls_error c)"
| "is_tls_error (UreqCause _ _) = False"
| "is_tls_error (OtherCause _ src) = (case src of None \<Rightarrow> False | Some c \<Rightarrow> is_tls_error c)"

subsection \<open>The blocking transport\<close>

datatype ureq_error =
    Ureq_Timeout string
  | Ureq_HostNotFound
  | Ureq_Tls string
  | Ureq_Rustls string
  | Ureq_NativeTls string
  | Ureq_Der string
  | Ureq_Pem string
  | Ureq_ConnectProxyFailed string
  | Ureq_ConnectionFailed
  | Ureq_Io io_error
  | Ureq_OtherError string

record tls_features =
  ft_blocking_rustls :: bool
  ft_blocking_native :: bool

definition is_timeout_io_error :: "io_error \<Rightarrow> bool" where
  "is_timeout_io_error e =
     (ioe_kind e \<in> {Io_TimedOut, Io_WouldBlock} \<or>
      (case ioe_inner e of Some (UreqCause is_timeout _) \<Rightarrow> is_timeout | _ \<Rightarrow> False))"

definition classify_ureq_transport_error :: "tls_features \<Rightarrow> ureq_error \<Rightarrow> transport_error_kind" where
  "classify_ureq_transport_error F e =
     (case e of
        Ureq_HostNotFound \<Rightarrow> Kind_Dns
      | Ureq_Tls _ \<Rightarrow> Kind_Tls
      | Ureq_Rustls _ \<Rightarrow> if ft_blocking_rustls F then Kind_Tls else Kind_Other
      | Ureq_NativeTls _ \<Rightarrow> if ft_blocking_native F then Kind_Tls else Kind_Other
      | Ureq_Der _ \<Rightarrow> if ft_blocking_native F then Kind_Tls else Kind_Other
      | Ureq_Pem _ \<Rightarrow> if ft_blocking_rustls F \<or> ft_blocking_native F then Kind_Tls else Kind_Other
      | Ureq_ConnectProxyFailed _ \<Rightarrow> Kind_Connect
      | Ureq_ConnectionFailed \<Rightarrow> Kind_Connect
      | Ureq_Io src \<Rightarrow>
          if is_tls_error (io_error_cause src) then Kind_Tls
          else unwrap_or Kind_Other (classify_io_transport_error_kind (ioe_kind src) False)
      | Ureq_Timeout _ \<Rightarrow> Kind_Other
      | Ureq_OtherError _ \<Rightarrow> Kind_Other)"

definition remove_content_encoding_headers :: "('h, 'v) header_ops \<Rightarrow> 'h \<Rightarrow> 'h" where
  "remove_content_encoding_headers H headers =
     hm_remove H ''content-length'' (hm_remove H ''content-encoding'' headers)"

datatype 'e read_body_error = ReadBody_Read 'e | ReadBody_TooLarge nat

function read_reader_loop ::
    "nat \<Rightarrow> string \<Rightarrow> nat \<Rightarrow> 'e reader \<Rightarrow> (string, 'e read_body_error) result" where
  "read_reader_loop max_bytes collected total_len r =
     (case read_retry_interrupted r of
        (Err e, _) \<Rightarrow> Err (ReadBody_Read e)
      | (Ok chunk, rest) \<Rightarrow>
          if chunk = [] then Ok collected
          else let total_len = usize_add total_len (length chunk)
               in if total_len > max_bytes then Err (ReadBody_TooLarge total_len)
                  else read_reader_loop max_bytes (collected @ chunk) total_len rest)"
  by pat_completeness auto
termination
  by (relation "measure (\<lambda>(max_bytes, collected, total_len, r). length r)")
     (auto dest: read_retry_interrupted_shorter [OF sym])

declare read_reader_loop.simps [simp del]

definition read_reader_limited :: "'e reader \<Rightarrow> nat \<Rightarrow> (string, 'e read_body_error) result" where
  "read_reader_limited r max_bytes = read_reader_loop max_bytes [] 0 r"

subsection \<open>The asynchronous transport\<close>

record hyper_client_error =
  he_is_connect :: bool
  he_cause :: cause

definition classify_transport_error_source :: "cause \<Rightarrow> bool \<Rightarrow> transport_error_kind option" where
  "classify_transport_error_source c is_connect_path =
     (case c of
        IoCause kind _ _ \<Rightarrow> classify_io_transport_error_kind kind is_connect_path
      | HyperCause f _ _ \<Rightarrow>
          if hy_timeout f then Some (if is_connect_path then Kind_Connect else Kind_Read)
          else if hy_incomplete_message f \<or> hy_body_write_aborted f then Some Kind_Read
          else if \<not> is_connect_path \<and> (hy_closed f \<or> hy_shutdown f) then Some Kind_Read
          else None
      | _ \<Rightarrow> None)"

function classify_source_loop :: "cause \<Rightarrow> bool \<Rightarrow> transport_error_kind option" where
  "classify_source_loop c is_connect_path =
     (case classify_transport_error_source c is_connect_path of
        Some kind \<Rightarrow> Some kind
      | None \<Rightarrow>
          (case cause_source c of None \<Rightarrow> None | Some d \<Rightarrow> classify_source_loop d is_connect_path))"
  by pat_completeness auto
termination by (relation "measure (\<lambda>(c, p). size c)") (auto dest: size_cause_source)

declare classify_source_loop.simps [simp del]

definition classify_transport_error_source_chain :: "cause \<Rightarrow> bool \<Rightarrow> transport_error_kind option" where
  "classify_transport_error_source_chain c is_connect_path =
     (if is_tls_error c then Some Kind_Tls else classify_source_loop c is_connect_path)"

definition dns_markers :: "string list" where
  "dns_markers = [''name or service not known'', ''failed to lookup address'', ''no such host'',
     ''temporary failure in name resolution'', ''nodename nor servname provided'', ''dns lookup failed'']"

definition tls_markers :: "string list" where
  "tls_markers = [''tls handshake'', ''certificate verify'', ''certificate unknown'',
     ''invalid certificate'', ''self signed certificate'', ''received fatal alert'', ''alertreceived'',
     ''protocolversion'', ''protocol version'', ''x509'', ''pkix'', ''peer certificate'']"

definition connect_markers :: "string list" where
  "connect_markers = [''connection refused'', ''connection aborted'', ''not connected'',
     ''network unreachable'', ''host unreachable'', ''connect error'', ''proxy connect'',
     ''tunnel error: unexpected end of file'', ''tunnel error: io error establishing tunnel'',
     ''tunnel error: failed to create underlying connection'', ''timed out while connecting'',
     ''connection timeout'', ''connect timeout'']"

definition read_markers :: "string list" where
  "read_markers = [''connection reset'', ''broken pipe'', ''unexpected eof'', ''incomplete message'',
     ''connection closed before message completed'', ''body write aborted'']"

definition contains_marker :: "string \<Rightarrow> string list \<Rightarrow> bool" where
  "contains_marker s markers = list_ex (\<lambda>marker. find_str marker s \<noteq> None) markers"

definition contains_word :: "string \<Rightarrow> string \<Rightarrow> bool" where
  "contains_word s word = list_ex (\<lambda>token. token = word) (split_on (\<lambda>c. \<not> is_ascii_alphanumeric c) s)"

definition classify_transport_error_text :: "string \<Rightarrow> bool \<Rightarrow> transport_error_kind" where
  "classify_transport_error_text s is_connect_path =
     (if contains_marker s dns_markers \<or> contains_word s ''dns'' then Kind_Dns
      else if contains_marker s tls_markers \<or> contains_word s ''tls'' \<or> contains_word s ''ssl'' \<or>
              contains_word s ''certificate''
      then Kind_Tls
      else if contains_marker s connect_markers then Kind_Connect
      else if contains_marker s read_markers then Kind_Read
      else if is_connect_path \<and> contains_marker s [''timed out'', ''timeout''] then Kind_Connect
      else Kind_Other)"

function cause_texts :: "cause option \<Rightarrow> string" where
  "cause_texts None = []"
| "cause_texts (Some c) = CHR '' '' # to_ascii_lowercase (cause_display c) @ cause_texts (cause_source c)"
  by pat_completeness auto
termination
proof (relation "measure (\<lambda>c. case c of None \<Rightarrow> 0 | Some c \<Rightarrow> Suc (size c))", goal_cases)
  case (2 c)
  then show ?case by (cases "cause_source c") (auto dest: size_cause_source)
qed simp

definition classify_transport_error :: "hyper_client_error \<Rightarrow> transport_error_kind" where
  "classify_transport_error e =
     (case classify_transport_error_source_chain (he_cause e) (he_is_connect e) of
        Some kind \<Rightarrow> kind
      | None \<Rightarrow>
          classify_transport_error_text
            (to_ascii_lowercase (cause_display (he_cause e)) @ cause_texts (cause_source (he_cause e)))
            (he_is_connect e))"

subsection \<open>Lemmas\<close>

lemma read_reader_loop_bound:
  "read_reader_loop max_bytes collected total_len r = Ok bytes \<Longrightarrow> length collected \<le> total_len \<Longrightarrow>
   total_len \<le> max_bytes \<Longrightarrow> max_bytes < usize_max \<Longrightarrow> length bytes \<le> max_bytes"
proof (induction max_bytes collected total_len r rule: read_reader_loop.induct)
  case (1 max_bytes collected total_len r)
  obtain res rest where read: "read_retry_interrupted r = (res, rest)" by force
  show ?case
  proof (cases res)
    case (Ok chunk)
    let ?n = "usize_add total_len (length chunk)"
    show ?thesis
    proof (cases "chunk = []")
      case True
      then show ?thesis
        using 1(2-4) read Ok by (simp add: read_reader_loop.simps [of _ _ _ r])
    next
      case False
      have fit: "\<not> max_bytes < ?n"
        and more: "read_reader_loop max_bytes (collected @ chunk) ?n rest = Ok bytes"
        using 1(2) read Ok False
        by (auto simp: read_reader_loop.simps [of _ _ _ r] Let_def split: if_splits)
      then have "length (collected @ chunk) \<le> ?n"
        using 1(3,5) by (simp add: sat_add_def min_def split: if_splits)
      then show ?thesis
        using 1(1) [OF read [symmetric] Ok False refl fit more] fit 1(5) by simp
    qed
  next
    case (Err e)
    then show ?thesis using 1(2) read by (simp add: read_reader_loop.simps [of _ _ _ r])
  qed
qed

lemma read_reader_limited_bound:
  "read_reader_limited r max_bytes = Ok bytes \<Longrightarrow> max_bytes < usize_max \<Longrightarrow> length bytes \<le> max_bytes"
  unfolding read_reader_limited_def by (erule read_reader_loop_bound) simp_all

subsection \<open>Properties\<close>

text \<open>
  A TLS failure is never retried by the standard policy. Wherever in the chain of causes the error
  of the TLS library is, also wrapped in I/O errors, both transports report the failure as a TLS
  failure, and the standard policy retries no such failure at any attempt.
\<close>

theorem tls_failures_not_retried:
  assumes "is_tls_error (io_error_cause e)"
  shows "classify_transport_error \<lparr> he_is_connect = connecting, he_cause = io_error_cause e \<rparr> = Kind_Tls \<and>
    classify_ureq_transport_error F (Ureq_Io e) = Kind_Tls \<and>
    \<not> should_retry_decision retry_policy_standard
        (retry_decision_new attempt max_attempts meth uri (Reason_Transport Kind_Tls))"
  using assms
  by (simp add: classify_transport_error_def classify_transport_error_source_chain_def
      classify_ureq_transport_error_def should_retry_decision_def retry_decision_new_def
      decision_status_def decision_transport_error_kind_def retry_policy_standard_def
      default_retryable_transport_error_kinds_def)

theorem tls_failures_not_retried_witness:
  "is_tls_error (io_error_cause \<lparr> ioe_kind = Io_UnexpectedEof, ioe_display = ''eof'',
      ioe_inner = Some (IoCause Io_ConnectionReset ''reset'' (Some (TlsCause ''alert'' None))) \<rparr>) \<and>
   classify_ureq_transport_error \<lparr> ft_blocking_rustls = True, ft_blocking_native = False \<rparr>
     (Ureq_Io \<lparr> ioe_kind = Io_UnexpectedEof, ioe_display = ''eof'',
      ioe_inner = Some (IoCause Io_ConnectionReset ''reset'' (Some (TlsCause ''alert'' None))) \<rparr>) = Kind_Tls"
proof -
  have tls: "is_tls_error (io_error_cause \<lparr> ioe_kind = Io_UnexpectedEof, ioe_display = ''eof'',
      ioe_inner = Some (IoCause Io_ConnectionReset ''reset'' (Some (TlsCause ''alert'' None))) \<rparr>)"
    by (simp add: io_error_cause_def)
  then show ?thesis using tls_failures_not_retried [OF tls] by simp
qed

end
