(* ===== verification/Reqx_Proxy.thy ===== *)
theory Reqx_Proxy
  imports Reqx_Redirect
begin

text \<open>
  Proxy configuration and the destinations that bypass the proxy (\<open>src/src/core/proxy.rs\<close>), with the
  parser of IP addresses of the standard library that the rules rely on. \<open>Url::port_or_known_default\<close>
  and the networks of the crate \<open>ipnet\<close> are the parameters \<open>proxy_ops\<close>.
\<close>

subsection \<open>IP addresses\<close>

datatype ip_addr = V4 nat nat nat nat | V6 "nat list"

text \<open>
  A reader returns a value and the rest of the text, or \<open>None\<close> and then the text is not consumed.
\<close>

type_synonym 'a text_reader = "string \<Rightarrow> ('a \<times> string) option"

definition is_radix_digit :: "nat \<Rightarrow> char \<Rightarrow> bool" where
  "is_radix_digit radix c =
     (if radix = 10 then is_ascii_digit c
      else is_ascii_digit c \<or> 97 \<le> byte_of c \<and> byte_of c \<le> 102 \<or> 65 \<le> byte_of c \<and> byte_of c \<le> 70)"

definition radix_digit_value :: "char \<Rightarrow> nat" where
  "radix_digit_value c =
     (if is_ascii_digit c then byte_of c - 48
      else if is_ascii_lower c then byte_of c - 87 else byte_of c - 55)"

definition read_number :: "nat \<Rightarrow> nat \<Rightarrow> bool \<Rightarrow> nat \<Rightarrow> nat text_reader" where
  "read_number radix max_digits allow_zero_prefix bound s =
     (let ds = takeWhile (is_radix_digit radix) s;
          n = foldl (\<lambda>n c. n * radix + radix_digit_value c) 0 ds
      in if ds = [] \<or> length ds > max_digits \<or>
            \<not> allow_zero_prefix \<and> hd ds = CHR ''0'' \<and> length ds > 1 \<or> n > bound
         then None else Some (n, drop (length ds) s))"

definition read_separator :: "char \<Rightarrow> nat \<Rightarrow> 'a text_reader \<Rightarrow> 'a text_reader" where
  "read_separator sep index inner s =
     (if index > 0
      then (case s of c # cs \<Rightarrow> if c = sep then inner cs else None | [] \<Rightarrow> None)
      else inner s)"

definition read_ipv4_octet :: "nat \<Rightarrow> nat text_reader" where
  "read_ipv4_octet i = read_separator (CHR ''.'') i (read_number 10 3 False 255)"

definition read_ipv4_addr :: "(nat \<times> nat \<times> nat \<times> nat) text_reader" where
  "read_ipv4_addr s =
     (case read_ipv4_octet 0 s of None \<Rightarrow> None | Some (a, s) \<Rightarrow>
     (case read_ipv4_octet 1 s of None \<Rightarrow> None | Some (b, s) \<Rightarrow>
     (case read_ipv4_octet 2 s of None \<Rightarrow> None | Some (c, s) \<Rightarrow>
     (case read_ipv4_octet 3 s of None \<Rightarrow> None | Some (d, s) \<Rightarrow> Some ((a, b, c, d), s)))))"

text \<open>
  The groups from index \<open>i\<close> on, at most \<open>n\<close> of them, whether they end in an embedded IPv4 address,
  and the rest of the text.
\<close>

fun read_groups :: "nat \<Rightarrow> nat \<Rightarrow> string \<Rightarrow> nat list \<times> bool \<times> string" where
  "read_groups 0 i s = ([], False, s)"
| "read_groups (Suc n) i s =
     (case (if n > 0 then read_separator (CHR '':'') i read_ipv4_addr s else None) of
        Some ((a, b, c, d), rest) \<Rightarrow> ([a * 256 + b, c * 256 + d], True, rest)
      | None \<Rightarrow>
          (case read_separator (CHR '':'') i (read_number 16 4 True 65535) s of
             None \<Rightarrow> ([], False, s)
           | Some (g, rest) \<Rightarrow>
               (case read_groups n (Suc i) rest of (gs, v4, rest') \<Rightarrow> (g # gs, v4, rest'))))"

definition read_ipv6_addr :: "nat list text_reader" where
  "read_ipv6_addr s =
     (case read_groups 8 0 s of (head, head_ipv4, rest) \<Rightarrow>
        if length head = 8 then Some (head, rest)
        else if head_ipv4 then None
        else if take 2 rest \<noteq> ''::'' then None
        else (case read_groups (8 - (length head + 1)) 0 (drop 2 rest) of (tail, _, rest') \<Rightarrow>
               Some (head @ replicate (8 - length head - length tail) 0 @ tail, rest')))"

definition parse_all :: "'a text_reader \<Rightarrow> string \<Rightarrow> 'a option" where
  "parse_all reader s = (case reader s of Some (v, rest) \<Rightarrow> if rest = [] then Some v else None | None \<Rightarrow> None)"

definition read_ip_addr :: "ip_addr text_reader" where
  "read_ip_addr s =
     (case read_ipv4_addr s of
        Some ((a, b, c, d), rest) \<Rightarrow> Some (V4 a b c d, rest)
      | None \<Rightarrow> map_option (\<lambda>(groups, rest). (V6 groups, rest)) (read_ipv6_addr s))"

definition parse_ip_addr :: "string \<Rightarrow> ip_addr option" where
  "parse_ip_addr s = parse_all read_ip_addr s"

definition parse_ipv6_addr :: "string \<Rightarrow> ip_addr option" where
  "parse_ipv6_addr s = map_option V6 (parse_all read_ipv6_addr s)"

subsection \<open>Rules\<close>

datatype 'n no_proxy_rule = Rule_Any | Rule_Cidr 'n | Rule_Domain string "nat option"

record ('u, 'v, 'n) proxy_config =
  pc_uri :: 'u
  pc_authorization :: "'v option"
  pc_no_proxy_rules :: "'n no_proxy_rule list"

record ('w, 'n) proxy_ops =
  px_port_or_known_default :: "'w \<Rightarrow> nat option"
  px_ipnet_parse :: "string \<Rightarrow> 'n option"
  px_ipnet_trunc :: "'n \<Rightarrow> 'n"
  px_ipnet_contains :: "'n \<Rightarrow> ip_addr \<Rightarrow> bool"

definition strip_suffix :: "string \<Rightarrow> string \<Rightarrow> string option" where
  "strip_suffix suf s = (if ends_with s suf then Some (take (length s - length suf) s) else None)"

definition strip_brackets :: "string \<Rightarrow> string option" where
  "strip_brackets s =
     (case strip_prefix ''['' s of None \<Rightarrow> None | Some inner \<Rightarrow> strip_suffix '']'' inner)"

definition normalize_no_proxy_host :: "string \<Rightarrow> string option" where
  "normalize_no_proxy_host host =
     (case normalize_host_key host of
        None \<Rightarrow> None
      | Some normalized \<Rightarrow>
          (case strip_brackets normalized of
             Some unbracketed \<Rightarrow>
               if parse_ip_addr unbracketed \<noteq> None then Some unbracketed else Some normalized
           | None \<Rightarrow> Some normalized))"

definition parse_ip_literal :: "string \<Rightarrow> ip_addr option" where
  "parse_ip_literal host =
     (case strip_brackets host of Some inner \<Rightarrow> parse_ipv6_addr inner | None \<Rightarrow> parse_ip_addr host)"

definition plain_no_proxy_host_is_valid :: "string \<Rightarrow> bool" where
  "plain_no_proxy_host_is_valid host =
     (if host = [] \<or> list_ex (\<lambda>c. c \<in> set ''/?#@*'' \<or> byte_of c = 92) host \<or>
         list_ex is_ascii_whitespace host
      then False
      else if CHR '':'' \<in> set host then parse_ip_addr host \<noteq> None
      else True)"

definition host_matches_no_proxy_rule :: "string \<Rightarrow> string \<Rightarrow> bool" where
  "host_matches_no_proxy_rule host rule_host =
     (let host_ip = parse_ip_literal host; rule_ip = parse_ip_literal rule_host
      in if host_ip \<noteq> None \<or> rule_ip \<noteq> None then host_ip \<noteq> None \<and> host_ip = rule_ip
         else host = rule_host \<or> is_some_and (\<lambda>pre. ends_with pre ''.'') (strip_suffix rule_host host))"

definition looks_like_url_rule :: "string \<Rightarrow> bool" where
  "looks_like_url_rule s =
     (find_str ''://'' s \<noteq> None \<or> has_prefix_ignore_case s ''http:'' \<or> has_prefix_ignore_case s ''https:'')"

definition strip_wildcard :: "string \<Rightarrow> string" where
  "strip_wildcard host =
     (case strip_prefix ''*.'' host of
        Some h \<Rightarrow> h | None \<Rightarrow> trim_start_matches (\<lambda>c. c = CHR ''.'') host)"

definition no_proxy_url_rule ::
    "'w url_ops \<Rightarrow> ('w, 'n) proxy_ops \<Rightarrow> string \<Rightarrow> 'w \<Rightarrow> string \<Rightarrow> 'n no_proxy_rule option" where
  "no_proxy_url_rule W P candidate url host =
     (if \<not> is_http_scheme (url_scheme W url) \<or> \<not> is_valid_absolute_http_uri_text W candidate then None
      else if url_username W url \<noteq> [] \<or> url_password W url \<noteq> None \<or> url_query W url \<noteq> None \<or>
              url_fragment W url \<noteq> None \<or> url_path W url \<noteq> ''/''
      then None
      else case normalize_no_proxy_host (strip_wildcard host) of
        None \<Rightarrow> None
      | Some host \<Rightarrow>
          if \<not> plain_no_proxy_host_is_valid host then None
          else Some (Rule_Domain host (px_port_or_known_default P url)))"

text \<open>The host and port of a rule that is neither a URL nor a network.\<close>

definition no_proxy_host_port :: "string \<Rightarrow> (string \<times> nat option) option" where
  "no_proxy_host_port candidate =
     (case strip_prefix ''['' candidate of
        Some stripped \<Rightarrow>
          (case find_pos (\<lambda>c. c = CHR '']'') stripped of
             None \<Rightarrow> None
           | Some end_pos \<Rightarrow>
               (let host = take end_pos stripped; suffix = drop (end_pos + 1) stripped
                in if parse_ip_addr host = None then None
                   else if suffix = [] then Some (host, None)
                   else case strip_prefix '':'' suffix of
                     None \<Rightarrow> None
                   | Some raw_port \<Rightarrow> map_option (\<lambda>p. (host, Some p)) (parse_unsigned 65535 raw_port)))
      | None \<Rightarrow>
          if length (filter (\<lambda>c. c = CHR '':'') candidate) = 1
          then (case rsplit_once (CHR '':'') candidate of
                  None \<Rightarrow> None
                | Some (host, raw_port) \<Rightarrow>
                    if host = [] then None
                    else map_option (\<lambda>p. (host, Some p)) (parse_unsigned 65535 raw_port))
          else Some (candidate, None))"

definition no_proxy_rule_parse ::
    "'w url_ops \<Rightarrow> ('w, 'n) proxy_ops \<Rightarrow> string \<Rightarrow> 'n no_proxy_rule option" where
  "no_proxy_rule_parse W P s =
     (let candidate = trim s
      in if candidate = [] then None
         else if candidate = ''*'' then Some Rule_Any
         else case (case url_parse W candidate of
                      None \<Rightarrow> None
                    | Some url \<Rightarrow> map_option (\<lambda>host. (url, host)) (url_host_str W url)) of
           Some (url, host) \<Rightarrow> no_proxy_url_rule W P candidate url host
         | None \<Rightarrow>
             if looks_like_url_rule candidate then None
             else if CHR ''/'' \<in> set candidate
             then map_option (\<lambda>net. Rule_Cidr (px_ipnet_trunc P net)) (px_ipnet_parse P candidate)
             else
               (let candidate = strip_wildcard candidate
                in if candidate = [] then None
                   else case no_proxy_host_port candidate of
                     None \<Rightarrow> None
                   | Some (host, port) \<Rightarrow>
                       if \<not> plain_no_proxy_host_is_valid host then None
                       else map_option (\<lambda>h. Rule_Domain h port) (normalize_no_proxy_host host)))"

definition no_proxy_rule_matches ::
    "('w, 'n) proxy_ops \<Rightarrow> 'n no_proxy_rule \<Rightarrow> string \<Rightarrow> nat option \<Rightarrow> bool" where
  "no_proxy_rule_matches P rule host port =
     (case rule of
        Rule_Any \<Rightarrow> True
      | Rule_Cidr network \<Rightarrow> is_some_and (px_ipnet_contains P network) (parse_ip_literal host)
      | Rule_Domain domain rule_port \<Rightarrow>
          (case normalize_no_proxy_host host of
             None \<Rightarrow> False
           | Some host \<Rightarrow>
               if \<not> host_matches_no_proxy_rule host domain then False
               else case rule_port of Some p \<Rightarrow> port = Some p | None \<Rightarrow> True))"

definition redact_no_proxy_rule_for_logs :: "string \<Rightarrow> string" where
  "redact_no_proxy_rule_for_logs rule = redact_uri_without_url_normalization (trim rule)"

definition should_bypass_proxy_uri ::
    "'u uri_ops \<Rightarrow> ('w, 'n) proxy_ops \<Rightarrow> 'n no_proxy_rule list \<Rightarrow> 'u \<Rightarrow> bool" where
  "should_bypass_proxy_uri U P rules uri =
     (case uri_host U uri of
        None \<Rightarrow> False
      | Some host \<Rightarrow>
          (let port = (case uri_port_u16 U uri of Some p \<Rightarrow> Some p | None \<Rightarrow> default_port U uri)
           in list_ex (\<lambda>rule. no_proxy_rule_matches P rule host port) rules))"

definition parse_no_proxy_rule ::
    "'w url_ops \<Rightarrow> ('w, 'n) proxy_ops \<Rightarrow> string \<Rightarrow> ('n no_proxy_rule, 'h error) result" where
  "parse_no_proxy_rule W P rule =
     (case no_proxy_rule_parse W P rule of
        Some r \<Rightarrow> Ok r
      | None \<Rightarrow> Err (InvalidNoProxyRule (redact_no_proxy_rule_for_logs rule)))"

fun parse_no_proxy_rules ::
    "'w url_ops \<Rightarrow> ('w, 'n) proxy_ops \<Rightarrow> string list \<Rightarrow> ('n no_proxy_rule list, 'h error) result" where
  "parse_no_proxy_rules W P [] = Ok []"
| "parse_no_proxy_rules W P (rule # rules) =
     result_bind (parse_no_proxy_rule W P rule) (\<lambda>r.
     result_bind (parse_no_proxy_rules W P rules) (\<lambda>rs. Ok (r # rs)))"

subsection \<open>Lemmas\<close>

lemma trim_id: "list_all (\<lambda>c. \<not> is_ascii_whitespace c) s \<Longrightarrow> trim s = s"
proof -
  have d: "dropWhile p t = t" if "list_all (\<lambda>c. \<not> p c) t" for p :: "char \<Rightarrow> bool" and t
    using that by (cases t) auto
  assume a: "list_all (\<lambda>c. \<not> is_ascii_whitespace c) s"
  then have "dropWhile is_ascii_whitespace s = s" "dropWhile is_ascii_whitespace (rev s) = rev s"
    by (simp_all add: d)
  then show ?thesis by (simp add: trim_def trim_start_matches_def trim_end_matches_def)
qed

lemma trim_end_matches_id: "s = [] \<or> \<not> p (last s) \<Longrightarrow> trim_end_matches p s = s"
  by (cases s rule: rev_cases) (auto simp: trim_end_matches_def)

lemma strip_suffix_Some_iff: "strip_suffix suf s = Some pre \<longleftrightarrow> s = pre @ suf"
proof
  assume "strip_suffix suf s = Some pre"
  then show "s = pre @ suf"
    by (auto simp: strip_suffix_def ends_with_def split: if_splits) (metis append_take_drop_id)
qed (auto simp: strip_suffix_def ends_with_def)

lemma ends_with_iff: "ends_with s suf \<longleftrightarrow> (\<exists>pre. s = pre @ suf)"
  by (metis option.distinct(1) strip_suffix_Some_iff strip_suffix_def)

text \<open>Label boundaries: a rule for a domain matches the domain and its proper subdomains.\<close>

lemma host_matches_domain:
  assumes "parse_ip_literal d = None"
  shows "host_matches_no_proxy_rule h d \<longleftrightarrow>
    parse_ip_literal h = None \<and> (h = d \<or> (\<exists>sub. h = sub @ ''.'' @ d))"
proof -
  have "is_some_and (\<lambda>pre. ends_with pre ''.'') (strip_suffix d h) \<longleftrightarrow>
      (\<exists>pre. strip_suffix d h = Some pre \<and> ends_with pre ''.'')"
    by (cases "strip_suffix d h") (simp_all add: is_some_and_def)
  also have "\<dots> \<longleftrightarrow> (\<exists>sub. h = sub @ ''.'' @ d)"
    by (auto simp: strip_suffix_Some_iff ends_with_iff)
  finally show ?thesis
    using assms by (cases "parse_ip_literal h") (simp_all add: host_matches_no_proxy_rule_def Let_def)
qed

text \<open>Rules for addresses compare values: no suffix of an address matches.\<close>

lemma host_matches_ip:
  assumes "parse_ip_literal d = Some ip"
  shows "host_matches_no_proxy_rule h d \<longleftrightarrow> parse_ip_literal h = Some ip"
  using assms by (auto simp: host_matches_no_proxy_rule_def Let_def)

subsection \<open>Domain rules\<close>

definition is_domain_char :: "char \<Rightarrow> bool" where
  "is_domain_char c = (is_ascii_lower c \<or> is_ascii_digit c \<or> c = CHR ''-'' \<or> c = CHR ''.'')"

definition plain_domain :: "string \<Rightarrow> bool" where
  "plain_domain d \<longleftrightarrow> d \<noteq> [] \<and> list_all is_domain_char d \<and> hd d \<noteq> CHR ''.'' \<and> last d \<noteq> CHR ''.'' \<and>
     parse_ip_addr d = None"

definition domain_spellings :: "string \<Rightarrow> string set" where
  "domain_spellings d = {d, ''.'' @ d, ''*.'' @ d}"

lemma domain_char_facts:
  assumes "is_domain_char c"
  shows "\<not> is_ascii_whitespace c" "c \<notin> set ''/?#@*'' \<and> byte_of c \<noteq> 92" "c \<noteq> CHR '':''"
    "c \<noteq> CHR ''/''" "c \<noteq> CHR ''[''" "ascii_lower c = c" "c \<noteq> CHR ''*''"
  using assms by (auto simp: is_domain_char_def ascii_defs)

lemma plain_domain_facts:
  assumes "plain_domain d"
  shows "d \<noteq> []" "trim d = d" "CHR '':'' \<notin> set d" "CHR ''/'' \<notin> set d" "strip_brackets d = None"
    "strip_prefix ''['' d = None" "plain_no_proxy_host_is_valid d" "normalize_no_proxy_host d = Some d"
    "parse_ip_literal d = None" "strip_wildcard d = d" "d \<noteq> ''*''" "hd d \<noteq> CHR ''.''"
proof -
  have d: "d \<noteq> []" "list_all is_domain_char d" "hd d \<noteq> CHR ''.''" "last d \<noteq> CHR ''.''"
      "parse_ip_addr d = None"
    using assms by (auto simp: plain_domain_def)
  then have chars: "\<And>c. c \<in> set d \<Longrightarrow> is_domain_char c" by (simp add: list_all_iff)
  show "d \<noteq> []" "hd d \<noteq> CHR ''.''" by (fact d)+
  show t: "trim d = d"
    using chars domain_char_facts(1) by (intro trim_id) (auto simp: list_all_iff)
  show colon: "CHR '':'' \<notin> set d" and "CHR ''/'' \<notin> set d"
    using chars domain_char_facts(3,4) by blast+
  have "d ! 0 \<noteq> CHR ''[''" "d ! 0 \<noteq> CHR ''*''"
    using chars [of "hd d"] domain_char_facts(5,7) [of "hd d"] d(1) by (auto simp: hd_conv_nth)
  then show pre: "strip_prefix ''['' d = None" and star: "d \<noteq> ''*''"
    and "strip_brackets d = None"
    using d(1) by (cases d; simp add: strip_prefix_def starts_with_def strip_brackets_def)+
  show "strip_wildcard d = d"
    using d(1,3) \<open>d ! 0 \<noteq> CHR ''*''\<close>
    by (cases d) (simp_all add: strip_wildcard_def strip_prefix_def starts_with_def trim_start_matches_def)
  show "plain_no_proxy_host_is_valid d"
    using d(1) colon chars domain_char_facts(1,2)
    by (auto simp: plain_no_proxy_host_is_valid_def list_ex_iff)
  have "to_ascii_lowercase d = d"
    using chars domain_char_facts(6) by (simp add: to_ascii_lowercase_def map_idI)
  then have "normalize_host_key d = Some d"
    using d(1,4) t by (simp add: normalize_host_key_def trim_end_matches_id)
  then show "normalize_no_proxy_host d = Some d"
    using \<open>strip_brackets d = None\<close> by (simp add: normalize_no_proxy_host_def)
  show "parse_ip_literal d = None"
    using d(5) \<open>strip_brackets d = None\<close> by (simp add: parse_ip_literal_def)
qed

lemma find_str_colon: "CHR '':'' \<notin> set s \<Longrightarrow> find_str ''://'' s = None"
  by (induction s) auto

lemma ascii_lower_colon: "ascii_lower c = CHR '':'' \<Longrightarrow> c = CHR '':''"
proof (rule ccontr)
  assume "ascii_lower c = CHR '':''" "c \<noteq> CHR '':''"
  then have upper: "is_ascii_upper c" and "char_of (byte_of c + 32) = CHR '':''"
    by (auto simp: ascii_lower_def split: if_splits)
  then have "of_char (char_of (byte_of c + 32) :: char) = (58 :: nat)" by (simp only: of_char_Char) simp
  then have "(byte_of c + 32) mod 256 = 58" by (simp only: of_char_of)
  then show False using upper by (simp add: is_ascii_upper_def)
qed

lemma has_prefix_colon:
  "CHR '':'' \<notin> set s \<Longrightarrow> \<not> has_prefix_ignore_case s ''http:'' \<and> \<not> has_prefix_ignore_case s ''https:''"
proof -
  assume s: "CHR '':'' \<notin> set s"
  have "\<not> has_prefix_ignore_case s (pre @ '':'')" for pre
  proof
    assume "has_prefix_ignore_case s (pre @ '':'')"
    then have len: "length pre < length s"
      and "to_ascii_lowercase (take (Suc (length pre)) s) = to_ascii_lowercase (pre @ '':'')"
      by (auto simp: has_prefix_ignore_case_def eq_ignore_ascii_case_def)
    then have "ascii_lower (s ! length pre) = CHR '':''"
      by (auto simp: to_ascii_lowercase_def take_Suc_conv_app_nth ascii_lower_def is_ascii_upper_def)
    then have "s ! length pre = CHR '':''" by (rule ascii_lower_colon)
    then show False using s len nth_mem by fastforce
  qed
  from this [of "''http''"] this [of "''https''"] show ?thesis by simp
qed

lemma domain_rule_parse:
  assumes "plain_domain d" "t \<in> domain_spellings d" "\<And>s. CHR '':'' \<notin> set s \<Longrightarrow> url_parse W s = None"
  shows "no_proxy_rule_parse W P t = Some (Rule_Domain d None)"
proof -
  note f = plain_domain_facts [OF assms(1)]
  have t: "CHR '':'' \<notin> set t" "CHR ''/'' \<notin> set t" "t \<noteq> []" "t \<noteq> ''*''" "trim t = t" "strip_wildcard t = d"
  proof -
    show "CHR '':'' \<notin> set t" "CHR ''/'' \<notin> set t" "t \<noteq> []" "t \<noteq> ''*''"
      using f(1,3,4,11) assms(2) by (auto simp: domain_spellings_def)
    have "list_all (\<lambda>c. \<not> is_ascii_whitespace c) d"
      using assms(1) domain_char_facts(1) by (auto simp: plain_domain_def list_all_iff)
    then have "list_all (\<lambda>c. \<not> is_ascii_whitespace c) t"
      using assms(2) by (auto simp: domain_spellings_def is_ascii_whitespace_def)
    then show "trim t = t" by (rule trim_id)
    have "strip_wildcard (''.'' @ d) = d"
      using f(1,12) by (cases d)
        (simp_all add: strip_wildcard_def strip_prefix_def starts_with_def trim_start_matches_def)
    then show "strip_wildcard t = d"
      using assms(2) f(10)
      by (auto simp: domain_spellings_def strip_wildcard_def strip_prefix_def starts_with_def)
  qed
  have "no_proxy_host_port d = Some (d, None)"
  proof -
    have "filter (\<lambda>c. c = CHR '':'') d = []" using f(3) by (auto simp: filter_empty_conv)
    then show ?thesis using f(6) by (simp add: no_proxy_host_port_def)
  qed
  then show ?thesis
    using t f assms(3) [OF t(1)] find_str_colon [OF t(1)] has_prefix_colon [OF t(1)]
    by (simp add: no_proxy_rule_parse_def looks_like_url_rule_def)
qed

subsection \<open>Properties\<close>

text \<open>
  What a rule for a domain means. The spellings \<open>example.org\<close>, \<open>.example.org\<close> and \<open>*.example.org\<close>
  are the same rule, and it sends past the proxy exactly the requests to that domain and to its
  subdomains at label boundaries, in any case and with or without a trailing dot; an IP address
  is never taken for a subdomain. (The hypothesis is that a text without a colon is no absolute URL.)
\<close>

theorem no_proxy_domain_rule_exact:
  assumes "plain_domain d" and "t \<in> domain_spellings d"
    and "\<And>s. CHR '':'' \<notin> set s \<Longrightarrow> url_parse W s = None"
    and "uri_host U uri = Some host"
  shows "\<exists>rule. parse_no_proxy_rules W P [t] = Ok [rule] \<and>
    (should_bypass_proxy_uri U P [rule] uri \<longleftrightarrow>
      (\<exists>h. normalize_no_proxy_host host = Some h \<and> parse_ip_literal h = None \<and>
        (h = d \<or> (\<exists>sub. h = sub @ ''.'' @ d))))"
proof (intro exI conjI)
  show "parse_no_proxy_rules W P [t] = Ok [Rule_Domain d None]"
    using domain_rule_parse [OF assms(1-3), of P] by (simp add: parse_no_proxy_rule_def)
  show "should_bypass_proxy_uri U P [Rule_Domain d None] uri \<longleftrightarrow>
      (\<exists>h. normalize_no_proxy_host host = Some h \<and> parse_ip_literal h = None \<and>
        (h = d \<or> (\<exists>sub. h = sub @ ''.'' @ d)))"
    using host_matches_domain [OF plain_domain_facts(9) [OF assms(1)]] assms(4)
    by (auto simp: should_bypass_proxy_uri_def Let_def no_proxy_rule_matches_def split: option.splits)
qed

definition example_proxy_ops :: "(unit, unit) proxy_ops" where
  "example_proxy_ops = \<lparr> px_port_or_known_default = (\<lambda>_. None), px_ipnet_parse = (\<lambda>s. None),
     px_ipnet_trunc = (\<lambda>n. n), px_ipnet_contains = (\<lambda>n ip. False) \<rparr>"

lemma parse_ip_addr_letter:
  assumes "\<not> is_radix_digit 16 c" "c \<noteq> CHR '':''"
  shows "parse_ip_addr (c # cs) = None"
proof -
  have digit: "\<not> is_radix_digit 10 c" using assms(1) by (simp add: is_radix_digit_def split: if_splits)
  then have v4: "read_ipv4_addr (c # cs) = None"
    by (simp add: read_ipv4_addr_def read_ipv4_octet_def read_separator_def read_number_def)
  have "read_groups (Suc n) 0 (c # cs) = ([], False, c # cs)" for n
    using assms(1) v4 by (simp add: read_separator_def read_number_def)
  from this [of 7] have "read_ipv6_addr (c # cs) = None"
    using assms(2) by (simp add: read_ipv6_addr_def numeral_2_eq_2)
  with v4 show ?thesis by (simp add: parse_ip_addr_def parse_all_def read_ip_addr_def)
qed

lemma example_no_address: "parse_ip_addr (CHR ''o'' # cs) = None" "parse_ip_addr (CHR ''m'' # cs) = None"
  by (simp_all add: parse_ip_addr_letter is_radix_digit_def ascii_defs)

lemma example_plain_domain: "plain_domain ''ok.org''"
  by (simp add: plain_domain_def is_domain_char_def example_no_address ascii_defs)

theorem no_proxy_domain_rule_exact_witness:
  "\<exists>rule. parse_no_proxy_rules no_urls example_proxy_ops [''*.ok.org''] =
       (Ok [rule] :: (_, alist_header_map error) result) \<and>
     should_bypass_proxy_uri triple_uris example_proxy_ops [rule] (Some ''http'', Some ''my.ok.org.'', ''/'') \<and>
     \<not> should_bypass_proxy_uri triple_uris example_proxy_ops [rule] (Some ''http'', Some ''mok.org'', ''/'')"
proof -
  have spelling: "''*.ok.org'' \<in> domain_spellings ''ok.org''" by (simp add: domain_spellings_def)
  have host: "uri_host triple_uris (Some ''http'', Some h, ''/'') = Some h" for h
    by (simp add: triple_uris_def)
  have no_urls: "CHR '':'' \<notin> set s \<Longrightarrow> url_parse no_urls s = None" for s by (simp add: no_urls_def)
  note exact = no_proxy_domain_rule_exact [OF example_plain_domain spelling no_urls host,
      where P = example_proxy_ops]
  have "normalize_no_proxy_host ''my.ok.org.'' = Some ''my.ok.org''" "parse_ip_literal ''my.ok.org'' = None"
      "normalize_no_proxy_host ''mok.org'' = Some ''mok.org''"
    by (simp_all add: normalize_no_proxy_host_def normalize_host_key_def parse_ip_literal_def
        strip_brackets_def example_no_address search_defs string_defs ascii_defs)
  note host_facts = this
  have sub: "\<exists>sub. ''my.ok.org'' = sub @ ''.'' @ ''ok.org''" by (rule exI [of _ "''my''"]) simp
  have not_sub: "\<not> (\<exists>sub. ''mok.org'' = sub @ ''.'' @ ''ok.org'')" by (auto simp: append_eq_Cons_conv)
  obtain rule where rule: "parse_no_proxy_rules no_urls example_proxy_ops [''*.ok.org''] =
      (Ok [rule] :: (_, alist_header_map error) result)"
    and bypass: "should_bypass_proxy_uri triple_uris example_proxy_ops [rule]
      (Some ''http'', Some ''my.ok.org.'', ''/'')"
    using exact [of "''my.ok.org.''"] host_facts sub by force
  obtain rule' where rule': "parse_no_proxy_rules no_urls example_proxy_ops [''*.ok.org''] =
      (Ok [rule'] :: (_, alist_header_map error) result)"
    and no_bypass: "\<not> should_bypass_proxy_uri triple_uris example_proxy_ops [rule']
      (Some ''http'', Some ''mok.org'', ''/'')"
    using exact [of "''mok.org''"] host_facts not_sub by force
  show ?thesis using rule bypass rule' no_bypass by auto
qed

end
