(* ===== verification/Reqx_World.thy ===== *)
theory Reqx_World
  imports Reqx_Execution Reqx_CircuitBreaker Reqx_Adaptive Reqx_RateLimit Reqx_Metrics Reqx_Limiters
    Reqx_Transport Reqx_Proxy
begin

text \<open>
  The world in which a request of the blocking client runs (\<open>src/src/blocking_client/mod.rs\<close>,
  \<open>src/src/blocking_client/limiters.rs\<close>, \<open>src/src/blocking_client/execute.rs\<close>): the state that the clones
  of a client share, the time, and a log of what the request did.

  \<^item> \<open>client\<close> is \<open>ClientInner\<close> (fields \<open>ci_\<close>) together with the third-party code it calls (fields
    \<open>li_\<close>) and its environment (fields \<open>en_\<close>). An oracle of the environment is indexed by \<open>w_tick\<close>,
    which counts the questions asked so far.
  \<^item> Other threads act between any two accesses to the shared state: every access first applies
    \<open>en_others\<close>. Time passes before every reading of the clock, by \<open>en_elapsed\<close>.
  \<^item> A loop that waits may never return. It is a partial function into \<open>option\<close>: \<open>None\<close> is a request
    that blocks for ever.
\<close>

subsection \<open>State\<close>

record shared_state =
  sh_retry_budget :: retry_budget_state
  sh_circuit_breaker :: circuit_breaker
  sh_adaptive_concurrency :: adaptive_concurrency_state
  sh_rate_limiter :: rate_limiter
  sh_request_limiters :: request_limiters
  sh_metrics :: client_metrics

record ('h, 'b) transport_request =
  tr_method :: http_method
  tr_uri :: string
  tr_headers :: 'h
  tr_body :: "'b request_body"
  tr_timeout :: duration
  tr_connect_timeout :: duration
  tr_proxied :: bool

record 'h http_response =
  hr_status :: status
  hr_headers :: 'h
  hr_body :: "io_error reader"

record adaptive_permit =
  ap_started_at :: instant
  ap_completed :: bool

datatype (dead 'h, dead 'b) event =
    Ev_RequestStart request_context
  | Ev_Sleep duration
  | Ev_CircuitBegin circuit_attempt
  | Ev_CircuitEnd attempt_end circuit_attempt
  | Ev_AdaptiveBegin adaptive_permit
  | Ev_AdaptiveEnd attempt_end adaptive_permit
  | Ev_GlobalAcquired
  | Ev_GlobalReleased
  | Ev_HostAcquired nat
  | Ev_HostReleased nat
  | Ev_Send instant "('h, 'b) transport_request"
  | Ev_Response request_context status 'h
  | Ev_Error request_context "'h error"
  | Ev_Retry request_context retry_decision duration
  | Ev_ServerThrottle request_context server_throttle_scope duration

record ('h, 'b) world =
  w_now :: instant
  w_tick :: nat
  w_shared :: shared_state
  w_log :: "('h, 'b) event list"

record ('h, 'v, 'u, 'w, 'n, 'b) client =
  li_headers :: "('h, 'v) header_ops"
  li_header_values :: "'v header_parse_ops"
  li_iter_mut :: "(string \<Rightarrow> 'v \<Rightarrow> 'v) \<Rightarrow> 'h \<Rightarrow> 'h"
  li_uris :: "'u uri_ops"
  li_urls :: "'w url_ops"
  li_proxies :: "('w, 'n) proxy_ops"
  li_codecs :: codecs
  li_parse_date :: "string \<Rightarrow> system_time option"
  li_enabled_encodings :: "string option"
  li_tls_features :: tls_features
  li_ureq_error_box :: "ureq_error \<Rightarrow> box_error"
  li_build_request :: "http_method \<Rightarrow> string \<Rightarrow> 'h \<Rightarrow> box_error unit_result"
  en_elapsed :: "nat \<Rightarrow> duration"
  en_others :: "nat \<Rightarrow> shared_state \<Rightarrow> shared_state"
  en_monotonic :: "nat \<Rightarrow> instant"
  en_system :: "nat \<Rightarrow> system_time"
  en_sample :: "nat \<Rightarrow> nat \<Rightarrow> nat \<Rightarrow> nat"
  en_wait_timed_out :: "nat \<Rightarrow> bool"
  en_transport :: "nat \<Rightarrow> ('h, 'b) transport_request \<Rightarrow> ('h http_response, ureq_error) result"
  ci_base_url :: string
  ci_default_headers :: 'h
  ci_request_defaults :: request_execution_options
  ci_buffered_auto_accept_encoding :: bool
  ci_stream_auto_accept_encoding :: bool
  ci_stream_deadline_slack :: duration
  ci_retry_eligibility :: "'h retry_eligibility"
  ci_retry_budget :: "retry_budget_policy option"
  ci_circuit_breaker :: "circuit_breaker_policy option"
  ci_adaptive_concurrency :: "adaptive_concurrency_policy option"
  ci_has_rate_limiter :: bool
  ci_server_throttle_scope :: server_throttle_scope
  ci_has_proxy_agent :: bool
  ci_proxy_config :: "('u, 'v, 'n) proxy_config option"
  ci_endpoint_selector :: "'h endpoint_selector option"
  ci_backoff_source :: "backoff_source option"
  ci_connect_timeout :: duration
  ci_has_request_limiters :: bool
  ci_interceptors :: "(nat \<Rightarrow> request_context \<Rightarrow> 'h \<Rightarrow> 'h) list"

subsection \<open>Primitive steps\<close>

definition tick :: "('h, 'b) world \<Rightarrow> ('h, 'b) world" where
  "tick w = w\<lparr> w_tick := Suc (w_tick w) \<rparr>"

definition log_event :: "('h, 'b) event \<Rightarrow> ('h, 'b) world \<Rightarrow> ('h, 'b) world" where
  "log_event e w = w\<lparr> w_log := w_log w @ [e] \<rparr>"

text \<open>\<open>Instant::now\<close>, and the two readings of the injected clock.\<close>

definition instant_now ::
    "('h, 'v, 'u, 'w, 'n, 'b) client \<Rightarrow> ('h, 'b) world \<Rightarrow> instant \<times> ('h, 'b) world" where
  "instant_now K w =
     (let now = w_now w + en_elapsed K (w_tick w) in (now, tick (w\<lparr> w_now := now \<rparr>)))"

definition now_monotonic ::
    "('h, 'v, 'u, 'w, 'n, 'b) client \<Rightarrow> ('h, 'b) world \<Rightarrow> instant \<times> ('h, 'b) world" where
  "now_monotonic K w = (en_monotonic K (w_tick w), tick w)"

definition now_system ::
    "('h, 'v, 'u, 'w, 'n, 'b) client \<Rightarrow> ('h, 'b) world \<Rightarrow> system_time \<times> ('h, 'b) world" where
  "now_system K w = (en_system K (w_tick w), tick w)"

definition thread_sleep ::
    "('h, 'v, 'u, 'w, 'n, 'b) client \<Rightarrow> duration \<Rightarrow> ('h, 'b) world \<Rightarrow> ('h, 'b) world" where
  "thread_sleep K d w =
     log_event (Ev_Sleep d) (tick (w\<lparr> w_now := w_now w + d + en_elapsed K (w_tick w) \<rparr>))"

text \<open>The lock of a part of the shared state is taken: the other threads have acted before.\<close>

definition lock_shared ::
    "('h, 'v, 'u, 'w, 'n, 'b) client \<Rightarrow> ('h, 'b) world \<Rightarrow> ('h, 'b) world" where
  "lock_shared K w = tick (w\<lparr> w_shared := en_others K (w_tick w) (w_shared w) \<rparr>)"

definition set_shared :: "(shared_state \<Rightarrow> shared_state) \<Rightarrow> ('h, 'b) world \<Rightarrow> ('h, 'b) world" where
  "set_shared f w = w\<lparr> w_shared := f (w_shared w) \<rparr>"

definition with_shared ::
    "('h, 'v, 'u, 'w, 'n, 'b) client \<Rightarrow> (shared_state \<Rightarrow> shared_state) \<Rightarrow> ('h, 'b) world \<Rightarrow>
     ('h, 'b) world" where
  "with_shared K f w = set_shared f (lock_shared K w)"

text \<open>
  \<open>Condvar::wait\<close> and \<open>Condvar::wait_timeout\<close>: the lock is given up, others act, time passes. A wait that
  reports a time-out has lasted at least as long as asked for.
\<close>

definition condvar_wait ::
    "('h, 'v, 'u, 'w, 'n, 'b) client \<Rightarrow> ('h, 'b) world \<Rightarrow> ('h, 'b) world" where
  "condvar_wait K w = snd (instant_now K (lock_shared K w))"

definition condvar_wait_timeout ::
    "('h, 'v, 'u, 'w, 'n, 'b) client \<Rightarrow> duration \<Rightarrow> ('h, 'b) world \<Rightarrow> bool \<times> ('h, 'b) world" where
  "condvar_wait_timeout K d w =
     (let timed_out = en_wait_timed_out K (w_tick w);
          w = condvar_wait K w
      in (timed_out, if timed_out then w\<lparr> w_now := w_now w + d \<rparr> else w))"

subsection \<open>Semaphores and permits\<close>

text \<open>
  \<open>BlockingSemaphore::acquire\<close>, for a semaphore whose free permits are a part of the shared state. The
  value tells a permit from a time-out.
\<close>

partial_function (option) semaphore_acquire ::
    "('h, 'v, 'u, 'w, 'n, 'b) client \<Rightarrow> (shared_state \<Rightarrow> nat) \<Rightarrow> (nat \<Rightarrow> shared_state \<Rightarrow> shared_state) \<Rightarrow>
     instant option \<Rightarrow> ('h, 'b) world \<Rightarrow> (bool \<times> ('h, 'b) world) option" where
  "semaphore_acquire K permits set_permits deadline_at w =
     (case instant_now K w of (now, w) \<Rightarrow>
        (case semaphore_acquire_iteration deadline_at now (permits (w_shared w)) of
           Acquired left \<Rightarrow> Some (True, set_shared (set_permits left) w)
         | AcquireTimeout \<Rightarrow> Some (False, w)
         | WaitFor wait_for \<Rightarrow>
             (case wait_for of
                None \<Rightarrow> semaphore_acquire K permits set_permits deadline_at (condvar_wait K w)
              | Some d \<Rightarrow>
                  (case condvar_wait_timeout K d w of (timed_out, w) \<Rightarrow>
                     (case instant_now K w of (now, w) \<Rightarrow>
                        if is_some_and (\<lambda>deadline.
                             semaphore_gives_up_after_wait deadline timed_out now (permits (w_shared w)))
                             deadline_at
                        then Some (False, w)
                        else semaphore_acquire K permits set_permits deadline_at w)))))"

definition global_permits :: "shared_state \<Rightarrow> nat" where
  "global_permits s = unwrap_or 0 (lim_global (sh_request_limiters s))"

definition set_global_permits :: "nat \<Rightarrow> shared_state \<Rightarrow> shared_state" where
  "set_global_permits n s =
     s\<lparr> sh_request_limiters := (sh_request_limiters s)\<lparr> lim_global := Some n \<rparr> \<rparr>"

definition update_limiters :: "(request_limiters \<Rightarrow> request_limiters) \<Rightarrow> shared_state \<Rightarrow> shared_state" where
  "update_limiters f s = s\<lparr> sh_request_limiters := f (sh_request_limiters s) \<rparr>"

definition cell_permits :: "nat \<Rightarrow> shared_state \<Rightarrow> nat" where
  "cell_permits a s = sc_permits (lim_heap (sh_request_limiters s) a)"

definition set_cell_permits :: "nat \<Rightarrow> nat \<Rightarrow> shared_state \<Rightarrow> shared_state" where
  "set_cell_permits a n = update_limiters (update_cell a (\<lambda>c. c\<lparr> sc_permits := n \<rparr>))"

datatype acquire_permit_error = PermitTimeout

definition limiters_acquire_global ::
    "('h, 'v, 'u, 'w, 'n, 'b) client \<Rightarrow> instant option \<Rightarrow> ('h, 'b) world \<Rightarrow>
     ((unit option, acquire_permit_error) result \<times> ('h, 'b) world) option" where
  "limiters_acquire_global K deadline_at w =
     (let w = lock_shared K w
      in if lim_global (sh_request_limiters (w_shared w)) = None then Some (Ok None, w)
         else (case semaphore_acquire K global_permits set_global_permits deadline_at w of
                 None \<Rightarrow> None
               | Some (True, w) \<Rightarrow> Some (Ok (Some ()), log_event Ev_GlobalAcquired w)
               | Some (False, w) \<Rightarrow> Some (Err PermitTimeout, w)))"

definition limiters_acquire_host ::
    "('h, 'v, 'u, 'w, 'n, 'b) client \<Rightarrow> string option \<Rightarrow> instant option \<Rightarrow> ('h, 'b) world \<Rightarrow>
     ((nat option, acquire_permit_error) result \<times> ('h, 'b) world) option" where
  "limiters_acquire_host K host deadline_at w =
     (let w = lock_shared K w;
          (now, w) = now_monotonic K w;
          (claim, l) = acquire_host host now (sh_request_limiters (w_shared w));
          w = set_shared (update_limiters (\<lambda>_. l)) w
      in case claim of
           NoHostLimit \<Rightarrow> Some (Ok None, w)
         | HostPermit _ a \<Rightarrow> Some (Ok (Some a), log_event (Ev_HostAcquired a) w)
         | HostWaiter _ a \<Rightarrow>
             (case semaphore_acquire K (cell_permits a) (set_cell_permits a) deadline_at (lock_shared K w) of
                None \<Rightarrow> None
              | Some (True, w) \<Rightarrow> Some (Ok (Some a), log_event (Ev_HostAcquired a) w)
              | Some (False, w) \<Rightarrow>
                  Some (Err PermitTimeout, with_shared K (update_limiters (waiter_timeout a)) w)))"

text \<open>Destructors of the permits.\<close>

definition global_permit_drop ::
    "('h, 'v, 'u, 'w, 'n, 'b) client \<Rightarrow> unit option \<Rightarrow> ('h, 'b) world \<Rightarrow> ('h, 'b) world" where
  "global_permit_drop K permit w =
     (case permit of
        None \<Rightarrow> w
      | Some _ \<Rightarrow> log_event Ev_GlobalReleased
          (with_shared K (\<lambda>s. set_global_permits (semaphore_release (global_permits s)) s) w))"

definition host_permit_drop ::
    "('h, 'v, 'u, 'w, 'n, 'b) client \<Rightarrow> nat option \<Rightarrow> ('h, 'b) world \<Rightarrow> ('h, 'b) world" where
  "host_permit_drop K permit w =
     (case permit of
        None \<Rightarrow> w
      | Some a \<Rightarrow> log_event (Ev_HostReleased a) (with_shared K (update_limiters (permit_drop a)) w))"

subsection \<open>Adaptive permits\<close>

partial_function (option) adaptive_controller_wait ::
    "('h, 'v, 'u, 'w, 'n, 'b) client \<Rightarrow> instant option \<Rightarrow> ('h, 'b) world \<Rightarrow> (bool \<times> ('h, 'b) world) option" where
  "adaptive_controller_wait K deadline_at w =
     (case adaptive_try_acquire (sh_adaptive_concurrency (w_shared w)) of (acquired, s) \<Rightarrow>
        if acquired then Some (True, set_shared (sh_adaptive_concurrency_update (\<lambda>_. s)) w)
        else (case deadline_at of
                None \<Rightarrow> adaptive_controller_wait K deadline_at (condvar_wait K w)
              | Some deadline \<Rightarrow>
                  (case instant_now K w of (now, w) \<Rightarrow>
                     if now \<ge> deadline then Some (False, w)
                     else (case condvar_wait_timeout K (deadline - now) w of (timed_out, w) \<Rightarrow>
                             (case instant_now K w of (now, w) \<Rightarrow>
                                if timed_out \<and> now \<ge> deadline then Some (False, w)
                                else adaptive_controller_wait K deadline_at w)))))"

definition adaptive_controller_acquire ::
    "('h, 'v, 'u, 'w, 'n, 'b) client \<Rightarrow> instant option \<Rightarrow> ('h, 'b) world \<Rightarrow>
     (adaptive_permit option \<times> ('h, 'b) world) option" where
  "adaptive_controller_acquire K deadline_at w =
     (case adaptive_controller_wait K deadline_at (lock_shared K w) of
        None \<Rightarrow> None
      | Some (False, w) \<Rightarrow> Some (None, w)
      | Some (True, w) \<Rightarrow>
          (let (now, w) = now_monotonic K w;
               permit = \<lparr> ap_started_at = now, ap_completed = False \<rparr>
           in Some (Some permit, log_event (Ev_AdaptiveBegin permit) w)))"

definition controller_release_and_record ::
    "('h, 'v, 'u, 'w, 'n, 'b) client \<Rightarrow> adaptive_concurrency_outcome \<Rightarrow> duration \<Rightarrow> ('h, 'b) world \<Rightarrow>
     ('h, 'b) world" where
  "controller_release_and_record K outcome latency w =
     (case ci_adaptive_concurrency K of
        None \<Rightarrow> w
      | Some p \<Rightarrow> with_shared K
          (sh_adaptive_concurrency_update (adaptive_release_and_record p outcome latency)) w)"

definition controller_release_without_record ::
    "('h, 'v, 'u, 'w, 'n, 'b) client \<Rightarrow> ('h, 'b) world \<Rightarrow> ('h, 'b) world" where
  "controller_release_without_record K w =
     with_shared K (sh_adaptive_concurrency_update adaptive_release_without_record) w"

definition adaptive_permit_latency ::
    "('h, 'v, 'u, 'w, 'n, 'b) client \<Rightarrow> adaptive_permit \<Rightarrow> ('h, 'b) world \<Rightarrow> duration \<times> ('h, 'b) world" where
  "adaptive_permit_latency K p w =
     (let (now, w) = now_monotonic K w in (saturating_duration_since now (ap_started_at p), w))"

text \<open>
  The consuming methods of a permit, each followed by the destructor, which finds it completed;
  \<open>EndDrop\<close> is the destructor alone.
\<close>

definition adaptive_permit_end ::
    "('h, 'v, 'u, 'w, 'n, 'b) client \<Rightarrow> attempt_end \<Rightarrow> adaptive_permit \<Rightarrow> ('h, 'b) world \<Rightarrow> ('h, 'b) world" where
  "adaptive_permit_end K outcome p w =
     log_event (Ev_AdaptiveEnd outcome p)
       (case outcome of
          EndSuccess \<Rightarrow> (let (latency, w) = adaptive_permit_latency K p w
                        in controller_release_and_record K AdaptiveSuccess latency w)
        | EndFailure \<Rightarrow> (let (latency, w) = adaptive_permit_latency K p w
                        in controller_release_and_record K AdaptiveFailure latency w)
        | EndCancel \<Rightarrow> controller_release_without_record K w
        | EndDrop \<Rightarrow> if \<not> ap_completed p then controller_release_without_record K w else w)"

definition adaptive_outcome ::
    "('h, 'v, 'u, 'w, 'n, 'b) client \<Rightarrow> (adaptive_permit, ('h, 'b) world) attempt_outcome" where
  "adaptive_outcome K = \<lparr> ao_mark_success = adaptive_permit_end K EndSuccess,
     ao_mark_failure = adaptive_permit_end K EndFailure, ao_cancel = adaptive_permit_end K EndCancel \<rparr>"

subsection \<open>Circuit attempts and the retry budget\<close>

definition circuit_attempt_end ::
    "('h, 'v, 'u, 'w, 'n, 'b) client \<Rightarrow> attempt_end \<Rightarrow> circuit_attempt \<Rightarrow> ('h, 'b) world \<Rightarrow> ('h, 'b) world" where
  "circuit_attempt_end K outcome a w =
     log_event (Ev_CircuitEnd outcome a)
       (case ci_circuit_breaker K of
          None \<Rightarrow> w
        | Some p \<Rightarrow>
            (let (now, w) = now_monotonic K w
             in with_shared K (sh_circuit_breaker_update (circuit_finish p now outcome a)) w))"

definition circuit_outcome ::
    "('h, 'v, 'u, 'w, 'n, 'b) client \<Rightarrow> (circuit_attempt, ('h, 'b) world) attempt_outcome" where
  "circuit_outcome K = \<lparr> ao_mark_success = circuit_attempt_end K EndSuccess,
     ao_mark_failure = circuit_attempt_end K EndFailure, ao_cancel = circuit_attempt_end K EndCancel \<rparr>"

type_synonym guards = "(circuit_attempt, adaptive_permit) attempt_guards"

text \<open>The destructors of the guards that were neither settled nor taken.\<close>

definition guards_drop ::
    "('h, 'v, 'u, 'w, 'n, 'b) client \<Rightarrow> guards \<Rightarrow> ('h, 'b) world \<Rightarrow> ('h, 'b) world" where
  "guards_drop K g w =
     take_and (adaptive_permit_end K EndDrop) (ag_adaptive g)
       (take_and (circuit_attempt_end K EndDrop) (ag_circuit g) w)"

definition budget_record_success ::
    "('h, 'v, 'u, 'w, 'n, 'b) client \<Rightarrow> (('h, 'b) world \<Rightarrow> ('h, 'b) world) option" where
  "budget_record_success K =
     map_option (\<lambda>p w. let (now, w) = now_monotonic K w
       in with_shared K (sh_retry_budget_update (retry_budget_record_success p now)) w) (ci_retry_budget K)"

subsection \<open>What the log shows\<close>

text \<open>
  The resources that a request acquires and releases: attempts of the circuit breaker, permits of
  the adaptive controller and of the two fixed limits.
\<close>

datatype resource = R_Circuit circuit_attempt | R_Adaptive adaptive_permit | R_Global | R_Host nat

fun acquires :: "('h, 'b) event \<Rightarrow> resource list" where
  "acquires (Ev_CircuitBegin a) = [R_Circuit a]"
| "acquires (Ev_AdaptiveBegin p) = [R_Adaptive p]"
| "acquires Ev_GlobalAcquired = [R_Global]"
| "acquires (Ev_HostAcquired a) = [R_Host a]"
| "acquires _ = []"

fun releases :: "('h, 'b) event \<Rightarrow> resource list" where
  "releases (Ev_CircuitEnd _ a) = [R_Circuit a]"
| "releases (Ev_AdaptiveEnd _ p) = [R_Adaptive p]"
| "releases Ev_GlobalReleased = [R_Global]"
| "releases (Ev_HostReleased a) = [R_Host a]"
| "releases _ = []"

fun sends :: "('h, 'b) event \<Rightarrow> (instant \<times> ('h, 'b) transport_request) list" where
  "sends (Ev_Send t r) = [(t, r)]"
| "sends _ = []"

fun reported_errors :: "('h, 'b) event \<Rightarrow> 'h error list" where
  "reported_errors (Ev_Error _ e) = [e]"
| "reported_errors _ = []"

text \<open>What has happened since a world: \<open>events f w w'\<close> collects \<open>f\<close> over the new part of the log.\<close>

definition extends :: "('h, 'b) world \<Rightarrow> ('h, 'b) world \<Rightarrow> bool" where
  "extends w w' \<longleftrightarrow> (\<exists>es. w_log w' = w_log w @ es)"

definition collected :: "(('h, 'b) event \<Rightarrow> 'c list) \<Rightarrow> ('h, 'b) world \<Rightarrow> 'c list" where
  "collected f w = concat (map f (w_log w))"

abbreviation acquired :: "('h, 'b) world \<Rightarrow> resource multiset" where
  "acquired w \<equiv> mset (collected acquires w)"

abbreviation released :: "('h, 'b) world \<Rightarrow> resource multiset" where
  "released w \<equiv> mset (collected releases w)"

abbreviation sent :: "('h, 'b) world \<Rightarrow> (instant \<times> ('h, 'b) transport_request) list" where
  "sent w \<equiv> collected sends w"

abbreviation errors :: "('h, 'b) world \<Rightarrow> 'h error list" where
  "errors w \<equiv> collected reported_errors w"

definition guard_resources :: "guards \<Rightarrow> resource multiset" where
  "guard_resources g =
     (case ag_circuit g of None \<Rightarrow> {#} | Some a \<Rightarrow> {# R_Circuit a #}) +
     (case ag_adaptive g of None \<Rightarrow> {#} | Some p \<Rightarrow> {# R_Adaptive p #})"

definition host_resources :: "nat option \<Rightarrow> resource multiset" where
  "host_resources permit = (case permit of None \<Rightarrow> {#} | Some a \<Rightarrow> {# R_Host a #})"

definition global_resources :: "unit option \<Rightarrow> resource multiset" where
  "global_resources permit = (case permit of None \<Rightarrow> {#} | Some _ \<Rightarrow> {# R_Global #})"

lemma resources_simps [simp]:
  "guard_resources \<lparr> ag_circuit = None, ag_adaptive = None \<rparr> = {#}"
  "host_resources None = {#}" "host_resources (Some a) = {# R_Host a #}"
  "global_resources None = {#}" "global_resources (Some u) = {# R_Global #}"
  by (simp_all add: guard_resources_def host_resources_def global_resources_def)

text \<open>The steps that leave no trace.\<close>

lemma w_log_silent [simp]:
  "w_log (tick w) = w_log w" "w_log (snd (instant_now K w)) = w_log w"
  "w_log (snd (now_monotonic K w)) = w_log w" "w_log (snd (now_system K w)) = w_log w"
  "w_log (lock_shared K w) = w_log w" "w_log (set_shared f w) = w_log w"
  "w_log (with_shared K f w) = w_log w" "w_log (condvar_wait K w) = w_log w"
  "w_log (snd (condvar_wait_timeout K d w)) = w_log w"
  by (simp_all add: tick_def instant_now_def now_monotonic_def now_system_def lock_shared_def
      set_shared_def with_shared_def condvar_wait_def condvar_wait_timeout_def Let_def)

lemma collected_log_event [simp]: "collected f (log_event e w) = collected f w @ f e"
  by (simp add: collected_def log_event_def)

lemma collected_silent [simp]:
  "collected f (tick w) = collected f w" "collected f (lock_shared K w) = collected f w"
  "collected f (set_shared g w) = collected f w" "collected f (with_shared K g w) = collected f w"
  "collected f (condvar_wait K w) = collected f w"
  by (simp_all add: collected_def)

lemma collected_readings:
  "instant_now K w = (now, w') \<Longrightarrow> collected f w' = collected f w"
  "now_monotonic K w = (now, w') \<Longrightarrow> collected f w' = collected f w"
  "now_system K w = (now, w') \<Longrightarrow> collected f w' = collected f w"
  "condvar_wait_timeout K d w = (b, w') \<Longrightarrow> collected f w' = collected f w"
  unfolding collected_def by (metis snd_conv w_log_silent(2,3,4,9))+

text \<open>Time.\<close>

lemma w_now_simps [simp]:
  "w_now (tick w) = w_now w" "w_now (snd (now_monotonic K w)) = w_now w"
  "w_now (snd (now_system K w)) = w_now w" "w_now (lock_shared K w) = w_now w"
  "w_now (set_shared f w) = w_now w" "w_now (with_shared K f w) = w_now w"
  "w_now (log_event e w) = w_now w"
  by (simp_all add: tick_def now_monotonic_def now_system_def lock_shared_def set_shared_def
      with_shared_def log_event_def)

lemma instant_now_now: "instant_now K w = (now, w') \<Longrightarrow> w_now w' = now \<and> w_now w \<le> now"
  by (auto simp: instant_now_def Let_def tick_def)

text \<open>What the operations on resources leave in the log.\<close>

lemma collected_append: "w_log w' = w_log w @ es \<Longrightarrow> collected f w' = collected f w @ concat (map f es)"
  by (simp add: collected_def)

lemma w_log_log_event [simp]: "w_log (log_event e w) = w_log w @ [e]"
  by (simp add: log_event_def)

lemma w_log_thread_sleep [simp]: "w_log (thread_sleep K d w) = w_log w @ [Ev_Sleep d]"
  by (simp add: thread_sleep_def)

lemma w_log_circuit_attempt_end [simp]:
  "w_log (circuit_attempt_end K outcome a w) = w_log w @ [Ev_CircuitEnd outcome a]"
  by (simp add: circuit_attempt_end_def split_def Let_def split: option.splits)

lemma w_log_controller [simp]:
  "w_log (controller_release_and_record K outcome latency w) = w_log w"
  "w_log (controller_release_without_record K w) = w_log w"
  "w_log (snd (adaptive_permit_latency K p w)) = w_log w"
  by (simp_all add: controller_release_and_record_def controller_release_without_record_def
      adaptive_permit_latency_def split_def Let_def split: option.splits)

lemma w_log_adaptive_permit_end [simp]:
  "w_log (adaptive_permit_end K outcome p w) = w_log w @ [Ev_AdaptiveEnd outcome p]"
  by (simp add: adaptive_permit_end_def split_def Let_def split: attempt_end.splits)

definition guard_events :: "attempt_end \<Rightarrow> guards \<Rightarrow> ('h, 'b) event list" where
  "guard_events outcome g =
     (case ag_circuit g of None \<Rightarrow> [] | Some a \<Rightarrow> [Ev_CircuitEnd outcome a]) @
     (case ag_adaptive g of None \<Rightarrow> [] | Some p \<Rightarrow> [Ev_AdaptiveEnd outcome p])"

lemma w_log_take_and:
  "(\<And>g w. w_log (f g w) = w_log w @ [e g]) \<Longrightarrow>
   w_log (take_and f slot w) = w_log w @ (case slot of None \<Rightarrow> [] | Some g \<Rightarrow> [e g])"
  by (simp add: take_and_def split: option.splits)

lemma w_log_guards [simp]:
  "w_log (snd (guards_mark_success (circuit_outcome K) (adaptive_outcome K) g w)) =
     w_log w @ guard_events EndSuccess g"
  "w_log (snd (guards_mark_failure (circuit_outcome K) (adaptive_outcome K) g w)) =
     w_log w @ guard_events EndFailure g"
  "w_log (snd (guards_cancel (circuit_outcome K) (adaptive_outcome K) g w)) =
     w_log w @ guard_events EndCancel g"
  "w_log (guards_drop K g w) = w_log w @ guard_events EndDrop g"
  by (simp_all add: guards_mark_success_def guards_mark_failure_def guards_cancel_def guards_drop_def
      circuit_outcome_def adaptive_outcome_def guard_events_def
      w_log_take_and [OF w_log_circuit_attempt_end] w_log_take_and [OF w_log_adaptive_permit_end])

lemma fst_guards [simp]:
  "fst (guards_mark_success C A g w) = \<lparr> ag_circuit = None, ag_adaptive = None \<rparr>"
  "fst (guards_mark_failure C A g w) = \<lparr> ag_circuit = None, ag_adaptive = None \<rparr>"
  "fst (guards_cancel C A g w) = \<lparr> ag_circuit = None, ag_adaptive = None \<rparr>"
  by (simp_all add: guards_mark_success_def guards_mark_failure_def guards_cancel_def)

lemma guard_events_empty [simp]: "guard_events outcome \<lparr> ag_circuit = None, ag_adaptive = None \<rparr> = []"
  by (simp add: guard_events_def)

lemma collect_guard_events [simp]:
  "mset (concat (map releases (guard_events outcome g))) = guard_resources g"
  "concat (map acquires (guard_events outcome g)) = []"
  "concat (map sends (guard_events outcome g)) = []"
  "concat (map reported_errors (guard_events outcome g)) = []"
  by (auto simp: guard_events_def guard_resources_def split: option.splits)

lemma w_log_budget_record_success:
  "budget_record_success K = Some f \<Longrightarrow> w_log (f w) = w_log w"
  by (auto simp: budget_record_success_def split_def Let_def)

definition global_drop_events :: "unit option \<Rightarrow> ('h, 'b) event list" where
  "global_drop_events permit = (case permit of None \<Rightarrow> [] | Some _ \<Rightarrow> [Ev_GlobalReleased])"

definition host_drop_events :: "nat option \<Rightarrow> ('h, 'b) event list" where
  "host_drop_events permit = (case permit of None \<Rightarrow> [] | Some a \<Rightarrow> [Ev_HostReleased a])"

lemma w_log_permit_drop [simp]:
  "w_log (global_permit_drop K permit w) = w_log w @ global_drop_events permit"
  "w_log (host_permit_drop K host_permit w) = w_log w @ host_drop_events host_permit"
  by (simp_all add: global_permit_drop_def host_permit_drop_def global_drop_events_def
      host_drop_events_def split: option.splits)

lemma collect_drop_events [simp]:
  "mset (concat (map releases (global_drop_events g))) = global_resources g"
  "concat (map acquires (global_drop_events g)) = []" "concat (map sends (global_drop_events g)) = []"
  "concat (map reported_errors (global_drop_events g)) = []"
  "mset (concat (map releases (host_drop_events h))) = host_resources h"
  "concat (map acquires (host_drop_events h)) = []" "concat (map sends (host_drop_events h)) = []"
  "concat (map reported_errors (host_drop_events h)) = []"
  by (auto simp: global_drop_events_def host_drop_events_def global_resources_def
      host_resources_def split: option.splits)

subsection \<open>Waiting\<close>

text \<open>
  A step that adds the events \<open>es\<close> to the log while time passes and other threads act; a silent step
  adds none.
\<close>

definition does :: "('h, 'b) event list \<Rightarrow> ('h, 'b) world \<Rightarrow> ('h, 'b) world \<Rightarrow> bool" where
  "does es w w' \<longleftrightarrow> w_log w' = w_log w @ es \<and> w_now w \<le> w_now w'"

abbreviation silent :: "('h, 'b) world \<Rightarrow> ('h, 'b) world \<Rightarrow> bool" where
  "silent \<equiv> does []"

lemma silent_refl [simp]: "silent w w"
  by (simp add: does_def)

lemma does_trans: "does es w w' \<Longrightarrow> does es' w' w'' \<Longrightarrow> does (es @ es') w w''"
  by (auto simp: does_def)

lemma silent_trans: "silent w w' \<Longrightarrow> does es w' w'' \<Longrightarrow> does es w w''"
  by (auto simp: does_def)

lemma does_silent: "does es w w' \<Longrightarrow> silent w' w'' \<Longrightarrow> does es w w''"
  by (auto simp: does_def)

lemma does_log_event: "does es w w' \<Longrightarrow> does (es @ [e]) w (log_event e w')"
  by (simp add: does_def)

lemma silent_steps [simp]:
  "silent w (tick w)" "silent w (lock_shared K w)" "silent w (set_shared f w)" "silent w (with_shared K f w)"
  by (simp_all add: does_def)

lemma silent_instant_now: "instant_now K w = (now, w') \<Longrightarrow> silent w w'"
  by (auto simp: does_def instant_now_def Let_def tick_def)

lemma silent_condvar_wait [simp]: "silent w (condvar_wait K w)"
  unfolding condvar_wait_def
  by (rule silent_trans [OF silent_steps(2) silent_instant_now [OF surjective_pairing]])

lemma silent_condvar_wait_timeout: "condvar_wait_timeout K d w = (b, w') \<Longrightarrow> silent w w'"
  using silent_condvar_wait [of w K]
  by (auto simp: condvar_wait_timeout_def does_def Let_def split: if_splits)

lemma silent_semaphore_acquire:
  assumes "semaphore_acquire K permits set_permits deadline_at w = Some y"
  shows "silent w (snd y)"
proof (rule semaphore_acquire.raw_induct [OF _ assms, of
      "\<lambda>K permits set_permits deadline_at w y. silent w (snd y)"], goal_cases)
  case (1 rec K permits set_permits deadline_at w y)
  obtain now w1 where n: "instant_now K w = (now, w1)" by force
  note go = silent_trans [OF silent_instant_now [OF n]]
  show ?case
  proof (cases "semaphore_acquire_iteration deadline_at now (permits (w_shared w1))")
    case (WaitFor wait_for)
    show ?thesis
    proof (cases wait_for)
      case None
      then have "rec K permits set_permits deadline_at (condvar_wait K w1) = Some y"
        using 1(2) n WaitFor by simp
      from silent_trans [OF silent_condvar_wait 1(1) [OF this]] show ?thesis by (rule go)
    next
      case (Some d)
      obtain b w2 where wait: "condvar_wait_timeout K d w1 = (b, w2)" by force
      obtain now' w3 where n': "instant_now K w2 = (now', w3)" by force
      have "y = (False, w3) \<or> rec K permits set_permits deadline_at w3 = Some y"
        using 1(2) n WaitFor Some wait n' by (auto split: if_splits)
      then have "silent w3 (snd y)" by (elim disjE) (simp, rule 1(1))
      then show ?thesis
        by (blast intro: go silent_trans silent_condvar_wait_timeout [OF wait] silent_instant_now [OF n'])
    qed
  qed (use 1(2) n go [OF silent_refl] go [OF silent_steps(3)] in auto)
qed

lemma silent_adaptive_controller_wait:
  assumes "adaptive_controller_wait K deadline_at w = Some y"
  shows "silent w (snd y)"
proof (rule adaptive_controller_wait.raw_induct [OF _ assms, of
      "\<lambda>K deadline_at w y. silent w (snd y)"], goal_cases)
  case (1 rec K deadline_at w y)
  note IH = 1(1) and eq = 1(2)
  obtain acquired s where tried: "adaptive_try_acquire (sh_adaptive_concurrency (w_shared w)) = (acquired, s)"
    by force
  consider "acquired" | "\<not> acquired" "deadline_at = None" | deadline where "\<not> acquired" "deadline_at = Some deadline"
    by blast
  then show ?case
  proof cases
    case 1
    then show ?thesis using eq tried by auto
  next
    case 2
    then have "rec K deadline_at (condvar_wait K w) = Some y" using eq tried by simp
    with IH show ?thesis by (blast intro: silent_trans silent_condvar_wait)
  next
    case (3 deadline)
    obtain now w1 where n: "instant_now K w = (now, w1)" by force
    obtain b w2 where wait: "condvar_wait_timeout K (deadline - now) w1 = (b, w2)" by force
    obtain now' w3 where n': "instant_now K w2 = (now', w3)" by force
    have "y = (False, w1) \<or> y = (False, w3) \<or> rec K deadline_at w3 = Some y"
      using eq tried 3 n wait n' by (auto split: if_splits)
    then have "y = (False, w1) \<or> silent w3 (snd y)" by (elim disjE) (simp, simp, blast intro: IH)
    then show ?thesis
      using silent_instant_now [OF n] silent_condvar_wait_timeout [OF wait] silent_instant_now [OF n']
      by (elim disjE) (simp, blast intro: silent_trans)
  qed
qed

lemma silent_readings:
  "now_monotonic K w = (now, w') \<Longrightarrow> silent w w'" "now_system K w = (now', w') \<Longrightarrow> silent w w'"
  by (auto simp: does_def now_monotonic_def now_system_def)

lemma does_limiters_acquire_global:
  assumes "limiters_acquire_global K deadline_at w = Some (r, w')"
  shows "does (case r of Ok (Some _) \<Rightarrow> [Ev_GlobalAcquired] | _ \<Rightarrow> []) w w'"
  using assms silent_trans [OF silent_steps(2) [of w K] silent_semaphore_acquire]
  by (auto simp: limiters_acquire_global_def Let_def split: if_splits option.splits prod.splits bool.splits
      dest!: does_log_event) (fastforce simp: does_def)+

lemma does_limiters_acquire_host:
  assumes "limiters_acquire_host K host deadline_at w = Some (r, w')"
  shows "does (case r of Ok (Some a) \<Rightarrow> [Ev_HostAcquired a] | _ \<Rightarrow> []) w w'"
proof -
  let ?w1 = "snd (now_monotonic K (lock_shared K w))"
  let ?l = "acquire_host host (fst (now_monotonic K (lock_shared K w))) (sh_request_limiters (w_shared ?w1))"
  let ?w2 = "set_shared (update_limiters (\<lambda>_. snd ?l)) ?w1"
  have s2: "silent w ?w2" "silent w (lock_shared K ?w2)" by (simp_all add: does_def)
  show ?thesis
  proof (cases "fst ?l")
    case (HostWaiter h a)
    then obtain b w3 where w3: "semaphore_acquire K (cell_permits a) (set_cell_permits a) deadline_at
        (lock_shared K ?w2) = Some (b, w3)"
      and r: "(r, w') = (if b then (Ok (Some a), log_event (Ev_HostAcquired a) w3)
        else (Err PermitTimeout, with_shared K (update_limiters (waiter_timeout a)) w3))"
      using assms by (auto simp: limiters_acquire_host_def Let_def split_def split: option.splits bool.splits)
    have "silent w w3" using silent_trans [OF s2(2) silent_semaphore_acquire [OF w3]] by simp
    then show ?thesis using r by (auto simp: does_def split: if_splits)
  qed (use assms s2(1) in \<open>auto simp: limiters_acquire_host_def Let_def split_def does_def\<close>)
qed

lemma does_adaptive_controller_acquire:
  assumes "adaptive_controller_acquire K deadline_at w = Some (r, w')"
  shows "does (case r of Some p \<Rightarrow> [Ev_AdaptiveBegin p] | None \<Rightarrow> []) w w'"
proof -
  obtain b w1 where w1: "adaptive_controller_wait K deadline_at (lock_shared K w) = Some (b, w1)"
    and r: "(r, w') = (if b
      then (Some \<lparr> ap_started_at = fst (now_monotonic K w1), ap_completed = False \<rparr>,
            log_event (Ev_AdaptiveBegin \<lparr> ap_started_at = fst (now_monotonic K w1), ap_completed = False \<rparr>)
              (snd (now_monotonic K w1)))
      else (None, w1))"
    using assms by (auto simp: adaptive_controller_acquire_def Let_def split_def split: option.splits bool.splits)
  have "silent w w1" using silent_trans [OF silent_steps(2) silent_adaptive_controller_wait [OF w1]] by simp
  then show ?thesis using r by (auto simp: does_def split: if_splits)
qed

text \<open>Settling and dropping take no time that the request observes.\<close>

lemma w_now_resources [simp]:
  "w_now (circuit_attempt_end K outcome a w) = w_now w" "w_now (adaptive_permit_end K outcome p w) = w_now w"
  "w_now (global_permit_drop K g w) = w_now w" "w_now (host_permit_drop K h w) = w_now w"
  by (simp_all add: circuit_attempt_end_def adaptive_permit_end_def global_permit_drop_def
      host_permit_drop_def controller_release_and_record_def controller_release_without_record_def
      adaptive_permit_latency_def split_def Let_def split: option.splits attempt_end.splits)

lemma w_now_guards [simp]:
  "w_now (snd (guards_mark_success (circuit_outcome K) (adaptive_outcome K) g w)) = w_now w"
  "w_now (snd (guards_mark_failure (circuit_outcome K) (adaptive_outcome K) g w)) = w_now w"
  "w_now (snd (guards_cancel (circuit_outcome K) (adaptive_outcome K) g w)) = w_now w"
  "w_now (guards_drop K g w) = w_now w"
  by (simp_all add: guards_mark_success_def guards_mark_failure_def guards_cancel_def guards_drop_def
      circuit_outcome_def adaptive_outcome_def take_and_def Let_def split: option.splits)

lemma silent_budget_record_success: "budget_record_success K = Some f \<Longrightarrow> silent w (f w)"
  by (auto simp: budget_record_success_def does_def split_def Let_def)

subsection \<open>What a step does to the log\<close>

text \<open>
  A step that acquires nothing and sends nothing, but releases the resources \<open>rel\<close> and reports the
  errors \<open>err\<close>. The steps of a request are composed with \<open>settles_trans\<close>.
\<close>

definition settles ::
    "resource multiset \<Rightarrow> 'h error list \<Rightarrow> ('h, 'b) world \<Rightarrow> ('h, 'b) world \<Rightarrow> bool" where
  "settles rel err w w' \<longleftrightarrow> acquired w' = acquired w \<and> sent w' = sent w \<and> released w' = released w + rel \<and>
     errors w' = errors w @ err \<and> w_now w \<le> w_now w'"

abbreviation quiet :: "('h, 'b) world \<Rightarrow> ('h, 'b) world \<Rightarrow> bool" where
  "quiet \<equiv> settles {#} []"

lemma settles_trans: "settles r e w w' \<Longrightarrow> settles r' e' w' w'' \<Longrightarrow> settles (r + r') (e @ e') w w''"
  by (auto simp: settles_def)

lemma quiet_settles: "quiet w w' \<Longrightarrow> settles r e w' w'' \<Longrightarrow> settles r e w w''"
  by (auto simp: settles_def)

lemma settles_quiet: "settles r e w w' \<Longrightarrow> quiet w' w'' \<Longrightarrow> settles r e w w''"
  by (auto simp: settles_def)

lemma quiet_refl [simp]: "quiet w w"
  by (simp add: settles_def)

lemma settles_does:
  assumes "does es w w'" "concat (map acquires es) = []" "concat (map sends es) = []"
  shows "settles (mset (concat (map releases es))) (concat (map reported_errors es)) w w'"
  using assms by (simp add: settles_def does_def collected_append)

lemma quiet_silent: "silent w w' \<Longrightarrow> quiet w w'"
  using settles_does [of "[]"] by simp

lemmas quiet_basic [simp] = silent_steps [THEN quiet_silent] silent_condvar_wait [THEN quiet_silent]

lemma quiet_readings:
  "instant_now K w = (now, w') \<Longrightarrow> quiet w w'" "now_monotonic K w = (now, w') \<Longrightarrow> quiet w w'"
  "now_system K w = (now', w') \<Longrightarrow> quiet w w'"
  by (auto intro: quiet_silent silent_instant_now silent_readings)

lemma settles_log_event:
  "acquires e = [] \<Longrightarrow> sends e = [] \<Longrightarrow> settles (mset (releases e)) (reported_errors e) w (log_event e w)"
  by (simp add: settles_def)

lemma settles_guards:
  "settles (guard_resources g) [] w (snd (guards_mark_success (circuit_outcome K) (adaptive_outcome K) g w))"
  "settles (guard_resources g) [] w (snd (guards_mark_failure (circuit_outcome K) (adaptive_outcome K) g w))"
  "settles (guard_resources g) [] w (snd (guards_cancel (circuit_outcome K) (adaptive_outcome K) g w))"
  "settles (guard_resources g) [] w (guards_drop K g w)"
  by (simp_all add: settles_def collected_append [OF w_log_guards(1)] collected_append [OF w_log_guards(2)]
      collected_append [OF w_log_guards(3)] collected_append [OF w_log_guards(4)])

lemma settles_permits:
  "settles (global_resources g) [] w (global_permit_drop K g w)"
  "settles (host_resources h) [] w (host_permit_drop K h w)"
  by (simp_all add: settles_def collected_append [OF w_log_permit_drop(1)]
      collected_append [OF w_log_permit_drop(2)])

abbreviation no_guards :: guards where
  "no_guards \<equiv> \<lparr> ag_circuit = None, ag_adaptive = None \<rparr>"

lemma guards_eq:
  "guards_mark_success C A g w = (no_guards, snd (guards_mark_success C A g w))"
  "guards_mark_failure C A g w = (no_guards, snd (guards_mark_failure C A g w))"
  "guards_cancel C A g w = (no_guards, snd (guards_cancel C A g w))"
  by (metis fst_guards(1,2,3) prod.collapse)+

end
