(* ===== verification/Reqx_BlockingStream.thy ===== *)
theory Reqx_BlockingStream
  imports Reqx_World
begin

text \<open>
  Responses and response streams of the blocking client (\<open>src/src/http/response.rs\<close>,
  \<open>src/src/http/response/blocking_stream.rs\<close>), with the life cycle of a stream
  (\<open>src/src/core/execution/lifecycle.rs\<close>) acting on the shared state. A stream owns the permits of its
  request and the guards of its attempt until it is read to its end, fails or is dropped. A method
  that consumes the stream ends with its destructor. The body is a reader; a writer is the list of
  the results of its calls, in order, with what was written before.
\<close>

subsection \<open>Responses and deadlines\<close>

record 'h response =
  rs_status :: status
  rs_headers :: 'h
  rs_body :: string

definition deadline_elapsed :: "instant \<Rightarrow> instant \<Rightarrow> bool" where
  "deadline_elapsed deadline_at now = (now \<ge> deadline_at)"

definition deadline_limits_wait :: "duration \<Rightarrow> instant \<Rightarrow> instant \<Rightarrow> bool" where
  "deadline_limits_wait timeout deadline_at now = (saturating_duration_since deadline_at now \<le> timeout)"

definition deadline_within_slack :: "instant \<Rightarrow> instant \<Rightarrow> duration \<Rightarrow> bool" where
  "deadline_within_slack deadline_at now slack = (saturating_duration_since deadline_at now \<le> slack)"

definition write_body_error :: "http_method \<Rightarrow> string \<Rightarrow> io_error \<Rightarrow> 'h error" where
  "write_body_error meth uri src = WriteBody meth uri (cause_box (io_error_cause src))"

subsection \<open>The life cycle\<close>

type_synonym ('h, 'b) hooks =
  "(circuit_attempt, adaptive_permit, ('h, 'b) world) stream_resilience_hooks"

record ('h, 'b) live_lifecycle =
  lf_completion :: "(instant \<times> stream_completion) option"
  lf_hooks :: "('h, 'b) hooks option"
  lf_completed :: bool

definition live_lifecycle_of :: "('h, 'b) hooks option \<Rightarrow> ('h, 'b) live_lifecycle" where
  "live_lifecycle_of h = \<lparr> lf_completion = None, lf_hooks = h, lf_completed = False \<rparr>"

definition hooks_end ::
    "('h, 'v, 'u, 'w, 'n, 'b) client \<Rightarrow> 'h lifecycle_end \<Rightarrow> ('h, 'b) hooks \<Rightarrow> ('h, 'b) world \<Rightarrow> ('h, 'b) world" where
  "hooks_end K e h w = snd
     (case e of
        LifecycleSuccess \<Rightarrow> hooks_complete_success (circuit_outcome K) (adaptive_outcome K) h w
      | LifecycleError _ \<Rightarrow> hooks_complete_error (circuit_outcome K) (adaptive_outcome K) h w
      | LifecycleCanceled \<Rightarrow> hooks_complete_canceled (circuit_outcome K) (adaptive_outcome K) h w)"

definition completion_end ::
    "('h, 'v, 'u, 'w, 'n, 'b) client \<Rightarrow> 'h lifecycle_end \<Rightarrow> instant \<times> stream_completion \<Rightarrow> ('h, 'b) world \<Rightarrow>
     ('h, 'b) world" where
  "completion_end K e c w =
     (let (now, w) = instant_now K w; elapsed = saturating_duration_since now (fst c)
      in with_shared K (sh_metrics_update (\<lambda>m. snd
           (case e of
              LifecycleSuccess \<Rightarrow> stream_complete_success elapsed (snd c) m
            | LifecycleError err \<Rightarrow> stream_complete_error err elapsed (snd c) m
            | LifecycleCanceled \<Rightarrow> stream_complete_canceled elapsed (snd c) m))) w)"

definition live_lifecycle_complete ::
    "('h, 'v, 'u, 'w, 'n, 'b) client \<Rightarrow> 'h lifecycle_end \<Rightarrow> ('h, 'b) live_lifecycle \<Rightarrow> ('h, 'b) world \<Rightarrow>
     ('h, 'b) live_lifecycle \<times> ('h, 'b) world" where
  "live_lifecycle_complete K e l w =
     (if lf_completed l then (l, w)
      else (let w = take_and (hooks_end K e) (lf_hooks l) w;
                w = take_and (completion_end K e) (lf_completion l) w
            in (\<lparr> lf_completion = None, lf_hooks = None, lf_completed = True \<rparr>, w)))"

subsection \<open>Streams\<close>

record ('h, 'b) blocking_response_stream =
  bs_status :: status
  bs_headers :: 'h
  bs_body :: "io_error reader option"
  bs_method :: http_method
  bs_uri_raw :: string
  bs_uri_redacted :: string
  bs_timeout_ms :: nat
  bs_total_timeout_ms :: "nat option"
  bs_deadline_at :: "instant option"
  bs_deadline_slack :: duration
  bs_lifecycle :: "('h, 'b) live_lifecycle"
  bs_global_permit :: "unit option"
  bs_host_permit :: "nat option"

definition stream_attach_completion ::
    "instant \<times> stream_completion \<Rightarrow> ('h, 'b) blocking_response_stream \<Rightarrow> ('h, 'b) blocking_response_stream" where
  "stream_attach_completion c s = s\<lparr> bs_lifecycle := (bs_lifecycle s)\<lparr> lf_completion := Some c \<rparr> \<rparr>"

definition stream_too_large_error :: "('h, 'b) blocking_response_stream \<Rightarrow> nat \<Rightarrow> nat \<Rightarrow> 'h error" where
  "stream_too_large_error s limit_bytes actual_bytes =
     ResponseBodyTooLarge limit_bytes actual_bytes (bs_method s) (bs_uri_redacted s)"

definition stream_deadline_error :: "('h, 'b) blocking_response_stream \<Rightarrow> 'h error" where
  "stream_deadline_error s =
     DeadlineExceeded (unwrap_or (max (bs_timeout_ms s) 1) (bs_total_timeout_ms s)) (bs_method s)
       (bs_uri_redacted s)"

definition read_error_of :: "io_error \<Rightarrow> http_method \<Rightarrow> string \<Rightarrow> nat \<Rightarrow> 'h error" where
  "read_error_of src meth uri timeout_ms =
     (if is_timeout_io_error src then Timeout Phase_ResponseBody timeout_ms meth uri
      else ReadBody (cause_box (io_error_cause src)))"

definition current_read_is_deadline_limited ::
    "('h, 'v, 'u, 'w, 'n, 'b) client \<Rightarrow> ('h, 'b) blocking_response_stream \<Rightarrow> ('h, 'b) world \<Rightarrow>
     bool \<times> ('h, 'b) world" where
  "current_read_is_deadline_limited K s w =
     (case bs_deadline_at s of
        None \<Rightarrow> (False, w)
      | Some deadline_at \<Rightarrow>
          (let (now, w) = instant_now K w
           in (deadline_limits_wait (duration_from_millis_saturating (max (bs_timeout_ms s) 1)) deadline_at now,
               w)))"

definition is_timeout_error :: "'h error \<Rightarrow> bool" where
  "is_timeout_error e = (case e of Timeout _ _ _ _ \<Rightarrow> True | _ \<Rightarrow> False)"

definition stream_map_read_error ::
    "('h, 'v, 'u, 'w, 'n, 'b) client \<Rightarrow> ('h, 'b) blocking_response_stream \<Rightarrow> io_error \<Rightarrow> bool \<Rightarrow>
     ('h, 'b) world \<Rightarrow> 'h error \<times> ('h, 'b) world" where
  "stream_map_read_error K s src deadline_limited w =
     (let mapped = read_error_of src (bs_method s) (bs_uri_redacted s) (bs_timeout_ms s);
          (now, w) = instant_now K w
      in if is_timeout_error mapped \<and>
            is_some_and (\<lambda>deadline_at. deadline_elapsed deadline_at now \<or>
              deadline_limited \<and> deadline_within_slack deadline_at now (bs_deadline_slack s)) (bs_deadline_at s)
         then (stream_deadline_error s, w) else (mapped, w))"

definition ensure_within_deadline ::
    "('h, 'v, 'u, 'w, 'n, 'b) client \<Rightarrow> ('h, 'b) blocking_response_stream \<Rightarrow> ('h, 'b) world \<Rightarrow>
     'h error unit_result \<times> ('h, 'b) world" where
  "ensure_within_deadline K s w =
     (case bs_deadline_at s of
        None \<Rightarrow> (Ok (), w)
      | Some deadline_at \<Rightarrow>
          (let (now, w) = instant_now K w
           in (if deadline_elapsed deadline_at now then Err (stream_deadline_error s) else Ok (), w)))"

definition release_transport ::
    "('h, 'v, 'u, 'w, 'n, 'b) client \<Rightarrow> ('h, 'b) blocking_response_stream \<Rightarrow> ('h, 'b) world \<Rightarrow>
     ('h, 'b) blocking_response_stream \<times> ('h, 'b) world" where
  "release_transport K s w =
     (s\<lparr> bs_body := None, bs_global_permit := None, bs_host_permit := None \<rparr>,
      host_permit_drop K (bs_host_permit s) (global_permit_drop K (bs_global_permit s) w))"

definition stream_complete ::
    "('h, 'v, 'u, 'w, 'n, 'b) client \<Rightarrow> 'h lifecycle_end \<Rightarrow> ('h, 'b) blocking_response_stream \<Rightarrow>
     ('h, 'b) world \<Rightarrow> ('h, 'b) blocking_response_stream \<times> ('h, 'b) world" where
  "stream_complete K e s w =
     (let (s, w) = release_transport K s w;
          (l, w) = live_lifecycle_complete K e (bs_lifecycle s) w
      in (s\<lparr> bs_lifecycle := l \<rparr>, w))"

text \<open>The destructor drops the fields in their order.\<close>

definition stream_drop ::
    "('h, 'v, 'u, 'w, 'n, 'b) client \<Rightarrow> ('h, 'b) blocking_response_stream \<Rightarrow> ('h, 'b) world \<Rightarrow>
     ('h, 'b) world" where
  "stream_drop K s w =
     host_permit_drop K (bs_host_permit s) (global_permit_drop K (bs_global_permit s)
       (snd (live_lifecycle_complete K LifecycleCanceled (bs_lifecycle s) w)))"

text \<open>
  \<open>read_chunk_internal\<close> after its first test: the buffer is not empty and the body is there. The
  recursion is on the body.
\<close>

fun read_chunk_loop ::
    "('h, 'v, 'u, 'w, 'n, 'b) client \<Rightarrow> bool \<Rightarrow> io_error reader \<Rightarrow> ('h, 'b) blocking_response_stream \<Rightarrow>
     ('h, 'b) world \<Rightarrow>
     (string, 'h error) result \<times> ('h, 'b) blocking_response_stream \<times> ('h, 'b) world" where
  "read_chunk_loop K complete_success_on_eof body s w =
     (case ensure_within_deadline K s w of
        (Err e, w) \<Rightarrow> (Err e, stream_complete K (LifecycleError e) s w)
      | (Ok _, w) \<Rightarrow>
          (case current_read_is_deadline_limited K s w of (deadline_limited, w) \<Rightarrow>
             (case body of
                ReadInterrupted # rest \<Rightarrow>
                  read_chunk_loop K complete_success_on_eof rest (s\<lparr> bs_body := Some rest \<rparr>) w
              | ReadFailed src # rest \<Rightarrow>
                  (case stream_map_read_error K s src deadline_limited w of (e, w) \<Rightarrow>
                     (Err e, stream_complete K (LifecycleError e) (s\<lparr> bs_body := Some rest \<rparr>) w))
              | _ \<Rightarrow>
                  (let (chunk, rest) = (case body of ReadChunk bytes # rest \<Rightarrow> (bytes, rest) | _ \<Rightarrow> ([], []));
                       s = s\<lparr> bs_body := Some rest \<rparr>
                   in case ensure_within_deadline K s w of
                        (Err e, w) \<Rightarrow> (Err e, stream_complete K (LifecycleError e) s w)
                      | (Ok _, w) \<Rightarrow>
                          if chunk = [] \<and> complete_success_on_eof
                          then (Ok chunk, stream_complete K LifecycleSuccess s w)
                          else (Ok chunk, s, w)))))"

declare read_chunk_loop.simps [simp del]

text \<open>\<open>buffer_has_room\<close> tells that the buffer is not empty.\<close>

definition read_chunk_internal ::
    "('h, 'v, 'u, 'w, 'n, 'b) client \<Rightarrow> bool \<Rightarrow> bool \<Rightarrow> ('h, 'b) blocking_response_stream \<Rightarrow>
     ('h, 'b) world \<Rightarrow>
     (string, 'h error) result \<times> ('h, 'b) blocking_response_stream \<times> ('h, 'b) world" where
  "read_chunk_internal K buffer_has_room complete_success_on_eof s w =
     (case bs_body s of
        None \<Rightarrow> (Ok [], s, w)
      | Some body \<Rightarrow>
          if \<not> buffer_has_room then (Ok [], s, w) else read_chunk_loop K complete_success_on_eof body s w)"

definition read_chunk ::
    "('h, 'v, 'u, 'w, 'n, 'b) client \<Rightarrow> bool \<Rightarrow> ('h, 'b) blocking_response_stream \<Rightarrow> ('h, 'b) world \<Rightarrow>
     (string, 'h error) result \<times> ('h, 'b) blocking_response_stream \<times> ('h, 'b) world" where
  "read_chunk K buffer_has_room s w = read_chunk_internal K buffer_has_room True s w"

subsection \<open>Writing\<close>

text \<open>
  A writer is given by the results of its calls (a failing call has first taken some bytes; the
  calls beyond the list succeed) and has the bytes written so far.
\<close>

datatype io_write = WriteOk | WriteFailed nat io_error

record io_writer =
  wr_calls :: "io_write list"
  wr_written :: string

definition io_write_all :: "string \<Rightarrow> io_writer \<Rightarrow> io_error unit_result \<times> io_writer" where
  "io_write_all bytes wr =
     (case wr_calls wr of
        WriteFailed n e # calls \<Rightarrow>
          (Err e, \<lparr> wr_calls = calls, wr_written = wr_written wr @ take n bytes \<rparr>)
      | _ \<Rightarrow> (Ok (), \<lparr> wr_calls = tl (wr_calls wr), wr_written = wr_written wr @ bytes \<rparr>))"

text \<open>A flush is a call that writes nothing.\<close>

definition io_flush :: "io_writer \<Rightarrow> io_error unit_result \<times> io_writer" where
  "io_flush wr = io_write_all [] wr"

definition write_with_deadline ::
    "('h, 'v, 'u, 'w, 'n, 'b) client \<Rightarrow> (io_writer \<Rightarrow> io_error unit_result \<times> io_writer) \<Rightarrow> io_writer \<Rightarrow>
     ('h, 'b) blocking_response_stream \<Rightarrow> ('h, 'b) world \<Rightarrow>
     'h error unit_result \<times> io_writer \<times> ('h, 'b) blocking_response_stream \<times> ('h, 'b) world" where
  "write_with_deadline K operation wr s w =
     (let (r, wr, w) =
        (case ensure_within_deadline K s w of
           (Err e, w) \<Rightarrow> (Err e, wr, w)
         | (Ok _, w) \<Rightarrow>
             (case operation wr of
                (Err src, wr) \<Rightarrow> (Err (write_body_error (bs_method s) (bs_uri_redacted s) src), wr, w)
              | (Ok _, wr) \<Rightarrow> (case ensure_within_deadline K s w of (r, w) \<Rightarrow> (r, wr, w))))
      in case r of
           Err e \<Rightarrow> (Err e, wr, stream_complete K (LifecycleError e) s w)
         | Ok _ \<Rightarrow> (Ok (), wr, s, w))"

subsection \<open>Termination of the reading loops\<close>

text \<open>
  How a reading ends: a chunk that is not empty has consumed a part of the reader and is a prefix of
  what the reader delivers; an empty one is its end. \<open>body_content\<close> is all that it delivers, if it does
  not fail.
\<close>

lemma silent_deadline_checks:
  "ensure_within_deadline K s w = (r, w') \<Longrightarrow> silent w w'"
  "current_read_is_deadline_limited K s w = (b, w') \<Longrightarrow> silent w w'"
  "stream_map_read_error K s src b w = (e, w') \<Longrightarrow> silent w w'"
  by (auto simp: ensure_within_deadline_def current_read_is_deadline_limited_def stream_map_read_error_def
      Let_def intro: silent_instant_now split: option.splits prod.splits if_splits)

fun body_content :: "'e reader \<Rightarrow> string option" where
  "body_content [] = Some []"
| "body_content (ReadChunk bytes # rest) = (if bytes = [] then Some [] else map_option ((@) bytes) (body_content rest))"
| "body_content (ReadInterrupted # rest) = body_content rest"
| "body_content (ReadFailed _ # rest) = None"

definition read_ends ::
    "('h, 'v, 'u, 'w, 'n, 'b) client \<Rightarrow> bool \<Rightarrow> io_error reader \<Rightarrow> ('h, 'b) blocking_response_stream \<Rightarrow>
     ('h, 'b) world \<Rightarrow>
     (string, 'h error) result \<times> ('h, 'b) blocking_response_stream \<times> ('h, 'b) world \<Rightarrow> bool" where
  "read_ends K eof body s w x \<longleftrightarrow> (\<exists>rest w1. silent w w1 \<and> length rest \<le> length body \<and>
     (case fst x of
        Err e \<Rightarrow> snd x = stream_complete K (LifecycleError e) (s\<lparr> bs_body := Some rest \<rparr>) w1
      | Ok chunk \<Rightarrow> (chunk \<noteq> [] \<longrightarrow> length rest < length body) \<and>
          body_content body = (if chunk = [] then Some [] else map_option ((@) chunk) (body_content rest)) \<and>
          snd x = (if chunk = [] \<and> eof then stream_complete K LifecycleSuccess (s\<lparr> bs_body := Some rest \<rparr>) w1
                   else (s\<lparr> bs_body := Some rest \<rparr>, w1))))"

lemma read_ends_later:
  assumes "silent w w1" "length rest \<le> length body" "body_content rest = body_content body"
    "read_ends K eof rest (s\<lparr> bs_body := Some rest \<rparr>) w1 x"
  shows "read_ends K eof body s w x"
proof -
  have up: "s\<lparr> bs_body := Some rest, bs_body := r \<rparr> = s\<lparr> bs_body := r \<rparr>" for r by simp
  obtain rest' w2 where *: "silent w1 w2" "length rest' \<le> length rest"
      "(case fst x of
        Err e \<Rightarrow> snd x = stream_complete K (LifecycleError e) (s\<lparr> bs_body := Some rest' \<rparr>) w2
      | Ok chunk \<Rightarrow> (chunk \<noteq> [] \<longrightarrow> length rest' < length rest) \<and>
          body_content rest = (if chunk = [] then Some [] else map_option ((@) chunk) (body_content rest')) \<and>
          snd x = (if chunk = [] \<and> eof then stream_complete K LifecycleSuccess (s\<lparr> bs_body := Some rest' \<rparr>) w2
                   else (s\<lparr> bs_body := Some rest' \<rparr>, w2)))"
    using assms(4) unfolding read_ends_def up by blast
  have "silent w w2" using silent_trans [OF assms(1) *(1)] .
  then show ?thesis
    using * assms(2,3) unfolding read_ends_def
    by (intro exI [of _ rest'] exI [of _ w2]) (auto split: result.splits)
qed

lemma read_chunk_loop_ends:
  "bs_body s = Some body \<Longrightarrow> read_ends K eof body s w (read_chunk_loop K eof body s w)"
proof (induction K eof body s w rule: read_chunk_loop.induct)
  case (1 K eof body s w)
  have same: "s\<lparr> bs_body := Some body \<rparr> = s" using "1.prems" by simp
  obtain r w1 where e1: "ensure_within_deadline K s w = (r, w1)" by force
  obtain limited w2 where e2: "current_read_is_deadline_limited K s w1 = (limited, w2)" by force
  note q1 = silent_deadline_checks(1) [OF e1] and q2 = silent_trans [OF silent_deadline_checks(1) [OF e1]
      silent_deadline_checks(2) [OF e2]]
  note step = read_chunk_loop.simps [of K eof body s w] e1 e2
  consider (late) e where "r = Err e" | (go) u where "r = Ok u" by (cases r) auto
  then show ?case
  proof cases
    case late
    then show ?thesis
      using q1 same by (auto simp: step read_ends_def intro!: exI [of _ body])
  next
    case go
    have read: "read_ends K eof body s w (case ensure_within_deadline K (s\<lparr> bs_body := Some rest \<rparr>) w2 of
        (Err e, w) \<Rightarrow> (Err e, stream_complete K (LifecycleError e) (s\<lparr> bs_body := Some rest \<rparr>) w)
      | (Ok _, w) \<Rightarrow>
          if chunk = [] \<and> eof then (Ok chunk, stream_complete K LifecycleSuccess (s\<lparr> bs_body := Some rest \<rparr>) w)
          else (Ok chunk, s\<lparr> bs_body := Some rest \<rparr>, w))"
      if "length rest \<le> length body" "chunk \<noteq> [] \<longrightarrow> length rest < length body"
        "body_content body = (if chunk = [] then Some [] else map_option ((@) chunk) (body_content rest))"
      for rest chunk
    proof -
      obtain r' w3 where e3: "ensure_within_deadline K (s\<lparr> bs_body := Some rest \<rparr>) w2 = (r', w3)" by force
      have "silent w w3" using silent_trans [OF q2 silent_deadline_checks(1) [OF e3]] .
      then show ?thesis
        using e3 that unfolding read_ends_def
        by (intro exI [of _ rest] exI [of _ w3]) (auto split: result.splits)
    qed
    show ?thesis
    proof (cases body)
      case Nil
      with go read [of "[]" "[]"] show ?thesis unfolding step by (simp add: e2 Let_def)
    next
      case (Cons a rest)
      show ?thesis
      proof (cases a)
        case (ReadChunk bytes)
        with go Cons read [of rest bytes] show ?thesis unfolding step by (simp add: e2 Let_def)
      next
        case ReadInterrupted
        have "read_ends K eof rest (s\<lparr> bs_body := Some rest \<rparr>) w2
            (read_chunk_loop K eof rest (s\<lparr> bs_body := Some rest \<rparr>) w2)"
          using "1.IH" [OF e1 [symmetric] go e2 [symmetric] Cons ReadInterrupted] by simp
        from read_ends_later [OF q2 _ _ this] show ?thesis
          using go Cons ReadInterrupted unfolding step by (simp add: e2)
      next
        case (ReadFailed src)
        obtain e w3 where e3: "stream_map_read_error K s src limited w2 = (e, w3)" by force
        have "silent w w3" using silent_trans [OF q2 silent_deadline_checks(3) [OF e3]] .
        then show ?thesis
          using go Cons ReadFailed e3 unfolding read_ends_def step
          by (intro exI [of _ rest] exI [of _ w3]) (simp add: e2)
      qed
    qed
  qed
qed

lemma read_chunk_internal_shorter:
  assumes "read_chunk_internal K True False s w = (Ok (c # cs), s', w')"
  shows "length (unwrap_or [] (bs_body s')) < length (unwrap_or [] (bs_body s))"
proof (cases "bs_body s")
  case None
  then show ?thesis using assms by (simp add: read_chunk_internal_def)
next
  case (Some body)
  then show ?thesis
    using assms read_chunk_loop_ends [OF Some, of K False w] by (auto simp: read_chunk_internal_def read_ends_def)
qed

subsection \<open>Consuming a stream\<close>

text \<open>The loop of \<open>into_bytes_limited\<close> and of \<open>into_response_limited\<close>.\<close>

function collect_loop ::
    "('h, 'v, 'u, 'w, 'n, 'b) client \<Rightarrow> nat \<Rightarrow> string \<Rightarrow> nat \<Rightarrow> ('h, 'b) blocking_response_stream \<Rightarrow>
     ('h, 'b) world \<Rightarrow>
     (string, 'h error) result \<times> ('h, 'b) blocking_response_stream \<times> ('h, 'b) world" where
  "collect_loop K max_bytes collected_bytes total_len s w =
     (case read_chunk_internal K True False s w of
        (Err e, s, w) \<Rightarrow> (Err e, s, w)
      | (Ok [], s, w) \<Rightarrow> (Ok collected_bytes, s, w)
      | (Ok (c # cs), s, w) \<Rightarrow>
          if usize_add total_len (length (c # cs)) > max_bytes
          then (let e = stream_too_large_error s max_bytes (usize_add total_len (length (c # cs)))
                in (Err e, stream_complete K (LifecycleError e) s w))
          else collect_loop K max_bytes (collected_bytes @ c # cs) (usize_add total_len (length (c # cs))) s w)"
  by pat_completeness auto
termination
  by (relation "measure (\<lambda>(K, m, bytes, n, s, w). length (unwrap_or [] (bs_body s)))")
     (auto dest: read_chunk_internal_shorter [OF sym])

declare collect_loop.simps [simp del]

definition into_bytes_limited ::
    "('h, 'v, 'u, 'w, 'n, 'b) client \<Rightarrow> nat \<Rightarrow> ('h, 'b) blocking_response_stream \<Rightarrow> ('h, 'b) world \<Rightarrow>
     (string, 'h error) result \<times> ('h, 'b) world" where
  "into_bytes_limited K max_bytes s w =
     (case collect_loop K max_bytes [] 0 s w of
        (Err e, s, w) \<Rightarrow> (Err e, stream_drop K s w)
      | (Ok body, s, w) \<Rightarrow>
          (let (s, w) = stream_complete K LifecycleSuccess s w in (Ok body, stream_drop K s w)))"

text \<open>A failure after the loop completes the stream with its error before the stream is dropped.\<close>

definition stream_fail ::
    "('h, 'v, 'u, 'w, 'n, 'b) client \<Rightarrow> 'h error \<Rightarrow> ('h, 'b) blocking_response_stream \<Rightarrow> ('h, 'b) world \<Rightarrow>
     ('a, 'h error) result \<times> ('h, 'b) world" where
  "stream_fail K e s w =
     (let (s, w) = stream_complete K (LifecycleError e) s w in (Err e, stream_drop K s w))"

definition stream_decode ::
    "('h, 'v, 'u, 'w, 'n, 'b) client \<Rightarrow> nat \<Rightarrow> ('h, 'b) blocking_response_stream \<Rightarrow> string \<Rightarrow>
     (string, 'h error) result" where
  "stream_decode K max_bytes s body =
     (if should_decode_content_encoded_body (bs_method s) (bs_status s) (length body)
      then map_err (\<lambda>d. into_error d (bs_method s) (bs_uri_redacted s) max_bytes)
             (decode_content_encoded_body_limited (li_headers K) (li_codecs K) body (bs_headers s) max_bytes)
      else Ok body)"

definition into_response_limited ::
    "('h, 'v, 'u, 'w, 'n, 'b) client \<Rightarrow> nat \<Rightarrow> ('h, 'b) blocking_response_stream \<Rightarrow> ('h, 'b) world \<Rightarrow>
     ('h response, 'h error) result \<times> ('h, 'b) world" where
  "into_response_limited K max_bytes s w =
     (case collect_loop K max_bytes [] 0 s w of
        (Err e, s, w) \<Rightarrow> (Err e, stream_drop K s w)
      | (Ok body, s, w) \<Rightarrow>
     (case ensure_within_deadline K s w of
        (Err e, w) \<Rightarrow> stream_fail K e s w
      | (Ok _, w) \<Rightarrow>
     (case stream_decode K max_bytes s body of
        Err e \<Rightarrow> stream_fail K e s w
      | Ok decoded \<Rightarrow>
          (let headers = (if should_decode_content_encoded_body (bs_method s) (bs_status s) (length body) \<and>
                             hm_contains_key (li_headers K) (bs_headers s) ''content-encoding''
                          then remove_content_encoding_headers (li_headers K) (bs_headers s)
                          else bs_headers s)
           in case ensure_within_deadline K s w of
                (Err e, w) \<Rightarrow> stream_fail K e s w
              | (Ok _, w) \<Rightarrow>
                  (let (s, w) = stream_complete K LifecycleSuccess s w
                   in (Ok \<lparr> rs_status = bs_status s, rs_headers = headers, rs_body = decoded \<rparr>,
                       stream_drop K s w))))))"

text \<open>
  The loops of \<open>copy_to_writer\<close> and \<open>copy_to_writer_limited\<close>; the second counts and checks a chunk
  before it writes it.
\<close>

lemma write_with_deadline_Ok:
  "write_with_deadline K operation wr s w = (Ok u, wr', s', w') \<Longrightarrow> s' = s"
  by (auto simp: write_with_deadline_def Let_def split: prod.splits result.splits)

function copy_loop ::
    "('h, 'v, 'u, 'w, 'n, 'b) client \<Rightarrow> nat \<Rightarrow> io_writer \<Rightarrow> ('h, 'b) blocking_response_stream \<Rightarrow>
     ('h, 'b) world \<Rightarrow>
     (nat, 'h error) result \<times> io_writer \<times> ('h, 'b) blocking_response_stream \<times> ('h, 'b) world" where
  "copy_loop K copied wr s w =
     (case read_chunk_internal K True False s w of
        (Err e, s, w) \<Rightarrow> (Err e, wr, s, w)
      | (Ok [], s, w) \<Rightarrow> (Ok copied, wr, s, w)
      | (Ok (c # cs), s, w) \<Rightarrow>
          (case write_with_deadline K (io_write_all (c # cs)) wr s w of
             (Err e, wr, s, w) \<Rightarrow> (Err e, wr, s, w)
           | (Ok _, wr, s, w) \<Rightarrow> copy_loop K (u64_add copied (length (c # cs))) wr s w))"
  by pat_completeness auto
termination
  by (relation "measure (\<lambda>(K, n, wr, s, w). length (unwrap_or [] (bs_body s)))")
     (auto dest: read_chunk_internal_shorter [OF sym] write_with_deadline_Ok [OF sym])

function copy_limited_loop ::
    "('h, 'v, 'u, 'w, 'n, 'b) client \<Rightarrow> nat \<Rightarrow> nat \<Rightarrow> io_writer \<Rightarrow> ('h, 'b) blocking_response_stream \<Rightarrow>
     ('h, 'b) world \<Rightarrow>
     (nat, 'h error) result \<times> io_writer \<times> ('h, 'b) blocking_response_stream \<times> ('h, 'b) world" where
  "copy_limited_loop K max_bytes copied wr s w =
     (case read_chunk_internal K True False s w of
        (Err e, s, w) \<Rightarrow> (Err e, wr, s, w)
      | (Ok [], s, w) \<Rightarrow> (Ok copied, wr, s, w)
      | (Ok (c # cs), s, w) \<Rightarrow>
          if u64_add copied (length (c # cs)) > max_bytes
          then (let e = stream_too_large_error s max_bytes (saturating_u64_to_usize (u64_add copied (length (c # cs))))
                in (Err e, wr, stream_complete K (LifecycleError e) s w))
          else (case write_with_deadline K (io_write_all (c # cs)) wr s w of
                  (Err e, wr, s, w) \<Rightarrow> (Err e, wr, s, w)
                | (Ok _, wr, s, w) \<Rightarrow>
                    copy_limited_loop K max_bytes (u64_add copied (length (c # cs))) wr s w))"
  by pat_completeness auto
termination
  by (relation "measure (\<lambda>(K, m, n, wr, s, w). length (unwrap_or [] (bs_body s)))")
     (auto dest: read_chunk_internal_shorter [OF sym] write_with_deadline_Ok [OF sym])

declare copy_loop.simps [simp del] copy_limited_loop.simps [simp del]

text \<open>What follows either loop.\<close>

definition finish_copy ::
    "('h, 'v, 'u, 'w, 'n, 'b) client \<Rightarrow>
     (nat, 'h error) result \<times> io_writer \<times> ('h, 'b) blocking_response_stream \<times> ('h, 'b) world \<Rightarrow>
     (nat, 'h error) result \<times> io_writer \<times> ('h, 'b) world" where
  "finish_copy K x =
     (case x of
        (Err e, wr, s, w) \<Rightarrow> (Err e, wr, stream_drop K s w)
      | (Ok copied, wr, s, w) \<Rightarrow>
          (case write_with_deadline K io_flush wr s w of
             (Err e, wr, s, w) \<Rightarrow> (Err e, wr, stream_drop K s w)
           | (Ok _, wr, s, w) \<Rightarrow>
               (let (s, w) = stream_complete K LifecycleSuccess s w
                in (Ok copied, wr, stream_drop K s w))))"

definition copy_to_writer ::
    "('h, 'v, 'u, 'w, 'n, 'b) client \<Rightarrow> io_writer \<Rightarrow> ('h, 'b) blocking_response_stream \<Rightarrow> ('h, 'b) world \<Rightarrow>
     (nat, 'h error) result \<times> io_writer \<times> ('h, 'b) world" where
  "copy_to_writer K wr s w = finish_copy K (copy_loop K 0 wr s w)"

definition copy_to_writer_limited ::
    "('h, 'v, 'u, 'w, 'n, 'b) client \<Rightarrow> nat \<Rightarrow> io_writer \<Rightarrow> ('h, 'b) blocking_response_stream \<Rightarrow>
     ('h, 'b) world \<Rightarrow> (nat, 'h error) result \<times> io_writer \<times> ('h, 'b) world" where
  "copy_to_writer_limited K max_bytes wr s w = finish_copy K (copy_limited_loop K max_bytes 0 wr s w)"

end
