(* ===== verification/Reqx_BlockingStreamProofs.thy ===== *)
theory Reqx_BlockingStreamProofs
  imports Reqx_BlockingStream
begin

text \<open>
  Response streams of the blocking client: what a stream owns is released exactly once, whichever way
  the stream is consumed (locale \<open>stream_consumer\<close>), and what it delivers.
\<close>

subsection \<open>What a stream owns\<close>

definition lifecycle_resources :: "('h, 'b) live_lifecycle \<Rightarrow> resource multiset" where
  "lifecycle_resources l =
     (if lf_completed l then {#}
      else case lf_hooks l of None \<Rightarrow> {#} | Some h \<Rightarrow> guard_resources (sh_attempts h))"

definition stream_resources :: "('h, 'b) blocking_response_stream \<Rightarrow> resource multiset" where
  "stream_resources s = lifecycle_resources (bs_lifecycle s) + global_resources (bs_global_permit s) +
     host_resources (bs_host_permit s)"

text \<open>The hooks of a live stream settle its guards on the client it came from.\<close>

definition lifecycle_ok :: "('h, 'v, 'u, 'w, 'n, 'b) client \<Rightarrow> ('h, 'b) live_lifecycle \<Rightarrow> bool" where
  "lifecycle_ok K l \<longleftrightarrow> lf_completed l \<or>
     (case lf_hooks l of
        None \<Rightarrow> True
      | Some h \<Rightarrow> stream_resilience_hooks.sh_retry_budget h = budget_record_success K)"

definition stream_ok ::
    "('h, 'v, 'u, 'w, 'n, 'b) client \<Rightarrow> ('h, 'b) blocking_response_stream \<Rightarrow> bool" where
  "stream_ok K s \<longleftrightarrow> lifecycle_ok K (bs_lifecycle s)"

lemma settles_hooks_end:
  assumes "stream_resilience_hooks.sh_retry_budget h = budget_record_success K"
  shows "settles (guard_resources (sh_attempts h)) [] w (hooks_end K e h w)"
proof (cases e)
  case LifecycleSuccess
  have "quiet w (case budget_record_success K of Some f \<Rightarrow> f w | None \<Rightarrow> w)"
    by (auto split: option.splits intro: quiet_silent silent_budget_record_success)
  from quiet_settles [OF this settles_guards(1)] show ?thesis
    using LifecycleSuccess assms by (simp add: hooks_end_def hooks_complete_success_def split_def Let_def)
qed (use settles_guards(2,3) in \<open>simp_all add: hooks_end_def hooks_complete_error_def
    hooks_complete_canceled_def split_def Let_def\<close>)

lemma quiet_completion_end: "quiet w (completion_end K e c w)"
proof -
  obtain now w1 where n: "instant_now K w = (now, w1)" by force
  show ?thesis
    using quiet_settles [OF quiet_readings(1) [OF n] quiet_basic(4)]
    by (simp add: completion_end_def n Let_def)
qed

lemma settles_live_lifecycle_complete:
  assumes "lifecycle_ok K l0" "live_lifecycle_complete K e l0 w = (l, w')"
  shows "settles (lifecycle_resources l0) [] w w' \<and> lf_completed l"
proof (cases "lf_completed l0")
  case True
  then show ?thesis using assms(2) by (auto simp: live_lifecycle_complete_def lifecycle_resources_def)
next
  case False
  let ?w = "take_and (hooks_end K e) (lf_hooks l0) w"
  have "settles (case lf_hooks l0 of None \<Rightarrow> {#} | Some h \<Rightarrow> guard_resources (sh_attempts h)) [] w ?w"
    using assms(1) False by (auto simp: lifecycle_ok_def take_and_def intro: settles_hooks_end split: option.splits)
  moreover have "quiet ?w (take_and (completion_end K e) (lf_completion l0) ?w)"
    by (simp add: take_and_def quiet_completion_end split: option.split)
  ultimately show ?thesis
    using settles_quiet False assms(2)
    by (auto simp: live_lifecycle_complete_def lifecycle_resources_def Let_def)
qed

lemma settles_release_transport:
  "settles (global_resources (bs_global_permit s) + host_resources (bs_host_permit s)) [] w
     (snd (release_transport K s w))"
  using settles_trans [OF settles_permits(1) settles_permits(2)] by (simp add: release_transport_def)

lemma settles_stream_complete:
  assumes "stream_ok K s" "stream_complete K e s w = (s', w')"
  shows "settles (stream_resources s) [] w w'" "stream_resources s' = {#}" "stream_ok K s'"
proof -
  obtain s1 w1 where r: "release_transport K s w = (s1, w1)" by force
  obtain l w2 where l: "live_lifecycle_complete K e (bs_lifecycle s) w1 = (l, w2)" by force
  have s1: "bs_lifecycle s1 = bs_lifecycle s" "bs_global_permit s1 = None" "bs_host_permit s1 = None"
    using r by (auto simp: release_transport_def)
  have eq: "s' = s1\<lparr> bs_lifecycle := l \<rparr>" "w' = w2"
    using assms(2) r l s1 by (auto simp: stream_complete_def)
  note settled = settles_live_lifecycle_complete [OF assms(1) [unfolded stream_ok_def] l]
  show "settles (stream_resources s) [] w w'"
    using settles_trans [OF settles_release_transport [of s w K, unfolded r snd_conv] settled [THEN conjunct1]]
    by (simp add: eq stream_resources_def ac_simps)
  show "stream_resources s' = {#}" "stream_ok K s'"
    using settled s1 by (simp_all add: eq stream_resources_def lifecycle_resources_def stream_ok_def lifecycle_ok_def)
qed

lemma settles_stream_drop:
  assumes "stream_ok K s"
  shows "settles (stream_resources s) [] w (stream_drop K s w)"
proof -
  obtain l w1 where l: "live_lifecycle_complete K LifecycleCanceled (bs_lifecycle s) w = (l, w1)" by force
  have "settles (lifecycle_resources (bs_lifecycle s) + (global_resources (bs_global_permit s) +
      host_resources (bs_host_permit s))) ([] @ ([] @ [])) w
      (host_permit_drop K (bs_host_permit s) (global_permit_drop K (bs_global_permit s) w1))"
    by (rule settles_trans [OF settles_live_lifecycle_complete [OF assms [unfolded stream_ok_def] l, THEN conjunct1]
      settles_trans [OF settles_permits(1) settles_permits(2)]])
  then show ?thesis by (simp add: stream_drop_def l stream_resources_def ac_simps)
qed

text \<open>
  An operation on a stream: what it releases, with what the stream then owns, is what the stream
  owned. Such operations compose, and the destructor at the end releases the rest.
\<close>

definition stream_op ::
    "('h, 'v, 'u, 'w, 'n, 'b) client \<Rightarrow> ('h, 'b) blocking_response_stream \<Rightarrow> ('h, 'b) world \<Rightarrow>
     ('h, 'b) blocking_response_stream \<times> ('h, 'b) world \<Rightarrow> bool" where
  "stream_op K s w x \<longleftrightarrow> stream_ok K (fst x) \<and>
     (\<exists>rel. settles rel [] w (snd x) \<and> rel + stream_resources (fst x) = stream_resources s)"

lemma stream_op_trans: "stream_op K s w (s', w') \<Longrightarrow> stream_op K s' w' x \<Longrightarrow> stream_op K s w x"
  unfolding stream_op_def using settles_trans by (fastforce simp: ac_simps)

lemma stream_op_quiet:
  "stream_ok K s \<Longrightarrow> quiet w w' \<Longrightarrow> stream_op K s w (s\<lparr> bs_body := b \<rparr>, w')"
  "stream_ok K s \<Longrightarrow> quiet w w' \<Longrightarrow> stream_op K s w (s, w')"
  by (auto simp: stream_op_def stream_ok_def stream_resources_def)

lemma stream_op_complete: "stream_ok K s \<Longrightarrow> stream_op K s w (stream_complete K e s w)"
  using settles_stream_complete [of K s e w] by (cases "stream_complete K e s w") (auto simp: stream_op_def)

lemma stream_op_drop:
  assumes "stream_op K s w (s', w')"
  shows "settles (stream_resources s) [] w (stream_drop K s' w')"
proof -
  obtain rel where "settles rel [] w w'" "rel + stream_resources s' = stream_resources s" "stream_ok K s'"
    using assms by (auto simp: stream_op_def)
  then show ?thesis using settles_trans [OF _ settles_stream_drop] by fastforce
qed

lemma stream_op_read_chunk_internal:
  assumes "stream_ok K s" "read_chunk_internal K room eof s w = (r, x)"
  shows "stream_op K s w x"
proof (cases "bs_body s = None \<or> \<not> room")
  case True
  then show ?thesis
    using assms by (auto simp: read_chunk_internal_def stream_op_quiet(2) split: option.splits)
next
  case False
  then obtain body where body: "bs_body s = Some body" and x: "read_chunk_loop K eof body s w = (r, x)"
    using assms(2) by (auto simp: read_chunk_internal_def)
  from read_chunk_loop_ends [OF body, of K eof w] obtain rest w1 where q: "silent w w1"
    and cases: "(\<exists>e. x = stream_complete K e (s\<lparr> bs_body := Some rest \<rparr>) w1) \<or>
      x = (s\<lparr> bs_body := Some rest \<rparr>, w1)"
    unfolding read_ends_def x by (cases r) (fastforce split: if_splits)+
  note first = stream_op_quiet(1) [OF assms(1) quiet_silent [OF q], of "Some rest"]
  have "stream_ok K (s\<lparr> bs_body := Some rest \<rparr>)" using assms(1) by (simp add: stream_ok_def)
  with cases show ?thesis using first stream_op_trans [OF first stream_op_complete] by auto
qed

lemma stream_op_ok: "stream_op K s w (s', w') \<Longrightarrow> stream_ok K s'"
  by (simp add: stream_op_def)

lemma stream_op_write_with_deadline:
  assumes "stream_ok K s" "write_with_deadline K operation wr s w = (r, wr', x)"
  shows "stream_op K s w x"
proof -
  obtain r1 w1 where e1: "ensure_within_deadline K s w = (r1, w1)" by force
  obtain r2 w2 where e2: "ensure_within_deadline K s w1 = (r2, w2)" by force
  have q: "quiet w w1" "quiet w w2"
    using quiet_silent [OF silent_deadline_checks(1) [OF e1]]
      quiet_silent [OF silent_trans [OF silent_deadline_checks(1) [OF e1] silent_deadline_checks(1) [OF e2]]] .
  have "(\<exists>e w'. quiet w w' \<and> x = stream_complete K e s w') \<or> (\<exists>w'. quiet w w' \<and> x = (s, w'))"
    using assms(2) q by (auto simp: write_with_deadline_def e1 e2 Let_def split: result.splits prod.splits)
  then show ?thesis
    using stream_op_trans [OF stream_op_quiet(2) [OF assms(1)] stream_op_complete [OF assms(1)]]
      stream_op_quiet(2) [OF assms(1)] by blast
qed

lemma stream_op_collect_loop:
  "stream_ok K s \<Longrightarrow> collect_loop K max_bytes bytes n s w = (r, x) \<Longrightarrow> stream_op K s w x"
proof (induction K max_bytes bytes n s w arbitrary: r x rule: collect_loop.induct)
  case (1 K max_bytes bytes n s w)
  obtain r1 s1 w1 where rd: "read_chunk_internal K True False s w = (r1, s1, w1)" by (metis prod_cases3)
  note op = stream_op_read_chunk_internal [OF "1.prems"(1) rd]
  note ok = stream_op_ok [OF op]
  note eq = "1.prems"(2) [unfolded collect_loop.simps [of K max_bytes bytes n s w] rd]
  show ?case
  proof (cases r1)
    case (Err e)
    then show ?thesis using eq op by simp
  next
    case (Ok chunk)
    show ?thesis
    proof (cases chunk)
      case Nil
      then show ?thesis using eq Ok op by simp
    next
      case (Cons c cs)
      show ?thesis
      proof (cases "usize_add n (length (c # cs)) > max_bytes")
        case True
        then show ?thesis
          using eq Ok Cons stream_op_trans [OF op stream_op_complete [OF ok]] by (auto simp: Let_def)
      next
        case False
        then have "stream_op K s1 w1 x"
          using "1.IH" [OF rd [symmetric] Ok [unfolded Cons] _ _ False ok] eq Ok Cons by auto
        then show ?thesis by (rule stream_op_trans [OF op])
      qed
    qed
  qed
qed

lemma stream_op_copy_loop:
  "stream_ok K s \<Longrightarrow> copy_loop K n wr s w = (r, wr', x) \<Longrightarrow> stream_op K s w x"
proof (induction K n wr s w arbitrary: r wr' x rule: copy_loop.induct)
  case (1 K n wr s w)
  obtain r1 s1 w1 where rd: "read_chunk_internal K True False s w = (r1, s1, w1)" by (metis prod_cases3)
  note op = stream_op_read_chunk_internal [OF "1.prems"(1) rd]
  note eq = "1.prems"(2) [unfolded copy_loop.simps [of K n wr s w] rd]
  consider (stop) "(s1, w1) = x" | (go) c cs where "r1 = Ok (c # cs)"
    using eq by (auto split: result.splits list.splits)
  then show ?case
  proof cases
    case stop
    then show ?thesis using op by simp
  next
    case (go c cs)
    obtain r2 wr2 s2 w2 where wd: "write_with_deadline K (io_write_all (c # cs)) wr s1 w1 = (r2, wr2, s2, w2)"
      by (metis prod_cases4)
    note op2 = stream_op_trans [OF op stream_op_write_with_deadline [OF stream_op_ok [OF op] wd]]
    show ?thesis
    proof (cases r2)
      case (Err e)
      then show ?thesis using eq go wd op2 by auto
    next
      case (Ok u)
      then have "copy_loop K (u64_add n (length (c # cs))) wr2 s2 w2 = (r, wr', x)" using eq go wd by auto
      from "1.IH" [OF rd [symmetric] go _ _ wd [symmetric] Ok _ _ stream_op_ok [OF op2] this]
      show ?thesis by (simp add: stream_op_trans [OF op2])
    qed
  qed
qed

lemma stream_op_copy_limited_loop:
  "stream_ok K s \<Longrightarrow> copy_limited_loop K m n wr s w = (r, wr', x) \<Longrightarrow> stream_op K s w x"
proof (induction K m n wr s w arbitrary: r wr' x rule: copy_limited_loop.induct)
  case (1 K m n wr s w)
  obtain r1 s1 w1 where rd: "read_chunk_internal K True False s w = (r1, s1, w1)" by (metis prod_cases3)
  note op = stream_op_read_chunk_internal [OF "1.prems"(1) rd]
  note ok = stream_op_ok [OF op]
  note eq = "1.prems"(2) [unfolded copy_limited_loop.simps [of K m n wr s w] rd]
  consider (stop) "(s1, w1) = x" | (over) e where "x = stream_complete K e s1 w1"
    | (go) c cs where "r1 = Ok (c # cs)" "\<not> u64_add n (length (c # cs)) > m"
    using eq by (auto simp: Let_def split: result.splits list.splits if_splits)
  then show ?case
  proof cases
    case stop
    then show ?thesis using op by simp
  next
    case over
    then show ?thesis using stream_op_trans [OF op stream_op_complete [OF ok]] by simp
  next
    case (go c cs)
    obtain r2 wr2 s2 w2 where wd: "write_with_deadline K (io_write_all (c # cs)) wr s1 w1 = (r2, wr2, s2, w2)"
      by (metis prod_cases4)
    note op2 = stream_op_trans [OF op stream_op_write_with_deadline [OF ok wd]]
    show ?thesis
    proof (cases r2)
      case (Err e)
      then show ?thesis using eq go wd op2 by auto
    next
      case (Ok u)
      then have "copy_limited_loop K m (u64_add n (length (c # cs))) wr2 s2 w2 = (r, wr', x)"
        using eq go wd by auto
      from "1.IH" [OF rd [symmetric] go(1) _ _ go(2) wd [symmetric] Ok _ _ stream_op_ok [OF op2] this]
      show ?thesis by (simp add: stream_op_trans [OF op2])
    qed
  qed
qed

lemma stream_op_finish:
  assumes "stream_op K s w (s', w')"
  shows "settles (stream_resources s) [] w (case stream_complete K e s' w' of (s, w) \<Rightarrow> stream_drop K s w)"
proof -
  obtain s2 w2 where c: "stream_complete K e s' w' = (s2, w2)" by force
  have "stream_op K s w (s2, w2)"
    using stream_op_trans [OF assms stream_op_complete [OF stream_op_ok [OF assms]], of e] by (simp add: c)
  from stream_op_drop [OF this] show ?thesis by (simp add: c)
qed

lemma snd_stream_fail:
  "snd (stream_fail K e s w) = (case stream_complete K (LifecycleError e) s w of (s, w) \<Rightarrow> stream_drop K s w)"
  by (simp add: stream_fail_def split_def Let_def)

lemma settles_into_bytes_limited:
  assumes "stream_ok K s"
  shows "settles (stream_resources s) [] w (snd (into_bytes_limited K max_bytes s w))"
proof -
  obtain r s1 w1 where c: "collect_loop K max_bytes [] 0 s w = (r, s1, w1)" by (metis prod_cases3)
  note op = stream_op_collect_loop [OF assms c]
  show ?thesis
    using stream_op_drop [OF op] stream_op_finish [OF op, of LifecycleSuccess]
    by (cases r) (simp_all add: into_bytes_limited_def c split_def Let_def)
qed

lemma settles_into_response_limited:
  assumes "stream_ok K s"
  shows "settles (stream_resources s) [] w (snd (into_response_limited K max_bytes s w))"
proof -
  obtain r s1 w1 where c: "collect_loop K max_bytes [] 0 s w = (r, s1, w1)" by (metis prod_cases3)
  note op = stream_op_collect_loop [OF assms c]
  obtain r2 w2 where e2: "ensure_within_deadline K s1 w1 = (r2, w2)" by force
  obtain r3 w3 where e3: "ensure_within_deadline K s1 w2 = (r3, w3)" by force
  have op2: "stream_op K s w (s1, w2)" "stream_op K s w (s1, w3)"
    using stream_op_trans [OF op stream_op_quiet(2) [OF stream_op_ok [OF op]]]
      quiet_silent [OF silent_deadline_checks(1) [OF e2]]
      quiet_silent [OF silent_trans [OF silent_deadline_checks(1) [OF e2] silent_deadline_checks(1) [OF e3]]]
    by blast+
  show ?thesis
    using stream_op_drop [OF op] stream_op_finish [OF op2(1)] stream_op_finish [OF op2(2)]
    by (cases r; cases r2; cases r3; cases "stream_decode K max_bytes s1 (case r of Ok b \<Rightarrow> b | Err _ \<Rightarrow> [])")
       (simp_all add: into_response_limited_def c e2 e3 snd_stream_fail split_def Let_def)
qed

lemma settles_finish_copy:
  assumes "stream_ok K s" "stream_op K s w (s1, w1)"
  shows "settles (stream_resources s) [] w (snd (snd (finish_copy K (r, wr, s1, w1))))"
proof (cases r)
  case (Err e)
  then show ?thesis using stream_op_drop [OF assms(2)] by (simp add: finish_copy_def)
next
  case (Ok n)
  obtain r2 wr2 s2 w2 where wd: "write_with_deadline K io_flush wr s1 w1 = (r2, wr2, s2, w2)"
    by (metis prod_cases4)
  note op = stream_op_trans [OF assms(2) stream_op_write_with_deadline [OF stream_op_ok [OF assms(2)] wd]]
  show ?thesis
    using Ok stream_op_drop [OF op] stream_op_finish [OF op, of LifecycleSuccess]
    by (cases r2) (simp_all add: finish_copy_def wd split_def Let_def)
qed

lemma settles_copy_to_writer:
  assumes "stream_ok K s"
  shows "settles (stream_resources s) [] w (snd (snd (copy_to_writer K wr s w)))"
    "settles (stream_resources s) [] w (snd (snd (copy_to_writer_limited K max_bytes wr s w)))"
proof -
  obtain r wr' s1 w1 where c: "copy_loop K 0 wr s w = (r, wr', s1, w1)" by (metis prod_cases4)
  show "settles (stream_resources s) [] w (snd (snd (copy_to_writer K wr s w)))"
    unfolding copy_to_writer_def c by (rule settles_finish_copy [OF assms stream_op_copy_loop [OF assms c]])
  obtain r wr' s1 w1 where c: "copy_limited_loop K max_bytes 0 wr s w = (r, wr', s1, w1)" by (metis prod_cases4)
  show "settles (stream_resources s) [] w (snd (snd (copy_to_writer_limited K max_bytes wr s w)))"
    unfolding copy_to_writer_limited_def c
    by (rule settles_finish_copy [OF assms stream_op_copy_limited_loop [OF assms c]])
qed

text \<open>
  The contract of the ways to be done with a stream: everything the stream owns is released, once,
  and nothing else is acquired, released, sent or reported.
\<close>

locale stream_consumer =
  fixes ok :: "'s \<Rightarrow> bool" and owns :: "'s \<Rightarrow> resource multiset"
    and finish :: "'s \<Rightarrow> ('h, 'b) world \<Rightarrow> ('h, 'b) world"
  assumes finish_settles: "ok s \<Longrightarrow> settles (owns s) [] w (finish s w)"
begin

lemma finish_balances:
  assumes "ok s" "acquired w1 + released w0 = acquired w0 + released w1 + owns s"
  shows "acquired (finish s w1) + released w0 = acquired w0 + released (finish s w1)"
  using finish_settles [OF assms(1), of w1] assms(2) by (simp add: settles_def ac_simps)

lemma finish_sends_nothing: "ok s \<Longrightarrow> sent (finish s w) = sent w \<and> errors (finish s w) = errors w"
  using finish_settles [of s w] by (simp add: settles_def)

end

interpretation dropped: stream_consumer "stream_ok K" stream_resources "stream_drop K" for K
  by unfold_locales (rule settles_stream_drop)

interpretation collected_bytes: stream_consumer "stream_ok K" stream_resources "\<lambda>s w. snd (into_bytes_limited K max_bytes s w)" for K max_bytes
  by unfold_locales (rule settles_into_bytes_limited)

interpretation collected_response: stream_consumer "stream_ok K" stream_resources "\<lambda>s w. snd (into_response_limited K max_bytes s w)"
  for K max_bytes
  by unfold_locales (rule settles_into_response_limited)

interpretation copied: stream_consumer "stream_ok K" stream_resources "\<lambda>s w. snd (snd (copy_to_writer K wr s w))" for K wr
  by unfold_locales (rule settles_copy_to_writer)

interpretation copied_limited: stream_consumer "stream_ok K" stream_resources "\<lambda>s w. snd (snd (copy_to_writer_limited K max_bytes wr s w))"
  for K max_bytes wr
  by unfold_locales (rule settles_copy_to_writer)

subsection \<open>What a stream delivers\<close>

lemma read_chunk_internal_content:
  assumes "read_chunk_internal K True False s w = (Ok chunk, s', w')" "bs_body s = Some body"
  shows "\<exists>rest. s' = s\<lparr> bs_body := Some rest \<rparr> \<and>
    body_content body = (if chunk = [] then Some [] else map_option ((@) chunk) (body_content rest))"
  using assms read_chunk_loop_ends [OF assms(2), of K False w]
  by (auto simp: read_chunk_internal_def read_ends_def)

lemma ensure_within_no_deadline: "bs_deadline_at s = None \<Longrightarrow> ensure_within_deadline K s w = (Ok (), w)"
  by (simp add: ensure_within_deadline_def)

lemma read_chunk_loop_no_deadline:
  "bs_deadline_at s = None \<Longrightarrow> body_content body = Some bytes \<Longrightarrow>
   \<exists>chunk x. read_chunk_loop K False body s w = (Ok chunk, x)"
proof (induction body arbitrary: s w)
  case Nil
  then show ?case
    by (simp add: read_chunk_loop.simps [of K False "[]"] ensure_within_no_deadline
        current_read_is_deadline_limited_def Let_def)
next
  case (Cons a rest)
  note step = read_chunk_loop.simps [of K False "a # rest" s w]
  note checks = ensure_within_no_deadline current_read_is_deadline_limited_def Let_def
  show ?case
  proof (cases a)
    case ReadInterrupted
    then show ?thesis
      using Cons.IH [of "s\<lparr> bs_body := Some rest \<rparr>" w] Cons.prems unfolding step by (simp add: checks)
  next
    case (ReadChunk bytes')
    then show ?thesis using Cons.prems unfolding step by (simp add: checks)
  next
    case (ReadFailed src)
    then show ?thesis using Cons.prems by simp
  qed
qed

lemma read_chunk_internal_no_deadline:
  assumes "bs_deadline_at s = None" "bs_body s = Some body" "body_content body = Some bytes"
  shows "\<exists>chunk s' w'. read_chunk_internal K True False s w = (Ok chunk, s', w')"
  using read_chunk_loop_no_deadline [OF assms(1,3), of K w] assms(2)
  by (force simp: read_chunk_internal_def)

lemma collect_loop_content:
  assumes "bs_body s = Some body" "n = length bytes" "n \<le> max_bytes" "max_bytes < usize_max"
  shows "(collect_loop K max_bytes bytes n s w = (Ok out, x) \<longrightarrow>
      (\<exists>content. body_content body = Some content \<and> out = bytes @ content \<and> length out \<le> max_bytes)) \<and>
    (bs_deadline_at s = None \<and> body_content body = Some content \<and> n + length content \<le> max_bytes \<longrightarrow>
      fst (collect_loop K max_bytes bytes n s w) = Ok (bytes @ content))"
  using assms
proof (induction K max_bytes bytes n s w arbitrary: body content rule: collect_loop.induct)
  case (1 K max_bytes bytes n s w)
  obtain r s1 w1 where rd: "read_chunk_internal K True False s w = (r, s1, w1)" by (metis prod_cases3)
  note step = collect_loop.simps [of K max_bytes bytes n s w] rd
  show ?case
  proof (cases r)
    case (Err e)
    then have "collect_loop K max_bytes bytes n s w = (Err e, s1, w1)" by (simp add: step)
    then show ?thesis
      using read_chunk_internal_no_deadline [OF _ "1.prems"(1), of content K w] rd Err by auto
  next
    case (Ok chunk)
    obtain rest where s1: "s1 = s\<lparr> bs_body := Some rest \<rparr>"
      and content: "body_content body = (if chunk = [] then Some [] else map_option ((@) chunk) (body_content rest))"
      using read_chunk_internal_content [OF rd [unfolded Ok] "1.prems"(1)] by blast
    show ?thesis
    proof (cases chunk)
      case Nil
      have "collect_loop K max_bytes bytes n s w = (Ok bytes, s1, w1)" using Ok Nil by (simp add: step)
      then show ?thesis using Nil content "1.prems" by auto
    next
      case (Cons c cs)
      let ?n = "usize_add n (length (c # cs))"
      show ?thesis
      proof (cases "?n > max_bytes")
        case True
        then have "n + length (c # cs) > max_bytes" using "1.prems"(4) by (auto simp: sat_add_def)
        moreover have "\<exists>e. fst (collect_loop K max_bytes bytes n s w) = Err e"
          using Ok Cons True by (simp add: step Let_def)
        ultimately show ?thesis using Cons content by auto
      next
        case False
        then have n: "?n = length (bytes @ c # cs)" using "1.prems" by (auto simp: sat_add_def)
        note IH = "1.IH" [OF rd [symmetric] Ok [unfolded Cons] _ _ False, of s1 w1 rest, simplified]
        have loop: "collect_loop K max_bytes bytes n s w = collect_loop K max_bytes (bytes @ c # cs) ?n s1 w1"
          using Ok Cons False by (simp add: step)
        show ?thesis
          unfolding loop using IH [of "drop (length (c # cs)) content"] n False "1.prems" content Cons
          by (auto simp: s1)
      qed
    qed
  qed
qed

lemma fst_into_bytes_limited: "fst (into_bytes_limited K max_bytes s w) = fst (collect_loop K max_bytes [] 0 s w)"
  by (auto simp: into_bytes_limited_def split_def Let_def split: result.splits)

end
