(* ===== verification/Reqx_BlockingProofs.thy ===== *)
theory Reqx_BlockingProofs
  imports Reqx_Blocking Reqx_BlockingStreamProofs
begin

text \<open>
  The properties of the blocking client's loop. Every step of a request is described by what it adds
  to the log: \<open>settles\<close> for a step that releases resources and reports errors, \<open>ends_attempt\<close> for what
  follows the admission of an attempt. The steps of an attempt are composed with the rules below and
  the attempts by induction over the loop.
\<close>

subsection \<open>Steps that leave no trace\<close>

lemma quiet_oracles:
  "sample_now K w = (sample, w') \<Longrightarrow> quiet w w'"
  "run_request_interceptors K context hs w = (hs', w') \<Longrightarrow> quiet w w'"
  by (auto simp: sample_now_def run_request_interceptors_def)

lemma quiet_log_events [simp]:
  "quiet w (run_response_interceptors context s hs w)" "quiet w (run_request_start_observers context w)"
  "quiet w (run_retry_observers context decision delay w)"
  "quiet w (run_server_throttle_observers context scope delay w)" "quiet w (thread_sleep K d w)"
  by (simp_all add: settles_def run_response_interceptors_def run_request_start_observers_def
      run_retry_observers_def run_server_throttle_observers_def collected_def)
     (simp_all add: thread_sleep_def tick_def log_event_def)

lemma settles_error [simp]: "settles {#} [e] w (run_error_interceptors context e w)"
  by (simp add: run_error_interceptors_def settles_def)

lemma settles_exit_scope:
  "settles (guard_resources g + host_resources h) [] w (exit_scope K g h w)"
  unfolding exit_scope_def using settles_trans [OF settles_guards(4) settles_permits(2)] by simp

lemma quiet_try_consume: "try_consume_retry_budget K meth uri w = (r, w') \<Longrightarrow> quiet w w'"
  by (auto simp: try_consume_retry_budget_def split_def Let_def settles_def collected_def
      split: option.splits)

lemma quiet_observe_server_throttle [simp]:
  "quiet w (observe_server_throttle K context s hs host d w)"
  by (auto simp: observe_server_throttle_def split_def Let_def settles_def collected_def
      run_server_throttle_observers_def)

subsection \<open>The reports of errors\<close>

fun failed :: "('a, 'h error) result \<Rightarrow> 'h error list" where
  "failed (Ok _) = []"
| "failed (Err e) = [e]"

lemma settles_prepare_retry:
  assumes "prepare_retry K ra context decision delay w = (r, attempt, w')"
  shows "settles {#} (failed r) w w'"
proof -
  obtain now w1 where n: "instant_now K w = (now, w1)" by force
  obtain r2 a2 w2 where p:
      "prepare_retry_schedule now ra decision delay (try_consume_retry_budget K) w1 = (r2, a2, w2)"
    by (metis prod_cases3)
  have "quiet w1 w2"
    using p by (auto simp: prepare_retry_schedule_def quiet_try_consume split: if_splits option.splits
        prod.splits result.splits)
  then have q: "quiet w w2" using quiet_readings(1) [OF n] quiet_settles by blast
  show ?thesis
  proof (cases r2)
    case (Err e)
    then show ?thesis using assms n p quiet_settles [OF q settles_error] by (auto simp: prepare_retry_def)
  next
    case (Ok sch)
    then show ?thesis
      using assms n p q quiet_settles [OF q quiet_settles [OF quiet_basic(4) quiet_log_events(3)]]
      by (cases sch) (auto simp: prepare_retry_def)
  qed
qed

lemma settles_prepare_status_retry:
  assumes "prepare_status_retry K st context s hs w = (r, st', w')"
  shows "settles {#} (failed r) w w' \<and> (\<exists>attempt. st' = st\<lparr> es_attempt := attempt \<rparr>)"
proof -
  obtain t w1 where n: "now_system K w = (t, w1)" by force
  obtain f w2 where f: "sample_now K w1 = (f, w2)" by force
  have "quiet w w2" using quiet_readings(3) [OF n] quiet_oracles(1) [OF f] quiet_settles by blast
  then show ?thesis
    using assms n f quiet_settles [OF _ settles_prepare_retry]
    by (auto simp: prepare_status_retry_def Let_def split: prod.splits)
qed

lemma settles_check_body_deadline:
  assumes "check_body_deadline K b w = (e, w')"
  shows "settles {#} (case e of None \<Rightarrow> [] | Some e \<Rightarrow> [e]) w w'"
proof -
  obtain now w1 where n: "instant_now K w = (now, w1)" by force
  show ?thesis
    using assms n quiet_readings(1) [OF n] quiet_settles [OF quiet_readings(1) [OF n] settles_error]
    by (auto simp: check_body_deadline_def Let_def split: option.splits)
qed

lemma settles_decode_response_body:
  "decode_response_body_limited K body hs max_bytes s context w = (r, w') \<Longrightarrow> settles {#} (failed r) w w'"
  by (auto simp: decode_response_body_limited_def Let_def split: if_splits result.splits)

lemma settles_handle_body_read_failure:
  assumes "handle_body_read_failure K b failure w = (r, attempt, w')"
  shows "settles {#} (failed r) w w'"
proof (cases failure)
  case (BodyRead_Terminal e)
  then show ?thesis using assms by (auto simp: handle_body_read_failure_def)
next
  case (BodyRead_Retryable e plan)
  obtain r1 a w1 where p: "prepare_retry K (br_retry_attempt b) (br_context b) (plan_decision plan)
      (plan_delay plan) w = (r1, a, w1)"
    by (metis prod_cases3)
  show ?thesis
    using assms BodyRead_Retryable p settles_prepare_retry [OF p] quiet_settles [OF _ settles_error]
    by (cases r1) (auto simp: handle_body_read_failure_def split: retry_schedule.splits)
qed

lemma settles_read_response_body:
  assumes "read_response_body_with_retry K response b w = (r, attempt, w')"
  shows "settles {#} (failed r) w w'"
proof -
  obtain f w1 where f: "sample_now K w = (f, w1)" by force
  obtain now w2 where n: "instant_now K w1 = (now, w2)" by force
  have "quiet w w2" using quiet_oracles(1) [OF f] quiet_readings(1) [OF n] quiet_settles by blast
  then show ?thesis
    using assms f n quiet_settles [OF _ settles_handle_body_read_failure]
    by (auto simp: read_response_body_with_retry_def Let_def split: result.splits read_body_error.splits)
qed

lemma settles_read_decoded_response_body:
  assumes "read_decoded_response_body_with_retry K response hs s b w = (r, hs', attempt, w')"
  shows "settles {#} (failed r) w w'"
proof -
  obtain e1 w1 where c1: "check_body_deadline K b w = (e1, w1)" by force
  obtain r2 a2 w2 where r2: "read_response_body_with_retry K response b w1 = (r2, a2, w2)"
    by (metis prod_cases3)
  obtain e3 w3 where c3: "check_body_deadline K b w2 = (e3, w3)" by force
  note q1 = settles_check_body_deadline [OF c1] and q2 = settles_read_response_body [OF r2]
    and q3 = settles_check_body_deadline [OF c3]
  note def = read_decoded_response_body_with_retry_def
  consider (early) e where "e1 = Some e"
    | (read) "e1 = None" "\<nexists>body. r2 = Ok (BodyRead_Body body)"
    | (late) body e where "e1 = None" "r2 = Ok (BodyRead_Body body)" "e3 = Some e"
    | (decode) body where "e1 = None" "r2 = Ok (BodyRead_Body body)" "e3 = None"
    by (cases e1; cases e3; cases r2) auto
  then show ?thesis
  proof cases
    case early
    then show ?thesis using assms c1 q1 by (auto simp: def)
  next
    case read
    then show ?thesis
      using assms c1 r2 quiet_settles [OF q1 [unfolded read(1), simplified] q2]
      by (auto simp: def split: result.splits body_read_outcome.splits)
  next
    case late
    then show ?thesis
      using assms c1 r2 c3 q1 q2 q3 by (auto simp: def intro: quiet_settles)
  next
    case (decode body)
    obtain r4 w4 where r4: "decode_response_body_limited K body hs (br_max_response_body_bytes b) s
        (br_context b) w3 = (r4, w4)" by force
    obtain e5 w5 where c5: "check_body_deadline K b w4 = (e5, w5)" by force
    have "quiet w w3" using decode q1 q2 q3 by (auto intro: quiet_settles)
    then have q4: "settles {#} (failed r4) w w4"
      using settles_decode_response_body [OF r4] quiet_settles by blast
    show ?thesis
      using assms decode c1 r2 c3 r4 c5 q4 quiet_settles [OF _ settles_check_body_deadline [OF c5]]
      by (auto simp: def split: result.splits option.splits)
  qed
qed

subsection \<open>How an attempt ends\<close>

text \<open>The stream of a response owns \<open>owns s\<close>; the definitions serve both clients.\<close>

fun result_owns ::
    "('s \<Rightarrow> resource multiset) \<Rightarrow> (('h, 's) retry_response, 'h error) result \<Rightarrow> resource multiset" where
  "result_owns owns (Ok (Response_Stream s)) = owns s"
| "result_owns owns _ = {#}"

fun it_owns ::
    "('s \<Rightarrow> resource multiset) \<Rightarrow> unit option \<Rightarrow> ('h, 'u, 'b, 's) iteration \<Rightarrow> resource multiset" where
  "it_owns owns global_permit (Iter_Continue _ _) = global_resources global_permit"
| "it_owns owns global_permit (Iter_Return r left) = result_owns owns r + global_resources left"

abbreviation result_resources ::
    "(('h, 'b) blocking_retry_response, 'h error) result \<Rightarrow> resource multiset" where
  "result_resources \<equiv> result_owns stream_resources"

abbreviation it_resources :: "unit option \<Rightarrow> ('h, 'u, 'b) blocking_iteration \<Rightarrow> resource multiset" where
  "it_resources \<equiv> it_owns stream_resources"

fun it_errors :: "('h, 'u, 'b, 's) iteration \<Rightarrow> 'h error list" where
  "it_errors (Iter_Continue _ _) = []"
| "it_errors (Iter_Return r _) = failed r"

text \<open>
  The end of an attempt that holds guards and permits: each is released exactly once or moves on
  with the result, and exactly the error that is returned is reported.
\<close>

definition attempt_ends ::
    "('s \<Rightarrow> resource multiset) \<Rightarrow> guards \<Rightarrow> nat option \<Rightarrow> unit option \<Rightarrow> ('h, 'b) world \<Rightarrow>
     ('h, 'u, 'b, 's) iteration \<times> ('h, 'b) world \<Rightarrow> bool" where
  "attempt_ends owns g host_permit global_permit w x \<longleftrightarrow>
     (\<exists>rel. settles rel (it_errors (fst x)) w (snd x) \<and>
       rel + it_owns owns global_permit (fst x) =
         guard_resources g + host_resources host_permit + global_resources global_permit)"

abbreviation ends_attempt ::
    "guards \<Rightarrow> nat option \<Rightarrow> unit option \<Rightarrow> ('h, 'b) world \<Rightarrow> ('h, 'u, 'b) blocking_iteration \<times> ('h, 'b) world \<Rightarrow> bool" where
  "ends_attempt \<equiv> attempt_ends stream_resources"

lemma ends_attempt_quiet:
  "quiet w w' \<Longrightarrow> attempt_ends owns g h gp w' x \<Longrightarrow> attempt_ends owns g h gp w x"
  unfolding attempt_ends_def using quiet_settles by blast

lemma ends_attempt_settled:
  assumes "settles (guard_resources g) [] w w'" "attempt_ends owns no_guards h gp w' x"
  shows "attempt_ends owns g h gp w x"
proof -
  obtain rel where "settles rel (it_errors (fst x)) w' (snd x)"
      "rel + it_owns owns gp (fst x) = host_resources h + global_resources gp"
    using assms(2) by (auto simp: attempt_ends_def)
  then show ?thesis
    using settles_trans [OF assms(1)] by (fastforce simp: attempt_ends_def ac_simps)
qed

lemma ends_attempt_return_error: "attempt_ends owns g h gp w (return_error K context g h gp e w)"
  using settles_trans [OF settles_error [of e w "context"] settles_exit_scope [of g h _ K]]
  by (force simp: attempt_ends_def return_error_def)

lemma ends_attempt_failed:
  assumes "settles (guard_resources g) [e] w w'"
  shows "attempt_ends owns g h gp w (Iter_Return (Err e) gp, exit_scope K no_guards h w')"
  using settles_trans [OF assms settles_exit_scope [of no_guards h _ K]] by (force simp: attempt_ends_def)

lemma ends_attempt_continue_after: "ends_attempt no_guards h gp w (continue_after K no_guards h d st body w)"
proof -
  let ?w1 = "host_permit_drop K h w" and ?w2 = "if d \<noteq> 0 then thread_sleep K d (host_permit_drop K h w)
    else host_permit_drop K h w"
  have "settles (host_resources h) [] w ?w2"
    using settles_quiet [OF settles_permits(2) quiet_log_events(5)] settles_permits(2) [of h w K] by auto
  from settles_trans [OF this settles_guards(4) [of no_guards]] show ?thesis
    by (auto simp: attempt_ends_def continue_after_def Let_def)
qed

lemma record_failure_for_retry_schedule_cases:
  assumes "record_failure_for_retry_schedule (circuit_outcome K) (adaptive_outcome K) r g w = (r', g', w')"
  shows "r' = r \<and> (if r = Ok NotScheduled then g' = g \<and> w' = w
    else g' = no_guards \<and> settles (guard_resources g) [] w w')"
proof -
  obtain w1 where "guards_mark_failure (circuit_outcome K) (adaptive_outcome K) g w = (no_guards, w1)"
      "settles (guard_resources g) [] w w1"
    by (rule that [OF guards_eq(2) settles_guards(2)])
  then show ?thesis
    using assms
    by (auto simp: record_failure_for_retry_schedule_def split: result.splits retry_schedule.splits)
qed

lemma record_failure_on_error_cases:
  assumes "record_failure_on_error (circuit_outcome K) (adaptive_outcome K) r g w = (r', g', w')"
  shows "r' = r \<and> (if is_ok r then g' = g \<and> w' = w
    else g' = no_guards \<and> settles (guard_resources g) [] w w')"
proof -
  obtain w1 where "guards_mark_failure (circuit_outcome K) (adaptive_outcome K) g w = (no_guards, w1)"
      "settles (guard_resources g) [] w w1"
    by (rule that [OF guards_eq(2) settles_guards(2)])
  then show ?thesis using assms by (auto simp: record_failure_on_error_def split: result.splits)
qed

lemma ends_attempt_marked:
  assumes "\<And>w'. attempt_ends owns no_guards h gp w' (f (no_guards, w'))"
  shows "attempt_ends owns g h gp w (f (guards_mark_success (circuit_outcome K) (adaptive_outcome K) g w))"
    "attempt_ends owns g h gp w (f (guards_mark_failure (circuit_outcome K) (adaptive_outcome K) g w))"
    "attempt_ends owns g h gp w (f (guards_cancel (circuit_outcome K) (adaptive_outcome K) g w))"
  by (subst guards_eq, rule ends_attempt_settled [OF settles_guards(1) assms])
     (subst guards_eq, rule ends_attempt_settled [OF settles_guards(2) assms],
      subst guards_eq, rule ends_attempt_settled [OF settles_guards(3) assms])

lemma ends_attempt_mark_error:
  "attempt_ends owns g h gp w (case guards_mark_failure (circuit_outcome K) (adaptive_outcome K) g w of
     (g, w) \<Rightarrow> return_error K context g h gp e w)"
  "attempt_ends owns g h gp w (case guards_cancel (circuit_outcome K) (adaptive_outcome K) g w of
     (g, w) \<Rightarrow> return_error K context g h gp e w)"
  "attempt_ends owns g h gp w (case disposition_apply (circuit_outcome K) (adaptive_outcome K) d g w of
     (g, w) \<Rightarrow> return_error K context g h gp e w)"
proof -
  show 1: "attempt_ends owns g h gp w (case guards_mark_failure (circuit_outcome K) (adaptive_outcome K) g w of
     (g, w) \<Rightarrow> return_error K context g h gp e w)"
    by (rule ends_attempt_marked(2)) (simp add: ends_attempt_return_error)
  show 2: "attempt_ends owns g h gp w (case guards_cancel (circuit_outcome K) (adaptive_outcome K) g w of
     (g, w) \<Rightarrow> return_error K context g h gp e w)"
    by (rule ends_attempt_marked(3)) (simp add: ends_attempt_return_error)
  from 1 2 show "attempt_ends owns g h gp w (case disposition_apply (circuit_outcome K) (adaptive_outcome K) d g w of
     (g, w) \<Rightarrow> return_error K context g h gp e w)"
    by (cases d) (simp_all add: disposition_apply_def)
qed

text \<open>The three ways on from a retry that was asked for.\<close>

lemma ends_attempt_retry:
  assumes sch: "settles {#} (failed r) w0 w"
    and rec: "record_failure_for_retry_schedule (circuit_outcome K) (adaptive_outcome K) r g w = (r', g', w')"
    and next_step: "r = Ok NotScheduled \<Longrightarrow> ends_attempt g h gp w (x g w)"
  shows "ends_attempt g h gp w0 (case r' of
      Err e \<Rightarrow> (Iter_Return (Err e) gp, exit_scope K g' h w')
    | Ok (Scheduled delay) \<Rightarrow> continue_after K g' h delay st body w'
    | Ok NotScheduled \<Rightarrow> x g' w')"
proof (cases r)
  case (Err e)
  with record_failure_for_retry_schedule_cases [OF rec] sch show ?thesis
    using ends_attempt_failed [of g e w0 w'] settles_trans [of "{#}" "[e]" w0 w "guard_resources g" "[]" w']
    by simp
next
  case (Ok sc)
  then have q: "quiet w0 w" using sch by simp
  show ?thesis
  proof (cases sc)
    case NotScheduled
    then show ?thesis
      using record_failure_for_retry_schedule_cases [OF rec] Ok next_step ends_attempt_quiet [OF q] by simp
  next
    case (Scheduled d)
    then show ?thesis
      using record_failure_for_retry_schedule_cases [OF rec] Ok
        ends_attempt_quiet [OF q ends_attempt_settled [OF _ ends_attempt_continue_after], of g w' h gp]
      by simp
  qed
qed

lemma ends_attempt_transport_failed:
  "ends_attempt g h gp w (transport_failed K st body gp context g h e t w)"
proof -
  obtain now w1 where n: "instant_now K w = (now, w1)" by force
  obtain f w2 where f: "sample_now K w1 = (f, w2)" by force
  note start = transport_failed_def Let_def n f
  have "quiet w w2" using quiet_readings(1) [OF n] quiet_oracles(1) [OF f] quiet_settles by blast
  moreover have "ends_attempt g h gp w2 (transport_failed K st body gp context g h e t w)"
  proof (cases "transport_failure_plan_of f (ci_backoff_source K) st (transport_failure_error now st t e)")
    case (Plan_Retry plan)
    obtain r a w3 where p: "prepare_retry K (es_retry_attempt st) context (plan_decision plan)
        (plan_delay plan) w2 = (r, a, w3)" by (metis prod_cases3)
    obtain r' g' w4 where rec: "record_failure_for_retry_schedule (circuit_outcome K) (adaptive_outcome K)
        r g w3 = (r', g', w4)" by (metis prod_cases3)
    have eq: "transport_failed K st body gp context g h e t w = (case r' of
        Err e \<Rightarrow> (Iter_Return (Err e) gp, exit_scope K g' h w4)
      | Ok (Scheduled delay) \<Rightarrow> continue_after K g' h delay (st\<lparr> es_attempt := a \<rparr>) body w4
      | Ok NotScheduled \<Rightarrow> (case guards_mark_failure (circuit_outcome K) (adaptive_outcome K) g' w4 of
          (g, w) \<Rightarrow> return_error K context g h gp (transport_failure_error now st t e) w))"
      unfolding transport_failed_def Let_def by (simp add: n f Plan_Retry p rec)
    show ?thesis
      unfolding eq
      by (rule ends_attempt_retry [OF settles_prepare_retry [OF p] rec]) (rule ends_attempt_mark_error)
  next
    case (Plan_Terminal d)
    then show ?thesis using ends_attempt_mark_error(3) by (simp add: start)
  qed
  ultimately show ?thesis by (rule ends_attempt_quiet)
qed

lemma into_stream_lifecycle_cases:
  assumes "into_stream_lifecycle (circuit_outcome K) (adaptive_outcome K) budget completion g w = (hooks, g', w')"
  shows "\<exists>rel. settles rel [] w w' \<and>
    rel + guard_resources g' + (case hooks of None \<Rightarrow> {#} | Some h \<Rightarrow> guard_resources (sh_attempts h)) =
      guard_resources g"
proof -
  obtain w1 where "guards_mark_failure (circuit_outcome K) (adaptive_outcome K) g w = (no_guards, w1)"
      "settles (guard_resources g) [] w w1"
    by (rule that [OF guards_eq(2) settles_guards(2)])
  then show ?thesis
    using assms quiet_refl [of w]
    by (auto simp: into_stream_lifecycle_def guards_take_def Let_def split: request_completion.splits if_splits)
qed

lemma ends_attempt_return_stream:
  "ends_attempt g h gp w (return_stream K completion st gp g h response t w)"
proof -
  obtain hooks g' w' where l: "into_stream_lifecycle (circuit_outcome K) (adaptive_outcome K)
      (budget_record_success K) completion g w = (hooks, g', w')"
    by (metis prod_cases3)
  obtain rel where rel: "settles rel [] w w'"
      "rel + guard_resources g' + (case hooks of None \<Rightarrow> {#} | Some h \<Rightarrow> guard_resources (sh_attempts h)) =
        guard_resources g"
    using into_stream_lifecycle_cases [OF l] by blast
  have "settles (rel + guard_resources g') [] w (guards_drop K g' w')"
    using settles_trans [OF rel(1) settles_guards(4)] by simp
  then show ?thesis
    using rel(2) l
    by (force simp: attempt_ends_def return_stream_def stream_response_def stream_resources_def lifecycle_resources_def
        live_lifecycle_of_def ac_simps)
qed

lemma record_attempt_cases:
  "\<exists>w1. record_attempt (circuit_outcome K) (adaptive_outcome K) completion g w = (no_guards, w1) \<and>
     settles (guard_resources g) [] w w1"
  unfolding record_attempt_def
  by (cases completion; simp only: request_completion.case; intro exI conjI; rule guards_eq settles_guards)

lemma record_completed_cases:
  assumes "record_completed (circuit_outcome K) (adaptive_outcome K) (budget_record_success K) completion g w = (g', w')"
  shows "g' = no_guards \<and> settles (guard_resources g) [] w w'"
proof -
  obtain w1 where m: "record_attempt (circuit_outcome K) (adaptive_outcome K) completion g w = (no_guards, w1)"
      "settles (guard_resources g) [] w w1"
    using record_attempt_cases by blast
  then show ?thesis
    using assms settles_quiet [OF m(2) quiet_silent [OF silent_budget_record_success]]
    by (auto simp: record_completed_def split: request_completion.splits option.splits)
qed

lemma ends_attempt_return_response:
  "attempt_ends owns g h gp w (return_response K completion gp g h s hs body w)"
proof -
  obtain g' w' where c: "record_completed (circuit_outcome K) (adaptive_outcome K) (budget_record_success K)
      completion g w = (g', w')" by force
  note c' = record_completed_cases [OF c]
  then show ?thesis
    using c settles_trans [of "guard_resources g" "[]" w w' _ _ _, OF _ settles_exit_scope [of no_guards h w' K]]
    by (force simp: attempt_ends_def return_response_def)
qed

lemma ends_attempt_complete_error:
  "attempt_ends owns g h gp w (case record_completed (circuit_outcome K) (adaptive_outcome K)
     (budget_record_success K) completion g w of (g, w) \<Rightarrow> return_error K context g h gp e w)"
proof -
  obtain g' w' where c: "record_completed (circuit_outcome K) (adaptive_outcome K) (budget_record_success K)
      completion g w = (g', w')" by force
  note settled = record_completed_cases [OF c]
  show ?thesis
    using c settled ends_attempt_settled [OF settled [THEN conjunct2] ends_attempt_return_error] by simp
qed

lemma ends_attempt_read_and_finish:
  "ends_attempt g h gp w (read_and_finish K mode st body gp context g h response w)"
proof -
  obtain now w1 where n: "instant_now K w = (now, w1)" by force
  have "ends_attempt g h gp w1 (read_and_finish K mode st body gp context g h response w)"
  proof (cases "es_phase_timeout now st")
    case None
    then show ?thesis using n ends_attempt_mark_error(1) by (simp add: read_and_finish_def Let_def)
  next
    case (Some rt)
    obtain r hs a w2 where rd: "read_decoded_response_body_with_retry K response (hr_headers response)
        (hr_status response) (es_body_read_retry_context context rt st) w1 = (r, hs, a, w2)"
      by (metis prod_cases4)
    obtain r' g' w3 where rec: "record_failure_on_error (circuit_outcome K) (adaptive_outcome K) r g w2 =
        (r', g', w3)" by (metis prod_cases3)
    note rec' = record_failure_on_error_cases [OF rec] and q = settles_read_decoded_response_body [OF rd]
    note def = read_and_finish_def Let_def n Some rd rec
    show ?thesis
    proof (cases r)
      case (Err e)
      then have "r' = Err e" "g' = no_guards" "settles (guard_resources g) [e] w1 w3"
        using rec' q settles_trans [of "{#}" "[e]" w1 w2 "guard_resources g" "[]" w3] by simp_all
      then show ?thesis using ends_attempt_failed [of g e w1 w3 stream_resources h gp K] by (simp add: def)
    next
      case (Ok out)
      then have q1: "quiet w1 w2" and same: "r' = Ok out" "g' = g" "w3 = w2" using rec' q by auto
      show ?thesis
      proof (cases out)
        case (BodyRead_Retry d)
        have "ends_attempt g h gp w2 (case guards_mark_failure (circuit_outcome K) (adaptive_outcome K) g w2 of
            (g, w) \<Rightarrow> continue_after K g h d (st\<lparr> es_attempt := a \<rparr>) body w)"
          by (rule ends_attempt_marked(2)) (simp add: ends_attempt_continue_after)
        then show ?thesis using same BodyRead_Retry ends_attempt_quiet [OF q1] by (simp add: def)
      next
        case (BodyRead_Body bytes)
        show ?thesis
          using same BodyRead_Body unfolding read_and_finish_def Let_def
          by (simp add: n Some rd rec ends_attempt_quiet [OF q1 ends_attempt_return_response]
              ends_attempt_quiet [OF q1 ends_attempt_complete_error])
      qed
    qed
  qed
  with quiet_readings(1) [OF n] show ?thesis by (rule ends_attempt_quiet)
qed

lemma ends_attempt_handle_non_success:
  "ends_attempt g h gp w (handle_non_success K mode st body gp context g h response t w)"
proof -
  let ?s = "hr_status response" and ?hs = "hr_headers response"
  obtain f w1 where f: "sample_now K w = (f, w1)" by force
  define w2 where "w2 = observe_server_throttle K context ?s ?hs (rate_limit_host (li_uris K) st)
    (es_retry_backoff f (ci_backoff_source K) st) w1"
  obtain r st' w3 where p: "prepare_status_retry K st context ?s ?hs w2 = (r, st', w3)" by (metis prod_cases3)
  obtain r' g' w4 where rec: "record_failure_for_retry_schedule (circuit_outcome K) (adaptive_outcome K)
      r g w3 = (r', g', w4)" by (metis prod_cases3)
  have q: "quiet w w2"
    using quiet_settles [OF quiet_oracles(1) [OF f] quiet_observe_server_throttle] by (simp add: w2_def)
  let ?x = "\<lambda>g w. if is_stream mode \<and> es_should_return_non_success_response st'
    then return_stream K (non_success_completion st' ?s) st' gp g h response t w
    else read_and_finish K mode st' body gp context g h response w"
  have "handle_non_success K mode st body gp context g h response t w = (case r' of
      Err e \<Rightarrow> (Iter_Return (Err e) gp, exit_scope K g' h w4)
    | Ok (Scheduled delay) \<Rightarrow> continue_after K g' h delay st' body w4
    | Ok NotScheduled \<Rightarrow> ?x g' w4)"
    using p unfolding handle_non_success_def Let_def by (simp add: f rec w2_def)
  then show ?thesis
    using ends_attempt_quiet [OF q ends_attempt_retry [OF
        settles_prepare_status_retry [OF p, THEN conjunct1] rec, of h gp ?x]]
    by (simp add: ends_attempt_return_stream ends_attempt_read_and_finish)
qed

lemma ends_attempt_handle_response:
  "ends_attempt g h gp w (handle_response K mode st body gp context g h response t w)"
proof -
  let ?s = "hr_status response" and ?hs = "hr_headers response"
  let ?w = "run_response_interceptors context ?s ?hs w"
  note later = ends_attempt_quiet [OF quiet_log_events(1) [of w "context" ?s ?hs]]
  show ?thesis
  proof (cases "es_next_redirect_action (li_headers K) (li_uris K) (li_urls K) st ?s ?hs")
    case (Err e)
    then show ?thesis unfolding handle_response_def Let_def by (simp add: ends_attempt_mark_error)
  next
    case (Ok act)
    show ?thesis
    proof (cases act)
      case None
      then show ?thesis
        using Ok unfolding handle_response_def Let_def
        by (simp add: later ends_attempt_return_stream ends_attempt_read_and_finish
            ends_attempt_handle_non_success)
    next
      case (Some a)
      have end_rule: "ends_attempt no_guards h gp w' (Iter_Continue st' b, exit_scope K no_guards h w')"
        for w' :: "('a, 'b) world" and st' :: "('a, 'c) request_execution_state" and b
        using settles_exit_scope [of no_guards h w' K] by (auto simp: attempt_ends_def)
      have "ends_attempt g h gp ?w (case guards_mark_success (circuit_outcome K) (adaptive_outcome K) g ?w of
          (g, w) \<Rightarrow> (case apply_redirect (li_headers K) a (ci_retry_eligibility K) st of (drops_body, st) \<Rightarrow>
            (Iter_Continue st (if drops_body then request_body_default else body), exit_scope K g h w)))"
        by (rule ends_attempt_marked(1)) (simp add: split_def end_rule)
      from later [OF this] show ?thesis
        using Ok Some unfolding handle_response_def Let_def by simp
    qed
  qed
qed

end
