(* ===== verification/Reqx_Attempts.thy ===== *)
theory Reqx_Attempts
  imports Reqx_Blocking
begin

text \<open>
  The sequence of attempts that both clients make, as the states of \<open>Reqx_Execution\<close> allow it: after an
  attempt a request goes on with a scheduled retry or a followed redirect. The locale
  \<open>attempt_requests\<close> is the contract of what a client sends from a state; the bounds on the requests of a
  loop are proved in it once and hold for every client that keeps to it.
\<close>

subsection \<open>How a request goes on\<close>

definition retried ::
    "('h, 'v, 'u, 'w, 'n, 'b) client \<Rightarrow> ('h, 'u) request_execution_state \<Rightarrow>
     ('h, 'u) request_execution_state \<Rightarrow> bool" where
  "retried K st st' \<longleftrightarrow> (\<exists>now decision delay d attempt s s'.
     prepare_retry_schedule now (es_retry_attempt st) decision delay (try_consume_retry_budget K)
       (s :: ('h, 'b) world) = (Ok (Scheduled d), attempt, s') \<and> st' = st\<lparr> es_attempt := attempt \<rparr>)"

definition redirected ::
    "('h, 'v, 'u, 'w, 'n, 'b) client \<Rightarrow> ('h, 'u) request_execution_state \<Rightarrow> 'b request_body \<Rightarrow>
     ('h, 'u) request_execution_state \<Rightarrow> 'b request_body \<Rightarrow> bool" where
  "redirected K st body st' body' \<longleftrightarrow> (\<exists>s headers act.
     es_next_redirect_action (li_headers K) (li_uris K) (li_urls K) st s headers = Ok (Some act) \<and>
     st' = snd (apply_redirect (li_headers K) act (ci_retry_eligibility K) st) \<and>
     body' = (if act_drops_body act then request_body_default else body))"

definition goes_on_with ::
    "('h, 'v, 'u, 'w, 'n, 'b) client \<Rightarrow> ('h, 'u) request_execution_state \<Rightarrow> 'b request_body \<Rightarrow>
     ('h, 'u) request_execution_state \<Rightarrow> 'b request_body \<Rightarrow> bool" where
  "goes_on_with K st body st' body' \<longleftrightarrow> retried K st st' \<and> body' = body \<or> redirected K st body st' body'"

definition goes_on ::
    "('h, 'v, 'u, 'w, 'n, 'b) client \<Rightarrow> ('h, 'u) request_execution_state \<Rightarrow> 'b request_body \<Rightarrow>
     ('h, 'u, 'b, 's) iteration \<Rightarrow> bool" where
  "goes_on K st body it = (case it of
     Iter_Return _ _ \<Rightarrow> True | Iter_Continue st' body' \<Rightarrow> goes_on_with K st body st' body')"

lemma goes_on_simps [simp]:
  "goes_on K st body (Iter_Return r left)"
  "goes_on K st body (Iter_Continue st' body') \<longleftrightarrow> goes_on_with K st body st' body'"
  "goes_on K st body (fst (return_error K' context g h gp e w))"
  "goes_on K st body (fst (return_response K' completion gp g h s hs b w))"
  by (simp_all add: goes_on_def return_error_def return_response_def split_def Let_def)

lemma goes_on_case [simp]:
  "(\<And>g w. goes_on K st body (fst (f g w))) \<Longrightarrow> goes_on K st body (fst (case x of (g, w) \<Rightarrow> f g w))"
  by (cases x) simp

lemma goes_on_with_intros [simp, intro]:
  "retried K st st' \<Longrightarrow> goes_on_with K st body st' body"
  "redirected K st body st' body' \<Longrightarrow> goes_on_with K st body st' body'"
  by (simp_all add: goes_on_with_def)

subsection \<open>Reachable states\<close>

abbreviation reachable ::
    "('h, 'v, 'u, 'w, 'n, 'b) client \<Rightarrow> ('h, 'u, 'b request_body) retry_request_input \<Rightarrow> nat \<Rightarrow> nat \<Rightarrow>
     ('h, 'u) request_execution_state \<Rightarrow> bool" where
  "reachable K input \<equiv> execution_reachable (li_headers K) (li_uris K) (li_urls K) (ci_retry_eligibility K)
     (try_consume_retry_budget K) input"

definition valid_limits :: "request_execution_options \<Rightarrow> bool" where
  "valid_limits ops \<longleftrightarrow> 1 \<le> rp_max_attempts (op_retry_policy ops) \<and>
     redirect_max_redirects (op_redirect_policy ops) \<le> usize_max"

definition body_ok ::
    "('h, 'u, 'b request_body) retry_request_input \<Rightarrow> ('h, 'u) request_execution_state \<Rightarrow> 'b request_body \<Rightarrow> bool" where
  "body_ok input st body \<longleftrightarrow> es_body_replayable st = is_replayable body \<and>
     (body = ri_body input \<or> body = request_body_default)"

lemma take_for_attempt_replayable: "is_replayable body \<Longrightarrow> take_for_attempt body = (body, body)"
  by (auto simp: is_replayable_def take_for_attempt_def split: request_body.splits)

lemma fst_take_for_attempt [simp]: "fst (take_for_attempt body) = body"
  by (auto simp: take_for_attempt_def split: request_body.splits)

lemma reachable_goes_on:
  fixes K :: "('h, 'v, 'u, 'w, 'n, 'b) client"
  assumes "reachable K input i j st" "body_ok input st body" "valid_limits (ri_execution_options input)"
    and "goes_on_with K st (snd (take_for_attempt body)) st' body'"
  shows "\<exists>i' j'. i' + j' = Suc (i + j) \<and> reachable K input i' j' st' \<and> body_ok input st' body' \<and>
    is_replayable body'"
proof -
  have inv: "execution_inv (ri_execution_options input) i j st"
    using execution_inv_reachable [OF assms(1)] assms(3) by (simp add: valid_limits_def)
  from assms(4) consider (retry) "retried K st st'" "body' = snd (take_for_attempt body)"
    | (redirect) "redirected K st (snd (take_for_attempt body)) st' body'"
    by (auto simp: goes_on_with_def)
  then show ?thesis
  proof cases
    case retry
    then obtain now decision delay d attempt and s s' :: "('h, 'b) world" where
        sch: "prepare_retry_schedule now (es_retry_attempt st) decision delay (try_consume_retry_budget K) s =
          (Ok (Scheduled d), attempt, s')" and st': "st' = st\<lparr> es_attempt := attempt \<rparr>"
      by (auto simp: retried_def)
    have "es_body_replayable st"
      using prepare_retry_schedule_Scheduled(1) [OF sch] inv by (auto simp: execution_inv_def es_retry_attempt_def)
    then have "body_ok input st' body'" "is_replayable body'"
      using assms(2) retry(2) take_for_attempt_replayable [of body] st' by (auto simp: body_ok_def)
    moreover have "reachable K input (Suc i) j st'"
      unfolding st' by (rule execution_reachable.retry [OF assms(1) sch])
    ultimately show ?thesis by (metis add_Suc)
  next
    case redirect
    then obtain s hs act where act: "es_next_redirect_action (li_headers K) (li_uris K) (li_urls K) st s hs = Ok (Some act)"
      and st': "st' = snd (apply_redirect (li_headers K) act (ci_retry_eligibility K) st)"
      and body': "body' = (if act_drops_body act then request_body_default else snd (take_for_attempt body))"
      by (auto simp: redirected_def)
    have "es_body_replayable st \<or> act_drops_body act"
      using next_redirect_action_Some(5) [OF act [unfolded es_next_redirect_action_def]] by simp
    then have "body_ok input st' body' \<and> is_replayable body'"
      using assms(2) take_for_attempt_replayable [of body]
      by (auto simp: body_ok_def body' st' apply_redirect_sel) (simp_all add: is_replayable_def request_body_default_def)
    moreover have "reachable K input i (Suc j) st'"
      unfolding st' by (rule execution_reachable.redirect [OF assms(1) act])
    ultimately show ?thesis by (metis add_Suc_right)
  qed
qed

lemma goes_on_keeps:
  assumes "goes_on_with K (tighten_retry_eligibility hs sr st) body st' body'"
  shows "es_request_started_at st' = es_request_started_at st" "es_options st' = es_options st"
  using assms
  by (auto simp: goes_on_with_def retried_def redirected_def apply_redirect_sel apply_redirect_def
      tighten_retry_eligibility_def Let_def)

lemma tighten_keeps [simp]:
  "es_request_started_at (tighten_retry_eligibility hs sr st) = es_request_started_at st"
  "es_options (tighten_retry_eligibility hs sr st) = es_options st"
  by (simp_all add: tighten_retry_eligibility_def)

lemma reachable_tighten:
  assumes "reachable K input i j st" "body_ok input st body"
  shows "reachable K input i j (tighten_retry_eligibility hs (ci_retry_eligibility K) st)"
    "body_ok input (tighten_retry_eligibility hs (ci_retry_eligibility K) st) body"
  using execution_reachable.tighten [OF assms(1)] assms(2)
  by (auto simp: body_ok_def tighten_retry_eligibility_def)

text \<open>The state in which a loop starts.\<close>

lemma from_request_reachable:
  assumes "from_request input started (ci_retry_eligibility K) = (st, body)"
  shows "reachable K input 0 0 st" "body_ok input st body" "es_request_started_at st = started"
    "body = ri_body input"
  using assms execution_reachable.init [of "li_headers K" "li_uris K" "li_urls K" "ci_retry_eligibility K"
      "try_consume_retry_budget K" input started]
  by (auto simp: from_request_def body_ok_def Let_def)

subsection \<open>The requests of a loop\<close>

type_synonym ('h, 'b) sent_request = "instant \<times> ('h, 'b) transport_request"

text \<open>
  The requests that a loop sends from a state on: \<open>from_state st body q\<close> is what the client may send in the
  state \<open>st\<close> with the body \<open>body\<close>, after the interceptors have tightened the eligibility for retries.
\<close>

inductive attempts ::
    "('h, 'v, 'u, 'w, 'n, 'b) client \<Rightarrow>
     (('h, 'u) request_execution_state \<Rightarrow> 'b request_body \<Rightarrow> ('h, 'b) sent_request \<Rightarrow> bool) \<Rightarrow>
     ('h, 'u) request_execution_state \<Rightarrow> 'b request_body \<Rightarrow> ('h, 'b) sent_request list \<Rightarrow> bool"
  for K from_state where
  attempts_none: "attempts K from_state st body []"
| attempts_last: "from_state (tighten_retry_eligibility hs (ci_retry_eligibility K) st) body q \<Longrightarrow>
    attempts K from_state st body [q]"
| attempts_more: "from_state (tighten_retry_eligibility hs (ci_retry_eligibility K) st) body q \<Longrightarrow>
    goes_on_with K (tighten_retry_eligibility hs (ci_retry_eligibility K) st) (snd (take_for_attempt body)) st' body' \<Longrightarrow>
    attempts K from_state st' body' qs \<Longrightarrow> attempts K from_state st body (q # qs)"

definition refines_with ::
    "(('h, 'u) request_execution_state \<Rightarrow> 'b request_body \<Rightarrow> ('h, 'b) sent_request \<Rightarrow> bool) \<Rightarrow>
     ('h, 'v, 'u, 'w, 'n, 'b) client \<Rightarrow> ('h, 'u, 'b request_body) retry_request_input \<Rightarrow> instant \<Rightarrow> nat \<Rightarrow>
     ('h, 'b) sent_request list \<Rightarrow> bool" where
  "refines_with from_state K input started n qs \<longleftrightarrow> (\<forall>k < length qs. \<exists>i j st body. i + j = n + k \<and>
     reachable K input i j st \<and> es_request_started_at st = started \<and> body_ok input st body \<and>
     from_state st body (qs ! k))"

lemma refines_with_Nil [simp]: "refines_with from_state K input started n []"
  by (simp add: refines_with_def)

lemma refines_with_Cons:
  assumes "reachable K input i j st" "body_ok input st body" "from_state st body q"
    "refines_with from_state K input (es_request_started_at st) (Suc (i + j)) qs"
  shows "refines_with from_state K input (es_request_started_at st) (i + j) (q # qs)"
  unfolding refines_with_def
proof (intro allI impI)
  fix k assume "k < length (q # qs)"
  then show "\<exists>i' j' st' body. i' + j' = i + j + k \<and> reachable K input i' j' st' \<and>
      es_request_started_at st' = es_request_started_at st \<and> body_ok input st' body \<and>
      from_state st' body ((q # qs) ! k)"
    using assms by (cases k) (auto simp: refines_with_def)
qed

definition streamed :: "('h, 'b) sent_request list \<Rightarrow> nat" where
  "streamed qs = length (filter (\<lambda>q. \<not> is_replayable (tr_body (snd q))) qs)"

locale attempt_requests =
  fixes K :: "('h, 'v, 'u, 'w, 'n, 'b) client"
    and from_state :: "('h, 'u) request_execution_state \<Rightarrow> 'b request_body \<Rightarrow> ('h, 'b) sent_request \<Rightarrow> bool"
  assumes from_body: "from_state st body q \<Longrightarrow> tr_body (snd q) = body"
    and from_timeout: "from_state st body q \<Longrightarrow> es_phase_timeout (fst q) st = Some (tr_timeout (snd q))"
begin

lemma attempts_refine:
  assumes "attempts K from_state st body qs" "valid_limits (ri_execution_options input)"
    and "reachable K input i j st" "body_ok input st body"
  shows "refines_with from_state K input (es_request_started_at st) (i + j) qs"
    and "streamed qs \<le> (if is_replayable body then 0 else 1)"
proof -
  have "refines_with from_state K input (es_request_started_at st) (i + j) qs \<and>
      streamed qs \<le> (if is_replayable body then 0 else 1)"
    using assms(1,3,4)
  proof (induction arbitrary: i j rule: attempts.induct)
    case (attempts_none st body)
    then show ?case by (simp add: streamed_def)
  next
    case (attempts_last hs st body q)
    then show ?case
      using refines_with_Cons [where from_state = from_state and qs = "[]",
          OF reachable_tighten [OF attempts_last(2,3), of hs] attempts_last(1)]
        from_body [OF attempts_last(1)] by (simp add: streamed_def)
  next
    case (attempts_more hs st body q st' body' qs)
    note tight = reachable_tighten [OF attempts_more(5,6), of hs]
    obtain i' j' where next_state: "i' + j' = Suc (i + j)" "reachable K input i' j' st'" "body_ok input st' body'"
        "is_replayable body'"
      using reachable_goes_on [OF tight assms(2) attempts_more(2)] by blast
    have rest: "refines_with from_state K input (es_request_started_at st) (Suc (i + j)) qs" "streamed qs = 0"
      using attempts_more(4) [OF next_state(2,3)] next_state(1,4) goes_on_keeps(1) [OF attempts_more(2)] by auto
    then have "refines_with from_state K input (es_request_started_at st) (i + j) (q # qs)"
      using refines_with_Cons [where from_state = from_state, OF tight attempts_more(1)] by simp
    then show ?case using rest(2) from_body [OF attempts_more(1)] by (auto simp: streamed_def)
  qed
  then show "refines_with from_state K input (es_request_started_at st) (i + j) qs"
    "streamed qs \<le> (if is_replayable body then 0 else 1)" by blast+
qed

lemma refines_nth:
  assumes "refines_with from_state K input started 0 qs" "valid_limits (ri_execution_options input)" "k < length qs"
  shows "\<exists>i j st body. i + j = k \<and> execution_inv (ri_execution_options input) i j st \<and>
    es_request_started_at st = started \<and> body_ok input st body \<and> from_state st body (qs ! k)"
proof -
  obtain i j st body where "i + j = k" and reach: "reachable K input i j st" and "es_request_started_at st = started"
      "body_ok input st body" "from_state st body (qs ! k)"
    using assms(1,3) by (auto simp: refines_with_def)
  moreover have "execution_inv (ri_execution_options input) i j st"
    using execution_inv_reachable [OF reach] assms(2) by (simp add: valid_limits_def)
  ultimately show ?thesis by blast
qed

lemma refines_bound:
  assumes "refines_with from_state K input started 0 qs" "valid_limits (ri_execution_options input)"
  shows "length qs \<le> rp_max_attempts (op_retry_policy (ri_execution_options input)) +
      redirect_max_redirects (op_redirect_policy (ri_execution_options input))"
proof (cases "length qs")
  case (Suc n)
  then have "n < length qs" by simp
  from refines_nth [OF assms this] obtain i j st body where
      "i + j = n" "execution_inv (ri_execution_options input) i j st" "from_state st body (qs ! n)" by blast
  then show ?thesis using Suc by (auto simp: execution_inv_def)
qed simp

lemma refines_each:
  assumes "refines_with from_state K input started 0 qs" "valid_limits (ri_execution_options input)" "q \<in> set qs"
  shows "\<exists>st body. es_options st = ri_execution_options input \<and> es_request_started_at st = started \<and>
      (body = ri_body input \<or> body = request_body_default) \<and> from_state st body q"
    and "tr_body (snd q) = ri_body input \<or> tr_body (snd q) = request_body_default"
    and "phase_timeout (fst q) (op_request_timeout (ri_execution_options input))
      (op_total_timeout (ri_execution_options input)) started = Some (tr_timeout (snd q))"
proof -
  obtain k where k: "k < length qs" "q = qs ! k" using assms(3) by (auto simp: in_set_conv_nth)
  from refines_nth [OF assms(1,2) k(1)] obtain i j st body where
      st: "execution_inv (ri_execution_options input) i j st" "es_request_started_at st = started"
        "body_ok input st body" "from_state st body q"
    unfolding k(2) by blast
  have ops: "es_options st = ri_execution_options input" using st(1) by (simp add: execution_inv_def)
  with st show "\<exists>st body. es_options st = ri_execution_options input \<and> es_request_started_at st = started \<and>
      (body = ri_body input \<or> body = request_body_default) \<and> from_state st body q"
    by (auto simp: body_ok_def)
  show "tr_body (snd q) = ri_body input \<or> tr_body (snd q) = request_body_default"
    using st(3) from_body [OF st(4)] by (auto simp: body_ok_def)
  show "phase_timeout (fst q) (op_request_timeout (ri_execution_options input))
      (op_total_timeout (ri_execution_options input)) started = Some (tr_timeout (snd q))"
    using from_timeout [OF st(4)] st(2) ops by (simp add: es_phase_timeout_def)
qed

end

end
