(* ===== verification/Reqx_BlockingLoop.thy ===== *)
theory Reqx_BlockingLoop
  imports Reqx_BlockingProofs Reqx_Attempts
begin

text \<open>
  The loop of the blocking client against the states of \<open>Reqx_Execution\<close>: an iteration that goes on
  has sent exactly one request and has either scheduled a retry or followed a redirect.
\<close>

subsection \<open>How an iteration goes on\<close>

lemma goes_on_returns [simp]:
  "goes_on K st body (fst (return_stream K' completion st' gp g h response t w))"
  "goes_on K st body (fst (continue_after K' g h d st' body w)) \<longleftrightarrow> goes_on_with K st body st' body"
  by (simp_all add: return_stream_def continue_after_def split_def Let_def)

lemma prepare_retry_schedules:
  fixes K :: "('h, 'v, 'u, 'w, 'n, 'b) client"
  assumes "prepare_retry K (es_retry_attempt st) context decision delay w = (r, attempt, w')"
  shows "(\<exists>d. r = Ok (Scheduled d)) \<Longrightarrow> retried K st (st\<lparr> es_attempt := attempt \<rparr>)"
    and "\<nexists>d. r = Ok (Scheduled d) \<Longrightarrow> attempt = es_attempt st"
proof -
  obtain now w1 where n: "instant_now K w = (now, w1)" by force
  obtain r2 a2 w2 where p: "prepare_retry_schedule now (es_retry_attempt st) decision delay
      (try_consume_retry_budget K) w1 = (r2, a2, w2)" by (metis prod_cases3)
  have same: "r = r2" "attempt = a2"
    using assms n p by (auto simp: prepare_retry_def split: result.splits retry_schedule.splits)
  show "retried K st (st\<lparr> es_attempt := attempt \<rparr>)" if "\<exists>d. r = Ok (Scheduled d)"
    using that p same unfolding retried_def by blast
  show "attempt = es_attempt st" if "\<nexists>d. r = Ok (Scheduled d)"
    using that p same
    by (auto simp: prepare_retry_schedule_def es_retry_attempt_def split: if_splits option.splits
        prod.splits result.splits)
qed

lemma record_failure_keeps_result:
  "record_failure_for_retry_schedule C A r g w = (r', g', w') \<Longrightarrow> r' = r"
  "record_failure_on_error C A q g w = (q', g', w') \<Longrightarrow> q' = q"
  by (auto simp: record_failure_for_retry_schedule_def record_failure_on_error_def
      split: result.splits retry_schedule.splits prod.splits)

lemma goes_on_transport_failed: "goes_on K st body (fst (transport_failed K st body gp context g h e t w))"
proof -
  obtain now w1 where n: "instant_now K w = (now, w1)" by force
  obtain f w2 where f: "sample_now K w1 = (f, w2)" by force
  show ?thesis
  proof (cases "transport_failure_plan_of f (ci_backoff_source K) st (transport_failure_error now st t e)")
    case (Plan_Retry plan)
    obtain r a w3 where p: "prepare_retry K (es_retry_attempt st) context (plan_decision plan)
        (plan_delay plan) w2 = (r, a, w3)" by (metis prod_cases3)
    obtain r' g' w4 where rec: "record_failure_for_retry_schedule (circuit_outcome K) (adaptive_outcome K)
        r g w3 = (r', g', w4)" by (metis prod_cases3)
    show ?thesis
      using prepare_retry_schedules(1) [OF p] record_failure_keeps_result(1) [OF rec]
      unfolding transport_failed_def Let_def
      by (simp add: n f Plan_Retry p rec split: result.split retry_schedule.split)
  qed (simp add: transport_failed_def Let_def n f)
qed

lemma br_retry_attempt_of: "br_retry_attempt (es_body_read_retry_context context t st) = es_retry_attempt st"
  by (simp add: br_retry_attempt_def es_body_read_retry_context_def es_retry_attempt_def)

lemma handle_body_read_failure_retries:
  assumes "handle_body_read_failure K (es_body_read_retry_context context t st) failure w =
      (Ok (BodyRead_Retry d), attempt, w')"
  shows "retried K st (st\<lparr> es_attempt := attempt \<rparr>)"
proof (cases failure)
  case (BodyRead_Terminal e)
  then show ?thesis using assms by (simp add: handle_body_read_failure_def)
next
  case (BodyRead_Retryable e plan)
  obtain r a w1 where p: "prepare_retry K (es_retry_attempt st) (br_context (es_body_read_retry_context context t st))
      (plan_decision plan) (plan_delay plan) w = (r, a, w1)"
    by (metis prod_cases3)
  show ?thesis
    using assms BodyRead_Retryable p prepare_retry_schedules(1) [OF p]
    by (auto simp: handle_body_read_failure_def br_retry_attempt_of split: result.splits retry_schedule.splits)
qed

lemma read_decoded_response_body_retries:
  assumes "read_decoded_response_body_with_retry K response hs s (es_body_read_retry_context context t st) w =
      (Ok (BodyRead_Retry d), hs', attempt, w')"
  shows "retried K st (st\<lparr> es_attempt := attempt \<rparr>)"
proof -
  let ?b = "es_body_read_retry_context context t st"
  obtain w1 where "read_response_body_with_retry K response ?b w1 = (Ok (BodyRead_Retry d), attempt, w')"
    using assms by (auto simp: read_decoded_response_body_with_retry_def
        split: prod.splits option.splits result.splits body_read_outcome.splits)
  then obtain failure w2 where
      "handle_body_read_failure K ?b failure w2 = (Ok (BodyRead_Retry d), attempt, w')"
    by (auto simp: read_response_body_with_retry_def Let_def split: prod.splits result.splits
        read_body_error.splits)
  then show ?thesis by (rule handle_body_read_failure_retries)
qed

lemma goes_on_read_and_finish: "goes_on K st body (fst (read_and_finish K mode st body gp context g h response w))"
proof -
  obtain now w1 where n: "instant_now K w = (now, w1)" by force
  show ?thesis
  proof (cases "es_phase_timeout now st")
    case None
    then show ?thesis unfolding read_and_finish_def Let_def by (simp add: n)
  next
    case (Some rt)
    obtain r hs a w2 where rd: "read_decoded_response_body_with_retry K response (hr_headers response)
        (hr_status response) (es_body_read_retry_context context rt st) w1 = (r, hs, a, w2)"
      by (metis prod_cases4)
    obtain r' g' w3 where rec: "record_failure_on_error (circuit_outcome K) (adaptive_outcome K) r g w2 =
        (r', g', w3)" by (metis prod_cases3)
    have "retried K st (st\<lparr> es_attempt := a \<rparr>)" if "r = Ok (BodyRead_Retry d)" for d
      by (rule read_decoded_response_body_retries [OF rd [unfolded that]])
    then show ?thesis
      using record_failure_keeps_result(2) [OF rec]
      unfolding read_and_finish_def Let_def
      by (auto simp: n Some rd rec split: result.split body_read_outcome.split)
  qed
qed

lemma prepare_status_retry_schedules:
  fixes K :: "('h, 'v, 'u, 'w, 'n, 'b) client"
  assumes "prepare_status_retry K st context s hs w = (r, st', w')"
  shows "(\<exists>d. r = Ok (Scheduled d)) \<Longrightarrow> retried K st st'"
    and "\<nexists>d. r = Ok (Scheduled d) \<Longrightarrow> st' = st"
proof -
  obtain t w1 where t: "now_system K w = (t, w1)" by force
  obtain f w2 where f: "sample_now K w1 = (f, w2)" by force
  let ?plan = "status_retry_plan (li_headers K) (li_parse_date K) f t (ci_backoff_source K) st s hs"
  obtain attempt where p: "prepare_retry K (es_retry_attempt st) context (plan_decision ?plan)
      (plan_delay ?plan) w2 = (r, attempt, w')" and st': "st' = st\<lparr> es_attempt := attempt \<rparr>"
    using assms t f by (auto simp: prepare_status_retry_def Let_def split: prod.splits)
  show "retried K st st'" if "\<exists>d. r = Ok (Scheduled d)"
    using prepare_retry_schedules(1) [OF p that] st' by simp
  show "st' = st" if "\<nexists>d. r = Ok (Scheduled d)"
    using prepare_retry_schedules(2) [OF p that] st' by simp
qed

lemma goes_on_handle_non_success:
  "goes_on K st body (fst (handle_non_success K mode st body gp context g h response t w))"
proof -
  let ?s = "hr_status response" and ?hs = "hr_headers response"
  obtain f w1 where f: "sample_now K w = (f, w1)" by force
  obtain r st' w3 where p: "prepare_status_retry K st context ?s ?hs
      (observe_server_throttle K context ?s ?hs (rate_limit_host (li_uris K) st)
        (es_retry_backoff f (ci_backoff_source K) st) w1) = (r, st', w3)" by (metis prod_cases3)
  obtain r' g' w4 where rec: "record_failure_for_retry_schedule (circuit_outcome K) (adaptive_outcome K)
      r g w3 = (r', g', w4)" by (metis prod_cases3)
  show ?thesis
    using prepare_status_retry_schedules [OF p] record_failure_keeps_result(1) [OF rec]
    unfolding handle_non_success_def Let_def
    by (auto simp: f p rec goes_on_read_and_finish split: result.split retry_schedule.split)
qed

lemma goes_on_handle_response:
  "goes_on K st body (fst (handle_response K mode st body gp context g h response t w))"
proof (cases "es_next_redirect_action (li_headers K) (li_uris K) (li_urls K) st (hr_status response)
    (hr_headers response)")
  case (Err e)
  then show ?thesis unfolding handle_response_def Let_def by simp
next
  case (Ok act)
  show ?thesis
  proof (cases act)
    case None
    then show ?thesis
      using Ok unfolding handle_response_def Let_def
      by (simp add: goes_on_read_and_finish goes_on_handle_non_success)
  next
    case (Some a)
    have "redirected K st body (snd (apply_redirect (li_headers K) a (ci_retry_eligibility K) st))
        (if fst (apply_redirect (li_headers K) a (ci_retry_eligibility K) st) then request_body_default else body)"
      using Ok Some by (auto simp: redirected_def apply_redirect_sel)
    then show ?thesis
      using Ok Some unfolding handle_response_def Let_def by (auto simp: split_def split: if_splits)
  qed
qed

subsection \<open>One request per iteration\<close>

text \<open>
  What an iteration sends from a state: nothing, or the one request that the state and the body ask
  for, with the time-out that the state allows at that moment. An iteration that goes on has sent
  its request and leaves what is left of the body.
\<close>

definition request_from ::
    "('h, 'v, 'u, 'w, 'n, 'b) client \<Rightarrow> ('h, 'u) request_execution_state \<Rightarrow> 'b request_body \<Rightarrow>
     instant \<times> ('h, 'b) transport_request \<Rightarrow> bool" where
  "request_from K st body q \<longleftrightarrow>
     tr_method (snd q) = es_current_method st \<and>
     tr_uri (snd q) = uri_to_string (li_uris K) (es_current_uri st) \<and>
     tr_body (snd q) = fst (take_for_attempt body) \<and>
     (\<exists>headers. tr_headers (snd q) = hm_remove (li_headers K) ''proxy-authorization'' headers) \<and>
     es_phase_timeout (fst q) st = Some (tr_timeout (snd q)) \<and>
     tr_proxied (snd q) = select_agent K (es_current_uri st) \<and>
     (tr_proxied (snd q) \<longrightarrow> (\<forall>pc. ci_proxy_config K = Some pc \<longrightarrow> pc_authorization pc = None))"

definition attempt_runs ::
    "('h, 'v, 'u, 'w, 'n, 'b) client \<Rightarrow> ('h, 'u) request_execution_state \<Rightarrow> 'b request_body \<Rightarrow> guards \<Rightarrow>
     nat option \<Rightarrow> unit option \<Rightarrow> ('h, 'b) world \<Rightarrow> ('h, 'u, 'b) blocking_iteration \<times> ('h, 'b) world \<Rightarrow> bool" where
  "attempt_runs K st body g h gp w x \<longleftrightarrow>
     (\<exists>w1. acquired w1 = acquired w \<and> released w1 = released w \<and> errors w1 = errors w \<and> w_now w \<le> w_now w1 \<and>
        ends_attempt g h gp w1 x \<and>
        (sent w1 = sent w \<and> (\<exists>r left. fst x = Iter_Return r left) \<or>
         (\<exists>q. sent w1 = sent w @ [q] \<and> w_now w \<le> fst q \<and> request_from K st body q \<and>
            goes_on K st (snd (take_for_attempt body)) (fst x))))"

lemma transport_failed_terminal:
  assumes "es_transport_retry_decision_from_error st e = None"
  shows "\<exists>r left. fst (transport_failed K st body gp context g h e t w) = Iter_Return r left"
proof -
  have "\<not> is_transport_timeout e"
    using assms by (auto simp: is_transport_timeout_def es_transport_retry_decision_from_error_def
        transport_retry_decision_from_error_def split: error.splits)
  then show ?thesis
    using assms
    by (simp add: transport_failed_def transport_failure_error_def transport_failure_plan_of_def
        return_error_def split_def Let_def)
qed

lemma attempt_runs_unsent:
  assumes "ends_attempt g h gp w' x" "quiet w w'" "fst x = Iter_Return r left"
  shows "attempt_runs K st body g h gp w x"
  using assms unfolding attempt_runs_def settles_def by (intro exI [of _ w']) auto

lemma run_once_cases:
  fixes K :: "('h, 'v, 'u, 'w, 'n, 'b) client"
  assumes "run_once K meth uri uri_text hs body t w = (r, w')"
  obtains (refused) e where "r = Err e" "w' = w"
        "\<And>st :: ('h, 'u) request_execution_state. es_transport_retry_decision_from_error st e = None"
    | (sent) q where "w' = tick (log_event (Ev_Send (w_now w) q) w)" "tr_method q = meth" "tr_uri q = uri_text"
        "tr_headers q = hs" "tr_body q = body" "tr_timeout q = t" "tr_proxied q = select_agent K uri"
        "tr_proxied q \<longrightarrow> (\<forall>pc. ci_proxy_config K = Some pc \<longrightarrow> pc_authorization pc = None)"
proof (cases "li_build_request K meth uri_text hs")
  case (Err e)
  then show ?thesis
    using assms by (intro refused [of "RequestBuild e"])
      (auto simp: run_once_def es_transport_retry_decision_from_error_def transport_retry_decision_from_error_def)
next
  case (Ok u)
  show ?thesis
  proof (cases "validate_proxy_authorization K (select_agent K uri)")
    case (Err e)
    then have "es_transport_retry_decision_from_error st e = None" for st :: "('h, 'u) request_execution_state"
      by (auto simp: validate_proxy_authorization_def es_transport_retry_decision_from_error_def
          transport_retry_decision_from_error_def split: if_splits option.splits)
    then show ?thesis
      using assms Ok Err by (intro refused [of e]) (auto simp: run_once_def run_configured_request_def)
  next
    case (Ok u')
    then have "select_agent K uri \<longrightarrow> (\<forall>pc. ci_proxy_config K = Some pc \<longrightarrow> pc_authorization pc = None)"
      by (auto simp: validate_proxy_authorization_def split: if_splits)
    then show ?thesis
      using assms Ok \<open>li_build_request K meth uri_text hs = Ok u\<close>
      by (intro sent [of "\<lparr> tr_method = meth, tr_uri = uri_text, tr_headers = hs, tr_body = body,
            tr_timeout = t, tr_connect_timeout = ci_connect_timeout K, tr_proxied = select_agent K uri \<rparr>"])
         (auto simp: run_once_def run_configured_request_def Let_def)
  qed
qed

lemma send_attempt_runs:
  fixes K :: "('h, 'v, 'u, 'w, 'n, 'b) client" and st :: "('h, 'u) request_execution_state"
  shows "\<exists>hs. attempt_runs K (tighten_retry_eligibility hs (ci_retry_eligibility K) st) body g h gp w
    (send_attempt K mode st body gp context g h w)"
proof -
  obtain hs w1 where i: "run_request_interceptors K context (es_current_headers st) w = (hs, w1)" by force
  let ?st = "tighten_retry_eligibility hs (ci_retry_eligibility K) st"
  have q1: "quiet w w1" by (rule quiet_oracles(2) [OF i])
  note later = ends_attempt_quiet [OF q1]
  let ?x = "send_attempt K mode st body gp context g h w"
  have "attempt_runs K ?st body g h gp w ?x"
  proof (cases "validate_request_framing_headers (li_headers K) hs (known_length body)
      (es_current_method ?st) (es_current_redacted_uri ?st) :: 'h error unit_result")
    case (Err e)
    then have x: "?x = (case guards_cancel (circuit_outcome K) (adaptive_outcome K) g w1 of
        (g, w) \<Rightarrow> return_error K (es_context ?st) g h gp e w)"
      unfolding send_attempt_def Let_def by (simp add: i)
    then obtain r left where "fst ?x = Iter_Return r left" by (simp add: return_error_def split_def)
    moreover have "ends_attempt g h gp w1 ?x" unfolding x by (rule ends_attempt_mark_error)
    ultimately show ?thesis using attempt_runs_unsent q1 by blast
  next
    case (Ok u)
    let ?hs = "hm_remove (li_headers K) ''proxy-authorization''
      (mark_sensitive_headers (li_iter_mut K) (li_header_values K) hs)"
    obtain now w2 where n: "instant_now K w1 = (now, w2)" by force
    have q2: "quiet w w2" using quiet_settles [OF q1 quiet_readings(1) [OF n]] .
    show ?thesis
    proof (cases "es_phase_timeout now ?st")
      case None
      then have x: "?x = (case guards_cancel (circuit_outcome K) (adaptive_outcome K) g w2 of
          (g, w) \<Rightarrow> return_error K (es_context ?st) g h gp (deadline_error ?st) w)"
        using Ok unfolding send_attempt_def Let_def by (simp add: i n)
      then obtain r left where "fst ?x = Iter_Return r left" by (simp add: return_error_def split_def)
      moreover have "ends_attempt g h gp w2 ?x" unfolding x by (rule ends_attempt_mark_error)
      ultimately show ?thesis using attempt_runs_unsent q2 by blast
    next
      case (Some t)
      obtain b b' where b: "take_for_attempt body = (b, b')" by force
      obtain r w3 where ro: "run_once K (es_current_method ?st) (es_current_uri ?st)
          (uri_to_string (li_uris K) (es_current_uri ?st)) ?hs b t w2 = (r, w3)" by force
      have x: "?x = (case r of
          Err e \<Rightarrow> transport_failed K ?st b' gp (es_context ?st) g h e t w3
        | Ok response \<Rightarrow> handle_response K mode ?st b' gp (es_context ?st) g h response t w3)"
        using Ok Some unfolding send_attempt_def Let_def
        by (simp add: i n b ro split: result.split)
      have ends: "ends_attempt g h gp w3 ?x"
        by (cases r) (simp_all add: x ends_attempt_transport_failed ends_attempt_handle_response)
      show ?thesis
        using ro
      proof (cases rule: run_once_cases)
        case (refused e)
        obtain r' left where "fst ?x = Iter_Return r' left"
          using transport_failed_terminal [OF refused(3), of K ?st b' gp "es_context ?st" g h t w3] refused(1)
          by (auto simp: x)
        then show ?thesis using attempt_runs_unsent [OF ends] q2 refused(2) by blast
      next
        case (sent q)
        have "goes_on K ?st (snd (take_for_attempt body)) (fst ?x)"
          by (cases r) (simp_all add: x b goes_on_transport_failed goes_on_handle_response)
        moreover have "request_from K ?st body (w_now w2, q)"
          using sent Some b instant_now_now [OF n] by (auto simp: request_from_def)
        ultimately show ?thesis
          using ends q2 unfolding attempt_runs_def sent(1)
          by (intro exI [of _ "tick (log_event (Ev_Send (w_now w2) q) w2)"]) (auto simp: settles_def)
      qed
    qed
  qed
  then show ?thesis by blast
qed

subsection \<open>Admission\<close>

lemma silent_acquire_rate_limit_loop:
  assumes "acquire_rate_limit_loop K host total_timeout started meth uri w = Some y"
  shows "quiet w (snd y)"
proof (rule acquire_rate_limit_loop.raw_induct [OF _ assms, of
      "\<lambda>K host total_timeout started meth uri w y. quiet w (snd y)"], goal_cases)
  case (1 rec K host total_timeout started meth uri w y)
  obtain wait w1 where d: "rate_limiter_delay K host w = (wait, w1)" by force
  have q1: "quiet w w1"
    using d by (auto simp: rate_limiter_delay_def split_def Let_def settles_def collected_def)
  obtain now w2 where n: "instant_now K w1 = (now, w2)" by force
  note q2 = quiet_settles [OF q1 quiet_readings(1) [OF n]]
  show ?case
  proof (cases "wait = 0")
    case True
    then show ?thesis using 1(2) d q1 by auto
  next
    case False
    show ?thesis
    proof (cases "bounded_retry_delay now wait total_timeout started")
      case None
      then show ?thesis using 1(2) d n False q2 by auto
    next
      case (Some d')
      then have "rec K host total_timeout started meth uri (thread_sleep K d' w2) = Some y"
        using 1(2) d n False by simp
      from 1(1) [OF this] quiet_settles [OF q2 quiet_log_events(5)] show ?thesis
        by (rule quiet_settles [rotated])
    qed
  qed
qed

lemma quiet_acquire_rate_limit_slot:
  "acquire_rate_limit_slot K host total_timeout started meth uri w = Some (r, w') \<Longrightarrow> quiet w w'"
  using silent_acquire_rate_limit_loop by (fastforce simp: acquire_rate_limit_slot_def split: if_splits)

text \<open>A step that acquires the resources \<open>res\<close> and nothing else.\<close>

definition takes :: "resource multiset \<Rightarrow> ('h, 'b) world \<Rightarrow> ('h, 'b) world \<Rightarrow> bool" where
  "takes res w w' \<longleftrightarrow> acquired w' = acquired w + res \<and> sent w' = sent w \<and> released w' = released w \<and>
     errors w' = errors w \<and> w_now w \<le> w_now w'"

lemma takes_does:
  assumes "does es w w'" "concat (map releases es) = []" "concat (map sends es) = []"
    "concat (map reported_errors es) = []"
  shows "takes (mset (concat (map acquires es))) w w'"
  using assms by (simp add: takes_def does_def collected_append)

fun granted :: "('a \<Rightarrow> resource multiset) \<Rightarrow> ('a, 'e) result \<Rightarrow> resource multiset" where
  "granted f (Ok x) = f x"
| "granted f (Err _) = {#}"

lemma takes_acquire_global:
  assumes "acquire_global_request_permit K total_timeout started meth uri w = Some (r, w')"
  shows "takes (granted global_resources r) w w'"
proof (cases "ci_has_request_limiters K")
  case False
  then show ?thesis using assms by (auto simp: acquire_global_request_permit_def takes_def)
next
  case True
  then obtain r1 where l: "limiters_acquire_global K (total_timeout_deadline total_timeout started) w = Some (r1, w')"
    and r: "r = map_err (\<lambda>_. deadline_exceeded_error total_timeout meth uri) r1"
    using assms by (auto simp: acquire_global_request_permit_def)
  show ?thesis
    using takes_does [OF does_limiters_acquire_global [OF l]] r
    by (cases r1; cases "case r1 of Ok x \<Rightarrow> x | Err _ \<Rightarrow> None") auto
qed

lemma takes_acquire_host:
  assumes "acquire_host_request_permit K host total_timeout started meth uri w = Some (r, w')"
  shows "takes (granted host_resources r) w w'"
proof (cases "ci_has_request_limiters K")
  case False
  then show ?thesis using assms by (auto simp: acquire_host_request_permit_def takes_def)
next
  case True
  then obtain r1 where l: "limiters_acquire_host K host (total_timeout_deadline total_timeout started) w = Some (r1, w')"
    and r: "r = map_err (\<lambda>_. deadline_exceeded_error total_timeout meth uri) r1"
    using assms by (auto simp: acquire_host_request_permit_def)
  show ?thesis
    using takes_does [OF does_limiters_acquire_host [OF l]] r
    by (cases r1; cases "case r1 of Ok x \<Rightarrow> x | Err _ \<Rightarrow> None") auto
qed

lemma takes_begin_circuit:
  "begin_circuit_attempt K meth uri w = (r, w') \<Longrightarrow>
   takes (granted (\<lambda>a. guard_resources \<lparr> ag_circuit = a, ag_adaptive = None \<rparr>) r) w w'"
  by (auto simp: begin_circuit_attempt_def split_def Let_def takes_def guard_resources_def collected_def
      split: option.splits result.splits)

lemma takes_begin_adaptive:
  assumes "begin_adaptive_attempt K total_timeout started meth uri w = Some (r, w')"
  shows "takes (granted (\<lambda>p. guard_resources \<lparr> ag_circuit = None, ag_adaptive = p \<rparr>) r) w w'"
proof (cases "ci_adaptive_concurrency K = None")
  case True
  then show ?thesis using assms by (auto simp: begin_adaptive_attempt_def takes_def)
next
  case False
  then obtain r1 where l: "adaptive_controller_acquire K (total_timeout_deadline total_timeout started) w = Some (r1, w')"
    and r: "r = (case r1 of Some p \<Rightarrow> Ok (Some p) | None \<Rightarrow> Err (deadline_exceeded_error total_timeout meth uri))"
    using assms by (auto simp: begin_adaptive_attempt_def split: option.splits)
  show ?thesis
    using takes_does [OF does_adaptive_controller_acquire [OF l]] r
    by (auto simp: guard_resources_def split: option.splits)
qed

lemma takes_trans: "takes r w w' \<Longrightarrow> takes r' w' w'' \<Longrightarrow> takes (r + r') w w''"
  by (auto simp: takes_def)

lemma quiet_takes: "quiet w w' \<Longrightarrow> takes r w' w'' \<Longrightarrow> takes r w w''"
  by (auto simp: takes_def settles_def)

text \<open>
  An admission that fails has given back what it had taken and has reported its error; one that
  succeeds holds exactly the guards and the permit of the attempt.
\<close>

definition admits :: "('h, 'b) world \<Rightarrow> (guards \<times> nat option, 'h error) result \<times> ('h, 'b) world \<Rightarrow> bool" where
  "admits w x \<longleftrightarrow> (case fst x of
     Ok (g, h) \<Rightarrow> takes (guard_resources g + host_resources h) w (snd x)
   | Err e \<Rightarrow> (\<exists>res w1. takes res w w1 \<and> settles res [e] w1 (snd x)))"

lemma admits_error: "takes res w w1 \<Longrightarrow> settles res [e] w1 w2 \<Longrightarrow> admits w (Err e, w2)"
  by (auto simp: admits_def)

lemma admits_refused: "takes {#} w w1 \<Longrightarrow> admits w (Err e, run_error_interceptors context e w1)"
  using admits_error [OF _ settles_error] by blast

lemma settles_cancel_exit:
  "settles (host_resources h + guard_resources g) [e] w (exit_scope K no_guards h
     (run_error_interceptors context e (snd (guards_cancel (circuit_outcome K) (adaptive_outcome K) g w))))"
proof -
  have "settles (guard_resources g + ({#} + (guard_resources no_guards + host_resources h))) ([] @ [e] @ []) w
      (exit_scope K no_guards h (run_error_interceptors context e
        (snd (guards_cancel (circuit_outcome K) (adaptive_outcome K) g w))))"
    by (rule settles_trans [OF settles_guards(3) settles_trans [OF settles_error settles_exit_scope]])
  then show ?thesis by (simp add: ac_simps)
qed

lemma admit_attempt_admits:
  assumes "admit_attempt K st context w = Some x"
  shows "admits w x"
proof -
  let ?host = "rate_limit_host (li_uris K) st" and ?total = "op_total_timeout (es_options st)"
    and ?started = "es_request_started_at st" and ?m = "es_current_method st"
    and ?u = "es_current_redacted_uri st"
  note def = admit_attempt_def Let_def
  obtain r1 w1 where a1: "acquire_rate_limit_slot K ?host ?total ?started ?m ?u w = Some (r1, w1)"
    using assms unfolding def by (auto split: option.splits)
  have t1: "takes {#} w w1"
    using quiet_acquire_rate_limit_slot [OF a1] by (simp add: takes_def settles_def)
  show ?thesis
  proof (cases r1)
    case (Err e)
    then show ?thesis using assms a1 admits_refused [OF t1] unfolding def by auto
  next
    case (Ok u1)
    obtain r2 w2 where a2: "acquire_host_request_permit K ?host ?total ?started ?m ?u w1 = Some (r2, w2)"
      using assms a1 Ok unfolding def by (auto split: option.splits)
    note t2 = takes_trans [OF t1 takes_acquire_host [OF a2], simplified]
    show ?thesis
    proof (cases r2)
      case (Err e)
      then show ?thesis using assms a1 Ok a2 admits_refused t2 unfolding def by auto
    next
      case (Ok h)
      note ok2 = \<open>r1 = Ok u1\<close> Ok
      obtain r3 w3 where a3: "begin_circuit_attempt K ?m ?u w2 = (r3, w3)" by force
      note t3 = takes_trans [OF t2 takes_begin_circuit [OF a3]]
      show ?thesis
      proof (cases r3)
        case (Err e)
        have "settles (host_resources h) [e] w3 (host_permit_drop K h (run_error_interceptors context e w3))"
          using settles_trans [OF settles_error settles_permits(2)] by simp
        from admits_error [OF _ this] show ?thesis
          using assms a1 ok2 a2 a3 Err t3 unfolding def by auto
      next
        case (Ok c)
        let ?g = "\<lparr> ag_circuit = c, ag_adaptive = None \<rparr> :: guards"
        obtain r4 w4 where a4: "begin_adaptive_attempt K ?total ?started ?m ?u w3 = Some (r4, w4)"
          using assms a1 ok2 a2 a3 Ok unfolding def by (auto split: option.splits)
        have t4: "takes (host_resources h + guard_resources ?g +
            granted (\<lambda>p. guard_resources \<lparr> ag_circuit = None, ag_adaptive = p \<rparr>) r4) w w4"
          using takes_trans [OF t3 takes_begin_adaptive [OF a4]] ok2 Ok by simp
        show ?thesis
        proof (cases r4)
          case (Err e)
          let ?w5 = "snd (guards_cancel (circuit_outcome K) (adaptive_outcome K) ?g w4)"
          note settled = settles_cancel_exit [of h ?g e w4 K "context"]
          have "admits w (Err e, exit_scope K no_guards h (run_error_interceptors context e ?w5))"
            using admits_error [OF t4] settled Err by simp
          then show ?thesis
            using assms a1 ok2 a2 a3 Ok a4 Err unfolding def by (auto simp: split_def)
        next
          case (Ok p)
          note ok4 = \<open>r3 = Ok c\<close> Ok
          have "guard_resources (set_adaptive p ?g) =
              guard_resources ?g + guard_resources \<lparr> ag_circuit = None, ag_adaptive = p \<rparr>"
            by (simp add: guard_resources_def set_adaptive_def)
          then show ?thesis
            using assms a1 ok2 a2 a3 ok4 a4 t4 unfolding def by (auto simp: admits_def ac_simps)
        qed
      qed
    qed
  qed
qed

subsection \<open>One iteration\<close>

definition iterates ::
    "('h, 'v, 'u, 'w, 'n, 'b) client \<Rightarrow> ('h, 'u) request_execution_state \<Rightarrow> 'b request_body \<Rightarrow>
     unit option \<Rightarrow> ('h, 'b) world \<Rightarrow> ('h, 'u, 'b) blocking_iteration \<times> ('h, 'b) world \<Rightarrow> bool" where
  "iterates K st body gp w x \<longleftrightarrow>
     acquired (snd x) + released w + global_resources gp =
       acquired w + released (snd x) + it_resources gp (fst x) \<and>
     errors (snd x) = errors w @ it_errors (fst x) \<and>
     w_now w \<le> w_now (snd x) \<and>
     (sent (snd x) = sent w \<and> (\<exists>r left. fst x = Iter_Return r left) \<or>
      (\<exists>q hs. sent (snd x) = sent w @ [q] \<and> w_now w \<le> fst q \<and>
         request_from K (tighten_retry_eligibility hs (ci_retry_eligibility K) st) body q \<and>
         goes_on K (tighten_retry_eligibility hs (ci_retry_eligibility K) st) (snd (take_for_attempt body)) (fst x)))"

lemma attempt_iteration_iterates:
  assumes "attempt_iteration K mode st body gp w = Some x"
  shows "iterates K st body gp w x"
proof -
  let ?w = "run_request_start_observers (es_context st) w"
  have q: "quiet w ?w" by simp
  obtain r w1 where a: "admit_attempt K st (es_context st) ?w = Some (r, w1)"
    using assms by (auto simp: attempt_iteration_def Let_def split: option.splits)
  note ad = admit_attempt_admits [OF a]
  show ?thesis
  proof (cases r)
    case (Err e)
    then have "x = (Iter_Return (Err e) gp, w1)"
      using assms a by (auto simp: attempt_iteration_def Let_def)
    then show ?thesis
      using ad q Err by (auto simp: admits_def iterates_def takes_def settles_def ac_simps)
  next
    case (Ok p)
    obtain g h where p: "p = (g, h)" by force
    have x: "x = send_attempt K mode st body gp (es_context st) g h w1"
      using assms a Ok p by (auto simp: attempt_iteration_def Let_def)
    obtain hs where run: "attempt_runs K (tighten_retry_eligibility hs (ci_retry_eligibility K) st) body g h gp w1 x"
      using send_attempt_runs [of K st body g h gp w1 mode "es_context st"] x by blast
    have t: "takes (guard_resources g + host_resources h) ?w w1" using ad Ok p by (simp add: admits_def)
    from run t q show ?thesis
      unfolding attempt_runs_def attempt_ends_def iterates_def
      by (auto simp: takes_def settles_def ac_simps)
  qed
qed

subsection \<open>The loop\<close>

text \<open>Induction over the iterations of a loop that returns.\<close>

lemma retry_loop_induct [consumes 1, case_names exhausted finish again]:
  assumes run: "retry_loop K mode st body gp w = Some (r, w')"
    and exhausted: "\<And>st body w. \<not> can_attempt st \<Longrightarrow>
      P st body w (Err (deadline_error st)) (global_permit_drop K gp
        (run_error_interceptors (es_context st) (deadline_error st) w))"
    and finish: "\<And>st body w r left w1. can_attempt st \<Longrightarrow>
      attempt_iteration K mode st body gp w = Some (Iter_Return r left, w1) \<Longrightarrow>
      P st body w r (global_permit_drop K left w1)"
    and again: "\<And>st body w st' body' w1 r w'. can_attempt st \<Longrightarrow>
      attempt_iteration K mode st body gp w = Some (Iter_Continue st' body', w1) \<Longrightarrow>
      P st' body' w1 r w' \<Longrightarrow> P st body w r w'"
  shows "P st body w r w'"
proof -
  have "K' = K \<longrightarrow> mode' = mode \<longrightarrow> gp' = gp \<longrightarrow> P st body w (fst y) (snd y)"
    if "retry_loop K' mode' st body gp' w = Some y" for K' mode' st body gp' w y
  proof (rule retry_loop.raw_induct [OF _ that, of "\<lambda>K' mode' st body gp' w y.
      K' = K \<longrightarrow> mode' = mode \<longrightarrow> gp' = gp \<longrightarrow> P st body w (fst y) (snd y)"], intro impI, goal_cases)
    case (1 rec K' mode' st body gp' w y)
    note IH = 1(1) and eq = 1(2) and same = 1(3-5)
    show ?case
    proof (cases "can_attempt st")
      case False
      then show ?thesis using eq exhausted same by auto
    next
      case True
      then obtain it w1 where it: "attempt_iteration K mode st body gp w = Some (it, w1)"
        using eq same by (auto split: option.splits)
      show ?thesis
      proof (cases it)
        case (Iter_Return r left)
        then show ?thesis using eq same True it finish [OF True] by auto
      next
        case (Iter_Continue st' body')
        then have "rec K mode st' body' gp w1 = Some y" using eq same True it by simp
        then show ?thesis using IH again [OF True it [unfolded Iter_Continue]] by blast
      qed
    qed
  qed
  from this [OF run] show ?thesis by simp
qed

text \<open>Every resource is accounted for, and exactly the error that is returned has been reported.\<close>

lemma retry_loop_accounts:
  assumes "retry_loop K mode st body gp w = Some (r, w')"
  shows "acquired w' + released w + global_resources gp = acquired w + released w' + result_resources r \<and>
    errors w' = errors w @ failed r \<and> w_now w \<le> w_now w'"
  using assms
proof (induction rule: retry_loop_induct)
  case (exhausted st body w)
  have "settles ({#} + global_resources gp) ([deadline_error st] @ []) w (global_permit_drop K gp
      (run_error_interceptors (es_context st) (deadline_error st) w))"
    by (rule settles_trans [OF settles_error settles_permits(1)])
  then show ?case by (simp add: settles_def)
next
  case (finish st body w r left w1)
  then show ?case
    using attempt_iteration_iterates [OF finish(2)] settles_permits(1) [of left w1 K]
    by (auto simp: iterates_def settles_def ac_simps)
next
  case (again st body w st' body' w1 r w')
  have "(acquired w1 + released w + global_resources gp) + (acquired w' + released w1 + global_resources gp) =
      (acquired w + released w1 + global_resources gp) + (acquired w1 + released w' + result_resources r)"
    using attempt_iteration_iterates [OF again(2)] again(3) by (simp add: iterates_def)
  then have "acquired w' + released w + global_resources gp = acquired w + released w' + result_resources r"
    by (simp add: ac_simps)
  then show ?case
    using attempt_iteration_iterates [OF again(2)] again(3) by (auto simp: iterates_def)
qed

text \<open>The requests of a loop are those of a run of the abstract execution.\<close>

interpretation blocking_requests: attempt_requests K "request_from K" for K
  by unfold_locales (simp_all add: request_from_def)

abbreviation refines_execution ::
    "('h, 'v, 'u, 'w, 'n, 'b) client \<Rightarrow> ('h, 'u, 'b request_body) retry_request_input \<Rightarrow> instant \<Rightarrow> nat \<Rightarrow>
     ('h, 'b) sent_request list \<Rightarrow> bool" where
  "refines_execution K \<equiv> refines_with (request_from K) K"

lemma retry_loop_attempts:
  assumes "retry_loop K mode st body gp w = Some (r, w')"
  shows "\<exists>qs. sent w' = sent w @ qs \<and> attempts K (request_from K) st body qs \<and> (\<forall>q \<in> set qs. w_now w \<le> fst q)"
  using assms
proof (induction rule: retry_loop_induct)
  case (exhausted st body w)
  show ?case
    by (rule exI [of _ "[]"])
       (simp add: attempts_none run_error_interceptors_def collected_append [OF w_log_permit_drop(1)])
next
  case (finish st body w r left w1)
  have "sent (global_permit_drop K left w1) = sent w1" by (simp add: collected_append [OF w_log_permit_drop(1)])
  then show ?case
    using attempt_iteration_iterates [OF finish(2)] attempts_none attempts_last
    by (fastforce simp: iterates_def)
next
  case (again st body w st' body' w1 r w')
  note it = attempt_iteration_iterates [OF again(2), unfolded iterates_def, simplified]
  from it obtain q hs where q: "sent w1 = sent w @ [q]" "w_now w \<le> fst q"
      "request_from K (tighten_retry_eligibility hs (ci_retry_eligibility K) st) body q"
      "goes_on_with K (tighten_retry_eligibility hs (ci_retry_eligibility K) st) (snd (take_for_attempt body)) st' body'"
    by auto
  obtain qs where qs: "sent w' = sent w1 @ qs" "attempts K (request_from K) st' body' qs" "\<forall>q \<in> set qs. w_now w1 \<le> fst q"
    using again(3) by blast
  show ?case
    using q(1,2) qs(1,3) it attempts_more [OF q(3,4) qs(2)] by (intro exI [of _ "q # qs"]) auto
qed

end
