(* ===== verification/Reqx_BlockingTermination.thy ===== *)
theory Reqx_BlockingTermination
  imports Reqx_BlockingLoop
begin

text \<open>
  A request with a total timeout ends. Every wait of the blocking client reads the clock in each of
  its iterations, and stops once the deadline is reached; the clock is assumed to advance between two
  readings.
\<close>

definition time_passes :: "('h, 'v, 'u, 'w, 'n, 'b) client \<Rightarrow> bool" where
  "time_passes K \<longleftrightarrow> (\<forall>t. 0 < en_elapsed K t)"

lemma instant_now_advances:
  "time_passes K \<Longrightarrow> instant_now K w = (now, w') \<Longrightarrow> w_now w < now \<and> w_now w' = now"
  by (auto simp: time_passes_def instant_now_def Let_def tick_def)

lemma silent_now: "silent w w' \<Longrightarrow> w_now w \<le> w_now w'"
  by (simp add: does_def)

lemma semaphore_acquire_returns:
  assumes "time_passes K"
  shows "\<exists>y. semaphore_acquire K permits set_permits (Some d) w = Some y"
proof (induction "d - w_now w" arbitrary: w rule: less_induct)
  case less
  obtain now w1 where n: "instant_now K w = (now, w1)" by force
  note step = semaphore_acquire.simps [of K permits set_permits "Some d" w]
  show ?case
  proof (cases "permits (w_shared w1) > 0 \<or> now \<ge> d")
    case True
    then show ?thesis using n by (auto simp: step semaphore_acquire_iteration_def)
  next
    case False
    obtain b w2 where c: "condvar_wait_timeout K (d - now) w1 = (b, w2)" by force
    obtain now' w3 where n': "instant_now K w2 = (now', w3)" by force
    have "w_now w < now" "now \<le> w_now w3"
      using instant_now_advances [OF assms n] instant_now_advances [OF assms n']
        silent_now [OF silent_condvar_wait_timeout [OF c]] by auto
    then have "d - w_now w3 < d - w_now w" using False by linarith
    from less [OF this] show ?thesis
      using n c n' False by (auto simp: step semaphore_acquire_iteration_def)
  qed
qed

lemma adaptive_controller_wait_returns:
  assumes "time_passes K"
  shows "\<exists>y. adaptive_controller_wait K (Some d) w = Some y"
proof (induction "d - w_now w" arbitrary: w rule: less_induct)
  case less
  obtain acquired s where t: "adaptive_try_acquire (sh_adaptive_concurrency (w_shared w)) = (acquired, s)" by force
  obtain now w1 where n: "instant_now K w = (now, w1)" by force
  note step = adaptive_controller_wait.simps [of K "Some d" w]
  show ?case
  proof (cases "acquired \<or> now \<ge> d")
    case True
    then show ?thesis using n t by (auto simp: step)
  next
    case False
    obtain b w2 where c: "condvar_wait_timeout K (d - now) w1 = (b, w2)" by force
    obtain now' w3 where n': "instant_now K w2 = (now', w3)" by force
    have "w_now w < now" "now \<le> w_now w3"
      using instant_now_advances [OF assms n] instant_now_advances [OF assms n']
        silent_now [OF silent_condvar_wait_timeout [OF c]] by auto
    then have "d - w_now w3 < d - w_now w" using False by linarith
    from less [OF this] show ?thesis using n t c n' False by (auto simp: step)
  qed
qed

lemma acquire_rate_limit_loop_returns:
  assumes "time_passes K"
  shows "\<exists>y. acquire_rate_limit_loop K host (Some T) started meth uri w = Some y"
proof (induction "started + T - w_now w" arbitrary: w rule: less_induct)
  case less
  obtain wait w1 where r: "rate_limiter_delay K host w = (wait, w1)" by force
  obtain now w2 where n: "instant_now K w1 = (now, w2)" by force
  have w1: "w_now w1 = w_now w" using r by (auto simp: rate_limiter_delay_def split_def Let_def)
  note step = acquire_rate_limit_loop.simps [of K host "Some T" started meth uri w]
  show ?case
  proof (cases "wait = 0 \<or> bounded_retry_delay now wait (Some T) started = None")
    case True
    then show ?thesis using r n by (auto simp: step)
  next
    case False
    then obtain d where d: "bounded_retry_delay now wait (Some T) started = Some d" by blast
    then have "now < started + T"
      by (auto simp: bounded_retry_delay_def saturating_duration_since_def Let_def split: if_splits)
    moreover have "w_now w < now" "now \<le> w_now (thread_sleep K d w2)"
      using instant_now_advances [OF assms n] w1 by (auto simp: thread_sleep_def tick_def log_event_def)
    ultimately have "started + T - w_now (thread_sleep K d w2) < started + T - w_now w" by linarith
    from less [OF this] show ?thesis using r n d False by (auto simp: step)
  qed
qed

lemma limiters_acquire_returns:
  assumes "time_passes K"
  shows "\<exists>y. limiters_acquire_global K (Some d) w = Some y"
    and "\<exists>y. limiters_acquire_host K host (Some d) w = Some y"
proof -
  have sem: "\<exists>b w'. semaphore_acquire K permits set_permits (Some d) w = Some (b, w')" for permits set_permits w
    using semaphore_acquire_returns [OF assms, of permits set_permits d w] by force
  show "\<exists>y. limiters_acquire_global K (Some d) w = Some y"
    using sem [of global_permits set_global_permits "lock_shared K w"]
    by (auto simp: limiters_acquire_global_def Let_def split: bool.splits)
  obtain now w1 where n: "now_monotonic K (lock_shared K w) = (now, w1)" by force
  obtain claim l where c: "acquire_host host now (sh_request_limiters (w_shared w1)) = (claim, l)" by force
  let ?w = "lock_shared K (set_shared (update_limiters (\<lambda>_. l)) w1)"
  show "\<exists>y. limiters_acquire_host K host (Some d) w = Some y"
  proof (cases claim)
    case (HostWaiter h a)
    then show ?thesis
      using n c sem [of "cell_permits a" "set_cell_permits a" ?w]
      by (auto simp: limiters_acquire_host_def Let_def split: bool.splits)
  qed (use n c in \<open>auto simp: limiters_acquire_host_def Let_def\<close>)
qed

lemma adaptive_controller_acquire_returns:
  assumes "time_passes K"
  shows "\<exists>y. adaptive_controller_acquire K (Some d) w = Some y"
proof -
  obtain b w1 where "adaptive_controller_wait K (Some d) (lock_shared K w) = Some (b, w1)"
    using adaptive_controller_wait_returns [OF assms, of d "lock_shared K w"] by force
  then show ?thesis by (cases b) (simp_all add: adaptive_controller_acquire_def split_def Let_def)
qed

text \<open>The deadline of a request whose total timeout does not overflow the clock.\<close>

definition has_deadline :: "duration option \<Rightarrow> instant \<Rightarrow> bool" where
  "has_deadline total_timeout started \<longleftrightarrow> total_timeout_deadline total_timeout started \<noteq> None"

lemma acquire_returns:
  assumes "time_passes K" "has_deadline total_timeout started"
  shows "\<exists>r w'. acquire_rate_limit_slot K host total_timeout started meth uri w = Some (r, w')"
    and "\<exists>r w'. acquire_global_request_permit K total_timeout started meth uri w = Some (r, w')"
    and "\<exists>r w'. acquire_host_request_permit K host total_timeout started meth uri w = Some (r, w')"
    and "\<exists>r w'. begin_adaptive_attempt K total_timeout started meth uri w = Some (r, w')"
proof -
  obtain T d where T: "total_timeout = Some T" and d: "total_timeout_deadline total_timeout started = Some d"
    using assms(2) by (cases total_timeout) (auto simp: has_deadline_def total_timeout_deadline_def)
  show "\<exists>r w'. acquire_rate_limit_slot K host total_timeout started meth uri w = Some (r, w')"
    using acquire_rate_limit_loop_returns [OF assms(1), of host T started meth uri w] T
    by (auto simp: acquire_rate_limit_slot_def)
  show "\<exists>r w'. acquire_global_request_permit K total_timeout started meth uri w = Some (r, w')"
    using limiters_acquire_returns(1) [OF assms(1), of d w] d
    by (auto simp: acquire_global_request_permit_def)
  show "\<exists>r w'. acquire_host_request_permit K host total_timeout started meth uri w = Some (r, w')"
    using limiters_acquire_returns(2) [OF assms(1), of host d w] d
    by (auto simp: acquire_host_request_permit_def)
  show "\<exists>r w'. begin_adaptive_attempt K total_timeout started meth uri w = Some (r, w')"
    using adaptive_controller_acquire_returns [OF assms(1), of d w] d
    by (auto simp: begin_adaptive_attempt_def split: option.splits)
qed

lemma attempt_iteration_returns:
  assumes "time_passes K" "has_deadline (op_total_timeout (es_options st)) (es_request_started_at st)"
  shows "\<exists>x. attempt_iteration K mode st body gp w = Some x"
proof -
  let ?host = "rate_limit_host (li_uris K) st" and ?total = "op_total_timeout (es_options st)"
    and ?started = "es_request_started_at st" and ?m = "es_current_method st"
    and ?u = "es_current_redacted_uri st"
  note returns = acquire_returns [OF assms]
  have "\<exists>r w'. admit_attempt K st context w = Some (r, w')" for "context" w
  proof -
    obtain r1 w1 where a1: "acquire_rate_limit_slot K ?host ?total ?started ?m ?u w = Some (r1, w1)"
      using returns(1) by blast
    obtain r2 w2 where a2: "acquire_host_request_permit K ?host ?total ?started ?m ?u w1 = Some (r2, w2)"
      using returns(3) by blast
    obtain r3 w3 where a3: "begin_circuit_attempt K ?m ?u w2 = (r3, w3)" by force
    obtain r4 w4 where a4: "begin_adaptive_attempt K ?total ?started ?m ?u w3 = Some (r4, w4)"
      using returns(4) by blast
    show ?thesis
      unfolding admit_attempt_def Let_def
      by (cases r1; cases r2; cases r3; cases r4) (simp_all add: a1 a2 a3 a4 split_def)
  qed
  then obtain r w' where "admit_attempt K st (es_context st) (run_request_start_observers (es_context st) w) =
      Some (r, w')" by blast
  then show ?thesis by (cases r) (auto simp: attempt_iteration_def Let_def)
qed

text \<open>Each iteration that goes on uses up an attempt or a redirect.\<close>

lemma retry_loop_returns:
  assumes "time_passes K" "valid_limits ops" "ri_execution_options input = ops"
    and "reachable K input i j st" "body_ok input st body"
    and "has_deadline (op_total_timeout ops) (es_request_started_at st)"
  shows "\<exists>y. retry_loop K mode st body gp w = Some y"
  using assms(4-6)
proof (induction "rp_max_attempts (op_retry_policy ops) + redirect_max_redirects (op_redirect_policy ops) - (i + j)"
    arbitrary: i j st body w rule: less_induct)
  case less
  have inv: "execution_inv ops i j st"
    using execution_inv_reachable [OF less.prems(1)] assms(2,3) by (simp add: valid_limits_def)
  then have room: "i + j < rp_max_attempts (op_retry_policy ops) + redirect_max_redirects (op_redirect_policy ops)"
    and ops: "es_options st = ops" by (auto simp: execution_inv_def)
  obtain it w1 where it: "attempt_iteration K mode st body gp w = Some (it, w1)"
    using attempt_iteration_returns [OF assms(1)] less.prems(3) ops by force
  note step = retry_loop.simps [of K mode st body gp w]
  show ?case
  proof (cases it)
    case (Iter_Return r left)
    then show ?thesis using it by (auto simp: step)
  next
    case (Iter_Continue st' body')
    obtain hs where go: "goes_on_with K (tighten_retry_eligibility hs (ci_retry_eligibility K) st)
        (snd (take_for_attempt body)) st' body'"
      using attempt_iteration_iterates [OF it] Iter_Continue by (auto simp: iterates_def)
    obtain i' j' where next_state: "i' + j' = Suc (i + j)" "reachable K input i' j' st'" "body_ok input st' body'"
      using reachable_goes_on [OF reachable_tighten [OF less.prems(1,2)] _ go] assms(2,3) by blast
    have "\<exists>y. retry_loop K mode st' body' gp w1 = Some y"
      using less.hyps [OF _ next_state(2,3)] next_state(1) room less.prems(3) goes_on_keeps(1) [OF go] by auto
    then show ?thesis using it Iter_Continue by (auto simp: step)
  qed
qed

lemma send_request_with_retry_mode_returns:
  assumes "time_passes K" "valid_limits (ri_execution_options input)"
    and "has_deadline (op_total_timeout (ri_execution_options input)) started"
  shows "\<exists>r w'. send_request_with_retry_mode K input mode gp started w = Some (r, w')"
proof -
  obtain st body where f: "from_request input started (ci_retry_eligibility K) = (st, body)" by force
  show ?thesis
    using retry_loop_returns [OF assms(1,2) refl from_request_reachable(1,2) [OF f], of mode gp w]
      assms(3) from_request_reachable(3) [OF f] f
    by (auto simp: send_request_with_retry_mode_def)
qed

end
