(* ===== verification/Reqx_BlockingRequest.thy ===== *)
theory Reqx_BlockingRequest
  imports Reqx_BlockingTermination
begin

text \<open>
  Whole requests of the blocking client: what \<open>send_request\<close> and \<open>send_request_stream\<close> return, and what
  they leave behind.
\<close>

subsection \<open>The kind of the response\<close>

fun good_result ::
    "('h, 'v, 'u, 'w, 'n, 'b) client \<Rightarrow> response_mode \<Rightarrow> nat \<Rightarrow>
     (('h, 'b) blocking_retry_response, 'h error) result \<Rightarrow> bool" where
  "good_result K mode max_bytes (Err e) \<longleftrightarrow> True"
| "good_result K mode max_bytes (Ok (Response_Buffered r)) \<longleftrightarrow>
     mode = ResponseMode_Buffered \<and> (max_bytes < usize_max \<longrightarrow> length (rs_body r) \<le> max_bytes)"
| "good_result K mode max_bytes (Ok (Response_Stream s)) \<longleftrightarrow> mode = ResponseMode_Stream \<and> stream_ok K s"

definition good_iteration ::
    "('h, 'v, 'u, 'w, 'n, 'b) client \<Rightarrow> response_mode \<Rightarrow> nat \<Rightarrow> ('h, 'u, 'b) blocking_iteration \<times> ('h, 'b) world \<Rightarrow> bool" where
  "good_iteration K mode max_bytes x =
     (case fst x of Iter_Return r _ \<Rightarrow> good_result K mode max_bytes r | Iter_Continue _ _ \<Rightarrow> True)"

lemma good_iteration_simps [simp]:
  "good_iteration K mode m (Iter_Return r left, w) = good_result K mode m r"
  "good_iteration K mode m (Iter_Continue st body, w)"
  "good_iteration K mode m (return_error K' context g h gp e w)"
  "good_iteration K mode m (continue_after K' g h d st body w)"
  "good_iteration K mode m (return_response K' completion gp g h s hs b w) \<longleftrightarrow>
     mode = ResponseMode_Buffered \<and> (m < usize_max \<longrightarrow> length b \<le> m)"
  by (simp_all add: good_iteration_def return_error_def continue_after_def return_response_def split_def Let_def)

lemma good_iteration_case [simp]:
  "(\<And>g w. good_iteration K mode m (f g w)) \<Longrightarrow> good_iteration K mode m (case x of (g, w) \<Rightarrow> f g w)"
  by (cases x) simp

lemma good_iteration_transport_failed: "good_iteration K mode m (transport_failed K' st body gp context g h e t w)"
  unfolding transport_failed_def Let_def
  by (auto split: prod.split transport_failure_plan.split result.split retry_schedule.split)

lemma stream_mode: "is_stream mode \<longleftrightarrow> mode = ResponseMode_Stream" "\<not> is_stream mode \<longleftrightarrow> mode = ResponseMode_Buffered"
  by (cases mode; simp add: is_stream_def)+

lemma good_iteration_return_stream:
  assumes "is_stream mode"
  shows "good_iteration K mode m (return_stream K completion st gp g h response t w)"
proof -
  obtain hooks g' w' where l: "into_stream_lifecycle (circuit_outcome K) (adaptive_outcome K)
      (budget_record_success K) completion g w = (hooks, g', w')"
    by (metis prod_cases3)
  have "case hooks of None \<Rightarrow> True | Some h \<Rightarrow> stream_resilience_hooks.sh_retry_budget h = budget_record_success K"
    using l by (auto simp: into_stream_lifecycle_def Let_def split_def split: request_completion.splits if_splits)
  then show ?thesis
    using assms l by (simp add: stream_mode return_stream_def stream_response_def stream_ok_def lifecycle_ok_def live_lifecycle_of_def)
qed

lemma decode_response_body_bound:
  "decode_response_body_limited K body hs max_bytes s context w = (Ok decoded, w') \<Longrightarrow>
   length body \<le> max_bytes \<Longrightarrow> max_bytes < usize_max \<Longrightarrow> length decoded \<le> max_bytes"
  by (auto simp: decode_response_body_limited_def Let_def split: if_splits result.splits
      dest: decode_content_encoded_body_bound)

lemma handle_body_read_failure_no_body:
  "handle_body_read_failure K b failure w \<noteq> (Ok (BodyRead_Body bytes), x)"
  by (auto simp: handle_body_read_failure_def split: body_read_failure.splits prod.splits result.splits
      retry_schedule.splits)

lemma read_decoded_response_body_bound:
  assumes "read_decoded_response_body_with_retry K response hs s b w = (Ok (BodyRead_Body decoded), x)"
    and "br_max_response_body_bytes b < usize_max"
  shows "length decoded \<le> br_max_response_body_bytes b"
proof -
  obtain body a w1 w2 w3 w4 where r: "read_response_body_with_retry K response b w1 = (Ok (BodyRead_Body body), a, w2)"
    and d: "decode_response_body_limited K body hs (br_max_response_body_bytes b) s (br_context b) w3 = (Ok decoded, w4)"
    using assms(1) by (auto simp: read_decoded_response_body_with_retry_def
        split: prod.splits option.splits result.splits body_read_outcome.splits)
  have "read_reader_limited (hr_body response) (br_max_response_body_bytes b) = Ok body"
    using r handle_body_read_failure_no_body
    by (fastforce simp: read_response_body_with_retry_def Let_def split: prod.splits result.splits
        read_body_error.splits)
  from read_reader_limited_bound [OF this assms(2)] show ?thesis
    by (rule decode_response_body_bound [OF d _ assms(2)])
qed

lemma good_iteration_read_and_finish:
  assumes "is_success (hr_status response) \<Longrightarrow> mode = ResponseMode_Buffered"
  shows "good_iteration K mode (op_max_response_body_bytes (es_options st))
    (read_and_finish K mode st body gp context g h response w)"
proof -
  obtain now w1 where n: "instant_now K w = (now, w1)" by force
  show ?thesis
  proof (cases "es_phase_timeout now st")
    case None
    then show ?thesis unfolding read_and_finish_def Let_def by (simp add: n)
  next
    case (Some rt)
    let ?b = "es_body_read_retry_context context rt st"
    obtain r hs a w2 where rd: "read_decoded_response_body_with_retry K response (hr_headers response)
        (hr_status response) ?b w1 = (r, hs, a, w2)" by (metis prod_cases4)
    obtain r' g' w3 where rec: "record_failure_on_error (circuit_outcome K) (adaptive_outcome K) r g w2 =
        (r', g', w3)" by (metis prod_cases3)
    have "length bytes \<le> op_max_response_body_bytes (es_options st)"
      if "r = Ok (BodyRead_Body bytes)" "op_max_response_body_bytes (es_options st) < usize_max" for bytes
      using read_decoded_response_body_bound [OF rd [unfolded that(1)]] that(2)
      by (simp add: es_body_read_retry_context_def)
    then show ?thesis
      using record_failure_keeps_result(2) [OF rec] assms unfolding read_and_finish_def Let_def
      by (cases mode) (auto simp: n Some rd rec is_buffered_def split: result.split body_read_outcome.split)
  qed
qed

lemma good_iteration_handle_response:
  "good_iteration K mode (op_max_response_body_bytes (es_options st))
    (handle_response K mode st body gp context g h response t w)"
proof -
  have keep: "\<exists>attempt. st' = st\<lparr> es_attempt := attempt \<rparr>"
    if "prepare_status_retry K st context s hs w = (r, st', w')" for s hs w r st' w'
    using settles_prepare_status_retry [OF that] by blast
  have read: "good_iteration K mode (op_max_response_body_bytes (es_options st))
      (read_and_finish K mode (st\<lparr> es_attempt := a \<rparr>) body gp context g' h response w')"
    if "is_success (hr_status response) \<longrightarrow> \<not> is_stream mode" for a g' w'
    using good_iteration_read_and_finish [of response mode K "st\<lparr> es_attempt := a \<rparr>" body gp "context" g' h w']
      that by (simp add: stream_mode(2))
  have non_success: "good_iteration K mode (op_max_response_body_bytes (es_options st))
      (handle_non_success K mode st body gp context g h response t w)" if "\<not> is_success (hr_status response)" for w
    using that unfolding handle_non_success_def Let_def
    by (auto simp: read good_iteration_return_stream split: prod.split result.split retry_schedule.split dest!: keep)
  show ?thesis
    using non_success read [of "es_attempt st"] unfolding handle_response_def Let_def
    by (auto simp: good_iteration_return_stream split: prod.split result.split option.split)
qed

lemma send_attempt_good:
  "good_iteration K mode (op_max_response_body_bytes (es_options st))
    (send_attempt K mode st body gp context g h w)"
proof -
  have "good_iteration K mode (op_max_response_body_bytes (es_options st)) (handle_response K mode
      (tighten_retry_eligibility hs (ci_retry_eligibility K) st) body gp context g h response t w)"
    for hs body "context" g h response t w
    by (rule good_iteration_handle_response [where st = "tighten_retry_eligibility hs (ci_retry_eligibility K) st",
        unfolded tighten_keeps])
  then show ?thesis
    unfolding send_attempt_def Let_def
    by (auto simp: good_iteration_transport_failed split: prod.split result.split option.split)
qed

lemma attempt_iteration_good:
  assumes "attempt_iteration K mode st body gp w = Some x"
  shows "good_iteration K mode (op_max_response_body_bytes (es_options st)) x"
  using assms send_attempt_good
  by (auto simp: attempt_iteration_def Let_def split: option.splits prod.splits result.splits)

lemma retry_loop_good:
  assumes "retry_loop K mode st body gp w = Some (r, w')"
  shows "good_result K mode (op_max_response_body_bytes (es_options st)) r"
  using assms
proof (induction rule: retry_loop_induct)
  case (exhausted st body w)
  then show ?case by simp
next
  case (finish st body w r left w1)
  then show ?case using attempt_iteration_good [OF finish(2)] by simp
next
  case (again st body w st' body' w1 r w')
  have "es_options st' = es_options st"
    using attempt_iteration_iterates [OF again(2)] by (auto simp: iterates_def dest: goes_on_keeps(2))
  then show ?case using again by simp
qed

subsection \<open>Whole requests\<close>

lemma quiet_pending:
  "begin_pending K w = (p, w') \<Longrightarrow> quiet w w'" "quiet w (end_pending K started r p w)"
  "stream_pending K s p w = (c, w') \<Longrightarrow> quiet w w'"
proof -
  show "begin_pending K w = (p, w') \<Longrightarrow> quiet w w'" "stream_pending K s p w = (c, w') \<Longrightarrow> quiet w w'"
    by (auto simp: begin_pending_def stream_pending_def split_def Let_def settles_def collected_def)
  obtain now w1 where n: "instant_now K w = (now, w1)" by force
  show "quiet w (end_pending K started r p w)"
    using quiet_settles [OF quiet_readings(1) [OF n] quiet_basic(4)] by (simp add: end_pending_def n Let_def)
qed

lemma send_request_with_retry_mode_loop:
  assumes "send_request_with_retry_mode K input mode gp started w = Some y"
  obtains st body where "from_request input started (ci_retry_eligibility K) = (st, body)"
    "retry_loop K mode st body gp w = Some y" "es_options st = ri_execution_options input"
  using assms
  by (auto simp: send_request_with_retry_mode_def from_request_def Let_def split: prod.splits)

text \<open>
  The start of a request: the preparation fails, the wait for the global permit times out, or the
  loop runs with the permit.
\<close>

definition starts_request ::
    "('h, 'v, 'u, 'w, 'n, 'b) client \<Rightarrow> ('h, 'u, 'b request_body) retry_request_input \<Rightarrow> ('h, 'b) world \<Rightarrow>
     instant \<Rightarrow> unit option \<Rightarrow> ('h, 'b) world \<Rightarrow> bool" where
  "starts_request K input w started gp w1 \<longleftrightarrow> takes (global_resources gp) w w1 \<and>
     w_now w \<le> started \<and> started \<le> w_now w1"

lemma starts_request_cases:
  assumes "instant_now K w = (started, w1)" "begin_pending K w1 = (p, w2)"
    and "acquire_global_request_permit K total_timeout started meth uri w2 = Some (r, w3)"
  shows "takes (granted global_resources r) w w3 \<and> w_now w \<le> started \<and> started \<le> w_now w3"
  using quiet_readings(1) [OF assms(1)] instant_now_now [OF assms(1)] quiet_pending(1) [OF assms(2)]
    takes_acquire_global [OF assms(3)]
  by (auto simp: takes_def settles_def)

lemma send_request_cases [consumes 1, case_names unprepared no_permit ran]:
  assumes "send_request K meth path headers body overrides w = Some (r, w')"
    and unprepared: "\<And>e. request_preparation K (ci_buffered_auto_accept_encoding K) meth path headers body
        overrides = Err e \<Longrightarrow> r = Err e \<Longrightarrow> w' = w \<Longrightarrow> P"
    and no_permit: "\<And>input started e w1. request_preparation K (ci_buffered_auto_accept_encoding K) meth path
        headers body overrides = Ok input \<Longrightarrow> r = Err e \<Longrightarrow>
        e = deadline_exceeded_error (op_total_timeout (ri_execution_options input)) (ri_method input)
          (ri_redacted_uri_text input) \<Longrightarrow> starts_request K input w started None w1 \<Longrightarrow> quiet w1 w' \<Longrightarrow> P"
    and ran: "\<And>input started gp w1 q w2 w3. request_preparation K (ci_buffered_auto_accept_encoding K) meth path
        headers body overrides = Ok input \<Longrightarrow> starts_request K input w started gp w1 \<Longrightarrow>
        send_request_with_retry_mode K input ResponseMode_Buffered None started w1 = Some (q, w2) \<Longrightarrow>
        (case q of
           Err e \<Rightarrow> r = Err e \<and> w3 = w2
         | Ok (Response_Buffered b) \<Rightarrow> r = Ok b \<and> w3 = w2
         | Ok (Response_Stream s) \<Rightarrow> (\<exists>e. r = Err e) \<and> w3 = stream_drop K s w2) \<Longrightarrow>
        settles (global_resources gp) [] w3 w' \<Longrightarrow> P"
  shows P
proof (cases "request_preparation K (ci_buffered_auto_accept_encoding K) meth path headers body overrides")
  case (Err e)
  then show ?thesis using assms(1) unprepared by (simp add: send_request_def)
next
  case (Ok input)
  obtain started w1 where n: "instant_now K w = (started, w1)" by force
  obtain p w2 where p: "begin_pending K w1 = (p, w2)" by force
  let ?total = "op_total_timeout (ri_execution_options input)" and ?m = "ri_method input"
    and ?u = "ri_redacted_uri_text input"
  note def = send_request_def Ok n p
  obtain q w3 where a: "acquire_global_request_permit K ?total started ?m ?u w2 = Some (q, w3)"
    using assms(1) by (auto simp: def Let_def split: option.splits)
  note start = starts_request_cases [OF n p a]
  show ?thesis
  proof (cases q)
    case (Err e)
    have "ci_has_request_limiters K" using a Err by (auto simp: acquire_global_request_permit_def split: if_splits)
    then obtain r1 where "q = map_err (\<lambda>_. deadline_exceeded_error ?total ?m ?u) (r1 :: (unit option, acquire_permit_error) result)"
      using a by (auto simp: acquire_global_request_permit_def)
    then have e: "e = deadline_exceeded_error ?total ?m ?u" using Err by (cases r1) auto
    show ?thesis
      using assms(1) no_permit [OF Ok _ e, of started w3] start Err a quiet_pending(2) [of w3 K started "Err e" p]
      by (auto simp: def Let_def starts_request_def)
  next
    case (Ok gp)
    obtain q2 w4 where l: "send_request_with_retry_mode K input ResponseMode_Buffered None started w3 = Some (q2, w4)"
      using assms(1) a Ok by (auto simp: def Let_def split: option.splits)
    have s: "starts_request K input w started gp w3" using start Ok by (simp add: starts_request_def)
    have drop: "settles (global_resources gp) [] w5 (global_permit_drop K gp (end_pending K started x p w5))" for x w5
      by (rule quiet_settles [OF quiet_pending(2) settles_permits(1)])
    show ?thesis
      using ran [OF \<open>request_preparation K _ meth path headers body overrides = Ok input\<close> s l] assms(1) a Ok l drop
      by (auto simp: def Let_def split: result.splits retry_response.splits)
  qed
qed

lemma send_request_stream_cases [consumes 1, case_names failed streamed]:
  assumes "send_request_stream K meth path headers body overrides w = Some (r, w')"
    and failed: "\<And>e. r = Err e \<Longrightarrow> P"
    and streamed: "\<And>input started gp w1 s w2 c. request_preparation K (ci_stream_auto_accept_encoding K) meth path
        headers body overrides = Ok input \<Longrightarrow> starts_request K input w started gp w1 \<Longrightarrow>
        send_request_with_retry_mode K input ResponseMode_Stream gp started w1 = Some (Ok (Response_Stream s), w2) \<Longrightarrow>
        r = Ok (stream_attach_completion (started, c) s) \<Longrightarrow> quiet w2 w' \<Longrightarrow> P"
  shows P
proof (cases r)
  case (Err e)
  then show ?thesis by (rule failed)
next
  case (Ok s')
  obtain input where i: "request_preparation K (ci_stream_auto_accept_encoding K) meth path headers body overrides = Ok input"
    using assms(1) Ok by (auto simp: send_request_stream_def split: result.splits)
  obtain started w1 where n: "instant_now K w = (started, w1)" by force
  obtain p w2 where p: "begin_pending K w1 = (p, w2)" by force
  note def = send_request_stream_def i n p
  obtain gp w3 where a: "acquire_global_request_permit K (op_total_timeout (ri_execution_options input)) started
      (ri_method input) (ri_redacted_uri_text input) w2 = Some (Ok gp, w3)"
    using assms(1) Ok by (auto simp: def Let_def split: option.splits result.splits)
  obtain s w4 c w5 where
      l: "send_request_with_retry_mode K input ResponseMode_Stream gp started w3 = Some (Ok (Response_Stream s), w4)"
      and c: "stream_pending K (bs_status s) p w4 = (c, w5)"
      and s': "s' = stream_attach_completion (started, c) s" "w' = w5"
    using assms(1) Ok a
    by (auto simp: def Let_def split: option.splits result.splits retry_response.splits prod.splits)
  have "starts_request K input w started gp w3"
    using starts_request_cases [OF n p a] by (simp add: starts_request_def)
  from streamed [OF i this l] show ?thesis using Ok s' quiet_pending(3) [OF c] by simp
qed

lemma stream_attach_completion_resources [simp]:
  "stream_resources (stream_attach_completion c s) = stream_resources s"
  "stream_ok K (stream_attach_completion c s) = stream_ok K s"
  by (simp_all add: stream_attach_completion_def stream_resources_def lifecycle_resources_def stream_ok_def lifecycle_ok_def)

text \<open>What the loop of a buffered request does.\<close>

lemma buffered_loop:
  assumes "send_request_with_retry_mode K input ResponseMode_Buffered None started w = Some (q, w')"
  shows "acquired w' + released w = acquired w + released w' + result_resources q"
    and "errors w' = errors w @ failed q" and "w_now w \<le> w_now w'"
  using send_request_with_retry_mode_loop [OF assms] retry_loop_accounts by (metis add.right_neutral resources_simps(4))+

lemma loop_result_good:
  assumes "send_request_with_retry_mode K input mode gp started w = Some (q, w')"
  shows "good_result K mode (op_max_response_body_bytes (ri_execution_options input)) q"
  using send_request_with_retry_mode_loop [OF assms] retry_loop_good by metis

lemma loop_refines:
  assumes "send_request_with_retry_mode K input mode gp started w = Some (q, w')"
    and "valid_limits (ri_execution_options input)"
  shows "\<exists>qs. sent w' = sent w @ qs \<and> refines_execution K input started 0 qs \<and> streamed qs \<le> 1 \<and>
    (\<forall>q \<in> set qs. w_now w \<le> fst q)"
proof -
  obtain st body where f: "from_request input started (ci_retry_eligibility K) = (st, body)"
    and l: "retry_loop K mode st body gp w = Some (q, w')"
    using send_request_with_retry_mode_loop [OF assms(1)] by blast
  obtain qs where qs: "sent w' = sent w @ qs" "attempts K (request_from K) st body qs" "\<forall>q \<in> set qs. w_now w \<le> fst q"
    using retry_loop_attempts [OF l] by blast
  then show ?thesis
    using blocking_requests.attempts_refine [OF qs(2) assms(2) from_request_reachable(1,2) [OF f]]
      from_request_reachable(3) [OF f] by (auto split: if_splits)
qed

lemma refines_execution_headers:
  assumes "refines_execution K input started 0 qs" "valid_limits (ri_execution_options input)" "q \<in> set qs"
  shows "\<exists>headers. tr_headers (snd q) = hm_remove (li_headers K) ''proxy-authorization'' headers"
  using blocking_requests.refines_each(1) [OF assms] by (auto simp: request_from_def)

lemma request_preparation_options:
  "request_preparation K auto meth path headers body overrides = Ok input \<Longrightarrow>
   overrides_resolve overrides (ci_request_defaults K) = (Ok (ri_execution_options input) :: (request_execution_options, 'h error) result)"
  for K :: "('h, 'v, 'u, 'w, 'n, 'b) client"
  by (auto simp: request_preparation_def prepare_retry_request_input_def result_bind_Ok_iff Let_def split: prod.splits)

lemma prepared_limits:
  assumes "request_preparation K auto meth path headers body overrides = Ok input"
    and "options_valid (ci_request_defaults K)"
    and "redirect_max_redirects (op_redirect_policy (ri_execution_options input)) \<le> usize_max"
  shows "valid_limits (ri_execution_options input)"
  using overrides_resolve_valid [OF assms(2) request_preparation_options [OF assms(1)]] assms(3)
  by (auto simp: options_valid_def retry_policy_valid_def valid_limits_def)

lemma send_request_sends:
  assumes "send_request K meth path headers body overrides w = Some (r, w')"
    and "request_preparation K (ci_buffered_auto_accept_encoding K) meth path headers body overrides = Ok input"
    and "valid_limits (ri_execution_options input)"
  shows "\<exists>qs started. sent w' = sent w @ qs \<and> refines_execution K input started 0 qs \<and> streamed qs \<le> 1 \<and>
    w_now w \<le> started \<and> (\<forall>q \<in> set qs. started \<le> fst q)"
  using assms(1)
proof (cases rule: send_request_cases)
  case (unprepared e)
  then show ?thesis using assms(2) by simp
next
  case (no_permit input' started e w1)
  then show ?thesis
    by (intro exI [of _ "[]"] exI [of _ started])
       (auto simp: starts_request_def takes_def settles_def streamed_def)
next
  case (ran input' started gp w1 q w2 w3)
  have "input' = input" using ran(1) assms(2) by simp
  then obtain qs where qs: "sent w2 = sent w1 @ qs" "refines_execution K input started 0 qs" "streamed qs \<le> 1"
      "\<forall>q \<in> set qs. w_now w1 \<le> fst q"
    using loop_refines [OF ran(3)] assms(3) by blast
  have "sent w3 = sent w2"
  proof (cases "\<exists>s. q = Ok (Response_Stream s)")
    case True
    then show ?thesis using loop_result_good [OF ran(3)] by auto
  next
    case False
    then show ?thesis using ran(4) by (auto split: result.splits retry_response.splits)
  qed
  then show ?thesis
    using qs ran(2,5)
    by (intro exI [of _ qs] exI [of _ started]) (auto simp: starts_request_def takes_def settles_def)
qed

lemma send_request_returns:
  assumes "time_passes K" "valid_limits (ri_execution_options input)"
    and "request_preparation K (ci_buffered_auto_accept_encoding K) meth path headers body overrides = Ok input"
    and "has_deadline (op_total_timeout (ri_execution_options input)) (fst (instant_now K w))"
  shows "\<exists>r w'. send_request K meth path headers body overrides w = Some (r, w')"
proof -
  obtain started w1 where n: "instant_now K w = (started, w1)" by force
  obtain p w2 where p: "begin_pending K w1 = (p, w2)" by force
  have d: "has_deadline (op_total_timeout (ri_execution_options input)) started" using assms(4) n by simp
  obtain q w3 where a: "acquire_global_request_permit K (op_total_timeout (ri_execution_options input)) started
      (ri_method input) (ri_redacted_uri_text input) w2 = Some (q, w3)"
    using acquire_returns(2) [OF assms(1) d] by blast
  obtain q2 w4 where l: "send_request_with_retry_mode K input ResponseMode_Buffered None started w3 = Some (q2, w4)"
    using send_request_with_retry_mode_returns [OF assms(1,2) d] by blast
  show ?thesis
    by (cases q) (simp_all add: send_request_def assms(3) n p a l split_def Let_def)
qed

end
