(* ===== verification/Reqx_BlockingProperties.thy ===== *)
theory Reqx_BlockingProperties
  imports Reqx_BlockingRequest
begin

text \<open>
  The properties of the blocking client's requests, each with a run of a concrete client: one
  permit for all requests, a circuit breaker, the standard retry policy, and a server that refuses the
  first connection and answers the second.
\<close>

subsection \<open>An example\<close>

definition example_response :: "string \<Rightarrow> alist_header_map http_response" where
  "example_response b = \<lparr> hr_status = 200, hr_headers = [], hr_body = [ReadChunk b] \<rparr>"

definition example_transport ::
    "nat \<Rightarrow> (alist_header_map, unit) transport_request \<Rightarrow> (alist_header_map http_response, ureq_error) result" where
  "example_transport t q = (if t < 12 then Err Ureq_ConnectionFailed else Ok (example_response ''ok''))"

definition example_options :: request_execution_options where
  "example_options = \<lparr> op_request_timeout = 1000, op_total_timeout = Some 1000000,
     op_retry_policy = retry_policy_standard, op_max_response_body_bytes = 5,
     op_redirect_policy = redirect_policy_none, op_status_policy = StatusPolicy_Error \<rparr>"

definition example_client ::
    "(alist_header_map, string \<times> bool, triple_uri, unit, unit, unit) client" where
  "example_client = \<lparr> li_headers = alist_headers,
     li_header_values = \<lparr> hn_parse = (\<lambda>s. Ok s), hv_parse = (\<lambda>s. Ok (s, False)), hv_set_sensitive = (\<lambda>b v. (fst v, b)) \<rparr>,
     li_iter_mut = (\<lambda>f. map (\<lambda>(k, v). (k, f k v))), li_uris = triple_uris, li_urls = no_urls,
     li_proxies = example_proxy_ops, li_codecs = example_codecs, li_parse_date = (\<lambda>_. None),
     li_enabled_encodings = None,
     li_tls_features = \<lparr> ft_blocking_rustls = True, ft_blocking_native = False \<rparr>,
     li_ureq_error_box = (\<lambda>_. BoxError ''refused'' None), li_build_request = (\<lambda>_ _ _. Ok ()),
     en_elapsed = (\<lambda>_. 2), en_others = (\<lambda>_ s. s), en_monotonic = (\<lambda>t. t), en_system = (\<lambda>_. 0),
     en_sample = (\<lambda>_ low high. low), en_wait_timed_out = (\<lambda>_. False), en_transport = example_transport,
     ci_base_url = ''http://h'', ci_default_headers = [], ci_request_defaults = example_options,
     ci_buffered_auto_accept_encoding = False, ci_stream_auto_accept_encoding = False,
     ci_stream_deadline_slack = 0, ci_retry_eligibility = (\<lambda>_ _. True), ci_retry_budget = None,
     ci_circuit_breaker = Some \<lparr> cbp_failure_threshold = 5, cbp_open_timeout = 100,
       cbp_half_open_max_requests = 1, cbp_half_open_success_threshold = 1 \<rparr>,
     ci_adaptive_concurrency = None, ci_has_rate_limiter = False,
     ci_server_throttle_scope = Scope_Auto, ci_has_proxy_agent = False, ci_proxy_config = None,
     ci_endpoint_selector = None, ci_backoff_source = Some (\<lambda>_ _. 7), ci_connect_timeout = 10,
     ci_has_request_limiters = True, ci_interceptors = [] \<rparr>"

definition example_shared :: shared_state where
  "example_shared = \<lparr> sh_retry_budget = retry_budget_new 0, sh_circuit_breaker = circuit_breaker_new,
     sh_adaptive_concurrency = \<lparr> ac_in_flight = 0, ac_current_limit = 1, ac_ewma_latency_ms = Fin 0 \<rparr>,
     sh_rate_limiter = \<lparr> rl_global = None, rl_per_host_policy = None, rl_per_host = [], rl_cleanup_origin = 0,
       rl_last_cleanup_ms = 0 \<rparr>,
     sh_request_limiters = \<lparr> lim_global = Some 1, lim_per_host_limit = None, lim_per_host = [],
       lim_heap = (\<lambda>_. \<lparr> sc_permits = 0, sc_strong_count = 0 \<rparr>), lim_next_address = 0 \<rparr>,
     sh_metrics = None \<rparr>"

definition example_world :: "(alist_header_map, unit) world" where
  "example_world = \<lparr> w_now = 0, w_tick = 0, w_shared = example_shared, w_log = [] \<rparr>"

definition no_overrides :: request_execution_overrides where
  "no_overrides = \<lparr> ov_request_timeout = None, ov_total_timeout = None, ov_retry_policy = None,
     ov_max_response_body_bytes = None, ov_redirect_policy = None, ov_status_policy = None, ov_auto_accept_encoding = None \<rparr>"

definition example_stream :: "(alist_header_map, unit) blocking_response_stream" where
  "example_stream = \<lparr> bs_status = 200, bs_headers = [],
     bs_body = Some [ReadChunk ''ok'', ReadInterrupted, ReadChunk ''ay''], bs_method = method_GET,
     bs_uri_raw = ''http://h/a'', bs_uri_redacted = ''http://h/a'', bs_timeout_ms = 1,
     bs_total_timeout_ms = None, bs_deadline_at = None, bs_deadline_slack = 0,
     bs_lifecycle = live_lifecycle_of None, bs_global_permit = None, bs_host_permit = None \<rparr>"

definition example_input :: "(alist_header_map, triple_uri, unit request_body) retry_request_input" where
  "example_input = \<lparr> ri_method = method_GET, ri_uri = (Some ''http'', Some ''h'', ''/a''),
     ri_redacted_uri_text = redact_uri_for_logs no_urls ''http://h/a'', ri_merged_headers = [], ri_body = request_body_default,
     ri_execution_options = example_options \<rparr>"

lemmas example_preparation_defs = request_preparation_def prepare_retry_request_input_def
  select_base_url_def resolve_uri_def triple_uris_def no_overrides_def overrides_resolve_def
  validate_timeout_config_def Let_def join_base_path_def strip_prefix_def starts_with_def
  trim_end_matches_def uri_has_userinfo_def merge_headers_def alist_headers_def
  example_input_def example_options_def

lemma example_client_simps:
  "li_headers example_client = alist_headers"
  "li_header_values example_client = \<lparr> hn_parse = (\<lambda>s. Ok s), hv_parse = (\<lambda>s. Ok (s, False)), hv_set_sensitive = (\<lambda>b v. (fst v, b)) \<rparr>"
  "li_iter_mut example_client = (\<lambda>f. map (\<lambda>(k, v). (k, f k v)))"
  "li_uris example_client = triple_uris"
  "li_urls example_client = no_urls"
  "li_proxies example_client = example_proxy_ops"
  "li_codecs example_client = example_codecs"
  "li_parse_date example_client = (\<lambda>_. None)"
  "li_enabled_encodings example_client = None"
  "li_tls_features example_client = \<lparr> ft_blocking_rustls = True, ft_blocking_native = False \<rparr>"
  "li_ureq_error_box example_client = (\<lambda>_. BoxError ''refused'' None)"
  "li_build_request example_client = (\<lambda>_ _ _. Ok ())"
  "en_elapsed example_client = (\<lambda>_. 2)"
  "en_others example_client = (\<lambda>_ s. s)"
  "en_monotonic example_client = (\<lambda>t. t)"
  "en_system example_client = (\<lambda>_. 0)"
  "en_sample example_client = (\<lambda>_ low high. low)"
  "en_wait_timed_out example_client = (\<lambda>_. False)"
  "en_transport example_client = example_transport"
  "ci_base_url example_client = ''http://h''"
  "ci_default_headers example_client = []"
  "ci_request_defaults example_client = example_options"
  "ci_buffered_auto_accept_encoding example_client = False"
  "ci_stream_auto_accept_encoding example_client = False"
  "ci_stream_deadline_slack example_client = 0"
  "ci_retry_eligibility example_client = (\<lambda>_ _. True)"
  "ci_retry_budget example_client = None"
  "ci_circuit_breaker example_client = Some \<lparr> cbp_failure_threshold = 5, cbp_open_timeout = 100,
       cbp_half_open_max_requests = 1, cbp_half_open_success_threshold = 1 \<rparr>"
  "ci_adaptive_concurrency example_client = None"
  "ci_has_rate_limiter example_client = False"
  "ci_server_throttle_scope example_client = Scope_Auto"
  "ci_has_proxy_agent example_client = False"
  "ci_proxy_config example_client = None"
  "ci_endpoint_selector example_client = None"
  "ci_backoff_source example_client = Some (\<lambda>_ _. 7)"
  "ci_connect_timeout example_client = 10"
  "ci_has_request_limiters example_client = True"
  "ci_interceptors example_client = []"
  by (simp_all add: example_client_def)

lemma example_preparation:
  "request_preparation example_client False method_GET ''/a'' [] None no_overrides = Ok example_input"
  by (simp add: example_preparation_defs example_client_simps)

lemmas example_world_defs =
  tick_def log_event_def instant_now_def now_monotonic_def now_system_def thread_sleep_def
  lock_shared_def set_shared_def with_shared_def Let_def

lemmas example_start_defs =
  acquire_global_request_permit_def limiters_acquire_global_def total_timeout_deadline_def
  checked_add_def instant_max_def semaphore_acquire.simps semaphore_acquire_iteration_def
  global_permits_def set_global_permits_def begin_pending_def metrics_pending_request_def
  enter_in_flight_def record_request_started_def example_world_def example_shared_def

lemmas example_loop_defs =
  send_request_with_retry_mode_def from_request_def is_replayable_def request_body_default_def
  retry_loop.simps can_attempt_def attempt_iteration_def admit_attempt_def acquire_rate_limit_slot_def
  acquire_host_request_permit_def limiters_acquire_host_def acquire_host_def begin_circuit_attempt_def
  begin_adaptive_attempt_def run_request_start_observers_def circuit_begin_def update_limiters_def
  circuit_breaker_new_def retry_policy_standard_def send_attempt_def run_request_interceptors_def
  tighten_retry_eligibility_def validate_request_framing_headers_def known_length_def
  alist_headers_def alist_get_all_def mark_sensitive_headers_def es_phase_timeout_def
  phase_timeout_def saturating_duration_since_def take_for_attempt_def run_once_def
  run_configured_request_def select_agent_def validate_proxy_authorization_def example_transport_def
  example_response_def handle_response_def es_next_redirect_action_def next_redirect_action_def
  redirect_policy_none_def redirect_enabled_def run_response_interceptors_def is_stream_def
  is_success_def read_and_finish_def read_decoded_response_body_with_retry_def check_body_deadline_def
  error_if_elapsed_def br_deadline_def total_timeout_expired_def es_body_read_retry_context_def
  read_response_body_with_retry_def read_reader_limited_def read_reader_loop.simps sat_add_def
  decode_response_body_limited_def should_decode_content_encoded_body_def
  decode_content_encoded_body_limited_def content_encodings.simps record_failure_on_error_def
  return_response_def record_completed_def record_attempt_def guards_mark_success_def take_and_def
  circuit_outcome_def circuit_attempt_end_def circuit_finish_def exit_scope_def guards_drop_def
  host_permit_drop_def global_permit_drop_def end_pending_def budget_record_success_def
  set_adaptive_def rate_limit_host_def es_context_def request_context_new_def

lemmas example_retry_defs = transport_failed_def transport_failure_error_def is_transport_timeout_def
  sample_now_def transport_failure_plan_of_def es_transport_retry_decision_from_error_def
  transport_retry_decision_from_error_def transport_error_def transport_retry_decision_def
  retry_decision_new_def es_retry_backoff_def retry_backoff_def prepare_retry_def
  prepare_retry_schedule_def es_retry_attempt_def should_retry_decision_def
  classify_ureq_transport_error_def default_retryable_transport_error_kinds_def
  bounded_retry_delay_def try_consume_retry_budget_def run_retry_observers_def
  is_within_retry_window_def record_failure_for_retry_schedule_def guards_mark_failure_def
  continue_after_def decision_transport_error_kind_def bt_get_def
  circuit_attempt_mark_failure_def circuit_attempt_mark_success_def circuit_attempt_drop_def
  circuit_record_failure_def circuit_record_success_def record_retry_def

lemma example_run:
  "\<exists>w'. send_request example_client method_GET ''/a'' [] None no_overrides example_world =
       Some (Ok \<lparr> rs_status = 200, rs_headers = [], rs_body = ''ok'' \<rparr>, w') \<and>
     length (sent w') = 2 \<and> size (acquired w') = 3"
  by (simp add: send_request_def example_preparation example_client_simps example_input_def
      example_options_def example_world_defs example_start_defs example_loop_defs example_retry_defs
      max_values collected_def)

lemmas example_stream_defs = send_request_stream_def return_stream_def into_stream_lifecycle_def
  guards_take_def guards_is_empty_def stream_response_def stream_pending_def pending_into_stream_def
  pending_request_drop_def in_flight_guard_drop_def live_lifecycle_of_def stream_attach_completion_def
  stream_resources_def lifecycle_resources_def guard_resources_def

lemma example_stream_run:
  "\<exists>s w'. send_request_stream example_client method_GET ''/a'' [] None no_overrides example_world =
       Some (Ok s, w') \<and> size (stream_resources s) = 2"
  by (simp add: example_preparation example_client_simps example_input_def example_options_def
      example_world_defs example_start_defs example_loop_defs example_retry_defs example_stream_defs max_values)

lemma example_options_ok [simp]:
  "options_valid (ci_request_defaults example_client)" "valid_limits (ri_execution_options example_input)"
  "redirect_max_redirects (op_redirect_policy (ri_execution_options example_input)) \<le> usize_max"
proof -
  show "options_valid (ci_request_defaults example_client)"
    by (simp add: example_client_simps example_options_def options_valid_def retry_policy_standard_valid)
  show "valid_limits (ri_execution_options example_input)"
    "redirect_max_redirects (op_redirect_policy (ri_execution_options example_input)) \<le> usize_max"
    by (simp_all add: example_input_def example_options_def valid_limits_def redirect_policy_none_def
        retry_policy_standard_def)
qed

lemma example_preparation' [simp]:
  "request_preparation example_client (ci_buffered_auto_accept_encoding example_client) method_GET ''/a'' [] None
     no_overrides = Ok example_input"
  by (simp add: example_client_simps example_preparation)

lemma example_log [simp]: "collected f example_world = []"
  by (simp add: example_world_def collected_def)

subsection \<open>Properties\<close>

text \<open>
  C1: A request leaks nothing. Whatever happens to it (a retry, a redirect, an error at any point, a
  success), every permit of the global and of the per-host limit, every permit of the adaptive
  controller and every attempt of the circuit breaker that it has acquired is released exactly once
  by the time it returns.
\<close>

theorem request_resources_balanced:
  assumes "send_request K meth path headers body overrides w = Some (r, w')"
  shows "acquired w' + released w = acquired w + released w'"
  using assms
proof (cases rule: send_request_cases)
  case (unprepared e)
  then show ?thesis by simp
next
  case (no_permit input started e w1)
  then show ?thesis by (auto simp: starts_request_def takes_def settles_def)
next
  case (ran input started gp w1 q w2 w3)
  note loop = buffered_loop(1) [OF ran(3)] and good = loop_result_good [OF ran(3)]
  have "w3 = w2 \<and> result_resources q = {#}"
    using ran(4) good by (cases q) (auto split: retry_response.splits)
  then have loop': "acquired w3 + released w1 = acquired w1 + released w3" using loop by simp
  have start: "acquired w1 = acquired w + global_resources gp" "released w1 = released w"
    using ran(2) by (auto simp: starts_request_def takes_def)
  have fin: "acquired w' = acquired w3" "released w' = released w3 + global_resources gp"
    using ran(5) by (auto simp: settles_def)
  show ?thesis using loop' unfolding start fin by (simp add: ac_simps)
qed

theorem request_resources_balanced_witness:
  "\<exists>r w'. send_request example_client method_GET ''/a'' [] None no_overrides example_world = Some (r, w') \<and>
     size (acquired w') = 3 \<and> acquired w' = released w'"
proof -
  obtain r w' where run: "send_request example_client method_GET ''/a'' [] None no_overrides example_world =
      Some (r, w')" and n: "size (acquired w') = 3"
    using example_run by blast
  then show ?thesis using request_resources_balanced [OF run] by (auto simp: example_log)
qed

text \<open>
  C4: What a stream owns is released once. A request for a stream hands the permits and the guards that
  it still holds over to the stream; whichever way the stream is then used up (dropped, collected as
  bytes or as a response, or copied to a writer, with or without a limit, successfully or not), all
  of them are released, exactly once.
\<close>

theorem stream_request_balanced:
  assumes "send_request_stream K meth path headers body overrides w = Some (Ok s, w1)"
  shows "\<forall>w2 \<in> {stream_drop K s w1, snd (into_bytes_limited K max_bytes s w1),
      snd (into_response_limited K max_bytes s w1), snd (snd (copy_to_writer K wr s w1)),
      snd (snd (copy_to_writer_limited K max_bytes wr s w1))}.
    acquired w2 + released w = acquired w + released w2"
  using assms
proof (cases rule: send_request_stream_cases)
  case (failed e)
  then show ?thesis by simp
next
  case (streamed input started gp w0 s0 w2 c)
  have ok: "stream_ok K s" using loop_result_good [OF streamed(3)] streamed(4) by simp
  obtain st b where "retry_loop K ResponseMode_Stream st b gp w0 = Some (Ok (Response_Stream s0), w2)"
    using send_request_with_retry_mode_loop [OF streamed(3)] by blast
  from retry_loop_accounts [OF this]
  have "acquired w2 + released w0 + global_resources gp = acquired w0 + released w2 + stream_resources s"
    using streamed(4) by simp
  moreover have "acquired w0 = acquired w + global_resources gp" "released w0 = released w"
    using streamed(2) by (auto simp: starts_request_def takes_def)
  moreover have "acquired w1 = acquired w2" "released w1 = released w2"
    using streamed(5) by (auto simp: settles_def)
  ultimately have "acquired w1 + released w = acquired w + released w1 + stream_resources s"
    by (simp add: ac_simps)
  with ok show ?thesis
    using dropped.finish_balances collected_bytes.finish_balances collected_response.finish_balances
      copied.finish_balances copied_limited.finish_balances by auto
qed

theorem stream_request_balanced_witness:
  "\<exists>s w1. send_request_stream example_client method_GET ''/a'' [] None no_overrides example_world =
       Some (Ok s, w1) \<and> size (stream_resources s) = 2 \<and>
     acquired (snd (into_bytes_limited example_client 5 s w1)) =
       released (snd (into_bytes_limited example_client 5 s w1))"
proof -
  obtain s w1 where run: "send_request_stream example_client method_GET ''/a'' [] None no_overrides example_world =
      Some (Ok s, w1)" and n: "size (stream_resources s) = 2"
    using example_stream_run by blast
  then show ?thesis
    using stream_request_balanced [OF run, of 5 "\<lparr> wr_calls = [], wr_written = [] \<rparr>"] by auto
qed

text \<open>
  C23: Errors are reported. When a request that has started its loop returns an error, the error
  interceptors have been called exactly once and with exactly that error; when it returns a response
  they have not been called. The only failures that are not reported are those before the loop, when
  nothing is sent: the preparation of the request fails, or the deadline passes while the request
  waits for the global permit.
\<close>

theorem request_errors_reported:
  assumes "send_request K meth path headers body overrides w = Some (r, w')"
  shows "errors w' = errors w @ failed r \<or>
    errors w' = errors w \<and> sent w' = sent w \<and>
      (\<exists>e. r = Err e \<and>
        (request_preparation K (ci_buffered_auto_accept_encoding K) meth path headers body overrides = Err e \<or>
         (\<exists>input. request_preparation K (ci_buffered_auto_accept_encoding K) meth path headers body overrides = Ok input \<and>
            e = deadline_exceeded_error (op_total_timeout (ri_execution_options input)) (ri_method input)
              (ri_redacted_uri_text input))))"
  using assms
proof (cases rule: send_request_cases)
  case (unprepared e)
  then show ?thesis by simp
next
  case (no_permit input started e w1)
  then have "errors w' = errors w" "sent w' = sent w" by (auto simp: starts_request_def takes_def settles_def)
  then show ?thesis using no_permit(1-3) by blast
next
  case (ran input started gp w1 q w2 w3)
  have "w3 = w2 \<and> failed r = failed q"
    using ran(4) loop_result_good [OF ran(3)] by (cases q) (auto split: retry_response.splits)
  moreover have "errors w1 = errors w" using ran(2) by (auto simp: starts_request_def takes_def)
  moreover have "errors w' = errors w3" using ran(5) by (simp add: settles_def)
  ultimately show ?thesis using buffered_loop(2) [OF ran(3)] by simp
qed

theorem request_errors_reported_witness:
  "\<exists>r w'. send_request example_client method_GET ''/a'' [] None no_overrides example_world = Some (r, w') \<and>
     length (sent w') = 2 \<and> errors w' = failed r"
proof -
  obtain r w' where run: "send_request example_client method_GET ''/a'' [] None no_overrides example_world =
      Some (r, w')" and n: "length (sent w') = 2"
    using example_run by blast
  then show ?thesis using request_errors_reported [OF run] by auto
qed

text \<open>
  C2: The loop of the blocking client refines the abstract execution of a request. The \<open>k\<close>-th request
  that goes out belongs to a state that the abstract execution reaches with \<open>i\<close> retries and \<open>j\<close>
  redirects, \<open>i + j = k\<close>: it has that state's method and target, the body that the state still has, no
  \<open>proxy-authorization\<close> header, the time-out that the state allows at that moment, and goes through the
  proxy exactly when the rules ask for it.
\<close>

theorem blocking_loop_refines_execution:
  assumes "send_request K meth path headers body overrides w = Some (r, w')"
    and "request_preparation K (ci_buffered_auto_accept_encoding K) meth path headers body overrides = Ok input"
    and "options_valid (ci_request_defaults K)"
    and "redirect_max_redirects (op_redirect_policy (ri_execution_options input)) \<le> usize_max"
  shows "\<exists>qs started. sent w' = sent w @ qs \<and> refines_execution K input started 0 qs"
  using send_request_sends [OF assms(1,2) prepared_limits [OF assms(2-4)]] by blast

theorem blocking_loop_refines_execution_witness:
  "\<exists>r w' started. send_request example_client method_GET ''/a'' [] None no_overrides example_world = Some (r, w') \<and>
     length (sent w') = 2 \<and> refines_execution example_client example_input started 0 (sent w')"
proof -
  obtain r w' where run: "send_request example_client method_GET ''/a'' [] None no_overrides example_world =
      Some (r, w')" and n: "length (sent w') = 2"
    using example_run by blast
  then show ?thesis using blocking_loop_refines_execution [OF run example_preparation'] by auto
qed

text \<open>
  C24: A request is sent at most \<open>max_attempts + max_redirects\<close> times, and its body is never sent in part
  or twice when that is not possible: every request that goes out has the body of the caller or, after
  a redirect that drops it, none, and a streaming body goes out at most once.
\<close>

theorem blocking_sends_bounded:
  assumes "send_request K meth path headers body overrides w = Some (r, w')"
    and "request_preparation K (ci_buffered_auto_accept_encoding K) meth path headers body overrides = Ok input"
    and "options_valid (ci_request_defaults K)"
    and "redirect_max_redirects (op_redirect_policy (ri_execution_options input)) \<le> usize_max"
  shows "\<exists>qs. sent w' = sent w @ qs \<and>
    length qs \<le> rp_max_attempts (op_retry_policy (ri_execution_options input)) +
      redirect_max_redirects (op_redirect_policy (ri_execution_options input)) \<and>
    (\<forall>q \<in> set qs. tr_body (snd q) = ri_body input \<or> tr_body (snd q) = request_body_default) \<and>
    streamed qs \<le> 1"
proof -
  note limits = prepared_limits [OF assms(2-4)]
  obtain qs started where "sent w' = sent w @ qs" "refines_execution K input started 0 qs" "streamed qs \<le> 1"
    using send_request_sends [OF assms(1,2) limits] by blast
  then show ?thesis using blocking_requests.refines_bound [OF _ limits] blocking_requests.refines_each(2) [OF _ limits] by blast
qed

theorem blocking_sends_bounded_witness:
  "\<exists>r w'. send_request example_client method_GET ''/a'' [] None no_overrides example_world = Some (r, w') \<and>
     length (sent w') = 2 \<and> length (sent w') \<le> 3 \<and> streamed (sent w') \<le> 1"
proof -
  obtain r w' where run: "send_request example_client method_GET ''/a'' [] None no_overrides example_world =
      Some (r, w')" and n: "length (sent w') = 2"
    using example_run by blast
  then show ?thesis using blocking_sends_bounded [OF run example_preparation'] by auto
qed

text \<open>
  C25: No request outlives its deadline in the transport. Each time a request is handed to the transport,
  the time-out that goes with it is at most the time-out of one attempt, and does not reach beyond the
  deadline of the whole request, however many attempts, waits and sleeps came before.
\<close>

theorem transport_timeouts_within_deadline:
  assumes "send_request K meth path headers body overrides w = Some (r, w')"
    and "request_preparation K (ci_buffered_auto_accept_encoding K) meth path headers body overrides = Ok input"
    and "options_valid (ci_request_defaults K)"
    and "redirect_max_redirects (op_redirect_policy (ri_execution_options input)) \<le> usize_max"
  shows "\<exists>qs started. sent w' = sent w @ qs \<and> w_now w \<le> started \<and>
    (\<forall>(sent_at, q) \<in> set qs. started \<le> sent_at \<and>
       tr_timeout q \<le> op_request_timeout (ri_execution_options input) \<and>
       is_none_or (\<lambda>limit. sent_at + tr_timeout q \<le> started + limit) (op_total_timeout (ri_execution_options input)))"
proof -
  note limits = prepared_limits [OF assms(2-4)]
  obtain qs started where qs: "sent w' = sent w @ qs" "refines_execution K input started 0 qs"
      "w_now w \<le> started" "\<forall>q \<in> set qs. started \<le> fst q"
    using send_request_sends [OF assms(1,2) limits] by blast
  have "started \<le> t \<and> tr_timeout q \<le> op_request_timeout (ri_execution_options input) \<and>
      is_none_or (\<lambda>limit. t + tr_timeout q \<le> started + limit) (op_total_timeout (ri_execution_options input))"
    if q: "(t, q) \<in> set qs" for t q
    using blocking_requests.refines_each(3) [OF qs(2) limits q] qs(4) q
    by (cases "op_total_timeout (ri_execution_options input)")
       (auto simp: phase_timeout_def saturating_duration_since_def Let_def split: if_splits)
  then show ?thesis using qs(1,3) by blast
qed

theorem transport_timeouts_within_deadline_witness:
  "\<exists>r w' started. send_request example_client method_GET ''/a'' [] None no_overrides example_world = Some (r, w') \<and>
     length (sent w') = 2 \<and> (\<forall>(sent_at, q) \<in> set (sent w'). sent_at + tr_timeout q \<le> started + 1000000)"
proof -
  obtain r w' where run: "send_request example_client method_GET ''/a'' [] None no_overrides example_world =
      Some (r, w')" and n: "length (sent w') = 2"
    using example_run by blast
  have "op_total_timeout (ri_execution_options example_input) = Some 1000000"
    by (simp add: example_input_def example_options_def)
  then show ?thesis
    using run n transport_timeouts_within_deadline [OF run example_preparation'] by fastforce
qed

text \<open>
  C3: A request with a total timeout returns. Whatever the other threads do with the permits, the rate
  limiter and the breaker, and whatever the server answers, the waits, the retries and the redirects
  of the request come to an end, provided that the clock advances and that the deadline can be
  represented.
\<close>

theorem blocking_request_terminates:
  assumes "time_passes K"
    and "request_preparation K (ci_buffered_auto_accept_encoding K) meth path headers body overrides = Ok input"
    and "options_valid (ci_request_defaults K)"
    and "redirect_max_redirects (op_redirect_policy (ri_execution_options input)) \<le> usize_max"
    and "has_deadline (op_total_timeout (ri_execution_options input)) (fst (instant_now K w))"
  shows "\<exists>r w'. send_request K meth path headers body overrides w = Some (r, w')"
  by (rule send_request_returns [OF assms(1) prepared_limits [OF assms(2-4)] assms(2,5)])

theorem blocking_request_terminates_witness:
  "\<exists>r w'. send_request example_client method_GET ''/a'' [] None no_overrides example_world = Some (r, w')"
proof (rule blocking_request_terminates [OF _ example_preparation'])
  show "time_passes example_client" by (simp add: time_passes_def example_client_simps)
  show "has_deadline (op_total_timeout (ri_execution_options example_input))
      (fst (instant_now example_client example_world))"
    by (simp add: has_deadline_def total_timeout_deadline_def checked_add_def example_input_def
        example_options_def example_world_def instant_now_def example_client_simps instant_max_def)
qed simp_all

text \<open>
  C26: A buffered response is bounded: its body, after all content decodings, has at most the bytes that
  the request allows.
\<close>

theorem buffered_body_bounded:
  assumes "send_request K meth path headers body overrides w = Some (Ok response, w')"
    and "request_preparation K (ci_buffered_auto_accept_encoding K) meth path headers body overrides = Ok input"
    and "op_max_response_body_bytes (ri_execution_options input) < usize_max"
  shows "length (rs_body response) \<le> op_max_response_body_bytes (ri_execution_options input)"
  using assms(1)
proof (cases rule: send_request_cases)
  case (unprepared e)
  then show ?thesis by simp
next
  case (no_permit input' started e w1)
  then show ?thesis by simp
next
  case (ran input' started gp w1 q w2 w3)
  have "q = Ok (Response_Buffered response)"
    using ran(4) by (cases q) (auto split: retry_response.splits)
  then show ?thesis using loop_result_good [OF ran(3)] ran(1) assms(2,3) by simp
qed

theorem buffered_body_bounded_witness:
  "\<exists>response w'. send_request example_client method_GET ''/a'' [] None no_overrides example_world =
       Some (Ok response, w') \<and> rs_body response = ''ok'' \<and> length (rs_body response) \<le> 5"
proof -
  obtain w' where run: "send_request example_client method_GET ''/a'' [] None no_overrides example_world =
      Some (Ok \<lparr> rs_status = 200, rs_headers = [], rs_body = ''ok'' \<rparr>, w')"
    using example_run by blast
  have "op_max_response_body_bytes (ri_execution_options example_input) = 5"
    by (simp add: example_input_def example_options_def)
  with run show ?thesis using buffered_body_bounded [OF run example_preparation'] by (simp add: max_values)
qed

text \<open>
  C27: A stream that is collected into memory yields the body, or an error. The bytes that are returned
  are all the bytes of the body, in order and within the limit: a body that is too long, or whose
  transport fails half-way, is never returned truncated. Without a deadline every body within the
  limit is returned.
\<close>

theorem stream_collected_exactly:
  assumes "bs_body s = Some body" "max_bytes < usize_max"
  shows "(fst (into_bytes_limited K max_bytes s w) = Ok bytes \<longrightarrow>
      body_content body = Some bytes \<and> length bytes \<le> max_bytes) \<and>
    (bs_deadline_at s = None \<longrightarrow>
      (fst (into_bytes_limited K max_bytes s w) = Ok bytes \<longleftrightarrow>
       body_content body = Some bytes \<and> length bytes \<le> max_bytes))"
proof -
  obtain r x where c: "collect_loop K max_bytes [] 0 s w = (r, x)" by (rule prod.exhaust)
  have "(collect_loop K max_bytes [] 0 s w = (Ok bytes, x) \<longrightarrow>
      (\<exists>content. body_content body = Some content \<and> bytes = [] @ content \<and> length bytes \<le> max_bytes)) \<and>
    (bs_deadline_at s = None \<and> body_content body = Some bytes \<and> 0 + length bytes \<le> max_bytes \<longrightarrow>
      fst (collect_loop K max_bytes [] 0 s w) = Ok ([] @ bytes))"
    by (rule collect_loop_content) (simp_all add: assms)
  then have "r = Ok bytes \<Longrightarrow> body_content body = Some bytes \<and> length bytes \<le> max_bytes"
    and "bs_deadline_at s = None \<Longrightarrow> body_content body = Some bytes \<and> length bytes \<le> max_bytes \<Longrightarrow> r = Ok bytes"
    unfolding c by simp_all
  then show ?thesis unfolding fst_into_bytes_limited c fst_conv by blast
qed

theorem stream_collected_exactly_witness:
  "fst (into_bytes_limited example_client 5 example_stream example_world) = Ok ''okay'' \<and>
   fst (into_bytes_limited example_client 3 example_stream example_world) \<noteq> Ok ''oka''"
  using stream_collected_exactly [of example_stream "[ReadChunk ''ok'', ReadInterrupted, ReadChunk ''ay'']"
      5 example_client example_world "''okay''"]
    stream_collected_exactly [of example_stream "[ReadChunk ''ok'', ReadInterrupted, ReadChunk ''ay'']"
      3 example_client example_world "''oka''"]
  by (simp add: example_stream_def max_values)

text \<open>
  A failure that is not reported: all permits are taken, the deadline passes, and the request fails
  without a call of the error interceptors.
\<close>

lemma permit_timeout_not_reported:
  "\<exists>e w'. send_request example_client method_GET ''/a'' [] None (no_overrides\<lparr> ov_total_timeout := Some (Some 3) \<rparr>)
       (example_world\<lparr> w_shared := set_global_permits 0 example_shared \<rparr>) = Some (Err e, w') \<and> errors w' = []"
proof -
  define input where "input = example_input\<lparr> ri_execution_options := example_options\<lparr> op_total_timeout := Some 3 \<rparr> \<rparr>"
  have "request_preparation example_client False method_GET ''/a'' [] None
      (no_overrides\<lparr> ov_total_timeout := Some (Some 3) \<rparr>) = Ok input"
    by (simp add: input_def example_preparation_defs example_client_simps)
  then show ?thesis
    by (simp add: send_request_def input_def example_input_def example_client_simps example_world_defs
        example_start_defs condvar_wait_def condvar_wait_timeout_def semaphore_gives_up_after_wait_def
        end_pending_def saturating_duration_since_def set_global_permits_def example_shared_def
        collected_def max_values example_options_def)
qed

end
