(* ===== verification/Reqx_AsyncWorld.thy ===== *)
theory Reqx_AsyncWorld
  imports Reqx_Blocking
begin

text \<open>
  The world in which a request of the asynchronous client runs (\<open>src/src/async_client/mod.rs\<close>,
  \<open>src/src/async_client/limiters.rs\<close>, \<open>src/src/async_client/adaptive.rs\<close>,
  \<open>src/src/async_client/body.rs\<close>, \<open>src/src/async_client/proxy.rs\<close>), over the world of \<open>Reqx_World\<close>.

  \<^item> A future that is awaited may never be polled again: its owner drops it at the point where it is
    suspended. \<open>ak_dropped\<close> decides this at every suspension. The value of an asynchronous function is
    \<open>Ready\<close> with its result or \<open>Dropped\<close>; a caller whose callee was dropped drops its own locals, in the
    reverse order of their declaration, and is dropped itself.
  \<^item> A future under \<open>timeout\<close> or \<open>timeout_at\<close> is polled first; then the timer is looked at.
  \<^item> \<open>None\<close> is a future that is polled for ever.

  \<open>ak_client\<close> has the fields that \<open>ClientInner\<close> shares with the blocking client. The semaphores of
  \<open>tokio\<close> serve their waiters in the order of a queue; \<open>ak_turn\<close> tells whether it is the turn of this
  future. They are never closed, so that \<open>ConcurrencyLimitClosed\<close> does not occur. The transport of
  \<open>hyper\<close> answers, or its timer fires (\<open>None\<close>).
\<close>

subsection \<open>Responses and futures\<close>

datatype body_frame = Frame_Data string | Frame_Trailers | Frame_Failed cause

record 'h hyper_response =
  ih_status :: status
  ih_headers :: 'h
  ih_body :: "body_frame list"

datatype 'a future_end = Ready 'a | Dropped

record ('h, 'v, 'u, 'w, 'n, 'b) async_client =
  ak_client :: "('h, 'v, 'u, 'w, 'n, 'b) client"
  ak_dropped :: "nat \<Rightarrow> bool"
  ak_turn :: "nat \<Rightarrow> bool"
  ak_transport :: "nat \<Rightarrow> ('h, 'b) transport_request \<Rightarrow> ('h hyper_response, hyper_client_error) result option"
  ak_body_timed_out :: "nat \<Rightarrow> bool"
  ak_frame_pending :: "nat \<Rightarrow> bool"
  ak_write_timed_out :: "nat \<Rightarrow> bool"
  ak_write_partial :: "nat \<Rightarrow> nat"

text \<open>\<open>tokio::time::sleep(d).await\<close>.\<close>

definition async_sleep ::
    "('h, 'v, 'u, 'w, 'n, 'b) async_client \<Rightarrow> duration \<Rightarrow> ('h, 'b) world \<Rightarrow> unit future_end \<times> ('h, 'b) world" where
  "async_sleep A d w =
     (if ak_dropped A (w_tick w) then (Dropped, snd (instant_now (ak_client A) w))
      else (Ready (), thread_sleep (ak_client A) d w))"

text \<open>
  A future that is ready as soon as \<open>try_take\<close> succeeds on the shared state, with the deadline of a
  \<open>timeout_at\<close> around it. The value tells the future from the timer.
\<close>

partial_function (option) wait_for ::
    "('h, 'v, 'u, 'w, 'n, 'b) async_client \<Rightarrow> (nat \<Rightarrow> shared_state \<Rightarrow> shared_state option) \<Rightarrow> instant option \<Rightarrow>
     ('h, 'b) world \<Rightarrow> (bool future_end \<times> ('h, 'b) world) option" where
  "wait_for A try_take deadline_at w =
     (case try_take (w_tick (lock_shared (ak_client A) w)) (w_shared (lock_shared (ak_client A) w)) of
        Some s \<Rightarrow> Some (Ready True, set_shared (\<lambda>_. s) (lock_shared (ak_client A) w))
      | None \<Rightarrow>
          (case instant_now (ak_client A) (lock_shared (ak_client A) w) of (now, w) \<Rightarrow>
             if is_some_and (\<lambda>deadline. now \<ge> deadline) deadline_at then Some (Ready False, w)
             else if ak_dropped A (w_tick w) then Some (Dropped, tick w)
             else wait_for A try_take deadline_at (tick w)))"

subsection \<open>Limits\<close>

definition take_permit ::
    "(shared_state \<Rightarrow> nat) \<Rightarrow> (nat \<Rightarrow> shared_state \<Rightarrow> shared_state) \<Rightarrow> shared_state \<Rightarrow> shared_state option" where
  "take_permit permits set_permits s =
     map_option (\<lambda>left. set_permits left s) (semaphore_try_acquire (permits s))"

text \<open>\<open>Semaphore::acquire_owned\<close>.\<close>

definition acquire_owned ::
    "('h, 'v, 'u, 'w, 'n, 'b) async_client \<Rightarrow> (shared_state \<Rightarrow> nat) \<Rightarrow> (nat \<Rightarrow> shared_state \<Rightarrow> shared_state) \<Rightarrow>
     instant option \<Rightarrow> ('h, 'b) world \<Rightarrow> (bool future_end \<times> ('h, 'b) world) option" where
  "acquire_owned A permits set_permits deadline_at w =
     wait_for A (\<lambda>t s. if ak_turn A t then take_permit permits set_permits s else None) deadline_at w"

datatype elapsed = Elapsed

definition async_acquire_global ::
    "('h, 'v, 'u, 'w, 'n, 'b) async_client \<Rightarrow> instant option \<Rightarrow> ('h, 'b) world \<Rightarrow>
     ((unit option, elapsed) result future_end \<times> ('h, 'b) world) option" where
  "async_acquire_global A deadline_at w =
     (if lim_global (sh_request_limiters (w_shared w)) = None then Some (Ready (Ok None), w)
      else (case acquire_owned A global_permits set_global_permits deadline_at w of
              None \<Rightarrow> None
            | Some (Dropped, w) \<Rightarrow> Some (Dropped, w)
            | Some (Ready True, w) \<Rightarrow> Some (Ready (Ok (Some ())), log_event Ev_GlobalAcquired w)
            | Some (Ready False, w) \<Rightarrow> Some (Ready (Err Elapsed), w)))"

text \<open>A waiter that times out or is dropped gives its handle of the semaphore back.\<close>

definition async_acquire_host ::
    "('h, 'v, 'u, 'w, 'n, 'b) async_client \<Rightarrow> string option \<Rightarrow> instant option \<Rightarrow> ('h, 'b) world \<Rightarrow>
     ((nat option, elapsed) result future_end \<times> ('h, 'b) world) option" where
  "async_acquire_host A host deadline_at w =
     (let w = lock_shared (ak_client A) w;
          (now, w) = now_monotonic (ak_client A) w;
          (claim, l) = acquire_host host now (sh_request_limiters (w_shared w));
          w = set_shared (update_limiters (\<lambda>_. l)) w
      in case claim of
           NoHostLimit \<Rightarrow> Some (Ready (Ok None), w)
         | HostPermit _ a \<Rightarrow> Some (Ready (Ok (Some a)), log_event (Ev_HostAcquired a) w)
         | HostWaiter _ a \<Rightarrow>
             (case acquire_owned A (cell_permits a) (set_cell_permits a) deadline_at w of
                None \<Rightarrow> None
              | Some (Dropped, w) \<Rightarrow>
                  Some (Dropped, with_shared (ak_client A) (update_limiters (waiter_timeout a)) w)
              | Some (Ready True, w) \<Rightarrow> Some (Ready (Ok (Some a)), log_event (Ev_HostAcquired a) w)
              | Some (Ready False, w) \<Rightarrow>
                  Some (Ready (Err Elapsed), with_shared (ak_client A) (update_limiters (waiter_timeout a)) w)))"

subsection \<open>Adaptive permits\<close>

text \<open>
  \<open>AdaptiveConcurrencyController::acquire\<close>. A future that found no capacity is woken by the next release,
  since it has registered before it looked; when it is polled again is up to the runtime.
\<close>

definition adaptive_take :: "shared_state \<Rightarrow> shared_state option" where
  "adaptive_take s =
     (case adaptive_try_acquire (sh_adaptive_concurrency s) of (taken, a) \<Rightarrow>
        if taken then Some (s\<lparr> sh_adaptive_concurrency := a \<rparr>) else None)"

definition async_adaptive_acquire ::
    "('h, 'v, 'u, 'w, 'n, 'b) async_client \<Rightarrow> instant option \<Rightarrow> ('h, 'b) world \<Rightarrow>
     ((adaptive_permit, elapsed) result future_end \<times> ('h, 'b) world) option" where
  "async_adaptive_acquire A deadline_at w =
     (case wait_for A (\<lambda>_. adaptive_take) deadline_at w of
        None \<Rightarrow> None
      | Some (Dropped, w) \<Rightarrow> Some (Dropped, w)
      | Some (Ready False, w) \<Rightarrow> Some (Ready (Err Elapsed), w)
      | Some (Ready True, w) \<Rightarrow>
          (let (now, w) = now_monotonic (ak_client A) w;
               permit = \<lparr> ap_started_at = now, ap_completed = False \<rparr>
           in Some (Ready (Ok permit), log_event (Ev_AdaptiveBegin permit) w)))"

subsection \<open>Bodies\<close>

text \<open>\<open>read_all_body_limited\<close>: frames that are not data are skipped.\<close>

fun read_all_frames ::
    "nat \<Rightarrow> string \<Rightarrow> nat \<Rightarrow> body_frame list \<Rightarrow> (string, cause read_body_error) result" where
  "read_all_frames max_bytes bytes_read total_len [] = Ok bytes_read"
| "read_all_frames max_bytes bytes_read total_len (Frame_Failed src # frames) = Err (ReadBody_Read src)"
| "read_all_frames max_bytes bytes_read total_len (Frame_Trailers # frames) =
     read_all_frames max_bytes bytes_read total_len frames"
| "read_all_frames max_bytes bytes_read total_len (Frame_Data bytes # frames) =
     (let total_len = usize_add total_len (length bytes)
      in if total_len > max_bytes then Err (ReadBody_TooLarge total_len)
         else read_all_frames max_bytes (bytes_read @ bytes) total_len frames)"

definition read_all_body_limited ::
    "body_frame list \<Rightarrow> nat \<Rightarrow> (string, cause read_body_error) result" where
  "read_all_body_limited body max_bytes = read_all_frames max_bytes [] 0 body"

subsection \<open>Connections\<close>

text \<open>
  Where the connector of the transport connects to (\<open>ProxyConnector::call\<close>): to the target, to the target
  through a tunnel of the proxy, or to the proxy, which then gets the request itself.
\<close>

datatype connect_route = Route_Direct | Route_Tunnel | Route_Proxy

definition connect_route_of :: "('h, 'v, 'u, 'w, 'n, 'b) client \<Rightarrow> 'u \<Rightarrow> connect_route" where
  "connect_route_of K dst =
     (case ci_proxy_config K of
        None \<Rightarrow> Route_Direct
      | Some pc \<Rightarrow>
          if should_bypass_proxy_uri (li_uris K) (li_proxies K) (pc_no_proxy_rules pc) dst then Route_Direct
          else if eq_ignore_ascii_case (unwrap_or [] (uri_scheme_str (li_uris K) dst)) ''https''
          then Route_Tunnel
          else Route_Proxy)"

end
