(* ===== verification/Reqx_AsyncStream.thy ===== *)
theory Reqx_AsyncStream
  imports Reqx_AsyncWorld
begin

text \<open>
  Response streams of the asynchronous client (\<open>src/src/http/response/async_stream.rs\<close>). The body is the
  list of the frames that \<open>hyper\<close> delivers; \<open>ak_frame_pending\<close> tells at every poll whether the next one
  has arrived. Each wait for a frame has a timer, which is set when the body is first found pending. A
  method that consumes the stream ends with its destructor, also where it is dropped half-way. A writer
  is the one of \<open>Reqx_BlockingStream\<close>; a write that times out or is dropped has written a part.
\<close>

subsection \<open>The body of a stream\<close>

record ('h, 'b) stream_body =
  sb_inner :: "body_frame list option"
  sb_method :: http_method
  sb_uri_redacted :: string
  sb_timeout_ms :: nat
  sb_total_timeout_ms :: "nat option"
  sb_deadline_at :: "instant option"
  sb_deadline_slack :: duration
  sb_frame_timeout :: "instant option"
  sb_frame_timeout_deadline_limited :: bool
  sb_read_buffer :: string
  sb_lifecycle :: "('h, 'b) live_lifecycle"
  sb_global_permit :: "unit option"
  sb_host_permit :: "nat option"

definition sb_attach_completion ::
    "instant \<times> stream_completion \<Rightarrow> ('h, 'b) stream_body \<Rightarrow> ('h, 'b) stream_body" where
  "sb_attach_completion c s = s\<lparr> sb_lifecycle := (sb_lifecycle s)\<lparr> lf_completion := Some c \<rparr> \<rparr>"

definition sb_body_timeout_error :: "('h, 'b) stream_body \<Rightarrow> 'h error" where
  "sb_body_timeout_error s = Timeout Phase_ResponseBody (max (sb_timeout_ms s) 1) (sb_method s) (sb_uri_redacted s)"

definition sb_deadline_error :: "('h, 'b) stream_body \<Rightarrow> 'h error" where
  "sb_deadline_error s =
     DeadlineExceeded (unwrap_or (max (sb_timeout_ms s) 1) (sb_total_timeout_ms s)) (sb_method s)
       (sb_uri_redacted s)"

definition sb_too_large_error :: "('h, 'b) stream_body \<Rightarrow> nat \<Rightarrow> nat \<Rightarrow> 'h error" where
  "sb_too_large_error s limit_bytes actual_bytes =
     ResponseBodyTooLarge limit_bytes actual_bytes (sb_method s) (sb_uri_redacted s)"

definition effective_frame_timeout ::
    "('h, 'v, 'u, 'w, 'n, 'b) client \<Rightarrow> ('h, 'b) stream_body \<Rightarrow> ('h, 'b) world \<Rightarrow>
     (duration \<times> bool, 'h error) result \<times> ('h, 'b) world" where
  "effective_frame_timeout K s w =
     (let phase_timeout = duration_from_millis_saturating (max (sb_timeout_ms s) 1)
      in case sb_deadline_at s of
           None \<Rightarrow> (Ok (phase_timeout, False), w)
         | Some deadline_at \<Rightarrow>
             (let (now, w) = instant_now K w
              in if deadline_elapsed deadline_at now then (Err (sb_deadline_error s), w)
                 else (Ok (min phase_timeout (saturating_duration_since deadline_at now),
                           deadline_limits_wait phase_timeout deadline_at now), w)))"

definition ensure_frame_timeout ::
    "('h, 'v, 'u, 'w, 'n, 'b) client \<Rightarrow> ('h, 'b) stream_body \<Rightarrow> ('h, 'b) world \<Rightarrow>
     'h error unit_result \<times> ('h, 'b) stream_body \<times> ('h, 'b) world" where
  "ensure_frame_timeout K s w =
     (if sb_frame_timeout s \<noteq> None then (Ok (), s, w)
      else case effective_frame_timeout K s w of
        (Err e, w) \<Rightarrow> (Err e, s, w)
      | (Ok (timeout, deadline_limited), w) \<Rightarrow>
          (let (now, w) = instant_now K w
           in (Ok (), s\<lparr> sb_frame_timeout := Some (now + timeout),
                 sb_frame_timeout_deadline_limited := deadline_limited \<rparr>, w)))"

definition sb_ensure_within_deadline ::
    "('h, 'v, 'u, 'w, 'n, 'b) client \<Rightarrow> ('h, 'b) stream_body \<Rightarrow> ('h, 'b) world \<Rightarrow>
     'h error unit_result \<times> ('h, 'b) world" where
  "sb_ensure_within_deadline K s w =
     (case sb_deadline_at s of
        None \<Rightarrow> (Ok (), w)
      | Some deadline_at \<Rightarrow>
          (let (now, w) = instant_now K w
           in (if deadline_elapsed deadline_at now then Err (sb_deadline_error s) else Ok (), w)))"

definition sb_release_transport ::
    "('h, 'v, 'u, 'w, 'n, 'b) client \<Rightarrow> ('h, 'b) stream_body \<Rightarrow> ('h, 'b) world \<Rightarrow>
     ('h, 'b) stream_body \<times> ('h, 'b) world" where
  "sb_release_transport K s w =
     (s\<lparr> sb_inner := None, sb_read_buffer := [], sb_frame_timeout := None,
        sb_frame_timeout_deadline_limited := False, sb_global_permit := None, sb_host_permit := None \<rparr>,
      host_permit_drop K (sb_host_permit s) (global_permit_drop K (sb_global_permit s) w))"

definition sb_complete ::
    "('h, 'v, 'u, 'w, 'n, 'b) client \<Rightarrow> 'h lifecycle_end \<Rightarrow> ('h, 'b) stream_body \<Rightarrow> ('h, 'b) world \<Rightarrow>
     ('h, 'b) stream_body \<times> ('h, 'b) world" where
  "sb_complete K e s w =
     (let (s, w) = sb_release_transport K s w;
          (l, w) = live_lifecycle_complete K e (sb_lifecycle s) w
      in (s\<lparr> sb_lifecycle := l \<rparr>, w))"

text \<open>The destructor drops the fields in their order.\<close>

definition sb_drop ::
    "('h, 'v, 'u, 'w, 'n, 'b) client \<Rightarrow> ('h, 'b) stream_body \<Rightarrow> ('h, 'b) world \<Rightarrow> ('h, 'b) world" where
  "sb_drop K s w =
     host_permit_drop K (sb_host_permit s) (global_permit_drop K (sb_global_permit s)
       (snd (live_lifecycle_complete K LifecycleCanceled (sb_lifecycle s) w)))"

subsection \<open>Polling\<close>

datatype (plugins only: code) 'h chunk_poll =
    Chunk_Pending | Chunk_End | Chunk_Data string | Chunk_Failed "'h error"

definition reset_frame_timeout :: "('h, 'b) stream_body \<Rightarrow> ('h, 'b) stream_body" where
  "reset_frame_timeout s = s\<lparr> sb_frame_timeout := None, sb_frame_timeout_deadline_limited := False \<rparr>"

text \<open>The branch of a body that is pending: the timer is set and looked at.\<close>

definition poll_frame_timeout ::
    "('h, 'v, 'u, 'w, 'n, 'b) client \<Rightarrow> ('h, 'b) stream_body \<Rightarrow> ('h, 'b) world \<Rightarrow>
     'h chunk_poll \<times> ('h, 'b) stream_body \<times> ('h, 'b) world" where
  "poll_frame_timeout K s w =
     (case ensure_frame_timeout K s w of
        (Err e, s, w) \<Rightarrow> (Chunk_Failed e, s, w)
      | (Ok _, s, w) \<Rightarrow>
          (let (polled_at, w) = instant_now K w
           in if is_some_and (\<lambda>timer. polled_at \<ge> timer) (sb_frame_timeout s)
              then (let (now, w) = instant_now K w;
                        e = (if is_some_and (\<lambda>deadline_at. deadline_elapsed deadline_at now \<or>
                                  sb_frame_timeout_deadline_limited s \<and>
                                  deadline_within_slack deadline_at now (sb_deadline_slack s)) (sb_deadline_at s)
                             then sb_deadline_error s else sb_body_timeout_error s)
                    in (Chunk_Failed e, reset_frame_timeout s, w))
              else (Chunk_Pending, s, w)))"

fun poll_frames ::
    "('h, 'v, 'u, 'w, 'n, 'b) async_client \<Rightarrow> body_frame list \<Rightarrow> ('h, 'b) stream_body \<Rightarrow> ('h, 'b) world \<Rightarrow>
     'h chunk_poll \<times> ('h, 'b) stream_body \<times> ('h, 'b) world" where
  "poll_frames A frames s w =
     (case sb_ensure_within_deadline (ak_client A) s w of
        (Err e, w) \<Rightarrow> (Chunk_Failed e, reset_frame_timeout s, w)
      | (Ok _, w) \<Rightarrow>
          if ak_frame_pending A (w_tick w) then poll_frame_timeout (ak_client A) s (tick w)
          else (case frames of
                  [] \<Rightarrow> (Chunk_End, reset_frame_timeout s, tick w)
                | Frame_Failed src # rest \<Rightarrow>
                    (Chunk_Failed (ReadBody (cause_box src)), reset_frame_timeout (s\<lparr> sb_inner := Some rest \<rparr>), tick w)
                | Frame_Trailers # rest \<Rightarrow>
                    poll_frames A rest (reset_frame_timeout (s\<lparr> sb_inner := Some rest \<rparr>)) (tick w)
                | Frame_Data bytes # rest \<Rightarrow>
                    if bytes = []
                    then poll_frames A rest (reset_frame_timeout (s\<lparr> sb_inner := Some rest \<rparr>)) (tick w)
                    else (Chunk_Data bytes, reset_frame_timeout (s\<lparr> sb_inner := Some rest \<rparr>), tick w)))"

declare poll_frames.simps [simp del]

definition poll_next_chunk ::
    "('h, 'v, 'u, 'w, 'n, 'b) async_client \<Rightarrow> ('h, 'b) stream_body \<Rightarrow> ('h, 'b) world \<Rightarrow>
     'h chunk_poll \<times> ('h, 'b) stream_body \<times> ('h, 'b) world" where
  "poll_next_chunk A s w =
     (case sb_inner s of None \<Rightarrow> (Chunk_End, s, w) | Some frames \<Rightarrow> poll_frames A frames s w)"

partial_function (option) next_chunk_of ::
    "('h, 'v, 'u, 'w, 'n, 'b) async_client \<Rightarrow> ('h, 'b) stream_body \<Rightarrow> ('h, 'b) world \<Rightarrow>
     ((string option, 'h error) result future_end \<times> ('h, 'b) stream_body \<times> ('h, 'b) world) option" where
  "next_chunk_of A s w =
     (case poll_next_chunk A s w of (p, s, w) \<Rightarrow>
        (case p of
           Chunk_Data bytes \<Rightarrow> Some (Ready (Ok (Some bytes)), s, w)
         | Chunk_Failed e \<Rightarrow> Some (Ready (Err e), s, w)
         | Chunk_End \<Rightarrow> Some (Ready (Ok None), s, w)
         | Chunk_Pending \<Rightarrow>
             if ak_dropped A (w_tick w) then Some (Dropped, s, tick w) else next_chunk_of A s (tick w)))"

subsection \<open>Collecting\<close>

definition take_pending_chunk ::
    "('h, 'v, 'u, 'w, 'n, 'b) client \<Rightarrow> ('h, 'b) stream_body \<Rightarrow> ('h, 'b) world \<Rightarrow>
     (string option, 'h error) result \<times> ('h, 'b) stream_body \<times> ('h, 'b) world" where
  "take_pending_chunk K s w =
     (if sb_read_buffer s = [] then (Ok None, s, w)
      else case sb_ensure_within_deadline K s w of
        (Err e, w) \<Rightarrow> (Err e, s, w)
      | (Ok _, w) \<Rightarrow> (Ok (Some (sb_read_buffer s)), s\<lparr> sb_read_buffer := [] \<rparr>, w))"

definition take_pending_chunk_or_complete ::
    "('h, 'v, 'u, 'w, 'n, 'b) client \<Rightarrow> ('h, 'b) stream_body \<Rightarrow> ('h, 'b) world \<Rightarrow>
     (string option, 'h error) result \<times> ('h, 'b) stream_body \<times> ('h, 'b) world" where
  "take_pending_chunk_or_complete K s w =
     (case take_pending_chunk K s w of
        (Ok chunk, s, w) \<Rightarrow> (Ok chunk, s, w)
      | (Err e, s, w) \<Rightarrow> (Err e, sb_complete K (LifecycleError e) s w))"

partial_function (option) read_raw_loop ::
    "('h, 'v, 'u, 'w, 'n, 'b) async_client \<Rightarrow> nat \<Rightarrow> string \<Rightarrow> nat \<Rightarrow> ('h, 'b) stream_body \<Rightarrow> ('h, 'b) world \<Rightarrow>
     ((string, 'h error) result future_end \<times> ('h, 'b) stream_body \<times> ('h, 'b) world) option" where
  "read_raw_loop A max_bytes collected_bytes total_len s w =
     (case next_chunk_of A s w of
        None \<Rightarrow> None
      | Some (p, s, w) \<Rightarrow>
          (case p of
             Dropped \<Rightarrow> Some (Dropped, s, w)
           | Ready (Err e) \<Rightarrow> Some (Ready (Err e), s, w)
           | Ready (Ok None) \<Rightarrow> Some (Ready (Ok collected_bytes), s, w)
           | Ready (Ok (Some chunk)) \<Rightarrow>
               if usize_add total_len (length chunk) > max_bytes
               then Some (Ready (Err (sb_too_large_error s max_bytes (usize_add total_len (length chunk)))), s, w)
               else read_raw_loop A max_bytes (collected_bytes @ chunk) (usize_add total_len (length chunk)) s w))"

definition read_raw_bytes_limited ::
    "('h, 'v, 'u, 'w, 'n, 'b) async_client \<Rightarrow> nat \<Rightarrow> ('h, 'b) stream_body \<Rightarrow> ('h, 'b) world \<Rightarrow>
     ((string, 'h error) result future_end \<times> ('h, 'b) stream_body \<times> ('h, 'b) world) option" where
  "read_raw_bytes_limited A max_bytes s w =
     (case take_pending_chunk (ak_client A) s w of
        (Err e, s, w) \<Rightarrow> Some (Ready (Err e), s, w)
      | (Ok None, s, w) \<Rightarrow> read_raw_loop A max_bytes [] 0 s w
      | (Ok (Some chunk), s, w) \<Rightarrow>
          if usize_add 0 (length chunk) > max_bytes
          then Some (Ready (Err (sb_too_large_error s max_bytes (usize_add 0 (length chunk)))), s, w)
          else read_raw_loop A max_bytes chunk (usize_add 0 (length chunk)) s w)"

subsection \<open>Writing\<close>

text \<open>
  A write and a flush have the same shape in the code; a flush is modelled as the write of no bytes. A
  writer that is dropped or times out may have taken any first part of the bytes.
\<close>

definition async_write_with_deadline ::
    "('h, 'v, 'u, 'w, 'n, 'b) async_client \<Rightarrow> string \<Rightarrow> io_writer \<Rightarrow> ('h, 'b) stream_body \<Rightarrow> ('h, 'b) world \<Rightarrow>
     'h error unit_result future_end \<times> io_writer \<times> ('h, 'b) stream_body \<times> ('h, 'b) world" where
  "async_write_with_deadline A bytes wr s w =
     (let K = ak_client A;
          (r, wr, w) =
            (case sb_ensure_within_deadline K s w of
               (Err e, w) \<Rightarrow> (Ready (Err e), wr, w)
             | (Ok _, w) \<Rightarrow>
                 (let t = w_tick w;
                      partial = wr\<lparr> wr_written := wr_written wr @ take (ak_write_partial A t) bytes \<rparr>;
                      (now, w) = instant_now K w
                  in if ak_dropped A t then (Dropped, partial, w)
                     else if sb_deadline_at s \<noteq> None \<and> ak_write_timed_out A t
                     then (Ready (Err (sb_deadline_error s)), partial,
                           w\<lparr> w_now := max now (unwrap_or 0 (sb_deadline_at s)) \<rparr>)
                     else (case io_write_all bytes wr of
                             (Err src, wr) \<Rightarrow>
                               (Ready (Err (write_body_error (sb_method s) (sb_uri_redacted s) src)), wr, w)
                           | (Ok _, wr) \<Rightarrow>
                               (case sb_ensure_within_deadline K s w of (r, w) \<Rightarrow> (Ready r, wr, w)))))
      in case r of
           Ready (Err e) \<Rightarrow> (Ready (Err e), wr, sb_complete K (LifecycleError e) s w)
         | Ready (Ok _) \<Rightarrow> (Ready (Ok ()), wr, s, w)
         | Dropped \<Rightarrow> (Dropped, wr, s, w))"

text \<open>
  The loops of \<open>copy_to_writer\<close> and \<open>copy_to_writer_limited\<close>: \<open>limit\<close> is \<open>None\<close> for the first. The second
  counts and checks a chunk before it writes it, the first counts it afterwards.
\<close>

definition over_limit :: "nat option \<Rightarrow> nat \<Rightarrow> bool" where
  "over_limit limit copied = is_some_and (\<lambda>max_bytes. copied > max_bytes) limit"

definition copy_chunk ::
    "('h, 'v, 'u, 'w, 'n, 'b) async_client \<Rightarrow> nat option \<Rightarrow> nat \<Rightarrow> string \<Rightarrow> io_writer \<Rightarrow> ('h, 'b) stream_body \<Rightarrow>
     ('h, 'b) world \<Rightarrow> (nat, 'h error) result future_end \<times> io_writer \<times> ('h, 'b) stream_body \<times> ('h, 'b) world" where
  "copy_chunk A limit copied chunk wr s w =
     (let n = u64_add copied (length chunk)
      in if over_limit limit n
         then (let e = sb_too_large_error s (unwrap_or 0 limit) (saturating_u64_to_usize n)
               in (Ready (Err e), wr, sb_complete (ak_client A) (LifecycleError e) s w))
         else (case async_write_with_deadline A chunk wr s w of
                 (Ready (Ok _), wr, s, w) \<Rightarrow> (Ready (Ok n), wr, s, w)
               | (Ready (Err e), wr, s, w) \<Rightarrow> (Ready (Err e), wr, s, w)
               | (Dropped, wr, s, w) \<Rightarrow> (Dropped, wr, s, w)))"

partial_function (option) async_copy_loop ::
    "('h, 'v, 'u, 'w, 'n, 'b) async_client \<Rightarrow> nat option \<Rightarrow> nat \<Rightarrow> io_writer \<Rightarrow> ('h, 'b) stream_body \<Rightarrow>
     ('h, 'b) world \<Rightarrow>
     ((nat, 'h error) result future_end \<times> io_writer \<times> ('h, 'b) stream_body \<times> ('h, 'b) world) option" where
  "async_copy_loop A limit copied wr s w =
     (case next_chunk_of A s w of
        None \<Rightarrow> None
      | Some (p, s, w) \<Rightarrow>
          (case p of
             Dropped \<Rightarrow> Some (Dropped, wr, s, w)
           | Ready (Err e) \<Rightarrow> Some (Ready (Err e), wr, sb_complete (ak_client A) (LifecycleError e) s w)
           | Ready (Ok None) \<Rightarrow> Some (Ready (Ok copied), wr, s, w)
           | Ready (Ok (Some chunk)) \<Rightarrow>
               (case copy_chunk A limit copied chunk wr s w of (r, wr, s, w) \<Rightarrow>
                  (case r of
                     Ready (Ok n) \<Rightarrow> async_copy_loop A limit n wr s w
                   | Ready (Err e) \<Rightarrow> Some (Ready (Err e), wr, s, w)
                   | Dropped \<Rightarrow> Some (Dropped, wr, s, w)))))"

definition finish_async_copy ::
    "('h, 'v, 'u, 'w, 'n, 'b) async_client \<Rightarrow>
     (nat, 'h error) result future_end \<times> io_writer \<times> ('h, 'b) stream_body \<times> ('h, 'b) world \<Rightarrow>
     (nat, 'h error) result future_end \<times> io_writer \<times> ('h, 'b) stream_body \<times> ('h, 'b) world" where
  "finish_async_copy A x =
     (case x of
        (Ready (Ok copied), wr, s, w) \<Rightarrow>
          (case async_write_with_deadline A [] wr s w of
             (Ready (Ok _), wr, s, w) \<Rightarrow> (Ready (Ok copied), wr, sb_complete (ak_client A) LifecycleSuccess s w)
           | (Ready (Err e), wr, s, w) \<Rightarrow> (Ready (Err e), wr, s, w)
           | (Dropped, wr, s, w) \<Rightarrow> (Dropped, wr, s, w))
      | x \<Rightarrow> x)"

definition sb_copy ::
    "('h, 'v, 'u, 'w, 'n, 'b) async_client \<Rightarrow> nat option \<Rightarrow> io_writer \<Rightarrow> ('h, 'b) stream_body \<Rightarrow> ('h, 'b) world \<Rightarrow>
     ((nat, 'h error) result future_end \<times> io_writer \<times> ('h, 'b) stream_body \<times> ('h, 'b) world) option" where
  "sb_copy A limit wr s w =
     (case take_pending_chunk_or_complete (ak_client A) s w of
        (Err e, s, w) \<Rightarrow> Some (Ready (Err e), wr, s, w)
      | (Ok None, s, w) \<Rightarrow> map_option (finish_async_copy A) (async_copy_loop A limit 0 wr s w)
      | (Ok (Some chunk), s, w) \<Rightarrow>
          (case copy_chunk A limit 0 chunk wr s w of
             (Ready (Ok n), wr, s, w) \<Rightarrow> map_option (finish_async_copy A) (async_copy_loop A limit n wr s w)
           | x \<Rightarrow> Some x))"

subsection \<open>Streams\<close>

record ('h, 'b) async_response_stream =
  as_status :: status
  as_headers :: 'h
  as_uri_raw :: string
  as_body :: "('h, 'b) stream_body"

definition async_attach_completion ::
    "instant \<times> stream_completion \<Rightarrow> ('h, 'b) async_response_stream \<Rightarrow> ('h, 'b) async_response_stream" where
  "async_attach_completion c s = s\<lparr> as_body := sb_attach_completion c (as_body s) \<rparr>"

definition async_stream_drop ::
    "('h, 'v, 'u, 'w, 'n, 'b) client \<Rightarrow> ('h, 'b) async_response_stream \<Rightarrow> ('h, 'b) world \<Rightarrow> ('h, 'b) world" where
  "async_stream_drop K s w = sb_drop K (as_body s) w"

text \<open>A method that owns the stream settles it, if it does, and drops it.\<close>

definition sb_end :: "('h, 'v, 'u, 'w, 'n, 'b) client \<Rightarrow> 'h lifecycle_end \<Rightarrow> ('h, 'b) stream_body \<Rightarrow> ('h, 'b) world \<Rightarrow>
     ('h, 'b) world" where
  "sb_end K e s w = (let (s, w) = sb_complete K e s w in sb_drop K s w)"

definition async_into_bytes_limited ::
    "('h, 'v, 'u, 'w, 'n, 'b) async_client \<Rightarrow> nat \<Rightarrow> ('h, 'b) async_response_stream \<Rightarrow> ('h, 'b) world \<Rightarrow>
     ((string, 'h error) result future_end \<times> ('h, 'b) world) option" where
  "async_into_bytes_limited A max_bytes s w =
     (let K = ak_client A
      in case read_raw_bytes_limited A max_bytes (as_body s) w of
           None \<Rightarrow> None
         | Some (Dropped, b, w) \<Rightarrow> Some (Dropped, sb_drop K b w)
         | Some (Ready (Ok bytes), b, w) \<Rightarrow> Some (Ready (Ok bytes), sb_end K LifecycleSuccess b w)
         | Some (Ready (Err e), b, w) \<Rightarrow> Some (Ready (Err e), sb_end K (LifecycleError e) b w))"

definition async_copy_to_writer ::
    "('h, 'v, 'u, 'w, 'n, 'b) async_client \<Rightarrow> io_writer \<Rightarrow> ('h, 'b) async_response_stream \<Rightarrow> ('h, 'b) world \<Rightarrow>
     ((nat, 'h error) result future_end \<times> io_writer \<times> ('h, 'b) world) option" where
  "async_copy_to_writer A wr s w =
     map_option (\<lambda>(r, wr, b, w). (r, wr, sb_drop (ak_client A) b w)) (sb_copy A None wr (as_body s) w)"

definition async_copy_to_writer_limited ::
    "('h, 'v, 'u, 'w, 'n, 'b) async_client \<Rightarrow> nat \<Rightarrow> io_writer \<Rightarrow> ('h, 'b) async_response_stream \<Rightarrow> ('h, 'b) world \<Rightarrow>
     ((nat, 'h error) result future_end \<times> io_writer \<times> ('h, 'b) world) option" where
  "async_copy_to_writer_limited A max_bytes wr s w =
     map_option (\<lambda>(r, wr, b, w). (r, wr, sb_drop (ak_client A) b w)) (sb_copy A (Some max_bytes) wr (as_body s) w)"

definition async_stream_decode ::
    "('h, 'v, 'u, 'w, 'n, 'b) client \<Rightarrow> nat \<Rightarrow> ('h, 'b) async_response_stream \<Rightarrow> string \<Rightarrow> (string, 'h error) result" where
  "async_stream_decode K max_bytes s body =
     (if should_decode_content_encoded_body (sb_method (as_body s)) (as_status s) (length body)
      then map_err (\<lambda>d. into_error d (sb_method (as_body s)) (sb_uri_redacted (as_body s)) max_bytes)
             (decode_content_encoded_body_limited (li_headers K) (li_codecs K) body (as_headers s) max_bytes)
      else Ok body)"

definition async_into_response_limited ::
    "('h, 'v, 'u, 'w, 'n, 'b) async_client \<Rightarrow> nat \<Rightarrow> ('h, 'b) async_response_stream \<Rightarrow> ('h, 'b) world \<Rightarrow>
     (('h response, 'h error) result future_end \<times> ('h, 'b) world) option" where
  "async_into_response_limited A max_bytes s w =
     (let K = ak_client A
      in case read_raw_bytes_limited A max_bytes (as_body s) w of
           None \<Rightarrow> None
         | Some (Dropped, b, w) \<Rightarrow> Some (Dropped, sb_drop K b w)
         | Some (Ready (Err e), b, w) \<Rightarrow> Some (Ready (Err e), sb_end K (LifecycleError e) b w)
         | Some (Ready (Ok body), b, w) \<Rightarrow>
        (case sb_ensure_within_deadline K b w of
           (Err e, w) \<Rightarrow> Some (Ready (Err e), sb_end K (LifecycleError e) b w)
         | (Ok _, w) \<Rightarrow>
        (case async_stream_decode K max_bytes (s\<lparr> as_body := b \<rparr>) body of
           Err e \<Rightarrow> Some (Ready (Err e), sb_end K (LifecycleError e) b w)
         | Ok decoded \<Rightarrow>
             (let headers = (if should_decode_content_encoded_body (sb_method b) (as_status s) (length body) \<and>
                                hm_contains_key (li_headers K) (as_headers s) ''content-encoding''
                             then remove_content_encoding_headers (li_headers K) (as_headers s)
                             else as_headers s)
              in case sb_ensure_within_deadline K b w of
                   (Err e, w) \<Rightarrow> Some (Ready (Err e), sb_end K (LifecycleError e) b w)
                 | (Ok _, w) \<Rightarrow>
                     Some (Ready (Ok \<lparr> rs_status = as_status s, rs_headers = headers, rs_body = decoded \<rparr>),
                       sb_end K LifecycleSuccess b w)))))"

subsection \<open>Reading through the trait\<close>

text \<open>
  \<open>AsyncRead::poll_read\<close> with room for \<open>room\<close> bytes: the bytes that it delivers, an error (of which the
  caller gets an \<open>io::Error\<close> that wraps it), or \<open>None\<close> for pending.
\<close>

definition read_from_buffer ::
    "('h, 'v, 'u, 'w, 'n, 'b) client \<Rightarrow> nat \<Rightarrow> ('h, 'b) stream_body \<Rightarrow> ('h, 'b) world \<Rightarrow>
     (string, 'h error) result option \<times> ('h, 'b) stream_body \<times> ('h, 'b) world" where
  "read_from_buffer K room s w =
     (case sb_ensure_within_deadline K s w of
        (Err e, w) \<Rightarrow> (Some (Err e), sb_complete K (LifecycleError e) s w)
      | (Ok _, w) \<Rightarrow>
          (Some (Ok (take room (sb_read_buffer s))), s\<lparr> sb_read_buffer := drop room (sb_read_buffer s) \<rparr>, w))"

definition poll_read ::
    "('h, 'v, 'u, 'w, 'n, 'b) async_client \<Rightarrow> nat \<Rightarrow> ('h, 'b) stream_body \<Rightarrow> ('h, 'b) world \<Rightarrow>
     (string, 'h error) result option \<times> ('h, 'b) stream_body \<times> ('h, 'b) world" where
  "poll_read A room s w =
     (let K = ak_client A
      in if room = 0 then (Some (Ok []), s, w)
         else if sb_read_buffer s \<noteq> [] then read_from_buffer K room s w
         else case poll_next_chunk A s w of
           (Chunk_Data chunk, s, w) \<Rightarrow> read_from_buffer K room (s\<lparr> sb_read_buffer := chunk \<rparr>) w
         | (Chunk_Failed e, s, w) \<Rightarrow> (Some (Err e), sb_complete K (LifecycleError e) s w)
         | (Chunk_End, s, w) \<Rightarrow> (Some (Ok []), sb_complete K LifecycleSuccess s w)
         | (Chunk_Pending, s, w) \<Rightarrow> (None, s, w))"

end
