(* ===== verification/Reqx_Async.thy ===== *)
theory Reqx_Async
  imports Reqx_AsyncStream
begin

text \<open>
  The asynchronous client (\<open>src/src/async_client/client.rs\<close>): one request from its preparation to its
  outcome, over the world of \<open>Reqx_AsyncWorld\<close>. The functions that neither wait nor differ from those of
  the blocking client (interceptors, observers, circuit attempts, the retry budget, server throttling,
  retry schedules, the decoding of a body and the failures of reading one) are the definitions of
  \<open>Reqx_Blocking\<close> on \<open>ak_client\<close>. Every \<open>await\<close> is a point where the request may be dropped; then the
  locals of the loop and of the request are dropped: the guards of the attempt, the permit of the host,
  the global permit, and the pending completion, which counts the request as canceled.
\<close>

subsection \<open>Proxy credentials\<close>

definition should_apply_http_proxy_auth_header :: "('h, 'v, 'u, 'w, 'n, 'b) client \<Rightarrow> 'u \<Rightarrow> bool" where
  "should_apply_http_proxy_auth_header K uri =
     (case ci_proxy_config K of
        None \<Rightarrow> False
      | Some pc \<Rightarrow>
          (case uri_scheme_str (li_uris K) uri of
             None \<Rightarrow> False
           | Some scheme \<Rightarrow>
               eq_ignore_ascii_case scheme ''http'' \<and>
               \<not> should_bypass_proxy_uri (li_uris K) (li_proxies K) (pc_no_proxy_rules pc) uri))"

definition apply_http_proxy_auth_header :: "('h, 'v, 'u, 'w, 'n, 'b) client \<Rightarrow> 'u \<Rightarrow> 'h \<Rightarrow> 'h" where
  "apply_http_proxy_auth_header K uri headers =
     (if \<not> should_apply_http_proxy_auth_header K uri \<or>
         hm_contains_key (li_headers K) headers ''proxy-authorization''
      then headers
      else case ci_proxy_config K of
        None \<Rightarrow> headers
      | Some pc \<Rightarrow>
          (case pc_authorization pc of
             None \<Rightarrow> headers
           | Some authorization \<Rightarrow> hm_insert (li_headers K) ''proxy-authorization'' authorization headers))"

subsection \<open>Admission\<close>

text \<open>
  The shape of the three acquisitions: without a deadline the future is awaited, otherwise the deadline
  is checked and the future is awaited under \<open>timeout_at\<close>.
\<close>

definition within_deadline ::
    "('h, 'v, 'u, 'w, 'n, 'b) client \<Rightarrow> duration option \<Rightarrow> instant \<Rightarrow> http_method \<Rightarrow> string \<Rightarrow>
     (instant option \<Rightarrow> ('h, 'b) world \<Rightarrow> (('a, elapsed) result future_end \<times> ('h, 'b) world) option) \<Rightarrow>
     ('h, 'b) world \<Rightarrow> (('a, 'h error) result future_end \<times> ('h, 'b) world) option" where
  "within_deadline K total_timeout request_started_at meth uri acquire w =
     (let e = deadline_exceeded_error total_timeout meth uri;
          awaited = map_option (\<lambda>(r, w). (case r of Dropped \<Rightarrow> Dropped | Ready r \<Rightarrow> Ready (map_err (\<lambda>_. e) r), w))
      in case total_timeout_deadline total_timeout request_started_at of
           None \<Rightarrow> awaited (acquire None w)
         | Some deadline_at \<Rightarrow>
             (case instant_now K w of (now, w) \<Rightarrow>
                if now \<ge> deadline_at then Some (Ready (Err e), w)
                else awaited (acquire (Some deadline_at) w)))"

definition async_begin_adaptive_attempt ::
    "('h, 'v, 'u, 'w, 'n, 'b) async_client \<Rightarrow> duration option \<Rightarrow> instant \<Rightarrow> http_method \<Rightarrow> string \<Rightarrow>
     ('h, 'b) world \<Rightarrow> ((adaptive_permit option, 'h error) result future_end \<times> ('h, 'b) world) option" where
  "async_begin_adaptive_attempt A total_timeout request_started_at meth uri w =
     (if ci_adaptive_concurrency (ak_client A) = None then Some (Ready (Ok None), w)
      else map_option (\<lambda>(r, w). (case r of
               Dropped \<Rightarrow> Dropped
             | Ready (Ok permit) \<Rightarrow> Ready (Ok (Some permit))
             | Ready (Err e) \<Rightarrow> Ready (Err e), w))
             (within_deadline (ak_client A) total_timeout request_started_at meth uri (async_adaptive_acquire A) w))"

definition async_acquire_global_request_permit ::
    "('h, 'v, 'u, 'w, 'n, 'b) async_client \<Rightarrow> duration option \<Rightarrow> instant \<Rightarrow> http_method \<Rightarrow> string \<Rightarrow>
     ('h, 'b) world \<Rightarrow> ((unit option, 'h error) result future_end \<times> ('h, 'b) world) option" where
  "async_acquire_global_request_permit A total_timeout request_started_at meth uri w =
     (if \<not> ci_has_request_limiters (ak_client A) then Some (Ready (Ok None), w)
      else within_deadline (ak_client A) total_timeout request_started_at meth uri (async_acquire_global A) w)"

definition async_acquire_host_request_permit ::
    "('h, 'v, 'u, 'w, 'n, 'b) async_client \<Rightarrow> string option \<Rightarrow> duration option \<Rightarrow> instant \<Rightarrow> http_method \<Rightarrow>
     string \<Rightarrow> ('h, 'b) world \<Rightarrow> ((nat option, 'h error) result future_end \<times> ('h, 'b) world) option" where
  "async_acquire_host_request_permit A host total_timeout request_started_at meth uri w =
     (if \<not> ci_has_request_limiters (ak_client A) then Some (Ready (Ok None), w)
      else within_deadline (ak_client A) total_timeout request_started_at meth uri (async_acquire_host A host) w)"

partial_function (option) async_rate_limit_loop ::
    "('h, 'v, 'u, 'w, 'n, 'b) async_client \<Rightarrow> string option \<Rightarrow> duration option \<Rightarrow> instant \<Rightarrow> http_method \<Rightarrow>
     string \<Rightarrow> ('h, 'b) world \<Rightarrow> ('h error unit_result future_end \<times> ('h, 'b) world) option" where
  "async_rate_limit_loop A host total_timeout request_started_at meth uri w =
     (case rate_limiter_delay (ak_client A) host w of (wait, w) \<Rightarrow>
        if wait = 0 then Some (Ready (Ok ()), w)
        else (case instant_now (ak_client A) w of (now, w) \<Rightarrow>
                (case bounded_retry_delay now wait total_timeout request_started_at of
                   None \<Rightarrow> Some (Ready (Err (deadline_exceeded_error total_timeout meth uri)), w)
                 | Some wait \<Rightarrow>
                     (case async_sleep A wait w of (r, w) \<Rightarrow>
                        (case r of
                           Dropped \<Rightarrow> Some (Dropped, w)
                         | Ready _ \<Rightarrow>
                             async_rate_limit_loop A host total_timeout request_started_at meth uri w)))))"

definition async_acquire_rate_limit_slot ::
    "('h, 'v, 'u, 'w, 'n, 'b) async_client \<Rightarrow> string option \<Rightarrow> duration option \<Rightarrow> instant \<Rightarrow> http_method \<Rightarrow>
     string \<Rightarrow> ('h, 'b) world \<Rightarrow> ('h error unit_result future_end \<times> ('h, 'b) world) option" where
  "async_acquire_rate_limit_slot A host total_timeout request_started_at meth uri w =
     (if \<not> ci_has_rate_limiter (ak_client A) then Some (Ready (Ok ()), w)
      else async_rate_limit_loop A host total_timeout request_started_at meth uri w)"

text \<open>
  The admission of an attempt, with the drops of the locals on every way out: nothing is held before the
  permit of the host; then the permit is, and then the attempt of the circuit breaker too.
\<close>

definition async_admit_attempt ::
    "('h, 'v, 'u, 'w, 'n, 'b) async_client \<Rightarrow> ('h, 'u) request_execution_state \<Rightarrow> request_context \<Rightarrow>
     ('h, 'b) world \<Rightarrow> ((guards \<times> nat option, 'h error) result future_end \<times> ('h, 'b) world) option" where
  "async_admit_attempt A st context w =
     (let K = ak_client A;
          host = rate_limit_host (li_uris K) st;
          total_timeout = op_total_timeout (es_options st);
          started_at = es_request_started_at st;
          meth = es_current_method st;
          uri = es_current_redacted_uri st
      in case async_acquire_rate_limit_slot A host total_timeout started_at meth uri w of
           None \<Rightarrow> None
         | Some (Dropped, w) \<Rightarrow> Some (Dropped, w)
         | Some (Ready (Err e), w) \<Rightarrow> Some (Ready (Err e), run_error_interceptors context e w)
         | Some (Ready (Ok _), w) \<Rightarrow>
        (case async_acquire_host_request_permit A host total_timeout started_at meth uri w of
           None \<Rightarrow> None
         | Some (Dropped, w) \<Rightarrow> Some (Dropped, w)
         | Some (Ready (Err e), w) \<Rightarrow> Some (Ready (Err e), run_error_interceptors context e w)
         | Some (Ready (Ok host_permit), w) \<Rightarrow>
        (case begin_circuit_attempt K meth uri w of
           (Err e, w) \<Rightarrow> Some (Ready (Err e), host_permit_drop K host_permit (run_error_interceptors context e w))
         | (Ok circuit_attempt, w) \<Rightarrow>
           (let g = \<lparr> ag_circuit = circuit_attempt, ag_adaptive = None \<rparr>
            in case async_begin_adaptive_attempt A total_timeout started_at meth uri w of
                 None \<Rightarrow> None
               | Some (Dropped, w) \<Rightarrow> Some (Dropped, exit_scope K g host_permit w)
               | Some (Ready (Err e), w) \<Rightarrow>
                   (let (g, w) = guards_cancel (circuit_outcome K) (adaptive_outcome K) g w
                    in Some (Ready (Err e), exit_scope K g host_permit (run_error_interceptors context e w)))
               | Some (Ready (Ok adaptive_attempt), w) \<Rightarrow>
                   Some (Ready (Ok (set_adaptive adaptive_attempt g, host_permit)), w)))))"

subsection \<open>Reading a response\<close>

definition async_read_response_body_with_retry ::
    "('h, 'v, 'u, 'w, 'n, 'b) async_client \<Rightarrow> body_frame list \<Rightarrow> body_read_retry_context \<Rightarrow> ('h, 'b) world \<Rightarrow>
     ((body_read_outcome, 'h error) result \<times> nat) future_end \<times> ('h, 'b) world" where
  "async_read_response_body_with_retry A body b w =
     (let K = ak_client A; t = w_tick w; (now, w) = instant_now K w;
          failed_with = (\<lambda>failure w. case handle_body_read_failure K b failure w of (r, attempt, w) \<Rightarrow>
            (Ready (r, attempt), w))
      in if ak_dropped A t then (Dropped, w)
         else if ak_body_timed_out A t
         then (let w = w\<lparr> w_now := now + br_read_timeout b \<rparr>;
                   (sample, w) = sample_now K w;
                   (now, w) = instant_now K w
               in failed_with (response_body_timeout_failure now sample (ci_backoff_source K) b) w)
         else case read_all_body_limited body (br_max_response_body_bytes b) of
           Ok bytes \<Rightarrow> (Ready (Ok (BodyRead_Body bytes), br_attempt b), w)
         | Err (ReadBody_Read src) \<Rightarrow>
             (let (sample, w) = sample_now K w
              in failed_with (response_body_read_failure sample (ci_backoff_source K) b (cause_box src)) w)
         | Err (ReadBody_TooLarge actual_bytes) \<Rightarrow>
             (let e = response_body_too_large_error b actual_bytes
              in (Ready (Err e, br_attempt b), run_error_interceptors (br_context b) e w)))"

definition async_read_decoded_response_body_with_retry ::
    "('h, 'v, 'u, 'w, 'n, 'b) async_client \<Rightarrow> body_frame list \<Rightarrow> 'h \<Rightarrow> status \<Rightarrow> body_read_retry_context \<Rightarrow>
     ('h, 'b) world \<Rightarrow> ((body_read_outcome, 'h error) result \<times> 'h \<times> nat) future_end \<times> ('h, 'b) world" where
  "async_read_decoded_response_body_with_retry A response_body headers s b w =
     (let K = ak_client A
      in case check_body_deadline K b w of
        (Some e, w) \<Rightarrow> (Ready (Err e, headers, br_attempt b), w)
      | (None, w) \<Rightarrow>
     (case async_read_response_body_with_retry A response_body b w of
        (Dropped, w) \<Rightarrow> (Dropped, w)
      | (Ready (Err e, attempt), w) \<Rightarrow> (Ready (Err e, headers, attempt), w)
      | (Ready (Ok (BodyRead_Retry delay), attempt), w) \<Rightarrow> (Ready (Ok (BodyRead_Retry delay), headers, attempt), w)
      | (Ready (Ok (BodyRead_Body body), attempt), w) \<Rightarrow>
     (case check_body_deadline K b w of
        (Some e, w) \<Rightarrow> (Ready (Err e, headers, attempt), w)
      | (None, w) \<Rightarrow>
     (case decode_response_body_limited K body headers (br_max_response_body_bytes b) s (br_context b) w of
        (Err e, w) \<Rightarrow> (Ready (Err e, headers, attempt), w)
      | (Ok decoded, w) \<Rightarrow>
     (case check_body_deadline K b w of
        (Some e, w) \<Rightarrow> (Ready (Err e, headers, attempt), w)
      | (None, w) \<Rightarrow>
          (Ready (Ok (BodyRead_Body decoded),
             if should_decode_content_encoded_body (rc_method (br_context b)) s (length body) \<and>
                hm_contains_key (li_headers K) headers ''content-encoding''
             then remove_content_encoding_headers (li_headers K) headers else headers,
             attempt), w))))))"

subsection \<open>Sending\<close>

datatype transport_request_error = TransportFailed hyper_client_error | TransportTimedOut

definition send_transport_request ::
    "('h, 'v, 'u, 'w, 'n, 'b) async_client \<Rightarrow> ('h, 'b) transport_request \<Rightarrow> ('h, 'b) world \<Rightarrow>
     ('h hyper_response, transport_request_error) result future_end \<times> ('h, 'b) world" where
  "send_transport_request A request w =
     (let w = log_event (Ev_Send (w_now w) request) w;
          t = w_tick w; (now, w) = instant_now (ak_client A) w
      in if ak_dropped A t then (Dropped, w)
         else case ak_transport A t request of
           Some r \<Rightarrow> (Ready (map_err TransportFailed r), w)
         | None \<Rightarrow> (Ready (Err TransportTimedOut), w\<lparr> w_now := now + tr_timeout request \<rparr>))"

definition transport_request_into_error ::
    "('h, 'v, 'u, 'w, 'n, 'b) client \<Rightarrow> instant \<Rightarrow> ('h, 'u) request_execution_state \<Rightarrow> duration \<Rightarrow>
     transport_request_error \<Rightarrow> 'h error" where
  "transport_request_into_error K now st transport_timeout e =
     (case e of
        TransportFailed src \<Rightarrow>
          transport_error (redact_for_errors K) (classify_transport_error src) (es_current_method st)
            (es_current_redacted_uri st) (cause_box (he_cause src))
      | TransportTimedOut \<Rightarrow> es_transport_timeout_error now st (duration_millis_ceil transport_timeout))"

subsection \<open>One attempt\<close>

type_synonym ('h, 'u, 'b) async_iteration =
  "('h, 'u, 'b, ('h, 'b) async_response_stream) iteration future_end"

definition async_continue_after ::
    "('h, 'v, 'u, 'w, 'n, 'b) async_client \<Rightarrow> guards \<Rightarrow> nat option \<Rightarrow> duration \<Rightarrow>
     ('h, 'u) request_execution_state \<Rightarrow> 'b request_body \<Rightarrow> ('h, 'b) world \<Rightarrow>
     ('h, 'u, 'b) async_iteration \<times> ('h, 'b) world" where
  "async_continue_after A g host_permit delay st body w =
     (let K = ak_client A;
          w = host_permit_drop K host_permit w;
          (r, w) = (if delay \<noteq> 0 then async_sleep A delay w else (Ready (), w))
      in (case r of Dropped \<Rightarrow> Dropped | Ready _ \<Rightarrow> Ready (Iter_Continue st body), guards_drop K g w))"

text \<open>A part of an attempt that does not wait.\<close>

definition ready :: "'a \<times> 'w \<Rightarrow> 'a future_end \<times> 'w" where
  "ready x = (Ready (fst x), snd x)"

definition async_transport_failed ::
    "('h, 'v, 'u, 'w, 'n, 'b) async_client \<Rightarrow> ('h, 'u) request_execution_state \<Rightarrow> 'b request_body \<Rightarrow> unit option \<Rightarrow>
     request_context \<Rightarrow> guards \<Rightarrow> nat option \<Rightarrow> transport_request_error \<Rightarrow> duration \<Rightarrow> ('h, 'b) world \<Rightarrow>
     ('h, 'u, 'b) async_iteration \<times> ('h, 'b) world" where
  "async_transport_failed A st body global_permit context g host_permit e transport_timeout w =
     (let K = ak_client A;
          (now, w) = instant_now K w;
          e = transport_request_into_error K now st transport_timeout e;
          (sample, w) = sample_now K w
      in case transport_failure_plan_of sample (ci_backoff_source K) st e of
           Plan_Retry plan \<Rightarrow>
             (let (r, attempt, w) = prepare_retry K (es_retry_attempt st) context (plan_decision plan)
                    (plan_delay plan) w;
                  st = st\<lparr> es_attempt := attempt \<rparr>;
                  (r, g, w) = record_failure_for_retry_schedule (circuit_outcome K) (adaptive_outcome K) r g w
              in case r of
                   Err e' \<Rightarrow> (Ready (Iter_Return (Err e') global_permit), exit_scope K g host_permit w)
                 | Ok (Scheduled delay) \<Rightarrow> async_continue_after A g host_permit delay st body w
                 | Ok NotScheduled \<Rightarrow>
                     (let (g, w) = guards_mark_failure (circuit_outcome K) (adaptive_outcome K) g w
                      in ready (return_error K context g host_permit global_permit e w)))
         | Plan_Terminal d \<Rightarrow>
             (let (g, w) = disposition_apply (circuit_outcome K) (adaptive_outcome K) d g w
              in ready (return_error K context g host_permit global_permit e w)))"

definition async_stream_response ::
    "('h, 'v, 'u, 'w, 'n, 'b) client \<Rightarrow> status \<Rightarrow> 'h \<Rightarrow> body_frame list \<Rightarrow> ('h, 'u) request_execution_state \<Rightarrow>
     duration \<Rightarrow> ('h, 'b) hooks option \<Rightarrow> unit option \<Rightarrow> nat option \<Rightarrow>
     ('h, ('h, 'b) async_response_stream) retry_response" where
  "async_stream_response K s headers body st transport_timeout hooks global_permit host_permit =
     Response_Stream \<lparr> as_status = s, as_headers = headers,
       as_uri_raw = uri_to_string (li_uris K) (es_current_uri st),
       as_body = \<lparr> sb_inner = Some body, sb_method = es_current_method st,
         sb_uri_redacted = es_current_redacted_uri st,
         sb_timeout_ms = max (duration_millis_ceil transport_timeout) 1,
         sb_total_timeout_ms = st_total_timeout_ms (es_stream_timing st),
         sb_deadline_at = st_deadline_at (es_stream_timing st),
         sb_deadline_slack = ci_stream_deadline_slack K, sb_frame_timeout = None,
         sb_frame_timeout_deadline_limited = False, sb_read_buffer = [],
         sb_lifecycle = live_lifecycle_of hooks,
         sb_global_permit = global_permit, sb_host_permit = host_permit \<rparr> \<rparr>"

definition async_return_stream ::
    "('h, 'v, 'u, 'w, 'n, 'b) client \<Rightarrow> request_completion \<Rightarrow> ('h, 'u) request_execution_state \<Rightarrow>
     unit option \<Rightarrow> guards \<Rightarrow> nat option \<Rightarrow> 'h hyper_response \<Rightarrow> duration \<Rightarrow> ('h, 'b) world \<Rightarrow>
     ('h, 'u, 'b, ('h, 'b) async_response_stream) iteration \<times> ('h, 'b) world" where
  "async_return_stream K completion st global_permit g host_permit response transport_timeout w =
     (let (hooks, g, w) = into_stream_lifecycle (circuit_outcome K) (adaptive_outcome K)
            (budget_record_success K) completion g w
      in (Iter_Return (Ok (async_stream_response K (ih_status response) (ih_headers response) (ih_body response)
            st transport_timeout hooks global_permit host_permit)) None,
          guards_drop K g w))"

definition async_read_and_finish ::
    "('h, 'v, 'u, 'w, 'n, 'b) async_client \<Rightarrow> response_mode \<Rightarrow> ('h, 'u) request_execution_state \<Rightarrow>
     'b request_body \<Rightarrow> unit option \<Rightarrow> request_context \<Rightarrow> guards \<Rightarrow> nat option \<Rightarrow> 'h hyper_response \<Rightarrow>
     ('h, 'b) world \<Rightarrow> ('h, 'u, 'b) async_iteration \<times> ('h, 'b) world" where
  "async_read_and_finish A mode st body global_permit context g host_permit response w =
     (let K = ak_client A;
          s = ih_status response;
          (now, w) = instant_now K w
      in case es_phase_timeout now st of
           None \<Rightarrow>
             (let (g, w) = guards_mark_failure (circuit_outcome K) (adaptive_outcome K) g w
              in ready (return_error K context g host_permit global_permit (deadline_error st) w))
         | Some read_timeout \<Rightarrow>
             (case async_read_decoded_response_body_with_retry A (ih_body response) (ih_headers response) s
                     (es_body_read_retry_context context read_timeout st) w of
                (Dropped, w) \<Rightarrow> (Dropped, exit_scope K g host_permit w)
              | (Ready (r, headers, attempt), w) \<Rightarrow>
             (let st = st\<lparr> es_attempt := attempt \<rparr>;
                  (r, g, w) = record_failure_on_error (circuit_outcome K) (adaptive_outcome K) r g w
              in case r of
                   Err e \<Rightarrow> (Ready (Iter_Return (Err e) global_permit), exit_scope K g host_permit w)
                 | Ok (BodyRead_Retry delay) \<Rightarrow>
                     (let (g, w) = guards_mark_failure (circuit_outcome K) (adaptive_outcome K) g w
                      in async_continue_after A g host_permit delay st body w)
                 | Ok (BodyRead_Body bytes) \<Rightarrow>
                     ready (if \<not> is_success s
                     then if es_should_return_non_success_response st \<and> is_buffered mode
                          then return_response K (non_success_completion st s) global_permit g host_permit s
                                 headers bytes w
                          else (let t = es_terminal_non_success st s headers bytes;
                                    (g, w) = record_completed (circuit_outcome K) (adaptive_outcome K)
                                      (budget_record_success K) (tns_completion t) g w
                                in return_error K context g host_permit global_permit (tns_error t) w)
                     else return_response K Completion_Success global_permit g host_permit s headers bytes w))))"

definition async_handle_non_success ::
    "('h, 'v, 'u, 'w, 'n, 'b) async_client \<Rightarrow> response_mode \<Rightarrow> ('h, 'u) request_execution_state \<Rightarrow>
     'b request_body \<Rightarrow> unit option \<Rightarrow> request_context \<Rightarrow> guards \<Rightarrow> nat option \<Rightarrow> 'h hyper_response \<Rightarrow>
     duration \<Rightarrow> ('h, 'b) world \<Rightarrow> ('h, 'u, 'b) async_iteration \<times> ('h, 'b) world" where
  "async_handle_non_success A mode st body global_permit context g host_permit response transport_timeout w =
     (let K = ak_client A;
          s = ih_status response; headers = ih_headers response;
          (sample, w) = sample_now K w;
          fallback_delay = es_retry_backoff sample (ci_backoff_source K) st;
          w = observe_server_throttle K context s headers (rate_limit_host (li_uris K) st) fallback_delay w;
          (r, st, w) = prepare_status_retry K st context s headers w;
          (r, g, w) = record_failure_for_retry_schedule (circuit_outcome K) (adaptive_outcome K) r g w
      in case r of
           Err e \<Rightarrow> (Ready (Iter_Return (Err e) global_permit), exit_scope K g host_permit w)
         | Ok (Scheduled delay) \<Rightarrow> async_continue_after A g host_permit delay st body w
         | Ok NotScheduled \<Rightarrow>
             if is_stream mode \<and> es_should_return_non_success_response st
             then ready (async_return_stream K (non_success_completion st s) st global_permit g host_permit response
                    transport_timeout w)
             else async_read_and_finish A mode st body global_permit context g host_permit response w)"

definition async_handle_response ::
    "('h, 'v, 'u, 'w, 'n, 'b) async_client \<Rightarrow> response_mode \<Rightarrow> ('h, 'u) request_execution_state \<Rightarrow>
     'b request_body \<Rightarrow> unit option \<Rightarrow> request_context \<Rightarrow> guards \<Rightarrow> nat option \<Rightarrow> 'h hyper_response \<Rightarrow>
     duration \<Rightarrow> ('h, 'b) world \<Rightarrow> ('h, 'u, 'b) async_iteration \<times> ('h, 'b) world" where
  "async_handle_response A mode st body global_permit context g host_permit response transport_timeout w =
     (let K = ak_client A;
          s = ih_status response; headers = ih_headers response
      in case es_next_redirect_action (li_headers K) (li_uris K) (li_urls K) st s headers of
           Err e \<Rightarrow>
             (let (g, w) = guards_mark_failure (circuit_outcome K) (adaptive_outcome K) g w
              in ready (return_error K context g host_permit global_permit e w))
         | Ok (Some redirect_action) \<Rightarrow>
             (let w = run_response_interceptors context s headers w;
                  (g, w) = guards_mark_success (circuit_outcome K) (adaptive_outcome K) g w;
                  (drops_body, st) = apply_redirect (li_headers K) redirect_action (ci_retry_eligibility K) st;
                  body = (if drops_body then request_body_default else body)
              in (Ready (Iter_Continue st body), exit_scope K g host_permit w))
         | Ok None \<Rightarrow>
             (let w = run_response_interceptors context s headers w
              in if is_stream mode \<and> is_success s
                 then ready (async_return_stream K Completion_Success st global_permit g host_permit response
                        transport_timeout w)
                 else if \<not> is_success s
                 then async_handle_non_success A mode st body global_permit context g host_permit response
                        transport_timeout w
                 else async_read_and_finish A mode st body global_permit context g host_permit response w))"

definition async_send_attempt ::
    "('h, 'v, 'u, 'w, 'n, 'b) async_client \<Rightarrow> response_mode \<Rightarrow> ('h, 'u) request_execution_state \<Rightarrow>
     'b request_body \<Rightarrow> unit option \<Rightarrow> request_context \<Rightarrow> guards \<Rightarrow> nat option \<Rightarrow> ('h, 'b) world \<Rightarrow>
     ('h, 'u, 'b) async_iteration \<times> ('h, 'b) world" where
  "async_send_attempt A mode st body global_permit context g host_permit w =
     (let K = ak_client A;
          (headers, w) = run_request_interceptors K context (es_current_headers st) w;
          st = tighten_retry_eligibility headers (ci_retry_eligibility K) st;
          context = es_context st
      in case validate_request_framing_headers (li_headers K) headers (known_length body)
                (es_current_method st) (es_current_redacted_uri st) of
           Err e \<Rightarrow>
             (let (g, w) = guards_cancel (circuit_outcome K) (adaptive_outcome K) g w
              in ready (return_error K context g host_permit global_permit e w))
         | Ok _ \<Rightarrow>
             (let headers = mark_sensitive_headers (li_iter_mut K) (li_header_values K) headers;
                  headers = hm_remove (li_headers K) ''proxy-authorization'' headers;
                  headers = apply_http_proxy_auth_header K (es_current_uri st) headers;
                  (now, w) = instant_now K w
              in case es_phase_timeout now st of
                   None \<Rightarrow>
                     (let (g, w) = guards_cancel (circuit_outcome K) (adaptive_outcome K) g w
                      in ready (return_error K context g host_permit global_permit (deadline_error st) w))
                 | Some transport_timeout \<Rightarrow>
                     (let (request_body, body) = take_for_attempt body;
                          request = \<lparr> tr_method = es_current_method st,
                            tr_uri = uri_to_string (li_uris K) (es_current_uri st), tr_headers = headers,
                            tr_body = request_body, tr_timeout = transport_timeout,
                            tr_connect_timeout = ci_connect_timeout K,
                            tr_proxied = (connect_route_of K (es_current_uri st) \<noteq> Route_Direct) \<rparr>
                      in case send_transport_request A request w of
                           (Dropped, w) \<Rightarrow> (Dropped, exit_scope K g host_permit w)
                         | (Ready (Err e), w) \<Rightarrow>
                             async_transport_failed A st body global_permit context g host_permit e transport_timeout w
                         | (Ready (Ok response), w) \<Rightarrow>
                             async_handle_response A mode st body global_permit context g host_permit response
                               transport_timeout w)))"

definition async_attempt_iteration ::
    "('h, 'v, 'u, 'w, 'n, 'b) async_client \<Rightarrow> response_mode \<Rightarrow> ('h, 'u) request_execution_state \<Rightarrow>
     'b request_body \<Rightarrow> unit option \<Rightarrow> ('h, 'b) world \<Rightarrow>
     (('h, 'u, 'b) async_iteration \<times> ('h, 'b) world) option" where
  "async_attempt_iteration A mode st body global_permit w =
     (let context = es_context st;
          w = run_request_start_observers context w
      in case async_admit_attempt A st context w of
           None \<Rightarrow> None
         | Some (Dropped, w) \<Rightarrow> Some (Dropped, w)
         | Some (Ready (Err e), w) \<Rightarrow> Some (Ready (Iter_Return (Err e) global_permit), w)
         | Some (Ready (Ok (g, host_permit)), w) \<Rightarrow>
             Some (async_send_attempt A mode st body global_permit context g host_permit w))"

subsection \<open>The loop\<close>

partial_function (option) async_retry_loop ::
    "('h, 'v, 'u, 'w, 'n, 'b) async_client \<Rightarrow> response_mode \<Rightarrow> ('h, 'u) request_execution_state \<Rightarrow>
     'b request_body \<Rightarrow> unit option \<Rightarrow> ('h, 'b) world \<Rightarrow>
     ((('h, ('h, 'b) async_response_stream) retry_response, 'h error) result future_end \<times> ('h, 'b) world) option" where
  "async_retry_loop A mode st body global_permit w =
     (if can_attempt st
      then (case async_attempt_iteration A mode st body global_permit w of
              None \<Rightarrow> None
            | Some (r, w) \<Rightarrow>
                (case r of
                   Dropped \<Rightarrow> Some (Dropped, global_permit_drop (ak_client A) global_permit w)
                 | Ready it \<Rightarrow>
                     (case it of
                        Iter_Continue st body \<Rightarrow> async_retry_loop A mode st body global_permit w
                      | Iter_Return r global_permit \<Rightarrow>
                          Some (Ready r, global_permit_drop (ak_client A) global_permit w))))
      else Some (Ready (Err (deadline_error st)),
             global_permit_drop (ak_client A) global_permit
               (run_error_interceptors (es_context st) (deadline_error st) w)))"

definition async_send_request_with_retry_mode ::
    "('h, 'v, 'u, 'w, 'n, 'b) async_client \<Rightarrow> ('h, 'u, 'b request_body) retry_request_input \<Rightarrow> response_mode \<Rightarrow>
     unit option \<Rightarrow> instant \<Rightarrow> ('h, 'b) world \<Rightarrow>
     ((('h, ('h, 'b) async_response_stream) retry_response, 'h error) result future_end \<times> ('h, 'b) world) option" where
  "async_send_request_with_retry_mode A input mode global_permit request_started_at w =
     (let (st, body) = from_request input request_started_at (ci_retry_eligibility (ak_client A))
      in async_retry_loop A mode st body global_permit w)"

subsection \<open>Requests\<close>

text \<open>The destructor of a pending completion: the request is counted as canceled.\<close>

definition drop_pending ::
    "('h, 'v, 'u, 'w, 'n, 'b) client \<Rightarrow> instant \<Rightarrow> pending_request \<Rightarrow> ('h, 'b) world \<Rightarrow> ('h, 'b) world" where
  "drop_pending K request_started_at p w =
     (let (now, w) = instant_now K w
      in with_shared K (sh_metrics_update (pending_request_drop (saturating_duration_since now request_started_at) p)) w)"

definition async_send_request ::
    "('h, 'v, 'u, 'w, 'n, 'b) async_client \<Rightarrow> http_method \<Rightarrow> string \<Rightarrow> 'h \<Rightarrow> 'b request_body option \<Rightarrow>
     request_execution_overrides \<Rightarrow> ('h, 'b) world \<Rightarrow>
     (('h response, 'h error) result future_end \<times> ('h, 'b) world) option" where
  "async_send_request A meth path headers body overrides w =
     (let K = ak_client A
      in case request_preparation K (ci_buffered_auto_accept_encoding K) meth path headers body overrides of
        Err e \<Rightarrow> Some (Ready (Err e), w)
      | Ok input \<Rightarrow>
          (let uri = ri_redacted_uri_text input; meth = ri_method input;
               (started, w) = instant_now K w;
               (completion, w) = begin_pending K w
           in case async_acquire_global_request_permit A (op_total_timeout (ri_execution_options input)) started
                     meth uri w of
                None \<Rightarrow> None
              | Some (Dropped, w) \<Rightarrow> Some (Dropped, drop_pending K started completion w)
              | Some (Ready (Err e), w) \<Rightarrow> Some (Ready (Err e), end_pending K started (Err e) completion w)
              | Some (Ready (Ok global_permit), w) \<Rightarrow>
                  (case async_send_request_with_retry_mode A input ResponseMode_Buffered None started w of
                     None \<Rightarrow> None
                   | Some (Dropped, w) \<Rightarrow>
                       Some (Dropped, drop_pending K started completion (global_permit_drop K global_permit w))
                   | Some (Ready r, w) \<Rightarrow>
                       (let (r, w) = (case r of
                              Err e \<Rightarrow> (Err e, w)
                            | Ok (Response_Buffered response) \<Rightarrow> (Ok response, w)
                            | Ok (Response_Stream s) \<Rightarrow>
                                (Err (response_mode_mismatch_error K meth uri ''buffered''), async_stream_drop K s w));
                            w = end_pending K started (case r of Ok response \<Rightarrow> Ok (rs_status response) | Err e \<Rightarrow> Err e) completion w
                        in Some (Ready r, global_permit_drop K global_permit w)))))"

definition async_send_request_stream ::
    "('h, 'v, 'u, 'w, 'n, 'b) async_client \<Rightarrow> http_method \<Rightarrow> string \<Rightarrow> 'h \<Rightarrow> 'b request_body option \<Rightarrow>
     request_execution_overrides \<Rightarrow> ('h, 'b) world \<Rightarrow>
     ((('h, 'b) async_response_stream, 'h error) result future_end \<times> ('h, 'b) world) option" where
  "async_send_request_stream A meth path headers body overrides w =
     (let K = ak_client A
      in case request_preparation K (ci_stream_auto_accept_encoding K) meth path headers body overrides of
        Err e \<Rightarrow> Some (Ready (Err e), w)
      | Ok input \<Rightarrow>
          (let uri = ri_redacted_uri_text input; meth = ri_method input;
               (started, w) = instant_now K w;
               (completion, w) = begin_pending K w
           in case async_acquire_global_request_permit A (op_total_timeout (ri_execution_options input)) started
                     meth uri w of
                None \<Rightarrow> None
              | Some (Dropped, w) \<Rightarrow> Some (Dropped, drop_pending K started completion w)
              | Some (Ready (Err e), w) \<Rightarrow> Some (Ready (Err e), end_pending K started (Err e) completion w)
              | Some (Ready (Ok global_permit), w) \<Rightarrow>
                  (case async_send_request_with_retry_mode A input ResponseMode_Stream global_permit started w of
                     None \<Rightarrow> None
                   | Some (Dropped, w) \<Rightarrow> Some (Dropped, drop_pending K started completion w)
                   | Some (Ready (Err e), w) \<Rightarrow> Some (Ready (Err e), end_pending K started (Err e) completion w)
                   | Some (Ready (Ok (Response_Buffered _)), w) \<Rightarrow>
                       (let e = response_mode_mismatch_error K meth uri ''stream''
                        in Some (Ready (Err e), end_pending K started (Err e) completion w))
                   | Some (Ready (Ok (Response_Stream s)), w) \<Rightarrow>
                       (let (c, w) = stream_pending K (as_status s) completion w
                        in Some (Ready (Ok (async_attach_completion (started, c) s)), w)))))"

end
