(* ===== verification/Reqx_AsyncProofs.thy ===== *)
theory Reqx_AsyncProofs
  imports Reqx_Async Reqx_BlockingLoop
begin

text \<open>
  The attempts of the asynchronous client: what each step of a request adds to the log, when it completes
  and when it is dropped while it waits. The calculus is the one of the blocking client (\<open>settles\<close>,
  \<open>takes\<close>, \<open>attempt_ends\<close>).
\<close>

subsection \<open>Waiting\<close>

lemma silent_wait_for:
  assumes "wait_for A try_take deadline_at w = Some y"
  shows "silent w (snd y)"
proof (rule wait_for.raw_induct [OF _ assms, of "\<lambda>A try_take deadline_at w y. silent w (snd y)"], goal_cases)
  case (1 rec A try_take deadline_at w y)
  let ?w = "lock_shared (ak_client A) w"
  obtain now w1 where n: "instant_now (ak_client A) ?w = (now, w1)" by force
  have s: "silent w ?w" "silent w w1" "silent w (tick w1)"
    using silent_trans [OF silent_steps(2) silent_instant_now [OF n]]
      silent_trans [OF silent_trans [OF silent_steps(2) silent_instant_now [OF n]] silent_steps(1)]
    by (simp_all add: silent_steps)
  have "y = (Ready True, snd y) \<and> silent ?w (snd y) \<or> snd y = w1 \<or> snd y = tick w1 \<or>
      rec A try_take deadline_at (tick w1) = Some y"
    using 1(2) n by (auto split: option.splits if_splits)
  then show ?case
    using s silent_trans [OF s(1)] silent_trans [OF s(3) 1(1)] by (elim disjE) auto
qed

fun future_granted :: "('a \<Rightarrow> resource multiset) \<Rightarrow> ('a, 'e) result future_end \<Rightarrow> resource multiset" where
  "future_granted f Dropped = {#}"
| "future_granted f (Ready r) = granted f r"

lemma takes_silent: "silent w w' \<Longrightarrow> takes {#} w w'"
  using takes_does [of "[]"] by simp

lemma takes_log_event:
  "silent w w' \<Longrightarrow> releases e = [] \<Longrightarrow> sends e = [] \<Longrightarrow> reported_errors e = [] \<Longrightarrow>
   takes (mset (acquires e)) w (log_event e w')"
  by (auto simp: takes_def does_def collected_def)

lemma takes_async_acquire_global:
  assumes "async_acquire_global A deadline_at w = Some (r, w')"
  shows "takes (future_granted global_resources r) w w'"
proof (cases "lim_global (sh_request_limiters (w_shared w)) = None")
  case True
  then show ?thesis using assms by (auto simp: async_acquire_global_def takes_def)
next
  case False
  then obtain p w1 where p: "acquire_owned A global_permits set_global_permits deadline_at w = Some (p, w1)"
    using assms by (auto simp: async_acquire_global_def split: option.splits)
  have "silent w w1" using silent_wait_for p by (fastforce simp: acquire_owned_def)
  then show ?thesis
    using assms False p takes_log_event [of w w1 Ev_GlobalAcquired] takes_silent [of w w1]
    by (auto simp: async_acquire_global_def split: future_end.splits bool.splits)
qed

lemma takes_async_acquire_host:
  assumes "async_acquire_host A host deadline_at w = Some (r, w')"
  shows "takes (future_granted host_resources r) w w'"
proof -
  let ?K = "ak_client A"
  obtain now w1 where n: "now_monotonic ?K (lock_shared ?K w) = (now, w1)" by force
  obtain claim l where c: "acquire_host host now (sh_request_limiters (w_shared w1)) = (claim, l)" by force
  let ?w2 = "set_shared (update_limiters (\<lambda>_. l)) w1"
  have s: "silent w ?w2"
    using silent_trans [OF silent_steps(2) silent_trans [OF silent_readings(1) [OF n] silent_steps(3)]] .
  show ?thesis
  proof (cases claim)
    case (HostWaiter h a)
    then obtain p w3 where p: "acquire_owned A (cell_permits a) (set_cell_permits a) deadline_at ?w2 = Some (p, w3)"
      using assms n c by (auto simp: async_acquire_host_def Let_def split: option.splits)
    have "silent ?w2 w3" using silent_wait_for p by (fastforce simp: acquire_owned_def)
    then have s3: "silent w w3" using silent_trans [OF s] by blast
    show ?thesis
      using assms n c HostWaiter p takes_log_event [OF s3, of "Ev_HostAcquired a"]
        takes_silent [OF does_silent [OF s3 silent_steps(4)]]
      by (auto simp: async_acquire_host_def Let_def split: future_end.splits bool.splits)
  next
    case (HostPermit h a)
    then show ?thesis
      using assms n c takes_log_event [OF s, of "Ev_HostAcquired a"] by (auto simp: async_acquire_host_def Let_def)
  qed (use assms n c takes_silent [OF s] in \<open>auto simp: async_acquire_host_def Let_def\<close>)
qed

lemma takes_async_adaptive_acquire:
  assumes "async_adaptive_acquire A deadline_at w = Some (r, w')"
  shows "takes (future_granted (\<lambda>p. {# R_Adaptive p #}) r) w w'"
proof -
  obtain p w1 where p: "wait_for A (\<lambda>_. adaptive_take) deadline_at w = Some (p, w1)"
    using assms by (auto simp: async_adaptive_acquire_def split: option.splits)
  have s: "silent w w1" using silent_wait_for [OF p] by simp
  obtain now w2 where n: "now_monotonic (ak_client A) w1 = (now, w2)" by force
  show ?thesis
    using assms p n takes_silent [OF s]
      takes_log_event [OF does_silent [OF s silent_readings(1) [OF n]],
        of "Ev_AdaptiveBegin \<lparr> ap_started_at = now, ap_completed = False \<rparr>"]
    by (auto simp: async_adaptive_acquire_def Let_def split: future_end.splits bool.splits)
qed

lemma takes_within_deadline:
  fixes acquire :: "instant option \<Rightarrow> ('h, 'b) world \<Rightarrow> (('a, elapsed) result future_end \<times> ('h, 'b) world) option"
  assumes "within_deadline K total_timeout started meth uri acquire w = Some (r, w')"
    and acquire: "\<And>d w r w'. acquire d w = Some (r, w') \<Longrightarrow> takes (future_granted f r) w w'"
  shows "takes (future_granted f r) w w'"
proof -
  have mapped: "future_granted f (case q of Dropped \<Rightarrow> Dropped | Ready r \<Rightarrow> Ready (map_err (\<lambda>_. e) r)) = future_granted f q"
    for q :: "('a, elapsed) result future_end" and e :: "'h error"
    by (cases q) (auto simp: map_err_def split: result.splits)
  show ?thesis
  proof (cases "total_timeout_deadline total_timeout started")
    case None
    then show ?thesis using assms mapped by (auto simp: within_deadline_def Let_def)
  next
    case (Some deadline)
    obtain now w1 where n: "instant_now K w = (now, w1)" by force
    note q = quiet_readings(1) [OF n]
    show ?thesis
    proof (cases "now \<ge> deadline")
      case True
      then show ?thesis using assms(1) Some n takes_silent [OF silent_instant_now [OF n]]
        by (auto simp: within_deadline_def Let_def)
    next
      case False
      then obtain q where "acquire (Some deadline) w1 = Some (q, w')" "future_granted f r = future_granted f q"
        using assms(1) Some n mapped by (auto simp: within_deadline_def Let_def)
      then show ?thesis using quiet_takes [OF q acquire] by simp
    qed
  qed
qed

lemma takes_async_permits:
  "async_acquire_global_request_permit A total_timeout started meth uri w = Some (r, w') \<Longrightarrow>
   takes (future_granted global_resources r) w w'"
  "async_acquire_host_request_permit A host total_timeout started meth uri w = Some (q, w') \<Longrightarrow>
   takes (future_granted host_resources q) w w'"
  by (auto simp: async_acquire_global_request_permit_def async_acquire_host_request_permit_def
      takes_silent split: if_splits
      intro: takes_within_deadline takes_async_acquire_global takes_async_acquire_host)

lemma takes_async_begin_adaptive:
  assumes "async_begin_adaptive_attempt A total_timeout started meth uri w = Some (r, w')"
  shows "takes (future_granted (\<lambda>p. guard_resources \<lparr> ag_circuit = None, ag_adaptive = p \<rparr>) r) w w'"
proof (cases "ci_adaptive_concurrency (ak_client A) = None")
  case True
  then show ?thesis using assms by (auto simp: async_begin_adaptive_attempt_def takes_def)
next
  case False
  then obtain q where l: "within_deadline (ak_client A) total_timeout started meth uri (async_adaptive_acquire A) w =
      Some (q, w')"
    and r: "r = (case q of Dropped \<Rightarrow> Dropped | Ready (Ok p) \<Rightarrow> Ready (Ok (Some p)) | Ready (Err e) \<Rightarrow> Ready (Err e))"
    using assms by (auto simp: async_begin_adaptive_attempt_def)
  show ?thesis
    using takes_within_deadline [OF l takes_async_adaptive_acquire] r
    by (auto simp: guard_resources_def split: future_end.splits result.splits)
qed

lemma quiet_async_sleep: "async_sleep A d w = (r, w') \<Longrightarrow> quiet w w'"
  using quiet_readings(1) [of "ak_client A" w, OF surjective_pairing] quiet_log_events(5)
  by (auto simp: async_sleep_def split: if_splits)

lemma quiet_async_rate_limit_loop:
  assumes "async_rate_limit_loop A host total_timeout started meth uri w = Some y"
  shows "quiet w (snd y)"
proof (rule async_rate_limit_loop.raw_induct [OF _ assms, of
      "\<lambda>A host total_timeout started meth uri w y. quiet w (snd y)"], goal_cases)
  case (1 rec A host total_timeout started meth uri w y)
  obtain wait w1 where d: "rate_limiter_delay (ak_client A) host w = (wait, w1)" by force
  have q1: "quiet w w1"
    using d by (auto simp: rate_limiter_delay_def split_def Let_def settles_def collected_def)
  obtain now w2 where n: "instant_now (ak_client A) w1 = (now, w2)" by force
  note q2 = quiet_settles [OF q1 quiet_readings(1) [OF n]]
  show ?case
  proof (cases "bounded_retry_delay now wait total_timeout started")
    case None
    then show ?thesis using 1(2) d n q1 q2 by (auto split: if_splits)
  next
    case (Some d')
    obtain r w3 where s: "async_sleep A d' w2 = (r, w3)" by force
    note q3 = quiet_settles [OF q2 quiet_async_sleep [OF s]]
    have "snd y = w1 \<or> snd y = w3 \<or> rec A host total_timeout started meth uri w3 = Some y"
      using 1(2) d n Some s by (auto split: if_splits future_end.splits)
    then show ?thesis using q1 q3 quiet_settles [OF q3 1(1)] by blast
  qed
qed

lemma quiet_async_rate_limit_slot:
  "async_acquire_rate_limit_slot A host total_timeout started meth uri w = Some (r, w') \<Longrightarrow> quiet w w'"
  using quiet_async_rate_limit_loop by (fastforce simp: async_acquire_rate_limit_slot_def split: if_splits)

text \<open>
  An admission that is dropped has given back what it had taken; otherwise it ends as the one of the
  blocking client.
\<close>

definition async_admits ::
    "('h, 'b) world \<Rightarrow> (guards \<times> nat option, 'h error) result future_end \<times> ('h, 'b) world \<Rightarrow> bool" where
  "async_admits w x \<longleftrightarrow> (case fst x of
     Ready r \<Rightarrow> admits w (r, snd x)
   | Dropped \<Rightarrow> (\<exists>res w1. takes res w w1 \<and> settles res [] w1 (snd x)))"

lemma async_admits_dropped: "takes res w w1 \<Longrightarrow> settles res [] w1 w2 \<Longrightarrow> async_admits w (Dropped, w2)"
  by (auto simp: async_admits_def)

lemma async_admit_attempt_admits:
  assumes "async_admit_attempt A st context w = Some x"
  shows "async_admits w x"
proof -
  let ?K = "ak_client A"
  let ?host = "rate_limit_host (li_uris ?K) st" and ?total = "op_total_timeout (es_options st)"
    and ?started = "es_request_started_at st" and ?m = "es_current_method st"
    and ?u = "es_current_redacted_uri st"
  note def = async_admit_attempt_def Let_def
  obtain r1 w1 where a1: "async_acquire_rate_limit_slot A ?host ?total ?started ?m ?u w = Some (r1, w1)"
    using assms unfolding def by (auto split: option.splits)
  have t1: "takes {#} w w1"
    using quiet_async_rate_limit_slot [OF a1] by (simp add: takes_def settles_def)
  have lift: "admits w (r, w2) \<Longrightarrow> async_admits w (Ready r, w2)" for r w2 by (simp add: async_admits_def)
  consider (early) "r1 = Dropped \<or> (\<exists>e. r1 = Ready (Err e))" | (go) u where "r1 = Ready (Ok u)"
    by (cases r1; cases "case r1 of Ready r \<Rightarrow> r | Dropped \<Rightarrow> Ok ()") auto
  then show ?thesis
  proof cases
    case early
    then show ?thesis
      using assms a1 lift [OF admits_refused [OF t1]] async_admits_dropped [OF t1 quiet_refl] unfolding def by auto
  next
    case (go u)
    obtain r2 w2 where a2: "async_acquire_host_request_permit A ?host ?total ?started ?m ?u w1 = Some (r2, w2)"
      using assms a1 go unfolding def by (auto split: option.splits)
    note t2 = takes_trans [OF t1 takes_async_permits(2) [OF a2], simplified]
    consider (early) "r2 = Dropped \<or> (\<exists>e. r2 = Ready (Err e))" | (go) h where "r2 = Ready (Ok h)"
      by (cases r2; cases "case r2 of Ready r \<Rightarrow> r | Dropped \<Rightarrow> Ok None") auto
    then show ?thesis
    proof cases
      case early
      then have "takes {#} w w2" using t2 by auto
      then show ?thesis
        using early assms a1 \<open>r1 = Ready (Ok u)\<close> a2 lift [OF admits_refused] async_admits_dropped [OF _ quiet_refl]
        unfolding def by auto
    next
      case (go h)
      note ok2 = \<open>r1 = Ready (Ok u)\<close> go
      obtain r3 w3 where a3: "begin_circuit_attempt ?K ?m ?u w2 = (r3, w3)" by force
      note t3 = takes_trans [OF t2 takes_begin_circuit [OF a3]]
      show ?thesis
      proof (cases r3)
        case (Err e)
        have "settles (host_resources h) [e] w3 (host_permit_drop ?K h (run_error_interceptors context e w3))"
          using settles_trans [OF settles_error settles_permits(2)] by simp
        from lift [OF admits_error [OF _ this]] show ?thesis
          using assms a1 ok2 a2 a3 Err t3 unfolding def by auto
      next
        case (Ok c)
        let ?g = "\<lparr> ag_circuit = c, ag_adaptive = None \<rparr> :: guards"
        obtain r4 w4 where a4: "async_begin_adaptive_attempt A ?total ?started ?m ?u w3 = Some (r4, w4)"
          using assms a1 ok2 a2 a3 Ok unfolding def by (auto split: option.splits)
        have t4: "takes (host_resources h + guard_resources ?g +
            future_granted (\<lambda>p. guard_resources \<lparr> ag_circuit = None, ag_adaptive = p \<rparr>) r4) w w4"
          using takes_trans [OF t3 takes_async_begin_adaptive [OF a4]] ok2 Ok by simp
        note run = assms a1 ok2 a2 a3 Ok a4
        show ?thesis
        proof (cases r4)
          case Dropped
          have "settles (host_resources h + guard_resources ?g) [] w4 (exit_scope ?K ?g h w4)"
            using settles_exit_scope [of ?g h w4 ?K] by (simp add: ac_simps)
          from async_admits_dropped [OF _ this] show ?thesis using run t4 Dropped unfolding def by auto
        next
          case (Ready r)
          show ?thesis
          proof (cases r)
            case (Err e)
            let ?w5 = "snd (guards_cancel (circuit_outcome ?K) (adaptive_outcome ?K) ?g w4)"
            have "admits w (Err e, exit_scope ?K no_guards h (run_error_interceptors context e ?w5))"
              using admits_error [OF t4] settles_cancel_exit [of h ?g e w4 ?K "context"] Ready Err by simp
            then show ?thesis using run Ready Err lift unfolding def by (auto simp: split_def)
          next
            case ok4: (Ok p)
            have "guard_resources (set_adaptive p ?g) =
                guard_resources ?g + guard_resources \<lparr> ag_circuit = None, ag_adaptive = p \<rparr>"
              by (simp add: guard_resources_def set_adaptive_def)
            then show ?thesis
              using run Ready ok4 t4 unfolding def by (auto simp: async_admits_def admits_def ac_simps)
          qed
        qed
      qed
    qed
  qed
qed

subsection \<open>What a stream owns\<close>

definition sb_resources :: "('h, 'b) stream_body \<Rightarrow> resource multiset" where
  "sb_resources s = lifecycle_resources (sb_lifecycle s) + global_resources (sb_global_permit s) +
     host_resources (sb_host_permit s)"

definition async_stream_resources :: "('h, 'b) async_response_stream \<Rightarrow> resource multiset" where
  "async_stream_resources s = sb_resources (as_body s)"

definition async_stream_ok ::
    "('h, 'v, 'u, 'w, 'n, 'b) client \<Rightarrow> ('h, 'b) async_response_stream \<Rightarrow> bool" where
  "async_stream_ok K s \<longleftrightarrow> lifecycle_ok K (sb_lifecycle (as_body s))"

subsection \<open>How an attempt ends\<close>

definition future_ends ::
    "guards \<Rightarrow> nat option \<Rightarrow> unit option \<Rightarrow> ('h, 'b) world \<Rightarrow> ('h, 'u, 'b) async_iteration \<times> ('h, 'b) world \<Rightarrow> bool" where
  "future_ends g host_permit global_permit w x \<longleftrightarrow> (case fst x of
     Ready it \<Rightarrow> attempt_ends async_stream_resources g host_permit global_permit w (it, snd x)
   | Dropped \<Rightarrow> settles (guard_resources g + host_resources host_permit) [] w (snd x))"

lemma future_ends_ready [simp]:
  "future_ends g h gp w (ready x) \<longleftrightarrow> attempt_ends async_stream_resources g h gp w x"
  "future_ends g h gp w (Ready it, w') \<longleftrightarrow> attempt_ends async_stream_resources g h gp w (it, w')"
  "future_ends g h gp w (Dropped, w') \<longleftrightarrow> settles (guard_resources g + host_resources h) [] w w'"
  by (simp_all add: future_ends_def ready_def)

lemma ready_case: "(case p of (g, w) \<Rightarrow> ready (f g w)) = ready (case p of (g, w) \<Rightarrow> f g w)"
  by (cases p) simp

lemma future_ends_quiet: "quiet w w' \<Longrightarrow> future_ends g h gp w' x \<Longrightarrow> future_ends g h gp w x"
  by (cases "fst x") (auto simp: future_ends_def intro: ends_attempt_quiet quiet_settles)

lemma future_ends_settled:
  "settles (guard_resources g) [] w w' \<Longrightarrow> future_ends no_guards h gp w' x \<Longrightarrow> future_ends g h gp w x"
  using settles_trans by (cases "fst x") (fastforce simp: future_ends_def intro: ends_attempt_settled)+

lemma future_ends_continue_after: "future_ends no_guards h gp w (async_continue_after A no_guards h d st body w)"
proof -
  let ?K = "ak_client A"
  obtain r w1 where r: "(if d \<noteq> 0 then async_sleep A d (host_permit_drop ?K h w)
      else (Ready (), host_permit_drop ?K h w)) = (r, w1)" by force
  then have "quiet (host_permit_drop ?K h w) w1"
    using quiet_async_sleep by (fastforce split: if_splits)
  from settles_trans [OF settles_quiet [OF settles_permits(2) this] settles_guards(4) [of no_guards _ ?K]]
  have "settles (host_resources h) [] w (guards_drop ?K no_guards w1)" by simp
  then show ?thesis
    using r by (cases r) (auto simp: async_continue_after_def Let_def future_ends_def attempt_ends_def)
qed

lemma future_ends_retry:
  assumes sch: "settles {#} (failed r) w0 w"
    and rec: "record_failure_for_retry_schedule (circuit_outcome K) (adaptive_outcome K) r g w = (r', g', w')"
    and next_step: "r = Ok NotScheduled \<Longrightarrow> future_ends g h gp w (x g w)"
  shows "future_ends g h gp w0 (case r' of
      Err e \<Rightarrow> (Ready (Iter_Return (Err e) gp), exit_scope K g' h w')
    | Ok (Scheduled delay) \<Rightarrow> async_continue_after A g' h delay st body w'
    | Ok NotScheduled \<Rightarrow> x g' w')"
proof (cases r)
  case (Err e)
  with record_failure_for_retry_schedule_cases [OF rec] sch show ?thesis
    using ends_attempt_failed [of g e w0 w'] settles_trans [of "{#}" "[e]" w0 w "guard_resources g" "[]" w']
    by simp
next
  case (Ok sc)
  then have q: "quiet w0 w" using sch by simp
  show ?thesis
  proof (cases sc)
    case NotScheduled
    then show ?thesis
      using record_failure_for_retry_schedule_cases [OF rec] Ok next_step future_ends_quiet [OF q] by simp
  next
    case (Scheduled d)
    then show ?thesis
      using record_failure_for_retry_schedule_cases [OF rec] Ok
        future_ends_quiet [OF q future_ends_settled [OF _ future_ends_continue_after], of g w' h gp]
      by simp
  qed
qed

lemma future_ends_transport_failed:
  "future_ends g h gp w (async_transport_failed A st body gp context g h e t w)"
proof -
  let ?K = "ak_client A"
  obtain now w1 where n: "instant_now ?K w = (now, w1)" by force
  obtain f w2 where f: "sample_now ?K w1 = (f, w2)" by force
  let ?e = "transport_request_into_error ?K now st t e"
  have "quiet w w2" using quiet_readings(1) [OF n] quiet_oracles(1) [OF f] quiet_settles by blast
  moreover have "future_ends g h gp w2 (async_transport_failed A st body gp context g h e t w)"
  proof (cases "transport_failure_plan_of f (ci_backoff_source ?K) st ?e")
    case (Plan_Retry plan)
    obtain r a w3 where p: "prepare_retry ?K (es_retry_attempt st) context (plan_decision plan)
        (plan_delay plan) w2 = (r, a, w3)" by (metis prod_cases3)
    obtain r' g' w4 where rec: "record_failure_for_retry_schedule (circuit_outcome ?K) (adaptive_outcome ?K)
        r g w3 = (r', g', w4)" by (metis prod_cases3)
    have eq: "async_transport_failed A st body gp context g h e t w = (case r' of
        Err e \<Rightarrow> (Ready (Iter_Return (Err e) gp), exit_scope ?K g' h w4)
      | Ok (Scheduled delay) \<Rightarrow> async_continue_after A g' h delay (st\<lparr> es_attempt := a \<rparr>) body w4
      | Ok NotScheduled \<Rightarrow> ready (case guards_mark_failure (circuit_outcome ?K) (adaptive_outcome ?K) g' w4 of
          (g, w) \<Rightarrow> return_error ?K context g h gp ?e w))"
      unfolding async_transport_failed_def Let_def
      by (simp add: n f Plan_Retry p rec ready_case split: result.split retry_schedule.split)
    show ?thesis
      unfolding eq
      by (rule future_ends_retry [OF settles_prepare_retry [OF p] rec]) (simp add: ends_attempt_mark_error)
  next
    case (Plan_Terminal d)
    then show ?thesis
      unfolding async_transport_failed_def Let_def by (simp add: n f ready_case ends_attempt_mark_error)
  qed
  ultimately show ?thesis by (rule future_ends_quiet)
qed

lemma future_ends_return_stream:
  "attempt_ends async_stream_resources g h gp w (async_return_stream K completion st gp g h response t w)"
proof -
  obtain hooks g' w' where l: "into_stream_lifecycle (circuit_outcome K) (adaptive_outcome K)
      (budget_record_success K) completion g w = (hooks, g', w')"
    by (metis prod_cases3)
  obtain rel where rel: "settles rel [] w w'"
      "rel + guard_resources g' + (case hooks of None \<Rightarrow> {#} | Some h \<Rightarrow> guard_resources (sh_attempts h)) =
        guard_resources g"
    using into_stream_lifecycle_cases [OF l] by blast
  have "settles (rel + guard_resources g') [] w (guards_drop K g' w')"
    using settles_trans [OF rel(1) settles_guards(4)] by simp
  then show ?thesis
    using rel(2) l
    by (force simp: attempt_ends_def async_return_stream_def async_stream_response_def async_stream_resources_def
        sb_resources_def lifecycle_resources_def live_lifecycle_of_def ac_simps)
qed

fun body_failed :: "((body_read_outcome, 'h error) result \<times> 'a) future_end \<Rightarrow> 'h error list" where
  "body_failed Dropped = []"
| "body_failed (Ready (r, _)) = failed r"

lemma settles_async_read_response_body:
  assumes "async_read_response_body_with_retry A body b w = (r, w')"
  shows "settles {#} (body_failed r) w w'"
proof -
  let ?K = "ak_client A"
  obtain now w1 where n: "instant_now ?K w = (now, w1)" by force
  note q = quiet_readings(1) [OF n]
  have failure: "settles {#} (body_failed (fst x)) w (snd x)"
    if "x = (case handle_body_read_failure ?K b failure w2 of (r, attempt, w) \<Rightarrow> (Ready (r, attempt), w))" "quiet w w2"
    for x failure w2
    using that quiet_settles [OF that(2) settles_handle_body_read_failure, of ?K b failure]
    by (cases "handle_body_read_failure ?K b failure w2") auto
  have late: "quiet w (w1\<lparr> w_now := now + d \<rparr>)" for d
    using q instant_now_now [OF n] by (simp add: settles_def collected_def)
  have sampled: "quiet w w2" if "quiet w v" "sample_now ?K v = (f, w2)" for v f w2
    using quiet_settles [OF that(1) quiet_oracles(1) [OF that(2)]] .
  have read: "quiet w w2" if "quiet w v" "instant_now ?K v = (m, w2)" for v m w2
    using quiet_settles [OF that(1) quiet_readings(1) [OF that(2)]] .
  consider (dropped) "ak_dropped A (w_tick w)"
    | (late) "\<not> ak_dropped A (w_tick w)" "ak_body_timed_out A (w_tick w)"
    | (read) "\<not> ak_dropped A (w_tick w)" "\<not> ak_body_timed_out A (w_tick w)" by blast
  then show ?thesis
  proof cases
    case dropped
    then show ?thesis using assms n q by (auto simp: async_read_response_body_with_retry_def Let_def)
  next
    case late
    obtain f w2 where f: "sample_now ?K (w1\<lparr> w_now := now + br_read_timeout b \<rparr>) = (f, w2)" by force
    obtain m w3 where m: "instant_now ?K w2 = (m, w3)" by force
    have "quiet w w3"
      by (rule read [OF sampled [OF \<open>\<And>d. quiet w (w1\<lparr> w_now := now + d \<rparr>)\<close> f] m])
    then show ?thesis
      using assms n late f m failure [OF refl, of w3]
      by (simp add: async_read_response_body_with_retry_def Let_def split_def) force
  next
    case read
    obtain f w2 where f: "sample_now ?K w1 = (f, w2)" by force
    show ?thesis
      using assms n read f q failure [OF refl sampled [OF q f]] quiet_settles [OF q settles_error]
      by (auto simp: async_read_response_body_with_retry_def Let_def split_def split: result.splits read_body_error.splits)
  qed
qed

lemma settles_async_read_decoded:
  assumes "async_read_decoded_response_body_with_retry A body hs s b w = (r, w')"
  shows "settles {#} (body_failed r) w w'"
proof -
  let ?K = "ak_client A"
  obtain e1 w1 where c1: "check_body_deadline ?K b w = (e1, w1)" by force
  obtain r2 w2 where r2: "async_read_response_body_with_retry A body b w1 = (r2, w2)" by force
  obtain e3 w3 where c3: "check_body_deadline ?K b w2 = (e3, w3)" by force
  note q1 = settles_check_body_deadline [OF c1] and q2 = settles_async_read_response_body [OF r2]
    and q3 = settles_check_body_deadline [OF c3]
  note def = async_read_decoded_response_body_with_retry_def Let_def
  consider (early) e where "e1 = Some e"
    | (read) "e1 = None" "\<nexists>bytes a. r2 = Ready (Ok (BodyRead_Body bytes), a)"
    | (late) bytes a e where "e1 = None" "r2 = Ready (Ok (BodyRead_Body bytes), a)" "e3 = Some e"
    | (decode) bytes a where "e1 = None" "r2 = Ready (Ok (BodyRead_Body bytes), a)" "e3 = None"
    by (cases e1; cases e3) auto
  then show ?thesis
  proof cases
    case early
    then show ?thesis using assms c1 q1 by (auto simp: def)
  next
    case read
    then show ?thesis
      using assms c1 r2 quiet_settles [OF q1 [unfolded read(1), simplified] q2]
      by (auto simp: def split: future_end.splits result.splits body_read_outcome.splits)
  next
    case late
    then show ?thesis using assms c1 r2 c3 q1 q2 q3 by (auto simp: def intro: quiet_settles)
  next
    case (decode bytes a)
    obtain r4 w4 where r4: "decode_response_body_limited ?K bytes hs (br_max_response_body_bytes b) s
        (br_context b) w3 = (r4, w4)" by force
    obtain e5 w5 where c5: "check_body_deadline ?K b w4 = (e5, w5)" by force
    have "quiet w w3" using decode q1 q2 q3 by (auto intro: quiet_settles)
    then have q4: "settles {#} (failed r4) w w4"
      using settles_decode_response_body [OF r4] quiet_settles by blast
    show ?thesis
      using assms decode c1 r2 c3 r4 c5 q4 quiet_settles [OF _ settles_check_body_deadline [OF c5]]
      by (auto simp: def split: result.splits option.splits)
  qed
qed

lemma future_ends_read_and_finish:
  "future_ends g h gp w (async_read_and_finish A mode st body gp context g h response w)"
proof -
  let ?K = "ak_client A"
  obtain now w1 where n: "instant_now ?K w = (now, w1)" by force
  have "future_ends g h gp w1 (async_read_and_finish A mode st body gp context g h response w)"
  proof (cases "es_phase_timeout now st")
    case None
    then show ?thesis
      unfolding async_read_and_finish_def Let_def by (simp add: n ready_case ends_attempt_mark_error)
  next
    case (Some rt)
    obtain q w2 where rd: "async_read_decoded_response_body_with_retry A (ih_body response) (ih_headers response)
        (ih_status response) (es_body_read_retry_context context rt st) w1 = (q, w2)" by force
    note settled = settles_async_read_decoded [OF rd]
    show ?thesis
    proof (cases q)
      case Dropped
      then show ?thesis
        using settled quiet_settles [OF _ settles_exit_scope] unfolding async_read_and_finish_def Let_def
        by (simp add: n Some rd)
    next
      case (Ready x)
      obtain r hs a where x: "x = (r, hs, a)" by (metis prod_cases3)
      obtain r' g' w3 where rec: "record_failure_on_error (circuit_outcome ?K) (adaptive_outcome ?K) r g w2 =
          (r', g', w3)" by (metis prod_cases3)
      note rec' = record_failure_on_error_cases [OF rec]
      note def = async_read_and_finish_def Let_def n Some rd Ready x rec
      show ?thesis
      proof (cases r)
        case (Err e)
        then have "r' = Err e" "g' = no_guards" "settles (guard_resources g) [e] w1 w3"
          using rec' settled Ready x settles_trans [of "{#}" "[e]" w1 w2 "guard_resources g" "[]" w3] by simp_all
        then show ?thesis
          using ends_attempt_failed [of g e w1 w3 async_stream_resources h gp ?K] by (simp add: def)
      next
        case (Ok out)
        then have q1: "quiet w1 w2" and same: "r' = Ok out" "g' = g" "w3 = w2" using rec' settled Ready x by auto
        show ?thesis
        proof (cases out)
          case (BodyRead_Retry d)
          have "future_ends g h gp w2 (case guards_mark_failure (circuit_outcome ?K) (adaptive_outcome ?K) g w2 of
              (g, w) \<Rightarrow> async_continue_after A g h d (st\<lparr> es_attempt := a \<rparr>) body w)"
            by (subst guards_eq(2))
               (simp add: future_ends_settled [OF settles_guards(2) future_ends_continue_after])
          then show ?thesis using same BodyRead_Retry future_ends_quiet [OF q1] by (simp add: def)
        next
          case (BodyRead_Body bytes)
          show ?thesis
            using same BodyRead_Body unfolding async_read_and_finish_def Let_def
            by (simp add: n Some rd Ready x rec ends_attempt_quiet [OF q1 ends_attempt_return_response]
                ends_attempt_quiet [OF q1 ends_attempt_complete_error])
        qed
      qed
    qed
  qed
  with quiet_readings(1) [OF n] show ?thesis by (rule future_ends_quiet)
qed

lemma future_ends_handle_non_success:
  "future_ends g h gp w (async_handle_non_success A mode st body gp context g h response t w)"
proof -
  let ?K = "ak_client A" and ?s = "ih_status response" and ?hs = "ih_headers response"
  obtain f w1 where f: "sample_now ?K w = (f, w1)" by force
  define w2 where "w2 = observe_server_throttle ?K context ?s ?hs (rate_limit_host (li_uris ?K) st)
    (es_retry_backoff f (ci_backoff_source ?K) st) w1"
  obtain r st' w3 where p: "prepare_status_retry ?K st context ?s ?hs w2 = (r, st', w3)" by (metis prod_cases3)
  obtain r' g' w4 where rec: "record_failure_for_retry_schedule (circuit_outcome ?K) (adaptive_outcome ?K)
      r g w3 = (r', g', w4)" by (metis prod_cases3)
  have q: "quiet w w2"
    using quiet_settles [OF quiet_oracles(1) [OF f] quiet_observe_server_throttle] by (simp add: w2_def)
  let ?x = "\<lambda>g w. if is_stream mode \<and> es_should_return_non_success_response st'
    then ready (async_return_stream ?K (non_success_completion st' ?s) st' gp g h response t w)
    else async_read_and_finish A mode st' body gp context g h response w"
  have eq: "async_handle_non_success A mode st body gp context g h response t w = (case r' of
      Err e \<Rightarrow> (Ready (Iter_Return (Err e) gp), exit_scope ?K g' h w4)
    | Ok (Scheduled delay) \<Rightarrow> async_continue_after A g' h delay st' body w4
    | Ok NotScheduled \<Rightarrow> ?x g' w4)"
    using p unfolding async_handle_non_success_def Let_def by (simp add: f rec w2_def)
  have "future_ends g h gp w3 (?x g w3)" by (simp add: future_ends_return_stream future_ends_read_and_finish)
  then show ?thesis
    unfolding eq
    by (intro future_ends_quiet [OF q future_ends_retry [OF settles_prepare_status_retry [OF p, THEN conjunct1] rec]])
qed

lemma future_ends_exit:
  "future_ends no_guards h gp w (Ready (Iter_Continue st body), exit_scope K no_guards h w)"
  using settles_exit_scope [of no_guards h w K] by (auto simp: attempt_ends_def)

lemma future_ends_handle_response:
  "future_ends g h gp w (async_handle_response A mode st body gp context g h response t w)"
proof -
  let ?K = "ak_client A" and ?s = "ih_status response" and ?hs = "ih_headers response"
  let ?w = "run_response_interceptors context ?s ?hs w"
  note later = future_ends_quiet [OF quiet_log_events(1) [of w "context" ?s ?hs]]
    and later' = ends_attempt_quiet [OF quiet_log_events(1) [of w "context" ?s ?hs]]
  show ?thesis
  proof (cases "es_next_redirect_action (li_headers ?K) (li_uris ?K) (li_urls ?K) st ?s ?hs")
    case (Err e)
    then show ?thesis
      unfolding async_handle_response_def Let_def by (simp add: ready_case ends_attempt_mark_error)
  next
    case (Ok act)
    show ?thesis
    proof (cases act)
      case None
      then show ?thesis
        using Ok unfolding async_handle_response_def Let_def
        by (simp add: later later' future_ends_return_stream future_ends_read_and_finish
            future_ends_handle_non_success)
    next
      case (Some a)
      obtain drops st' where ap: "apply_redirect (li_headers ?K) a (ci_retry_eligibility ?K) st = (drops, st')" by force
      define b where "b = (if drops then request_body_default else body)"
      let ?w' = "snd (guards_mark_success (circuit_outcome ?K) (adaptive_outcome ?K) g ?w)"
      have eq: "async_handle_response A mode st body gp context g h response t w =
          (Ready (Iter_Continue st' b), exit_scope ?K no_guards h ?w')"
        using Ok Some unfolding async_handle_response_def Let_def b_def by (subst guards_eq(1)) (simp add: ap)
      show ?thesis
        unfolding eq by (rule later [OF future_ends_settled [OF settles_guards(1) future_ends_exit]])
    qed
  qed
qed

end
