(* ===== verification/Reqx_AsyncLoop.thy ===== *)
theory Reqx_AsyncLoop
  imports Reqx_AsyncProofs
begin

text \<open>
  The loop of the asynchronous client against the states of \<open>Reqx_Execution\<close>: an iteration that goes on
  has sent exactly one request and has either scheduled a retry or followed a redirect, and a loop that is
  dropped has given back everything it had taken.
\<close>

subsection \<open>How an iteration goes on\<close>

definition future_goes_on ::
    "('h, 'v, 'u, 'w, 'n, 'b) client \<Rightarrow> ('h, 'u) request_execution_state \<Rightarrow> 'b request_body \<Rightarrow>
     ('h, 'u, 'b) async_iteration \<Rightarrow> bool" where
  "future_goes_on K st body fr = (case fr of Dropped \<Rightarrow> True | Ready it \<Rightarrow> goes_on K st body it)"

lemma future_goes_on_simps [simp]:
  "future_goes_on K st body Dropped"
  "future_goes_on K st body (Ready it) \<longleftrightarrow> goes_on K st body it"
  "future_goes_on K st body (fst (ready x)) \<longleftrightarrow> goes_on K st body (fst x)"
  "goes_on_with K st body st' body \<Longrightarrow> future_goes_on K st body (fst (async_continue_after A g h d st' body w))"
  "goes_on K st body (fst (async_return_stream K' completion st' gp g h response t w))"
  by (simp_all add: future_goes_on_def ready_def async_continue_after_def async_return_stream_def split_def Let_def
      split: future_end.split)

lemma future_goes_on_case [simp]:
  "(\<And>g w. future_goes_on K st body (fst (f g w))) \<Longrightarrow> future_goes_on K st body (fst (case x of (g, w) \<Rightarrow> f g w))"
  by (cases x) simp

lemma goes_on_async_transport_failed:
  "future_goes_on (ak_client A) st body (fst (async_transport_failed A st body gp context g h e t w))"
proof -
  let ?K = "ak_client A"
  obtain now w1 where n: "instant_now ?K w = (now, w1)" by force
  obtain f w2 where f: "sample_now ?K w1 = (f, w2)" by force
  show ?thesis
  proof (cases "transport_failure_plan_of f (ci_backoff_source ?K) st (transport_request_into_error ?K now st t e)")
    case (Plan_Retry plan)
    obtain r a w3 where p: "prepare_retry ?K (es_retry_attempt st) context (plan_decision plan)
        (plan_delay plan) w2 = (r, a, w3)" by (metis prod_cases3)
    obtain r' g' w4 where rec: "record_failure_for_retry_schedule (circuit_outcome ?K) (adaptive_outcome ?K)
        r g w3 = (r', g', w4)" by (metis prod_cases3)
    show ?thesis
      using prepare_retry_schedules(1) [OF p] record_failure_keeps_result(1) [OF rec]
      unfolding async_transport_failed_def Let_def
      by (simp add: n f Plan_Retry p rec split: result.split retry_schedule.split)
  qed (simp add: async_transport_failed_def Let_def n f)
qed

lemma async_read_decoded_response_body_retries:
  assumes "async_read_decoded_response_body_with_retry A body hs s (es_body_read_retry_context context t st) w =
      (Ready (Ok (BodyRead_Retry d), hs', attempt), w')"
  shows "retried (ak_client A) st (st\<lparr> es_attempt := attempt \<rparr>)"
proof -
  let ?b = "es_body_read_retry_context context t st"
  obtain w1 where "async_read_response_body_with_retry A body ?b w1 = (Ready (Ok (BodyRead_Retry d), attempt), w')"
    using assms by (auto simp: async_read_decoded_response_body_with_retry_def Let_def
        split: prod.splits option.splits result.splits body_read_outcome.splits future_end.splits)
  then obtain failure w2 where
      "handle_body_read_failure (ak_client A) ?b failure w2 = (Ok (BodyRead_Retry d), attempt, w')"
    by (auto simp: async_read_response_body_with_retry_def Let_def split: prod.splits result.splits
        read_body_error.splits if_splits)
  then show ?thesis by (rule handle_body_read_failure_retries)
qed

lemma goes_on_async_read_and_finish:
  "future_goes_on (ak_client A) st body (fst (async_read_and_finish A mode st body gp context g h response w))"
proof -
  let ?K = "ak_client A"
  obtain now w1 where n: "instant_now ?K w = (now, w1)" by force
  show ?thesis
  proof (cases "es_phase_timeout now st")
    case None
    then show ?thesis unfolding async_read_and_finish_def Let_def by (simp add: n)
  next
    case (Some rt)
    obtain q w2 where rd: "async_read_decoded_response_body_with_retry A (ih_body response) (ih_headers response)
        (ih_status response) (es_body_read_retry_context context rt st) w1 = (q, w2)" by force
    show ?thesis
    proof (cases q)
      case Dropped
      then show ?thesis unfolding async_read_and_finish_def Let_def by (simp add: n Some rd)
    next
      case (Ready x)
      obtain r hs a where x: "x = (r, hs, a)" by (metis prod_cases3)
      obtain r' g' w3 where rec: "record_failure_on_error (circuit_outcome ?K) (adaptive_outcome ?K) r g w2 =
          (r', g', w3)" by (metis prod_cases3)
      have "retried ?K st (st\<lparr> es_attempt := a \<rparr>)" if "r = Ok (BodyRead_Retry d)" for d
        by (rule async_read_decoded_response_body_retries [OF rd [unfolded Ready x that]])
      then show ?thesis
        using record_failure_keeps_result(2) [OF rec]
        unfolding async_read_and_finish_def Let_def
        by (auto simp: n Some rd Ready x rec split: result.split body_read_outcome.split)
    qed
  qed
qed

lemma goes_on_async_handle_non_success:
  "future_goes_on (ak_client A) st body (fst (async_handle_non_success A mode st body gp context g h response t w))"
proof -
  let ?K = "ak_client A" and ?s = "ih_status response" and ?hs = "ih_headers response"
  obtain f w1 where f: "sample_now ?K w = (f, w1)" by force
  obtain r st' w3 where p: "prepare_status_retry ?K st context ?s ?hs
      (observe_server_throttle ?K context ?s ?hs (rate_limit_host (li_uris ?K) st)
        (es_retry_backoff f (ci_backoff_source ?K) st) w1) = (r, st', w3)" by (metis prod_cases3)
  obtain r' g' w4 where rec: "record_failure_for_retry_schedule (circuit_outcome ?K) (adaptive_outcome ?K)
      r g w3 = (r', g', w4)" by (metis prod_cases3)
  show ?thesis
    using prepare_status_retry_schedules [OF p] record_failure_keeps_result(1) [OF rec]
    unfolding async_handle_non_success_def Let_def
    by (auto simp: f p rec goes_on_async_read_and_finish split: result.split retry_schedule.split)
qed

lemma goes_on_async_handle_response:
  "future_goes_on (ak_client A) st body (fst (async_handle_response A mode st body gp context g h response t w))"
proof (cases "es_next_redirect_action (li_headers (ak_client A)) (li_uris (ak_client A)) (li_urls (ak_client A)) st
    (ih_status response) (ih_headers response)")
  case (Err e)
  then show ?thesis unfolding async_handle_response_def Let_def by simp
next
  case (Ok act)
  let ?K = "ak_client A"
  show ?thesis
  proof (cases act)
    case None
    then show ?thesis
      using Ok unfolding async_handle_response_def Let_def
      by (simp add: goes_on_async_read_and_finish goes_on_async_handle_non_success)
  next
    case (Some a)
    have "redirected ?K st body (snd (apply_redirect (li_headers ?K) a (ci_retry_eligibility ?K) st))
        (if fst (apply_redirect (li_headers ?K) a (ci_retry_eligibility ?K) st) then request_body_default else body)"
      using Ok Some by (auto simp: redirected_def apply_redirect_sel)
    then show ?thesis
      using Ok Some unfolding async_handle_response_def Let_def by (auto simp: split_def split: if_splits)
  qed
qed

subsection \<open>One request per iteration\<close>

text \<open>
  What an iteration sends from a state. Unlike the blocking client, this one adds the credentials of the
  proxy itself, on the requests that an http proxy forwards as they are.
\<close>

definition async_request_from ::
    "('h, 'v, 'u, 'w, 'n, 'b) client \<Rightarrow> ('h, 'u) request_execution_state \<Rightarrow> 'b request_body \<Rightarrow>
     ('h, 'b) sent_request \<Rightarrow> bool" where
  "async_request_from K st body q \<longleftrightarrow>
     tr_method (snd q) = es_current_method st \<and>
     tr_uri (snd q) = uri_to_string (li_uris K) (es_current_uri st) \<and>
     tr_body (snd q) = body \<and>
     (\<exists>headers. tr_headers (snd q) =
        apply_http_proxy_auth_header K (es_current_uri st)
          (hm_remove (li_headers K) ''proxy-authorization'' headers)) \<and>
     es_phase_timeout (fst q) st = Some (tr_timeout (snd q)) \<and>
     tr_proxied (snd q) = (connect_route_of K (es_current_uri st) \<noteq> Route_Direct)"

interpretation async_requests: attempt_requests K "async_request_from K" for K
  by unfold_locales (simp_all add: async_request_from_def)

definition future_returns :: "('h, 'u, 'b) async_iteration \<Rightarrow> bool" where
  "future_returns fr \<longleftrightarrow> (case fr of Ready (Iter_Return _ _) \<Rightarrow> True | Ready (Iter_Continue _ _) \<Rightarrow> False | Dropped \<Rightarrow> True)"

definition future_runs ::
    "('h, 'v, 'u, 'w, 'n, 'b) client \<Rightarrow> ('h, 'u) request_execution_state \<Rightarrow> 'b request_body \<Rightarrow> guards \<Rightarrow>
     nat option \<Rightarrow> unit option \<Rightarrow> ('h, 'b) world \<Rightarrow> ('h, 'u, 'b) async_iteration \<times> ('h, 'b) world \<Rightarrow> bool" where
  "future_runs K st body g h gp w x \<longleftrightarrow>
     (\<exists>w1. acquired w1 = acquired w \<and> released w1 = released w \<and> errors w1 = errors w \<and> w_now w \<le> w_now w1 \<and>
        future_ends g h gp w1 x \<and>
        (sent w1 = sent w \<and> future_returns (fst x) \<or>
         (\<exists>q. sent w1 = sent w @ [q] \<and> w_now w \<le> fst q \<and> async_request_from K st body q \<and>
            future_goes_on K st (snd (take_for_attempt body)) (fst x))))"

lemma future_runs_unsent:
  assumes "future_ends g h gp w' x" "quiet w w'" "future_returns (fst x)"
  shows "future_runs K st body g h gp w x"
  using assms unfolding future_runs_def settles_def by (intro exI [of _ w']) auto

lemma future_runs_error:
  assumes "quiet w w'"
  shows "future_runs K st body g h gp w
    (ready (case guards_cancel (circuit_outcome K') (adaptive_outcome K') g w' of
       (g, w) \<Rightarrow> return_error K' context g h gp e w))"
  using assms ends_attempt_mark_error
  by (intro future_runs_unsent [of _ _ _ w']) (simp_all add: ready_def future_returns_def return_error_def split_def)

lemma send_transport_request_sends:
  assumes "send_transport_request A request w = (r, w')"
  shows "acquired w' = acquired w" "released w' = released w" "errors w' = errors w" "w_now w \<le> w_now w'"
    "sent w' = sent w @ [(w_now w, request)]"
  using assms
  by (auto simp: send_transport_request_def Let_def instant_now_def collected_def log_event_def tick_def
      split: if_splits option.splits)

lemma async_send_attempt_runs:
  fixes A :: "('h, 'v, 'u, 'w, 'n, 'b) async_client" and st :: "('h, 'u) request_execution_state"
  shows "\<exists>hs. future_runs (ak_client A) (tighten_retry_eligibility hs (ci_retry_eligibility (ak_client A)) st) body
    g h gp w (async_send_attempt A mode st body gp context g h w)"
proof -
  let ?K = "ak_client A"
  obtain hs w1 where i: "run_request_interceptors ?K context (es_current_headers st) w = (hs, w1)" by force
  let ?st = "tighten_retry_eligibility hs (ci_retry_eligibility ?K) st"
  let ?x = "async_send_attempt A mode st body gp context g h w"
  have q1: "quiet w w1" by (rule quiet_oracles(2) [OF i])
  have "future_runs ?K ?st body g h gp w ?x"
  proof (cases "validate_request_framing_headers (li_headers ?K) hs (known_length body)
      (es_current_method ?st) (es_current_redacted_uri ?st) :: 'h error unit_result")
    case (Err e)
    then have x: "?x = ready (case guards_cancel (circuit_outcome ?K) (adaptive_outcome ?K) g w1 of
        (g, w) \<Rightarrow> return_error ?K (es_context ?st) g h gp e w)"
      unfolding async_send_attempt_def Let_def by (simp add: i ready_case)
    show ?thesis unfolding x by (rule future_runs_error [OF q1])
  next
    case (Ok u)
    obtain now w2 where n: "instant_now ?K w1 = (now, w2)" by force
    have q2: "quiet w w2" using quiet_settles [OF q1 quiet_readings(1) [OF n]] .
    show ?thesis
    proof (cases "es_phase_timeout now ?st")
      case None
      then have x: "?x = ready (case guards_cancel (circuit_outcome ?K) (adaptive_outcome ?K) g w2 of
          (g, w) \<Rightarrow> return_error ?K (es_context ?st) g h gp (deadline_error ?st) w)"
        using Ok unfolding async_send_attempt_def Let_def by (simp add: i n ready_case)
      show ?thesis unfolding x by (rule future_runs_error [OF q2])
    next
      case (Some t)
      obtain b' where b: "take_for_attempt body = (body, b')" by (metis fst_take_for_attempt prod.collapse)
      define q where "q = \<lparr> tr_method = es_current_method ?st,
          tr_uri = uri_to_string (li_uris ?K) (es_current_uri ?st),
          tr_headers = apply_http_proxy_auth_header ?K (es_current_uri ?st) (hm_remove (li_headers ?K)
            ''proxy-authorization'' (mark_sensitive_headers (li_iter_mut ?K) (li_header_values ?K) hs)),
          tr_body = body, tr_timeout = t, tr_connect_timeout = ci_connect_timeout ?K,
          tr_proxied = (connect_route_of ?K (es_current_uri ?st) \<noteq> Route_Direct) \<rparr>"
      obtain r w3 where sr: "send_transport_request A q w2 = (r, w3)" by force
      have x: "?x = (case r of
          Dropped \<Rightarrow> (Dropped, exit_scope ?K g h w3)
        | Ready (Err e) \<Rightarrow> async_transport_failed A ?st b' gp (es_context ?st) g h e t w3
        | Ready (Ok response) \<Rightarrow> async_handle_response A mode ?st b' gp (es_context ?st) g h response t w3)"
        using Ok Some sr unfolding async_send_attempt_def Let_def q_def
        by (simp add: i n b split: result.split future_end.split)
      have "future_ends g h gp w3 ?x" "future_goes_on ?K ?st (snd (take_for_attempt body)) (fst ?x)"
        unfolding x b snd_conv
        by (simp_all split: future_end.split result.split add: settles_exit_scope future_ends_transport_failed
            future_ends_handle_response goes_on_async_transport_failed goes_on_async_handle_response)
      moreover have "async_request_from ?K ?st body (w_now w2, q)"
        using Some instant_now_now [OF n] by (auto simp: async_request_from_def q_def)
      ultimately show ?thesis
        using q2 send_transport_request_sends [OF sr] unfolding future_runs_def
        by (intro exI [of _ w3]) (auto simp: settles_def)
    qed
  qed
  then show ?thesis by blast
qed

subsection \<open>One iteration\<close>

fun future_owns :: "unit option \<Rightarrow> ('h, 'u, 'b) async_iteration \<Rightarrow> resource multiset" where
  "future_owns gp Dropped = global_resources gp"
| "future_owns gp (Ready it) = it_owns async_stream_resources gp it"

fun future_errors :: "('h, 'u, 'b) async_iteration \<Rightarrow> 'h error list" where
  "future_errors Dropped = []"
| "future_errors (Ready it) = it_errors it"

definition async_iterates ::
    "('h, 'v, 'u, 'w, 'n, 'b) client \<Rightarrow> ('h, 'u) request_execution_state \<Rightarrow> 'b request_body \<Rightarrow>
     unit option \<Rightarrow> ('h, 'b) world \<Rightarrow> ('h, 'u, 'b) async_iteration \<times> ('h, 'b) world \<Rightarrow> bool" where
  "async_iterates K st body gp w x \<longleftrightarrow>
     acquired (snd x) + released w + global_resources gp =
       acquired w + released (snd x) + future_owns gp (fst x) \<and>
     errors (snd x) = errors w @ future_errors (fst x) \<and>
     w_now w \<le> w_now (snd x) \<and>
     (sent (snd x) = sent w \<and> future_returns (fst x) \<or>
      (\<exists>q hs. sent (snd x) = sent w @ [q] \<and> w_now w \<le> fst q \<and>
         async_request_from K (tighten_retry_eligibility hs (ci_retry_eligibility K) st) body q \<and>
         future_goes_on K (tighten_retry_eligibility hs (ci_retry_eligibility K) st) (snd (take_for_attempt body)) (fst x)))"

lemma async_attempt_iteration_iterates:
  assumes "async_attempt_iteration A mode st body gp w = Some x"
  shows "async_iterates (ak_client A) st body gp w x"
proof -
  let ?K = "ak_client A"
  let ?w = "run_request_start_observers (es_context st) w"
  have q: "quiet w ?w" by simp
  obtain fr w1 where a: "async_admit_attempt A st (es_context st) ?w = Some (fr, w1)"
    using assms by (auto simp: async_attempt_iteration_def Let_def split: option.splits)
  note ad = async_admit_attempt_admits [OF a]
  show ?thesis
  proof (cases fr)
    case Dropped
    then have "x = (Dropped, w1)" using assms a by (auto simp: async_attempt_iteration_def Let_def)
    then show ?thesis
      using ad q Dropped
      by (auto simp: async_admits_def async_iterates_def future_returns_def takes_def settles_def ac_simps)
  next
    case (Ready r)
    show ?thesis
    proof (cases r)
      case (Err e)
      then have "x = (Ready (Iter_Return (Err e) gp), w1)"
        using assms a Ready by (auto simp: async_attempt_iteration_def Let_def)
      then show ?thesis
        using ad q Ready Err
        by (auto simp: async_admits_def admits_def async_iterates_def future_returns_def takes_def settles_def ac_simps)
    next
      case (Ok p)
      obtain g h where p: "p = (g, h)" by force
      have x: "x = async_send_attempt A mode st body gp (es_context st) g h w1"
        using assms a Ready Ok p by (auto simp: async_attempt_iteration_def Let_def)
      obtain hs where run: "future_runs ?K (tighten_retry_eligibility hs (ci_retry_eligibility ?K) st) body g h gp w1 x"
        using async_send_attempt_runs [of A st body g h gp w1 mode "es_context st"] x by blast
      have t: "takes (guard_resources g + host_resources h) ?w w1"
        using ad Ready Ok p by (simp add: async_admits_def admits_def)
      from run t q show ?thesis
        unfolding future_runs_def future_ends_def attempt_ends_def async_iterates_def
        by (cases "fst x") (auto simp: takes_def settles_def ac_simps)
    qed
  qed
qed

subsection \<open>The loop\<close>

lemma async_retry_loop_induct [consumes 1, case_names exhausted dropped finish again]:
  assumes run: "async_retry_loop A mode st body gp w = Some (r, w')"
    and exhausted: "\<And>st body w. \<not> can_attempt st \<Longrightarrow>
      P st body w (Ready (Err (deadline_error st))) (global_permit_drop (ak_client A) gp
        (run_error_interceptors (es_context st) (deadline_error st) w))"
    and dropped: "\<And>st body w w1. can_attempt st \<Longrightarrow>
      async_attempt_iteration A mode st body gp w = Some (Dropped, w1) \<Longrightarrow>
      P st body w Dropped (global_permit_drop (ak_client A) gp w1)"
    and finish: "\<And>st body w r left w1. can_attempt st \<Longrightarrow>
      async_attempt_iteration A mode st body gp w = Some (Ready (Iter_Return r left), w1) \<Longrightarrow>
      P st body w (Ready r) (global_permit_drop (ak_client A) left w1)"
    and again: "\<And>st body w st' body' w1 r w'. can_attempt st \<Longrightarrow>
      async_attempt_iteration A mode st body gp w = Some (Ready (Iter_Continue st' body'), w1) \<Longrightarrow>
      P st' body' w1 r w' \<Longrightarrow> P st body w r w'"
  shows "P st body w r w'"
proof -
  have "A' = A \<longrightarrow> mode' = mode \<longrightarrow> gp' = gp \<longrightarrow> P st body w (fst y) (snd y)"
    if "async_retry_loop A' mode' st body gp' w = Some y" for A' mode' st body gp' w y
  proof (rule async_retry_loop.raw_induct [OF _ that, of "\<lambda>A' mode' st body gp' w y.
      A' = A \<longrightarrow> mode' = mode \<longrightarrow> gp' = gp \<longrightarrow> P st body w (fst y) (snd y)"], intro impI, goal_cases)
    case (1 rec A' mode' st body gp' w y)
    note IH = 1(1) and eq = 1(2) and same = 1(3-5)
    show ?case
    proof (cases "can_attempt st")
      case False
      then show ?thesis using eq exhausted same by auto
    next
      case True
      then obtain fr w1 where it: "async_attempt_iteration A mode st body gp w = Some (fr, w1)"
        using eq same by (auto split: option.splits)
      consider "fr = Dropped" | (ret) r left where "fr = Ready (Iter_Return r left)"
        | (cont) st' body' where "fr = Ready (Iter_Continue st' body')"
        by (metis future_end.exhaust iteration.exhaust)
      then show ?thesis
      proof cases
        case cont
        then have "rec A mode st' body' gp w1 = Some y" using eq same True it by simp
        then show ?thesis using IH again [OF True it [unfolded cont]] by blast
      qed (use eq same True it dropped [OF True] finish [OF True] in auto)
    qed
  qed
  from this [OF run] show ?thesis by simp
qed

fun future_result_owns ::
    "(('h, ('h, 'b) async_response_stream) retry_response, 'h error) result future_end \<Rightarrow> resource multiset" where
  "future_result_owns Dropped = {#}"
| "future_result_owns (Ready r) = result_owns async_stream_resources r"

fun future_failed :: "('a, 'h error) result future_end \<Rightarrow> 'h error list" where
  "future_failed Dropped = []"
| "future_failed (Ready r) = failed r"

lemma async_retry_loop_accounts:
  assumes "async_retry_loop A mode st body gp w = Some (r, w')"
  shows "acquired w' + released w + global_resources gp = acquired w + released w' + future_result_owns r \<and>
    errors w' = errors w @ future_failed r \<and> w_now w \<le> w_now w'"
  using assms
proof (induction rule: async_retry_loop_induct)
  case (exhausted st body w)
  have "settles ({#} + global_resources gp) ([deadline_error st] @ []) w (global_permit_drop (ak_client A) gp
      (run_error_interceptors (es_context st) (deadline_error st) w))"
    by (rule settles_trans [OF settles_error settles_permits(1)])
  then show ?case by (simp add: settles_def)
next
  case (dropped st body w w1)
  then show ?case
    using async_attempt_iteration_iterates [OF dropped(2)] settles_permits(1) [of gp w1 "ak_client A"]
    by (auto simp: async_iterates_def settles_def ac_simps)
next
  case (finish st body w r left w1)
  then show ?case
    using async_attempt_iteration_iterates [OF finish(2)] settles_permits(1) [of left w1 "ak_client A"]
    by (auto simp: async_iterates_def settles_def ac_simps)
next
  case (again st body w st' body' w1 r w')
  have "(acquired w1 + released w + global_resources gp) + (acquired w' + released w1 + global_resources gp) =
      (acquired w + released w1 + global_resources gp) + (acquired w1 + released w' + future_result_owns r)"
    using async_attempt_iteration_iterates [OF again(2)] again(3) by (simp add: async_iterates_def)
  then have "acquired w' + released w + global_resources gp = acquired w + released w' + future_result_owns r"
    by (simp add: ac_simps)
  then show ?case
    using async_attempt_iteration_iterates [OF again(2)] again(3) by (auto simp: async_iterates_def)
qed

lemma async_retry_loop_attempts:
  assumes "async_retry_loop A mode st body gp w = Some (r, w')"
  shows "\<exists>qs. sent w' = sent w @ qs \<and> attempts (ak_client A) (async_request_from (ak_client A)) st body qs \<and>
    (\<forall>q \<in> set qs. w_now w \<le> fst q)"
  using assms
proof (induction rule: async_retry_loop_induct)
  case (exhausted st body w)
  show ?case
    by (rule exI [of _ "[]"])
       (simp add: attempts_none run_error_interceptors_def collected_append [OF w_log_permit_drop(1)])
next
  case (dropped st body w w1)
  have "sent (global_permit_drop (ak_client A) gp w1) = sent w1"
    by (simp add: collected_append [OF w_log_permit_drop(1)])
  then show ?case
    using async_attempt_iteration_iterates [OF dropped(2)] attempts_none attempts_last
    by (fastforce simp: async_iterates_def)
next
  case (finish st body w r left w1)
  have "sent (global_permit_drop (ak_client A) left w1) = sent w1"
    by (simp add: collected_append [OF w_log_permit_drop(1)])
  then show ?case
    using async_attempt_iteration_iterates [OF finish(2)] attempts_none attempts_last
    by (fastforce simp: async_iterates_def)
next
  case (again st body w st' body' w1 r w')
  note it = async_attempt_iteration_iterates [OF again(2), unfolded async_iterates_def future_returns_def, simplified]
  let ?K = "ak_client A"
  from it obtain q hs where q: "sent w1 = sent w @ [q]" "w_now w \<le> fst q"
      "async_request_from ?K (tighten_retry_eligibility hs (ci_retry_eligibility ?K) st) body q"
      "goes_on_with ?K (tighten_retry_eligibility hs (ci_retry_eligibility ?K) st) (snd (take_for_attempt body)) st' body'"
    by auto
  obtain qs where qs: "sent w' = sent w1 @ qs" "attempts ?K (async_request_from ?K) st' body' qs"
      "\<forall>q \<in> set qs. w_now w1 \<le> fst q"
    using again(3) by blast
  show ?case
    using q(1,2) qs(1,3) it attempts_more [OF q(3,4) qs(2)] by (intro exI [of _ "q # qs"]) auto
qed

end
