(* ===== verification/Reqx_AsyncStreamProofs.thy ===== *)
theory Reqx_AsyncStreamProofs
  imports Reqx_AsyncProofs
begin

text \<open>
  Response streams of the asynchronous client: what a stream owns is released exactly once, whichever way
  the stream is consumed and wherever the consumer is dropped (locale \<open>awaited_consumer\<close>), and what it
  delivers is what the frames of its body hold.
\<close>

subsection \<open>Operations on a stream\<close>

definition sb_op ::
    "('h, 'v, 'u, 'w, 'n, 'b) client \<Rightarrow> ('h, 'b) stream_body \<Rightarrow> ('h, 'b) world \<Rightarrow>
     ('h, 'b) stream_body \<times> ('h, 'b) world \<Rightarrow> bool" where
  "sb_op K s w x \<longleftrightarrow> lifecycle_ok K (sb_lifecycle (fst x)) \<and>
     (\<exists>rel. settles rel [] w (snd x) \<and> rel + sb_resources (fst x) = sb_resources s)"

definition sb_kept :: "('h, 'b) stream_body \<Rightarrow> ('h, 'b) stream_body \<Rightarrow> bool" where
  "sb_kept s s' \<longleftrightarrow> sb_lifecycle s' = sb_lifecycle s \<and> sb_global_permit s' = sb_global_permit s \<and>
     sb_host_permit s' = sb_host_permit s \<and> sb_deadline_at s' = sb_deadline_at s \<and>
     sb_timeout_ms s' = sb_timeout_ms s"

lemma sb_kept_refl [simp]: "sb_kept s s" and sb_kept_trans: "sb_kept s s' \<Longrightarrow> sb_kept s' s'' \<Longrightarrow> sb_kept s s''"
  by (simp_all add: sb_kept_def)

lemma sb_kept_updates [simp]:
  "sb_kept s (s\<lparr> sb_inner := i \<rparr>)" "sb_kept s (s\<lparr> sb_read_buffer := b \<rparr>)" "sb_kept s (reset_frame_timeout s)"
  "sb_kept s (reset_frame_timeout (s\<lparr> sb_inner := i \<rparr>))"
  "sb_kept s (s\<lparr> sb_frame_timeout := t, sb_frame_timeout_deadline_limited := d \<rparr>)"
  by (simp_all add: sb_kept_def reset_frame_timeout_def)

lemma sb_op_trans: "sb_op K s w (s', w') \<Longrightarrow> sb_op K s' w' x \<Longrightarrow> sb_op K s w x"
  unfolding sb_op_def using settles_trans by (fastforce simp: ac_simps)

lemma sb_op_ok: "sb_op K s w (s', w') \<Longrightarrow> lifecycle_ok K (sb_lifecycle s')"
  by (simp add: sb_op_def)

lemma sb_op_quiet:
  "lifecycle_ok K (sb_lifecycle s) \<Longrightarrow> sb_kept s s' \<Longrightarrow> quiet w w' \<Longrightarrow> sb_op K s w (s', w')"
  by (auto simp: sb_op_def sb_kept_def sb_resources_def)

lemma sb_op_complete:
  assumes "lifecycle_ok K (sb_lifecycle s)"
  shows "sb_op K s w (sb_complete K e s w)"
proof -
  obtain s1 w1 where r: "sb_release_transport K s w = (s1, w1)" by force
  have s1: "sb_lifecycle s1 = sb_lifecycle s" "sb_global_permit s1 = None" "sb_host_permit s1 = None"
    and q: "settles (global_resources (sb_global_permit s) + host_resources (sb_host_permit s)) [] w w1"
    using r settles_trans [OF settles_permits(1) settles_permits(2)] by (auto simp: sb_release_transport_def)
  obtain l w2 where l: "live_lifecycle_complete K e (sb_lifecycle s) w1 = (l, w2)" by force
  note settled = settles_live_lifecycle_complete [OF assms l]
  have "settles (sb_resources s) [] w w2"
    using settles_trans [OF q settled [THEN conjunct1]] by (simp add: sb_resources_def ac_simps)
  then show ?thesis
    using settled s1 l
    by (auto simp: sb_op_def sb_complete_def r sb_resources_def lifecycle_resources_def lifecycle_ok_def)
qed

lemma sb_op_then_complete: "sb_op K s w (s', w') \<Longrightarrow> sb_op K s w (sb_complete K e s' w')"
  using sb_op_trans sb_op_complete [OF sb_op_ok] by blast

lemma settles_sb_drop:
  assumes "lifecycle_ok K (sb_lifecycle s)"
  shows "settles (sb_resources s) [] w (sb_drop K s w)"
proof -
  obtain l w1 where l: "live_lifecycle_complete K LifecycleCanceled (sb_lifecycle s) w = (l, w1)" by force
  have "settles (lifecycle_resources (sb_lifecycle s) + (global_resources (sb_global_permit s) +
      host_resources (sb_host_permit s))) ([] @ ([] @ [])) w
      (host_permit_drop K (sb_host_permit s) (global_permit_drop K (sb_global_permit s) w1))"
    by (rule settles_trans [OF settles_live_lifecycle_complete [OF assms l, THEN conjunct1]
      settles_trans [OF settles_permits(1) settles_permits(2)]])
  then show ?thesis by (simp add: sb_drop_def l sb_resources_def ac_simps)
qed

lemma sb_op_drop:
  assumes "sb_op K s w (s', w')"
  shows "settles (sb_resources s) [] w (sb_drop K s' w')"
proof -
  obtain rel where "settles rel [] w w'" "rel + sb_resources s' = sb_resources s" "lifecycle_ok K (sb_lifecycle s')"
    using assms by (auto simp: sb_op_def)
  then show ?thesis using settles_trans [OF _ settles_sb_drop] by fastforce
qed

lemma sb_op_end: "sb_op K s w (s', w') \<Longrightarrow> settles (sb_resources s) [] w (sb_end K e s' w')"
  using sb_op_then_complete [of K s w s' w' e] sb_op_drop
  by (cases "sb_complete K e s' w'") (auto simp: sb_end_def)

subsection \<open>Polling\<close>

fun frames_content :: "body_frame list \<Rightarrow> string option" where
  "frames_content [] = Some []"
| "frames_content (Frame_Failed src # frames) = None"
| "frames_content (Frame_Trailers # frames) = frames_content frames"
| "frames_content (Frame_Data bytes # frames) = map_option ((@) bytes) (frames_content frames)"

definition sb_content :: "('h, 'b) stream_body \<Rightarrow> string option" where
  "sb_content s = (case sb_inner s of None \<Rightarrow> Some [] | Some frames \<Rightarrow> frames_content frames)"

text \<open>What a poll yields, against what is left of the body.\<close>

definition poll_ends ::
    "('h, 'b) stream_body \<Rightarrow> ('h, 'b) world \<Rightarrow> 'h chunk_poll \<times> ('h, 'b) stream_body \<times> ('h, 'b) world \<Rightarrow> bool" where
  "poll_ends s w x \<longleftrightarrow> (case x of (p, s', w') \<Rightarrow> quiet w w' \<and> sb_kept s s' \<and> sb_read_buffer s' = sb_read_buffer s \<and>
     (case p of
        Chunk_Pending \<Rightarrow> sb_content s' = sb_content s
      | Chunk_End \<Rightarrow> sb_content s = Some []
      | Chunk_Data bytes \<Rightarrow> bytes \<noteq> [] \<and> sb_content s = map_option ((@) bytes) (sb_content s')
      | Chunk_Failed e \<Rightarrow> True))"

lemma quiet_sb_ensure_within_deadline: "sb_ensure_within_deadline K s w = (r, w') \<Longrightarrow> quiet w w'"
  using quiet_readings(1) [of K w, OF surjective_pairing]
  by (auto simp: sb_ensure_within_deadline_def split_def Let_def split: option.splits)

lemma quiet_ensure_frame_timeout:
  assumes "ensure_frame_timeout K s w = (r, s', w')"
  shows "quiet w w' \<and> sb_kept s s' \<and> sb_content s' = sb_content s \<and> sb_read_buffer s' = sb_read_buffer s"
proof -
  obtain r1 w1 where e: "effective_frame_timeout K s w = (r1, w1)" by force
  have q: "quiet w w1"
    using e quiet_readings(1) [of K w, OF surjective_pairing]
    by (auto simp: effective_frame_timeout_def split_def Let_def split: option.splits if_splits)
  show ?thesis
    using assms e q quiet_settles [OF q quiet_readings(1) [of K w1, OF surjective_pairing]]
    by (auto simp: ensure_frame_timeout_def split_def Let_def sb_content_def split: if_splits result.splits prod.splits)
qed

lemma quiet_poll_frame_timeout:
  assumes "poll_frame_timeout K s w = x"
  shows "poll_ends s w x"
proof -
  obtain r s1 w1 where e: "ensure_frame_timeout K s w = (r, s1, w1)" by (metis prod_cases3)
  note same = quiet_ensure_frame_timeout [OF e]
  obtain now w2 where n: "instant_now K w1 = (now, w2)" by force
  obtain now3 w3 where n3: "instant_now K w2 = (now3, w3)" by force
  have q2: "quiet w w2" using quiet_settles [OF _ quiet_readings(1) [OF n]] same by blast
  note q3 = quiet_settles [OF q2 quiet_readings(1) [OF n3]]
  have reset: "sb_read_buffer (reset_frame_timeout s1) = sb_read_buffer s1"
    "sb_content (reset_frame_timeout s1) = sb_content s1"
    by (simp_all add: reset_frame_timeout_def sb_content_def)
  show ?thesis
    using assms e same n n3 q2 q3 reset sb_kept_trans [OF _ sb_kept_updates(3), of s s1]
    by (auto simp: poll_frame_timeout_def poll_ends_def Let_def split: result.splits if_splits)
qed

lemma poll_ends_frames:
  "sb_inner s = Some frames \<Longrightarrow> poll_ends s w (poll_frames A frames s w)"
proof (induction A frames s w rule: poll_frames.induct)
  case (1 A frames s w)
  define x where "x = poll_frames A frames s w"
  obtain r w1 where d: "sb_ensure_within_deadline (ak_client A) s w = (r, w1)" by force
  have q: "quiet w w1" "quiet w (tick w1)"
    using quiet_sb_ensure_within_deadline [OF d] quiet_settles [OF _ quiet_silent [OF silent_steps(1)]] by blast+
  note eq = x_def [unfolded poll_frames.simps [of A frames s w] d]
  have skipped: "poll_ends s w x" if "poll_ends (reset_frame_timeout (s\<lparr> sb_inner := Some rest \<rparr>)) (tick w1) x"
      "frames_content frames = frames_content rest" for rest
    using that "1.prems" quiet_settles [OF q(2)] sb_kept_trans [OF sb_kept_updates(4)]
    by (auto simp: poll_ends_def sb_content_def reset_frame_timeout_def split: chunk_poll.splits)
  have "poll_ends s w x"
  proof (cases r)
    case (Err e)
    then show ?thesis using eq q by (auto simp: poll_ends_def) (simp add: reset_frame_timeout_def)
  next
    case (Ok u)
    show ?thesis
    proof (cases "ak_frame_pending A (w_tick w1)")
      case True
      then have "poll_ends s (tick w1) x" using eq Ok quiet_poll_frame_timeout by auto
      then show ?thesis using quiet_settles [OF q(2)] by (auto simp: poll_ends_def)
    next
      case False
      note IH = "1.IH" [OF d [symmetric] Ok False]
      note now = eq [unfolded Ok, simplified, unfolded False, simplified]
      consider "frames = []" | src rest where "frames = Frame_Failed src # rest"
        | (skip) rest where "frames = Frame_Trailers # rest \<or> frames = Frame_Data [] # rest"
        | b bs rest where "frames = Frame_Data (b # bs) # rest"
        by (metis body_frame.exhaust neq_Nil_conv)
      then show ?thesis
      proof cases
        case (skip rest)
        then have "x = poll_frames A rest (reset_frame_timeout (s\<lparr> sb_inner := Some rest \<rparr>)) (tick w1)"
          using now False by auto
        with skip have "poll_ends (reset_frame_timeout (s\<lparr> sb_inner := Some rest \<rparr>)) (tick w1) x"
          using IH by (auto simp: reset_frame_timeout_def)
        moreover have "frames_content frames = frames_content rest"
          using skip by (auto simp: map_option_case split: option.splits)
        ultimately show ?thesis by (rule skipped)
      qed (use now False q "1.prems" in \<open>auto simp: poll_ends_def sb_content_def reset_frame_timeout_def sb_kept_def\<close>)
    qed
  qed
  then show ?case by (simp add: x_def)
qed

lemma poll_ends_next_chunk: "poll_ends s w (poll_next_chunk A s w)"
proof (cases "sb_inner s")
  case None
  then show ?thesis by (simp add: poll_next_chunk_def poll_ends_def sb_content_def)
next
  case (Some frames)
  then show ?thesis using poll_ends_frames [OF Some] by (simp add: poll_next_chunk_def)
qed

definition chunk_ends ::
    "('h, 'b) stream_body \<Rightarrow> ('h, 'b) world \<Rightarrow>
     (string option, 'h error) result future_end \<times> ('h, 'b) stream_body \<times> ('h, 'b) world \<Rightarrow> bool" where
  "chunk_ends s w x \<longleftrightarrow> (case x of (p, s', w') \<Rightarrow> quiet w w' \<and> sb_kept s s' \<and> sb_read_buffer s' = sb_read_buffer s \<and>
     (case p of
        Ready (Ok None) \<Rightarrow> sb_content s = Some []
      | Ready (Ok (Some bytes)) \<Rightarrow> bytes \<noteq> [] \<and> sb_content s = map_option ((@) bytes) (sb_content s')
      | _ \<Rightarrow> True))"

lemma chunk_ends_after:
  assumes "quiet w w'" "sb_kept s s'" "sb_read_buffer s' = sb_read_buffer s" "sb_content s' = sb_content s"
    "chunk_ends s' w' y"
  shows "chunk_ends s w y"
  using assms(3-5) quiet_settles [OF assms(1)] sb_kept_trans [OF assms(2)]
  by (auto simp: chunk_ends_def split: future_end.splits result.splits option.splits)

lemma chunk_ends_next:
  assumes "next_chunk_of A s w = Some y"
  shows "chunk_ends s w y"
proof (rule next_chunk_of.raw_induct [OF _ assms, of "\<lambda>A s w y. chunk_ends s w y"], goal_cases)
  case (1 rec A s w y)
  obtain p s1 w1 where p: "poll_next_chunk A s w = (p, s1, w1)" by (metis prod_cases3)
  note ends = poll_ends_next_chunk [of s w A, unfolded p]
  have q: "quiet w (tick w1)"
    using ends quiet_settles [OF _ quiet_silent [OF silent_steps(1)]] by (auto simp: poll_ends_def)
  show ?case
  proof (cases p)
    case Chunk_Pending
    have "y = (Dropped, s1, tick w1) \<or> rec A s1 (tick w1) = Some y"
      using 1(2) p Chunk_Pending by (cases "ak_dropped A (w_tick w1)") auto
    then consider "y = (Dropped, s1, tick w1)" | (more) "rec A s1 (tick w1) = Some y" by blast
    then show ?thesis
    proof cases
      case more
      from chunk_ends_after [OF q _ _ _ 1(1) [OF this], of s] show ?thesis
        using ends Chunk_Pending by (simp add: poll_ends_def)
    qed (use ends q in \<open>auto simp: poll_ends_def chunk_ends_def\<close>)
  qed (use 1(2) p ends in \<open>auto simp: poll_ends_def chunk_ends_def\<close>)
qed

subsection \<open>Collecting\<close>

lemma take_pending_chunk_ends:
  assumes "take_pending_chunk K s w = (r, s', w')"
  shows "quiet w w' \<and> sb_kept s s' \<and> sb_content s' = sb_content s \<and>
    (case r of
       Ok None \<Rightarrow> sb_read_buffer s = []
     | Ok (Some chunk) \<Rightarrow> sb_read_buffer s = chunk \<and> sb_read_buffer s' = []
     | Err _ \<Rightarrow> True)"
  using assms quiet_sb_ensure_within_deadline
  by (fastforce simp: take_pending_chunk_def sb_content_def split: if_splits prod.splits result.splits)

text \<open>What is left to deliver: the rest of the last chunk, then what the frames hold.\<close>

definition read_ends_async ::
    "nat \<Rightarrow> string \<Rightarrow> ('h, 'b) stream_body \<Rightarrow> ('h, 'b) world \<Rightarrow>
     (string, 'h error) result future_end \<times> ('h, 'b) stream_body \<times> ('h, 'b) world \<Rightarrow> bool" where
  "read_ends_async max_bytes bytes s w x \<longleftrightarrow> (case x of (p, s', w') \<Rightarrow> quiet w w' \<and> sb_kept s s' \<and>
     (\<forall>out. p = Ready (Ok out) \<longrightarrow> sb_content s \<noteq> None \<and> out = bytes @ the (sb_content s) \<and>
        (max_bytes < usize_max \<longrightarrow> length out \<le> max_bytes)))"

lemma read_raw_loop_ends:
  assumes "read_raw_loop A max_bytes bytes n s w = Some y" "n = min usize_max (length bytes)" "n \<le> max_bytes"
  shows "read_ends_async max_bytes bytes s w y"
proof -
  have "n = min usize_max (length bytes) \<longrightarrow> n \<le> max_bytes \<longrightarrow> read_ends_async max_bytes bytes s w y"
  proof (rule read_raw_loop.raw_induct [OF _ assms(1), of "\<lambda>A max_bytes bytes n s w y.
      n = min usize_max (length bytes) \<longrightarrow> n \<le> max_bytes \<longrightarrow> read_ends_async max_bytes bytes s w y"],
      intro impI, goal_cases)
    case (1 rec A max_bytes bytes n s w y)
    obtain p s1 w1 where c: "next_chunk_of A s w = Some (p, s1, w1)"
      using 1(2) by (auto split: option.splits)
    note ends = chunk_ends_next [OF c]
    let ?n = "\<lambda>chunk. usize_add n (length chunk)"
    have "(\<forall>out. fst y = Ready (Ok out) \<longrightarrow> p = Ready (Ok None) \<and> out = bytes) \<and> snd y = (s1, w1) \<or>
        (\<exists>chunk. p = Ready (Ok (Some chunk)) \<and> \<not> ?n chunk > max_bytes \<and>
          rec A max_bytes (bytes @ chunk) (?n chunk) s1 w1 = Some y)"
      using 1(2) c by (cases p; cases "case p of Ready r \<Rightarrow> r | Dropped \<Rightarrow> Ok None";
        cases "case p of Ready (Ok c) \<Rightarrow> c | _ \<Rightarrow> None") (auto split: if_splits)
    then consider (stop) "\<forall>out. fst y = Ready (Ok out) \<longrightarrow> p = Ready (Ok None) \<and> out = bytes" "snd y = (s1, w1)"
      | (go) chunk where "p = Ready (Ok (Some chunk))" "\<not> ?n chunk > max_bytes"
          "rec A max_bytes (bytes @ chunk) (?n chunk) s1 w1 = Some y" by blast
    then show ?case
    proof cases
      case stop
      obtain r where y: "y = (r, s1, w1)" using stop(2) by (cases y) auto
      have kept: "quiet w w1" "sb_kept s s1" using ends by (simp_all add: chunk_ends_def)
      show ?thesis
      proof (cases "\<exists>out. r = Ready (Ok out)")
        case True
        then have p: "p = Ready (Ok None)" and r: "r = Ready (Ok bytes)" using stop(1) y by auto
        have "sb_content s = Some []" using ends p by (simp add: chunk_ends_def)
        then show ?thesis using kept 1(3,4) unfolding y r read_ends_async_def by (simp add: min_def split: if_splits)
      qed (use kept y in \<open>simp add: read_ends_async_def\<close>)
    next
      case (go chunk)
      have "?n chunk = min usize_max (length (bytes @ chunk))" using 1(3) by (auto simp: sat_add_def)
      with 1(1) [OF go(3)] go(2) have "read_ends_async max_bytes (bytes @ chunk) s1 w1 y" by linarith
      then show ?thesis
        using ends go(1) quiet_settles [of w w1] sb_kept_trans [of s s1]
        by (auto simp: read_ends_async_def chunk_ends_def)
    qed
  qed
  with assms show ?thesis by blast
qed

lemma read_raw_bytes_limited_ends:
  assumes "read_raw_bytes_limited A max_bytes s w = Some (p, s', w')"
  shows "quiet w w'" "sb_kept s s'"
    "p = Ready (Ok out) \<Longrightarrow> sb_content s \<noteq> None \<and> out = sb_read_buffer s @ the (sb_content s) \<and>
      (max_bytes < usize_max \<longrightarrow> length out \<le> max_bytes)"
proof -
  obtain r s1 w1 where t: "take_pending_chunk (ak_client A) s w = (r, s1, w1)" by (metis prod_cases3)
  note first = take_pending_chunk_ends [OF t]
  consider (stop) e where "p = Ready (Err e)" "s' = s1" "w' = w1"
    | (loop) bytes n where "read_raw_loop A max_bytes bytes n s1 w1 = Some (p, s', w')" "sb_read_buffer s = bytes"
        "n = min usize_max (length bytes)" "n \<le> max_bytes"
    using assms first by (auto simp: read_raw_bytes_limited_def t sat_add_def split: result.splits option.splits if_splits)
  then have "quiet w w' \<and> sb_kept s s' \<and> (p = Ready (Ok out) \<longrightarrow> sb_content s \<noteq> None \<and>
      out = sb_read_buffer s @ the (sb_content s) \<and> (max_bytes < usize_max \<longrightarrow> length out \<le> max_bytes))"
  proof cases
    case loop
    from read_raw_loop_ends [OF loop(1,3,4)] show ?thesis
      using first loop(2) quiet_settles [of w w1] sb_kept_trans [of s s1] by (auto simp: read_ends_async_def)
  qed (use first in auto)
  then show "quiet w w'" "sb_kept s s'"
    "p = Ready (Ok out) \<Longrightarrow> sb_content s \<noteq> None \<and> out = sb_read_buffer s @ the (sb_content s) \<and>
      (max_bytes < usize_max \<longrightarrow> length out \<le> max_bytes)" by blast+
qed

subsection \<open>Writing\<close>

lemma sb_op_write_with_deadline:
  assumes "lifecycle_ok K (sb_lifecycle s)" "K = ak_client A" "async_write_with_deadline A bytes wr s w = (r, wr', x)"
  shows "sb_op K s w x"
proof -
  obtain r1 w1 where e1: "sb_ensure_within_deadline K s w = (r1, w1)" by force
  obtain now w2 where n: "instant_now K w1 = (now, w2)" by force
  obtain r3 w3 where e3: "sb_ensure_within_deadline K s w2 = (r3, w3)" by force
  have q: "quiet w w1" "quiet w w2" "quiet w w3" "quiet w (w2\<lparr> w_now := max now d \<rparr>)" for d
    using quiet_sb_ensure_within_deadline [OF e1] quiet_settles [OF _ quiet_readings(1) [OF n]]
      quiet_settles [OF quiet_settles [OF _ quiet_readings(1) [OF n]] quiet_sb_ensure_within_deadline [OF e3]]
      instant_now_now [OF n]
    by (auto simp: settles_def collected_def)
  note quietly = sb_op_quiet [OF assms(1) sb_kept_refl]
  show ?thesis
    using assms(3) q unfolding async_write_with_deadline_def Let_def assms(2) [symmetric]
    by (auto simp: e1 n e3 quietly sb_op_then_complete [OF quietly] split: result.splits prod.splits if_splits)
qed

lemma sb_op_copy_chunk:
  assumes "lifecycle_ok (ak_client A) (sb_lifecycle s)" "copy_chunk A limit n chunk wr s w = (r, wr', x)"
  shows "sb_op (ak_client A) s w x"
proof -
  obtain r1 wr1 s1 w1 where wd: "async_write_with_deadline A chunk wr s w = (r1, wr1, s1, w1)" by (metis prod_cases4)
  show ?thesis
    using assms(2) sb_op_write_with_deadline [OF assms(1) refl wd] sb_op_complete [OF assms(1)]
    by (auto simp: copy_chunk_def wd Let_def split: if_splits future_end.splits result.splits)
qed

lemma sb_op_copy_loop:
  assumes "async_copy_loop A limit n wr s w = Some y" "lifecycle_ok (ak_client A) (sb_lifecycle s)"
  shows "sb_op (ak_client A) s w (snd (snd y))"
proof -
  have "lifecycle_ok (ak_client A) (sb_lifecycle s) \<longrightarrow> sb_op (ak_client A) s w (snd (snd y))"
  proof (rule async_copy_loop.raw_induct [OF _ assms(1), of "\<lambda>A limit n wr s w y.
      lifecycle_ok (ak_client A) (sb_lifecycle s) \<longrightarrow> sb_op (ak_client A) s w (snd (snd y))"], intro impI, goal_cases)
    case (1 rec A limit n wr s w y)
    obtain p s1 w1 where c: "next_chunk_of A s w = Some (p, s1, w1)"
      using 1(2) by (auto split: option.splits)
    have op: "sb_op (ak_client A) s w (s1, w1)"
      using chunk_ends_next [OF c] sb_op_quiet [OF 1(3)] by (auto simp: chunk_ends_def)
    consider (dropped) "p = Dropped" | (err) e where "p = Ready (Err e)" | (none) "p = Ready (Ok None)"
      | (chunk) chunk where "p = Ready (Ok (Some chunk))"
      by (metis future_end.exhaust option.exhaust result.exhaust)
    then show ?case
    proof cases
      case (err e)
      then show ?thesis using 1(2) c sb_op_then_complete [OF op] by auto
    next
      case (chunk chunk)
      obtain r wr2 s2 w2 where cc: "copy_chunk A limit n chunk wr s1 w1 = (r, wr2, s2, w2)" by (metis prod_cases4)
      note op2 = sb_op_trans [OF op sb_op_copy_chunk [OF sb_op_ok [OF op] cc]]
      show ?thesis
      proof (cases "\<exists>m. r = Ready (Ok m)")
        case True
        then obtain m where "rec A limit m wr2 s2 w2 = Some y" using 1(2) c chunk cc by auto
        with 1(1) sb_op_ok [OF op2] show ?thesis using sb_op_trans [OF op2] by blast
      next
        case False
        then have "snd (snd y) = (s2, w2)" using 1(2) c chunk by (auto simp: cc split: future_end.splits result.splits)
        then show ?thesis using op2 by simp
      qed
    qed (use 1(2) c op in auto)
  qed
  with assms(2) show ?thesis by blast
qed

lemma sb_op_finish_copy:
  assumes "sb_op (ak_client A) s w (snd (snd x))"
  shows "sb_op (ak_client A) s w (snd (snd (finish_async_copy A x)))"
proof -
  obtain r wr s1 w1 where x: "x = (r, wr, s1, w1)" by (metis prod_cases4)
  note op = assms [unfolded x snd_conv]
  obtain r2 wr2 s2 w2 where wd: "async_write_with_deadline A [] wr s1 w1 = (r2, wr2, s2, w2)" by (metis prod_cases4)
  note op2 = sb_op_trans [OF op sb_op_write_with_deadline [OF sb_op_ok [OF op] refl wd]]
  show ?thesis
    using op op2 sb_op_then_complete [OF op2]
    by (auto simp: finish_async_copy_def x wd split: future_end.split result.split)
qed

lemma sb_op_copy:
  assumes "sb_copy A limit wr s w = Some y" "lifecycle_ok (ak_client A) (sb_lifecycle s)"
  shows "sb_op (ak_client A) s w (snd (snd y))"
proof -
  let ?K = "ak_client A"
  obtain r s1 w1 where t: "take_pending_chunk ?K s w = (r, s1, w1)" by (metis prod_cases3)
  have op: "sb_op ?K s w (s1, w1)" using take_pending_chunk_ends [OF t] sb_op_quiet [OF assms(2)] by simp
  have loop: "sb_op ?K s w (snd (snd y))"
    if "map_option (finish_async_copy A) (async_copy_loop A limit n wr' s' w') = Some y" "sb_op ?K s w (s', w')"
    for n wr' s' w'
    using that sb_op_finish_copy sb_op_trans [OF that(2) sb_op_copy_loop [OF _ sb_op_ok [OF that(2)]]] by fastforce
  consider (err) e where "r = Err e" | (none) "r = Ok None" | (chunk) chunk where "r = Ok (Some chunk)"
    by (metis option.exhaust result.exhaust)
  then show ?thesis
  proof cases
    case (err e)
    then show ?thesis
      using assms(1) t sb_op_then_complete [OF op] by (auto simp: sb_copy_def take_pending_chunk_or_complete_def split_def)
  next
    case none
    then show ?thesis using assms(1) t op loop by (auto simp: sb_copy_def take_pending_chunk_or_complete_def)
  next
    case (chunk chunk)
    obtain q wr2 s2 w2 where cc: "copy_chunk A limit 0 chunk wr s1 w1 = (q, wr2, s2, w2)" by (metis prod_cases4)
    note op2 = sb_op_trans [OF op sb_op_copy_chunk [OF sb_op_ok [OF op] cc]]
    show ?thesis
      using assms(1) t chunk op2 loop [OF _ op2]
      by (auto simp: cc sb_copy_def take_pending_chunk_or_complete_def split: future_end.splits result.splits)
  qed
qed

subsection \<open>Reading through the trait\<close>

lemma sb_op_read_from_buffer:
  assumes "lifecycle_ok K (sb_lifecycle s)"
  shows "sb_op K s w (snd (read_from_buffer K room s w))"
proof -
  obtain r w1 where d: "sb_ensure_within_deadline K s w = (r, w1)" by force
  note quietly = sb_op_quiet [OF assms _ quiet_sb_ensure_within_deadline [OF d]]
  show ?thesis
    by (cases r) (simp_all add: read_from_buffer_def d quietly sb_op_then_complete [OF quietly])
qed

lemma sb_op_poll_read:
  assumes "lifecycle_ok (ak_client A) (sb_lifecycle s)"
  shows "sb_op (ak_client A) s w (snd (poll_read A room s w))"
proof -
  let ?K = "ak_client A"
  obtain p s1 w1 where p: "poll_next_chunk A s w = (p, s1, w1)" by (metis prod_cases3)
  have kept: "sb_kept s s1" "quiet w w1" using poll_ends_next_chunk [of s w A] p by (auto simp: poll_ends_def)
  note op = sb_op_quiet [OF assms kept]
  have buffered: "sb_op ?K s w (snd (read_from_buffer ?K room (s1\<lparr> sb_read_buffer := chunk \<rparr>) w1))" for chunk
    using sb_op_trans [OF sb_op_quiet [OF assms sb_kept_trans [OF kept(1) sb_kept_updates(2)] kept(2)]
        sb_op_read_from_buffer] assms kept(1) by (simp add: sb_kept_def)
  show ?thesis
    using op sb_op_then_complete [OF op] buffered sb_op_read_from_buffer [OF assms] sb_op_quiet [OF assms sb_kept_refl]
    by (auto simp: poll_read_def p Let_def split: chunk_poll.split)
qed

text \<open>A reader that polls for any sequence of sizes and then gives the stream up.\<close>

fun poll_reads ::
    "('h, 'v, 'u, 'w, 'n, 'b) async_client \<Rightarrow> nat list \<Rightarrow> ('h, 'b) stream_body \<Rightarrow> ('h, 'b) world \<Rightarrow>
     ('h, 'b) stream_body \<times> ('h, 'b) world" where
  "poll_reads A [] s w = (s, w)"
| "poll_reads A (room # rooms) s w = (case poll_read A room s w of (_, s, w) \<Rightarrow> poll_reads A rooms s w)"

lemma sb_op_poll_reads:
  "lifecycle_ok (ak_client A) (sb_lifecycle s) \<Longrightarrow> sb_op (ak_client A) s w (poll_reads A rooms s w)"
proof (induction rooms arbitrary: s w)
  case Nil
  then show ?case by (simp add: sb_op_quiet)
next
  case (Cons room rooms)
  obtain r s1 w1 where p: "poll_read A room s w = (r, s1, w1)" by (metis prod_cases3)
  have op: "sb_op (ak_client A) s w (s1, w1)" using sb_op_poll_read [OF Cons.prems, of w room] p by simp
  show ?case using sb_op_trans [OF op Cons.IH [OF sb_op_ok [OF op]]] p by simp
qed

subsection \<open>Consumers\<close>

text \<open>
  The contract of the asynchronous ways to be done with a stream, of which \<open>stream_consumer\<close> is the case
  that does not wait: if it ends, by itself or because it is dropped, then everything the stream owns is
  released, once, and nothing else is acquired, released, sent or reported.
\<close>

locale awaited_consumer =
  fixes ok :: "'s \<Rightarrow> bool" and owns :: "'s \<Rightarrow> resource multiset"
    and await :: "'s \<Rightarrow> ('h, 'b) world \<Rightarrow> ('h, 'b) world option"
  assumes await_settles: "ok s \<Longrightarrow> await s w = Some w' \<Longrightarrow> settles (owns s) [] w w'"
begin

lemma await_balances:
  assumes "ok s" "await s w1 = Some w2" "acquired w1 + released w0 = acquired w0 + released w1 + owns s"
  shows "acquired w2 + released w0 = acquired w0 + released w2"
  using await_settles [OF assms(1,2)] assms(3) by (simp add: settles_def ac_simps)

lemma await_sends_nothing: "ok s \<Longrightarrow> await s w = Some w' \<Longrightarrow> sent w' = sent w \<and> errors w' = errors w"
  using await_settles [of s w w'] by (simp add: settles_def)

end

sublocale stream_consumer \<subseteq> immediate: awaited_consumer ok owns "\<lambda>s w. Some (finish s w)"
  by unfold_locales (use finish_settles in auto)

interpretation async_dropped: stream_consumer "async_stream_ok K" async_stream_resources "async_stream_drop K" for K
  by unfold_locales (simp add: settles_sb_drop async_stream_ok_def async_stream_resources_def async_stream_drop_def)

lemma settles_poll_reads:
  assumes "async_stream_ok (ak_client A) s"
  shows "settles (async_stream_resources s) [] w (case poll_reads A rooms (as_body s) w of
    (b, w) \<Rightarrow> sb_drop (ak_client A) b w)"
proof -
  have "sb_op (ak_client A) (as_body s) w (poll_reads A rooms (as_body s) w)"
    using assms by (simp add: sb_op_poll_reads async_stream_ok_def)
  then show ?thesis
    using sb_op_drop by (cases "poll_reads A rooms (as_body s) w") (simp add: async_stream_resources_def)
qed

interpretation async_read: stream_consumer "async_stream_ok (ak_client A)" async_stream_resources
    "\<lambda>s w. case poll_reads A rooms (as_body s) w of (b, w) \<Rightarrow> sb_drop (ak_client A) b w" for A rooms
  by unfold_locales (rule settles_poll_reads)

lemma sb_op_read_raw:
  assumes "read_raw_bytes_limited A max_bytes s w = Some (p, b, w1)" "lifecycle_ok (ak_client A) (sb_lifecycle s)"
  shows "sb_op (ak_client A) s w (b, w1)"
  using sb_op_quiet [OF assms(2)] read_raw_bytes_limited_ends(1,2) [OF assms(1)] by blast

lemma settles_async_into_bytes:
  assumes "async_stream_ok (ak_client A) s" "async_into_bytes_limited A max_bytes s w = Some (r, w')"
  shows "settles (async_stream_resources s) [] w w'"
proof -
  obtain p b w1 where rd: "read_raw_bytes_limited A max_bytes (as_body s) w = Some (p, b, w1)"
    using assms(2) unfolding async_into_bytes_limited_def Let_def by (cases "read_raw_bytes_limited A max_bytes (as_body s) w") auto
  note op = sb_op_read_raw [OF rd assms(1) [unfolded async_stream_ok_def]]
  show ?thesis
    using assms(2) rd sb_op_drop [OF op] sb_op_end [OF op]
    by (auto simp: async_into_bytes_limited_def async_stream_resources_def Let_def split: future_end.splits result.splits)
qed

lemma settles_async_into_response:
  assumes "async_stream_ok (ak_client A) s" "async_into_response_limited A max_bytes s w = Some (r, w')"
  shows "settles (async_stream_resources s) [] w w'"
proof -
  let ?K = "ak_client A"
  obtain p b w1 where rd: "read_raw_bytes_limited A max_bytes (as_body s) w = Some (p, b, w1)"
    using assms(2) unfolding async_into_response_limited_def Let_def by (cases "read_raw_bytes_limited A max_bytes (as_body s) w") auto
  note op = sb_op_read_raw [OF rd assms(1) [unfolded async_stream_ok_def]]
  obtain r2 w2 where e2: "sb_ensure_within_deadline ?K b w1 = (r2, w2)" by force
  obtain r3 w3 where e3: "sb_ensure_within_deadline ?K b w2 = (r3, w3)" by force
  note q2 = quiet_sb_ensure_within_deadline [OF e2]
  note q3 = quiet_settles [OF q2 quiet_sb_ensure_within_deadline [OF e3]]
  note ends = sb_op_end [OF op] sb_op_end [OF sb_op_trans [OF op sb_op_quiet [OF sb_op_ok [OF op] sb_kept_refl q2]]]
    sb_op_end [OF sb_op_trans [OF op sb_op_quiet [OF sb_op_ok [OF op] sb_kept_refl q3]]]
  show ?thesis
    using assms(2) rd e2 e3 sb_op_drop [OF op] ends
    by (auto simp: async_into_response_limited_def async_stream_resources_def Let_def
        split: future_end.splits result.splits)
qed

lemma settles_async_copy:
  assumes "async_stream_ok (ak_client A) s"
    "map_option (\<lambda>(r, wr, b, w). (r, wr, sb_drop (ak_client A) b w)) (sb_copy A limit wr (as_body s) w) =
       Some (r, wr', w')"
  shows "settles (async_stream_resources s) [] w w'"
  using assms sb_op_drop sb_op_copy by (fastforce simp: async_stream_ok_def async_stream_resources_def)

interpretation async_collected: awaited_consumer "async_stream_ok (ak_client A)" async_stream_resources
    "\<lambda>s w. map_option snd (async_into_bytes_limited A max_bytes s w)" for A max_bytes
  by unfold_locales (use settles_async_into_bytes in fastforce)

interpretation async_collected_response: awaited_consumer "async_stream_ok (ak_client A)" async_stream_resources
    "\<lambda>s w. map_option snd (async_into_response_limited A max_bytes s w)" for A max_bytes
  by unfold_locales (use settles_async_into_response in fastforce)

interpretation async_copied: awaited_consumer "async_stream_ok (ak_client A)" async_stream_resources
    "\<lambda>s w. map_option (snd \<circ> snd) (async_copy_to_writer A wr s w)" for A wr
  by unfold_locales (use settles_async_copy in \<open>fastforce simp: async_copy_to_writer_def\<close>)

interpretation async_copied_limited: awaited_consumer "async_stream_ok (ak_client A)" async_stream_resources
    "\<lambda>s w. map_option (snd \<circ> snd) (async_copy_to_writer_limited A max_bytes wr s w)" for A max_bytes wr
  by unfold_locales (use settles_async_copy in \<open>fastforce simp: async_copy_to_writer_limited_def\<close>)

end
