(* ===== verification/Reqx_AsyncTermination.thy ===== *)
theory Reqx_AsyncTermination
  imports Reqx_AsyncLoop Reqx_AsyncStreamProofs Reqx_BlockingRequest
begin

text \<open>
  The futures of the asynchronous client end. A request with a total timeout ends, as in the blocking
  client; the consumers of a stream end whatever the peer does, since a body that stays pending runs into
  the timer of its frame. The clock is assumed to advance between two readings.
\<close>

subsection \<open>Waits with a deadline\<close>

lemma wait_for_returns:
  assumes "time_passes (ak_client A)"
  shows "\<exists>y. wait_for A try_take (Some d) w = Some y"
proof (induction "d - w_now w" arbitrary: w rule: less_induct)
  case less
  let ?w = "lock_shared (ak_client A) w"
  obtain now w1 where n: "instant_now (ak_client A) ?w = (now, w1)" by force
  note step = wait_for.simps [of A try_take "Some d" w]
  have "w_now w < now" "w_now (tick w1) = now"
    using instant_now_advances [OF assms n] silent_now [OF silent_steps(2) [of w "ak_client A"]] by (auto simp: tick_def)
  then have "\<not> d \<le> now \<Longrightarrow> d - w_now (tick w1) < d - w_now w" by linarith
  then have "\<not> d \<le> now \<Longrightarrow> \<exists>y. wait_for A try_take (Some d) (tick w1) = Some y" using less by blast
  then show ?case using n by (cases "d \<le> now") (auto simp: step split: option.split)
qed

lemma async_rate_limit_loop_returns:
  assumes "time_passes (ak_client A)"
  shows "\<exists>y. async_rate_limit_loop A host (Some T) started meth uri w = Some y"
proof (induction "started + T - w_now w" arbitrary: w rule: less_induct)
  case less
  let ?K = "ak_client A"
  obtain wait w1 where r: "rate_limiter_delay ?K host w = (wait, w1)" by force
  obtain now w2 where n: "instant_now ?K w1 = (now, w2)" by force
  have w1: "w_now w1 = w_now w" using r by (auto simp: rate_limiter_delay_def split_def Let_def)
  note step = async_rate_limit_loop.simps [of A host "Some T" started meth uri w]
  show ?case
  proof (cases "wait = 0 \<or> bounded_retry_delay now wait (Some T) started = None")
    case True
    then show ?thesis using r n by (auto simp: step)
  next
    case False
    then obtain d where d: "bounded_retry_delay now wait (Some T) started = Some d" by blast
    obtain e w3 where s: "async_sleep A d w2 = (e, w3)" by force
    have "now < started + T"
      using d by (auto simp: bounded_retry_delay_def saturating_duration_since_def Let_def split: if_splits)
    moreover have "w_now w < now" "now \<le> w_now w3"
      using instant_now_advances [OF assms n] w1 quiet_async_sleep [OF s] by (auto simp: settles_def)
    ultimately have "started + T - w_now w3 < started + T - w_now w" by linarith
    from less [OF this] show ?thesis using r n d s False by (cases e) (auto simp: step)
  qed
qed

lemma within_deadline_returns:
  assumes "has_deadline total_timeout started" "\<And>d w. \<exists>r w'. acquire (Some d) w = Some (r, w')"
  shows "\<exists>r w'. within_deadline K total_timeout started meth uri acquire w = Some (r, w')"
proof -
  obtain d where d: "total_timeout_deadline total_timeout started = Some d"
    using assms(1) by (auto simp: has_deadline_def)
  obtain now w1 where n: "instant_now K w = (now, w1)" by force
  obtain r w2 where "acquire (Some d) w1 = Some (r, w2)" using assms(2) by blast
  then show ?thesis by (simp add: within_deadline_def d n Let_def)
qed

lemma async_limiters_return:
  assumes "time_passes (ak_client A)"
  shows "\<exists>r w'. async_acquire_global A (Some d) w = Some (r, w')"
    and "\<exists>r w'. async_acquire_host A host (Some d) w = Some (r, w')"
    and "\<exists>r w'. async_adaptive_acquire A (Some d) w = Some (r, w')"
proof -
  have sem: "\<exists>b w'. acquire_owned A permits set_permits (Some d) w = Some (b, w')" for permits set_permits w
    using wait_for_returns [OF assms] by (force simp: acquire_owned_def)
  show "\<exists>r w'. async_acquire_global A (Some d) w = Some (r, w')"
    using sem [of global_permits set_global_permits w]
    by (auto simp: async_acquire_global_def split: future_end.splits bool.splits)
  obtain now w1 where n: "now_monotonic (ak_client A) (lock_shared (ak_client A) w) = (now, w1)" by force
  obtain claim l where c: "acquire_host host now (sh_request_limiters (w_shared w1)) = (claim, l)" by force
  show "\<exists>r w'. async_acquire_host A host (Some d) w = Some (r, w')"
  proof (cases claim)
    case (HostWaiter h a)
    then show ?thesis
      using n c sem [of "cell_permits a" "set_cell_permits a" "set_shared (update_limiters (\<lambda>_. l)) w1"]
      by (auto simp: async_acquire_host_def Let_def split: future_end.splits bool.splits)
  qed (use n c in \<open>auto simp: async_acquire_host_def Let_def\<close>)
  obtain p w2 where "wait_for A (\<lambda>_. adaptive_take) (Some d) w = Some (p, w2)"
    using wait_for_returns [OF assms, of "\<lambda>_. adaptive_take" d w] by force
  then show "\<exists>r w'. async_adaptive_acquire A (Some d) w = Some (r, w')"
    by (cases p) (auto simp: async_adaptive_acquire_def split_def Let_def split: bool.splits)
qed

lemma async_acquire_returns:
  assumes "time_passes (ak_client A)" "has_deadline total_timeout started"
  shows "\<exists>r w'. async_acquire_rate_limit_slot A host total_timeout started meth uri w = Some (r, w')"
    and "\<exists>r w'. async_acquire_global_request_permit A total_timeout started meth uri w = Some (r, w')"
    and "\<exists>r w'. async_acquire_host_request_permit A host total_timeout started meth uri w = Some (r, w')"
    and "\<exists>r w'. async_begin_adaptive_attempt A total_timeout started meth uri w = Some (r, w')"
proof -
  obtain T where T: "total_timeout = Some T"
    using assms(2) by (cases total_timeout) (auto simp: has_deadline_def total_timeout_deadline_def)
  show "\<exists>r w'. async_acquire_rate_limit_slot A host total_timeout started meth uri w = Some (r, w')"
    using async_rate_limit_loop_returns [OF assms(1), of host T started meth uri w] T
    by (auto simp: async_acquire_rate_limit_slot_def)
  note within = within_deadline_returns [OF assms(2), of "async_acquire_global A", OF async_limiters_return(1) [OF assms(1)]]
    within_deadline_returns [OF assms(2), of "async_acquire_host A host", OF async_limiters_return(2) [OF assms(1)]]
    within_deadline_returns [OF assms(2), of "async_adaptive_acquire A", OF async_limiters_return(3) [OF assms(1)]]
  show "\<exists>r w'. async_acquire_global_request_permit A total_timeout started meth uri w = Some (r, w')"
    "\<exists>r w'. async_acquire_host_request_permit A host total_timeout started meth uri w = Some (r, w')"
    using within(1,2) by (auto simp: async_acquire_global_request_permit_def async_acquire_host_request_permit_def)
  show "\<exists>r w'. async_begin_adaptive_attempt A total_timeout started meth uri w = Some (r, w')"
    using within(3) [of "ak_client A" meth uri w] by (auto simp: async_begin_adaptive_attempt_def)
qed

subsection \<open>Requests\<close>

lemma async_attempt_iteration_returns:
  assumes "time_passes (ak_client A)" "has_deadline (op_total_timeout (es_options st)) (es_request_started_at st)"
  shows "\<exists>fr w'. async_attempt_iteration A mode st body gp w = Some (fr, w')"
proof -
  let ?K = "ak_client A"
  let ?host = "rate_limit_host (li_uris ?K) st" and ?total = "op_total_timeout (es_options st)"
    and ?started = "es_request_started_at st" and ?m = "es_current_method st"
    and ?u = "es_current_redacted_uri st"
  note returns = async_acquire_returns [OF assms]
  have "\<exists>r w'. async_admit_attempt A st context w = Some (r, w')" for "context" w
  proof -
    obtain r1 w1 where a1: "async_acquire_rate_limit_slot A ?host ?total ?started ?m ?u w = Some (r1, w1)"
      using returns(1) by blast
    obtain r2 w2 where a2: "async_acquire_host_request_permit A ?host ?total ?started ?m ?u w1 = Some (r2, w2)"
      using returns(3) by blast
    obtain r3 w3 where a3: "begin_circuit_attempt ?K ?m ?u w2 = (r3, w3)" by force
    obtain r4 w4 where a4: "async_begin_adaptive_attempt A ?total ?started ?m ?u w3 = Some (r4, w4)"
      using returns(4) by blast
    show ?thesis
      unfolding async_admit_attempt_def Let_def
      by (simp add: a1 a2 a3 a4 split_def split: future_end.split result.split)
  qed
  then obtain r w' where "async_admit_attempt A st (es_context st) (run_request_start_observers (es_context st) w) =
      Some (r, w')" by blast
  then show ?thesis
    by (auto simp: async_attempt_iteration_def Let_def split: future_end.split result.split)
qed

lemma async_retry_loop_returns:
  assumes "time_passes (ak_client A)" "valid_limits ops" "ri_execution_options input = ops"
    and "reachable (ak_client A) input i j st" "body_ok input st body"
    and "has_deadline (op_total_timeout ops) (es_request_started_at st)"
  shows "\<exists>y. async_retry_loop A mode st body gp w = Some y"
  using assms(4-6)
proof (induction "rp_max_attempts (op_retry_policy ops) + redirect_max_redirects (op_redirect_policy ops) - (i + j)"
    arbitrary: i j st body w rule: less_induct)
  case less
  let ?K = "ak_client A"
  have inv: "execution_inv ops i j st"
    using execution_inv_reachable [OF less.prems(1)] assms(2,3) by (simp add: valid_limits_def)
  then have room: "i + j < rp_max_attempts (op_retry_policy ops) + redirect_max_redirects (op_redirect_policy ops)"
    and ops: "es_options st = ops" by (auto simp: execution_inv_def)
  obtain fr w1 where it: "async_attempt_iteration A mode st body gp w = Some (fr, w1)"
    using async_attempt_iteration_returns [OF assms(1)] less.prems(3) ops by force
  note step = async_retry_loop.simps [of A mode st body gp w]
  show ?case
  proof (cases "\<exists>st' body'. fr = Ready (Iter_Continue st' body')")
    case False
    then show ?thesis using it by (auto simp: step split: future_end.split iteration.split)
  next
    case True
    then obtain st' body' where fr: "fr = Ready (Iter_Continue st' body')" by blast
    obtain hs where go: "goes_on_with ?K (tighten_retry_eligibility hs (ci_retry_eligibility ?K) st)
        (snd (take_for_attempt body)) st' body'"
      using async_attempt_iteration_iterates [OF it] fr by (auto simp: async_iterates_def future_returns_def)
    obtain i' j' where next_state: "i' + j' = Suc (i + j)" "reachable ?K input i' j' st'" "body_ok input st' body'"
      using reachable_goes_on [OF reachable_tighten [OF less.prems(1,2)] _ go] assms(2,3) by blast
    have "\<exists>y. async_retry_loop A mode st' body' gp w1 = Some y"
      using less.hyps [OF _ next_state(2,3)] next_state(1) room less.prems(3) goes_on_keeps(1) [OF go] by auto
    then show ?thesis using it fr by (auto simp: step)
  qed
qed

lemma async_send_request_with_retry_mode_returns:
  assumes "time_passes (ak_client A)" "valid_limits (ri_execution_options input)"
    and "has_deadline (op_total_timeout (ri_execution_options input)) started"
  shows "\<exists>r w'. async_send_request_with_retry_mode A input mode gp started w = Some (r, w')"
proof -
  obtain st body where f: "from_request input started (ci_retry_eligibility (ak_client A)) = (st, body)" by force
  show ?thesis
    using async_retry_loop_returns [OF assms(1,2) refl from_request_reachable(1,2) [OF f], of mode gp w]
      assms(3) from_request_reachable(3) [OF f] f
    by (auto simp: async_send_request_with_retry_mode_def)
qed

lemma async_send_request_returns:
  assumes "time_passes (ak_client A)" "valid_limits (ri_execution_options input)"
    and "request_preparation (ak_client A) (ci_buffered_auto_accept_encoding (ak_client A)) meth path headers body
      overrides = Ok input"
    and "has_deadline (op_total_timeout (ri_execution_options input)) (fst (instant_now (ak_client A) w))"
  shows "\<exists>r w'. async_send_request A meth path headers body overrides w = Some (r, w')"
proof -
  let ?K = "ak_client A"
  obtain started w1 where n: "instant_now ?K w = (started, w1)" by force
  obtain p w2 where p: "begin_pending ?K w1 = (p, w2)" by force
  have d: "has_deadline (op_total_timeout (ri_execution_options input)) started" using assms(4) n by simp
  obtain q w3 where a: "async_acquire_global_request_permit A (op_total_timeout (ri_execution_options input)) started
      (ri_method input) (ri_redacted_uri_text input) w2 = Some (q, w3)"
    using async_acquire_returns(2) [OF assms(1) d] by blast
  obtain q2 w4 where l: "async_send_request_with_retry_mode A input ResponseMode_Buffered None started w3 = Some (q2, w4)"
    using async_send_request_with_retry_mode_returns [OF assms(1,2) d] by blast
  show ?thesis
    by (cases q; cases q2; cases "case q of Ready r \<Rightarrow> r | Dropped \<Rightarrow> Ok None")
       (simp_all add: async_send_request_def assms(3) n p a l split_def Let_def)
qed

subsection \<open>Streams\<close>

definition frames_left :: "('h, 'b) stream_body \<Rightarrow> nat" where
  "frames_left s = (case sb_inner s of None \<Rightarrow> 0 | Some frames \<Rightarrow> length frames)"

text \<open>
  A poll never has more frames before it than the poll before; one that finds the same frames pending has the
  same timer before it, and less time until it fires.
\<close>

definition poll_progress ::
    "('h, 'b) stream_body \<Rightarrow> ('h, 'b) world \<Rightarrow> 'h chunk_poll \<times> ('h, 'b) stream_body \<times> ('h, 'b) world \<Rightarrow> bool" where
  "poll_progress s w x \<longleftrightarrow> (case x of (p, s', w') \<Rightarrow>
     (case p of
        Chunk_Pending \<Rightarrow> (\<exists>timer. sb_frame_timeout s' = Some timer \<and>
          (frames_left s' < frames_left s \<or>
           frames_left s' = frames_left s \<and>
             (sb_frame_timeout s = None \<or> sb_frame_timeout s = Some timer \<and> timer - w_now w' < timer - w_now w)))
      | Chunk_Data bytes \<Rightarrow> frames_left s' < frames_left s
      | _ \<Rightarrow> True))"

lemma poll_frame_timeout_progress:
  assumes "time_passes K"
  shows "poll_progress s w (poll_frame_timeout K s w)"
proof -
  obtain r s1 w1 where e: "ensure_frame_timeout K s w = (r, s1, w1)" by (metis prod_cases3)
  have same: "sb_inner s1 = sb_inner s" "r = Ok () \<Longrightarrow> sb_frame_timeout s1 \<noteq> None"
      "sb_frame_timeout s \<noteq> None \<Longrightarrow> sb_frame_timeout s1 = sb_frame_timeout s"
    using e by (auto simp: ensure_frame_timeout_def Let_def split: if_splits prod.splits result.splits)
  obtain now w2 where n: "instant_now K w1 = (now, w2)" by force
  have "w_now w < w_now w2" "w_now w2 = now"
    using instant_now_advances [OF assms n] quiet_ensure_frame_timeout [OF e] by (auto simp: settles_def)
  then show ?thesis
    using same
    by (auto simp: poll_frame_timeout_def e n poll_progress_def frames_left_def Let_def split: result.split prod.split)
       linarith
qed

lemma poll_frames_progress:
  "time_passes (ak_client A) \<Longrightarrow> sb_inner s = Some frames \<Longrightarrow> poll_progress s w (poll_frames A frames s w)"
proof (induction A frames s w rule: poll_frames.induct)
  case (1 A frames s w)
  obtain r w1 where d: "sb_ensure_within_deadline (ak_client A) s w = (r, w1)" by force
  have w1: "w_now w \<le> w_now (tick w1)"
    using quiet_sb_ensure_within_deadline [OF d] by (simp add: settles_def tick_def)
  note step = poll_frames.simps [of A frames s w] d
  have later: "poll_progress s w x" if "poll_progress s (tick w1) x" for x
    using that w1 by (auto simp: poll_progress_def split: chunk_poll.splits)
  show ?case
  proof (cases "r = Ok () \<and> \<not> ak_frame_pending A (w_tick w1)")
    case False
    then show ?thesis
      using later [OF poll_frame_timeout_progress [OF "1.prems"(1)]]
      by (cases r) (auto simp: step poll_progress_def)
  next
    case True
    then have r: "r = Ok ()" and f: "\<not> ak_frame_pending A (w_tick w1)" by auto
    have skipped: "poll_progress s w x"
      if "poll_progress (reset_frame_timeout (s\<lparr> sb_inner := Some rest \<rparr>)) (tick w1) x" "length rest < length frames"
      for rest x
      using that "1.prems"(2)
      by (auto simp: poll_progress_def frames_left_def reset_frame_timeout_def split: chunk_poll.splits)
    note IH = "1.IH" [OF d [symmetric] r f]
    define x where "x = poll_frames A frames s w"
    note now = x_def [unfolded step]
    consider "frames = []" | src rest where "frames = Frame_Failed src # rest"
      | (skip) rest where "frames = Frame_Trailers # rest \<or> frames = Frame_Data [] # rest"
      | b bs rest where "frames = Frame_Data (b # bs) # rest"
      by (metis body_frame.exhaust neq_Nil_conv)
    then have "poll_progress s w x"
    proof cases
      case (skip rest)
      then have "x = poll_frames A rest (reset_frame_timeout (s\<lparr> sb_inner := Some rest \<rparr>)) (tick w1)"
        "length rest < length frames" using now r f by auto
      moreover from this skip have "poll_progress (reset_frame_timeout (s\<lparr> sb_inner := Some rest \<rparr>)) (tick w1) x"
        using IH "1.prems"(1) by (auto simp: reset_frame_timeout_def)
      ultimately show ?thesis by (intro skipped)
    qed (use now r f "1.prems"(2) in \<open>auto simp: poll_progress_def frames_left_def reset_frame_timeout_def\<close>)
    then show ?thesis by (simp add: x_def)
  qed
qed

lemma poll_next_chunk_progress:
  "time_passes (ak_client A) \<Longrightarrow> poll_progress s w (poll_next_chunk A s w)"
  by (cases "sb_inner s") (simp_all add: poll_next_chunk_def poll_frames_progress, simp add: poll_progress_def)

lemma next_chunk_returns:
  assumes "time_passes (ak_client A)"
  shows "\<exists>p s' w'. next_chunk_of A s w = Some (p, s', w') \<and>
    (\<forall>bytes. p = Ready (Ok (Some bytes)) \<longrightarrow> frames_left s' < frames_left s)"
proof -
  define m where "m s w = (frames_left s, if sb_frame_timeout s = None then 1 else 0 :: nat,
    the (sb_frame_timeout s) - w_now w)" for s :: "('a, 'f) stream_body" and w :: "('a, 'f) world"
  have "wf (inv_image (less_than <*lex*> less_than <*lex*> less_than) (case_prod m))"
    by (intro wf_inv_image wf_lex_prod wf_less_than)
  then have "\<exists>p s' w'. next_chunk_of A (fst x) (snd x) = Some (p, s', w') \<and>
    (\<forall>bytes. p = Ready (Ok (Some bytes)) \<longrightarrow> frames_left s' < frames_left (fst x))" for x
  proof (induction x rule: wf_induct_rule)
    case (less x)
    obtain s w where x: "x = (s, w)" by force
    obtain p s1 w1 where p: "poll_next_chunk A s w = (p, s1, w1)" by (metis prod_cases3)
    note progress = poll_next_chunk_progress [OF assms, of s w, unfolded p]
    note step = next_chunk_of.simps [of A s w] p
    show ?case
    proof (cases p)
      case Chunk_Pending
      then obtain timer where t: "sb_frame_timeout s1 = Some timer"
          "frames_left s1 < frames_left s \<or> frames_left s1 = frames_left s \<and>
             (sb_frame_timeout s = None \<or> sb_frame_timeout s = Some timer \<and> timer - w_now w1 < timer - w_now w)"
        using progress by (auto simp: poll_progress_def)
      then have "((s1, tick w1), x) \<in> inv_image (less_than <*lex*> less_than <*lex*> less_than) (case_prod m)"
        by (auto simp: x m_def tick_def)
      from less [OF this] t(2) show ?thesis using Chunk_Pending by (auto simp: x step)
    qed (use progress in \<open>auto simp: x step poll_progress_def\<close>)
  qed
  from this [of "(s, w)"] show ?thesis by simp
qed

lemma read_raw_loop_returns:
  assumes "time_passes (ak_client A)"
  shows "\<exists>y. read_raw_loop A max_bytes bytes n s w = Some y"
proof (induction "frames_left s" arbitrary: bytes n s w rule: less_induct)
  case less
  obtain p s1 w1 where c: "next_chunk_of A s w = Some (p, s1, w1)"
    and shorter: "\<And>chunk. p = Ready (Ok (Some chunk)) \<Longrightarrow> frames_left s1 < frames_left s"
    using next_chunk_returns [OF assms, of s w] by auto
  note step = read_raw_loop.simps [of A max_bytes bytes n s w]
  show ?case
    using less [OF shorter] by (auto simp: step c split: future_end.split result.split option.split)
qed

lemma keeps_frames_write:
  assumes "async_write_with_deadline A chunk wr s w = (Ready (Ok u), wr', s', w')"
  shows "s' = s"
  using assms unfolding async_write_with_deadline_def Let_def
  by (auto split: prod.splits result.splits future_end.splits if_splits)

lemma async_copy_loop_returns:
  assumes "time_passes (ak_client A)"
  shows "\<exists>y. async_copy_loop A limit n wr s w = Some y"
proof (induction "frames_left s" arbitrary: n wr s w rule: less_induct)
  case less
  obtain p s1 w1 where c: "next_chunk_of A s w = Some (p, s1, w1)"
    and shorter: "\<And>chunk. p = Ready (Ok (Some chunk)) \<Longrightarrow> frames_left s1 < frames_left s"
    using next_chunk_returns [OF assms, of s w] by auto
  note step = async_copy_loop.simps [of A limit n wr s w]
  have same: "s2 = s1" if "copy_chunk A limit n chunk wr s1 w1 = (Ready (Ok m), wr2, s2, w2)" for chunk m wr2 s2 w2
    using that
    by (auto simp: copy_chunk_def Let_def split: if_splits prod.splits future_end.splits result.splits
        dest: keeps_frames_write)
  show ?case
    using less [OF shorter]
    by (auto simp: step c split: future_end.split result.split option.split prod.split dest!: same)
qed

lemma async_consumers_return:
  assumes "time_passes (ak_client A)"
  shows "\<exists>r w'. async_into_bytes_limited A max_bytes s w = Some (r, w')"
    and "\<exists>r w'. async_into_response_limited A max_bytes s w = Some (r, w')"
    and "\<exists>r wr' w'. async_copy_to_writer A wr s w = Some (r, wr', w')"
    and "\<exists>r wr' w'. async_copy_to_writer_limited A m wr s w = Some (r, wr', w')"
proof -
  obtain p b w1 where rd: "read_raw_bytes_limited A max_bytes (as_body s) w = Some (p, b, w1)"
    using read_raw_loop_returns [OF assms]
    by (fastforce simp: read_raw_bytes_limited_def split: prod.split result.split option.split)
  show "\<exists>r w'. async_into_bytes_limited A max_bytes s w = Some (r, w')"
    by (auto simp: async_into_bytes_limited_def rd Let_def split: future_end.split result.split)
  show "\<exists>r w'. async_into_response_limited A max_bytes s w = Some (r, w')"
    by (auto simp: async_into_response_limited_def rd Let_def split: future_end.split result.split prod.split)
  have copy: "\<exists>r wr' b w'. sb_copy A limit wr (as_body s) w = Some (r, wr', b, w')" for limit
  proof -
    obtain f where loop: "\<And>n wr s w. async_copy_loop A limit n wr s w = Some (f n wr s w)"
      using async_copy_loop_returns [OF assms, of limit] by metis
    have "sb_copy A limit wr (as_body s) w \<noteq> None"
      unfolding sb_copy_def by (simp add: loop del: not_None_eq split: prod.split result.split option.split future_end.split)
    then show ?thesis by auto
  qed
  show "\<exists>r wr' w'. async_copy_to_writer A wr s w = Some (r, wr', w')"
    "\<exists>r wr' w'. async_copy_to_writer_limited A m wr s w = Some (r, wr', w')"
    using copy by (auto simp: async_copy_to_writer_def async_copy_to_writer_limited_def)
qed

subsection \<open>Streams that do not wait\<close>

text \<open>A body whose frames have all arrived, read without a deadline.\<close>

definition prompt :: "('h, 'v, 'u, 'w, 'n, 'b) async_client \<Rightarrow> ('h, 'b) stream_body \<Rightarrow> bool" where
  "prompt A s \<longleftrightarrow> (\<forall>t. \<not> ak_frame_pending A t) \<and> sb_deadline_at s = None"

fun delivers :: "'h chunk_poll \<Rightarrow> bool" where
  "delivers Chunk_End \<longleftrightarrow> True"
| "delivers (Chunk_Data bytes) \<longleftrightarrow> True"
| "delivers _ \<longleftrightarrow> False"

lemma poll_frames_prompt:
  "prompt A s \<Longrightarrow> frames_content frames \<noteq> None \<Longrightarrow> delivers (fst (poll_frames A frames s w))"
proof (induction A frames s w rule: poll_frames.induct)
  case (1 A frames s w)
  have d: "sb_ensure_within_deadline (ak_client A) s w = (Ok (), w)" and f: "\<not> ak_frame_pending A (w_tick w)"
    using "1.prems"(1) by (simp_all add: prompt_def sb_ensure_within_deadline_def)
  note IH = "1.IH" [OF d [symmetric] refl f]
  define x where "x = poll_frames A frames s w"
  note now = x_def [unfolded poll_frames.simps [of A frames s w] d]
  consider "frames = []" | src rest where "frames = Frame_Failed src # rest"
    | (skip) rest where "frames = Frame_Trailers # rest \<or> frames = Frame_Data [] # rest"
    | b bs rest where "frames = Frame_Data (b # bs) # rest"
    by (metis body_frame.exhaust neq_Nil_conv)
  then have "delivers (fst x)"
  proof cases
    case (skip rest)
    have "prompt A (reset_frame_timeout (s\<lparr> sb_inner := Some rest \<rparr>))"
      using "1.prems"(1) by (simp add: prompt_def reset_frame_timeout_def)
    moreover have "x = poll_frames A rest (reset_frame_timeout (s\<lparr> sb_inner := Some rest \<rparr>)) (tick w)"
      using skip f now by auto
    ultimately show ?thesis using skip IH "1.prems"(2) by auto
  qed (use "1.prems"(2) f now in auto)
  then show ?case by (simp add: x_def)
qed

lemma next_chunk_prompt:
  assumes "prompt A s" "sb_content s = Some content"
  shows "\<exists>c s' w'. next_chunk_of A s w = Some (Ready (Ok c), s', w')"
proof -
  obtain p s1 w1 where p: "poll_next_chunk A s w = (p, s1, w1)" by (metis prod_cases3)
  have "delivers (fst (poll_next_chunk A s w))"
    using poll_frames_prompt [OF assms(1), of _ w] assms(2)
    by (cases "sb_inner s") (auto simp: poll_next_chunk_def sb_content_def)
  then have "delivers p" by (simp add: p)
  then show ?thesis by (cases p) (auto simp: next_chunk_of.simps [of A s w] p)
qed

lemma read_raw_loop_prompt:
  assumes "prompt A s" "sb_content s = Some content" "time_passes (ak_client A)"
    and "n = length bytes" "length (bytes @ content) \<le> max_bytes" "max_bytes < usize_max"
  shows "\<exists>s' w'. read_raw_loop A max_bytes bytes n s w = Some (Ready (Ok (bytes @ content)), s', w')"
  using assms
proof (induction "frames_left s" arbitrary: bytes n s w content rule: less_induct)
  case less
  obtain c s1 w1 where c: "next_chunk_of A s w = Some (Ready (Ok c), s1, w1)"
    using next_chunk_prompt [OF less.prems(1,2)] by blast
  note ends = chunk_ends_next [OF c]
  note step = read_raw_loop.simps [of A max_bytes bytes n s w] c
  show ?case
  proof (cases c)
    case None
    then have "content = []" using ends less.prems(2) by (simp add: chunk_ends_def)
    then show ?thesis using None by (simp add: step)
  next
    case (Some chunk)
    obtain rest where rest: "sb_content s1 = Some rest" "content = chunk @ rest"
      using ends less.prems(2) Some by (cases "sb_content s1") (auto simp: chunk_ends_def)
    have fits: "usize_add n (length chunk) = length (bytes @ chunk)" "\<not> usize_add n (length chunk) > max_bytes"
      using less.prems(4-6) rest(2) by (auto simp: sat_add_def)
    have "frames_left s1 < frames_left s"
      using next_chunk_returns [OF less.prems(3), of s w] c Some by auto
    moreover have "prompt A s1" using ends less.prems(1) by (simp add: prompt_def chunk_ends_def sb_kept_def)
    ultimately have "\<exists>s' w'. read_raw_loop A max_bytes (bytes @ chunk) (usize_add n (length chunk)) s1 w1 =
        Some (Ready (Ok ((bytes @ chunk) @ rest)), s', w')"
      by (intro less.hyps) (use rest fits(1) less.prems(3,5,6) in auto)
    then show ?thesis using Some rest(2) fits(2) by (simp add: step)
  qed
qed

lemma read_raw_bytes_limited_prompt:
  assumes "prompt A s" "sb_content s = Some content" "time_passes (ak_client A)"
    and "length (sb_read_buffer s @ content) \<le> max_bytes" "max_bytes < usize_max"
  shows "\<exists>s' w'. read_raw_bytes_limited A max_bytes s w = Some (Ready (Ok (sb_read_buffer s @ content)), s', w')"
proof -
  let ?s = "s\<lparr> sb_read_buffer := [] \<rparr>"
  have same: "prompt A ?s" "sb_content ?s = Some content" using assms(1,2) by (simp_all add: prompt_def sb_content_def)
  have fits: "usize_add 0 (length (sb_read_buffer s)) = length (sb_read_buffer s)"
    "\<not> length (sb_read_buffer s) > max_bytes"
    using assms(4,5) by (auto simp: sat_add_def)
  have "sb_ensure_within_deadline (ak_client A) s w = (Ok (), w)"
    using assms(1) by (simp add: prompt_def sb_ensure_within_deadline_def)
  then show ?thesis
    using read_raw_loop_prompt [OF same assms(3) refl assms(4,5), of w]
      read_raw_loop_prompt [OF assms(1,2,3) refl assms(4,5), of w] fits
    by (cases "sb_read_buffer s = []") (simp_all add: read_raw_bytes_limited_def take_pending_chunk_def)
qed

end
