(* ===== verification/Reqx_AsyncRequest.thy ===== *)
theory Reqx_AsyncRequest
  imports Reqx_AsyncTermination
begin

text \<open>
  Whole requests of the asynchronous client: what \<open>send_request\<close> and \<open>send_request_stream\<close> return, and what
  they leave behind when they return and when they are dropped.
\<close>

subsection \<open>The kind of the response\<close>

fun async_good_result ::
    "('h, 'v, 'u, 'w, 'n, 'b) client \<Rightarrow> response_mode \<Rightarrow> nat \<Rightarrow>
     (('h, ('h, 'b) async_response_stream) retry_response, 'h error) result \<Rightarrow> bool" where
  "async_good_result K mode max_bytes (Err e) \<longleftrightarrow> True"
| "async_good_result K mode max_bytes (Ok (Response_Buffered r)) \<longleftrightarrow>
     mode = ResponseMode_Buffered \<and> (max_bytes < usize_max \<longrightarrow> length (rs_body r) \<le> max_bytes)"
| "async_good_result K mode max_bytes (Ok (Response_Stream s)) \<longleftrightarrow> mode = ResponseMode_Stream \<and> async_stream_ok K s"

definition good_future ::
    "('h, 'v, 'u, 'w, 'n, 'b) client \<Rightarrow> response_mode \<Rightarrow> nat \<Rightarrow> ('h, 'u, 'b) async_iteration \<times> ('h, 'b) world \<Rightarrow> bool" where
  "good_future K mode max_bytes x =
     (case fst x of Ready (Iter_Return r _) \<Rightarrow> async_good_result K mode max_bytes r | _ \<Rightarrow> True)"

lemma good_future_simps [simp]:
  "good_future K mode m (Ready (Iter_Return r left), w) = async_good_result K mode m r"
  "good_future K mode m (Ready (Iter_Continue st body), w)"
  "good_future K mode m (Dropped, w)"
  "good_future K mode m (ready (return_error K' context g h gp e w))"
  "good_future K mode m (async_continue_after A g h d st body w)"
  "good_future K mode m (ready (return_response K' completion gp g h s hs b w)) \<longleftrightarrow>
     mode = ResponseMode_Buffered \<and> (m < usize_max \<longrightarrow> length b \<le> m)"
  by (simp_all add: good_future_def ready_def return_error_def async_continue_after_def return_response_def split_def
      Let_def split: future_end.split)

lemma good_future_case [simp]:
  "(\<And>g w. good_future K mode m (f g w)) \<Longrightarrow> good_future K mode m (case x of (g, w) \<Rightarrow> f g w)"
  by (cases x) simp

lemma ready_if: "ready (if b then x else y) = (if b then ready x else ready y)"
  by simp

lemma good_future_transport_failed: "good_future K mode m (async_transport_failed A st body gp context g h e t w)"
  unfolding async_transport_failed_def Let_def
  by (auto split: prod.split transport_failure_plan.split result.split retry_schedule.split)

lemma good_future_return_stream:
  assumes "is_stream mode"
  shows "good_future K mode m (ready (async_return_stream K completion st gp g h response t w))"
proof -
  obtain hooks g' w' where l: "into_stream_lifecycle (circuit_outcome K) (adaptive_outcome K)
      (budget_record_success K) completion g w = (hooks, g', w')"
    by (metis prod_cases3)
  have "case hooks of None \<Rightarrow> True | Some h \<Rightarrow> stream_resilience_hooks.sh_retry_budget h = budget_record_success K"
    using l by (auto simp: into_stream_lifecycle_def Let_def split_def split: request_completion.splits if_splits)
  then show ?thesis
    using assms l
    by (simp add: stream_mode async_return_stream_def async_stream_response_def async_stream_ok_def lifecycle_ok_def
        live_lifecycle_of_def ready_def)
qed

lemma read_all_frames_bound:
  assumes "read_all_frames max_bytes bytes n frames = Ok out" "n = length bytes" "n \<le> max_bytes" "max_bytes < usize_max"
  shows "length out \<le> max_bytes"
  using assms
proof (induction max_bytes bytes n frames rule: read_all_frames.induct)
  case (4 max_bytes bytes n b frames)
  then have "n + length b \<le> max_bytes" "usize_add n (length b) = n + length b"
    by (auto simp: sat_add_def Let_def min_def split: if_splits)
  then show ?case using 4 by (simp add: Let_def)
qed auto

lemma async_read_decoded_response_body_bound:
  assumes "async_read_decoded_response_body_with_retry A frames hs s b w = (Ready (Ok (BodyRead_Body decoded), x), w')"
    and "br_max_response_body_bytes b < usize_max"
  shows "length decoded \<le> br_max_response_body_bytes b"
proof -
  let ?K = "ak_client A"
  obtain body a w1 w2 w3 w4 where
      r: "async_read_response_body_with_retry A frames b w1 = (Ready (Ok (BodyRead_Body body), a), w2)"
    and d: "decode_response_body_limited ?K body hs (br_max_response_body_bytes b) s (br_context b) w3 = (Ok decoded, w4)"
    using assms(1) by (auto simp: async_read_decoded_response_body_with_retry_def Let_def
        split: prod.splits option.splits result.splits body_read_outcome.splits future_end.splits)
  have "read_all_body_limited frames (br_max_response_body_bytes b) = Ok body"
    using r handle_body_read_failure_no_body
    by (fastforce simp: async_read_response_body_with_retry_def Let_def split: prod.splits result.splits
        read_body_error.splits if_splits)
  then have "length body \<le> br_max_response_body_bytes b"
    using read_all_frames_bound assms(2) by (fastforce simp: read_all_body_limited_def)
  then show ?thesis by (rule decode_response_body_bound [OF d _ assms(2)])
qed

lemma good_future_read_and_finish:
  assumes "is_success (ih_status response) \<Longrightarrow> mode = ResponseMode_Buffered"
  shows "good_future K mode (op_max_response_body_bytes (es_options st))
    (async_read_and_finish A mode st body gp context g h response w)"
proof -
  let ?K = "ak_client A"
  obtain now w1 where n: "instant_now ?K w = (now, w1)" by force
  show ?thesis
  proof (cases "es_phase_timeout now st")
    case None
    then show ?thesis unfolding async_read_and_finish_def Let_def by (simp add: n)
  next
    case (Some rt)
    let ?b = "es_body_read_retry_context context rt st"
    obtain q w2 where rd: "async_read_decoded_response_body_with_retry A (ih_body response) (ih_headers response)
        (ih_status response) ?b w1 = (q, w2)" by force
    show ?thesis
    proof (cases q)
      case Dropped
      then show ?thesis unfolding async_read_and_finish_def Let_def by (simp add: n Some rd)
    next
      case (Ready x)
      obtain r hs a where x: "x = (r, hs, a)" by (metis prod_cases3)
      obtain r' g' w3 where rec: "record_failure_on_error (circuit_outcome ?K) (adaptive_outcome ?K) r g w2 =
          (r', g', w3)" by (metis prod_cases3)
      have "length bytes \<le> op_max_response_body_bytes (es_options st)"
        if "r = Ok (BodyRead_Body bytes)" "op_max_response_body_bytes (es_options st) < usize_max" for bytes
        using async_read_decoded_response_body_bound [OF rd [unfolded Ready x that(1)]] that(2)
        by (simp add: es_body_read_retry_context_def)
      then show ?thesis
        using record_failure_keeps_result(2) [OF rec] assms unfolding async_read_and_finish_def Let_def
        by (cases mode) (auto simp: n Some rd Ready x rec is_buffered_def ready_if ready_case split_def
            split: result.split body_read_outcome.split)
    qed
  qed
qed

lemma good_future_handle_response:
  "good_future (ak_client A) mode (op_max_response_body_bytes (es_options st))
    (async_handle_response A mode st body gp context g h response t w)"
proof -
  let ?K = "ak_client A"
  have keep: "\<exists>attempt. st' = st\<lparr> es_attempt := attempt \<rparr>"
    if "prepare_status_retry ?K st context s hs w = (r, st', w')" for s hs w r st' w'
    using settles_prepare_status_retry [OF that] by blast
  have read: "good_future ?K mode (op_max_response_body_bytes (es_options st))
      (async_read_and_finish A mode (st\<lparr> es_attempt := a \<rparr>) body gp context g' h response w')"
    if "is_success (ih_status response) \<longrightarrow> \<not> is_stream mode" for a g' w'
    using good_future_read_and_finish [of response mode ?K "st\<lparr> es_attempt := a \<rparr>" A body gp "context" g' h w']
      that by (simp add: stream_mode(2))
  have non_success: "good_future ?K mode (op_max_response_body_bytes (es_options st))
      (async_handle_non_success A mode st body gp context g h response t w)" if "\<not> is_success (ih_status response)" for w
    using that unfolding async_handle_non_success_def Let_def
    by (auto simp: read good_future_return_stream split: prod.split result.split retry_schedule.split dest!: keep)
  show ?thesis
    using non_success read [of "es_attempt st"] unfolding async_handle_response_def Let_def
    by (auto simp: good_future_return_stream split: prod.split result.split option.split)
qed

lemma async_send_attempt_good:
  "good_future (ak_client A) mode (op_max_response_body_bytes (es_options st))
    (async_send_attempt A mode st body gp context g h w)"
proof -
  have "good_future (ak_client A) mode (op_max_response_body_bytes (es_options st)) (async_handle_response A mode
      (tighten_retry_eligibility hs (ci_retry_eligibility (ak_client A)) st) body gp context g h response t w)"
    for hs body "context" g h response t w
    by (rule good_future_handle_response [where st = "tighten_retry_eligibility hs (ci_retry_eligibility (ak_client A)) st",
        unfolded tighten_keeps])
  then show ?thesis
    unfolding async_send_attempt_def Let_def
    by (auto simp: good_future_transport_failed split: prod.split result.split option.split future_end.split)
qed

lemma async_attempt_iteration_good:
  assumes "async_attempt_iteration A mode st body gp w = Some x"
  shows "good_future (ak_client A) mode (op_max_response_body_bytes (es_options st)) x"
  using assms async_send_attempt_good
  by (auto simp: async_attempt_iteration_def Let_def split: option.splits prod.splits result.splits future_end.splits)

lemma async_retry_loop_good:
  assumes "async_retry_loop A mode st body gp w = Some (fr, w')"
  shows "case fr of Dropped \<Rightarrow> True
    | Ready r \<Rightarrow> async_good_result (ak_client A) mode (op_max_response_body_bytes (es_options st)) r"
  using assms
proof (induction rule: async_retry_loop_induct)
  case (finish st body w r left w1)
  then show ?case using async_attempt_iteration_good [OF finish(2)] by simp
next
  case (again st body w st' body' w1 r w')
  have "es_options st' = es_options st"
    using async_attempt_iteration_iterates [OF again(2)]
    by (auto simp: async_iterates_def future_returns_def dest: goes_on_keeps(2))
  then show ?case using again(3) by (cases r) simp_all
qed simp_all

subsection \<open>Whole requests\<close>

lemma quiet_drop_pending: "quiet w (drop_pending K started p w)"
proof -
  obtain now w1 where n: "instant_now K w = (now, w1)" by force
  show ?thesis
    using quiet_settles [OF quiet_readings(1) [OF n] quiet_basic(4)] by (simp add: drop_pending_def n Let_def)
qed

lemma async_send_request_with_retry_mode_loop:
  assumes "async_send_request_with_retry_mode A input mode gp started w = Some y"
  obtains st body where "from_request input started (ci_retry_eligibility (ak_client A)) = (st, body)"
    "async_retry_loop A mode st body gp w = Some y" "es_options st = ri_execution_options input"
  using assms
  by (auto simp: async_send_request_with_retry_mode_def from_request_def Let_def split: prod.splits)

lemma async_starts:
  assumes "instant_now (ak_client A) w = (started, w1)" "begin_pending (ak_client A) w1 = (p, w2)"
    and "async_acquire_global_request_permit A total_timeout started meth uri w2 = Some (r, w3)"
  shows "takes (future_granted global_resources r) w w3 \<and> w_now w \<le> started \<and> started \<le> w_now w3"
  using quiet_readings(1) [OF assms(1)] instant_now_now [OF assms(1)] quiet_pending(1) [OF assms(2)]
    takes_async_permits(1) [OF assms(3)]
  by (auto simp: takes_def settles_def)

text \<open>
  The three ways of a buffered request: its preparation fails, it ends while it waits for the global
  permit, or its loop runs with the permit.
\<close>

lemma async_send_request_cases [consumes 1, case_names unprepared waiting ran]:
  assumes "async_send_request A meth path headers body overrides w = Some (fr, w')"
    and unprepared: "\<And>e. request_preparation (ak_client A) (ci_buffered_auto_accept_encoding (ak_client A)) meth path
        headers body overrides = Err e \<Longrightarrow> fr = Ready (Err e) \<Longrightarrow> w' = w \<Longrightarrow> P"
    and waiting: "\<And>input started w1. request_preparation (ak_client A)
        (ci_buffered_auto_accept_encoding (ak_client A)) meth path headers body overrides = Ok input \<Longrightarrow>
        fr = Dropped \<or> (\<exists>e. fr = Ready (Err e)) \<Longrightarrow>
        starts_request (ak_client A) input w started None w1 \<Longrightarrow> quiet w1 w' \<Longrightarrow> P"
    and ran: "\<And>input started gp w1 q w2 w3. request_preparation (ak_client A)
        (ci_buffered_auto_accept_encoding (ak_client A)) meth path headers body overrides = Ok input \<Longrightarrow>
        starts_request (ak_client A) input w started gp w1 \<Longrightarrow>
        async_send_request_with_retry_mode A input ResponseMode_Buffered None started w1 = Some (q, w2) \<Longrightarrow>
        (case q of
           Dropped \<Rightarrow> fr = Dropped \<and> w3 = w2
         | Ready (Err e) \<Rightarrow> fr = Ready (Err e) \<and> w3 = w2
         | Ready (Ok (Response_Buffered b)) \<Rightarrow> fr = Ready (Ok b) \<and> w3 = w2
         | Ready (Ok (Response_Stream s)) \<Rightarrow> (\<exists>e. fr = Ready (Err e)) \<and> w3 = async_stream_drop (ak_client A) s w2) \<Longrightarrow>
        settles (global_resources gp) [] w3 w' \<Longrightarrow> P"
  shows P
proof (cases "request_preparation (ak_client A) (ci_buffered_auto_accept_encoding (ak_client A)) meth path headers body
    overrides")
  case (Err e)
  then show ?thesis using assms(1) unprepared by (simp add: async_send_request_def)
next
  case (Ok input)
  let ?K = "ak_client A"
  obtain started w1 where n: "instant_now ?K w = (started, w1)" by force
  obtain p w2 where p: "begin_pending ?K w1 = (p, w2)" by force
  let ?total = "op_total_timeout (ri_execution_options input)" and ?m = "ri_method input"
    and ?u = "ri_redacted_uri_text input"
  note eq = assms(1) [unfolded async_send_request_def Let_def, simplified Ok n p, simplified]
  note eq = eq [unfolded p prod.case]
  obtain q w3 where a: "async_acquire_global_request_permit A ?total started ?m ?u w2 = Some (q, w3)"
    using eq by (cases "async_acquire_global_request_permit A ?total started ?m ?u w2") auto
  note start = async_starts [OF n p a]
  note ended = quiet_pending(2) [of w3 ?K started _ p] quiet_drop_pending [of w3 ?K started p]
  show ?thesis
  proof (cases "\<exists>gp. q = Ready (Ok gp)")
    case False
    then have "fr = Dropped \<or> (\<exists>e. fr = Ready (Err e))" "quiet w3 w'"
      using eq ended by (auto simp: a split: future_end.splits result.splits)
    moreover have "starts_request ?K input w started None w3"
      using start False by (cases q; cases "case q of Ready r \<Rightarrow> r | Dropped \<Rightarrow> Ok None") (auto simp: starts_request_def)
    ultimately show ?thesis by (intro waiting [OF Ok])
  next
    case True
    then obtain gp where gp: "q = Ready (Ok gp)" by blast
    have s: "starts_request ?K input w started gp w3" using start gp by (simp add: starts_request_def)
    obtain q2 w4 where l: "async_send_request_with_retry_mode A input ResponseMode_Buffered None started w3 = Some (q2, w4)"
      using eq by (cases "async_send_request_with_retry_mode A input ResponseMode_Buffered None started w3")
        (auto simp: a gp)
    have drop: "settles (global_resources gp) [] w5 (global_permit_drop ?K gp (end_pending ?K started x p w5))"
        "settles (global_resources gp) [] w5 (drop_pending ?K started p (global_permit_drop ?K gp w5))" for x w5
      using quiet_settles [OF quiet_pending(2) settles_permits(1)] settles_quiet [OF settles_permits(1) quiet_drop_pending]
      by blast+
    show ?thesis
      using ran [OF Ok s l] eq drop
      by (auto simp: a gp l split: future_end.splits result.splits retry_response.splits)
  qed
qed

lemma async_loop_result_good:
  assumes "async_send_request_with_retry_mode A input mode gp started w = Some (Ready r, w')"
  shows "async_good_result (ak_client A) mode (op_max_response_body_bytes (ri_execution_options input)) r"
proof -
  obtain st body where "async_retry_loop A mode st body gp w = Some (Ready r, w')"
      "es_options st = ri_execution_options input"
    using async_send_request_with_retry_mode_loop [OF assms] by blast
  then show ?thesis using async_retry_loop_good by fastforce
qed

lemma async_loop_accounts:
  assumes "async_send_request_with_retry_mode A input mode gp started w = Some (q, w')"
  shows "acquired w' + released w + global_resources gp = acquired w + released w' + future_result_owns q"
    and "errors w' = errors w @ future_failed q" and "w_now w \<le> w_now w'"
proof -
  obtain st body where "async_retry_loop A mode st body gp w = Some (q, w')"
    using async_send_request_with_retry_mode_loop [OF assms] by blast
  from async_retry_loop_accounts [OF this]
  show "acquired w' + released w + global_resources gp = acquired w + released w' + future_result_owns q"
    "errors w' = errors w @ future_failed q" "w_now w \<le> w_now w'" by blast+
qed

abbreviation async_refines_execution ::
    "('h, 'v, 'u, 'w, 'n, 'b) client \<Rightarrow> ('h, 'u, 'b request_body) retry_request_input \<Rightarrow> instant \<Rightarrow> nat \<Rightarrow>
     ('h, 'b) sent_request list \<Rightarrow> bool" where
  "async_refines_execution K \<equiv> refines_with (async_request_from K) K"

lemma async_loop_refines:
  assumes "async_send_request_with_retry_mode A input mode gp started w = Some (q, w')"
    and "valid_limits (ri_execution_options input)"
  shows "\<exists>qs. sent w' = sent w @ qs \<and> async_refines_execution (ak_client A) input started 0 qs \<and> streamed qs \<le> 1 \<and>
    (\<forall>q \<in> set qs. w_now w \<le> fst q)"
proof -
  let ?K = "ak_client A"
  obtain st body where f: "from_request input started (ci_retry_eligibility ?K) = (st, body)"
    and l: "async_retry_loop A mode st body gp w = Some (q, w')"
    using async_send_request_with_retry_mode_loop [OF assms(1)] by blast
  obtain qs where qs: "sent w' = sent w @ qs" "attempts ?K (async_request_from ?K) st body qs"
      "\<forall>q \<in> set qs. w_now w \<le> fst q"
    using async_retry_loop_attempts [OF l] by blast
  then show ?thesis
    using async_requests.attempts_refine [OF qs(2) assms(2) from_request_reachable(1,2) [OF f]]
      from_request_reachable(3) [OF f] by (auto split: if_splits)
qed

text \<open>The loop of a buffered request never yields a stream.\<close>

lemma async_ran_outcome:
  assumes "async_send_request_with_retry_mode A input ResponseMode_Buffered None started w1 = Some (q, w2)"
    and "case q of
           Dropped \<Rightarrow> fr = Dropped \<and> w3 = w2
         | Ready (Err e) \<Rightarrow> fr = Ready (Err e) \<and> w3 = w2
         | Ready (Ok (Response_Buffered b)) \<Rightarrow> fr = Ready (Ok b) \<and> w3 = w2
         | Ready (Ok (Response_Stream s)) \<Rightarrow> (\<exists>e. fr = Ready (Err e)) \<and> w3 = async_stream_drop (ak_client A) s w2"
  shows "w3 = w2" "future_result_owns q = {#}" "future_failed fr = future_failed q"
  using assms(2) async_loop_result_good [of A input ResponseMode_Buffered None started w1 _ w2] assms(1)
  by (cases q; cases "case q of Ready r \<Rightarrow> r | Dropped \<Rightarrow> Err undefined"; fastforce split: retry_response.splits)+

lemma async_send_request_sends:
  assumes "async_send_request A meth path headers body overrides w = Some (fr, w')"
    and "request_preparation (ak_client A) (ci_buffered_auto_accept_encoding (ak_client A)) meth path headers body
      overrides = Ok input"
    and "valid_limits (ri_execution_options input)"
  shows "\<exists>qs started. sent w' = sent w @ qs \<and> async_refines_execution (ak_client A) input started 0 qs \<and>
    streamed qs \<le> 1 \<and> w_now w \<le> started \<and> (\<forall>q \<in> set qs. started \<le> fst q)"
  using assms(1)
proof (cases rule: async_send_request_cases)
  case (unprepared e)
  then show ?thesis using assms(2) by simp
next
  case (waiting input' started w1)
  then show ?thesis
    by (intro exI [of _ "[]"] exI [of _ started])
       (auto simp: starts_request_def takes_def settles_def streamed_def)
next
  case (ran input' started gp w1 q w2 w3)
  have "input' = input" using ran(1) assms(2) by simp
  then obtain qs where qs: "sent w2 = sent w1 @ qs" "async_refines_execution (ak_client A) input started 0 qs"
      "streamed qs \<le> 1" "\<forall>q \<in> set qs. w_now w1 \<le> fst q"
    using async_loop_refines [OF ran(3)] assms(3) by blast
  have "sent w3 = sent w2" using async_ran_outcome(1) [OF ran(3,4)] by simp
  then show ?thesis
    using qs ran(2,5)
    by (intro exI [of _ qs] exI [of _ started]) (auto simp: starts_request_def takes_def settles_def)
qed

subsection \<open>Requests for streams\<close>

lemma async_attach_completion_owns [simp]:
  "async_stream_resources (async_attach_completion c s) = async_stream_resources s"
  "async_stream_ok K (async_attach_completion c s) = async_stream_ok K s"
  by (simp_all add: async_attach_completion_def sb_attach_completion_def async_stream_resources_def sb_resources_def
      lifecycle_resources_def async_stream_ok_def lifecycle_ok_def)

lemma async_stream_request_accounts:
  assumes "async_send_request_stream A meth path headers body overrides w = Some (fr, w')"
  shows "case fr of
      Ready (Ok s) \<Rightarrow> async_stream_ok (ak_client A) s \<and>
        acquired w' + released w = acquired w + released w' + async_stream_resources s
    | _ \<Rightarrow> acquired w' + released w = acquired w + released w'"
proof (cases "request_preparation (ak_client A) (ci_stream_auto_accept_encoding (ak_client A)) meth path headers body
    overrides")
  case (Err e)
  then show ?thesis using assms by (auto simp: async_send_request_stream_def)
next
  case (Ok input)
  let ?K = "ak_client A"
  obtain started w1 where n: "instant_now ?K w = (started, w1)" by force
  obtain p w2 where p: "begin_pending ?K w1 = (p, w2)" by force
  let ?total = "op_total_timeout (ri_execution_options input)" and ?m = "ri_method input"
    and ?u = "ri_redacted_uri_text input"
  note eq = assms [unfolded async_send_request_stream_def Let_def, simplified Ok n p, simplified]
  note eq = eq [unfolded p prod.case]
  obtain q w3 where a: "async_acquire_global_request_permit A ?total started ?m ?u w2 = Some (q, w3)"
    using eq by (cases "async_acquire_global_request_permit A ?total started ?m ?u w2") auto
  have start: "takes (future_granted global_resources q) w w3" using async_starts [OF n p a] by blast
  show ?thesis
  proof (cases "\<exists>gp. q = Ready (Ok gp)")
    case False
    then show ?thesis
      using eq start quiet_pending(2) [of w3 ?K started _ p] quiet_drop_pending [of w3 ?K started p]
      by (auto simp: a takes_def settles_def split: future_end.splits result.splits)
  next
    case True
    then obtain gp where gp: "q = Ready (Ok gp)" by blast
    obtain q2 w4 where l: "async_send_request_with_retry_mode A input ResponseMode_Stream gp started w3 = Some (q2, w4)"
      using eq by (cases "async_send_request_with_retry_mode A input ResponseMode_Stream gp started w3") (auto simp: a gp)
    have loop: "acquired w4 + released w = acquired w + released w4 + future_result_owns q2"
      using async_loop_accounts(1) [OF l] start gp by (simp add: takes_def ac_simps)
    note good = async_loop_result_good [of A input ResponseMode_Stream gp started w3 _ w4]
    show ?thesis
    proof (cases "\<exists>s. q2 = Ready (Ok (Response_Stream s))")
      case True
      then obtain s where s: "q2 = Ready (Ok (Response_Stream s))" by blast
      obtain c w5 where c: "stream_pending ?K (as_status s) p w4 = (c, w5)" by force
      have "fr = Ready (Ok (async_attach_completion (started, c) s))" "w' = w5"
        using eq by (simp_all add: a gp l s c)
      moreover have "quiet w4 w5" by (rule quiet_pending(3) [OF c])
      ultimately show ?thesis using loop good l s by (auto simp: settles_def)
    next
      case False
      have "q2 \<noteq> Ready (Ok (Response_Buffered b))" for b using good l by auto
      then have "quiet w4 w' \<and> future_result_owns q2 = {#} \<and> \<not> (\<exists>s. fr = Ready (Ok s))"
        using eq False quiet_pending(2) [of w4 ?K started _ p] quiet_drop_pending [of w4 ?K started p]
        by (auto simp: a gp l split: future_end.splits result.splits retry_response.splits)
      then show ?thesis using loop by (auto simp: settles_def split: future_end.splits result.splits)
    qed
  qed
qed

subsection \<open>Proxy credentials\<close>

lemma proxy_auth_header_cases:
  assumes "header_map_laws (li_headers K)"
    and "hm_get_all (li_headers K) (apply_http_proxy_auth_header K uri
      (hm_remove (li_headers K) ''proxy-authorization'' hs)) ''proxy-authorization'' \<noteq> []"
  shows "\<exists>pc authorization. connect_route_of K uri = Route_Proxy \<and> ci_proxy_config K = Some pc \<and>
    pc_authorization pc = Some authorization \<and>
    hm_get_all (li_headers K) (apply_http_proxy_auth_header K uri
      (hm_remove (li_headers K) ''proxy-authorization'' hs)) ''proxy-authorization'' = [authorization]"
  using assms(2)
  by (auto simp: apply_http_proxy_auth_header_def should_apply_http_proxy_auth_header_def connect_route_of_def
      header_map_lawsD [OF assms(1)] eq_ignore_ascii_case_def to_ascii_lowercase_def ascii_defs
      split: if_splits option.splits)

end
