(* ===== verification/Reqx_AsyncProperties.thy ===== *)
theory Reqx_AsyncProperties
  imports Reqx_AsyncRequest Reqx_BlockingProperties
begin

text \<open>
  The properties of the asynchronous client's requests and streams, each with a run of a concrete client:
  the one of \<open>Reqx_BlockingProperties\<close> behind an http proxy with credentials, and a server that lets the first
  attempt time out and answers the second. The parameter of \<open>async_example\<close> is the tick from which on every
  future is dropped where it waits.
\<close>

subsection \<open>An example\<close>

definition async_example_client ::
    "(alist_header_map, string \<times> bool, triple_uri, unit, unit, unit) client" where
  "async_example_client = example_client\<lparr> ci_proxy_config :=
     Some \<lparr> pc_uri = (Some ''http'', Some ''p'', ''/''), pc_authorization = Some (''s3cret'', True), pc_no_proxy_rules = [] \<rparr> \<rparr>"

definition async_example ::
    "nat \<Rightarrow> (alist_header_map, string \<times> bool, triple_uri, unit, unit, unit) async_client" where
  "async_example end_at = \<lparr> ak_client = async_example_client, ak_dropped = (\<lambda>t. end_at \<le> t), ak_turn = (\<lambda>_. True),
     ak_transport = (\<lambda>t q. if t < 12 then None
       else Some (Ok \<lparr> ih_status = 200, ih_headers = [], ih_body = [Frame_Data ''o'', Frame_Trailers, Frame_Data ''k''] \<rparr>)),
     ak_body_timed_out = (\<lambda>_. False), ak_frame_pending = (\<lambda>_. False), ak_write_timed_out = (\<lambda>_. False),
     ak_write_partial = (\<lambda>_. 0) \<rparr>"

lemma async_example_simps [simp]:
  "ak_client (async_example d) = async_example_client" "ak_dropped (async_example d) t \<longleftrightarrow> d \<le> t"
  "ak_turn (async_example d) t" "\<not> ak_body_timed_out (async_example d) t" "\<not> ak_frame_pending (async_example d) t"
  "ak_transport (async_example d) t q = (if t < 12 then None
     else Some (Ok \<lparr> ih_status = 200, ih_headers = [], ih_body = [Frame_Data ''o'', Frame_Trailers, Frame_Data ''k''] \<rparr>))"
  "\<not> ak_write_timed_out (async_example d) t"
  by (simp_all add: async_example_def)

lemma async_example_client_simps:
  "li_headers async_example_client = li_headers example_client"
  "li_header_values async_example_client = li_header_values example_client"
  "li_iter_mut async_example_client = li_iter_mut example_client"
  "li_uris async_example_client = li_uris example_client"
  "li_urls async_example_client = li_urls example_client"
  "li_proxies async_example_client = li_proxies example_client"
  "li_codecs async_example_client = li_codecs example_client"
  "li_parse_date async_example_client = li_parse_date example_client"
  "li_enabled_encodings async_example_client = li_enabled_encodings example_client"
  "li_tls_features async_example_client = li_tls_features example_client"
  "li_ureq_error_box async_example_client = li_ureq_error_box example_client"
  "li_build_request async_example_client = li_build_request example_client"
  "en_elapsed async_example_client = en_elapsed example_client"
  "en_others async_example_client = en_others example_client"
  "en_monotonic async_example_client = en_monotonic example_client"
  "en_system async_example_client = en_system example_client"
  "en_sample async_example_client = en_sample example_client"
  "en_wait_timed_out async_example_client = en_wait_timed_out example_client"
  "en_transport async_example_client = en_transport example_client"
  "ci_base_url async_example_client = ci_base_url example_client"
  "ci_default_headers async_example_client = ci_default_headers example_client"
  "ci_request_defaults async_example_client = ci_request_defaults example_client"
  "ci_buffered_auto_accept_encoding async_example_client = ci_buffered_auto_accept_encoding example_client"
  "ci_stream_auto_accept_encoding async_example_client = ci_stream_auto_accept_encoding example_client"
  "ci_stream_deadline_slack async_example_client = ci_stream_deadline_slack example_client"
  "ci_retry_eligibility async_example_client = ci_retry_eligibility example_client"
  "ci_retry_budget async_example_client = ci_retry_budget example_client"
  "ci_circuit_breaker async_example_client = ci_circuit_breaker example_client"
  "ci_adaptive_concurrency async_example_client = ci_adaptive_concurrency example_client"
  "ci_has_rate_limiter async_example_client = ci_has_rate_limiter example_client"
  "ci_server_throttle_scope async_example_client = ci_server_throttle_scope example_client"
  "ci_has_proxy_agent async_example_client = ci_has_proxy_agent example_client"
  "ci_endpoint_selector async_example_client = ci_endpoint_selector example_client"
  "ci_backoff_source async_example_client = ci_backoff_source example_client"
  "ci_connect_timeout async_example_client = ci_connect_timeout example_client"
  "ci_has_request_limiters async_example_client = ci_has_request_limiters example_client"
  "ci_interceptors async_example_client = ci_interceptors example_client"
  "ci_proxy_config async_example_client = Some \<lparr> pc_uri = (Some ''http'', Some ''p'', ''/''),
     pc_authorization = Some (''s3cret'', True), pc_no_proxy_rules = [] \<rparr>"
  by (simp_all add: async_example_client_def)

lemma async_example_preparation [simp]:
  "request_preparation async_example_client False method_GET ''/a'' [] None no_overrides = Ok example_input"
  by (simp add: example_preparation_defs async_example_client_simps example_client_simps)

lemmas async_example_defs = async_send_request_def async_acquire_global_request_permit_def within_deadline_def
  async_acquire_global_def acquire_owned_def wait_for.simps take_permit_def semaphore_try_acquire_def
  async_send_request_with_retry_mode_def async_retry_loop.simps async_attempt_iteration_def async_admit_attempt_def
  async_acquire_rate_limit_slot_def async_acquire_host_request_permit_def async_acquire_host_def
  async_begin_adaptive_attempt_def async_send_attempt_def apply_http_proxy_auth_header_def
  should_apply_http_proxy_auth_header_def connect_route_of_def should_bypass_proxy_uri_def send_transport_request_def
  async_transport_failed_def transport_request_into_error_def es_transport_timeout_error_def
  async_continue_after_def async_sleep_def async_handle_response_def async_read_and_finish_def
  async_read_decoded_response_body_with_retry_def async_read_response_body_with_retry_def read_all_body_limited_def
  ready_def drop_pending_def

lemma example_schemes [simp]:
  "\<not> eq_ignore_ascii_case ''http'' ''https''" "eq_ignore_ascii_case ''http'' ''http''"
  by (simp_all add: eq_ignore_ascii_case_def to_ascii_lowercase_def ascii_defs)

lemmas async_example_retry_defs = transport_timeout_error_def total_timeout_expired_def timeout_retry_decision_def
  is_deadline_exceeded_def default_retryable_timeout_phases_def

lemmas async_example_run_defs = async_example_defs async_example_client_simps example_client_simps example_input_def
  example_options_def example_world_defs example_start_defs example_loop_defs example_retry_defs
  async_example_retry_defs triple_uris_def max_values collected_def

lemma async_example_run:
  "\<exists>w'. async_send_request (async_example 1000) method_GET ''/a'' [] None no_overrides example_world =
       Some (Ready (Ok \<lparr> rs_status = 200, rs_headers = [], rs_body = ''ok'' \<rparr>), w') \<and>
     map (tr_headers \<circ> snd) (sent w') = replicate 2 [(''proxy-authorization'', ''s3cret'', True)]"
  by (simp add: async_example_run_defs numeral_2_eq_2)

lemma async_example_dropped:
  "\<exists>w'. async_send_request (async_example 13) method_GET ''/a'' [] None no_overrides example_world =
       Some (Dropped, w') \<and> length (sent w') = 1 \<and> size (acquired w') = 2"
  by (simp add: async_example_run_defs)

lemmas async_example_stream_defs = async_send_request_stream_def async_return_stream_def into_stream_lifecycle_def
  guards_take_def guards_is_empty_def async_stream_response_def stream_pending_def pending_into_stream_def
  pending_request_drop_def in_flight_guard_drop_def live_lifecycle_of_def async_attach_completion_def
  sb_attach_completion_def async_stream_resources_def sb_resources_def lifecycle_resources_def guard_resources_def

lemma async_example_stream_run:
  "\<exists>s w'. async_send_request_stream (async_example 1000) method_GET ''/a'' [] None no_overrides example_world =
       Some (Ready (Ok s), w') \<and> size (async_stream_resources s) = 2"
  by (simp add: async_example_run_defs async_example_stream_defs)

lemma async_example_preparation' [simp]:
  "request_preparation async_example_client (ci_buffered_auto_accept_encoding async_example_client) method_GET ''/a''
     [] None no_overrides = Ok example_input"
  by (simp add: async_example_client_simps example_client_simps)

lemma async_example_options [simp]: "options_valid (ci_request_defaults async_example_client)"
  using example_options_ok(1) by (simp add: async_example_client_simps)

lemma async_example_time [simp]: "time_passes async_example_client"
  by (simp add: time_passes_def async_example_client_simps example_client_simps)

definition async_example_stream :: "(alist_header_map, unit) async_response_stream" where
  "async_example_stream = \<lparr> as_status = 200, as_headers = [], as_uri_raw = ''http://h/a'',
     as_body = \<lparr> sb_inner = Some [Frame_Data ''k'', Frame_Trailers, Frame_Data ''ay''], sb_method = method_GET,
       sb_uri_redacted = ''http://h/a'', sb_timeout_ms = 1, sb_total_timeout_ms = None, sb_deadline_at = None,
       sb_deadline_slack = 0, sb_frame_timeout = None, sb_frame_timeout_deadline_limited = False,
       sb_read_buffer = ''o'', sb_lifecycle = live_lifecycle_of None, sb_global_permit = None,
       sb_host_permit = None \<rparr> \<rparr>"

subsection \<open>Properties\<close>

text \<open>
  C5: A request of the asynchronous client leaks nothing, also when it is cancelled. Whether its future
  completes or is dropped at any point where it waits (for a permit, for the rate limiter, in the sleep before a
  retry, in the transport or in the read of the body), every permit of the global and of the per-host limit,
  every permit of the adaptive controller and every attempt of the circuit breaker that it has acquired is
  released exactly once; a future that is dropped has reported no error.
\<close>

theorem async_request_cancel_safe:
  assumes "async_send_request A meth path headers body overrides w = Some (fr, w')"
  shows "acquired w' + released w = acquired w + released w' \<and> (fr = Dropped \<longrightarrow> errors w' = errors w)"
  using assms
proof (cases rule: async_send_request_cases)
  case (unprepared e)
  then show ?thesis by simp
next
  case (waiting input started w1)
  then show ?thesis by (auto simp: starts_request_def takes_def settles_def)
next
  case (ran input started gp w1 q w2 w3)
  note loop = async_loop_accounts [OF ran(3)] and same = async_ran_outcome [OF ran(3,4)]
  have start: "acquired w1 = acquired w + global_resources gp" "released w1 = released w" "errors w1 = errors w"
    using ran(2) by (auto simp: starts_request_def takes_def)
  have fin: "acquired w' = acquired w3" "released w' = released w3 + global_resources gp" "errors w' = errors w3"
    using ran(5) by (auto simp: settles_def)
  have "errors w' = errors w" if "fr = Dropped" using that loop(2) same start(3) fin(3) by simp
  then show ?thesis using loop(1) same(1,2) unfolding start fin by (simp add: ac_simps)
qed

theorem async_request_cancel_safe_witness:
  "\<exists>w'. async_send_request (async_example 13) method_GET ''/a'' [] None no_overrides example_world = Some (Dropped, w') \<and>
     size (acquired w') = 2 \<and> acquired w' = released w' \<and> errors w' = []"
proof -
  obtain w' where run: "async_send_request (async_example 13) method_GET ''/a'' [] None no_overrides example_world =
      Some (Dropped, w')" and n: "size (acquired w') = 2"
    using async_example_dropped by blast
  then show ?thesis using async_request_cancel_safe [OF run] by (auto simp: example_log)
qed

text \<open>
  C6: What an asynchronous stream owns is released once, also when its reader is cancelled. A request for a
  stream that fails or is dropped has given everything back; one that succeeds hands what it still holds over
  to the stream. Whichever way the stream is then used up (dropped, read through \<open>AsyncRead\<close> for a while and
  dropped, collected as bytes or as a response, or copied to a writer, with or without a limit, to the end, to an
  error, or dropped half-way), all of it is released, exactly once.
\<close>

theorem async_stream_balanced:
  assumes "async_send_request_stream A meth path headers body overrides w = Some (fr, w1)"
  shows "(case fr of
      Ready (Ok s) \<Rightarrow> \<forall>w2. w2 \<in> {async_stream_drop (ak_client A) s w1,
          case poll_reads A rooms (as_body s) w1 of (b, w) \<Rightarrow> sb_drop (ak_client A) b w} \<or>
          Some w2 \<in> {map_option snd (async_into_bytes_limited A max_bytes s w1),
            map_option snd (async_into_response_limited A max_bytes s w1),
            map_option (snd \<circ> snd) (async_copy_to_writer A wr s w1),
            map_option (snd \<circ> snd) (async_copy_to_writer_limited A max_bytes wr s w1)} \<longrightarrow>
          acquired w2 + released w = acquired w + released w2
    | _ \<Rightarrow> acquired w1 + released w = acquired w + released w1)"
proof -
  note owned = async_stream_request_accounts [OF assms]
  show ?thesis
  proof (cases "\<exists>s. fr = Ready (Ok s)")
    case False
    then show ?thesis using owned by (auto split: future_end.splits result.splits)
  next
    case True
    then obtain s where fr: "fr = Ready (Ok s)" by blast
    have ok: "async_stream_ok (ak_client A) s"
      and bal: "acquired w1 + released w = acquired w + released w1 + async_stream_resources s"
      using owned by (simp_all add: fr)
    have immediate: "acquired w2 + released w = acquired w + released w2"
      if "w2 \<in> {async_stream_drop (ak_client A) s w1,
          case poll_reads A rooms (as_body s) w1 of (b, w) \<Rightarrow> sb_drop (ak_client A) b w}" for w2
      using that async_dropped.finish_balances [OF ok bal] async_read.finish_balances [OF ok bal] by blast
    have awaited: "acquired w2 + released w = acquired w + released w2"
      if "Some w2 \<in> {map_option snd (async_into_bytes_limited A max_bytes s w1),
            map_option snd (async_into_response_limited A max_bytes s w1),
            map_option (snd \<circ> snd) (async_copy_to_writer A wr s w1),
            map_option (snd \<circ> snd) (async_copy_to_writer_limited A max_bytes wr s w1)}" for w2
      using that async_collected.await_balances [OF ok _ bal] async_collected_response.await_balances [OF ok _ bal]
        async_copied.await_balances [OF ok _ bal] async_copied_limited.await_balances [OF ok _ bal]
      by (elim insertE emptyE) (drule sym, blast)+
    show ?thesis using immediate awaited unfolding fr by simp
  qed
qed

theorem async_stream_balanced_witness:
  "\<exists>s w1 r w2. async_send_request_stream (async_example 1000) method_GET ''/a'' [] None no_overrides example_world =
       Some (Ready (Ok s), w1) \<and> size (async_stream_resources s) = 2 \<and>
     async_into_bytes_limited (async_example 1000) 5 s w1 = Some (r, w2) \<and> acquired w2 = released w2"
proof -
  obtain s w1 where run: "async_send_request_stream (async_example 1000) method_GET ''/a'' [] None no_overrides
      example_world = Some (Ready (Ok s), w1)" and n: "size (async_stream_resources s) = 2"
    using async_example_stream_run by blast
  obtain r w2 where "async_into_bytes_limited (async_example 1000) 5 s w1 = Some (r, w2)"
    using async_consumers_return(1) [of "async_example 1000" 5 s w1] by auto
  with run n show ?thesis
    using async_stream_balanced [OF run, of "[]" 5 "\<lparr> wr_calls = [], wr_written = [] \<rparr>"] by (auto simp: example_log)
qed

text \<open>
  C7: The loop of the asynchronous client refines the abstract execution of a request, as the one of the
  blocking client does, whether its future completes or is dropped. The \<open>k\<close>-th request that goes out belongs to a
  state that the abstract execution reaches with \<open>k\<close> retries and redirects, and carries that state's method,
  target, body and time-out; at most \<open>max_attempts + max_redirects\<close> requests go out, and a streaming body at most
  once.
\<close>

theorem async_loop_refines_execution:
  assumes "async_send_request A meth path headers body overrides w = Some (fr, w')"
    and "request_preparation (ak_client A) (ci_buffered_auto_accept_encoding (ak_client A)) meth path headers body
      overrides = Ok input"
    and "options_valid (ci_request_defaults (ak_client A))"
    and "redirect_max_redirects (op_redirect_policy (ri_execution_options input)) \<le> usize_max"
  shows "\<exists>qs started. sent w' = sent w @ qs \<and> async_refines_execution (ak_client A) input started 0 qs \<and>
    length qs \<le> rp_max_attempts (op_retry_policy (ri_execution_options input)) +
      redirect_max_redirects (op_redirect_policy (ri_execution_options input)) \<and>
    streamed qs \<le> 1"
proof -
  note limits = prepared_limits [OF assms(2-4)]
  obtain qs started where "sent w' = sent w @ qs" "async_refines_execution (ak_client A) input started 0 qs"
      "streamed qs \<le> 1"
    using async_send_request_sends [OF assms(1,2) limits] by blast
  then show ?thesis using async_requests.refines_bound [OF _ limits] by blast
qed

theorem async_loop_refines_execution_witness:
  "\<exists>fr w' started. async_send_request (async_example 1000) method_GET ''/a'' [] None no_overrides example_world =
       Some (fr, w') \<and> length (sent w') = 2 \<and> length (sent w') \<le> 3 \<and>
     async_refines_execution async_example_client example_input started 0 (sent w')"
proof -
  obtain fr w' where run: "async_send_request (async_example 1000) method_GET ''/a'' [] None no_overrides example_world =
      Some (fr, w')" and n: "length (sent w') = 2"
    using async_example_run by (force dest: arg_cong [of _ _ length])
  have "\<exists>qs started. sent w' = sent example_world @ qs \<and>
      async_refines_execution async_example_client example_input started 0 qs"
    using async_loop_refines_execution [OF run, of example_input] by auto
  then show ?thesis using run n by auto
qed

text \<open>
  C8: The credentials of the proxy go to the proxy only. A request that goes out with a
  \<open>proxy-authorization\<close> header has exactly the credentials that the proxy is configured with, whatever headers
  the caller, the interceptors or a redirect have set, and it is a request that the http proxy receives itself:
  never one that reaches its target directly, and never one that goes through a tunnel.
\<close>

theorem async_proxy_credentials:
  assumes "async_send_request A meth path headers body overrides w = Some (fr, w')"
    and "request_preparation (ak_client A) (ci_buffered_auto_accept_encoding (ak_client A)) meth path headers body
      overrides = Ok input"
    and "options_valid (ci_request_defaults (ak_client A))"
    and "redirect_max_redirects (op_redirect_policy (ri_execution_options input)) \<le> usize_max"
    and "header_map_laws (li_headers (ak_client A))"
  shows "\<exists>qs. sent w' = sent w @ qs \<and> (\<forall>(_, q) \<in> set qs.
    hm_get_all (li_headers (ak_client A)) (tr_headers q) ''proxy-authorization'' \<noteq> [] \<longrightarrow>
      (\<exists>uri pc authorization. tr_uri q = uri_to_string (li_uris (ak_client A)) uri \<and> tr_proxied q \<and>
         connect_route_of (ak_client A) uri = Route_Proxy \<and> ci_proxy_config (ak_client A) = Some pc \<and>
         pc_authorization pc = Some authorization \<and>
         hm_get_all (li_headers (ak_client A)) (tr_headers q) ''proxy-authorization'' = [authorization]))"
proof -
  note limits = prepared_limits [OF assms(2-4)]
  obtain qs started where qs: "sent w' = sent w @ qs" "async_refines_execution (ak_client A) input started 0 qs"
    using async_send_request_sends [OF assms(1,2) limits] by blast
  have "\<exists>uri pc authorization. tr_uri q = uri_to_string (li_uris (ak_client A)) uri \<and> tr_proxied q \<and>
         connect_route_of (ak_client A) uri = Route_Proxy \<and> ci_proxy_config (ak_client A) = Some pc \<and>
         pc_authorization pc = Some authorization \<and>
         hm_get_all (li_headers (ak_client A)) (tr_headers q) ''proxy-authorization'' = [authorization]"
    if q: "(t, q) \<in> set qs" and set: "hm_get_all (li_headers (ak_client A)) (tr_headers q) ''proxy-authorization'' \<noteq> []"
    for t q
  proof -
    obtain st b where "async_request_from (ak_client A) st b (t, q)"
      using async_requests.refines_each(1) [OF qs(2) limits q] by blast
    then obtain hs where uri: "tr_uri q = uri_to_string (li_uris (ak_client A)) (es_current_uri st)"
        "tr_proxied q = (connect_route_of (ak_client A) (es_current_uri st) \<noteq> Route_Direct)"
      and hs: "tr_headers q = apply_http_proxy_auth_header (ak_client A) (es_current_uri st)
          (hm_remove (li_headers (ak_client A)) ''proxy-authorization'' hs)"
      by (auto simp: async_request_from_def)
    from proxy_auth_header_cases [OF assms(5) set [unfolded hs]] show ?thesis unfolding hs [symmetric] using uri by auto
  qed
  then show ?thesis using qs(1) by blast
qed

theorem async_proxy_credentials_witness:
  "\<exists>fr w'. async_send_request (async_example 1000) method_GET ''/a'' [] None no_overrides example_world = Some (fr, w') \<and>
     length (sent w') = 2 \<and> (\<forall>(_, q) \<in> set (sent w').
       tr_proxied q \<and> alist_get_all (tr_headers q) ''proxy-authorization'' = [(''s3cret'', True)])"
proof -
  obtain fr w' where run: "async_send_request (async_example 1000) method_GET ''/a'' [] None no_overrides example_world =
      Some (fr, w')" and hs: "map (tr_headers \<circ> snd) (sent w') = replicate 2 [(''proxy-authorization'', ''s3cret'', True)]"
    using async_example_run by blast
  from arg_cong [OF hs, of length] have n: "length (sent w') = 2" by simp
  have set: "alist_get_all (tr_headers q) ''proxy-authorization'' \<noteq> []" if "(t, q) \<in> set (sent w')" for t q
  proof -
    have "(tr_headers \<circ> snd) (t, q) \<in> set (map (tr_headers \<circ> snd) (sent w'))"
      using imageI [OF that, of "tr_headers \<circ> snd"] by (simp only: set_map)
    then show ?thesis unfolding hs by (simp add: alist_get_all_def)
  qed
  have laws: "header_map_laws (li_headers async_example_client)" "hm_get_all (li_headers async_example_client) = alist_get_all"
    by (simp_all add: async_example_client_simps example_client_simps) (simp add: alist_headers_def)
  have "\<exists>qs. sent w' = sent example_world @ qs \<and> (\<forall>(_, q) \<in> set qs.
      alist_get_all (tr_headers q) ''proxy-authorization'' \<noteq> [] \<longrightarrow>
        (\<exists>uri pc authorization. tr_uri q = uri_to_string (li_uris async_example_client) uri \<and> tr_proxied q \<and>
           connect_route_of async_example_client uri = Route_Proxy \<and> ci_proxy_config async_example_client = Some pc \<and>
           pc_authorization pc = Some authorization \<and>
           alist_get_all (tr_headers q) ''proxy-authorization'' = [authorization]))"
    using async_proxy_credentials [OF run, of example_input] laws by simp
  then show ?thesis using run n set by (fastforce simp: async_example_client_simps)
qed

text \<open>
  C9: A request of the asynchronous client with a total timeout ends: whatever the other tasks do with the permits,
  the rate limiter and the breaker, whatever the runtime does with the turns of the semaphores, and whatever the
  server answers, its future completes or is dropped, provided that the clock advances and that the deadline can be
  represented.
\<close>

theorem async_request_terminates:
  assumes "time_passes (ak_client A)"
    and "request_preparation (ak_client A) (ci_buffered_auto_accept_encoding (ak_client A)) meth path headers body
      overrides = Ok input"
    and "options_valid (ci_request_defaults (ak_client A))"
    and "redirect_max_redirects (op_redirect_policy (ri_execution_options input)) \<le> usize_max"
    and "has_deadline (op_total_timeout (ri_execution_options input)) (fst (instant_now (ak_client A) w))"
  shows "\<exists>fr w'. async_send_request A meth path headers body overrides w = Some (fr, w')"
  by (rule async_send_request_returns [OF assms(1) prepared_limits [OF assms(2-4)] assms(2,5)])

theorem async_request_terminates_witness:
  "\<exists>fr w'. async_send_request (async_example 1000) method_GET ''/a'' [] None no_overrides example_world = Some (fr, w')"
proof (rule async_request_terminates [where input = example_input])
  show "has_deadline (op_total_timeout (ri_execution_options example_input))
      (fst (instant_now (ak_client (async_example 1000)) example_world))"
    by (simp add: has_deadline_def total_timeout_deadline_def checked_add_def example_input_def example_options_def
        example_world_def instant_now_def async_example_client_simps example_client_simps instant_max_def)
qed simp_all

text \<open>
  C10: An asynchronous stream is delivered exactly, or its reader gets an error in bounded time. Collecting a stream
  always ends, even when the peer never sends another frame. The bytes that are returned are what is left of the
  last chunk and then all the data of the frames, in order and within the limit: a body that is too long, or whose
  transport fails half-way, is never returned truncated. When the frames have arrived and there is no deadline,
  every body within the limit is returned.
\<close>

theorem async_stream_collected_exactly:
  assumes "time_passes (ak_client A)" "max_bytes < usize_max"
  shows "\<exists>fr w'. async_into_bytes_limited A max_bytes s w = Some (fr, w') \<and>
    (\<forall>bytes. fr = Ready (Ok bytes) \<longrightarrow> (\<exists>content. sb_content (as_body s) = Some content \<and>
       bytes = sb_read_buffer (as_body s) @ content \<and> length bytes \<le> max_bytes)) \<and>
    (\<forall>content. prompt A (as_body s) \<and> sb_content (as_body s) = Some content \<and>
       length (sb_read_buffer (as_body s) @ content) \<le> max_bytes \<longrightarrow>
       fr = Ready (Ok (sb_read_buffer (as_body s) @ content)))"
proof -
  obtain fr w' where run: "async_into_bytes_limited A max_bytes s w = Some (fr, w')"
    using async_consumers_return(1) [OF assms(1)] by blast
  obtain p b w1 where rd: "read_raw_bytes_limited A max_bytes (as_body s) w = Some (p, b, w1)"
    using run unfolding async_into_bytes_limited_def Let_def
    by (cases "read_raw_bytes_limited A max_bytes (as_body s) w") auto
  have fr: "fr = p"
    using run rd by (auto simp: async_into_bytes_limited_def Let_def split: future_end.splits result.splits)
  note exact = read_raw_bytes_limited_ends(3) [OF rd]
  have "\<exists>content. sb_content (as_body s) = Some content \<and> bytes = sb_read_buffer (as_body s) @ content \<and>
      length bytes \<le> max_bytes" if "fr = Ready (Ok bytes)" for bytes
    using exact [of bytes] that fr assms(2) by auto
  moreover have "fr = Ready (Ok (sb_read_buffer (as_body s) @ content))"
    if "prompt A (as_body s)" "sb_content (as_body s) = Some content"
      "length (sb_read_buffer (as_body s) @ content) \<le> max_bytes" for content
    using read_raw_bytes_limited_prompt [OF that(1,2) assms(1) that(3) assms(2), of w] rd fr by auto
  ultimately show ?thesis using run by blast
qed

theorem async_stream_collected_exactly_witness:
  "\<exists>w' fr w''. async_into_bytes_limited (async_example 1000) 5 async_example_stream example_world =
       Some (Ready (Ok ''okay''), w') \<and>
     async_into_bytes_limited (async_example 1000) 3 async_example_stream example_world = Some (fr, w'') \<and>
     fr \<noteq> Ready (Ok ''oka'')"
proof -
  have content: "sb_content (as_body async_example_stream) = Some ''kay''"
      "sb_read_buffer (as_body async_example_stream) = ''o''" "prompt (async_example 1000) (as_body async_example_stream)"
    by (simp_all add: async_example_stream_def sb_content_def prompt_def)
  show ?thesis
    using async_stream_collected_exactly [of "async_example 1000" 5 async_example_stream example_world]
      async_stream_collected_exactly [of "async_example 1000" 3 async_example_stream example_world] content
    by (auto simp: max_values)
qed

end
