(* ===== verification/Reqx_Upload.thy ===== *)
theory Reqx_Upload
  imports Reqx_Transport
begin

text \<open>
  Resumable uploads (\<open>src/src/upload/mod.rs\<close>, \<open>src/src/upload/session.rs\<close>, \<open>src/src/upload/blocking.rs\<close>).
  A source is cut into parts of a fixed size, each part is uploaded with retries, and a checkpoint
  records the parts that the backend has confirmed, so that an upload that failed can be resumed.

  The storage backend is a parameter: its four operations work on a state of its own. The digests of
  the crates \<open>md5\<close> and \<open>sha2\<close> and the random generator of the back-off are parameters, too. The calls
  of the backend and the sleeps are logged in the order in which they happen. The options are an
  argument of the session's operations instead of a field of it.
\<close>

subsection \<open>Checksums\<close>

datatype part_checksum_algorithm = Md5 | Sha256

definition checksum_as_str :: "part_checksum_algorithm \<Rightarrow> string" where
  "checksum_as_str a = (case a of Md5 \<Rightarrow> ''md5'' | Sha256 \<Rightarrow> ''sha256'')"

record digests =
  dg_md5_hex :: "string \<Rightarrow> string"
  dg_sha256 :: "string \<Rightarrow> string"

definition hex_digits :: string where
  "hex_digits = ''0123456789abcdef''"

primrec encode_hex_lower :: "string \<Rightarrow> string" where
  "encode_hex_lower [] = []"
| "encode_hex_lower (b # bytes) =
     hex_digits ! (byte_of b div 16) # hex_digits ! (byte_of b mod 16) # encode_hex_lower bytes"

definition compute_hex :: "digests \<Rightarrow> part_checksum_algorithm \<Rightarrow> string \<Rightarrow> string" where
  "compute_hex D a data =
     (case a of Md5 \<Rightarrow> dg_md5_hex D data | Sha256 \<Rightarrow> encode_hex_lower (dg_sha256 D data))"

definition trim_matches :: "char \<Rightarrow> string \<Rightarrow> string" where
  "trim_matches c text = trim_end_matches (\<lambda>x. x = c) (trim_start_matches (\<lambda>x. x = c) text)"

definition normalize_token :: "string \<Rightarrow> string" where
  "normalize_token text =
     to_ascii_lowercase (trim_matches (CHR 0x27) (trim_matches (CHR 0x22) (trim text)))"

subsection \<open>Parts, checkpoints and options\<close>

record uploaded_part =
  pt_part_number :: nat
  pt_etag :: string
  pt_size :: nat
  pt_checksum :: "string option"

definition resumable_upload_checkpoint_version :: nat where
  "resumable_upload_checkpoint_version = 2"

definition max_resumable_upload_part_number :: nat where
  "max_resumable_upload_part_number = u32_max"

record resumable_upload_checkpoint =
  cp_version :: nat
  cp_upload_id :: string
  cp_part_size :: nat
  cp_checksum_algorithm :: "part_checksum_algorithm option"
  cp_completed_parts :: "(nat, uploaded_part) btree"

definition checkpoint_new :: "string \<Rightarrow> nat \<Rightarrow> resumable_upload_checkpoint" where
  "checkpoint_new upload_id part_size =
     \<lparr> cp_version = resumable_upload_checkpoint_version, cp_upload_id = upload_id,
       cp_part_size = part_size, cp_checksum_algorithm = None, cp_completed_parts = [] \<rparr>"

record resumable_upload_result =
  ur_upload_id :: string
  ur_total_bytes :: nat
  ur_total_parts :: nat
  ur_resumed :: bool
  ur_completed_parts :: "uploaded_part list"

record resumable_upload_options =
  uo_part_size :: nat
  uo_max_attempts :: nat
  uo_base_backoff :: duration
  uo_max_backoff :: duration
  uo_jitter_ratio :: f64
  uo_abort_on_error :: bool
  uo_part_checksum_algorithm :: "part_checksum_algorithm option"
  uo_verify_remote_etag :: bool

definition upload_options_default :: resumable_upload_options where
  "upload_options_default =
     \<lparr> uo_part_size = 8 * 1024 * 1024, uo_max_attempts = 3, uo_base_backoff = from_millis 200,
       uo_max_backoff = from_secs 2, uo_jitter_ratio = fl (2 / 10), uo_abort_on_error = False,
       uo_part_checksum_algorithm = None, uo_verify_remote_etag = False \<rparr>"

datatype 'e resumable_upload_error =
    Upload_InvalidOptions nat nat nat nat f64 string
  | Upload_CreateFailed 'e
  | Upload_CheckpointPartSizeMismatch nat nat
  | Upload_CheckpointChecksumAlgorithmMismatch string string
  | Upload_UnsupportedCheckpointVersion nat nat
  | Upload_InvalidCheckpointPartNumber nat nat
  | Upload_EmptyUploadId
  | Upload_SourceRead io_error resumable_upload_checkpoint
  | Upload_PartUploadFailed nat nat resumable_upload_checkpoint 'e
  | Upload_PartNumberMismatch nat nat resumable_upload_checkpoint
  | Upload_PartSizeMismatch nat nat nat resumable_upload_checkpoint
  | Upload_PartChecksumMismatch nat string string resumable_upload_checkpoint
  | Upload_PartEtagMismatch nat string string resumable_upload_checkpoint
  | Upload_CompleteFailed resumable_upload_checkpoint 'e
  | Upload_AbortFailed string "'e resumable_upload_error" 'e
  | Upload_EmptyUploadBody resumable_upload_checkpoint
  | Upload_MissingCompletedPart nat resumable_upload_checkpoint
  | Upload_TooManyUploadParts nat nat resumable_upload_checkpoint

fun error_checkpoint :: "'e resumable_upload_error \<Rightarrow> resumable_upload_checkpoint option" where
  "error_checkpoint (Upload_SourceRead _ cp) = Some cp"
| "error_checkpoint (Upload_PartUploadFailed _ _ cp _) = Some cp"
| "error_checkpoint (Upload_PartNumberMismatch _ _ cp) = Some cp"
| "error_checkpoint (Upload_PartSizeMismatch _ _ _ cp) = Some cp"
| "error_checkpoint (Upload_PartChecksumMismatch _ _ _ cp) = Some cp"
| "error_checkpoint (Upload_PartEtagMismatch _ _ _ cp) = Some cp"
| "error_checkpoint (Upload_CompleteFailed cp _) = Some cp"
| "error_checkpoint (Upload_EmptyUploadBody cp) = Some cp"
| "error_checkpoint (Upload_MissingCompletedPart _ cp) = Some cp"
| "error_checkpoint (Upload_TooManyUploadParts _ _ cp) = Some cp"
| "error_checkpoint (Upload_AbortFailed _ original _) = error_checkpoint original"
| "error_checkpoint _ = None"

definition upload_backoff_for_retry ::
    "(nat \<Rightarrow> nat \<Rightarrow> nat) \<Rightarrow> resumable_upload_options \<Rightarrow> nat \<Rightarrow> duration" where
  "upload_backoff_for_retry sample opts retry_index =
     exponential_backoff_with_jitter sample retry_index (uo_base_backoff opts) (uo_max_backoff opts)
       (uo_jitter_ratio opts)"

definition upload_invalid_options ::
    "resumable_upload_options \<Rightarrow> string \<Rightarrow> 'e resumable_upload_error" where
  "upload_invalid_options opts message =
     Upload_InvalidOptions (uo_part_size opts) (uo_max_attempts opts)
       (duration_millis_ceil (uo_base_backoff opts)) (duration_millis_ceil (uo_max_backoff opts))
       (uo_jitter_ratio opts) message"

definition upload_options_validate ::
    "resumable_upload_options \<Rightarrow> 'e resumable_upload_error unit_result" where
  "upload_options_validate opts =
     (if uo_part_size opts = 0
      then Err (upload_invalid_options opts ''part_size must be greater than zero'')
      else if uo_part_size opts > isize_max
      then Err (upload_invalid_options opts ''part_size must not exceed isize::MAX'')
      else if uo_max_attempts opts = 0
      then Err (upload_invalid_options opts ''max_attempts must be greater than zero'')
      else if uo_base_backoff opts = 0
      then Err (upload_invalid_options opts ''base_backoff must be greater than zero'')
      else if uo_max_backoff opts = 0
      then Err (upload_invalid_options opts ''max_backoff must be greater than zero'')
      else if uo_max_backoff opts < uo_base_backoff opts
      then Err (upload_invalid_options opts ''max_backoff must be greater than or equal to base_backoff'')
      else if \<not> is_finite (uo_jitter_ratio opts) \<or>
              \<not> (f64_le (Fin 0) (uo_jitter_ratio opts) \<and> f64_le (uo_jitter_ratio opts) (Fin 1))
      then Err (upload_invalid_options opts ''jitter_ratio must be finite and between 0.0 and 1.0'')
      else if uo_verify_remote_etag opts \<and> uo_part_checksum_algorithm opts = None
      then Err (upload_invalid_options opts ''verify_remote_etag requires part_checksum_algorithm'')
      else Ok ())"

definition expected_checksum_of :: "digests \<Rightarrow> resumable_upload_options \<Rightarrow> string \<Rightarrow> string option" where
  "expected_checksum_of D opts chunk =
     map_option (\<lambda>a. compute_hex D a chunk) (uo_part_checksum_algorithm opts)"

definition validate_part_checksum ::
    "resumable_upload_checkpoint \<Rightarrow> nat \<Rightarrow> string option \<Rightarrow> string \<Rightarrow> 'e resumable_upload_error unit_result" where
  "validate_part_checksum checkpoint part_number actual expected =
     (case actual of
        None \<Rightarrow> Ok ()
      | Some actual_checksum \<Rightarrow>
          if normalize_token actual_checksum \<noteq> normalize_token expected
          then Err (Upload_PartChecksumMismatch part_number (normalize_token expected)
                 (normalize_token actual_checksum) checkpoint)
          else Ok ())"

definition validate_part_etag ::
    "resumable_upload_options \<Rightarrow> resumable_upload_checkpoint \<Rightarrow> nat \<Rightarrow> string \<Rightarrow> string \<Rightarrow>
     'e resumable_upload_error unit_result" where
  "validate_part_etag opts checkpoint part_number etag expected =
     (if uo_verify_remote_etag opts \<and> normalize_token etag \<noteq> normalize_token expected
      then Err (Upload_PartEtagMismatch part_number (normalize_token expected) (normalize_token etag) checkpoint)
      else Ok ())"

definition validate_uploaded_part ::
    "resumable_upload_options \<Rightarrow> resumable_upload_checkpoint \<Rightarrow> nat \<Rightarrow> uploaded_part \<Rightarrow> string option \<Rightarrow>
     'e resumable_upload_error unit_result" where
  "validate_uploaded_part opts checkpoint part_number uploaded expected =
     (case expected of
        None \<Rightarrow> Ok ()
      | Some expected_checksum \<Rightarrow>
          result_bind (validate_part_checksum checkpoint part_number (pt_checksum uploaded) expected_checksum)
            (\<lambda>_. validate_part_etag opts checkpoint part_number (pt_etag uploaded) expected_checksum))"

subsection \<open>Sessions\<close>

fun validate_part_numbers :: "(nat, uploaded_part) btree \<Rightarrow> 'e resumable_upload_error unit_result" where
  "validate_part_numbers [] = Ok ()"
| "validate_part_numbers ((key, part) # parts) =
     (if key = 0 \<or> pt_part_number part \<noteq> key
      then Err (Upload_InvalidCheckpointPartNumber key (pt_part_number part))
      else validate_part_numbers parts)"

definition algorithm_name :: "part_checksum_algorithm option \<Rightarrow> string" where
  "algorithm_name a = unwrap_or ''none'' (map_option checksum_as_str a)"

definition validate_checkpoint ::
    "resumable_upload_options \<Rightarrow> resumable_upload_checkpoint \<Rightarrow> 'e resumable_upload_error unit_result" where
  "validate_checkpoint opts checkpoint =
     (if cp_version checkpoint \<noteq> resumable_upload_checkpoint_version
      then Err (Upload_UnsupportedCheckpointVersion (cp_version checkpoint) resumable_upload_checkpoint_version)
      else if cp_part_size checkpoint \<noteq> uo_part_size opts
      then Err (Upload_CheckpointPartSizeMismatch (cp_part_size checkpoint) (uo_part_size opts))
      else if trim (cp_upload_id checkpoint) = [] then Err Upload_EmptyUploadId
      else if cp_checksum_algorithm checkpoint \<noteq> uo_part_checksum_algorithm opts
      then Err (Upload_CheckpointChecksumAlgorithmMismatch (algorithm_name (cp_checksum_algorithm checkpoint))
             (algorithm_name (uo_part_checksum_algorithm opts)))
      else validate_part_numbers (cp_completed_parts checkpoint))"

definition checkpoint_part_matches :: "uploaded_part \<Rightarrow> nat \<Rightarrow> string option \<Rightarrow> bool \<Rightarrow> bool" where
  "checkpoint_part_matches existing expected_size expected verify_remote_etag =
     (pt_size existing = expected_size \<and>
      (case expected of
         None \<Rightarrow> True
       | Some expected_checksum \<Rightarrow>
           (case pt_checksum existing of
              None \<Rightarrow> False
            | Some existing_checksum \<Rightarrow>
                normalize_token existing_checksum = normalize_token expected_checksum \<and>
                (\<not> verify_remote_etag \<or>
                 normalize_token (pt_etag existing) = normalize_token expected_checksum))))"

text \<open>\<open>range(n..).next()\<close> of a map is its first entry with a key from \<open>n\<close> on.\<close>

definition checkpoint_has_remaining_parts :: "resumable_upload_checkpoint \<Rightarrow> nat \<Rightarrow> nat option" where
  "checkpoint_has_remaining_parts checkpoint next_part_number =
     (if next_part_number > u32_max then None
      else map_option fst (find (\<lambda>(key, part). next_part_number \<le> key) (cp_completed_parts checkpoint)))"

text \<open>
  \<open>reader.take(n).read_to_end(buffer)\<close> of the standard library: it retries interrupted reads and stops
  after \<open>n\<close> bytes, at the first read of zero bytes or at an error. A chunk is what the reader has
  available; a read takes no more than the limit allows, and leaves the rest.
\<close>

fun take_read_to_end :: "nat \<Rightarrow> string \<Rightarrow> 'x reader \<Rightarrow> (string, 'x) result \<times> 'x reader" where
  "take_read_to_end limit buffer [] = (Ok buffer, [])"
| "take_read_to_end limit buffer (ReadChunk bytes # rest) =
     (if limit = 0 then (Ok buffer, ReadChunk bytes # rest)
      else if bytes = [] then (Ok buffer, rest)
      else if length bytes \<le> limit then take_read_to_end (limit - length bytes) (buffer @ bytes) rest
      else (Ok (buffer @ take limit bytes), ReadChunk (drop limit bytes) # rest))"
| "take_read_to_end limit buffer (ReadInterrupted # rest) =
     (if limit = 0 then (Ok buffer, ReadInterrupted # rest) else take_read_to_end limit buffer rest)"
| "take_read_to_end limit buffer (ReadFailed e # rest) =
     (if limit = 0 then (Ok buffer, ReadFailed e # rest) else (Err e, rest))"

definition upload_read_chunk :: "nat \<Rightarrow> 'x reader \<Rightarrow> (string, 'x) result \<times> 'x reader" where
  "upload_read_chunk part_size r = take_read_to_end part_size [] r"

record upload_part_plan =
  pl_part_number :: nat
  pl_chunk :: string
  pl_expected_checksum :: "string option"

datatype upload_chunk_action = Action_Finish | Action_Skip | Action_Upload upload_part_plan

record upload_session =
  us_checkpoint :: resumable_upload_checkpoint
  us_resumed :: bool
  us_total_bytes :: nat
  us_part_number :: nat

definition session_new ::
    "resumable_upload_options \<Rightarrow> resumable_upload_checkpoint \<Rightarrow> bool \<Rightarrow>
     (upload_session, 'e resumable_upload_error) result" where
  "session_new opts checkpoint resumed =
     result_bind (validate_checkpoint opts checkpoint)
       (\<lambda>_. Ok \<lparr> us_checkpoint = checkpoint, us_resumed = resumed, us_total_bytes = 0, us_part_number = 1 \<rparr>)"

definition session_upload_id :: "upload_session \<Rightarrow> string" where
  "session_upload_id s = cp_upload_id (us_checkpoint s)"

definition advance_part_number :: "upload_session \<Rightarrow> upload_session" where
  "advance_part_number s = s\<lparr> us_part_number := us_part_number s + 1 \<rparr>"

definition current_part_number :: "upload_session \<Rightarrow> (nat, 'e resumable_upload_error) result" where
  "current_part_number s =
     (if us_part_number s \<le> u32_max then Ok (us_part_number s)
      else Err (Upload_TooManyUploadParts (us_part_number s) max_resumable_upload_part_number (us_checkpoint s)))"

text \<open>The decimal digits of \<open>Display\<close>.\<close>

fun display_nat :: "nat \<Rightarrow> string" where
  "display_nat n =
     (if n < 10 then [hex_digits ! n] else display_nat (n div 10) @ [hex_digits ! (n mod 10)])"

declare display_nat.simps [simp del]

definition source_ended_error :: "nat \<Rightarrow> io_error" where
  "source_ended_error expected_part_number =
     (let message = ''source ended before checkpointed part '' @ display_nat expected_part_number
      in \<lparr> ioe_kind = Io_UnexpectedEof, ioe_display = message, ioe_inner = Some (OtherCause message None) \<rparr>)"

definition next_chunk ::
    "digests \<Rightarrow> resumable_upload_options \<Rightarrow> string \<Rightarrow> upload_session \<Rightarrow>
     (upload_chunk_action, 'e resumable_upload_error) result \<times> upload_session" where
  "next_chunk D opts chunk s =
     (if chunk = []
      then (case checkpoint_has_remaining_parts (us_checkpoint s) (us_part_number s) of
              Some expected_part_number \<Rightarrow>
                (Err (Upload_SourceRead (source_ended_error expected_part_number) (us_checkpoint s)), s)
            | None \<Rightarrow> (Ok Action_Finish, s))
      else case current_part_number s of
        Err e \<Rightarrow> (Err e, s)
      | Ok part_number \<Rightarrow>
          (let s = s\<lparr> us_total_bytes := u64_add (us_total_bytes s) (length chunk) \<rparr>;
               expected = expected_checksum_of D opts chunk;
               plan = \<lparr> pl_part_number = part_number, pl_chunk = chunk, pl_expected_checksum = expected \<rparr>
           in case bt_get (cp_completed_parts (us_checkpoint s)) part_number of
                None \<Rightarrow> (Ok (Action_Upload plan), s)
              | Some existing \<Rightarrow>
                  if checkpoint_part_matches existing (length chunk) expected (uo_verify_remote_etag opts)
                  then (Ok Action_Skip, advance_part_number s)
                  else (Ok (Action_Upload plan),
                        s\<lparr> us_checkpoint := (us_checkpoint s)\<lparr> cp_completed_parts :=
                          bt_remove part_number (cp_completed_parts (us_checkpoint s)) \<rparr> \<rparr>)))"

definition complete_part :: "upload_part_plan \<Rightarrow> uploaded_part \<Rightarrow> uploaded_part" where
  "complete_part plan uploaded =
     (if pt_checksum uploaded = None then uploaded\<lparr> pt_checksum := pl_expected_checksum plan \<rparr> else uploaded)"

definition accept_uploaded_part ::
    "resumable_upload_options \<Rightarrow> upload_part_plan \<Rightarrow> uploaded_part \<Rightarrow> upload_session \<Rightarrow>
     'e resumable_upload_error unit_result \<times> upload_session" where
  "accept_uploaded_part opts plan uploaded s =
     (if pt_part_number uploaded \<noteq> pl_part_number plan
      then (Err (Upload_PartNumberMismatch (pl_part_number plan) (pt_part_number uploaded) (us_checkpoint s)), s)
      else if pt_size uploaded \<noteq> length (pl_chunk plan)
      then (Err (Upload_PartSizeMismatch (pl_part_number plan) (length (pl_chunk plan)) (pt_size uploaded)
              (us_checkpoint s)), s)
      else case validate_uploaded_part opts (us_checkpoint s) (pl_part_number plan) uploaded
                  (pl_expected_checksum plan) of
        Err e \<Rightarrow> (Err e, s)
      | Ok _ \<Rightarrow>
          (Ok (), advance_part_number
             (s\<lparr> us_checkpoint := (us_checkpoint s)\<lparr> cp_completed_parts :=
                bt_insert (pl_part_number plan) (complete_part plan uploaded)
                  (cp_completed_parts (us_checkpoint s)) \<rparr> \<rparr>)))"

definition source_read_error :: "upload_session \<Rightarrow> io_error \<Rightarrow> 'e resumable_upload_error" where
  "source_read_error s src = Upload_SourceRead src (us_checkpoint s)"

definition part_upload_failed ::
    "upload_session \<Rightarrow> upload_part_plan \<Rightarrow> nat \<Rightarrow> 'e \<Rightarrow> 'e resumable_upload_error" where
  "part_upload_failed s plan attempts src =
     Upload_PartUploadFailed (pl_part_number plan) attempts (us_checkpoint s) src"

definition complete_upload_failed :: "upload_session \<Rightarrow> 'e \<Rightarrow> 'e resumable_upload_error" where
  "complete_upload_failed s src = Upload_CompleteFailed (us_checkpoint s) src"

definition session_total_parts :: "upload_session \<Rightarrow> nat" where
  "session_total_parts s = min (us_part_number s - 1) max_resumable_upload_part_number"

fun collect_parts ::
    "resumable_upload_checkpoint \<Rightarrow> nat list \<Rightarrow> (uploaded_part list, 'e resumable_upload_error) result" where
  "collect_parts checkpoint [] = Ok []"
| "collect_parts checkpoint (current # rest) =
     (case bt_get (cp_completed_parts checkpoint) current of
        None \<Rightarrow> Err (Upload_MissingCompletedPart current checkpoint)
      | Some part \<Rightarrow> result_bind (collect_parts checkpoint rest) (\<lambda>parts. Ok (part # parts)))"

definition ordered_parts :: "upload_session \<Rightarrow> (uploaded_part list, 'e resumable_upload_error) result" where
  "ordered_parts s = collect_parts (us_checkpoint s) [1..<Suc (session_total_parts s)]"

definition ordered_completed_parts ::
    "upload_session \<Rightarrow> (uploaded_part list, 'e resumable_upload_error) result" where
  "ordered_completed_parts s =
     (if session_total_parts s = 0 then Err (Upload_EmptyUploadBody (us_checkpoint s)) else ordered_parts s)"

definition session_finish :: "uploaded_part list \<Rightarrow> upload_session \<Rightarrow> resumable_upload_result" where
  "session_finish completed_parts s =
     \<lparr> ur_upload_id = session_upload_id s, ur_total_bytes = us_total_bytes s,
       ur_total_parts = session_total_parts s, ur_resumed = us_resumed s,
       ur_completed_parts = completed_parts \<rparr>"

subsection \<open>The blocking uploader\<close>

record ('s, 'e) upload_backend =
  ub_create_upload :: "'s \<Rightarrow> (string, 'e) result \<times> 's"
  ub_upload_part :: "string \<Rightarrow> nat \<Rightarrow> string \<Rightarrow> 's \<Rightarrow> (uploaded_part, 'e) result \<times> 's"
  ub_complete_upload :: "string \<Rightarrow> uploaded_part list \<Rightarrow> 's \<Rightarrow> 'e unit_result \<times> 's"
  ub_abort_upload :: "string \<Rightarrow> 's \<Rightarrow> 'e unit_result \<times> 's"
  ub_digests :: digests
  ub_sample :: "nat \<Rightarrow> nat \<Rightarrow> nat \<Rightarrow> nat"

datatype (dead 'e) upload_event =
    Up_Create "(string, 'e) result"
  | Up_Part string nat string "(uploaded_part, 'e) result"
  | Up_Complete string "uploaded_part list" "'e unit_result"
  | Up_Abort string "'e unit_result"
  | Up_Sleep duration

record ('s, 'e) upload_world =
  uw_backend :: 's
  uw_samples :: nat
  uw_log :: "'e upload_event list"

definition upload_did :: "'s \<Rightarrow> 'e upload_event \<Rightarrow> ('s, 'e) upload_world \<Rightarrow> ('s, 'e) upload_world" where
  "upload_did state e w = w\<lparr> uw_backend := state, uw_log := uw_log w @ [e] \<rparr>"

text \<open>\<open>UploadPartRetry::record_failure\<close>, with the attempt of the retry as an argument.\<close>

definition retry_record_failure ::
    "(nat \<Rightarrow> nat \<Rightarrow> nat) \<Rightarrow> resumable_upload_options \<Rightarrow> nat \<Rightarrow> upload_session \<Rightarrow> upload_part_plan \<Rightarrow> 'e \<Rightarrow>
     (duration, 'e resumable_upload_error) result \<times> nat" where
  "retry_record_failure sample opts attempt s plan src =
     (if attempt \<ge> uo_max_attempts opts then (Err (part_upload_failed s plan attempt src), attempt)
      else (Ok (upload_backoff_for_retry sample opts attempt), attempt + 1))"

function upload_part_loop ::
    "('s, 'e) upload_backend \<Rightarrow> resumable_upload_options \<Rightarrow> upload_session \<Rightarrow> upload_part_plan \<Rightarrow> nat \<Rightarrow>
     ('s, 'e) upload_world \<Rightarrow> (uploaded_part, 'e resumable_upload_error) result \<times> ('s, 'e) upload_world" where
  "upload_part_loop B opts s plan attempt w =
     (case ub_upload_part B (session_upload_id s) (pl_part_number plan) (pl_chunk plan) (uw_backend w) of
        (r, state) \<Rightarrow>
          (let w = upload_did state (Up_Part (session_upload_id s) (pl_part_number plan) (pl_chunk plan) r) w
           in case r of
                Ok part \<Rightarrow> (Ok part, w)
              | Err src \<Rightarrow>
                  (case retry_record_failure (ub_sample B (uw_samples w)) opts attempt s plan src of
                     (Err e, attempt) \<Rightarrow> (Err e, w)
                   | (Ok delay, attempt) \<Rightarrow>
                       (let w = w\<lparr> uw_samples := Suc (uw_samples w) \<rparr>;
                            w = (if delay \<noteq> 0 then w\<lparr> uw_log := uw_log w @ [Up_Sleep delay] \<rparr> else w)
                        in upload_part_loop B opts s plan attempt w))))"
  by pat_completeness auto
termination
  by (relation "measure (\<lambda>(B, opts, s, plan, attempt, w). uo_max_attempts opts - attempt)")
     (auto simp: retry_record_failure_def split: if_splits)

definition upload_part_with_retries_blocking ::
    "('s, 'e) upload_backend \<Rightarrow> resumable_upload_options \<Rightarrow> upload_session \<Rightarrow> upload_part_plan \<Rightarrow>
     ('s, 'e) upload_world \<Rightarrow> (uploaded_part, 'e resumable_upload_error) result \<times> ('s, 'e) upload_world" where
  "upload_part_with_retries_blocking B opts s plan w = upload_part_loop B opts s plan 1 w"

text \<open>
  The loop over the chunks ends because every chunk that it goes on from is not empty.
\<close>

primrec read_size :: "'x io_read \<Rightarrow> nat" where
  "read_size (ReadChunk bytes) = Suc (length bytes)"
| "read_size ReadInterrupted = 1"
| "read_size (ReadFailed e) = 1"

abbreviation reader_size :: "'x reader \<Rightarrow> nat" where
  "reader_size r \<equiv> sum_list (map read_size r)"

lemma take_read_to_end_shorter:
  "take_read_to_end limit buffer r = (Ok bytes, rest) \<Longrightarrow>
     reader_size rest \<le> reader_size r \<and> (bytes \<noteq> buffer \<longrightarrow> reader_size rest < reader_size r)"
proof (induction limit buffer r arbitrary: bytes rest rule: take_read_to_end.induct)
  case (2 limit buffer chunk r)
  show ?case
  proof (cases "limit = 0 \<or> chunk = [] \<or> \<not> length chunk \<le> limit")
    case True
    then show ?thesis using "2.prems" by (auto split: if_splits)
  next
    case False
    then show ?thesis using "2.IH" [of bytes rest] "2.prems" by fastforce
  qed
next
  case (3 limit buffer r)
  then show ?case by (fastforce split: if_splits)
qed (auto split: if_splits)

lemma read_and_go_on_shorter:
  assumes "(Ok chunk, rest) = upload_read_chunk n r" "(Ok a, s') = next_chunk D opts chunk s" "a \<noteq> Action_Finish"
  shows "reader_size rest < reader_size r"
proof -
  have "chunk \<noteq> []" using assms(2,3) by (auto simp: next_chunk_def split: option.splits)
  then show ?thesis using take_read_to_end_shorter [of n "[]" r chunk rest] assms(1) by (auto simp: upload_read_chunk_def)
qed

function upload_loop ::
    "('s, 'e) upload_backend \<Rightarrow> resumable_upload_options \<Rightarrow> upload_session \<Rightarrow> io_error reader \<Rightarrow>
     ('s, 'e) upload_world \<Rightarrow>
     'e resumable_upload_error unit_result \<times> upload_session \<times> io_error reader \<times> ('s, 'e) upload_world" where
  "upload_loop B opts s r w =
     (case upload_read_chunk (uo_part_size opts) r of
        (Err src, r) \<Rightarrow> (Err (source_read_error s src), s, r, w)
      | (Ok chunk, r) \<Rightarrow>
          (case next_chunk (ub_digests B) opts chunk s of
             (Err e, s) \<Rightarrow> (Err e, s, r, w)
           | (Ok Action_Finish, s) \<Rightarrow> (Ok (), s, r, w)
           | (Ok Action_Skip, s) \<Rightarrow> upload_loop B opts s r w
           | (Ok (Action_Upload plan), s) \<Rightarrow>
               (case upload_part_with_retries_blocking B opts s plan w of
                  (Err e, w) \<Rightarrow> (Err e, s, r, w)
                | (Ok uploaded, w) \<Rightarrow>
                    (case accept_uploaded_part opts plan uploaded s of
                       (Err e, s) \<Rightarrow> (Err e, s, r, w)
                     | (Ok _, s) \<Rightarrow> upload_loop B opts s r w))))"
  by pat_completeness auto
termination
  by (relation "measure (\<lambda>(B, opts, s, r, w). reader_size r)") (auto dest: read_and_go_on_shorter)

declare upload_part_loop.simps [simp del] upload_loop.simps [simp del]

definition upload_all_parts ::
    "('s, 'e) upload_backend \<Rightarrow> resumable_upload_options \<Rightarrow> upload_session \<Rightarrow> io_error reader \<Rightarrow>
     ('s, 'e) upload_world \<Rightarrow>
     (uploaded_part list, 'e resumable_upload_error) result \<times> upload_session \<times> io_error reader \<times>
     ('s, 'e) upload_world" where
  "upload_all_parts B opts s r w =
     (case upload_loop B opts s r w of
        (Err e, s, r, w) \<Rightarrow> (Err e, s, r, w)
      | (Ok _, s, r, w) \<Rightarrow>
          (case ordered_completed_parts s of
             Err e \<Rightarrow> (Err e, s, r, w)
           | Ok parts \<Rightarrow>
               (case ub_complete_upload B (session_upload_id s) parts (uw_backend w) of (c, state) \<Rightarrow>
                  (let w = upload_did state (Up_Complete (session_upload_id s) parts c) w
                   in case c of
                        Err src \<Rightarrow> (Err (complete_upload_failed s src), s, r, w)
                      | Ok _ \<Rightarrow> (Ok parts, s, r, w)))))"

definition abort_error_if_configured_blocking ::
    "('s, 'e) upload_backend \<Rightarrow> resumable_upload_options \<Rightarrow> string \<Rightarrow> 'e resumable_upload_error \<Rightarrow>
     ('s, 'e) upload_world \<Rightarrow> 'e resumable_upload_error \<times> ('s, 'e) upload_world" where
  "abort_error_if_configured_blocking B opts upload_id e w =
     (if uo_abort_on_error opts
      then (case ub_abort_upload B upload_id (uw_backend w) of (a, state) \<Rightarrow>
              (let w = upload_did state (Up_Abort upload_id a) w
               in case a of
                    Err src \<Rightarrow> (Upload_AbortFailed upload_id e src, w)
                  | Ok _ \<Rightarrow> (e, w)))
      else (e, w))"

definition upload_with_checkpoint_blocking ::
    "('s, 'e) upload_backend \<Rightarrow> resumable_upload_options \<Rightarrow> io_error reader \<Rightarrow> resumable_upload_checkpoint \<Rightarrow>
     bool \<Rightarrow> ('s, 'e) upload_world \<Rightarrow>
     (resumable_upload_result, 'e resumable_upload_error) result \<times> ('s, 'e) upload_world" where
  "upload_with_checkpoint_blocking B opts r checkpoint resumed w =
     (case session_new opts checkpoint resumed of
        Err e \<Rightarrow> (Err e, w)
      | Ok s \<Rightarrow>
          (case upload_all_parts B opts s r w of
             (Err e, s, r, w) \<Rightarrow>
               (let (e, w) = abort_error_if_configured_blocking B opts (session_upload_id s) e w in (Err e, w))
           | (Ok parts, s, r, w) \<Rightarrow> (Ok (session_finish parts s), w)))"

definition upload_blocking ::
    "('s, 'e) upload_backend \<Rightarrow> resumable_upload_options \<Rightarrow> io_error reader \<Rightarrow> ('s, 'e) upload_world \<Rightarrow>
     (resumable_upload_result, 'e resumable_upload_error) result \<times> ('s, 'e) upload_world" where
  "upload_blocking B opts r w =
     (case upload_options_validate opts of
        Err e \<Rightarrow> (Err e, w)
      | Ok _ \<Rightarrow>
          (case ub_create_upload B (uw_backend w) of (c, state) \<Rightarrow>
             (let w = upload_did state (Up_Create c) w
              in case c of
                   Err src \<Rightarrow> (Err (Upload_CreateFailed src), w)
                 | Ok upload_id \<Rightarrow>
                     upload_with_checkpoint_blocking B opts r
                       ((checkpoint_new upload_id (uo_part_size opts))\<lparr> cp_checksum_algorithm :=
                          uo_part_checksum_algorithm opts \<rparr>) False w)))"

definition resume_blocking ::
    "('s, 'e) upload_backend \<Rightarrow> resumable_upload_options \<Rightarrow> io_error reader \<Rightarrow> resumable_upload_checkpoint \<Rightarrow>
     ('s, 'e) upload_world \<Rightarrow>
     (resumable_upload_result, 'e resumable_upload_error) result \<times> ('s, 'e) upload_world" where
  "resume_blocking B opts r checkpoint w =
     (case upload_options_validate opts of
        Err e \<Rightarrow> (Err e, w)
      | Ok _ \<Rightarrow> upload_with_checkpoint_blocking B opts r checkpoint True w)"

end
