(* ===== verification/Reqx_UploadProofs.thy ===== *)
theory Reqx_UploadProofs
  imports Reqx_Upload "HOL-Library.Sublist"
begin

text \<open>
  What an upload does: the chunks that are read from a source, the parts that are uploaded or reused
  (an inductive relation that follows the loop), and what an interrupted upload leaves for the next one.
\<close>

subsection \<open>Reading the source\<close>

text \<open>
  \<open>delivered\<close> is what a source delivers before it fails, if it does; a source is \<open>steady\<close> when a read
  of zero bytes means its end. \<open>delivers r data\<close> says that \<open>r\<close> is a reader of \<open>data\<close>.
\<close>

definition steady :: "'x reader \<Rightarrow> bool" where
  "steady r \<longleftrightarrow> ReadChunk [] \<notin> set r"

fun failing :: "'x reader \<Rightarrow> bool" where
  "failing [] = False"
| "failing (ReadFailed e # r) = True"
| "failing (_ # r) = failing r"

fun delivered :: "'x reader \<Rightarrow> string" where
  "delivered [] = []"
| "delivered (ReadChunk bytes # r) = bytes @ delivered r"
| "delivered (ReadInterrupted # r) = delivered r"
| "delivered (ReadFailed e # r) = []"

definition delivers :: "'x reader \<Rightarrow> string \<Rightarrow> bool" where
  "delivers r data \<longleftrightarrow> steady r \<and> (if failing r then prefix (delivered r) data else delivered r = data)"

lemma steady_simps [simp]:
  "steady []" "steady (ReadChunk bytes # r) \<longleftrightarrow> bytes \<noteq> [] \<and> steady r"
  "steady (ReadInterrupted # r) \<longleftrightarrow> steady r" "steady (ReadFailed e # r) \<longleftrightarrow> steady r"
  by (auto simp: steady_def)

lemma take_read_to_end_Ok:
  "steady r \<Longrightarrow> take_read_to_end n buffer r = (Ok bytes, rest) \<Longrightarrow>
     \<exists>chunk. bytes = buffer @ chunk \<and> delivered r = chunk @ delivered rest \<and> steady rest \<and>
       failing rest = failing r \<and> length chunk \<le> n \<and> (length chunk < n \<longrightarrow> rest = [])"
proof (induction n buffer r arbitrary: bytes rest rule: take_read_to_end.induct)
  case (2 n buffer chunk r)
  show ?case
  proof (cases "n = 0 \<or> \<not> length chunk \<le> n")
    case True
    then show ?thesis using "2.prems" by (auto split: if_splits)
  next
    case False
    then obtain more where "bytes = (buffer @ chunk) @ more" "delivered r = more @ delivered rest" "steady rest"
        "failing rest = failing r" "length more \<le> n - length chunk" "length more < n - length chunk \<longrightarrow> rest = []"
      using "2.IH" [of bytes rest] "2.prems" by auto
    then show ?thesis using False by (intro exI [of _ "chunk @ more"]) auto
  qed
next
  case (3 n buffer r)
  then show ?case by (auto split: if_splits)
qed (auto split: if_splits)

lemma take_read_to_end_Err:
  "steady r \<Longrightarrow> take_read_to_end n buffer r = (Err e, rest) \<Longrightarrow> failing r"
  by (induction n buffer r rule: take_read_to_end.induct) (auto split: if_splits)

text \<open>The chunks that repeated reading yields, and the chunks of some data.\<close>

function pieces :: "nat \<Rightarrow> 'x reader \<Rightarrow> string list" where
  "pieces n r = (case upload_read_chunk n r of
      (Err e, rest) \<Rightarrow> []
    | (Ok chunk, rest) \<Rightarrow> if chunk = [] then [] else chunk # pieces n rest)"
  by pat_completeness auto
termination
  by (relation "measure (\<lambda>(n, r). reader_size r)")
     (auto simp: upload_read_chunk_def dest: take_read_to_end_shorter [OF sym])

declare pieces.simps [simp del]

function chunks_of :: "nat \<Rightarrow> string \<Rightarrow> string list" where
  "chunks_of n data = (if n = 0 \<or> data = [] then [] else take n data # chunks_of n (drop n data))"
  by pat_completeness auto
termination by (relation "measure (\<lambda>(n, data). length data)") auto

declare chunks_of.simps [simp del]

lemma chunks_of_append: "length chunk = n \<Longrightarrow> 0 < n \<Longrightarrow> chunks_of n (chunk @ data) = chunk # chunks_of n data"
  by (subst chunks_of.simps) auto

lemma concat_chunks_of: "0 < n \<Longrightarrow> concat (chunks_of n data) = data"
  by (induction n data rule: chunks_of.induct) (subst chunks_of.simps, simp)

lemma pieces_chunks_of:
  "0 < n \<Longrightarrow> delivers r data \<Longrightarrow>
     (if failing r then prefix (pieces n r) (chunks_of n data) else pieces n r = chunks_of n data)"
proof (induction n r arbitrary: data rule: pieces.induct)
  case (1 n r)
  have steady: "steady r" using 1 by (simp add: delivers_def)
  obtain res rest where read: "upload_read_chunk n r = (res, rest)" by fastforce
  then have read': "take_read_to_end n [] r = (res, rest)" by (simp add: upload_read_chunk_def)
  show ?case
  proof (cases res)
    case (Err e)
    then show ?thesis using take_read_to_end_Err [OF steady] read read' by (auto simp: pieces.simps [of n r])
  next
    case (Ok chunk)
    then have c: "delivered r = chunk @ delivered rest" "steady rest" "failing rest = failing r"
        "length chunk \<le> n" "length chunk < n \<longrightarrow> rest = []"
      using take_read_to_end_Ok [OF steady read' [unfolded Ok]] by auto
    show ?thesis
    proof (cases "length chunk = n")
      case True
      obtain data' where data: "data = chunk @ data'" "delivers rest data'"
        using "1.prems"(2) c by (auto simp: delivers_def prefix_def split: if_splits)
      have "if failing rest then prefix (pieces n rest) (chunks_of n data') else pieces n rest = chunks_of n data'"
        using "1.IH" [OF read [symmetric] Ok _ "1.prems"(1) data(2)] True "1.prems"(1) by auto
      moreover have "pieces n r = chunk # pieces n rest"
        using True "1.prems"(1) by (auto simp: pieces.simps [of n r] read Ok)
      ultimately show ?thesis using data(1) True "1.prems"(1) c(3) by (simp add: chunks_of_append split: if_splits)
    next
      case False
      then have "rest = []" "data = chunk" "\<not> failing r"
        using c "1.prems"(2) by (auto simp: delivers_def split: if_splits)
      then show ?thesis
        using read Ok False c(4) "1.prems"(1)
        by (simp add: pieces.simps [of n r] pieces.simps [of n "[]"] chunks_of.simps [of n chunk]
            chunks_of.simps [of n "[]"] upload_read_chunk_def)
    qed
  qed
qed

subsection \<open>One part\<close>

text \<open>
  \<open>accepts\<close> is the check of the metadata that the backend returns for a chunk, \<open>reused\<close> the check of
  the metadata that a checkpoint has for it.
\<close>

definition accepts :: "digests \<Rightarrow> resumable_upload_options \<Rightarrow> nat \<Rightarrow> string \<Rightarrow> uploaded_part \<Rightarrow> bool" where
  "accepts D opts n chunk p \<longleftrightarrow> pt_part_number p = n \<and> pt_size p = length chunk \<and>
     (\<forall>x. expected_checksum_of D opts chunk = Some x \<longrightarrow>
        (\<forall>a. pt_checksum p = Some a \<longrightarrow> normalize_token a = normalize_token x) \<and>
        (uo_verify_remote_etag opts \<longrightarrow> normalize_token (pt_etag p) = normalize_token x))"

abbreviation part_matches :: "digests \<Rightarrow> resumable_upload_options \<Rightarrow> string \<Rightarrow> uploaded_part \<Rightarrow> bool" where
  "part_matches D opts chunk p \<equiv>
     checkpoint_part_matches p (length chunk) (expected_checksum_of D opts chunk) (uo_verify_remote_etag opts)"

definition reused ::
    "digests \<Rightarrow> resumable_upload_options \<Rightarrow> (nat, uploaded_part) btree \<Rightarrow> nat \<Rightarrow> string \<Rightarrow> bool" where
  "reused D opts parts n chunk \<longleftrightarrow> is_some_and (part_matches D opts chunk) (bt_get parts n)"

abbreviation session_parts :: "upload_session \<Rightarrow> (nat, uploaded_part) btree" where
  "session_parts s \<equiv> cp_completed_parts (us_checkpoint s)"

definition set_session_parts :: "(nat, uploaded_part) btree \<Rightarrow> upload_session \<Rightarrow> upload_session" where
  "set_session_parts parts s =
     s\<lparr> us_checkpoint := (us_checkpoint s)\<lparr> cp_completed_parts := parts \<rparr> \<rparr>"

definition counted :: "string \<Rightarrow> upload_session \<Rightarrow> upload_session" where
  "counted chunk s = s\<lparr> us_total_bytes := u64_add (us_total_bytes s) (length chunk) \<rparr>"

definition plan_of :: "digests \<Rightarrow> resumable_upload_options \<Rightarrow> nat \<Rightarrow> string \<Rightarrow> upload_part_plan" where
  "plan_of D opts n chunk =
     \<lparr> pl_part_number = n, pl_chunk = chunk, pl_expected_checksum = expected_checksum_of D opts chunk \<rparr>"

lemma plan_of_simps [simp]:
  "pl_part_number (plan_of D opts n chunk) = n" "pl_chunk (plan_of D opts n chunk) = chunk"
  "pl_expected_checksum (plan_of D opts n chunk) = expected_checksum_of D opts chunk"
  by (simp_all add: plan_of_def)

lemma bt_remove_None: "bt_get m k = None \<Longrightarrow> bt_remove k m = m"
  by (auto simp: bt_remove_def bt_get_def map_of_eq_None_iff image_iff intro!: filter_True)

lemma set_session_parts_same [simp]: "set_session_parts (session_parts s) s = s"
  by (simp add: set_session_parts_def)

text \<open>The three ways in which a chunk is taken; a chunk that is uploaded has no entry any more.\<close>

lemma next_chunk_cases:
  assumes "next_chunk D opts chunk s = (res, s')"
  shows "(\<exists>e. res = Err e \<and> s' = s \<and> error_checkpoint e = Some (us_checkpoint s)) \<or>
    (chunk = [] \<and> res = Ok Action_Finish \<and> s' = s \<and> checkpoint_has_remaining_parts (us_checkpoint s) (us_part_number s) = None) \<or>
    (chunk \<noteq> [] \<and> us_part_number s \<le> u32_max \<and> reused D opts (session_parts s) (us_part_number s) chunk \<and>
      res = Ok Action_Skip \<and> s' = advance_part_number (counted chunk s)) \<or>
    (chunk \<noteq> [] \<and> us_part_number s \<le> u32_max \<and> \<not> reused D opts (session_parts s) (us_part_number s) chunk \<and>
      res = Ok (Action_Upload (plan_of D opts (us_part_number s) chunk)) \<and>
      s' = set_session_parts (bt_remove (us_part_number s) (session_parts s)) (counted chunk s))"
proof (cases "bt_get (session_parts s) (us_part_number s)")
  case None
  then show ?thesis
    using assms bt_remove_None [OF None]
    by (auto simp: next_chunk_def current_part_number_def reused_def is_some_and_def plan_of_def counted_def
        set_session_parts_def Let_def split: if_splits option.splits)
next
  case (Some p)
  then show ?thesis
    using assms
    by (auto simp: next_chunk_def current_part_number_def reused_def is_some_and_def plan_of_def counted_def
        set_session_parts_def Let_def split: if_splits option.splits)
qed

lemma accept_uploaded_part_cases:
  assumes "accept_uploaded_part opts (plan_of D opts n chunk) p s = (res, s')"
  shows "(\<exists>e. res = Err e \<and> s' = s \<and> error_checkpoint e = Some (us_checkpoint s) \<and> \<not> accepts D opts n chunk p) \<or>
    (res = Ok () \<and> accepts D opts n chunk p \<and>
     s' = advance_part_number (set_session_parts
       (bt_insert n (complete_part (plan_of D opts n chunk) p) (session_parts s)) s))"
  using assms
  by (auto simp: accept_uploaded_part_def accepts_def validate_uploaded_part_def validate_part_checksum_def
      validate_part_etag_def set_session_parts_def result_bind_def split: if_splits option.splits result.splits)

lemma accepted_matches:
  "accepts D opts n chunk p \<Longrightarrow> part_matches D opts chunk (complete_part (plan_of D opts n chunk) p)"
  by (auto simp: accepts_def checkpoint_part_matches_def complete_part_def split: option.splits)

lemma accepted_number: "accepts D opts n chunk p \<Longrightarrow> pt_part_number (complete_part (plan_of D opts n chunk) p) = n"
  by (simp add: accepts_def complete_part_def)

text \<open>The attempts to upload a part: sleeps and failures, at most one success at the end.\<close>

definition failed_attempt :: "string \<Rightarrow> nat \<Rightarrow> string \<Rightarrow> 'e upload_event \<Rightarrow> bool" where
  "failed_attempt upload_id n chunk e \<longleftrightarrow>
     (\<exists>d. e = Up_Sleep d) \<or> (\<exists>x. e = Up_Part upload_id n chunk (Err x))"

definition is_part_call :: "nat \<Rightarrow> 'e upload_event \<Rightarrow> bool" where
  "is_part_call n e = (case e of Up_Part _ n' _ _ \<Rightarrow> n' = n | _ \<Rightarrow> False)"

lemma is_part_call_simps [simp]:
  "is_part_call n (Up_Part upload_id n' chunk r) \<longleftrightarrow> n' = n" "\<not> is_part_call n (Up_Create c)"
  "\<not> is_part_call n (Up_Complete upload_id parts u)" "\<not> is_part_call n (Up_Abort upload_id u)"
  "\<not> is_part_call n (Up_Sleep d)"
  by (simp_all add: is_part_call_def)

definition attempts ::
    "resumable_upload_options \<Rightarrow> string \<Rightarrow> nat \<Rightarrow> string \<Rightarrow> nat \<Rightarrow> 'e upload_event list \<Rightarrow> bool" where
  "attempts opts upload_id n chunk attempt evs \<longleftrightarrow>
     list_all (failed_attempt upload_id n chunk) evs \<and>
     length (filter (is_part_call n) evs) + attempt \<le> Suc (uo_max_attempts opts)"

lemma attempts_Cons:
  assumes "attempts opts upload_id n chunk (Suc attempt) evs"
  shows "attempts opts upload_id n chunk attempt
    (Up_Part upload_id n chunk (Err x) # (if d \<noteq> 0 then [Up_Sleep d] else []) @ evs)"
  using assms by (auto simp: attempts_def failed_attempt_def)

lemma upload_part_loop_attempts:
  assumes "upload_part_loop B opts s plan attempt w = (res, w')" "attempt \<le> uo_max_attempts opts"
  shows "\<exists>evs. uw_log w' = uw_log w @ evs \<and>
    (case res of
       Ok p \<Rightarrow> \<exists>evs0. evs = evs0 @ [Up_Part (session_upload_id s) (pl_part_number plan) (pl_chunk plan) (Ok p)] \<and>
         attempts opts (session_upload_id s) (pl_part_number plan) (pl_chunk plan) (Suc attempt) evs0
     | Err e \<Rightarrow> attempts opts (session_upload_id s) (pl_part_number plan) (pl_chunk plan) attempt evs \<and>
         error_checkpoint e = Some (us_checkpoint s))"
  using assms
proof (induction B opts s plan attempt w arbitrary: res w' rule: upload_part_loop.induct)
  case (1 B opts s plan attempt w)
  let ?id = "session_upload_id s" and ?n = "pl_part_number plan" and ?c = "pl_chunk plan"
  obtain r state where call: "ub_upload_part B ?id ?n ?c (uw_backend w) = (r, state)" by fastforce
  define w1 where "w1 = upload_did state (Up_Part ?id ?n ?c r) w"
  have log1: "uw_log w1 = uw_log w @ [Up_Part ?id ?n ?c r]" by (simp add: w1_def upload_did_def)
  show ?case
  proof (cases r)
    case (Ok p)
    then show ?thesis
      using "1.prems" log1 by (auto simp: upload_part_loop.simps [of B opts s plan attempt w] call w1_def Let_def attempts_def)
  next
    case (Err src)
    show ?thesis
    proof (cases "attempt \<ge> uo_max_attempts opts")
      case True
      then have "res = Err (part_upload_failed s plan attempt src)" "w' = w1"
        using "1.prems"(1) Err
        by (simp_all add: upload_part_loop.simps [of B opts s plan attempt w] call w1_def Let_def retry_record_failure_def)
      then show ?thesis
        using log1 Err "1.prems"(2) by (auto simp: attempts_def failed_attempt_def part_upload_failed_def)
    next
      case False
      define delay where "delay = upload_backoff_for_retry (ub_sample B (uw_samples w1)) opts attempt"
      define w2 where "w2 = w1\<lparr> uw_samples := Suc (uw_samples w1) \<rparr>"
      define w3 where "w3 = (if delay \<noteq> 0 then w2\<lparr> uw_log := uw_log w2 @ [Up_Sleep delay] \<rparr> else w2)"
      have retry: "retry_record_failure (ub_sample B (uw_samples w1)) opts attempt s plan src = (Ok delay, Suc attempt)"
        using False by (simp add: retry_record_failure_def delay_def)
      have log3: "uw_log w3 = uw_log w @ Up_Part ?id ?n ?c (Err src) # (if delay \<noteq> 0 then [Up_Sleep delay] else [])"
        using log1 Err by (simp add: w3_def w2_def)
      have "upload_part_loop B opts s plan (Suc attempt) w3 = (res, w')"
        using "1.prems"(1) Err retry
        by (simp add: upload_part_loop.simps [of B opts s plan attempt w] call w1_def w2_def w3_def Let_def split: if_splits)
      moreover have "Suc attempt \<le> uo_max_attempts opts" using False by simp
      ultimately obtain evs where evs: "uw_log w' = uw_log w3 @ evs"
          "case res of
             Ok p \<Rightarrow> \<exists>evs0. evs = evs0 @ [Up_Part ?id ?n ?c (Ok p)] \<and> attempts opts ?id ?n ?c (Suc (Suc attempt)) evs0
           | Err e \<Rightarrow> attempts opts ?id ?n ?c (Suc attempt) evs \<and> error_checkpoint e = Some (us_checkpoint s)"
        using "1.IH" [OF call [symmetric] w1_def Err retry [symmetric] refl w2_def w3_def, of res w'] by blast
      let ?first = "Up_Part ?id ?n ?c (Err src) # (if delay \<noteq> 0 then [Up_Sleep delay] else [])"
      have "uw_log w' = uw_log w @ ?first @ evs" using evs(1) log3 by simp
      then show ?thesis
        using evs(2) attempts_Cons [of opts ?id ?n ?c] attempts_Cons [of opts ?id ?n ?c _ _ src delay]
        by (intro exI [of _ "?first @ evs"]) (auto split: result.splits)
    qed
  qed
qed

subsection \<open>The parts of a run\<close>

text \<open>
  \<open>advances D opts s chunks evs s'\<close>: from the session \<open>s\<close> the chunks are taken one after the other, and
  each is reused from the checkpoint or uploaded and accepted; \<open>evs\<close> are the calls that were made.
\<close>

definition uploaded_session ::
    "digests \<Rightarrow> resumable_upload_options \<Rightarrow> string \<Rightarrow> uploaded_part \<Rightarrow> upload_session \<Rightarrow> upload_session" where
  "uploaded_session D opts chunk p s =
     advance_part_number (set_session_parts
       (bt_insert (us_part_number s) (complete_part (plan_of D opts (us_part_number s) chunk) p)
         (bt_remove (us_part_number s) (session_parts s))) (counted chunk s))"

inductive advances ::
    "digests \<Rightarrow> resumable_upload_options \<Rightarrow> upload_session \<Rightarrow> string list \<Rightarrow> 'e upload_event list \<Rightarrow>
     upload_session \<Rightarrow> bool"
  for D opts where
  stay: "advances D opts s [] [] s"
| reuse: "\<lbrakk> chunk \<noteq> []; us_part_number s \<le> u32_max; reused D opts (session_parts s) (us_part_number s) chunk;
     advances D opts (advance_part_number (counted chunk s)) chunks evs s' \<rbrakk>
   \<Longrightarrow> advances D opts s (chunk # chunks) evs s'"
| upload: "\<lbrakk> chunk \<noteq> []; us_part_number s \<le> u32_max; \<not> reused D opts (session_parts s) (us_part_number s) chunk;
     attempts opts (session_upload_id s) (us_part_number s) chunk 2 evs0;
     accepts D opts (us_part_number s) chunk p; advances D opts (uploaded_session D opts chunk p s) chunks evs s' \<rbrakk>
   \<Longrightarrow> advances D opts s (chunk # chunks)
        (evs0 @ Up_Part (session_upload_id s) (us_part_number s) chunk (Ok p) # evs) s'"

lemma session_simps [simp]:
  "us_part_number (advance_part_number s) = Suc (us_part_number s)"
  "us_checkpoint (advance_part_number s) = us_checkpoint s" "us_resumed (advance_part_number s) = us_resumed s"
  "us_total_bytes (advance_part_number s) = us_total_bytes s"
  "us_part_number (counted chunk s) = us_part_number s" "us_checkpoint (counted chunk s) = us_checkpoint s"
  "us_resumed (counted chunk s) = us_resumed s"
  "us_total_bytes (counted chunk s) = u64_add (us_total_bytes s) (length chunk)"
  "us_part_number (set_session_parts parts s) = us_part_number s"
  "us_checkpoint (set_session_parts parts s) = (us_checkpoint s)\<lparr> cp_completed_parts := parts \<rparr>"
  "us_resumed (set_session_parts parts s) = us_resumed s"
  "us_total_bytes (set_session_parts parts s) = us_total_bytes s"
  by (simp_all add: advance_part_number_def counted_def set_session_parts_def)

text \<open>How a run can end within a chunk: the chunk has no entry, and nothing was accepted for it.\<close>

definition unconfirmed ::
    "digests \<Rightarrow> resumable_upload_options \<Rightarrow> string \<Rightarrow> nat \<Rightarrow> string \<Rightarrow> 'e upload_event list \<Rightarrow> bool" where
  "unconfirmed D opts upload_id n chunk evs \<longleftrightarrow>
     length (filter (is_part_call n) evs) \<le> uo_max_attempts opts \<and>
     list_all (\<lambda>e. (\<exists>d. e = Up_Sleep d) \<or>
       (\<exists>x. e = Up_Part upload_id n chunk x \<and> (\<forall>p. x = Ok p \<longrightarrow> \<not> accepts D opts n chunk p))) evs"

lemma attempts_unconfirmed: "attempts opts upload_id n chunk 1 evs \<Longrightarrow> unconfirmed D opts upload_id n chunk evs"
  by (auto simp: attempts_def unconfirmed_def failed_attempt_def list_all_iff)

lemma rejected_unconfirmed:
  assumes "attempts opts upload_id n chunk 2 evs" "\<not> accepts D opts n chunk p"
  shows "unconfirmed D opts upload_id n chunk (evs @ [Up_Part upload_id n chunk (Ok p)])"
  using assms by (auto simp: attempts_def unconfirmed_def failed_attempt_def list_all_iff)

definition breaks_off ::
    "digests \<Rightarrow> resumable_upload_options \<Rightarrow> string list \<Rightarrow> upload_session \<Rightarrow> 'e upload_event list \<Rightarrow>
     upload_session \<Rightarrow> bool" where
  "breaks_off D opts left s evs s' \<longleftrightarrow> s' = s \<and> evs = [] \<or>
     (\<exists>chunk left'. left = chunk # left' \<and> \<not> reused D opts (session_parts s) (us_part_number s) chunk \<and>
        s' = set_session_parts (bt_remove (us_part_number s) (session_parts s)) (counted chunk s) \<and>
        unconfirmed D opts (session_upload_id s) (us_part_number s) chunk evs)"

definition loop_ends ::
    "digests \<Rightarrow> resumable_upload_options \<Rightarrow> upload_session \<Rightarrow> io_error reader \<Rightarrow>
     'e resumable_upload_error unit_result \<Rightarrow> 'e upload_event list \<Rightarrow> upload_session \<Rightarrow> bool" where
  "loop_ends D opts s r res evs s' \<longleftrightarrow> (\<exists>chunks left evs0 s1 evs1. advances D opts s chunks evs0 s1 \<and> evs = evs0 @ evs1 \<and>
     pieces (uo_part_size opts) r = chunks @ left \<and> breaks_off D opts left s1 evs1 s' \<and>
     (case res of
        Ok _ \<Rightarrow> left = [] \<and> (steady r \<longrightarrow> \<not> failing r)
      | Err e \<Rightarrow> error_checkpoint e = Some (us_checkpoint s')))"

lemma breaks_off_Nil [simp]: "breaks_off D opts [] s evs s' \<longleftrightarrow> s' = s \<and> evs = []"
  by (simp add: breaks_off_def)

lemma breaks_off_refl [simp]: "breaks_off D opts left s [] s"
  by (simp add: breaks_off_def)

lemma loop_ends_now:
  "error_checkpoint e = Some (us_checkpoint s') \<Longrightarrow> breaks_off D opts (pieces (uo_part_size opts) r) s evs s' \<Longrightarrow>
     loop_ends D opts s r (Err e) evs s'"
  unfolding loop_ends_def by (intro exI [of _ "[]"] exI [of _ s] exI [of _ evs] exI [of _ "pieces (uo_part_size opts) r"])
    (simp add: stay)

lemma loop_ends_finish:
  "pieces (uo_part_size opts) r = [] \<Longrightarrow> steady r \<longrightarrow> \<not> failing r \<Longrightarrow> loop_ends D opts s r (Ok u) [] s"
  unfolding loop_ends_def by (intro exI [of _ "[]"] exI [of _ s]) (simp add: stay)

lemma loop_ends_reuse:
  assumes "upload_read_chunk (uo_part_size opts) r = (Ok chunk, rest)" "steady r \<longrightarrow> steady rest \<and> failing rest = failing r"
    "chunk \<noteq> []" "us_part_number s \<le> u32_max" "reused D opts (session_parts s) (us_part_number s) chunk"
    "loop_ends D opts (advance_part_number (counted chunk s)) rest res evs s'"
  shows "loop_ends D opts s r res evs s'"
proof -
  have "pieces (uo_part_size opts) r = chunk # pieces (uo_part_size opts) rest"
    using assms(1,3) by (simp add: pieces.simps [of "uo_part_size opts" r])
  moreover obtain chunks left evs0 s1 evs1 where
      "advances D opts (advance_part_number (counted chunk s)) chunks evs0 s1" "evs = evs0 @ evs1"
      "pieces (uo_part_size opts) rest = chunks @ left" "breaks_off D opts left s1 evs1 s'"
      "case res of Ok _ \<Rightarrow> left = [] \<and> (steady rest \<longrightarrow> \<not> failing rest) | Err e \<Rightarrow> error_checkpoint e = Some (us_checkpoint s')"
    using assms(6) unfolding loop_ends_def by blast
  ultimately show ?thesis
    using assms(2) reuse [OF assms(3-5)] unfolding loop_ends_def
    by (intro exI [of _ "chunk # chunks"] exI [of _ left] exI [of _ evs0] exI [of _ s1] exI [of _ evs1]) (auto split: result.splits)
qed

lemma loop_ends_upload:
  assumes "upload_read_chunk (uo_part_size opts) r = (Ok chunk, rest)" "steady r \<longrightarrow> steady rest \<and> failing rest = failing r"
    "chunk \<noteq> []" "us_part_number s \<le> u32_max" "\<not> reused D opts (session_parts s) (us_part_number s) chunk"
    "attempts opts (session_upload_id s) (us_part_number s) chunk 2 tries" "accepts D opts (us_part_number s) chunk p"
    "loop_ends D opts (uploaded_session D opts chunk p s) rest res evs s'"
  shows "loop_ends D opts s r res (tries @ Up_Part (session_upload_id s) (us_part_number s) chunk (Ok p) # evs) s'"
proof -
  let ?call = "Up_Part (session_upload_id s) (us_part_number s) chunk (Ok p)"
  have "pieces (uo_part_size opts) r = chunk # pieces (uo_part_size opts) rest"
    using assms(1,3) by (simp add: pieces.simps [of "uo_part_size opts" r])
  moreover obtain chunks left evs0 s1 evs1 where
      "advances D opts (uploaded_session D opts chunk p s) chunks evs0 s1" "evs = evs0 @ evs1"
      "pieces (uo_part_size opts) rest = chunks @ left" "breaks_off D opts left s1 evs1 s'"
      "case res of Ok _ \<Rightarrow> left = [] \<and> (steady rest \<longrightarrow> \<not> failing rest) | Err e \<Rightarrow> error_checkpoint e = Some (us_checkpoint s')"
    using assms(8) unfolding loop_ends_def by blast
  ultimately show ?thesis
    using assms(2) upload [OF assms(3-7)] unfolding loop_ends_def
    by (intro exI [of _ "chunk # chunks"] exI [of _ left] exI [of _ "tries @ ?call # evs0"] exI [of _ s1] exI [of _ evs1])
       (auto split: result.splits)
qed

text \<open>A chunk that is not reused: its upload fails, its metadata are rejected, or it is accepted.\<close>

definition part_ends ::
    "digests \<Rightarrow> resumable_upload_options \<Rightarrow> string \<Rightarrow> string list \<Rightarrow> upload_session \<Rightarrow> upload_session \<Rightarrow>
     (uploaded_part, 'e resumable_upload_error) result \<Rightarrow> 'e upload_event list \<Rightarrow> bool" where
  "part_ends D opts chunk left s s1 res evs \<longleftrightarrow>
     (case res of
        Err e \<Rightarrow> breaks_off D opts (chunk # left) s evs s1 \<and> error_checkpoint e = Some (us_checkpoint s1)
      | Ok p \<Rightarrow> (if accepts D opts (us_part_number s) chunk p
                then \<exists>tries. evs = tries @ [Up_Part (session_upload_id s) (us_part_number s) chunk (Ok p)] \<and>
                       attempts opts (session_upload_id s) (us_part_number s) chunk 2 tries
                else breaks_off D opts (chunk # left) s evs s1))"

lemma upload_part_ends:
  fixes B :: "('s, 'e) upload_backend"
  assumes "s1 = set_session_parts (bt_remove (us_part_number s) (session_parts s)) (counted chunk s)"
    "upload_part_with_retries_blocking B opts s1 (plan_of D opts (us_part_number s) chunk) w = (res, w')"
    "1 \<le> uo_max_attempts opts" "\<not> reused D opts (session_parts s) (us_part_number s) chunk"
  shows "\<exists>evs. uw_log w' = uw_log w @ evs \<and> part_ends D opts chunk left s s1 res evs"
proof -
  let ?n = "us_part_number s" and ?id = "session_upload_id s"
  have id: "session_upload_id s1 = ?id" using assms(1) by (simp add: session_upload_id_def)
  have off: "breaks_off D opts (chunk # left) s evs s1" if "unconfirmed D opts ?id ?n chunk evs" for evs :: "'e upload_event list"
    using assms(1,4) that unfolding breaks_off_def by blast
  obtain evs where evs: "uw_log w' = uw_log w @ evs"
      "case res of
         Ok p \<Rightarrow> \<exists>tries. evs = tries @ [Up_Part ?id ?n chunk (Ok p)] \<and> attempts opts ?id ?n chunk 2 tries
       | Err e \<Rightarrow> attempts opts ?id ?n chunk 1 evs \<and> error_checkpoint e = Some (us_checkpoint s1)"
    using upload_part_loop_attempts [OF assms(2) [unfolded upload_part_with_retries_blocking_def] assms(3)]
    unfolding plan_of_simps id Suc_1 by blast
  moreover have "part_ends D opts chunk left s s1 res evs"
    using evs(2) off [OF attempts_unconfirmed] off [OF rejected_unconfirmed]
    by (auto simp: part_ends_def split: result.splits)
  ultimately show ?thesis by blast
qed

lemma upload_loop_ends:
  fixes B :: "('s, 'e) upload_backend"
  assumes "upload_loop B opts s r w = (res, s', r', w')" "1 \<le> uo_max_attempts opts" "0 < uo_part_size opts"
  shows "\<exists>evs. uw_log w' = uw_log w @ evs \<and> loop_ends (ub_digests B) opts s r res evs s'"
  using assms
proof (induction B opts s r w arbitrary: res s' r' w' rule: upload_loop.induct)
  case (1 B opts s r w)
  let ?D = "ub_digests B" and ?n = "us_part_number s"
  obtain x rest where read: "upload_read_chunk (uo_part_size opts) r = (x, rest)" by fastforce
  show ?case
  proof (cases x)
    case (Err src)
    then show ?thesis
      using "1.prems"(1) read
      by (auto simp: upload_loop.simps [of B opts s r w] breaks_off_def source_read_error_def intro!: loop_ends_now)
  next
    case (Ok chunk)
    have rest: "steady r \<longrightarrow> steady rest \<and> failing rest = failing r \<and> (chunk = [] \<longrightarrow> rest = [])"
      using take_read_to_end_Ok [of r "uo_part_size opts" "[]" chunk rest] read Ok "1.prems"(3)
      by (auto simp: upload_read_chunk_def)
    obtain y :: "(upload_chunk_action, 'e resumable_upload_error) result" and s1
      where nxt: "next_chunk ?D opts chunk s = (y, s1)" by fastforce
    note unfold_loop = upload_loop.simps [of B opts s r w] read Ok nxt
    consider (error) e where "y = Err e" "s1 = s" "error_checkpoint e = Some (us_checkpoint s)"
      | (finish) "chunk = []" "y = Ok Action_Finish" "s1 = s"
      | (skip) "chunk \<noteq> []" "?n \<le> u32_max" "reused ?D opts (session_parts s) ?n chunk"
          "y = Ok Action_Skip" "s1 = advance_part_number (counted chunk s)"
      | (part) "chunk \<noteq> []" "?n \<le> u32_max" "\<not> reused ?D opts (session_parts s) ?n chunk"
          "y = Ok (Action_Upload (plan_of ?D opts ?n chunk))"
          "s1 = set_session_parts (bt_remove ?n (session_parts s)) (counted chunk s)"
      using next_chunk_cases [OF nxt] by blast
    then show ?thesis
    proof cases
      case error
      then show ?thesis using "1.prems"(1) by (auto simp: unfold_loop breaks_off_def intro!: loop_ends_now)
    next
      case finish
      then have "pieces (uo_part_size opts) r = []" "steady r \<longrightarrow> \<not> failing r"
        using read Ok rest by (auto simp: pieces.simps [of "uo_part_size opts" r])
      moreover have "res = Ok ()" "s' = s" "w' = w" using "1.prems"(1) finish(2,3) by (simp_all add: unfold_loop)
      ultimately show ?thesis by (auto intro: loop_ends_finish)
    next
      case skip
      then have "upload_loop B opts s1 rest w = (res, s', r', w')" using "1.prems"(1) by (simp add: unfold_loop)
      then obtain evs where "uw_log w' = uw_log w @ evs" "loop_ends ?D opts s1 rest res evs s'"
        using "1.IH"(1) [OF read [symmetric] Ok nxt [symmetric] skip(4) refl] "1.prems"(2,3) by blast
      then show ?thesis using loop_ends_reuse [OF read [unfolded Ok] _ skip(1-3)] rest skip(5) by auto
    next
      case part
      obtain u w1 where run: "upload_part_with_retries_blocking B opts s1 (plan_of ?D opts ?n chunk) w = (u, w1)"
        by fastforce
      obtain tries where tries: "uw_log w1 = uw_log w @ tries" "part_ends ?D opts chunk (pieces (uo_part_size opts) rest) s s1 u tries"
        using upload_part_ends [OF part(5) run "1.prems"(2) part(3)] by blast
      have left: "pieces (uo_part_size opts) r = chunk # pieces (uo_part_size opts) rest"
        using read Ok part(1) by (simp add: pieces.simps [of "uo_part_size opts" r])
      show ?thesis
      proof (cases u)
        case (Err e)
        then show ?thesis
          using "1.prems"(1) tries part(4) run left by (auto simp: unfold_loop part_ends_def intro!: loop_ends_now)
      next
        case u: (Ok p)
        obtain v :: "'e resumable_upload_error unit_result" and s2
          where acc: "accept_uploaded_part opts (plan_of ?D opts ?n chunk) p s1 = (v, s2)" by fastforce
        note unfold_loop = unfold_loop part(4) run u acc
        show ?thesis
        proof (cases v)
          case (Err e)
          then show ?thesis
            using "1.prems"(1) tries u left accept_uploaded_part_cases [OF acc]
            by (auto simp: unfold_loop part_ends_def intro!: loop_ends_now)
        next
          case v: (Ok _)
          then have ok: "accepts ?D opts ?n chunk p" "s2 = uploaded_session ?D opts chunk p s"
            using accept_uploaded_part_cases [OF acc] part(5) by (auto simp: uploaded_session_def set_session_parts_def)
          have "upload_loop B opts s2 rest w1 = (res, s', r', w')" using "1.prems"(1) v by (simp add: unfold_loop)
          then obtain evs where "uw_log w' = uw_log w1 @ evs" "loop_ends ?D opts s2 rest res evs s'"
            using "1.IH"(2) [OF read [symmetric] Ok nxt [symmetric] part(4) refl run [symmetric] u acc [symmetric] v]
              "1.prems"(2,3) by blast
          then show ?thesis
            using loop_ends_upload [OF read [unfolded Ok] _ part(1-3) _ ok(1)] rest ok tries u
            by (auto simp: part_ends_def)
        qed
      qed
    qed
  qed
qed

subsection \<open>What a run leaves\<close>

lemma advances_frame:
  assumes "advances D opts s chunks evs s'"
  shows "us_part_number s' = us_part_number s + length chunks \<and> us_resumed s' = us_resumed s \<and>
    us_checkpoint s' = (us_checkpoint s)\<lparr> cp_completed_parts := session_parts s' \<rparr>"
  using assms by induction (simp_all add: uploaded_session_def)

lemma advances_numbers_small:
  assumes "advances D opts s chunks evs s'" "chunks \<noteq> []"
  shows "us_part_number s + length chunks \<le> Suc u32_max"
  using assms by induction (auto simp: uploaded_session_def elim: advances.cases)

lemma advances_wf:
  assumes "advances D opts s chunks evs s'" "bt_wf (session_parts s)"
  shows "bt_wf (session_parts s')"
  using assms by induction (simp_all add: uploaded_session_def)

lemma bt_get_uploaded_session:
  "bt_wf (session_parts s) \<Longrightarrow> bt_get (session_parts (uploaded_session D opts chunk p s)) k =
     (if k = us_part_number s then Some (complete_part (plan_of D opts (us_part_number s) chunk) p)
      else bt_get (session_parts s) k)"
  by (simp add: uploaded_session_def bt_get_insert bt_get_remove)

lemma uploaded_session_simps [simp]:
  "us_part_number (uploaded_session D opts chunk p s) = Suc (us_part_number s)"
  "session_upload_id (uploaded_session D opts chunk p s) = session_upload_id s"
  "us_total_bytes (uploaded_session D opts chunk p s) = u64_add (us_total_bytes s) (length chunk)"
  "bt_wf (session_parts s) \<Longrightarrow> bt_wf (session_parts (uploaded_session D opts chunk p s))"
  by (simp_all add: uploaded_session_def session_upload_id_def)

lemma session_upload_id_simps [simp]:
  "session_upload_id (advance_part_number s) = session_upload_id s"
  "session_upload_id (counted chunk s) = session_upload_id s"
  by (simp_all add: session_upload_id_def)

lemma advances_untouched:
  assumes "advances D opts s chunks evs s'" "bt_wf (session_parts s)"
    "k < us_part_number s \<or> us_part_number s + length chunks \<le> k"
  shows "bt_get (session_parts s') k = bt_get (session_parts s) k"
  using assms by induction (auto simp: bt_get_uploaded_session)

text \<open>Every chunk that was taken has an entry that fits, with its number.\<close>

fun covers ::
    "digests \<Rightarrow> resumable_upload_options \<Rightarrow> (nat, uploaded_part) btree \<Rightarrow> nat \<Rightarrow> string list \<Rightarrow> bool" where
  "covers D opts parts n [] = True"
| "covers D opts parts n (chunk # chunks) = (reused D opts parts n chunk \<and> covers D opts parts (Suc n) chunks)"

lemma covers_iff:
  "covers D opts parts n chunks \<longleftrightarrow> (\<forall>i < length chunks. reused D opts parts (n + i) (chunks ! i))"
proof (induction D opts parts n chunks rule: covers.induct)
  case (2 D opts parts n chunk chunks)
  then show ?case by (auto simp: nth_Cons less_Suc_eq_0_disj split: nat.split)
qed simp

lemma advances_covers:
  assumes "advances D opts s chunks evs s'" "bt_wf (session_parts s)"
  shows "covers D opts (session_parts s') (us_part_number s) chunks"
  using assms
proof induction
  case (reuse chunk s chunks evs s')
  have "bt_get (session_parts s') (us_part_number s) = bt_get (session_parts s) (us_part_number s)"
    using advances_untouched [OF reuse.hyps(4)] reuse.prems by simp
  then have "reused D opts (session_parts s') (us_part_number s) chunk"
    using reuse.hyps(3) by (simp add: reused_def)
  then show ?case using reuse.IH reuse.prems by simp
next
  case (upload chunk s evs0 p chunks evs s')
  have "bt_get (session_parts s') (us_part_number s) =
      Some (complete_part (plan_of D opts (us_part_number s) chunk) p)"
    using advances_untouched [OF upload.hyps(6)] upload.prems by (simp add: bt_get_uploaded_session)
  then show ?case using upload accepted_matches [OF upload.hyps(5)] by (simp add: reused_def is_some_and_def)
qed simp

definition numbered :: "(nat, uploaded_part) btree \<Rightarrow> bool" where
  "numbered parts \<longleftrightarrow> (\<forall>k p. bt_get parts k = Some p \<longrightarrow> k \<noteq> 0 \<and> pt_part_number p = k)"

lemma validate_part_numbers_iff: "bt_wf parts \<Longrightarrow> validate_part_numbers parts = Ok () \<longleftrightarrow> numbered parts"
proof -
  assume wf: "bt_wf parts"
  have "validate_part_numbers parts = Ok () \<longleftrightarrow> (\<forall>(k, p) \<in> set parts. k \<noteq> 0 \<and> pt_part_number p = k)"
    by (induction parts rule: validate_part_numbers.induct) auto
  also have "\<dots> \<longleftrightarrow> numbered parts" using wf by (auto simp: numbered_def bt_get_Some_iff)
  finally show ?thesis .
qed

lemma advances_numbered:
  assumes "advances D opts s chunks evs s'" "bt_wf (session_parts s)" "numbered (session_parts s)" "0 < us_part_number s"
  shows "numbered (session_parts s')"
  using assms
proof induction
  case (upload chunk s evs0 p chunks evs s')
  have "numbered (session_parts (uploaded_session D opts chunk p s))"
    using upload.prems accepted_number [OF upload.hyps(5)] by (auto simp: numbered_def bt_get_uploaded_session)
  then show ?case using upload by simp
qed simp_all

lemma advances_total_bytes:
  assumes "advances D opts s chunks evs s'" "us_total_bytes s \<le> u64_max"
  shows "us_total_bytes s' = min u64_max (us_total_bytes s + length (concat chunks))"
  using assms by induction (auto simp: sat_add_def)

text \<open>
  \<open>confirmed\<close> are the uploads that the backend has confirmed with metadata that are accepted, in the
  order of the calls.
\<close>

definition confirmed ::
    "digests \<Rightarrow> resumable_upload_options \<Rightarrow> 'e upload_event list \<Rightarrow> (string \<times> nat \<times> string) list" where
  "confirmed D opts evs = concat (map (\<lambda>e.
     case e of
       Up_Part upload_id n chunk (Ok p) \<Rightarrow> if accepts D opts n chunk p then [(upload_id, n, chunk)] else []
     | _ \<Rightarrow> []) evs)"

lemma confirmed_simps [simp]:
  "confirmed D opts [] = []" "confirmed D opts (evs @ evs') = confirmed D opts evs @ confirmed D opts evs'"
  "confirmed D opts (Up_Part upload_id n chunk (Ok p) # evs) =
     (if accepts D opts n chunk p then [(upload_id, n, chunk)] else []) @ confirmed D opts evs"
  "confirmed D opts (Up_Create c # evs) = confirmed D opts evs"
  "confirmed D opts (Up_Complete upload_id parts u # evs) = confirmed D opts evs"
  "confirmed D opts (Up_Abort upload_id u # evs) = confirmed D opts evs"
  by (simp_all add: confirmed_def)

lemma confirmed_unconfirmed: "unconfirmed D opts upload_id n chunk evs \<Longrightarrow> confirmed D opts evs = []"
  by (auto simp: unconfirmed_def confirmed_def list_all_iff split: upload_event.splits result.splits)

lemma confirmed_attempts: "attempts opts upload_id n chunk k evs \<Longrightarrow> confirmed D opts evs = []"
  by (auto simp: attempts_def failed_attempt_def confirmed_def list_all_iff split: upload_event.splits result.splits)

text \<open>The uploads of a run are the chunks that the checkpoint does not have.\<close>

definition to_upload ::
    "digests \<Rightarrow> resumable_upload_options \<Rightarrow> (nat, uploaded_part) btree \<Rightarrow> nat \<Rightarrow> string list \<Rightarrow> (nat \<times> string) list" where
  "to_upload D opts parts n chunks =
     filter (\<lambda>(n, chunk). \<not> reused D opts parts n chunk) (List.enumerate n chunks)"

lemma to_upload_cong:
  "(\<And>k. n \<le> k \<Longrightarrow> bt_get parts k = bt_get parts' k) \<Longrightarrow> to_upload D opts parts n chunks = to_upload D opts parts' n chunks"
  unfolding to_upload_def by (intro filter_cong) (auto simp: in_set_enumerate_eq reused_def)

lemma to_upload_Cons:
  "to_upload D opts parts n (chunk # chunks) =
     (if reused D opts parts n chunk then [] else [(n, chunk)]) @ to_upload D opts parts (Suc n) chunks"
  by (simp add: to_upload_def)

lemma advances_confirmed:
  assumes "advances D opts s chunks evs s'" "bt_wf (session_parts s)"
  shows "confirmed D opts evs = map (Pair (session_upload_id s)) (to_upload D opts (session_parts s) (us_part_number s) chunks)"
  using assms
proof induction
  case (stay s)
  then show ?case by (simp add: to_upload_def)
next
  case (reuse chunk s chunks evs s')
  then show ?case by (simp add: to_upload_Cons)
next
  case (upload chunk s evs0 p chunks evs s')
  have "to_upload D opts (session_parts (uploaded_session D opts chunk p s)) (Suc (us_part_number s)) chunks =
      to_upload D opts (session_parts s) (Suc (us_part_number s)) chunks"
    by (rule to_upload_cong) (simp add: bt_get_uploaded_session upload.prems)
  then show ?case
    using upload.IH upload.prems upload.hyps(3,5) confirmed_attempts [OF upload.hyps(4), of D]
    by (simp add: to_upload_Cons)
qed

text \<open>No part is sent more often than the options allow.\<close>

definition few_calls :: "resumable_upload_options \<Rightarrow> 'e upload_event list \<Rightarrow> bool" where
  "few_calls opts evs \<longleftrightarrow> (\<forall>n. length (filter (is_part_call n) evs) \<le> uo_max_attempts opts)"

lemma no_part_calls: "attempts opts upload_id k chunk a evs \<Longrightarrow> n \<noteq> k \<Longrightarrow> filter (is_part_call n) evs = []"
  by (auto simp: attempts_def list_all_iff failed_attempt_def filter_empty_conv)

lemma advances_calls:
  assumes "advances D opts s chunks evs s'"
  shows "length (filter (is_part_call n) evs) \<le>
    (if us_part_number s \<le> n \<and> n < us_part_number s + length chunks then uo_max_attempts opts else 0)"
  using assms
proof induction
  case (upload chunk s evs0 p chunks evs s')
  have "n \<noteq> us_part_number s \<Longrightarrow> filter (is_part_call n) evs0 = []" using no_part_calls [OF upload.hyps(4)] by auto
  moreover have "n = us_part_number s \<Longrightarrow> Suc (length (filter (is_part_call n) evs0)) \<le> uo_max_attempts opts"
    using upload.hyps(4) by (simp add: attempts_def)
  ultimately show ?case using upload.IH by auto
qed (auto split: if_splits)

lemma breaks_off_calls:
  assumes "breaks_off D opts left s evs s'"
  shows "length (filter (is_part_call n) evs) \<le> (if n = us_part_number s then uo_max_attempts opts else 0)"
proof (cases "evs = []")
  case False
  then obtain chunk where "unconfirmed D opts (session_upload_id s) (us_part_number s) chunk evs"
    using assms by (auto simp: breaks_off_def)
  then show ?thesis by (auto simp: unconfirmed_def list_all_iff filter_empty_conv)
qed simp

lemma loop_few_calls:
  assumes "loop_ends D opts s r res evs s'"
  shows "few_calls opts evs"
proof -
  obtain chunks left evs0 s1 evs1 where "advances D opts s chunks evs0 s1" "breaks_off D opts left s1 evs1 s'"
      "evs = evs0 @ evs1"
    using assms unfolding loop_ends_def by blast
  then have "length (filter (is_part_call n) evs) \<le> uo_max_attempts opts" for n
    using advances_calls [of D opts s chunks evs0 s1 n] breaks_off_calls [of D opts left s1 evs1 s' n]
      advances_frame [of D opts s chunks evs0 s1]
    by (simp split: if_splits)
  then show ?thesis by (simp add: few_calls_def)
qed

text \<open>The loop only uploads parts and sleeps.\<close>

definition is_transfer :: "'e upload_event \<Rightarrow> bool" where
  "is_transfer e = (case e of Up_Part _ _ _ _ \<Rightarrow> True | Up_Sleep _ \<Rightarrow> True | _ \<Rightarrow> False)"

lemma is_transfer_simps [simp]:
  "is_transfer (Up_Part upload_id n chunk r)" "is_transfer (Up_Sleep d)" "\<not> is_transfer (Up_Create c)"
  "\<not> is_transfer (Up_Complete upload_id parts u)" "\<not> is_transfer (Up_Abort upload_id u)"
  by (simp_all add: is_transfer_def)

lemma attempts_transfer: "attempts opts upload_id n chunk a evs \<Longrightarrow> list_all is_transfer evs"
  by (auto simp: attempts_def failed_attempt_def list_all_iff)

lemma advances_transfer: "advances D opts s chunks evs s' \<Longrightarrow> list_all is_transfer evs"
  by (induction rule: advances.induct) (auto dest: attempts_transfer)

lemma breaks_off_transfer: "breaks_off D opts left s evs s' \<Longrightarrow> list_all is_transfer evs"
  by (auto simp: breaks_off_def unconfirmed_def list_all_iff)

lemma loop_transfer: "loop_ends D opts s r res evs s' \<Longrightarrow> list_all is_transfer evs"
  unfolding loop_ends_def by (auto dest: advances_transfer breaks_off_transfer)

subsection \<open>Completion and abortion\<close>

text \<open>The calls after the loop: at most one completion, and an abortion if it is configured.\<close>

definition completes :: "string \<Rightarrow> (uploaded_part list, 'e resumable_upload_error) result \<Rightarrow> 'e upload_event list \<Rightarrow> bool" where
  "completes upload_id res evs \<longleftrightarrow>
     (case res of
        Ok parts \<Rightarrow> evs = [Up_Complete upload_id parts (Ok ())]
      | Err e \<Rightarrow> evs = [] \<or> (\<exists>parts x. evs = [Up_Complete upload_id parts (Err x)]))"

definition aborts :: "resumable_upload_options \<Rightarrow> string \<Rightarrow> 'e upload_event list \<Rightarrow> bool" where
  "aborts opts upload_id evs \<longleftrightarrow> (if uo_abort_on_error opts then \<exists>a. evs = [Up_Abort upload_id a] else evs = [])"

lemma collect_parts_Ok:
  "\<forall>n \<in> set ns. bt_get (cp_completed_parts cp) n \<noteq> None \<Longrightarrow>
     collect_parts cp ns = Ok (map (\<lambda>n. the (bt_get (cp_completed_parts cp) n)) ns)"
  by (induction ns) auto

lemma collect_parts_error: "collect_parts cp ns = Err e \<Longrightarrow> error_checkpoint e = Some cp"
  by (induction ns arbitrary: e) (auto split: option.splits simp: result_bind_def split: result.splits)

lemma ordered_completed_parts_error: "ordered_completed_parts s = Err e \<Longrightarrow> error_checkpoint e = Some (us_checkpoint s)"
  by (auto simp: ordered_completed_parts_def ordered_parts_def dest: collect_parts_error split: if_splits)

lemma upload_all_parts_ends:
  fixes B :: "('s, 'e) upload_backend"
  assumes run: "upload_all_parts B opts s r w = (res, s', r', w')" and opts: "1 \<le> uo_max_attempts opts" "0 < uo_part_size opts"
  shows "\<exists>evs ends lres. uw_log w' = uw_log w @ evs @ ends \<and> loop_ends (ub_digests B) opts s r lres evs s' \<and>
    completes (session_upload_id s') res ends \<and>
    (case res of
       Ok parts \<Rightarrow> lres = Ok () \<and> (ordered_completed_parts s' :: (uploaded_part list, 'e resumable_upload_error) result) = Ok parts
     | Err e \<Rightarrow> error_checkpoint e = Some (us_checkpoint s'))"
proof -
  obtain lres s1 r1 w1 where loop: "upload_loop B opts s r w = (lres, s1, r1, w1)" by (metis prod.exhaust)
  obtain evs where evs: "uw_log w1 = uw_log w @ evs" "loop_ends (ub_digests B) opts s r lres evs s1"
    using upload_loop_ends [OF loop opts] by blast
  show ?thesis
  proof (cases lres)
    case (Err e)
    then have "res = Err e" "s' = s1" "w' = w1" using run by (simp_all add: upload_all_parts_def loop)
    moreover have "error_checkpoint e = Some (us_checkpoint s1)" using evs(2) Err by (auto simp: loop_ends_def)
    ultimately show ?thesis
      using evs by (intro exI [of _ evs] exI [of _ "[]"] exI [of _ lres]) (simp add: completes_def)
  next
    case (Ok u)
    obtain o1 :: "(uploaded_part list, 'e resumable_upload_error) result" where ord: "ordered_completed_parts s1 = o1" by simp
    show ?thesis
    proof (cases o1)
      case (Err e)
      then have "res = Err e" "s' = s1" "w' = w1" using run Ok ord by (simp_all add: upload_all_parts_def loop)
      then show ?thesis
        using evs ordered_completed_parts_error [of s1 e] ord Err
        by (intro exI [of _ evs] exI [of _ "[]"] exI [of _ lres]) (simp add: completes_def)
    next
      case o1: (Ok parts)
      obtain c state where "ub_complete_upload B (session_upload_id s1) parts (uw_backend w1) = (c, state)" by fastforce
      then have "s' = s1" "w' = upload_did state (Up_Complete (session_upload_id s1) parts c) w1"
          "res = (case c of Err x \<Rightarrow> Err (complete_upload_failed s1 x) | Ok _ \<Rightarrow> Ok parts)"
        using run Ok ord o1 by (auto simp: upload_all_parts_def loop Let_def split: result.splits)
      then show ?thesis
        using evs ord o1 Ok
        by (intro exI [of _ evs] exI [of _ "[Up_Complete (session_upload_id s1) parts c]"] exI [of _ lres])
           (auto simp: completes_def upload_did_def complete_upload_failed_def split: result.splits)
    qed
  qed
qed

lemma abort_ends:
  assumes "abort_error_if_configured_blocking B opts upload_id e w = (e', w')"
  shows "\<exists>evs. uw_log w' = uw_log w @ evs \<and> aborts opts upload_id evs \<and> error_checkpoint e' = error_checkpoint e"
  using assms
  by (auto simp: abort_error_if_configured_blocking_def aborts_def upload_did_def Let_def
      split: if_splits prod.splits result.splits)

end
