(* ===== verification/Reqx_UploadProperties.thy ===== *)
theory Reqx_UploadProperties
  imports Reqx_UploadProofs
begin

text \<open>
  Whole uploads: what the checkpoint of a failed upload is worth, what a run from a checkpoint does, and
  the properties of the two entry points \<open>upload_blocking\<close> and \<open>resume_blocking\<close>.
\<close>

subsection \<open>Checkpoints of a source\<close>

text \<open>
  \<open>holds_first D opts data m cp\<close>: the checkpoint can be resumed with these options, and it has confirmed
  metadata for exactly the first \<open>m\<close> parts of \<open>data\<close>.
\<close>

abbreviation parts_of :: "resumable_upload_options \<Rightarrow> string \<Rightarrow> string list" where
  "parts_of opts data \<equiv> chunks_of (uo_part_size opts) data"

definition holds_first ::
    "digests \<Rightarrow> resumable_upload_options \<Rightarrow> string \<Rightarrow> nat \<Rightarrow> resumable_upload_checkpoint \<Rightarrow> bool" where
  "holds_first D opts data m cp \<longleftrightarrow> m \<le> length (parts_of opts data) \<and> bt_wf (cp_completed_parts cp) \<and>
     validate_checkpoint opts cp = (Ok () :: unit resumable_upload_error unit_result) \<and>
     (\<forall>k. bt_get (cp_completed_parts cp) k \<noteq> None \<longrightarrow> k \<le> m) \<and>
     covers D opts (cp_completed_parts cp) 1 (take m (parts_of opts data))"

lemma validate_checkpoint_Ok:
  "bt_wf (cp_completed_parts cp) \<Longrightarrow> validate_checkpoint opts cp = Ok () \<longleftrightarrow>
     cp_version cp = resumable_upload_checkpoint_version \<and> cp_part_size cp = uo_part_size opts \<and>
     trim (cp_upload_id cp) \<noteq> [] \<and> cp_checksum_algorithm cp = uo_part_checksum_algorithm opts \<and>
     numbered (cp_completed_parts cp)"
  by (simp add: validate_checkpoint_def validate_part_numbers_iff)

lemma filter_drop:
  "(\<And>i. i < length xs \<Longrightarrow> P (xs ! i) \<longleftrightarrow> m \<le> i) \<Longrightarrow> filter P xs = drop m xs"
proof (induction xs arbitrary: m)
  case (Cons x xs)
  have tail: "P (xs ! i) \<longleftrightarrow> m - 1 \<le> i" if "i < length xs" for i
    using Cons.prems [of "Suc i"] that by auto
  show ?case using Cons.prems [of 0] Cons.IH [OF tail] by (cases m) auto
qed simp

lemma to_upload_holds_first:
  assumes "holds_first D opts data m cp"
  shows "to_upload D opts (cp_completed_parts cp) 1 (take j (parts_of opts data)) =
    drop m (take j (List.enumerate 1 (parts_of opts data)))"
proof -
  let ?parts = "parts_of opts data" and ?P = "\<lambda>(n, chunk). \<not> reused D opts (cp_completed_parts cp) n chunk"
  have "?P (List.enumerate 1 (take j ?parts) ! i) \<longleftrightarrow> m \<le> i" if "i < length (List.enumerate 1 (take j ?parts))" for i
  proof (cases "i < m")
    case True
    then show ?thesis using assms that by (auto simp: holds_first_def covers_iff nth_enumerate_eq)
  next
    case False
    then have "bt_get (cp_completed_parts cp) (Suc i) = None" using assms by (force simp: holds_first_def)
    then show ?thesis using False that by (simp add: nth_enumerate_eq reused_def is_some_and_def)
  qed
  then have "filter ?P (List.enumerate 1 (take j ?parts)) = drop m (List.enumerate 1 (take j ?parts))"
    by (rule filter_drop)
  moreover have "List.enumerate 1 (take j ?parts) = take j (List.enumerate 1 ?parts)"
    by (rule nth_equalityI) (auto simp: nth_enumerate_eq)
  ultimately show ?thesis by (simp add: to_upload_def)
qed

lemma advances_holds_first:
  assumes adv: "advances D opts s (take j (parts_of opts data)) evs s'" and j: "j \<le> length (parts_of opts data)"
    and holds: "holds_first D opts data m (us_checkpoint s)" and start: "us_part_number s = 1"
  shows "holds_first D opts data (max m j) (us_checkpoint s')"
proof -
  let ?parts = "parts_of opts data"
  have wf: "bt_wf (session_parts s)" and m: "m \<le> length ?parts" using holds by (simp_all add: holds_first_def)
  have cp: "us_checkpoint s' = (us_checkpoint s)\<lparr> cp_completed_parts := session_parts s' \<rparr>"
    using advances_frame [OF adv] by blast
  have later: "bt_get (session_parts s') k = bt_get (session_parts s) k" if "j < k" for k
    using advances_untouched [OF adv wf] that j start by simp
  have "k \<le> max m j" if "bt_get (session_parts s') k \<noteq> None" for k
    using later [of k] holds that by (cases "j < k") (auto simp: holds_first_def)
  moreover have "reused D opts (session_parts s') (Suc i) (?parts ! i)" if "i < max m j" for i
  proof (cases "i < j")
    case True
    then show ?thesis using advances_covers [OF adv wf] start j by (simp add: covers_iff)
  next
    case False
    then have "reused D opts (session_parts s) (Suc i) (?parts ! i)"
      using holds that m by (auto simp: holds_first_def covers_iff)
    then show ?thesis using later [of "Suc i"] False by (simp add: reused_def)
  qed
  moreover have "numbered (session_parts s')"
    using advances_numbered [OF adv wf] holds wf start
    by (simp add: holds_first_def validate_checkpoint_Ok)
  ultimately show ?thesis
    using holds advances_wf [OF adv wf] wf j m
    by (subst cp) (simp add: holds_first_def validate_checkpoint_Ok covers_iff)
qed

lemma breaks_off_keeps:
  assumes "breaks_off D opts left s evs s'" and start: "us_part_number s = Suc j" and j: "j \<le> length (parts_of opts data)"
    and holds: "holds_first D opts data (max m j) (us_checkpoint s)"
    and left: "left \<noteq> [] \<Longrightarrow> j < length (parts_of opts data) \<and> hd left = parts_of opts data ! j"
  shows "us_checkpoint s' = us_checkpoint s \<and> confirmed D opts evs = []"
proof (cases "s' = s \<and> evs = []")
  case False
  then obtain chunk where chunk: "left \<noteq> []" "hd left = chunk" "\<not> reused D opts (session_parts s) (Suc j) chunk"
      "us_checkpoint s' = (us_checkpoint s)\<lparr> cp_completed_parts := bt_remove (Suc j) (session_parts s) \<rparr>"
      "unconfirmed D opts (session_upload_id s) (Suc j) chunk evs"
    using assms(1) start by (auto simp: breaks_off_def)
  have "\<not> j < max m j"
    using chunk(1-3) left holds by (auto simp: holds_first_def covers_iff)
  then have "bt_get (session_parts s) (Suc j) = None" using holds by (force simp: holds_first_def)
  then show ?thesis using chunk(4) confirmed_unconfirmed [OF chunk(5)] by (simp add: bt_remove_None)
qed simp

lemma loop_from_checkpoint:
  assumes ends: "loop_ends D opts s r res evs s'" and holds: "holds_first D opts data m (us_checkpoint s)"
    and start: "us_part_number s = 1" and data: "delivers r data" "0 < uo_part_size opts"
  shows "\<exists>m' \<ge> m. holds_first D opts data m' (us_checkpoint s') \<and>
    cp_upload_id (us_checkpoint s') = cp_upload_id (us_checkpoint s) \<and>
    confirmed D opts evs =
      map (Pair (session_upload_id s)) (drop m (take m' (List.enumerate 1 (parts_of opts data)))) \<and>
    (case res of
       Ok _ \<Rightarrow> m' = length (parts_of opts data) \<and>
         (\<exists>evs. advances D opts s (parts_of opts data) (evs :: 'e upload_event list) s')
     | Err e \<Rightarrow> error_checkpoint (e :: 'e resumable_upload_error) = Some (us_checkpoint s'))"
proof -
  let ?parts = "parts_of opts data"
  obtain chunks left evs0 s1 evs1 where adv: "advances D opts s chunks evs0 s1" and evs: "evs = evs0 @ evs1"
      and pieces: "pieces (uo_part_size opts) r = chunks @ left" and off: "breaks_off D opts left s1 evs1 s'"
      and res: "case res of Ok _ \<Rightarrow> left = [] \<and> (steady r \<longrightarrow> \<not> failing r) | Err e \<Rightarrow> error_checkpoint e = Some (us_checkpoint s')"
    using ends unfolding loop_ends_def by blast
  obtain more where parts: "?parts = chunks @ left @ more" "\<not> failing r \<longrightarrow> more = []"
    using pieces_chunks_of [OF data(2,1)] pieces by (auto simp: prefix_def split: if_splits)
  define j where "j = length chunks"
  have chunks: "chunks = take j ?parts" and j: "j \<le> length ?parts" by (simp_all add: parts j_def)
  have left: "left \<noteq> [] \<Longrightarrow> j < length ?parts \<and> hd left = ?parts ! j"
    by (cases left) (simp_all add: parts j_def)
  have holds1: "holds_first D opts data (max m j) (us_checkpoint s1)"
    using advances_holds_first [OF adv [unfolded chunks] j holds start] .
  have frame: "us_part_number s1 = Suc j" "cp_upload_id (us_checkpoint s1) = cp_upload_id (us_checkpoint s)"
    using advances_frame [OF adv] start by (auto simp: j_def dest: arg_cong [of _ _ cp_upload_id])
  have keeps: "us_checkpoint s' = us_checkpoint s1" "confirmed D opts evs1 = []"
    using breaks_off_keeps [OF off frame(1) j holds1 left] by auto
  have "confirmed D opts evs0 = map (Pair (session_upload_id s)) (drop m (take j (List.enumerate 1 ?parts)))"
    using advances_confirmed [OF adv] holds start to_upload_holds_first [OF holds, of j] chunks
    by (simp add: holds_first_def)
  also have "drop m (take j (List.enumerate 1 ?parts)) = drop m (take (max m j) (List.enumerate 1 ?parts))"
    by (cases "j \<le> m") (simp_all add: max_def)
  finally have done1: "confirmed D opts evs =
      map (Pair (session_upload_id s)) (drop m (take (max m j) (List.enumerate 1 ?parts)))"
    using evs keeps(2) by simp
  have "m \<le> length ?parts" using holds by (simp add: holds_first_def)
  then have "case res of
       Ok _ \<Rightarrow> max m j = length ?parts \<and> (\<exists>evs. advances D opts s ?parts (evs :: 'e upload_event list) s')
     | Err e \<Rightarrow> error_checkpoint e = Some (us_checkpoint s')"
    using res off parts data(1) adv by (auto simp: j_def delivers_def split: result.splits)
  then show ?thesis using holds1 keeps(1) frame(2) done1 by (intro exI [of _ "max m j"]) simp
qed

subsection \<open>Runs from a checkpoint\<close>

definition session_of :: "resumable_upload_checkpoint \<Rightarrow> bool \<Rightarrow> upload_session" where
  "session_of cp resumed = \<lparr> us_checkpoint = cp, us_resumed = resumed, us_total_bytes = 0, us_part_number = 1 \<rparr>"

lemma session_of_simps [simp]:
  "us_checkpoint (session_of cp resumed) = cp" "us_part_number (session_of cp resumed) = 1"
  "us_total_bytes (session_of cp resumed) = 0" "session_upload_id (session_of cp resumed) = cp_upload_id cp"
  by (simp_all add: session_of_def session_upload_id_def)

lemma holds_first_valid:
  "holds_first D opts data m cp \<Longrightarrow> validate_checkpoint opts cp = Ok () \<and> numbered (cp_completed_parts cp)"
  by (auto simp: holds_first_def validate_checkpoint_Ok)

lemma holds_first_session: "holds_first D opts data m cp \<Longrightarrow> session_new opts cp resumed = Ok (session_of cp resumed)"
  by (simp add: session_new_def session_of_def holds_first_valid)

lemma holds_first_entry:
  assumes "holds_first D opts data m cp" "i < m"
  shows "\<exists>p. bt_get (cp_completed_parts cp) (Suc i) = Some p \<and> pt_part_number p = Suc i \<and>
    part_matches D opts (parts_of opts data ! i) p"
proof -
  have "reused D opts (cp_completed_parts cp) (Suc i) (parts_of opts data ! i)"
    using assms by (auto simp: holds_first_def covers_iff)
  then obtain p where "bt_get (cp_completed_parts cp) (Suc i) = Some p" "part_matches D opts (parts_of opts data ! i) p"
    by (auto simp: reused_def is_some_and_def split: option.splits)
  then show ?thesis using holds_first_valid [OF assms(1)] by (auto simp: numbered_def)
qed

text \<open>What a successful upload returns.\<close>

definition whole_upload ::
    "digests \<Rightarrow> resumable_upload_options \<Rightarrow> string \<Rightarrow> string \<Rightarrow> resumable_upload_result \<Rightarrow> bool" where
  "whole_upload D opts data upload_id result \<longleftrightarrow> ur_upload_id result = upload_id \<and>
     ur_total_bytes result = min u64_max (length data) \<and> ur_total_parts result = length (parts_of opts data) \<and>
     list_all2 (\<lambda>(n, chunk) p. pt_part_number p = n \<and> part_matches D opts chunk p)
       (List.enumerate 1 (parts_of opts data)) (ur_completed_parts result)"

lemma whole_upload_finish:
  assumes adv: "advances D opts (session_of cp resumed) (parts_of opts data) evs s"
    and holds: "holds_first D opts data (length (parts_of opts data)) (us_checkpoint s)"
    and parts: "ordered_completed_parts s = Ok parts" and size: "0 < uo_part_size opts"
  shows "whole_upload D opts data (cp_upload_id (us_checkpoint s)) (session_finish parts s)"
proof -
  let ?parts = "parts_of opts data" and ?get = "bt_get (session_parts s)"
  have number: "us_part_number s = Suc (length ?parts)" using advances_frame [OF adv] by simp
  have total: "session_total_parts s = length ?parts"
    using number advances_numbers_small [OF adv]
    by (cases "?parts = []") (auto simp: session_total_parts_def max_resumable_upload_part_number_def)
  have entry: "?get (Suc i) \<noteq> None \<and> pt_part_number (the (?get (Suc i))) = Suc i \<and>
      part_matches D opts (?parts ! i) (the (?get (Suc i)))" if "i < length ?parts" for i
    using holds_first_entry [OF holds that] by auto
  have "\<forall>n \<in> set [1..<Suc (length ?parts)]. ?get n \<noteq> None"
  proof
    fix n assume "n \<in> set [1..<Suc (length ?parts)]"
    then have "1 \<le> n" "n < Suc (length ?parts)" unfolding set_upt by simp_all
    then obtain i where "n = Suc i" "i < length ?parts" by (cases n) auto
    then show "?get n \<noteq> None" using entry by blast
  qed
  then have "parts = map (\<lambda>n. the (?get n)) [1..<Suc (length ?parts)]"
    using parts total by (simp add: ordered_completed_parts_def ordered_parts_def collect_parts_Ok del: upt_Suc split: if_splits)
  then have "list_all2 (\<lambda>(n, chunk) p. pt_part_number p = n \<and> part_matches D opts chunk p) (List.enumerate 1 ?parts) parts"
    using entry by (auto simp: list_all2_conv_all_nth nth_enumerate_eq simp del: upt_Suc)
  moreover have "us_total_bytes s = min u64_max (length data)"
    using advances_total_bytes [OF adv] concat_chunks_of [OF size, of data] by simp
  ultimately show ?thesis
    using total by (simp add: whole_upload_def session_finish_def session_upload_id_def)
qed

text \<open>
  A run from a checkpoint that has the first \<open>m\<close> parts: it uploads the parts from there on, in order, and
  either completes with all of them or fails with a checkpoint that has the first \<open>m'\<close>.
\<close>

definition run_ends ::
    "digests \<Rightarrow> resumable_upload_options \<Rightarrow> string \<Rightarrow> string \<Rightarrow> nat \<Rightarrow>
     (resumable_upload_result, 'e resumable_upload_error) result \<Rightarrow> 'e upload_event list \<Rightarrow> bool" where
  "run_ends D opts data upload_id m res evs \<longleftrightarrow> (\<exists>m' \<ge> m.
     confirmed D opts evs = map (Pair upload_id) (drop m (take m' (List.enumerate 1 (parts_of opts data)))) \<and>
     (case res of
        Ok result \<Rightarrow> m' = length (parts_of opts data) \<and> whole_upload D opts data upload_id result \<and>
          (\<exists>evs'. evs = evs' @ [Up_Complete upload_id (ur_completed_parts result) (Ok ())] \<and> list_all is_transfer evs')
      | Err e \<Rightarrow> \<exists>cp. error_checkpoint e = Some cp \<and> cp_upload_id cp = upload_id \<and> holds_first D opts data m' cp))"

lemma confirmed_ends [simp]:
  "completes upload_id res evs \<Longrightarrow> confirmed D opts evs = []" "aborts opts upload_id evs \<Longrightarrow> confirmed D opts evs = []"
  by (auto simp: completes_def aborts_def split: result.splits if_splits)

lemma run_from_checkpoint:
  fixes B :: "('s, 'e) upload_backend"
  assumes run: "upload_with_checkpoint_blocking B opts r cp resumed w = (res, w')"
    and holds: "holds_first (ub_digests B) opts data m cp" and data: "delivers r data"
    and opts: "1 \<le> uo_max_attempts opts" "0 < uo_part_size opts"
  shows "\<exists>evs. uw_log w' = uw_log w @ evs \<and> run_ends (ub_digests B) opts data (cp_upload_id cp) m res evs"
proof -
  let ?D = "ub_digests B" and ?s = "session_of cp resumed" and ?id = "cp_upload_id cp"
  obtain ares s1 r1 w1 where all: "upload_all_parts B opts ?s r w = (ares, s1, r1, w1)" by (metis prod.exhaust)
  obtain evs ends lres where evs: "uw_log w1 = uw_log w @ evs @ ends" "loop_ends ?D opts ?s r lres evs s1"
      "completes (session_upload_id s1) ares ends"
      and ares: "case ares of
         Ok parts \<Rightarrow> lres = Ok () \<and> (ordered_completed_parts s1 :: (uploaded_part list, 'e resumable_upload_error) result) = Ok parts
       | Err e \<Rightarrow> error_checkpoint e = Some (us_checkpoint s1)"
    using upload_all_parts_ends [OF all opts] by blast
  obtain m' where m': "m \<le> m'" "holds_first ?D opts data m' (us_checkpoint s1)" "cp_upload_id (us_checkpoint s1) = ?id"
      "confirmed ?D opts evs = map (Pair ?id) (drop m (take m' (List.enumerate 1 (parts_of opts data))))"
      and lres: "case lres of
         Ok _ \<Rightarrow> m' = length (parts_of opts data) \<and>
           (\<exists>evs. advances ?D opts ?s (parts_of opts data) (evs :: 'e upload_event list) s1)
       | Err e \<Rightarrow> error_checkpoint e = Some (us_checkpoint s1)"
    using loop_from_checkpoint [OF evs(2) _ _ data opts(2), of m, unfolded session_of_simps, OF holds refl] by blast
  note unfold_run = upload_with_checkpoint_blocking_def holds_first_session [OF holds] all
  show ?thesis
  proof (cases ares)
    case (Ok parts)
    then have "res = Ok (session_finish parts s1)" "w' = w1" using run by (simp_all add: unfold_run)
    moreover have "whole_upload ?D opts data ?id (session_finish parts s1)"
      using lres ares Ok m' whole_upload_finish [OF _ _ _ opts(2), of ?D cp resumed data _ s1 parts] by auto
    ultimately show ?thesis
      using evs m' lres ares Ok loop_transfer [OF evs(2)]
      by (auto simp: run_ends_def completes_def session_finish_def session_upload_id_def)
  next
    case (Err e)
    then obtain e' where ab: "abort_error_if_configured_blocking B opts (session_upload_id s1) e w1 = (e', w')" "res = Err e'"
      using run by (auto simp: unfold_run split: prod.splits)
    obtain last where "uw_log w' = uw_log w1 @ last" "aborts opts (session_upload_id s1) last"
        "error_checkpoint e' = error_checkpoint e"
      using abort_ends [OF ab(1)] by blast
    then show ?thesis
      using evs m' ares Err ab(2) by (intro exI [of _ "evs @ ends @ last"]) (auto simp: run_ends_def)
  qed
qed

text \<open>A new upload: it fails before there is a session, or runs from an empty checkpoint.\<close>

definition empty_checkpoint :: "resumable_upload_options \<Rightarrow> string \<Rightarrow> resumable_upload_checkpoint" where
  "empty_checkpoint opts upload_id =
     (checkpoint_new upload_id (uo_part_size opts))\<lparr> cp_checksum_algorithm := uo_part_checksum_algorithm opts \<rparr>"

lemma empty_checkpoint_simps [simp]:
  "cp_upload_id (empty_checkpoint opts upload_id) = upload_id" "cp_completed_parts (empty_checkpoint opts upload_id) = []"
  by (simp_all add: empty_checkpoint_def checkpoint_new_def)

lemma empty_checkpoint_valid:
  "validate_checkpoint opts (empty_checkpoint opts upload_id) = (if trim upload_id = [] then Err Upload_EmptyUploadId else Ok ())"
  by (simp add: validate_checkpoint_def empty_checkpoint_def checkpoint_new_def)

lemma empty_checkpoint_holds: "trim upload_id \<noteq> [] \<Longrightarrow> holds_first D opts data 0 (empty_checkpoint opts upload_id)"
  by (simp add: holds_first_def empty_checkpoint_valid bt_get_def)

lemma options_Ok: "upload_options_validate opts = Ok u \<Longrightarrow> 1 \<le> uo_max_attempts opts \<and> 0 < uo_part_size opts"
  by (auto simp: upload_options_validate_def split: if_splits)

lemma options_error: "upload_options_validate opts = Err e \<Longrightarrow> error_checkpoint e = None"
  by (auto simp: upload_options_validate_def upload_invalid_options_def split: if_splits)

lemma upload_blocking_cases:
  fixes B :: "('s, 'e) upload_backend"
  assumes "upload_blocking B opts r w = (res, w')"
  obtains (refused) e cr where "res = Err e" "error_checkpoint e = None" "uw_log w' = uw_log w @ cr"
      "cr = [] \<or> (\<exists>c. cr = [Up_Create c])"
  | (started) upload_id w1 where "1 \<le> uo_max_attempts opts" "0 < uo_part_size opts" "trim upload_id \<noteq> []"
      "uw_log w1 = uw_log w @ [Up_Create (Ok upload_id)]"
      "upload_with_checkpoint_blocking B opts r (empty_checkpoint opts upload_id) False w1 = (res, w')"
proof (cases "upload_options_validate opts :: 'e resumable_upload_error unit_result")
  case (Err e)
  then show thesis using assms options_error [OF Err] refused [of e "[]"] by (simp add: upload_blocking_def)
next
  case (Ok u)
  obtain c state where create: "ub_create_upload B (uw_backend w) = (c, state)" by fastforce
  let ?w = "upload_did state (Up_Create c) w"
  have log: "uw_log ?w = uw_log w @ [Up_Create c]" by (simp add: upload_did_def)
  show thesis
  proof (cases c)
    case (Err x)
    then show thesis
      using assms Ok create log refused [of "Upload_CreateFailed x" "[Up_Create c]"] by (simp add: upload_blocking_def Let_def)
  next
    case c: (Ok upload_id)
    then have run: "upload_with_checkpoint_blocking B opts r (empty_checkpoint opts upload_id) False ?w = (res, w')"
      using assms Ok create by (simp add: upload_blocking_def Let_def empty_checkpoint_def)
    show thesis
    proof (cases "trim upload_id = []")
      case True
      then have "res = Err Upload_EmptyUploadId" "w' = ?w"
        using run by (simp_all add: upload_with_checkpoint_blocking_def session_new_def empty_checkpoint_valid)
      then show thesis using log refused [of Upload_EmptyUploadId "[Up_Create c]"] by simp
    next
      case False
      then show thesis using started [of upload_id ?w] options_Ok [OF Ok] run log c False by simp
    qed
  qed
qed

text \<open>The calls of a run, whatever the source and the backend do.\<close>

definition control :: "'e upload_event list \<Rightarrow> 'e upload_event list" where
  "control evs = filter (\<lambda>e. \<not> is_transfer e) evs"

lemma run_calls:
  fixes B :: "('s, 'e) upload_backend"
  assumes run: "upload_with_checkpoint_blocking B opts r cp resumed w = (res, w')"
    and opts: "1 \<le> uo_max_attempts opts" "0 < uo_part_size opts"
  shows "\<exists>evs ends last. uw_log w' = uw_log w @ evs @ ends @ last \<and> few_calls opts evs \<and> list_all is_transfer evs \<and>
    (ends = [] \<or> (\<exists>upload_id parts u. ends = [Up_Complete upload_id parts u])) \<and>
    (last = [] \<or> uo_abort_on_error opts \<and> (\<exists>e. res = Err e) \<and> (\<exists>upload_id a. last = [Up_Abort upload_id a]))"
proof (cases "session_new opts cp resumed :: (upload_session, 'e resumable_upload_error) result")
  case (Err e)
  then show ?thesis
    using run by (intro exI [of _ "[]"]) (simp add: upload_with_checkpoint_blocking_def few_calls_def)
next
  case (Ok s)
  obtain ares s1 r1 w1 where all: "upload_all_parts B opts s r w = (ares, s1, r1, w1)" by (metis prod.exhaust)
  obtain evs ends lres where evs: "uw_log w1 = uw_log w @ evs @ ends" "loop_ends (ub_digests B) opts s r lres evs s1"
      "completes (session_upload_id s1) ares ends"
    using upload_all_parts_ends [OF all opts] by blast
  have ends: "ends = [] \<or> (\<exists>upload_id parts u. ends = [Up_Complete upload_id parts u])"
    using evs(3) by (auto simp: completes_def split: result.splits)
  obtain last where "uw_log w' = uw_log w1 @ last"
      "last = [] \<or> uo_abort_on_error opts \<and> (\<exists>e. res = Err e) \<and> (\<exists>upload_id a. last = [Up_Abort upload_id a])"
  proof (cases ares)
    case ares: (Ok parts)
    then show thesis using run Ok that [of "[]"] by (simp add: upload_with_checkpoint_blocking_def all)
  next
    case (Err e)
    then obtain e' where ab: "abort_error_if_configured_blocking B opts (session_upload_id s1) e w1 = (e', w')" "res = Err e'"
      using run Ok by (auto simp: upload_with_checkpoint_blocking_def all split: prod.splits)
    then show thesis using abort_ends [OF ab(1)] that by (auto simp: aborts_def split: if_splits)
  qed
  then show ?thesis
    using evs ends loop_few_calls [OF evs(2)] loop_transfer [OF evs(2)]
    by (intro exI [of _ evs] exI [of _ ends] exI [of _ last]) simp
qed

subsection \<open>An example\<close>

text \<open>
  A backend whose state counts its calls: the second call of \<open>upload_part\<close> fails, and so do the fifth to
  the seventh, so that an upload in parts of two bytes retries its second part and gives up on its fourth.
\<close>

definition example_backend :: "(nat, unit) upload_backend" where
  "example_backend =
     \<lparr> ub_create_upload = (\<lambda>n. (Ok ''id'', n)),
       ub_upload_part = (\<lambda>upload_id k chunk n.
         (if n = 1 \<or> 4 \<le> n \<and> n \<le> 6 then Err ()
          else Ok \<lparr> pt_part_number = k, pt_etag = ''e'', pt_size = length chunk, pt_checksum = None \<rparr>, Suc n)),
       ub_complete_upload = (\<lambda>_ _ n. (Ok (), n)), ub_abort_upload = (\<lambda>_ n. (Ok (), n)),
       ub_digests = \<lparr> dg_md5_hex = (\<lambda>data. data), dg_sha256 = (\<lambda>data. data) \<rparr>,
       ub_sample = (\<lambda>_ low high. low) \<rparr>"

definition example_upload_options :: resumable_upload_options where
  "example_upload_options =
     \<lparr> uo_part_size = 2, uo_max_attempts = 3, uo_base_backoff = 5, uo_max_backoff = 9, uo_jitter_ratio = Fin 0,
       uo_abort_on_error = False, uo_part_checksum_algorithm = Some Md5, uo_verify_remote_etag = False \<rparr>"

definition example_upload_world :: "nat \<Rightarrow> (nat, unit) upload_world" where
  "example_upload_world n = \<lparr> uw_backend = n, uw_samples = 0, uw_log = [] \<rparr>"

text \<open>The loops one step at a time, for evaluation.\<close>

lemma upload_part_loop_steps:
  fixes B :: "('s, 'e) upload_backend"
  assumes "ub_upload_part B (session_upload_id s) (pl_part_number plan) (pl_chunk plan) (uw_backend w) = (r, state)"
  shows "r = Ok p \<Longrightarrow> upload_part_loop B opts s plan attempt w =
      (Ok p, upload_did state (Up_Part (session_upload_id s) (pl_part_number plan) (pl_chunk plan) (Ok p)) w)"
    and "r = Err src \<Longrightarrow> uo_max_attempts opts \<le> attempt \<Longrightarrow> upload_part_loop B opts s plan attempt w =
      (Err (part_upload_failed s plan attempt src),
       upload_did state (Up_Part (session_upload_id s) (pl_part_number plan) (pl_chunk plan) (Err src)) w)"
  using assms by (simp_all add: upload_part_loop.simps [of B opts s plan attempt w] retry_record_failure_def)

lemma upload_part_loop_retry:
  assumes "ub_upload_part B (session_upload_id s) (pl_part_number plan) (pl_chunk plan) (uw_backend w) = (Err src, state)"
    "attempt < uo_max_attempts opts" "upload_backoff_for_retry (ub_sample B (uw_samples w)) opts attempt = delay"
  shows "upload_part_loop B opts s plan attempt w =
    upload_part_loop B opts s plan (attempt + 1)
      (w\<lparr> uw_backend := state, uw_samples := Suc (uw_samples w),
         uw_log := uw_log w @ Up_Part (session_upload_id s) (pl_part_number plan) (pl_chunk plan) (Err src) #
           (if delay \<noteq> 0 then [Up_Sleep delay] else []) \<rparr>)"
  using assms
  by (subst upload_part_loop.simps, cases w) (simp add: retry_record_failure_def upload_did_def Let_def)

lemma upload_loop_steps:
  fixes B :: "('s, 'e) upload_backend"
  assumes "upload_read_chunk (uo_part_size opts) r = (Ok chunk, r1)"
    "(next_chunk (ub_digests B) opts chunk s :: (upload_chunk_action, 'e resumable_upload_error) result \<times> upload_session) = (Ok a, s1)"
  shows "a = Action_Finish \<Longrightarrow> upload_loop B opts s r w = (Ok (), s1, r1, w)"
    and "a = Action_Skip \<Longrightarrow> upload_loop B opts s r w = upload_loop B opts s1 r1 w"
    and "a = Action_Upload plan \<Longrightarrow> upload_part_with_retries_blocking B opts s1 plan w = (Err e, w1) \<Longrightarrow>
      upload_loop B opts s r w = (Err e, s1, r1, w1)"
    and "a = Action_Upload plan \<Longrightarrow> upload_part_with_retries_blocking B opts s1 plan w = (Ok p, w1) \<Longrightarrow>
      (accept_uploaded_part opts plan p s1 :: 'e resumable_upload_error unit_result \<times> upload_session) = (Ok (), s2) \<Longrightarrow>
      upload_loop B opts s r w = upload_loop B opts s2 r1 w1"
  using assms by (simp_all add: upload_loop.simps [of B opts s r w])

lemmas example_upload_defs = upload_blocking_def resume_blocking_def upload_options_validate_def
  upload_with_checkpoint_blocking_def session_new_def validate_checkpoint_def checkpoint_new_def
  upload_all_parts_def upload_loop_steps upload_read_chunk_def next_chunk_def current_part_number_def
  checkpoint_has_remaining_parts_def expected_checksum_of_def compute_hex_def checkpoint_part_matches_def
  upload_part_with_retries_blocking_def upload_part_loop_steps upload_part_loop_retry backoff_for_retry_def
  accept_uploaded_part_def validate_uploaded_part_def validate_part_checksum_def validate_part_etag_def
  complete_part_def advance_part_number_def ordered_completed_parts_def ordered_parts_def
  session_total_parts_def max_resumable_upload_part_number_def session_finish_def session_upload_id_def
  abort_error_if_configured_blocking_def part_upload_failed_def upload_did_def
  exponential_backoff_with_jitter_def apply_backoff_jitter_def clamp_f64_or_fallback_def f64_clamp_def
  duration_from_nanos_saturating_def sat_mul_def sat_add_def bt_get_def bt_remove_def Let_def max_values
  resumable_upload_checkpoint_version_def trim_def trim_start_matches_def trim_end_matches_def
  is_ascii_whitespace_def

definition example_source :: "io_error reader" where
  "example_source = [ReadChunk ''abc'', ReadInterrupted, ReadChunk ''de'']"

lemma example_source [simp]: "delivers example_source ''abcde''"
  by (simp add: example_source_def delivers_def)

lemmas example_upload_simps = example_upload_defs example_backend_def example_upload_options_def
  example_upload_world_def example_source_def

lemma example_upload_run:
  "\<exists>result w'. upload_blocking example_backend example_upload_options example_source (example_upload_world 0) = (Ok result, w')"
  by (simp add: example_upload_simps)

text \<open>From its third call on the backend fails three times: the third part is not confirmed.\<close>

lemma example_upload_fails:
  "\<exists>e cp w1 result w2. upload_blocking example_backend example_upload_options example_source (example_upload_world 2) = (Err e, w1) \<and>
     error_checkpoint e = Some cp \<and>
     resume_blocking example_backend example_upload_options example_source cp (example_upload_world 9) = (Ok result, w2)"
  by (simp add: example_upload_simps)

subsection \<open>Properties\<close>

text \<open>
  C18: An upload that succeeds has uploaded the source, the whole source and nothing but the source. The
  uploads that the backend has confirmed are the consecutive parts of the source, each exactly once and
  in order; after the last one the upload is completed, once and with the confirmed metadata of all parts,
  whose numbers, sizes and checksums fit the parts; and the result counts the parts and the bytes.
\<close>

theorem upload_whole_source:
  assumes "upload_blocking B opts r w = (Ok result, w')" and "delivers r data"
  shows "\<exists>upload_id evs.
    uw_log w' = uw_log w @ Up_Create (Ok upload_id) # evs @ [Up_Complete upload_id (ur_completed_parts result) (Ok ())] \<and>
    list_all is_transfer evs \<and>
    confirmed (ub_digests B) opts evs = map (Pair upload_id) (List.enumerate 1 (chunks_of (uo_part_size opts) data)) \<and>
    concat (chunks_of (uo_part_size opts) data) = data \<and>
    whole_upload (ub_digests B) opts data upload_id result"
  using assms(1)
proof (cases rule: upload_blocking_cases)
  case (started upload_id w1)
  obtain evs where "uw_log w' = uw_log w1 @ evs" "run_ends (ub_digests B) opts data upload_id 0 (Ok result) evs"
    using run_from_checkpoint [OF started(5) empty_checkpoint_holds [OF started(3)] assms(2) started(1,2)] by auto
  then show ?thesis
    using started concat_chunks_of [of "uo_part_size opts" data]
    by (fastforce simp: run_ends_def intro!: exI [of _ upload_id])
qed simp

theorem upload_whole_source_witness:
  "\<exists>result w' upload_id.
     upload_blocking example_backend example_upload_options example_source (example_upload_world 0) = (Ok result, w') \<and>
     whole_upload (ub_digests example_backend) example_upload_options ''abcde'' upload_id result \<and> ur_total_bytes result = 5"
proof -
  obtain result w' where run: "upload_blocking example_backend example_upload_options example_source (example_upload_world 0) =
      (Ok result, w')"
    using example_upload_run by blast
  then obtain upload_id where "whole_upload (ub_digests example_backend) example_upload_options ''abcde'' upload_id result"
    using upload_whole_source [OF run example_source] by blast
  with run show ?thesis by (auto simp: whole_upload_def max_values)
qed

text \<open>
  C19: An upload that was interrupted is resumed where it stopped. If an upload fails with a checkpoint,
  whatever the backend or the source did, the checkpoint can be resumed with the same options; and if the
  upload is resumed with it from the start of the same source and succeeds, the two runs together
  have uploaded every part exactly once and in order, and the upload is as complete as an uninterrupted one.
\<close>

theorem interrupted_upload_resumes:
  fixes B B' :: "('s, 'e) upload_backend"
  assumes "upload_blocking B opts r w = (Err e, w1)" and "error_checkpoint e = Some cp" and "delivers r data"
    and "resume_blocking B' opts r' cp w2 = (Ok result, w3)" and "delivers r' data" and "ub_digests B' = ub_digests B"
  shows "(validate_checkpoint opts cp :: 'e resumable_upload_error unit_result) = Ok () \<and>
    (\<exists>upload_id evs evs'. uw_log w1 = uw_log w @ Up_Create (Ok upload_id) # evs \<and> uw_log w3 = uw_log w2 @ evs' \<and>
       confirmed (ub_digests B) opts evs @ confirmed (ub_digests B) opts evs' =
         map (Pair upload_id) (List.enumerate 1 (chunks_of (uo_part_size opts) data)) \<and>
       whole_upload (ub_digests B) opts data upload_id result)"
  using assms(1)
proof (cases rule: upload_blocking_cases)
  case (refused e' cr)
  then show ?thesis using assms(2) by simp
next
  case (started upload_id w0)
  let ?D = "ub_digests B" and ?all = "List.enumerate 1 (parts_of opts data)"
  obtain evs where evs: "uw_log w1 = uw_log w0 @ evs" "run_ends ?D opts data upload_id 0 (Err e) evs"
    using run_from_checkpoint [OF started(5) empty_checkpoint_holds [OF started(3)] assms(3) started(1,2)] by auto
  then obtain m where m: "confirmed ?D opts evs = map (Pair upload_id) (take m ?all)" "cp_upload_id cp = upload_id"
      "holds_first ?D opts data m cp"
    using assms(2) by (auto simp: run_ends_def)
  have "upload_with_checkpoint_blocking B' opts r' cp True w2 = (Ok result, w3)"
    using assms(4) by (auto simp: resume_blocking_def split: result.splits)
  then obtain evs' where evs': "uw_log w3 = uw_log w2 @ evs'" "run_ends ?D opts data upload_id m (Ok result) evs'"
    using run_from_checkpoint [of B' opts r' cp True w2 _ w3 data m] m assms(5,6) started(1,2) by auto
  have "confirmed ?D opts evs' = map (Pair upload_id) (drop m ?all)" "whole_upload ?D opts data upload_id result"
    using evs'(2) by (auto simp: run_ends_def)
  then have "confirmed ?D opts evs @ confirmed ?D opts evs' = map (Pair upload_id) ?all"
    using m(1) by (simp flip: map_append)
  then show ?thesis
    using started(4) evs(1) evs'(1) holds_first_valid [OF m(3)] \<open>whole_upload ?D opts data upload_id result\<close> by auto
qed

theorem interrupted_upload_resumes_witness:
  "\<exists>e cp w1 result w2 upload_id.
     upload_blocking example_backend example_upload_options example_source (example_upload_world 2) = (Err e, w1) \<and>
     error_checkpoint e = Some cp \<and>
     resume_blocking example_backend example_upload_options example_source cp (example_upload_world 9) = (Ok result, w2) \<and>
     whole_upload (ub_digests example_backend) example_upload_options ''abcde'' upload_id result"
proof -
  obtain e cp w1 result w2 where run:
      "upload_blocking example_backend example_upload_options example_source (example_upload_world 2) = (Err e, w1)"
      "error_checkpoint e = Some cp"
      "resume_blocking example_backend example_upload_options example_source cp (example_upload_world 9) = (Ok result, w2)"
    using example_upload_fails by blast
  then show ?thesis
    using interrupted_upload_resumes [OF run(1,2) example_source run(3) example_source refl] by blast
qed

text \<open>
  C20: An upload makes few calls. Whatever happens, no part is sent more often than the options allow; the
  upload is created at most once, completed at most once after that, and aborted at most once at the
  very end, only if that is configured and the upload fails.
\<close>

theorem upload_calls_bounded:
  assumes "upload_blocking B opts r w = (res, w')"
  shows "\<exists>evs creation completion abortion. uw_log w' = uw_log w @ evs \<and>
    (\<forall>n. length (filter (is_part_call n) evs) \<le> uo_max_attempts opts) \<and>
    control evs = creation @ completion @ abortion \<and> (creation = [] \<or> (\<exists>c. creation = [Up_Create c])) \<and>
    (completion = [] \<or> (\<exists>upload_id parts u. completion = [Up_Complete upload_id parts u])) \<and>
    (abortion = [] \<or> uo_abort_on_error opts \<and> (\<exists>e. res = Err e) \<and> (\<exists>upload_id a. abortion = [Up_Abort upload_id a]))"
  using assms
proof (cases rule: upload_blocking_cases)
  case (refused e cr)
  then show ?thesis by (intro exI [of _ cr] exI [of _ "[]"]) (auto simp: control_def)
next
  case (started upload_id w1)
  obtain evs ends last where run: "uw_log w' = uw_log w1 @ evs @ ends @ last" "few_calls opts evs" "list_all is_transfer evs"
      "ends = [] \<or> (\<exists>upload_id parts u. ends = [Up_Complete upload_id parts u])"
      "last = [] \<or> uo_abort_on_error opts \<and> (\<exists>e. res = Err e) \<and> (\<exists>upload_id a. last = [Up_Abort upload_id a])"
    using run_calls [OF started(5,1,2)] by blast
  let ?all = "Up_Create (Ok upload_id) # evs @ ends @ last"
  have "control ?all = [Up_Create (Ok upload_id)] @ ends @ last"
    using run(3-5) by (auto simp: control_def list_all_iff filter_empty_conv)
  moreover have "length (filter (is_part_call n) ?all) \<le> uo_max_attempts opts" for n
    using run(2,4,5) by (auto simp: few_calls_def)
  ultimately show ?thesis
    using run(1,4,5) started(4)
    by (intro exI [of _ ?all] exI [of _ "[Up_Create (Ok upload_id)]"] exI [of _ ends] exI [of _ last]) simp
qed

theorem upload_calls_bounded_witness:
  "\<exists>evs. uw_log (snd (upload_blocking example_backend example_upload_options example_source (example_upload_world 0))) = evs \<and>
     length (filter (is_part_call 2) evs) \<le> 3 \<and> length (filter (is_part_call 2) evs) = 2"
proof -
  obtain res w' where run: "upload_blocking example_backend example_upload_options example_source (example_upload_world 0) = (res, w')"
    by fastforce
  moreover have "length (filter (is_part_call 2) (uw_log (snd (upload_blocking example_backend example_upload_options
      example_source (example_upload_world 0))))) = 2"
    by (simp add: example_upload_simps)
  ultimately show ?thesis using upload_calls_bounded [OF run] by (auto simp: example_upload_world_def example_upload_options_def)
qed

end
