(* ===== verification/Reqx_AsyncUploadProofs.thy ===== *)
theory Reqx_AsyncUploadProofs
  imports Reqx_AsyncUpload
begin

text \<open>
  The asynchronous uploader simulates the blocking one: as long as its future is not dropped it does
  what the blocking uploader does, and when it is dropped the blocking uploader has done the same so far
  and goes on with the call that was in flight.
\<close>

subsection \<open>The simulation\<close>

fun answers :: "'e upload_call \<Rightarrow> 'e upload_event \<Rightarrow> bool" where
  "answers Call_Create (Up_Create _) = True"
| "answers (Call_Part upload_id n chunk) (Up_Part upload_id' n' chunk' _) =
     (upload_id' = upload_id \<and> n' = n \<and> chunk' = chunk)"
| "answers (Call_Sleep d) (Up_Sleep d') = (d' = d)"
| "answers (Call_Complete upload_id parts) (Up_Complete upload_id' parts' _) =
     (upload_id' = upload_id \<and> parts' = parts)"
| "answers (Call_Abort upload_id) (Up_Abort upload_id' _) = (upload_id' = upload_id)"
| "answers _ _ = False"

definition goes_on_after :: "'e upload_call \<Rightarrow> 'e upload_event list \<Rightarrow> bool" where
  "goes_on_after call rest \<longleftrightarrow> call = Call_Read \<or> (\<exists>ev evs. rest = ev # evs \<and> answers call ev)"

lemma goes_on_after_append: "goes_on_after call rest \<Longrightarrow> goes_on_after call (rest @ evs)"
  by (auto simp: goes_on_after_def)

definition ends_like ::
    "('s, 'e) async_upload_backend \<Rightarrow> 'a future_end \<times> ('s, 'e) async_upload_world \<Rightarrow> 'a \<times> ('s, 'e) upload_world \<Rightarrow> bool" where
  "ends_like A a b \<longleftrightarrow>
     (case fst a of
        Ready v \<Rightarrow> v = fst b \<and> ax_world (snd a) = snd b
      | Dropped \<Rightarrow> \<exists>call rest. ax_in_flight (snd a) = Some call \<and> av_dropped A (ax_awaits (snd a) - 1) \<and>
          uw_log (snd b) = uw_log (ax_world (snd a)) @ rest \<and> goes_on_after call rest)"

lemma ends_like_Ready [simp]: "ends_like A (Ready v, x) b \<longleftrightarrow> b = (v, ax_world x)"
  by (cases b) (auto simp: ends_like_def)

lemma ends_like_Dropped: "ends_like A (Dropped, x) b \<Longrightarrow> uw_log (snd b') = uw_log (snd b) @ evs \<Longrightarrow> ends_like A (Dropped, x) b'"
  by (auto simp: ends_like_def intro: goes_on_after_append)

lemma ends_like_same: "ends_like A (Dropped, x) b \<Longrightarrow> snd b' = snd b \<Longrightarrow> ends_like A (Dropped, x) b'"
  by (simp add: ends_like_def)

lemma ends_like_read_dropped:
  "read_ends_like A (Dropped, r, x') b x \<Longrightarrow> uw_log (snd c) = uw_log (ax_world x) @ evs \<Longrightarrow> ends_like A (Dropped, x') c"
  by (auto simp: read_ends_like_def ends_like_def goes_on_after_def)

lemma await_backend_ends:
  assumes "await_upload A call (backend_call operation event) x = (p, x')" "\<And>v. answers call (event v)"
  shows "ends_like A (p, x') (backend_call operation event (ax_world x))"
  unfolding assms(1) [symmetric] using assms(2)
  by (auto simp: await_upload_def backend_call_def ends_like_def goes_on_after_def upload_did_def Let_def
      split: prod.splits)

lemma upload_sleep_ends:
  "ends_like A (upload_sleep A delay x)
     ((), (ax_world x)\<lparr> uw_log := uw_log (ax_world x) @ (if delay \<noteq> 0 then [Up_Sleep delay] else []) \<rparr>)"
  by (auto simp: upload_sleep_def await_upload_def ends_like_def goes_on_after_def Let_def)

subsection \<open>Parts\<close>

lemma upload_part_loop_log:
  assumes "attempt \<le> uo_max_attempts opts"
  shows "\<exists>evs. uw_log (snd (upload_part_loop B opts s plan attempt w)) = uw_log w @ evs"
  using upload_part_loop_attempts [OF surjective_pairing assms] by blast

lemma upload_part_loop_first:
  assumes answer: "ub_upload_part B (session_upload_id s) (pl_part_number plan) (pl_chunk plan) (uw_backend w) = (r, state)"
    and "attempt \<le> uo_max_attempts opts"
  shows "\<exists>evs. uw_log (snd (upload_part_loop B opts s plan attempt w)) =
    uw_log w @ Up_Part (session_upload_id s) (pl_part_number plan) (pl_chunk plan) r # evs"
proof (cases r)
  case (Ok part)
  then show ?thesis by (simp add: upload_part_loop_steps(1) [OF answer] upload_did_def)
next
  case (Err src)
  show ?thesis
  proof (cases "attempt < uo_max_attempts opts")
    case True
    let ?delay = "upload_backoff_for_retry (ub_sample B (uw_samples w)) opts attempt"
    let ?w = "w\<lparr> uw_backend := state, uw_samples := Suc (uw_samples w), uw_log := uw_log w @
      Up_Part (session_upload_id s) (pl_part_number plan) (pl_chunk plan) (Err src) #
      (if ?delay \<noteq> 0 then [Up_Sleep ?delay] else []) \<rparr>"
    have "upload_part_loop B opts s plan attempt w = upload_part_loop B opts s plan (attempt + 1) ?w"
      using upload_part_loop_retry [OF answer [unfolded Err] True refl] .
    moreover obtain evs where "uw_log (snd (upload_part_loop B opts s plan (attempt + 1) ?w)) = uw_log ?w @ evs"
      using upload_part_loop_log [of "attempt + 1" opts B s plan ?w] True by auto
    ultimately show ?thesis using Err by simp
  next
    case False
    then show ?thesis using Err by (simp add: upload_part_loop_steps(2) [OF answer] upload_did_def)
  qed
qed

lemma upload_part_retry_ends:
  fixes A :: "('s, 'e) async_upload_backend"
  defines "B \<equiv> av_backend A"
  assumes answer: "ub_upload_part B (session_upload_id s) (pl_part_number plan) (pl_chunk plan) (uw_backend w) = (Err src, state)"
    and attempt: "attempt < uo_max_attempts opts"
    and delay: "delay = upload_backoff_for_retry (ub_sample B (uw_samples w)) opts attempt"
    and world: "ax_world x = (upload_did state (Up_Part (session_upload_id s) (pl_part_number plan) (pl_chunk plan) (Err src)) w)
      \<lparr> uw_samples := Suc (uw_samples w) \<rparr>"
    and retry: "\<And>x'. upload_sleep A delay x = (Ready (), x') \<Longrightarrow>
      ends_like A (upload_part_async_loop A opts s plan (attempt + 1) x') (upload_part_loop B opts s plan (attempt + 1) (ax_world x'))"
  shows "ends_like A
    (case upload_sleep A delay x of
       (Dropped, x) \<Rightarrow> (Dropped, x)
     | (Ready _, x) \<Rightarrow> upload_part_async_loop A opts s plan (attempt + 1) x)
    (upload_part_loop B opts s plan attempt w)"
proof -
  define w' where "w' = (ax_world x)\<lparr> uw_log := uw_log (ax_world x) @ (if delay \<noteq> 0 then [Up_Sleep delay] else []) \<rparr>"
  have blocking: "upload_part_loop B opts s plan attempt w = upload_part_loop B opts s plan (attempt + 1) w'"
    using upload_part_loop_retry [OF answer attempt delay [symmetric]]
    by (cases w) (simp add: w'_def world upload_did_def)
  obtain q x' where sleep: "upload_sleep A delay x = (q, x')" by fastforce
  have slept: "ends_like A (q, x') ((), w')" using upload_sleep_ends [of A delay x] by (simp add: sleep w'_def)
  show ?thesis
  proof (cases q)
    case Dropped
    obtain evs where "uw_log (snd (upload_part_loop B opts s plan (attempt + 1) w')) = uw_log (snd ((), w')) @ evs"
      using upload_part_loop_log [of "attempt + 1" opts B s plan w'] attempt by auto
    from ends_like_Dropped [OF slept [unfolded Dropped] this] show ?thesis by (simp add: sleep Dropped blocking)
  next
    case (Ready u)
    then show ?thesis using slept retry [of x'] by (simp add: sleep blocking)
  qed
qed

lemma upload_part_async_loop_ends:
  "attempt \<le> uo_max_attempts opts \<Longrightarrow>
     ends_like A (upload_part_async_loop A opts s plan attempt x) (upload_part_loop (av_backend A) opts s plan attempt (ax_world x))"
proof (induction A opts s plan attempt x rule: upload_part_async_loop.induct)
  case (1 A opts s plan attempt x)
  let ?B = "av_backend A" and ?id = "session_upload_id s" and ?n = "pl_part_number plan" and ?c = "pl_chunk plan"
  let ?call = "backend_call (ub_upload_part ?B ?id ?n ?c) (Up_Part ?id ?n ?c)"
  obtain p x1 where await: "await_upload A (Call_Part ?id ?n ?c) ?call x = (p, x1)" by fastforce
  have ends: "ends_like A (p, x1) (?call (ax_world x))" by (rule await_backend_ends [OF await]) simp
  obtain r state where answer: "ub_upload_part ?B ?id ?n ?c (uw_backend (ax_world x)) = (r, state)" by fastforce
  have call: "?call (ax_world x) = (r, upload_did state (Up_Part ?id ?n ?c r) (ax_world x))"
    by (simp add: backend_call_def answer)
  note unfolded = upload_part_async_loop.simps [of A opts s plan attempt x] await Let_def
  show ?case
  proof (cases p)
    case Dropped
    obtain evs where "uw_log (snd (upload_part_loop ?B opts s plan attempt (ax_world x))) = uw_log (snd (?call (ax_world x))) @ evs"
      using upload_part_loop_first [OF answer "1.prems"] by (auto simp: call upload_did_def)
    from ends_like_Dropped [OF ends [unfolded Dropped] this] show ?thesis by (simp add: unfolded Dropped)
  next
    case (Ready v)
    then have v: "v = r" and x1: "ax_world x1 = upload_did state (Up_Part ?id ?n ?c r) (ax_world x)"
      using ends call by auto
    show ?thesis
    proof (cases "attempt < uo_max_attempts opts \<and> (\<exists>src. r = Err src)")
      case False
      then show ?thesis
        using upload_part_loop_steps [OF answer]
        by (cases r) (simp_all add: unfolded Ready v x1 retry_record_failure_def not_less)
    next
      case True
      then obtain src where Err: "r = Err src" by blast
      let ?delay = "upload_backoff_for_retry (ub_sample ?B (uw_samples (ax_world x))) opts attempt"
      have samples: "uw_samples (ax_world x1) = uw_samples (ax_world x)" by (simp add: x1 upload_did_def)
      have failure: "retry_record_failure (ub_sample ?B (uw_samples (ax_world x1))) opts attempt s plan src = (Ok ?delay, attempt + 1)"
        using True by (simp add: retry_record_failure_def samples)
      let ?x2 = "x1\<lparr> ax_world := (ax_world x1)\<lparr> uw_samples := Suc (uw_samples (ax_world x1)) \<rparr> \<rparr>"
      have "v = Err src" using v Err by simp
      note IH = "1.IH" [OF refl await [symmetric] Ready this failure [symmetric] refl sym refl]
      have "ends_like A
          (case upload_sleep A ?delay ?x2 of
             (Dropped, x) \<Rightarrow> (Dropped, x)
           | (Ready _, x) \<Rightarrow> upload_part_async_loop A opts s plan (attempt + 1) x)
          (upload_part_loop ?B opts s plan attempt (ax_world x))"
      proof (rule upload_part_retry_ends [OF answer [unfolded Err] _ refl])
        show "ax_world ?x2 = (upload_did state (Up_Part ?id ?n ?c (Err src)) (ax_world x))\<lparr> uw_samples := Suc (uw_samples (ax_world x)) \<rparr>"
          by (simp add: samples) (simp add: x1 Err)
      qed (use True IH in auto)
      then show ?thesis by (simp add: unfolded Ready \<open>v = Err src\<close> failure del: One_nat_def add_Suc_right)
    qed
  qed
qed

subsection \<open>The loop\<close>

fun paired :: "'a \<times> 'b \<times> 'c \<times> 'w \<Rightarrow> ('a \<times> 'b \<times> 'c) \<times> 'w" where
  "paired (a, b, c, w) = ((a, b, c), w)"

lemma snd_paired [simp]: "snd (paired q) = snd (snd (snd q))"
  by (cases q) simp

definition usable :: "resumable_upload_options \<Rightarrow> bool" where
  "usable opts \<longleftrightarrow> 1 \<le> uo_max_attempts opts \<and> 0 < uo_part_size opts"

lemma usable_valid: "upload_options_validate opts = Ok u \<Longrightarrow> usable opts"
  using options_Ok by (simp add: usable_def)

lemma upload_loop_log: "usable opts \<Longrightarrow> \<exists>evs. uw_log (snd (paired (upload_loop B opts s r w))) = uw_log w @ evs"
  using upload_loop_ends [of B opts s r w] by (cases "upload_loop B opts s r w") (auto simp: usable_def)

lemma upload_part_async_ends:
  "usable opts \<Longrightarrow> ends_like A (upload_part_with_retries_async A opts s plan x)
     (upload_part_with_retries_blocking (av_backend A) opts s plan (ax_world x))"
  by (simp add: upload_part_with_retries_async_def upload_part_with_retries_blocking_def
      upload_part_async_loop_ends usable_def)

text \<open>What the loops do with a part that has to be uploaded.\<close>

definition blocking_part_step ::
    "('s, 'e) upload_backend \<Rightarrow> resumable_upload_options \<Rightarrow> upload_session \<Rightarrow> upload_part_plan \<Rightarrow> io_error reader \<Rightarrow>
     ('s, 'e) upload_world \<Rightarrow>
     'e resumable_upload_error unit_result \<times> upload_session \<times> io_error reader \<times> ('s, 'e) upload_world" where
  "blocking_part_step B opts s plan r w =
     (case upload_part_with_retries_blocking B opts s plan w of
        (Err e, w) \<Rightarrow> (Err e, s, r, w)
      | (Ok uploaded, w) \<Rightarrow>
          (case accept_uploaded_part opts plan uploaded s of
             (Err e, s) \<Rightarrow> (Err e, s, r, w)
           | (Ok _, s) \<Rightarrow> upload_loop B opts s r w))"

definition async_part_step ::
    "('s, 'e) async_upload_backend \<Rightarrow> resumable_upload_options \<Rightarrow> upload_session \<Rightarrow> upload_part_plan \<Rightarrow>
     io_error reader \<Rightarrow> ('s, 'e) async_upload_world \<Rightarrow>
     ('e resumable_upload_error unit_result \<times> upload_session \<times> io_error reader) future_end \<times>
     ('s, 'e) async_upload_world" where
  "async_part_step A opts s plan r x =
     (case upload_part_with_retries_async A opts s plan x of
        (Dropped, x) \<Rightarrow> (Dropped, x)
      | (Ready (Err e), x) \<Rightarrow> (Ready (Err e, s, r), x)
      | (Ready (Ok uploaded), x) \<Rightarrow>
          (case accept_uploaded_part opts plan uploaded s of
             (Err e, s) \<Rightarrow> (Ready (Err e, s, r), x)
           | (Ok _, s) \<Rightarrow> upload_async_loop A opts s r x))"

lemma blocking_part_step_log:
  assumes "usable opts"
  shows "\<exists>evs. uw_log (snd (paired (blocking_part_step B opts s plan r w))) =
    uw_log (snd (upload_part_with_retries_blocking B opts s plan w)) @ evs"
  using upload_loop_log [OF assms]
  by (auto simp: blocking_part_step_def split: prod.splits result.splits)

lemma part_step_ends:
  assumes "usable opts"
    and loop: "\<And>uploaded s' x'. upload_part_with_retries_async A opts s plan x = (Ready (Ok uploaded), x') \<Longrightarrow>
      accept_uploaded_part opts plan uploaded s = (Ok () :: 'e resumable_upload_error unit_result, s') \<Longrightarrow>
      ends_like A (upload_async_loop A opts s' r x') (paired (upload_loop (av_backend A) opts s' r (ax_world x')))"
  shows "ends_like A (async_part_step A opts s plan r x)
    (paired (blocking_part_step (av_backend A) opts s plan r (ax_world (x :: ('s, 'e) async_upload_world))))"
proof -
  let ?blocking = "upload_part_with_retries_blocking (av_backend A) opts s plan (ax_world x)"
  obtain p x1 where part: "upload_part_with_retries_async A opts s plan x = (p, x1)" by fastforce
  have ends: "ends_like A (p, x1) ?blocking" using upload_part_async_ends [OF assms(1)] by (simp add: part [symmetric])
  show ?thesis
  proof (cases p)
    case Dropped
    obtain evs where "uw_log (snd (paired (blocking_part_step (av_backend A) opts s plan r (ax_world x)))) =
        uw_log (snd ?blocking) @ evs"
      using blocking_part_step_log [OF assms(1)] by blast
    from ends_like_Dropped [OF ends [unfolded Dropped] this] show ?thesis
      by (simp add: async_part_step_def part Dropped)
  next
    case (Ready v)
    then have "?blocking = (v, ax_world x1)" using ends by simp
    then show ?thesis
      using loop part Ready
      by (auto simp: async_part_step_def blocking_part_step_def split: result.splits prod.splits)
  qed
qed

lemma upload_async_loop_ends:
  fixes A :: "('s, 'e) async_upload_backend"
  assumes "usable opts"
  shows "ends_like A (upload_async_loop A opts s r x) (paired (upload_loop (av_backend A) opts s r (ax_world x)))"
  using assms
proof (induction A opts s r x rule: upload_async_loop.induct)
  case (1 A opts s r x)
  let ?B = "av_backend A"
  obtain p r1 x1 where read: "read_chunk_async A (uo_part_size opts) r x = (p, r1, x1)" by (metis prod.exhaust)
  note unfolded = upload_async_loop.simps [of A opts s r x] upload_loop.simps [of ?B opts s r "ax_world x"] read
  have reads: "read_ends_like A (p, r1, x1) (upload_read_chunk (uo_part_size opts) r) x"
    using read_chunk_async_ends [of A "uo_part_size opts" r x] by (simp add: read)
  show ?case
  proof (cases p)
    case Dropped
    obtain evs where "uw_log (snd (paired (upload_loop ?B opts s r (ax_world x)))) = uw_log (ax_world x) @ evs"
      using upload_loop_log [OF "1.prems"] by blast
    from ends_like_read_dropped [OF reads [unfolded Dropped] this] show ?thesis
      by (simp add: upload_async_loop.simps [of A opts s r x] read Dropped)
  next
    case (Ready v)
    then have chunk: "upload_read_chunk (uo_part_size opts) r = (v, r1)" and x1: "ax_world x1 = ax_world x"
      using reads by (auto simp: read_ends_like_def)
    show ?thesis
    proof (cases v)
      case (Err src)
      then show ?thesis using Ready chunk x1 by (simp add: unfolded)
    next
      case (Ok bytes)
      obtain a s1 where next_chunk: "(next_chunk (ub_digests ?B) opts bytes s ::
          (upload_chunk_action, 'e resumable_upload_error) result \<times> upload_session) = (a, s1)" by fastforce
      note here = unfolded Ready Ok chunk next_chunk
      show ?thesis
      proof (cases a)
        case (Err e)
        then show ?thesis using x1 by (simp add: here)
      next
        case aOk: (Ok action)
        note IH = "1.IH" [OF read [symmetric] Ready Ok refl next_chunk [symmetric] aOk]
        show ?thesis
        proof (cases action)
          case Action_Finish
          then show ?thesis using x1 aOk by (simp add: here)
        next
          case Action_Skip
          then show ?thesis using IH(1) [OF Action_Skip "1.prems"] x1 aOk by (simp add: here)
        next
          case (Action_Upload plan)
          then show ?thesis
            using part_step_ends [OF "1.prems", of A s1 plan x1 r1] IH(2) [OF Action_Upload] x1 aOk "1.prems"
            by (simp add: here async_part_step_def blocking_part_step_def)
        qed
      qed
    qed
  qed
qed

subsection \<open>Whole uploads\<close>

text \<open>What follows the loop: the completion.\<close>

definition blocking_completion ::
    "('s, 'e) upload_backend \<Rightarrow> upload_session \<Rightarrow> io_error reader \<Rightarrow> uploaded_part list \<Rightarrow> ('s, 'e) upload_world \<Rightarrow>
     (uploaded_part list, 'e resumable_upload_error) result \<times> upload_session \<times> io_error reader \<times>
     ('s, 'e) upload_world" where
  "blocking_completion B s r parts w =
     (case backend_call (ub_complete_upload B (session_upload_id s) parts) (Up_Complete (session_upload_id s) parts) w of
        (Err src, w) \<Rightarrow> (Err (complete_upload_failed s src), s, r, w)
      | (Ok _, w) \<Rightarrow> (Ok parts, s, r, w))"

lemma upload_all_parts_alt:
  "upload_all_parts B opts s r w =
     (case upload_loop B opts s r w of
        (Err e, s, r, w) \<Rightarrow> (Err e, s, r, w)
      | (Ok _, s, r, w) \<Rightarrow>
          (case ordered_completed_parts s of
             Err e \<Rightarrow> (Err e, s, r, w)
           | Ok parts \<Rightarrow> blocking_completion B s r parts w))"
  by (auto simp: upload_all_parts_def blocking_completion_def backend_call_def Let_def
      split: prod.splits result.splits)

lemma blocking_completion_log:
  "\<exists>evs. uw_log (snd (paired (blocking_completion B s r parts w))) = uw_log w @ evs"
  by (auto simp: blocking_completion_def backend_call_def upload_did_def split: prod.splits result.splits)

lemma upload_all_parts_log:
  "\<exists>evs. uw_log (snd (paired (upload_all_parts B opts s r w))) = uw_log (snd (paired (upload_loop B opts s r w))) @ evs"
  using blocking_completion_log by (auto simp: upload_all_parts_alt split: prod.splits result.splits)

lemma upload_all_parts_async_ends:
  fixes A :: "('s, 'e) async_upload_backend"
  assumes "usable opts"
  shows "ends_like A (upload_all_parts_async A opts s r x) (paired (upload_all_parts (av_backend A) opts s r (ax_world x)))"
proof -
  let ?B = "av_backend A"
  obtain p x1 where loop: "upload_async_loop A opts s r x = (p, x1)" by fastforce
  have ends: "ends_like A (p, x1) (paired (upload_loop ?B opts s r (ax_world x)))"
    using upload_async_loop_ends [OF assms, of A s r x] by (simp add: loop)
  show ?thesis
  proof (cases p)
    case Dropped
    obtain evs where "uw_log (snd (paired (upload_all_parts ?B opts s r (ax_world x)))) =
        uw_log (snd (paired (upload_loop ?B opts s r (ax_world x)))) @ evs"
      using upload_all_parts_log by blast
    from ends_like_Dropped [OF ends [unfolded Dropped] this] show ?thesis
      by (simp add: upload_all_parts_async_def loop Dropped)
  next
    case (Ready v)
    then obtain res s1 r1 where v: "v = (res, s1, r1)" and blocking: "upload_loop ?B opts s r (ax_world x) = (res, s1, r1, ax_world x1)"
      using ends by (cases v; cases "upload_loop ?B opts s r (ax_world x)") auto
    note here = upload_all_parts_async_def upload_all_parts_alt loop Ready v blocking
    show ?thesis
    proof (cases res)
      case (Ok u)
      obtain o1 :: "(uploaded_part list, 'e resumable_upload_error) result" where ord: "ordered_completed_parts s1 = o1" by simp
      show ?thesis
      proof (cases o1)
        case (Err e)
        then show ?thesis using Ok ord by (simp add: here)
      next
        case o1: (Ok parts)
        let ?call = "backend_call (ub_complete_upload ?B (session_upload_id s1) parts) (Up_Complete (session_upload_id s1) parts)"
        obtain q x2 where await: "await_upload A (Call_Complete (session_upload_id s1) parts) ?call x1 = (q, x2)" by fastforce
        have called: "ends_like A (q, x2) (?call (ax_world x1))" by (rule await_backend_ends [OF await]) simp
        have same: "snd (paired (blocking_completion ?B s1 r1 parts (ax_world x1))) = snd (?call (ax_world x1))"
          by (simp add: blocking_completion_def split: prod.splits result.splits)
        show ?thesis
        proof (cases q)
          case Dropped
          from ends_like_same [OF called [unfolded Dropped] same] show ?thesis
            using Ok ord o1 await Dropped by (simp add: here)
        next
          case (Ready c)
          then show ?thesis
            using called Ok ord o1 await by (auto simp: here blocking_completion_def split: result.splits)
        qed
      qed
    qed (simp add: here)
  qed
qed

lemma abort_async_ends:
  "ends_like A (abort_error_if_configured_async A opts upload_id e x)
     (abort_error_if_configured_blocking (av_backend A) opts upload_id e (ax_world x))"
proof (cases "uo_abort_on_error opts")
  case True
  let ?call = "backend_call (ub_abort_upload (av_backend A) upload_id) (Up_Abort upload_id)"
  obtain q x2 where await: "await_upload A (Call_Abort upload_id) ?call x = (q, x2)" by fastforce
  have called: "ends_like A (q, x2) (?call (ax_world x))" by (rule await_backend_ends [OF await]) simp
  have abort: "abort_error_if_configured_blocking (av_backend A) opts upload_id e (ax_world x) =
      (case ?call (ax_world x) of (Err src, w) \<Rightarrow> (Upload_AbortFailed upload_id e src, w) | (Ok _, w) \<Rightarrow> (e, w))"
    using True by (auto simp: abort_error_if_configured_blocking_def backend_call_def Let_def split: prod.splits result.splits)
  show ?thesis
  proof (cases q)
    case Dropped
    have "ends_like A (Dropped, x2) (abort_error_if_configured_blocking (av_backend A) opts upload_id e (ax_world x))"
      by (rule ends_like_same [OF called [unfolded Dropped]]) (simp add: abort split: prod.splits result.splits)
    then show ?thesis using True await Dropped by (simp add: abort_error_if_configured_async_def)
  next
    case (Ready c)
    then show ?thesis
      using called True await abort by (auto simp: abort_error_if_configured_async_def split: result.splits)
  qed
qed (simp add: abort_error_if_configured_async_def abort_error_if_configured_blocking_def)

lemma upload_with_checkpoint_log:
  assumes "session_new opts checkpoint resumed = (Ok s :: (upload_session, 'e resumable_upload_error) result)"
  shows "\<exists>evs. uw_log (snd (upload_with_checkpoint_blocking B opts r checkpoint resumed w)) =
    uw_log (snd (paired (upload_all_parts (B :: ('s, 'e) upload_backend) opts s r w))) @ evs"
  using assms abort_ends [of B opts]
  by (fastforce simp: upload_with_checkpoint_blocking_def split: prod.splits result.splits)

lemma upload_with_checkpoint_async_ends:
  fixes A :: "('s, 'e) async_upload_backend"
  assumes "usable opts"
  shows "ends_like A (upload_with_checkpoint_async A opts r checkpoint resumed x)
    (upload_with_checkpoint_blocking (av_backend A) opts r checkpoint resumed (ax_world x))"
proof -
  let ?B = "av_backend A"
  obtain n :: "(upload_session, 'e resumable_upload_error) result" where new: "session_new opts checkpoint resumed = n" by simp
  show ?thesis
  proof (cases n)
    case (Err e)
    then show ?thesis using new by (simp add: upload_with_checkpoint_async_def upload_with_checkpoint_blocking_def)
  next
    case (Ok s)
    note new = new [unfolded Ok]
    obtain p x1 where parts: "upload_all_parts_async A opts s r x = (p, x1)" by fastforce
    have ends: "ends_like A (p, x1) (paired (upload_all_parts ?B opts s r (ax_world x)))"
      using upload_all_parts_async_ends [OF assms, of A s r x] by (simp add: parts)
    show ?thesis
    proof (cases p)
      case Dropped
      obtain evs where "uw_log (snd (upload_with_checkpoint_blocking ?B opts r checkpoint resumed (ax_world x))) =
          uw_log (snd (paired (upload_all_parts ?B opts s r (ax_world x)))) @ evs"
        using upload_with_checkpoint_log [OF new] by blast
      from ends_like_Dropped [OF ends [unfolded Dropped] this] show ?thesis
        by (simp add: upload_with_checkpoint_async_def new parts Dropped)
    next
      case (Ready v)
      then obtain res s1 r1 where v: "v = (res, s1, r1)" "upload_all_parts ?B opts s r (ax_world x) = (res, s1, r1, ax_world x1)"
        using ends by (cases v; cases "upload_all_parts ?B opts s r (ax_world x)") auto
      note here = upload_with_checkpoint_async_def upload_with_checkpoint_blocking_def new parts Ready v
      show ?thesis
      proof (cases res)
        case (Err e)
        obtain q x2 where "abort_error_if_configured_async A opts (session_upload_id s1) e x1 = (q, x2)" by fastforce
        then show ?thesis
          using abort_async_ends [of A opts "session_upload_id s1" e x1] Err
          by (cases q) (auto simp: here split: prod.splits elim: ends_like_same)
      qed (simp add: here)
    qed
  qed
qed

lemma upload_with_checkpoint_grows:
  fixes B :: "('s, 'e) upload_backend"
  assumes "usable opts"
  shows "\<exists>evs. uw_log (snd (upload_with_checkpoint_blocking B opts r checkpoint resumed w)) = uw_log w @ evs"
proof (cases "session_new opts checkpoint resumed :: (upload_session, 'e resumable_upload_error) result")
  case (Ok s)
  obtain evs where "uw_log (snd (upload_with_checkpoint_blocking B opts r checkpoint resumed w)) =
      uw_log (snd (paired (upload_all_parts B opts s r w))) @ evs"
    using upload_with_checkpoint_log [OF Ok, of B r w] by blast
  moreover obtain evs where "uw_log (snd (paired (upload_all_parts B opts s r w))) =
      uw_log (snd (paired (upload_loop B opts s r w))) @ evs"
    using upload_all_parts_log by blast
  moreover obtain evs where "uw_log (snd (paired (upload_loop B opts s r w))) = uw_log w @ evs"
    using upload_loop_log [OF assms] by blast
  ultimately show ?thesis by simp
qed (simp add: upload_with_checkpoint_blocking_def)

lemma upload_async_ends:
  "ends_like A (upload_async A opts r x) (upload_blocking (av_backend A) opts r (ax_world x))"
proof (cases "upload_options_validate opts :: 'b resumable_upload_error unit_result")
  case (Ok u)
  let ?B = "av_backend A"
  let ?call = "backend_call (ub_create_upload ?B) Up_Create"
  let ?fresh = "\<lambda>upload_id. (checkpoint_new upload_id (uo_part_size opts))\<lparr> cp_checksum_algorithm := uo_part_checksum_algorithm opts \<rparr>"
  have usable: "usable opts" using usable_valid [OF Ok] .
  have blocking: "upload_blocking ?B opts r (ax_world x) =
      (case ?call (ax_world x) of
         (Err src, w) \<Rightarrow> (Err (Upload_CreateFailed src), w)
       | (Ok upload_id, w) \<Rightarrow> upload_with_checkpoint_blocking ?B opts r (?fresh upload_id) False w)"
    using Ok by (auto simp: upload_blocking_def backend_call_def Let_def split: prod.splits result.splits)
  obtain q x1 where await: "await_upload A Call_Create ?call x = (q, x1)" by fastforce
  have called: "ends_like A (q, x1) (?call (ax_world x))" by (rule await_backend_ends [OF await]) simp
  show ?thesis
  proof (cases q)
    case Dropped
    have "\<exists>evs. uw_log (snd (upload_blocking ?B opts r (ax_world x))) = uw_log (snd (?call (ax_world x))) @ evs"
      by (cases "?call (ax_world x)"; cases "fst (?call (ax_world x))")
         (simp_all add: blocking upload_with_checkpoint_grows [OF usable])
    then obtain evs where "uw_log (snd (upload_blocking ?B opts r (ax_world x))) = uw_log (snd (?call (ax_world x))) @ evs" ..
    from ends_like_Dropped [OF called [unfolded Dropped] this] show ?thesis
      using Ok await Dropped by (simp add: upload_async_def)
  next
    case (Ready c)
    then show ?thesis
      using called Ok await blocking upload_with_checkpoint_async_ends [OF usable, of A r]
      by (auto simp: upload_async_def split: result.splits)
  qed
qed (simp add: upload_async_def upload_blocking_def)

lemma resume_async_ends:
  "ends_like A (resume_async A opts r checkpoint x) (resume_blocking (av_backend A) opts r checkpoint (ax_world x))"
  by (cases "upload_options_validate opts :: 'b resumable_upload_error unit_result")
     (simp_all add: resume_async_def resume_blocking_def upload_with_checkpoint_async_ends usable_valid)

text \<open>
  C17: Both asynchronous uploads are refinements of the blocking ones over the same backend. When the future
  completes, its result, the state of the backend and the calls that were made are those of the blocking
  upload, interrupted reads and retries included. Otherwise it was dropped at its last \<open>await\<close>: the blocking
  upload makes the same calls up to there and goes on with the call that was in flight, so that nothing is
  called twice or out of order, nothing is called after the drop, and no abortion is called that the
  blocking upload would not call.
\<close>

theorem async_upload_refines_blocking:
  "(case upload_async A opts r x of
      (Ready res, x') \<Rightarrow> upload_blocking (av_backend A) opts r (ax_world x) = (res, ax_world x')
    | (Dropped, x') \<Rightarrow> av_dropped A (ax_awaits x' - 1) \<and>
        (\<exists>call rest. ax_in_flight x' = Some call \<and> goes_on_after call rest \<and>
           uw_log (snd (upload_blocking (av_backend A) opts r (ax_world x))) = uw_log (ax_world x') @ rest)) \<and>
   (case resume_async A opts r checkpoint x of
      (Ready res, x') \<Rightarrow> resume_blocking (av_backend A) opts r checkpoint (ax_world x) = (res, ax_world x')
    | (Dropped, x') \<Rightarrow> av_dropped A (ax_awaits x' - 1) \<and>
        (\<exists>call rest. ax_in_flight x' = Some call \<and> goes_on_after call rest \<and>
           uw_log (snd (resume_blocking (av_backend A) opts r checkpoint (ax_world x))) = uw_log (ax_world x') @ rest))"
  using upload_async_ends [of A opts r x] resume_async_ends [of A opts r checkpoint x]
  by (auto simp: ends_like_def split: prod.splits future_end.splits)

end
