(* ===== verification/Reqx_Dns.thy ===== *)
theory Reqx_Dns
  imports Reqx_Proxy Reqx_BTreeMap
begin

text \<open>
  DNS overrides (\<open>src/src/core/dns.rs\<close>) and the resolvers of both transports that consult them
  (\<open>src/src/async_client/dns.rs\<close>, \<open>src/src/blocking_client/dns.rs\<close>). \<open>url::Host::parse\<close> and the resolvers
  of the system are parameters.
\<close>

subsection \<open>The table of overrides\<close>

record socket_addr =
  sa_ip :: ip_addr
  sa_port :: nat

datatype url_host = Host_Domain string | Host_Ip ip_addr

definition max_addresses :: nat where
  "max_addresses = 16"

type_synonym dns_overrides = "(string, socket_addr list) btree"

definition strip_dot :: "string \<Rightarrow> string" where
  "strip_dot s = (if s \<noteq> [] \<and> last s = CHR ''.'' then butlast s else s)"

definition valid_label :: "string \<Rightarrow> bool" where
  "valid_label label =
     (label \<noteq> [] \<and> length label \<le> 63 \<and> hd label \<noteq> CHR ''-'' \<and> last label \<noteq> CHR ''-'' \<and>
      list_all (\<lambda>byte. is_ascii_alphanumeric byte \<or> byte = CHR ''-'') label)"

definition normalize_domain :: "(string \<Rightarrow> url_host option) \<Rightarrow> string \<Rightarrow> string option" where
  "normalize_domain host_parse domain =
     (if domain = [] \<or> list_ex is_ascii_whitespace domain \<or>
         list_ex (\<lambda>c. c \<in> set (CHR 0x5C # ''/:?#@%*[]'')) domain
      then None
      else case host_parse domain of
        None \<Rightarrow> None
      | Some (Host_Ip _) \<Rightarrow> None
      | Some (Host_Domain ascii) \<Rightarrow>
          (let normalized = to_ascii_lowercase (strip_dot ascii)
           in if normalized = [] \<or> length normalized > 253 then None
              else if list_all valid_label (split_on (\<lambda>c. c = CHR ''.'') normalized)
              then Some normalized
              else None))"

definition unique_addresses :: "socket_addr list \<Rightarrow> socket_addr list" where
  "unique_addresses addresses =
     fold (\<lambda>address unique. if address \<in> set unique then unique else unique @ [address]) addresses []"

definition dns_overrides_insert ::
    "(string \<Rightarrow> url_host option) \<Rightarrow> string \<Rightarrow> socket_addr list \<Rightarrow> dns_overrides \<Rightarrow> (dns_overrides, 'h error) result" where
  "dns_overrides_insert host_parse domain addresses entries =
     (case normalize_domain host_parse domain of
        None \<Rightarrow> Err (InvalidDnsOverrideConfig ''override key must be a valid DNS hostname, not a URL or IP literal'')
      | Some domain \<Rightarrow>
          if addresses = [] \<or> length addresses > max_addresses
          then Err (InvalidDnsOverrideConfig ''each DNS override must contain between 1 and 16 addresses'')
          else Ok (bt_insert domain (unique_addresses addresses) entries))"

definition dns_overrides_build :: "bool \<Rightarrow> dns_overrides \<Rightarrow> (dns_overrides, 'h error) result" where
  "dns_overrides_build has_proxy entries =
     (if has_proxy \<and> entries \<noteq> []
      then Err (InvalidDnsOverrideConfig
             ''DNS overrides cannot be combined with http_proxy, even with no_proxy rules'')
      else Ok entries)"

definition dns_overrides_lookup ::
    "(string \<Rightarrow> url_host option) \<Rightarrow> dns_overrides \<Rightarrow> string \<Rightarrow> socket_addr list option" where
  "dns_overrides_lookup host_parse entries domain =
     (case normalize_domain host_parse domain of None \<Rightarrow> None | Some key \<Rightarrow> bt_get entries key)"

subsection \<open>Resolvers\<close>

text \<open>A resolver reports whether it was the resolver of the system that answered.\<close>

datatype 'r resolution = From_Overrides "socket_addr list" | From_System 'r

definition async_resolver_call ::
    "(string \<Rightarrow> url_host option) \<Rightarrow> dns_overrides \<Rightarrow> (string \<Rightarrow> 'r) \<Rightarrow> string \<Rightarrow> 'r resolution" where
  "async_resolver_call host_parse overrides fallback name =
     (case dns_overrides_lookup host_parse overrides name of
        Some addresses \<Rightarrow> From_Overrides addresses
      | None \<Rightarrow> From_System (fallback name))"

definition override_port :: "'u uri_ops \<Rightarrow> 'u \<Rightarrow> socket_addr \<Rightarrow> socket_addr" where
  "override_port U uri address =
     (case uri_port_u16 U uri of
        Some port \<Rightarrow> address\<lparr> sa_port := port \<rparr>
      | None \<Rightarrow>
          if sa_port address = 0
          then address\<lparr> sa_port := (if uri_scheme_str U uri = Some ''https'' then 443 else 80) \<rparr>
          else address)"

definition blocking_resolver_resolve ::
    "'u uri_ops \<Rightarrow> (string \<Rightarrow> url_host option) \<Rightarrow> dns_overrides \<Rightarrow> ('u \<Rightarrow> 'r) \<Rightarrow> 'u \<Rightarrow> 'r resolution" where
  "blocking_resolver_resolve U host_parse overrides fallback uri =
     (case Option.bind (uri_host U uri) (dns_overrides_lookup host_parse overrides) of
        Some addresses \<Rightarrow> From_Overrides (map (override_port U uri) addresses)
      | None \<Rightarrow> From_System (fallback uri))"

subsection \<open>Lookups\<close>

lemma unique_addresses_fold:
  "distinct acc \<Longrightarrow>
     distinct (fold (\<lambda>a u. if a \<in> set u then u else u @ [a]) xs acc) \<and>
     set (fold (\<lambda>a u. if a \<in> set u then u else u @ [a]) xs acc) = set acc \<union> set xs \<and>
     length (fold (\<lambda>a u. if a \<in> set u then u else u @ [a]) xs acc) \<le> length acc + length xs"
proof (induction xs arbitrary: acc)
  case (Cons x xs)
  show ?case using Cons.IH [of acc] Cons.IH [of "acc @ [x]"] Cons.prems by auto
qed simp

lemma unique_addresses:
  "distinct (unique_addresses xs)" "set (unique_addresses xs) = set xs" "length (unique_addresses xs) \<le> length xs"
  using unique_addresses_fold [of "[]" xs] by (simp_all add: unique_addresses_def)

text \<open>
  A configuration is the sequence of its calls of \<open>resolve_to_addrs\<close>, each of which passes the builder on
  or returns an error.
\<close>

fun dns_overrides_configure ::
    "(string \<Rightarrow> url_host option) \<Rightarrow> (string \<times> socket_addr list) list \<Rightarrow> dns_overrides \<Rightarrow> (dns_overrides, 'h error) result" where
  "dns_overrides_configure host_parse [] entries = Ok entries"
| "dns_overrides_configure host_parse ((domain, addresses) # calls) entries =
     result_bind (dns_overrides_insert host_parse domain addresses entries) (dns_overrides_configure host_parse calls)"

definition valid_override :: "(string \<Rightarrow> url_host option) \<Rightarrow> string \<times> socket_addr list \<Rightarrow> bool" where
  "valid_override host_parse call \<longleftrightarrow>
     normalize_domain host_parse (fst call) \<noteq> None \<and> 1 \<le> length (snd call) \<and> length (snd call) \<le> 16"

text \<open>The abstract table: the last call for a host wins.\<close>

definition overrides_of :: "(string \<Rightarrow> url_host option) \<Rightarrow> (string \<times> socket_addr list) list \<Rightarrow> string \<rightharpoonup> socket_addr list" where
  "overrides_of host_parse calls =
     map_of (rev (map (\<lambda>(domain, addresses). (the (normalize_domain host_parse domain), unique_addresses addresses)) calls))"

lemma dns_overrides_insert_cases:
  obtains (valid) "valid_override host_parse (domain, addresses)"
      "dns_overrides_insert host_parse domain addresses entries = (Ok (bt_insert (the (normalize_domain host_parse domain))
         (unique_addresses addresses) entries) :: (dns_overrides, 'h error) result)"
    | (invalid) message where "\<not> valid_override host_parse (domain, addresses)"
      "dns_overrides_insert host_parse domain addresses entries = (Err (InvalidDnsOverrideConfig message) :: (dns_overrides, 'h error) result)"
proof (cases "valid_override host_parse (domain, addresses)")
  case True
  then show ?thesis
    by (intro valid) (auto simp: dns_overrides_insert_def valid_override_def max_addresses_def split: option.splits)
next
  case False
  then show ?thesis
    using invalid
    by (cases "normalize_domain host_parse domain")
       (auto simp: dns_overrides_insert_def valid_override_def max_addresses_def Suc_le_eq split: if_splits)
qed

lemma dns_overrides_configure_valid:
  "is_ok (dns_overrides_configure host_parse calls entries :: (dns_overrides, 'h error) result) \<longleftrightarrow>
     list_all (valid_override host_parse) calls"
proof (induction calls arbitrary: entries)
  case (Cons call calls)
  obtain domain addresses where call: "call = (domain, addresses)" by fastforce
  show ?case
    by (cases rule: dns_overrides_insert_cases [of host_parse domain addresses entries, where 'h = 'h])
       (simp_all add: call Cons.IH)
qed simp

lemma dns_overrides_configure_get:
  assumes "dns_overrides_configure host_parse calls entries = (Ok entries' :: (dns_overrides, 'h error) result)" "bt_wf entries"
  shows "bt_get entries' = bt_get entries ++ overrides_of host_parse calls"
  using assms
proof (induction calls arbitrary: entries)
  case Nil
  then show ?case by (simp add: overrides_of_def)
next
  case (Cons call calls)
  obtain domain addresses where call: "call = (domain, addresses)" by fastforce
  let ?next = "bt_insert (the (normalize_domain host_parse domain)) (unique_addresses addresses) entries"
  have "dns_overrides_configure host_parse calls ?next = (Ok entries' :: (dns_overrides, 'h error) result)"
    by (cases rule: dns_overrides_insert_cases [of host_parse domain addresses entries, where 'h = 'h])
       (use Cons.prems in \<open>simp_all add: call\<close>)
  then have "bt_get entries' = bt_get ?next ++ overrides_of host_parse calls"
    using Cons.IH [of ?next] Cons.prems(2) by simp
  then show ?case
    using Cons.prems(2) by (simp add: bt_get_insert call overrides_of_def fun_eq_iff map_add_def split: option.split)
qed

lemma overrides_of_Nil [simp]: "overrides_of host_parse [] = Map.empty"
  by (simp add: overrides_of_def)

lemma dom_overrides_of: "dom (overrides_of host_parse calls) = (\<lambda>call. the (normalize_domain host_parse (fst call))) ` set calls"
  by (auto simp: overrides_of_def dom_map_of_conv_image_fst image_image case_prod_unfold)

lemma dns_overrides_configured:
  assumes "dns_overrides_configure host_parse calls [] = (Ok entries :: (dns_overrides, 'h error) result)"
  shows "dns_overrides_lookup host_parse entries host = Option.bind (normalize_domain host_parse host) (overrides_of host_parse calls)"
    and "entries = [] \<longleftrightarrow> calls = []"
proof -
  have get: "bt_get entries = overrides_of host_parse calls"
    using dns_overrides_configure_get [OF assms bt_wf_Nil] by (simp add: bt.get_empty)
  then show "dns_overrides_lookup host_parse entries host = Option.bind (normalize_domain host_parse host) (overrides_of host_parse calls)"
    by (simp add: dns_overrides_lookup_def split: option.split)
  have "bt_get entries = map_of entries" by (simp add: bt_get_def fun_eq_iff)
  then have "dom (bt_get entries) = fst ` set entries" by (simp add: dom_map_of_conv_image_fst)
  then show "entries = [] \<longleftrightarrow> calls = []" using get dom_overrides_of [of host_parse calls] by auto
qed

lemma overrides_of_valid:
  assumes "list_all (valid_override host_parse) calls" "overrides_of host_parse calls key = Some addresses"
  shows "distinct addresses \<and> 1 \<le> length addresses \<and> length addresses \<le> 16"
proof -
  obtain domain configured where call: "(domain, configured) \<in> set calls" "addresses = unique_addresses configured"
    using assms(2) by (auto simp: overrides_of_def dest!: map_of_SomeD)
  then have "1 \<le> length configured" "length configured \<le> 16"
    using assms(1) by (auto simp: list_all_iff valid_override_def)
  moreover have "addresses \<noteq> []" using call(2) unique_addresses(2) [of configured] calculation(1) by (cases configured) auto
  ultimately show ?thesis
    using unique_addresses [of configured] call(2) by (simp add: Suc_le_eq)
qed

lemma override_port:
  "sa_ip (override_port U uri address) = sa_ip address"
  "case uri_port_u16 U uri of
     Some port \<Rightarrow> sa_port (override_port U uri address) = port
   | None \<Rightarrow> 0 < sa_port (override_port U uri address) \<and> (sa_port address \<noteq> 0 \<longrightarrow> override_port U uri address = address)"
  by (simp_all add: override_port_def split: option.split)

text \<open>
  C22: DNS overrides are exact. A sequence of calls of \<open>resolve_to_addrs\<close> is accepted if and only if every
  host is a valid name and every list has between one and sixteen addresses. Then a lookup returns the
  distinct addresses of the last call whose host has the same normal form, whatever the spelling, and
  nothing for any other host. Both resolvers answer a configured host from the table alone, with all its
  addresses and without asking the system, and the blocking resolver gives every address the port of the URI
  or the one it was configured with, never port zero; for every other host they return what the system
  answers. A client with a proxy accepts no overrides.
\<close>

theorem dns_overrides_exact:
  "(is_ok (dns_overrides_configure host_parse calls [] :: (dns_overrides, 'h error) result) \<longleftrightarrow>
       list_all (valid_override host_parse) calls) \<and>
    (\<forall>entries. dns_overrides_configure host_parse calls [] = (Ok entries :: (dns_overrides, 'h error) result) \<longrightarrow>
       dns_overrides_build False entries = (Ok entries :: (dns_overrides, 'h error) result) \<and>
       is_ok (dns_overrides_build True entries :: (dns_overrides, 'h error) result) = (calls = []) \<and>
       dns_overrides_lookup host_parse entries host = Option.bind (normalize_domain host_parse host) (overrides_of host_parse calls) \<and>
       (case dns_overrides_lookup host_parse entries host of
          None \<Rightarrow> async_resolver_call host_parse entries fallback host = From_System (fallback host)
        | Some addresses \<Rightarrow> async_resolver_call host_parse entries fallback host = From_Overrides addresses \<and>
            distinct addresses \<and> 1 \<le> length addresses \<and> length addresses \<le> 16) \<and>
       (case blocking_resolver_resolve U host_parse entries fallback' uri of
          From_System r \<Rightarrow> r = fallback' uri \<and>
            Option.bind (uri_host U uri) (dns_overrides_lookup host_parse entries) = None
        | From_Overrides resolved \<Rightarrow> \<exists>addresses.
            Option.bind (uri_host U uri) (dns_overrides_lookup host_parse entries) = Some addresses \<and>
            map sa_ip resolved = map sa_ip addresses \<and>
            (\<forall>(actual, configured) \<in> set (zip resolved addresses).
               case uri_port_u16 U uri of
                 Some port \<Rightarrow> sa_port actual = port
               | None \<Rightarrow> 0 < sa_port actual \<and> (sa_port configured \<noteq> 0 \<longrightarrow> actual = configured))))"
  (is "?accepted \<and> (\<forall>entries. ?configured entries \<longrightarrow> ?claims entries)")
proof (intro conjI allI impI)
  show ?accepted by (rule dns_overrides_configure_valid)
next
  fix entries
  assume configured: "?configured entries"
  have valid: "list_all (valid_override host_parse) calls"
    using dns_overrides_configure_valid [of host_parse calls "[]", where 'h = 'h] configured by simp
  have looked_up: "distinct addresses \<and> 1 \<le> length addresses \<and> length addresses \<le> 16"
    if "dns_overrides_lookup host_parse entries host = Some addresses" for addresses
    using that overrides_of_valid [OF valid]
    by (auto simp: dns_overrides_configured(1) [OF configured] bind_eq_Some_conv)
  show "case dns_overrides_lookup host_parse entries host of
          None \<Rightarrow> async_resolver_call host_parse entries fallback host = From_System (fallback host)
        | Some addresses \<Rightarrow> async_resolver_call host_parse entries fallback host = From_Overrides addresses \<and>
            distinct addresses \<and> 1 \<le> length addresses \<and> length addresses \<le> 16"
    using looked_up by (auto simp: async_resolver_call_def split: option.split)
qed (use override_port [of U uri] in \<open>auto simp: dns_overrides_build_def dns_overrides_configured blocking_resolver_resolve_def
      in_set_zip split: option.splits\<close>)

definition example_hosts :: "string \<Rightarrow> url_host option" where
  "example_hosts s = (if s = ''10.0.0.1'' then Some (Host_Ip (V4 10 0 0 1)) else Some (Host_Domain s))"

definition example_overrides :: "(string \<times> socket_addr list) list" where
  "example_overrides =
     [(''a.io'', [\<lparr> sa_ip = V4 10 0 0 1, sa_port = 81 \<rparr>]),
      (''A.IO.'', [\<lparr> sa_ip = V4 10 0 0 2, sa_port = 0 \<rparr>, \<lparr> sa_ip = V4 10 0 0 3, sa_port = 82 \<rparr>,
                   \<lparr> sa_ip = V4 10 0 0 2, sa_port = 0 \<rparr>])]"

lemma example_normalize:
  "normalize_domain example_hosts ''a.io'' = Some ''a.io''" "normalize_domain example_hosts ''A.IO.'' = Some ''a.io''"
  by code_simp+

theorem dns_overrides_exact_witness:
  "\<exists>entries. dns_overrides_configure example_hosts example_overrides [] = (Ok entries :: (dns_overrides, unit error) result) \<and>
     dns_overrides_lookup example_hosts entries ''a.io'' =
       Some [\<lparr> sa_ip = V4 10 0 0 2, sa_port = 0 \<rparr>, \<lparr> sa_ip = V4 10 0 0 3, sa_port = 82 \<rparr>] \<and>
     async_resolver_call example_hosts entries (\<lambda>name. name) ''a.io'' =
       From_Overrides [\<lparr> sa_ip = V4 10 0 0 2, sa_port = 0 \<rparr>, \<lparr> sa_ip = V4 10 0 0 3, sa_port = 82 \<rparr>]"
proof -
  note exact = dns_overrides_exact [where host_parse = example_hosts and calls = example_overrides
      and host = "''a.io''" and fallback = "\<lambda>name. name" and U = triple_uris
      and uri = "(Some ''http'', Some ''a.io'', ''/'')" and fallback' = "\<lambda>u. u" and 'h = unit]
  have "list_all (valid_override example_hosts) example_overrides"
    by (simp add: example_overrides_def valid_override_def example_normalize)
  then obtain entries where configured:
      "dns_overrides_configure example_hosts example_overrides [] = (Ok entries :: (dns_overrides, unit error) result)"
    using conjunct1 [OF exact] by (auto simp: is_ok_iff)
  have addresses: "Option.bind (normalize_domain example_hosts ''a.io'') (overrides_of example_hosts example_overrides) =
      Some [\<lparr> sa_ip = V4 10 0 0 2, sa_port = 0 \<rparr>, \<lparr> sa_ip = V4 10 0 0 3, sa_port = 82 \<rparr>]"
    by (simp add: example_overrides_def overrides_of_def example_normalize unique_addresses_def)
  note claims = mp [OF spec [OF conjunct2 [OF exact]] configured, unfolded addresses]
  have "dns_overrides_lookup example_hosts entries ''a.io'' =
      Some [\<lparr> sa_ip = V4 10 0 0 2, sa_port = 0 \<rparr>, \<lparr> sa_ip = V4 10 0 0 3, sa_port = 82 \<rparr>]"
    using claims by blast
  moreover have "async_resolver_call example_hosts entries (\<lambda>name. name) ''a.io'' =
      From_Overrides [\<lparr> sa_ip = V4 10 0 0 2, sa_port = 0 \<rparr>, \<lparr> sa_ip = V4 10 0 0 3, sa_port = 82 \<rparr>]"
    using claims unfolding calculation by simp
  ultimately show ?thesis using configured by blast
qed

end
