(* ===== verification/Reqx_Pem.thy ===== *)
theory Reqx_Pem
  imports Reqx_Uri
begin

text \<open>
  TLS options and the parser of PEM bundles (\<open>src/src/tls.rs\<close>). The parser cuts a bundle into its
  certificates and rejects whatever is not one. The cursor of the code is the rest of the bundle here.
  The theorem at the end states what an accepted bundle looks like and that a bundle that is put
  together from certificates is taken apart again.
\<close>

subsection \<open>Options\<close>

datatype tls_backend = RustlsRing | RustlsAwsLcRs | RustlsGraviola | RustlsNoProvider | NativeTls

primrec tls_backend_as_str :: "tls_backend \<Rightarrow> string" where
  "tls_backend_as_str RustlsRing = ''rustls-ring''"
| "tls_backend_as_str RustlsAwsLcRs = ''rustls-aws-lc-rs''"
| "tls_backend_as_str RustlsGraviola = ''rustls-graviola''"
| "tls_backend_as_str RustlsNoProvider = ''rustls-no-provider''"
| "tls_backend_as_str NativeTls = ''native-tls''"

datatype tls_version = V1_2 | V1_3

primrec tls_version_as_str :: "tls_version \<Rightarrow> string" where
  "tls_version_as_str V1_2 = ''TLS1.2''"
| "tls_version_as_str V1_3 = ''TLS1.3''"

instantiation tls_version :: linorder
begin

definition less_eq_tls_version :: "tls_version \<Rightarrow> tls_version \<Rightarrow> bool" where
  "less_eq_tls_version v w = (v = V1_2 \<or> w = V1_3)"

definition less_tls_version :: "tls_version \<Rightarrow> tls_version \<Rightarrow> bool" where
  "less_tls_version v w = (v = V1_2 \<and> w = V1_3)"

instance
  by standard (auto simp: less_eq_tls_version_def less_tls_version_def intro: tls_version.exhaust)

end

datatype tls_root_store = Roots_BackendDefault | Roots_WebPki | Roots_System | Roots_Specific

datatype tls_root_certificate = Root_Pem string | Root_Der string

datatype tls_client_identity = Identity_Pem string string | Identity_Pkcs12 string string

record tls_options =
  to_root_store :: tls_root_store
  to_root_certificates :: "tls_root_certificate list"
  to_client_identity :: "tls_client_identity option"
  to_min_protocol_version :: "tls_version option"
  to_max_protocol_version :: "tls_version option"

definition tls_options_default :: tls_options where
  "tls_options_default =
     \<lparr> to_root_store = Roots_BackendDefault, to_root_certificates = [], to_client_identity = None,
       to_min_protocol_version = None, to_max_protocol_version = None \<rparr>"

definition tls_config_error :: "tls_backend \<Rightarrow> string \<Rightarrow> 'h error" where
  "tls_config_error backend message = TlsConfig (tls_backend_as_str backend) message"

record version_bounds =
  tv_min :: "tls_version option"
  tv_max :: "tls_version option"

definition bounds_contain :: "version_bounds \<Rightarrow> tls_version \<Rightarrow> bool" where
  "bounds_contain b version =
     (is_none_or (\<lambda>m. m \<le> version) (tv_min b) \<and> is_none_or (\<lambda>m. version \<le> m) (tv_max b))"

definition tls_version_bounds :: "tls_backend \<Rightarrow> tls_options \<Rightarrow> (version_bounds, 'h error) result" where
  "tls_version_bounds backend opts =
     (case (to_min_protocol_version opts, to_max_protocol_version opts) of
        (Some vmin, Some vmax) \<Rightarrow>
          if vmin > vmax
          then Err (tls_config_error backend
                 (''invalid TLS version range: min version '' @ tls_version_as_str vmin @
                  '' is greater than max version '' @ tls_version_as_str vmax))
          else Ok \<lparr> tv_min = Some vmin, tv_max = Some vmax \<rparr>
      | (vmin, vmax) \<Rightarrow> Ok \<lparr> tv_min = vmin, tv_max = vmax \<rparr>)"

subsection \<open>The parser\<close>

text \<open>\<open>haystack.windows(n).position(..)\<close>.\<close>

definition find_subslice :: "string \<Rightarrow> string \<Rightarrow> nat option" where
  "find_subslice haystack needle =
     (if needle = [] \<or> length haystack < length needle then None
      else find (\<lambda>i. take (length needle) (drop i haystack) = needle) [0..<Suc (length haystack - length needle)])"

definition contains_pem_marker :: "string \<Rightarrow> string \<Rightarrow> bool" where
  "contains_pem_marker haystack marker = (find_subslice haystack marker \<noteq> None)"

text \<open>\<open>u8::is_ascii_whitespace\<close> does not include the vertical tab.\<close>

definition u8_is_ascii_whitespace :: "char \<Rightarrow> bool" where
  "u8_is_ascii_whitespace b = (byte_of b \<in> {9, 10, 12, 13, 32 :: nat})"

definition is_pem_outer_padding :: "string \<Rightarrow> bool" where
  "is_pem_outer_padding v = list_all u8_is_ascii_whitespace v"

definition pem_begin_prefix :: string where "pem_begin_prefix = ''-----BEGIN ''"
definition pem_end_prefix :: string where "pem_end_prefix = ''-----END ''"
definition pem_begin :: string where "pem_begin = ''-----BEGIN CERTIFICATE-----''"
definition pem_end :: string where "pem_end = ''-----END CERTIFICATE-----''"

definition is_newline :: "char \<Rightarrow> bool" where
  "is_newline c = (c = CHR 0x0A \<or> c = CHR 0x0D)"

text \<open>
  What one iteration finds: the end of the bundle, an error, or the next block and the rest.
\<close>

datatype pem_step = Pem_Done | Pem_Error string | Pem_Block string string

definition pem_next :: "string \<Rightarrow> string \<Rightarrow> pem_step" where
  "pem_next context remaining =
     (case (find_subslice remaining pem_begin_prefix, find_subslice remaining pem_end_prefix) of
        (None, None) \<Rightarrow>
          if \<not> is_pem_outer_padding remaining
          then Pem_Error (''PEM '' @ context @ '' contains data outside certificate blocks'')
          else Pem_Done
      | (None, Some _) \<Rightarrow>
          Pem_Error (''PEM '' @ context @ '' contains an end marker without a matching begin marker'')
      | (Some begin_offset, next_end) \<Rightarrow>
          if is_some_and (\<lambda>end_offset. end_offset < begin_offset) next_end
          then Pem_Error (''PEM '' @ context @ '' contains an end marker without a matching begin marker'')
          else if \<not> is_pem_outer_padding (take begin_offset remaining)
          then Pem_Error (''PEM '' @ context @ '' contains data outside certificate blocks'')
          else if \<not> starts_with (drop begin_offset remaining) pem_begin
          then Pem_Error (''PEM '' @ context @ '' contains a non-certificate block'')
          else
            (let inner = drop (begin_offset + length pem_begin) remaining
             in case find_subslice inner pem_end of
                  None \<Rightarrow> Pem_Error (''PEM '' @ context @ '' block is missing its END CERTIFICATE marker'')
                | Some end_offset \<Rightarrow>
                    if contains_pem_marker (take end_offset inner) pem_begin_prefix
                    then Pem_Error (''PEM '' @ context @ '' contains a nested begin marker'')
                    else
                      (let rest = drop (end_offset + length pem_end) inner;
                           block_len = length pem_begin + end_offset + length pem_end + length (takeWhile is_newline rest)
                       in Pem_Block (take block_len (drop begin_offset remaining)) (dropWhile is_newline rest))))"

lemma find_subslice_Some:
  assumes "find_subslice haystack needle = Some i"
  shows "needle \<noteq> []" "haystack = take i haystack @ needle @ drop (i + length needle) haystack"
    "i + length needle \<le> length haystack" "\<And>j. j < i \<Longrightarrow> take (length needle) (drop j haystack) \<noteq> needle"
proof -
  let ?occurs = "\<lambda>i. take (length needle) (drop i haystack) = needle"
  have n: "needle \<noteq> []" "length needle \<le> length haystack"
    using assms by (auto simp: find_subslice_def split: if_splits)
  then have found: "find ?occurs [0..<Suc (length haystack - length needle)] = Some i"
    using assms by (simp add: find_subslice_def)
  then obtain k where k: "k < Suc (length haystack - length needle)" "i = k" "?occurs k" "\<And>j. j < k \<Longrightarrow> \<not> ?occurs j"
    unfolding find_Some_iff by (auto simp del: upt_Suc)
  show "needle \<noteq> []" by (rule n)
  show "i + length needle \<le> length haystack" using k(1,2) n(2) by linarith
  show "haystack = take i haystack @ needle @ drop (i + length needle) haystack"
    using k(2,3) append_take_drop_id [of i haystack] append_take_drop_id [of "length needle" "drop i haystack"]
    by (simp add: add.commute)
  show "take (length needle) (drop j haystack) \<noteq> needle" if "j < i" for j using k that by blast
qed

lemma pem_next_shorter:
  assumes "pem_next context remaining = Pem_Block block rest"
  shows "length rest < length remaining"
proof -
  obtain i j where "find_subslice remaining pem_begin_prefix = Some i"
      and j: "find_subslice (drop (i + length pem_begin) remaining) pem_end = Some j"
      and rest: "rest = dropWhile is_newline (drop (j + length pem_end) (drop (i + length pem_begin) remaining))"
    using assms by (auto simp: pem_next_def Let_def split: option.splits if_splits)
  have "length rest \<le> length remaining - (i + length pem_begin) - (j + length pem_end)"
    unfolding rest by (rule order_trans [OF length_dropWhile_le]) simp
  moreover have "j + length pem_end \<le> length remaining - (i + length pem_begin)"
    using find_subslice_Some(3) [OF j] by simp
  ultimately show ?thesis by (simp add: pem_end_def)
qed

function pem_blocks :: "string \<Rightarrow> string list \<Rightarrow> string \<Rightarrow> (string list, string) result" where
  "pem_blocks context blocks remaining =
     (case pem_next context remaining of
        Pem_Done \<Rightarrow> Ok blocks
      | Pem_Error message \<Rightarrow> Err message
      | Pem_Block block rest \<Rightarrow> pem_blocks context (blocks @ [block]) rest)"
  by pat_completeness auto
termination
  by (relation "measure (\<lambda>(context, blocks, remaining). length remaining)") (auto dest: pem_next_shorter)

declare pem_blocks.simps [simp del]

definition parse_pem_certificate_blocks ::
    "tls_backend \<Rightarrow> string \<Rightarrow> string \<Rightarrow> (string list, 'h error) result" where
  "parse_pem_certificate_blocks backend pem_bundle context =
     (case pem_blocks context [] pem_bundle of
        Err message \<Rightarrow> Err (tls_config_error backend message)
      | Ok blocks \<Rightarrow>
          if blocks = []
          then Err (tls_config_error backend (''no certificate blocks found in PEM '' @ context))
          else Ok blocks)"

subsection \<open>Accepted bundles\<close>

text \<open>
  A certificate block runs from its begin marker to the first end marker after it and the line breaks
  that follow; a bundle is a sequence of blocks with white space around them.
\<close>

definition is_certificate_block :: "string \<Rightarrow> bool" where
  "is_certificate_block block \<longleftrightarrow>
     (\<exists>body newlines. block = pem_begin @ body @ pem_end @ newlines \<and> list_all is_newline newlines \<and>
        find_subslice (body @ pem_end) pem_end = Some (length body) \<and> find_subslice body pem_begin_prefix = None)"

inductive certificate_bundle :: "string list \<Rightarrow> string \<Rightarrow> bool" where
  padding: "is_pem_outer_padding pad \<Longrightarrow> certificate_bundle [] pad"
| block: "is_pem_outer_padding pad \<Longrightarrow> is_certificate_block block \<Longrightarrow> certificate_bundle blocks rest \<Longrightarrow>
    (rest = [] \<or> \<not> is_newline (hd rest)) \<Longrightarrow> certificate_bundle (block # blocks) (pad @ block @ rest)"

lemma find_map: "find P (map f xs) = map_option f (find (P \<circ> f) xs)"
  by (induction xs) auto

lemma find_subslice_Nil [simp]: "find_subslice [] needle = None"
  by (cases needle) (simp_all add: find_subslice_def)

lemma find_subslice_Cons:
  assumes "needle \<noteq> []"
  shows "find_subslice (c # haystack) needle =
    (if take (length needle) (c # haystack) = needle then Some 0 else map_option Suc (find_subslice haystack needle))"
proof (cases "length needle \<le> length haystack")
  case True
  then have "[0..<Suc (length (c # haystack) - length needle)] = 0 # map Suc [0..<Suc (length haystack - length needle)]"
    by (simp only: map_Suc_upt) (simp add: Suc_diff_le upt_conv_Cons del: upt_Suc)
  then show ?thesis using True assms by (simp add: find_subslice_def find_map o_def del: upt_Suc)
next
  case False
  show ?thesis
  proof (cases "length needle = Suc (length haystack)")
    case True
    then show ?thesis using assms by (simp add: find_subslice_def)
  next
    case False': False
    have "length (take (length needle) (c # haystack)) < length needle" using False False' by simp
    then have "take (length needle) (c # haystack) \<noteq> needle" by (metis less_irrefl)
    then show ?thesis using False False' assms by (simp add: find_subslice_def)
  qed
qed

lemma find_subslice_padding:
  assumes "is_pem_outer_padding pad" "needle \<noteq> []" "hd needle = CHR ''-''"
  shows "find_subslice (pad @ haystack) needle = map_option ((+) (length pad)) (find_subslice haystack needle)"
  using assms(1)
proof (induction pad)
  case (Cons c pad)
  have "c \<noteq> CHR ''-''" using Cons.prems by (auto simp: is_pem_outer_padding_def u8_is_ascii_whitespace_def)
  then have "take (length needle) (c # pad @ haystack) \<noteq> needle" using assms(2,3) by (cases needle) auto
  then show ?case
    using Cons by (simp add: find_subslice_Cons assms(2) is_pem_outer_padding_def option.map_comp o_def)
qed (cases "find_subslice haystack needle"; simp)

lemma find_subslice_prefix:
  "needle \<noteq> [] \<Longrightarrow> starts_with haystack needle \<Longrightarrow> find_subslice haystack needle = Some 0"
  by (cases haystack) (simp_all add: find_subslice_Cons starts_with_def)

text \<open>The first occurrence stays the first when the text goes on.\<close>

lemma find_subslice_append:
  "find_subslice haystack needle = Some i \<Longrightarrow> find_subslice (haystack @ rest) needle = Some i"
proof (induction haystack arbitrary: i)
  case (Cons c haystack)
  have needle: "needle \<noteq> []" using find_subslice_Some(1) [OF Cons.prems] .
  have len: "length needle \<le> length (c # haystack)" using find_subslice_Some(3) [OF Cons.prems] by simp
  then have "take (length needle) ((c # haystack) @ rest) = take (length needle) (c # haystack)"
    by (simp only: take_append) simp
  then show ?case
    using Cons by (auto simp: find_subslice_Cons needle split: if_splits)
qed simp

lemma find_subslice_take:
  assumes "find_subslice haystack needle = Some i"
  shows "find_subslice (take i haystack @ needle) needle = Some i"
  using assms
proof (induction haystack arbitrary: i)
  case (Cons c haystack)
  have needle: "needle \<noteq> []" using find_subslice_Some(1) [OF Cons.prems] .
  show ?case
  proof (cases "take (length needle) (c # haystack) = needle")
    case True
    then have "i = 0" using Cons.prems by (simp add: find_subslice_Cons needle)
    then show ?thesis using needle by (simp add: find_subslice_prefix starts_with_def)
  next
    case False
    then obtain j where j: "i = Suc j" "find_subslice haystack needle = Some j"
      using Cons.prems by (auto simp: find_subslice_Cons needle)
    have h: "c # haystack = (c # take j haystack @ needle) @ drop (j + length needle) haystack"
      using find_subslice_Some(2) [OF j(2)] by simp
    have "take (length needle) (c # haystack) = take (length needle) (c # take j haystack @ needle)"
      by (subst h) (simp only: take_append, simp)
    then show ?thesis using False Cons.IH [OF j(2)] j(1) by (simp add: find_subslice_Cons needle)
  qed
qed simp

lemmas pem_markers = pem_begin_prefix_def pem_end_prefix_def pem_begin_def pem_end_def

lemma marker_simps [simp]:
  "pem_begin_prefix \<noteq> []" "pem_end_prefix \<noteq> []" "pem_begin \<noteq> []" "pem_end \<noteq> []"
  "hd pem_begin_prefix = CHR ''-''" "hd pem_end_prefix = CHR ''-''"
  "starts_with (pem_begin @ text) pem_begin" "starts_with (pem_begin @ text) pem_begin_prefix"
  by (simp_all add: pem_markers starts_with_def)

lemma pem_next_padding: "is_pem_outer_padding pad \<Longrightarrow> pem_next what pad = Pem_Done"
  using find_subslice_padding [of pad pem_begin_prefix "[]"] find_subslice_padding [of pad pem_end_prefix "[]"]
  by (simp add: pem_next_def)

lemma pem_next_block:
  assumes pad: "is_pem_outer_padding pad" and block: "is_certificate_block block"
    and rest: "rest = [] \<or> \<not> is_newline (hd rest)"
  shows "pem_next what (pad @ block @ rest) = Pem_Block block rest"
proof -
  obtain body newlines where body: "block = pem_begin @ body @ pem_end @ newlines" "list_all is_newline newlines"
      "find_subslice (body @ pem_end) pem_end = Some (length body)" "find_subslice body pem_begin_prefix = None"
    using block unfolding is_certificate_block_def by blast
  have first: "find_subslice (pad @ block @ rest) pem_begin_prefix = Some (length pad)"
    using find_subslice_padding [OF pad, of pem_begin_prefix "block @ rest"] by (simp add: body(1) find_subslice_prefix)
  have ends: "\<not> is_some_and (\<lambda>e. e < length pad) (find_subslice (pad @ block @ rest) pem_end_prefix)"
    using find_subslice_padding [OF pad, of pem_end_prefix "block @ rest"]
    by (cases "find_subslice (block @ rest) pem_end_prefix") simp_all
  have inner: "drop (length pem_begin) block = body @ pem_end @ newlines" by (simp add: body(1))
  have "find_subslice ((body @ pem_end) @ newlines @ rest) pem_end = Some (length body)"
    by (rule find_subslice_append [OF body(3)])
  moreover have "takeWhile is_newline (newlines @ rest) = newlines" "dropWhile is_newline (newlines @ rest) = rest"
    using body(2) rest by (cases rest; auto simp: list_all_iff)+
  moreover have "starts_with (block @ rest) pem_begin"
      "length pem_begin + length body + length pem_end + length newlines = length block"
    by (simp_all add: body(1))
  ultimately show ?thesis
    using pad body(4) by (simp add: pem_next_def first ends inner Let_def contains_pem_marker_def)
qed

lemma pem_next_sound:
  assumes "pem_next what remaining = Pem_Block block rest"
  shows "\<exists>pad. remaining = pad @ block @ rest \<and> is_pem_outer_padding pad \<and> is_certificate_block block \<and>
    (rest = [] \<or> \<not> is_newline (hd rest))"
proof -
  obtain i j where i: "find_subslice remaining pem_begin_prefix = Some i" "is_pem_outer_padding (take i remaining)"
      "starts_with (drop i remaining) pem_begin"
    and j: "find_subslice (drop (i + length pem_begin) remaining) pem_end = Some j"
      "\<not> contains_pem_marker (take j (drop (i + length pem_begin) remaining)) pem_begin_prefix"
    and block: "block = take (length pem_begin + j + length pem_end +
        length (takeWhile is_newline (drop (j + length pem_end) (drop (i + length pem_begin) remaining)))) (drop i remaining)"
    and rest: "rest = dropWhile is_newline (drop (j + length pem_end) (drop (i + length pem_begin) remaining))"
    using assms by (auto simp: pem_next_def Let_def split: option.splits if_splits)
  define inner where "inner = drop (i + length pem_begin) remaining"
  define after_end where "after_end = drop (j + length pem_end) inner"
  have begins: "drop i remaining = pem_begin @ inner"
    using i(3) append_take_drop_id [of "length pem_begin" "drop i remaining"]
    by (simp add: starts_with_def inner_def add.commute)
  have split_inner: "inner = take j inner @ pem_end @ after_end" and len: "j + length pem_end \<le> length inner"
    using find_subslice_Some(2,3) [OF j(1)] by (simp_all add: inner_def after_end_def)
  have block': "block = pem_begin @ take j inner @ pem_end @ takeWhile is_newline after_end"
  proof -
    have "pem_begin @ inner = (pem_begin @ take j inner @ pem_end @ takeWhile is_newline after_end) @ dropWhile is_newline after_end"
      by (subst split_inner) simp
    moreover have "length (pem_begin @ take j inner @ pem_end @ takeWhile is_newline after_end) =
        length pem_begin + j + length pem_end + length (takeWhile is_newline after_end)"
      using len by simp
    ultimately show ?thesis
      unfolding block begins inner_def [symmetric] after_end_def [symmetric] by (metis append_eq_conv_conj)
  qed
  have "remaining = take i remaining @ pem_begin @ inner" by (simp add: begins [symmetric])
  also have "\<dots> = take i remaining @ block @ rest"
    unfolding block' rest inner_def [symmetric] after_end_def [symmetric] by (subst split_inner) simp
  finally have whole: "remaining = take i remaining @ block @ rest" .
  have "is_certificate_block block"
    unfolding is_certificate_block_def
  proof (intro exI conjI)
    show "block = pem_begin @ take j inner @ pem_end @ takeWhile is_newline after_end" by (rule block')
    show "list_all is_newline (takeWhile is_newline after_end)" by (auto simp: list_all_iff dest: set_takeWhileD)
    show "find_subslice (take j inner @ pem_end) pem_end = Some (length (take j inner))"
      using find_subslice_take [OF j(1) [folded inner_def]] len by simp
    show "find_subslice (take j inner) pem_begin_prefix = None"
      using j(2) by (simp add: contains_pem_marker_def inner_def)
  qed
  moreover have "rest = [] \<or> \<not> is_newline (hd rest)" using rest hd_dropWhile by blast
  ultimately show ?thesis using whole i(2) by blast
qed

lemma pem_next_Done: "pem_next what remaining = Pem_Done \<Longrightarrow> is_pem_outer_padding remaining"
  by (auto simp: pem_next_def Let_def split: option.splits if_splits)

lemma pem_blocks_complete:
  "certificate_bundle blocks pem \<Longrightarrow> pem_blocks what found pem = Ok (found @ blocks)"
proof (induction arbitrary: found rule: certificate_bundle.induct)
  case (padding pad)
  then show ?case by (simp add: pem_blocks.simps pem_next_padding)
next
  case (block pad b blocks rest)
  then show ?case by (subst pem_blocks.simps) (simp add: pem_next_block)
qed

lemma pem_blocks_sound:
  "pem_blocks what found pem = Ok blocks \<Longrightarrow> \<exists>more_blocks. blocks = found @ more_blocks \<and> certificate_bundle more_blocks pem"
proof (induction what found pem rule: pem_blocks.induct)
  case (1 what found pem)
  show ?case
  proof (cases "pem_next what pem")
    case Pem_Done
    then show ?thesis
      using "1.prems" certificate_bundle.padding [OF pem_next_Done] by (simp add: pem_blocks.simps [of what found pem])
  next
    case (Pem_Error message)
    then show ?thesis using "1.prems" by (simp add: pem_blocks.simps [of what found pem])
  next
    case (Pem_Block block rest)
    then have "pem_blocks what (found @ [block]) rest = Ok blocks"
      using "1.prems" by (simp add: pem_blocks.simps [of what found pem])
    then obtain more_blocks where more: "blocks = (found @ [block]) @ more_blocks" "certificate_bundle more_blocks rest"
      using "1.IH" [OF Pem_Block] by blast
    obtain pad where "pem = pad @ block @ rest" "is_pem_outer_padding pad" "is_certificate_block block"
        "rest = [] \<or> \<not> is_newline (hd rest)"
      using pem_next_sound [OF Pem_Block] by blast
    then show ?thesis
      using more by (intro exI [of _ "block # more_blocks"]) (simp add: certificate_bundle.block)
  qed
qed

lemma parse_pem_Ok:
  assumes "parse_pem_certificate_blocks backend pem what = (Ok blocks :: (string list, 'h error) result)"
  shows "blocks \<noteq> [] \<and> certificate_bundle blocks pem"
  using assms pem_blocks_sound [of what "[]" pem blocks]
  by (auto simp: parse_pem_certificate_blocks_def split: result.splits if_splits)

text \<open>
  C21: A PEM bundle is accepted if and only if it consists of one or more certificate blocks with nothing
  but white space around them, and the parser returns exactly these blocks, in their order. No
  certificate is dropped silently and nothing else is taken for one.
\<close>

theorem pem_bundle_exact:
  "parse_pem_certificate_blocks backend pem what = (Ok blocks :: (string list, 'h error) result) \<longleftrightarrow>
     blocks \<noteq> [] \<and> certificate_bundle blocks pem"
proof
  assume "blocks \<noteq> [] \<and> certificate_bundle blocks pem"
  then show "parse_pem_certificate_blocks backend pem what = (Ok blocks :: (string list, 'h error) result)"
    using pem_blocks_complete [of blocks pem what "[]"] by (simp add: parse_pem_certificate_blocks_def)
qed (rule parse_pem_Ok)

end
