(* ===== verification/Reqx_Tls.thy ===== *)
theory Reqx_Tls
  imports Reqx_Pem Reqx_Headers
begin

text \<open>
  The TLS configuration of both transports (\<open>src/src/blocking_client/transport.rs\<close>,
  \<open>src/src/async_client/transport.rs\<close>, \<open>src/src/tls.rs\<close>): which backend is available, which certificates
  are trusted, which protocol versions are offered, which identity is presented. A certificate is its
  DER encoding.

  The parsers of certificates and keys, the stores of the system and of Mozilla and the crypto providers
  are the parameters \<open>tls_ops\<close>; a failure of one of them is its text. The features with which the crate
  is compiled are a predicate on backends for each transport.
\<close>

subsection \<open>Third-party code and features\<close>

record tls_ops =
  tp_from_pem :: "string \<Rightarrow> (string, string) result"
  tp_check_root :: "string \<Rightarrow> string unit_result"
  tp_system_roots :: "string list"
  tp_system_errors :: nat
  tp_webpki_roots :: "string list"
  tp_private_key :: "string \<Rightarrow> (string, string) result"
  tp_provider_installed :: bool
  tp_protocol_versions :: "tls_version list \<Rightarrow> string unit_result"
  tp_client_auth :: "string list \<Rightarrow> string \<Rightarrow> string unit_result"
  tp_identity_pkcs8 :: "string \<Rightarrow> string \<Rightarrow> (string, string) result"
  tp_identity_pkcs12 :: "string \<Rightarrow> string \<Rightarrow> (string, string) result"
  tp_native_build :: "string unit_result"

type_synonym backend_features = "tls_backend \<Rightarrow> bool"

definition any_rustls :: "backend_features \<Rightarrow> bool" where
  "any_rustls F = (F RustlsRing \<or> F RustlsAwsLcRs \<or> F RustlsGraviola \<or> F RustlsNoProvider)"

definition default_tls_backend :: "backend_features \<Rightarrow> tls_backend" where
  "default_tls_backend F =
     (if F RustlsRing then RustlsRing
      else if F RustlsAwsLcRs then RustlsAwsLcRs
      else if F NativeTls then NativeTls
      else if F RustlsGraviola then RustlsGraviola
      else if F RustlsNoProvider then RustlsNoProvider
      else RustlsRing)"

definition backend_is_available :: "backend_features \<Rightarrow> tls_backend \<Rightarrow> bool" where
  "backend_is_available F backend =
     (case backend of
        RustlsRing \<Rightarrow> F RustlsRing
      | RustlsAwsLcRs \<Rightarrow> F RustlsAwsLcRs
      | RustlsGraviola \<Rightarrow> F RustlsGraviola
      | NativeTls \<Rightarrow> F NativeTls
      | RustlsNoProvider \<Rightarrow> F RustlsNoProvider)"

text \<open>\<open>F\<close> has the features of both transports here.\<close>

definition rustls_crypto_provider ::
    "backend_features \<Rightarrow> tls_ops \<Rightarrow> tls_backend \<Rightarrow> (tls_backend, 'h error) result" where
  "rustls_crypto_provider F P backend =
     (case backend of
        NativeTls \<Rightarrow> Err (TlsBackendUnavailable (tls_backend_as_str backend))
      | RustlsNoProvider \<Rightarrow>
          if \<not> F backend then Err (TlsBackendUnavailable (tls_backend_as_str backend))
          else if tp_provider_installed P then Ok backend
          else Err (TlsBackendInit (tls_backend_as_str backend)
            ''no rustls CryptoProvider is installed as the process-wide default; call CryptoProvider::install_default() before building a rustls-no-provider client'')
      | _ \<Rightarrow> if F backend then Ok backend else Err (TlsBackendUnavailable (tls_backend_as_str backend)))"

definition custom_roots_message :: string where
  "custom_roots_message =
     ''custom root CAs require tls_root_store(TlsRootStore::WebPki), tls_root_store(TlsRootStore::System), or tls_root_store(TlsRootStore::Specific)''"

definition specific_roots_message :: string where
  "specific_roots_message = ''tls_root_store(TlsRootStore::Specific) requires at least one root CA''"

text \<open>A loop that collects what each element yields, and stops at the first error.\<close>

fun collect_results :: "('a \<Rightarrow> ('b list, 'e) result) \<Rightarrow> 'a list \<Rightarrow> ('b list, 'e) result" where
  "collect_results f [] = Ok []"
| "collect_results f (x # xs) =
     result_bind (f x) (\<lambda>ys. result_bind (collect_results f xs) (\<lambda>zs. Ok (ys @ zs)))"

definition single :: "('b, 'e) result \<Rightarrow> ('b list, 'e) result" where
  "single r = result_bind r (\<lambda>v. Ok [v])"

subsection \<open>The blocking transport\<close>

definition parse_pem_certificates ::
    "tls_ops \<Rightarrow> tls_backend \<Rightarrow> string \<Rightarrow> string \<Rightarrow> (string list, 'h error) result" where
  "parse_pem_certificates P backend pem_bundle context =
     result_bind (parse_pem_certificate_blocks backend pem_bundle context)
       (collect_results (\<lambda>block. single (map_err
          (\<lambda>src. tls_config_error backend (''failed to parse PEM '' @ context @ '': '' @ src)) (tp_from_pem P block))))"

definition load_system_root_certificates ::
    "tls_ops \<Rightarrow> tls_backend \<Rightarrow> (string list, 'h error) result" where
  "load_system_root_certificates P backend =
     (if tp_system_roots P = [] \<and> tp_system_errors P \<noteq> 0
      then Err (tls_config_error backend ''failed to load system root certificates'')
      else Ok (tp_system_roots P))"

text \<open>
  The checks of custom roots by \<open>rustls\<close> and by \<open>native-tls\<close>, which differ only in the crate they call.
\<close>

fun validate_custom_root_certificates :: "tls_ops \<Rightarrow> tls_backend \<Rightarrow> string list \<Rightarrow> 'h error unit_result" where
  "validate_custom_root_certificates P backend [] = Ok ()"
| "validate_custom_root_certificates P backend (cert # roots) =
     result_bind (map_err (\<lambda>src. tls_config_error backend (''failed to parse custom root certificate: '' @ src))
         (tp_check_root P cert))
       (\<lambda>_. validate_custom_root_certificates P backend roots)"

definition blocking_custom_roots ::
    "tls_ops \<Rightarrow> tls_backend \<Rightarrow> tls_options \<Rightarrow> (string list, 'h error) result" where
  "blocking_custom_roots P backend opts =
     collect_results
       (\<lambda>c. case c of Root_Pem pem \<Rightarrow> parse_pem_certificates P backend pem ''root certificate'' | Root_Der der \<Rightarrow> Ok [der])
       (to_root_certificates opts)"

datatype ureq_roots = Ureq_WebPki | Ureq_Platform | Ureq_Certs "string list"

record sync_tls_config =
  sc_native :: bool
  sc_roots :: ureq_roots
  sc_client_cert :: "(string list \<times> string) option"
  sc_crypto_provider :: "tls_backend option"

definition check_blocking_options ::
    "backend_features \<Rightarrow> tls_backend \<Rightarrow> tls_options \<Rightarrow> 'h error unit_result" where
  "check_blocking_options F backend opts =
     (if \<not> backend_is_available F backend then Err (TlsBackendUnavailable (tls_backend_as_str backend))
      else case tls_version_bounds backend opts of
        Err e \<Rightarrow> Err e
      | Ok bounds \<Rightarrow>
          if tv_min bounds \<noteq> None \<or> tv_max bounds \<noteq> None
          then Err (tls_config_error backend
            ''TLS version bounds are unsupported for blocking ureq transport; protocol version overrides are currently available only for async backends'')
          else if to_root_certificates opts \<noteq> [] \<and>
                  to_root_store opts \<notin> {Roots_WebPki, Roots_System, Roots_Specific}
          then Err (tls_config_error backend custom_roots_message)
          else if backend = NativeTls \<and> to_root_store opts = Roots_WebPki
          then Err (tls_config_error backend
            ''tls_root_store(TlsRootStore::WebPki) is unsupported for native-tls backend; use BackendDefault, System, or Specific'')
          else if backend = NativeTls \<and> to_root_store opts = Roots_System \<and> to_root_certificates opts \<noteq> []
          then Err (tls_config_error backend
            ''blocking native-tls backend cannot combine system roots with custom root CAs; use tls_root_store(TlsRootStore::Specific) to trust only explicit roots'')
          else if to_root_store opts = Roots_Specific \<and> to_root_certificates opts = []
          then Err (tls_config_error backend specific_roots_message)
          else Ok ())"

definition blocking_roots ::
    "backend_features \<Rightarrow> tls_ops \<Rightarrow> tls_backend \<Rightarrow> tls_options \<Rightarrow> string list \<Rightarrow> (ureq_roots, 'h error) result" where
  "blocking_roots F P backend opts roots =
     (case to_root_store opts of
        Roots_BackendDefault \<Rightarrow> Ok (if backend \<noteq> NativeTls then Ureq_WebPki else Ureq_Platform)
      | Roots_WebPki \<Rightarrow>
          if any_rustls F
          then Ok (if roots = [] then Ureq_WebPki else Ureq_Certs (tp_webpki_roots P @ roots))
          else Err (TlsBackendUnavailable (tls_backend_as_str backend))
      | Roots_System \<Rightarrow>
          if roots = [] then Ok Ureq_Platform
          else if any_rustls F
          then result_bind (load_system_root_certificates P backend)
                 (\<lambda>system. if system @ roots = []
                    then Err (tls_config_error backend ''failed to load system root certificates'')
                    else Ok (Ureq_Certs (system @ roots)))
          else Err (TlsBackendUnavailable (tls_backend_as_str backend))
      | Roots_Specific \<Rightarrow> Ok (Ureq_Certs roots))"

definition blocking_identity ::
    "tls_ops \<Rightarrow> tls_backend \<Rightarrow> tls_options \<Rightarrow> ((string list \<times> string) option, 'h error) result" where
  "blocking_identity P backend opts =
     (case to_client_identity opts of
        None \<Rightarrow> Ok None
      | Some (Identity_Pem cert_chain_pem private_key_pem) \<Rightarrow>
          result_bind (parse_pem_certificates P backend cert_chain_pem ''mTLS certificate chain'')
            (\<lambda>cert_chain. result_bind
               (map_err (\<lambda>src. tls_config_error backend (''failed to parse mTLS private key PEM: '' @ src))
                  (tp_private_key P private_key_pem))
               (\<lambda>private_key. Ok (Some (cert_chain, private_key))))
      | Some (Identity_Pkcs12 identity_der password) \<Rightarrow>
          Err (tls_config_error backend
            (''PKCS#12 identity is unsupported in sync ureq transport; use PEM cert+key (pkcs12_bytes='' @
             decimal (length identity_der) @ '', password_len='' @ decimal (length password) @ '')'')))"

definition blocking_crypto_provider ::
    "backend_features \<Rightarrow> backend_features \<Rightarrow> tls_ops \<Rightarrow> tls_backend \<Rightarrow> (tls_backend option, 'h error) result" where
  "blocking_crypto_provider F crate P backend =
     (if any_rustls F \<and> backend \<noteq> NativeTls
      then result_bind (rustls_crypto_provider crate P backend)
             (\<lambda>provider. if F RustlsNoProvider \<and> backend = RustlsNoProvider
                then result_bind (map_err (\<lambda>src. TlsBackendInit (tls_backend_as_str backend) src)
                       (tp_protocol_versions P [V1_3, V1_2])) (\<lambda>_. Ok (Some provider))
                else Ok (Some provider))
      else Ok None)"

definition build_sync_tls_config ::
    "backend_features \<Rightarrow> backend_features \<Rightarrow> tls_ops \<Rightarrow> tls_backend \<Rightarrow> tls_options \<Rightarrow> (sync_tls_config, 'h error) result" where
  "build_sync_tls_config F crate P backend opts =
     result_bind (check_blocking_options F backend opts) (\<lambda>_.
     result_bind (blocking_custom_roots P backend opts) (\<lambda>roots.
     result_bind (if any_rustls F \<and> backend \<noteq> NativeTls \<or> F NativeTls \<and> backend = NativeTls
                  then validate_custom_root_certificates P backend roots else Ok ()) (\<lambda>_.
     result_bind (blocking_roots F P backend opts roots) (\<lambda>trusted.
     result_bind (blocking_identity P backend opts) (\<lambda>client_cert.
     result_bind (blocking_crypto_provider F crate P backend) (\<lambda>provider.
       Ok \<lparr> sc_native = (backend = NativeTls), sc_roots = trusted, sc_client_cert = client_cert,
            sc_crypto_provider = provider \<rparr>))))))"

subsection \<open>The asynchronous transport with rustls\<close>

text \<open>
  A root store is the list of the certificates in it, and what \<open>add_custom_rustls_root_certificates\<close> adds
  is returned; the code returns its number.
\<close>

definition rustls_add_root ::
    "tls_ops \<Rightarrow> tls_backend \<Rightarrow> string \<Rightarrow> string \<Rightarrow> (string list, 'h error) result" where
  "rustls_add_root P backend kind der =
     result_bind (map_err (\<lambda>src. tls_config_error backend (''failed to add '' @ kind @ '' root certificate: '' @ src))
       (tp_check_root P der)) (\<lambda>_. Ok [der])"

definition add_custom_rustls_root_certificates ::
    "tls_ops \<Rightarrow> tls_backend \<Rightarrow> tls_options \<Rightarrow> (string list, 'h error) result" where
  "add_custom_rustls_root_certificates P backend opts =
     collect_results
       (\<lambda>c. case c of
          Root_Pem pem \<Rightarrow>
            result_bind (parse_pem_certificate_blocks backend pem ''root certificate'')
              (collect_results (\<lambda>block.
                 result_bind (map_err (\<lambda>src. tls_config_error backend (''failed to parse PEM root certificate: '' @ src))
                     (tp_from_pem P block))
                   (rustls_add_root P backend ''PEM'')))
        | Root_Der der \<Rightarrow> rustls_add_root P backend ''DER'' der)
       (to_root_certificates opts)"

definition build_rustls_root_store ::
    "tls_ops \<Rightarrow> tls_backend \<Rightarrow> tls_options \<Rightarrow> (string list, 'h error) result" where
  "build_rustls_root_store P backend opts =
     (if to_root_certificates opts \<noteq> [] \<and> to_root_store opts \<notin> {Roots_WebPki, Roots_System, Roots_Specific}
      then Err (tls_config_error backend custom_roots_message)
      else
        let root_store = (if to_root_store opts \<in> {Roots_BackendDefault, Roots_WebPki} then tp_webpki_roots P else [])
        in if to_root_store opts = Roots_Specific \<and> to_root_certificates opts = []
           then Err (tls_config_error backend specific_roots_message)
           else
             let system_added = (if to_root_store opts = Roots_System
                                 then filter (\<lambda>der. is_ok (tp_check_root P der)) (tp_system_roots P) else [])
             in result_bind
                  (if to_root_store opts \<in> {Roots_WebPki, Roots_System, Roots_Specific} \<and> to_root_certificates opts \<noteq> []
                   then add_custom_rustls_root_certificates P backend opts else Ok [])
                  (\<lambda>custom_added.
                     if to_root_store opts = Roots_System \<and> length system_added + length custom_added = 0
                     then Err (tls_config_error backend ''failed to load system root certificates'')
                     else Ok (root_store @ system_added @ custom_added)))"

definition configured_rustls_protocol_versions ::
    "tls_backend \<Rightarrow> tls_options \<Rightarrow> (tls_version list, 'h error) result" where
  "configured_rustls_protocol_versions backend opts =
     result_bind (tls_version_bounds backend opts) (\<lambda>bounds. Ok (filter (bounds_contain bounds) [V1_3, V1_2]))"

record rustls_config =
  rc_provider :: tls_backend
  rc_roots :: "string list"
  rc_versions :: "tls_version list"
  rc_client_auth :: "(string list \<times> string) option"

definition rustls_client_auth ::
    "tls_ops \<Rightarrow> tls_backend \<Rightarrow> tls_options \<Rightarrow> ((string list \<times> string) option, 'h error) result" where
  "rustls_client_auth P backend opts =
     (case to_client_identity opts of
        None \<Rightarrow> Ok None
      | Some (Identity_Pem cert_chain_pem private_key_pem) \<Rightarrow>
          result_bind (parse_pem_certificate_blocks backend cert_chain_pem ''mTLS certificate chain'') (\<lambda>blocks.
          result_bind (collect_results (\<lambda>block. single (map_err
             (\<lambda>src. tls_config_error backend (''failed to parse mTLS certificate chain PEM: '' @ src))
             (tp_from_pem P block))) blocks) (\<lambda>cert_chain.
          result_bind (map_err (\<lambda>src. tls_config_error backend (''failed to parse mTLS private key PEM: '' @ src))
             (tp_private_key P private_key_pem)) (\<lambda>private_key.
          result_bind (map_err (\<lambda>src. tls_config_error backend (''failed to configure mTLS identity: '' @ src))
             (tp_client_auth P cert_chain private_key)) (\<lambda>_.
          Ok (Some (cert_chain, private_key))))))
      | Some (Identity_Pkcs12 identity_der password) \<Rightarrow>
          Err (tls_config_error backend
            (''PKCS#12 identity is unsupported for rustls backends; use PEM cert+key (pkcs12_bytes='' @
             decimal (length identity_der) @ '', password_len='' @ decimal (length password) @ '')'')))"

definition build_rustls_tls_config ::
    "tls_ops \<Rightarrow> tls_backend \<Rightarrow> tls_backend \<Rightarrow> tls_options \<Rightarrow> (rustls_config, 'h error) result" where
  "build_rustls_tls_config P backend provider opts =
     result_bind (build_rustls_root_store P backend opts) (\<lambda>root_store.
     result_bind (configured_rustls_protocol_versions backend opts) (\<lambda>protocol_versions.
     result_bind (map_err (\<lambda>src. TlsBackendInit (tls_backend_as_str backend) src)
        (tp_protocol_versions P protocol_versions)) (\<lambda>_.
     result_bind (rustls_client_auth P backend opts) (\<lambda>client_auth.
       Ok \<lparr> rc_provider = provider, rc_roots = root_store, rc_versions = protocol_versions,
            rc_client_auth = client_auth \<rparr>))))"

subsection \<open>The asynchronous transport with native-tls\<close>

record native_connector =
  nc_alpns :: "string list"
  nc_built_in_roots :: bool
  nc_roots :: "string list"
  nc_identity :: "string option"
  nc_min_version :: "tls_version option"
  nc_max_version :: "tls_version option"

definition native_custom_roots :: "tls_ops \<Rightarrow> tls_options \<Rightarrow> (string list, 'h error) result" where
  "native_custom_roots P opts =
     collect_results
       (\<lambda>c. case c of
          Root_Pem pem \<Rightarrow>
            result_bind (parse_pem_certificate_blocks NativeTls pem ''root certificate'')
              (collect_results (\<lambda>block. single (map_err
                 (\<lambda>src. tls_config_error NativeTls (''failed to parse PEM root certificate: '' @ src)) (tp_from_pem P block))))
        | Root_Der der \<Rightarrow>
            result_bind (map_err (\<lambda>src. tls_config_error NativeTls (''failed to parse DER root certificate: '' @ src))
              (tp_check_root P der)) (\<lambda>_. Ok [der]))
       (to_root_certificates opts)"

definition native_built_in_roots :: "tls_options \<Rightarrow> (bool, 'h error) result" where
  "native_built_in_roots opts =
     (if to_root_certificates opts \<noteq> [] \<and> to_root_store opts \<notin> {Roots_WebPki, Roots_System, Roots_Specific}
      then Err (tls_config_error NativeTls custom_roots_message)
      else case to_root_store opts of
        Roots_BackendDefault \<Rightarrow> Ok True
      | Roots_System \<Rightarrow> Ok True
      | Roots_Specific \<Rightarrow>
          if to_root_certificates opts = [] then Err (tls_config_error NativeTls specific_roots_message) else Ok False
      | Roots_WebPki \<Rightarrow>
          Err (tls_config_error NativeTls
            ''tls_root_store(TlsRootStore::WebPki) is unsupported for native-tls backend; use System or Specific''))"

definition native_identity :: "tls_ops \<Rightarrow> tls_options \<Rightarrow> (string option, 'h error) result" where
  "native_identity P opts =
     (case to_client_identity opts of
        None \<Rightarrow> Ok None
      | Some (Identity_Pem cert_chain_pem private_key_pem) \<Rightarrow>
          result_bind (map_err (\<lambda>src. tls_config_error NativeTls (''failed to parse PKCS#8 mTLS identity: '' @ src))
            (tp_identity_pkcs8 P cert_chain_pem private_key_pem)) (\<lambda>identity. Ok (Some identity))
      | Some (Identity_Pkcs12 identity_der password) \<Rightarrow>
          result_bind (map_err (\<lambda>src. tls_config_error NativeTls (''failed to parse PKCS#12 mTLS identity: '' @ src))
            (tp_identity_pkcs12 P identity_der password)) (\<lambda>identity. Ok (Some identity)))"

definition build_native_tls_connector ::
    "tls_ops \<Rightarrow> tls_options \<Rightarrow> bool \<Rightarrow> (native_connector, 'h error) result" where
  "build_native_tls_connector P opts http2_only =
     result_bind (native_built_in_roots opts) (\<lambda>built_in.
     result_bind (native_custom_roots P opts) (\<lambda>roots.
     result_bind (native_identity P opts) (\<lambda>identity.
     result_bind (tls_version_bounds NativeTls opts) (\<lambda>bounds.
     result_bind (map_err (\<lambda>src. TlsBackendInit (tls_backend_as_str NativeTls) src) (tp_native_build P)) (\<lambda>_.
       Ok \<lparr> nc_alpns = (if http2_only then [''h2''] else [''h2'', ''http/1.1'']), nc_built_in_roots = built_in,
            nc_roots = roots, nc_identity = identity, nc_min_version = tv_min bounds,
            nc_max_version = tv_max bounds \<rparr>)))))"

datatype tls_layer = Layer_Rustls rustls_config "string list" | Layer_Native native_connector

record transport_config =
  tc_tls :: tls_layer
  tc_pool_idle_timeout :: duration
  tc_pool_max_idle_per_host :: nat
  tc_http2_only :: bool

definition build_transport_client ::
    "backend_features \<Rightarrow> backend_features \<Rightarrow> tls_ops \<Rightarrow> tls_backend \<Rightarrow> tls_options \<Rightarrow> duration \<Rightarrow> nat \<Rightarrow> bool \<Rightarrow>
     (transport_config, 'h error) result" where
  "build_transport_client F crate P backend opts pool_idle_timeout pool_max_idle_per_host http2_only =
     (if \<not> backend_is_available F backend then Err (TlsBackendUnavailable (tls_backend_as_str backend))
      else
        result_bind
          (if backend = NativeTls
           then result_bind (build_native_tls_connector P opts http2_only) (\<lambda>c. Ok (Layer_Native c))
           else result_bind (rustls_crypto_provider crate P backend) (\<lambda>provider.
                result_bind (build_rustls_tls_config P backend provider opts) (\<lambda>config.
                  Ok (Layer_Rustls config (if http2_only then [''h2''] else [''h2'', ''http/1.1''])))))
          (\<lambda>tls. Ok \<lparr> tc_tls = tls, tc_pool_idle_timeout = pool_idle_timeout,
                       tc_pool_max_idle_per_host = pool_max_idle_per_host, tc_http2_only = http2_only \<rparr>))"

subsection \<open>What a configuration trusts\<close>

lemma collect_results_Ok:
  "collect_results f xs = Ok ys \<Longrightarrow> \<exists>yss. list_all2 (\<lambda>x zs. f x = Ok zs) xs yss \<and> ys = concat yss"
proof (induction xs arbitrary: ys)
  case (Cons x xs)
  then obtain zs yss where "f x = Ok zs" "list_all2 (\<lambda>x zs. f x = Ok zs) xs yss" "ys = zs @ concat yss"
    by (fastforce simp: result_bind_Ok_iff)
  then show ?case by (intro exI [of _ "zs # yss"]) simp
qed simp

lemma collect_single_Ok:
  assumes "collect_results f xs = Ok ys" "\<And>x zs. f x = Ok zs \<Longrightarrow> \<exists>y. zs = [y] \<and> g x = Ok y"
  shows "map g xs = map Ok ys"
  using assms(1)
proof (induction xs arbitrary: ys)
  case (Cons x xs)
  then obtain zs rest where "f x = Ok zs" "collect_results f xs = Ok rest" "ys = zs @ rest"
    by (auto simp: result_bind_Ok_iff)
  then show ?case using assms(2) Cons.IH by force
qed simp

text \<open>
  The certificates that an entry of the configuration stands for: those of all blocks of a PEM bundle.
\<close>

primrec listed :: "tls_ops \<Rightarrow> tls_root_certificate \<Rightarrow> string list \<Rightarrow> bool" where
  "listed P (Root_Der der) ders \<longleftrightarrow> ders = [der]"
| "listed P (Root_Pem pem) ders \<longleftrightarrow>
     (\<exists>blocks. blocks \<noteq> [] \<and> certificate_bundle blocks pem \<and> map (tp_from_pem P) blocks = map Ok ders)"

definition all_listed :: "tls_ops \<Rightarrow> tls_root_certificate list \<Rightarrow> string list \<Rightarrow> bool" where
  "all_listed P certificates ders \<longleftrightarrow> (\<exists>each. list_all2 (listed P) certificates each \<and> ders = concat each)"

lemma all_listed_Nil [simp]: "all_listed P [] ders \<longleftrightarrow> ders = []"
  by (simp add: all_listed_def)

lemma listed_not_Nil: "listed P c ders \<Longrightarrow> ders \<noteq> []"
  by (cases c) auto

lemma all_listed_not_Nil: "all_listed P certificates ders \<Longrightarrow> certificates \<noteq> [] \<Longrightarrow> ders \<noteq> []"
  by (cases certificates) (auto simp: all_listed_def list_all2_Cons1 dest: listed_not_Nil)

lemma collected_listed:
  assumes "collect_results f certificates = Ok ders" "\<And>c zs. f c = Ok zs \<Longrightarrow> listed P c zs"
  shows "all_listed P certificates ders"
proof -
  obtain each where each: "list_all2 (\<lambda>c zs. f c = Ok zs) certificates each" "ders = concat each"
    using collect_results_Ok [OF assms(1)] by blast
  have "list_all2 (listed P) certificates each" by (rule list_all2_mono [OF each(1) assms(2)])
  then show ?thesis using each(2) unfolding all_listed_def by blast
qed

lemma pem_listed:
  assumes "parse_pem_certificate_blocks backend pem what = (Ok blocks :: (string list, 'h error) result)"
    "collect_results f blocks = Ok ders" "\<And>b zs. f b = Ok zs \<Longrightarrow> \<exists>d. zs = [d] \<and> tp_from_pem P b = Ok d"
  shows "listed P (Root_Pem pem) ders"
  using parse_pem_Ok [OF assms(1)] collect_single_Ok [OF assms(2,3)] by auto

lemma single_map_err_Ok: "single (map_err g r) = Ok zs \<longleftrightarrow> (\<exists>v. r = Ok v \<and> zs = [v])"
  by (cases r) (auto simp: single_def)

lemma map_err_Ok: "map_err g r = Ok v \<longleftrightarrow> r = Ok v"
  by (cases r) auto

lemma blocking_custom_roots_listed:
  assumes "blocking_custom_roots P backend opts = (Ok roots :: (string list, 'h error) result)"
  shows "all_listed P (to_root_certificates opts) roots"
  using assms unfolding blocking_custom_roots_def
proof (rule collected_listed)
  fix c zs
  assume "(case c of Root_Pem pem \<Rightarrow> parse_pem_certificates P backend pem ''root certificate'' | Root_Der der \<Rightarrow> Ok [der]) =
    (Ok zs :: (string list, 'h error) result)"
  then show "listed P c zs"
    by (cases c) (auto simp: parse_pem_certificates_def result_bind_Ok_iff single_map_err_Ok elim!: pem_listed [simplified])
qed

lemma rustls_custom_roots_listed:
  assumes "add_custom_rustls_root_certificates P backend opts = (Ok roots :: (string list, 'h error) result)"
  shows "all_listed P (to_root_certificates opts) roots"
  using assms unfolding add_custom_rustls_root_certificates_def
proof (rule collected_listed)
  fix c zs
  show "listed P c zs" if "(case c of
      Root_Pem pem \<Rightarrow>
        result_bind (parse_pem_certificate_blocks backend pem ''root certificate'')
          (collect_results (\<lambda>block.
             result_bind (map_err (\<lambda>src. tls_config_error backend (''failed to parse PEM root certificate: '' @ src))
                 (tp_from_pem P block))
               (rustls_add_root P backend ''PEM'')))
    | Root_Der der \<Rightarrow> rustls_add_root P backend ''DER'' der) = (Ok zs :: (string list, 'h error) result)"
    using that
    by (cases c) (auto simp: result_bind_Ok_iff map_err_Ok rustls_add_root_def elim!: pem_listed [simplified])
qed

lemma native_custom_roots_listed:
  assumes "native_custom_roots P opts = (Ok roots :: (string list, 'h error) result)"
  shows "all_listed P (to_root_certificates opts) roots"
  using assms unfolding native_custom_roots_def
proof (rule collected_listed)
  fix c zs
  show "listed P c zs" if "(case c of
      Root_Pem pem \<Rightarrow>
        result_bind (parse_pem_certificate_blocks NativeTls pem ''root certificate'')
          (collect_results (\<lambda>block. single (map_err
             (\<lambda>src. tls_config_error NativeTls (''failed to parse PEM root certificate: '' @ src)) (tp_from_pem P block))))
    | Root_Der der \<Rightarrow>
        result_bind (map_err (\<lambda>src. tls_config_error NativeTls (''failed to parse DER root certificate: '' @ src))
          (tp_check_root P der)) (\<lambda>_. Ok [der])) = (Ok zs :: (string list, 'h error) result)"
    using that
    by (cases c) (auto simp: result_bind_Ok_iff map_err_Ok single_map_err_Ok elim!: pem_listed [simplified])
qed

text \<open>
  The certificates that a client is meant to trust, given those that are listed in its configuration.
\<close>

definition intended_roots :: "tls_root_store \<Rightarrow> bool \<Rightarrow> string set \<Rightarrow> string set \<Rightarrow> string set \<Rightarrow> string set" where
  "intended_roots store native webpki system custom =
     (case store of
        Roots_BackendDefault \<Rightarrow> if native then system else webpki
      | Roots_WebPki \<Rightarrow> webpki \<union> custom
      | Roots_System \<Rightarrow> system \<union> custom
      | Roots_Specific \<Rightarrow> custom)"

definition ureq_trusts :: "tls_ops \<Rightarrow> ureq_roots \<Rightarrow> string set" where
  "ureq_trusts P roots =
     (case roots of
        Ureq_WebPki \<Rightarrow> set (tp_webpki_roots P)
      | Ureq_Platform \<Rightarrow> set (tp_system_roots P)
      | Ureq_Certs certs \<Rightarrow> set certs)"

definition native_trusts :: "tls_ops \<Rightarrow> native_connector \<Rightarrow> string set" where
  "native_trusts P c = (if nc_built_in_roots c then set (tp_system_roots P) else {}) \<union> set (nc_roots c)"

definition consistent_roots :: "tls_ops \<Rightarrow> tls_options \<Rightarrow> string list \<Rightarrow> bool" where
  "consistent_roots P opts custom \<longleftrightarrow>
     all_listed P (to_root_certificates opts) custom \<and>
     (to_root_store opts = Roots_BackendDefault \<longrightarrow> custom = []) \<and>
     (to_root_store opts = Roots_Specific \<longrightarrow> custom \<noteq> [])"

definition allowed_versions :: "tls_options \<Rightarrow> tls_version set" where
  "allowed_versions opts =
     {v. (\<forall>m. to_min_protocol_version opts = Some m \<longrightarrow> m \<le> v) \<and> (\<forall>m. to_max_protocol_version opts = Some m \<longrightarrow> v \<le> m)}"

lemma tls_version_bounds_Ok:
  assumes "tls_version_bounds backend opts = (Ok b :: (version_bounds, 'h error) result)"
  shows "tv_min b = to_min_protocol_version opts" "tv_max b = to_max_protocol_version opts"
    "{v. bounds_contain b v} = allowed_versions opts" "allowed_versions opts \<noteq> {}"
proof -
  show ends: "tv_min b = to_min_protocol_version opts" "tv_max b = to_max_protocol_version opts"
    using assms by (auto simp: tls_version_bounds_def split: option.splits if_splits)
  show "{v. bounds_contain b v} = allowed_versions opts"
    by (auto simp: bounds_contain_def allowed_versions_def is_none_or_def ends split: option.splits)
  let ?v = "case to_min_protocol_version opts of Some m \<Rightarrow> m | None \<Rightarrow> V1_2"
  have "?v \<in> allowed_versions opts"
    using assms
    by (auto simp: tls_version_bounds_def allowed_versions_def less_eq_tls_version_def less_tls_version_def not_less
        split: option.splits if_splits intro: tls_version.exhaust)
  then show "allowed_versions opts \<noteq> {}" by blast
qed

lemma check_blocking_options_Ok:
  assumes "check_blocking_options F backend opts = (Ok () :: 'h error unit_result)"
  shows "F backend" "to_min_protocol_version opts = None" "to_max_protocol_version opts = None"
    "to_root_store opts = Roots_BackendDefault \<Longrightarrow> to_root_certificates opts = []"
    "to_root_store opts = Roots_Specific \<Longrightarrow> to_root_certificates opts \<noteq> []"
    "backend = NativeTls \<Longrightarrow> to_root_store opts = Roots_System \<Longrightarrow> to_root_certificates opts = []"
    "backend = NativeTls \<Longrightarrow> to_root_store opts \<noteq> Roots_WebPki"
proof -
  obtain b where "tls_version_bounds backend opts = (Ok b :: (version_bounds, 'h error) result)" "tv_min b = None" "tv_max b = None"
    using assms by (auto simp: check_blocking_options_def split: result.splits if_splits)
  then show "to_min_protocol_version opts = None" "to_max_protocol_version opts = None"
    using tls_version_bounds_Ok(1,2) by metis+
qed (use assms in \<open>auto simp: check_blocking_options_def backend_is_available_def split: result.splits if_splits tls_backend.splits\<close>)

lemma blocking_roots_intended:
  assumes "blocking_roots F P backend opts roots = (Ok trusted :: (ureq_roots, 'h error) result)"
    "all_listed P (to_root_certificates opts) roots"
    "to_root_store opts = Roots_BackendDefault \<Longrightarrow> to_root_certificates opts = []"
  shows "ureq_trusts P trusted =
    intended_roots (to_root_store opts) (backend = NativeTls) (set (tp_webpki_roots P)) (set (tp_system_roots P)) (set roots)"
  using assms
  by (auto simp: blocking_roots_def ureq_trusts_def intended_roots_def result_bind_Ok_iff load_system_root_certificates_def
      split: tls_root_store.splits if_splits)

text \<open>
  The identity that a configuration stands for: all certificates of its chain in their order, with the key
  that the private key parses to, or what native-tls makes of the same bytes and the password. A PKCS#12
  archive is an identity for native-tls alone.
\<close>

definition presents_identity ::
    "tls_ops \<Rightarrow> tls_client_identity option \<Rightarrow> (string list \<times> string) option \<Rightarrow> bool" where
  "presents_identity P identity presented \<longleftrightarrow>
     (case identity of
        None \<Rightarrow> presented = None
      | Some (Identity_Pem cert_chain_pem private_key_pem) \<Rightarrow>
          (\<exists>chain key. presented = Some (chain, key) \<and> listed P (Root_Pem cert_chain_pem) chain \<and>
             tp_private_key P private_key_pem = Ok key)
      | Some (Identity_Pkcs12 _ _) \<Rightarrow> False)"

definition presents_native_identity ::
    "tls_ops \<Rightarrow> tls_client_identity option \<Rightarrow> string option \<Rightarrow> bool" where
  "presents_native_identity P identity presented \<longleftrightarrow>
     (case identity of
        None \<Rightarrow> presented = None
      | Some (Identity_Pem cert_chain_pem private_key_pem) \<Rightarrow>
          (\<exists>i. presented = Some i \<and> tp_identity_pkcs8 P cert_chain_pem private_key_pem = Ok i)
      | Some (Identity_Pkcs12 identity_der password) \<Rightarrow>
          (\<exists>i. presented = Some i \<and> tp_identity_pkcs12 P identity_der password = Ok i))"

lemma chain_listed:
  assumes "parse_pem_certificate_blocks backend pem what = (Ok blocks :: (string list, 'h error) result)"
    "collect_results (\<lambda>block. single (map_err g (tp_from_pem P block))) blocks = Ok chain"
  shows "listed P (Root_Pem pem) chain"
  by (rule pem_listed [OF assms]) (auto simp: single_map_err_Ok)

lemma blocking_identity_Ok:
  assumes "blocking_identity P backend opts = (Ok c :: ((string list \<times> string) option, 'h error) result)"
  shows "presents_identity P (to_client_identity opts) c"
  using assms
  by (auto simp: blocking_identity_def presents_identity_def parse_pem_certificates_def result_bind_Ok_iff map_err_Ok
      simp del: listed.simps split: option.splits tls_client_identity.splits dest: chain_listed)

lemma rustls_client_auth_Ok:
  assumes "rustls_client_auth P backend opts = (Ok c :: ((string list \<times> string) option, 'h error) result)"
  shows "presents_identity P (to_client_identity opts) c"
    and "is_none_or (\<lambda>(chain, key). tp_client_auth P chain key = Ok ()) c"
  using assms
  by (auto simp: rustls_client_auth_def presents_identity_def result_bind_Ok_iff map_err_Ok
      simp del: listed.simps split: option.splits tls_client_identity.splits dest: chain_listed)

lemma native_identity_Ok:
  assumes "native_identity P opts = (Ok c :: (string option, 'h error) result)"
  shows "presents_native_identity P (to_client_identity opts) c"
  using assms
  by (auto simp: native_identity_def presents_native_identity_def result_bind_Ok_iff map_err_Ok
      split: option.splits tls_client_identity.splits)

lemma sync_tls_config_exact:
  assumes "build_sync_tls_config F crate P backend opts = (Ok c :: (sync_tls_config, 'h error) result)"
  shows "\<exists>custom. consistent_roots P opts custom \<and> ureq_trusts P (sc_roots c) =
      intended_roots (to_root_store opts) (backend = NativeTls) (set (tp_webpki_roots P)) (set (tp_system_roots P)) (set custom)"
    and "F backend" "to_min_protocol_version opts = None" "to_max_protocol_version opts = None"
    and "presents_identity P (to_client_identity opts) (sc_client_cert c)"
proof -
  obtain roots trusted identity where checked: "check_blocking_options F backend opts = (Ok () :: 'h error unit_result)"
      and roots: "blocking_custom_roots P backend opts = (Ok roots :: (string list, 'h error) result)"
      and trusted: "blocking_roots F P backend opts roots = (Ok trusted :: (ureq_roots, 'h error) result)"
      and identity: "blocking_identity P backend opts = (Ok identity :: ((string list \<times> string) option, 'h error) result)"
      and c: "sc_roots c = trusted" "sc_client_cert c = identity"
    using assms by (auto simp: build_sync_tls_config_def result_bind_Ok_iff)
  note options = check_blocking_options_Ok [OF checked]
  note listed = blocking_custom_roots_listed [OF roots]
  have "consistent_roots P opts roots"
    using listed all_listed_not_Nil [OF listed] options(4,5) by (auto simp: consistent_roots_def)
  then show "\<exists>custom. consistent_roots P opts custom \<and> ureq_trusts P (sc_roots c) =
      intended_roots (to_root_store opts) (backend = NativeTls) (set (tp_webpki_roots P)) (set (tp_system_roots P)) (set custom)"
    using blocking_roots_intended [OF trusted listed options(4)] c(1) by blast
  show "F backend" "to_min_protocol_version opts = None" "to_max_protocol_version opts = None" by (rule options)+
  show "presents_identity P (to_client_identity opts) (sc_client_cert c)" using blocking_identity_Ok [OF identity] c(2) by simp
qed

lemma rustls_root_store_exact:
  assumes "build_rustls_root_store P backend opts = (Ok roots :: (string list, 'h error) result)"
  shows "\<exists>custom. consistent_roots P opts custom \<and> set roots =
    intended_roots (to_root_store opts) False (set (tp_webpki_roots P))
      {der \<in> set (tp_system_roots P). is_ok (tp_check_root P der)} (set custom)"
proof (cases "to_root_certificates opts = []")
  case True
  then show ?thesis
    using assms
    by (intro exI [of _ "[]"])
       (auto simp: build_rustls_root_store_def consistent_roots_def intended_roots_def Let_def split: if_splits tls_root_store.splits)
next
  case False
  then obtain custom where custom: "add_custom_rustls_root_certificates P backend opts = (Ok custom :: (string list, 'h error) result)"
      "to_root_store opts \<noteq> Roots_BackendDefault"
      "set roots = intended_roots (to_root_store opts) False (set (tp_webpki_roots P))
         {der \<in> set (tp_system_roots P). is_ok (tp_check_root P der)} (set custom)"
    using assms
    by (cases "to_root_store opts") (auto simp: build_rustls_root_store_def result_bind_Ok_iff intended_roots_def Let_def split: if_splits)
  note listed = rustls_custom_roots_listed [OF custom(1)]
  then show ?thesis
    using custom(2,3) all_listed_not_Nil [OF listed False] by (auto simp: consistent_roots_def)
qed

lemma rustls_tls_config_exact:
  assumes "build_rustls_tls_config P backend provider opts = (Ok c :: (rustls_config, 'h error) result)"
  shows "\<exists>custom. consistent_roots P opts custom \<and> set (rc_roots c) =
      intended_roots (to_root_store opts) False (set (tp_webpki_roots P))
        {der \<in> set (tp_system_roots P). is_ok (tp_check_root P der)} (set custom)"
    and "set (rc_versions c) = allowed_versions opts" "rc_versions c \<noteq> []"
    and "presents_identity P (to_client_identity opts) (rc_client_auth c)"
    and "is_none_or (\<lambda>(chain, key). tp_client_auth P chain key = Ok ()) (rc_client_auth c)"
proof -
  obtain roots b auth where roots: "build_rustls_root_store P backend opts = (Ok roots :: (string list, 'h error) result)"
      and b: "tls_version_bounds backend opts = (Ok b :: (version_bounds, 'h error) result)"
      and auth: "rustls_client_auth P backend opts = (Ok auth :: ((string list \<times> string) option, 'h error) result)"
      and c: "rc_roots c = roots" "rc_versions c = filter (bounds_contain b) [V1_3, V1_2]" "rc_client_auth c = auth"
    using assms by (auto simp: build_rustls_tls_config_def configured_rustls_protocol_versions_def result_bind_Ok_iff)
  show "\<exists>custom. consistent_roots P opts custom \<and> set (rc_roots c) =
      intended_roots (to_root_store opts) False (set (tp_webpki_roots P))
        {der \<in> set (tp_system_roots P). is_ok (tp_check_root P der)} (set custom)"
    using rustls_root_store_exact [OF roots] c(1) by simp
  have "set [V1_3, V1_2] = (UNIV :: tls_version set)" by (auto intro: tls_version.exhaust)
  then have "set (rc_versions c) = {v. bounds_contain b v}" unfolding c(2) set_filter by blast
  then show versions: "set (rc_versions c) = allowed_versions opts" using tls_version_bounds_Ok(3) [OF b] by simp
  show "rc_versions c \<noteq> []" using versions tls_version_bounds_Ok(4) [OF b] by auto
  show "presents_identity P (to_client_identity opts) (rc_client_auth c)"
      "is_none_or (\<lambda>(chain, key). tp_client_auth P chain key = Ok ()) (rc_client_auth c)"
    using rustls_client_auth_Ok [OF auth] c(3) by simp_all
qed

lemma native_connector_exact:
  assumes "build_native_tls_connector P opts http2_only = (Ok c :: (native_connector, 'h error) result)"
  shows "\<exists>custom. consistent_roots P opts custom \<and>
      native_trusts P c = intended_roots (to_root_store opts) True {} (set (tp_system_roots P)) (set custom)"
    and "nc_min_version c = to_min_protocol_version opts" "nc_max_version c = to_max_protocol_version opts"
    and "presents_native_identity P (to_client_identity opts) (nc_identity c)"
    and "nc_alpns c = (if http2_only then [''h2''] else [''h2'', ''http/1.1''])"
proof -
  obtain built_in roots identity b where built_in: "native_built_in_roots opts = (Ok built_in :: (bool, 'h error) result)"
      and roots: "native_custom_roots P opts = (Ok roots :: (string list, 'h error) result)"
      and identity: "native_identity P opts = (Ok identity :: (string option, 'h error) result)"
      and b: "tls_version_bounds NativeTls opts = (Ok b :: (version_bounds, 'h error) result)"
      and c: "c = \<lparr> nc_alpns = (if http2_only then [''h2''] else [''h2'', ''http/1.1'']), nc_built_in_roots = built_in,
            nc_roots = roots, nc_identity = identity, nc_min_version = tv_min b, nc_max_version = tv_max b \<rparr>"
    using assms by (auto simp: build_native_tls_connector_def result_bind_Ok_iff)
  note listed = native_custom_roots_listed [OF roots]
  have "consistent_roots P opts roots \<and>
      native_trusts P c = intended_roots (to_root_store opts) True {} (set (tp_system_roots P)) (set roots)"
    using built_in listed all_listed_not_Nil [OF listed]
    by (auto simp: native_built_in_roots_def consistent_roots_def native_trusts_def intended_roots_def c
        split: tls_root_store.splits if_splits)
  then show "\<exists>custom. consistent_roots P opts custom \<and>
      native_trusts P c = intended_roots (to_root_store opts) True {} (set (tp_system_roots P)) (set custom)" by blast
  show "presents_native_identity P (to_client_identity opts) (nc_identity c)" using native_identity_Ok [OF identity] by (simp add: c)
  show "nc_min_version c = to_min_protocol_version opts" "nc_max_version c = to_max_protocol_version opts"
      "nc_alpns c = (if http2_only then [''h2''] else [''h2'', ''http/1.1''])"
    by (simp_all add: c tls_version_bounds_Ok(1,2) [OF b])
qed

primrec exact_layer :: "tls_ops \<Rightarrow> tls_backend \<Rightarrow> tls_options \<Rightarrow> bool \<Rightarrow> string list \<Rightarrow> tls_layer \<Rightarrow> bool" where
  "exact_layer P backend opts http2_only custom (Layer_Rustls c alpns) \<longleftrightarrow>
     backend \<noteq> NativeTls \<and>
     set (rc_roots c) = intended_roots (to_root_store opts) False (set (tp_webpki_roots P))
       {der \<in> set (tp_system_roots P). is_ok (tp_check_root P der)} (set custom) \<and>
     set (rc_versions c) = allowed_versions opts \<and> rc_versions c \<noteq> [] \<and>
     presents_identity P (to_client_identity opts) (rc_client_auth c) \<and>
     is_none_or (\<lambda>(chain, key). tp_client_auth P chain key = Ok ()) (rc_client_auth c) \<and> (http2_only \<longrightarrow> alpns = [''h2''])"
| "exact_layer P backend opts http2_only custom (Layer_Native c) \<longleftrightarrow>
     backend = NativeTls \<and>
     native_trusts P c = intended_roots (to_root_store opts) True {} (set (tp_system_roots P)) (set custom) \<and>
     nc_min_version c = to_min_protocol_version opts \<and> nc_max_version c = to_max_protocol_version opts \<and>
     presents_native_identity P (to_client_identity opts) (nc_identity c) \<and> (http2_only \<longrightarrow> nc_alpns c = [''h2''])"

text \<open>
  C11: A client is built with the TLS configuration that was asked for, or not at all. When a transport is
  built, its backend was compiled in and it trusts exactly the certificates that the root store stands for
  together with all certificates of all PEM and DER entries: \<open>Specific\<close> trusts these alone and needs at least
  one, and a default store never silently ignores any. The blocking transport accepts no bounds on
  the protocol version, and the asynchronous one offers exactly the versions within the bounds, at least one
  with rustls. The identity that it presents is the configured one: none when there is none, else all
  certificates of the configured chain in their order with the configured key, which rustls has accepted
  together, or what native-tls makes of the configured bytes; rustls and the blocking transport reject a
  PKCS#12 archive. \<open>http2_only\<close> offers HTTP/2 alone.
\<close>

theorem tls_configuration_exact:
  "(\<forall>c. build_sync_tls_config F crate P backend opts = (Ok c :: (sync_tls_config, 'h error) result) \<longrightarrow>
      F backend \<and> to_min_protocol_version opts = None \<and> to_max_protocol_version opts = None \<and>
      presents_identity P (to_client_identity opts) (sc_client_cert c) \<and>
      (\<exists>custom. consistent_roots P opts custom \<and> ureq_trusts P (sc_roots c) =
         intended_roots (to_root_store opts) (backend = NativeTls) (set (tp_webpki_roots P)) (set (tp_system_roots P)) (set custom))) \<and>
   (\<forall>t. build_transport_client F crate P backend opts pool_idle_timeout pool_max_idle http2_only =
        (Ok t :: (transport_config, 'h error) result) \<longrightarrow>
      F backend \<and> (\<exists>custom. consistent_roots P opts custom \<and> exact_layer P backend opts http2_only custom (tc_tls t)))"
proof (intro conjI allI impI)
  fix t
  assume built: "build_transport_client F crate P backend opts pool_idle_timeout pool_max_idle http2_only =
    (Ok t :: (transport_config, 'h error) result)"
  then show "F backend"
    by (auto simp: build_transport_client_def backend_is_available_def split: if_splits tls_backend.splits)
  show "\<exists>custom. consistent_roots P opts custom \<and> exact_layer P backend opts http2_only custom (tc_tls t)"
  proof (cases "backend = NativeTls")
    case True
    then obtain c where c: "build_native_tls_connector P opts http2_only = (Ok c :: (native_connector, 'h error) result)"
        "tc_tls t = Layer_Native c"
      using built by (auto simp: build_transport_client_def result_bind_Ok_iff split: if_splits)
    show ?thesis using native_connector_exact [OF c(1)] True by (simp add: c(2))
  next
    case False
    then obtain provider c where c: "build_rustls_tls_config P backend provider opts = (Ok c :: (rustls_config, 'h error) result)"
        "tc_tls t = Layer_Rustls c (if http2_only then [''h2''] else [''h2'', ''http/1.1''])"
      using built by (auto simp: build_transport_client_def result_bind_Ok_iff split: if_splits)
    show ?thesis using rustls_tls_config_exact [OF c(1)] False by (simp add: c(2))
  qed
qed (use sync_tls_config_exact [of F crate P backend opts, where 'h = 'h] in blast)+

definition example_tls :: tls_ops where
  "example_tls =
     \<lparr> tp_from_pem = Ok, tp_check_root = (\<lambda>der. if der = [] then Err ''empty'' else Ok ()),
       tp_system_roots = [''system''], tp_system_errors = 0, tp_webpki_roots = [''mozilla''], tp_private_key = Ok,
       tp_provider_installed = False, tp_protocol_versions = (\<lambda>vs. Ok ()), tp_client_auth = (\<lambda>certs key. Ok ()),
       tp_identity_pkcs8 = (\<lambda>c k. Ok c), tp_identity_pkcs12 = (\<lambda>i p. Ok i), tp_native_build = Ok () \<rparr>"

definition example_tls_options :: tls_options where
  "example_tls_options =
     tls_options_default\<lparr> to_root_store := Roots_Specific, to_root_certificates := [Root_Der ''own''],
       to_client_identity := Some (Identity_Pem (pem_begin @ ''x'' @ pem_end) ''key'') \<rparr>"

lemma example_sync_tls_config:
  "build_sync_tls_config (\<lambda>b. b = RustlsRing) (\<lambda>b. b = RustlsRing) example_tls RustlsRing example_tls_options =
     (Ok \<lparr> sc_native = False, sc_roots = Ureq_Certs [''own''],
       sc_client_cert = Some ([pem_begin @ ''x'' @ pem_end], ''key''),
           sc_crypto_provider = Some RustlsRing \<rparr> :: (sync_tls_config, unit error) result)"
  by code_simp

theorem tls_configuration_exact_witness:
  "presents_identity example_tls (to_client_identity example_tls_options)
     (Some ([pem_begin @ ''x'' @ pem_end], ''key'')) \<and>
   (\<exists>custom. consistent_roots example_tls example_tls_options custom \<and>
      ureq_trusts example_tls (Ureq_Certs [''own'']) = set custom \<and> ''mozilla'' \<notin> set custom)"
proof -
  let ?c = "\<lparr> sc_native = False, sc_roots = Ureq_Certs [''own''],
    sc_client_cert = Some ([pem_begin @ ''x'' @ pem_end], ''key''), sc_crypto_provider = Some RustlsRing \<rparr>"
  have exact: "presents_identity example_tls (to_client_identity example_tls_options) (sc_client_cert ?c) \<and>
    (\<exists>custom. consistent_roots example_tls example_tls_options custom \<and> ureq_trusts example_tls (sc_roots ?c) =
      intended_roots (to_root_store example_tls_options) (RustlsRing = NativeTls) (set (tp_webpki_roots example_tls))
        (set (tp_system_roots example_tls)) (set custom))"
    using tls_configuration_exact [where F = "\<lambda>b. b = RustlsRing" and crate = "\<lambda>b. b = RustlsRing" and P = example_tls
        and backend = RustlsRing and opts = example_tls_options and pool_idle_timeout = 0 and pool_max_idle = 0
        and http2_only = False and 'h = unit, THEN conjunct1, rule_format, OF example_sync_tls_config]
    by (elim conjE) (rule conjI)
  have "to_root_store example_tls_options = Roots_Specific" by (simp add: example_tls_options_def)
  with exact obtain custom where custom: "consistent_roots example_tls example_tls_options custom"
      "ureq_trusts example_tls (Ureq_Certs [''own'']) = set custom"
    unfolding intended_roots_def by (simp only: tls_root_store.case sync_tls_config.simps) blast
  have "''mozilla'' \<notin> set custom" unfolding custom(2) [symmetric] by (simp add: ureq_trusts_def)
  then show ?thesis using custom exact by auto
qed

end
