(* ===== verification/Reqx_Extensions.thy ===== *)
theory Reqx_Extensions
  imports Reqx_Redirect
begin

text \<open>
  The extension points that the crate implements itself (\<open>src/src/core/extensions.rs\<close>): the rotation through
  a list of endpoints and the normalisation of paths for telemetry. A path is its UTF-8 encoding, one
  \<open>char\<close> per byte. The counter of the rotation wraps at 64 bits, as \<open>fetch_add\<close> does.
\<close>

subsection \<open>Rotation through endpoints\<close>

record round_robin_endpoint_selector =
  rr_endpoints :: "string list"
  rr_next :: nat

fun validate_endpoints :: "'u uri_ops \<Rightarrow> 'w url_ops \<Rightarrow> string list \<Rightarrow> 'h error unit_result" where
  "validate_endpoints U W [] = Ok ()"
| "validate_endpoints U W (endpoint # endpoints) =
     result_bind (validate_base_url U W endpoint) (\<lambda>_. validate_endpoints U W endpoints)"

definition round_robin_new ::
    "'u uri_ops \<Rightarrow> 'w url_ops \<Rightarrow> string list \<Rightarrow> (round_robin_endpoint_selector, 'h error) result" where
  "round_robin_new U W endpoints =
     (if endpoints = [] then Err (InvalidEndpointConfig ''at least one endpoint is required'')
      else result_bind (validate_endpoints U W endpoints)
             (\<lambda>_. Ok \<lparr> rr_endpoints = endpoints, rr_next = 0 \<rparr>))"

definition round_robin_select_base_url ::
    "round_robin_endpoint_selector \<Rightarrow> (string, 'h error) result \<times> round_robin_endpoint_selector" where
  "round_robin_select_base_url selector =
     (let index = rr_next selector
      in (Ok (rr_endpoints selector ! (index mod length (rr_endpoints selector))),
          selector\<lparr> rr_next := (index + 1) mod 2 ^ 64 \<rparr>))"

text \<open>The answers to a sequence of calls, in the order in which they reach the counter.\<close>

fun round_robin_selections :: "nat \<Rightarrow> round_robin_endpoint_selector \<Rightarrow> (string, 'h error) result list" where
  "round_robin_selections 0 selector = []"
| "round_robin_selections (Suc n) selector =
     (case round_robin_select_base_url selector of (r, selector') \<Rightarrow> r # round_robin_selections n selector')"

subsection \<open>Normalisation of paths\<close>

definition is_ascii_hexdigit :: "char \<Rightarrow> bool" where
  "is_ascii_hexdigit c = (is_ascii_digit c \<or> c \<in> set ''abcdefABCDEF'')"

definition is_uuid_like :: "string \<Rightarrow> bool" where
  "is_uuid_like segment =
     (length segment = 36 \<and>
      list_all (\<lambda>(index, character).
        if index \<in> {8, 13, 18, 23} then character = CHR ''-'' else is_ascii_hexdigit character)
        (List.enumerate 0 segment))"

definition looks_like_token :: "string \<Rightarrow> bool" where
  "looks_like_token segment =
     list_all (\<lambda>character. is_ascii_alphanumeric character \<or> character \<in> set ''-_~.=+'') segment"

definition normalize_path_segment :: "string \<Rightarrow> string" where
  "normalize_path_segment segment =
     (if is_uuid_like segment then '':uuid''
      else if segment \<noteq> [] \<and> list_all is_ascii_digit segment then '':int''
      else if length segment \<ge> 16 \<and> list_all is_ascii_hexdigit segment then '':hex''
      else if length segment \<ge> 24 \<and> looks_like_token segment then '':token''
      else segment)"

text \<open>\<open>str::is_char_boundary\<close>: not in front of a continuation byte.\<close>

definition is_char_boundary :: "string \<Rightarrow> nat \<Rightarrow> bool" where
  "is_char_boundary s i =
     (i = 0 \<or> i = length s \<or> i < length s \<and> \<not> (128 \<le> byte_of (s ! i) \<and> byte_of (s ! i) < 192))"

fun floor_char_boundary :: "string \<Rightarrow> nat \<Rightarrow> nat" where
  "floor_char_boundary s 0 = 0"
| "floor_char_boundary s (Suc cutoff) =
     (if is_char_boundary s (Suc cutoff) then Suc cutoff else floor_char_boundary s cutoff)"

abbreviation is_slash :: "char \<Rightarrow> bool" where
  "is_slash c \<equiv> c = CHR ''/''"

definition truncate_path_at_segment_boundary :: "string \<Rightarrow> nat \<Rightarrow> string" where
  "truncate_path_at_segment_boundary path max_len =
     (if length path \<le> max_len then path
      else
        let cutoff = floor_char_boundary path (min max_len (length path))
        in if cutoff = 0 then ''/''
           else if \<not> (cutoff < length path \<and> \<not> starts_with (drop cutoff path) ''/'')
           then (let kept = trim_end_matches is_slash (take cutoff path)
                 in if kept = [] then ''/'' else kept)
           else
             let prefix = trim_end_matches is_slash (take cutoff path)
             in if prefix = [] then ''/''
                else case rfind_pos is_slash prefix of
                  Some last_separator \<Rightarrow> if last_separator = 0 then ''/'' else take last_separator prefix
                | None \<Rightarrow> ''/'')"

definition push_segment :: "string \<Rightarrow> string \<Rightarrow> string" where
  "push_segment segment collapsed =
     (let collapsed = (if \<not> ends_with collapsed ''/'' then collapsed @ ''/'' else collapsed)
      in if segment = [] then collapsed else collapsed @ normalize_path_segment segment)"

definition push_first_segment :: "string \<Rightarrow> string \<Rightarrow> string" where
  "push_first_segment normalized segment =
     (let collapsed = (if starts_with normalized ''/'' then ''/'' else [])
      in if segment = [] then collapsed else collapsed @ normalize_path_segment segment)"

definition normalize_path :: "string \<Rightarrow> string" where
  "normalize_path path =
     (let normalized = (if path = [] then ''/'' else path);
          segments = split_on is_slash normalized;
          collapsed = fold push_segment (tl segments) (push_first_segment normalized (hd segments));
          collapsed = (if collapsed = [] then ''/'' else collapsed)
      in if length collapsed > 128 then truncate_path_at_segment_boundary collapsed 128 else collapsed)"

subsection \<open>Paths as lists of segments\<close>

fun join_segments :: "string list \<Rightarrow> string" where
  "join_segments [] = []"
| "join_segments [segment] = segment"
| "join_segments (segment # segments) = segment @ CHR ''/'' # join_segments segments"

abbreviation path_segments :: "string \<Rightarrow> string list" where
  "path_segments \<equiv> split_on is_slash"

lemma split_on_plain: "\<not> (\<exists>c \<in> set s. p c) \<Longrightarrow> split_on p s = [s]"
  by (induction s) auto

lemma split_on_elements: "segment \<in> set (split_on p s) \<Longrightarrow> c \<in> set segment \<Longrightarrow> \<not> p c"
proof (induction s arbitrary: segment)
  case (Cons a s)
  then show ?case by (cases "split_on p s") (fastforce split: if_splits)+
qed simp

lemma join_segments_Cons: "segments \<noteq> [] \<Longrightarrow> join_segments (s # segments) = s @ CHR ''/'' # join_segments segments"
  by (cases segments) simp_all

lemma join_segments_append:
  "xs \<noteq> [] \<Longrightarrow> ys \<noteq> [] \<Longrightarrow> join_segments (xs @ ys) = join_segments xs @ CHR ''/'' # join_segments ys"
  by (induction xs rule: join_segments.induct) (simp_all add: join_segments_Cons)

lemma join_split: "join_segments (path_segments s) = s"
proof (induction s)
  case (Cons c s)
  obtain t ts where "path_segments s = t # ts" by (cases "path_segments s") simp_all
  with Cons show ?case by (cases ts) auto
qed simp

lemma split_join:
  "segments \<noteq> [] \<Longrightarrow> \<forall>s \<in> set segments. CHR ''/'' \<notin> set s \<Longrightarrow> path_segments (join_segments segments) = segments"
proof (induction segments rule: join_segments.induct)
  case (3 s t ts)
  then show ?case by (simp add: split_on_append split_on_plain)
qed (auto intro: split_on_plain)

text \<open>
  The normal form: every segment is its own normalisation and only the first and the last may be empty.
\<close>

definition normal_segments :: "string list \<Rightarrow> bool" where
  "normal_segments segments \<longleftrightarrow>
     segments \<noteq> [] \<and> segments \<noteq> [[]] \<and> [] \<notin> set (butlast (tl segments)) \<and>
     (\<forall>s \<in> set segments. CHR ''/'' \<notin> set s \<and> normalize_path_segment s = s)"

definition push_list :: "string \<Rightarrow> string list \<Rightarrow> string list" where
  "push_list segment segments =
     (if last segments = [] \<and> tl segments \<noteq> [] then butlast segments @ [normalize_path_segment segment]
      else segments @ [normalize_path_segment segment])"

lemma normalize_path_segment_Nil [simp]: "normalize_path_segment [] = []"
  by (simp add: normalize_path_segment_def is_uuid_like_def)

lemma normalize_path_segment_cases:
  "normalize_path_segment s = s \<or> normalize_path_segment s \<in> {'':uuid'', '':int'', '':hex'', '':token''}"
  by (simp add: normalize_path_segment_def)

lemma normalize_label:
  "normalize_path_segment '':uuid'' = '':uuid''" "normalize_path_segment '':int'' = '':int''"
  "normalize_path_segment '':hex'' = '':hex''" "normalize_path_segment '':token'' = '':token''"
  by code_simp+

lemma normalize_path_segment_labels:
  "t \<in> {'':uuid'', '':int'', '':hex'', '':token''} \<Longrightarrow> normalize_path_segment t = t \<and> CHR ''/'' \<notin> set t \<and> t \<noteq> []"
  by (elim insertE) (simp_all add: normalize_label)

lemma normalize_path_segment_idem:
  "normalize_path_segment (normalize_path_segment s) = normalize_path_segment s"
  "CHR ''/'' \<notin> set s \<Longrightarrow> CHR ''/'' \<notin> set (normalize_path_segment s)"
  "normalize_path_segment s = [] \<longleftrightarrow> s = []"
  using normalize_path_segment_cases [of s] normalize_path_segment_labels [of "normalize_path_segment s"]
  by (metis, metis, metis normalize_path_segment_Nil)

lemma ends_with_slash: "ends_with s ''/'' \<longleftrightarrow> s \<noteq> [] \<and> last s = CHR ''/''"
  by (cases s rule: rev_cases) (simp_all add: ends_with_def)

lemma last_join_segments:
  "segments \<noteq> [] \<Longrightarrow> \<forall>s \<in> set segments. CHR ''/'' \<notin> set s \<Longrightarrow>
     (join_segments segments \<noteq> [] \<and> last (join_segments segments) = CHR ''/'') \<longleftrightarrow> (last segments = [] \<and> tl segments \<noteq> [])"
proof (induction segments rule: join_segments.induct)
  case (2 s)
  then show ?case by (auto dest: last_in_set)
next
  case (3 s t ts)
  then have IH: "(join_segments (t # ts) \<noteq> [] \<and> last (join_segments (t # ts)) = CHR ''/'') \<longleftrightarrow> (last (t # ts) = [] \<and> ts \<noteq> [])"
    by simp
  show ?case
  proof (cases "join_segments (t # ts) = []")
    case True
    then have "ts = []" "t = []" by (cases ts; simp)+
    then show ?thesis by simp
  next
    case False
    then have "ts = [] \<longrightarrow> t \<noteq> []" by auto
    then show ?thesis using IH False by auto
  qed
qed simp

lemma push_segment_list:
  assumes "segments \<noteq> []" "\<forall>s \<in> set segments. CHR ''/'' \<notin> set s"
  shows "push_segment segment (join_segments segments) = join_segments (push_list segment segments)"
proof (cases "last segments = [] \<and> tl segments \<noteq> []")
  case True
  then obtain front where front: "segments = front @ [[]]" "front \<noteq> []"
    using assms(1) by (metis append_Nil append_butlast_last_id list.sel(3))
  have "ends_with (join_segments segments) ''/''"
    using True last_join_segments [OF assms] by (simp add: ends_with_slash)
  then show ?thesis
    using front by (simp add: push_segment_def push_list_def join_segments_append Let_def)
next
  case False
  then have "\<not> ends_with (join_segments segments) ''/''"
    using last_join_segments [OF assms] by (auto simp: ends_with_slash)
  then show ?thesis
    using False assms(1) by (auto simp: push_segment_def push_list_def join_segments_append Let_def)
qed

lemma normal_push_list:
  assumes "normal_segments segments" "CHR ''/'' \<notin> set segment"
  shows "normal_segments (push_list segment segments)"
proof (cases "last segments = [] \<and> tl segments \<noteq> []")
  case True
  then obtain h front where "segments = h # front @ [[]]"
    by (cases segments; cases "tl segments" rule: rev_cases) auto
  then show ?thesis
    using assms normalize_path_segment_idem [of segment] by (simp add: push_list_def normal_segments_def)
next
  case False
  have "[] \<notin> set (tl segments)"
  proof (cases "tl segments" rule: rev_cases)
    case (snoc front l)
    then show ?thesis using False assms(1) by (cases segments) (auto simp: normal_segments_def)
  qed simp
  moreover have "push_list segment segments = segments @ [normalize_path_segment segment]"
    by (simp only: push_list_def if_not_P [OF False])
  ultimately show ?thesis
    using assms normalize_path_segment_idem [of segment]
    by (cases segments) (simp_all add: normal_segments_def ball_Un)
qed

lemma fold_push_list:
  assumes "normal_segments acc" "\<forall>s \<in> set segments. CHR ''/'' \<notin> set s"
  shows "fold push_segment segments (join_segments acc) = join_segments (fold push_list segments acc) \<and>
     normal_segments (fold push_list segments acc)"
  using assms
proof (induction segments arbitrary: acc)
  case (Cons s segments)
  have "push_segment s (join_segments acc) = join_segments (push_list s acc)"
    using Cons.prems(1) by (intro push_segment_list) (simp_all add: normal_segments_def)
  then show ?case
    using Cons normal_push_list [of acc s] by simp
qed simp

definition named :: "string list \<Rightarrow> string list" where
  "named segments = filter (\<lambda>s. s \<noteq> []) segments"

lemma named_push_list:
  "segments \<noteq> [] \<Longrightarrow> named (push_list segment segments) = named segments @ map normalize_path_segment (named [segment])"
  by (cases segments rule: rev_cases) (auto simp: push_list_def named_def normalize_path_segment_idem)

lemma named_fold_push_list:
  assumes "acc \<noteq> []"
  shows "named (fold push_list segments acc) = named acc @ map normalize_path_segment (named segments)"
  using assms
proof (induction segments arbitrary: acc)
  case (Cons s segments)
  have "push_list s acc \<noteq> []" by (simp add: push_list_def)
  then show ?case using Cons by (simp add: named_push_list) (simp add: named_def)
qed (simp add: named_def)

lemma join_segments_Nil_iff: "join_segments segments = [] \<longleftrightarrow> segments = [] \<or> segments = [[]]"
  by (cases segments rule: join_segments.cases) simp_all

lemma push_first_segment_list:
  assumes "n \<noteq> []"
  obtains acc where "push_first_segment n (hd (path_segments n)) = join_segments acc" "normal_segments acc"
    "named acc = map normalize_path_segment (named [hd (path_segments n)])"
    "acc = (if hd (path_segments n) = [] then [[], []] else [normalize_path_segment (hd (path_segments n))])"
proof -
  obtain c cs where n: "n = c # cs" using assms by (cases n) auto
  obtain t ts where ts: "path_segments cs = t # ts" by (cases "path_segments cs") simp_all
  show ?thesis
  proof (cases "is_slash c")
    case True
    then show ?thesis
      by (intro that [of "[[], []]"])
         (simp_all add: n push_first_segment_def starts_with_def normal_segments_def named_def)
  next
    case False
    have "CHR ''/'' \<notin> set (hd (path_segments n))"
      using split_on_elements [of _ is_slash n "CHR ''/''"] by (metis list.set_sel(1) split_on_not_Nil)
    then show ?thesis
      using False ts normalize_path_segment_idem [of "hd (path_segments n)"]
      by (intro that [of "[normalize_path_segment (hd (path_segments n))]"])
         (simp_all add: n push_first_segment_def starts_with_def normal_segments_def named_def)
  qed
qed

definition collapse :: "string \<Rightarrow> string" where
  "collapse n = fold push_segment (tl (path_segments n)) (push_first_segment n (hd (path_segments n)))"

lemma collapse_normal:
  assumes "n \<noteq> []"
  shows "normal_segments (path_segments (collapse n))"
    and "named (path_segments (collapse n)) = map normalize_path_segment (named (path_segments n))"
proof -
  obtain acc where acc: "push_first_segment n (hd (path_segments n)) = join_segments acc" "normal_segments acc"
    "named acc = map normalize_path_segment (named [hd (path_segments n)])"
    using push_first_segment_list [OF assms] by metis
  have plain: "\<forall>s \<in> set (tl (path_segments n)). CHR ''/'' \<notin> set s"
    using split_on_elements [of _ is_slash n "CHR ''/''"] by (metis list.set_sel(2) split_on_not_Nil)
  let ?L = "fold push_list (tl (path_segments n)) acc"
  have L: "collapse n = join_segments ?L" "normal_segments ?L"
    using fold_push_list [OF acc(2) plain] by (simp_all add: collapse_def acc(1))
  then have split: "path_segments (collapse n) = ?L"
    by (simp add: split_join normal_segments_def)
  then show "normal_segments (path_segments (collapse n))" using L(2) by simp
  have "acc \<noteq> []" using acc(2) by (simp add: normal_segments_def)
  then have "named ?L = map normalize_path_segment (named [hd (path_segments n)]) @
      map normalize_path_segment (named (tl (path_segments n)))"
    by (simp add: named_fold_push_list acc(3))
  also have "\<dots> = map normalize_path_segment (named (path_segments n))"
    by (cases "path_segments n") (simp_all add: named_def)
  finally show "named (path_segments (collapse n)) = map normalize_path_segment (named (path_segments n))"
    by (simp add: split)
qed

lemma collapse_not_Nil: "n \<noteq> [] \<Longrightarrow> collapse n \<noteq> []"
  using collapse_normal(1) [of n] by (auto simp: normal_segments_def)

lemma fold_push_list_fixed:
  assumes "last acc \<noteq> []" "[] \<notin> set (butlast segments)" "\<forall>s \<in> set segments. normalize_path_segment s = s"
  shows "fold push_list segments acc = acc @ segments"
  using assms
proof (induction segments arbitrary: acc)
  case (Cons s segments)
  have push: "push_list s acc = acc @ [s]" using Cons.prems(1,3) by (simp add: push_list_def)
  show ?case
  proof (cases "segments = []")
    case False
    then have "fold push_list segments (acc @ [s]) = (acc @ [s]) @ segments"
      using Cons.prems by (intro Cons.IH) auto
    then show ?thesis by (simp add: push)
  qed (simp add: push)
qed simp

lemma collapse_fixed:
  assumes "normal_segments (path_segments n)"
  shows "collapse n = n"
proof -
  have "n \<noteq> []" using assms by (auto simp: normal_segments_def)
  obtain h ts where ts: "path_segments n = h # ts" by (cases "path_segments n") simp_all
  then have plain: "\<forall>s \<in> set ts. CHR ''/'' \<notin> set s"
    using assms by (simp add: normal_segments_def)
  obtain acc where acc: "push_first_segment n h = join_segments acc" "normal_segments acc"
    "acc = (if h = [] then [[], []] else [normalize_path_segment h])"
    using push_first_segment_list [OF \<open>n \<noteq> []\<close>] ts by (metis list.sel(1))
  have "fold push_list ts acc = h # ts"
  proof (cases "h = []")
    case False
    then show ?thesis
      using assms acc(3) ts by (simp add: normal_segments_def fold_push_list_fixed)
  next
    case True
    then obtain t rest where rest: "ts = t # rest" using assms ts by (cases ts) (auto simp: normal_segments_def)
    have fixed: "normalize_path_segment t = t" "\<forall>s \<in> set rest. normalize_path_segment s = s"
      using assms ts rest by (simp_all add: normal_segments_def)
    show ?thesis
    proof (cases "rest = []")
      case False
      then have "t \<noteq> []" "[] \<notin> set (butlast rest)" using assms ts rest by (auto simp: normal_segments_def)
      then show ?thesis using True acc(3) rest fixed by (simp add: push_list_def fold_push_list_fixed)
    qed (use True acc(3) rest fixed in \<open>simp add: push_list_def\<close>)
  qed
  then show ?thesis
    using fold_push_list [OF acc(2) plain] ts acc(1) join_split [of n] by (simp add: collapse_def)
qed

subsection \<open>Truncation\<close>

lemma floor_char_boundary_le: "floor_char_boundary s i \<le> i"
  by (induction s i rule: floor_char_boundary.induct) auto

lemma trim_end_slashes:
  obtains ws where "s = trim_end_matches is_slash s @ ws" "\<forall>c \<in> set ws. c = CHR ''/''"
  using trim_end_matches_append [of s is_slash] by (auto simp: list_all_iff)

lemma truncate_path_prefix:
  assumes "0 < max_len" "max_len < length path" "r = truncate_path_at_segment_boundary path max_len"
  shows "length r \<le> max_len \<and> (r = ''/'' \<or> r \<noteq> [] \<and> (\<exists>u. path = r @ CHR ''/'' # u))"
proof -
  let ?cutoff = "floor_char_boundary path (min max_len (length path))"
  have cutoff: "?cutoff \<le> max_len" "?cutoff < length path"
    using floor_char_boundary_le [of path "min max_len (length path)"] assms(2) by linarith+
  define kept where "kept = trim_end_matches is_slash (take ?cutoff path)"
  obtain ws where ws: "take ?cutoff path = kept @ ws" "\<forall>c \<in> set ws. c = CHR ''/''"
    unfolding kept_def by (rule trim_end_slashes)
  then have path: "path = kept @ ws @ drop ?cutoff path" by (metis append.assoc append_take_drop_id)
  have len: "length kept \<le> max_len"
    using arg_cong [OF ws(1), of length] cutoff by simp
  have whole: "\<exists>u. path = kept @ CHR ''/'' # u" if slash: "starts_with (drop ?cutoff path) ''/''"
  proof -
    obtain d where "drop ?cutoff path = CHR ''/'' # d"
      using slash cutoff(2) by (cases "drop ?cutoff path") (auto simp: starts_with_def)
    then show ?thesis using path ws(2) by (cases ws) auto
  qed
  have cut: "\<exists>u. path = take i kept @ CHR ''/'' # u" if "rfind_pos is_slash kept = Some i" for i
  proof -
    have "kept = take i kept @ CHR ''/'' # drop (Suc i) kept"
      using rfind_pos_Some [OF that] id_take_nth_drop [of i kept] by simp
    then have "path = take i kept @ CHR ''/'' # (drop (Suc i) kept @ ws @ drop ?cutoff path)"
      using path by (metis append.assoc append_Cons)
    then show ?thesis by blast
  qed
  have idx: "i < length kept" if "rfind_pos is_slash kept = Some i" for i
    using rfind_pos_Some [OF that] by simp
  show ?thesis
    unfolding assms(3) truncate_path_at_segment_boundary_def Let_def kept_def [symmetric]
    using assms(1,2) len whole cut cutoff idx by (auto split: option.splits)
qed

lemma normal_segments_prefix:
  assumes "normal_segments (path_segments (t @ CHR ''/'' # u))" "t \<noteq> []"
  shows "normal_segments (path_segments t)"
    and "\<exists>rest. named (path_segments (t @ CHR ''/'' # u)) = named (path_segments t) @ rest"
proof -
  have split: "path_segments (t @ CHR ''/'' # u) = path_segments t @ path_segments u"
    by (rule split_on_append) simp
  then show "\<exists>rest. named (path_segments (t @ CHR ''/'' # u)) = named (path_segments t) @ rest"
    by (simp add: named_def)
  obtain h ts where ts: "path_segments t = h # ts" by (cases "path_segments t") simp_all
  have "path_segments t \<noteq> [[]]" using assms(2) join_split [of t] by (metis join_segments.simps(2))
  moreover have "[] \<notin> set ts"
    using assms(1) by (simp add: split ts normal_segments_def butlast_append)
  ultimately show "normal_segments (path_segments t)"
    using assms(1) by (simp add: split ts normal_segments_def ball_Un) (meson in_set_butlastD)
qed

subsection \<open>The properties\<close>

lemma normalize_path_collapse:
  assumes "n = (if path = [] then ''/'' else path)"
  shows "normalize_path path =
    (if length (collapse n) > 128 then truncate_path_at_segment_boundary (collapse n) 128 else collapse n)"
  using collapse_not_Nil [of n] by (simp add: normalize_path_def Let_def collapse_def assms)

lemma length_join_segments: "length (join_segments segments) \<le> sum_list (map (\<lambda>s. length s + 1) segments)"
  by (induction segments rule: join_segments.induct) simp_all

text \<open>What the segments of a path stand for: all that is not an identifier, and a label for what is.\<close>

definition is_identifier :: "string \<Rightarrow> bool" where
  "is_identifier s \<longleftrightarrow>
     is_uuid_like s \<or> s \<noteq> [] \<and> list_all is_ascii_digit s \<or> 16 \<le> length s \<and> list_all is_ascii_hexdigit s \<or>
     24 \<le> length s \<and> looks_like_token s"

lemma normalize_path_segment_fixed: "normalize_path_segment s = s \<longleftrightarrow> \<not> is_identifier s"
proof
  assume fixed: "normalize_path_segment s = s"
  have "\<not> is_identifier t" if "t \<in> {'':uuid'', '':int'', '':hex'', '':token''}" for t
    using that by (elim insertE emptyE) (simp_all, code_simp+)
  then show "\<not> is_identifier s"
    using fixed by (auto simp: normalize_path_segment_def is_identifier_def split: if_splits)
qed (auto simp: normalize_path_segment_def is_identifier_def)

lemma normalize_path_normal:
  "normal_segments (path_segments (normalize_path path)) \<and> length (normalize_path path) \<le> 128 \<and>
   (\<exists>rest. map normalize_path_segment (named (path_segments path)) = named (path_segments (normalize_path path)) @ rest)"
proof -
  define n where "n = (if path = [] then ''/'' else path)"
  have n: "n \<noteq> []" "named (path_segments n) = named (path_segments path)"
    by (simp_all add: n_def named_def)
  note normal = collapse_normal [OF n(1), unfolded n(2)]
  show ?thesis
  proof (cases "length (collapse n) > 128")
    case False
    then show ?thesis using normal by (simp add: normalize_path_collapse [OF n_def] not_less)
  next
    case True
    then have r: "normalize_path path = truncate_path_at_segment_boundary (collapse n) 128"
      by (simp add: normalize_path_collapse [OF n_def])
    consider "normalize_path path = ''/''" | u where "normalize_path path \<noteq> []"
        "collapse n = normalize_path path @ CHR ''/'' # u" "length (normalize_path path) \<le> 128"
      using truncate_path_prefix [OF _ True r] by auto
    then show ?thesis
    proof cases
      case 1
      then show ?thesis by (simp add: normal_segments_def named_def)
    next
      case 2
      show ?thesis
        using normal_segments_prefix [of "normalize_path path" u] normal 2 by simp
    qed
  qed
qed

text \<open>
  Paths in telemetry are bounded and carry no identifiers. Whatever the path, its normal form is not
  empty, has at most 128 bytes and no empty segment between two slashes; none of its segments is a UUID, a
  number, a hexadecimal identifier or a long token; and its segments are those of the path, each identifier
  replaced by a label, in order and from the first one on: a long path loses whole segments at its end, and
  no segment is cut. Normalising twice changes nothing.
\<close>

theorem normalize_path_hides_identifiers:
  "normalize_path path \<noteq> [] \<and> length (normalize_path path) \<le> 128 \<and>
   [] \<notin> set (butlast (tl (path_segments (normalize_path path)))) \<and>
   \<not> list_ex is_identifier (path_segments (normalize_path path)) \<and>
   (\<exists>rest. map normalize_path_segment (named (path_segments path)) = named (path_segments (normalize_path path)) @ rest) \<and>
   normalize_path (normalize_path path) = normalize_path path"
proof -
  note normal = normalize_path_normal [of path]
  then have not_Nil: "normalize_path path \<noteq> []" by (auto simp: normal_segments_def)
  have "\<forall>s \<in> set (path_segments (normalize_path path)). \<not> is_identifier s"
    using normal by (simp add: normal_segments_def normalize_path_segment_fixed)
  moreover have "normalize_path (normalize_path path) = normalize_path path"
    using normal not_Nil by (simp add: normalize_path_collapse [OF refl, of "normalize_path path"] collapse_fixed)
  ultimately show ?thesis
    using normal not_Nil by (simp add: normal_segments_def list_ex_iff)
qed

subsection \<open>Rotation\<close>

lemma validate_endpoints_iff:
  "validate_endpoints U W endpoints = (Ok () :: 'h error unit_result) \<longleftrightarrow>
     (\<forall>e \<in> set endpoints. validate_base_url U W e = (Ok () :: 'h error unit_result))"
  by (induction endpoints) (auto simp: result_bind_Ok_iff)

lemma round_robin_selections_eq:
  assumes "endpoints \<noteq> []" "i + n \<le> 2 ^ 64"
  shows "round_robin_selections n \<lparr> rr_endpoints = endpoints, rr_next = i mod 2 ^ 64 \<rparr> =
    map (\<lambda>j. Ok (endpoints ! (j mod length endpoints))) [i..<i + n]"
  using assms(2)
proof (induction n arbitrary: i)
  case (Suc n)
  have i: "i mod 2 ^ 64 = i" using Suc.prems by simp
  have "[i..<i + Suc n] = i # [Suc i..<Suc i + n]" by (simp add: upt_conv_Cons)
  then show ?case using Suc.IH [of "Suc i"] Suc.prems by (simp add: round_robin_select_base_url_def Let_def i)
qed simp

lemma count_rotation:
  assumes "j < k"
  shows "length (filter (\<lambda>i. j = i mod k) [0..<n]) = (n + (k - 1 - j)) div k"
proof (induction n)
  case 0
  then show ?case using assms by simp
next
  case (Suc n)
  have "Suc (n + (k - 1 - j)) mod k = 0 \<longleftrightarrow> n mod k = j"
  proof -
    have "Suc (n + (k - 1 - j)) = n + (k - j)" using assms by simp
    moreover have "(n + (k - j)) mod k = 0 \<longleftrightarrow> n mod k = j"
    proof
      assume "(n + (k - j)) mod k = 0"
      then obtain q where q: "n + (k - j) = k * q" by (auto simp: mod_eq_0_iff_dvd dvd_def)
      then have "0 < q" using assms by (cases q) auto
      then obtain q' where "q = Suc q'" by (cases q) auto
      then have "n = j + k * q'" using q assms by simp
      then show "n mod k = j" using assms by simp
    next
      assume "n mod k = j"
      then have "n + (k - j) = k * (n div k) + j + (k - j)" by (metis mult_div_mod_eq)
      also have "\<dots> = k * Suc (n div k)" using assms by simp
      finally show "(n + (k - j)) mod k = 0" by simp
    qed
    ultimately show ?thesis by (simp only:)
  qed
  then show ?case using Suc by (auto simp: div_Suc)
qed

text \<open>
  Endpoints take turns. A rotation is built if and only if its list is not empty and every endpoint is a
  valid base URL. Then the answers to the first \<open>n\<close> requests, for every \<open>n\<close> up to the \<open>2 ^ 64\<close> at which the
  counter wraps, go through the list in its order and start again at its end; each is an endpoint of the
  list, and each position is chosen equally often, give or take one request.
\<close>

theorem endpoints_take_turns:
  "(\<exists>selector. round_robin_new U W endpoints = (Ok selector :: (round_robin_endpoint_selector, 'h error) result)) =
     (endpoints \<noteq> [] \<and> (\<forall>e \<in> set endpoints. validate_base_url U W e = (Ok () :: 'h error unit_result))) \<and>
   (\<forall>selector. round_robin_new U W endpoints = (Ok selector :: (round_robin_endpoint_selector, 'h error) result) \<longrightarrow>
      (\<forall>n \<le> 2 ^ 64. \<exists>turns. round_robin_selections n selector = map (\<lambda>i. Ok (endpoints ! i) :: (string, 'h error) result) turns \<and>
         turns = map (\<lambda>i. i mod length endpoints) [0..<n] \<and>
         (\<forall>position < length endpoints. n div length endpoints \<le> count_list turns position \<and>
            count_list turns position \<le> n div length endpoints + 1)))"
proof (intro conjI allI impI)
  show "(\<exists>selector. round_robin_new U W endpoints = (Ok selector :: (round_robin_endpoint_selector, 'h error) result)) =
     (endpoints \<noteq> [] \<and> (\<forall>e \<in> set endpoints. validate_base_url U W e = (Ok () :: 'h error unit_result)))"
    by (simp add: round_robin_new_def result_bind_Ok_iff validate_endpoints_iff)
next
  fix selector :: round_robin_endpoint_selector and n :: nat
  assume new: "round_robin_new U W endpoints = (Ok selector :: (round_robin_endpoint_selector, 'h error) result)" and "n \<le> 2 ^ 64"
  then have ne: "endpoints \<noteq> []" and selector: "selector = \<lparr> rr_endpoints = endpoints, rr_next = 0 \<rparr>"
    by (auto simp: round_robin_new_def result_bind_Ok_iff split: if_splits)
  let ?k = "length endpoints" and ?turns = "map (\<lambda>i. i mod length endpoints) [0..<n]"
  have fair: "n div ?k \<le> count_list ?turns p \<and> count_list ?turns p \<le> n div ?k + 1" if "p < ?k" for p
  proof -
    have "count_list ?turns p = length (filter (\<lambda>i. p = i mod ?k) [0..<n])"
      by (simp add: count_list_eq_length_filter filter_map comp_def)
    also have "\<dots> = (n + (?k - 1 - p)) div ?k" by (rule count_rotation [OF that])
    finally have eq: "count_list ?turns p = (n + (?k - 1 - p)) div ?k" .
    have "n div ?k \<le> (n + (?k - 1 - p)) div ?k" "(n + (?k - 1 - p)) div ?k \<le> (n + ?k) div ?k"
      by (simp_all add: div_le_mono)
    then show ?thesis using ne by (simp add: eq)
  qed
  have "round_robin_selections n selector = map (\<lambda>i. Ok (endpoints ! i) :: (string, 'h error) result) ?turns"
    using round_robin_selections_eq [OF ne, of 0 n] \<open>n \<le> 2 ^ 64\<close> by (simp add: selector comp_def)
  with fair show "\<exists>turns. round_robin_selections n selector = map (\<lambda>i. Ok (endpoints ! i) :: (string, 'h error) result) turns \<and>
         turns = ?turns \<and>
         (\<forall>position < ?k. n div ?k \<le> count_list turns position \<and> count_list turns position \<le> n div ?k + 1)"
    by blast
qed

theorem endpoints_take_turns_witness:
  "\<exists>selector. round_robin_new triple_uris text_urls [''http://a.io'', ''http://b.io''] =
       (Ok selector :: (round_robin_endpoint_selector, unit error) result) \<and>
     round_robin_selections 3 selector =
       [Ok ''http://a.io'', Ok ''http://b.io'', Ok ''http://a.io'' :: (string, unit error) result]"
proof -
  note turns = endpoints_take_turns [of triple_uris text_urls "[''http://a.io'', ''http://b.io'']", where 'h = unit]
  have "is_ok (validate_base_url triple_uris text_urls ''http://a.io'' :: unit error unit_result)"
    "is_ok (validate_base_url triple_uris text_urls ''http://b.io'' :: unit error unit_result)"
    by code_simp+
  then obtain selector where selector: "round_robin_new triple_uris text_urls [''http://a.io'', ''http://b.io''] =
       (Ok selector :: (round_robin_endpoint_selector, unit error) result)"
    using conjunct1 [OF turns] by (auto simp: is_ok_iff)
  then have "\<forall>n \<le> 2 ^ 64. \<exists>turns. round_robin_selections n selector =
      map (\<lambda>i. Ok ([''http://a.io'', ''http://b.io''] ! i) :: (string, unit error) result) turns \<and>
      turns = map (\<lambda>i. i mod length [''http://a.io'', ''http://b.io'']) [0..<n]"
    using conjunct2 [OF turns] by blast
  then have "round_robin_selections 3 selector =
      map (\<lambda>i. Ok ([''http://a.io'', ''http://b.io''] ! i) :: (string, unit error) result)
        (map (\<lambda>i. i mod length [''http://a.io'', ''http://b.io'']) [0..<3])"
    by (elim allE [of _ 3]) auto
  then show ?thesis using selector by (simp add: upt_rec)
qed

end
