(* ===== verification/Reqx_Otel.thy ===== *)
theory Reqx_Otel
  imports Reqx_Extensions Reqx_Metrics
begin

text \<open>
  Telemetry (\<open>src/src/core/otel.rs\<close>) and the calls of it by the handles of \<open>src/src/core/metrics.rs\<close>, whose
  counters are in \<open>Reqx_Metrics\<close>. A function returns the list of the calls that it makes into the crate
  \<open>opentelemetry\<close>; a span collects its attributes and is reported when it ends. Without the feature \<open>otel\<close>
  telemetry cannot be enabled and \<open>OtelTelemetry\<close> has no inner value, as when it is disabled.
\<close>

subsection \<open>Calls and attributes\<close>

datatype otel_value = Otel_Text string | Otel_I64 nat | Otel_True

type_synonym otel_attributes = "(string \<times> otel_value) list"

datatype otel_call =
    Otel_Add string otel_attributes
  | Otel_Record string f64 otel_attributes
  | Otel_SpanEnd string otel_attributes "string option"

record otel_inner =
  oi_client_name :: string
  oi_path_normalizer :: "string \<Rightarrow> string"

type_synonym otel_telemetry = "otel_inner option"

record otel_span =
  on_operation :: string
  on_attributes :: otel_attributes
  on_status :: "string option"

type_synonym otel_request_span = "otel_span option"

definition try_enabled_with_path_normalizer ::
    "bool \<Rightarrow> string \<Rightarrow> (string \<Rightarrow> string) \<Rightarrow> (otel_telemetry, 'h error) result" where
  "try_enabled_with_path_normalizer otel_feature client_name path_normalizer =
     (if otel_feature
      then Ok (Some \<lparr> oi_client_name = client_name, oi_path_normalizer = path_normalizer \<rparr>)
      else Err (FeatureUnavailable ''otel'' ''OpenTelemetry observer emission''))"

definition otel_disabled :: otel_telemetry where
  "otel_disabled = None"

definition base_attributes :: "otel_inner \<Rightarrow> otel_attributes" where
  "base_attributes inner = [(''reqx.client'', Otel_Text (oi_client_name inner))]"

definition when_enabled :: "(otel_inner \<Rightarrow> otel_call list) \<Rightarrow> otel_telemetry \<Rightarrow> otel_call list" where
  "when_enabled calls T = (case T of None \<Rightarrow> [] | Some inner \<Rightarrow> calls inner)"

definition otel_record_request_started :: "otel_telemetry \<Rightarrow> otel_call list" where
  "otel_record_request_started =
     when_enabled (\<lambda>inner. [Otel_Add ''reqx.request.started'' (base_attributes inner)])"

definition otel_record_request_succeeded :: "status \<Rightarrow> otel_telemetry \<Rightarrow> otel_call list" where
  "otel_record_request_succeeded s =
     when_enabled (\<lambda>inner. [Otel_Add ''reqx.request.succeeded''
       [(''reqx.client'', Otel_Text (oi_client_name inner)), (''http.response.status_code'', Otel_I64 s)]])"

definition otel_record_request_failed :: "'h error \<Rightarrow> otel_telemetry \<Rightarrow> otel_call list" where
  "otel_record_request_failed e =
     when_enabled (\<lambda>inner. [Otel_Add ''reqx.request.failed''
       [(''reqx.client'', Otel_Text (oi_client_name inner)),
        (''error.type'', Otel_Text (error_code_as_str (error_code_of e)))]])"

definition otel_record_request_canceled :: "otel_telemetry \<Rightarrow> otel_call list" where
  "otel_record_request_canceled =
     when_enabled (\<lambda>inner. [Otel_Add ''reqx.request.canceled'' (base_attributes inner)])"

definition otel_record_retry :: "otel_telemetry \<Rightarrow> otel_call list" where
  "otel_record_retry =
     when_enabled (\<lambda>inner. [Otel_Add ''reqx.request.retries'' (base_attributes inner)])"

definition otel_record_request_latency :: "duration \<Rightarrow> otel_telemetry \<Rightarrow> otel_call list" where
  "otel_record_request_latency latency =
     when_enabled (\<lambda>inner. [Otel_Record ''reqx.request.duration.ms''
       (f64_mul (as_secs_f64 latency) (Fin 1000)) (base_attributes inner)])"

definition request_span_attributes ::
    "'u uri_ops \<Rightarrow> string \<Rightarrow> (string \<Rightarrow> string) \<Rightarrow> http_method \<Rightarrow> string \<Rightarrow> otel_attributes" where
  "request_span_attributes U client_name path_normalizer meth uri =
     [(''reqx.client'', Otel_Text client_name), (''http.request.method'', Otel_Text meth)] @
     (case uri_parse U uri of
        None \<Rightarrow> []
      | Some parsed \<Rightarrow>
          (case uri_scheme_str U parsed of None \<Rightarrow> [] | Some scheme \<Rightarrow> [(''url.scheme'', Otel_Text scheme)]) @
          (case uri_host U parsed of
             None \<Rightarrow> []
           | Some host \<Rightarrow> [(''server.address'', Otel_Text (unwrap_or host (normalize_host_key host)))]) @
          (case uri_port_u16 U parsed of None \<Rightarrow> [] | Some port \<Rightarrow> [(''server.port'', Otel_I64 port)]) @
          (let path = path_normalizer (uri_path U parsed)
           in if path \<noteq> [] then [(''url.path'', Otel_Text path)] else []))"

definition error_span_attributes :: "'h error \<Rightarrow> otel_attributes" where
  "error_span_attributes e =
     (''error.type'', Otel_Text (error_code_as_str (error_code_of e))) #
     (case e of HttpStatus s _ _ _ _ \<Rightarrow> [(''http.response.status_code'', Otel_I64 s)] | _ \<Rightarrow> [])"

definition error_span_status :: "'h error \<Rightarrow> string" where
  "error_span_status e = error_code_as_str (error_code_of e)"

definition start_request_span ::
    "'u uri_ops \<Rightarrow> http_method \<Rightarrow> string \<Rightarrow> bool \<Rightarrow> otel_telemetry \<Rightarrow> otel_request_span" where
  "start_request_span U meth uri stream =
     map_option (\<lambda>inner. \<lparr>
       on_operation = (if stream then ''reqx.http.request.stream'' else ''reqx.http.request''),
       on_attributes = request_span_attributes U (oi_client_name inner) (oi_path_normalizer inner) meth uri,
       on_status = None \<rparr>)"

definition span_end :: "otel_span \<Rightarrow> otel_call" where
  "span_end sp = Otel_SpanEnd (on_operation sp) (on_attributes sp) (on_status sp)"

definition set_attributes :: "otel_attributes \<Rightarrow> otel_span \<Rightarrow> otel_span" where
  "set_attributes attributes sp = sp\<lparr> on_attributes := on_attributes sp @ attributes \<rparr>"

definition finish_request_span_success :: "otel_request_span \<Rightarrow> status \<Rightarrow> otel_call list" where
  "finish_request_span_success request_span s =
     (case request_span of
        None \<Rightarrow> []
      | Some sp \<Rightarrow> [span_end (set_attributes [(''http.response.status_code'', Otel_I64 s)] sp)])"

definition finish_request_span_error :: "otel_request_span \<Rightarrow> 'h error \<Rightarrow> otel_call list" where
  "finish_request_span_error request_span e =
     (case request_span of
        None \<Rightarrow> []
      | Some sp \<Rightarrow>
          [span_end ((set_attributes (error_span_attributes e) sp)\<lparr> on_status := Some (error_span_status e) \<rparr>)])"

definition finish_request_span_canceled :: "otel_request_span \<Rightarrow> otel_call list" where
  "finish_request_span_canceled request_span =
     (case request_span of
        None \<Rightarrow> []
      | Some sp \<Rightarrow> [span_end (set_attributes [(''reqx.request.canceled'', Otel_True)] sp)])"

subsection \<open>The handles of a request\<close>

text \<open>
  The fields of \<open>PendingRequest\<close> and \<open>StreamCompletion\<close> that telemetry depends on. A stream is completed once
  its guard has been taken.
\<close>

datatype telemetry_handle =
    Telemetry_Pending otel_request_span
  | Telemetry_Stream otel_request_span status bool

definition telemetry_success :: "otel_telemetry \<Rightarrow> otel_request_span \<Rightarrow> status \<Rightarrow> duration \<Rightarrow> otel_call list" where
  "telemetry_success T sp s latency =
     otel_record_request_succeeded s T @ otel_record_request_latency latency T @ finish_request_span_success sp s"

definition telemetry_error :: "otel_telemetry \<Rightarrow> otel_request_span \<Rightarrow> 'h error \<Rightarrow> duration \<Rightarrow> otel_call list" where
  "telemetry_error T sp e latency =
     otel_record_request_latency latency T @ otel_record_request_failed e T @ finish_request_span_error sp e"

definition telemetry_canceled :: "otel_telemetry \<Rightarrow> otel_request_span \<Rightarrow> duration \<Rightarrow> otel_call list" where
  "telemetry_canceled T sp latency =
     otel_record_request_latency latency T @ otel_record_request_canceled T @ finish_request_span_canceled sp"

definition telemetry_pending_request ::
    "otel_telemetry \<Rightarrow> 'u uri_ops \<Rightarrow> http_method \<Rightarrow> string \<Rightarrow> bool \<Rightarrow> telemetry_handle \<times> otel_call list" where
  "telemetry_pending_request T U meth uri stream =
     (Telemetry_Pending (start_request_span U meth uri stream T), otel_record_request_started T)"

text \<open>The end of a handle: \<open>complete_success\<close>, \<open>complete_error\<close> or its being dropped.\<close>

fun telemetry_end :: "otel_telemetry \<Rightarrow> 'h handle_end \<Rightarrow> telemetry_handle \<Rightarrow> otel_call list" where
  "telemetry_end T (EndSucceeded s d) (Telemetry_Pending sp) = telemetry_success T sp s d"
| "telemetry_end T (EndFailed e d) (Telemetry_Pending sp) = telemetry_error T sp e d"
| "telemetry_end T (EndDropped d) (Telemetry_Pending sp) = telemetry_canceled T sp d"
| "telemetry_end T (EndSucceeded _ d) (Telemetry_Stream sp s unfinished) =
     (if unfinished then telemetry_success T sp s d else [])"
| "telemetry_end T (EndFailed e d) (Telemetry_Stream sp s unfinished) =
     (if unfinished then telemetry_error T sp e d else [])"
| "telemetry_end T (EndDropped d) (Telemetry_Stream sp s unfinished) =
     (if unfinished then telemetry_canceled T sp d else [])"

text \<open>The events of \<open>metrics_step\<close>, with what a span records of a request at its start.\<close>

datatype (dead 'h) telemetry_event =
    Tel_Start http_method string bool
  | Tel_Retry
  | Tel_End nat "'h handle_end"
  | Tel_IntoStream nat status
  | Tel_StreamDone nat "'h handle_end"

fun telemetry_step ::
    "otel_telemetry \<Rightarrow> 'u uri_ops \<Rightarrow> 'h telemetry_event \<Rightarrow> otel_call list \<times> telemetry_handle list \<Rightarrow>
     otel_call list \<times> telemetry_handle list" where
  "telemetry_step T U (Tel_Start meth uri stream) (emitted, hs) =
     (let (h, calls) = telemetry_pending_request T U meth uri stream in (emitted @ calls, h # hs))"
| "telemetry_step T U Tel_Retry (emitted, hs) = (emitted @ otel_record_retry T, hs)"
| "telemetry_step T U (Tel_End i e) (emitted, hs) =
     (if i < length hs then (emitted @ telemetry_end T e (hs ! i), remove_nth i hs) else (emitted, hs))"
| "telemetry_step T U (Tel_IntoStream i s) (emitted, hs) =
     (if i < length hs
      then (case hs ! i of
              Telemetry_Pending sp \<Rightarrow> (emitted, hs[i := Telemetry_Stream sp s True])
            | Telemetry_Stream _ _ _ \<Rightarrow> (emitted, hs))
      else (emitted, hs))"
| "telemetry_step T U (Tel_StreamDone i e) (emitted, hs) =
     (if i < length hs
      then (case hs ! i of
              Telemetry_Pending _ \<Rightarrow> (emitted, hs)
            | Telemetry_Stream sp s unfinished \<Rightarrow>
                (emitted @ telemetry_end T e (hs ! i), hs[i := Telemetry_Stream None s False]))
      else (emitted, hs))"

definition telemetry_run ::
    "otel_telemetry \<Rightarrow> 'u uri_ops \<Rightarrow> 'h telemetry_event list \<Rightarrow> otel_call list \<times> telemetry_handle list" where
  "telemetry_run T U evs = fold (telemetry_step T U) evs ([], [])"

subsection \<open>Runs\<close>

fun is_add :: "string \<Rightarrow> otel_call \<Rightarrow> bool" where
  "is_add name (Otel_Add n _) = (n = name)"
| "is_add name _ = False"

fun is_sample :: "otel_call \<Rightarrow> bool" where
  "is_sample (Otel_Record _ _ _) = True"
| "is_sample _ = False"

fun is_span_end :: "otel_call \<Rightarrow> bool" where
  "is_span_end (Otel_SpanEnd _ _ _) = True"
| "is_span_end _ = False"

definition calls_of :: "(otel_call \<Rightarrow> bool) \<Rightarrow> otel_call list \<Rightarrow> nat" where
  "calls_of p emitted = length (filter p emitted)"

definition outcomes :: "otel_call list \<Rightarrow> nat" where
  "outcomes emitted = calls_of (is_add ''reqx.request.succeeded'') emitted + calls_of (is_add ''reqx.request.failed'') emitted +
     calls_of (is_add ''reqx.request.canceled'') emitted"

fun unfinished_handle :: "telemetry_handle \<Rightarrow> bool" where
  "unfinished_handle (Telemetry_Pending _) = True"
| "unfinished_handle (Telemetry_Stream _ _ unfinished) = unfinished"

fun handle_span :: "telemetry_handle \<Rightarrow> otel_request_span" where
  "handle_span (Telemetry_Pending sp) = sp"
| "handle_span (Telemetry_Stream sp _ _) = sp"

definition unfinished :: "telemetry_handle list \<Rightarrow> nat" where
  "unfinished hs = length (filter unfinished_handle hs)"

text \<open>
  What the attributes say. The attributes of a span name the client and the method of its request and say of
  its target the scheme, the host, the port and the normalised path, each a component of the parsed URI, and
  nothing else of it; the others are those of the outcome.
\<close>

definition outcome_attribute :: "otel_inner \<Rightarrow> string \<times> otel_value \<Rightarrow> bool" where
  "outcome_attribute inner attribute \<longleftrightarrow>
     attribute = (''reqx.client'', Otel_Text (oi_client_name inner)) \<or>
     (\<exists>s. attribute = (''http.response.status_code'', Otel_I64 s)) \<or>
     (\<exists>code. attribute = (''error.type'', Otel_Text (error_code_as_str code))) \<or>
     attribute = (''reqx.request.canceled'', Otel_True)"

definition target_attribute :: "'u uri_ops \<Rightarrow> otel_inner \<Rightarrow> 'u \<Rightarrow> string \<times> otel_value \<Rightarrow> bool" where
  "target_attribute U inner target attribute \<longleftrightarrow>
     (\<exists>scheme. uri_scheme_str U target = Some scheme \<and> attribute = (''url.scheme'', Otel_Text scheme)) \<or>
     (\<exists>host. uri_host U target = Some host \<and>
        attribute = (''server.address'', Otel_Text (unwrap_or host (normalize_host_key host)))) \<or>
     (\<exists>port. uri_port_u16 U target = Some port \<and> attribute = (''server.port'', Otel_I64 port)) \<or>
     (oi_path_normalizer inner (uri_path U target) \<noteq> [] \<and>
        attribute = (''url.path'', Otel_Text (oi_path_normalizer inner (uri_path U target))))"

definition request_attribute :: "'u uri_ops \<Rightarrow> otel_inner \<Rightarrow> http_method \<Rightarrow> string \<Rightarrow> string \<times> otel_value \<Rightarrow> bool" where
  "request_attribute U inner meth uri attribute \<longleftrightarrow>
     attribute = (''reqx.client'', Otel_Text (oi_client_name inner)) \<or>
     attribute = (''http.request.method'', Otel_Text meth) \<or>
     (\<exists>target. uri_parse U uri = Some target \<and> target_attribute U inner target attribute)"

definition span_of :: "'u uri_ops \<Rightarrow> otel_inner \<Rightarrow> 'h telemetry_event set \<Rightarrow> string \<Rightarrow> otel_attributes \<Rightarrow> bool" where
  "span_of U inner evs operation attributes \<longleftrightarrow>
     (\<exists>meth uri stream. Tel_Start meth uri stream \<in> evs \<and>
        operation = (if stream then ''reqx.http.request.stream'' else ''reqx.http.request'') \<and>
        Collect (request_attribute U inner meth uri) \<subseteq> set attributes \<and>
        set attributes \<subseteq> Collect (request_attribute U inner meth uri) \<union> Collect (outcome_attribute inner))"

fun call_ok :: "'u uri_ops \<Rightarrow> otel_inner \<Rightarrow> 'h telemetry_event set \<Rightarrow> otel_call \<Rightarrow> bool" where
  "call_ok U inner evs (Otel_Add name attributes) \<longleftrightarrow> list_all (outcome_attribute inner) attributes"
| "call_ok U inner evs (Otel_Record name v attributes) \<longleftrightarrow> list_all (outcome_attribute inner) attributes"
| "call_ok U inner evs (Otel_SpanEnd name attributes st) \<longleftrightarrow>
     span_of U inner evs name attributes \<and> (st = None \<or> st \<in> range (Some \<circ> error_code_as_str))"

definition span_ok :: "'u uri_ops \<Rightarrow> otel_inner \<Rightarrow> 'h telemetry_event set \<Rightarrow> otel_span \<Rightarrow> bool" where
  "span_ok U inner evs sp \<longleftrightarrow> span_of U inner evs (on_operation sp) (on_attributes sp) \<and> on_status sp = None"

definition telemetry_inv ::
    "'u uri_ops \<Rightarrow> otel_inner \<Rightarrow> 'h telemetry_event set \<Rightarrow> otel_call list \<times> telemetry_handle list \<Rightarrow> bool" where
  "telemetry_inv U inner evs x \<longleftrightarrow> (case x of (emitted, hs) \<Rightarrow>
     calls_of (is_add ''reqx.request.started'') emitted = outcomes emitted + unfinished hs \<and>
     calls_of is_span_end emitted = outcomes emitted \<and> calls_of is_sample emitted = outcomes emitted \<and>
     list_all (call_ok U inner evs) emitted \<and>
     (\<forall>h \<in> set hs. unfinished_handle h \<longrightarrow> (\<exists>sp. handle_span h = Some sp \<and> span_ok U inner evs sp)))"

lemma calls_of_append [simp]: "calls_of p (xs @ ys) = calls_of p xs + calls_of p ys"
  by (simp add: calls_of_def)

lemma outcomes_append [simp]: "outcomes (xs @ ys) = outcomes xs + outcomes ys"
  by (simp add: outcomes_def)

lemma set_option_item: "set (case x of None \<Rightarrow> [] | Some y \<Rightarrow> [f y]) = {a. \<exists>y. x = Some y \<and> a = f y}"
  by (cases x) auto

lemma set_if_item: "set (if b then [a] else []) = {a'. b \<and> a' = a}"
  by auto

lemma request_span_exact:
  "set (request_span_attributes U (oi_client_name inner) (oi_path_normalizer inner) meth uri) =
     Collect (request_attribute U inner meth uri)"
proof (cases "uri_parse U uri")
  case None
  then show ?thesis
    unfolding request_span_attributes_def request_attribute_def by (simp add: set_eq_iff)
next
  case (Some target)
  have "(\<exists>t. uri_parse U uri = Some t \<and> target_attribute U inner t a) \<longleftrightarrow> target_attribute U inner target a" for a
    by (simp add: Some)
  then show ?thesis
    unfolding request_span_attributes_def request_attribute_def target_attribute_def set_eq_iff
    by (simp only: Some option.case Let_def set_append set_option_item set_if_item list.set Un_iff mem_Collect_eq
        insert_iff empty_iff simp_thms disj_assoc)
qed

lemma start_request_span_ok:
  assumes "Tel_Start meth uri stream \<in> evs"
  shows "\<exists>sp. start_request_span U meth uri stream (Some inner) = Some sp \<and> span_ok U inner evs sp"
proof -
  have "span_of U inner evs (if stream then ''reqx.http.request.stream'' else ''reqx.http.request'')
      (request_span_attributes U (oi_client_name inner) (oi_path_normalizer inner) meth uri)"
    unfolding span_of_def using assms request_span_exact [of U inner meth uri] by blast
  then show ?thesis by (simp add: start_request_span_def span_ok_def)
qed

lemma span_of_append:
  "span_of U inner evs operation attributes \<Longrightarrow> list_all (outcome_attribute inner) added \<Longrightarrow>
     span_of U inner evs operation (attributes @ added)"
  unfolding span_of_def set_append list_all_iff by blast

lemmas otel_record_defs =
  otel_record_request_started_def otel_record_request_succeeded_def otel_record_request_failed_def
  otel_record_request_canceled_def otel_record_retry_def otel_record_request_latency_def when_enabled_def
  base_attributes_def

lemmas telemetry_end_defs =
  telemetry_success_def telemetry_error_def telemetry_canceled_def finish_request_span_success_def
  finish_request_span_error_def finish_request_span_canceled_def span_end_def set_attributes_def
  error_span_status_def

lemma error_span_ok: "list_all (outcome_attribute inner) (error_span_attributes e)"
  by (auto simp: error_span_attributes_def outcome_attribute_def split: error.splits)

lemma telemetry_end_unfinished:
  assumes "unfinished_handle h" "handle_span h = Some sp" "span_ok U inner evs sp"
  shows "calls_of (is_add ''reqx.request.started'') (telemetry_end (Some inner) e h) = 0"
    "outcomes (telemetry_end (Some inner) e h) = 1" "calls_of is_span_end (telemetry_end (Some inner) e h) = 1"
    "calls_of is_sample (telemetry_end (Some inner) e h) = 1"
    "list_all (call_ok U inner evs) (telemetry_end (Some inner) e h)"
proof -
  have "list_all (outcome_attribute inner) [(''http.response.status_code'', Otel_I64 s)]"
    "list_all (outcome_attribute inner) [(''reqx.request.canceled'', Otel_True)]" for s
    by (simp_all add: outcome_attribute_def)
  note added = this [THEN span_of_append [rotated]] error_span_ok [THEN span_of_append [rotated]]
  note ends = telemetry_end_defs otel_record_defs
  show "calls_of (is_add ''reqx.request.started'') (telemetry_end (Some inner) e h) = 0"
    "outcomes (telemetry_end (Some inner) e h) = 1" "calls_of is_span_end (telemetry_end (Some inner) e h) = 1"
    "calls_of is_sample (telemetry_end (Some inner) e h) = 1"
    using assms(1,2) by (cases e; cases h; simp add: ends outcomes_def calls_of_def)+
  show "list_all (call_ok U inner evs) (telemetry_end (Some inner) e h)"
    using assms added by (cases e; cases h) (auto simp: ends span_ok_def outcome_attribute_def)
qed

lemma telemetry_end_finished: "\<not> unfinished_handle h \<Longrightarrow> telemetry_end T e h = []"
  by (cases e; cases h) simp_all

lemma unfinished_simps [simp]:
  "unfinished [] = 0" "unfinished (h # hs) = (if unfinished_handle h then 1 else 0) + unfinished hs"
  by (simp_all add: unfinished_def)

lemma unfinished_append [simp]: "unfinished (xs @ ys) = unfinished xs + unfinished ys"
  by (simp add: unfinished_def)

lemma split_at_nth: "i < length hs \<Longrightarrow> hs = take i hs @ hs ! i # drop (Suc i) hs"
  by (rule id_take_nth_drop)

lemma unfinished_at:
  assumes "i < length hs"
  shows "unfinished hs = (if unfinished_handle (hs ! i) then 1 else 0) + unfinished (remove_nth i hs)"
    "unfinished (hs[i := h]) = (if unfinished_handle h then 1 else 0) + unfinished (remove_nth i hs)"
    "set (remove_nth i hs) \<subseteq> set hs"
proof -
  show "unfinished hs = (if unfinished_handle (hs ! i) then 1 else 0) + unfinished (remove_nth i hs)"
    using arg_cong [OF split_at_nth [OF assms], of unfinished] by (simp add: remove_nth_def)
  show "unfinished (hs[i := h]) = (if unfinished_handle h then 1 else 0) + unfinished (remove_nth i hs)"
    by (simp add: upd_conv_take_nth_drop [OF assms] remove_nth_def)
  show "set (remove_nth i hs) \<subseteq> set hs"
    by (auto simp: remove_nth_def dest: in_set_takeD in_set_dropD)
qed

text \<open>The end of a handle pays for the start of its request.\<close>

lemma telemetry_inv_end:
  assumes "telemetry_inv U inner evs (emitted, hs)" "i < length hs"
    and "unfinished hs' = unfinished (remove_nth i hs)" "\<forall>h \<in> set hs'. unfinished_handle h \<longrightarrow> h \<in> set hs"
  shows "telemetry_inv U inner evs (emitted @ telemetry_end (Some inner) e (hs ! i), hs')"
proof (cases "unfinished_handle (hs ! i)")
  case True
  have "\<forall>h \<in> set hs. unfinished_handle h \<longrightarrow> (\<exists>sp. handle_span h = Some sp \<and> span_ok U inner evs sp)"
    using assms(1) by (simp add: telemetry_inv_def)
  then obtain sp where "handle_span (hs ! i) = Some sp" "span_ok U inner evs sp"
    using True nth_mem [OF assms(2)] by blast
  note finish = telemetry_end_unfinished [OF True this, of e]
  show ?thesis
    using assms unfinished_at(1) [OF assms(2)] True finish by (simp add: telemetry_inv_def)
next
  case False
  then show ?thesis
    using assms unfinished_at(1) [OF assms(2)] by (simp add: telemetry_inv_def telemetry_end_finished)
qed

lemma telemetry_inv_step:
  assumes "telemetry_inv U inner evs x" "ev \<in> evs"
  shows "telemetry_inv U inner evs (telemetry_step (Some inner) U ev x)"
proof -
  obtain emitted hs where x: "x = (emitted, hs)" by fastforce
  show ?thesis
  proof (cases ev)
    case (Tel_Start meth uri stream)
    obtain sp where "start_request_span U meth uri stream (Some inner) = Some sp" "span_ok U inner evs sp"
      using start_request_span_ok assms(2) unfolding Tel_Start by metis
    then show ?thesis
      using assms by (simp add: x Tel_Start telemetry_inv_def telemetry_pending_request_def otel_record_defs
          calls_of_def outcomes_def outcome_attribute_def)
  next
    case Tel_Retry
    then show ?thesis
      using assms by (simp add: x telemetry_inv_def otel_record_defs calls_of_def outcomes_def outcome_attribute_def)
  next
    case (Tel_End i e)
    then show ?thesis
      using assms telemetry_inv_end [of U inner evs emitted hs i "remove_nth i hs" e] unfinished_at(3) [of i hs]
      by (auto simp: x)
  next
    case (Tel_IntoStream i s)
    show ?thesis
    proof (cases "\<exists>sp. i < length hs \<and> hs ! i = Telemetry_Pending sp")
      case True
      then obtain sp where i: "i < length hs" "hs ! i = Telemetry_Pending sp" by blast
      then have "\<exists>sp'. sp = Some sp' \<and> span_ok U inner evs sp'"
        using assms nth_mem [OF i(1)] by (fastforce simp: x telemetry_inv_def)
      then show ?thesis
        using assms i unfinished_at(1,2) [OF i(1)] set_update_subset_insert [of hs i "Telemetry_Stream sp s True"]
        by (fastforce simp: x Tel_IntoStream telemetry_inv_def)
    qed (use assms in \<open>auto simp: x Tel_IntoStream split: telemetry_handle.splits\<close>)
  next
    case (Tel_StreamDone i e)
    show ?thesis
    proof (cases "\<exists>sp s u. i < length hs \<and> hs ! i = Telemetry_Stream sp s u")
      case True
      then obtain sp s u where i: "i < length hs" "hs ! i = Telemetry_Stream sp s u" by blast
      have "telemetry_inv U inner evs (emitted @ telemetry_end (Some inner) e (hs ! i), hs[i := Telemetry_Stream None s False])"
        using assms set_update_subset_insert [of hs i "Telemetry_Stream None s False"]
        by (intro telemetry_inv_end) (auto simp: x i(1) unfinished_at(2))
      then show ?thesis using i by (simp add: x Tel_StreamDone)
    qed (use assms in \<open>auto simp: x Tel_StreamDone split: telemetry_handle.splits\<close>)
  qed
qed

lemma telemetry_inv_run: "telemetry_inv U inner (set evs) (telemetry_run (Some inner) U evs)"
proof -
  have "telemetry_inv U inner (set evs) x \<Longrightarrow> set rest \<subseteq> set evs \<Longrightarrow>
      telemetry_inv U inner (set evs) (fold (telemetry_step (Some inner) U) rest x)" for x rest
    by (induction rest arbitrary: x) (simp_all add: telemetry_inv_step)
  then show ?thesis
    by (simp add: telemetry_run_def telemetry_inv_def calls_of_def outcomes_def)
qed

lemma telemetry_step_off:
  assumes "\<forall>h \<in> set hs. handle_span h = None"
  shows "\<exists>hs'. telemetry_step None U ev (emitted, hs) = (emitted, hs') \<and> (\<forall>h \<in> set hs'. handle_span h = None)"
proof -
  have quiet: "telemetry_end None e h = []" if "handle_span h = None" for e :: "'c handle_end" and h
    using that by (cases e; cases h) (simp_all add: telemetry_end_defs otel_record_defs)
  have at: "handle_span (hs ! i) = None" if "i < length hs" for i using assms that by simp
  have update: "\<forall>h \<in> set (hs[i := h']). handle_span h = None" if "handle_span h' = None" for i h'
    using assms that set_update_subset_insert [of hs i h'] by auto
  show ?thesis
  proof (cases ev)
    case (Tel_End i e)
    show ?thesis
    proof (cases "i < length hs")
      case True
      have "\<forall>h \<in> set (remove_nth i hs). handle_span h = None" using unfinished_at(3) [OF True] assms by blast
      then show ?thesis using True quiet [OF at [OF True]] by (simp add: Tel_End)
    qed (use assms in \<open>simp add: Tel_End\<close>)
  next
    case (Tel_IntoStream i s)
    show ?thesis
    proof (cases "i < length hs")
      case True
      then show ?thesis
        using assms at [OF True] update [of "Telemetry_Stream None s True" i] by (cases "hs ! i") (simp_all add: Tel_IntoStream)
    qed (use assms in \<open>simp add: Tel_IntoStream\<close>)
  next
    case (Tel_StreamDone i e)
    show ?thesis
    proof (cases "i < length hs")
      case True
      then show ?thesis using assms at [OF True] quiet [OF at [OF True], of e] update [of "Telemetry_Stream None _ False" i]
        by (cases "hs ! i") (simp_all add: Tel_StreamDone)
    qed (use assms in \<open>simp add: Tel_StreamDone\<close>)
  qed (use assms in \<open>simp_all add: telemetry_pending_request_def start_request_span_def otel_record_defs\<close>)
qed

lemma telemetry_off: "fst (telemetry_run None U evs) = []"
proof -
  have "\<forall>h \<in> set hs. handle_span h = None \<Longrightarrow> fst (fold (telemetry_step None U) evs (emitted, hs)) = emitted"
    for hs emitted
  proof (induction evs arbitrary: hs)
    case (Cons ev evs)
    then show ?case using telemetry_step_off [OF Cons.prems, of U ev emitted] by auto
  qed simp
  then show ?thesis by (simp add: telemetry_run_def)
qed

text \<open>The texts of a call that come from the target of a request.\<close>

fun call_attributes :: "otel_call \<Rightarrow> otel_attributes" where
  "call_attributes (Otel_Add _ attributes) = attributes"
| "call_attributes (Otel_Record _ _ attributes) = attributes"
| "call_attributes (Otel_SpanEnd _ attributes _) = attributes"

definition texts_of :: "string \<Rightarrow> otel_call list \<Rightarrow> string list" where
  "texts_of key emitted =
     concat (map (\<lambda>(k, v). case v of Otel_Text t \<Rightarrow> if k = key then [t] else [] | _ \<Rightarrow> [])
       (concat (map call_attributes emitted)))"

subsection \<open>Telemetry and the counters of the client\<close>

fun erase :: "'h telemetry_event \<Rightarrow> 'h metrics_event" where
  "erase (Tel_Start _ _ _) = EvStart"
| "erase Tel_Retry = EvRetry"
| "erase (Tel_End i e) = EvEnd i e"
| "erase (Tel_IntoStream i s) = EvIntoStream i s 0"
| "erase (Tel_StreamDone i e) = EvStreamDone i e"

definition capped :: "(otel_call \<Rightarrow> bool) \<Rightarrow> otel_call list \<Rightarrow> nat" where
  "capped p emitted = min u64_max (calls_of p emitted)"

definition counts_agree :: "client_metrics \<Rightarrow> otel_call list \<Rightarrow> bool" where
  "counts_agree m emitted \<longleftrightarrow> (\<exists>inner. m = Some inner \<and>
     mx_requests_started inner = capped (is_add ''reqx.request.started'') emitted \<and>
     mx_requests_succeeded inner = capped (is_add ''reqx.request.succeeded'') emitted \<and>
     mx_requests_failed inner = capped (is_add ''reqx.request.failed'') emitted \<and>
     mx_requests_canceled inner = capped (is_add ''reqx.request.canceled'') emitted \<and>
     mx_retries inner = capped (is_add ''reqx.request.retries'') emitted \<and>
     mx_latency_samples inner = capped is_sample emitted)"

fun handles_agree :: "request_handle \<Rightarrow> telemetry_handle \<Rightarrow> bool" where
  "handles_agree (PendingHandle p) (Telemetry_Pending _) = (\<not> pr_completed p)"
| "handles_agree (StreamHandle st) (Telemetry_Stream _ s pending) =
     (sc_status st = s \<and> (sc_in_flight_guard st \<noteq> None) = pending)"
| "handles_agree _ _ = False"

lemma calls_of_simps: "calls_of p [] = 0" "calls_of p (c # cs) = (if p c then 1 else 0) + calls_of p cs"
  by (simp_all add: calls_of_def)

lemma u64_add_capped: "u64_add (min u64_max n) (Suc 0) = min u64_max (Suc n)"
  by (simp add: sat_add_def min_def)

lemmas capped_simps = capped_def calls_of_simps u64_add_capped

lemma record_error_category_retries:
  "record_error_category e (Some inner) = Some inner' \<Longrightarrow> mx_retries inner' = mx_retries inner"
  by (cases e) (auto simp: record_error_category_def add_timeout_phase_count_def
      add_transport_error_kind_count_def add_http_status_error_count_def add_status_count_def
      split: timeout_phase.splits)

lemma counts_agree_end:
  assumes "counts_agree m emitted"
  shows "counts_agree (in_flight_guard_drop g (record_request_completed_success s d m)) (emitted @ telemetry_success (Some inner) sp s d)"
    "counts_agree (in_flight_guard_drop g (record_request_completed_error e d m)) (emitted @ telemetry_error (Some inner) sp e d)"
    "counts_agree (in_flight_guard_drop g (record_request_completed_canceled d m)) (emitted @ telemetry_canceled (Some inner) sp d)"
proof -
  obtain i where i: "m = Some i" "counts_agree (Some i) emitted" using assms by (auto simp: counts_agree_def)
  note defs = in_flight_guard_drop_def record_latency_def add_status_count_def add_error_code_count_def
    telemetry_end_defs otel_record_defs counts_agree_def atomic_saturating_increment_def atomic_saturating_add_def
    capped_simps
  show "counts_agree (in_flight_guard_drop g (record_request_completed_success s d m)) (emitted @ telemetry_success (Some inner) sp s d)"
    using i by (cases sp) (simp_all add: record_request_completed_success_def defs)
  show "counts_agree (in_flight_guard_drop g (record_request_completed_canceled d m)) (emitted @ telemetry_canceled (Some inner) sp d)"
    using i by (cases sp) (simp_all add: record_request_completed_canceled_def defs)
  define j where "j = mx_error_code_counts_update (add_count (error_code_of e)) (mx_latency_total_ms_update
      (atomic_saturating_add (min (as_millis d) u64_max)) (mx_latency_samples_update atomic_saturating_increment
      (mx_requests_failed_update atomic_saturating_increment i)))"
  obtain k where k: "record_error_category e (Some j) = Some k" "ledger k = ledger j" "mx_retries k = mx_retries j"
    using record_error_category_ledger [of e j] record_error_category_retries by metis
  have "record_request_completed_error e d m = Some k"
    using k(1) by (simp add: i(1) record_request_completed_error_def record_latency_def add_error_code_count_def j_def)
  then show "counts_agree (in_flight_guard_drop g (record_request_completed_error e d m)) (emitted @ telemetry_error (Some inner) sp e d)"
    using i(2) k(2,3) by (cases sp) (simp_all add: j_def ledger_def defs)
qed

lemma counts_agree_stream_done:
  assumes "counts_agree m emitted" "handles_agree (StreamHandle st) (Telemetry_Stream sp s pending)"
  shows "counts_agree (snd (stream_done_apply e st m)) (emitted @ telemetry_end (Some inner) e (Telemetry_Stream sp s pending))"
    "handles_agree (StreamHandle (fst (stream_done_apply e st m))) (Telemetry_Stream None s False)"
proof -
  note ends = counts_agree_end [OF assms(1)]
  show "counts_agree (snd (stream_done_apply e st m)) (emitted @ telemetry_end (Some inner) e (Telemetry_Stream sp s pending))"
    using assms ends
    by (cases e; cases "sc_in_flight_guard st")
       (auto simp: stream_complete_success_def stream_complete_error_def stream_complete_canceled_def)
  show "handles_agree (StreamHandle (fst (stream_done_apply e st m))) (Telemetry_Stream None s False)"
    using assms
    by (cases e; cases "sc_in_flight_guard st")
       (auto simp: stream_complete_success_def stream_complete_error_def stream_complete_canceled_def)
qed

text \<open>A handle that ends is completed first, and what is left of it is dropped, which then does nothing.\<close>

lemma stream_end_done:
  "handle_end_apply e (StreamHandle st) m = snd (stream_done_apply e st m)"
  by (cases e; cases "sc_in_flight_guard st")
     (simp_all add: stream_complete_success_def stream_complete_error_def stream_complete_canceled_def
        stream_completion_drop_def)

lemma counts_agree_handle_end:
  assumes "counts_agree m emitted" "handles_agree h t"
  shows "counts_agree (handle_end_apply e h m) (emitted @ telemetry_end (Some inner) e t)"
proof (cases h)
  case (PendingHandle p)
  then obtain sp where t: "t = Telemetry_Pending sp" "\<not> pr_completed p" using assms(2) by (cases t) auto
  show ?thesis
    unfolding PendingHandle t(1)
    by (cases e) (simp_all add: pending_complete_success_def pending_complete_error_def pending_request_drop_def
        counts_agree_end [OF assms(1)] t(2))
next
  case (StreamHandle st)
  then obtain sp s pending where t: "t = Telemetry_Stream sp s pending" using assms(2) by (cases t) auto
  show ?thesis
    using counts_agree_stream_done(1) [OF assms(1), of st sp s pending e inner] assms(2)
    by (simp add: StreamHandle t stream_end_done)
qed

lemma counts_agree_start:
  assumes "counts_agree m emitted"
  shows "counts_agree (snd (enter_in_flight (record_request_started m))) (emitted @ otel_record_request_started (Some inner))"
proof -
  obtain i where "m = Some i" "counts_agree (Some i) emitted" using assms by (auto simp: counts_agree_def)
  then show ?thesis
    by (simp add: counts_agree_def record_request_started_def enter_in_flight_def otel_record_defs capped_simps
        atomic_saturating_increment_def atomic_saturating_add_def)
qed

lemma counts_agree_retry:
  assumes "counts_agree m emitted"
  shows "counts_agree (record_retry m) (emitted @ otel_record_retry (Some inner))"
proof -
  obtain i where "m = Some i" "counts_agree (Some i) emitted" using assms by (auto simp: counts_agree_def)
  then show ?thesis
    by (simp add: counts_agree_def record_retry_def otel_record_defs capped_simps
        atomic_saturating_increment_def atomic_saturating_add_def)
qed

lemma agree_step:
  assumes "counts_agree (fst x) (fst y)" "list_all2 handles_agree (snd x) (snd y)"
  shows "counts_agree (fst (metrics_step (erase ev) x)) (fst (telemetry_step (Some inner) U ev y)) \<and>
    list_all2 handles_agree (snd (metrics_step (erase ev) x)) (snd (telemetry_step (Some inner) U ev y))"
proof -
  obtain m hs emitted ts where x: "x = (m, hs)" and y: "y = (emitted, ts)" by (cases x; cases y) blast
  have len: "length hs = length ts" and at: "\<And>i. i < length ts \<Longrightarrow> handles_agree (hs ! i) (ts ! i)"
    and agree: "counts_agree m emitted" and all: "list_all2 handles_agree hs ts"
    using assms by (auto simp: x y list_all2_conv_all_nth)
  show ?thesis
  proof (cases ev)
    case (Tel_End i e)
    then show ?thesis
      using agree all len counts_agree_handle_end [OF agree at, of i e inner]
      by (auto simp: x y remove_nth_def intro: list_all2_appendI list_all2_takeI list_all2_dropI)
  next
    case (Tel_IntoStream i s)
    show ?thesis
    proof (cases "i < length ts")
      case True
      show ?thesis
      proof (cases "ts ! i")
        case (Telemetry_Pending sp)
        then obtain p where p: "hs ! i = PendingHandle p" using at [OF True] by (cases "hs ! i") auto
        show ?thesis
          using True len agree all Telemetry_Pending p
          by (simp add: x y Tel_IntoStream pending_into_stream_def pending_request_drop_def in_flight_guard_drop_def
              list_all2_update_cong)
      next
        case (Telemetry_Stream sp s' pending)
        then obtain st where "hs ! i = StreamHandle st" using at [OF True] by (cases "hs ! i") auto
        then show ?thesis using True len agree all Telemetry_Stream by (simp add: x y Tel_IntoStream)
      qed
    qed (use agree all len in \<open>simp add: x y Tel_IntoStream\<close>)
  next
    case (Tel_StreamDone i e)
    show ?thesis
    proof (cases "i < length ts")
      case True
      show ?thesis
      proof (cases "ts ! i")
        case (Telemetry_Pending sp)
        then obtain p where "hs ! i = PendingHandle p" using at [OF True] by (cases "hs ! i") auto
        then show ?thesis using True len agree all Telemetry_Pending by (simp add: x y Tel_StreamDone)
      next
        case (Telemetry_Stream sp s pending)
        then obtain st where st: "hs ! i = StreamHandle st" using at [OF True] by (cases "hs ! i") auto
        then have "handles_agree (StreamHandle st) (Telemetry_Stream sp s pending)"
          using at [OF True] Telemetry_Stream by simp
        note finished = counts_agree_stream_done [OF agree this, of e]
        then show ?thesis
          using True len all Telemetry_Stream st
          by (simp add: x y Tel_StreamDone list_all2_update_cong case_prod_unfold Let_def)
      qed
    qed (use agree all len in \<open>simp add: x y Tel_StreamDone\<close>)
  next
    case (Tel_Start meth uri stream)
    show ?thesis
      using counts_agree_start [OF agree, of inner] all
      by (simp add: x y Tel_Start metrics_pending_request_def telemetry_pending_request_def case_prod_unfold Let_def)
  next
    case Tel_Retry
    show ?thesis using counts_agree_retry [OF agree, of inner] all by (simp add: x y Tel_Retry)
  qed
qed

lemma agree_run:
  "counts_agree (fst (metrics_run (map erase evs) (client_metrics_with_options True, [])))
     (fst (telemetry_run (Some inner) U evs))"
proof -
  have "counts_agree (fst x) (fst y) \<Longrightarrow> list_all2 handles_agree (snd x) (snd y) \<Longrightarrow>
      counts_agree (fst (fold metrics_step (map erase evs) x)) (fst (fold (telemetry_step (Some inner) U) evs y))" for x y
  proof (induction evs arbitrary: x y)
    case (Cons ev evs)
    then show ?case using agree_step [OF Cons.prems, of ev inner U] by simp
  qed simp
  moreover have "counts_agree (client_metrics_with_options True) []"
    by (simp add: counts_agree_def client_metrics_with_options_def client_metrics_inner_default_def capped_simps)
  ultimately show ?thesis by (simp add: metrics_run_def telemetry_run_def)
qed

subsection \<open>Privacy\<close>

text \<open>
  What \<open>http::Uri\<close> documents of the components of a parsed URI: none of them has a query or a fragment, and
  the host has no user information.
\<close>

definition uri_component_laws :: "'u uri_ops \<Rightarrow> bool" where
  "uri_component_laws U \<longleftrightarrow>
     (\<forall>u. set (uri_path U u) \<inter> set ''?#'' = {} \<and>
        is_none_or (\<lambda>host. set host \<inter> set ''/?#@'' = {}) (uri_host U u) \<and>
        is_none_or (\<lambda>scheme. set scheme \<inter> set ''/?#@'' = {}) (uri_scheme_str U u))"

lemma text_of_call:
  assumes "list_all (call_ok U inner evs) emitted" "text_value \<in> set (texts_of key emitted)"
    and "key \<in> {''url.scheme'', ''server.address'', ''url.path''}"
  shows "\<exists>target. target_attribute U inner target (key, Otel_Text text_value)"
proof -
  obtain c where c: "c \<in> set emitted" "(key, Otel_Text text_value) \<in> set (call_attributes c)"
    using assms(2) by (fastforce simp: texts_of_def split: otel_value.splits if_splits)
  have no: "\<not> outcome_attribute inner (key, Otel_Text text_value)"
    "key \<noteq> ''http.request.method''"
    using assms(3) by (auto simp: outcome_attribute_def)
  have ok: "call_ok U inner evs c" using assms(1) c(1) by (simp add: list_all_iff)
  then obtain meth uri where "request_attribute U inner meth uri (key, Otel_Text text_value)"
    using c(2) no(1) by (cases c) (auto simp: span_of_def list_all_iff)
  then show ?thesis using no assms(3) by (auto simp: request_attribute_def)
qed

lemma chars_of_join: "c \<in> set (join_segments segments) \<Longrightarrow> c = CHR ''/'' \<or> (\<exists>s \<in> set segments. c \<in> set s)"
  by (induction segments rule: join_segments.induct) auto

lemma chars_of_segment:
  assumes "s \<in> set (path_segments path)"
  shows "set s \<subseteq> set path"
proof -
  have "set t \<subseteq> set (join_segments segments)" if "t \<in> set segments" for t :: string and segments
    using that by (induction segments rule: join_segments.induct) auto
  then show ?thesis using assms join_split [of path] by metis
qed

text \<open>Normalising a path brings in the characters of the labels alone.\<close>

lemma chars_of_normalize_path:
  assumes "c \<in> set (normalize_path path)"
  shows "c \<in> set path \<or> c \<in> set ''/:uidnthexok''"
proof -
  obtain rest where rest: "map normalize_path_segment (named (path_segments path)) =
      named (path_segments (normalize_path path)) @ rest"
    using normalize_path_normal by blast
  consider "c = CHR ''/''" | s where "s \<in> set (path_segments (normalize_path path))" "c \<in> set s"
    using assms chars_of_join [of c "path_segments (normalize_path path)"] unfolding join_split by blast
  then show ?thesis
  proof cases
    case 2
    then have "s \<in> set (named (path_segments (normalize_path path)))" by (auto simp: named_def)
    then have "s \<in> normalize_path_segment ` set (path_segments path)"
      using arg_cong [OF rest, of set] by (auto simp: named_def)
    then obtain t where "t \<in> set (path_segments path)" "s = normalize_path_segment t" by blast
    then show ?thesis
      using 2(2) normalize_path_segment_cases [of t] chars_of_segment [of t path] by auto
  qed simp
qed

lemma chars_of_host_key:
  assumes "c \<in> set (unwrap_or host (normalize_host_key host))"
  shows "c \<in> set host \<or> is_ascii_lower c"
proof -
  have ends: "set (trim_end_matches p s) \<subseteq> set s" "set (trim_start_matches p s) \<subseteq> set s" for p s
    by (auto simp: trim_end_matches_def trim_start_matches_def dest: set_dropWhileD)
  have trimmed: "set (trim s) \<subseteq> set s" for s
    unfolding trim_def using ends by (meson subset_trans)
  have lower: "ascii_lower d = d \<or> is_ascii_lower (ascii_lower d)" for d
    by (auto simp: ascii_lower_def is_ascii_lower_def is_ascii_upper_def)
  let ?kept = "trim_end_matches (\<lambda>c. c = CHR ''.'') (trim host)"
  have "c \<in> set host \<or> c \<in> ascii_lower ` set ?kept"
    using assms by (auto simp: normalize_host_key_def Let_def to_ascii_lowercase_def split: if_splits)
  moreover have "set ?kept \<subseteq> set host" using ends(1) trimmed by (meson subset_trans)
  ultimately show ?thesis using lower by (metis image_iff subsetD)
qed

lemma private_texts:
  assumes "uri_component_laws U" "list_all (call_ok U inner evs) emitted" "oi_path_normalizer inner = normalize_path"
  shows "t \<in> set (texts_of ''url.scheme'' emitted) \<Longrightarrow> set t \<inter> set ''?#'' = {}"
    "t \<in> set (texts_of ''server.address'' emitted) \<Longrightarrow> set t \<inter> set ''?#@'' = {}"
    "t \<in> set (texts_of ''url.path'' emitted) \<Longrightarrow> set t \<inter> set ''?#'' = {}"
proof -
  note target = text_of_call [OF assms(2)]
  show "set t \<inter> set ''?#'' = {}" if t: "t \<in> set (texts_of ''url.scheme'' emitted)"
  proof -
    obtain target where scheme: "uri_scheme_str U target = Some t"
      using target [OF t] by (auto simp: target_attribute_def)
    have "is_none_or (\<lambda>scheme. set scheme \<inter> set ''/?#@'' = {}) (uri_scheme_str U target)"
      using assms(1) by (simp add: uri_component_laws_def)
    then show ?thesis by (simp add: scheme)
  qed
  show "set t \<inter> set ''?#@'' = {}" if t: "t \<in> set (texts_of ''server.address'' emitted)"
  proof -
    obtain target host where host: "uri_host U target = Some host" "t = unwrap_or host (normalize_host_key host)"
      using target [OF t] by (auto simp: target_attribute_def)
    have "is_none_or (\<lambda>host. set host \<inter> set ''/?#@'' = {}) (uri_host U target)"
      using assms(1) by (simp add: uri_component_laws_def)
    then have "set host \<inter> set ''?#@'' = {}" by (simp add: host(1))
    moreover have "\<not> is_ascii_lower c" if "c \<in> set ''?#@''" for c
      using that by (auto simp: is_ascii_lower_def)
    ultimately show ?thesis using chars_of_host_key [of _ host] host(2) by blast
  qed
  show "set t \<inter> set ''?#'' = {}" if t: "t \<in> set (texts_of ''url.path'' emitted)"
  proof -
    obtain target where path: "t = normalize_path (uri_path U target)"
      using target [OF t] assms(3) by (auto simp: target_attribute_def)
    have "set (uri_path U target) \<inter> set ''?#'' = {}" using assms(1) by (simp add: uri_component_laws_def)
    moreover have "set ''/:uidnthexok'' \<inter> set ''?#'' = {}" by simp
    ultimately show ?thesis using chars_of_normalize_path [of _ "uri_path U target"] path by blast
  qed
qed

lemma reported_path:
  assumes "list_all (call_ok U inner evs) emitted" "oi_path_normalizer inner = normalize_path"
    and "p \<in> set (texts_of ''url.path'' emitted)"
  shows "length p \<le> 128 \<and> \<not> list_ex is_identifier (path_segments p)"
proof -
  obtain target where "p = normalize_path (uri_path U target)"
    using text_of_call [OF assms(1,3)] assms(2) by (auto simp: target_attribute_def)
  then show ?thesis
    using normalize_path_normal [of "uri_path U target"]
    by (auto simp: list_ex_iff normal_segments_def normalize_path_segment_fixed)
qed

text \<open>
  C14: Telemetry is complete, agrees with the metrics of the client and is private. In every interleaving of
  requests, retries, streams and their ends, the number of requests that are reported as started is that of
  the requests with a reported outcome plus those that have not ended; every request that ends is reported
  with one outcome, one latency and one span; and each counter of the client's own metrics holds the number of
  reports of the same kind, up to its saturation. A span belongs to a request that was started, and its
  attributes are the client, the method, the scheme, host, port and normalised path of the parsed target, and
  what the outcome adds: the status, the code of the error or that it was canceled; counters and latencies
  carry the client and the outcome alone. With the standard normaliser a path has at most 128 bytes and no
  identifiers, and, for the URIs of a library whose components are those of the grammar, no text about the
  target has a query or a fragment, and no host has user information. Telemetry that is off reports nothing.
\<close>

theorem telemetry_complete_and_private:
  "(case telemetry_run (Some inner) U evs of (emitted, hs) \<Rightarrow>
      calls_of (is_add ''reqx.request.started'') emitted = outcomes emitted + unfinished hs \<and>
      calls_of is_span_end emitted = outcomes emitted \<and> calls_of is_sample emitted = outcomes emitted \<and>
      counts_agree (fst (metrics_run (map erase evs) (client_metrics_with_options True, []))) emitted \<and>
      list_all (call_ok U inner (set evs)) emitted) \<and>
   (case telemetry_run (Some \<lparr> oi_client_name = name, oi_path_normalizer = normalize_path \<rparr>) U evs of (emitted, hs) \<Rightarrow>
      list_all (\<lambda>p. length p \<le> 128 \<and> \<not> list_ex is_identifier (path_segments p)) (texts_of ''url.path'' emitted) \<and>
      (uri_component_laws U \<longrightarrow>
         list_all (\<lambda>t. set t \<inter> set ''?#'' = {}) (texts_of ''url.scheme'' emitted) \<and>
         list_all (\<lambda>t. set t \<inter> set ''?#@'' = {}) (texts_of ''server.address'' emitted) \<and>
         list_all (\<lambda>t. set t \<inter> set ''?#'' = {}) (texts_of ''url.path'' emitted))) \<and>
   fst (telemetry_run None U evs) = []"
proof (intro conjI)
  show "case telemetry_run (Some inner) U evs of (emitted, hs) \<Rightarrow>
      calls_of (is_add ''reqx.request.started'') emitted = outcomes emitted + unfinished hs \<and>
      calls_of is_span_end emitted = outcomes emitted \<and> calls_of is_sample emitted = outcomes emitted \<and>
      counts_agree (fst (metrics_run (map erase evs) (client_metrics_with_options True, []))) emitted \<and>
      list_all (call_ok U inner (set evs)) emitted"
    using telemetry_inv_run [of U inner evs] agree_run [of evs inner U]
    by (cases "telemetry_run (Some inner) U evs") (simp add: telemetry_inv_def)
next
  let ?inner = "\<lparr> oi_client_name = name, oi_path_normalizer = normalize_path \<rparr>"
  obtain emitted hs where run: "telemetry_run (Some ?inner) U evs = (emitted, hs)" by fastforce
  have ok: "list_all (call_ok U ?inner (set evs)) emitted" and standard: "oi_path_normalizer ?inner = normalize_path"
    using telemetry_inv_run [of U ?inner evs] by (simp_all add: run telemetry_inv_def)
  note facts = reported_path [OF ok standard] private_texts [OF _ ok standard]
  show "case telemetry_run (Some ?inner) U evs of (emitted, hs) \<Rightarrow>
      list_all (\<lambda>p. length p \<le> 128 \<and> \<not> list_ex is_identifier (path_segments p)) (texts_of ''url.path'' emitted) \<and>
      (uri_component_laws U \<longrightarrow>
         list_all (\<lambda>t. set t \<inter> set ''?#'' = {}) (texts_of ''url.scheme'' emitted) \<and>
         list_all (\<lambda>t. set t \<inter> set ''?#@'' = {}) (texts_of ''server.address'' emitted) \<and>
         list_all (\<lambda>t. set t \<inter> set ''?#'' = {}) (texts_of ''url.path'' emitted))"
    unfolding run prod.case list_all_iff using facts by blast
qed (rule telemetry_off)

text \<open>
  A URI library with these laws: the components of the example library of \<open>Reqx_Http\<close> up to the first
  character of the next one. The request below has a query and an identifier; neither is reported.
\<close>

definition example_uris :: "triple_uri uri_ops" where
  "example_uris = triple_uris\<lparr>
     uri_scheme_str := \<lambda>u. map_option (takeWhile (\<lambda>c. c \<notin> set ''/?#@'')) (fst u),
     uri_host := \<lambda>u. map_option (takeWhile (\<lambda>c. c \<notin> set ''/?#@'')) (fst (snd u)),
     uri_path := \<lambda>u. takeWhile (\<lambda>c. c \<notin> set ''?#'') (snd (snd u)) \<rparr>"

definition example_telemetry :: "unit telemetry_event list" where
  "example_telemetry = [Tel_Start ''GET'' ''http://A.io/v/42?key=1'' False, Tel_Retry, Tel_End 0 (EndSucceeded 200 5)]"

lemma example_uris_laws: "uri_component_laws example_uris"
proof -
  have stop: "set (takeWhile (\<lambda>c. c \<notin> X) s) \<inter> X = {}" for X and s :: string
    by (auto dest: set_takeWhileD)
  have "is_none_or (\<lambda>s. set s \<inter> X = {}) (map_option (takeWhile (\<lambda>c. c \<notin> X)) v)" for X and v :: "string option"
    using stop by (cases v) simp_all
  then show ?thesis
    unfolding uri_component_laws_def example_uris_def by (simp add: stop del: list.set)
qed

lemma example_telemetry_texts:
  defines "T \<equiv> Some \<lparr> oi_client_name = ''c'', oi_path_normalizer = normalize_path \<rparr>"
  shows "texts_of ''url.path'' (fst (telemetry_run T example_uris example_telemetry)) = [''/v/:int'']"
    "texts_of ''server.address'' (fst (telemetry_run T example_uris example_telemetry)) = [''a.io'']"
proof -
  have "normalize_path ''/v/42'' = ''/v/:int''" "normalize_host_key ''A.io'' = Some ''a.io''" by code_simp+
  then show "texts_of ''url.path'' (fst (telemetry_run T example_uris example_telemetry)) = [''/v/:int'']"
    "texts_of ''server.address'' (fst (telemetry_run T example_uris example_telemetry)) = [''a.io'']"
    by (simp_all add: T_def texts_of_def telemetry_run_def example_telemetry_def telemetry_pending_request_def
        start_request_span_def request_span_attributes_def example_uris_def triple_uris_def otel_record_defs
        telemetry_end_defs remove_nth_def)
qed

theorem telemetry_complete_and_private_witness:
  "uri_component_laws example_uris \<and>
   (case telemetry_run (Some \<lparr> oi_client_name = ''c'', oi_path_normalizer = normalize_path \<rparr>) example_uris example_telemetry of
      (emitted, hs) \<Rightarrow>
        calls_of (is_add ''reqx.request.started'') emitted = outcomes emitted + unfinished hs \<and>
        texts_of ''url.path'' emitted = [''/v/:int''] \<and> texts_of ''server.address'' emitted = [''a.io''] \<and>
        list_all (\<lambda>t. set t \<inter> set ''?#'' = {}) (texts_of ''url.path'' emitted) \<and>
        list_all (\<lambda>t. set t \<inter> set ''?#@'' = {}) (texts_of ''server.address'' emitted))"
  using telemetry_complete_and_private [where U = example_uris and evs = example_telemetry and name = "''c''"
      and inner = "\<lparr> oi_client_name = ''c'', oi_path_normalizer = normalize_path \<rparr>"]
    example_uris_laws example_telemetry_texts
  unfolding case_prod_unfold by blast

end
