(* ===== verification/Reqx_Builder.thy ===== *)
theory Reqx_Builder
  imports Reqx_AsyncWorld Reqx_Dns Reqx_Tls Reqx_Otel
begin

text \<open>
  The builders of both clients (\<open>src/src/core/client_builder.rs\<close>, \<open>src/src/async_client/builder.rs\<close>,
  \<open>src/src/blocking_client/builder.rs\<close>): their setters, the validation and the construction of a client with
  the first state of its controls. A setter has the name of the code.

  The crates that a client uses are the fields \<open>li_\<close> of the record \<open>client\<close>, and \<open>build\<close> is given a client
  whose fields \<open>li_\<close> and \<open>en_\<close> describe them and the environment. What only a builder needs of other crates
  is the record \<open>build_env\<close>.
\<close>

subsection \<open>Builders\<close>

record clock =
  ck_now_monotonic :: "nat \<Rightarrow> instant"
  ck_now_system :: "nat \<Rightarrow> system_time"

type_synonym 'h interceptor = "nat \<Rightarrow> request_context \<Rightarrow> 'h \<Rightarrow> 'h"

record ('h, 'u, 'n, 'o, 't) client_builder =
  bu_base_url :: string
  bu_default_headers :: 'h
  bu_buffered_auto_accept_encoding :: bool
  bu_stream_auto_accept_encoding :: bool
  bu_request_timeout :: duration
  bu_total_timeout :: "duration option"
  bu_stream_deadline_slack :: duration
  bu_max_response_body_bytes :: nat
  bu_connect_timeout :: duration
  bu_pool_idle_timeout :: duration
  bu_pool_max_idle_per_host :: nat
  bu_http_proxy :: "'u option"
  bu_dns_overrides :: dns_overrides
  bu_no_proxy_rules :: "'n no_proxy_rule list"
  bu_retry_policy :: retry_policy
  bu_retry_eligibility :: "'h retry_eligibility"
  bu_retry_budget_policy :: "retry_budget_policy option"
  bu_circuit_breaker_policy :: "circuit_breaker_policy option"
  bu_adaptive_concurrency_policy :: "adaptive_concurrency_policy option"
  bu_global_rate_limit_policy :: "rate_limit_policy option"
  bu_per_host_rate_limit_policy :: "rate_limit_policy option"
  bu_server_throttle_scope :: server_throttle_scope
  bu_redirect_policy :: redirect_policy
  bu_default_status_policy :: status_policy
  bu_tls_backend :: tls_backend
  bu_tls_options :: tls_options
  bu_endpoint_selector :: "'h endpoint_selector option"
  bu_clock :: clock
  bu_backoff_source :: "backoff_source option"
  bu_client_name :: string
  bu_max_in_flight :: "nat option"
  bu_max_in_flight_per_host :: "nat option"
  bu_metrics_enabled :: bool
  bu_otel_enabled :: bool
  bu_otel_path_normalizer :: "string \<Rightarrow> string"
  bu_interceptors :: "'h interceptor list"
  bu_observers :: "'o list"
  bu_transport_options :: 't

type_synonym ('h, 'u, 'n, 'o, 't) setter = "('h, 'u, 'n, 'o, 't) client_builder \<Rightarrow> ('h, 'u, 'n, 'o, 't) client_builder"

type_synonym ('h, 'u, 'n, 'o, 't) try_setter =
  "('h, 'u, 'n, 'o, 't) client_builder \<Rightarrow> (('h, 'u, 'n, 'o, 't) client_builder, 'h error) result"

text \<open>\<open>no_headers\<close> is \<open>HeaderMap::new\<close> and \<open>system_clock\<close> the clock of the operating system.\<close>

definition client_builder_new ::
    "('h, 'v) header_ops \<Rightarrow> 'h \<Rightarrow> clock \<Rightarrow> string \<Rightarrow> 't \<Rightarrow> tls_backend \<Rightarrow> ('h, 'u, 'n, 'o, 't) client_builder" where
  "client_builder_new H no_headers system_clock base_url transport_options backend =
     (let defaults = client_profile_defaults StandardSdk
      in \<lparr> bu_base_url = base_url,
           bu_default_headers = no_headers,
           bu_buffered_auto_accept_encoding = True,
           bu_stream_auto_accept_encoding = False,
           bu_request_timeout = pd_request_timeout defaults,
           bu_total_timeout = pd_total_timeout defaults,
           bu_stream_deadline_slack = from_millis 10,
           bu_max_response_body_bytes = pd_max_response_body_bytes defaults,
           bu_connect_timeout = from_secs 5,
           bu_pool_idle_timeout = from_secs 90,
           bu_pool_max_idle_per_host = 8,
           bu_http_proxy = None,
           bu_dns_overrides = [],
           bu_no_proxy_rules = [],
           bu_retry_policy = pd_retry_policy defaults,
           bu_retry_eligibility = strict_retry_eligibility H,
           bu_retry_budget_policy = None,
           bu_circuit_breaker_policy = None,
           bu_adaptive_concurrency_policy = None,
           bu_global_rate_limit_policy = None,
           bu_per_host_rate_limit_policy = None,
           bu_server_throttle_scope = Scope_Auto,
           bu_redirect_policy = pd_redirect_policy defaults,
           bu_default_status_policy = pd_status_policy defaults,
           bu_tls_backend = backend,
           bu_tls_options = tls_options_default,
           bu_endpoint_selector = None,
           bu_clock = system_clock,
           bu_backoff_source = None,
           bu_client_name = ''reqx'',
           bu_max_in_flight = None,
           bu_max_in_flight_per_host = None,
           bu_metrics_enabled = False,
           bu_otel_enabled = False,
           bu_otel_path_normalizer = normalize_path,
           bu_interceptors = [],
           bu_observers = [],
           bu_transport_options = transport_options \<rparr>)"

subsection \<open>Setters\<close>

definition request_timeout ::
    "duration \<Rightarrow> ('h, 'u, 'n, 'o, 't) setter" where
  "request_timeout v b = b\<lparr> bu_request_timeout := v \<rparr>"

definition total_timeout ::
    "duration option \<Rightarrow> ('h, 'u, 'n, 'o, 't) setter" where
  "total_timeout v b = b\<lparr> bu_total_timeout := v \<rparr>"

definition stream_deadline_slack ::
    "duration \<Rightarrow> ('h, 'u, 'n, 'o, 't) setter" where
  "stream_deadline_slack v b = b\<lparr> bu_stream_deadline_slack := v \<rparr>"

definition max_response_body_bytes ::
    "nat \<Rightarrow> ('h, 'u, 'n, 'o, 't) setter" where
  "max_response_body_bytes v b = b\<lparr> bu_max_response_body_bytes := v \<rparr>"

definition connect_timeout ::
    "duration \<Rightarrow> ('h, 'u, 'n, 'o, 't) setter" where
  "connect_timeout v b = b\<lparr> bu_connect_timeout := v \<rparr>"

definition pool_idle_timeout ::
    "duration \<Rightarrow> ('h, 'u, 'n, 'o, 't) setter" where
  "pool_idle_timeout v b = b\<lparr> bu_pool_idle_timeout := v \<rparr>"

definition pool_max_idle_per_host ::
    "nat \<Rightarrow> ('h, 'u, 'n, 'o, 't) setter" where
  "pool_max_idle_per_host v b = b\<lparr> bu_pool_max_idle_per_host := v \<rparr>"

definition resolve_to_addrs ::
    "(string \<Rightarrow> url_host option) \<Rightarrow> string \<Rightarrow> socket_addr list \<Rightarrow> ('h, 'u, 'n, 'o, 't) try_setter" where
  "resolve_to_addrs host_parse domain addresses b = 
     result_bind (dns_overrides_insert host_parse domain addresses (bu_dns_overrides b))
       (\<lambda>overrides. Ok (b\<lparr> bu_dns_overrides := overrides \<rparr>))"

definition resolve ::
    "(string \<Rightarrow> url_host option) \<Rightarrow> string \<Rightarrow> socket_addr \<Rightarrow> ('h, 'u, 'n, 'o, 't) try_setter" where
  "resolve host_parse domain address b = resolve_to_addrs host_parse domain [address] b"

definition http_proxy ::
    "'u \<Rightarrow> ('h, 'u, 'n, 'o, 't) setter" where
  "http_proxy proxy_uri b = b\<lparr> bu_http_proxy := Some proxy_uri \<rparr>"

definition no_proxy ::
    "'w url_ops \<Rightarrow> ('w, 'n) proxy_ops \<Rightarrow> string list \<Rightarrow> ('h, 'u, 'n, 'o, 't) try_setter" where
  "no_proxy W P rules b = 
     result_bind (parse_no_proxy_rules W P rules) (\<lambda>parsed. Ok (b\<lparr> bu_no_proxy_rules := parsed \<rparr>))"

definition add_no_proxy ::
    "'w url_ops \<Rightarrow> ('w, 'n) proxy_ops \<Rightarrow> string \<Rightarrow> ('h, 'u, 'n, 'o, 't) try_setter" where
  "add_no_proxy W P rule b = 
     result_bind (parse_no_proxy_rule W P rule)
       (\<lambda>parsed. Ok (b\<lparr> bu_no_proxy_rules := bu_no_proxy_rules b @ [parsed] \<rparr>))"

definition default_header ::
    "('h, 'v) header_ops \<Rightarrow> 'v header_parse_ops \<Rightarrow> string \<Rightarrow> 'v \<Rightarrow> ('h, 'u, 'n, 'o, 't) setter" where
  "default_header H P name v b = 
     b\<lparr> bu_default_headers := hm_insert H name (mark_sensitive_header_value P name v) (bu_default_headers b) \<rparr>"

definition auto_accept_encoding ::
    "bool \<Rightarrow> ('h, 'u, 'n, 'o, 't) setter" where
  "auto_accept_encoding enabled b = 
     b\<lparr> bu_buffered_auto_accept_encoding := enabled, bu_stream_auto_accept_encoding := enabled \<rparr>"

definition buffered_auto_accept_encoding ::
    "bool \<Rightarrow> ('h, 'u, 'n, 'o, 't) setter" where
  "buffered_auto_accept_encoding v b = b\<lparr> bu_buffered_auto_accept_encoding := v \<rparr>"

definition stream_auto_accept_encoding ::
    "bool \<Rightarrow> ('h, 'u, 'n, 'o, 't) setter" where
  "stream_auto_accept_encoding v b = b\<lparr> bu_stream_auto_accept_encoding := v \<rparr>"

definition try_default_header ::
    "('h, 'v) header_ops \<Rightarrow> 'v header_parse_ops \<Rightarrow> string \<Rightarrow> string \<Rightarrow> ('h, 'u, 'n, 'o, 't) try_setter" where
  "try_default_header H P name v b = 
     result_bind (parse_header_name P name) (\<lambda>name.
     result_bind (parse_header_value P name v) (\<lambda>v. Ok (default_header H P name v b)))"

definition builder_retry_policy ::
    "retry_policy \<Rightarrow> ('h, 'u, 'n, 'o, 't) setter" where
  "builder_retry_policy v b = b\<lparr> bu_retry_policy := v \<rparr>"

definition builder_retry_eligibility ::
    "'h retry_eligibility \<Rightarrow> ('h, 'u, 'n, 'o, 't) setter" where
  "builder_retry_eligibility v b = b\<lparr> bu_retry_eligibility := v \<rparr>"

definition builder_retry_budget_policy ::
    "retry_budget_policy option \<Rightarrow> ('h, 'u, 'n, 'o, 't) setter" where
  "builder_retry_budget_policy v b = b\<lparr> bu_retry_budget_policy := v \<rparr>"

definition builder_circuit_breaker_policy ::
    "circuit_breaker_policy option \<Rightarrow> ('h, 'u, 'n, 'o, 't) setter" where
  "builder_circuit_breaker_policy v b = b\<lparr> bu_circuit_breaker_policy := v \<rparr>"

definition builder_adaptive_concurrency_policy ::
    "adaptive_concurrency_policy option \<Rightarrow> ('h, 'u, 'n, 'o, 't) setter" where
  "builder_adaptive_concurrency_policy v b = b\<lparr> bu_adaptive_concurrency_policy := v \<rparr>"

definition global_rate_limit_policy ::
    "rate_limit_policy option \<Rightarrow> ('h, 'u, 'n, 'o, 't) setter" where
  "global_rate_limit_policy v b = b\<lparr> bu_global_rate_limit_policy := v \<rparr>"

definition per_host_rate_limit_policy ::
    "rate_limit_policy option \<Rightarrow> ('h, 'u, 'n, 'o, 't) setter" where
  "per_host_rate_limit_policy v b = b\<lparr> bu_per_host_rate_limit_policy := v \<rparr>"

definition builder_server_throttle_scope ::
    "server_throttle_scope \<Rightarrow> ('h, 'u, 'n, 'o, 't) setter" where
  "builder_server_throttle_scope v b = b\<lparr> bu_server_throttle_scope := v \<rparr>"

definition builder_redirect_policy ::
    "redirect_policy \<Rightarrow> ('h, 'u, 'n, 'o, 't) setter" where
  "builder_redirect_policy v b = b\<lparr> bu_redirect_policy := v \<rparr>"

definition default_status_policy ::
    "status_policy \<Rightarrow> ('h, 'u, 'n, 'o, 't) setter" where
  "default_status_policy v b = b\<lparr> bu_default_status_policy := v \<rparr>"

definition builder_tls_backend ::
    "tls_backend \<Rightarrow> ('h, 'u, 'n, 'o, 't) setter" where
  "builder_tls_backend v b = b\<lparr> bu_tls_backend := v \<rparr>"

definition builder_endpoint_selector ::
    "'h endpoint_selector option \<Rightarrow> ('h, 'u, 'n, 'o, 't) setter" where
  "builder_endpoint_selector v b = b\<lparr> bu_endpoint_selector := v \<rparr>"

definition control_clock ::
    "clock \<Rightarrow> ('h, 'u, 'n, 'o, 't) setter" where
  "control_clock v b = b\<lparr> bu_clock := v \<rparr>"

definition builder_backoff_source ::
    "backoff_source option \<Rightarrow> ('h, 'u, 'n, 'o, 't) setter" where
  "builder_backoff_source v b = b\<lparr> bu_backoff_source := v \<rparr>"

definition builder_tls_root_store ::
    "tls_root_store \<Rightarrow> ('h, 'u, 'n, 'o, 't) setter" where
  "builder_tls_root_store store b = b\<lparr> bu_tls_options := (bu_tls_options b)\<lparr> to_root_store := store \<rparr> \<rparr>"

definition add_root_certificate ::
    "tls_root_certificate \<Rightarrow> ('h, 'u, 'n, 'o, 't) setter" where
  "add_root_certificate certificate b = 
     b\<lparr> bu_tls_options := (bu_tls_options b)\<lparr> to_root_certificates := to_root_certificates (bu_tls_options b) @ [certificate] \<rparr> \<rparr>"

definition tls_root_ca_pem ::
    "string \<Rightarrow> ('h, 'u, 'n, 'o, 't) setter" where
  "tls_root_ca_pem certificate_pem b = add_root_certificate (Root_Pem certificate_pem) b"

definition tls_root_ca_der ::
    "string \<Rightarrow> ('h, 'u, 'n, 'o, 't) setter" where
  "tls_root_ca_der certificate_der b = add_root_certificate (Root_Der certificate_der) b"

definition clear_tls_root_cas ::
    "('h, 'u, 'n, 'o, 't) setter" where
  "clear_tls_root_cas b = b\<lparr> bu_tls_options := (bu_tls_options b)\<lparr> to_root_certificates := [] \<rparr> \<rparr>"

definition set_client_identity ::
    "tls_client_identity option \<Rightarrow> ('h, 'u, 'n, 'o, 't) setter" where
  "set_client_identity identity b = 
     b\<lparr> bu_tls_options := (bu_tls_options b)\<lparr> to_client_identity := identity \<rparr> \<rparr>"

definition tls_client_identity_pem ::
    "string \<Rightarrow> string \<Rightarrow> ('h, 'u, 'n, 'o, 't) setter" where
  "tls_client_identity_pem cert_chain_pem private_key_pem b = 
     set_client_identity (Some (Identity_Pem cert_chain_pem private_key_pem)) b"

definition clear_tls_client_identity ::
    "('h, 'u, 'n, 'o, 't) setter" where
  "clear_tls_client_identity b = set_client_identity None b"

definition allow_non_idempotent_retries ::
    "('h, 'v) header_ops \<Rightarrow> bool \<Rightarrow> ('h, 'u, 'n, 'o, 't) setter" where
  "allow_non_idempotent_retries H allow b = 
     b\<lparr> bu_retry_eligibility := (if allow then permissive_retry_eligibility else strict_retry_eligibility H) \<rparr>"

definition client_name ::
    "string \<Rightarrow> ('h, 'u, 'n, 'o, 't) setter" where
  "client_name v b = b\<lparr> bu_client_name := v \<rparr>"

definition max_in_flight ::
    "nat option \<Rightarrow> ('h, 'u, 'n, 'o, 't) setter" where
  "max_in_flight v b = b\<lparr> bu_max_in_flight := v \<rparr>"

definition max_in_flight_per_host ::
    "nat option \<Rightarrow> ('h, 'u, 'n, 'o, 't) setter" where
  "max_in_flight_per_host v b = b\<lparr> bu_max_in_flight_per_host := v \<rparr>"

definition metrics_enabled ::
    "bool \<Rightarrow> ('h, 'u, 'n, 'o, 't) setter" where
  "metrics_enabled v b = b\<lparr> bu_metrics_enabled := v \<rparr>"

definition otel_enabled ::
    "bool \<Rightarrow> ('h, 'u, 'n, 'o, 't) setter" where
  "otel_enabled v b = b\<lparr> bu_otel_enabled := v \<rparr>"

definition otel_path_normalizer ::
    "(string \<Rightarrow> string) \<Rightarrow> ('h, 'u, 'n, 'o, 't) setter" where
  "otel_path_normalizer v b = b\<lparr> bu_otel_path_normalizer := v \<rparr>"

definition builder_interceptor ::
    "'h interceptor \<Rightarrow> ('h, 'u, 'n, 'o, 't) setter" where
  "builder_interceptor f b = b\<lparr> bu_interceptors := bu_interceptors b @ [f] \<rparr>"

definition observer ::
    "'o \<Rightarrow> ('h, 'u, 'n, 'o, 't) setter" where
  "observer o1 b = b\<lparr> bu_observers := bu_observers b @ [o1] \<rparr>"

definition profile ::
    "client_profile \<Rightarrow> ('h, 'u, 'n, 'o, 't) setter" where
  "profile p b = 
     (let defaults = client_profile_defaults p
      in b\<lparr> bu_request_timeout := pd_request_timeout defaults,
           bu_total_timeout := pd_total_timeout defaults,
           bu_retry_policy := pd_retry_policy defaults,
           bu_max_response_body_bytes := pd_max_response_body_bytes defaults,
           bu_redirect_policy := pd_redirect_policy defaults,
           bu_default_status_policy := pd_status_policy defaults \<rparr>)"

subsection \<open>Validation\<close>

definition validate_concurrency_limits :: "nat option \<Rightarrow> nat option \<Rightarrow> 'h error unit_result" where
  "validate_concurrency_limits limit per_host_limit =
     (if limit = Some 0 \<or> per_host_limit = Some 0
      then Err (InvalidConcurrencyLimitConfig limit per_host_limit
        (if limit = Some 0 then ''max_in_flight must be greater than zero''
         else ''max_in_flight_per_host must be greater than zero''))
      else Ok ())"

definition validate_if_some :: "('p \<Rightarrow> 'h error unit_result) \<Rightarrow> 'p option \<Rightarrow> 'h error unit_result" where
  "validate_if_some validate policy = (case policy of None \<Rightarrow> Ok () | Some p \<Rightarrow> validate p)"

definition header_value_from_str :: "'v header_parse_ops \<Rightarrow> string \<Rightarrow> 'v option" where
  "header_value_from_str P s = (case hv_parse P s of Ok v \<Rightarrow> Some v | Err _ \<Rightarrow> None)"

definition client_builder_validate ::
    "('h, 'v, 'u, 'w, 'n, 'b) client \<Rightarrow> ('h, 'u, 'n, 'o, 't) client_builder \<Rightarrow>
     (dns_overrides \<times> ('h, 'u, 'n, 'o, 't) client_builder, 'h error) result" where
  "client_builder_validate E b =
     result_bind (validate_base_url (li_uris E) (li_urls E) (bu_base_url b)) (\<lambda>_.
     result_bind (dns_overrides_build (bu_http_proxy b \<noteq> None) (bu_dns_overrides b)) (\<lambda>overrides.
     result_bind (validate_if_some (validate_http_proxy_uri (li_uris E) (li_urls E)) (bu_http_proxy b)) (\<lambda>_.
     result_bind (validate_timeout_config (bu_request_timeout b) (bu_total_timeout b) (Some (bu_connect_timeout b))) (\<lambda>_.
     result_bind (validate_concurrency_limits (bu_max_in_flight b) (bu_max_in_flight_per_host b)) (\<lambda>_.
     result_bind (retry_policy_validate (bu_retry_policy b)) (\<lambda>_.
     result_bind (validate_if_some retry_budget_policy_validate (bu_retry_budget_policy b)) (\<lambda>_.
     result_bind (validate_if_some circuit_breaker_policy_validate (bu_circuit_breaker_policy b)) (\<lambda>_.
     result_bind (validate_if_some adaptive_concurrency_policy_validate (bu_adaptive_concurrency_policy b)) (\<lambda>_.
     result_bind (validate_if_some rate_limit_policy_validate (bu_global_rate_limit_policy b)) (\<lambda>_.
     result_bind (validate_if_some rate_limit_policy_validate (bu_per_host_rate_limit_policy b)) (\<lambda>_.
     result_bind (default_headers_with_user_agent (li_headers E) (header_value_from_str (li_header_values E))
       (bu_client_name b) (bu_default_headers b)) (\<lambda>headers.
       Ok (overrides, b\<lparr> bu_dns_overrides := [], bu_default_headers := headers \<rparr>)))))))))))))"

subsection \<open>Construction\<close>

record build_env =
  be_tls :: tls_ops
  be_features :: backend_features
  be_crate_features :: backend_features
  be_otel :: bool
  be_ureq_proxy :: "string \<Rightarrow> bool"
  be_max_permits :: nat

text \<open>
  What both builds have instead of the state of a control that is not configured: the code has none, and the
  model never reads it.
\<close>

definition no_rate_limiter :: rate_limiter where
  "no_rate_limiter = \<lparr> rl_global = None, rl_per_host_policy = None, rl_per_host = [], rl_cleanup_origin = 0,
     rl_last_cleanup_ms = 0 \<rparr>"

definition no_request_limiters :: request_limiters where
  "no_request_limiters = \<lparr> lim_global = None, lim_per_host_limit = None, lim_per_host = [],
     lim_heap = (\<lambda>_. \<lparr> sc_permits = 0, sc_strong_count = 0 \<rparr>), lim_next_address = 0 \<rparr>"

subsubsection \<open>The asynchronous client\<close>

record 'v async_transport_options =
  at_http2_only :: bool
  at_proxy_authorization :: "'v option"

definition async_transport_options_default :: "'v async_transport_options" where
  "async_transport_options_default = \<lparr> at_http2_only = False, at_proxy_authorization = None \<rparr>"

definition async_builder ::
    "('h, 'v) header_ops \<Rightarrow> 'h \<Rightarrow> clock \<Rightarrow> build_env \<Rightarrow> string \<Rightarrow>
     ('h, 'u, 'n, 'o, 'v async_transport_options) client_builder" where
  "async_builder H no_headers system_clock V base_url =
     client_builder_new H no_headers system_clock base_url async_transport_options_default
       (default_tls_backend (be_features V))"

definition http2_only :: "bool \<Rightarrow> ('h, 'u, 'n, 'o, 'v async_transport_options) setter" where
  "http2_only v b = b\<lparr> bu_transport_options := (bu_transport_options b)\<lparr> at_http2_only := v \<rparr> \<rparr>"

definition proxy_authorization ::
    "'v header_parse_ops \<Rightarrow> 'v \<Rightarrow> ('h, 'u, 'n, 'o, 'v async_transport_options) setter" where
  "proxy_authorization P v b =
     b\<lparr> bu_transport_options := (bu_transport_options b)\<lparr> at_proxy_authorization := Some (hv_set_sensitive P True v) \<rparr> \<rparr>"

definition try_proxy_authorization ::
    "'v header_parse_ops \<Rightarrow> string \<Rightarrow> ('h, 'u, 'n, 'o, 'v async_transport_options) try_setter" where
  "try_proxy_authorization P v b =
     result_bind (parse_header_value P ''proxy-authorization'' v) (\<lambda>v. Ok (proxy_authorization P v b))"

definition set_version_bounds ::
    "tls_version option \<Rightarrow> tls_version option \<Rightarrow> ('h, 'u, 'n, 'o, 't) setter" where
  "set_version_bounds lower upper b =
     b\<lparr> bu_tls_options := (bu_tls_options b)\<lparr> to_min_protocol_version := lower, to_max_protocol_version := upper \<rparr> \<rparr>"

definition builder_tls_version :: "tls_version \<Rightarrow> ('h, 'u, 'n, 'o, 'v async_transport_options) setter" where
  "builder_tls_version v b = set_version_bounds (Some v) (Some v) b"

definition tls_min_version :: "tls_version \<Rightarrow> ('h, 'u, 'n, 'o, 'v async_transport_options) setter" where
  "tls_min_version v b = set_version_bounds (Some v) (to_max_protocol_version (bu_tls_options b)) b"

definition tls_max_version :: "tls_version \<Rightarrow> ('h, 'u, 'n, 'o, 'v async_transport_options) setter" where
  "tls_max_version v b = set_version_bounds (to_min_protocol_version (bu_tls_options b)) (Some v) b"

definition clear_tls_version_bounds :: "('h, 'u, 'n, 'o, 'v async_transport_options) setter" where
  "clear_tls_version_bounds b = set_version_bounds None None b"

definition tls_client_identity_pkcs12 ::
    "string \<Rightarrow> string \<Rightarrow> ('h, 'u, 'n, 'o, 'v async_transport_options) setter" where
  "tls_client_identity_pkcs12 identity_der password b =
     set_client_identity (Some (Identity_Pkcs12 identity_der password)) b"

record ('u, 'v, 'n) proxy_connector =
  cn_connect_timeout :: duration
  cn_overrides :: dns_overrides
  cn_proxy :: "('u, 'v, 'n) proxy_config option"

definition proxy_connector_new ::
    "('u, 'v, 'n) proxy_config option \<Rightarrow> duration \<Rightarrow> dns_overrides \<Rightarrow> ('u, 'v, 'n) proxy_connector" where
  "proxy_connector_new proxy timeout overrides =
     \<lparr> cn_connect_timeout = timeout, cn_overrides = overrides, cn_proxy = proxy \<rparr>"

definition check_async_settings ::
    "('h, 'v, 'u, 'w, 'n, 'b) client \<Rightarrow> build_env \<Rightarrow> ('h, 'u, 'n, 'o, 'v async_transport_options) client_builder \<Rightarrow>
     'h error unit_result" where
  "check_async_settings E V b =
     (if is_some_and (\<lambda>uri. is_some_and (\<lambda>authority. CHR ''@'' \<in> set authority) (uri_authority (li_uris E) uri))
           (bu_http_proxy b)
      then Err (InvalidProxyConfig
        (redact_uri_for_logs (li_urls E) (uri_to_string (li_uris E) (the (bu_http_proxy b))))
        ''async http_proxy URI must not include credentials; use proxy_authorization(...) for HTTP proxy authentication'')
      else if at_proxy_authorization (bu_transport_options b) \<noteq> None \<and> bu_http_proxy b = None
      then Err ProxyAuthorizationRequiresHttpProxy
      else if is_some_and (\<lambda>limit. limit > be_max_permits V) (bu_max_in_flight b) \<or>
              is_some_and (\<lambda>limit. limit > be_max_permits V) (bu_max_in_flight_per_host b)
      then Err (InvalidConcurrencyLimitConfig (bu_max_in_flight b) (bu_max_in_flight_per_host b)
        ''concurrency limits must not exceed tokio::sync::Semaphore::MAX_PERMITS'')
      else Ok ())"

text \<open>
  What \<open>build\<close> constructs: the telemetry, the request defaults, the fields of \<open>ClientInner\<close> and the first state
  of the controls, for which the clock is read once for the retry budget and once for the rate limiter, in this
  order. The connect timeout of this client and its route through a proxy are those of its connector.
\<close>

definition async_build_otel ::
    "build_env \<Rightarrow> ('h, 'u, 'n, 'o, 't) client_builder \<Rightarrow> (otel_telemetry, 'h error) result" where
  "async_build_otel V b =
     (if bu_otel_enabled b
      then try_enabled_with_path_normalizer (be_otel V) (bu_client_name b) (bu_otel_path_normalizer b)
      else Ok otel_disabled)"

definition async_request_defaults :: "('h, 'u, 'n, 'o, 't) client_builder \<Rightarrow> request_execution_options" where
  "async_request_defaults b =
     \<lparr> op_request_timeout = bu_request_timeout b, op_total_timeout = bu_total_timeout b,
       op_retry_policy = bu_retry_policy b, op_max_response_body_bytes = bu_max_response_body_bytes b,
       op_redirect_policy = bu_redirect_policy b, op_status_policy = bu_default_status_policy b \<rparr>"

definition async_client_inner ::
    "('h, 'v, 'u, 'w, 'n, 'b) client \<Rightarrow> ('u, 'v, 'n) proxy_config option \<Rightarrow> ('u, 'v, 'n) proxy_connector \<Rightarrow>
     ('h, 'u, 'n, 'o, 't) client_builder \<Rightarrow> ('h, 'v, 'u, 'w, 'n, 'b) client" where
  "async_client_inner E proxy connector b =
     E\<lparr> en_monotonic := ck_now_monotonic (bu_clock b),
        en_system := ck_now_system (bu_clock b),
        ci_base_url := bu_base_url b,
        ci_default_headers := bu_default_headers b,
        ci_request_defaults := async_request_defaults b,
        ci_buffered_auto_accept_encoding := bu_buffered_auto_accept_encoding b,
        ci_stream_auto_accept_encoding := bu_stream_auto_accept_encoding b,
        ci_stream_deadline_slack := bu_stream_deadline_slack b,
        ci_retry_eligibility := bu_retry_eligibility b,
        ci_retry_budget := bu_retry_budget_policy b,
        ci_circuit_breaker := bu_circuit_breaker_policy b,
        ci_adaptive_concurrency := bu_adaptive_concurrency_policy b,
        ci_has_rate_limiter := (bu_global_rate_limit_policy b \<noteq> None \<or> bu_per_host_rate_limit_policy b \<noteq> None),
        ci_server_throttle_scope := bu_server_throttle_scope b,
        ci_proxy_config := proxy,
        ci_has_proxy_agent := (cn_proxy connector \<noteq> None),
        ci_connect_timeout := cn_connect_timeout connector,
        ci_endpoint_selector := bu_endpoint_selector b,
        ci_backoff_source := bu_backoff_source b,
        ci_has_request_limiters := (bu_max_in_flight b \<noteq> None \<or> bu_max_in_flight_per_host b \<noteq> None),
        ci_interceptors := bu_interceptors b \<rparr>"

definition async_initial_shared :: "nat \<Rightarrow> ('h, 'u, 'n, 'o, 't) client_builder \<Rightarrow> shared_state" where
  "async_initial_shared t b =
     (let now = ck_now_monotonic (bu_clock b);
          t' = (if bu_retry_budget_policy b = None then t else Suc t)
      in \<lparr> sh_retry_budget = retry_budget_new (now t),
           sh_circuit_breaker = circuit_breaker_new,
           sh_adaptive_concurrency =
             adaptive_new (unwrap_or adaptive_concurrency_policy_standard (bu_adaptive_concurrency_policy b)),
           sh_rate_limiter = unwrap_or no_rate_limiter
             (rate_limiter_new (bu_global_rate_limit_policy b) (bu_per_host_rate_limit_policy b) (now t')),
           sh_request_limiters = unwrap_or no_request_limiters
             (request_limiters_new (bu_max_in_flight b) (bu_max_in_flight_per_host b)),
           sh_metrics = client_metrics_with_options (bu_metrics_enabled b) \<rparr>)"

definition async_build ::
    "('h, 'v, 'u, 'w, 'n, 'b) async_client \<Rightarrow> build_env \<Rightarrow> nat \<Rightarrow>
     ('h, 'u, 'n, 'o, 'v async_transport_options) client_builder \<Rightarrow>
     (('h, 'v, 'u, 'w, 'n, 'b) async_client \<times> shared_state \<times> otel_telemetry \<times> transport_config \<times>
      ('u, 'v, 'n) proxy_connector, 'h error) result" where
  "async_build A V t b =
     result_bind (client_builder_validate (ak_client A) b) (\<lambda>(overrides, b).
     result_bind (check_async_settings (ak_client A) V b) (\<lambda>_.
     result_bind (async_build_otel V b) (\<lambda>otel.
       let proxy = map_option (\<lambda>uri. \<lparr> pc_uri = uri,
             pc_authorization = at_proxy_authorization (bu_transport_options b),
             pc_no_proxy_rules = bu_no_proxy_rules b \<rparr>) (bu_http_proxy b);
           connector = proxy_connector_new proxy (bu_connect_timeout b) overrides
       in result_bind (build_transport_client (be_features V) (be_crate_features V) (be_tls V) (bu_tls_backend b)
            (bu_tls_options b) (bu_pool_idle_timeout b) (bu_pool_max_idle_per_host b)
            (at_http2_only (bu_transport_options b))) (\<lambda>transport.
          Ok (A\<lparr> ak_client := async_client_inner (ak_client A) proxy connector b \<rparr>, async_initial_shared t b, otel,
              transport, connector)))))"

subsubsection \<open>The blocking client\<close>

record blocking_transport_options =
  bt_pool_max_idle_connections :: nat

definition blocking_transport_options_default :: blocking_transport_options where
  "blocking_transport_options_default = \<lparr> bt_pool_max_idle_connections = 16 \<rparr>"

definition blocking_builder ::
    "('h, 'v) header_ops \<Rightarrow> 'h \<Rightarrow> clock \<Rightarrow> build_env \<Rightarrow> string \<Rightarrow>
     ('h, 'u, 'n, 'o, blocking_transport_options) client_builder" where
  "blocking_builder H no_headers system_clock V base_url =
     client_builder_new H no_headers system_clock base_url blocking_transport_options_default
       (default_tls_backend (be_features V))"

definition pool_max_idle_connections :: "nat \<Rightarrow> ('h, 'u, 'n, 'o, blocking_transport_options) setter" where
  "pool_max_idle_connections v b = b\<lparr> bu_transport_options := \<lparr> bt_pool_max_idle_connections = v \<rparr> \<rparr>"

record agent_config =
  ag_http_status_as_error :: bool
  ag_max_redirects :: nat
  ag_max_redirects_will_error :: bool
  ag_user_agent :: string
  ag_max_idle_age :: duration
  ag_max_idle_connections_per_host :: nat
  ag_max_idle_connections :: nat
  ag_tls_config :: sync_tls_config
  ag_proxy :: "string option"

definition make_agent_configs ::
    "('h, 'v, 'u, 'w, 'n, 'b) client \<Rightarrow> build_env \<Rightarrow> tls_backend \<Rightarrow> tls_options \<Rightarrow> string \<Rightarrow> duration \<Rightarrow> nat \<Rightarrow> nat \<Rightarrow>
     'u option \<Rightarrow> (agent_config \<times> agent_config option, 'h error) result" where
  "make_agent_configs E V backend opts name idle_timeout max_idle_per_host max_idle proxy_uri =
     result_bind (build_sync_tls_config (be_features V) (be_crate_features V) (be_tls V) backend opts) (\<lambda>tls_config.
       let make_config = (\<lambda>proxy. \<lparr> ag_http_status_as_error = False, ag_max_redirects = 0,
             ag_max_redirects_will_error = False, ag_user_agent = name, ag_max_idle_age = idle_timeout,
             ag_max_idle_connections_per_host = max_idle_per_host, ag_max_idle_connections = max_idle,
             ag_tls_config = tls_config, ag_proxy = proxy \<rparr>)
       in case proxy_uri of
            None \<Rightarrow> Ok (make_config None, None)
          | Some uri \<Rightarrow>
              (let uri_text = uri_to_string (li_uris E) uri
               in if be_ureq_proxy V uri_text then Ok (make_config None, Some (make_config (Some uri_text)))
                  else Err (InvalidProxyConfig (redact_uri_for_logs (li_urls E) uri_text)
                    ''failed to initialize blocking proxy from http_proxy URI'')))"

record transport_agents =
  ta_direct :: agent_config
  ta_overrides :: dns_overrides
  ta_proxy :: "agent_config option"

text \<open>
  What \<open>build\<close> of the blocking client constructs: its own telemetry, request defaults, fields of \<open>ClientInner\<close>
  and first state of the controls. The connect timeout is a field of this \<open>ClientInner\<close>, and the proxy has an
  agent of its own.
\<close>

definition blocking_build_otel ::
    "build_env \<Rightarrow> ('h, 'u, 'n, 'o, 't) client_builder \<Rightarrow> (otel_telemetry, 'h error) result" where
  "blocking_build_otel V b =
     (if bu_otel_enabled b
      then try_enabled_with_path_normalizer (be_otel V) (bu_client_name b) (bu_otel_path_normalizer b)
      else Ok otel_disabled)"

definition blocking_request_defaults :: "('h, 'u, 'n, 'o, 't) client_builder \<Rightarrow> request_execution_options" where
  "blocking_request_defaults b =
     \<lparr> op_request_timeout = bu_request_timeout b, op_total_timeout = bu_total_timeout b,
       op_retry_policy = bu_retry_policy b, op_max_response_body_bytes = bu_max_response_body_bytes b,
       op_redirect_policy = bu_redirect_policy b, op_status_policy = bu_default_status_policy b \<rparr>"

definition blocking_client_inner ::
    "('h, 'v, 'u, 'w, 'n, 'b) client \<Rightarrow> ('u, 'v, 'n) proxy_config option \<Rightarrow> transport_agents \<Rightarrow>
     ('h, 'u, 'n, 'o, 't) client_builder \<Rightarrow> ('h, 'v, 'u, 'w, 'n, 'b) client" where
  "blocking_client_inner E proxy agents b =
     E\<lparr> en_monotonic := ck_now_monotonic (bu_clock b),
        en_system := ck_now_system (bu_clock b),
        ci_base_url := bu_base_url b,
        ci_default_headers := bu_default_headers b,
        ci_request_defaults := blocking_request_defaults b,
        ci_buffered_auto_accept_encoding := bu_buffered_auto_accept_encoding b,
        ci_stream_auto_accept_encoding := bu_stream_auto_accept_encoding b,
        ci_stream_deadline_slack := bu_stream_deadline_slack b,
        ci_retry_eligibility := bu_retry_eligibility b,
        ci_retry_budget := bu_retry_budget_policy b,
        ci_circuit_breaker := bu_circuit_breaker_policy b,
        ci_adaptive_concurrency := bu_adaptive_concurrency_policy b,
        ci_has_rate_limiter := (bu_global_rate_limit_policy b \<noteq> None \<or> bu_per_host_rate_limit_policy b \<noteq> None),
        ci_server_throttle_scope := bu_server_throttle_scope b,
        ci_has_proxy_agent := (ta_proxy agents \<noteq> None),
        ci_proxy_config := proxy,
        ci_endpoint_selector := bu_endpoint_selector b,
        ci_backoff_source := bu_backoff_source b,
        ci_connect_timeout := bu_connect_timeout b,
        ci_has_request_limiters := (bu_max_in_flight b \<noteq> None \<or> bu_max_in_flight_per_host b \<noteq> None),
        ci_interceptors := bu_interceptors b \<rparr>"

definition blocking_initial_shared :: "nat \<Rightarrow> ('h, 'u, 'n, 'o, 't) client_builder \<Rightarrow> shared_state" where
  "blocking_initial_shared t b =
     (let now = ck_now_monotonic (bu_clock b);
          t' = (if bu_retry_budget_policy b = None then t else Suc t)
      in \<lparr> sh_retry_budget = retry_budget_new (now t),
           sh_circuit_breaker = circuit_breaker_new,
           sh_adaptive_concurrency =
             adaptive_new (unwrap_or adaptive_concurrency_policy_standard (bu_adaptive_concurrency_policy b)),
           sh_rate_limiter = unwrap_or no_rate_limiter
             (rate_limiter_new (bu_global_rate_limit_policy b) (bu_per_host_rate_limit_policy b) (now t')),
           sh_request_limiters = unwrap_or no_request_limiters
             (request_limiters_new (bu_max_in_flight b) (bu_max_in_flight_per_host b)),
           sh_metrics = client_metrics_with_options (bu_metrics_enabled b) \<rparr>)"

definition blocking_build ::
    "('h, 'v, 'u, 'w, 'n, 'b) client \<Rightarrow> build_env \<Rightarrow> nat \<Rightarrow>
     ('h, 'u, 'n, 'o, blocking_transport_options) client_builder \<Rightarrow>
     (('h, 'v, 'u, 'w, 'n, 'b) client \<times> shared_state \<times> otel_telemetry \<times> transport_agents, 'h error) result" where
  "blocking_build E V t b =
     result_bind (client_builder_validate E b) (\<lambda>(overrides, b).
     result_bind (blocking_build_otel V b) (\<lambda>otel.
       let proxy = map_option (\<lambda>uri. \<lparr> pc_uri = uri, pc_authorization = None,
             pc_no_proxy_rules = bu_no_proxy_rules b \<rparr>) (bu_http_proxy b)
       in result_bind (make_agent_configs E V (bu_tls_backend b) (bu_tls_options b) (bu_client_name b)
            (bu_pool_idle_timeout b) (bu_pool_max_idle_per_host b)
            (bt_pool_max_idle_connections (bu_transport_options b)) (map_option pc_uri proxy)) (\<lambda>(direct, proxied).
          let agents = \<lparr> ta_direct = direct, ta_overrides = overrides, ta_proxy = proxied \<rparr>
          in Ok (blocking_client_inner E proxy agents b, blocking_initial_shared t b, otel, agents))))"

end
