(* ===== verification/Reqx_Configure.thy ===== *)
theory Reqx_Configure
  imports Reqx_Builder
begin

text \<open>
  Configurations: a configuration is the sequence of the calls of the setters of \<open>Reqx_Builder\<close>. The theory
  has what all of them keep, and shows that the shared setters do not depend on the transport.
\<close>

subsection \<open>Configurations\<close>

datatype (dead 'h, dead 'v, dead 'u, dead 'o) setting =
    Set_RequestTimeout duration
  | Set_TotalTimeout "duration option"
  | Set_StreamDeadlineSlack duration
  | Set_MaxResponseBodyBytes nat
  | Set_ConnectTimeout duration
  | Set_PoolIdleTimeout duration
  | Set_PoolMaxIdlePerHost nat
  | Set_HttpProxy 'u
  | Set_AutoAcceptEncoding bool
  | Set_BufferedAutoAcceptEncoding bool
  | Set_StreamAutoAcceptEncoding bool
  | Set_RetryPolicy retry_policy
  | Set_RetryEligibility "'h retry_eligibility"
  | Set_RetryBudgetPolicy "retry_budget_policy option"
  | Set_CircuitBreakerPolicy "circuit_breaker_policy option"
  | Set_AdaptiveConcurrencyPolicy "adaptive_concurrency_policy option"
  | Set_GlobalRateLimitPolicy "rate_limit_policy option"
  | Set_PerHostRateLimitPolicy "rate_limit_policy option"
  | Set_ServerThrottleScope server_throttle_scope
  | Set_RedirectPolicy redirect_policy
  | Set_DefaultStatusPolicy status_policy
  | Set_TlsBackend tls_backend
  | Set_EndpointSelector "'h endpoint_selector option"
  | Set_ControlClock clock
  | Set_BackoffSource "backoff_source option"
  | Set_TlsRootStore tls_root_store
  | Set_TlsRootCaPem string
  | Set_TlsRootCaDer string
  | Set_ClientName string
  | Set_MaxInFlight "nat option"
  | Set_MaxInFlightPerHost "nat option"
  | Set_MetricsEnabled bool
  | Set_OtelEnabled bool
  | Set_OtelPathNormalizer "string \<Rightarrow> string"
  | Set_Interceptor "'h interceptor"
  | Set_Observer 'o
  | Set_Profile client_profile
  | Set_ClearTlsRootCas
  | Set_TlsClientIdentityPem string string
  | Set_ClearTlsClientIdentity
  | Set_AllowNonIdempotentRetries bool
  | Set_DefaultHeader string 'v
  | Set_TryDefaultHeader string string
  | Set_ResolveToAddrs string "socket_addr list"
  | Set_Resolve string socket_addr
  | Set_NoProxy "string list"
  | Set_AddNoProxy string

text \<open>The setters that cannot fail, and then all of them. \<open>host_parse\<close> is \<open>url::Host::parse\<close>.\<close>

fun apply_plain ::
    "('h, 'v, 'u, 'w, 'n, 'b) client \<Rightarrow> ('h, 'v, 'u, 'o) setting \<Rightarrow> ('h, 'u, 'n, 'o, 't) setter option" where
  "apply_plain E (Set_RequestTimeout v) = Some (request_timeout v)"
| "apply_plain E (Set_TotalTimeout v) = Some (total_timeout v)"
| "apply_plain E (Set_StreamDeadlineSlack v) = Some (stream_deadline_slack v)"
| "apply_plain E (Set_MaxResponseBodyBytes v) = Some (max_response_body_bytes v)"
| "apply_plain E (Set_ConnectTimeout v) = Some (connect_timeout v)"
| "apply_plain E (Set_PoolIdleTimeout v) = Some (pool_idle_timeout v)"
| "apply_plain E (Set_PoolMaxIdlePerHost v) = Some (pool_max_idle_per_host v)"
| "apply_plain E (Set_HttpProxy v) = Some (http_proxy v)"
| "apply_plain E (Set_AutoAcceptEncoding v) = Some (auto_accept_encoding v)"
| "apply_plain E (Set_BufferedAutoAcceptEncoding v) = Some (buffered_auto_accept_encoding v)"
| "apply_plain E (Set_StreamAutoAcceptEncoding v) = Some (stream_auto_accept_encoding v)"
| "apply_plain E (Set_RetryPolicy v) = Some (builder_retry_policy v)"
| "apply_plain E (Set_RetryEligibility v) = Some (builder_retry_eligibility v)"
| "apply_plain E (Set_RetryBudgetPolicy v) = Some (builder_retry_budget_policy v)"
| "apply_plain E (Set_CircuitBreakerPolicy v) = Some (builder_circuit_breaker_policy v)"
| "apply_plain E (Set_AdaptiveConcurrencyPolicy v) = Some (builder_adaptive_concurrency_policy v)"
| "apply_plain E (Set_GlobalRateLimitPolicy v) = Some (global_rate_limit_policy v)"
| "apply_plain E (Set_PerHostRateLimitPolicy v) = Some (per_host_rate_limit_policy v)"
| "apply_plain E (Set_ServerThrottleScope v) = Some (builder_server_throttle_scope v)"
| "apply_plain E (Set_RedirectPolicy v) = Some (builder_redirect_policy v)"
| "apply_plain E (Set_DefaultStatusPolicy v) = Some (default_status_policy v)"
| "apply_plain E (Set_TlsBackend v) = Some (builder_tls_backend v)"
| "apply_plain E (Set_EndpointSelector v) = Some (builder_endpoint_selector v)"
| "apply_plain E (Set_ControlClock v) = Some (control_clock v)"
| "apply_plain E (Set_BackoffSource v) = Some (builder_backoff_source v)"
| "apply_plain E (Set_TlsRootStore v) = Some (builder_tls_root_store v)"
| "apply_plain E (Set_TlsRootCaPem v) = Some (tls_root_ca_pem v)"
| "apply_plain E (Set_TlsRootCaDer v) = Some (tls_root_ca_der v)"
| "apply_plain E (Set_ClientName v) = Some (client_name v)"
| "apply_plain E (Set_MaxInFlight v) = Some (max_in_flight v)"
| "apply_plain E (Set_MaxInFlightPerHost v) = Some (max_in_flight_per_host v)"
| "apply_plain E (Set_MetricsEnabled v) = Some (metrics_enabled v)"
| "apply_plain E (Set_OtelEnabled v) = Some (otel_enabled v)"
| "apply_plain E (Set_OtelPathNormalizer v) = Some (otel_path_normalizer v)"
| "apply_plain E (Set_Interceptor v) = Some (builder_interceptor v)"
| "apply_plain E (Set_Observer v) = Some (observer v)"
| "apply_plain E (Set_Profile v) = Some (profile v)"
| "apply_plain E Set_ClearTlsRootCas = Some clear_tls_root_cas"
| "apply_plain E (Set_TlsClientIdentityPem chain key) = Some (tls_client_identity_pem chain key)"
| "apply_plain E Set_ClearTlsClientIdentity = Some clear_tls_client_identity"
| "apply_plain E (Set_AllowNonIdempotentRetries v) = Some (allow_non_idempotent_retries (li_headers E) v)"
| "apply_plain E (Set_DefaultHeader name v) = Some (default_header (li_headers E) (li_header_values E) name v)"
| "apply_plain E _ = None"

definition apply_setting ::
    "('h, 'v, 'u, 'w, 'n, 'b) client \<Rightarrow> (string \<Rightarrow> url_host option) \<Rightarrow> ('h, 'v, 'u, 'o) setting \<Rightarrow>
     ('h, 'u, 'n, 'o, 't) try_setter" where
  "apply_setting E host_parse c b =
     (case apply_plain E c of
        Some f \<Rightarrow> Ok (f b)
      | None \<Rightarrow>
          (case c of
             Set_TryDefaultHeader name v \<Rightarrow> try_default_header (li_headers E) (li_header_values E) name v b
           | Set_ResolveToAddrs domain addresses \<Rightarrow> resolve_to_addrs host_parse domain addresses b
           | Set_Resolve domain address \<Rightarrow> resolve host_parse domain address b
           | Set_NoProxy rules \<Rightarrow> no_proxy (li_urls E) (li_proxies E) rules b
           | Set_AddNoProxy rule \<Rightarrow> add_no_proxy (li_urls E) (li_proxies E) rule b
           | _ \<Rightarrow> Ok b))"

fun configure ::
    "('h, 'v, 'u, 'w, 'n, 'b) client \<Rightarrow> (string \<Rightarrow> url_host option) \<Rightarrow> ('h, 'v, 'u, 'o) setting list \<Rightarrow>
     ('h, 'u, 'n, 'o, 't) try_setter" where
  "configure E host_parse [] b = Ok b"
| "configure E host_parse (c # cs) b = result_bind (apply_setting E host_parse c b) (configure E host_parse cs)"

text \<open>The setters that only one of the transports has.\<close>

datatype (dead 'h, dead 'v, dead 'u, dead 'o) async_setting =
    Async_Shared "('h, 'v, 'u, 'o) setting"
  | Set_Http2Only bool
  | Set_ProxyAuthorization 'v
  | Set_TryProxyAuthorization string
  | Set_TlsVersion tls_version
  | Set_TlsMinVersion tls_version
  | Set_TlsMaxVersion tls_version
  | Set_ClearTlsVersionBounds
  | Set_TlsClientIdentityPkcs12 string string

fun async_apply ::
    "('h, 'v, 'u, 'w, 'n, 'b) client \<Rightarrow> (string \<Rightarrow> url_host option) \<Rightarrow> ('h, 'v, 'u, 'o) async_setting \<Rightarrow>
     ('h, 'u, 'n, 'o, 'v async_transport_options) try_setter" where
  "async_apply E host_parse (Async_Shared c) b = apply_setting E host_parse c b"
| "async_apply E host_parse (Set_Http2Only v) b = Ok (http2_only v b)"
| "async_apply E host_parse (Set_ProxyAuthorization v) b = Ok (proxy_authorization (li_header_values E) v b)"
| "async_apply E host_parse (Set_TryProxyAuthorization v) b = try_proxy_authorization (li_header_values E) v b"
| "async_apply E host_parse (Set_TlsVersion v) b = Ok (builder_tls_version v b)"
| "async_apply E host_parse (Set_TlsMinVersion v) b = Ok (tls_min_version v b)"
| "async_apply E host_parse (Set_TlsMaxVersion v) b = Ok (tls_max_version v b)"
| "async_apply E host_parse Set_ClearTlsVersionBounds b = Ok (clear_tls_version_bounds b)"
| "async_apply E host_parse (Set_TlsClientIdentityPkcs12 der password) b = Ok (tls_client_identity_pkcs12 der password b)"

fun async_configure ::
    "('h, 'v, 'u, 'w, 'n, 'b) client \<Rightarrow> (string \<Rightarrow> url_host option) \<Rightarrow> ('h, 'v, 'u, 'o) async_setting list \<Rightarrow>
     ('h, 'u, 'n, 'o, 'v async_transport_options) try_setter" where
  "async_configure E host_parse [] b = Ok b"
| "async_configure E host_parse (c # cs) b = result_bind (async_apply E host_parse c b) (async_configure E host_parse cs)"

datatype (dead 'h, dead 'v, dead 'u, dead 'o) blocking_setting =
    Blocking_Shared "('h, 'v, 'u, 'o) setting"
  | Set_PoolMaxIdleConnections nat

fun blocking_apply ::
    "('h, 'v, 'u, 'w, 'n, 'b) client \<Rightarrow> (string \<Rightarrow> url_host option) \<Rightarrow> ('h, 'v, 'u, 'o) blocking_setting \<Rightarrow>
     ('h, 'u, 'n, 'o, blocking_transport_options) try_setter" where
  "blocking_apply E host_parse (Blocking_Shared c) b = apply_setting E host_parse c b"
| "blocking_apply E host_parse (Set_PoolMaxIdleConnections v) b = Ok (pool_max_idle_connections v b)"

fun blocking_configure ::
    "('h, 'v, 'u, 'w, 'n, 'b) client \<Rightarrow> (string \<Rightarrow> url_host option) \<Rightarrow> ('h, 'v, 'u, 'o) blocking_setting list \<Rightarrow>
     ('h, 'u, 'n, 'o, blocking_transport_options) try_setter" where
  "blocking_configure E host_parse [] b = Ok b"
| "blocking_configure E host_parse (c # cs) b =
     result_bind (blocking_apply E host_parse c b) (blocking_configure E host_parse cs)"

lemmas setter_defs =
  request_timeout_def total_timeout_def stream_deadline_slack_def max_response_body_bytes_def
  connect_timeout_def pool_idle_timeout_def pool_max_idle_per_host_def http_proxy_def
  auto_accept_encoding_def buffered_auto_accept_encoding_def stream_auto_accept_encoding_def
  builder_retry_policy_def builder_retry_eligibility_def builder_retry_budget_policy_def builder_circuit_breaker_policy_def
  builder_adaptive_concurrency_policy_def global_rate_limit_policy_def per_host_rate_limit_policy_def
  builder_server_throttle_scope_def builder_redirect_policy_def default_status_policy_def builder_tls_backend_def
  builder_endpoint_selector_def control_clock_def builder_backoff_source_def builder_tls_root_store_def tls_root_ca_pem_def
  tls_root_ca_der_def client_name_def max_in_flight_def max_in_flight_per_host_def metrics_enabled_def
  otel_enabled_def otel_path_normalizer_def builder_interceptor_def observer_def profile_def
  clear_tls_root_cas_def tls_client_identity_pem_def clear_tls_client_identity_def
  allow_non_idempotent_retries_def default_header_def add_root_certificate_def set_client_identity_def

subsection \<open>One configuration for both transports\<close>

definition with_transport ::
    "'s \<Rightarrow> ('h, 'u, 'n, 'o, 't) client_builder \<Rightarrow> ('h, 'u, 'n, 'o, 's) client_builder" where
  "with_transport t b =
     \<lparr> bu_base_url = bu_base_url b, bu_default_headers = bu_default_headers b,
       bu_buffered_auto_accept_encoding = bu_buffered_auto_accept_encoding b,
       bu_stream_auto_accept_encoding = bu_stream_auto_accept_encoding b, bu_request_timeout =
       bu_request_timeout b, bu_total_timeout = bu_total_timeout b, bu_stream_deadline_slack =
       bu_stream_deadline_slack b, bu_max_response_body_bytes = bu_max_response_body_bytes b,
       bu_connect_timeout = bu_connect_timeout b, bu_pool_idle_timeout = bu_pool_idle_timeout b,
       bu_pool_max_idle_per_host = bu_pool_max_idle_per_host b, bu_http_proxy = bu_http_proxy b,
       bu_dns_overrides = bu_dns_overrides b, bu_no_proxy_rules = bu_no_proxy_rules b, bu_retry_policy =
       bu_retry_policy b, bu_retry_eligibility = bu_retry_eligibility b, bu_retry_budget_policy =
       bu_retry_budget_policy b, bu_circuit_breaker_policy = bu_circuit_breaker_policy b,
       bu_adaptive_concurrency_policy = bu_adaptive_concurrency_policy b, bu_global_rate_limit_policy =
       bu_global_rate_limit_policy b, bu_per_host_rate_limit_policy = bu_per_host_rate_limit_policy b,
       bu_server_throttle_scope = bu_server_throttle_scope b, bu_redirect_policy = bu_redirect_policy b,
       bu_default_status_policy = bu_default_status_policy b, bu_tls_backend = bu_tls_backend b,
       bu_tls_options = bu_tls_options b, bu_endpoint_selector = bu_endpoint_selector b, bu_clock =
       bu_clock b, bu_backoff_source = bu_backoff_source b, bu_client_name = bu_client_name b,
       bu_max_in_flight = bu_max_in_flight b, bu_max_in_flight_per_host = bu_max_in_flight_per_host b,
       bu_metrics_enabled = bu_metrics_enabled b, bu_otel_enabled = bu_otel_enabled b,
       bu_otel_path_normalizer = bu_otel_path_normalizer b, bu_interceptors = bu_interceptors b,
       bu_observers = bu_observers b,
       bu_transport_options = t \<rparr>"

lemma result_bind_assoc: "result_bind (result_bind r f) g = result_bind r (\<lambda>v. result_bind (f v) g)"
  by (cases r) simp_all

lemma apply_setting_transport:
  "apply_setting E host_parse c (with_transport t b) =
     result_bind (apply_setting E host_parse c b) (\<lambda>b'. Ok (with_transport t b'))"
  by (cases c) (simp_all add: apply_setting_def setter_defs try_default_header_def resolve_def resolve_to_addrs_def
      no_proxy_def add_no_proxy_def with_transport_def Let_def result_bind_assoc)

lemma configure_transport:
  "configure E host_parse cs (with_transport t b) =
     result_bind (configure E host_parse cs b) (\<lambda>b'. Ok (with_transport t b'))"
proof (induction cs arbitrary: b)
  case (Cons c cs)
  show ?case
    by (cases "apply_setting E host_parse c b") (simp_all add: apply_setting_transport Cons.IH)
qed simp

lemma client_builder_new_transport:
  "client_builder_new H no_headers clk base_url t backend =
     with_transport t (client_builder_new H no_headers clk base_url u backend)"
  by (simp add: client_builder_new_def with_transport_def Let_def)

subsection \<open>What every configuration keeps\<close>

definition builder_laws :: "('h, 'v, 'u, 'w, 'n, 'b) client \<Rightarrow> 'h \<Rightarrow> bool" where
  "builder_laws E no_headers \<longleftrightarrow>
     header_map_laws (li_headers E) \<and> (\<forall>k. hm_get_all (li_headers E) no_headers k = []) \<and>
     (\<forall>v. hv_is_sensitive (li_headers E) (hv_set_sensitive (li_header_values E) True v))"

definition headers_marked :: "('h, 'v) header_ops \<Rightarrow> 'h \<Rightarrow> bool" where
  "headers_marked H h \<longleftrightarrow> (\<forall>k. is_sensitive_header_name k \<longrightarrow> list_all (hv_is_sensitive H) (hm_get_all H h k))"

definition overrides_ok :: "(string \<Rightarrow> url_host option) \<Rightarrow> dns_overrides \<Rightarrow> bool" where
  "overrides_ok host_parse entries \<longleftrightarrow> bt_wf entries \<and>
     (\<forall>k addresses. bt_get entries k = Some addresses \<longrightarrow>
        k \<in> ran (normalize_domain host_parse) \<and> distinct addresses \<and> 1 \<le> length addresses \<and> length addresses \<le> 16)"

lemma overrides_ok_insert:
  assumes "overrides_ok host_parse entries" "dns_overrides_insert host_parse domain addresses entries = Ok entries'"
  shows "overrides_ok host_parse entries'"
proof -
  obtain k where k: "normalize_domain host_parse domain = Some k" "entries' = bt_insert k (unique_addresses addresses) entries"
    and len: "addresses \<noteq> []" "length addresses \<le> 16"
    using assms(2) by (auto simp: dns_overrides_insert_def max_addresses_def not_less split: option.splits if_splits)
  have "unique_addresses addresses \<noteq> []" using len(1) unique_addresses(2) [of addresses] by (cases addresses) auto
  then have "distinct (unique_addresses addresses) \<and> 1 \<le> length (unique_addresses addresses) \<and>
      length (unique_addresses addresses) \<le> 16"
    using unique_addresses [of addresses] len(2) by (simp add: Suc_le_eq)
  then show ?thesis
    using assms(1) k by (auto simp: overrides_ok_def bt_get_insert ran_def)
qed

lemma headers_marked_insert:
  assumes "builder_laws E no_headers" "headers_marked (li_headers E) h"
  shows "headers_marked (li_headers E) (hm_insert (li_headers E) name (mark_sensitive_header_value (li_header_values E) name v) h)"
  using assms by (simp add: headers_marked_def builder_laws_def hm_get_all_insert mark_sensitive_header_value_def)

lemma apply_setting_frame:
  fixes E :: "('h, 'v, 'u, 'w, 'n, 'b) client"
  assumes "apply_setting E host_parse c b = Ok b'"
  shows "bu_default_headers b' = bu_default_headers b \<or> (\<exists>name v. bu_default_headers b' =
      hm_insert (li_headers E) name (mark_sensitive_header_value (li_header_values E) name v) (bu_default_headers b))"
    and "bu_dns_overrides b' = bu_dns_overrides b \<or>
      (\<exists>domain addresses. dns_overrides_insert host_parse domain addresses (bu_dns_overrides b) =
         (Ok (bu_dns_overrides b') :: (dns_overrides, 'h error) result))"
    and "bu_transport_options b' = bu_transport_options b"
  using assms
  by (cases c; force simp: apply_setting_def setter_defs try_default_header_def resolve_def resolve_to_addrs_def
      no_proxy_def add_no_proxy_def Let_def result_bind_Ok_iff)+

lemma configure_frame: "configure E host_parse cs b = Ok b' \<Longrightarrow> bu_transport_options b' = bu_transport_options b"
proof (induction cs arbitrary: b)
  case (Cons c cs)
  then obtain b1 where "apply_setting E host_parse c b = Ok b1" "configure E host_parse cs b1 = Ok b'"
    by (auto simp: result_bind_Ok_iff)
  then show ?case using Cons.IH [of b1] apply_setting_frame(3) [of E host_parse c b b1] by simp
qed simp

definition builder_inv ::
    "('h, 'v, 'u, 'w, 'n, 'b) client \<Rightarrow> (string \<Rightarrow> url_host option) \<Rightarrow> ('h, 'u, 'n, 'o, 't) client_builder \<Rightarrow> bool" where
  "builder_inv E host_parse b \<longleftrightarrow>
     headers_marked (li_headers E) (bu_default_headers b) \<and> overrides_ok host_parse (bu_dns_overrides b)"

lemma apply_setting_inv:
  assumes "builder_laws E no_headers" "builder_inv E host_parse b" "apply_setting E host_parse c b = Ok b'"
  shows "builder_inv E host_parse b'"
proof -
  have "headers_marked (li_headers E) (bu_default_headers b')"
    using apply_setting_frame(1) [OF assms(3)] assms(2) headers_marked_insert [OF assms(1)]
    by (auto simp: builder_inv_def)
  moreover have "overrides_ok host_parse (bu_dns_overrides b')"
    using apply_setting_frame(2) [OF assms(3)] assms(2) overrides_ok_insert unfolding builder_inv_def by metis
  ultimately show ?thesis by (simp add: builder_inv_def)
qed

lemma blocking_configure_inv:
  assumes "builder_laws E no_headers" "builder_inv E host_parse b" "blocking_configure E host_parse cs b = Ok b'"
  shows "builder_inv E host_parse b'"
  using assms(2,3)
proof (induction cs arbitrary: b)
  case (Cons c cs)
  then obtain b1 where b1: "blocking_apply E host_parse c b = Ok b1" "blocking_configure E host_parse cs b1 = Ok b'"
    by (auto simp: result_bind_Ok_iff)
  have "builder_inv E host_parse b1"
  proof (cases c)
    case (Blocking_Shared d)
    then show ?thesis using b1(1) Cons.prems(1) apply_setting_inv [OF assms(1), of host_parse b d b1] by simp
  qed (use b1(1) Cons.prems(1) in \<open>auto simp: pool_max_idle_connections_def builder_inv_def\<close>)
  then show ?case using Cons.IH b1(2) by blast
qed simp

definition authorization_marked ::
    "('h, 'v, 'u, 'w, 'n, 'b) client \<Rightarrow> ('h, 'u, 'n, 'o, 'v async_transport_options) client_builder \<Rightarrow> bool" where
  "authorization_marked E b \<longleftrightarrow>
     is_none_or (hv_is_sensitive (li_headers E)) (at_proxy_authorization (bu_transport_options b))"

lemma async_configure_inv:
  assumes "builder_laws E no_headers" "builder_inv E host_parse b \<and> authorization_marked E b"
    and "async_configure E host_parse cs b = Ok b'"
  shows "builder_inv E host_parse b' \<and> authorization_marked E b'"
  using assms(2,3)
proof (induction cs arbitrary: b)
  case (Cons c cs)
  then obtain b1 where b1: "async_apply E host_parse c b = Ok b1" "async_configure E host_parse cs b1 = Ok b'"
    by (auto simp: result_bind_Ok_iff)
  have "builder_inv E host_parse b1 \<and> authorization_marked E b1"
  proof (cases c)
    case (Async_Shared d)
    then have d: "apply_setting E host_parse d b = Ok b1" using b1(1) by simp
    have "builder_inv E host_parse b1" using apply_setting_inv [OF assms(1) _ d] Cons.prems(1) by blast
    then show ?thesis using Cons.prems(1) apply_setting_frame(3) [OF d] by (simp add: authorization_marked_def)
  qed (use b1(1) Cons.prems(1) assms(1) in \<open>auto simp: http2_only_def proxy_authorization_def try_proxy_authorization_def
      builder_tls_version_def tls_min_version_def tls_max_version_def clear_tls_version_bounds_def set_version_bounds_def
      tls_client_identity_pkcs12_def set_client_identity_def builder_inv_def authorization_marked_def builder_laws_def
      result_bind_Ok_iff\<close>)
  then show ?case using Cons.IH b1(2) by blast
qed simp

lemma client_builder_new_inv:
  "builder_laws E no_headers \<Longrightarrow>
     builder_inv E host_parse (client_builder_new (li_headers E) no_headers clk base_url t backend)"
  by (simp add: builder_inv_def builder_laws_def client_builder_new_def headers_marked_def overrides_ok_def Let_def
      bt_wf_Nil bt.get_empty)

end
