(* ===== verification/Reqx_BuilderProperties.thy ===== *)
theory Reqx_BuilderProperties
  imports Reqx_Configure
begin

text \<open>
  What a built client is: the validation accepts exactly the configurations that a client needs, a built
  client satisfies what the theorems on requests assume of one, and both clients take the same
  configuration alike.
\<close>

subsection \<open>Validation\<close>

definition builder_valid ::
    "('h, 'v, 'u, 'w, 'n, 'b) client \<Rightarrow> ('h, 'u, 'n, 'o, 't) client_builder \<Rightarrow> bool" where
  "builder_valid E b \<longleftrightarrow>
     validate_base_url (li_uris E) (li_urls E) (bu_base_url b) = (Ok () :: 'h error unit_result) \<and>
     (bu_http_proxy b = None \<or> bu_dns_overrides b = []) \<and>
     is_none_or (\<lambda>uri. validate_http_proxy_uri (li_uris E) (li_urls E) uri = (Ok () :: 'h error unit_result)) (bu_http_proxy b) \<and>
     0 < bu_request_timeout b \<and> bu_total_timeout b \<noteq> Some 0 \<and> 0 < bu_connect_timeout b \<and>
     bu_max_in_flight b \<noteq> Some 0 \<and> bu_max_in_flight_per_host b \<noteq> Some 0 \<and>
     retry_policy_valid (bu_retry_policy b) \<and>
     is_none_or (\<lambda>p. retry_budget_policy_validate p = (Ok () :: 'h error unit_result)) (bu_retry_budget_policy b) \<and>
     is_none_or (\<lambda>p. circuit_breaker_policy_validate p = (Ok () :: 'h error unit_result)) (bu_circuit_breaker_policy b) \<and>
     is_none_or (\<lambda>p. adaptive_concurrency_policy_validate p = (Ok () :: 'h error unit_result)) (bu_adaptive_concurrency_policy b) \<and>
     is_none_or (\<lambda>p. rate_limit_policy_validate p = (Ok () :: 'h error unit_result)) (bu_global_rate_limit_policy b) \<and>
     is_none_or (\<lambda>p. rate_limit_policy_validate p = (Ok () :: 'h error unit_result)) (bu_per_host_rate_limit_policy b) \<and>
     trim (bu_client_name b) \<noteq> [] \<and> is_ok (hv_parse (li_header_values E) (bu_client_name b))"

definition with_user_agent ::
    "('h, 'v, 'u, 'w, 'n, 'b) client \<Rightarrow> ('h, 'u, 'n, 'o, 't) client_builder \<Rightarrow> 'h" where
  "with_user_agent E b =
     (if hm_contains_key (li_headers E) (bu_default_headers b) ''user-agent'' then bu_default_headers b
      else hm_insert (li_headers E) ''user-agent''
        (the (header_value_from_str (li_header_values E) (bu_client_name b))) (bu_default_headers b))"

lemma validate_if_some_Ok: "validate_if_some f p = Ok () \<longleftrightarrow> is_none_or (\<lambda>q. f q = Ok ()) p"
  by (cases p) (simp_all add: validate_if_some_def)

lemma validate_concurrency_limits_Ok:
  "validate_concurrency_limits m n = (Ok () :: 'h error unit_result) \<longleftrightarrow> m \<noteq> Some 0 \<and> n \<noteq> Some 0"
  by (simp add: validate_concurrency_limits_def)

lemma dns_overrides_build_Ok:
  "dns_overrides_build has_proxy entries = (Ok overrides :: (dns_overrides, 'h error) result) \<longleftrightarrow>
     overrides = entries \<and> (\<not> has_proxy \<or> entries = [])"
  by (auto simp: dns_overrides_build_def)

lemma default_headers_Ok:
  "default_headers_with_user_agent H (header_value_from_str P) name h = (Ok h' :: ('h, 'h error) result) \<longleftrightarrow>
     trim name \<noteq> [] \<and> is_ok (hv_parse P name) \<and>
     h' = (if hm_contains_key H h ''user-agent'' then h
           else hm_insert H ''user-agent'' (the (header_value_from_str P name)) h)"
  by (auto simp: default_headers_with_user_agent_def header_value_from_str_def split: result.splits)

lemma client_builder_validate_Ok:
  "client_builder_validate E b = Ok (overrides, b') \<longleftrightarrow>
     builder_valid E b \<and> overrides = bu_dns_overrides b \<and>
     b' = b\<lparr> bu_dns_overrides := [], bu_default_headers := with_user_agent E b \<rparr>"
  unfolding client_builder_validate_def builder_valid_def with_user_agent_def
  by (simp add: result_bind_Ok_iff validate_if_some_Ok validate_concurrency_limits_Ok dns_overrides_build_Ok
      default_headers_Ok retry_policy_validate_iff validate_timeout_config_iff) blast

subsection \<open>Built clients\<close>

text \<open>
  What the theorems on requests and controls assume of a client and of the state it starts in. The bounds on
  bursts and adaptive limits, within which binary64 counts exactly, are the caller's.
\<close>

definition controls_ready :: "('h, 'v, 'u, 'w, 'n, 'b) client \<Rightarrow> shared_state \<Rightarrow> bool" where
  "controls_ready K s \<longleftrightarrow>
     is_none_or (\<lambda>p. retry_budget_policy_validate p = (Ok () :: 'h error unit_result)) (ci_retry_budget K) \<and>
     is_none_or (\<lambda>p. circuit_breaker_policy_validate p = (Ok () :: 'h error unit_result) \<and>
       circuit_reachable p (sh_circuit_breaker s, {#})) (ci_circuit_breaker K) \<and>
     is_none_or (\<lambda>p. adaptive_concurrency_policy_validate p = (Ok () :: 'h error unit_result) \<and>
       sh_adaptive_concurrency s = adaptive_new p) (ci_adaptive_concurrency K) \<and>
     is_none_or (\<lambda>b. rate_limit_policy_validate (tb_policy b) = (Ok () :: 'h error unit_result)) (rl_global (sh_rate_limiter s)) \<and>
     is_none_or (\<lambda>p. rate_limit_policy_validate p = (Ok () :: 'h error unit_result)) (rl_per_host_policy (sh_rate_limiter s)) \<and>
     rl_per_host (sh_rate_limiter s) = [] \<and>
     ci_has_rate_limiter K = (rl_global (sh_rate_limiter s) \<noteq> None \<or> rl_per_host_policy (sh_rate_limiter s) \<noteq> None) \<and>
     lim_global (sh_request_limiters s) \<noteq> Some 0 \<and> lim_per_host_limit (sh_request_limiters s) \<noteq> Some 0 \<and>
     lim_per_host (sh_request_limiters s) = [] \<and>
     ci_has_request_limiters K =
       (lim_global (sh_request_limiters s) \<noteq> None \<or> lim_per_host_limit (sh_request_limiters s) \<noteq> None)"

definition client_ready ::
    "(string \<Rightarrow> url_host option) \<Rightarrow> ('h, 'v, 'u, 'w, 'n, 'b) client \<Rightarrow> shared_state \<Rightarrow> dns_overrides \<Rightarrow> bool" where
  "client_ready host_parse K s overrides \<longleftrightarrow>
     options_valid (ci_request_defaults K) \<and> 0 < ci_connect_timeout K \<and>
     validate_base_url (li_uris K) (li_urls K) (ci_base_url K) = (Ok () :: 'h error unit_result) \<and>
     headers_marked (li_headers K) (ci_default_headers K) \<and>
     hm_contains_key (li_headers K) (ci_default_headers K) ''user-agent'' \<and>
     ci_has_proxy_agent K = (ci_proxy_config K \<noteq> None) \<and>
     is_none_or (\<lambda>p. validate_http_proxy_uri (li_uris K) (li_urls K) (pc_uri p) = (Ok () :: 'h error unit_result))
       (ci_proxy_config K) \<and>
     overrides_ok host_parse overrides \<and> (ci_proxy_config K = None \<or> overrides = []) \<and> controls_ready K s"

text \<open>
  The two constructions side by side: apart from the connector and the agents, from which a client has its
  route through a proxy, they use the same fields of the builder.
\<close>

lemmas construction_defs =
  async_client_inner_def blocking_client_inner_def async_request_defaults_def blocking_request_defaults_def
  async_initial_shared_def blocking_initial_shared_def async_build_otel_def blocking_build_otel_def

lemma constructions_agree:
  "cn_connect_timeout connector = bu_connect_timeout b \<Longrightarrow> (cn_proxy connector \<noteq> None) = (ta_proxy agents \<noteq> None) \<Longrightarrow>
     async_client_inner E proxy connector b = blocking_client_inner E proxy agents b"
  "async_initial_shared t b = blocking_initial_shared t b"
  "be_otel V = be_otel V' \<Longrightarrow> async_build_otel V b = blocking_build_otel V' b"
  by (simp_all add: construction_defs)

lemma controls_ready_built:
  assumes "builder_valid E b"
  shows "controls_ready (blocking_client_inner E proxy agents (b\<lparr> bu_dns_overrides := [], bu_default_headers := h \<rparr>))
    (blocking_initial_shared t (b\<lparr> bu_dns_overrides := [], bu_default_headers := h \<rparr>))"
proof -
  have circuit: "circuit_reachable p (circuit_breaker_new, {#})" for p by (rule circuit_reachable.init)
  show ?thesis
    using assms
    by (auto simp: controls_ready_def construction_defs builder_valid_def Let_def circuit
        rate_limiter_new_def request_limiters_new_def no_rate_limiter_def no_request_limiters_def token_bucket_new_def
        is_none_or_def unwrap_or_def split: option.splits)
qed

lemma with_user_agent_marked:
  assumes "builder_laws E no_headers" "headers_marked (li_headers E) (bu_default_headers b)"
  shows "headers_marked (li_headers E) (with_user_agent E b)"
    and "hm_contains_key (li_headers E) (with_user_agent E b) ''user-agent''"
  using assms
  by (simp_all add: with_user_agent_def headers_marked_def builder_laws_def hm_get_all_insert hm_contains_key_eq
      is_sensitive_header_name_def)

lemma client_ready_built:
  assumes "builder_laws E no_headers" "builder_inv E host_parse b" "builder_valid E b"
    and "map_option pc_uri proxy = bu_http_proxy b" "(ta_proxy agents \<noteq> None) = (proxy \<noteq> None)"
    and "b' = b\<lparr> bu_dns_overrides := [], bu_default_headers := with_user_agent E b \<rparr>"
  shows "client_ready host_parse (blocking_client_inner E proxy agents b') (blocking_initial_shared t b') (bu_dns_overrides b)"
proof -
  have "headers_marked (li_headers E) (with_user_agent E b)"
    "hm_contains_key (li_headers E) (with_user_agent E b) ''user-agent''"
    using with_user_agent_marked [OF assms(1), of b] assms(2) by (simp_all add: builder_inv_def)
  moreover have "controls_ready (blocking_client_inner E proxy agents b') (blocking_initial_shared t b')"
    unfolding assms(6) by (rule controls_ready_built [OF assms(3)])
  moreover have "is_none_or (\<lambda>p. validate_http_proxy_uri (li_uris E) (li_urls E) (pc_uri p) = (Ok () :: 'a error unit_result)) proxy"
    using assms(3) by (cases proxy) (simp_all add: builder_valid_def assms(4) [symmetric])
  ultimately show ?thesis
    using assms(2,3,4,5)
    by (auto simp: client_ready_def blocking_client_inner_def blocking_request_defaults_def assms(6) builder_valid_def
        options_valid_def builder_inv_def)
qed

lemma make_agent_configs_proxy:
  assumes "make_agent_configs E V backend opts name idle per_host idle_max uri = Ok (direct, proxied)"
  shows "proxied = None \<longleftrightarrow> uri = None"
proof -
  obtain tls where "build_sync_tls_config (be_features V) (be_crate_features V) (be_tls V) backend opts = (Ok tls :: (sync_tls_config, 'a error) result)"
    using assms by (auto simp: make_agent_configs_def result_bind_Ok_iff)
  then show ?thesis using assms by (cases uri) (auto simp: make_agent_configs_def Let_def split: if_splits)
qed

lemma blocking_build_Ok:
  assumes "blocking_build E V t b = Ok (K, s, otel, agents)"
  obtains proxy b' where "builder_valid E b" "b' = b\<lparr> bu_dns_overrides := [], bu_default_headers := with_user_agent E b \<rparr>"
    "proxy = map_option (\<lambda>uri. \<lparr> pc_uri = uri, pc_authorization = None, pc_no_proxy_rules = bu_no_proxy_rules b \<rparr>)
       (bu_http_proxy b)"
    "K = blocking_client_inner E proxy agents b'" "s = blocking_initial_shared t b'" "blocking_build_otel V b = Ok otel"
    "ta_overrides agents = bu_dns_overrides b" "(ta_proxy agents \<noteq> None) = (proxy \<noteq> None)"
proof -
  obtain overrides b' where v: "client_builder_validate E b = Ok (overrides, b')"
    using assms by (auto simp: blocking_build_def result_bind_Ok_iff)
  note valid = v [unfolded client_builder_validate_Ok]
  show ?thesis
    using assms valid
    by (intro that [of b'])
       (auto simp: blocking_build_def v blocking_build_otel_def result_bind_Ok_iff Let_def option.map_comp comp_def
          dest: make_agent_configs_proxy)
qed

lemma async_build_Ok:
  assumes "async_build A V t b = Ok (A', s, otel, transport, connector)"
  obtains proxy b' where "builder_valid (ak_client A) b"
    "b' = b\<lparr> bu_dns_overrides := [], bu_default_headers := with_user_agent (ak_client A) b \<rparr>"
    "check_async_settings (ak_client A) V b = Ok ()"
    "proxy = map_option (\<lambda>uri. \<lparr> pc_uri = uri, pc_authorization = at_proxy_authorization (bu_transport_options b),
       pc_no_proxy_rules = bu_no_proxy_rules b \<rparr>) (bu_http_proxy b)"
    "A' = A\<lparr> ak_client := async_client_inner (ak_client A) proxy connector b' \<rparr>" "s = async_initial_shared t b'"
    "async_build_otel V b = Ok otel" "cn_overrides connector = bu_dns_overrides b" "cn_proxy connector = proxy"
    "cn_connect_timeout connector = bu_connect_timeout b"
proof -
  obtain overrides b' where v: "client_builder_validate (ak_client A) b = Ok (overrides, b')"
    using assms by (auto simp: async_build_def result_bind_Ok_iff)
  note valid = v [unfolded client_builder_validate_Ok]
  show ?thesis
    using assms valid
    by (intro that [of b'])
       (auto simp: async_build_def v async_build_otel_def check_async_settings_def result_bind_Ok_iff Let_def proxy_connector_new_def
          split: option.splits if_splits)
qed

lemma blocking_client_valid:
  assumes "builder_laws E no_headers"
    and conf: "blocking_configure E host_parse settings (blocking_builder (li_headers E) no_headers clk V base_url) = Ok b"
    and build: "blocking_build E V t b = Ok (K, s, otel, agents)"
  shows "builder_valid E b \<and> client_ready host_parse K s (ta_overrides agents) \<and>
    (ta_proxy agents \<noteq> None) = (ci_proxy_config K \<noteq> None)"
proof -
  have "builder_inv E host_parse (blocking_builder (li_headers E) no_headers clk V base_url)"
    unfolding blocking_builder_def by (rule client_builder_new_inv [OF assms(1)])
  then have inv: "builder_inv E host_parse b" by (rule blocking_configure_inv [OF assms(1) _ conf])
  obtain proxy b' where b: "builder_valid E b" "b' = b\<lparr> bu_dns_overrides := [], bu_default_headers := with_user_agent E b \<rparr>"
    "proxy = map_option (\<lambda>uri. \<lparr> pc_uri = uri, pc_authorization = None, pc_no_proxy_rules = bu_no_proxy_rules b \<rparr>)
       (bu_http_proxy b)"
    "K = blocking_client_inner E proxy agents b'" "s = blocking_initial_shared t b'"
    "ta_overrides agents = bu_dns_overrides b" "(ta_proxy agents \<noteq> None) = (proxy \<noteq> None)"
    by (rule blocking_build_Ok [OF build])
  have "map_option pc_uri proxy = bu_http_proxy b" by (cases "bu_http_proxy b") (simp_all add: b(3))
  from client_ready_built [OF assms(1) inv b(1) this b(7) b(2), of t]
  show ?thesis using b by (simp add: blocking_client_inner_def)
qed

lemma async_client_valid:
  assumes "builder_laws (ak_client A) no_headers"
    and conf: "async_configure (ak_client A) host_parse settings
      (async_builder (li_headers (ak_client A)) no_headers clk V base_url) = Ok b"
    and build: "async_build A V t b = Ok (A', s, otel, transport, connector)"
  shows "builder_valid (ak_client A) b \<and> client_ready host_parse (ak_client A') s (cn_overrides connector) \<and>
    cn_proxy connector = ci_proxy_config (ak_client A') \<and> authorization_marked (ak_client A) b \<and>
    check_async_settings (ak_client A) V b = Ok () \<and>
    ci_proxy_config (ak_client A') = map_option (\<lambda>uri. \<lparr> pc_uri = uri,
      pc_authorization = at_proxy_authorization (bu_transport_options b), pc_no_proxy_rules = bu_no_proxy_rules b \<rparr>) (bu_http_proxy b) \<and>
    lim_global (sh_request_limiters s) = bu_max_in_flight b \<and>
    lim_per_host_limit (sh_request_limiters s) = bu_max_in_flight_per_host b"
proof -
  have "builder_inv (ak_client A) host_parse (async_builder (li_headers (ak_client A)) no_headers clk V base_url)"
    unfolding async_builder_def by (rule client_builder_new_inv [OF assms(1)])
  moreover have "authorization_marked (ak_client A) (async_builder (li_headers (ak_client A)) no_headers clk V base_url)"
    by (simp add: authorization_marked_def async_builder_def client_builder_new_def async_transport_options_default_def Let_def)
  ultimately have inv: "builder_inv (ak_client A) host_parse b \<and> authorization_marked (ak_client A) b"
    using async_configure_inv [OF assms(1) _ conf] by blast
  obtain proxy b' where b: "builder_valid (ak_client A) b"
    "b' = b\<lparr> bu_dns_overrides := [], bu_default_headers := with_user_agent (ak_client A) b \<rparr>"
    "check_async_settings (ak_client A) V b = Ok ()"
    "proxy = map_option (\<lambda>uri. \<lparr> pc_uri = uri, pc_authorization = at_proxy_authorization (bu_transport_options b),
       pc_no_proxy_rules = bu_no_proxy_rules b \<rparr>) (bu_http_proxy b)"
    "A' = A\<lparr> ak_client := async_client_inner (ak_client A) proxy connector b' \<rparr>" "s = async_initial_shared t b'"
    "cn_overrides connector = bu_dns_overrides b" "cn_proxy connector = proxy"
    "cn_connect_timeout connector = bu_connect_timeout b"
    by (rule async_build_Ok [OF build])
  have "map_option pc_uri proxy = bu_http_proxy b" by (cases "bu_http_proxy b") (simp_all add: b(4))
  moreover obtain agents :: transport_agents where agents: "(ta_proxy agents \<noteq> None) = (proxy \<noteq> None)"
    using transport_agents.select_convs(3) by (metis option.distinct(1))
  ultimately have "client_ready host_parse (blocking_client_inner (ak_client A) proxy agents b')
      (blocking_initial_shared t b') (bu_dns_overrides b)"
    using client_ready_built [OF assms(1) conjunct1 [OF inv] b(1) _ _ b(2)] by blast
  moreover have "async_client_inner (ak_client A) proxy connector b' = blocking_client_inner (ak_client A) proxy agents b'"
    by (rule constructions_agree(1)) (simp add: b(2,9), simp only: b(8) agents)
  ultimately show ?thesis
    using b inv
    by (simp add: constructions_agree(2) construction_defs Let_def request_limiters_new_def no_request_limiters_def)
qed

lemma check_async_settings_Ok:
  "check_async_settings E V b = Ok () \<longleftrightarrow>
     is_none_or (\<lambda>uri. is_none_or (\<lambda>authority. CHR ''@'' \<notin> set authority) (uri_authority (li_uris E) uri)) (bu_http_proxy b) \<and>
     (at_proxy_authorization (bu_transport_options b) = None \<or> bu_http_proxy b \<noteq> None) \<and>
     is_none_or (\<lambda>limit. limit \<le> be_max_permits V) (bu_max_in_flight b) \<and>
     is_none_or (\<lambda>limit. limit \<le> be_max_permits V) (bu_max_in_flight_per_host b)"
  by (auto simp: check_async_settings_def is_none_or_def is_some_and_def not_less split: option.splits)

text \<open>
  C12: A client that is built is one that the theorems on requests speak of. Whatever the calls of the setters,
  in whatever order, a client of either kind that \<open>build\<close> returns has valid request settings, a connect
  timeout above zero, a valid base URL, a user agent, and every value of a credential header among its default
  headers marked as sensitive. Its configured controls have valid policies and start empty, with limits above
  zero, and are present exactly when they are configured. Its DNS overrides have valid names and one to
  sixteen addresses each, and none is combined with a proxy, whose URI is valid. The asynchronous client
  also has no credentials in the URI of its proxy, has a configured \<open>proxy-authorization\<close> with its proxy, never
  without one, marked as sensitive, and has no limit above what a semaphore holds. \<open>build\<close> fails for every other configuration.
\<close>

theorem built_clients_are_valid:
  assumes "builder_laws (ak_client A) no_headers"
  shows "(\<forall>b K s otel agents.
      blocking_configure (ak_client A) host_parse blocking_settings
        (blocking_builder (li_headers (ak_client A)) no_headers clk V base_url) = Ok b \<longrightarrow>
      blocking_build (ak_client A) V t b = Ok (K, s, otel, agents) \<longrightarrow>
      builder_valid (ak_client A) b \<and> client_ready host_parse K s (ta_overrides agents) \<and>
      (ta_proxy agents \<noteq> None) = (ci_proxy_config K \<noteq> None)) \<and>
    (\<forall>b A' s otel transport connector.
      async_configure (ak_client A) host_parse async_settings
        (async_builder (li_headers (ak_client A)) no_headers clk V base_url) = Ok b \<longrightarrow>
      async_build A V t b = Ok (A', s, otel, transport, connector) \<longrightarrow>
      builder_valid (ak_client A) b \<and> client_ready host_parse (ak_client A') s (cn_overrides connector) \<and>
      cn_proxy connector = ci_proxy_config (ak_client A') \<and>
      is_none_or (\<lambda>p. is_none_or (hv_is_sensitive (li_headers (ak_client A))) (pc_authorization p) \<and>
        is_none_or (\<lambda>authority. CHR ''@'' \<notin> set authority) (uri_authority (li_uris (ak_client A)) (pc_uri p)))
        (ci_proxy_config (ak_client A')) \<and>
      (at_proxy_authorization (bu_transport_options b) \<noteq> None \<longrightarrow>
        (\<exists>p. ci_proxy_config (ak_client A') = Some p \<and> pc_authorization p = at_proxy_authorization (bu_transport_options b))) \<and>
      is_none_or (\<lambda>limit. limit \<le> be_max_permits V) (lim_global (sh_request_limiters s)) \<and>
      is_none_or (\<lambda>limit. limit \<le> be_max_permits V) (lim_per_host_limit (sh_request_limiters s)))"
proof (intro conjI allI impI)
  fix b K s otel agents
  assume "blocking_configure (ak_client A) host_parse blocking_settings
        (blocking_builder (li_headers (ak_client A)) no_headers clk V base_url) = Ok b"
    and "blocking_build (ak_client A) V t b = Ok (K, s, otel, agents)"
  note valid = blocking_client_valid [OF assms this]
  show "builder_valid (ak_client A) b" "client_ready host_parse K s (ta_overrides agents)"
      "(ta_proxy agents \<noteq> None) = (ci_proxy_config K \<noteq> None)"
    using valid by blast+
next
  fix b A' s otel transport connector
  assume "async_configure (ak_client A) host_parse async_settings
        (async_builder (li_headers (ak_client A)) no_headers clk V base_url) = Ok b"
    and "async_build A V t b = Ok (A', s, otel, transport, connector)"
  note valid = async_client_valid [OF assms this]
  then have settings: "check_async_settings (ak_client A) V b = Ok ()" "authorization_marked (ak_client A) b" by blast+
  show "builder_valid (ak_client A) b" "client_ready host_parse (ak_client A') s (cn_overrides connector)"
      "cn_proxy connector = ci_proxy_config (ak_client A')"
    using valid by blast+
  show "is_none_or (\<lambda>p. is_none_or (hv_is_sensitive (li_headers (ak_client A))) (pc_authorization p) \<and>
        is_none_or (\<lambda>authority. CHR ''@'' \<notin> set authority) (uri_authority (li_uris (ak_client A)) (pc_uri p)))
        (ci_proxy_config (ak_client A'))"
    using valid settings by (cases "bu_http_proxy b") (simp_all add: check_async_settings_Ok authorization_marked_def)
  show "\<exists>p. ci_proxy_config (ak_client A') = Some p \<and> pc_authorization p = at_proxy_authorization (bu_transport_options b)"
    if "at_proxy_authorization (bu_transport_options b) \<noteq> None"
    using valid settings(1) that by (auto simp: check_async_settings_Ok)
  show "is_none_or (\<lambda>limit. limit \<le> be_max_permits V) (lim_global (sh_request_limiters s))"
      "is_none_or (\<lambda>limit. limit \<le> be_max_permits V) (lim_per_host_limit (sh_request_limiters s))"
    using valid settings(1) by (simp_all add: check_async_settings_Ok)
qed

lemma transport_independent:
  "blocking_client_inner E proxy agents (with_transport u b) = blocking_client_inner E proxy agents b"
  "blocking_initial_shared t (with_transport u b) = blocking_initial_shared t b"
  "blocking_build_otel V (with_transport u b) = blocking_build_otel V b"
  "with_user_agent E (with_transport u b) = with_user_agent E b"
  "bu_http_proxy (with_transport u b) = bu_http_proxy b" "bu_dns_overrides (with_transport u b) = bu_dns_overrides b"
  "bu_no_proxy_rules (with_transport u b) = bu_no_proxy_rules b"
  "(with_transport u b)\<lparr> bu_dns_overrides := o1, bu_default_headers := h \<rparr> =
     with_transport u (b\<lparr> bu_dns_overrides := o1, bu_default_headers := h \<rparr>)"
  by (simp_all add: construction_defs with_user_agent_def with_transport_def)

lemma validate_transport:
  "client_builder_validate E (with_transport u b) =
     result_bind (client_builder_validate E b) (\<lambda>(overrides, b'). Ok (overrides, with_transport u b'))"
  unfolding client_builder_validate_def
  by (simp add: with_transport_def result_bind_assoc)

text \<open>What is left to each client: the transport, and the settings that only the asynchronous one refuses.\<close>

definition async_transport_of ::
    "build_env \<Rightarrow> ('h, 'u, 'n, 'o, 'v async_transport_options) client_builder \<Rightarrow> (transport_config, 'h error) result" where
  "async_transport_of V b =
     build_transport_client (be_features V) (be_crate_features V) (be_tls V) (bu_tls_backend b) (bu_tls_options b)
       (bu_pool_idle_timeout b) (bu_pool_max_idle_per_host b) (at_http2_only (bu_transport_options b))"

definition blocking_transport_of ::
    "('h, 'v, 'u, 'w, 'n, 'b) client \<Rightarrow> build_env \<Rightarrow> ('h, 'u, 'n, 'o, blocking_transport_options) client_builder \<Rightarrow>
     (agent_config \<times> agent_config option, 'h error) result" where
  "blocking_transport_of E V b =
     make_agent_configs E V (bu_tls_backend b) (bu_tls_options b) (bu_client_name b) (bu_pool_idle_timeout b)
       (bu_pool_max_idle_per_host b) (bt_pool_max_idle_connections (bu_transport_options b)) (bu_http_proxy b)"

lemma async_build_Err:
  "async_build A V t b = Err e \<longleftrightarrow>
     client_builder_validate (ak_client A) b = Err e \<or>
     is_ok (client_builder_validate (ak_client A) b) \<and>
       (check_async_settings (ak_client A) V b = Err e \<or>
        check_async_settings (ak_client A) V b = Ok () \<and>
          (async_build_otel V b = Err e \<or> is_ok (async_build_otel V b) \<and> async_transport_of V b = Err e))"
proof (cases "client_builder_validate (ak_client A) b")
  case (Ok v)
  then obtain b' where b': "v = (bu_dns_overrides b, b')" "b' = b\<lparr> bu_dns_overrides := [],
      bu_default_headers := with_user_agent (ak_client A) b \<rparr>"
    by (cases v) (simp add: client_builder_validate_Ok)
  have "check_async_settings (ak_client A) V b' = check_async_settings (ak_client A) V b"
    "async_build_otel V b' = async_build_otel V b" "async_transport_of V b' = async_transport_of V b"
    by (simp_all add: b'(2) check_async_settings_def async_build_otel_def async_transport_of_def)
  then show ?thesis
    unfolding async_build_def Ok b'(1) async_transport_of_def [of V b', symmetric]
    by (cases "check_async_settings (ak_client A) V b"; cases "async_build_otel V b"; cases "async_transport_of V b")
       (simp_all add: Let_def async_transport_of_def [of V b', symmetric])
qed (simp add: async_build_def)

lemma blocking_build_Err:
  "blocking_build E V t b = Err e \<longleftrightarrow>
     client_builder_validate E b = Err e \<or>
     is_ok (client_builder_validate E b) \<and>
       (blocking_build_otel V b = Err e \<or> is_ok (blocking_build_otel V b) \<and> blocking_transport_of E V b = Err e)"
proof (cases "client_builder_validate E b")
  case (Ok v)
  then obtain b' where b': "v = (bu_dns_overrides b, b')" "b' = b\<lparr> bu_dns_overrides := [],
      bu_default_headers := with_user_agent E b \<rparr>"
    by (cases v) (simp add: client_builder_validate_Ok)
  have uri: "map_option pc_uri (map_option (\<lambda>uri. \<lparr> pc_uri = uri, pc_authorization = None,
      pc_no_proxy_rules = bu_no_proxy_rules b' \<rparr>) (bu_http_proxy b')) = bu_http_proxy b'"
    by (cases "bu_http_proxy b'") simp_all
  have "blocking_build_otel V b' = blocking_build_otel V b" "blocking_transport_of E V b' = blocking_transport_of E V b"
    by (simp_all add: b'(2) blocking_build_otel_def blocking_transport_of_def)
  then show ?thesis
    unfolding blocking_build_def Ok b'(1) Let_def uri blocking_transport_of_def [of E V b', symmetric]
    by (cases "blocking_build_otel V b"; cases "blocking_transport_of E V b")
       (simp_all add: Let_def uri blocking_transport_of_def [of E V b', symmetric] case_prod_unfold)
qed (simp add: blocking_build_def)

lemma builds_alike:
  assumes "be_otel V = be_otel V'" "at_proxy_authorization (bu_transport_options b) = None"
    and "async_build A V t b = Ok (A', s, otel, transport, connector)"
    and "blocking_build (ak_client A) V' t (with_transport u b) = Ok (K, s', otel', agents)"
  shows "ak_client A' = K \<and> s = s' \<and> otel = otel' \<and> cn_overrides connector = ta_overrides agents"
proof -
  let ?E = "ak_client A"
  obtain proxy b1 where b1: "b1 = b\<lparr> bu_dns_overrides := [], bu_default_headers := with_user_agent ?E b \<rparr>"
    "proxy = map_option (\<lambda>uri. \<lparr> pc_uri = uri, pc_authorization = at_proxy_authorization (bu_transport_options b),
       pc_no_proxy_rules = bu_no_proxy_rules b \<rparr>) (bu_http_proxy b)"
    "A' = A\<lparr> ak_client := async_client_inner ?E proxy connector b1 \<rparr>" "s = async_initial_shared t b1"
    "async_build_otel V b = Ok otel" "cn_overrides connector = bu_dns_overrides b" "cn_proxy connector = proxy"
    "cn_connect_timeout connector = bu_connect_timeout b"
    by (rule async_build_Ok [OF assms(3)])
  obtain proxy' b2 where b2: "b2 = (with_transport u b)\<lparr> bu_dns_overrides := [],
      bu_default_headers := with_user_agent ?E (with_transport u b) \<rparr>"
    "proxy' = map_option (\<lambda>uri. \<lparr> pc_uri = uri, pc_authorization = None,
       pc_no_proxy_rules = bu_no_proxy_rules (with_transport u b) \<rparr>) (bu_http_proxy (with_transport u b))"
    "K = blocking_client_inner ?E proxy' agents b2" "s' = blocking_initial_shared t b2"
    "blocking_build_otel V' (with_transport u b) = Ok otel'"
    "ta_overrides agents = bu_dns_overrides (with_transport u b)" "(ta_proxy agents \<noteq> None) = (proxy' \<noteq> None)"
    by (rule blocking_build_Ok [OF assms(4)])
  have same: "b2 = with_transport u b1" "proxy' = proxy"
    by (simp_all add: b1(1,2) b2(1,2) assms(2) transport_independent)
  have "async_client_inner ?E proxy connector b1 = blocking_client_inner ?E proxy agents b1"
    by (rule constructions_agree(1)) (simp add: b1(1,8), simp only: b1(7) b2(7) same(2))
  then show ?thesis
    using b1(3-6) b2(3-6) constructions_agree(3) [OF assms(1), of b]
    by (simp add: same transport_independent constructions_agree(2))
qed

lemma build_errors_alike:
  assumes "be_otel V = be_otel V'"
  shows "async_build A V t b = Err e \<Longrightarrow> blocking_build (ak_client A) V' t (with_transport u b) = Err e \<or>
      check_async_settings (ak_client A) V b = Err e \<or> async_transport_of V b = Err e"
    "blocking_build (ak_client A) V' t (with_transport u b) = Err e \<Longrightarrow> async_build A V t b = Err e \<or>
      check_async_settings (ak_client A) V b \<noteq> Ok () \<or> blocking_transport_of (ak_client A) V' (with_transport u b) = Err e"
proof -
  let ?E = "ak_client A"
  have "is_ok (client_builder_validate ?E (with_transport u b)) = is_ok (client_builder_validate ?E b)"
    "client_builder_validate ?E (with_transport u b) = Err e \<longleftrightarrow> client_builder_validate ?E b = Err e"
    by (cases "client_builder_validate ?E b"; simp add: validate_transport case_prod_unfold)+
  moreover have "blocking_build_otel V' (with_transport u b) = async_build_otel V b"
    using constructions_agree(3) [OF assms, of b] by (simp add: transport_independent)
  ultimately show "async_build A V t b = Err e \<Longrightarrow> blocking_build ?E V' t (with_transport u b) = Err e \<or>
      check_async_settings ?E V b = Err e \<or> async_transport_of V b = Err e"
    "blocking_build ?E V' t (with_transport u b) = Err e \<Longrightarrow> async_build A V t b = Err e \<or>
      check_async_settings ?E V b \<noteq> Ok () \<or> blocking_transport_of ?E V' (with_transport u b) = Err e"
    by (auto simp: async_build_Err blocking_build_Err)
qed

text \<open>
  C13: Both clients take a configuration alike. The same calls of the shared setters are accepted or rejected by
  both builders, with the same error. When both clients are built from them, they have the same settings, the
  same controls in the same first state, the same telemetry and the same DNS overrides, although each builder
  constructs its own. When one is not built, neither is the other, with the same error, unless the error is one
  of the transport of that client or of a setting that only the asynchronous client refuses (credentials in the
  URI of the proxy, a limit above what a semaphore holds).
\<close>

theorem both_clients_configured_alike:
  assumes "default_tls_backend (be_features V) = default_tls_backend (be_features V')" "be_otel V = be_otel V'"
  shows "(case configure (ak_client A) host_parse settings (async_builder (li_headers (ak_client A)) no_headers clk V base_url) of
      Err e \<Rightarrow> configure (ak_client A) host_parse settings
        (blocking_builder (li_headers (ak_client A)) no_headers clk V' base_url) = Err e
    | Ok b \<Rightarrow> \<exists>b'. configure (ak_client A) host_parse settings
        (blocking_builder (li_headers (ak_client A)) no_headers clk V' base_url) = Ok b' \<and>
        (\<forall>A' s otel transport connector K s' otel' agents.
           async_build A V t b = Ok (A', s, otel, transport, connector) \<and>
           blocking_build (ak_client A) V' t b' = Ok (K, s', otel', agents) \<longrightarrow>
           ak_client A' = K \<and> s = s' \<and> otel = otel' \<and> cn_overrides connector = ta_overrides agents) \<and>
        (\<forall>e. async_build A V t b = Err e \<longrightarrow> blocking_build (ak_client A) V' t b' = Err e \<or>
           check_async_settings (ak_client A) V b = Err e \<or> async_transport_of V b = Err e) \<and>
        (\<forall>e. blocking_build (ak_client A) V' t b' = Err e \<longrightarrow> async_build A V t b = Err e \<or>
           check_async_settings (ak_client A) V b \<noteq> Ok () \<or> blocking_transport_of (ak_client A) V' b' = Err e))"
proof -
  let ?E = "ak_client A" and ?u = blocking_transport_options_default
  have new: "blocking_builder (li_headers ?E) no_headers clk V' base_url =
      with_transport ?u (async_builder (li_headers ?E) no_headers clk V base_url)"
    unfolding blocking_builder_def async_builder_def assms(1) by (rule client_builder_new_transport)
  show ?thesis
  proof (cases "configure ?E host_parse settings (async_builder (li_headers ?E) no_headers clk V base_url)")
    case (Err e)
    then show ?thesis by (simp add: new configure_transport)
  next
    case (Ok b)
    have plain: "at_proxy_authorization (bu_transport_options b) = None"
      using configure_frame [OF Ok] by (simp add: async_builder_def client_builder_new_def async_transport_options_default_def Let_def)
    have "configure ?E host_parse settings (blocking_builder (li_headers ?E) no_headers clk V' base_url) =
        Ok (with_transport ?u b)"
      unfolding new configure_transport Ok by simp
    then show ?thesis
      unfolding Ok result.case
      using builds_alike [OF assms(2) plain, where u = ?u] build_errors_alike [OF assms(2), where b = b and u = ?u] by blast
  qed
qed

subsection \<open>A configuration that is built\<close>

lemma blocking_shared_configure:
  "blocking_configure E host_parse (map Blocking_Shared cs) b = configure E host_parse cs b"
  by (induction cs arbitrary: b) (simp_all add: result_bind_def split: result.splits)

definition site_client :: "(alist_header_map, string \<times> bool, triple_uri, string, unit, unit) client" where
  "site_client = \<lparr> li_headers = alist_headers,
     li_header_values = \<lparr> hn_parse = (\<lambda>s. Ok s), hv_parse = (\<lambda>s. Ok (s, False)), hv_set_sensitive = (\<lambda>b v. (fst v, b)) \<rparr>,
     li_iter_mut = (\<lambda>f. map (\<lambda>(k, v). (k, f k v))), li_uris = triple_uris, li_urls = text_urls,
     li_proxies = \<lparr> px_port_or_known_default = (\<lambda>_. None), px_ipnet_parse = (\<lambda>s. None), px_ipnet_trunc = (\<lambda>n. n),
       px_ipnet_contains = (\<lambda>n ip. False) \<rparr>, li_codecs = example_codecs, li_parse_date = (\<lambda>_. None),
     li_enabled_encodings = None,
     li_tls_features = \<lparr> ft_blocking_rustls = True, ft_blocking_native = False \<rparr>,
     li_ureq_error_box = (\<lambda>_. BoxError ''refused'' None), li_build_request = (\<lambda>_ _ _. Ok ()),
     en_elapsed = (\<lambda>_. 2), en_others = (\<lambda>_ s. s), en_monotonic = (\<lambda>t. t), en_system = (\<lambda>_. 0),
     en_sample = (\<lambda>_ low high. low), en_wait_timed_out = (\<lambda>_. False),
     en_transport = (\<lambda>_ _. Err Ureq_ConnectionFailed),
     ci_base_url = [], ci_default_headers = [], ci_request_defaults =
       \<lparr> op_request_timeout = 1, op_total_timeout = None, op_retry_policy = retry_policy_standard,
         op_max_response_body_bytes = 1, op_redirect_policy = redirect_policy_none, op_status_policy = StatusPolicy_Error \<rparr>,
     ci_buffered_auto_accept_encoding = False, ci_stream_auto_accept_encoding = False,
     ci_stream_deadline_slack = 0, ci_retry_eligibility = (\<lambda>_ _. True), ci_retry_budget = None,
     ci_circuit_breaker = None, ci_adaptive_concurrency = None, ci_has_rate_limiter = False,
     ci_server_throttle_scope = Scope_Auto, ci_has_proxy_agent = False, ci_proxy_config = None,
     ci_endpoint_selector = None, ci_backoff_source = None, ci_connect_timeout = 1,
     ci_has_request_limiters = False, ci_interceptors = [] \<rparr>"

definition site_async :: "(alist_header_map, string \<times> bool, triple_uri, string, unit, unit) async_client" where
  "site_async = \<lparr> ak_client = site_client, ak_dropped = (\<lambda>_. False), ak_turn = (\<lambda>_. True), ak_transport = (\<lambda>_ _. None),
     ak_body_timed_out = (\<lambda>_. False), ak_frame_pending = (\<lambda>_. False), ak_write_timed_out = (\<lambda>_. False),
     ak_write_partial = (\<lambda>_. 0) \<rparr>"

definition site_env :: build_env where
  "site_env = \<lparr> be_tls = example_tls, be_features = (\<lambda>b. b = RustlsRing), be_crate_features = (\<lambda>b. b = RustlsRing),
     be_otel = False, be_ureq_proxy = (\<lambda>_. True), be_max_permits = 100 \<rparr>"

definition site_clock :: clock where
  "site_clock = \<lparr> ck_now_monotonic = (\<lambda>t. t), ck_now_system = (\<lambda>_. 0) \<rparr>"

definition site_settings :: "(alist_header_map, string \<times> bool, triple_uri, unit) setting list" where
  "site_settings = [Set_MaxInFlight (Some 2), Set_DefaultHeader ''authorization'' (''token'', False)]"

lemma site_client_simps [simp]:
  "li_headers site_client = alist_headers" "li_uris site_client = triple_uris" "li_urls site_client = text_urls"
  "li_header_values site_client =
     \<lparr> hn_parse = (\<lambda>s. Ok s), hv_parse = (\<lambda>s. Ok (s, False)), hv_set_sensitive = (\<lambda>b v. (fst v, b)) \<rparr>"
  "ak_client site_async = site_client"
  by (simp_all add: site_client_def site_async_def)

lemma site_laws: "builder_laws site_client []"
  by (simp add: builder_laws_def alist_headers_sel alist_get_all_def)

lemma site_backend: "default_tls_backend (be_features site_env) = RustlsRing"
  by code_simp

lemma site_tls:
  "is_ok (build_sync_tls_config (be_features site_env) (be_crate_features site_env) (be_tls site_env) RustlsRing tls_options_default
     :: (sync_tls_config, alist_header_map error) result)"
  by code_simp

lemma site_transport:
  "is_ok (build_transport_client (be_features site_env) (be_crate_features site_env) (be_tls site_env) RustlsRing
     tls_options_default idle per_host http2 :: (transport_config, alist_header_map error) result)"
proof -
  have "backend_is_available (be_features site_env) RustlsRing"
    "is_ok (result_bind (rustls_crypto_provider (be_crate_features site_env) (be_tls site_env) RustlsRing) (\<lambda>provider.
       build_rustls_tls_config (be_tls site_env) RustlsRing provider tls_options_default)
         :: (rustls_config, alist_header_map error) result)"
    by code_simp+
  then show ?thesis by (auto simp: build_transport_client_def is_ok_iff result_bind_Ok_iff)
qed

lemma site_url: "is_ok (validate_base_url triple_uris text_urls ''http://a.io'' :: alist_header_map error unit_result)"
  by code_simp

definition site_builder :: "'t \<Rightarrow> (alist_header_map, triple_uri, unit, unit, 't) client_builder" where
  "site_builder topts =
     (client_builder_new alist_headers [] site_clock ''http://a.io'' topts RustlsRing)\<lparr> bu_max_in_flight := Some 2,
        bu_default_headers := [(''authorization'', (''token'', True))] \<rparr>"

lemma site_configured:
  "configure site_client host_parse site_settings (client_builder_new alist_headers [] site_clock ''http://a.io'' topts RustlsRing) =
     Ok (site_builder topts)"
  by (simp add: site_settings_def apply_setting_def max_in_flight_def default_header_def site_builder_def
      mark_sensitive_header_value_def is_sensitive_header_name_def alist_headers_sel client_builder_new_def Let_def)

lemma site_valid: "builder_valid site_client (site_builder topts)"
proof -
  have "validate_base_url triple_uris text_urls ''http://a.io'' = (Ok () :: alist_header_map error unit_result)"
    using site_url by (auto simp: is_ok_iff)
  moreover have "retry_policy_valid retry_policy_standard" by (rule retry_policy_standard_valid)
  ultimately show ?thesis
    by (simp add: builder_valid_def site_builder_def client_builder_new_def Let_def from_secs_def nanos_per_sec_def
        trim_def trim_start_matches_def trim_end_matches_def ascii_defs)
qed

lemma site_builds:
  "\<exists>K s otel agents. blocking_build site_client site_env t (site_builder blocking_transport_options_default) = Ok (K, s, otel, agents) \<and>
     lim_global (sh_request_limiters s) = Some 2 \<and>
     hm_get_all alist_headers (ci_default_headers K) ''authorization'' = [(''token'', True)]"
proof -
  let ?b = "site_builder blocking_transport_options_default"
  obtain tls where tls: "build_sync_tls_config (be_features site_env) (be_crate_features site_env) (be_tls site_env) RustlsRing
      tls_options_default = (Ok tls :: (sync_tls_config, alist_header_map error) result)"
    using site_tls by (auto simp: is_ok_iff)
  have "client_builder_validate site_client ?b = Ok (bu_dns_overrides ?b,
      ?b\<lparr> bu_dns_overrides := [], bu_default_headers := with_user_agent site_client ?b \<rparr>)"
    using site_valid by (simp add: client_builder_validate_Ok)
  then show ?thesis
    using tls
    by (simp add: blocking_build_def construction_defs otel_disabled_def make_agent_configs_def site_builder_def
        client_builder_new_def Let_def request_limiters_new_def with_user_agent_def
        alist_headers_sel alist_get_all_def)
qed

lemma site_async_builds:
  "\<exists>A' s otel transport connector. async_build site_async site_env t (site_builder async_transport_options_default) =
     Ok (A', s, otel, transport, connector)"
proof -
  let ?b = "site_builder async_transport_options_default ::
      (alist_header_map, triple_uri, unit, unit, (string \<times> bool) async_transport_options) client_builder"
  have "is_ok (client_builder_validate site_client ?b)"
    using site_valid [of async_transport_options_default] by (simp add: is_ok_iff client_builder_validate_Ok)
  moreover have "check_async_settings site_client site_env ?b = Ok ()"
    by (simp add: check_async_settings_Ok site_builder_def client_builder_new_def Let_def async_transport_options_default_def
        site_env_def)
  moreover have "is_ok (async_build_otel site_env ?b)"
    by (simp add: async_build_otel_def site_builder_def client_builder_new_def Let_def is_ok_iff)
  moreover have "is_ok (async_transport_of site_env ?b)"
    using site_transport by (simp add: async_transport_of_def site_builder_def client_builder_new_def Let_def)
  ultimately have "\<not> (\<exists>e. async_build site_async site_env t ?b = Err e)"
    by (auto simp: async_build_Err is_ok_iff)
  then show ?thesis by (cases "async_build site_async site_env t ?b") auto
qed

theorem built_clients_are_valid_witness:
  "\<exists>b K s otel agents.
     blocking_configure site_client (\<lambda>_. None) (map Blocking_Shared site_settings)
       (blocking_builder (li_headers site_client) [] site_clock site_env ''http://a.io'') = Ok b \<and>
     blocking_build site_client site_env 0 b = Ok (K, s, otel, agents) \<and>
     client_ready (\<lambda>_. None) K s (ta_overrides agents) \<and> lim_global (sh_request_limiters s) = Some 2 \<and>
     hm_get_all alist_headers (ci_default_headers K) ''authorization'' = [(''token'', True)]"
proof -
  let ?b = "site_builder blocking_transport_options_default"
  have conf: "blocking_configure site_client (\<lambda>_. None) (map Blocking_Shared site_settings)
       (blocking_builder (li_headers site_client) [] site_clock site_env ''http://a.io'') = Ok ?b"
    using site_configured [of "\<lambda>_. None" blocking_transport_options_default]
    by (simp add: blocking_builder_def site_backend blocking_shared_configure)
  obtain K s otel agents where build: "blocking_build site_client site_env 0 ?b = Ok (K, s, otel, agents)"
      "lim_global (sh_request_limiters s) = Some 2"
      "hm_get_all alist_headers (ci_default_headers K) ''authorization'' = [(''token'', True)]"
    using site_builds by metis
  note valid = built_clients_are_valid [of site_async "[]", unfolded site_client_simps(5), OF site_laws]
  have "client_ready (\<lambda>_. None) K s (ta_overrides agents)"
    using valid [THEN conjunct1, rule_format, OF conf build(1)] by blast
  then show ?thesis using conf build by blast
qed

theorem both_clients_configured_alike_witness:
  "\<exists>b b' A' s otel transport connector K s' otel' agents.
     configure site_client (\<lambda>_. None) site_settings
       (async_builder (li_headers site_client) [] site_clock site_env ''http://a.io'') = Ok b \<and>
     configure site_client (\<lambda>_. None) site_settings
       (blocking_builder (li_headers site_client) [] site_clock site_env ''http://a.io'') = Ok b' \<and>
     async_build site_async site_env 0 b = Ok (A', s, otel, transport, connector) \<and>
     blocking_build site_client site_env 0 b' = Ok (K, s', otel', agents) \<and>
     ak_client A' = K \<and> s = s' \<and> otel = otel' \<and> cn_overrides connector = ta_overrides agents"
proof -
  have conf: "configure site_client (\<lambda>_. None) site_settings
       (async_builder (li_headers site_client) [] site_clock site_env ''http://a.io'') = Ok (site_builder async_transport_options_default)"
    "configure site_client (\<lambda>_. None) site_settings
       (blocking_builder (li_headers site_client) [] site_clock site_env ''http://a.io'') = Ok (site_builder blocking_transport_options_default)"
    by (simp_all add: async_builder_def blocking_builder_def site_backend site_configured)
  obtain A' s otel transport connector K s' otel' agents where builds:
    "async_build site_async site_env 0 (site_builder async_transport_options_default) = Ok (A', s, otel, transport, connector)"
    "blocking_build site_client site_env 0 (site_builder blocking_transport_options_default) = Ok (K, s', otel', agents)"
    using site_async_builds site_builds by metis
  have "ak_client A' = K \<and> s = s' \<and> otel = otel' \<and> cn_overrides connector = ta_overrides agents"
    using both_clients_configured_alike [of site_env site_env site_async "\<lambda>_. None" site_settings "[]" site_clock "''http://a.io''" 0,
        OF refl refl, unfolded site_client_simps(5) conf result.case result.inject] builds by blast
  then show ?thesis using conf builds by blast
qed

end
