(* ===== verification/Reqx_RequestBuilder.thy ===== *)
theory Reqx_RequestBuilder
  imports Reqx_BlockingStream Reqx_Blocking Reqx_AsyncStream Reqx_Async
begin

text \<open>
  The request builders of both clients (\<open>src/src/blocking_client/request.rs\<close>,
  \<open>src/src/async_client/request.rs\<close>), which differ in the kind of streaming body and in the client that
  sends the request, and the conversions of a buffered response (\<open>src/src/http/response.rs\<close>). The field
  \<open>client\<close> of the builder is the argument of the methods that send. The serializers of the crates \<open>url\<close>,
  \<open>serde_urlencoded\<close> and \<open>serde_json\<close> and the conversion of an integer into a header value are the
  fields of \<open>serde_ops\<close>; a payload is a value of the type \<open>'p\<close>. \<open>from_utf8\<close> of the standard library is
  modelled with the decoder of \<open>Reqx_Headers\<close>.
\<close>

subsection \<open>The builder\<close>

record ('v, 'p) serde_ops =
  form_append_pair :: "string \<Rightarrow> string \<Rightarrow> string \<Rightarrow> string"
  form_append_payload :: "'p \<Rightarrow> string \<Rightarrow> (string, box_error) result"
  urlencoded_to_string :: "'p \<Rightarrow> (string, box_error) result"
  json_to_vec :: "'p \<Rightarrow> (string, box_error) result"
  json_from_slice :: "string \<Rightarrow> ('p, box_error) result"
  hv_from_u64 :: "nat \<Rightarrow> 'v"

record ('h, 'b) request_builder =
  rq_method :: http_method
  rq_path :: string
  rq_query :: string
  rq_headers :: 'h
  rq_body :: "'b request_body option"
  rq_helper_content_length :: bool
  rq_execution_overrides :: request_execution_overrides

definition no_execution_overrides :: request_execution_overrides where
  "no_execution_overrides =
     \<lparr> ov_request_timeout = None, ov_total_timeout = None, ov_retry_policy = None,
       ov_max_response_body_bytes = None, ov_redirect_policy = None, ov_status_policy = None,
       ov_auto_accept_encoding = None \<rparr>"

text \<open>\<open>no_headers\<close> is \<open>HeaderMap::new\<close>.\<close>

definition request_builder_new :: "'h \<Rightarrow> http_method \<Rightarrow> string \<Rightarrow> ('h, 'b) request_builder" where
  "request_builder_new no_headers meth path =
     \<lparr> rq_method = meth, rq_path = path, rq_query = [], rq_headers = no_headers, rq_body = None,
       rq_helper_content_length = False, rq_execution_overrides = no_execution_overrides \<rparr>"

definition client_request :: "'h \<Rightarrow> http_method \<Rightarrow> string \<Rightarrow> ('h, 'b) request_builder" where
  "client_request no_headers meth path = request_builder_new no_headers meth path"

definition client_get :: "'h \<Rightarrow> string \<Rightarrow> ('h, 'b) request_builder" where
  "client_get no_headers path = client_request no_headers method_GET path"

definition client_post :: "'h \<Rightarrow> string \<Rightarrow> ('h, 'b) request_builder" where
  "client_post no_headers path = client_request no_headers method_POST path"

definition client_put :: "'h \<Rightarrow> string \<Rightarrow> ('h, 'b) request_builder" where
  "client_put no_headers path = client_request no_headers method_PUT path"

definition client_patch :: "'h \<Rightarrow> string \<Rightarrow> ('h, 'b) request_builder" where
  "client_patch no_headers path = client_request no_headers ''PATCH'' path"

definition client_delete :: "'h \<Rightarrow> string \<Rightarrow> ('h, 'b) request_builder" where
  "client_delete no_headers path = client_request no_headers method_DELETE path"

subsection \<open>Headers\<close>

definition request_header ::
    "('h, 'v) header_ops \<Rightarrow> 'v header_parse_ops \<Rightarrow> string \<Rightarrow> 'v \<Rightarrow> ('h, 'b) request_builder \<Rightarrow>
     ('h, 'b) request_builder" where
  "request_header H P name v b =
     (let v = mark_sensitive_header_value P name v;
          b = (if name = ''content-length'' then b\<lparr> rq_helper_content_length := False \<rparr> else b)
      in b\<lparr> rq_headers := hm_insert H name v (rq_headers b) \<rparr>)"

definition request_try_header ::
    "('h, 'v) header_ops \<Rightarrow> 'v header_parse_ops \<Rightarrow> string \<Rightarrow> string \<Rightarrow> ('h, 'b) request_builder \<Rightarrow>
     (('h, 'b) request_builder, 'h error) result" where
  "request_try_header H P name v b =
     result_bind (parse_header_name P name) (\<lambda>name.
     result_bind (parse_header_value P name v) (\<lambda>v. Ok (request_header H P name v b)))"

definition request_idempotency_key ::
    "('h, 'v) header_ops \<Rightarrow> 'v header_parse_ops \<Rightarrow> string \<Rightarrow> ('h, 'b) request_builder \<Rightarrow>
     (('h, 'b) request_builder, 'h error) result" where
  "request_idempotency_key H P key b = request_try_header H P ''idempotency-key'' key b"

subsection \<open>The query\<close>

definition request_query_pair ::
    "('v, 'p) serde_ops \<Rightarrow> string \<Rightarrow> string \<Rightarrow> ('h, 'b) request_builder \<Rightarrow> ('h, 'b) request_builder" where
  "request_query_pair L name v b = b\<lparr> rq_query := form_append_pair L name v (rq_query b) \<rparr>"

text \<open>\<open>extend_pairs\<close> calls \<open>append_pair\<close> for every pair.\<close>

definition request_query_pairs ::
    "('v, 'p) serde_ops \<Rightarrow> (string \<times> string) list \<Rightarrow> ('h, 'b) request_builder \<Rightarrow> ('h, 'b) request_builder" where
  "request_query_pairs L pairs b =
     b\<lparr> rq_query := fold (\<lambda>(name, v). form_append_pair L name v) pairs (rq_query b) \<rparr>"

definition request_query ::
    "('v, 'p) serde_ops \<Rightarrow> 'p \<Rightarrow> ('h, 'b) request_builder \<Rightarrow> (('h, 'b) request_builder, 'h error) result" where
  "request_query L params b =
     result_bind (map_err SerializeQuery (form_append_payload L params (rq_query b))) (\<lambda>query.
       Ok (b\<lparr> rq_query := query \<rparr>))"

subsection \<open>Bodies\<close>

definition clear_content_length ::
    "('h, 'v) header_ops \<Rightarrow> ('h, 'b) request_builder \<Rightarrow> ('h, 'b) request_builder" where
  "clear_content_length H b =
     b\<lparr> rq_headers := hm_remove H ''content-length'' (rq_headers b), rq_helper_content_length := False \<rparr>"

definition request_buffered_body ::
    "('h, 'v) header_ops \<Rightarrow> string \<Rightarrow> ('h, 'b) request_builder \<Rightarrow> ('h, 'b) request_builder" where
  "request_buffered_body H body b = (clear_content_length H b)\<lparr> rq_body := Some (Buffered body) \<rparr>"

text \<open>\<open>body_reader\<close> of the blocking builder; a boxed reader is a value of the type \<open>'b\<close>.\<close>

definition request_body_reader ::
    "('h, 'v) header_ops \<Rightarrow> 'b \<Rightarrow> ('h, 'b) request_builder \<Rightarrow> ('h, 'b) request_builder" where
  "request_body_reader H reader b =
     (let b = (if rq_helper_content_length b then clear_content_length H b else b)
      in b\<lparr> rq_body := Some (Streaming reader) \<rparr>)"

definition request_body_reader_with_length ::
    "('h, 'v) header_ops \<Rightarrow> ('v, 'p) serde_ops \<Rightarrow> 'b \<Rightarrow> nat \<Rightarrow> ('h, 'b) request_builder \<Rightarrow>
     ('h, 'b) request_builder" where
  "request_body_reader_with_length H L reader content_length b =
     (let b = request_body_reader H reader b
      in b\<lparr> rq_headers := hm_insert H ''content-length'' (hv_from_u64 L content_length) (rq_headers b),
            rq_helper_content_length := True \<rparr>)"

text \<open>
  The streaming bodies of the asynchronous builder. \<open>stream_body_boxed f s\<close> is the boxed body whose frames
  are the items of the stream \<open>s\<close> mapped by \<open>f\<close>; \<open>reader_stream\<close> is \<open>ReaderStream::new\<close>. The conversion
  of an item wraps its data into a frame and boxes its error.
\<close>

datatype (dead 'e) stream_item_frame = Item_Data string | Item_Error 'e

definition stream_req_body ::
    "(((string, 'e) result \<Rightarrow> 'x stream_item_frame) \<Rightarrow> 's \<Rightarrow> 'b) \<Rightarrow> ('e \<Rightarrow> 'x) \<Rightarrow> 's \<Rightarrow> 'b" where
  "stream_req_body stream_body_boxed box_error_of stream =
     stream_body_boxed (\<lambda>item. case item of Ok data \<Rightarrow> Item_Data data | Err e \<Rightarrow> Item_Error (box_error_of e)) stream"

definition async_request_body_stream ::
    "('h, 'v) header_ops \<Rightarrow> (((string, 'e) result \<Rightarrow> 'x stream_item_frame) \<Rightarrow> 's \<Rightarrow> 'b) \<Rightarrow> ('e \<Rightarrow> 'x) \<Rightarrow> 's \<Rightarrow>
     ('h, 'b) request_builder \<Rightarrow> ('h, 'b) request_builder" where
  "async_request_body_stream H stream_body_boxed box_error_of stream b =
     (let b = (if rq_helper_content_length b then clear_content_length H b else b)
      in b\<lparr> rq_body := Some (Streaming (stream_req_body stream_body_boxed box_error_of stream)) \<rparr>)"

definition async_request_body_reader ::
    "('h, 'v) header_ops \<Rightarrow> (((string, 'e) result \<Rightarrow> 'x stream_item_frame) \<Rightarrow> 's \<Rightarrow> 'b) \<Rightarrow> ('e \<Rightarrow> 'x) \<Rightarrow>
     ('r \<Rightarrow> 's) \<Rightarrow> 'r \<Rightarrow> ('h, 'b) request_builder \<Rightarrow> ('h, 'b) request_builder" where
  "async_request_body_reader H stream_body_boxed box_error_of reader_stream reader b =
     async_request_body_stream H stream_body_boxed box_error_of (reader_stream reader) b"

definition async_request_body_reader_with_length ::
    "('h, 'v) header_ops \<Rightarrow> ('v, 'p) serde_ops \<Rightarrow> (((string, 'e) result \<Rightarrow> 'x stream_item_frame) \<Rightarrow> 's \<Rightarrow> 'b) \<Rightarrow>
     ('e \<Rightarrow> 'x) \<Rightarrow> ('r \<Rightarrow> 's) \<Rightarrow> 'r \<Rightarrow> nat \<Rightarrow> ('h, 'b) request_builder \<Rightarrow> ('h, 'b) request_builder" where
  "async_request_body_reader_with_length H L stream_body_boxed box_error_of reader_stream reader content_length b =
     (let b = async_request_body_reader H stream_body_boxed box_error_of reader_stream reader b
      in b\<lparr> rq_headers := hm_insert H ''content-length'' (hv_from_u64 L content_length) (rq_headers b),
            rq_helper_content_length := True \<rparr>)"

definition request_json ::
    "('h, 'v) header_ops \<Rightarrow> 'v header_parse_ops \<Rightarrow> ('v, 'p) serde_ops \<Rightarrow> 'p \<Rightarrow> ('h, 'b) request_builder \<Rightarrow>
     (('h, 'b) request_builder, 'h error) result" where
  "request_json H P L payload b =
     result_bind (map_err SerializeJson (json_to_vec L payload)) (\<lambda>body.
       Ok (request_header H P ''content-type'' (hv_from_static H ''application/json'')
             (request_buffered_body H body b)))"

definition request_form ::
    "('h, 'v) header_ops \<Rightarrow> 'v header_parse_ops \<Rightarrow> ('v, 'p) serde_ops \<Rightarrow> 'p \<Rightarrow> ('h, 'b) request_builder \<Rightarrow>
     (('h, 'b) request_builder, 'h error) result" where
  "request_form H P L payload b =
     result_bind (map_err SerializeForm (urlencoded_to_string L payload)) (\<lambda>encoded.
       Ok (request_header H P ''content-type'' (hv_from_static H ''application/x-www-form-urlencoded'')
             (request_buffered_body H encoded b)))"

subsection \<open>Overrides\<close>

definition set_overrides ::
    "(request_execution_overrides \<Rightarrow> request_execution_overrides) \<Rightarrow> ('h, 'b) request_builder \<Rightarrow>
     ('h, 'b) request_builder" where
  "set_overrides f b = b\<lparr> rq_execution_overrides := f (rq_execution_overrides b) \<rparr>"

definition request_request_timeout :: "duration \<Rightarrow> ('h, 'b) request_builder \<Rightarrow> ('h, 'b) request_builder" where
  "request_request_timeout d = set_overrides (ov_request_timeout_update (\<lambda>_. Some d))"

definition request_total_timeout :: "duration option \<Rightarrow> ('h, 'b) request_builder \<Rightarrow> ('h, 'b) request_builder" where
  "request_total_timeout d = set_overrides (ov_total_timeout_update (\<lambda>_. Some d))"

definition request_max_response_body_bytes :: "nat \<Rightarrow> ('h, 'b) request_builder \<Rightarrow> ('h, 'b) request_builder" where
  "request_max_response_body_bytes n = set_overrides (ov_max_response_body_bytes_update (\<lambda>_. Some n))"

definition request_retry_policy :: "retry_policy \<Rightarrow> ('h, 'b) request_builder \<Rightarrow> ('h, 'b) request_builder" where
  "request_retry_policy p = set_overrides (ov_retry_policy_update (\<lambda>_. Some p))"

definition request_redirect_policy :: "redirect_policy \<Rightarrow> ('h, 'b) request_builder \<Rightarrow> ('h, 'b) request_builder" where
  "request_redirect_policy p = set_overrides (ov_redirect_policy_update (\<lambda>_. Some p))"

definition request_status_policy :: "status_policy \<Rightarrow> ('h, 'b) request_builder \<Rightarrow> ('h, 'b) request_builder" where
  "request_status_policy p = set_overrides (ov_status_policy_update (\<lambda>_. Some p))"

definition request_auto_accept_encoding :: "bool \<Rightarrow> ('h, 'b) request_builder \<Rightarrow> ('h, 'b) request_builder" where
  "request_auto_accept_encoding enabled = set_overrides (ov_auto_accept_encoding_update (\<lambda>_. Some enabled))"

subsection \<open>Conversions of a response\<close>

text \<open>
  \<open>from_utf8\<close>: the position of the first byte that does not begin a character, and the number of bytes
  that are certainly wrong there, none where the text ends within a character.
\<close>

function utf8_error_from :: "nat \<Rightarrow> string \<Rightarrow> (nat \<times> nat option) option" where
  "utf8_error_from i s =
     (if s = [] then None
      else let n = utf8_valid_prefix s
           in if n = utf8_char_width (hd s) then utf8_error_from (i + n) (drop n s)
              else Some (i, if n = length s \<and> 2 \<le> utf8_char_width (hd s) then None else Some n))"
  by auto
termination
  by (relation "measure (\<lambda>(i, s). length s)") (auto intro!: diff_less dest: utf8_valid_prefix_pos)

declare utf8_error_from.simps [simp del]

definition utf8_error_box :: "nat \<times> nat option \<Rightarrow> box_error" where
  "utf8_error_box e =
     BoxError (case e of
         (valid_up_to, Some error_len) \<Rightarrow>
           ''invalid utf-8 sequence of '' @ decimal error_len @ '' bytes from index '' @ decimal valid_up_to
       | (valid_up_to, None) \<Rightarrow>
           ''incomplete utf-8 byte sequence from index '' @ decimal valid_up_to) None"

definition response_text :: "'h response \<Rightarrow> (string, 'h error) result" where
  "response_text r =
     (case utf8_error_from 0 (rs_body r) of
        None \<Rightarrow> Ok (rs_body r)
      | Some e \<Rightarrow> Err (DecodeText (utf8_error_box e) (truncate_body (rs_body r))))"

definition response_text_lossy :: "'h response \<Rightarrow> string" where
  "response_text_lossy r = concat (from_utf8_lossy (rs_body r))"

text \<open>The consuming variants, which reuse the bytes of the body.\<close>

definition response_into_text :: "'h response \<Rightarrow> (string, 'h error) result" where
  "response_into_text r =
     (let body = rs_body r
      in case utf8_error_from 0 body of
           None \<Rightarrow> Ok body
         | Some e \<Rightarrow> Err (DecodeText (utf8_error_box e) (truncate_body body)))"

definition response_into_text_lossy :: "'h response \<Rightarrow> string" where
  "response_into_text_lossy r = (let body = rs_body r in concat (from_utf8_lossy body))"

definition response_json :: "('v, 'p) serde_ops \<Rightarrow> 'h response \<Rightarrow> ('p, 'h error) result" where
  "response_json L r =
     map_err (\<lambda>source. DeserializeJson source (truncate_body (rs_body r))) (json_from_slice L (rs_body r))"

subsection \<open>Sending\<close>

definition request_target :: "('h, 'b) request_builder \<Rightarrow> string" where
  "request_target b = append_query (rq_path b) (rq_query b)"

definition request_send ::
    "('h, 'v, 'u, 'w, 'n, 'b) client \<Rightarrow> ('h, 'b) request_builder \<Rightarrow> ('h, 'b) world \<Rightarrow>
     (('h response, 'h error) result \<times> ('h, 'b) world) option" where
  "request_send K b w =
     send_request K (rq_method b) (request_target b) (rq_headers b) (rq_body b) (rq_execution_overrides b) w"

definition request_send_stream ::
    "('h, 'v, 'u, 'w, 'n, 'b) client \<Rightarrow> ('h, 'b) request_builder \<Rightarrow> ('h, 'b) world \<Rightarrow>
     ((('h, 'b) blocking_response_stream, 'h error) result \<times> ('h, 'b) world) option" where
  "request_send_stream K b w =
     send_request_stream K (rq_method b) (request_target b) (rq_headers b) (rq_body b)
       (rq_execution_overrides b) w"

definition request_download_to_writer ::
    "('h, 'v, 'u, 'w, 'n, 'b) client \<Rightarrow> io_writer \<Rightarrow> ('h, 'b) request_builder \<Rightarrow> ('h, 'b) world \<Rightarrow>
     ((nat, 'h error) result \<times> io_writer \<times> ('h, 'b) world) option" where
  "request_download_to_writer K wr b w =
     (case request_send_stream K b w of
        None \<Rightarrow> None
      | Some (Err e, w) \<Rightarrow> Some (Err e, wr, w)
      | Some (Ok s, w) \<Rightarrow> Some (copy_to_writer K wr s w))"

definition request_download_to_writer_limited ::
    "('h, 'v, 'u, 'w, 'n, 'b) client \<Rightarrow> io_writer \<Rightarrow> nat \<Rightarrow> ('h, 'b) request_builder \<Rightarrow> ('h, 'b) world \<Rightarrow>
     ((nat, 'h error) result \<times> io_writer \<times> ('h, 'b) world) option" where
  "request_download_to_writer_limited K wr max_bytes b w =
     (case request_send_stream K b w of
        None \<Rightarrow> None
      | Some (Err e, w) \<Rightarrow> Some (Err e, wr, w)
      | Some (Ok s, w) \<Rightarrow> Some (copy_to_writer_limited K max_bytes wr s w))"

definition request_send_json ::
    "('v, 'p) serde_ops \<Rightarrow> ('h, 'v, 'u, 'w, 'n, 'b) client \<Rightarrow> ('h, 'b) request_builder \<Rightarrow> ('h, 'b) world \<Rightarrow>
     (('p, 'h error) result \<times> ('h, 'b) world) option" where
  "request_send_json L K b w =
     map_option (\<lambda>(r, w). (result_bind r (response_json L), w)) (request_send K b w)"

definition async_request_send ::
    "('h, 'v, 'u, 'w, 'n, 'b) async_client \<Rightarrow> ('h, 'b) request_builder \<Rightarrow> ('h, 'b) world \<Rightarrow>
     (('h response, 'h error) result future_end \<times> ('h, 'b) world) option" where
  "async_request_send A b w =
     async_send_request A (rq_method b) (request_target b) (rq_headers b) (rq_body b)
       (rq_execution_overrides b) w"

definition async_request_send_stream ::
    "('h, 'v, 'u, 'w, 'n, 'b) async_client \<Rightarrow> ('h, 'b) request_builder \<Rightarrow> ('h, 'b) world \<Rightarrow>
     ((('h, 'b) async_response_stream, 'h error) result future_end \<times> ('h, 'b) world) option" where
  "async_request_send_stream A b w =
     async_send_request_stream A (rq_method b) (request_target b) (rq_headers b) (rq_body b)
       (rq_execution_overrides b) w"

definition async_request_download_to_writer ::
    "('h, 'v, 'u, 'w, 'n, 'b) async_client \<Rightarrow> io_writer \<Rightarrow> ('h, 'b) request_builder \<Rightarrow> ('h, 'b) world \<Rightarrow>
     ((nat, 'h error) result future_end \<times> io_writer \<times> ('h, 'b) world) option" where
  "async_request_download_to_writer A wr b w =
     (case async_request_send_stream A b w of
        None \<Rightarrow> None
      | Some (Dropped, w) \<Rightarrow> Some (Dropped, wr, w)
      | Some (Ready (Err e), w) \<Rightarrow> Some (Ready (Err e), wr, w)
      | Some (Ready (Ok s), w) \<Rightarrow> async_copy_to_writer A wr s w)"

definition async_request_download_to_writer_limited ::
    "('h, 'v, 'u, 'w, 'n, 'b) async_client \<Rightarrow> io_writer \<Rightarrow> nat \<Rightarrow> ('h, 'b) request_builder \<Rightarrow> ('h, 'b) world \<Rightarrow>
     ((nat, 'h error) result future_end \<times> io_writer \<times> ('h, 'b) world) option" where
  "async_request_download_to_writer_limited A wr max_bytes b w =
     (case async_request_send_stream A b w of
        None \<Rightarrow> None
      | Some (Dropped, w) \<Rightarrow> Some (Dropped, wr, w)
      | Some (Ready (Err e), w) \<Rightarrow> Some (Ready (Err e), wr, w)
      | Some (Ready (Ok s), w) \<Rightarrow> async_copy_to_writer_limited A max_bytes wr s w)"

definition async_request_send_json ::
    "('v, 'p) serde_ops \<Rightarrow> ('h, 'v, 'u, 'w, 'n, 'b) async_client \<Rightarrow> ('h, 'b) request_builder \<Rightarrow> ('h, 'b) world \<Rightarrow>
     (('p, 'h error) result future_end \<times> ('h, 'b) world) option" where
  "async_request_send_json L A b w =
     map_option (\<lambda>(r, w). (case r of
         Dropped \<Rightarrow> Dropped
       | Ready r \<Rightarrow> Ready (result_bind r (response_json L)), w)) (async_request_send A b w)"

end
