(* ===== verification/Reqx_RequestProperties.thy ===== *)
theory Reqx_RequestProperties
  imports Reqx_RequestBuilder Reqx_BlockingProperties Reqx_Extensions
begin

text \<open>
  What a chain of builder calls amounts to. Every call is a value of \<open>request_call\<close> and \<open>run_calls\<close> makes
  them in turn. The builder keeps a header and a flag to know whose \<open>content-length\<close> it holds; the
  specification \<open>length_after\<close> is a state machine with three states, none, the caller's value and the
  length of a body helper, and the builder refines it. The second property says which query is sent, the
  third relates the text conversions of a response to each other.
\<close>

subsection \<open>Chains of calls\<close>

datatype (dead 'v, dead 'p, dead 'b) request_call =
    Call_Header string 'v
  | Call_TryHeader string string
  | Call_IdempotencyKey string
  | Call_QueryPair string string
  | Call_QueryPairs "(string \<times> string) list"
  | Call_Query 'p
  | Call_Body string
  | Call_BodyReader 'b
  | Call_BodyReaderWithLength 'b nat
  | Call_Json 'p
  | Call_Form 'p
  | Call_RequestTimeout duration
  | Call_TotalTimeout "duration option"
  | Call_MaxResponseBodyBytes nat
  | Call_RetryPolicy retry_policy
  | Call_RedirectPolicy redirect_policy
  | Call_StatusPolicy status_policy
  | Call_AutoAcceptEncoding bool

definition run_call ::
    "('h, 'v) header_ops \<Rightarrow> 'v header_parse_ops \<Rightarrow> ('v, 'p) serde_ops \<Rightarrow> ('v, 'p, 'b) request_call \<Rightarrow>
     ('h, 'b) request_builder \<Rightarrow> (('h, 'b) request_builder, 'h error) result" where
  "run_call H P L c b =
     (case c of
        Call_Header name v \<Rightarrow> Ok (request_header H P name v b)
      | Call_TryHeader name v \<Rightarrow> request_try_header H P name v b
      | Call_IdempotencyKey key \<Rightarrow> request_idempotency_key H P key b
      | Call_QueryPair name v \<Rightarrow> Ok (request_query_pair L name v b)
      | Call_QueryPairs pairs \<Rightarrow> Ok (request_query_pairs L pairs b)
      | Call_Query params \<Rightarrow> request_query L params b
      | Call_Body body \<Rightarrow> Ok (request_buffered_body H body b)
      | Call_BodyReader reader \<Rightarrow> Ok (request_body_reader H reader b)
      | Call_BodyReaderWithLength reader n \<Rightarrow> Ok (request_body_reader_with_length H L reader n b)
      | Call_Json payload \<Rightarrow> request_json H P L payload b
      | Call_Form payload \<Rightarrow> request_form H P L payload b
      | Call_RequestTimeout d \<Rightarrow> Ok (request_request_timeout d b)
      | Call_TotalTimeout d \<Rightarrow> Ok (request_total_timeout d b)
      | Call_MaxResponseBodyBytes n \<Rightarrow> Ok (request_max_response_body_bytes n b)
      | Call_RetryPolicy p \<Rightarrow> Ok (request_retry_policy p b)
      | Call_RedirectPolicy p \<Rightarrow> Ok (request_redirect_policy p b)
      | Call_StatusPolicy p \<Rightarrow> Ok (request_status_policy p b)
      | Call_AutoAcceptEncoding enabled \<Rightarrow> Ok (request_auto_accept_encoding enabled b))"

fun run_calls ::
    "('h, 'v) header_ops \<Rightarrow> 'v header_parse_ops \<Rightarrow> ('v, 'p) serde_ops \<Rightarrow> ('v, 'p, 'b) request_call list \<Rightarrow>
     ('h, 'b) request_builder \<Rightarrow> (('h, 'b) request_builder, 'h error) result" where
  "run_calls H P L [] b = Ok b"
| "run_calls H P L (c # cs) b = result_bind (run_call H P L c b) (run_calls H P L cs)"

lemma async_body_calls:
  "async_request_body_stream H boxed box_error_of stream b =
     request_body_reader H (stream_req_body boxed box_error_of stream) b"
  "async_request_body_reader_with_length H L boxed box_error_of reader_stream reader n b =
     request_body_reader_with_length H L (stream_req_body boxed box_error_of (reader_stream reader)) n b"
  by (simp_all add: async_request_body_stream_def async_request_body_reader_def request_body_reader_def
      async_request_body_reader_with_length_def request_body_reader_with_length_def)

subsection \<open>The specification of the length\<close>

datatype (dead 'v) length_claim = No_Length | Given_Length 'v | Helper_Length nat

text \<open>The header that a call sets in the name of the caller.\<close>

definition parsed_header :: "'v header_parse_ops \<Rightarrow> string \<Rightarrow> string \<Rightarrow> (string \<times> 'v) option" where
  "parsed_header P name v =
     (case hn_parse P name of
        Err _ \<Rightarrow> None
      | Ok name \<Rightarrow>
          (case parse_header_value P name v :: ('v, unit error) result of
             Err _ \<Rightarrow> None
           | Ok v \<Rightarrow> Some (name, v)))"

definition explicit_header :: "'v header_parse_ops \<Rightarrow> ('v, 'p, 'b) request_call \<Rightarrow> (string \<times> 'v) option" where
  "explicit_header P c =
     (case c of
        Call_Header name v \<Rightarrow> Some (name, v)
      | Call_TryHeader name v \<Rightarrow> parsed_header P name v
      | Call_IdempotencyKey key \<Rightarrow> parsed_header P ''idempotency-key'' key
      | _ \<Rightarrow> None)"

definition length_after :: "'v header_parse_ops \<Rightarrow> ('v, 'p, 'b) request_call \<Rightarrow> 'v length_claim \<Rightarrow> 'v length_claim" where
  "length_after P c cl =
     (case explicit_header P c of
        Some (name, v) \<Rightarrow> if name = ''content-length'' then Given_Length v else cl
      | None \<Rightarrow>
          (case c of
             Call_Body _ \<Rightarrow> No_Length
           | Call_Json _ \<Rightarrow> No_Length
           | Call_Form _ \<Rightarrow> No_Length
           | Call_BodyReader _ \<Rightarrow> (case cl of Helper_Length _ \<Rightarrow> No_Length | _ \<Rightarrow> cl)
           | Call_BodyReaderWithLength _ n \<Rightarrow> Helper_Length n
           | _ \<Rightarrow> cl))"

definition claim_values :: "('v, 'p) serde_ops \<Rightarrow> 'v length_claim \<Rightarrow> 'v list" where
  "claim_values L cl =
     (case cl of No_Length \<Rightarrow> [] | Given_Length v \<Rightarrow> [v] | Helper_Length n \<Rightarrow> [hv_from_u64 L n])"

definition is_helper_length :: "'v length_claim \<Rightarrow> bool" where
  "is_helper_length cl = (case cl of Helper_Length _ \<Rightarrow> True | _ \<Rightarrow> False)"

text \<open>The builder agrees with the specification; a helper length goes with a streaming body.\<close>

definition length_agrees ::
    "('h, 'v) header_ops \<Rightarrow> ('v, 'p) serde_ops \<Rightarrow> 'v length_claim \<Rightarrow> ('h, 'b) request_builder \<Rightarrow> bool" where
  "length_agrees H L cl b \<longleftrightarrow>
     hm_get_all H (rq_headers b) ''content-length'' = claim_values L cl \<and>
     rq_helper_content_length b = is_helper_length cl \<and>
     (is_helper_length cl \<longrightarrow> (\<exists>reader. rq_body b = Some (Streaming reader)))"

lemmas length_defs =
  length_agrees_def length_after_def claim_values_def is_helper_length_def explicit_header_def

lemma try_header_parsed:
  assumes "request_try_header H P name v b = Ok b'"
  obtains name' v' where "parsed_header P name v = Some (name', v')" "b' = request_header H P name' v' b"
  using assms
  by (auto simp: request_try_header_def parsed_header_def parse_header_name_def parse_header_value_def
      result_bind_def map_err_def split: result.splits)

lemma request_header_length:
  assumes "header_map_laws H" "length_agrees H L cl b"
  shows "length_agrees H L (if name = ''content-length'' then Given_Length v else cl) (request_header H P name v b)"
  using assms(2)
  by (auto simp: request_header_def length_defs hm_get_all_insert [OF assms(1)] mark_sensitive_header_value_def
      is_sensitive_header_name_def)

lemma buffered_body_length:
  assumes "header_map_laws H"
  shows "length_agrees H L No_Length (request_buffered_body H body b)"
  by (simp add: request_buffered_body_def clear_content_length_def length_defs hm_get_all_remove [OF assms])

lemma body_reader_length:
  assumes "header_map_laws H" "length_agrees H L cl b"
  shows "length_agrees H L (case cl of Helper_Length _ \<Rightarrow> No_Length | _ \<Rightarrow> cl) (request_body_reader H reader b)"
  using assms(2)
  by (cases cl) (simp_all add: request_body_reader_def clear_content_length_def length_defs Let_def
      hm_get_all_remove [OF assms(1)])

lemma body_reader_with_length_length:
  assumes "header_map_laws H"
  shows "length_agrees H L (Helper_Length n) (request_body_reader_with_length H L reader n b)"
  by (simp add: request_body_reader_with_length_def request_body_reader_def length_defs Let_def
      hm_get_all_insert [OF assms])

lemma content_type_length:
  assumes "header_map_laws H" "length_agrees H L cl b"
  shows "length_agrees H L cl (request_header H P ''content-type'' v b)"
  using request_header_length [OF assms, of "''content-type''" v P] by simp

lemma other_calls_length:
  assumes "length_agrees H L cl b"
  shows "length_agrees H L cl (b\<lparr> rq_query := q \<rparr>)" "length_agrees H L cl (set_overrides f b)"
  using assms by (simp_all add: length_agrees_def set_overrides_def)

lemmas override_defs =
  request_request_timeout_def request_total_timeout_def request_max_response_body_bytes_def
  request_retry_policy_def request_redirect_policy_def request_status_policy_def
  request_auto_accept_encoding_def

lemma try_header_length:
  assumes "header_map_laws H" "length_agrees H L cl b" "request_try_header H P name v b = Ok b'"
    and "explicit_header P c = parsed_header P name v"
  shows "length_agrees H L (length_after P c cl) b'"
  using assms(3)
proof (rule try_header_parsed)
  fix name' v'
  assume "parsed_header P name v = Some (name', v')" "b' = request_header H P name' v' b"
  then show ?thesis
    using request_header_length [OF assms(1,2)] assms(4) by (simp add: length_after_def)
qed

lemma run_call_length:
  assumes laws: "header_map_laws H" and agrees: "length_agrees H L cl b" and run: "run_call H P L c b = Ok b'"
  shows "length_agrees H L (length_after P c cl) b'"
proof (cases c)
  case (Call_Header name v)
  then show ?thesis
    using run request_header_length [OF laws agrees, of name v P]
    by (auto simp: run_call_def length_after_def explicit_header_def)
next
  case (Call_TryHeader name v)
  then show ?thesis
    using run by (intro try_header_length [OF laws agrees]) (auto simp: run_call_def explicit_header_def)
next
  case (Call_IdempotencyKey key)
  then show ?thesis
    using run by (intro try_header_length [OF laws agrees, of P "''idempotency-key''" key])
      (auto simp: run_call_def explicit_header_def request_idempotency_key_def)
next
  case (Call_Json payload)
  then show ?thesis
    using run content_type_length [OF laws buffered_body_length [OF laws]]
    by (auto simp: run_call_def request_json_def result_bind_Ok_iff length_after_def explicit_header_def)
next
  case (Call_Form payload)
  then show ?thesis
    using run content_type_length [OF laws buffered_body_length [OF laws]]
    by (auto simp: run_call_def request_form_def result_bind_Ok_iff length_after_def explicit_header_def)
next
  case (Call_Body body)
  then show ?thesis
    using run buffered_body_length [OF laws] by (auto simp: run_call_def length_after_def explicit_header_def)
next
  case (Call_BodyReader reader)
  then show ?thesis
    using run body_reader_length [OF laws agrees]
    by (auto simp: run_call_def length_after_def explicit_header_def)
next
  case (Call_BodyReaderWithLength reader n)
  then show ?thesis
    using run body_reader_with_length_length [OF laws]
    by (auto simp: run_call_def length_after_def explicit_header_def)
qed (use run other_calls_length [OF agrees] in
     \<open>auto simp: run_call_def length_after_def explicit_header_def override_defs result_bind_Ok_iff
        request_query_pair_def request_query_pairs_def request_query_def\<close>)

lemma run_calls_length:
  assumes laws: "header_map_laws H"
  shows "length_agrees H L cl b \<Longrightarrow> run_calls H P L cs b = Ok b' \<Longrightarrow>
    length_agrees H L (fold (length_after P) cs cl) b'"
  by (induction cs arbitrary: cl b) (auto simp: result_bind_Ok_iff dest: run_call_length [OF laws])

lemma helper_length_from_call:
  "fold (length_after P) cs cl = Helper_Length n \<Longrightarrow>
     cl = Helper_Length n \<or> (\<exists>reader. Call_BodyReaderWithLength reader n \<in> set cs)"
proof (induction cs arbitrary: cl)
  case (Cons c cs)
  then have "length_after P c cl = Helper_Length n \<or> (\<exists>reader. Call_BodyReaderWithLength reader n \<in> set cs)"
    by simp
  moreover have "cl = Helper_Length n \<or> (\<exists>reader. c = Call_BodyReaderWithLength reader n)"
    if "length_after P c cl = Helper_Length n"
    using that by (auto simp: length_after_def split: option.splits prod.splits if_splits
        request_call.splits length_claim.splits)
  ultimately show ?case by auto
qed simp

subsection \<open>Framing\<close>

text \<open>\<open>HeaderMap::extend\<close>: the names of the second map replace those of the first.\<close>

definition header_extend_law :: "('h, 'v) header_ops \<Rightarrow> bool" where
  "header_extend_law H \<longleftrightarrow>
     (\<forall>h h' k. hm_get_all H (hm_extend H h h') k =
        (if hm_get_all H h' k = [] then hm_get_all H h k else hm_get_all H h' k))"

definition length_value_law :: "('h, 'v) header_ops \<Rightarrow> ('v, 'p) serde_ops \<Rightarrow> bool" where
  "length_value_law H L \<longleftrightarrow> (\<forall>n. hv_to_str H (hv_from_u64 L n) = Some (decimal n))"

definition sets_header :: "'v header_parse_ops \<Rightarrow> string \<Rightarrow> ('v, 'p, 'b) request_call \<Rightarrow> bool" where
  "sets_header P name c = is_some_and (\<lambda>(k, _). k = name) (explicit_header P c)"

lemma request_header_other:
  "header_map_laws H \<Longrightarrow> k \<noteq> name \<Longrightarrow>
     hm_get_all H (rq_headers (request_header H P name v b)) k = hm_get_all H (rq_headers b) k"
  by (auto simp: request_header_def Let_def hm_get_all_insert)

lemma clear_content_length_other:
  "header_map_laws H \<Longrightarrow> k \<noteq> ''content-length'' \<Longrightarrow>
     hm_get_all H (rq_headers (clear_content_length H b)) k = hm_get_all H (rq_headers b) k"
  by (simp add: clear_content_length_def hm_get_all_remove)

lemma run_call_other_header:
  assumes laws: "header_map_laws H" and run: "run_call H P L c b = Ok b'"
    and k: "k \<notin> {''content-length'', ''content-type''}" "\<not> sets_header P k c"
  shows "hm_get_all H (rq_headers b') k = hm_get_all H (rq_headers b) k"
proof -
  note header_lemmas = request_header_other [OF laws] clear_content_length_other [OF laws] hm_get_all_insert [OF laws]
  have try_header: "hm_get_all H (rq_headers b') k = hm_get_all H (rq_headers b) k"
    if "request_try_header H P name v b = Ok b'" and "\<forall>v'. parsed_header P name v \<noteq> Some (k, v')" for name v
    using that(1)
  proof (rule try_header_parsed)
    fix name' v'
    assume "parsed_header P name v = Some (name', v')" "b' = request_header H P name' v' b"
    then show ?thesis using that(2) header_lemmas(1) by metis
  qed
  show ?thesis
    using run k
    by (cases c)
       (auto simp: run_call_def sets_header_def explicit_header_def header_lemmas override_defs result_bind_Ok_iff
          request_query_pair_def request_query_pairs_def request_query_def request_buffered_body_def
          request_body_reader_def request_body_reader_with_length_def request_json_def request_form_def
          set_overrides_def request_idempotency_key_def Let_def intro!: try_header)
qed

lemma run_calls_other_header:
  assumes laws: "header_map_laws H" and k: "k \<notin> {''content-length'', ''content-type''}"
  shows "run_calls H P L cs b = Ok b' \<Longrightarrow> list_all (\<lambda>c. \<not> sets_header P k c) cs \<Longrightarrow>
    hm_get_all H (rq_headers b') k = hm_get_all H (rq_headers b) k"
  by (induction cs arbitrary: b) (auto simp: result_bind_Ok_iff run_call_other_header [OF laws _ k])

lemma ensure_accept_encoding_other:
  "header_map_laws H \<Longrightarrow> k \<noteq> ''accept-encoding'' \<Longrightarrow>
     hm_get_all H (ensure_accept_encoding H enabled m h) k = hm_get_all H h k"
  by (simp add: ensure_accept_encoding_def hm_get_all_insert split: option.splits)

text \<open>A length among the default headers never reaches a request.\<close>

lemma prepared_framing_headers:
  assumes laws: "header_map_laws (li_headers K)" "header_extend_law (li_headers K)"
    and prepared: "request_preparation K auto m path h body ov = Ok input"
  shows "hm_get_all (li_headers K) (ri_merged_headers input) ''content-length'' =
      hm_get_all (li_headers K) h ''content-length''"
    and "hm_get_all (li_headers K) (ri_merged_headers input) ''transfer-encoding'' =
      (if hm_get_all (li_headers K) h ''transfer-encoding'' = []
       then hm_get_all (li_headers K) (ci_default_headers K) ''transfer-encoding''
       else hm_get_all (li_headers K) h ''transfer-encoding'')"
    and "ri_body input = unwrap_or request_body_default body"
proof -
  let ?H = "li_headers K"
  define merged where "merged = (if hm_get_all ?H h ''content-length'' = []
    then hm_remove ?H ''content-length'' (hm_extend ?H (ci_default_headers K) h)
    else hm_extend ?H (ci_default_headers K) h)"
  have "ri_merged_headers input \<in> {ensure_accept_encoding ?H (li_enabled_encodings K) m merged, merged} \<and>
      ri_body input = unwrap_or request_body_default body"
    using prepared
    by (auto simp: request_preparation_def prepare_retry_request_input_def result_bind_Ok_iff merge_headers_def
        Let_def hm_contains_key_eq [OF laws(1)] merged_def)
  then have same: "hm_get_all ?H (ri_merged_headers input) k = hm_get_all ?H merged k" if "k \<noteq> ''accept-encoding''" for k
    using ensure_accept_encoding_other [OF laws(1) that] by auto
  have extend: "hm_get_all ?H (hm_extend ?H a c) k =
      (if hm_get_all ?H c k = [] then hm_get_all ?H a k else hm_get_all ?H c k)" for a c k
    using laws(2) by (simp add: header_extend_law_def)
  show "hm_get_all ?H (ri_merged_headers input) ''content-length'' = hm_get_all ?H h ''content-length''"
    by (simp add: same merged_def hm_get_all_remove [OF laws(1)] extend)
  show "hm_get_all ?H (ri_merged_headers input) ''transfer-encoding'' =
      (if hm_get_all ?H h ''transfer-encoding'' = [] then hm_get_all ?H (ci_default_headers K) ''transfer-encoding''
       else hm_get_all ?H h ''transfer-encoding'')"
    by (simp add: same merged_def hm_get_all_remove [OF laws(1)] extend)
  show "ri_body input = unwrap_or request_body_default body"
    using \<open>_ \<and> ri_body input = _\<close> by (rule conjunct2)
qed

lemma decimal_is_port_text: "is_port_text (decimal n)"
proof -
  have "decimal n \<noteq> []" by (subst decimal.simps) simp
  then show ?thesis using decimal_digits [of n] by (simp add: is_port_text_def)
qed

text \<open>When the value that the caller supplied describes the body.\<close>

definition given_length_fits :: "('h, 'v) header_ops \<Rightarrow> 'b request_body \<Rightarrow> 'v length_claim \<Rightarrow> bool" where
  "given_length_fits H body cl =
     (case cl of
        Given_Length v \<Rightarrow>
          (case hv_to_str H v of
             None \<Rightarrow> False
           | Some t \<Rightarrow> is_port_text t \<and> parse_digits 0 t \<le> u64_max \<and>
               is_none_or (\<lambda>n. n = parse_digits 0 t) (known_length body))
      | _ \<Rightarrow> True)"

lemma framing_of_claim:
  assumes "header_map_laws H" "length_value_law H L"
    and "hm_get_all H h ''transfer-encoding'' = []" "hm_get_all H h ''content-length'' = claim_values L cl"
    and "\<forall>n. cl = Helper_Length n \<longrightarrow> n \<le> u64_max \<and> known_length body = None"
  shows "is_ok (validate_request_framing_headers H h (known_length body) m u) \<longleftrightarrow> given_length_fits H body cl"
proof (cases cl)
  case No_Length
  then show ?thesis using assms(4) framing_none [OF assms(1,3)] by (simp add: claim_values_def given_length_fits_def)
next
  case (Given_Length v)
  then show ?thesis
    using assms(4) framing_one [OF assms(1,3), of v]
    by (cases "known_length body")
       (auto simp: claim_values_def given_length_fits_def std_defs split: option.splits)
next
  case (Helper_Length n)
  then show ?thesis
    using assms(2,4,5) framing_one [OF assms(1,3), of "hv_from_u64 L n"] decimal_is_port_text [of n]
    by (simp add: claim_values_def given_length_fits_def length_value_law_def)
qed

subsection \<open>The query\<close>

text \<open>
  What the form serializer does: \<open>encode\<close> is its percent-encoding, and \<open>payload_pairs\<close> the pairs as which
  a payload is serialized.
\<close>

definition encoded_pair :: "(string \<Rightarrow> string) \<Rightarrow> string \<times> string \<Rightarrow> string" where
  "encoded_pair encode pair = encode (fst pair) @ ''='' @ encode (snd pair)"

definition form_laws ::
    "('v, 'p) serde_ops \<Rightarrow> (string \<Rightarrow> string) \<Rightarrow> ('p \<Rightarrow> ((string \<times> string) list, box_error) result) \<Rightarrow> bool" where
  "form_laws L encode payload_pairs \<longleftrightarrow>
     (\<forall>name v q. form_append_pair L name v q =
        (if q = [] then [] else q @ ''&'') @ encoded_pair encode (name, v)) \<and>
     (\<forall>s. CHR ''&'' \<notin> set (encode s) \<and> CHR ''#'' \<notin> set (encode s)) \<and>
     (\<forall>payload q. form_append_payload L payload q =
        result_bind (payload_pairs payload) (\<lambda>pairs. Ok (fold (\<lambda>(name, v). form_append_pair L name v) pairs q)))"

definition call_pairs ::
    "('p \<Rightarrow> ((string \<times> string) list, box_error) result) \<Rightarrow> ('v, 'p, 'b) request_call \<Rightarrow> (string \<times> string) list" where
  "call_pairs payload_pairs c =
     (case c of
        Call_QueryPair name v \<Rightarrow> [(name, v)]
      | Call_QueryPairs pairs \<Rightarrow> pairs
      | Call_Query params \<Rightarrow> (case payload_pairs params of Ok pairs \<Rightarrow> pairs | Err _ \<Rightarrow> [])
      | _ \<Rightarrow> [])"

definition query_holds :: "(string \<Rightarrow> string) \<Rightarrow> (string \<times> string) list \<Rightarrow> string \<Rightarrow> bool" where
  "query_holds encode pairs q \<longleftrightarrow>
     CHR ''#'' \<notin> set q \<and>
     filter (\<lambda>t. t \<noteq> []) (split_on (\<lambda>c. c = CHR ''&'') q) = map (encoded_pair encode) pairs"

lemma append_pair_holds:
  assumes "form_laws L encode payload_pairs" "query_holds encode pairs q"
  shows "query_holds encode (pairs @ [pair]) (form_append_pair L (fst pair) (snd pair) q)"
proof -
  have chars: "CHR ''&'' \<notin> set (encoded_pair encode pair)" "CHR ''#'' \<notin> set (encoded_pair encode pair)"
    using assms(1) by (auto simp: form_laws_def encoded_pair_def)
  have ne: "encoded_pair encode pair \<noteq> []" by (simp add: encoded_pair_def)
  have split: "split_on (\<lambda>c. c = CHR ''&'') (encoded_pair encode pair) = [encoded_pair encode pair]"
    using chars(1) by (intro split_on_plain) auto
  have "form_append_pair L (fst pair) (snd pair) q = (if q = [] then [] else q @ ''&'') @ encoded_pair encode pair"
    using assms(1) by (simp add: form_laws_def)
  then show ?thesis
    using assms(2) chars(2) ne by (auto simp: query_holds_def split split_on_append)
qed

lemma append_pairs_hold:
  assumes "form_laws L encode payload_pairs"
  shows "query_holds encode pairs q \<Longrightarrow>
    query_holds encode (pairs @ more_pairs) (fold (\<lambda>(name, v). form_append_pair L name v) more_pairs q)"
proof (induction more_pairs arbitrary: pairs q)
  case (Cons pair more_pairs)
  show ?case
    using Cons.IH [OF append_pair_holds [OF assms Cons.prems, of pair]] by (simp add: case_prod_beta)
qed simp

lemma run_call_query:
  assumes laws: "form_laws L encode payload_pairs" and holds: "query_holds encode pairs (rq_query b)"
    and run: "run_call H P L c b = Ok b'"
  shows "query_holds encode (pairs @ call_pairs payload_pairs c) (rq_query b') \<and>
    rq_path b' = rq_path b \<and> rq_method b' = rq_method b"
proof -
  have payload: "form_append_payload L params q = result_bind (payload_pairs params)
      (\<lambda>pairs. Ok (fold (\<lambda>(name, v). form_append_pair L name v) pairs q))" for params q
    using laws by (simp add: form_laws_def)
  have plain: "rq_query b' = rq_query b \<and> rq_path b' = rq_path b \<and> rq_method b' = rq_method b"
    if "request_try_header H P name v b = Ok b'" for name v
    using that by (rule try_header_parsed) (simp add: request_header_def Let_def)
  show ?thesis
    using run holds append_pairs_hold [OF laws holds] append_pair_holds [OF laws holds]
    by (cases c)
       (auto simp: run_call_def call_pairs_def override_defs result_bind_Ok_iff payload map_err_def
          request_query_pair_def request_query_pairs_def request_query_def request_buffered_body_def
          request_body_reader_def request_body_reader_with_length_def request_json_def request_form_def
          clear_content_length_def request_header_def set_overrides_def request_idempotency_key_def Let_def
          dest: plain split: result.splits)
qed

lemma run_calls_query:
  assumes laws: "form_laws L encode payload_pairs"
  shows "query_holds encode pairs (rq_query b) \<Longrightarrow> run_calls H P L cs b = Ok b' \<Longrightarrow>
    query_holds encode (pairs @ concat (map (call_pairs payload_pairs) cs)) (rq_query b') \<and>
    rq_path b' = rq_path b \<and> rq_method b' = rq_method b"
proof (induction cs arbitrary: pairs b)
  case (Cons c cs)
  then obtain b1 where b1: "run_call H P L c b = Ok b1" "run_calls H P L cs b1 = Ok b'"
    by (auto simp: result_bind_Ok_iff)
  show ?case
    using run_call_query [OF laws Cons.prems(1) b1(1)] Cons.IH [OF _ b1(2), of "pairs @ call_pairs payload_pairs c"]
    by simp
qed simp

subsection \<open>Texts\<close>

lemma utf8_error_from_Nil [simp]: "utf8_error_from i [] = None"
  by (simp add: utf8_error_from.simps)

lemma lossy_text_of_valid: "utf8_error_from i s = None \<Longrightarrow> concat (from_utf8_lossy s) = s"
proof (induction i s rule: utf8_error_from.induct)
  case (1 i s)
  show ?case
  proof (cases "s = []")
    case False
    let ?n = "utf8_valid_prefix s"
    have n: "?n = utf8_char_width (hd s)" and rest: "utf8_error_from (i + ?n) (drop ?n s) = None"
      using "1.prems" False utf8_error_from.simps [of i s] by (simp_all add: Let_def split: if_splits)
    have "concat (from_utf8_lossy (drop ?n s)) = drop ?n s"
      using "1.IH" [OF False refl n rest] .
    then show ?thesis
      using False n by (simp add: from_utf8_lossy_def lossy_chars_step utf8_head_def Let_def)
  qed (simp add: from_utf8_lossy_def)
qed

text \<open>All four conversions agree on a body that is a text; on another one both strict ones fail.\<close>

lemma response_texts_agree:
  "response_into_text r = response_text r" "response_into_text_lossy r = response_text_lossy r"
  "response_text r = Ok t \<Longrightarrow> t = rs_body r \<and> response_text_lossy r = t"
  by (auto simp: response_text_def response_into_text_def response_into_text_lossy_def response_text_lossy_def
      dest: lossy_text_of_valid split: option.splits)

subsection \<open>Properties\<close>

text \<open>
  C15: No chain of builder calls leaves a stale or conflicting length behind. The \<open>content-length\<close> header and
  the flag of the builder are always in the state of the specification: the caller's own header, the
  length given to \<open>body_reader_with_length\<close> and a buffered body (which clears either) replace each other,
  and a new reader forgets the length given for the previous one but not the caller's header. The
  prepared request, to which the client has added its defaults, passes the framing check exactly when a
  length in the caller's own header is one 64-bit number that fits the body; without such a header it
  always passes, even when the default headers of the client contain a length.
\<close>

theorem request_builder_framing:
  assumes "header_map_laws (li_headers K)" "header_extend_law (li_headers K)" "length_value_law (li_headers K) L"
    and "\<forall>k. hm_get_all (li_headers K) no_headers k = []"
    and "run_calls (li_headers K) P L calls (client_request no_headers meth path) = Ok b"
    and "list_all (\<lambda>c. \<not> sets_header P ''transfer-encoding'' c) calls"
    and "hm_get_all (li_headers K) (ci_default_headers K) ''transfer-encoding'' = []"
    and "\<forall>reader n. Call_BodyReaderWithLength reader n \<in> set calls \<longrightarrow> n \<le> u64_max"
    and "request_preparation K auto (rq_method b) (request_target b) (rq_headers b) (rq_body b)
      (rq_execution_overrides b) = Ok input"
  shows "length_agrees (li_headers K) L (fold (length_after P) calls No_Length) b \<and>
    (is_ok (validate_request_framing_headers (li_headers K) (ri_merged_headers input)
        (known_length (ri_body input)) m u) \<longleftrightarrow>
     given_length_fits (li_headers K) (ri_body input) (fold (length_after P) calls No_Length))"
proof -
  let ?H = "li_headers K" and ?cl = "fold (length_after P) calls No_Length"
  have "length_agrees ?H L No_Length (client_request no_headers meth path)"
    using assms(4) by (simp add: client_request_def request_builder_new_def length_defs)
  then have agrees: "length_agrees ?H L ?cl b" by (rule run_calls_length [OF assms(1) _ assms(5)])
  note input = prepared_framing_headers [OF assms(1,2,9)]
  have "hm_get_all ?H (rq_headers b) ''transfer-encoding'' = []"
    using run_calls_other_header [OF assms(1) _ assms(5,6)] assms(4)
    by (simp add: client_request_def request_builder_new_def)
  then have te: "hm_get_all ?H (ri_merged_headers input) ''transfer-encoding'' = []"
    using input(2) assms(7) by simp
  have cl: "hm_get_all ?H (ri_merged_headers input) ''content-length'' = claim_values L ?cl"
    using input(1) agrees by (simp add: length_agrees_def)
  have "n \<le> u64_max \<and> known_length (ri_body input) = None" if "?cl = Helper_Length n" for n
    using that helper_length_from_call [OF that] assms(8) agrees input(3)
    by (auto simp: length_agrees_def is_helper_length_def known_length_def)
  then show ?thesis using agrees framing_of_claim [OF assms(1,3) te cl] by blast
qed

definition example_encode :: "string \<Rightarrow> string" where
  "example_encode s = filter (\<lambda>c. c \<noteq> CHR ''&'' \<and> c \<noteq> CHR ''#'') s"

definition example_append_pair :: "string \<Rightarrow> string \<Rightarrow> string \<Rightarrow> string" where
  "example_append_pair name v q = (if q = [] then [] else q @ ''&'') @ encoded_pair example_encode (name, v)"

definition example_serde :: "(string \<times> bool, (string \<times> string) list) serde_ops" where
  "example_serde = \<lparr>
     form_append_pair = example_append_pair,
     form_append_payload = (\<lambda>pairs q. Ok (fold (\<lambda>(name, v). example_append_pair name v) pairs q)),
     urlencoded_to_string = (\<lambda>_. Ok ''form''), json_to_vec = (\<lambda>_. Ok ''null''), json_from_slice = (\<lambda>_. Ok []),
     hv_from_u64 = (\<lambda>n. (decimal n, False)) \<rparr>"

definition example_calls :: "(string \<times> bool, (string \<times> string) list, unit) request_call list" where
  "example_calls =
     [Call_Header ''content-length'' (''9'', False), Call_Body ''abc'', Call_BodyReaderWithLength () 3,
      Call_BodyReader (), Call_BodyReaderWithLength () 5]"

lemma alist_extend_law: "header_extend_law alist_headers"
proof -
  have "alist_get_all (filter (\<lambda>e. fst e \<notin> fst ` set h') h) k = (if alist_get_all h' k = [] then alist_get_all h k else [])"
    for h h' :: alist_header_map and k
    by (auto simp: alist_get_all_def filter_empty_conv image_iff intro!: arg_cong [where f = "map snd"] filter_cong)
  then show ?thesis
    by (simp add: header_extend_law_def alist_headers_def alist_get_all_append)
qed

lemma example_serde_laws:
  "length_value_law alist_headers example_serde" "form_laws example_serde example_encode Ok"
  by (auto simp: length_value_law_def alist_headers_def example_serde_def form_laws_def example_append_pair_def
      example_encode_def)

definition built_example :: "(alist_header_map, unit) request_builder" where
  "built_example = (client_request [] ''PUT'' ''/a'')
     \<lparr> rq_headers := [(''content-length'', (decimal 5, False))], rq_body := Some (Streaming ()),
       rq_helper_content_length := True \<rparr>"

lemma example_calls_run:
  "run_calls alist_headers (li_header_values example_client) example_serde example_calls
     (client_request [] ''PUT'' ''/a'') = Ok built_example"
  by (simp add: example_calls_def run_call_def client_request_def request_builder_new_def request_header_def
      mark_sensitive_header_value_def is_sensitive_header_name_def request_buffered_body_def
      clear_content_length_def request_body_reader_def request_body_reader_with_length_def alist_headers_def
      example_serde_def built_example_def Let_def)

lemma built_example_prepared:
  "\<exists>input. request_preparation example_client False (rq_method built_example) (request_target built_example)
     (rq_headers built_example) (rq_body built_example) (rq_execution_overrides built_example) = Ok input"
  by (simp add: built_example_def client_request_def request_builder_new_def request_target_def append_query_def
      no_execution_overrides_def example_preparation_defs example_client_simps)

theorem request_builder_framing_witness:
  "run_calls alist_headers (li_header_values example_client) example_serde example_calls
     (client_request [] ''PUT'' ''/a'') = Ok built_example \<and>
   length_agrees alist_headers example_serde (Helper_Length 5) built_example \<and>
   (\<exists>input. request_preparation example_client False (rq_method built_example) (request_target built_example)
       (rq_headers built_example) (rq_body built_example) (rq_execution_overrides built_example) = Ok input \<and>
     is_ok (validate_request_framing_headers alist_headers (ri_merged_headers input)
       (known_length (ri_body input)) ''PUT'' ''http://h/a''))"
proof -
  obtain input where prepared: "request_preparation example_client False (rq_method built_example)
      (request_target built_example) (rq_headers built_example) (rq_body built_example)
      (rq_execution_overrides built_example) = Ok input"
    using built_example_prepared by blast
  have claim: "fold (length_after (li_header_values example_client)) example_calls No_Length = Helper_Length 5"
    by (simp add: example_calls_def length_after_def explicit_header_def)
  have free: "list_all (\<lambda>c. \<not> sets_header (li_header_values example_client) ''transfer-encoding'' c) example_calls"
    by (simp add: example_calls_def sets_header_def explicit_header_def)
  have small: "\<forall>reader n. Call_BodyReaderWithLength reader n \<in> set example_calls \<longrightarrow> n \<le> u64_max"
    by (simp add: example_calls_def u64_max_def)
  have "length_agrees alist_headers example_serde (Helper_Length 5) built_example \<and>
    (is_ok (validate_request_framing_headers alist_headers (ri_merged_headers input)
        (known_length (ri_body input)) ''PUT'' ''http://h/a'') \<longleftrightarrow>
     given_length_fits alist_headers (ri_body input) (Helper_Length 5))"
    using request_builder_framing [where K = example_client and L = example_serde and no_headers = "[]"
        and P = "li_header_values example_client" and calls = example_calls and meth = "''PUT''" and path = "''/a''"
        and b = built_example and auto = False and input = input and m = "''PUT''" and u = "''http://h/a''"]
      example_calls_run prepared alist_extend_law example_serde_laws(1) free small
    by (simp add: example_client_simps(1,21) claim alist_headers_sel alist_get_all_def)
  then show ?thesis using example_calls_run prepared by (auto simp: given_length_fits_def)
qed

text \<open>
  C16: The query of a request is what the caller asked for. After any chain of builder calls the target that
  is sent has the path it was created with and, after the parameters that this path already had, one
  encoded parameter for every pair of the calls, in their order and with repetitions kept; a fragment
  stays behind the query.
\<close>

theorem request_query_appended:
  fixes b :: "('h, 'b) request_builder"
  assumes "form_laws L encode payload_pairs"
    and "CHR ''#'' \<notin> set path" "fragment = [] \<or> hd fragment = CHR ''#''"
    and "run_calls H P L calls (client_request no_headers meth (path @ fragment)) = Ok b"
  shows "\<exists>target. request_target b = target @ fragment \<and> CHR ''#'' \<notin> set target \<and>
    path_part target = path_part path \<and>
    query_pairs target = query_pairs path @ map (encoded_pair encode) (concat (map (call_pairs payload_pairs) calls))"
proof -
  let ?pairs = "concat (map (call_pairs payload_pairs) calls)"
  have "query_holds encode [] (rq_query (client_request no_headers meth (path @ fragment) :: ('h, 'b) request_builder))"
    by (simp add: query_holds_def client_request_def request_builder_new_def)
  from run_calls_query [OF assms(1) this assms(4)]
  have b: "query_holds encode ?pairs (rq_query b)" "rq_path b = path @ fragment"
    by (simp_all add: client_request_def request_builder_new_def)
  show ?thesis
  proof (cases "rq_query b = []")
    case True
    then show ?thesis using b assms(2) by (auto simp: request_target_def append_query_def query_holds_def)
  next
    case False
    then have "request_target b = append_query path (rq_query b) @ fragment"
      using append_query_fragment [OF assms(2,3)] b(2) by (simp add: request_target_def)
    moreover have "CHR ''#'' \<notin> set (append_query path (rq_query b))"
      using b(1) assms(2) append_query_plain [OF assms(2) False]
      by (auto simp: query_holds_def split: option.splits if_splits)
    ultimately show ?thesis
      using append_query_pairs [OF assms(2) False] b(1) by (auto simp: query_holds_def)
  qed
qed

definition example_query_calls :: "(string \<times> bool, (string \<times> string) list, unit) request_call list" where
  "example_query_calls = [Call_QueryPair ''b'' ''2'', Call_Query [(''c'', ''3''), (''b'', ''4'')]]"

definition query_example :: "(alist_header_map, unit) request_builder" where
  "query_example = (client_request [] method_GET ''/p?a=1#top'')\<lparr> rq_query := ''b=2&c=3&b=4'' \<rparr>"

theorem request_query_appended_witness:
  "run_calls alist_headers (li_header_values example_client) example_serde example_query_calls
     (client_request [] method_GET (''/p?a=1'' @ ''#top'')) = Ok query_example \<and>
   (\<exists>target. request_target query_example = target @ ''#top'' \<and>
     query_pairs target = [''a=1'', ''b=2'', ''c=3'', ''b=4''])"
proof -
  have run: "run_calls alist_headers (li_header_values example_client) example_serde example_query_calls
     (client_request [] method_GET (''/p?a=1'' @ ''#top'')) = Ok query_example"
    by (simp add: example_query_calls_def run_call_def request_query_pair_def request_query_def map_err_def
        example_serde_def example_append_pair_def encoded_pair_def example_encode_def query_example_def
        client_request_def request_builder_new_def)
  have pairs: "query_pairs ''/p?a=1'' = [''a=1'']" by (simp add: query_pairs_def)
  obtain target where "request_target query_example = target @ ''#top''"
    "query_pairs target = query_pairs ''/p?a=1'' @
       map (encoded_pair example_encode) (concat (map (call_pairs Ok) example_query_calls))"
    using request_query_appended [OF example_serde_laws(2) _ _ run] by auto
  then show ?thesis
    using run pairs by (auto simp: example_query_calls_def call_pairs_def encoded_pair_def example_encode_def)
qed

end
