(* ===== verification/Reqx_ProxyConnector.thy ===== *)
theory Reqx_ProxyConnector
  imports Reqx_Async
begin

text \<open>
  The connector of the asynchronous transport (\<open>src/src/async_client/proxy.rs\<close>): readiness, the target of
  a tunnel, and which of its two services opens a connection. The services of \<open>hyper_util\<close> that open
  connections, and the parts of \<open>http::Uri\<close> used only here, are the fields of \<open>connector_ops\<close>: a poll
  returns \<open>None\<close> while it is pending, \<open>uri_has_port\<close> is \<open>port().is_some()\<close> and \<open>uri_with_authority\<close> parses an
  authority and puts it into the URI with \<open>from_parts\<close>. The connection that a request gets is the one
  of \<open>connect_route_of\<close>, on which the properties of the client rest.
\<close>

record ('u, 'c, 'e) connector_ops =
  direct_poll_ready :: "'e unit_result option"
  tunnel_poll_ready :: "'e unit_result option"
  direct_call :: "'u \<Rightarrow> ('c, 'e) result"
  tunnel_call :: "'u \<Rightarrow> ('c, 'e) result"
  uri_has_port :: "'u \<Rightarrow> bool"
  uri_with_authority :: "string \<Rightarrow> 'u \<Rightarrow> 'u option"

record 'c proxy_connection =
  pcn_inner :: 'c
  pcn_proxied :: bool

definition proxy_connection_new :: "'c \<Rightarrow> bool \<Rightarrow> 'c proxy_connection" where
  "proxy_connection_new inner proxied = \<lparr> pcn_inner = inner, pcn_proxied = proxied \<rparr>"

text \<open>With a proxy the connector is ready when both of its services are.\<close>

definition connector_poll_ready :: "('u, 'c, 'e) connector_ops \<Rightarrow> bool \<Rightarrow> 'e unit_result option" where
  "connector_poll_ready C has_proxy =
     (if has_proxy
      then (case direct_poll_ready C of
              Some (Err e) \<Rightarrow> Some (Err e)
            | direct \<Rightarrow>
                (let direct_ready = (direct \<noteq> None)
                 in case tunnel_poll_ready C of
                      Some (Err e) \<Rightarrow> Some (Err e)
                    | tunnel \<Rightarrow>
                        (let tunnel_ready = (tunnel \<noteq> None)
                         in if direct_ready \<and> tunnel_ready then Some (Ok ()) else None)))
      else direct_poll_ready C)"

definition normalize_tunnel_target_uri :: "'u uri_ops \<Rightarrow> ('u, 'c, 'e) connector_ops \<Rightarrow> 'u \<Rightarrow> 'u" where
  "normalize_tunnel_target_uri U C dst =
     (if uri_has_port C dst then dst
      else case uri_scheme_str U dst of
        None \<Rightarrow> dst
      | Some scheme \<Rightarrow>
     (case (if eq_ignore_ascii_case scheme ''https'' then Some 443
            else if eq_ignore_ascii_case scheme ''http'' then Some 80 else None) of
        None \<Rightarrow> dst
      | Some port_number \<Rightarrow>
     (case uri_host U dst of
        None \<Rightarrow> dst
      | Some host \<Rightarrow>
          (let authority_text =
                 (if CHR '':'' \<in> set host \<and> \<not> starts_with host ''[''
                  then ''['' @ host @ '']:'' @ decimal port_number
                  else host @ '':'' @ decimal port_number)
           in unwrap_or dst (uri_with_authority C authority_text dst)))))"

definition opened :: "bool \<Rightarrow> ('c, 'e) result \<Rightarrow> ('c proxy_connection, 'e) result" where
  "opened proxied r = result_bind r (\<lambda>connection. Ok (proxy_connection_new connection proxied))"

definition connector_call ::
    "('h, 'v, 'u, 'w, 'n, 'b) client \<Rightarrow> ('u, 'c, 'e) connector_ops \<Rightarrow> 'u \<Rightarrow> ('c proxy_connection, 'e) result" where
  "connector_call K C dst =
     (case ci_proxy_config K of
        Some proxy \<Rightarrow>
          if should_bypass_proxy_uri (li_uris K) (li_proxies K) (pc_no_proxy_rules proxy) dst
          then opened False (direct_call C dst)
          else (let scheme = unwrap_or [] (uri_scheme_str (li_uris K) dst)
                in if eq_ignore_ascii_case scheme ''https''
                   then (let tunnel_target = normalize_tunnel_target_uri (li_uris K) C dst
                         in opened False (tunnel_call C tunnel_target))
                   else opened True (direct_call C (pc_uri proxy)))
      | None \<Rightarrow> opened False (direct_call C dst))"

subsection \<open>Lemmas\<close>

text \<open>The service that opens a connection is the one of the route that the client reckons with.\<close>

lemma connector_call_route:
  "connector_call K C dst =
     (case connect_route_of K dst of
        Route_Direct \<Rightarrow> opened False (direct_call C dst)
      | Route_Tunnel \<Rightarrow> opened False (tunnel_call C (normalize_tunnel_target_uri (li_uris K) C dst))
      | Route_Proxy \<Rightarrow> opened True (direct_call C (pc_uri (the (ci_proxy_config K)))))"
  by (simp add: connector_call_def connect_route_of_def Let_def split: option.splits)

text \<open>
  On a plain request the proxy's credentials are added exactly when the connection is marked as one to the
  proxy, for which \<open>hyper\<close> writes the absolute form of the target.
\<close>

lemma credentials_iff_proxied:
  assumes "uri_scheme_str (li_uris K) dst = Some scheme" "eq_ignore_ascii_case scheme ''http''"
    and "connector_call K C dst = Ok connection"
  shows "pcn_proxied connection \<longleftrightarrow> should_apply_http_proxy_auth_header K dst"
proof -
  have "\<not> eq_ignore_ascii_case scheme ''https''"
    using assms(2) by (auto simp: eq_ignore_ascii_case_def dest: arg_cong [where f = length])
  then show ?thesis
    using assms
    by (auto simp: connector_call_def should_apply_http_proxy_auth_header_def opened_def proxy_connection_new_def
        result_bind_Ok_iff split: option.splits if_splits)
qed

text \<open>A tunnel to an \<open>https\<close> target always names a port, by default 443, and an IPv6 host in brackets.\<close>

definition authority_laws :: "'u uri_ops \<Rightarrow> ('u, 'c, 'e) connector_ops \<Rightarrow> bool" where
  "authority_laws U C \<longleftrightarrow>
     (\<forall>a dst u. uri_with_authority C a dst = Some u \<longrightarrow>
        uri_authority U u = Some a \<and> uri_scheme_str U u = uri_scheme_str U dst \<and> uri_path U u = uri_path U dst)"

lemma tunnel_target:
  assumes "authority_laws U C" "\<not> uri_has_port C dst"
    and "uri_scheme_str U dst = Some scheme" "eq_ignore_ascii_case scheme ''https''" "uri_host U dst = Some host"
    and "uri_with_authority C (if CHR '':'' \<in> set host \<and> \<not> starts_with host ''[''
      then ''['' @ host @ '']:443'' else host @ '':443'') dst = Some u"
  shows "normalize_tunnel_target_uri U C dst = u \<and>
    uri_authority U u = Some (if CHR '':'' \<in> set host \<and> \<not> starts_with host ''['' then ''['' @ host @ '']:443'' else host @ '':443'') \<and>
    uri_scheme_str U u = Some scheme \<and> uri_path U u = uri_path U dst"
proof -
  have "decimal 443 = ''443''" by (simp add: decimal.simps char_of_def bit_numeral_rec bit_Suc_0_iff)
  then show ?thesis
    using assms by (auto simp: normalize_tunnel_target_uri_def authority_laws_def)
qed

lemma connector_ready_iff:
  "connector_poll_ready C True = Some (Ok ()) \<longleftrightarrow>
     direct_poll_ready C = Some (Ok ()) \<and> tunnel_poll_ready C = Some (Ok ())"
  by (auto simp: connector_poll_ready_def split: option.splits result.splits)

end
