(* ===== verification/Spec2Isabelle.thy ===== *)
theory Spec2Isabelle
  imports Reqx_CircuitBreaker Reqx_RetryBudget Reqx_Adaptive Reqx_RateLimit Reqx_Metrics
    Reqx_Execution Reqx_Limiters Reqx_BlockingProperties Reqx_AsyncProperties
    Reqx_UploadProperties Reqx_AsyncUploadProofs Reqx_BuilderProperties Reqx_RequestProperties Reqx_ProxyConnector
begin

text \<open>
  Verification of \<open>reqx\<close>, an HTTP client library for SDKs with an asynchronous and a blocking
  client over a shared core (\<open>src/src/core\<close>, \<open>src/src/resilience.rs\<close>, \<open>src/src/rate_limit.rs\<close>).

  \<^bold>\<open>The program.\<close> A request is prepared (base URL, URI, headers, overrides of the client's settings)
  and then goes through a loop of attempts. Before an attempt the rate limiter, the concurrency
  limits, the circuit breaker and the adaptive concurrency controller admit it; after the attempt a
  redirect is followed, a retry is scheduled within the attempts, the deadline and the retry budget,
  or the request completes. The guards of the attempt and the metrics record how it ended; a
  response stream does so when it is read to its end, fails or is dropped.

  \<^bold>\<open>Theories.\<close>
  \<^item> \<open>Reqx_Prelude\<close>: the parts of Rust and its standard library the crate uses (results, saturating
    integers, durations and instants in nanoseconds, ASCII strings) and shared lemmas.
  \<^item> \<open>Reqx_F64\<close>: binary64 arithmetic with rounding to nearest even. The locale \<open>rounding\<close>
    states what the proofs need; the interpretation \<open>bin64\<close> shows it for the model.
  \<^item> \<open>Reqx_Http\<close>: the interfaces of the crates \<open>http\<close> and \<open>url\<close> as records of functions, with the
    documented laws of a header map as \<open>header_map_laws\<close>, and concrete instances for the witnesses.
  \<^item> \<open>Reqx_BTreeMap\<close>: \<open>BTreeMap\<close> as a sorted association list (locale \<open>ordered_map\<close>, interpretation
    \<open>bt\<close>) and the eviction loop shared by the rate limiter and the concurrency limits.
  \<^item> \<open>Reqx_Error\<close> (\<open>core/error.rs\<close>): every error variant, its code, code text and accessors.
  \<^item> \<open>Reqx_Timing\<close> (\<open>core/util/timing.rs\<close>, \<open>core/util/backoff.rs\<close>): phase timeouts, deadlines,
    \<open>retry-after\<close> and the exponential back-off with jitter.
  \<^item> \<open>Reqx_RetryBudget\<close>, \<open>Reqx_CircuitBreaker\<close>, \<open>Reqx_Adaptive\<close> (\<open>resilience.rs\<close>): the three
    resilience controllers. The circuit breaker has a step relation over all attempts in flight.
  \<^item> \<open>Reqx_Permits\<close>: the locale \<open>permit_pool\<close>, the contract of a pool of permits, interpreted on the
    adaptive controller (\<open>adaptive\<close>) and on the global semaphore (\<open>global_limit\<close>).
  \<^item> \<open>Reqx_Limiters\<close> (\<open>core/limiters.rs\<close>, \<open>blocking_client/limiters.rs\<close>): the semaphores of the fixed
    limits, the table of hosts and its eviction, with reference counts on an explicit heap.
  \<^item> \<open>Reqx_RateLimit\<close> (\<open>rate_limit.rs\<close>): token buckets, the table of hosts, server throttling.
  \<^item> \<open>Reqx_Uri\<close> (\<open>core/util/uri.rs\<close>, \<open>core/util/redaction.rs\<close>): resolution of request URIs and the
    redaction of URIs in errors and logs.
  \<^item> \<open>Reqx_Headers\<close>, \<open>Reqx_Redirect\<close> (\<open>core/util/headers.rs\<close>, \<open>core/util/redirect.rs\<close>): framing, body
    excerpts with a model of lossy UTF-8 decoding, origins and the sanitisation of headers.
  \<^item> \<open>Reqx_Policy\<close> (\<open>core/retry.rs\<close>, \<open>core/policy.rs\<close>, \<open>core/config.rs\<close>, \<open>core/request_builder.rs\<close>,
    \<open>core/request_body.rs\<close>): policies, profiles, overrides and their validation.
  \<^item> \<open>Reqx_Execution\<close> (\<open>core/execution.rs\<close>): the state of a request, retry plans and schedules,
    attempt guards and redirects, with the states reachable by its operations.
  \<^item> \<open>Reqx_Metrics\<close> (\<open>core/metrics.rs\<close>, \<open>core/execution/lifecycle.rs\<close>): counters, the handles of
    pending requests and streams, and the completion of streams.
  \<^item> \<open>Reqx_ContentEncoding\<close> (\<open>core/content_encoding.rs\<close>, \<open>core/util/io.rs\<close>): the order of the
    decoders and the bounded reading of their output.
  \<^item> \<open>Reqx_Proxy\<close> (\<open>core/proxy.rs\<close>): the parser of IP addresses and the no-proxy rules.
  \<^item> \<open>Reqx_Transport\<close> (\<open>core/util/transport_error.rs\<close>, \<open>async_client/transport_error.rs\<close>,
    \<open>blocking_client/transport.rs\<close>): chains of causes, the classification of the errors of both
    transports, the bounded reading of a body.
  \<^item> \<open>Reqx_World\<close> (\<open>blocking_client/mod.rs\<close>, \<open>blocking_client/limiters.rs\<close>): the client and the state
    around a request of the blocking client, the waits for permits, and the log of what a request
    does, with a calculus of the resources that a step acquires and releases.
  \<^item> \<open>Reqx_BlockingStream\<close>, \<open>Reqx_BlockingStreamProofs\<close> (\<open>http/response.rs\<close>,
    \<open>http/response/blocking_stream.rs\<close>): the response stream. The locale \<open>stream_consumer\<close> is the
    contract of an operation that uses up a stream; it is interpreted on the five of them
    (\<open>dropped\<close>, \<open>collected_bytes\<close>, \<open>collected_response\<close>, \<open>copied\<close>, \<open>copied_limited\<close>).
  \<^item> \<open>Reqx_Blocking\<close> (\<open>blocking_client/execute.rs\<close>): the whole request of the blocking client, cut at
    the points where an iteration of its loop branches. \<open>Reqx_BlockingProofs\<close> has the effects of one
    iteration, \<open>Reqx_BlockingLoop\<close> those of the loop and its refinement of \<open>Reqx_Execution\<close>,
    \<open>Reqx_BlockingTermination\<close> the termination of the waits and of the loop, \<open>Reqx_BlockingRequest\<close> and
    \<open>Reqx_BlockingProperties\<close> the requests, with a concrete client that the witnesses run.
  \<^item> \<open>Reqx_Attempts\<close>: what the two clients share. The locale \<open>attempt_requests\<close> states how one iteration
    of a request's loop may end and derives the bounds on attempts; it is interpreted on both loops
    (\<open>blocking_requests\<close>, \<open>async_requests\<close>).
  \<^item> \<open>Reqx_AsyncWorld\<close> (\<open>async_client/mod.rs\<close>, \<open>limiters.rs\<close>, \<open>adaptive.rs\<close>, \<open>body.rs\<close>, \<open>proxy.rs\<close> there):
    futures, timeouts, the waits for permits and the choice of a connection. \<open>Reqx_AsyncStream\<close>, \<open>Reqx_AsyncStreamProofs\<close>
    (\<open>http/response/async_stream.rs\<close>): its response stream, which is a \<open>Body\<close> that can be polled, and
    its consumers. The locale \<open>awaited_consumer\<close> extends the contract of a consumer by its being
    dropped at an await; \<open>stream_consumer\<close> is a special case of it (\<open>sublocale\<close>), and it is
    interpreted on all asynchronous consumers.
  \<^item> \<open>Reqx_Async\<close> (\<open>async_client/client.rs\<close>, \<open>async_client/transport.rs\<close>): the whole request of the asynchronous client. \<open>Reqx_AsyncProofs\<close>, \<open>Reqx_AsyncLoop\<close>,
    \<open>Reqx_AsyncTermination\<close>, \<open>Reqx_AsyncRequest\<close> and \<open>Reqx_AsyncProperties\<close> have the same division as the
    theories of the blocking client.
  \<^item> \<open>Reqx_Upload\<close> (\<open>upload/mod.rs\<close>, \<open>upload/session.rs\<close>, \<open>upload/blocking.rs\<close>): the options,
    checkpoints and checksums of resumable uploads, the session and the blocking uploader over a backend
    with a state of its own. \<open>Reqx_UploadProofs\<close> has the relation \<open>advances\<close> of a session that takes up
    the parts of its source in order, and what each loop adds to the log; \<open>Reqx_UploadProperties\<close> has the
    checkpoints that hold the first parts of a source (\<open>holds_first\<close>) and the whole uploads.
  \<^item> \<open>Reqx_AsyncUpload\<close>, \<open>Reqx_AsyncUploadProofs\<close> (\<open>upload/asynchronous.rs\<close>): the asynchronous uploader,
    whose future may be dropped at every await. The relation \<open>ends_like\<close> says that it ends like the
    blocking one or has been dropped; the simulation goes through all its loops.
  \<^item> \<open>Reqx_Dns\<close> (\<open>core/dns.rs\<close>, \<open>async_client/dns.rs\<close>, \<open>blocking_client/dns.rs\<close>): the table of DNS overrides
    and both resolvers. \<open>Reqx_Pem\<close>, \<open>Reqx_Tls\<close> (\<open>tls.rs\<close> and the TLS parts of both transports): the parser
    of PEM bundles, the choice of a back end, protocol versions, trusted roots and identities. What
    the TLS crates do with certificates and keys is \<open>tls_ops\<close>; the features of the build are predicates
    on back ends.
  \<^item> \<open>Reqx_Extensions\<close> (\<open>core/extensions.rs\<close>): the rotation of endpoints and the normaliser of paths.
    \<open>Reqx_Otel\<close> (\<open>core/otel.rs\<close> and its calls in \<open>core/metrics.rs\<close>): the instruments and spans of a client.
  \<^item> \<open>Reqx_Builder\<close>, \<open>Reqx_Configure\<close>, \<open>Reqx_BuilderProperties\<close> (\<open>core/client_builder.rs\<close> and \<open>builder.rs\<close> of
    both clients): every setter, the validation and, for each client on its own, the construction with the
    first state of its controls. A chain of setters is a list of values of \<open>Reqx_Configure\<close>. A setter whose name is
    also that of a type is called \<open>builder_\<close> and its name.
  \<^item> \<open>Reqx_RequestBuilder\<close>, \<open>Reqx_RequestProperties\<close> (\<open>request.rs\<close> of both clients, \<open>http/response.rs\<close>): the
    request builders (\<open>request_\<close> and the name of the method), every way of sending and the conversions of
    a response. A chain of calls is a list of \<open>request_call\<close>; the state machine \<open>length_after\<close>
    specifies whose \<open>content-length\<close> a request carries.
  \<^item> \<open>Reqx_ProxyConnector\<close> (\<open>async_client/proxy.rs\<close>): the connector of the asynchronous client, which takes
    the route of \<open>connect_route_of\<close>.

  \<^bold>\<open>Modelling decisions.\<close> An operation under a mutex is one atomic function on the locked state; a
  clock reading is an argument \<open>now\<close>; randomness and every function of another crate is a
  parameter, and what is relied on is a named hypothesis (\<open>header_map_laws\<close>, \<open>sample_in_range\<close>, \<open>form_laws\<close>). A
  trait object is a function. Concurrent use is the set of all interleavings of the atomic
  functions: sequences of events folded over the state, or an inductive step relation. A record
  field carries a prefix for its struct. Integers are natural numbers with their saturation written
  out; \<open>usize\<close> is 64 bits wide. \<open>trim\<close> removes ASCII white space.
  The loop of the blocking client passes a \<open>world\<close> on: the time, the state that it shares with other
  requests and a log. What it does not control is a function of a counter of steps in the record
  \<open>client\<close>: the time that passes, the answers of the transport, what other threads do to the shared
  state before each lock, which waits time out. A property for all clients is one for all of these.
  In the asynchronous client every \<open>await\<close> is a point where the owner of the future may drop it (\<open>Dropped\<close>
  instead of \<open>Ready\<close>), and the locals that are alive there are dropped; when that happens, when a timer
  fires and whose turn it is in a queue are functions of the same counter (the fields \<open>ak_\<close>).

  \<^bold>\<open>Bounds.\<close> Statements on binary64 counters assume limits of at most \<open>2 ^ 53\<close> (bursts and adaptive
  limits), where integers are exact. Statements that count events assume that the counters do not
  saturate (at most \<open>u64_max\<close> requests). No definition uses fuel. A loop is structurally recursive or
  has a termination proof, except for the loops that wait for other threads or a server: these are
  partial functions, where \<open>None\<close> is a request that waits for ever, and
  \<open>blocking_request_terminates\<close> and \<open>async_request_terminates\<close> show that a request with a total timeout does
  not.

  \<^bold>\<open>What the properties show.\<close>
  \<^item> A request: attempts and redirects are bounded by the configuration, a body that cannot be
    replayed is attempted once, redirects leak no credentials, delays respect their caps and the
    deadline, framing is unambiguous, overrides and profiles are valid.
  \<^item> Admission: half-open probes, adaptive limit, per-host and global limits are respected under every
    interleaving; the rate limiter charges exactly the admitted requests and obeys server throttling;
    eviction from a table never changes what is admitted.
  \<^item> Feedback: the circuit breaker trips and recovers exactly at its thresholds and ignores late
    results; in each window the retry budget grants its allowance and no more, counted from what callers
    were told; the adaptive limit moves in the right direction.
  \<^item> Accounting and privacy: every request and every stream has exactly one recorded outcome;
    redaction removes credentials and nothing else.
  \<^item> A request of the blocking client as a whole: it releases what it acquires on every path, reports the
    error it returns exactly once, sends only what the abstract execution allows, keeps to its
    deadline in the transport, terminates, and bounds the body it buffers. A stream releases what it
    took over however it is used up, and is never truncated silently.
  \<^item> A request of the asynchronous client: the same, and it is safe to cancel: dropping its future or its
    stream at any \<open>await\<close> gives back what was acquired and records one outcome. Proxy credentials go
    to the proxy alone. Collecting a stream ends even when the peer stalls.
  \<^item> An upload: what it reports as uploaded is the whole source, each part confirmed once; an
    interrupted upload resumes with exactly the missing parts; the calls of the backend are bounded.
    An asynchronous upload that is not dropped makes the calls of the blocking one and has its result.
  \<^item> Configuration: a client that \<open>build\<close> returns satisfies what the theorems on requests assume of one,
    and the same setters configure both clients alike, errors included; a TLS transport trusts exactly the
    configured roots and presents exactly the configured identity, chain and key; a PEM bundle is read exactly; DNS overrides are found by the normal form of a host and keep
    their host off the system's resolver.
  \<^item> The request builders: the announced length follows the specification through any chain of calls, and
    the query that is sent is the one that the calls asked for.
  \<^item> Telemetry: every request is reported once, in agreement with the counters. Of its target a span says
    the scheme, host, port and normalised path of the parsed URI and nothing else, so that no identifiers,
    queries, user information or error texts are exported.

  \<^bold>\<open>Not modelled.\<close> The texts of \<open>Display\<close> and \<open>Debug\<close>, on which nothing in the crate depends. The \<open>io::ErrorKind\<close> under which the reader of a stream reports
  an error: it is found by downcasts along a chain of causes, and a boxed error is here its text and its
  source. The setters of the policies are record updates. Observers and interceptors are code of the
  caller, \<open>lib.rs\<close> has re-exports only. The pools and sockets of \<open>hyper\<close> and \<open>ureq\<close>, the handshakes
  of \<open>rustls\<close> and \<open>native-tls\<close> and the OpenTelemetry exporter are other crates; their observable
  behaviour is a parameter.
\<close>

end
